(* ===== verification/Prelude.thy ===== *)
theory Prelude
  imports Complex_Main "HOL-Library.Option_ord" "HOL-Library.Product_Lexorder"
begin

section \<open>Prelude: Python values, strings, results and list lemmas\<close>

text \<open>
  What every component of the development shares.

  \<^item> Python's \<open>str\<close> as \<^typ>\<open>string\<close>, one character per code point below 256, with the
    string methods the program calls (\<open>strip\<close>, \<open>lower\<close>, \<open>upper\<close>, \<open>split\<close>,
    \<open>partition\<close>, \<open>startswith\<close>, \<open>isdigit\<close>). Case mapping acts on the ASCII letters:
    the program normalises protocol tokens, host names and CVE numbers with it.
  \<^item> JSON values (JSONB columns, scanner records, event details) as the datatype \<open>json\<close>,
    with \<open>dict.get\<close>, truthiness and \<open>str\<close>.
  \<^item> Timestamps as integers: microseconds since the epoch, UTC. Durations are integers of the
    same unit, so \<open>now - timedelta(seconds = s)\<close> is \<open>now - s * second\<close>.
  \<^item> Exceptions as values of a sum, \<open>Inl\<close> the error, sequenced by \<open>rbind\<close>.
\<close>

named_theorems row_simps \<open>reading fields and primary keys of rows and tables\<close>
named_theorems frame_simps \<open>tables an operation leaves alone\<close>
named_theorems py_simps \<open>evaluation rules for the Python helpers\<close>

type_synonym time = int
type_synonym date = int

abbreviation second :: int where "second \<equiv> 1000000"
abbreviation minute :: int where "minute \<equiv> 60 * second"
abbreviation day :: int where "day \<equiv> 86400 * second"

subsection \<open>Results\<close>

definition rbind :: "'e + 'a \<Rightarrow> ('a \<Rightarrow> 'e + 'b) \<Rightarrow> 'e + 'b" where
  "rbind m f = (case m of Inl e \<Rightarrow> Inl e | Inr x \<Rightarrow> f x)"

lemma rbind_simps [simp]: "rbind (Inl e) f = Inl e" "rbind (Inr x) f = f x"
  by (simp_all add: rbind_def)

lemma rbind_Inr_iff: "rbind m f = Inr y \<longleftrightarrow> (\<exists>x. m = Inr x \<and> f x = Inr y)"
  by (cases m) auto

lemma rbind_Inl_iff: "rbind m f = Inl e \<longleftrightarrow> m = Inl e \<or> (\<exists>x. m = Inr x \<and> f x = Inl e)"
  by (cases m) auto

lemma rbind_assoc: "rbind (rbind m f) g = rbind m (\<lambda>x. rbind (f x) g)"
  by (cases m) simp_all

text \<open>A loop whose body may raise: \<open>for x in xs: s = body(x, s)\<close>.\<close>

fun rfold :: "('a \<Rightarrow> 's \<Rightarrow> 'e + 's) \<Rightarrow> 'a list \<Rightarrow> 's \<Rightarrow> 'e + 's" where
  "rfold f [] s = Inr s"
| "rfold f (x # xs) s = rbind (f x s) (rfold f xs)"

lemma rfold_append: "rfold f (xs @ ys) s = rbind (rfold f xs s) (rfold f ys)"
  by (induction xs arbitrary: s) (auto simp: rbind_def split: sum.splits)

lemma rfold_split:
  assumes "rfold f (ys @ x # zs) s = Inr u"
  obtains s1 t where "rfold f ys s = Inr s1" "f x s1 = Inr t" "rfold f zs t = Inr u"
proof -
  obtain s1 where s1: "rfold f ys s = Inr s1" "rfold f (x # zs) s1 = Inr u"
    using assms unfolding rfold_append rbind_Inr_iff by blast
  then show ?thesis using that by (auto simp: rbind_Inr_iff)
qed

lemma rfold_invariant:
  assumes "rfold f xs s = Inr s'" and "P s"
    and "\<And>x s t. x \<in> set xs \<Longrightarrow> P s \<Longrightarrow> f x s = Inr t \<Longrightarrow> P t"
  shows "P s'"
  using assms
proof (induction xs arbitrary: s)
  case Nil
  then show ?case by simp
next
  case (Cons x xs)
  then obtain t where "f x s = Inr t" "rfold f xs t = Inr s'"
    by (auto simp: rbind_Inr_iff)
  moreover have "P t" using Cons.prems calculation by (meson list.set_intros(1))
  ultimately show ?case using Cons.IH Cons.prems(3) by (meson list.set_intros(2))
qed

lemma fold_invariant_rule:
  assumes "P s" and "\<And>x s. x \<in> set xs \<Longrightarrow> P s \<Longrightarrow> P (f x s)"
  shows "P (fold f xs s)"
  using assms by (induction xs arbitrary: s) auto

text \<open>A sequence of fail-fast checks: the first failing one is the error raised.\<close>

definition require :: "bool \<Rightarrow> 'e \<Rightarrow> 'e + unit" where
  "require b e = (if b then Inr () else Inl e)"

definition when_some :: "'a option \<Rightarrow> ('a \<Rightarrow> 'e + unit) \<Rightarrow> 'e + unit" where
  "when_some v f = (case v of None \<Rightarrow> Inr () | Some x \<Rightarrow> f x)"

fun checks :: "('e + unit) list \<Rightarrow> 'e + unit" where
  "checks [] = Inr ()"
| "checks (c # cs) = rbind c (\<lambda>_. checks cs)"

lemma require_Inr [simp]: "require b e = Inr u \<longleftrightarrow> b"
  and require_Inl [simp]: "require b e = Inl e' \<longleftrightarrow> \<not> b \<and> e' = e"
  by (auto simp: require_def)

lemma when_some_Inr [simp]: "when_some v f = Inr u \<longleftrightarrow> (\<forall>x. v = Some x \<longrightarrow> f x = Inr ())"
  by (cases v) (auto simp: when_some_def)

lemma checks_Inr [simp]: "checks cs = Inr u \<longleftrightarrow> (\<forall>c \<in> set cs. c = Inr ())"
  by (induction cs) (auto simp: rbind_Inr_iff)

declare checks.simps [simp del, py_simps]

subsection \<open>Python strings\<close>

definition PY_SPACE :: "char list" where
  "PY_SPACE = [CHR '' '', CHR 0x09, CHR 0x0A, CHR 0x0B, CHR 0x0C, CHR 0x0D,
     CHR 0x1C, CHR 0x1D, CHR 0x1E, CHR 0x1F, CHR 0x85, CHR 0xA0]"

definition DIGITS :: string where "DIGITS = ''0123456789''"
definition LOWERS :: string where "LOWERS = ''abcdefghijklmnopqrstuvwxyz''"
definition UPPERS :: string where "UPPERS = ''ABCDEFGHIJKLMNOPQRSTUVWXYZ''"

definition is_space :: "char \<Rightarrow> bool" where "is_space c \<longleftrightarrow> c \<in> set PY_SPACE"
definition is_digit :: "char \<Rightarrow> bool" where "is_digit c \<longleftrightarrow> c \<in> set DIGITS"

definition lower_char :: "char \<Rightarrow> char" where
  "lower_char c = (case map_of (zip UPPERS LOWERS) c of None \<Rightarrow> c | Some d \<Rightarrow> d)"
definition upper_char :: "char \<Rightarrow> char" where
  "upper_char c = (case map_of (zip LOWERS UPPERS) c of None \<Rightarrow> c | Some d \<Rightarrow> d)"

definition py_lower :: "string \<Rightarrow> string" where "py_lower s = map lower_char s"
definition py_upper :: "string \<Rightarrow> string" where "py_upper s = map upper_char s"

definition lstrip :: "string \<Rightarrow> string" where "lstrip s = dropWhile is_space s"
definition rstrip :: "string \<Rightarrow> string" where "rstrip s = rev (dropWhile is_space (rev s))"
definition strip :: "string \<Rightarrow> string" where "strip s = rstrip (lstrip s)"
definition rstrip_chars :: "char list \<Rightarrow> string \<Rightarrow> string" where
  "rstrip_chars cs s = rev (dropWhile (\<lambda>c. c \<in> set cs) (rev s))"
definition strip_chars :: "char list \<Rightarrow> string \<Rightarrow> string" where
  "strip_chars cs s = rstrip_chars cs (dropWhile (\<lambda>c. c \<in> set cs) s)"

definition all_digits :: "string \<Rightarrow> bool" where
  \<comment> \<open>\<open>str.isdigit\<close>: false on the empty string\<close>
  "all_digits s \<longleftrightarrow> s \<noteq> [] \<and> list_all is_digit s"

text \<open>\<open>s.split(c)\<close> for a one-character separator: always at least one part.\<close>

fun split_on :: "char \<Rightarrow> string \<Rightarrow> string list" where
  "split_on c [] = [[]]"
| "split_on c (x # xs) =
     (if x = c then [] # split_on c xs
      else (case split_on c xs of [] \<Rightarrow> [[x]] | p # ps \<Rightarrow> (x # p) # ps))"

text \<open>\<open>s.partition(c)\<close> without the separator itself.\<close>

definition partition_on :: "char \<Rightarrow> string \<Rightarrow> string \<times> string" where
  "partition_on c s = (takeWhile (\<lambda>x. x \<noteq> c) s, drop 1 (dropWhile (\<lambda>x. x \<noteq> c) s))"

definition starts_with :: "string \<Rightarrow> string \<Rightarrow> bool" where
  "starts_with p s \<longleftrightarrow> take (length p) s = p"
definition ends_with :: "string \<Rightarrow> string \<Rightarrow> bool" where
  "ends_with p s \<longleftrightarrow> starts_with (rev p) (rev s)"

fun contains_str :: "string \<Rightarrow> string \<Rightarrow> bool" where
  \<comment> \<open>\<open>p in s\<close>\<close>
  "contains_str p [] = (p = [])"
| "contains_str p (x # xs) = (starts_with p (x # xs) \<or> contains_str p xs)"

fun join_with :: "string \<Rightarrow> string list \<Rightarrow> string" where
  "join_with sep [] = []"
| "join_with sep [x] = x"
| "join_with sep (x # y # ys) = x @ sep @ join_with sep (y # ys)"

definition digit_char :: "nat \<Rightarrow> char" where
  "digit_char n = (if n < 10 then DIGITS ! n else CHR ''0'')"

fun show_nat :: "nat \<Rightarrow> string" where
  "show_nat n = (if n < 10 then [digit_char n] else show_nat (n div 10) @ [digit_char (n mod 10)])"

declare show_nat.simps [simp del]

definition show_int :: "int \<Rightarrow> string" where
  "show_int i = (if i < 0 then CHR ''-'' # show_nat (nat (- i)) else show_nat (nat i))"

definition digit_val :: "char \<Rightarrow> nat" where
  "digit_val c = length (takeWhile (\<lambda>d. d \<noteq> c) DIGITS)"

definition parse_digits :: "string \<Rightarrow> nat" where
  "parse_digits s = foldl (\<lambda>n c. 10 * n + digit_val c) 0 s"

text \<open>\<open>int(s)\<close> on a string: optional surrounding whitespace and sign, then ASCII digits.
  (The underscore separators Python also accepts are rejected here.)\<close>

definition py_int :: "string \<Rightarrow> int option" where
  "py_int s = (let t = strip s in
     if all_digits t then Some (int (parse_digits t))
     else (case t of [] \<Rightarrow> None
       | c # ds \<Rightarrow>
          if c = CHR ''-'' \<and> all_digits ds then Some (- int (parse_digits ds))
          else if c = CHR ''+'' \<and> all_digits ds then Some (int (parse_digits ds)) else None))"

subsection \<open>Facts about the string functions\<close>

lemma is_digit_digit_char: "is_digit (digit_char n)"
proof (cases "n < 10")
  case True
  then have "n \<in> {0, 1, 2, 3, 4, 5, 6, 7, 8, 9}" by auto
  then show ?thesis by (auto simp: digit_char_def is_digit_def DIGITS_def)
qed (simp add: digit_char_def is_digit_def DIGITS_def)

lemma digit_val_digit_char: "n < 10 \<Longrightarrow> digit_val (digit_char n) = n"
proof -
  assume "n < 10"
  then have "n \<in> {0, 1, 2, 3, 4, 5, 6, 7, 8, 9}" by auto
  then show ?thesis by (auto simp: digit_char_def digit_val_def DIGITS_def)
qed

lemma show_nat_digits: "list_all is_digit (show_nat n)"
  by (induction n rule: show_nat.induct)
     (subst show_nat.simps, simp add: is_digit_digit_char)

lemma show_nat_ne [simp]: "show_nat n \<noteq> []"
  by (subst show_nat.simps) simp

lemma parse_show_nat [simp]: "parse_digits (show_nat n) = n"
proof (induction n rule: show_nat.induct)
  case (1 n)
  show ?case
  proof (cases "n < 10")
    case True
    then show ?thesis
      by (subst show_nat.simps) (simp add: parse_digits_def digit_val_digit_char)
  next
    case False
    then have "parse_digits (show_nat (n div 10)) = n div 10" by (rule "1")
    with False show ?thesis
      by (subst show_nat.simps) (simp add: parse_digits_def digit_val_digit_char)
  qed
qed

lemma show_nat_inj [simp]: "show_nat m = show_nat n \<longleftrightarrow> m = n"
  by (metis parse_show_nat)

lemma sep_not_in_show_nat: "\<not> is_digit c \<Longrightarrow> c \<notin> set (show_nat n)"
  using show_nat_digits [of n] by (auto simp: list_all_iff)

lemma colon_not_in_show_nat [simp]: "CHR '':'' \<notin> set (show_nat n)"
  by (rule sep_not_in_show_nat) (simp add: is_digit_def DIGITS_def)

text \<open>Two strings split at the first separator agree iff both sides do.\<close>

lemma append_sep_eq:
  assumes "c \<notin> set xs" and "c \<notin> set ys"
  shows "xs @ c # us = ys @ c # vs \<longleftrightarrow> xs = ys \<and> us = vs"
  using assms
proof (induction xs arbitrary: ys)
  case Nil
  then show ?case by (cases ys) auto
next
  case (Cons x xs)
  then show ?case by (cases ys) auto
qed

lemma py_int_show_nat: "py_int (show_nat n) = Some (int n)"
proof -
  have d: "list_all is_digit (show_nat n)" by (rule show_nat_digits)
  have sp: "\<And>c. is_digit c \<Longrightarrow> \<not> is_space c"
    by (auto simp: is_digit_def is_space_def DIGITS_def PY_SPACE_def)
  have hd: "is_digit (hd (show_nat n))" "is_digit (last (show_nat n))"
    using d by (auto simp: list_all_iff)
  have "dropWhile is_space (show_nat n) = show_nat n"
    using hd(1) sp by (cases "show_nat n") auto
  moreover have "dropWhile is_space (rev (show_nat n)) = rev (show_nat n)"
    using hd(2) sp by (cases "show_nat n" rule: rev_cases) auto
  ultimately have "strip (show_nat n) = show_nat n"
    by (simp add: strip_def lstrip_def rstrip_def)
  with d show ?thesis by (simp add: py_int_def all_digits_def)
qed

lemma lower_char_upper:
  "(c \<in> set UPPERS \<and> lower_char c \<in> set LOWERS) \<or> (c \<notin> set UPPERS \<and> lower_char c = c)"
proof (cases "c \<in> set UPPERS")
  case True
  then show ?thesis
    by (auto simp: UPPERS_def LOWERS_def lower_char_def)
next
  case False
  then have "map_of (zip UPPERS LOWERS) c = None"
    by (simp add: map_of_zip_is_None UPPERS_def LOWERS_def)
  with False show ?thesis by (simp add: lower_char_def)
qed

lemma lower_char_idem: "lower_char (lower_char c) = lower_char c"
proof -
  have "c \<in> set LOWERS \<Longrightarrow> c \<notin> set UPPERS" for c
    by (auto simp: UPPERS_def LOWERS_def)
  then show ?thesis using lower_char_upper by metis
qed

lemma py_lower_idem [simp]: "py_lower (py_lower s) = py_lower s"
  by (simp add: py_lower_def lower_char_idem)

lemma strip_eq_rdrop: "strip s = rev (dropWhile is_space (rev (dropWhile is_space s)))"
  by (simp add: strip_def lstrip_def rstrip_def)

lemma dropWhile_idem_hd: "dropWhile P xs = [] \<or> \<not> P (hd (dropWhile P xs))"
  by (cases "dropWhile P xs = []") (auto simp: hd_dropWhile)

lemma hd_rdrop:
  assumes "xs = [] \<or> \<not> P (hd xs)"
  shows "rev (dropWhile P (rev xs)) = [] \<or> \<not> P (hd (rev (dropWhile P (rev xs))))"
proof (cases xs)
  case Nil
  then show ?thesis by simp
next
  case (Cons y ys)
  with assms have "\<not> P y" by simp
  then have "rev (dropWhile P (rev xs)) = y # rev (dropWhile P (rev ys))"
    using Cons by (auto simp: dropWhile_append)
  with \<open>\<not> P y\<close> show ?thesis by simp
qed

lemma strip_idem [simp]: "strip (strip s) = strip s"
proof -
  let ?l = "dropWhile is_space s"
  let ?t = "rev (dropWhile is_space (rev ?l))"
  have "?t = [] \<or> \<not> is_space (hd ?t)"
    by (rule hd_rdrop) (rule dropWhile_idem_hd)
  then have fix1: "dropWhile is_space ?t = ?t"
    by (metis dropWhile.simps(1) dropWhile_eq_self_iff)
  have "dropWhile is_space (rev ?t) = rev ?t"
    by (simp add: dropWhile_eq_self_iff)
  with fix1 show ?thesis by (simp only: strip_eq_rdrop rev_rev_ident)
qed

subsection \<open>JSON values\<close>

datatype json =
    JNull
  | JBool bool
  | JInt int
  | JNum rat
  | JStr string
  | JArr "json list"
  | JObj "(string \<times> json) list"

fun is_obj :: "json \<Rightarrow> bool" where
  "is_obj (JObj kvs) = True" | "is_obj v = False"

fun truthy :: "json \<Rightarrow> bool" where
  "truthy JNull = False"
| "truthy (JBool b) = b"
| "truthy (JInt i) = (i \<noteq> 0)"
| "truthy (JNum q) = (q \<noteq> 0)"
| "truthy (JStr s) = (s \<noteq> [])"
| "truthy (JArr xs) = (xs \<noteq> [])"
| "truthy (JObj kvs) = (kvs \<noteq> [])"

text \<open>\<open>d.get(k)\<close> with the default \<open>None\<close>; the program calls it on dicts only, after an
  \<open>isinstance\<close> check or on the document it built.\<close>

fun jget :: "string \<Rightarrow> json \<Rightarrow> json" where
  "jget k (JObj kvs) = (case map_of kvs k of None \<Rightarrow> JNull | Some v \<Rightarrow> v)"
| "jget k v = JNull"

text \<open>\<open>x if isinstance(x, dict) else {}\<close> and \<open>x or {}\<close>.\<close>

fun as_obj :: "json \<Rightarrow> json" where
  "as_obj (JObj kvs) = JObj kvs" | "as_obj v = JObj []"

definition jor :: "json \<Rightarrow> json \<Rightarrow> json" where
  "jor a b = (if truthy a then a else b)"

definition jput :: "string \<Rightarrow> json \<Rightarrow> (string \<times> json) list \<Rightarrow> (string \<times> json) list" where
  \<comment> \<open>\<open>d[k] = v\<close>: in place when the key is there, else appended\<close>
  "jput k v kvs = (if k \<in> fst ` set kvs then map (\<lambda>(k', v'). if k' = k then (k', v) else (k', v')) kvs
     else kvs @ [(k, v)])"

definition jupdate :: "(string \<times> json) list \<Rightarrow> (string \<times> json) list \<Rightarrow> (string \<times> json) list" where
  \<comment> \<open>\<open>d.update(e)\<close>\<close>
  "jupdate d e = fold (\<lambda>(k, v). jput k v) e d"

fun as_arr :: "json \<Rightarrow> json list" where
  "as_arr (JArr xs) = xs" | "as_arr v = []"

fun as_str :: "json \<Rightarrow> string option" where
  "as_str (JStr s) = Some s" | "as_str v = None"

fun as_int :: "json \<Rightarrow> int option" where
  "as_int (JInt i) = Some i" | "as_int v = None"

text \<open>\<open>int(v)\<close> on a decoded JSON value; \<open>None\<close> is a TypeError or ValueError.\<close>

fun json_int :: "json \<Rightarrow> int option" where
  "json_int (JInt i) = Some i"
| "json_int (JBool b) = Some (if b then 1 else 0)"
| "json_int (JNum q) = Some (if q < 0 then - \<lfloor>- q\<rfloor> else \<lfloor>q\<rfloor>)"
| "json_int (JStr s) = py_int s"
| "json_int v = None"

fun as_nat :: "json \<Rightarrow> nat option" where
  \<comment> \<open>a row id stored in a document\<close>
  "as_nat (JInt i) = (if 0 \<le> i then Some (nat i) else None)"
| "as_nat v = None"

fun jopt :: "('a \<Rightarrow> json) \<Rightarrow> 'a option \<Rightarrow> json" where
  "jopt f None = JNull" | "jopt f (Some x) = f x"

abbreviation jnat :: "nat \<Rightarrow> json" where "jnat n \<equiv> JInt (int n)"

lemma map_of_jput: "map_of (jput k v kvs) k' = (if k' = k then Some v else map_of kvs k')"
proof (cases "k \<in> fst ` set kvs")
  case True
  have "k \<in> fst ` set kvs \<or> k' \<noteq> k \<Longrightarrow>
      map_of (map (\<lambda>(j, v'). if j = k then (j, v) else (j, v')) kvs) k' =
      (if k' = k then Some v else map_of kvs k')"
    by (induction kvs) (auto simp: rev_image_eqI)
  with True show ?thesis by (simp add: jput_def)
next
  case False
  then have "map_of kvs k = None" by (simp add: map_of_eq_None_iff)
  with False show ?thesis
    by (auto simp: jput_def map_add_def split: option.splits)
qed

lemma jget_jput [simp]: "jget k' (JObj (jput k v kvs)) = (if k' = k then v else jget k' (JObj kvs))"
  by (simp add: map_of_jput)

subsection \<open>Lists\<close>

definition first_match :: "('a \<Rightarrow> bool) \<Rightarrow> 'a list \<Rightarrow> 'a option" where
  \<comment> \<open>\<open>query.filter(P).first()\<close>: the rows are read in insertion order\<close>
  "first_match P xs = (case filter P xs of [] \<Rightarrow> None | x # _ \<Rightarrow> Some x)"

lemma first_match_Nil [simp]: "first_match P [] = None"
  by (simp add: first_match_def)

lemma first_match_Cons [simp]:
  "first_match P (x # xs) = (if P x then Some x else first_match P xs)"
  by (simp add: first_match_def)

lemma first_match_Some: "first_match P xs = Some x \<Longrightarrow> x \<in> set xs \<and> P x"
  by (auto simp: first_match_def filter_eq_Cons_iff split: list.splits)

lemma first_match_None: "first_match P xs = None \<longleftrightarrow> (\<forall>x \<in> set xs. \<not> P x)"
  by (induction xs) auto

lemma first_match_append:
  "first_match P (xs @ ys) = (case first_match P xs of None \<Rightarrow> first_match P ys | Some x \<Rightarrow> Some x)"
  by (induction xs) auto

lemma first_match_cong:
  "(\<And>x. x \<in> set xs \<Longrightarrow> P x = Q x) \<Longrightarrow> first_match P xs = first_match Q xs"
  unfolding first_match_def using filter_cong [of xs xs P Q] by simp

lemma first_match_unique:
  assumes "distinct (map f xs)" "x \<in> set xs"
  shows "first_match (\<lambda>y. f y = f x) xs = Some x"
  using assms by (induction xs) (auto simp: image_iff)

fun dedup :: "'a list \<Rightarrow> 'a list" where
  \<comment> \<open>\<open>seen\<close>-set loops and \<open>dict.fromkeys\<close>: first occurrences, in order\<close>
  "dedup [] = []"
| "dedup (x # xs) = x # filter (\<lambda>y. y \<noteq> x) (dedup xs)"

lemma set_dedup [simp]: "set (dedup xs) = set xs"
  by (induction xs) auto

lemma distinct_dedup [simp]: "distinct (dedup xs)"
  by (induction xs) auto

lemma dedup_id: "distinct xs \<Longrightarrow> dedup xs = xs"
proof (induction xs)
  case (Cons x xs)
  then have "filter (\<lambda>y. y \<noteq> x) xs = xs" by (auto simp: filter_id_conv)
  with Cons show ?case by simp
qed simp

text \<open>\<open>max(xs, default)\<close> and \<open>min\<close> over optional stamps.\<close>

definition max_opt :: "int list \<Rightarrow> int option" where
  "max_opt xs = (case xs of [] \<Rightarrow> None | y # ys \<Rightarrow> Some (foldl max y ys))"
definition min_opt :: "int list \<Rightarrow> int option" where
  "min_opt xs = (case xs of [] \<Rightarrow> None | y # ys \<Rightarrow> Some (foldl min y ys))"

lemma foldl_max_ge: "y \<le> foldl max y ys \<and> (\<forall>z \<in> set ys. z \<le> foldl max y ys)" for y :: int
  by (induction ys arbitrary: y) (auto, meson max.boundedE, (meson max.boundedE)+)

lemma max_opt_ge: "x \<in> set xs \<Longrightarrow> \<exists>m. max_opt xs = Some m \<and> x \<le> m"
  using foldl_max_ge by (cases xs) (auto simp: max_opt_def)

text \<open>\<open>rows.sort(key, reverse = True); rows[0]\<close>, or \<open>ORDER BY key DESC LIMIT 1\<close>: the first
  row with the greatest key.\<close>

definition newest_by :: "('a \<Rightarrow> 'k::linorder) \<Rightarrow> 'a list \<Rightarrow> 'a option" where
  "newest_by k xs = (case xs of [] \<Rightarrow> None
     | y # ys \<Rightarrow> Some (foldl (\<lambda>a b. if k a < k b then b else a) y ys))"

lemma newest_by_None [simp]: "newest_by k xs = None \<longleftrightarrow> xs = []"
  by (simp add: newest_by_def split: list.splits)

lemma foldl_newest:
  "foldl (\<lambda>a b. if k a < k b then b else a) y ys \<in> set (y # ys) \<and>
   (\<forall>z \<in> set (y # ys). k z \<le> k (foldl (\<lambda>a b. if k a < k b then b else a) y ys))"
  for k :: "'a \<Rightarrow> 'k::linorder"
proof (induction ys rule: rev_induct)
  case (snoc z zs)
  then show ?case by (auto simp: not_less intro: order.trans less_imp_le)
qed simp

lemma newest_by_Some:
  assumes "newest_by k xs = Some m"
  shows "m \<in> set xs \<and> (\<forall>z \<in> set xs. k z \<le> k m)"
proof (cases xs)
  case (Cons y ys)
  with assms show ?thesis using foldl_newest [where k = k and y = y and ys = ys]
    by (simp add: newest_by_def)
qed (insert assms, simp add: newest_by_def)

text \<open>Stable sort by a key, as Python's \<open>sorted(key = ...)\<close>.\<close>

definition sorted_by :: "('a \<Rightarrow> 'k::linorder) \<Rightarrow> 'a list \<Rightarrow> 'a list" where
  "sorted_by k xs = sort_key k xs"

lemma set_sorted_by [simp]: "set (sorted_by k xs) = set xs"
  by (simp add: sorted_by_def)

end
