(* ===== verification/Table.thy ===== *)
theory Table
  imports Prelude
begin

section \<open>Tables of rows\<close>

text \<open>
  A PostgreSQL table as the program sees it through a SQLAlchemy session: its rows in insertion
  order and the next value of its primary-key sequence (a deleted key is never handed out
  again). \<open>query.filter(P).all()\<close> is \<open>t_select\<close>, \<open>.first()\<close> is \<open>t_first\<close>,
  \<open>db.get(Model, id)\<close> is \<open>t_get\<close>, \<open>db.add(row); db.flush()\<close> is \<open>t_insert\<close> and an
  attribute write on a loaded row, or \<open>query.update\<close>, is \<open>t_modify\<close>.

  Two contracts of the table are stated as locales. \<open>keyed\<close>: rows have a primary key and
  updates do not move it. \<open>insert_once\<close>: a log whose rows carry an idempotence key and whose
  only writer inserts a row unless the key is taken, which is what makes replays of a batch
  harmless throughout the program.
\<close>

record 'r tbl =
  t_next :: nat
  t_rows :: "'r list"

definition t_empty :: "'r tbl" where "t_empty = \<lparr>t_next = 1, t_rows = []\<rparr>"

definition t_select :: "('r \<Rightarrow> bool) \<Rightarrow> 'r tbl \<Rightarrow> 'r list" where
  "t_select P t = filter P (t_rows t)"

definition t_first :: "('r \<Rightarrow> bool) \<Rightarrow> 'r tbl \<Rightarrow> 'r option" where
  "t_first P t = first_match P (t_rows t)"

definition t_get :: "('r \<Rightarrow> nat) \<Rightarrow> nat \<Rightarrow> 'r tbl \<Rightarrow> 'r option" where
  "t_get key i t = t_first (\<lambda>r. key r = i) t"

definition t_exists :: "('r \<Rightarrow> bool) \<Rightarrow> 'r tbl \<Rightarrow> bool" where
  "t_exists P t \<longleftrightarrow> list_ex P (t_rows t)"

definition t_insert :: "(nat \<Rightarrow> 'r) \<Rightarrow> 'r tbl \<Rightarrow> 'r tbl" where
  "t_insert mk t = t\<lparr>t_next := Suc (t_next t), t_rows := t_rows t @ [mk (t_next t)]\<rparr>"

definition t_modify :: "('r \<Rightarrow> bool) \<Rightarrow> ('r \<Rightarrow> 'r) \<Rightarrow> 'r tbl \<Rightarrow> 'r tbl" where
  "t_modify P f t = t\<lparr>t_rows := map (\<lambda>r. if P r then f r else r) (t_rows t)\<rparr>"

definition t_delete :: "('r \<Rightarrow> bool) \<Rightarrow> 'r tbl \<Rightarrow> 'r tbl" where
  "t_delete P t = t\<lparr>t_rows := filter (\<lambda>r. \<not> P r) (t_rows t)\<rparr>"

lemma t_rows_insert [simp, row_simps]: "t_rows (t_insert mk t) = t_rows t @ [mk (t_next t)]"
  and t_next_insert [simp, row_simps]: "t_next (t_insert mk t) = Suc (t_next t)"
  and t_rows_modify [simp, row_simps]: "t_rows (t_modify P f t) = map (\<lambda>r. if P r then f r else r) (t_rows t)"
  and t_next_modify [simp, row_simps]: "t_next (t_modify P f t) = t_next t"
  and t_rows_delete [simp, row_simps]: "t_rows (t_delete P t) = filter (\<lambda>r. \<not> P r) (t_rows t)"
  and t_next_delete [simp, row_simps]: "t_next (t_delete P t) = t_next t"
  and t_rows_empty [simp, row_simps]: "t_rows t_empty = []"
  by (simp_all add: t_insert_def t_modify_def t_delete_def t_empty_def)

lemma t_first_insert:
  "t_first P (t_insert mk t) =
     (case t_first P t of None \<Rightarrow> if P (mk (t_next t)) then Some (mk (t_next t)) else None
      | Some r \<Rightarrow> Some r)"
  by (auto simp: t_first_def first_match_append split: option.splits)

lemma t_first_Some: "t_first P t = Some r \<Longrightarrow> r \<in> set (t_rows t) \<and> P r"
  by (auto simp: t_first_def dest: first_match_Some)

lemma t_first_None: "t_first P t = None \<longleftrightarrow> (\<forall>r \<in> set (t_rows t). \<not> P r)"
  by (simp add: t_first_def first_match_None)

lemma t_get_Some: "t_get key i t = Some r \<Longrightarrow> r \<in> set (t_rows t) \<and> key r = i"
  by (auto simp: t_get_def dest: t_first_Some)

lemma t_exists_iff: "t_exists P t \<longleftrightarrow> (\<exists>r \<in> set (t_rows t). P r)"
  by (simp add: t_exists_def list_ex_iff)

lemma t_modify_none: "(\<And>r. r \<in> set (t_rows t) \<Longrightarrow> \<not> P r) \<Longrightarrow> t_modify P f t = t"
proof -
  assume "\<And>r. r \<in> set (t_rows t) \<Longrightarrow> \<not> P r"
  then have "map (\<lambda>r. if P r then f r else r) (t_rows t) = t_rows t"
    by (simp add: map_idI)
  then show ?thesis by (simp add: t_modify_def)
qed

text \<open>The primary key is unique and below the sequence.\<close>

definition t_wf :: "('r \<Rightarrow> nat) \<Rightarrow> 'r tbl \<Rightarrow> bool" where
  "t_wf key t \<longleftrightarrow> distinct (map key (t_rows t)) \<and> list_all (\<lambda>r. key r < t_next t) (t_rows t)"

lemma t_wf_empty: "t_wf key t_empty"
  by (simp add: t_wf_def)

lemma t_wf_delete: "t_wf key t \<Longrightarrow> t_wf key (t_delete P t)"
  by (auto simp: t_wf_def list_all_iff distinct_map_filter)

lemma t_wf_get: "t_wf key t \<Longrightarrow> r \<in> set (t_rows t) \<Longrightarrow> t_get key (key r) t = Some r"
  by (simp add: t_get_def t_first_def t_wf_def first_match_unique)

lemma t_wf_eq: "t_wf key t \<Longrightarrow> r \<in> set (t_rows t) \<Longrightarrow> s \<in> set (t_rows t) \<Longrightarrow> key r = key s \<Longrightarrow> r = s"
  by (auto simp: t_wf_def distinct_map inj_on_def)

lemma t_wf_fresh: "t_wf key t \<Longrightarrow> t_get key (t_next t) t = None"
  by (auto simp: t_get_def t_first_None t_wf_def list_all_iff)

subsection \<open>Keyed rows\<close>

locale keyed =
  fixes key :: "'r \<Rightarrow> nat"
    and upd :: "'a \<Rightarrow> 'r \<Rightarrow> 'r"
  assumes key_upd [simp]: "key (upd a r) = key r"
begin

lemma wf_modify: "t_wf key t \<Longrightarrow> t_wf key (t_modify P (upd a) t)"
proof -
  assume wf: "t_wf key t"
  have "key \<circ> (\<lambda>r. if P r then upd a r else r) = key"
    by (auto simp: fun_eq_iff)
  with wf show ?thesis by (auto simp: t_wf_def list_all_iff)
qed

lemma get_modify_same:
  assumes "t_wf key t" "t_get key i t = Some r"
  shows "t_get key i (t_modify (\<lambda>r. key r = i) (upd a) t) = Some (upd a r)"
proof -
  have mem: "r \<in> set (t_rows t)" "key r = i" using assms(2) by (auto dest: t_get_Some)
  then have "upd a r \<in> set (t_rows (t_modify (\<lambda>r. key r = i) (upd a) t))" by force
  moreover have "t_wf key (t_modify (\<lambda>r. key r = i) (upd a) t)" using assms(1) by (rule wf_modify)
  ultimately have "t_get key (key (upd a r)) (t_modify (\<lambda>r. key r = i) (upd a) t) = Some (upd a r)"
    by (rule t_wf_get [rotated])
  with mem show ?thesis by simp
qed

lemma get_modify_other:
  assumes "j \<noteq> i"
  shows "t_get key j (t_modify (\<lambda>r. key r = i) (upd a) t) = t_get key j t"
proof -
  have "first_match (\<lambda>r. key r = j) (map (\<lambda>r. if key r = i then upd a r else r) xs) =
      first_match (\<lambda>r. key r = j) xs" for xs
    using assms by (induction xs) auto
  then show ?thesis by (simp add: t_get_def t_first_def)
qed

end

subsection \<open>Logs with an idempotence key\<close>

definition put_once :: "('r \<Rightarrow> 'k) \<Rightarrow> 'k \<Rightarrow> (nat \<Rightarrow> 'r) \<Rightarrow> 'r tbl \<Rightarrow> 'r tbl" where
  "put_once ikey k mk t = (if t_exists (\<lambda>r. ikey r = k) t then t else t_insert mk t)"

locale insert_once =
  fixes ikey :: "'r \<Rightarrow> 'k"
    and put :: "'a \<Rightarrow> 'r tbl \<Rightarrow> 'r tbl"
    and key_of :: "'a \<Rightarrow> 'k"
    and row_of :: "'a \<Rightarrow> nat \<Rightarrow> 'r"
  assumes put_def: "put a t = put_once ikey (key_of a) (row_of a) t"
    and ikey_row: "ikey (row_of a i) = key_of a"
begin

lemma put_present: "t_exists (\<lambda>r. ikey r = key_of a) (put a t)"
  by (auto simp: put_def put_once_def t_exists_iff ikey_row)

lemma put_replay: "put a (put a t) = put a t"
  using put_present [of a t] by (simp add: put_def [of a "put a t"] put_once_def)

lemma put_again: "t_exists (\<lambda>r. ikey r = key_of a) t \<Longrightarrow> put a t = t"
  by (simp add: put_def put_once_def)

lemma put_keeps: "r \<in> set (t_rows t) \<Longrightarrow> r \<in> set (t_rows (put a t))"
  by (auto simp: put_def put_once_def)

lemma put_prefix: "\<exists>new. t_rows (put a t) = t_rows t @ new"
  by (auto simp: put_def put_once_def)

lemma put_keys: "ikey ` set (t_rows (put a t)) = insert (key_of a) (ikey ` set (t_rows t))"
  by (auto simp: put_def put_once_def t_exists_iff ikey_row intro: rev_image_eqI)

lemma put_distinct: "distinct (map ikey (t_rows t)) \<Longrightarrow> distinct (map ikey (t_rows (put a t)))"
  by (auto simp: put_def put_once_def t_exists_iff ikey_row image_iff)

lemma fold_put_keys: "ikey ` set (t_rows (fold put as t)) = ikey ` set (t_rows t) \<union> key_of ` set as"
  by (induction as arbitrary: t) (auto simp: put_keys)

lemma fold_put_distinct:
  "distinct (map ikey (t_rows t)) \<Longrightarrow> distinct (map ikey (t_rows (fold put as t)))"
  by (induction as arbitrary: t) (auto simp: put_distinct)

lemma fold_put_idle: "key_of ` set as \<subseteq> ikey ` set (t_rows t) \<Longrightarrow> fold put as t = t"
proof (induction as)
  case (Cons a as)
  then have "t_exists (\<lambda>r. ikey r = key_of a) t" by (auto simp: t_exists_iff)
  with Cons show ?case by (simp add: put_again)
qed simp

lemma fold_put_replay: "fold put as (fold put as t) = fold put as t"
  by (rule fold_put_idle) (simp add: fold_put_keys)

end

end
