(* ===== verification/Constants.thy ===== *)
theory Constants
  imports Prelude
begin

section \<open>The constants of models.py\<close>

text \<open>
  The tokens the program stores in its state columns and compares against, under the names of
  \<^verbatim>\<open>backend/app/models.py\<close>. A token is an abbreviation, so a comparison of two states is a
  comparison of two string literals and the simplifier decides it; a \<open>frozenset\<close> of tokens is
  a list, in the source's order, read through \<^term>\<open>set\<close>.
\<close>

subsection \<open>Tokens and limits\<close>

abbreviation DISPATCH_ANY_AVAILABLE :: string where "DISPATCH_ANY_AVAILABLE \<equiv> ''any_available''"
abbreviation DISPATCH_PREFERRED_FAILOVER :: string where "DISPATCH_PREFERRED_FAILOVER \<equiv> ''preferred_failover''"
abbreviation COMPATIBILITY_SITE_NAME :: string where "COMPATIBILITY_SITE_NAME \<equiv> ''Imported Site''"
abbreviation UNASSIGNED_SITE_NAME :: string where "UNASSIGNED_SITE_NAME \<equiv> ''Unassigned Assets''"
abbreviation LIFECYCLE_ACTIVE :: string where "LIFECYCLE_ACTIVE \<equiv> ''active''"
abbreviation LIFECYCLE_INACTIVE :: string where "LIFECYCLE_INACTIVE \<equiv> ''inactive''"
abbreviation DISPOSITION_UNREVIEWED :: string where "DISPOSITION_UNREVIEWED \<equiv> ''unreviewed''"
abbreviation DISPOSITION_APPROVED :: string where "DISPOSITION_APPROVED \<equiv> ''approved''"
abbreviation DISPOSITION_UNAUTHORIZED :: string where "DISPOSITION_UNAUTHORIZED \<equiv> ''unauthorized''"
abbreviation DISPOSITION_IGNORED :: string where "DISPOSITION_IGNORED \<equiv> ''ignored''"
abbreviation CRITICALITY_LOW :: string where "CRITICALITY_LOW \<equiv> ''low''"
abbreviation CRITICALITY_NORMAL :: string where "CRITICALITY_NORMAL \<equiv> ''normal''"
abbreviation CRITICALITY_HIGH :: string where "CRITICALITY_HIGH \<equiv> ''high''"
abbreviation CRITICALITY_CRITICAL :: string where "CRITICALITY_CRITICAL \<equiv> ''critical''"
abbreviation IDENTIFIER_MAC :: string where "IDENTIFIER_MAC \<equiv> ''mac''"
abbreviation IDENTIFIER_HOSTNAME :: string where "IDENTIFIER_HOSTNAME \<equiv> ''hostname''"
abbreviation IDENTIFIER_FQDN :: string where "IDENTIFIER_FQDN \<equiv> ''fqdn''"
abbreviation IDENTIFIER_DNS_NAME :: string where "IDENTIFIER_DNS_NAME \<equiv> ''dns_name''"
abbreviation IDENTIFIER_TLS_NAME :: string where "IDENTIFIER_TLS_NAME \<equiv> ''tls_name''"
abbreviation IDENTIFIER_SERIAL :: string where "IDENTIFIER_SERIAL \<equiv> ''serial''"
abbreviation IDENTIFIER_DEVICE_ID :: string where "IDENTIFIER_DEVICE_ID \<equiv> ''device_id''"
abbreviation IDENTIFIER_OTHER :: string where "IDENTIFIER_OTHER \<equiv> ''other''"
abbreviation SOURCE_SCANNER :: string where "SOURCE_SCANNER \<equiv> ''scanner''"
abbreviation SOURCE_LEGACY_MIGRATION :: string where "SOURCE_LEGACY_MIGRATION \<equiv> ''legacy_migration''"
abbreviation SOURCE_MANUAL :: string where "SOURCE_MANUAL \<equiv> ''manual''"
abbreviation IDENTIFIER_VALIDITY_ACTIVE :: string where "IDENTIFIER_VALIDITY_ACTIVE \<equiv> ''active''"
abbreviation IDENTIFIER_VALIDITY_INCORRECT :: string where "IDENTIFIER_VALIDITY_INCORRECT \<equiv> ''incorrect''"
abbreviation DECISION_LINKED_EXISTING :: string where "DECISION_LINKED_EXISTING \<equiv> ''linked_existing''"
abbreviation DECISION_CREATED_NEW :: string where "DECISION_CREATED_NEW \<equiv> ''created_new''"
abbreviation DECISION_AMBIGUOUS :: string where "DECISION_AMBIGUOUS \<equiv> ''ambiguous''"
abbreviation CONFIDENCE_HIGH :: string where "CONFIDENCE_HIGH \<equiv> ''high''"
abbreviation CONFIDENCE_MEDIUM :: string where "CONFIDENCE_MEDIUM \<equiv> ''medium''"
abbreviation CONFIDENCE_LOW :: string where "CONFIDENCE_LOW \<equiv> ''low''"
abbreviation EVENT_NEW_ASSET :: string where "EVENT_NEW_ASSET \<equiv> ''new_asset''"
abbreviation EVENT_ASSET_BECAME_INACTIVE :: string where "EVENT_ASSET_BECAME_INACTIVE \<equiv> ''asset_became_inactive''"
abbreviation EVENT_PREVIOUSLY_INACTIVE_RETURNED :: string where "EVENT_PREVIOUSLY_INACTIVE_RETURNED \<equiv> ''previously_inactive_asset_returned''"
abbreviation CORRELATION_ALGORITHM_VERSION :: string where "CORRELATION_ALGORITHM_VERSION \<equiv> ''1c.3''"
abbreviation SNAPSHOT_VERSION :: string where "SNAPSHOT_VERSION \<equiv> ''1d.1''"
abbreviation SNAPSHOT_LEGACY_PRE_1D :: string where "SNAPSHOT_LEGACY_PRE_1D \<equiv> ''legacy_pre_1d''"
abbreviation LEGACY_PRE_1D_REQUEUE_ERROR :: string where "LEGACY_PRE_1D_REQUEUE_ERROR \<equiv> ''Pre-1D job has no immutable execution snapshot and must be requeued after Phase 1D upgrade''"
abbreviation EVENT_SCAN_MISSED_UNAVAILABLE_AGENT :: string where "EVENT_SCAN_MISSED_UNAVAILABLE_AGENT \<equiv> ''scan_missed_unavailable_agent''"
abbreviation DETECTOR_NUCLEI :: string where "DETECTOR_NUCLEI \<equiv> ''nuclei''"
abbreviation TECHNICAL_OPEN :: string where "TECHNICAL_OPEN \<equiv> ''open''"
abbreviation TECHNICAL_RESOLVED :: string where "TECHNICAL_RESOLVED \<equiv> ''resolved''"
abbreviation TREATMENT_UNADDRESSED :: string where "TREATMENT_UNADDRESSED \<equiv> ''unaddressed''"
abbreviation TREATMENT_MITIGATED :: string where "TREATMENT_MITIGATED \<equiv> ''mitigated''"
abbreviation TREATMENT_ACCEPTED_RISK :: string where "TREATMENT_ACCEPTED_RISK \<equiv> ''accepted_risk''"
abbreviation TREATMENT_FALSE_POSITIVE :: string where "TREATMENT_FALSE_POSITIVE \<equiv> ''false_positive''"
abbreviation HISTORY_OPENED :: string where "HISTORY_OPENED \<equiv> ''opened''"
abbreviation HISTORY_RESOLVED :: string where "HISTORY_RESOLVED \<equiv> ''resolved''"
abbreviation HISTORY_REOPENED :: string where "HISTORY_REOPENED \<equiv> ''reopened''"
abbreviation EVALUATION_DETECTED :: string where "EVALUATION_DETECTED \<equiv> ''detected''"
abbreviation EVALUATION_CLEAN :: string where "EVALUATION_CLEAN \<equiv> ''clean''"
abbreviation EVENT_NEW_FINDING :: string where "EVENT_NEW_FINDING \<equiv> ''new_finding''"
abbreviation EVENT_VULNERABILITY_RESOLVED :: string where "EVENT_VULNERABILITY_RESOLVED \<equiv> ''vulnerability_resolved''"
abbreviation EVENT_VULNERABILITY_REOPENED :: string where "EVENT_VULNERABILITY_REOPENED \<equiv> ''vulnerability_reopened''"
abbreviation EVENT_ASSET_DISPOSITION_CHANGED :: string where "EVENT_ASSET_DISPOSITION_CHANGED \<equiv> ''asset_disposition_changed''"
abbreviation EVENT_TREATMENT_CREATED :: string where "EVENT_TREATMENT_CREATED \<equiv> ''treatment_created''"
abbreviation EVENT_TREATMENT_EXPIRED :: string where "EVENT_TREATMENT_EXPIRED \<equiv> ''treatment_expired''"
abbreviation EVENT_SCAN_FAILED :: string where "EVENT_SCAN_FAILED \<equiv> ''scan_failed''"
abbreviation EVENT_AGENT_IDENTITY_MISMATCH :: string where "EVENT_AGENT_IDENTITY_MISMATCH \<equiv> ''agent_identity_mismatch''"
abbreviation EVENT_WAN_TARGET_CHANGED :: string where "EVENT_WAN_TARGET_CHANGED \<equiv> ''wan_target_changed''"
abbreviation EVENT_POLICY_CHANGED :: string where "EVENT_POLICY_CHANGED \<equiv> ''policy_changed''"
abbreviation ALERT_SEVERITY_INFO :: string where "ALERT_SEVERITY_INFO \<equiv> ''info''"
abbreviation ALERT_SEVERITY_LOW :: string where "ALERT_SEVERITY_LOW \<equiv> ''low''"
abbreviation ALERT_SEVERITY_MEDIUM :: string where "ALERT_SEVERITY_MEDIUM \<equiv> ''medium''"
abbreviation ALERT_SEVERITY_HIGH :: string where "ALERT_SEVERITY_HIGH \<equiv> ''high''"
abbreviation ALERT_SEVERITY_CRITICAL :: string where "ALERT_SEVERITY_CRITICAL \<equiv> ''critical''"
abbreviation ALERT_EMAIL_OFF :: string where "ALERT_EMAIL_OFF \<equiv> ''off''"
abbreviation ALERT_EMAIL_STAFF :: string where "ALERT_EMAIL_STAFF \<equiv> ''staff''"
abbreviation ALERT_EMAIL_ADMINS :: string where "ALERT_EMAIL_ADMINS \<equiv> ''admins''"
abbreviation ALERT_QUEUE_PENDING :: string where "ALERT_QUEUE_PENDING \<equiv> ''pending''"
abbreviation ALERT_QUEUE_PROCESSING :: string where "ALERT_QUEUE_PROCESSING \<equiv> ''processing''"
abbreviation ALERT_QUEUE_PROCESSED :: string where "ALERT_QUEUE_PROCESSED \<equiv> ''processed''"
abbreviation ALERT_QUEUE_FAILED :: string where "ALERT_QUEUE_FAILED \<equiv> ''failed''"
abbreviation DELIVERY_CHANNEL_EMAIL :: string where "DELIVERY_CHANNEL_EMAIL \<equiv> ''email''"
abbreviation DELIVERY_CHANNEL_WEBHOOK :: string where "DELIVERY_CHANNEL_WEBHOOK \<equiv> ''webhook''"
abbreviation DELIVERY_PENDING :: string where "DELIVERY_PENDING \<equiv> ''pending''"
abbreviation DELIVERY_PROCESSING :: string where "DELIVERY_PROCESSING \<equiv> ''processing''"
abbreviation DELIVERY_SENT :: string where "DELIVERY_SENT \<equiv> ''sent''"
abbreviation DELIVERY_FAILED :: string where "DELIVERY_FAILED \<equiv> ''failed''"
abbreviation ROUTING_ALERT_CREATED :: string where "ROUTING_ALERT_CREATED \<equiv> ''alert_created''"
abbreviation ROUTING_ALERT_COALESCED :: string where "ROUTING_ALERT_COALESCED \<equiv> ''alert_coalesced''"
abbreviation ROUTING_NO_NOTIFICATION :: string where "ROUTING_NO_NOTIFICATION \<equiv> ''no_notification''"
abbreviation MAX_SUPPRESS_FOR_MINUTES :: int where "MAX_SUPPRESS_FOR_MINUTES \<equiv> 43200"
abbreviation MAX_DELIVERY_ATTEMPTS :: int where "MAX_DELIVERY_ATTEMPTS \<equiv> 5"
abbreviation DELIVERY_LEASE_SECONDS :: int where "DELIVERY_LEASE_SECONDS \<equiv> 120"
abbreviation ALERT_QUEUE_LEASE_SECONDS :: int where "ALERT_QUEUE_LEASE_SECONDS \<equiv> 120"
abbreviation ALERT_ROUTE_BATCH_SIZE :: int where "ALERT_ROUTE_BATCH_SIZE \<equiv> 50"
abbreviation ALERT_DELIVERY_BATCH_SIZE :: int where "ALERT_DELIVERY_BATCH_SIZE \<equiv> 25"
abbreviation DEFAULT_FINDING_RESOLUTION_CLEAN_SCANS :: int where "DEFAULT_FINDING_RESOLUTION_CLEAN_SCANS \<equiv> 2"
abbreviation PRIORITY_P1 :: string where "PRIORITY_P1 \<equiv> ''p1''"
abbreviation PRIORITY_P2 :: string where "PRIORITY_P2 \<equiv> ''p2''"
abbreviation PRIORITY_P3 :: string where "PRIORITY_P3 \<equiv> ''p3''"
abbreviation PRIORITY_P4 :: string where "PRIORITY_P4 \<equiv> ''p4''"
abbreviation PRIORITY_MODEL_VERSION :: string where "PRIORITY_MODEL_VERSION \<equiv> ''2b.1''"
abbreviation TREATMENT_RECORD_MITIGATED :: string where "TREATMENT_RECORD_MITIGATED \<equiv> ''mitigated''"
abbreviation TREATMENT_RECORD_ACCEPTED_RISK :: string where "TREATMENT_RECORD_ACCEPTED_RISK \<equiv> ''accepted_risk''"
abbreviation TREATMENT_RECORD_FALSE_POSITIVE :: string where "TREATMENT_RECORD_FALSE_POSITIVE \<equiv> ''false_positive''"
abbreviation TREATMENT_STATUS_PENDING_REVIEW :: string where "TREATMENT_STATUS_PENDING_REVIEW \<equiv> ''pending_review''"
abbreviation TREATMENT_STATUS_ACTIVE :: string where "TREATMENT_STATUS_ACTIVE \<equiv> ''active''"
abbreviation TREATMENT_STATUS_EXPIRED :: string where "TREATMENT_STATUS_EXPIRED \<equiv> ''expired''"
abbreviation TREATMENT_STATUS_REVOKED :: string where "TREATMENT_STATUS_REVOKED \<equiv> ''revoked''"
abbreviation TREATMENT_STATUS_SUPERSEDED :: string where "TREATMENT_STATUS_SUPERSEDED \<equiv> ''superseded''"
abbreviation TREATMENT_SOURCE_MANUAL :: string where "TREATMENT_SOURCE_MANUAL \<equiv> ''manual''"
abbreviation TREATMENT_SOURCE_LEGACY_PROJECTION :: string where "TREATMENT_SOURCE_LEGACY_PROJECTION \<equiv> ''legacy_projection''"
abbreviation COMPENSATING_STATUS_ACTIVE :: string where "COMPENSATING_STATUS_ACTIVE \<equiv> ''active''"
abbreviation COMPENSATING_STATUS_RETIRED :: string where "COMPENSATING_STATUS_RETIRED \<equiv> ''retired''"
abbreviation CONTROL_REF_RELATED :: string where "CONTROL_REF_RELATED \<equiv> ''related''"
abbreviation CONTROL_REF_EVIDENCE :: string where "CONTROL_REF_EVIDENCE \<equiv> ''evidence''"
abbreviation CONTROL_REF_SUPPORTS :: string where "CONTROL_REF_SUPPORTS \<equiv> ''supports''"
abbreviation CONTROL_SUBJECT_ASSET :: string where "CONTROL_SUBJECT_ASSET \<equiv> ''asset''"
abbreviation CONTROL_SUBJECT_ASSET_FINDING :: string where "CONTROL_SUBJECT_ASSET_FINDING \<equiv> ''asset_finding''"
abbreviation CONTROL_SUBJECT_FINDING :: string where "CONTROL_SUBJECT_FINDING \<equiv> ''finding''"
abbreviation CONTROL_SUBJECT_TREATMENT :: string where "CONTROL_SUBJECT_TREATMENT \<equiv> ''treatment''"
abbreviation CONTROL_SUBJECT_SCAN_JOB :: string where "CONTROL_SUBJECT_SCAN_JOB \<equiv> ''scan_job''"
abbreviation POLICY_CATEGORY_ASSET_HANDLING :: string where "POLICY_CATEGORY_ASSET_HANDLING \<equiv> ''asset_handling''"
abbreviation POLICY_CATEGORY_ASSET_INACTIVITY :: string where "POLICY_CATEGORY_ASSET_INACTIVITY \<equiv> ''asset_inactivity''"
abbreviation POLICY_CATEGORY_FINDING_LIFECYCLE :: string where "POLICY_CATEGORY_FINDING_LIFECYCLE \<equiv> ''finding_lifecycle''"
abbreviation POLICY_CATEGORY_ALERTING :: string where "POLICY_CATEGORY_ALERTING \<equiv> ''alerting''"
abbreviation POLICY_SCOPE_GLOBAL :: string where "POLICY_SCOPE_GLOBAL \<equiv> ''global''"
abbreviation POLICY_SCOPE_TENANT :: string where "POLICY_SCOPE_TENANT \<equiv> ''tenant''"
abbreviation POLICY_SCOPE_SITE :: string where "POLICY_SCOPE_SITE \<equiv> ''site''"
abbreviation POLICY_SCOPE_NETWORK :: string where "POLICY_SCOPE_NETWORK \<equiv> ''network''"
abbreviation TREATMENT_DISPLAY_UNADDRESSED :: string where "TREATMENT_DISPLAY_UNADDRESSED \<equiv> ''unaddressed''"
abbreviation TREATMENT_DISPLAY_PENDING_REVIEW :: string where "TREATMENT_DISPLAY_PENDING_REVIEW \<equiv> ''pending_review''"
abbreviation TREATMENT_DISPLAY_ACTIVE :: string where "TREATMENT_DISPLAY_ACTIVE \<equiv> ''active''"
abbreviation TREATMENT_DISPLAY_REVIEW_DUE :: string where "TREATMENT_DISPLAY_REVIEW_DUE \<equiv> ''review_due''"
abbreviation TREATMENT_DISPLAY_REVIEW_OVERDUE :: string where "TREATMENT_DISPLAY_REVIEW_OVERDUE \<equiv> ''review_overdue''"
abbreviation TREATMENT_DISPLAY_EXPIRED :: string where "TREATMENT_DISPLAY_EXPIRED \<equiv> ''expired''"
abbreviation TREATMENT_DISPLAY_REVOKED :: string where "TREATMENT_DISPLAY_REVOKED \<equiv> ''revoked''"
abbreviation TREATMENT_DISPLAY_SUPERSEDED :: string where "TREATMENT_DISPLAY_SUPERSEDED \<equiv> ''superseded''"
abbreviation LEGACY_TREATMENT_RATIONALE :: string where "LEGACY_TREATMENT_RATIONALE \<equiv> ''Imported from pre-Phase-2C treatment projection; original rationale and reviewer were not recorded.''"
abbreviation INTEL_SOURCE_NVD :: string where "INTEL_SOURCE_NVD \<equiv> ''nvd''"
abbreviation INTEL_SOURCE_EPSS :: string where "INTEL_SOURCE_EPSS \<equiv> ''epss''"
abbreviation INTEL_SOURCE_CISA_KEV :: string where "INTEL_SOURCE_CISA_KEV \<equiv> ''cisa_kev''"
abbreviation CUI_TAG_NORMALIZED :: string where "CUI_TAG_NORMALIZED \<equiv> ''cui''"
abbreviation COVERAGE_KIND_URL :: string where "COVERAGE_KIND_URL \<equiv> ''url''"
abbreviation COVERAGE_KIND_IP :: string where "COVERAGE_KIND_IP \<equiv> ''ip''"
abbreviation COVERAGE_KIND_IP_PORT :: string where "COVERAGE_KIND_IP_PORT \<equiv> ''ip_port''"
abbreviation COVERAGE_KIND_FQDN :: string where "COVERAGE_KIND_FQDN \<equiv> ''fqdn''"
abbreviation COVERAGE_KIND_CIDR :: string where "COVERAGE_KIND_CIDR \<equiv> ''cidr''"
abbreviation COVERAGE_KIND_OTHER :: string where "COVERAGE_KIND_OTHER \<equiv> ''other''"
abbreviation WAN_TARGET_IP :: string where "WAN_TARGET_IP \<equiv> ''ip''"
abbreviation WAN_TARGET_CIDR :: string where "WAN_TARGET_CIDR \<equiv> ''cidr''"
abbreviation WAN_TARGET_FQDN :: string where "WAN_TARGET_FQDN \<equiv> ''fqdn''"
abbreviation PORT_MODE_NONE :: string where "PORT_MODE_NONE \<equiv> ''none''"
abbreviation PORT_MODE_COMMON :: string where "PORT_MODE_COMMON \<equiv> ''common''"
abbreviation PORT_MODE_DEEP :: string where "PORT_MODE_DEEP \<equiv> ''deep''"
abbreviation PORT_MODE_CUSTOM :: string where "PORT_MODE_CUSTOM \<equiv> ''custom''"
abbreviation PORT_SCOPE_DETECTED :: string where "PORT_SCOPE_DETECTED \<equiv> ''detected''"
abbreviation PORT_SCOPE_ALL :: string where "PORT_SCOPE_ALL \<equiv> ''all''"
abbreviation INTENSITY_LOW :: string where "INTENSITY_LOW \<equiv> ''low''"
abbreviation INTENSITY_NORMAL :: string where "INTENSITY_NORMAL \<equiv> ''normal''"
abbreviation INTENSITY_HIGH :: string where "INTENSITY_HIGH \<equiv> ''high''"
abbreviation INTENSITY_CUSTOM :: string where "INTENSITY_CUSTOM \<equiv> ''custom''"
abbreviation SCHEDULE_MANUAL :: string where "SCHEDULE_MANUAL \<equiv> ''manual''"
abbreviation SCHEDULE_DAILY :: string where "SCHEDULE_DAILY \<equiv> ''daily''"
abbreviation SCHEDULE_WEEKLY :: string where "SCHEDULE_WEEKLY \<equiv> ''weekly''"
abbreviation SCHEDULE_MONTHLY :: string where "SCHEDULE_MONTHLY \<equiv> ''monthly''"
abbreviation SCHEDULE_CRON :: string where "SCHEDULE_CRON \<equiv> ''cron''"
abbreviation SCHEDULE_LEGACY_INTERVAL :: string where "SCHEDULE_LEGACY_INTERVAL \<equiv> ''legacy_interval''"
abbreviation TRIGGER_MANUAL :: string where "TRIGGER_MANUAL \<equiv> ''manual''"
abbreviation TRIGGER_SCHEDULED :: string where "TRIGGER_SCHEDULED \<equiv> ''scheduled''"
abbreviation JOB_QUEUED :: string where "JOB_QUEUED \<equiv> ''queued''"
abbreviation JOB_WAITING_FOR_AGENT :: string where "JOB_WAITING_FOR_AGENT \<equiv> ''waiting_for_agent''"
abbreviation JOB_RUNNING :: string where "JOB_RUNNING \<equiv> ''running''"
abbreviation JOB_DONE :: string where "JOB_DONE \<equiv> ''done''"
abbreviation JOB_FAILED :: string where "JOB_FAILED \<equiv> ''failed''"
abbreviation JOB_CANCELLED :: string where "JOB_CANCELLED \<equiv> ''cancelled''"
abbreviation JOB_MISSED :: string where "JOB_MISSED \<equiv> ''missed''"
abbreviation EXCLUSION_SCOPE_GLOBAL :: string where "EXCLUSION_SCOPE_GLOBAL \<equiv> ''global''"
abbreviation EXCLUSION_SCOPE_TENANT :: string where "EXCLUSION_SCOPE_TENANT \<equiv> ''tenant''"
abbreviation EXCLUSION_SCOPE_SITE :: string where "EXCLUSION_SCOPE_SITE \<equiv> ''site''"
abbreviation EXCLUSION_SCOPE_NETWORK :: string where "EXCLUSION_SCOPE_NETWORK \<equiv> ''network''"
abbreviation EXCLUSION_SCOPE_SCAN :: string where "EXCLUSION_SCOPE_SCAN \<equiv> ''scan''"
abbreviation EXCLUSION_IP :: string where "EXCLUSION_IP \<equiv> ''ip''"
abbreviation EXCLUSION_CIDR :: string where "EXCLUSION_CIDR \<equiv> ''cidr''"
abbreviation EXCLUSION_RANGE :: string where "EXCLUSION_RANGE \<equiv> ''range''"
abbreviation AGENT_HEALTH_SECONDS :: int where "AGENT_HEALTH_SECONDS \<equiv> 90"
abbreviation DEFAULT_PREFERRED_AGENT_GRACE_SECONDS :: int where "DEFAULT_PREFERRED_AGENT_GRACE_SECONDS \<equiv> 60"
abbreviation DEFAULT_AGENT_JOB_WAIT_MINUTES :: int where "DEFAULT_AGENT_JOB_WAIT_MINUTES \<equiv> 30"

subsection \<open>Sets of tokens\<close>

definition LIFECYCLE_STATES :: "string list" where
  "LIFECYCLE_STATES = [LIFECYCLE_ACTIVE, LIFECYCLE_INACTIVE]"

definition DISPOSITIONS :: "string list" where
  "DISPOSITIONS = [DISPOSITION_UNREVIEWED, DISPOSITION_APPROVED, DISPOSITION_UNAUTHORIZED, DISPOSITION_IGNORED]"

definition CRITICALITIES :: "string list" where
  "CRITICALITIES = [CRITICALITY_LOW, CRITICALITY_NORMAL, CRITICALITY_HIGH, CRITICALITY_CRITICAL]"

definition IDENTIFIER_TYPES :: "string list" where
  "IDENTIFIER_TYPES = [IDENTIFIER_MAC, IDENTIFIER_HOSTNAME, IDENTIFIER_FQDN, IDENTIFIER_DNS_NAME, IDENTIFIER_TLS_NAME, IDENTIFIER_SERIAL, IDENTIFIER_DEVICE_ID, IDENTIFIER_OTHER]"

definition ASSET_SOURCES :: "string list" where
  "ASSET_SOURCES = [SOURCE_SCANNER, SOURCE_LEGACY_MIGRATION, SOURCE_MANUAL]"

definition IDENTIFIER_VALIDITIES :: "string list" where
  "IDENTIFIER_VALIDITIES = [IDENTIFIER_VALIDITY_ACTIVE, IDENTIFIER_VALIDITY_INCORRECT]"

definition CORRELATION_DECISIONS :: "string list" where
  "CORRELATION_DECISIONS = [DECISION_LINKED_EXISTING, DECISION_CREATED_NEW, DECISION_AMBIGUOUS]"

definition CORRELATION_CONFIDENCES :: "string list" where
  "CORRELATION_CONFIDENCES = [CONFIDENCE_HIGH, CONFIDENCE_MEDIUM, CONFIDENCE_LOW]"

definition PHASE1C_EVENT_TYPES :: "string list" where
  "PHASE1C_EVENT_TYPES = [EVENT_NEW_ASSET, EVENT_ASSET_BECAME_INACTIVE, EVENT_PREVIOUSLY_INACTIVE_RETURNED]"

definition PHASE1D_EVENT_TYPES :: "string list" where
  "PHASE1D_EVENT_TYPES = [EVENT_SCAN_MISSED_UNAVAILABLE_AGENT]"

definition DETECTOR_TYPES :: "string list" where
  "DETECTOR_TYPES = [DETECTOR_NUCLEI]"

definition TECHNICAL_STATES :: "string list" where
  "TECHNICAL_STATES = [TECHNICAL_OPEN, TECHNICAL_RESOLVED]"

definition TREATMENT_STATES :: "string list" where
  "TREATMENT_STATES = [TREATMENT_UNADDRESSED, TREATMENT_MITIGATED, TREATMENT_ACCEPTED_RISK, TREATMENT_FALSE_POSITIVE]"

definition HISTORY_TRANSITIONS :: "string list" where
  "HISTORY_TRANSITIONS = [HISTORY_OPENED, HISTORY_RESOLVED, HISTORY_REOPENED]"

definition EVALUATION_OUTCOMES :: "string list" where
  "EVALUATION_OUTCOMES = [EVALUATION_DETECTED, EVALUATION_CLEAN]"

definition PHASE2A_EVENT_TYPES :: "string list" where
  "PHASE2A_EVENT_TYPES = [EVENT_NEW_FINDING, EVENT_VULNERABILITY_RESOLVED, EVENT_VULNERABILITY_REOPENED]"

definition PHASE3B_EVENT_TYPES :: "string list" where
  "PHASE3B_EVENT_TYPES = [EVENT_ASSET_DISPOSITION_CHANGED, EVENT_TREATMENT_CREATED, EVENT_TREATMENT_EXPIRED, EVENT_SCAN_FAILED, EVENT_AGENT_IDENTITY_MISMATCH, EVENT_WAN_TARGET_CHANGED, EVENT_POLICY_CHANGED]"

definition ALERT_SEVERITIES :: "string list" where
  "ALERT_SEVERITIES = [ALERT_SEVERITY_INFO, ALERT_SEVERITY_LOW, ALERT_SEVERITY_MEDIUM, ALERT_SEVERITY_HIGH, ALERT_SEVERITY_CRITICAL]"

definition ALERT_EMAIL_MODES :: "string list" where
  "ALERT_EMAIL_MODES = [ALERT_EMAIL_OFF, ALERT_EMAIL_STAFF, ALERT_EMAIL_ADMINS]"

definition ALERT_QUEUE_STATUSES :: "string list" where
  "ALERT_QUEUE_STATUSES = [ALERT_QUEUE_PENDING, ALERT_QUEUE_PROCESSING, ALERT_QUEUE_PROCESSED, ALERT_QUEUE_FAILED]"

definition DELIVERY_CHANNELS :: "string list" where
  "DELIVERY_CHANNELS = [DELIVERY_CHANNEL_EMAIL, DELIVERY_CHANNEL_WEBHOOK]"

definition DELIVERY_STATUSES :: "string list" where
  "DELIVERY_STATUSES = [DELIVERY_PENDING, DELIVERY_PROCESSING, DELIVERY_SENT, DELIVERY_FAILED]"

definition ROUTING_RESULTS :: "string list" where
  "ROUTING_RESULTS = [ROUTING_ALERT_CREATED, ROUTING_ALERT_COALESCED, ROUTING_NO_NOTIFICATION]"

definition PRIORITIES :: "string list" where
  "PRIORITIES = [PRIORITY_P1, PRIORITY_P2, PRIORITY_P3, PRIORITY_P4]"

definition TREATMENT_RECORD_TYPES :: "string list" where
  "TREATMENT_RECORD_TYPES = [TREATMENT_RECORD_MITIGATED, TREATMENT_RECORD_ACCEPTED_RISK, TREATMENT_RECORD_FALSE_POSITIVE]"

definition TREATMENT_STATUSES :: "string list" where
  "TREATMENT_STATUSES = [TREATMENT_STATUS_PENDING_REVIEW, TREATMENT_STATUS_ACTIVE, TREATMENT_STATUS_EXPIRED, TREATMENT_STATUS_REVOKED, TREATMENT_STATUS_SUPERSEDED]"

definition TREATMENT_SOURCES :: "string list" where
  "TREATMENT_SOURCES = [TREATMENT_SOURCE_MANUAL, TREATMENT_SOURCE_LEGACY_PROJECTION]"

definition COMPENSATING_STATUSES :: "string list" where
  "COMPENSATING_STATUSES = [COMPENSATING_STATUS_ACTIVE, COMPENSATING_STATUS_RETIRED]"

definition CONTROL_REFERENCE_TYPES :: "string list" where
  "CONTROL_REFERENCE_TYPES = [CONTROL_REF_RELATED, CONTROL_REF_EVIDENCE, CONTROL_REF_SUPPORTS]"

definition CONTROL_SUBJECT_TYPES :: "string list" where
  "CONTROL_SUBJECT_TYPES = [CONTROL_SUBJECT_ASSET, CONTROL_SUBJECT_ASSET_FINDING, CONTROL_SUBJECT_FINDING, CONTROL_SUBJECT_TREATMENT, CONTROL_SUBJECT_SCAN_JOB]"

definition POLICY_CATEGORIES :: "string list" where
  "POLICY_CATEGORIES = [POLICY_CATEGORY_ASSET_HANDLING, POLICY_CATEGORY_ASSET_INACTIVITY, POLICY_CATEGORY_FINDING_LIFECYCLE, POLICY_CATEGORY_ALERTING]"

definition POLICY_SCOPES :: "string list" where
  "POLICY_SCOPES = [POLICY_SCOPE_GLOBAL, POLICY_SCOPE_TENANT, POLICY_SCOPE_SITE, POLICY_SCOPE_NETWORK]"

definition INTEL_SOURCES :: "string list" where
  "INTEL_SOURCES = [INTEL_SOURCE_NVD, INTEL_SOURCE_EPSS, INTEL_SOURCE_CISA_KEV]"

definition CWE_PLACEHOLDERS :: "string list" where
  "CWE_PLACEHOLDERS = [''NVD-CWE-NOINFO'', ''NVD-CWE-OTHER'']"

definition COVERAGE_KINDS :: "string list" where
  "COVERAGE_KINDS = [COVERAGE_KIND_URL, COVERAGE_KIND_IP, COVERAGE_KIND_IP_PORT, COVERAGE_KIND_FQDN, COVERAGE_KIND_CIDR, COVERAGE_KIND_OTHER]"

definition HOST_COVERAGE_KINDS :: "string list" where
  "HOST_COVERAGE_KINDS = [COVERAGE_KIND_URL, COVERAGE_KIND_IP, COVERAGE_KIND_IP_PORT, COVERAGE_KIND_FQDN]"

definition WAN_TARGET_TYPES :: "string list" where
  "WAN_TARGET_TYPES = [WAN_TARGET_IP, WAN_TARGET_CIDR, WAN_TARGET_FQDN]"

definition PORT_MODES :: "string list" where
  "PORT_MODES = [PORT_MODE_NONE, PORT_MODE_COMMON, PORT_MODE_DEEP, PORT_MODE_CUSTOM]"

definition PORT_SCOPES :: "string list" where
  "PORT_SCOPES = [PORT_SCOPE_DETECTED, PORT_SCOPE_ALL]"

definition INTENSITY_PRESETS :: "string list" where
  "INTENSITY_PRESETS = [INTENSITY_LOW, INTENSITY_NORMAL, INTENSITY_HIGH, INTENSITY_CUSTOM]"

definition SCHEDULE_TYPES :: "string list" where
  "SCHEDULE_TYPES = [SCHEDULE_MANUAL, SCHEDULE_DAILY, SCHEDULE_WEEKLY, SCHEDULE_MONTHLY, SCHEDULE_CRON, SCHEDULE_LEGACY_INTERVAL]"

definition TRIGGER_TYPES :: "string list" where
  "TRIGGER_TYPES = [TRIGGER_MANUAL, TRIGGER_SCHEDULED]"

definition JOB_STATUSES :: "string list" where
  "JOB_STATUSES = [JOB_QUEUED, JOB_WAITING_FOR_AGENT, JOB_RUNNING, JOB_DONE, JOB_FAILED, JOB_CANCELLED, JOB_MISSED]"

definition EXCLUSION_SCOPES :: "string list" where
  "EXCLUSION_SCOPES = [EXCLUSION_SCOPE_GLOBAL, EXCLUSION_SCOPE_TENANT, EXCLUSION_SCOPE_SITE, EXCLUSION_SCOPE_NETWORK, EXCLUSION_SCOPE_SCAN]"

definition EXCLUSION_TYPES :: "string list" where
  "EXCLUSION_TYPES = [EXCLUSION_IP, EXCLUSION_CIDR, EXCLUSION_RANGE]"

definition DOMAIN_EVENT_TYPES :: "string list" where
  "DOMAIN_EVENT_TYPES = PHASE1C_EVENT_TYPES @ PHASE1D_EVENT_TYPES @ PHASE2A_EVENT_TYPES @ PHASE3B_EVENT_TYPES"

text \<open>The token sets as explicit sets, for membership tests.\<close>

lemmas token_sets =
  LIFECYCLE_STATES_def
  DISPOSITIONS_def
  CRITICALITIES_def
  IDENTIFIER_TYPES_def
  ASSET_SOURCES_def
  IDENTIFIER_VALIDITIES_def
  CORRELATION_DECISIONS_def
  CORRELATION_CONFIDENCES_def
  PHASE1C_EVENT_TYPES_def
  PHASE1D_EVENT_TYPES_def
  DETECTOR_TYPES_def
  TECHNICAL_STATES_def
  TREATMENT_STATES_def
  HISTORY_TRANSITIONS_def
  EVALUATION_OUTCOMES_def
  PHASE2A_EVENT_TYPES_def
  PHASE3B_EVENT_TYPES_def
  ALERT_SEVERITIES_def
  ALERT_EMAIL_MODES_def
  ALERT_QUEUE_STATUSES_def
  DELIVERY_CHANNELS_def
  DELIVERY_STATUSES_def
  ROUTING_RESULTS_def
  PRIORITIES_def
  TREATMENT_RECORD_TYPES_def
  TREATMENT_STATUSES_def
  TREATMENT_SOURCES_def
  COMPENSATING_STATUSES_def
  CONTROL_REFERENCE_TYPES_def
  CONTROL_SUBJECT_TYPES_def
  POLICY_CATEGORIES_def
  POLICY_SCOPES_def
  INTEL_SOURCES_def
  CWE_PLACEHOLDERS_def
  COVERAGE_KINDS_def
  HOST_COVERAGE_KINDS_def
  WAN_TARGET_TYPES_def
  PORT_MODES_def
  PORT_SCOPES_def
  INTENSITY_PRESETS_def
  SCHEDULE_TYPES_def
  TRIGGER_TYPES_def
  JOB_STATUSES_def
  EXCLUSION_SCOPES_def
  EXCLUSION_TYPES_def
  DOMAIN_EVENT_TYPES_def

text \<open>The two halves of an open/resolved or queued/terminal split never meet.\<close>

lemma event_types_distinct: "distinct DOMAIN_EVENT_TYPES"
  by (simp add: DOMAIN_EVENT_TYPES_def PHASE1C_EVENT_TYPES_def PHASE1D_EVENT_TYPES_def
      PHASE2A_EVENT_TYPES_def PHASE3B_EVENT_TYPES_def)

end
