(* ===== verification/Models.thy ===== *)
theory Models
  imports Table Constants
begin

section \<open>The relational data model\<close>

text \<open>
  One record per ORM class of \<^verbatim>\<open>backend/app/models.py\<close>, with every mapped column in the
  source's order; relationships are the foreign keys. A column is named by the class's prefix
  and the column (\<open>af_technical_state\<close> is \<open>AssetFinding.technical_state\<close>). Primary and
  foreign keys are \<^typ>\<open>nat\<close>, other integers \<^typ>\<open>int\<close>, timestamps \<^typ>\<open>time\<close>, JSONB columns
  \<^typ>\<open>json\<close>, floats \<^typ>\<open>rat\<close>, nullable columns options. The record \<open>db\<close> is the database:
  one table per class, and one association list per tag join table.
\<close>

subsection \<open>Tenancy, users and agents\<close>

record user =
  u_id :: nat
  u_username :: string
  u_email :: string
  u_password_hash :: string
  u_role :: string
  u_is_active :: bool
  u_viewer_all_tenants :: bool
  u_viewer_expires_at :: "time option"
  u_created_at :: time

record viewer_tenant_grant =
  vtg_user_id :: nat
  vtg_tenant_id :: nat
  vtg_granted_by_user_id :: "nat option"
  vtg_created_at :: time

record tenant =
  tn_id :: nat
  tn_name :: string
  tn_notes :: string
  tn_created_at :: time

record site =
  site_id :: nat
  site_tenant_id :: nat
  site_name :: string
  site_timezone :: "string option"
  site_archived_at :: "time option"
  site_created_at :: time

record network =
  net_id :: nat
  net_tenant_id :: nat
  net_site_id :: nat
  net_name :: string
  net_cidr :: string
  net_dispatch_mode :: string
  net_preferred_agent_id :: "nat option"
  net_archived_at :: "time option"
  net_created_at :: time

record network_agent =
  na_id :: nat
  na_network_id :: nat
  na_agent_id :: nat
  na_created_at :: time

record subnet =
  subnet_id :: nat
  subnet_tenant_id :: nat
  subnet_name :: string
  subnet_cidr :: string
  subnet_scope :: string
  subnet_site_id :: "nat option"
  subnet_network_id :: "nat option"
  subnet_created_at :: time

record agent =
  ag_id :: nat
  ag_tenant_id :: nat
  ag_site_id :: nat
  ag_name :: string
  ag_uuid :: string
  ag_enrollment_secret :: "string option"
  ag_status :: string
  ag_public_key :: "string option"
  ag_hostname :: "string option"
  ag_container_id :: "string option"
  ag_last_ip :: "string option"
  ag_last_heartbeat :: "time option"
  ag_runtime_inventory :: "json option"
  ag_runtime_inventory_reported_at :: "time option"
  ag_created_at :: time
  ag_approved_at :: "time option"
  ag_approved_by_id :: "nat option"

record agent_challenge =
  ach_id :: nat
  ach_agent_id :: nat
  ach_nonce :: string
  ach_expires_at :: time
  ach_consumed_at :: "time option"
  ach_created_at :: time
  ach_source_ip :: "string option"

record auth_throttle =
  ath_id :: nat
  ath_scope :: string
  ath_subject :: string
  ath_attempt_count :: int
  ath_window_started_at :: "time option"
  ath_locked_until :: "time option"
  ath_last_attempt_at :: "time option"

subsection \<open>Scan definitions and runs\<close>

record scan =
  scan_id :: nat
  scan_tenant_id :: nat
  scan_agent_id :: "nat option"
  scan_site_id :: "nat option"
  scan_name :: string
  scan_scope :: string
  scan_profile :: string
  scan_nuclei_severities :: string
  scan_nuclei_tags :: string
  scan_subnet_ids :: json
  scan_interval_minutes :: "int option"
  scan_is_enabled :: bool
  scan_last_scheduled_at :: "time option"
  scan_definition_revision :: int
  scan_stage_config :: "json option"
  scan_intensity_config :: "json option"
  scan_schedule_config :: "json option"
  scan_next_run_at :: "time option"
  scan_archived_at :: "time option"
  scan_needs_review :: bool
  scan_created_at :: time
  scan_updated_at :: time

record scan_job =
  job_id :: nat
  job_scan_id :: nat
  job_tenant_id :: nat
  job_status :: string
  job_claimed_by :: "string option"
  job_error :: "string option"
  job_hosts_found :: int
  job_findings_count :: int
  job_created_at :: time
  job_started_at :: "time option"
  job_finished_at :: "time option"
  job_execution_snapshot :: "json option"
  job_snapshot_version :: "string option"
  job_definition_revision :: "int option"
  job_trigger_type :: "string option"
  job_scheduled_for :: "time option"
  job_claimed_agent_id :: "nat option"
  job_waiting_since :: "time option"
  job_wait_expires_at :: "time option"
  job_deadline_at :: "time option"
  job_cancel_requested_at :: "time option"
  job_runtime_provenance :: "json option"

record scan_artifact =
  art_id :: nat
  art_scan_job_id :: nat
  art_tenant_id :: nat
  art_artifact_key :: string
  art_stage :: string
  art_tool :: string
  art_media_type :: string
  art_content_encoding :: string
  art_storage_key :: string
  art_size_bytes :: int
  art_sha256 :: string
  art_created_at :: time
  art_retention_expires_at :: time
  art_deleted_at :: "time option"
  art_delete_reason :: "string option"
  art_provenance :: "json option"

record authorized_wan_target =
  wan_id :: nat
  wan_tenant_id :: nat
  wan_name :: string
  wan_target_type :: string
  wan_value :: string
  wan_normalized_value :: string
  wan_archived_at :: "time option"
  wan_created_at :: time

record scan_network_target =
  snt_id :: nat
  snt_scan_id :: nat
  snt_network_id :: nat
  snt_created_at :: time

record scan_wan_target =
  swt_id :: nat
  swt_scan_id :: nat
  swt_authorized_wan_target_id :: nat
  swt_created_at :: time

record scan_exclusion =
  exc_id :: nat
  exc_scope :: string
  exc_exclusion_type :: string
  exc_value :: string
  exc_normalized_value :: string
  exc_tenant_id :: "nat option"
  exc_site_id :: "nat option"
  exc_network_id :: "nat option"
  exc_scan_id :: "nat option"
  exc_archived_at :: "time option"
  exc_created_at :: time

subsection \<open>Inventory and evidence\<close>

record device =
  dev_id :: nat
  dev_tenant_id :: nat
  dev_site_id :: "nat option"
  dev_ip :: string
  dev_hostname :: string
  dev_scope :: string
  dev_status :: string
  dev_classification :: string
  dev_description :: string
  dev_auto_label :: string
  dev_title :: string
  dev_tech :: string
  dev_ports :: json
  dev_first_seen :: time
  dev_last_seen :: time
  dev_last_scan_job_id :: "nat option"
  dev_asset_id :: "nat option"

record evidence_finding =
  fnd_id :: nat
  fnd_tenant_id :: nat
  fnd_scan_job_id :: "nat option"
  fnd_device_id :: "nat option"
  fnd_asset_id :: "nat option"
  fnd_asset_finding_id :: "nat option"
  fnd_detector_type :: string
  fnd_detector_key :: string
  fnd_evidence_key :: "string option"
  fnd_template_id :: string
  fnd_name :: string
  fnd_severity :: string
  fnd_hostname :: string
  fnd_host :: string
  fnd_matched_at :: string
  fnd_tags :: string
  fnd_found_at :: time
  fnd_raw_json :: json

record alert =
  al_id :: nat
  al_tenant_id :: "nat option"
  al_type :: string
  al_title :: string
  al_body :: string
  al_is_acknowledged :: bool
  al_device_id :: "nat option"
  al_agent_id :: "nat option"
  al_created_at :: time
  al_acknowledged_at :: "time option"
  al_acknowledged_by_id :: "nat option"
  al_domain_event_id :: "nat option"
  al_last_domain_event_id :: "nat option"
  al_severity :: "string option"
  al_site_id :: "nat option"
  al_network_id :: "nat option"
  al_asset_id :: "nat option"
  al_asset_finding_id :: "nat option"
  al_scan_job_id :: "nat option"
  al_policy_explanation :: "json option"
  al_dashboard_visible :: bool
  al_dedupe_key :: "string option"
  al_occurrence_count :: int
  al_first_event_at :: "time option"
  al_last_event_at :: "time option"

record app_setting =
  set_key :: string
  set_value :: json

record audit_log =
  aud_id :: nat
  aud_actor_user_id :: "nat option"
  aud_actor_username :: "string option"
  aud_action :: string
  aud_object_type :: string
  aud_object_id :: "nat option"
  aud_tenant_id :: "nat option"
  aud_site_id :: "nat option"
  aud_details :: json
  aud_created_at :: time

record tag_row =
  tag_id :: nat
  tag_tenant_id :: nat
  tag_name :: string
  tag_normalized_name :: string
  tag_created_at :: time

record asset =
  asset_id :: nat
  asset_tenant_id :: nat
  asset_site_id :: "nat option"
  asset_merged_into_asset_id :: "nat option"
  asset_merged_at :: "time option"
  asset_display_name :: string
  asset_classification :: string
  asset_description :: string
  asset_lifecycle_state :: "string option"
  asset_disposition :: string
  asset_criticality :: string
  asset_is_expected :: bool
  asset_first_seen :: "time option"
  asset_last_seen :: "time option"
  asset_created_at :: time
  asset_updated_at :: time

record asset_identifier =
  aid_id :: nat
  aid_asset_id :: nat
  aid_tenant_id :: nat
  aid_identifier_type :: string
  aid_value :: string
  aid_normalized_value :: string
  aid_source :: string
  aid_validity :: string
  aid_first_seen :: "time option"
  aid_last_seen :: "time option"
  aid_corrected_at :: "time option"
  aid_corrected_by_id :: "nat option"
  aid_correction_reason :: string
  aid_replacement_identifier_id :: "nat option"
  aid_created_at :: time

record asset_address =
  addr_id :: nat
  addr_asset_id :: nat
  addr_tenant_id :: nat
  addr_site_id :: "nat option"
  addr_network_id :: "nat option"
  addr_ip :: string
  addr_address_family :: string
  addr_source :: string
  addr_first_seen :: "time option"
  addr_last_seen :: "time option"
  addr_created_at :: time

record asset_service =
  svc_id :: nat
  svc_asset_id :: nat
  svc_tenant_id :: nat
  svc_address_id :: "nat option"
  svc_ip :: string
  svc_port :: int
  svc_protocol :: string
  svc_product :: string
  svc_version :: string
  svc_tls_metadata :: json
  svc_web_title :: string
  svc_tech :: string
  svc_source :: string
  svc_first_seen :: "time option"
  svc_last_seen :: "time option"
  svc_created_at :: time

record asset_observation =
  obs_id :: nat
  obs_asset_id :: nat
  obs_tenant_id :: nat
  obs_site_id :: "nat option"
  obs_network_id :: "nat option"
  obs_agent_id :: "nat option"
  obs_scan_job_id :: "nat option"
  obs_scope :: string
  obs_source :: string
  obs_observed_at :: time
  obs_hostname :: string
  obs_ip :: string
  obs_snapshot :: json
  obs_observation_key :: string
  obs_provenance :: string
  obs_created_at :: time

record asset_correlation_decision =
  acd_id :: nat
  acd_tenant_id :: nat
  acd_site_id :: "nat option"
  acd_scan_job_id :: "nat option"
  acd_observation_key :: string
  acd_source_device_id :: "nat option"
  acd_selected_asset_id :: "nat option"
  acd_decision :: string
  acd_confidence :: string
  acd_score :: int
  acd_algorithm_version :: string
  acd_evidence :: json
  acd_candidates :: json
  acd_created_at :: time

record domain_event =
  ev_id :: nat
  ev_event_type :: string
  ev_tenant_id :: "nat option"
  ev_site_id :: "nat option"
  ev_network_id :: "nat option"
  ev_asset_id :: "nat option"
  ev_asset_finding_id :: "nat option"
  ev_scan_job_id :: "nat option"
  ev_agent_id :: "nat option"
  ev_treatment_id :: "nat option"
  ev_policy_rule_id :: "nat option"
  ev_occurred_at :: time
  ev_source :: string
  ev_details :: json
  ev_idempotence_key :: string
  ev_created_at :: time

subsection \<open>Vulnerabilities and findings\<close>

record vulnerability =
  vul_id :: nat
  vul_canonical_key :: string
  vul_cve_id :: "string option"
  vul_title :: string
  vul_description :: string
  vul_created_at :: time
  vul_updated_at :: time

record vulnerability_detector_mapping =
  vdm_id :: nat
  vdm_vulnerability_id :: nat
  vdm_detector_type :: string
  vdm_detector_key :: string
  vdm_last_severity :: string
  vdm_last_tags :: string
  vdm_created_at :: time

record asset_finding =
  af_id :: nat
  af_tenant_id :: nat
  af_asset_id :: nat
  af_vulnerability_id :: nat
  af_technical_state :: string
  af_treatment_state :: string
  af_first_seen :: time
  af_last_seen :: time
  af_resolved_at :: "time option"
  af_consecutive_clean_scans :: int
  af_reopened_count :: int
  af_priority :: "string option"
  af_priority_score :: "int option"
  af_priority_model_version :: "string option"
  af_priority_explanation :: "json option"
  af_priority_calculated_at :: "time option"
  af_created_at :: time
  af_updated_at :: time

record asset_finding_history =
  afh_id :: nat
  afh_asset_finding_id :: nat
  afh_tenant_id :: nat
  afh_transition_type :: string
  afh_previous_technical_state :: "string option"
  afh_new_technical_state :: string
  afh_scan_job_id :: "nat option"
  afh_occurred_at :: time
  afh_details :: json
  afh_idempotence_key :: string
  afh_created_at :: time

record scan_run_detector_coverage =
  cov_id :: nat
  cov_tenant_id :: nat
  cov_scan_job_id :: nat
  cov_detector_type :: string
  cov_target :: string
  cov_normalized_host :: string
  cov_target_kind :: string
  cov_created_at :: time

record asset_finding_run_evaluation =
  afe_id :: nat
  afe_asset_finding_id :: nat
  afe_scan_job_id :: nat
  afe_tenant_id :: nat
  afe_outcome :: string
  afe_occurred_at :: time
  afe_details :: json
  afe_created_at :: time

record vulnerability_intelligence =
  vi_vulnerability_id :: nat
  vi_nvd_status :: "string option"
  vi_nvd_published_at :: "time option"
  vi_nvd_last_modified_at :: "time option"
  vi_cvss_version :: "string option"
  vi_cvss_base_score :: "rat option"
  vi_cvss_base_severity :: "string option"
  vi_cvss_vector :: "string option"
  vi_cvss_source :: "string option"
  vi_epss_score :: "rat option"
  vi_epss_percentile :: "rat option"
  vi_epss_score_date :: "date option"
  vi_epss_model_version :: "string option"
  vi_kev :: "bool option"
  vi_kev_date_added :: "date option"
  vi_kev_due_date :: "date option"
  vi_kev_required_action :: "string option"
  vi_kev_known_ransomware_campaign_use :: "bool option"
  vi_kev_vendor_project :: "string option"
  vi_kev_product :: "string option"
  vi_nvd_fetched_at :: "time option"
  vi_epss_fetched_at :: "time option"
  vi_kev_fetched_at :: "time option"
  vi_created_at :: time
  vi_updated_at :: time

record vulnerability_cwe =
  cwe_id :: nat
  cwe_vulnerability_id :: nat
  cwe_cwe_id :: string
  cwe_source :: string
  cwe_created_at :: time

record vulnerability_reference =
  vref_id :: nat
  vref_vulnerability_id :: nat
  vref_url :: string
  vref_source :: string
  vref_tags :: json
  vref_created_at :: time

record vulnerability_intelligence_sync =
  vis_source :: string
  vis_last_attempt_at :: "time option"
  vis_last_success_at :: "time option"
  vis_source_updated_at :: "time option"
  vis_records_seen :: "int option"
  vis_records_updated :: "int option"
  vis_last_error :: "string option"
  vis_extra_metadata :: json
  vis_updated_at :: time

subsection \<open>Treatments, compliance, policy and alerting\<close>

record finding_treatment =
  ft_id :: nat
  ft_tenant_id :: nat
  ft_asset_finding_id :: nat
  ft_treatment_type :: string
  ft_status :: string
  ft_rationale :: string
  ft_evidence_notes :: string
  ft_source :: string
  ft_created_by_user_id :: "nat option"
  ft_reviewed_by_user_id :: "nat option"
  ft_revoked_by_user_id :: "nat option"
  ft_created_at :: time
  ft_updated_at :: time
  ft_reviewed_at :: "time option"
  ft_review_due_at :: "time option"
  ft_expires_at :: "time option"
  ft_revoked_at :: "time option"
  ft_revocation_reason :: "string option"
  ft_review_notes :: "string option"

record compensating_control =
  cc_id :: nat
  cc_tenant_id :: nat
  cc_treatment_id :: nat
  cc_name :: string
  cc_description :: string
  cc_evidence_notes :: string
  cc_status :: string
  cc_created_by_user_id :: "nat option"
  cc_created_at :: time
  cc_updated_at :: time
  cc_retired_at :: "time option"
  cc_retired_by_user_id :: "nat option"
  cc_retirement_reason :: "string option"

record compliance_framework =
  cf_id :: nat
  cf_slug :: string
  cf_name :: string
  cf_version :: string
  cf_publisher :: string
  cf_description :: string
  cf_source_url :: string
  cf_source_release_date :: "date option"
  cf_source_metadata :: json
  cf_builtin :: bool
  cf_archived_at :: "time option"
  cf_created_at :: time
  cf_updated_at :: time

record compliance_control =
  ctl_id :: nat
  ctl_framework_id :: nat
  ctl_control_key :: string
  ctl_family :: "string option"
  ctl_title :: string
  ctl_description :: string
  ctl_source_metadata :: json
  ctl_sort_order :: "int option"
  ctl_archived_at :: "time option"
  ctl_created_at :: time
  ctl_updated_at :: time

record compliance_control_reference =
  ccr_id :: nat
  ccr_tenant_id :: nat
  ccr_control_id :: nat
  ccr_asset_id :: "nat option"
  ccr_asset_finding_id :: "nat option"
  ccr_finding_id :: "nat option"
  ccr_treatment_id :: "nat option"
  ccr_scan_job_id :: "nat option"
  ccr_reference_type :: string
  ccr_notes :: string
  ccr_created_by_user_id :: "nat option"
  ccr_created_at :: time
  ccr_removed_at :: "time option"
  ccr_removed_by_user_id :: "nat option"
  ccr_removal_reason :: "string option"

record policy_rule =
  pr_id :: nat
  pr_name :: string
  pr_description :: string
  pr_category :: string
  pr_scope_type :: string
  pr_tenant_id :: "nat option"
  pr_site_id :: "nat option"
  pr_network_id :: "nat option"
  pr_priority :: int
  pr_enabled :: bool
  pr_conditions :: json
  pr_actions :: json
  pr_revision :: int
  pr_created_by_user_id :: "nat option"
  pr_updated_by_user_id :: "nat option"
  pr_created_at :: time
  pr_updated_at :: time
  pr_archived_at :: "time option"
  pr_archived_by_user_id :: "nat option"
  pr_archive_reason :: "string option"

record event_alert_queue =
  eq_id :: nat
  eq_domain_event_id :: nat
  eq_status :: string
  eq_attempts :: int
  eq_next_attempt_at :: time
  eq_last_error :: "string option"
  eq_created_at :: time
  eq_processed_at :: "time option"
  eq_updated_at :: time

record alert_delivery =
  adl_id :: nat
  adl_alert_id :: nat
  adl_channel :: string
  adl_destination :: string
  adl_status :: string
  adl_attempt_count :: int
  adl_next_attempt_at :: time
  adl_last_attempt_at :: "time option"
  adl_delivered_at :: "time option"
  adl_last_error :: "string option"
  adl_response_status :: "int option"
  adl_payload_snapshot :: json
  adl_created_at :: time
  adl_updated_at :: time

record alert_event_route =
  aer_id :: nat
  aer_domain_event_id :: nat
  aer_alert_id :: "nat option"
  aer_routing_result :: string
  aer_effective_actions :: json
  aer_policy_explanation :: json
  aer_evaluated_at :: time

subsection \<open>The database\<close>

record db =
  tb_users :: "user tbl"
  tb_viewer_tenant_grants :: "viewer_tenant_grant tbl"
  tb_tenants :: "tenant tbl"
  tb_sites :: "site tbl"
  tb_networks :: "network tbl"
  tb_network_agents :: "network_agent tbl"
  tb_subnets :: "subnet tbl"
  tb_agents :: "agent tbl"
  tb_agent_challenges :: "agent_challenge tbl"
  tb_auth_throttles :: "auth_throttle tbl"
  tb_scans :: "scan tbl"
  tb_scan_jobs :: "scan_job tbl"
  tb_scan_artifacts :: "scan_artifact tbl"
  tb_authorized_wan_targets :: "authorized_wan_target tbl"
  tb_scan_network_targets :: "scan_network_target tbl"
  tb_scan_wan_targets :: "scan_wan_target tbl"
  tb_scan_exclusions :: "scan_exclusion tbl"
  tb_devices :: "device tbl"
  tb_findings :: "evidence_finding tbl"
  tb_alerts :: "alert tbl"
  tb_settings :: "app_setting tbl"
  tb_audit_logs :: "audit_log tbl"
  tb_tags :: "tag_row tbl"
  tb_assets :: "asset tbl"
  tb_asset_identifiers :: "asset_identifier tbl"
  tb_asset_addresses :: "asset_address tbl"
  tb_asset_services :: "asset_service tbl"
  tb_asset_observations :: "asset_observation tbl"
  tb_asset_correlation_decisions :: "asset_correlation_decision tbl"
  tb_domain_events :: "domain_event tbl"
  tb_vulnerabilities :: "vulnerability tbl"
  tb_vulnerability_detector_mappings :: "vulnerability_detector_mapping tbl"
  tb_asset_findings :: "asset_finding tbl"
  tb_asset_finding_history :: "asset_finding_history tbl"
  tb_scan_run_detector_coverage :: "scan_run_detector_coverage tbl"
  tb_asset_finding_run_evaluations :: "asset_finding_run_evaluation tbl"
  tb_vulnerability_intelligence :: "vulnerability_intelligence tbl"
  tb_vulnerability_cwes :: "vulnerability_cwe tbl"
  tb_vulnerability_references :: "vulnerability_reference tbl"
  tb_vulnerability_intelligence_sync :: "vulnerability_intelligence_sync tbl"
  tb_finding_treatments :: "finding_treatment tbl"
  tb_compensating_controls :: "compensating_control tbl"
  tb_compliance_frameworks :: "compliance_framework tbl"
  tb_compliance_controls :: "compliance_control tbl"
  tb_compliance_control_references :: "compliance_control_reference tbl"
  tb_policy_rules :: "policy_rule tbl"
  tb_event_alert_queue :: "event_alert_queue tbl"
  tb_alert_deliveries :: "alert_delivery tbl"
  tb_alert_event_routes :: "alert_event_route tbl"
  tb_asset_tags :: "(nat \<times> nat) list"
  tb_site_tags :: "(nat \<times> nat) list"
  tb_network_tags :: "(nat \<times> nat) list"

definition empty_db :: db where
  "empty_db = \<lparr>tb_users = t_empty, tb_viewer_tenant_grants = t_empty, tb_tenants = t_empty, tb_sites = t_empty, tb_networks = t_empty, tb_network_agents = t_empty, tb_subnets = t_empty, tb_agents = t_empty, tb_agent_challenges = t_empty, tb_auth_throttles = t_empty, tb_scans = t_empty, tb_scan_jobs = t_empty, tb_scan_artifacts = t_empty, tb_authorized_wan_targets = t_empty, tb_scan_network_targets = t_empty, tb_scan_wan_targets = t_empty, tb_scan_exclusions = t_empty, tb_devices = t_empty, tb_findings = t_empty, tb_alerts = t_empty, tb_settings = t_empty, tb_audit_logs = t_empty, tb_tags = t_empty, tb_assets = t_empty, tb_asset_identifiers = t_empty, tb_asset_addresses = t_empty, tb_asset_services = t_empty, tb_asset_observations = t_empty, tb_asset_correlation_decisions = t_empty, tb_domain_events = t_empty, tb_vulnerabilities = t_empty, tb_vulnerability_detector_mappings = t_empty, tb_asset_findings = t_empty, tb_asset_finding_history = t_empty, tb_scan_run_detector_coverage = t_empty, tb_asset_finding_run_evaluations = t_empty, tb_vulnerability_intelligence = t_empty, tb_vulnerability_cwes = t_empty, tb_vulnerability_references = t_empty, tb_vulnerability_intelligence_sync = t_empty, tb_finding_treatments = t_empty, tb_compensating_controls = t_empty, tb_compliance_frameworks = t_empty, tb_compliance_controls = t_empty, tb_compliance_control_references = t_empty, tb_policy_rules = t_empty, tb_event_alert_queue = t_empty, tb_alert_deliveries = t_empty, tb_alert_event_routes = t_empty, tb_asset_tags = [], tb_site_tags = [], tb_network_tags = []\<rparr>"

end
