(* ===== verification/Settings.thy ===== *)
theory Settings
  imports Models
begin

section \<open>System settings\<close>

text \<open>
  \<^verbatim>\<open>backend/app/settings_store.py\<close>: the row \<open>settings["system"]\<close> overlaid on the defaults of
  \<open>schemas.SettingsOut\<close>. The keys derived from the public URL, the time-zone coercion and the
  decrypted SMTP password are not read by the modelled components and are left out; so are the
  five approved tool versions, whose defaults come from the environment.
\<close>

definition SETTINGS_DEFAULTS :: "(string \<times> json) list" where
  "SETTINGS_DEFAULTS = [
     (''central_host'', JStr ''''), (''central_port'', JInt 8118), (''central_tls'', JBool True),
     (''smtp_host'', JStr ''''), (''smtp_port'', JInt 587), (''smtp_user'', JStr ''''),
     (''smtp_password'', JStr ''''), (''smtp_from'', JStr ''''), (''smtp_tls'', JBool True),
     (''stale_days'', JInt 14), (''asset_inactive_days'', JInt 30),
     (''default_nuclei_severities'', JStr ''critical,high,medium''),
     (''default_timezone'', JStr ''UTC''),
     (''preferred_agent_grace_seconds'', JInt 60), (''agent_job_wait_minutes'', JInt 30),
     (''job_timeout_minutes'', JInt 180),
     (''scan_cap_naabu_rate'', JInt 5000), (''scan_cap_naabu_concurrency'', JInt 100),
     (''scan_cap_naabu_timeout_ms'', JInt 10000), (''scan_cap_naabu_retries'', JInt 5),
     (''scan_cap_httpx_rate'', JInt 500), (''scan_cap_httpx_threads'', JInt 150),
     (''scan_cap_httpx_timeout'', JInt 30), (''scan_cap_httpx_retries'', JInt 5),
     (''scan_cap_nuclei_rate'', JInt 500), (''scan_cap_nuclei_concurrency'', JInt 100),
     (''scan_cap_nuclei_timeout'', JInt 30), (''scan_cap_nuclei_retries'', JInt 5),
     (''finding_resolution_clean_scans'', JInt 2),
     (''vulnerability_intelligence_enabled'', JBool True),
     (''raw_scan_artifact_retention_days'', JInt 365)]"

definition get_settings :: "db \<Rightarrow> (string \<times> json) list" where
  "get_settings db = (case t_first (\<lambda>r. set_key r = ''system'') (tb_settings db) of
       Some row \<Rightarrow> (case set_value row of
           JObj kvs \<Rightarrow> jupdate SETTINGS_DEFAULTS kvs
         | _ \<Rightarrow> SETTINGS_DEFAULTS)
     | None \<Rightarrow> SETTINGS_DEFAULTS)"

definition setting :: "db \<Rightarrow> string \<Rightarrow> json" where
  "setting db k = jget k (JObj (get_settings db))"

lemma jget_jupdate:
  "jget k (JObj (jupdate d e)) = (case map_of (rev e) k of Some v \<Rightarrow> v | None \<Rightarrow> jget k (JObj d))"
proof (induction e arbitrary: d)
  case (Cons a e)
  obtain k' v where "a = (k', v)" by force
  with Cons show ?case
    by (auto simp: jupdate_def map_of_jput map_add_def split: option.splits)
qed (simp add: jupdate_def)

text \<open>A stored key wins over the default.\<close>

lemma setting_stored:
  assumes "t_first (\<lambda>r. set_key r = ''system'') (tb_settings db) = Some row"
    and "set_value row = JObj kvs" and "map_of (rev kvs) k = Some v"
  shows "setting db k = v"
  using assms jget_jupdate [of k SETTINGS_DEFAULTS kvs]
  by (simp add: setting_def get_settings_def)

lemma setting_no_row:
  assumes "t_rows (tb_settings db) = []"
  shows "setting db k = jget k (JObj SETTINGS_DEFAULTS)"
  using assms by (simp add: setting_def get_settings_def t_first_def)

lemma setting_cong: "tb_settings db' = tb_settings db \<Longrightarrow> setting db' k = setting db k"
  by (simp add: setting_def get_settings_def)

end
