(* ===== verification/Calendar.thy ===== *)
theory Calendar
  imports Prelude
begin

section \<open>Timestamps as text\<close>

text \<open>
  \<open>datetime.isoformat()\<close> of an aware UTC timestamp, which the program puts into idempotence
  keys and event details, and the proleptic Gregorian calendar it needs (days since
  1970-01-01). Timestamps are microseconds, so the text is exact.
\<close>

definition civil_of_days :: "int \<Rightarrow> int \<times> int \<times> int" where
  \<comment> \<open>year, month, day of a day number; eras of 400 years starting on 0000-03-01\<close>
  "civil_of_days z0 = (let z = z0 + 719468;
       era = z div 146097;
       doe = z - era * 146097;
       yoe = (doe - doe div 1460 + doe div 36524 - doe div 146096) div 365;
       doy = doe - (365 * yoe + yoe div 4 - yoe div 100);
       mp = (5 * doy + 2) div 153;
       d = doy - (153 * mp + 2) div 5 + 1;
       m = (if mp < 10 then mp + 3 else mp - 9)
     in ((if m \<le> 2 then yoe + era * 400 + 1 else yoe + era * 400), m, d))"

definition days_of_civil :: "int \<Rightarrow> int \<Rightarrow> int \<Rightarrow> int" where
  "days_of_civil y0 m d = (let y = (if m \<le> 2 then y0 - 1 else y0);
       era = y div 400; yoe = y - era * 400;
       doy = (153 * (if m > 2 then m - 3 else m + 9) + 2) div 5 + d - 1;
       doe = yoe * 365 + yoe div 4 - yoe div 100 + doy
     in era * 146097 + doe - 719468)"

definition pad :: "nat \<Rightarrow> int \<Rightarrow> string" where
  "pad w i = (let s = show_nat (nat i) in replicate (w - length s) (CHR ''0'') @ s)"

definition isoformat :: "time \<Rightarrow> string" where
  "isoformat t = (let ds = t div day; r = t mod day; (y, m, d) = civil_of_days ds;
       us = r mod second; s = r div second
     in pad 4 y @ ''-'' @ pad 2 m @ ''-'' @ pad 2 d @ ''T'' @ pad 2 (s div 3600) @ '':'' @
        pad 2 (s div 60 mod 60) @ '':'' @ pad 2 (s mod 60) @
        (if us = 0 then [] else ''.'' @ pad 6 us) @ ''+00:00'')"

definition strftime_compact :: "time \<Rightarrow> string" where
  \<comment> \<open>\<open>strftime('%Y%m%d%H%M%S')\<close>\<close>
  "strftime_compact t = (let (y, m, d) = civil_of_days (t div day); s = t mod day div second
     in pad 4 y @ pad 2 m @ pad 2 d @ pad 2 (s div 3600) @ pad 2 (s div 60 mod 60) @ pad 2 (s mod 60))"

definition weekday :: "int \<Rightarrow> int" where
  \<comment> \<open>Monday is 0; 1970-01-01 was a Thursday\<close>
  "weekday ds = (ds + 3) mod 7"

fun days_in_month :: "int \<Rightarrow> int \<Rightarrow> int" where
  "days_in_month y m = (if m = 2 then (if (y mod 4 = 0 \<and> y mod 100 \<noteq> 0) \<or> y mod 400 = 0 then 29 else 28)
     else if m \<in> {4, 6, 9, 11} then 30 else 31)"

lemma weekday_range: "0 \<le> weekday ds" "weekday ds < 7"
  by (simp_all add: weekday_def)

lemma isoformat_example: "isoformat 1787011200000000 = ''2026-08-18T00:00:00+00:00''"
  by code_simp

lemma civil_example: "civil_of_days 0 = (1970, 1, 1)" "days_of_civil 1970 1 1 = 0"
    "civil_of_days (days_of_civil 2024 2 29) = (2024, 2, 29)"
  by code_simp+

end
