(* ===== verification/Events.thy ===== *)
theory Events
  imports Settings Calendar
begin

section \<open>Domain events\<close>

text \<open>
  \<^verbatim>\<open>backend/app/events.py\<close>: a domain event is an immutable fact with an idempotence key. It is
  stored once, only after the rows it names were checked to belong to the event's tenant, site
  and network, and exactly then one routing job is put on the alert queue. The savepoint that
  catches a concurrent insert of the same key is the branch \<open>existing\<close> of a single session.
\<close>

datatype event_error = DomainEventError string

record event_req =
  er_event_type :: string
  er_tenant_id :: "nat option"
  er_site_id :: "nat option"
  er_network_id :: "nat option"
  er_asset_id :: "nat option"
  er_asset_finding_id :: "nat option"
  er_scan_job_id :: "nat option"
  er_agent_id :: "nat option"
  er_treatment_id :: "nat option"
  er_policy_rule_id :: "nat option"
  er_key :: string
  er_details :: "(string \<times> json) list"
  er_source :: string
  er_occurred_at :: "time option"

text \<open>The keyword defaults of \<open>emit_domain_event\<close>.\<close>

definition event_defaults :: event_req where
  "event_defaults = \<lparr>er_event_type = [], er_tenant_id = None, er_site_id = None, er_network_id = None,
     er_asset_id = None, er_asset_finding_id = None, er_scan_job_id = None, er_agent_id = None,
     er_treatment_id = None, er_policy_rule_id = None, er_key = [], er_details = [],
     er_source = SOURCE_SCANNER, er_occurred_at = None\<rparr>"

record event_subjects =
  es_tenant :: "tenant option"
  es_site :: "site option"
  es_network :: "network option"
  es_asset :: "asset option"
  es_finding :: "asset_finding option"
  es_scan_job :: "scan_job option"
  es_agent :: "agent option"
  es_treatment :: "finding_treatment option"
  es_policy :: "policy_rule option"

definition load_opt :: "('r \<Rightarrow> nat) \<Rightarrow> 'r tbl \<Rightarrow> nat option \<Rightarrow> 'r option" where
  "load_opt key t i = (case i of None \<Rightarrow> None | Some n \<Rightarrow> t_get key n t)"

definition load_event_subjects :: "db \<Rightarrow> event_req \<Rightarrow> event_subjects" where
  "load_event_subjects db e = \<lparr>
     es_tenant = load_opt tn_id (tb_tenants db) (er_tenant_id e),
     es_site = load_opt site_id (tb_sites db) (er_site_id e),
     es_network = load_opt net_id (tb_networks db) (er_network_id e),
     es_asset = load_opt asset_id (tb_assets db) (er_asset_id e),
     es_finding = load_opt af_id (tb_asset_findings db) (er_asset_finding_id e),
     es_scan_job = load_opt job_id (tb_scan_jobs db) (er_scan_job_id e),
     es_agent = load_opt ag_id (tb_agents db) (er_agent_id e),
     es_treatment = load_opt ft_id (tb_finding_treatments db) (er_treatment_id e),
     es_policy = load_opt pr_id (tb_policy_rules db) (er_policy_rule_id e)\<rparr>"

text \<open>\<open>_fail_closed\<close> on a missing subject or one that fails a test.\<close>

definition subject_check :: "'r option \<Rightarrow> string \<Rightarrow> ('r \<Rightarrow> (event_error + unit) list) \<Rightarrow> event_error + unit" where
  "subject_check s missing tests =
     (case s of None \<Rightarrow> Inl (DomainEventError missing) | Some r \<Rightarrow> checks (tests r))"

abbreviation dee :: "bool \<Rightarrow> string \<Rightarrow> event_error + unit" where
  "dee b msg \<equiv> require b (DomainEventError msg)"

definition tenant_scoped :: "event_req \<Rightarrow> bool" where
  "tenant_scoped e \<longleftrightarrow> list_ex (\<lambda>i. i \<noteq> None)
     [er_site_id e, er_network_id e, er_asset_id e, er_asset_finding_id e, er_scan_job_id e,
      er_agent_id e, er_treatment_id e]"

definition assert_event_locality :: "event_req \<Rightarrow> event_subjects \<Rightarrow> event_error + unit" where
  "assert_event_locality e s = checks [
     dee (\<not> (tenant_scoped e \<and> er_tenant_id e = None)) ''Tenant-scoped event subjects require tenant_id'',
     dee (\<not> (er_tenant_id e \<noteq> None \<and> es_tenant s = None)) ''Event tenant does not exist'',
     when_some (er_site_id e) (\<lambda>_. subject_check (es_site s) ''Event site does not exist'' (\<lambda>r.
       [dee (Some (site_tenant_id r) = er_tenant_id e) ''Event site does not belong to the event tenant''])),
     when_some (er_network_id e) (\<lambda>_. checks [
       dee (er_site_id e \<noteq> None) ''Network-scoped events require a trusted site_id'',
       subject_check (es_network s) ''Event network does not exist'' (\<lambda>r.
         [dee (Some (net_site_id r) = er_site_id e \<and> Some (net_tenant_id r) = er_tenant_id e)
            ''Event network does not belong to the event site/tenant''])]),
     when_some (er_asset_id e) (\<lambda>_. subject_check (es_asset s) ''Event asset does not exist'' (\<lambda>r.
       [dee (Some (asset_tenant_id r) = er_tenant_id e) ''Event asset does not belong to the event tenant''])),
     when_some (er_asset_finding_id e) (\<lambda>_. subject_check (es_finding s) ''Event finding does not exist'' (\<lambda>r.
       [dee (Some (af_tenant_id r) = er_tenant_id e) ''Event finding does not belong to the event tenant'',
        when_some (er_asset_id e) (\<lambda>a. dee (af_asset_id r = a) ''Event finding does not belong to the event asset'')])),
     when_some (er_scan_job_id e) (\<lambda>_. subject_check (es_scan_job s) ''Event scan job does not exist'' (\<lambda>r.
       [dee (Some (job_tenant_id r) = er_tenant_id e) ''Event scan job does not belong to the event tenant''])),
     when_some (er_agent_id e) (\<lambda>_. subject_check (es_agent s) ''Event agent does not exist'' (\<lambda>r.
       [dee (Some (ag_tenant_id r) = er_tenant_id e) ''Event agent does not belong to the event tenant'',
        when_some (er_site_id e) (\<lambda>i. dee (ag_site_id r = i) ''Event agent does not belong to the event site'')])),
     when_some (er_treatment_id e) (\<lambda>_. subject_check (es_treatment s) ''Event treatment does not exist'' (\<lambda>r.
       [dee (Some (ft_tenant_id r) = er_tenant_id e) ''Event treatment does not belong to the event tenant'',
        when_some (er_asset_finding_id e) (\<lambda>i. dee (ft_asset_finding_id r = i) ''Event treatment does not belong to the event finding'')])),
     when_some (er_policy_rule_id e) (\<lambda>_. subject_check (es_policy s) ''Event policy does not exist'' (\<lambda>r.
       [when_some (pr_tenant_id r) (\<lambda>i. dee (Some i = er_tenant_id e) ''Event policy does not belong to the event tenant''),
        when_some (pr_site_id r) (\<lambda>i. when_some (er_site_id e) (\<lambda>j. dee (i = j) ''Event policy site does not match the event site'')),
        when_some (pr_network_id r) (\<lambda>i. when_some (er_network_id e) (\<lambda>j. dee (i = j) ''Event policy network does not match the event network''))]))]"

definition validate_event_relationships :: "db \<Rightarrow> event_req \<Rightarrow> event_error + unit" where
  "validate_event_relationships db e = assert_event_locality e (load_event_subjects db e)"

definition SECRET_KEYS :: "string list" where
  "SECRET_KEYS = [''enrollment_secret'', ''private_key'', ''password'', ''smtp_password'', ''token'', ''bearer'']"

definition safe_details :: "(string \<times> json) list \<Rightarrow> (string \<times> json) list" where
  "safe_details d = filter (\<lambda>(k, v). k \<notin> set SECRET_KEYS) d"

definition mk_event :: "time \<Rightarrow> event_req \<Rightarrow> nat \<Rightarrow> domain_event" where
  "mk_event now e i = \<lparr>ev_id = i, ev_event_type = er_event_type e, ev_tenant_id = er_tenant_id e,
     ev_site_id = er_site_id e, ev_network_id = er_network_id e, ev_asset_id = er_asset_id e,
     ev_asset_finding_id = er_asset_finding_id e, ev_scan_job_id = er_scan_job_id e,
     ev_agent_id = er_agent_id e, ev_treatment_id = er_treatment_id e,
     ev_policy_rule_id = er_policy_rule_id e,
     ev_occurred_at = (case er_occurred_at e of Some t \<Rightarrow> t | None \<Rightarrow> now),
     ev_source = er_source e, ev_details = JObj (safe_details (er_details e)),
     ev_idempotence_key = er_key e, ev_created_at = now\<rparr>"

definition mk_queue_row :: "time \<Rightarrow> nat \<Rightarrow> nat \<Rightarrow> event_alert_queue" where
  "mk_queue_row now event_id i = \<lparr>eq_id = i, eq_domain_event_id = event_id,
     eq_status = ALERT_QUEUE_PENDING, eq_attempts = 0, eq_next_attempt_at = now, eq_last_error = None,
     eq_created_at = now, eq_processed_at = None, eq_updated_at = now\<rparr>"

definition enqueue_alert_routing :: "time \<Rightarrow> nat \<Rightarrow> db \<Rightarrow> db" where
  "enqueue_alert_routing now event_id db =
     db\<lparr>tb_event_alert_queue := put_once eq_domain_event_id event_id (mk_queue_row now event_id) (tb_event_alert_queue db)\<rparr>"

definition emit_domain_event :: "time \<Rightarrow> event_req \<Rightarrow> db \<Rightarrow> event_error + (db \<times> domain_event \<times> bool)" where
  "emit_domain_event now e db =
     (if er_event_type e \<notin> set DOMAIN_EVENT_TYPES
      then Inl (DomainEventError (''Unsupported event type: '' @ er_event_type e))
      else case t_first (\<lambda>r. ev_idempotence_key r = er_key e) (tb_domain_events db) of
        Some existing \<Rightarrow> Inr (db, existing, False)
      | None \<Rightarrow> rbind (validate_event_relationships db e) (\<lambda>_.
          let row = mk_event now e (t_next (tb_domain_events db));
              db1 = db\<lparr>tb_domain_events := t_insert (mk_event now e) (tb_domain_events db)\<rparr>
          in Inr (enqueue_alert_routing now (ev_id row) db1, row, True)))"

subsection \<open>Trusted locality of a run\<close>

definition job_snapshot :: "scan_job \<Rightarrow> json" where
  \<comment> \<open>\<open>job.execution_snapshot or {}\<close>\<close>
  "job_snapshot job = (case job_execution_snapshot job of None \<Rightarrow> JObj [] | Some s \<Rightarrow> jor s (JObj []))"

definition run_observations :: "db \<Rightarrow> scan_job \<Rightarrow> asset_observation list" where
  "run_observations db job = t_select (\<lambda>ob. obs_scan_job_id ob = Some (job_id job)
     \<and> obs_tenant_id ob = job_tenant_id job) (tb_asset_observations db)"

definition latest_observation :: "asset_observation list \<Rightarrow> nat \<Rightarrow> asset_observation option" where
  "latest_observation observations aid =
     newest_by (\<lambda>ob. (obs_observed_at ob, obs_id ob)) (filter (\<lambda>ob. obs_asset_id ob = aid) observations)"

text \<open>The Python takes the observation from the query or from the run index; both are the run's
  observations, passed here as a list.\<close>

definition trusted_run_locality ::
    "asset_observation list \<Rightarrow> scan_job \<Rightarrow> asset option \<Rightarrow> nat option \<times> nat option" where
  "trusted_run_locality observations job asset =
     (let snapshot = job_snapshot job;
          site_id0 = as_nat (jget ''id'' (as_obj (jget ''site'' snapshot)));
          targets = as_obj (jget ''targets'' snapshot);
          network_ids = List.map_filter (\<lambda>row. if is_obj row then as_nat (jget ''id'' row) else None)
             (as_arr (jget ''networks'' targets));
          network_id0 = (case network_ids of [n] \<Rightarrow> Some n | _ \<Rightarrow> None);
          observation = (case asset of
              Some a \<Rightarrow> if site_id0 = None \<or> network_id0 = None
                then latest_observation observations (asset_id a) else None
            | None \<Rightarrow> None);
          site_id1 = (case (site_id0, observation) of (None, Some ob) \<Rightarrow> obs_site_id ob | _ \<Rightarrow> site_id0);
          network_id1 = (case (network_id0, observation) of (None, Some ob) \<Rightarrow> obs_network_id ob | _ \<Rightarrow> network_id0);
          site_id2 = (case (site_id1, asset) of (None, Some a) \<Rightarrow> asset_site_id a | _ \<Rightarrow> site_id1)
      in (site_id2, network_id1))"

subsection \<open>The emitters\<close>

definition words_joined :: "string \<Rightarrow> string" where
  \<comment> \<open>\<open>" ".join(s.split())\<close>\<close>
  "words_joined s = join_with '' '' (filter (\<lambda>w. w \<noteq> [])
     (split_on CHR '' '' (map (\<lambda>c. if is_space c then CHR '' '' else c) s)))"

definition emit_new_asset :: "time \<Rightarrow> asset \<Rightarrow> string \<Rightarrow> nat option \<Rightarrow> nat option \<Rightarrow> db
    \<Rightarrow> event_error + (db \<times> domain_event \<times> bool)" where
  "emit_new_asset now a source network_id scan_job_id = emit_domain_event now
     (event_defaults\<lparr>er_event_type := EVENT_NEW_ASSET, er_tenant_id := Some (asset_tenant_id a),
        er_site_id := asset_site_id a, er_network_id := network_id, er_asset_id := Some (asset_id a),
        er_scan_job_id := scan_job_id, er_key := ''new_asset:'' @ show_nat (asset_id a),
        er_details := [(''display_name'', JStr (asset_display_name a))], er_source := source,
        er_occurred_at := Some (case asset_first_seen a of Some t \<Rightarrow> t | None \<Rightarrow> now)\<rparr>)"

definition emit_asset_became_inactive :: "time \<Rightarrow> asset \<Rightarrow> time \<Rightarrow> db
    \<Rightarrow> event_error + (db \<times> domain_event \<times> bool)" where
  "emit_asset_became_inactive now a last_seen = emit_domain_event now
     (event_defaults\<lparr>er_event_type := EVENT_ASSET_BECAME_INACTIVE, er_tenant_id := Some (asset_tenant_id a),
        er_site_id := asset_site_id a, er_asset_id := Some (asset_id a),
        er_key := ''asset_became_inactive:'' @ show_nat (asset_id a) @ '':'' @ isoformat last_seen,
        er_details := [(''last_seen'', JStr (isoformat last_seen))], er_source := ''scheduler'',
        er_occurred_at := Some now\<rparr>)"

definition emit_previously_inactive_returned :: "time \<Rightarrow> asset \<Rightarrow> string \<Rightarrow> db
    \<Rightarrow> event_error + (db \<times> domain_event \<times> bool)" where
  "emit_previously_inactive_returned now a observation_key = emit_domain_event now
     (event_defaults\<lparr>er_event_type := EVENT_PREVIOUSLY_INACTIVE_RETURNED,
        er_tenant_id := Some (asset_tenant_id a), er_site_id := asset_site_id a,
        er_asset_id := Some (asset_id a),
        er_key := ''previously_inactive_asset_returned:'' @ show_nat (asset_id a) @ '':'' @
          (case asset_last_seen a of Some t \<Rightarrow> isoformat t | None \<Rightarrow> []) @ '':'' @ observation_key,
        er_details := [(''observation_key'', JStr observation_key)], er_source := SOURCE_SCANNER\<rparr>)"

definition emit_scan_missed_unavailable_agent :: "time \<Rightarrow> scan_job \<Rightarrow> db
    \<Rightarrow> event_error + (db \<times> domain_event \<times> bool)" where
  "emit_scan_missed_unavailable_agent now job db =
     (let (site_id, network_id) = trusted_run_locality (run_observations db job) job None
      in emit_domain_event now
       (event_defaults\<lparr>er_event_type := EVENT_SCAN_MISSED_UNAVAILABLE_AGENT,
          er_tenant_id := Some (job_tenant_id job), er_site_id := site_id, er_network_id := network_id,
          er_scan_job_id := Some (job_id job),
          er_key := ''scan_missed_unavailable_agent:'' @ show_nat (job_id job),
          er_details := [(''scan_job_id'', jnat (job_id job)), (''scan_id'', jnat (job_scan_id job))],
          er_source := ''scheduler''\<rparr>) db)"

definition emit_scan_failed :: "time \<Rightarrow> scan_job \<Rightarrow> string \<Rightarrow> db
    \<Rightarrow> event_error + (db \<times> domain_event \<times> bool)" where
  "emit_scan_failed now job reason db =
     (let (site_id, network_id) = trusted_run_locality (run_observations db job) job None;
          summary = take 400 (words_joined (if reason = [] then ''scan failed'' else reason))
      in emit_domain_event now
       (event_defaults\<lparr>er_event_type := EVENT_SCAN_FAILED,
          er_tenant_id := Some (job_tenant_id job), er_site_id := site_id, er_network_id := network_id,
          er_scan_job_id := Some (job_id job), er_key := ''scan_failed:'' @ show_nat (job_id job),
          er_details := [(''scan_job_id'', jnat (job_id job)), (''scan_id'', jnat (job_scan_id job)),
            (''reason'', JStr summary)],
          er_source := ''scheduler''\<rparr>) db)"

definition emit_asset_disposition_changed :: "time \<Rightarrow> asset \<Rightarrow> string \<Rightarrow> string \<Rightarrow> string \<Rightarrow> nat
    \<Rightarrow> nat option \<Rightarrow> int option \<Rightarrow> nat option \<Rightarrow> db \<Rightarrow> event_error + db" where
  \<comment> \<open>\<open>audit_id\<close> is the id of the flushed \<open>AuditLog\<close> row\<close>
  "emit_asset_disposition_changed now a previous new source audit_id policy_rule_id policy_revision network_id db =
     (if previous = new then Inr db
      else rbind (emit_domain_event now
       (event_defaults\<lparr>er_event_type := EVENT_ASSET_DISPOSITION_CHANGED,
          er_tenant_id := Some (asset_tenant_id a), er_site_id := asset_site_id a,
          er_network_id := network_id, er_asset_id := Some (asset_id a), er_policy_rule_id := policy_rule_id,
          er_key := ''asset_disposition_changed:'' @ show_nat (asset_id a) @ '':'' @ show_nat audit_id,
          er_details := [(''previous_disposition'', JStr previous), (''new_disposition'', JStr new),
              (''source'', JStr source), (''audit_id'', jnat audit_id)] @
            (case policy_rule_id of None \<Rightarrow> []
             | Some p \<Rightarrow> [(''policy_rule_id'', jnat p), (''policy_revision'', jopt JInt policy_revision)]),
          er_source := (if source \<in> {SOURCE_SCANNER, SOURCE_MANUAL, ''policy''} then source else SOURCE_MANUAL)\<rparr>) db)
        (\<lambda>(db', _, _). Inr db'))"

definition emit_treatment_created :: "time \<Rightarrow> finding_treatment \<Rightarrow> asset_finding \<Rightarrow> db
    \<Rightarrow> event_error + (db \<times> domain_event \<times> bool)" where
  "emit_treatment_created now t f db =
     (let asset = t_get asset_id (af_asset_id f) (tb_assets db)
      in emit_domain_event now
       (event_defaults\<lparr>er_event_type := EVENT_TREATMENT_CREATED, er_tenant_id := Some (ft_tenant_id t),
          er_site_id := (case asset of Some a \<Rightarrow> asset_site_id a | None \<Rightarrow> None),
          er_asset_id := Some (af_asset_id f), er_asset_finding_id := Some (af_id f),
          er_treatment_id := Some (ft_id t), er_key := ''treatment_created:'' @ show_nat (ft_id t),
          er_details := [(''treatment_id'', jnat (ft_id t)), (''asset_finding_id'', jnat (af_id f)),
            (''treatment_type'', JStr (ft_treatment_type t)), (''status'', JStr (ft_status t))],
          er_source := SOURCE_MANUAL\<rparr>) db)"

definition emit_treatment_expired :: "time \<Rightarrow> finding_treatment \<Rightarrow> asset_finding \<Rightarrow> db
    \<Rightarrow> event_error + (db \<times> domain_event \<times> bool)" where
  "emit_treatment_expired now t f db =
     (let asset = t_get asset_id (af_asset_id f) (tb_assets db)
      in emit_domain_event now
       (event_defaults\<lparr>er_event_type := EVENT_TREATMENT_EXPIRED, er_tenant_id := Some (ft_tenant_id t),
          er_site_id := (case asset of Some a \<Rightarrow> asset_site_id a | None \<Rightarrow> None),
          er_asset_id := Some (af_asset_id f), er_asset_finding_id := Some (af_id f),
          er_treatment_id := Some (ft_id t), er_key := ''treatment_expired:'' @ show_nat (ft_id t),
          er_details := [(''treatment_id'', jnat (ft_id t)), (''asset_finding_id'', jnat (af_id f)),
            (''treatment_type'', JStr (ft_treatment_type t))],
          er_source := ''scheduler''\<rparr>) db)"

definition emit_agent_identity_mismatch :: "time \<Rightarrow> agent \<Rightarrow> string \<Rightarrow> string option \<Rightarrow> db
    \<Rightarrow> event_error + (db \<times> domain_event \<times> bool)" where
  "emit_agent_identity_mismatch now a reason source_ip =
     (let safe_reason = take 300 (words_joined reason);
          ip = (case source_ip of None \<Rightarrow> [] | Some s \<Rightarrow> s)
      in emit_domain_event now
       (event_defaults\<lparr>er_event_type := EVENT_AGENT_IDENTITY_MISMATCH, er_tenant_id := Some (ag_tenant_id a),
          er_site_id := Some (ag_site_id a), er_agent_id := Some (ag_id a),
          er_key := ''agent_identity_mismatch:'' @ show_nat (ag_id a) @ '':'' @ safe_reason @ '':'' @
            (if ip = [] then ''-'' else ip) @ '':'' @ strftime_compact now,
          er_details := [(''agent_id'', jnat (ag_id a)), (''agent_uuid'', JStr (ag_uuid a)),
            (''agent_name'', JStr (ag_name a)), (''reason'', JStr safe_reason), (''source_ip'', JStr ip)],
          er_source := ''agent'', er_occurred_at := Some now\<rparr>))"

definition emit_wan_target_changed :: "time \<Rightarrow> authorized_wan_target \<Rightarrow> string \<Rightarrow> db
    \<Rightarrow> event_error + (db \<times> domain_event \<times> bool)" where
  "emit_wan_target_changed now t change = emit_domain_event now
     (event_defaults\<lparr>er_event_type := EVENT_WAN_TARGET_CHANGED, er_tenant_id := Some (wan_tenant_id t),
        er_key := ''wan_target_changed:'' @ show_nat (wan_id t) @ '':'' @ change,
        er_details := [(''wan_target_id'', jnat (wan_id t)), (''change'', JStr change),
          (''name'', JStr (wan_name t)), (''target_type'', JStr (wan_target_type t)),
          (''normalized_value'', JStr (wan_normalized_value t))],
        er_source := SOURCE_MANUAL\<rparr>)"

definition emit_policy_changed :: "time \<Rightarrow> policy_rule \<Rightarrow> db
    \<Rightarrow> event_error + (db \<times> domain_event \<times> bool)" where
  "emit_policy_changed now row = emit_domain_event now
     (event_defaults\<lparr>er_event_type := EVENT_POLICY_CHANGED, er_tenant_id := pr_tenant_id row,
        er_site_id := pr_site_id row, er_network_id := pr_network_id row, er_policy_rule_id := Some (pr_id row),
        er_key := ''policy_changed:'' @ show_nat (pr_id row) @ '':'' @ show_int (pr_revision row),
        er_details := [(''policy_id'', jnat (pr_id row)), (''revision'', JInt (pr_revision row)),
          (''category'', JStr (pr_category row)), (''scope_type'', JStr (pr_scope_type row)),
          (''name'', JStr (pr_name row)), (''enabled'', JBool (pr_enabled row)),
          (''archived'', JBool (pr_archived_at row \<noteq> None))],
        er_source := SOURCE_MANUAL\<rparr>)"

subsection \<open>What emission guarantees\<close>

text \<open>The outcomes of one emission: the key was taken, or the checked event was appended together
  with its queue row.\<close>

lemma emit_cases:
  assumes "emit_domain_event now e db = Inr (db', ev, created)"
  obtains (existing) "t_first (\<lambda>r. ev_idempotence_key r = er_key e) (tb_domain_events db) = Some ev"
      "db' = db" "\<not> created"
  | (new) "t_first (\<lambda>r. ev_idempotence_key r = er_key e) (tb_domain_events db) = None"
      "validate_event_relationships db e = Inr ()"
      "ev = mk_event now e (t_next (tb_domain_events db))"
      "db' = enqueue_alert_routing now (ev_id ev)
         (db\<lparr>tb_domain_events := t_insert (mk_event now e) (tb_domain_events db)\<rparr>)" "created"
      "er_event_type e \<in> set DOMAIN_EVENT_TYPES"
  using assms unfolding emit_domain_event_def
  by (auto simp: rbind_Inr_iff Let_def split: if_splits option.splits)

lemma emit_frame:
  assumes "emit_domain_event now e db = Inr (db', ev, created)"
  shows "\<exists>E Q. db' = db\<lparr>tb_domain_events := E, tb_event_alert_queue := Q\<rparr>"
  using assms
proof (cases rule: emit_cases)
  case existing
  then have "db' = db\<lparr>tb_domain_events := tb_domain_events db, tb_event_alert_queue := tb_event_alert_queue db\<rparr>"
    by simp
  then show ?thesis by blast
next
  case new
  then show ?thesis by (auto simp: enqueue_alert_routing_def)
qed

text \<open>The event log and the queue as logs with an idempotence key.\<close>

definition put_event :: "time \<times> event_req \<Rightarrow> domain_event tbl \<Rightarrow> domain_event tbl" where
  "put_event a = put_once ev_idempotence_key (er_key (snd a)) (mk_event (fst a) (snd a))"

definition put_queue :: "time \<times> nat \<Rightarrow> event_alert_queue tbl \<Rightarrow> event_alert_queue tbl" where
  "put_queue a = put_once eq_domain_event_id (snd a) (mk_queue_row (fst a) (snd a))"

interpretation event_log: insert_once ev_idempotence_key put_event
    "\<lambda>a. er_key (snd a)" "\<lambda>a. mk_event (fst a) (snd a)"
  by unfold_locales (auto simp: put_event_def mk_event_def)

interpretation alert_queue: insert_once eq_domain_event_id put_queue
    snd "\<lambda>a. mk_queue_row (fst a) (snd a)"
  by unfold_locales (auto simp: put_queue_def mk_queue_row_def)

lemma emit_tables:
  assumes "emit_domain_event now e db = Inr (db', ev, created)"
  shows "tb_domain_events db' = put_event (now, e) (tb_domain_events db)"
    and "tb_event_alert_queue db' = (if created then put_queue (now, ev_id ev) (tb_event_alert_queue db)
       else tb_event_alert_queue db)"
  using assms
  by (cases rule: emit_cases;
      auto simp: put_event_def put_queue_def put_once_def t_exists_iff t_first_None
        enqueue_alert_routing_def dest!: t_first_Some; fail)+

text \<open>Replaying an emission finds the stored event and changes nothing.\<close>

lemma emit_replay_lemma:
  assumes "emit_domain_event now e db = Inr (db', ev, created)"
    and "er_event_type e \<in> set DOMAIN_EVENT_TYPES"
  shows "emit_domain_event now' e db' = Inr (db', ev, False)"
  using assms(1)
proof (cases rule: emit_cases)
  case existing
  with assms(2) show ?thesis by (simp add: emit_domain_event_def)
next
  case new
  then have "t_first (\<lambda>r. ev_idempotence_key r = er_key e) (tb_domain_events db') = Some ev"
    by (simp add: enqueue_alert_routing_def t_first_insert mk_event_def)
  with new show ?thesis by (simp add: emit_domain_event_def)
qed

text \<open>An event is local to the database when every row it names exists and agrees with the
  event's tenant, site, network, asset and finding.\<close>

definition event_local :: "db \<Rightarrow> domain_event \<Rightarrow> bool" where
  "event_local db e \<longleftrightarrow>
     (\<forall>i. ev_tenant_id e = Some i \<longrightarrow> t_get tn_id i (tb_tenants db) \<noteq> None) \<and>
     (\<forall>i. ev_site_id e = Some i \<longrightarrow> (\<exists>r. t_get site_id i (tb_sites db) = Some r \<and> ev_tenant_id e = Some (site_tenant_id r))) \<and>
     (\<forall>i. ev_network_id e = Some i \<longrightarrow> (\<exists>r. t_get net_id i (tb_networks db) = Some r
        \<and> ev_site_id e = Some (net_site_id r) \<and> ev_tenant_id e = Some (net_tenant_id r))) \<and>
     (\<forall>i. ev_asset_id e = Some i \<longrightarrow> (\<exists>r. t_get asset_id i (tb_assets db) = Some r \<and> ev_tenant_id e = Some (asset_tenant_id r))) \<and>
     (\<forall>i. ev_asset_finding_id e = Some i \<longrightarrow> (\<exists>r. t_get af_id i (tb_asset_findings db) = Some r
        \<and> ev_tenant_id e = Some (af_tenant_id r) \<and> (\<forall>a. ev_asset_id e = Some a \<longrightarrow> af_asset_id r = a))) \<and>
     (\<forall>i. ev_scan_job_id e = Some i \<longrightarrow> (\<exists>r. t_get job_id i (tb_scan_jobs db) = Some r \<and> ev_tenant_id e = Some (job_tenant_id r))) \<and>
     (\<forall>i. ev_agent_id e = Some i \<longrightarrow> (\<exists>r. t_get ag_id i (tb_agents db) = Some r
        \<and> ev_tenant_id e = Some (ag_tenant_id r) \<and> (\<forall>j. ev_site_id e = Some j \<longrightarrow> ag_site_id r = j))) \<and>
     (\<forall>i. ev_treatment_id e = Some i \<longrightarrow> (\<exists>r. t_get ft_id i (tb_finding_treatments db) = Some r
        \<and> ev_tenant_id e = Some (ft_tenant_id r))) \<and>
     (\<forall>i. ev_policy_rule_id e = Some i \<longrightarrow> (\<exists>r. t_get pr_id i (tb_policy_rules db) = Some r
        \<and> (\<forall>j. pr_tenant_id r = Some j \<longrightarrow> ev_tenant_id e = Some j)))"

lemma subject_check_Inr [simp]:
  "subject_check s m f = Inr u \<longleftrightarrow> (\<exists>r. s = Some r \<and> (\<forall>c \<in> set (f r). c = Inr ()))"
  by (auto simp: subject_check_def split: option.splits)

lemma load_opt_Some [simp]: "load_opt key t (Some i) = t_get key i t"
  by (simp add: load_opt_def)

lemmas check_simps = checks_Inr require_Inr when_some_Inr subject_check_Inr list.set insert_iff
  empty_iff ball_simps simp_thms event_subjects.simps

lemmas locality_simps = validate_event_relationships_def assert_event_locality_def load_event_subjects_def

lemma validated_local:
  assumes "validate_event_relationships db e = Inr ()"
  shows "event_local db (mk_event now e i)"
proof -
  note c = assms [unfolded locality_simps, simplified check_simps]
  have "er_tenant_id e = Some j \<Longrightarrow> t_get tn_id j (tb_tenants db) \<noteq> None" for j
    using c by auto
  moreover from c have "er_site_id e = Some j \<Longrightarrow> \<exists>r. t_get site_id j (tb_sites db) = Some r
      \<and> er_tenant_id e = Some (site_tenant_id r)" for j by (metis load_opt_Some)
  moreover from c have "er_network_id e = Some j \<Longrightarrow> \<exists>r. t_get net_id j (tb_networks db) = Some r
      \<and> er_site_id e = Some (net_site_id r) \<and> er_tenant_id e = Some (net_tenant_id r)" for j
    by (metis load_opt_Some)
  moreover from c have "er_asset_id e = Some j \<Longrightarrow> \<exists>r. t_get asset_id j (tb_assets db) = Some r
      \<and> er_tenant_id e = Some (asset_tenant_id r)" for j by (metis load_opt_Some)
  moreover from c have "er_asset_finding_id e = Some j \<Longrightarrow> \<exists>r. t_get af_id j (tb_asset_findings db) = Some r
      \<and> er_tenant_id e = Some (af_tenant_id r) \<and> (\<forall>a. er_asset_id e = Some a \<longrightarrow> af_asset_id r = a)" for j
    by (metis load_opt_Some)
  moreover from c have "er_scan_job_id e = Some j \<Longrightarrow> \<exists>r. t_get job_id j (tb_scan_jobs db) = Some r
      \<and> er_tenant_id e = Some (job_tenant_id r)" for j by (metis load_opt_Some)
  moreover from c have "er_agent_id e = Some j \<Longrightarrow> \<exists>r. t_get ag_id j (tb_agents db) = Some r
      \<and> er_tenant_id e = Some (ag_tenant_id r) \<and> (\<forall>k. er_site_id e = Some k \<longrightarrow> ag_site_id r = k)" for j
    by (metis load_opt_Some)
  moreover from c have "er_treatment_id e = Some j \<Longrightarrow> \<exists>r. t_get ft_id j (tb_finding_treatments db) = Some r
      \<and> er_tenant_id e = Some (ft_tenant_id r)" for j by (metis load_opt_Some)
  moreover from c have "er_policy_rule_id e = Some j \<Longrightarrow> \<exists>r. t_get pr_id j (tb_policy_rules db) = Some r
      \<and> (\<forall>k. pr_tenant_id r = Some k \<longrightarrow> er_tenant_id e = Some k)" for j by (metis load_opt_Some)
  ultimately show ?thesis by (simp add: event_local_def mk_event_def)
qed

lemma event_local_cong:
  assumes "tb_tenants db' = tb_tenants db" "tb_sites db' = tb_sites db" "tb_networks db' = tb_networks db"
    "tb_assets db' = tb_assets db" "tb_asset_findings db' = tb_asset_findings db"
    "tb_scan_jobs db' = tb_scan_jobs db" "tb_agents db' = tb_agents db"
    "tb_finding_treatments db' = tb_finding_treatments db" "tb_policy_rules db' = tb_policy_rules db"
  shows "event_local db' e = event_local db e"
  using assms by (simp add: event_local_def)

text \<open>The invariant of the event store: keys are unique, ids are unique, and the queue holds
  exactly one row per event.\<close>

definition event_store_ok :: "db \<Rightarrow> bool" where
  "event_store_ok db \<longleftrightarrow>
     t_wf ev_id (tb_domain_events db) \<and>
     distinct (map ev_idempotence_key (t_rows (tb_domain_events db))) \<and>
     distinct (map eq_domain_event_id (t_rows (tb_event_alert_queue db))) \<and>
     eq_domain_event_id ` set (t_rows (tb_event_alert_queue db)) = ev_id ` set (t_rows (tb_domain_events db))"

lemma t_wf_insert: "t_wf key t \<Longrightarrow> key (mk (t_next t)) = t_next t \<Longrightarrow> t_wf key (t_insert mk t)"
  by (fastforce simp: t_wf_def list_all_iff)

lemma emit_store_ok_lemma:
  assumes "emit_domain_event now e db = Inr (db', ev, created)" and "event_store_ok db"
  shows "event_store_ok db'"
  using assms(1)
proof (cases rule: emit_cases)
  case existing
  with assms(2) show ?thesis by simp
next
  case new
  have rows: "t_rows (tb_domain_events db') = t_rows (tb_domain_events db) @ [ev]"
    and next1: "t_next (tb_domain_events db') = Suc (t_next (tb_domain_events db))"
    using new by (simp_all add: enqueue_alert_routing_def)
  have wf: "t_wf ev_id (tb_domain_events db)" using assms(2) by (simp add: event_store_ok_def)
  have "tb_domain_events db' = t_insert (mk_event now e) (tb_domain_events db)"
    using new by (simp add: enqueue_alert_routing_def)
  then have 1: "t_wf ev_id (tb_domain_events db')"
    using wf by (simp add: t_wf_insert mk_event_def)
  have 2: "distinct (map ev_idempotence_key (t_rows (tb_domain_events db')))"
    using emit_tables(1) [OF assms(1)] event_log.put_distinct assms(2) by (simp add: event_store_ok_def)
  have q: "tb_event_alert_queue db' = put_queue (now, ev_id ev) (tb_event_alert_queue db)"
    using emit_tables(2) [OF assms(1)] new by simp
  have 3: "distinct (map eq_domain_event_id (t_rows (tb_event_alert_queue db')))"
    unfolding q using alert_queue.put_distinct assms(2) by (simp add: event_store_ok_def)
  have 4: "eq_domain_event_id ` set (t_rows (tb_event_alert_queue db')) = ev_id ` set (t_rows (tb_domain_events db'))"
    unfolding q rows alert_queue.put_keys using assms(2) by (simp add: event_store_ok_def)
  from 1 2 3 4 show ?thesis by (simp add: event_store_ok_def)
qed

lemma safe_details_no_secret: "k \<in> set SECRET_KEYS \<Longrightarrow> jget k (JObj (safe_details d)) = JNull"
proof -
  assume "k \<in> set SECRET_KEYS"
  then have "k \<notin> fst ` set (safe_details d)" by (auto simp: safe_details_def)
  then show ?thesis by (simp add: map_of_eq_None_iff [symmetric])
qed

end
