(* ===== verification/Services.thy ===== *)
theory Services
  imports Events
begin

section \<open>Errors of the service layer and the audit log\<close>

text \<open>
  The exceptions the services raise, as one datatype, and \<^verbatim>\<open>backend/app/audit.py\<close>:
  \<open>record_audit\<close> appends one row to the audit log. The returned row's id is its primary key,
  assigned at the next flush.
\<close>

datatype app_error =
    HttpError nat string
  | PolicyError string nat
  | LanScanInvalid string
  | ServiceError string
  | PyError string
  | AppEvent event_error

definition app_event :: "event_error + 'a \<Rightarrow> app_error + 'a" where
  "app_event r = (case r of Inl e \<Rightarrow> Inl (AppEvent e) | Inr x \<Rightarrow> Inr x)"

lemma app_event_Inr [simp]: "app_event r = Inr x \<longleftrightarrow> r = Inr x"
  by (simp add: app_event_def split: sum.splits)

record audit_req =
  ar_actor :: "user option"
  ar_action :: string
  ar_object_type :: string
  ar_object_id :: "nat option"
  ar_tenant_id :: "nat option"
  ar_site_id :: "nat option"
  ar_details :: "(string \<times> json) list"

definition mk_audit :: "time \<Rightarrow> audit_req \<Rightarrow> nat \<Rightarrow> audit_log" where
  "mk_audit now a i = \<lparr>aud_id = i, aud_actor_user_id = map_option u_id (ar_actor a),
     aud_actor_username = map_option u_username (ar_actor a), aud_action = ar_action a,
     aud_object_type = ar_object_type a, aud_object_id = ar_object_id a, aud_tenant_id = ar_tenant_id a,
     aud_site_id = ar_site_id a, aud_details = JObj (ar_details a), aud_created_at = now\<rparr>"

definition record_audit :: "time \<Rightarrow> audit_req \<Rightarrow> db \<Rightarrow> db \<times> nat" where
  "record_audit now a db =
     (db\<lparr>tb_audit_logs := t_insert (mk_audit now a) (tb_audit_logs db)\<rparr>, t_next (tb_audit_logs db))"

lemma record_audit_fst: "fst (record_audit now a db) =
    db\<lparr>tb_audit_logs := t_insert (mk_audit now a) (tb_audit_logs db)\<rparr>"
  by (simp add: record_audit_def)

text \<open>A decoded value the code knows to be a string, and the entries of a JSON object.\<close>

fun jstr :: "json \<Rightarrow> string" where
  "jstr (JStr s) = s" | "jstr v = []"

fun obj_items :: "json \<Rightarrow> (string \<times> json) list" where
  "obj_items (JObj kvs) = kvs" | "obj_items v = []"

end
