(* ===== verification/Samples.thy ===== *)
theory Samples
  imports Services
begin

section \<open>Sample rows\<close>

text \<open>
  One row of each central table, in one tenant with two sites. The witnesses of the properties
  build their databases from them and evaluate the operations there.
\<close>

definition sample_tenant :: tenant where
  "sample_tenant = \<lparr>tn_id = 1, tn_name = ''t'', tn_notes = [], tn_created_at = 0\<rparr>"

definition sample_agent :: agent where
  "sample_agent = \<lparr>ag_id = 5, ag_tenant_id = 1, ag_site_id = 1, ag_name = ''a'', ag_uuid = ''u'',
     ag_enrollment_secret = None, ag_status = ''approved'', ag_public_key = None, ag_hostname = None,
     ag_container_id = None, ag_last_ip = None, ag_last_heartbeat = Some 0, ag_runtime_inventory = None,
     ag_runtime_inventory_reported_at = None, ag_created_at = 0, ag_approved_at = None, ag_approved_by_id = None\<rparr>"

definition sample_user :: user where
  "sample_user = \<lparr>u_id = 1, u_username = ''root'', u_email = ''r@x'', u_password_hash = [],
     u_role = ''admin'', u_is_active = True, u_viewer_all_tenants = False, u_viewer_expires_at = None,
     u_created_at = 0\<rparr>"

definition sample_site :: site where
  "sample_site = \<lparr>site_id = 1, site_tenant_id = 1, site_name = ''hq'', site_timezone = None,
     site_archived_at = None, site_created_at = 0\<rparr>"

definition sample_network :: network where
  "sample_network = \<lparr>net_id = 1, net_tenant_id = 1, net_site_id = 1, net_name = ''lan'',
     net_cidr = ''10.0.0.0/24'', net_dispatch_mode = DISPATCH_ANY_AVAILABLE,
     net_preferred_agent_id = None, net_archived_at = None, net_created_at = 0\<rparr>"

definition sample_asset :: asset where
  "sample_asset = \<lparr>asset_id = 1, asset_tenant_id = 1, asset_site_id = Some 1,
     asset_merged_into_asset_id = None, asset_merged_at = None, asset_display_name = ''srv1'',
     asset_classification = ''Unknown'', asset_description = [],
     asset_lifecycle_state = Some LIFECYCLE_ACTIVE, asset_disposition = DISPOSITION_UNREVIEWED,
     asset_criticality = CRITICALITY_NORMAL, asset_is_expected = False, asset_first_seen = Some 0,
     asset_last_seen = Some 0, asset_created_at = 0, asset_updated_at = 0\<rparr>"

definition sample_rule :: policy_rule where
  "sample_rule = \<lparr>pr_id = 1, pr_name = ''r'', pr_description = [],
     pr_category = POLICY_CATEGORY_ASSET_HANDLING, pr_scope_type = POLICY_SCOPE_GLOBAL,
     pr_tenant_id = None, pr_site_id = None, pr_network_id = None, pr_priority = 100, pr_enabled = True,
     pr_conditions = JArr [], pr_actions = JObj [(''classification'', JStr ''Server'')],
     pr_revision = 1, pr_created_by_user_id = None, pr_updated_by_user_id = None, pr_created_at = 0,
     pr_updated_at = 0, pr_archived_at = None, pr_archived_by_user_id = None, pr_archive_reason = None\<rparr>"

definition small_world :: db where
  "small_world = empty_db\<lparr>
     tb_users := \<lparr>t_next = 2, t_rows = [sample_user]\<rparr>,
     tb_tenants := \<lparr>t_next = 2, t_rows = [sample_tenant]\<rparr>,
     tb_sites := \<lparr>t_next = 3, t_rows = [sample_site, sample_site\<lparr>site_id := 2, site_name := ''dc''\<rparr>]\<rparr>,
     tb_networks := \<lparr>t_next = 2, t_rows = [sample_network]\<rparr>,
     tb_agents := \<lparr>t_next = 6, t_rows = [sample_agent]\<rparr>,
     tb_assets := \<lparr>t_next = 2, t_rows = [sample_asset]\<rparr>\<rparr>"

end
