(* ===== verification/Jobs.thy ===== *)
theory Jobs
  imports Samples
begin

section \<open>Scan runs: claims, deadlines and terminal states\<close>

text \<open>
  The scan-job state machine, from \<^verbatim>\<open>jobs.py\<close> (terminal transitions), \<^verbatim>\<open>job_control.py\<close>
  (deadlines and cancel requests), \<^verbatim>\<open>scan_dispatch.py\<close> (agent health, dispatch policy, atomic
  claims), \<^verbatim>\<open>scheduler.py\<close> (stuck and waiting runs) and the ownership guards of
  \<^verbatim>\<open>scan_execution.py\<close>. Operations take the run's id; the session's row object is the row of
  the table. One \<open>now\<close> stands for the clock readings of one operation.
\<close>

datatype run_error =
    ExecutionBlocked string
  | DispatchError string
  | ValueError
  | EventFailed event_error

definition lift_event :: "event_error + 'a \<Rightarrow> run_error + 'a" where
  "lift_event r = (case r of Inl e \<Rightarrow> Inl (EventFailed e) | Inr x \<Rightarrow> Inr x)"

lemma lift_event_Inr [simp]: "lift_event r = Inr x \<longleftrightarrow> r = Inr x"
  by (simp add: lift_event_def split: sum.splits)

definition get_job :: "nat \<Rightarrow> db \<Rightarrow> scan_job option" where
  "get_job i db = t_get job_id i (tb_scan_jobs db)"

definition set_job :: "nat \<Rightarrow> (scan_job \<Rightarrow> scan_job) \<Rightarrow> db \<Rightarrow> db" where
  "set_job i f db = db\<lparr>tb_scan_jobs := t_modify (\<lambda>j. job_id j = i) f (tb_scan_jobs db)\<rparr>"

subsection \<open>Terminal transitions (jobs.py)\<close>

definition is_terminal :: "scan_job \<Rightarrow> bool" where
  "is_terminal job \<longleftrightarrow> job_status job \<in> {JOB_FAILED, JOB_CANCELLED, JOB_DONE, JOB_MISSED}"

definition no_text :: "string option \<Rightarrow> bool" where
  \<comment> \<open>\<open>not job.error\<close>\<close>
  "no_text s \<longleftrightarrow> s = None \<or> s = Some []"

definition drop_claim :: "bool \<Rightarrow> scan_job \<Rightarrow> scan_job" where
  "drop_claim clear_claim job =
     (if clear_claim then job\<lparr>job_claimed_agent_id := None, job_claimed_by := None\<rparr> else job)"

definition failed_row :: "time \<Rightarrow> string \<Rightarrow> bool \<Rightarrow> scan_job \<Rightarrow> scan_job" where
  "failed_row now detail clear_claim job =
     drop_claim clear_claim (job\<lparr>job_status := JOB_FAILED, job_error := Some detail, job_finished_at := Some now\<rparr>)"

definition cancelled_row :: "time \<Rightarrow> string \<Rightarrow> bool \<Rightarrow> scan_job \<Rightarrow> scan_job" where
  "cancelled_row now detail clear_claim job =
     drop_claim clear_claim (job\<lparr>job_status := JOB_CANCELLED, job_error := Some detail, job_finished_at := Some now,
       job_cancel_requested_at := (case job_cancel_requested_at job of None \<Rightarrow> Some now | Some t \<Rightarrow> Some t)\<rparr>)"

definition note_error :: "string \<Rightarrow> scan_job \<Rightarrow> scan_job" where
  "note_error detail job = (if detail \<noteq> [] \<and> no_text (job_error job) then job\<lparr>job_error := Some detail\<rparr> else job)"

definition transition_job_to_failed :: "time \<Rightarrow> nat \<Rightarrow> string \<Rightarrow> bool \<Rightarrow> db \<Rightarrow> run_error + (db \<times> bool)" where
  "transition_job_to_failed now jid detail clear_claim db = (case get_job jid db of
       None \<Rightarrow> Inl (ExecutionBlocked ''Job not found'')
     | Some job \<Rightarrow>
        if job_status job = JOB_FAILED then Inr (db, False)
        else if job_status job = JOB_CANCELLED then Inr (set_job jid (note_error detail) db, False)
        else let db1 = set_job jid (failed_row now detail clear_claim) db
          in rbind (lift_event (emit_scan_failed now (failed_row now detail clear_claim job) detail db1))
               (\<lambda>(db2, _, _). Inr (db2, True)))"

definition transition_job_to_cancelled :: "time \<Rightarrow> nat \<Rightarrow> string \<Rightarrow> bool \<Rightarrow> db \<Rightarrow> run_error + (db \<times> bool)" where
  "transition_job_to_cancelled now jid detail clear_claim db = (case get_job jid db of
       None \<Rightarrow> Inl (ExecutionBlocked ''Job not found'')
     | Some job \<Rightarrow>
        if is_terminal job then
          Inr (if job_status job = JOB_CANCELLED then set_job jid (note_error detail) db else db, False)
        else let db1 = set_job jid (cancelled_row now detail clear_claim) db
          in rbind (lift_event (emit_scan_failed now (cancelled_row now detail clear_claim job) detail db1))
               (\<lambda>(db2, _, _). Inr (db2, True)))"

definition fail_job :: "time \<Rightarrow> nat \<Rightarrow> string \<Rightarrow> db \<Rightarrow> run_error + db" where
  "fail_job now jid detail db = rbind (transition_job_to_failed now jid detail False db) (\<lambda>(db', _). Inr db')"

definition fail_unclaimed_job :: "time \<Rightarrow> nat \<Rightarrow> string \<Rightarrow> db \<Rightarrow> run_error + db" where
  "fail_unclaimed_job now jid detail db = rbind (transition_job_to_failed now jid detail True db) (\<lambda>(db', _). Inr db')"

definition RUNNABLE_LEGACY_STATUSES :: "string list" where
  "RUNNABLE_LEGACY_STATUSES = [JOB_QUEUED, JOB_WAITING_FOR_AGENT, JOB_RUNNING]"

definition fail_pending_legacy_pre_1d_jobs :: "time \<Rightarrow> nat option \<Rightarrow> db \<Rightarrow> run_error + (db \<times> nat)" where
  "fail_pending_legacy_pre_1d_jobs now only db =
     (let rows = t_select (\<lambda>j. job_execution_snapshot j = None \<and> job_status j \<in> set RUNNABLE_LEGACY_STATUSES
          \<and> (case only of None \<Rightarrow> True | Some i \<Rightarrow> job_id j = i)) (tb_scan_jobs db)
      in rfold (\<lambda>job (db, changed).
           rbind (transition_job_to_failed now (job_id job) LEGACY_PRE_1D_REQUEUE_ERROR True db) (\<lambda>(db1, c).
             Inr (set_job (job_id job) (\<lambda>j. j\<lparr>job_finished_at := Some now\<rparr>) db1,
                  if c then Suc changed else changed))) rows (db, 0))"

definition has_active_job :: "db \<Rightarrow> nat \<Rightarrow> bool" where
  "has_active_job db sid = t_exists (\<lambda>j. job_scan_id j = sid
     \<and> job_status j \<in> {JOB_QUEUED, JOB_RUNNING, JOB_WAITING_FOR_AGENT}) (tb_scan_jobs db)"

definition due_scans :: "time \<Rightarrow> db \<Rightarrow> scan list" where
  "due_scans now db = sorted_by (\<lambda>s. (scan_next_run_at s, scan_id s))
     (t_select (\<lambda>s. scan_is_enabled s \<and> scan_archived_at s = None \<and> \<not> scan_needs_review s
        \<and> (case scan_next_run_at s of None \<Rightarrow> False | Some t \<Rightarrow> t \<le> now)) (tb_scans db))"

subsection \<open>Deadlines and cancel requests (job_control.py)\<close>

definition job_timeout_minutes :: "db \<Rightarrow> run_error + int" where
  "job_timeout_minutes db = (case json_int (jor (setting db ''job_timeout_minutes'') (JInt 180)) of
     None \<Rightarrow> Inl ValueError | Some m \<Rightarrow> Inr (max 30 m))"

definition deadline_for_start :: "time \<Rightarrow> db \<Rightarrow> run_error + time" where
  "deadline_for_start now db = rbind (job_timeout_minutes db) (\<lambda>m. Inr (now + m * minute))"

definition cancel_grace :: "int \<Rightarrow> int" where
  \<comment> \<open>the argument is the deployment's \<open>SCANNER_CANCEL_GRACE_SECONDS\<close>\<close>
  "cancel_grace grace_seconds = max 15 grace_seconds * second"

definition job_cancel_requested :: "time \<Rightarrow> scan_job \<Rightarrow> bool" where
  "job_cancel_requested now job \<longleftrightarrow>
     (if job_cancel_requested_at job \<noteq> None then True
      else if job_status job \<noteq> JOB_RUNNING then True
      else case job_deadline_at job of Some deadline \<Rightarrow> deadline \<le> now | None \<Rightarrow> False)"

definition job_control_payload :: "time \<Rightarrow> scan_job \<Rightarrow> json" where
  "job_control_payload now job = JObj [(''job_id'', jnat (job_id job)), (''status'', JStr (job_status job)),
     (''cancel_requested'', JBool (job_cancel_requested now job)),
     (''deadline_at'', jopt (\<lambda>t. JStr (isoformat t)) (job_deadline_at job))]"

definition mark_cancel_row :: "time \<Rightarrow> string option \<Rightarrow> scan_job \<Rightarrow> scan_job" where
  "mark_cancel_row now reason job = job\<lparr>
     job_cancel_requested_at := (case job_cancel_requested_at job of None \<Rightarrow> Some now | Some t \<Rightarrow> Some t),
     job_deadline_at := (case job_deadline_at job of None \<Rightarrow> Some now | Some t \<Rightarrow> Some t),
     job_error := (if \<not> no_text reason \<and> no_text (job_error job) then reason else job_error job)\<rparr>"

definition mark_cancel_requested :: "time \<Rightarrow> string option \<Rightarrow> scan_job \<Rightarrow> scan_job \<times> bool" where
  "mark_cancel_requested now reason job =
     (if job_status job \<noteq> JOB_RUNNING then (job, False) else (mark_cancel_row now reason job, True))"

subsection \<open>Agent health and dispatch policy (scan\_dispatch.py)\<close>

definition CENTRAL_WORKER :: string where "CENTRAL_WORKER = ''central''"

definition is_agent_healthy :: "time \<Rightarrow> int \<Rightarrow> agent \<Rightarrow> bool" where
  "is_agent_healthy now window_seconds a \<longleftrightarrow> ag_status a = ''approved'' \<and>
     (case ag_last_heartbeat a of None \<Rightarrow> False | Some hb \<Rightarrow> now - window_seconds * second \<le> hb)"

abbreviation agent_healthy :: "time \<Rightarrow> agent \<Rightarrow> bool" where
  "agent_healthy now a \<equiv> is_agent_healthy now AGENT_HEALTH_SECONDS a"

definition authorized_agent_ids :: "db \<Rightarrow> nat \<Rightarrow> nat list" where
  "authorized_agent_ids db nid = map na_agent_id (t_select (\<lambda>r. na_network_id r = nid) (tb_network_agents db))"

definition common_eligible_agents :: "db \<Rightarrow> network list \<Rightarrow> run_error + agent list" where
  "common_eligible_agents db nets = (case nets of
       [] \<Rightarrow> Inl (DispatchError ''LAN scans require at least one network'')
     | n0 # rest \<Rightarrow>
        if card (net_site_id ` set nets) \<noteq> 1 \<or> card (net_tenant_id ` set nets) \<noteq> 1
        then Inl (DispatchError ''LAN scan definitions cannot span sites'')
        else let common = filter (\<lambda>i. list_all (\<lambda>n. i \<in> set (authorized_agent_ids db (net_id n))) rest)
                   (authorized_agent_ids db (net_id n0))
          in if common = [] then Inl (DispatchError ''Agent is not authorized for every selected network'')
          else let agents = sorted_by ag_id (t_select (\<lambda>a. ag_id a \<in> set common
                    \<and> ag_tenant_id a = net_tenant_id n0 \<and> ag_site_id a = net_site_id n0
                    \<and> ag_status a \<noteq> ''revoked'') (tb_agents db))
            in if agents = [] then Inl (DispatchError ''Agent is not authorized for every selected network'')
               else Inr agents)"

record dispatch_policy =
  dp_mode :: string
  dp_preferred_agent_id :: "nat option"

definition resolve_dispatch_policy :: "network list \<Rightarrow> nat list \<Rightarrow> run_error + dispatch_policy" where
  "resolve_dispatch_policy nets eligible =
     (let preferred = filter (\<lambda>n. net_dispatch_mode n = DISPATCH_PREFERRED_FAILOVER) nets;
          preferred_ids = dedup (map net_preferred_agent_id preferred)
      in if preferred = [] then Inr \<lparr>dp_mode = DISPATCH_ANY_AVAILABLE, dp_preferred_agent_id = None\<rparr>
         else if None \<in> set preferred_ids
           then Inl (DispatchError ''Preferred + Failover networks must name a preferred agent'')
         else (case preferred_ids of
             [Some p] \<Rightarrow> if p \<notin> set eligible
               then Inl (DispatchError ''Preferred agent is not in the common eligible pool'')
               else Inr \<lparr>dp_mode = DISPATCH_PREFERRED_FAILOVER, dp_preferred_agent_id = Some p\<rparr>
           | _ \<Rightarrow> Inl (DispatchError ''Selected networks disagree on the preferred agent'')))"

definition dispatch_settings :: "db \<Rightarrow> run_error + (int \<times> int)" where
  "dispatch_settings db =
     (case (json_int (jor (setting db ''preferred_agent_grace_seconds'') (JInt DEFAULT_PREFERRED_AGENT_GRACE_SECONDS)),
            json_int (jor (setting db ''agent_job_wait_minutes'') (JInt DEFAULT_AGENT_JOB_WAIT_MINUTES))) of
        (Some grace, Some wait) \<Rightarrow>
          if grace < 0 \<or> wait \<le> 0 then Inl (DispatchError ''Agent wait / grace settings must be positive'')
          else Inr (grace, wait)
      | _ \<Rightarrow> Inl (DispatchError ''Invalid agent wait / grace settings''))"

definition initial_job_status :: "agent list \<Rightarrow> int \<Rightarrow> time \<Rightarrow> string \<times> time option \<times> time option" where
  "initial_job_status healthy wait_minutes now =
     (if healthy \<noteq> [] then (JOB_QUEUED, None, None)
      else (JOB_WAITING_FOR_AGENT, Some now, Some (now + wait_minutes * minute)))"

text \<open>\<open>datetime.fromisoformat\<close> of the stamp the snapshot stores (itself written by
  \<open>isoformat\<close>) is the argument \<open>fromiso\<close>; \<open>None\<close> is its ValueError.\<close>

definition agent_may_claim_now ::
    "(string \<Rightarrow> time option) \<Rightarrow> time \<Rightarrow> agent \<Rightarrow> json \<Rightarrow> (nat \<Rightarrow> agent option) \<Rightarrow> run_error + bool" where
  "agent_may_claim_now fromiso now a snapshot agents_by_id =
     (let dispatch = as_obj (jget ''dispatch'' snapshot);
          eligible = List.map_filter as_nat (as_arr (jget ''eligible_agent_ids'' dispatch));
          preferred_id = as_nat (jget ''preferred_agent_id'' dispatch)
      in if ag_id a \<notin> set eligible then Inr False
         else if \<not> agent_healthy now a then Inr False
         else if jget ''mode'' dispatch \<noteq> JStr DISPATCH_PREFERRED_FAILOVER \<or> preferred_id = None then Inr True
         else if Some (ag_id a) = preferred_id then Inr True
         else (case agents_by_id (the preferred_id) of
             None \<Rightarrow> Inr True
           | Some p \<Rightarrow> if \<not> agent_healthy now p then Inr True
              else (case json_int (jor (jget ''grace_seconds'' dispatch) (JInt DEFAULT_PREFERRED_AGENT_GRACE_SECONDS)) of
                  None \<Rightarrow> Inl ValueError
                | Some grace \<Rightarrow>
                   let available_from = (case jget ''created_at'' snapshot of
                         JStr s \<Rightarrow> (if s = [] then now else case fromiso s of Some t \<Rightarrow> t | None \<Rightarrow> now)
                       | _ \<Rightarrow> now)
                   in Inr (available_from + grace * second \<le> now))))"

subsection \<open>Atomic claims\<close>

definition agent_has_running_job :: "db \<Rightarrow> nat \<Rightarrow> bool" where
  "agent_has_running_job db aid = t_exists (\<lambda>j. job_claimed_agent_id j = Some aid \<and> job_status j = JOB_RUNNING)
     (tb_scan_jobs db)"

definition claimed_row :: "time \<Rightarrow> time \<Rightarrow> nat option \<Rightarrow> string \<Rightarrow> scan_job \<Rightarrow> scan_job" where
  "claimed_row now deadline aid worker job = job\<lparr>job_status := JOB_RUNNING,
     job_claimed_agent_id := (case aid of Some i \<Rightarrow> Some i | None \<Rightarrow> job_claimed_agent_id job),
     job_claimed_by := Some worker, job_started_at := Some now, job_deadline_at := Some deadline\<rparr>"

text \<open>\<open>UPDATE ... WHERE id AND status AND unclaimed RETURNING id\<close>: one statement, so the guard and
  the write are one step.\<close>

definition atomic_claim_central_job :: "time \<Rightarrow> nat \<Rightarrow> db \<Rightarrow> run_error + (db \<times> scan_job option)" where
  "atomic_claim_central_job now jid db = rbind (deadline_for_start now db) (\<lambda>deadline.
     let claimable = (\<lambda>j. job_id j = jid \<and> job_status j = JOB_QUEUED \<and> job_claimed_agent_id j = None
           \<and> job_claimed_by j = None)
     in if t_exists claimable (tb_scan_jobs db)
        then let db' = db\<lparr>tb_scan_jobs := t_modify claimable (claimed_row now deadline None CENTRAL_WORKER) (tb_scan_jobs db)\<rparr>
          in Inr (db', get_job jid db')
        else Inr (db, None))"

definition atomic_claim_job :: "time \<Rightarrow> nat \<Rightarrow> agent \<Rightarrow> db \<Rightarrow> run_error + (db \<times> scan_job option)" where
  "atomic_claim_job now jid a db = rbind (deadline_for_start now db) (\<lambda>deadline.
     let claimable = (\<lambda>j. job_id j = jid \<and> job_status j \<in> {JOB_QUEUED, JOB_WAITING_FOR_AGENT}
           \<and> job_claimed_agent_id j = None \<and> job_claimed_by j = None)
     in if t_exists claimable (tb_scan_jobs db)
        then let db' = db\<lparr>tb_scan_jobs := t_modify claimable (claimed_row now deadline (Some (ag_id a)) (ag_uuid a)) (tb_scan_jobs db)\<rparr>
          in Inr (db', get_job jid db')
        else Inr (db, None))"

definition claim_job_for_agent :: "time \<Rightarrow> nat \<Rightarrow> agent \<Rightarrow> db
    \<Rightarrow> run_error + (db \<times> scan_job option \<times> string option)" where
  "claim_job_for_agent now jid a db =
     (if t_get ag_id (ag_id a) (tb_agents db) = None then Inl (DispatchError ''Agent not found'')
      else if agent_has_running_job db (ag_id a) then Inr (db, None, Some ''Agent already has a running job'')
      else rbind (atomic_claim_job now jid a db) (\<lambda>(db', claimed). case claimed of
          None \<Rightarrow> Inr (db', None, Some ''Job already claimed'')
        | Some j \<Rightarrow> Inr (db', Some j, None)))"

definition queued_lan_jobs_for_agent :: "db \<Rightarrow> agent \<Rightarrow> nat \<Rightarrow> scan_job list" where
  "queued_lan_jobs_for_agent db a limit =
     (let eligible = (\<lambda>snap. jnat (ag_id a) \<in> set (as_arr (jget ''eligible_agent_ids'' (as_obj (jget ''dispatch'' snap)))));
          missing = (\<lambda>snap. jget ''eligible_agent_ids'' (as_obj (jget ''dispatch'' snap)) = JNull);
          scan_agent = (\<lambda>j. case t_get scan_id (job_scan_id j) (tb_scans db) of
             Some s \<Rightarrow> scan_agent_id s = Some (ag_id a) | None \<Rightarrow> False)
      in take limit (sorted_by (\<lambda>j. (job_created_at j, job_id j)) (t_select (\<lambda>j.
           job_status j \<in> {JOB_QUEUED, JOB_WAITING_FOR_AGENT} \<and>
           (case job_execution_snapshot j of None \<Rightarrow> False
            | Some snap \<Rightarrow> jget ''scope'' snap = JStr ''lan'' \<and> (eligible snap \<or> missing snap \<and> scan_agent j)))
           (tb_scan_jobs db))))"

subsection \<open>Scheduler passes\<close>

definition mark_job_missed :: "time \<Rightarrow> nat \<Rightarrow> string \<Rightarrow> db \<Rightarrow> db" where
  "mark_job_missed now jid detail = set_job jid (\<lambda>j. j\<lparr>job_status := JOB_MISSED, job_error := Some detail,
     job_finished_at := Some now\<rparr>)"

definition expire_waiting_jobs :: "time \<Rightarrow> db \<Rightarrow> run_error + db" where
  "expire_waiting_jobs now db =
     rfold (\<lambda>job db. let db1 = mark_job_missed now (job_id job) ''No healthy eligible agent before wait expiry'' db
        in rbind (lift_event (emit_scan_missed_unavailable_agent now job db1)) (\<lambda>(db2, _, _). Inr db2))
       (t_select (\<lambda>j. job_status j = JOB_WAITING_FOR_AGENT
          \<and> (case job_wait_expires_at j of None \<Rightarrow> False | Some t \<Rightarrow> t \<le> now)) (tb_scan_jobs db)) db"

definition stuck :: "time \<Rightarrow> int \<Rightarrow> scan_job \<Rightarrow> bool" where
  "stuck now minutes j \<longleftrightarrow> job_status j = JOB_RUNNING \<and>
     (case job_deadline_at j of Some d \<Rightarrow> d \<le> now
      | None \<Rightarrow> (case job_started_at j of None \<Rightarrow> False | Some t \<Rightarrow> t < now - minutes * minute))"

definition stuck_reason :: "int \<Rightarrow> scan_job \<Rightarrow> string" where
  "stuck_reason minutes job = (case job_error job of Some (c # cs) \<Rightarrow> c # cs
     | _ \<Rightarrow> ''Timed out after '' @ show_int minutes @ '' minutes with no completion'')"

definition expire_one :: "time \<Rightarrow> int \<Rightarrow> int \<Rightarrow> scan_job \<Rightarrow> db \<times> nat \<Rightarrow> run_error + (db \<times> nat)" where
  "expire_one now minutes grace_seconds job st = (case st of (db, changed) \<Rightarrow>
     let reason = stuck_reason minutes job
     in case job_cancel_requested_at job of
          None \<Rightarrow> Inr (set_job (job_id job) (\<lambda>j. fst (mark_cancel_requested now (Some reason) j)) db, Suc changed)
        | Some requested \<Rightarrow>
            if cancel_grace grace_seconds \<le> now - requested
            then rbind (transition_job_to_cancelled now (job_id job) reason False db) (\<lambda>(db', _). Inr (db', Suc changed))
            else Inr (db, changed))"

definition expire_stuck_jobs :: "time \<Rightarrow> int \<Rightarrow> db \<Rightarrow> run_error + (db \<times> nat)" where
  "expire_stuck_jobs now grace_seconds db = rbind (job_timeout_minutes db) (\<lambda>minutes.
     rfold (expire_one now minutes grace_seconds) (t_select (stuck now minutes) (tb_scan_jobs db)) (db, 0))"

subsection \<open>Ownership guards (scan\_execution.py)\<close>

definition run_scope :: "scan_job \<Rightarrow> run_error + string" where
  "run_scope job = (case jget ''scope'' (job_snapshot job) of
       JStr s \<Rightarrow> if s \<in> {''lan'', ''wan''} then Inr s else Inl (ExecutionBlocked ''Run has no immutable scope snapshot'')
     | _ \<Rightarrow> Inl (ExecutionBlocked ''Run has no immutable scope snapshot''))"

definition has_snapshot :: "scan_job \<Rightarrow> bool" where
  "has_snapshot job \<longleftrightarrow> (case job_execution_snapshot job of None \<Rightarrow> False | Some s \<Rightarrow> truthy s)"

record execution_ctx =
  ec_scope :: string
  ec_site_id :: "nat option"
  ec_network_ids :: "nat list"
  ec_claimed_agent_id :: "nat option"
  ec_snapshot :: json

definition execution_context :: "db \<Rightarrow> scan_job \<Rightarrow> run_error + execution_ctx" where
  "execution_context db job =
     (if \<not> has_snapshot job then Inl (ExecutionBlocked ''Run has no immutable execution snapshot'')
      else rbind (run_scope job) (\<lambda>scope.
        let snapshot = job_snapshot job;
            site = as_obj (jget ''site'' snapshot);
            networks = as_arr (jget ''networks'' (as_obj (jget ''targets'' snapshot)));
            agent_id = (case job_claimed_agent_id job of
                Some i \<Rightarrow> Some i
              | None \<Rightarrow> (case job_claimed_by job of
                    Some w \<Rightarrow> if w \<noteq> [] \<and> w \<noteq> CENTRAL_WORKER
                      then map_option ag_id (t_first (\<lambda>a. ag_uuid a = w) (tb_agents db)) else None
                  | None \<Rightarrow> None))
        in Inr \<lparr>ec_scope = scope, ec_site_id = (if scope = ''lan'' then as_nat (jget ''id'' site) else None),
             ec_network_ids = List.map_filter (\<lambda>row. as_nat (jget ''id'' row)) networks,
             ec_claimed_agent_id = agent_id, ec_snapshot = snapshot\<rparr>))"

definition require_active_phase1d_run :: "scan_job option \<Rightarrow> string option \<Rightarrow> run_error + scan_job" where
  "require_active_phase1d_run job claimed_by = (case job of
       None \<Rightarrow> Inl (ExecutionBlocked ''Job not found'')
     | Some j \<Rightarrow>
        if claimed_by \<noteq> None \<and> job_claimed_by j \<noteq> claimed_by then Inl (ExecutionBlocked ''Job not found'')
        else if job_status j \<noteq> JOB_RUNNING then Inl (ExecutionBlocked ''Job is not an active Phase 1D run'')
        else if \<not> has_snapshot j then Inl (ExecutionBlocked ''Job is not an active Phase 1D run'')
        else Inr j)"

definition require_owned_run_for_persist ::
    "time \<Rightarrow> scan_job option \<Rightarrow> string option \<Rightarrow> bool \<Rightarrow> run_error + scan_job" where
  "require_owned_run_for_persist now job claimed_by completing_ok = (case job of
       None \<Rightarrow> Inl (ExecutionBlocked ''Job not found'')
     | Some j \<Rightarrow>
        if claimed_by \<noteq> None \<and> job_claimed_by j \<noteq> claimed_by then Inl (ExecutionBlocked ''Job not found'')
        else if \<not> has_snapshot j then Inl (ExecutionBlocked ''Job is not an active Phase 1D run'')
        else if completing_ok then
          (if job_status j \<noteq> JOB_RUNNING \<or> job_cancel_requested now j
           then Inl (ExecutionBlocked ''Cancelled or expired run cannot complete successfully'') else Inr j)
        else if job_status j = JOB_RUNNING then Inr j
        else if job_status j \<in> {JOB_CANCELLED, JOB_FAILED} then Inr j
        else Inl (ExecutionBlocked ''Job is not an active Phase 1D run''))"

subsection \<open>How one run row may change\<close>

abbreviation running :: "scan_job \<Rightarrow> bool" where "running j \<equiv> job_status j = JOB_RUNNING"

definition unclaimed :: "scan_job \<Rightarrow> bool" where
  "unclaimed j \<longleftrightarrow> job_claimed_agent_id j = None \<and> job_claimed_by j = None"

text \<open>The identity, tenant and execution snapshot of a run never change; a terminal run stays
  terminal; a run starts only from the queue, unclaimed.\<close>

definition job_evolves :: "scan_job \<Rightarrow> scan_job \<Rightarrow> bool" where
  "job_evolves j k \<longleftrightarrow> job_id k = job_id j \<and> job_tenant_id k = job_tenant_id j \<and> job_scan_id k = job_scan_id j
     \<and> job_execution_snapshot k = job_execution_snapshot j
     \<and> (is_terminal j \<longrightarrow> is_terminal k)
     \<and> (running k \<and> \<not> running j \<longrightarrow> job_status j \<in> {JOB_QUEUED, JOB_WAITING_FOR_AGENT} \<and> unclaimed j \<and> job_claimed_by k \<noteq> None)
     \<and> (running k \<and> running j \<longrightarrow> job_claimed_agent_id k = job_claimed_agent_id j \<and> job_claimed_by k = job_claimed_by j)"

definition job_winds_down :: "scan_job \<Rightarrow> scan_job \<Rightarrow> bool" where
  "job_winds_down j k \<longleftrightarrow> job_evolves j k \<and> (running k \<longrightarrow> running j)"

lemma job_evolves_refl [simp, intro]: "job_evolves j j"
  by (simp add: job_evolves_def)

lemma job_winds_down_refl [simp, intro]: "job_winds_down j j"
  by (simp add: job_winds_down_def)

lemma job_winds_down_evolves: "job_winds_down j k \<Longrightarrow> job_evolves j k"
  by (simp add: job_winds_down_def)

lemma terminal_not_running: "is_terminal j \<Longrightarrow> \<not> running j \<and> job_status j \<notin> {JOB_QUEUED, JOB_WAITING_FOR_AGENT}"
  by (auto simp: is_terminal_def)

lemma job_winds_down_trans: "job_winds_down i j \<Longrightarrow> job_winds_down j k \<Longrightarrow> job_winds_down i k"
  by (auto simp: job_winds_down_def job_evolves_def)

text \<open>Rows that have left the queue keep their claim until they finish: the fact that makes runs
  compose.\<close>

definition job_ok :: "scan_job \<Rightarrow> bool" where
  "job_ok j \<longleftrightarrow> (running j \<longrightarrow> job_claimed_by j \<noteq> None)
     \<and> job_status j \<in> set JOB_STATUSES"

definition jobs_evolve :: "(scan_job \<Rightarrow> scan_job \<Rightarrow> bool) \<Rightarrow> db \<Rightarrow> db \<Rightarrow> bool" where
  "jobs_evolve R db db' \<longleftrightarrow> list_all2 R (t_rows (tb_scan_jobs db)) (t_rows (tb_scan_jobs db'))
     \<and> t_next (tb_scan_jobs db') = t_next (tb_scan_jobs db)"

lemma jobs_evolve_refl: "(\<And>j. R j j) \<Longrightarrow> jobs_evolve R db db"
  by (simp add: jobs_evolve_def list.rel_refl)

lemma jobs_evolve_mono: "jobs_evolve R db db' \<Longrightarrow> (\<And>x y. R x y \<Longrightarrow> S x y) \<Longrightarrow> jobs_evolve S db db'"
  by (auto simp: jobs_evolve_def elim: list_all2_mono)

lemma jobs_evolve_trans:
  "jobs_evolve R db db1 \<Longrightarrow> jobs_evolve S db1 db2 \<Longrightarrow> (\<And>x y z. R x y \<Longrightarrow> S y z \<Longrightarrow> T x z)
   \<Longrightarrow> jobs_evolve T db db2"
  unfolding jobs_evolve_def by (elim conjE, intro conjI; (rule list_all2_trans [where ?P1.0 = R and ?P2.0 = S]; assumption | simp))

lemma jobs_evolve_modify:
  assumes "\<And>j. j \<in> set (t_rows (tb_scan_jobs db)) \<Longrightarrow> P j \<Longrightarrow> R j (f j)" "\<And>j. R j j"
  shows "jobs_evolve R db (db\<lparr>tb_scan_jobs := t_modify P f (tb_scan_jobs db)\<rparr>)"
  using assms by (auto simp: jobs_evolve_def list_all2_map2 intro!: list.rel_refl_strong)

lemma jobs_evolve_set_job:
  assumes "\<And>j. get_job i db = Some j \<Longrightarrow> t_wf job_id (tb_scan_jobs db) \<Longrightarrow> R j (f j)" "\<And>j. R j j"
    and "t_wf job_id (tb_scan_jobs db)"
  shows "jobs_evolve R db (set_job i f db)"
  unfolding set_job_def
proof (rule jobs_evolve_modify)
  fix j assume "j \<in> set (t_rows (tb_scan_jobs db))" "job_id j = i"
  with assms(3) have "get_job i db = Some j" by (auto simp: get_job_def t_wf_get)
  then show "R j (f j)" using assms by simp
qed (rule assms)

lemma jobs_evolve_tables: "tb_scan_jobs db' = tb_scan_jobs db1 \<Longrightarrow> jobs_evolve R db db1 \<Longrightarrow> jobs_evolve R db db'"
  by (simp add: jobs_evolve_def)

lemma jobs_evolve_wf:
  assumes "jobs_evolve R db db'" "\<And>x y. R x y \<Longrightarrow> job_id y = job_id x" "t_wf job_id (tb_scan_jobs db)"
  shows "t_wf job_id (tb_scan_jobs db')"
proof -
  from assms(1,2) have "list_all2 (\<lambda>x y. job_id y = job_id x) (t_rows (tb_scan_jobs db)) (t_rows (tb_scan_jobs db'))"
    by (auto simp: jobs_evolve_def elim: list_all2_mono)
  then have ids: "map job_id (t_rows (tb_scan_jobs db')) = map job_id (t_rows (tb_scan_jobs db))"
    by (induction rule: list_all2_induct) auto
  have "list_all (\<lambda>i. i < t_next (tb_scan_jobs db)) (map job_id (t_rows (tb_scan_jobs db)))"
    using assms(3) by (simp add: t_wf_def list_all_iff)
  then show ?thesis using assms(1,3) unfolding t_wf_def jobs_evolve_def ids [symmetric]
    by (auto simp: list_all_iff)
qed

lemma jobs_evolve_mem:
  assumes "jobs_evolve R db db'" "j \<in> set (t_rows (tb_scan_jobs db'))"
  shows "\<exists>i \<in> set (t_rows (tb_scan_jobs db)). R i j"
proof -
  have all: "list_all2 R (t_rows (tb_scan_jobs db)) (t_rows (tb_scan_jobs db'))"
    using assms(1) by (simp add: jobs_evolve_def)
  from assms(2) obtain n where n: "n < length (t_rows (tb_scan_jobs db'))" "j = t_rows (tb_scan_jobs db') ! n"
    by (metis in_set_conv_nth)
  with all have "R (t_rows (tb_scan_jobs db) ! n) j" by (simp add: list_all2_nthD2)
  moreover have "t_rows (tb_scan_jobs db) ! n \<in> set (t_rows (tb_scan_jobs db))"
    using n list_all2_lengthD [OF all] by simp
  ultimately show ?thesis by blast
qed

lemma jobs_evolve_get:
  assumes "jobs_evolve R db db'" "\<And>x y. R x y \<Longrightarrow> job_id y = job_id x"
    and "get_job i db = Some j"
  shows "\<exists>k. get_job i db' = Some k \<and> R j k"
proof -
  have "list_all2 R xs ys \<Longrightarrow> first_match (\<lambda>r. job_id r = i) xs = Some j
      \<Longrightarrow> \<exists>k. first_match (\<lambda>r. job_id r = i) ys = Some k \<and> R j k" for xs ys
  proof (induction xs ys rule: list_all2_induct)
    case (Cons x xs y ys)
    then show ?case using assms(2) [of x y] by (auto split: if_splits)
  qed simp
  then show ?thesis using assms by (auto simp: jobs_evolve_def get_job_def t_get_def t_first_def)
qed

subsection \<open>The operations as evolutions\<close>

lemma emit_jobs:
  assumes "emit_domain_event now e db = Inr (db', ev, c)"
  shows "tb_scan_jobs db' = tb_scan_jobs db" "tb_agents db' = tb_agents db" "tb_settings db' = tb_settings db"
  using emit_frame [OF assms] by auto

lemma emit_scan_failed_jobs:
  assumes "emit_scan_failed now job reason db = Inr (db', ev, c)"
  shows "tb_scan_jobs db' = tb_scan_jobs db" "tb_agents db' = tb_agents db" "tb_settings db' = tb_settings db"
  using assms by (auto simp: emit_scan_failed_def Let_def split: prod.splits dest: emit_jobs)

lemma emit_scan_missed_jobs:
  assumes "emit_scan_missed_unavailable_agent now job db = Inr (db', ev, c)"
  shows "tb_scan_jobs db' = tb_scan_jobs db" "tb_agents db' = tb_agents db" "tb_settings db' = tb_settings db"
  using assms by (auto simp: emit_scan_missed_unavailable_agent_def Let_def split: prod.splits dest: emit_jobs)

lemmas row_defs = failed_row_def cancelled_row_def note_error_def drop_claim_def mark_cancel_row_def
  mark_cancel_requested_def claimed_row_def

lemma winds_note_error [simp]: "job_winds_down j (note_error d j)"
  by (auto simp: job_winds_down_def job_evolves_def row_defs is_terminal_def)

lemma winds_failed [simp]: "job_winds_down j (failed_row now d c j)"
  by (auto simp: job_winds_down_def job_evolves_def row_defs is_terminal_def)

lemma winds_cancelled [simp]: "job_winds_down j (cancelled_row now d c j)"
  by (auto simp: job_winds_down_def job_evolves_def row_defs is_terminal_def)

lemma winds_mark [simp]: "job_winds_down j (fst (mark_cancel_requested now r j))"
  by (auto simp: job_winds_down_def job_evolves_def row_defs is_terminal_def)

lemma winds_finished [simp]: "job_winds_down j (j\<lparr>job_finished_at := t\<rparr>)"
  by (auto simp: job_winds_down_def job_evolves_def row_defs is_terminal_def)

lemma winds_missed [simp]: "job_winds_down j (j\<lparr>job_status := JOB_MISSED, job_error := e, job_finished_at := t\<rparr>)"
  by (auto simp: job_winds_down_def job_evolves_def is_terminal_def)

lemma set_job_winds: "(\<And>j. job_winds_down j (f j)) \<Longrightarrow> jobs_evolve job_winds_down db (set_job i f db)"
  unfolding set_job_def by (rule jobs_evolve_modify) auto

lemma winds_trans:
  "jobs_evolve job_winds_down db db1 \<Longrightarrow> jobs_evolve job_winds_down db1 db2 \<Longrightarrow> jobs_evolve job_winds_down db db2"
  by (rule jobs_evolve_trans [where R = job_winds_down and S = job_winds_down])
     (auto intro: job_winds_down_trans)

text \<open>Everything but a claim winds runs down: it never makes a run start.\<close>

lemma failed_winds:
  assumes "transition_job_to_failed now jid detail clear db = Inr (db', c)"
  shows "jobs_evolve job_winds_down db db'"
proof -
  have s: "jobs_evolve job_winds_down db (set_job jid (failed_row now detail clear) db)"
    by (rule set_job_winds) simp
  show ?thesis using assms
    by (auto simp: transition_job_to_failed_def rbind_Inr_iff Let_def split: option.splits if_splits
        intro!: jobs_evolve_refl set_job_winds intro: jobs_evolve_tables [OF _ s] dest: emit_scan_failed_jobs)
qed

lemma cancelled_winds:
  assumes "transition_job_to_cancelled now jid detail clear db = Inr (db', c)"
  shows "jobs_evolve job_winds_down db db'"
proof -
  have s: "jobs_evolve job_winds_down db (set_job jid (cancelled_row now detail clear) db)"
    by (rule set_job_winds) simp
  show ?thesis using assms
    by (auto simp: transition_job_to_cancelled_def rbind_Inr_iff Let_def split: option.splits if_splits
        intro!: jobs_evolve_refl set_job_winds intro: jobs_evolve_tables [OF _ s] dest: emit_scan_failed_jobs)
qed

lemma rfold_winds:
  assumes "rfold f xs s = Inr s'"
    and "\<And>x s t. f x s = Inr t \<Longrightarrow> jobs_evolve job_winds_down (g s) (g t)"
  shows "jobs_evolve job_winds_down (g s) (g s')"
  using assms(1)
proof (induction xs arbitrary: s)
  case Nil
  then show ?case by (auto intro: jobs_evolve_refl)
next
  case (Cons x xs)
  then obtain t where "f x s = Inr t" "rfold f xs t = Inr s'" by (auto simp: rbind_Inr_iff)
  then show ?case using Cons.IH assms(2) winds_trans by blast
qed

lemma legacy_winds:
  assumes "fail_pending_legacy_pre_1d_jobs now only db = Inr (db', n)"
  shows "jobs_evolve job_winds_down db db'"
proof -
  have "jobs_evolve job_winds_down (fst (db, 0::nat)) (fst (db', n))"
    using assms unfolding fail_pending_legacy_pre_1d_jobs_def Let_def
    by (rule rfold_winds)
       (auto simp: rbind_Inr_iff split: prod.splits if_splits
         intro!: winds_trans [OF _ set_job_winds] dest: failed_winds)
  then show ?thesis by simp
qed

lemma waiting_winds:
  assumes "expire_waiting_jobs now db = Inr db'"
  shows "jobs_evolve job_winds_down db db'"
proof -
  have m: "jobs_evolve job_winds_down d (mark_job_missed now i t d)" for i t d
    unfolding mark_job_missed_def by (rule set_job_winds) simp
  have "jobs_evolve job_winds_down (id db) (id db')"
    using assms unfolding expire_waiting_jobs_def
    by (rule rfold_winds)
       (auto simp: rbind_Inr_iff Let_def intro: jobs_evolve_tables [OF _ m] dest: emit_scan_missed_jobs)
  then show ?thesis by simp
qed

lemma expire_one_winds:
  assumes "expire_one now minutes grace job s = Inr t"
  shows "jobs_evolve job_winds_down (fst s) (fst t)"
  using assms
  by (auto simp: expire_one_def rbind_Inr_iff Let_def split: prod.splits option.splits if_splits
      intro!: set_job_winds jobs_evolve_refl dest: cancelled_winds)

lemma stuck_winds:
  assumes "expire_stuck_jobs now grace db = Inr (db', n)"
  shows "jobs_evolve job_winds_down db db'"
proof -
  obtain minutes where "rfold (expire_one now minutes grace)
      (t_select (stuck now minutes) (tb_scan_jobs db)) (db, 0) = Inr (db', n)"
    using assms by (auto simp: expire_stuck_jobs_def rbind_Inr_iff)
  then have "jobs_evolve job_winds_down (fst (db, 0::nat)) (fst (db', n))"
    by (rule rfold_winds) (rule expire_one_winds)
  then show ?thesis by simp
qed

lemma claim_evolves:
  assumes "atomic_claim_job now jid a db = Inr (db', r)"
  shows "jobs_evolve job_evolves db db'"
  using assms
  by (auto simp: atomic_claim_job_def rbind_Inr_iff Let_def unclaimed_def job_evolves_def row_defs is_terminal_def
      split: if_splits intro!: jobs_evolve_modify jobs_evolve_refl)

lemma central_claim_evolves:
  assumes "atomic_claim_central_job now jid db = Inr (db', r)"
  shows "jobs_evolve job_evolves db db'"
  using assms
  by (auto simp: atomic_claim_central_job_def rbind_Inr_iff Let_def unclaimed_def job_evolves_def row_defs is_terminal_def
      split: if_splits intro!: jobs_evolve_modify jobs_evolve_refl)

subsection \<open>Runs of the control plane\<close>

text \<open>Any interleaving of the operations the API replicas and the scheduler perform on runs.\<close>

inductive run_step :: "db \<Rightarrow> db \<Rightarrow> bool" where
  agent_claim: "claim_job_for_agent now jid a db = Inr (db', r, e) \<Longrightarrow> run_step db db'"
| central_claim: "atomic_claim_central_job now jid db = Inr (db', r) \<Longrightarrow> run_step db db'"
| fail_run: "transition_job_to_failed now jid detail clear db = Inr (db', c) \<Longrightarrow> run_step db db'"
| cancel_run: "transition_job_to_cancelled now jid detail clear db = Inr (db', c) \<Longrightarrow> run_step db db'"
| fail_legacy: "fail_pending_legacy_pre_1d_jobs now only db = Inr (db', n) \<Longrightarrow> run_step db db'"
| waiting_expiry: "expire_waiting_jobs now db = Inr db' \<Longrightarrow> run_step db db'"
| stuck_expiry: "expire_stuck_jobs now grace db = Inr (db', n) \<Longrightarrow> run_step db db'"

inductive runs :: "db \<Rightarrow> db \<Rightarrow> bool" where
  runs_refl: "runs db db"
| runs_step: "runs db db1 \<Longrightarrow> run_step db1 db2 \<Longrightarrow> runs db db2"

lemma claim_for_agent_cases:
  assumes "claim_job_for_agent now jid a db = Inr (db', r, e)"
  obtains (refused) "db' = db" "r = None"
  | (claimed) "atomic_claim_job now jid a db = Inr (db', r)" "\<not> agent_has_running_job db (ag_id a)"
  using assms by (auto simp: claim_job_for_agent_def rbind_Inr_iff split: if_splits option.splits)

lemma step_evolves: "run_step db db' \<Longrightarrow> jobs_evolve job_evolves db db'"
proof (induction rule: run_step.induct)
  case (agent_claim now jid a db db' r e)
  then show ?case
    by (cases rule: claim_for_agent_cases) (auto intro: jobs_evolve_refl claim_evolves)
next
  case (central_claim now jid db db' r)
  then show ?case by (rule central_claim_evolves)
qed (auto intro: jobs_evolve_mono [OF _ job_winds_down_evolves] failed_winds cancelled_winds legacy_winds
    waiting_winds stuck_winds)

text \<open>The part of an evolution that composes over whole histories.\<close>

definition job_persists :: "scan_job \<Rightarrow> scan_job \<Rightarrow> bool" where
  "job_persists j k \<longleftrightarrow> job_id k = job_id j \<and> job_tenant_id k = job_tenant_id j \<and> job_scan_id k = job_scan_id j
     \<and> job_execution_snapshot k = job_execution_snapshot j \<and> (is_terminal j \<longrightarrow> is_terminal k)"

subsection \<open>One running job per agent\<close>

definition runs_of :: "nat \<Rightarrow> db \<Rightarrow> scan_job list" where
  "runs_of aid db = filter (\<lambda>j. running j \<and> job_claimed_agent_id j = Some aid) (t_rows (tb_scan_jobs db))"

definition run_ownership :: "db \<Rightarrow> bool" where
  "run_ownership db \<longleftrightarrow> t_wf job_id (tb_scan_jobs db) \<and> (\<forall>aid. length (runs_of aid db) \<le> 1)
     \<and> (\<forall>j \<in> set (t_rows (tb_scan_jobs db)). running j \<longrightarrow> job_claimed_by j \<noteq> None)"

lemma list_all2_filter_le:
  assumes "list_all2 R xs ys" "\<And>x y. R x y \<Longrightarrow> Q y \<Longrightarrow> P x"
  shows "length (filter Q ys) \<le> length (filter P xs)"
  using assms(1)
proof (induction rule: list_all2_induct)
  case (Cons x xs y ys)
  then show ?case using assms(2) [of x y] by auto
qed simp

lemma evolves_owned:
  assumes "jobs_evolve job_evolves db db'" "run_ownership db"
  shows "t_wf job_id (tb_scan_jobs db')"
    and "\<forall>j \<in> set (t_rows (tb_scan_jobs db')). running j \<longrightarrow> job_claimed_by j \<noteq> None"
proof -
  show "t_wf job_id (tb_scan_jobs db')"
    by (rule jobs_evolve_wf [OF assms(1)]) (use assms(2) in \<open>auto simp: job_evolves_def run_ownership_def\<close>)
  show "\<forall>j \<in> set (t_rows (tb_scan_jobs db')). running j \<longrightarrow> job_claimed_by j \<noteq> None"
  proof (intro ballI impI)
    fix j assume "j \<in> set (t_rows (tb_scan_jobs db'))" "running j"
    with jobs_evolve_mem [OF assms(1)] obtain i where "i \<in> set (t_rows (tb_scan_jobs db))" "job_evolves i j"
      by blast
    with \<open>running j\<close> assms(2) show "job_claimed_by j \<noteq> None"
      by (cases "running i") (auto simp: job_evolves_def run_ownership_def)
  qed
qed

lemma winds_down_owned:
  assumes "jobs_evolve job_winds_down db db'" "run_ownership db"
  shows "run_ownership db'"
proof -
  have e: "jobs_evolve job_evolves db db'" using assms(1) by (rule jobs_evolve_mono) (rule job_winds_down_evolves)
  have "length (runs_of aid db') \<le> length (runs_of aid db)" for aid
    unfolding runs_of_def
    by (rule list_all2_filter_le [where R = job_winds_down])
       (use assms(1) in \<open>auto simp: jobs_evolve_def job_winds_down_def job_evolves_def\<close>)
  then have "\<forall>aid. length (runs_of aid db') \<le> 1"
    using assms(2) order_trans by (fastforce simp: run_ownership_def)
  then show ?thesis using evolves_owned [OF e assms(2)] by (simp add: run_ownership_def)
qed

lemma unique_id_filter:
  "distinct (map f xs) \<Longrightarrow> length (filter (\<lambda>x. f x = i \<and> P x) xs) \<le> 1"
  by (induction xs) (auto simp: filter_empty_conv image_iff)

lemma claim_owned:
  assumes "atomic_claim_job now jid a db = Inr (db', r)" "\<not> agent_has_running_job db (ag_id a)"
    and "run_ownership db"
  shows "run_ownership db'"
proof -
  have e: "jobs_evolve job_evolves db db'" using assms(1) by (rule claim_evolves)
  let ?P = "\<lambda>j. job_id j = jid \<and> job_status j \<in> {JOB_QUEUED, JOB_WAITING_FOR_AGENT}
      \<and> job_claimed_agent_id j = None \<and> job_claimed_by j = None"
  obtain d where "(if t_exists ?P (tb_scan_jobs db)
      then let db' = db\<lparr>tb_scan_jobs := t_modify ?P (claimed_row now d (Some (ag_id a)) (ag_uuid a)) (tb_scan_jobs db)\<rparr>
        in Inr (db', get_job jid db') else Inr (db, None)) = (Inr (db', r) :: run_error + _)"
    using assms(1) by (auto simp only: atomic_claim_job_def rbind_Inr_iff Let_def)
  then have rows: "t_rows (tb_scan_jobs db') = t_rows (tb_scan_jobs db) \<or>
      t_rows (tb_scan_jobs db') = map (\<lambda>j. if ?P j then claimed_row now d (Some (ag_id a)) (ag_uuid a) j else j) (t_rows (tb_scan_jobs db))"
    by (auto simp: Let_def split: if_splits)
  have dist: "distinct (map job_id (t_rows (tb_scan_jobs db)))"
    using assms(3) by (simp add: run_ownership_def t_wf_def)
  have none: "\<forall>j \<in> set (t_rows (tb_scan_jobs db)). \<not> (running j \<and> job_claimed_agent_id j = Some (ag_id a))"
    using assms(2) by (auto simp: agent_has_running_job_def t_exists_iff)
  have "length (runs_of aid db') \<le> 1" for aid
  proof (cases "t_rows (tb_scan_jobs db') = t_rows (tb_scan_jobs db)")
    case True
    then show ?thesis using assms(3) by (simp add: runs_of_def run_ownership_def)
  next
    case False
    let ?f = "\<lambda>j. if ?P j then claimed_row now d (Some (ag_id a)) (ag_uuid a) j else j"
    have m: "runs_of aid db' = filter (\<lambda>j. running j \<and> job_claimed_agent_id j = Some aid) (map ?f (t_rows (tb_scan_jobs db)))"
      using rows False by (simp add: runs_of_def)
    have "length (runs_of aid db') = length (filter (\<lambda>j. running (?f j) \<and> job_claimed_agent_id (?f j) = Some aid) (t_rows (tb_scan_jobs db)))"
      unfolding m filter_map by (simp add: comp_def)
    also have "\<dots> \<le> 1"
    proof (cases "aid = ag_id a")
      case True
      have "filter (\<lambda>j. running (?f j) \<and> job_claimed_agent_id (?f j) = Some aid) (t_rows (tb_scan_jobs db))
          = filter (\<lambda>j. job_id j = jid \<and> ?P j) (t_rows (tb_scan_jobs db))"
        using none True by (intro filter_cong) (auto simp: claimed_row_def)
      also have "length \<dots> \<le> 1" by (rule unique_id_filter [OF dist])
      finally show ?thesis .
    next
      case False
      then have "filter (\<lambda>j. running (?f j) \<and> job_claimed_agent_id (?f j) = Some aid) (t_rows (tb_scan_jobs db))
          = runs_of aid db"
        unfolding runs_of_def by (intro filter_cong) (auto simp: claimed_row_def)
      then show ?thesis using assms(3) by (simp add: run_ownership_def)
    qed
    finally show ?thesis .
  qed
  then show ?thesis using evolves_owned [OF e assms(3)] by (simp add: run_ownership_def)
qed

lemma central_claim_owned:
  assumes "atomic_claim_central_job now jid db = Inr (db', r)" "run_ownership db"
  shows "run_ownership db'"
proof -
  have e: "jobs_evolve job_evolves db db'" using assms(1) by (rule central_claim_evolves)
  have R: "jobs_evolve (\<lambda>j k. running k \<and> job_claimed_agent_id k \<noteq> None
      \<longrightarrow> running j \<and> job_claimed_agent_id j = job_claimed_agent_id k) db db'"
    using assms(1)
    by (auto simp: atomic_claim_central_job_def rbind_Inr_iff Let_def row_defs split: if_splits
        intro!: jobs_evolve_modify jobs_evolve_refl)
  have "length (runs_of aid db') \<le> length (runs_of aid db)" for aid
    unfolding runs_of_def
    by (rule list_all2_filter_le [OF R [unfolded jobs_evolve_def, THEN conjunct1]]) auto
  then have "\<forall>aid. length (runs_of aid db') \<le> 1"
    using assms(2) order_trans by (fastforce simp: run_ownership_def)
  then show ?thesis using evolves_owned [OF e assms(2)] by (simp add: run_ownership_def)
qed

lemma step_owned: "run_step db db' \<Longrightarrow> run_ownership db \<Longrightarrow> run_ownership db'"
proof (induction rule: run_step.induct)
  case (agent_claim now jid a db db' r e)
  from agent_claim(1) show ?case
    by (cases rule: claim_for_agent_cases) (use agent_claim(2) claim_owned in auto)
next
  case (central_claim now jid db db' r)
  then show ?case by (rule central_claim_owned)
qed (auto intro: winds_down_owned failed_winds cancelled_winds legacy_winds waiting_winds stuck_winds)

lemma runs_owned: "runs db db' \<Longrightarrow> run_ownership db \<Longrightarrow> run_ownership db'"
  by (induction rule: runs.induct) (auto intro: step_owned)

subsection \<open>The stuck-run pass makes progress\<close>

lemma get_set_job:
  assumes "\<And>j. job_id (f j) = job_id j"
  shows "get_job i (set_job k f db) = (if i = k then map_option f (get_job i db) else get_job i db)"
proof -
  have "first_match (\<lambda>r. job_id r = i) (map (\<lambda>r. if job_id r = k then f r else r) xs) =
      (if i = k then map_option f (first_match (\<lambda>r. job_id r = i) xs) else first_match (\<lambda>r. job_id r = i) xs)" for xs
    using assms by (induction xs) auto
  then show ?thesis by (simp add: get_job_def set_job_def t_get_def t_first_def)
qed

lemma job_id_rows [simp]:
  "job_id (failed_row now d c j) = job_id j" "job_id (cancelled_row now d c j) = job_id j"
  "job_id (note_error d j) = job_id j" "job_id (mark_cancel_row now r j) = job_id j"
  "job_id (fst (mark_cancel_requested now r j)) = job_id j"
  by (simp_all add: row_defs)

lemma cancelled_live:
  assumes "transition_job_to_cancelled now k detail clear db = Inr (db', c)"
    and "get_job k db = Some j" and "\<not> is_terminal j"
  shows "get_job i db' = get_job i (set_job k (cancelled_row now detail clear) db)"
  using assms
  by (auto simp: transition_job_to_cancelled_def rbind_Inr_iff Let_def get_job_def
      dest!: emit_scan_failed_jobs(1))

lemma cancelled_result:
  assumes "transition_job_to_cancelled now i detail clear db = Inr (db', c)"
    and "get_job i db = Some j" and "\<not> is_terminal j"
  shows "get_job i db' = Some (cancelled_row now detail clear j)"
  using cancelled_live [OF assms, of i] assms(2) by (simp add: get_set_job)

lemma cancelled_other:
  assumes "transition_job_to_cancelled now k detail clear db = Inr (db', c)" and "i \<noteq> k"
  shows "get_job i db' = get_job i db"
proof (cases "get_job k db")
  case None
  with assms show ?thesis by (simp add: transition_job_to_cancelled_def)
next
  case (Some j)
  show ?thesis
  proof (cases "is_terminal j")
    case True
    with Some assms show ?thesis
      by (auto simp: transition_job_to_cancelled_def get_set_job split: if_splits)
  next
    case False
    from cancelled_live [OF assms(1) Some False, of i] assms(2) show ?thesis by (simp add: get_set_job)
  qed
qed

lemma expire_one_other:
  assumes "expire_one now m g job s = Inr t" "job_id job \<noteq> i"
  shows "get_job i (fst t) = get_job i (fst s)"
  using assms cancelled_other [where i = i and k = "job_id job"]
  by (auto simp: expire_one_def rbind_Inr_iff Let_def get_set_job split: prod.splits option.splits if_splits)

lemma rfold_expire_other:
  "rfold (expire_one now m g) xs s = Inr t \<Longrightarrow> (\<And>x. x \<in> set xs \<Longrightarrow> job_id x \<noteq> i) \<Longrightarrow> get_job i (fst t) = get_job i (fst s)"
proof (induction xs arbitrary: s)
  case (Cons x xs)
  then obtain u where "expire_one now m g x s = Inr u" "rfold (expire_one now m g) xs u = Inr t"
    by (auto simp: rbind_Inr_iff)
  then show ?case using Cons.IH Cons.prems(2) by (simp add: expire_one_other)
qed simp

text \<open>In one pass the row of a stuck run is handled exactly once.\<close>

lemma expire_stuck_row:
  assumes "expire_stuck_jobs now g db = Inr (db', n)" and "t_wf job_id (tb_scan_jobs db)"
    and "job_timeout_minutes db = Inr m" and "get_job i db = Some j" and "stuck now m j"
  shows "\<exists>s t. get_job i (fst s) = Some j \<and> expire_one now m g j s = Inr t \<and> get_job i db' = get_job i (fst t)"
proof -
  let ?xs = "t_select (stuck now m) (tb_scan_jobs db)"
  have run: "rfold (expire_one now m g) ?xs (db, 0) = Inr (db', n)"
    using assms(1,3) by (simp add: expire_stuck_jobs_def)
  have j: "j \<in> set (t_rows (tb_scan_jobs db))" "job_id j = i"
    using assms(4) by (auto simp: get_job_def dest: t_get_Some)
  have dist: "distinct (map job_id ?xs)"
    using assms(2) by (simp add: t_wf_def t_select_def distinct_map_filter)
  have "j \<in> set ?xs" using j assms(5) by (simp add: t_select_def)
  then obtain ys zs where xs: "?xs = ys @ j # zs" by (meson split_list)
  obtain s t where s: "rfold (expire_one now m g) ys (db, 0) = Inr s"
      and t: "expire_one now m g j s = Inr t" and z: "rfold (expire_one now m g) zs t = Inr (db', n)"
    using run unfolding xs by (rule rfold_split)
  have "distinct (map job_id ys @ i # map job_id zs)"
    using dist j(2) unfolding xs by simp
  then have ne: "x \<in> set ys \<union> set zs \<Longrightarrow> job_id x \<noteq> i" for x
    by (auto simp: image_iff)
  have "get_job i (fst s) = get_job i (fst (db, 0::nat))"
    using s by (rule rfold_expire_other) (simp add: ne)
  moreover have "get_job i (fst (db', n)) = get_job i (fst t)"
    using z by (rule rfold_expire_other) (simp add: ne)
  ultimately have "get_job i (fst s) = get_job i db" "get_job i db' = get_job i (fst t)" by simp_all
  with t assms(4) show ?thesis by metis
qed

lemma stuck_first_pass:
  assumes "expire_stuck_jobs now g db = Inr (db', n)" and "t_wf job_id (tb_scan_jobs db)"
    and "job_timeout_minutes db = Inr m" and "get_job i db = Some j" and "stuck now m j"
    and "job_cancel_requested_at j = None"
  shows "\<exists>reason. get_job i db' = Some (mark_cancel_row now reason j)"
proof -
  obtain s t where s: "get_job i (fst s) = Some j" and t: "expire_one now m g j s = Inr t"
      and r: "get_job i db' = get_job i (fst t)"
    using expire_stuck_row [OF assms(1-5)] by blast
  have "job_id j = i" "running j"
    using assms(4,5) by (auto simp: get_job_def stuck_def dest: t_get_Some)
  with s t r assms(6) show ?thesis
    by (auto simp: expire_one_def Let_def get_set_job mark_cancel_requested_def split: prod.splits)
qed

lemma stuck_later_pass:
  assumes "expire_stuck_jobs now g db = Inr (db', n)" and "t_wf job_id (tb_scan_jobs db)"
    and "job_timeout_minutes db = Inr m" and "get_job i db = Some j" and "stuck now m j"
    and "job_cancel_requested_at j = Some r" and "r + cancel_grace g \<le> now"
  shows "\<exists>detail. get_job i db' = Some (cancelled_row now detail False j)"
proof -
  obtain s t where s: "get_job i (fst s) = Some j" and t: "expire_one now m g j s = Inr t"
      and r: "get_job i db' = get_job i (fst t)"
    using expire_stuck_row [OF assms(1-5)] by blast
  have i: "job_id j = i" and nt: "\<not> is_terminal j"
    using assms(4,5) by (auto simp: get_job_def stuck_def is_terminal_def dest: t_get_Some)
  from t assms(6,7) obtain detail c where
      "transition_job_to_cancelled now (job_id j) detail False (fst s) = Inr (fst t, c)"
    by (auto simp: expire_one_def rbind_Inr_iff Let_def split: prod.splits)
  from cancelled_result [OF this [unfolded i] s nt] r show ?thesis by auto
qed

subsection \<open>Properties\<close>

text \<open>C2: In every interleaving of claims, failures, cancellations and scheduler passes, starting
  from a database where runs are owned, no agent ever has two running jobs.\<close>

theorem one_running_job_per_agent:
  assumes "run_ownership db" and "runs db db'"
  shows "length (runs_of aid db') \<le> 1"
  using runs_owned [OF assms(2,1)] by (simp add: run_ownership_def)

text \<open>C6: A running job past its deadline is cancelled by two passes of the stuck-run scheduler that
  are a cancel grace apart: the first requests the cancellation, the second forces it.\<close>

theorem stuck_run_is_cancelled:
  assumes "t_wf job_id (tb_scan_jobs db)" and "job_timeout_minutes db = Inr m"
    and "get_job i db = Some j" and "stuck t1 m j" and "job_cancel_requested_at j = None"
    and "expire_stuck_jobs t1 g db = Inr (db1, n1)" and "job_timeout_minutes db1 = Inr m"
    and "expire_stuck_jobs t2 g db1 = Inr (db2, n2)" and "t1 + cancel_grace g \<le> t2"
  shows "\<exists>k. get_job i db2 = Some k \<and> job_status k = JOB_CANCELLED \<and> job_finished_at k = Some t2
     \<and> job_cancel_requested_at k = Some t1"
proof -
  obtain reason where k1: "get_job i db1 = Some (mark_cancel_row t1 reason j)"
    using stuck_first_pass [OF assms(6,1,2,3,4,5)] by blast
  have wf: "t_wf job_id (tb_scan_jobs db1)"
    by (rule jobs_evolve_wf [OF stuck_winds [OF assms(6)] _ assms(1)])
       (simp add: job_winds_down_def job_evolves_def)
  have "15 * second \<le> cancel_grace g" by (simp add: cancel_grace_def)
  with assms(9) have le: "t1 \<le> t2" by simp
  then have "stuck t2 m (mark_cancel_row t1 reason j)"
    using assms(4) by (auto simp: stuck_def mark_cancel_row_def split: option.splits)
  moreover have "job_cancel_requested_at (mark_cancel_row t1 reason j) = Some t1"
    using assms(5) by (simp add: mark_cancel_row_def)
  ultimately obtain d where "get_job i db2 = Some (cancelled_row t2 d False (mark_cancel_row t1 reason j))"
    using stuck_later_pass [OF assms(8) wf assms(7) k1 _ _ assms(9)] by blast
  with assms(5) show ?thesis by (simp add: cancelled_row_def drop_claim_def mark_cancel_row_def)
qed

subsection \<open>Witnesses\<close>

definition sample_job :: scan_job where
  "sample_job = \<lparr>job_id = 1, job_scan_id = 1, job_tenant_id = 1, job_status = JOB_QUEUED, job_claimed_by = None,
     job_error = None, job_hosts_found = 0, job_findings_count = 0, job_created_at = 0, job_started_at = None,
     job_finished_at = None, job_execution_snapshot = Some (JObj [(''scope'', JStr ''wan'')]),
     job_snapshot_version = Some SNAPSHOT_VERSION, job_definition_revision = Some 1,
     job_trigger_type = Some TRIGGER_MANUAL, job_scheduled_for = None, job_claimed_agent_id = None,
     job_waiting_since = None, job_wait_expires_at = None, job_deadline_at = None,
     job_cancel_requested_at = None, job_runtime_provenance = None\<rparr>"

definition job_world :: "scan_job list \<Rightarrow> db" where
  "job_world js = empty_db\<lparr>tb_tenants := \<lparr>t_next = 2, t_rows = [sample_tenant]\<rparr>,
     tb_agents := \<lparr>t_next = 6, t_rows = [sample_agent]\<rparr>,
     tb_scan_jobs := \<lparr>t_next = 3, t_rows = js\<rparr>\<rparr>"

definition two_queued :: db where
  "two_queued = job_world [sample_job, sample_job\<lparr>job_id := 2\<rparr>]"

definition after_claim :: db where
  "after_claim = (case claim_job_for_agent 0 1 sample_agent two_queued of Inr (d, _) \<Rightarrow> d | Inl _ \<Rightarrow> two_queued)"

lemma after_claim_run: "runs two_queued after_claim"
proof -
  have "isl (claim_job_for_agent 0 1 sample_agent two_queued) = False" by code_simp
  then obtain d r e where c: "claim_job_for_agent 0 1 sample_agent two_queued = Inr (d, r, e)"
    by (cases "claim_job_for_agent 0 1 sample_agent two_queued") auto
  then have "run_step two_queued after_claim" by (simp add: after_claim_def agent_claim)
  with runs_refl show ?thesis by (rule runs_step)
qed

lemma two_queued_owned: "run_ownership two_queued"
  by (simp add: run_ownership_def two_queued_def job_world_def t_wf_def runs_of_def sample_job_def empty_db_def)

theorem one_running_job_per_agent_witness:
  "agent_has_running_job after_claim 5 \<and> length (runs_of 5 after_claim) \<le> 1"
proof
  show "agent_has_running_job after_claim 5" by code_simp
  show "length (runs_of 5 after_claim) \<le> 1"
    by (rule one_running_job_per_agent [OF two_queued_owned after_claim_run])
qed

definition stuck_world :: db where
  "stuck_world = job_world [sample_job\<lparr>job_status := JOB_RUNNING, job_claimed_by := Some ''central'',
     job_started_at := Some 0, job_deadline_at := Some 100\<rparr>]"

definition stuck_pass :: "time \<Rightarrow> db \<Rightarrow> db" where
  "stuck_pass t d = (case expire_stuck_jobs t 15 d of Inr (d', _) \<Rightarrow> d' | Inl _ \<Rightarrow> d)"

lemma stuck_pass_eq: "\<not> isl (expire_stuck_jobs t 15 d) \<Longrightarrow> \<exists>n. expire_stuck_jobs t 15 d = Inr (stuck_pass t d, n)"
  by (cases "expire_stuck_jobs t 15 d") (auto simp: stuck_pass_def)

theorem stuck_run_is_cancelled_witness:
  "\<exists>k. get_job 1 (stuck_pass 15000200 (stuck_pass 200 stuck_world)) = Some k \<and> job_status k = JOB_CANCELLED"
proof -
  have wf: "t_wf job_id (tb_scan_jobs stuck_world)" by code_simp
  have m: "job_timeout_minutes stuck_world = Inr 180" "job_timeout_minutes (stuck_pass 200 stuck_world) = Inr 180"
    by code_simp+
  obtain j where j: "get_job 1 stuck_world = Some j" "stuck 200 180 j" "job_cancel_requested_at j = None"
    by (simp add: get_job_def stuck_world_def job_world_def t_get_def t_first_def sample_job_def empty_db_def stuck_def)
  have "\<not> isl (expire_stuck_jobs 200 15 stuck_world)" by code_simp
  then obtain n1 where p1: "expire_stuck_jobs 200 15 stuck_world = Inr (stuck_pass 200 stuck_world, n1)"
    using stuck_pass_eq by blast
  have "\<not> isl (expire_stuck_jobs 15000200 15 (stuck_pass 200 stuck_world))" by code_simp
  then obtain n2 where p2: "expire_stuck_jobs 15000200 15 (stuck_pass 200 stuck_world)
      = Inr (stuck_pass 15000200 (stuck_pass 200 stuck_world), n2)"
    using stuck_pass_eq by blast
  have "(200::int) + cancel_grace 15 \<le> 15000200" by (simp add: cancel_grace_def)
  from stuck_run_is_cancelled [OF wf m(1) j p1 m(2) p2 this] show ?thesis by blast
qed

end
