(* ===== verification/Locality.thy ===== *)
theory Locality
  imports Samples "HOL-Library.List_Lexorder" "HOL-Library.Char_ord"
begin

section \<open>Tenants, sites, networks and LAN dispatch rights\<close>

text \<open>
  \<^verbatim>\<open>backend/app/locality.py\<close> and the two router operations that compose it
  (\<^verbatim>\<open>routers/networks.py\<close> replacing the authorised agents of a network,
  \<^verbatim>\<open>routers/agents.py\<close> moving an agent to another site). The invariant \<open>lan_ok\<close> says which
  agents may ever be asked to scan a network: a preferred agent is authorised, and an authorised
  agent belongs to the tenant and the site of the network.
\<close>

subsection \<open>Lookups\<close>

definition get_tenant :: "db \<Rightarrow> nat \<Rightarrow> app_error + tenant" where
  "get_tenant db i = (case t_get tn_id i (tb_tenants db) of
     None \<Rightarrow> Inl (HttpError 404 ''Tenant not found'') | Some t \<Rightarrow> Inr t)"

definition get_site :: "db \<Rightarrow> nat \<Rightarrow> nat option \<Rightarrow> app_error + site" where
  "get_site db i tenant = (case t_get site_id i (tb_sites db) of
     None \<Rightarrow> Inl (HttpError 404 ''Site not found'')
   | Some s \<Rightarrow> if tenant \<noteq> None \<and> Some (site_tenant_id s) \<noteq> tenant
       then Inl (HttpError 404 ''Site not found'') else Inr s)"

definition get_network :: "db \<Rightarrow> nat \<Rightarrow> nat option \<Rightarrow> app_error + network" where
  "get_network db i tenant = (case t_get net_id i (tb_networks db) of
     None \<Rightarrow> Inl (HttpError 404 ''Network not found'')
   | Some n \<Rightarrow> if tenant \<noteq> None \<and> Some (net_tenant_id n) \<noteq> tenant
       then Inl (HttpError 404 ''Network not found'') else Inr n)"

definition get_agent :: "db \<Rightarrow> nat \<Rightarrow> nat option \<Rightarrow> app_error + agent" where
  "get_agent db i tenant = (case t_get ag_id i (tb_agents db) of
     None \<Rightarrow> Inl (HttpError 404 ''Agent not found'')
   | Some a \<Rightarrow> if tenant \<noteq> None \<and> Some (ag_tenant_id a) \<noteq> tenant
       then Inl (HttpError 400 ''Agent not found for tenant'') else Inr a)"

definition require_active_site :: "site \<Rightarrow> app_error + site" where
  "require_active_site s = (if site_archived_at s \<noteq> None
     then Inl (HttpError 400 ''Site is archived'') else Inr s)"

definition require_active_network :: "network \<Rightarrow> app_error + network" where
  "require_active_network n = (if net_archived_at n \<noteq> None
     then Inl (HttpError 400 ''Network is archived'') else Inr n)"

definition site_name_taken :: "db \<Rightarrow> nat \<Rightarrow> string \<Rightarrow> nat option \<Rightarrow> bool" where
  "site_name_taken db tid name exclude = t_exists (\<lambda>s. site_tenant_id s = tid \<and> site_name s = name
     \<and> (exclude \<noteq> None \<longrightarrow> Some (site_id s) \<noteq> exclude)) (tb_sites db)"

definition network_name_taken :: "db \<Rightarrow> nat \<Rightarrow> string \<Rightarrow> nat option \<Rightarrow> bool" where
  "network_name_taken db sid name exclude = t_exists (\<lambda>n. net_site_id n = sid \<and> net_name n = name
     \<and> (exclude \<noteq> None \<longrightarrow> Some (net_id n) \<noteq> exclude)) (tb_networks db)"

definition companion_subnet :: "db \<Rightarrow> network \<Rightarrow> subnet option" where
  "companion_subnet db n = t_first (\<lambda>s. subnet_network_id s = Some (net_id n) \<and> subnet_scope s = ''lan'') (tb_subnets db)"

definition lan_subnet_row :: "time \<Rightarrow> network \<Rightarrow> nat \<Rightarrow> subnet" where
  "lan_subnet_row now n i = \<lparr>subnet_id = i, subnet_tenant_id = net_tenant_id n, subnet_name = net_name n,
     subnet_cidr = net_cidr n, subnet_scope = ''lan'', subnet_site_id = Some (net_site_id n),
     subnet_network_id = Some (net_id n), subnet_created_at = now\<rparr>"

definition sync_lan_subnet :: "time \<Rightarrow> network \<Rightarrow> db \<Rightarrow> db" where
  "sync_lan_subnet now n db = (case companion_subnet db n of
     None \<Rightarrow> db\<lparr>tb_subnets := t_insert (lan_subnet_row now n) (tb_subnets db)\<rparr>
   | Some s \<Rightarrow> db\<lparr>tb_subnets := t_modify (\<lambda>r. subnet_id r = subnet_id s)
       (\<lambda>r. r\<lparr>subnet_name := net_name n, subnet_cidr := net_cidr n,
          subnet_site_id := Some (net_site_id n), subnet_tenant_id := net_tenant_id n\<rparr>) (tb_subnets db)\<rparr>)"

definition compatibility_site_for_tenant :: "db \<Rightarrow> nat \<Rightarrow> site option" where
  "compatibility_site_for_tenant db tid =
     t_first (\<lambda>s. site_tenant_id s = tid \<and> site_name s = COMPATIBILITY_SITE_NAME) (tb_sites db)"

subsection \<open>Authorisation of agents\<close>

definition is_authorized :: "db \<Rightarrow> nat \<Rightarrow> nat \<Rightarrow> bool" where
  "is_authorized db nid aid = t_exists (\<lambda>l. na_network_id l = nid \<and> na_agent_id l = aid) (tb_network_agents db)"

definition assert_agent_on_site :: "agent \<Rightarrow> site \<Rightarrow> app_error + unit" where
  "assert_agent_on_site a s = require (ag_site_id a = site_id s \<and> ag_tenant_id a = site_tenant_id s)
     (HttpError 400 ''Agent must belong to the same site'')"

definition assert_network_on_site :: "network \<Rightarrow> site \<Rightarrow> app_error + unit" where
  "assert_network_on_site n s = require (net_site_id n = site_id s \<and> net_tenant_id n = site_tenant_id s)
     (HttpError 400 ''Network must belong to the same site'')"

definition link_row :: "time \<Rightarrow> nat \<Rightarrow> nat \<Rightarrow> nat \<Rightarrow> network_agent" where
  "link_row now nid aid i = \<lparr>na_id = i, na_network_id = nid, na_agent_id = aid, na_created_at = now\<rparr>"

definition authorize_agent :: "time \<Rightarrow> network \<Rightarrow> agent \<Rightarrow> db \<Rightarrow> app_error + db" where
  "authorize_agent now n a db =
     (if ag_tenant_id a \<noteq> net_tenant_id n
      then Inl (HttpError 400 ''Cannot authorize an agent from another tenant'')
      else if ag_site_id a \<noteq> net_site_id n
      then Inl (HttpError 400 ''Cannot authorize an agent from another site'')
      else if is_authorized db (net_id n) (ag_id a)
      then Inl (HttpError 400 ''Agent is already authorized for this network'')
      else Inr (db\<lparr>tb_network_agents := t_insert (link_row now (net_id n) (ag_id a)) (tb_network_agents db)\<rparr>))"

text \<open>The dispatch columns of a network row are written together.\<close>

definition with_dispatch :: "string \<times> nat option \<Rightarrow> network \<Rightarrow> network" where
  "with_dispatch d n = n\<lparr>net_dispatch_mode := fst d, net_preferred_agent_id := snd d\<rparr>"

definition set_network :: "nat \<Rightarrow> (network \<Rightarrow> network) \<Rightarrow> db \<Rightarrow> db" where
  "set_network nid f db = db\<lparr>tb_networks := t_modify (\<lambda>n. net_id n = nid) f (tb_networks db)\<rparr>"

definition clear_preferred :: "network \<Rightarrow> network" where
  "clear_preferred n = with_dispatch (if net_dispatch_mode n = DISPATCH_PREFERRED_FAILOVER
     then DISPATCH_ANY_AVAILABLE else net_dispatch_mode n, None) n"

definition deauthorize_agent :: "network \<Rightarrow> nat \<Rightarrow> db \<Rightarrow> app_error + db" where
  "deauthorize_agent n aid db =
     (case t_first (\<lambda>l. na_network_id l = net_id n \<and> na_agent_id l = aid) (tb_network_agents db) of
        None \<Rightarrow> Inl (HttpError 404 ''Authorization not found'')
      | Some link \<Rightarrow>
         let db1 = db\<lparr>tb_network_agents := t_delete (\<lambda>l. na_id l = na_id link) (tb_network_agents db)\<rparr>
         in Inr (if net_preferred_agent_id n = Some aid then set_network (net_id n) clear_preferred db1 else db1))"

definition DISPATCH_MODES :: "string list" where
  "DISPATCH_MODES = [DISPATCH_ANY_AVAILABLE, DISPATCH_PREFERRED_FAILOVER]"

definition set_dispatch :: "network \<Rightarrow> string \<Rightarrow> nat option \<Rightarrow> db \<Rightarrow> app_error + db" where
  "set_dispatch n mode preferred db =
     (if mode \<notin> set DISPATCH_MODES then Inl (HttpError 400 ''Invalid dispatch mode'')
      else if mode = DISPATCH_ANY_AVAILABLE
      then Inr (set_network (net_id n) (with_dispatch (DISPATCH_ANY_AVAILABLE, None)) db)
      else case preferred of
        None \<Rightarrow> Inl (HttpError 400 ''Preferred + Failover requires a preferred agent'')
      | Some aid \<Rightarrow> rbind (get_agent db aid (Some (net_tenant_id n))) (\<lambda>a.
          if ag_site_id a \<noteq> net_site_id n
          then Inl (HttpError 400 ''Preferred agent must belong to the same site'')
          else if \<not> is_authorized db (net_id n) (ag_id a)
          then Inl (HttpError 400 ''Preferred agent must be authorized for this network'')
          else Inr (set_network (net_id n) (with_dispatch (DISPATCH_PREFERRED_FAILOVER, Some (ag_id a))) db)))"

definition drop_cross_site_authorizations :: "agent \<Rightarrow> db \<Rightarrow> db" where
  "drop_cross_site_authorizations a db =
     (let stale = (\<lambda>l. na_agent_id l = ag_id a \<and>
            (case t_get net_id (na_network_id l) (tb_networks db) of
               None \<Rightarrow> False | Some n \<Rightarrow> net_site_id n \<noteq> ag_site_id a));
          stale_network_ids = map na_network_id (t_select stale (tb_network_agents db))
      in db\<lparr>tb_network_agents := t_delete stale (tb_network_agents db),
            tb_networks := t_modify (\<lambda>n. net_id n \<in> set stale_network_ids
               \<and> net_preferred_agent_id n = Some (ag_id a)) clear_preferred (tb_networks db)\<rparr>)"

text \<open>\<open>PUT /networks/{id}/authorized-agents\<close>, without its audit row, and the site change of
  \<open>PATCH /agents/{id}\<close>. Each loop step reads the network row again, as the session does.\<close>

definition replace_authorized_agents :: "time \<Rightarrow> nat \<Rightarrow> nat list \<Rightarrow> db \<Rightarrow> app_error + db" where
  "replace_authorized_agents now nid desired db =
     (let current = map na_agent_id (t_select (\<lambda>l. na_network_id l = nid) (tb_network_agents db));
          added = sort (dedup (filter (\<lambda>i. i \<notin> set current) desired));
          removed = sort (dedup (filter (\<lambda>i. i \<notin> set desired) current))
      in rbind (rfold (\<lambda>i db. rbind (get_network db nid None) (\<lambda>n.
             rbind (get_agent db i None) (\<lambda>a. authorize_agent now n a db))) added db) (\<lambda>db1.
         rfold (\<lambda>i db. rbind (get_network db nid None) (\<lambda>n. deauthorize_agent n i db)) removed db1))"

definition with_site :: "nat \<Rightarrow> agent \<Rightarrow> agent" where
  "with_site sid a = a\<lparr>ag_site_id := sid\<rparr>"

definition move_agent :: "nat \<Rightarrow> nat \<Rightarrow> db \<Rightarrow> app_error + db" where
  "move_agent aid sid db = rbind (get_agent db aid None) (\<lambda>a.
     if sid = ag_site_id a then Inr db
     else rbind (get_site db sid (Some (ag_tenant_id a))) (\<lambda>s0. rbind (require_active_site s0) (\<lambda>s.
       let db1 = db\<lparr>tb_agents := t_modify (\<lambda>r. ag_id r = aid) (with_site (site_id s)) (tb_agents db)\<rparr>
       in Inr (drop_cross_site_authorizations (with_site (site_id s) a) db1))))"

subsection \<open>LAN scans\<close>

definition lan_network_step :: "db \<Rightarrow> nat \<Rightarrow> subnet \<Rightarrow> network list \<Rightarrow> app_error + network list" where
  "lan_network_step db tid s nets = (case subnet_network_id s of
       None \<Rightarrow> Inl (HttpError 400 ''LAN subnet is not mapped to a site network'')
     | Some nid \<Rightarrow> if nid = 0 then Inl (HttpError 400 ''LAN subnet is not mapped to a site network'')
         else (case t_get net_id nid (tb_networks db) of
             None \<Rightarrow> Inl (HttpError 400 ''One or more LAN networks are invalid for this scope'')
           | Some n \<Rightarrow> if net_tenant_id n \<noteq> tid
               then Inl (HttpError 400 ''One or more LAN networks are invalid for this scope'')
               else Inr (nets @ [n])))"

definition resolve_lan_networks :: "db \<Rightarrow> nat \<Rightarrow> nat list \<Rightarrow> app_error + network list" where
  "resolve_lan_networks db tid subnet_ids =
     (if subnet_ids = [] then Inr []
      else let unique_ids = dedup subnet_ids;
               subnets = t_select (\<lambda>s. subnet_tenant_id s = tid \<and> subnet_scope s = ''lan''
                  \<and> subnet_id s \<in> set unique_ids) (tb_subnets db)
           in if length subnets \<noteq> length unique_ids
              then Inl (HttpError 400 ''One or more LAN networks are invalid for this scope'')
              else rfold (lan_network_step db tid) subnets [])"

definition lan_networks_of :: "db \<Rightarrow> agent \<Rightarrow> network list" where
  \<comment> \<open>the unarchived networks of the agent's site it is authorised for\<close>
  "lan_networks_of db a = t_select (\<lambda>n. net_site_id n = ag_site_id a \<and> net_archived_at n = None
     \<and> is_authorized db (net_id n) (ag_id a)) (tb_networks db)"

definition validate_lan_scan :: "db \<Rightarrow> nat \<Rightarrow> nat option \<Rightarrow> nat list \<Rightarrow> app_error + agent" where
  "validate_lan_scan db tid agent_id subnet_ids = (case agent_id of
       None \<Rightarrow> Inl (LanScanInvalid ''LAN scans require an agent'')
     | Some aid \<Rightarrow> if aid = 0 then Inl (LanScanInvalid ''LAN scans require an agent'')
         else (case t_first (\<lambda>a. ag_id a = aid \<and> ag_tenant_id a = tid) (tb_agents db) of
           None \<Rightarrow> Inl (LanScanInvalid ''Agent not found for tenant'')
         | Some a \<Rightarrow> (case t_first (\<lambda>s. site_id s = ag_site_id a \<and> site_tenant_id s = tid) (tb_sites db) of
               None \<Rightarrow> Inl (LanScanInvalid ''Agent site is missing or belongs to another tenant'')
             | Some s \<Rightarrow>
                 if site_archived_at s \<noteq> None then Inl (LanScanInvalid ''Site is archived'')
                 else if subnet_ids \<noteq> []
                 then (case resolve_lan_networks db tid subnet_ids of
                     Inl (HttpError c detail) \<Rightarrow> Inl (LanScanInvalid detail)
                   | Inl e \<Rightarrow> Inl e
                   | Inr nets \<Rightarrow>
                       if dedup (map net_site_id nets) \<noteq> [ag_site_id a]
                       then Inl (LanScanInvalid ''Selected networks must belong to the agent's site'')
                       else rfold (\<lambda>n a. if net_archived_at n \<noteq> None
                           then Inl (LanScanInvalid ''Cannot use an archived network in a scan'')
                           else if \<not> is_authorized db (net_id n) (ag_id a)
                           then Inl (LanScanInvalid (''Agent is not authorized for network '' @ net_name n))
                           else Inr a) nets a)
                 else if lan_networks_of db a = []
                 then Inl (LanScanInvalid ''Agent is not authorized for any networks at this site'')
                 else Inr a)))"

definition require_lan_scan :: "db \<Rightarrow> nat \<Rightarrow> nat option \<Rightarrow> nat list \<Rightarrow> app_error + agent" where
  "require_lan_scan db tid agent_id subnet_ids = (case validate_lan_scan db tid agent_id subnet_ids of
     Inl (LanScanInvalid d) \<Rightarrow> Inl (HttpError 400 d) | r \<Rightarrow> r)"

definition lan_networks_for_scan :: "db \<Rightarrow> nat \<Rightarrow> agent \<Rightarrow> nat list \<Rightarrow> app_error + network list" where
  "lan_networks_for_scan db tid a subnet_ids = rbind (validate_lan_scan db tid (Some (ag_id a)) subnet_ids) (\<lambda>_.
     if subnet_ids \<noteq> []
     then rbind (resolve_lan_networks db tid subnet_ids) (\<lambda>nets.
        Inr (sorted_by (\<lambda>n. (net_name n, net_id n)) nets))
     else Inr (sorted_by (\<lambda>n. (net_name n, net_id n))
        (filter (\<lambda>n. net_tenant_id n = tid) (lan_networks_of db a))))"

definition lan_cidrs_for_scan :: "db \<Rightarrow> nat \<Rightarrow> agent \<Rightarrow> nat list \<Rightarrow> app_error + string list" where
  "lan_cidrs_for_scan db tid a subnet_ids =
     rbind (lan_networks_for_scan db tid a subnet_ids) (\<lambda>nets. Inr (map net_cidr nets))"


subsection \<open>The dispatch rights of a network\<close>

interpretation network_rows: keyed net_id with_dispatch
  by unfold_locales (simp add: with_dispatch_def)

interpretation agent_rows: keyed ag_id with_site
  by unfold_locales (simp add: with_site_def)

definition link_ok :: "db \<Rightarrow> network_agent \<Rightarrow> bool" where
  "link_ok db l \<longleftrightarrow> (case (t_get net_id (na_network_id l) (tb_networks db), t_get ag_id (na_agent_id l) (tb_agents db)) of
     (Some n, Some a) \<Rightarrow> net_site_id n = ag_site_id a \<and> net_tenant_id n = ag_tenant_id a
   | _ \<Rightarrow> False)"

definition dispatch_ok :: "db \<Rightarrow> network \<Rightarrow> bool" where
  "dispatch_ok db n \<longleftrightarrow> (case net_preferred_agent_id n of
     None \<Rightarrow> net_dispatch_mode n = DISPATCH_ANY_AVAILABLE
   | Some aid \<Rightarrow> net_dispatch_mode n = DISPATCH_PREFERRED_FAILOVER \<and> is_authorized db (net_id n) aid)"

definition lan_ok :: "db \<Rightarrow> bool" where
  "lan_ok db \<longleftrightarrow> t_wf net_id (tb_networks db) \<and> t_wf ag_id (tb_agents db) \<and> t_wf na_id (tb_network_agents db) \<and>
     distinct (map (\<lambda>l. (na_network_id l, na_agent_id l)) (t_rows (tb_network_agents db))) \<and>
     list_all (link_ok db) (t_rows (tb_network_agents db)) \<and>
     list_all (dispatch_ok db) (t_rows (tb_networks db))"

lemma set_network_tables [simp]:
  "tb_agents (set_network i f db) = tb_agents db"
  "tb_network_agents (set_network i f db) = tb_network_agents db"
  "tb_networks (set_network i f db) = t_modify (\<lambda>n. net_id n = i) f (tb_networks db)"
  by (simp_all add: set_network_def)

lemma dispatch_row [simp]: "net_id (with_dispatch d n) = net_id n"
  "net_site_id (with_dispatch d n) = net_site_id n" "net_tenant_id (with_dispatch d n) = net_tenant_id n"
  "net_preferred_agent_id (with_dispatch d n) = snd d" "net_dispatch_mode (with_dispatch d n) = fst d"
  by (simp_all add: with_dispatch_def)

lemma clear_row [simp]: "net_id (clear_preferred n) = net_id n"
  "net_site_id (clear_preferred n) = net_site_id n" "net_tenant_id (clear_preferred n) = net_tenant_id n"
  "net_preferred_agent_id (clear_preferred n) = None"
  by (simp_all add: clear_preferred_def)

text \<open>Rewriting the dispatch columns of some networks keeps every link: they do not move a
  network between sites or tenants.\<close>

lemma t_get_modify:
  assumes "\<And>r. key (f r) = key r" "t_wf key t"
  shows "t_get key i (t_modify P f t) = map_option (\<lambda>r. if P r then f r else r) (t_get key i t)"
proof -
  have "first_match (\<lambda>r. key r = i) (map (\<lambda>r. if P r then f r else r) xs) =
      map_option (\<lambda>r. if P r then f r else r) (first_match (\<lambda>r. key r = i) xs)" for xs
    using assms(1) by (induction xs) auto
  then show ?thesis by (simp add: t_get_def t_first_def)
qed

lemma t_wf_modify:
  assumes "\<And>r. key (f r) = key r" "t_wf key t"
  shows "t_wf key (t_modify P f t)"
proof -
  have "key \<circ> (\<lambda>r. if P r then f r else r) = key" using assms(1) by (auto simp: fun_eq_iff)
  with assms show ?thesis by (auto simp: t_wf_def list_all_iff)
qed

definition same_place :: "(network \<Rightarrow> network) \<Rightarrow> bool" where
  "same_place f \<longleftrightarrow> (\<forall>n. net_id (f n) = net_id n \<and> net_site_id (f n) = net_site_id n \<and> net_tenant_id (f n) = net_tenant_id n)"

lemma same_placeI [intro, simp]: "same_place (with_dispatch d)" "same_place clear_preferred"
  by (simp_all add: same_place_def)

lemma lan_ok_networks:
  assumes ok: "lan_ok db" and f: "same_place f"
    and new: "tb_networks db' = t_modify P f (tb_networks db)" "tb_agents db' = tb_agents db"
    and links: "tb_network_agents db' = t_delete D (tb_network_agents db)"
    and disp: "\<And>n. n \<in> set (t_rows (tb_networks db)) \<Longrightarrow> dispatch_ok db n
      \<Longrightarrow> dispatch_ok db' (if P n then f n else n)"
  shows "lan_ok db'"
proof -
  have k: "\<And>r. net_id (f r) = net_id r" using f by (simp add: same_place_def)
  have get: "t_get net_id i (tb_networks db') =
      map_option (\<lambda>n. if P n then f n else n) (t_get net_id i (tb_networks db))" for i
    unfolding new using k ok by (simp add: t_get_modify lan_ok_def)
  have "link_ok db l \<Longrightarrow> link_ok db' l" for l
    using f by (auto simp: link_ok_def get new(2) same_place_def split: option.splits)
  with ok have "list_all (link_ok db') (t_rows (tb_network_agents db'))"
    by (auto simp: lan_ok_def links list_all_iff)
  moreover have "dispatch_ok db' (if P n then f n else n)" if "n \<in> set (t_rows (tb_networks db))" for n
    using that ok disp by (simp only: lan_ok_def list_all_iff)
  then have "list_all (dispatch_ok db') (t_rows (tb_networks db'))"
    unfolding list_all_iff new(1) t_rows_modify set_map by blast
  ultimately show ?thesis
    using ok k by (simp add: lan_ok_def new links t_wf_modify t_wf_delete distinct_map_filter)
qed

lemma authorized_iff: "is_authorized db nid aid \<longleftrightarrow>
    (nid, aid) \<in> (\<lambda>l. (na_network_id l, na_agent_id l)) ` set (t_rows (tb_network_agents db))"
  by (auto simp: is_authorized_def t_exists_iff image_iff)

lemma lan_ok_authorize:
  assumes "authorize_agent now n a db = Inr db'" and ok: "lan_ok db"
    and n: "t_get net_id (net_id n) (tb_networks db) = Some n"
    and a: "t_get ag_id (ag_id a) (tb_agents db) = Some a"
  shows "lan_ok db'"
proof -
  have r: "ag_tenant_id a = net_tenant_id n" "ag_site_id a = net_site_id n"
      "\<not> is_authorized db (net_id n) (ag_id a)"
      "db' = db\<lparr>tb_network_agents := t_insert (link_row now (net_id n) (ag_id a)) (tb_network_agents db)\<rparr>"
    using assms(1) by (auto simp: authorize_agent_def split: if_splits)
  have "link_ok db' (link_row now (net_id n) (ag_id a) i)" for i
    using n a r by (simp add: link_ok_def link_row_def)
  moreover have "link_ok db l \<Longrightarrow> link_ok db' l" for l by (simp add: link_ok_def r)
  moreover have "is_authorized db i j \<Longrightarrow> is_authorized db' i j" for i j
    by (auto simp: authorized_iff r)
  then have "dispatch_ok db m \<Longrightarrow> dispatch_ok db' m" for m
    by (auto simp: dispatch_ok_def split: option.splits)
  ultimately show ?thesis using ok r(3)
    by (auto simp: lan_ok_def r(4) list_all_iff t_wf_insert link_row_def authorized_iff)
qed

lemma lan_ok_deauthorize:
  assumes "deauthorize_agent n aid db = Inr db'" and ok: "lan_ok db"
    and n: "t_get net_id (net_id n) (tb_networks db) = Some n"
  shows "lan_ok db'"
proof -
  obtain link where l: "t_first (\<lambda>l. na_network_id l = net_id n \<and> na_agent_id l = aid) (tb_network_agents db) = Some link"
    using assms(1) by (auto simp: deauthorize_agent_def split: option.splits)
  define P :: "network \<Rightarrow> bool" where "P = (\<lambda>m. net_preferred_agent_id n = Some aid \<and> net_id m = net_id n)"
  let ?D = "\<lambda>l. na_id l = na_id link"
  have idle: "net_preferred_agent_id n \<noteq> Some aid \<Longrightarrow> t_modify P clear_preferred (tb_networks db) = tb_networks db"
    by (rule t_modify_none) (simp add: P_def)
  have db': "tb_networks db' = t_modify P clear_preferred (tb_networks db)"
      "tb_agents db' = tb_agents db" "tb_network_agents db' = t_delete ?D (tb_network_agents db)"
    using assms(1) l idle
    by (auto simp: deauthorize_agent_def Let_def P_def set_network_def split: if_splits)
  have link: "link \<in> set (t_rows (tb_network_agents db))" "na_network_id link = net_id n" "na_agent_id link = aid"
    using l by (auto dest: t_first_Some)
  show ?thesis
  proof (rule lan_ok_networks [OF ok same_placeI(2) db'])
    fix m assume m: "m \<in> set (t_rows (tb_networks db))" "dispatch_ok db m"
    show "dispatch_ok db' (if P m then clear_preferred m else m)"
    proof (cases "P m")
      case True
      then have "m = n" using m(1) n ok t_wf_eq [of net_id "tb_networks db" m n]
        by (auto simp: P_def lan_ok_def dest: t_get_Some)
      with m(2) True show ?thesis
        by (auto simp: dispatch_ok_def clear_preferred_def P_def split: option.splits)
    next
      case False
      have "is_authorized db (net_id m) b \<Longrightarrow> net_preferred_agent_id m = Some b \<Longrightarrow> is_authorized db' (net_id m) b" for b
      proof -
        assume b: "is_authorized db (net_id m) b" "net_preferred_agent_id m = Some b"
        then obtain k where k: "k \<in> set (t_rows (tb_network_agents db))" "na_network_id k = net_id m" "na_agent_id k = b"
          by (auto simp: is_authorized_def t_exists_iff)
        have "\<not> (net_id m = net_id n \<and> b = aid)"
          using False b(2) m(1) n ok t_wf_eq [of net_id "tb_networks db" m n]
          by (auto simp: P_def lan_ok_def dest: t_get_Some)
        then have "k \<noteq> link" using k link by auto
        then have "na_id k \<noteq> na_id link"
          using k(1) link(1) ok t_wf_eq [of na_id "tb_network_agents db" k link] by (auto simp: lan_ok_def)
        with k show ?thesis by (auto simp: is_authorized_def t_exists_iff db')
      qed
      with False m(2) show ?thesis by (auto simp: dispatch_ok_def split: option.splits)
    qed
  qed
qed

lemma t_delete_False: "t_delete (\<lambda>_. False) t = t"
  by (simp add: t_delete_def)

lemma lan_ok_dispatch:
  assumes "set_dispatch n mode preferred db = Inr db'" and ok: "lan_ok db"
  shows "lan_ok db'"
proof -
  obtain d where db': "db' = set_network (net_id n) (with_dispatch d) db"
      and d: "d = (DISPATCH_ANY_AVAILABLE, None) \<or>
        (\<exists>aid. d = (DISPATCH_PREFERRED_FAILOVER, Some aid) \<and> is_authorized db (net_id n) aid)"
    using assms(1) by (auto simp: set_dispatch_def rbind_Inr_iff split: if_splits option.splits)
  have same: "is_authorized db' = is_authorized db"
    by (simp add: fun_eq_iff is_authorized_def db')
  show ?thesis
  proof (rule lan_ok_networks [OF ok same_placeI(1)])
    show "tb_networks db' = t_modify (\<lambda>m. net_id m = net_id n) (with_dispatch d) (tb_networks db)"
      "tb_agents db' = tb_agents db" "tb_network_agents db' = t_delete (\<lambda>_. False) (tb_network_agents db)"
      by (simp_all add: db' t_delete_False)
    show "dispatch_ok db' (if net_id m = net_id n then with_dispatch d m else m)"
      if "dispatch_ok db m" for m
      using that d same by (auto simp: dispatch_ok_def split: option.splits)
  qed
qed


lemma lan_ok_move:
  assumes "move_agent aid sid db = Inr db'" and ok: "lan_ok db"
  shows "lan_ok db'"
proof (cases "db' = db")
  case False
  obtain a where a: "t_get ag_id aid (tb_agents db) = Some a"
    using assms(1) by (auto simp: move_agent_def get_agent_def rbind_Inr_iff split: option.splits)
  then have aid: "ag_id a = aid" by (auto dest: t_get_Some)
  obtain s where sid: "s \<noteq> ag_site_id a" and db': "db' = drop_cross_site_authorizations (with_site s a)
      (db\<lparr>tb_agents := t_modify (\<lambda>r. ag_id r = aid) (with_site s) (tb_agents db)\<rparr>)"
    using assms(1) a False
    by (auto simp: move_agent_def get_agent_def get_site_def require_active_site_def rbind_Inr_iff Let_def
        split: if_splits option.splits dest!: t_get_Some)
  define stale :: "network_agent \<Rightarrow> bool" where "stale = (\<lambda>l. na_agent_id l = aid \<and>
      (case t_get net_id (na_network_id l) (tb_networks db) of None \<Rightarrow> False | Some n \<Rightarrow> net_site_id n \<noteq> s))"
  have st: "stale l \<longleftrightarrow> na_agent_id l = aid" if "l \<in> set (t_rows (tb_network_agents db))" for l
    using ok that a sid by (auto simp: lan_ok_def list_all_iff link_ok_def stale_def split: option.splits)
  let ?P = "\<lambda>n. net_id n \<in> set (map na_network_id (t_select stale (tb_network_agents db))) \<and> net_preferred_agent_id n = Some aid"
  have tabs: "tb_agents db' = t_modify (\<lambda>r. ag_id r = aid) (with_site s) (tb_agents db)"
      "tb_network_agents db' = t_delete stale (tb_network_agents db)"
      "tb_networks db' = t_modify ?P clear_preferred (tb_networks db)"
    unfolding db' drop_cross_site_authorizations_def Let_def stale_def
    by (simp_all add: with_site_def aid cong del: option.case_cong_weak)
  have nets: "t_get net_id i (tb_networks db') =
      map_option (\<lambda>n. if ?P n then clear_preferred n else n) (t_get net_id i (tb_networks db))" for i
    unfolding tabs using ok by (intro t_get_modify) (auto simp: lan_ok_def)
  have agents: "j \<noteq> aid \<Longrightarrow> t_get ag_id j (tb_agents db') = t_get ag_id j (tb_agents db)" for j
    unfolding tabs(1) by (rule agent_rows.get_modify_other)
  have "link_ok db' l" if "l \<in> set (t_rows (tb_network_agents db'))" for l
  proof -
    have l: "l \<in> set (t_rows (tb_network_agents db))" "na_agent_id l \<noteq> aid" using that st by (auto simp: tabs)
    then have "link_ok db l" using ok by (simp add: lan_ok_def list_all_iff)
    with l(2) show ?thesis by (auto simp: link_ok_def nets agents split: option.splits)
  qed
  moreover have "dispatch_ok db' (if ?P n then clear_preferred n else n)" if n: "n \<in> set (t_rows (tb_networks db))" for n
  proof -
    have d: "dispatch_ok db n" using ok n by (simp add: lan_ok_def list_all_iff)
    show ?thesis
    proof (cases "net_preferred_agent_id n = Some aid")
      case True
      with d obtain l where "l \<in> set (t_rows (tb_network_agents db))" "na_network_id l = net_id n" "na_agent_id l = aid"
        by (auto simp: dispatch_ok_def is_authorized_def t_exists_iff)
      then have "?P n" using st True by (force simp: t_select_def)
      with d True show ?thesis by (auto simp: dispatch_ok_def clear_preferred_def)
    next
      case False
      then have "is_authorized db (net_id n) b \<Longrightarrow> net_preferred_agent_id n = Some b \<Longrightarrow> is_authorized db' (net_id n) b" for b
        using st by (force simp: is_authorized_def t_exists_iff tabs)
      with d False show ?thesis by (auto simp: dispatch_ok_def split: option.splits)
    qed
  qed
  then have "list_all (dispatch_ok db') (t_rows (tb_networks db'))"
    unfolding list_all_iff tabs(3) t_rows_modify set_map by blast
  moreover have "t_wf net_id (tb_networks db')"
    unfolding tabs using ok by (intro t_wf_modify) (auto simp: lan_ok_def)
  moreover have "t_wf ag_id (tb_agents db')"
    unfolding tabs using ok by (intro agent_rows.wf_modify) (simp add: lan_ok_def)
  ultimately show ?thesis
    using ok by (simp add: lan_ok_def list_all_iff tabs(2) t_wf_delete distinct_map_filter)
qed (use ok in simp)

lemma get_network_Inr: "get_network db i t = Inr n \<Longrightarrow> t_get net_id i (tb_networks db) = Some n"
  and get_agent_Inr: "get_agent db i t = Inr a \<Longrightarrow> t_get ag_id i (tb_agents db) = Some a"
  by (auto simp: get_network_def get_agent_def split: option.splits if_splits)

lemma lan_ok_replace:
  assumes "replace_authorized_agents now nid desired db = Inr db'" and "lan_ok db"
  shows "lan_ok db'"
proof -
  have own: "t_get key i t = Some r \<Longrightarrow> t_get key (key r) t = Some r" for key :: "'r \<Rightarrow> nat" and i t r
    by (auto dest: t_get_Some)
  obtain added removed db1 where
      add: "rfold (\<lambda>i db. rbind (get_network db nid None) (\<lambda>n.
             rbind (get_agent db i None) (\<lambda>a. authorize_agent now n a db))) added db = Inr db1"
    and del: "rfold (\<lambda>i db. rbind (get_network db nid None) (\<lambda>n. deauthorize_agent n i db)) removed db1 = Inr db'"
    using assms(1) unfolding replace_authorized_agents_def Let_def rbind_Inr_iff by blast
  have "lan_ok db1"
    by (rule rfold_invariant [where P = lan_ok, OF add assms(2)])
       (auto simp: rbind_Inr_iff intro: lan_ok_authorize own dest!: get_network_Inr get_agent_Inr)
  then show ?thesis
    by (rule rfold_invariant [where P = lan_ok, OF del])
       (auto simp: rbind_Inr_iff intro: lan_ok_deauthorize own dest!: get_network_Inr)
qed

text \<open>Every way the program changes dispatch rights, as one transition relation.\<close>

inductive lan_step :: "db \<Rightarrow> db \<Rightarrow> bool" where
  step_replace: "replace_authorized_agents now nid desired db = Inr db' \<Longrightarrow> lan_step db db'"
| step_dispatch: "get_network db nid None = Inr n \<Longrightarrow> set_dispatch n mode preferred db = Inr db' \<Longrightarrow> lan_step db db'"
| step_move: "move_agent aid sid db = Inr db' \<Longrightarrow> lan_step db db'"

inductive_cases lan_stepE: "lan_step db db'"

lemma lan_step_ok: "lan_step db db' \<Longrightarrow> lan_ok db \<Longrightarrow> lan_ok db'"
  by (auto elim!: lan_stepE intro: lan_ok_replace lan_ok_dispatch lan_ok_move)

lemma lan_steps_ok: "lan_step\<^sup>*\<^sup>* db db' \<Longrightarrow> lan_ok db \<Longrightarrow> lan_ok db'"
  by (induction rule: rtranclp_induct) (auto intro: lan_step_ok)


subsection \<open>What a validated LAN scan may touch\<close>

lemma resolve_tenant:
  assumes "resolve_lan_networks db tid subnet_ids = Inr nets" and "n \<in> set nets"
  shows "net_tenant_id n = tid"
proof -
  have step: "lan_network_step db tid s ns = Inr ns' \<Longrightarrow> \<exists>m. ns' = ns @ [m] \<and> net_tenant_id m = tid" for s ns ns'
    unfolding lan_network_step_def by (auto split: if_splits option.splits)
  obtain subnets where "subnet_ids = [] \<and> nets = [] \<or> rfold (lan_network_step db tid) subnets [] = Inr nets"
    using assms(1) unfolding resolve_lan_networks_def Let_def by (auto split: if_splits)
  then have "\<forall>m \<in> set nets. net_tenant_id m = tid"
    by (elim disjE, simp)
       (rule rfold_invariant [where P = "\<lambda>ns. \<forall>m \<in> set ns. net_tenant_id m = tid"], auto dest!: step)
  with assms(2) show ?thesis by blast
qed

lemma rfold_guard:
  assumes "rfold (\<lambda>x s. if \<not> P x s then Inl (e x) else if \<not> Q x s then Inl (e' x) else Inr s) xs s = Inr t"
  shows "t = s \<and> (\<forall>x \<in> set xs. P x s \<and> Q x s)"
  using assms by (induction xs) (auto split: if_splits)

lemma dedup_single: "dedup xs = [y] \<Longrightarrow> x \<in> set xs \<Longrightarrow> x = y"
  using set_dedup [of xs] by auto

lemma validate_lan_scan_agent:
  assumes "validate_lan_scan db tid (Some (ag_id a)) subnet_ids = Inr b"
    and "t_wf ag_id (tb_agents db)" and "t_get ag_id (ag_id a) (tb_agents db) = Some a"
  shows "b = a \<and> ag_tenant_id a = tid \<and>
    (\<exists>s \<in> set (t_rows (tb_sites db)). site_id s = ag_site_id a \<and> site_tenant_id s = tid \<and> site_archived_at s = None) \<and>
    (\<forall>nets. subnet_ids \<noteq> [] \<longrightarrow> resolve_lan_networks db tid subnet_ids = Inr nets \<longrightarrow>
       (\<forall>n \<in> set nets. net_site_id n = ag_site_id a \<and> net_archived_at n = None \<and> is_authorized db (net_id n) (ag_id a)))"
proof -
  obtain c where c: "t_first (\<lambda>x. ag_id x = ag_id a \<and> ag_tenant_id x = tid) (tb_agents db) = Some c"
    using assms(1) by (auto simp: validate_lan_scan_def split: if_splits option.splits)
  then have "c \<in> set (t_rows (tb_agents db))" "ag_id c = ag_id a" "ag_tenant_id c = tid"
    by (auto dest: t_first_Some)
  then have ca: "c = a" "ag_tenant_id a = tid"
    using assms(2,3) t_wf_eq [of ag_id "tb_agents db" c a] by (auto dest: t_get_Some)
  note c = c [unfolded ca]
  obtain s where s: "t_first (\<lambda>s. site_id s = ag_site_id a \<and> site_tenant_id s = tid) (tb_sites db) = Some s"
      "site_archived_at s = None"
    using assms(1) by (auto simp: validate_lan_scan_def c split: if_splits option.splits)
  show ?thesis
  proof (cases "subnet_ids = []")
    case True
    with assms(1) s ca show ?thesis
      by (auto simp: validate_lan_scan_def c dest!: t_first_Some split: if_splits)
  next
    case False
    then obtain nets where nets: "resolve_lan_networks db tid subnet_ids = Inr nets"
        "dedup (map net_site_id nets) = [ag_site_id a]"
      and g: "rfold (\<lambda>n a. if \<not> (net_archived_at n = None)
             then Inl (LanScanInvalid ''Cannot use an archived network in a scan'')
             else if \<not> is_authorized db (net_id n) (ag_id a)
             then Inl (LanScanInvalid (''Agent is not authorized for network '' @ net_name n))
             else Inr a) nets a = Inr b"
      using assms(1) s ca(2)
      by (auto simp: validate_lan_scan_def c split: if_splits sum.splits app_error.splits)
    have "\<forall>n \<in> set nets. net_site_id n = ag_site_id a" using dedup_single [OF nets(2)] by simp
    with rfold_guard [OF g] s ca nets(1) show ?thesis by (auto dest!: t_first_Some)
  qed
qed

subsection \<open>Properties\<close>

text \<open>C18: whatever sequence of authorisation changes, dispatch settings and agent moves is
  applied, the preferred agent of a network is an agent of the network's own tenant and site
  that is authorised for it: a moved or de-authorised agent can never be the one a network
  prefers.\<close>

theorem preferred_agent_stays_authorized:
  assumes "lan_step\<^sup>*\<^sup>* db db'" and "lan_ok db"
    and "n \<in> set (t_rows (tb_networks db'))" and "net_preferred_agent_id n = Some aid"
  shows "is_authorized db' (net_id n) aid \<and> net_dispatch_mode n = DISPATCH_PREFERRED_FAILOVER \<and>
    (\<exists>a. t_get ag_id aid (tb_agents db') = Some a \<and> ag_site_id a = net_site_id n \<and> ag_tenant_id a = net_tenant_id n)"
proof -
  have ok: "lan_ok db'" using assms(1,2) by (rule lan_steps_ok)
  then have d: "dispatch_ok db' n" using assms(3) by (simp add: lan_ok_def list_all_iff)
  then have auth: "is_authorized db' (net_id n) aid" "net_dispatch_mode n = DISPATCH_PREFERRED_FAILOVER"
    using assms(4) by (auto simp: dispatch_ok_def)
  then obtain l where "l \<in> set (t_rows (tb_network_agents db'))" "na_network_id l = net_id n" "na_agent_id l = aid"
    by (auto simp: is_authorized_def t_exists_iff)
  moreover have "t_get net_id (net_id n) (tb_networks db') = Some n"
    using ok assms(3) by (intro t_wf_get) (simp_all add: lan_ok_def)
  ultimately have "\<exists>a. t_get ag_id aid (tb_agents db') = Some a \<and> ag_site_id a = net_site_id n \<and> ag_tenant_id a = net_tenant_id n"
    using ok by (force simp: lan_ok_def list_all_iff link_ok_def split: option.splits)
  with auth show ?thesis by blast
qed

text \<open>C19: the networks a validated LAN scan resolves to are all of the tenant, on the agent's own
  site, not archived, and each of them has authorised the agent.\<close>

theorem lan_scan_targets_authorized:
  assumes "lan_networks_for_scan db tid a subnet_ids = Inr nets" and "n \<in> set nets"
    and "t_wf ag_id (tb_agents db)" and "t_get ag_id (ag_id a) (tb_agents db) = Some a"
  shows "net_tenant_id n = tid \<and> ag_tenant_id a = tid \<and> net_site_id n = ag_site_id a \<and>
    net_archived_at n = None \<and> is_authorized db (net_id n) (ag_id a)"
proof -
  obtain b where v: "validate_lan_scan db tid (Some (ag_id a)) subnet_ids = Inr b"
    using assms(1) by (auto simp: lan_networks_for_scan_def rbind_Inr_iff)
  note val = validate_lan_scan_agent [OF v assms(3,4)]
  show ?thesis
  proof (cases "subnet_ids = []")
    case True
    with assms(1,2) val show ?thesis
      by (auto simp: lan_networks_for_scan_def rbind_Inr_iff lan_networks_of_def t_select_def)
  next
    case False
    then obtain ms where "resolve_lan_networks db tid subnet_ids = Inr ms" "n \<in> set ms"
      using assms(1,2) by (auto simp: lan_networks_for_scan_def rbind_Inr_iff)
    with val False resolve_tenant show ?thesis by blast
  qed
qed

definition lan_world1 :: db where
  "lan_world1 = (case replace_authorized_agents 0 1 [5] small_world of Inr d \<Rightarrow> d | Inl _ \<Rightarrow> small_world)"

definition lan_world :: db where
  "lan_world = (case set_dispatch sample_network DISPATCH_PREFERRED_FAILOVER (Some 5) lan_world1 of
     Inr d \<Rightarrow> d | Inl _ \<Rightarrow> small_world)"

lemma lan_world_reached: "lan_step\<^sup>*\<^sup>* small_world lan_world"
proof -
  have "\<not> isl (replace_authorized_agents 0 1 [5] small_world)" by code_simp
  then have d: "replace_authorized_agents 0 1 [5] small_world = Inr lan_world1"
    by (cases "replace_authorized_agents 0 1 [5] small_world") (auto simp: lan_world1_def)
  have "\<not> isl (set_dispatch sample_network DISPATCH_PREFERRED_FAILOVER (Some 5) lan_world1)" by code_simp
  then have e: "set_dispatch sample_network DISPATCH_PREFERRED_FAILOVER (Some 5) lan_world1 = Inr lan_world"
    by (cases "set_dispatch sample_network DISPATCH_PREFERRED_FAILOVER (Some 5) lan_world1")
       (auto simp: lan_world_def)
  have "get_network lan_world1 1 None = Inr sample_network" by code_simp
  from step_replace [OF d] step_dispatch [OF this e] show ?thesis
    by (rule converse_rtranclp_into_rtranclp [OF _ r_into_rtranclp])
qed

theorem preferred_agent_stays_authorized_witness:
  "\<exists>n \<in> set (t_rows (tb_networks lan_world)). net_preferred_agent_id n = Some 5 \<and> is_authorized lan_world (net_id n) 5"
proof -
  have ok: "lan_ok small_world" by code_simp
  have "list_ex (\<lambda>n. net_preferred_agent_id n = Some 5) (t_rows (tb_networks lan_world))" by code_simp
  then obtain n where "n \<in> set (t_rows (tb_networks lan_world))" "net_preferred_agent_id n = Some 5"
    by (auto simp: list_ex_iff)
  with preferred_agent_stays_authorized [OF lan_world_reached ok this] show ?thesis by blast
qed

theorem lan_scan_targets_authorized_witness:
  "\<exists>n. lan_networks_for_scan lan_world 1 sample_agent [] = Inr [n] \<and> is_authorized lan_world (net_id n) (ag_id sample_agent)"
proof -
  let ?n = "sample_network\<lparr>net_dispatch_mode := DISPATCH_PREFERRED_FAILOVER, net_preferred_agent_id := Some 5\<rparr>"
  have r: "lan_networks_for_scan lan_world 1 sample_agent [] = Inr [?n]" by code_simp
  have wf: "t_wf ag_id (tb_agents lan_world)" "t_get ag_id (ag_id sample_agent) (tb_agents lan_world) = Some sample_agent"
    by code_simp+
  have "?n \<in> set [?n]" by simp
  from lan_scan_targets_authorized [OF r this wf] r show ?thesis by blast
qed

end
