(* ===== verification/Ip.thy ===== *)
theory Ip
  imports Prelude
begin

section \<open>IP addresses\<close>

text \<open>
  What the program uses of Python's \<^verbatim>\<open>ipaddress\<close>: \<open>ip_address(s)\<close>, which raises
  \<open>ValueError\<close> (\<open>None\<close> here) or returns a version and an integer. The parsers follow the
  standard library: four decimal octets without leading zeros; eight hextets with at most one
  \<open>::\<close>, an optional dotted tail and an optional scope id.
\<close>

datatype ip_version = V4 | V6

definition parse_octet :: "string \<Rightarrow> nat option" where
  "parse_octet s = (if all_digits s \<and> length s \<le> 3 \<and> (s = ''0'' \<or> hd s \<noteq> CHR ''0'') \<and> parse_digits s \<le> 255
     then Some (parse_digits s) else None)"

definition parse_ipv4 :: "string \<Rightarrow> nat option" where
  "parse_ipv4 s = (case map parse_octet (split_on CHR ''.'' s) of
       [Some a, Some b, Some c, Some d] \<Rightarrow> Some (((a * 256 + b) * 256 + c) * 256 + d)
     | _ \<Rightarrow> None)"

definition HEX_DIGITS :: string where "HEX_DIGITS = ''0123456789abcdef''"

definition hex_val :: "char \<Rightarrow> nat" where
  "hex_val c = length (takeWhile (\<lambda>d. d \<noteq> lower_char c) HEX_DIGITS)"

definition is_hex :: "char \<Rightarrow> bool" where "is_hex c \<longleftrightarrow> lower_char c \<in> set HEX_DIGITS"

definition parse_hextet :: "string \<Rightarrow> nat option" where
  "parse_hextet s = (if s \<noteq> [] \<and> list_all is_hex s \<and> length s \<le> 4
     then Some (foldl (\<lambda>n c. 16 * n + hex_val c) 0 s) else None)"

fun join_hextets :: "nat \<Rightarrow> nat option list \<Rightarrow> nat option" where
  "join_hextets acc [] = Some acc"
| "join_hextets acc (None # hs) = None"
| "join_hextets acc (Some h # hs) = join_hextets (acc * 65536 + h) hs"

text \<open>The hextets of an address without scope id; a dotted tail counts for two of them.\<close>

definition hextet_parts :: "string \<Rightarrow> (string list \<times> nat option list) option" where
  "hextet_parts s = (let parts = split_on CHR '':'' s in
     if length parts < 3 then None
     else if CHR ''.'' \<in> set (last parts)
       then (case parse_ipv4 (last parts) of None \<Rightarrow> None
         | Some v \<Rightarrow> Some (butlast parts @ [''x'', ''x''],
             map parse_hextet (butlast parts) @ [Some (v div 65536), Some (v mod 65536)]))
       else Some (parts, map parse_hextet parts))"

definition ipv6_of_parts :: "string list \<Rightarrow> nat option list \<Rightarrow> nat option" where
  "ipv6_of_parts parts vals = (let n = length parts;
       empties = filter (\<lambda>i. parts ! i = []) [1..<n - 1] in
     if n > 9 \<or> length empties > 1 then None
     else case empties of
       [k] \<Rightarrow>
         let hi = (if parts ! 0 = [] then k - 1 else k);
             lo = (if last parts = [] then n - k - 2 else n - k - 1)
         in if (parts ! 0 = [] \<and> hi \<noteq> 0) \<or> (last parts = [] \<and> lo \<noteq> 0) \<or> hi + lo > 7 then None
            else join_hextets 0 (take hi vals @ replicate (8 - (hi + lo)) (Some 0) @ drop (n - lo) vals)
     | _ \<Rightarrow> if n \<noteq> 8 then None else join_hextets 0 vals)"

definition parse_ipv6 :: "string \<Rightarrow> nat option" where
  "parse_ipv6 s = (let addr = fst (partition_on CHR ''%'' s); scope = snd (partition_on CHR ''%'' s) in
     if CHR ''%'' \<in> set s \<and> (scope = [] \<or> CHR ''%'' \<in> set scope) then None
     else case hextet_parts addr of None \<Rightarrow> None | Some (parts, vals) \<Rightarrow> ipv6_of_parts parts vals)"

definition ip_address :: "string \<Rightarrow> (ip_version \<times> nat) option" where
  "ip_address s = (case parse_ipv4 s of Some v \<Rightarrow> Some (V4, v)
     | None \<Rightarrow> (case parse_ipv6 s of Some v \<Rightarrow> Some (V6, v) | None \<Rightarrow> None))"

text \<open>\<open>str(ip_address(s))\<close>: a dotted address is its own text; the hextets of the other version are
  written without leading zeros and the first longest run of zeros becomes \<open>::\<close>.\<close>

definition hex_text :: "nat \<Rightarrow> string" where
  "hex_text n = (let ds = map (\<lambda>i. HEX_DIGITS ! (n div 16 ^ i mod 16)) [3, 2, 1, 0 :: nat];
       kept = dropWhile (\<lambda>c. c = CHR ''0'') ds in if kept = [] then ''0'' else kept)"

definition zero_runs :: "string list \<Rightarrow> (nat \<times> nat) list" where
  \<comment> \<open>start and length of the runs of zeros that begin at each position\<close>
  "zero_runs hs = map (\<lambda>i. (i, length (takeWhile (\<lambda>h. h = ''0'') (drop i hs)))) [0..<length hs]"

definition compress_hextets :: "string list \<Rightarrow> string list" where
  "compress_hextets hs = (case foldl (\<lambda>b r. if snd b < snd r then r else b) (0, 0) (zero_runs hs) of (start, run) \<Rightarrow>
     if run \<le> 1 then hs
     else (if start = 0 then [[]] else take start hs) @ [[]] @ (if start + run = length hs then [[]] else drop (start + run) hs))"

definition ipv6_text :: "nat \<Rightarrow> string" where
  "ipv6_text v = join_with '':'' (compress_hextets (map (\<lambda>i. hex_text (v div 65536 ^ i mod 65536)) [7, 6, 5, 4, 3, 2, 1, 0 :: nat]))"

definition ip_text :: "string \<Rightarrow> string" where
  "ip_text s = (case ip_address s of Some (V6, v) \<Rightarrow>
       ipv6_text v @ (if CHR ''%'' \<in> set s then ''%'' @ snd (partition_on CHR ''%'' s) else [])
     | _ \<Rightarrow> s)"

text \<open>\<open>ip_network(s, strict = False)\<close>: whether the text names a network. After the slash comes a
  prefix length or, for the dotted version, a mask whose ones or whose zeros are contiguous.\<close>

definition prefix_ok :: "nat \<Rightarrow> string \<Rightarrow> bool" where
  "prefix_ok width p \<longleftrightarrow> all_digits p \<and> parse_digits p \<le> width"

definition mask_ok :: "nat \<Rightarrow> bool" where
  "mask_ok v \<longleftrightarrow> list_ex (\<lambda>k. v = 2 ^ 32 - 2 ^ k \<or> v = 2 ^ k - 1) [0..<33]"

definition is_network :: "string \<Rightarrow> bool" where
  "is_network s = (if CHR ''/'' \<notin> set s then ip_address s \<noteq> None
     else let addr = fst (partition_on CHR ''/'' s); mask = snd (partition_on CHR ''/'' s) in
       CHR ''/'' \<notin> set mask \<and>
       ((parse_ipv4 addr \<noteq> None \<and> (prefix_ok 32 mask \<or> (case parse_ipv4 mask of None \<Rightarrow> False | Some v \<Rightarrow> mask_ok v))) \<or>
        (parse_ipv6 addr \<noteq> None \<and> prefix_ok 128 mask)))"

subsection \<open>Bounds\<close>

lemma parse_octet_bound: "parse_octet s = Some n \<Longrightarrow> n < 256"
  by (auto simp: parse_octet_def split: if_splits)

lemma parse_ipv4_bound:
  assumes "parse_ipv4 s = Some v"
  shows "v < 2 ^ 32"
proof -
  obtain a b c d where "map parse_octet (split_on CHR ''.'' s) = [Some a, Some b, Some c, Some d]"
      and v: "v = ((a * 256 + b) * 256 + c) * 256 + d"
    using assms unfolding parse_ipv4_def by (auto split: list.splits option.splits)
  then have "a < 256" "b < 256" "c < 256" "d < 256"
    by (auto simp: map_eq_Cons_conv dest!: parse_octet_bound)
  with v show ?thesis by simp
qed

lemma hex_val_bound: "is_hex c \<Longrightarrow> hex_val c < 16"
proof -
  assume "is_hex c"
  then have "takeWhile (\<lambda>d. d \<noteq> lower_char c) HEX_DIGITS \<noteq> HEX_DIGITS"
    by (auto simp: is_hex_def takeWhile_eq_all_conv)
  then have "length (takeWhile (\<lambda>d. d \<noteq> lower_char c) HEX_DIGITS) < length HEX_DIGITS"
    by (metis length_takeWhile_le nat_less_le takeWhile_eq_take take_all_iff)
  then show ?thesis by (simp add: hex_val_def HEX_DIGITS_def)
qed

lemma foldl_hex_bound:
  "list_all is_hex s \<Longrightarrow> foldl (\<lambda>n c. 16 * n + hex_val c) 0 s < 16 ^ length s"
proof (induction s rule: rev_induct)
  case (snoc c s)
  then show ?case using hex_val_bound [of c] by simp
qed simp

lemma parse_hextet_bound: "parse_hextet s = Some h \<Longrightarrow> h < 65536"
proof -
  assume *: "parse_hextet s = Some h"
  then have "list_all is_hex s" "length s \<le> 4" "h = foldl (\<lambda>n c. 16 * n + hex_val c) 0 s"
    by (auto simp: parse_hextet_def split: if_splits)
  moreover have "(16::nat) ^ length s \<le> 16 ^ 4" using calculation(2) by (rule power_increasing) simp
  ultimately show ?thesis using foldl_hex_bound [of s] by simp
qed

lemma join_hextets_bound:
  assumes "join_hextets acc hs = Some v" and "\<forall>h. Some h \<in> set hs \<longrightarrow> h < 65536"
  shows "v < (acc + 1) * 65536 ^ length hs"
  using assms
proof (induction acc hs rule: join_hextets.induct)
  case (3 acc h hs)
  then have "v < (acc * 65536 + h + 1) * 65536 ^ length hs" by simp
  also have "\<dots> \<le> ((acc + 1) * 65536) * 65536 ^ length hs"
    using "3.prems"(2) by (intro mult_right_mono) auto
  finally show ?case by (simp add: algebra_simps)
qed simp_all

lemma hextet_parts_bound:
  "hextet_parts s = Some (parts, vals) \<Longrightarrow> length vals = length parts \<and> (\<forall>h. Some h \<in> set vals \<longrightarrow> h < 65536)"
  by (auto simp: hextet_parts_def Let_def parse_hextet_bound split: if_splits option.splits
      dest!: parse_ipv4_bound dest: parse_hextet_bound [OF sym])

lemma parse_ipv6_bound:
  assumes "parse_ipv6 s = Some v"
  shows "v < 2 ^ 128"
proof -
  obtain parts vals where pv: "hextet_parts (fst (partition_on CHR ''%'' s)) = Some (parts, vals)"
      and v: "ipv6_of_parts parts vals = Some v"
    using assms by (auto simp: parse_ipv6_def Let_def split: if_splits option.splits)
  have b: "length vals = length parts" "\<forall>h. Some h \<in> set vals \<longrightarrow> h < 65536"
    using hextet_parts_bound [OF pv] by auto
  have "\<exists>hs. join_hextets 0 hs = Some v \<and> length hs = 8 \<and> set hs \<subseteq> insert (Some 0) (set vals)"
  proof -
    let ?empties = "filter (\<lambda>i. parts ! i = []) [1..<length parts - 1]"
    consider (skip) k hi lo where "hi \<le> k" "lo \<le> length parts - k - 1" "k < length parts" "hi + lo \<le> 7"
        "join_hextets 0 (take hi vals @ replicate (8 - (hi + lo)) (Some 0) @ drop (length parts - lo) vals) = Some v"
      | (full) "length parts = 8" "join_hextets 0 vals = Some v"
    proof (cases "\<exists>k. ?empties = [k]")
      case True
      then obtain k where k: "?empties = [k]" by blast
      then have "k \<in> set [1..<length parts - 1]" 
        by (metis filter_is_subset list.set_intros(1) subsetD)
      then have kn: "k < length parts" by auto
      define hi where "hi = (if parts ! 0 = [] then k - 1 else k)"
      define lo where "lo = (if last parts = [] then length parts - k - 2 else length parts - k - 1)"
      have "hi \<le> k" "lo \<le> length parts - k - 1" by (auto simp: hi_def lo_def)
      moreover have "hi + lo \<le> 7"
        "join_hextets 0 (take hi vals @ replicate (8 - (hi + lo)) (Some 0) @ drop (length parts - lo) vals) = Some v"
        using v k by (auto simp: ipv6_of_parts_def Let_def hi_def lo_def simp del: upt_Suc split: if_splits)
      ultimately show ?thesis using kn skip by blast
    next
      case False
      then show ?thesis using v full unfolding ipv6_of_parts_def Let_def
        by (auto split: if_splits list.splits)
    qed
    then show ?thesis
    proof cases
      case skip
      let ?hs = "take hi vals @ replicate (8 - (hi + lo)) (Some 0) @ drop (length parts - lo) vals"
      have "length ?hs = 8" using skip b(1) by simp
      moreover have "set ?hs \<subseteq> insert (Some 0) (set vals)"
        by (auto dest: in_set_takeD in_set_dropD)
      ultimately show ?thesis using skip(5) by blast
    next
      case full
      with b(1) show ?thesis by auto
    qed
  qed
  then obtain hs where hs: "join_hextets 0 hs = Some v" "length hs = 8" "set hs \<subseteq> insert (Some 0) (set vals)"
    by blast
  then have "\<forall>h. Some h \<in> set hs \<longrightarrow> h < 65536" using b(2) by fastforce
  from join_hextets_bound [OF hs(1) this] hs(2) show ?thesis by simp
qed

end
