(* ===== verification/Classify.thy ===== *)
theory Classify
  imports Ip Constants "HOL-Library.List_Lexorder" "HOL-Library.Char_ord"
begin

section \<open>Host names and device classes\<close>

text \<open>
  \<^verbatim>\<open>backend/app/classify.py\<close>: normal forms of host names, the weak and placeholder names that
  identify nothing, and the inference of a device class from names and open ports.
\<close>

definition DEVICE_CLASSES :: "string list" where
  "DEVICE_CLASSES = [''Unknown'', ''Desktop'', ''Laptop'', ''Server'', ''Server Management'',
     ''Virtual Server'', ''Virtual Host'', ''Switch'', ''Router / Firewall'',
     ''Print Server (non server)'', ''Access Point'', ''IoT Device'', ''UPS'', ''Other'']"

definition is_ip :: "string \<Rightarrow> bool" where
  "is_ip value \<longleftrightarrow> ip_address (strip value) \<noteq> None"

definition normalize_hostname :: "string \<Rightarrow> string" where
  "normalize_hostname value = (let name = py_lower (rstrip_chars ''.'' (strip value)) in
     if starts_with ''*.'' name then drop 2 name else name)"

definition WEAK_HOSTNAMES :: "string list" where
  "WEAK_HOSTNAMES = [''ui'', ''www'', ''ftp'', ''ssh'', ''vpn'', ''nas'', ''ap'', ''gw'', ''sw'',
     ''fw'', ''pc'', ''vm'', ''host'', ''device'', ''localhost'', ''local'', ''unifi'', ''router'',
     ''gateway'', ''switch'']"

definition is_weak_hostname :: "string \<Rightarrow> bool" where
  "is_weak_hostname hostname = (let name = normalize_hostname hostname in
     name = [] \<or> is_ip name \<or> name \<in> set WEAK_HOSTNAMES \<or> starts_with ''*.'' name \<or> name = ''*''
     \<or> (CHR ''.'' \<notin> set name \<and> length name \<le> 3))"

definition is_alnum :: "char \<Rightarrow> bool" where
  "is_alnum c \<longleftrightarrow> is_digit c \<or> c \<in> set LOWERS \<or> c \<in> set UPPERS"

definition generic_name :: "string \<Rightarrow> string" where
  "generic_name seed = (let kept = filter is_alnum (if seed = [] then ''x'' else seed);
       tail = drop (length kept - 6) kept;
       token = (if tail = [] then ''x'' else tail)
     in ''dev-'' @ py_lower token)"

definition identity_name :: "string \<Rightarrow> string \<Rightarrow> string" where
  "identity_name hostname ip = (let name = normalize_hostname hostname in
     if name \<noteq> [] \<and> \<not> is_ip name \<and> \<not> is_weak_hostname name then name
     else if strip ip \<noteq> [] then strip ip else generic_name ip)"

definition is_placeholder_name :: "string \<Rightarrow> string \<Rightarrow> bool" where
  "is_placeholder_name hostname ip = (let name = normalize_hostname hostname in
     name = [] \<or> is_ip name \<or> starts_with ''dev-'' name \<or> (ip \<noteq> [] \<and> name = strip ip))"

subsection \<open>Inference of a device class\<close>

definition portset :: "json list \<Rightarrow> int list" where
  \<comment> \<open>the set of the ports that \<open>int\<close> accepts, each once\<close>
  "portset ports = dedup (List.map_filter json_int ports)"

definition meets :: "int list \<Rightarrow> int list \<Rightarrow> bool" where
  "meets ps needed \<longleftrightarrow> list_ex (\<lambda>p. p \<in> set needed) ps"

definition CLASS_RULES :: "(string \<times> string list) list" where
  "CLASS_RULES = [
     (''Server Management'', [
        ''idrac'', ''ilo'', ''irmc'', ''ipmi'', ''bmc'', ''xclarity'', ''imm2'', ''openbmc'',
        ''idrac/'']),
     (''UPS'', [
        '' ups'', ''ups-'', ''apc '', ''eaton'', ''cyberpower'', ''powerware'', ''tripplite'',
        ''network management card'']),
     (''Print Server (non server)'', [
        ''printer'', ''print-server'', ''jetdirect'', ''cups'', ''laserjet'', ''officejet'',
        ''printers'', ''brother'', ''epson'', ''kyocera'', ''canon'', ''lexmark'']),
     (''Access Point'', [
        ''access point'', ''access-point'', ''aironet'', ''unifi-ap'', ''aruba-ap'', ''wap-'',
        ''-ap-'', ''wap.'']),
     (''Router / Firewall'', [
        ''firewall'', ''fortigate'', ''forti'', ''pfsense'', ''opnsense'', ''palo alto'',
        ''sophos'', ''asa-'', ''srx'']),
     (''Router / Firewall'', [
        ''router'', ''gateway'', ''mikrotik'', ''edgeos'', ''edgerouter'', ''ubiquiti'',
        ''unifi security'']),
     (''Switch'', [
        ''switch'', ''catalyst'', ''procurve'', ''netgear gs'', ''-sw-'', ''sw0'',
        ''cisco ios'', ''cisco nx-os'', ''junos'']),
     (''Laptop'', [
        ''laptop'', ''notebook'', ''macbook'', ''thinkpad'']),
     (''Desktop'', [
        ''desktop-'', ''desktop '', ''workstation'', ''imac'', ''optiplex'']),
     (''Virtual Host'', [
        ''esxi'', ''vmware esx'', ''hyper-v'', ''proxmox'', ''xenserver'', ''virtual host'']),
     (''Virtual Server'', [
        ''vhost'', ''vm-'', ''-vm.'', ''virtual server'']),
     (''IoT Device'', [
        ''camera'', ''cam-'', ''nvr'', ''tuya'', ''hue'', ''thermostat'', ''roku'',
        ''chromecast'', ''smartplug'']),
     (''Server'', [
        ''server'', ''srv-'', ''-srv'', ''dc01'', ''ad01'', ''sql'', ''mbox'',
        ''domain controller''])]"

definition class_by_ports :: "int list \<Rightarrow> string" where
  "class_by_ports ps = (let
       windows = meets ps [135, 139, 445, 3389, 5985, 5986];
       directory = meets ps [88, 389, 636];
       mail = meets ps [25, 110, 143, 465, 587, 993, 995];
       name_service = 53 \<in> set ps
     in if 623 \<in> set ps then ''Server Management''
     else if 8006 \<in> set ps \<or> (902 \<in> set ps \<and> 443 \<in> set ps) then ''Virtual Host''
     else if 9100 \<in> set ps \<or> 515 \<in> set ps \<or> 631 \<in> set ps then ''Print Server (non server)''
     else if meets ps [554, 8554, 37777, 34567] then ''IoT Device''
     else if meets ps [8291, 8728, 8729] then ''Router / Firewall''
     else if 161 \<in> set ps \<and> 23 \<in> set ps then ''Switch''
     else if directory \<or> mail \<or> name_service then ''Server''
     else if windows \<and> 3389 \<in> set ps \<and> \<not> (directory \<or> mail \<or> name_service) then ''Desktop''
     else if windows then ''Server''
     else if 22 \<in> set ps \<and> meets ps [80, 443, 8000, 8080, 8443] then ''Server''
     else if 22 \<in> set ps \<and> 3 \<le> length ps then ''Server''
     else ''Unknown'')"

definition infer_class :: "string \<Rightarrow> json list \<Rightarrow> string \<Rightarrow> string \<Rightarrow> string" where
  "infer_class hostname ports title tech =
     (let blob = py_lower (hostname @ '' '' @ title @ '' '' @ tech);
          ps = portset ports
      in case first_match (\<lambda>(label, needles). list_ex (\<lambda>n. contains_str n blob) needles) CLASS_RULES of
           Some (label, _) \<Rightarrow> label
         | None \<Rightarrow> class_by_ports ps)"

lemma class_rules_valid: "fst ` set CLASS_RULES \<subseteq> set DEVICE_CLASSES"
  by (simp add: CLASS_RULES_def DEVICE_CLASSES_def)

lemma if_in: "x \<in> A \<Longrightarrow> y \<in> A \<Longrightarrow> (if b then x else y) \<in> A"
  by simp

lemma device_class_members:
  "''Unknown'' \<in> set DEVICE_CLASSES" "''Desktop'' \<in> set DEVICE_CLASSES" "''Server'' \<in> set DEVICE_CLASSES"
  "''Server Management'' \<in> set DEVICE_CLASSES" "''Virtual Host'' \<in> set DEVICE_CLASSES"
  "''Switch'' \<in> set DEVICE_CLASSES" "''Router / Firewall'' \<in> set DEVICE_CLASSES"
  "''Print Server (non server)'' \<in> set DEVICE_CLASSES" "''IoT Device'' \<in> set DEVICE_CLASSES"
  by (simp_all add: DEVICE_CLASSES_def)

lemma class_by_ports_valid: "class_by_ports ps \<in> set DEVICE_CLASSES"
  unfolding class_by_ports_def Let_def by (intro if_in device_class_members)

lemma infer_class_in_classes: "infer_class hostname ports title tech \<in> set DEVICE_CLASSES"
proof (cases "first_match (\<lambda>(label, needles). list_ex
    (\<lambda>n. contains_str n (py_lower (hostname @ '' '' @ title @ '' '' @ tech))) needles) CLASS_RULES")
  case None
  then show ?thesis by (simp add: infer_class_def class_by_ports_valid)
next
  case (Some r)
  then have "r \<in> set CLASS_RULES" by (auto dest: first_match_Some)
  then have "fst r \<in> set DEVICE_CLASSES" using class_rules_valid by auto
  with Some show ?thesis by (cases r) (simp add: infer_class_def)
qed

subsection \<open>Labels\<close>

definition JUNK_TITLE :: "string list" where
  "JUNK_TITLE = [''redirecting'', ''moved permanently'', ''found'', ''403'', ''404'', ''401'', ''500'',
     ''just a moment'', ''attention required'', ''welcome to'', ''ui toolkit'', ''sign in'', ''log in'',
     ''login'', ''it works'', ''index of'', ''apache2'', ''default page'']"

definition NOISE_TECH :: "string list" where
  "NOISE_TECH = [''bootstrap'', ''nprogress'', ''jquery'', ''font awesome'', ''fontawesome'',
     ''python'', ''uvicorn'', ''php'']"

definition PRODUCTS :: "(string \<times> string list) list" where
  "PRODUCTS = [(''Synology'', [''synology'', ''diskstation'', ''dsm'', ''web station'']),
     (''Fluidd'', [''fluidd'', ''klipper'', ''mainsail'']), (''UniFi'', [''unifi'', ''ubiquiti'']),
     (''iDRAC'', [''idrac'']), (''iLO'', [''ilo'']), (''Proxmox'', [''proxmox'']),
     (''ESXi'', [''esxi'', ''vmware esx'']), (''pfSense'', [''pfsense'']), (''OPNsense'', [''opnsense''])]"

definition split_words :: "string \<Rightarrow> string list" where
  \<comment> \<open>\<open>s.split()\<close>\<close>
  "split_words s = filter (\<lambda>w. w \<noteq> [])
     (split_on CHR '' '' (map (\<lambda>c. if is_space c then CHR '' '' else c) s))"

definition clean_title :: "string \<Rightarrow> string" where
  "clean_title title = (let text = join_with '' '' (split_words title); low = py_lower text in
     if text = [] then []
     else if starts_with ''http://'' low \<or> starts_with ''https://'' low then []
     else if list_ex (\<lambda>needle. contains_str needle low) JUNK_TITLE then []
     else if length text > 32 \<or> count_list text CHR '' '' > 3 then []
     else text)"

definition tech_key :: "string \<Rightarrow> string" where
  "tech_key raw = py_lower (strip (hd (split_on CHR ''/'' (hd (split_on CHR '':'' raw)))))"

fun clean_tech_loop :: "string list \<Rightarrow> string list \<Rightarrow> string list" where
  \<comment> \<open>\<open>kept\<close> and \<open>seen\<close> hold the same keys\<close>
  "clean_tech_loop [] kept = kept"
| "clean_tech_loop (part # parts) kept = (let raw = strip part; key = tech_key raw in
     if raw = [] \<or> key = [] \<or> key \<in> set NOISE_TECH \<or> key \<in> set kept then clean_tech_loop parts kept
     else if length (kept @ [key]) = 2 then kept @ [key]
     else clean_tech_loop parts (kept @ [key]))"

definition clean_tech :: "string \<Rightarrow> string" where
  "clean_tech tech = join_with '', '' (clean_tech_loop (split_on CHR '','' tech) [])"

definition product_hint :: "string \<Rightarrow> string \<Rightarrow> string \<Rightarrow> string" where
  "product_hint hostname title tech = (let blob = py_lower (hostname @ '' '' @ title @ '' '' @ tech) in
     case first_match (\<lambda>(label, needles). list_ex (\<lambda>n. contains_str n blob) needles) PRODUCTS of
       Some (label, _) \<Rightarrow> label
     | None \<Rightarrow> (let short = clean_title title in
         if short \<noteq> [] \<and> CHR '' '' \<notin> set short then short else []))"

definition ROLE_CHECKS :: "(string \<times> int list) list" where
  "ROLE_CHECKS = [(''RDP'', [3389]), (''SMB'', [139, 445]), (''WinRPC'', [135]), (''SSH'', [22]),
     (''DNS'', [53]), (''HTTP'', [80, 8000, 8080, 8888]), (''HTTPS'', [443, 8443, 9443]),
     (''Mail'', [25, 110, 143, 465, 587, 993, 995]), (''LDAP'', [389, 636]), (''Kerberos'', [88]),
     (''SQL'', [1433, 3306, 5432]), (''SNMP'', [161]), (''IPMI'', [623]),
     (''Printer'', [515, 631, 9100]), (''NFS'', [111, 2049]), (''VNC'', [5900]), (''WinRM'', [5985, 5986])]"

definition service_roles :: "int list \<Rightarrow> string list" where
  "service_roles ps = map fst (filter (\<lambda>(name, needed). meets ps needed) ROLE_CHECKS)"

definition infer_label :: "string \<Rightarrow> json list \<Rightarrow> string \<Rightarrow> string \<Rightarrow> string" where
  \<comment> \<open>the separator is a middle dot between spaces\<close>
  "infer_label hostname ports title tech =
     (let product = product_hint hostname title tech;
          role_text = join_with '', '' (service_roles (portset ports))
      in if product \<noteq> [] \<and> role_text \<noteq> [] then take 80 (product @ [CHR '' '', CHR 0xB7, CHR '' ''] @ role_text)
         else take 80 (if product \<noteq> [] then product else role_text))"

lemma clean_tech_loop_ok:
  assumes "distinct kept" "length kept < 2" "set kept \<inter> set NOISE_TECH = {}"
  shows "distinct (clean_tech_loop parts kept) \<and> length (clean_tech_loop parts kept) \<le> 2 \<and>
    set (clean_tech_loop parts kept) \<inter> set NOISE_TECH = {}"
  using assms
proof (induction parts arbitrary: kept)
  case (Cons part parts)
  let ?key = "tech_key (strip part)"
  show ?case
  proof (cases "strip part = [] \<or> ?key = [] \<or> ?key \<in> set NOISE_TECH \<or> ?key \<in> set kept")
    case True
    with Cons show ?thesis by (auto simp: Let_def)
  next
    case False
    then have "distinct (kept @ [?key])" "set (kept @ [?key]) \<inter> set NOISE_TECH = {}"
      using Cons.prems by auto
    with False Cons.IH [of "kept @ [?key]"] Cons.prems(2) show ?thesis
      by (cases kept) (auto simp: Let_def)
  qed
qed simp

lemma infer_label_bound: "length (infer_label hostname ports title tech) \<le> 80"
  unfolding infer_label_def Let_def by (simp only: length_take split: if_split) simp

end
