(* ===== verification/Policy_Rules.thy ===== *)
theory Policy_Rules
  imports Classify Locality
begin

section \<open>Policy rules and their validation\<close>

text \<open>
  The first half of \<^verbatim>\<open>backend/app/policy.py\<close>: which conditions and actions a rule may carry
  and how a draft is normalised before it is stored. Decoded request bodies are \<^typ>\<open>json\<close>
  values. A membership test of an unhashable value in a \<open>frozenset\<close> raises \<open>TypeError\<close>, which
  is the branch \<open>PyError\<close>: it is not a \<open>PolicyError\<close> and no handler turns it into a 400.
\<close>

abbreviation policy_error :: "string \<Rightarrow> app_error" where "policy_error d \<equiv> PolicyError d 400"

subsection \<open>Vocabulary\<close>

definition SCOPE_RANK :: "string \<Rightarrow> nat" where
  "SCOPE_RANK s = (if s = POLICY_SCOPE_NETWORK then 4 else if s = POLICY_SCOPE_SITE then 3
     else if s = POLICY_SCOPE_TENANT then 2 else if s = POLICY_SCOPE_GLOBAL then 1 else 0)"

definition CONDITION_FIELDS_ASSET :: "string list" where
  "CONDITION_FIELDS_ASSET = [''hostname'', ''tag'', ''criticality'', ''is_expected'', ''observed_port'']"

definition CONDITION_FIELDS_FINDING :: "string list" where
  "CONDITION_FIELDS_FINDING = [''severity'', ''priority'', ''has_cve'']"

definition CONDITION_FIELDS_ALERTING :: "string list" where
  "CONDITION_FIELDS_ALERTING = [''event_type'', ''classification'', ''disposition'', ''criticality'',
     ''tag'', ''is_expected'', ''severity'', ''priority'', ''has_cve'', ''treatment_state'', ''source'']"

definition OPERATORS :: "string \<Rightarrow> string list" where
  "OPERATORS f = (if f = ''hostname'' then [''equals'', ''glob'']
     else if f = ''tag'' then [''has'', ''lacks''] else [''equals''])"

definition ACTIONS_BY_CATEGORY :: "(string \<times> string list) list" where
  "ACTIONS_BY_CATEGORY = [
     (POLICY_CATEGORY_ASSET_HANDLING, [''classification'', ''disposition'']),
     (POLICY_CATEGORY_ASSET_INACTIVITY, [''inactive_after_days'']),
     (POLICY_CATEGORY_FINDING_LIFECYCLE, [''resolution_clean_scans'']),
     (POLICY_CATEGORY_ALERTING, [''severity'', ''dashboard'', ''email'', ''webhook'', ''suppress_for_minutes''])]"

definition FINDING_SEVERITIES :: "string list" where
  "FINDING_SEVERITIES = [''critical'', ''high'', ''medium'', ''low'', ''info'', ''unknown'']"

abbreviation MAX_INACTIVE_AFTER_DAYS :: int where "MAX_INACTIVE_AFTER_DAYS \<equiv> 3650"
abbreviation MAX_RESOLUTION_CLEAN_SCANS :: int where "MAX_RESOLUTION_CLEAN_SCANS \<equiv> 30"
abbreviation RECONCILE_BATCH_SIZE :: nat where "RECONCILE_BATCH_SIZE \<equiv> 250"

definition FORBIDDEN_CONDITION_KEYS :: "string list" where
  "FORBIDDEN_CONDITION_KEYS = [''expr'', ''expression'', ''sql'', ''script'', ''code'', ''eval'',
     ''python'', ''javascript'', ''or'', ''any'', ''not'']"

definition system_default_alert_actions :: "string \<Rightarrow> (string \<times> json) list" where
  "system_default_alert_actions event_type =
     (if event_type = EVENT_NEW_ASSET then
        [(''severity'', JStr ALERT_SEVERITY_HIGH), (''dashboard'', JBool True), (''email'', JStr ALERT_EMAIL_STAFF),
         (''webhook'', JObj [(''enabled'', JBool False)]), (''suppress_for_minutes'', JInt 0)]
      else if event_type = EVENT_AGENT_IDENTITY_MISMATCH then
        [(''severity'', JStr ALERT_SEVERITY_CRITICAL), (''dashboard'', JBool True), (''email'', JStr ALERT_EMAIL_ADMINS),
         (''webhook'', JObj [(''enabled'', JBool False)]), (''suppress_for_minutes'', JInt 0)]
      else [])"

subsection \<open>Checks on decoded values\<close>

fun hashable :: "json \<Rightarrow> bool" where
  "hashable (JArr xs) = False" | "hashable (JObj kvs) = False" | "hashable v = True"

definition is_str_in :: "json \<Rightarrow> string list \<Rightarrow> bool" where
  \<comment> \<open>\<open>v in (a, b, ...)\<close> for a tuple of strings\<close>
  "is_str_in v names = (case v of JStr s \<Rightarrow> s \<in> set names | _ \<Rightarrow> False)"

definition in_frozenset :: "json \<Rightarrow> string list \<Rightarrow> string \<Rightarrow> app_error + json" where
  \<comment> \<open>\<open>if v not in FROZENSET: raise PolicyError(detail)\<close>\<close>
  "in_frozenset v names detail = (if \<not> hashable v then Inl (PyError ''TypeError: unhashable type'')
     else if is_str_in v names then Inr v else Inl (policy_error detail))"

definition in_tuple :: "json \<Rightarrow> string list \<Rightarrow> string \<Rightarrow> app_error + json" where
  "in_tuple v names detail = (if is_str_in v names then Inr v else Inl (policy_error detail))"

definition policy_bool :: "json \<Rightarrow> app_error + json" where
  "policy_bool v = (case v of
       JBool b \<Rightarrow> Inr v
     | JStr s \<Rightarrow> if py_lower s \<in> {''true'', ''false''} then Inr (JBool (py_lower s = ''true''))
         else Inl (policy_error ''Boolean condition value must be true or false'')
     | _ \<Rightarrow> Inl (policy_error ''Boolean condition value must be true or false''))"

definition policy_int :: "string \<Rightarrow> json \<Rightarrow> app_error + int" where
  "policy_int field v = (case v of JInt i \<Rightarrow> Inr i | _ \<Rightarrow> Inl (policy_error (field @ '' must be an integer'')))"

definition int_between :: "string \<Rightarrow> int \<Rightarrow> int \<Rightarrow> string \<Rightarrow> json \<Rightarrow> app_error + json" where
  "int_between field lo hi detail v = rbind (policy_int field v) (\<lambda>i.
     if i < lo \<or> i > hi then Inl (policy_error detail) else Inr (JInt i))"

definition words_of :: "string \<Rightarrow> string" where
  \<comment> \<open>\<open>" ".join(s.split())\<close>\<close>
  "words_of s = join_with '' '' (split_words s)"

definition normalize_tag_name :: "string \<Rightarrow> string" where
  "normalize_tag_name s = py_lower (words_of (strip s))"

definition allowed_fields :: "string \<Rightarrow> string list" where
  "allowed_fields category =
     (if category = POLICY_CATEGORY_FINDING_LIFECYCLE then CONDITION_FIELDS_ASSET @ CONDITION_FIELDS_FINDING
      else if category = POLICY_CATEGORY_ALERTING then CONDITION_FIELDS_ALERTING
      else CONDITION_FIELDS_ASSET)"

text \<open>The value checks of \<open>_normalize_condition\<close>, one branch per field.\<close>

definition normalize_value :: "string \<Rightarrow> json \<Rightarrow> app_error + json" where
  "normalize_value f v =
     (if f = ''hostname'' then (case v of
          JStr s \<Rightarrow> if strip s = [] then Inl (policy_error ''hostname value is required'') else Inr (JStr (strip s))
        | _ \<Rightarrow> Inl (policy_error ''hostname value is required''))
      else if f = ''tag'' then (case v of
          JStr s \<Rightarrow> if strip s = [] then Inl (policy_error ''tag value is required'') else Inr (JStr (words_of (strip s)))
        | _ \<Rightarrow> Inl (policy_error ''tag value is required''))
      else if f = ''criticality'' then in_frozenset v CRITICALITIES ''Invalid criticality''
      else if f = ''is_expected'' then policy_bool v
      else if f = ''observed_port'' then
        int_between ''observed_port'' 1 65535 ''observed_port must be between 1 and 65535'' v
      else if f = ''severity'' then (case v of
          JStr s \<Rightarrow> if py_lower (strip s) \<in> set FINDING_SEVERITIES then Inr (JStr (py_lower (strip s)))
            else Inl (policy_error ''Invalid finding severity'')
        | _ \<Rightarrow> Inl (policy_error ''Invalid finding severity''))
      else if f = ''priority'' then (case v of
          JStr s \<Rightarrow> if py_lower (strip s) \<in> set PRIORITIES then Inr (JStr (py_lower (strip s)))
            else Inl (policy_error ''Invalid operational priority'')
        | _ \<Rightarrow> Inl (policy_error ''Invalid operational priority''))
      else if f = ''has_cve'' then policy_bool v
      else if f = ''event_type'' then in_tuple v DOMAIN_EVENT_TYPES ''Unsupported event type''
      else if f = ''classification'' then in_tuple v DEVICE_CLASSES ''Invalid classification''
      else if f = ''disposition'' then in_frozenset v DISPOSITIONS ''Invalid disposition''
      else if f = ''treatment_state'' then in_frozenset v (TREATMENT_STATES @ TREATMENT_STATUSES) ''Invalid treatment_state''
      else if f = ''source'' then (case v of
          JStr s \<Rightarrow> if strip s = [] \<or> 40 < length s then Inl (policy_error ''Invalid source'') else Inr (JStr (strip s))
        | _ \<Rightarrow> Inl (policy_error ''Invalid source''))
      else Inr v)"

definition sorted_names :: "string list \<Rightarrow> string" where
  "sorted_names ks = join_with '', '' (sort (dedup ks))"

definition normalize_condition :: "string \<Rightarrow> json \<Rightarrow> app_error + json" where
  "normalize_condition category raw = (case raw of
       JObj kvs \<Rightarrow>
         let extra = filter (\<lambda>k. k \<notin> {''field'', ''op'', ''value''}) (map fst kvs);
             field_name = jstr (jget ''field'' raw); op = jstr (jget ''op'' raw)
         in if list_ex (\<lambda>k. k \<in> set FORBIDDEN_CONDITION_KEYS) extra
            then Inl (policy_error ''Arbitrary executable expressions are not allowed'')
            else if extra \<noteq> [] then Inl (policy_error (''Unsupported condition keys: '' @ sorted_names extra))
            else rbind (in_frozenset (jget ''field'' raw) (allowed_fields category)
                   (''Unsupported condition field: '' @ field_name)) (\<lambda>_.
                 rbind (in_frozenset (jget ''op'' raw) (OPERATORS field_name)
                   (''Unsupported operator '' @ op @ '' for field '' @ field_name)) (\<lambda>_.
                 rbind (normalize_value field_name (jget ''value'' raw)) (\<lambda>v.
                   Inr (JObj [(''field'', JStr field_name), (''op'', JStr op), (''value'', v)]))))
     | _ \<Rightarrow> Inl (policy_error ''Each condition must be an object with field, op, and value''))"

definition cond_field :: "json \<Rightarrow> string" where "cond_field c = jstr (jget ''field'' c)"
definition cond_op :: "json \<Rightarrow> string" where "cond_op c = jstr (jget ''op'' c)"
definition cond_value :: "json \<Rightarrow> json" where "cond_value c = jget ''value'' c"

definition validate_conditions :: "string \<Rightarrow> json \<Rightarrow> app_error + json list" where
  "validate_conditions category raw = (case raw of
       JNull \<Rightarrow> Inr []
     | JArr items \<Rightarrow>
         rbind (rfold (\<lambda>item cs. rbind (normalize_condition category item) (\<lambda>c. Inr (cs @ [c]))) items []) (\<lambda>cleaned.
           if category = POLICY_CATEGORY_ALERTING \<and> \<not> list_ex (\<lambda>c. cond_field c = ''event_type'') cleaned
           then Inl (policy_error ''Alerting policy requires an explicit event_type condition'')
           else Inr cleaned)
     | _ \<Rightarrow> Inl (policy_error ''conditions must be a list; nested Boolean trees are not supported''))"

subsection \<open>Webhook destinations\<close>

text \<open>What the code reads of \<^verbatim>\<open>urllib.parse.urlparse\<close>: scheme, network location and the
  credentials in it. Unbalanced brackets raise \<open>ValueError\<close>; the further check that a bracketed
  host is an IPv6 literal is left out.\<close>

definition is_alpha :: "char \<Rightarrow> bool" where "is_alpha c \<longleftrightarrow> c \<in> set LOWERS \<or> c \<in> set UPPERS"

definition scheme_char :: "char \<Rightarrow> bool" where
  "scheme_char c \<longleftrightarrow> is_alpha c \<or> is_digit c \<or> c \<in> set ''+-.''"

definition urlparse :: "string \<Rightarrow> app_error + (string \<times> string)" where
  "urlparse s =
     (let url = filter (\<lambda>c. c \<notin> {CHR 0x09, CHR 0x0A, CHR 0x0D}) (dropWhile (\<lambda>c. of_char c \<le> (32::nat)) s);
          (before, after) = partition_on CHR '':'' url;
          has_scheme = CHR '':'' \<in> set url \<and> before \<noteq> [] \<and> is_alpha (hd before) \<and> list_all scheme_char before;
          scheme = (if has_scheme then py_lower before else []);
          rest = (if has_scheme then after else url);
          netloc = (if starts_with ''//'' rest then takeWhile (\<lambda>c. c \<notin> set ''/?#'') (drop 2 rest) else [])
      in if (CHR ''['' \<in> set netloc) \<noteq> (CHR '']'' \<in> set netloc)
         then Inl (PyError ''ValueError: Invalid IPv6 URL'') else Inr (scheme, netloc))"

definition url_credentials :: "string \<Rightarrow> string \<times> string" where
  \<comment> \<open>\<open>(username or "", password or "")\<close> of a network location\<close>
  "url_credentials netloc = (if CHR ''@'' \<in> set netloc
     then partition_on CHR '':'' (rev (drop 1 (dropWhile (\<lambda>c. c \<noteq> CHR ''@'') (rev netloc)))) else ([], []))"

definition validate_webhook_url :: "string \<Rightarrow> app_error + string" where
  "validate_webhook_url url = rbind (urlparse url) (\<lambda>(scheme, netloc).
     if scheme \<notin> {''http'', ''https''} then Inl (policy_error ''Webhook URL must use http or https'')
     else if netloc = [] then Inl (policy_error ''Webhook URL is malformed'')
     else if url_credentials netloc \<noteq> ([], []) then Inl (policy_error ''Webhook URL must not contain credentials'')
     else if CHR '' '' \<in> set url then Inl (policy_error ''Webhook URL is malformed'')
     else Inr url)"

definition validate_webhook_action :: "json \<Rightarrow> app_error + json" where
  "validate_webhook_action raw = (case raw of
       JObj kvs \<Rightarrow>
         let extra = filter (\<lambda>k. k \<notin> {''enabled'', ''url''}) (map fst kvs) in
         if extra \<noteq> [] then Inl (policy_error (''Unsupported webhook keys: '' @ sorted_names extra))
         else rbind (policy_bool (case map_of kvs ''enabled'' of None \<Rightarrow> JBool False | Some v \<Rightarrow> v)) (\<lambda>enabled.
           if \<not> truthy enabled then Inr (JObj [(''enabled'', JBool False)])
           else case jget ''url'' raw of
               JStr s \<Rightarrow> if strip s = [] then Inl (policy_error ''Enabled webhook requires a URL'')
                 else rbind (validate_webhook_url (strip s)) (\<lambda>u.
                   Inr (JObj [(''enabled'', JBool True), (''url'', JStr u)]))
             | _ \<Rightarrow> Inl (policy_error ''Enabled webhook requires a URL''))
     | _ \<Rightarrow> Inl (policy_error ''webhook must be an object with enabled and optional url''))"

subsection \<open>Actions\<close>

definition validate_action :: "string \<Rightarrow> json \<Rightarrow> app_error + json" where
  "validate_action name v =
     (if name = ''classification'' then in_tuple v DEVICE_CLASSES ''Invalid classification''
      else if name = ''disposition'' then in_frozenset v DISPOSITIONS ''Invalid disposition''
      else if name = ''inactive_after_days'' then int_between name 1 MAX_INACTIVE_AFTER_DAYS
        ''inactive_after_days must be between 1 and 3650'' v
      else if name = ''resolution_clean_scans'' then int_between name 1 MAX_RESOLUTION_CLEAN_SCANS
        ''resolution_clean_scans must be between 1 and 30'' v
      else if name = ''severity'' then in_frozenset v ALERT_SEVERITIES ''Invalid alert severity''
      else if name = ''dashboard'' then policy_bool v
      else if name = ''email'' then in_frozenset v ALERT_EMAIL_MODES ''email must be off, staff, or admins''
      else if name = ''webhook'' then validate_webhook_action v
      else int_between name 0 MAX_SUPPRESS_FOR_MINUTES ''suppress_for_minutes must be between 0 and 43200'' v)"

definition ACTION_ORDER :: "string list" where
  \<comment> \<open>the order of the \<open>if "..." in raw\<close> statements\<close>
  "ACTION_ORDER = [''classification'', ''disposition'', ''inactive_after_days'', ''resolution_clean_scans'',
     ''severity'', ''dashboard'', ''email'', ''webhook'', ''suppress_for_minutes'']"

definition take_action :: "(string \<times> json) list \<Rightarrow> string \<Rightarrow> (string \<times> json) list \<Rightarrow> app_error + (string \<times> json) list" where
  "take_action raw name cleaned = (case map_of raw name of
       None \<Rightarrow> Inr cleaned
     | Some v \<Rightarrow> rbind (validate_action name v) (\<lambda>w. Inr (cleaned @ [(name, w)])))"

definition validate_actions :: "string \<Rightarrow> json \<Rightarrow> app_error + (string \<times> json) list" where
  "validate_actions category raw = (case raw of
       JObj kvs \<Rightarrow>
         if kvs = [] then Inl (policy_error ''actions must be a non-empty object'')
         else (case map_of ACTIONS_BY_CATEGORY category of
             None \<Rightarrow> Inl (PyError ''KeyError'')
           | Some allowed \<Rightarrow>
               let extra = filter (\<lambda>k. k \<notin> set allowed) (map fst kvs) in
               if extra \<noteq> [] then Inl (policy_error (''Unsupported action keys: '' @ sorted_names extra))
               else rbind (rfold (take_action kvs) ACTION_ORDER []) (\<lambda>cleaned.
                 if cleaned = [] then Inl (policy_error ''At least one valid action is required'') else Inr cleaned))
     | _ \<Rightarrow> Inl (policy_error ''actions must be a non-empty object''))"

subsection \<open>Scope\<close>

definition validate_scope_shape :: "string \<Rightarrow> nat option \<Rightarrow> nat option \<Rightarrow> nat option \<Rightarrow> app_error + unit" where
  "validate_scope_shape scope t s n =
     (if scope \<notin> set POLICY_SCOPES then Inl (policy_error ''Invalid scope_type'')
      else if scope = POLICY_SCOPE_GLOBAL then
        require (t = None \<and> s = None \<and> n = None) (policy_error ''Global policy cannot reference tenant, site, or network'')
      else if scope = POLICY_SCOPE_TENANT then
        require (t \<noteq> None \<and> s = None \<and> n = None) (policy_error ''Tenant policy requires tenant_id and no site or network'')
      else if scope = POLICY_SCOPE_SITE then
        require (t \<noteq> None \<and> s \<noteq> None \<and> n = None) (policy_error ''Site policy requires tenant_id and site_id'')
      else require (t \<noteq> None \<and> s \<noteq> None \<and> n \<noteq> None)
        (policy_error ''Network policy requires tenant_id, site_id, and network_id''))"

definition validate_scope_objects :: "db \<Rightarrow> string \<Rightarrow> nat option \<Rightarrow> nat option \<Rightarrow> nat option \<Rightarrow> app_error + unit" where
  "validate_scope_objects db scope t s n = rbind (validate_scope_shape scope t s n) (\<lambda>_.
     if scope = POLICY_SCOPE_GLOBAL then Inr ()
     else rbind (get_tenant db (the t)) (\<lambda>_.
       if scope = POLICY_SCOPE_TENANT then Inr ()
       else rbind (get_site db (the s) t) (\<lambda>site.
         if Some (site_tenant_id site) \<noteq> t then Inl (policy_error ''Site does not belong to this tenant'')
         else if scope = POLICY_SCOPE_SITE then Inr ()
         else rbind (get_network db (the n) t) (\<lambda>net.
           if Some (net_site_id net) \<noteq> s \<or> Some (net_tenant_id net) \<noteq> t
           then Inl (policy_error ''Network does not belong to the specified site and tenant'') else Inr ()))))"

definition validate_tag_exists :: "db \<Rightarrow> nat option \<Rightarrow> json list \<Rightarrow> app_error + unit" where
  "validate_tag_exists db tenant conditions = (case tenant of
       None \<Rightarrow> Inr ()
     | Some tid \<Rightarrow>
         let needed = map (\<lambda>c. normalize_tag_name (jstr (cond_value c))) (filter (\<lambda>c. cond_field c = ''tag'') conditions);
             found = map tag_normalized_name (t_select (\<lambda>r. tag_tenant_id r = tid \<and> tag_normalized_name r \<in> set needed) (tb_tags db));
             missing = filter (\<lambda>k. k \<notin> set found) needed
         in if missing \<noteq> [] then Inl (policy_error (''Unknown tag for this tenant: '' @ sorted_names missing)) else Inr ())"

subsection \<open>A whole rule\<close>

record policy_payload =
  pp_name :: "string option"
  pp_description :: "string option"
  pp_category :: "string option"
  pp_scope_type :: "string option"
  pp_tenant_id :: "nat option"
  pp_site_id :: "nat option"
  pp_network_id :: "nat option"
  pp_priority :: "int option"
  pp_conditions :: json
  pp_actions :: json

record clean_rule =
  cr_name :: string
  cr_description :: string
  cr_category :: string
  cr_scope_type :: string
  cr_tenant_id :: "nat option"
  cr_site_id :: "nat option"
  cr_network_id :: "nat option"
  cr_priority :: int
  cr_conditions :: "json list"
  cr_actions :: "(string \<times> json) list"

definition str_or :: "string option \<Rightarrow> string" where
  \<comment> \<open>\<open>s or ""\<close>\<close>
  "str_or s = (case s of None \<Rightarrow> [] | Some x \<Rightarrow> x)"

definition normalize_rule_payload :: "db \<Rightarrow> policy_payload \<Rightarrow> app_error + clean_rule" where
  "normalize_rule_payload db p =
     (let cleaned_name = words_of (str_or (pp_name p)); category = str_or (pp_category p);
          scope = str_or (pp_scope_type p); t = pp_tenant_id p; s = pp_site_id p; n = pp_network_id p
      in if cleaned_name = [] then Inl (policy_error ''Name is required'')
      else if category \<notin> set POLICY_CATEGORIES then Inl (policy_error ''Invalid category'')
      else case pp_priority p of
        None \<Rightarrow> Inl (policy_error ''priority must be an integer'')
      | Some prio \<Rightarrow>
          rbind (validate_scope_objects db scope t s n) (\<lambda>_.
          rbind (validate_conditions category (pp_conditions p)) (\<lambda>conds.
          rbind (validate_actions category (pp_actions p)) (\<lambda>acts.
          rbind (validate_tag_exists db t conds) (\<lambda>_.
            Inr \<lparr>cr_name = cleaned_name, cr_description = str_or (pp_description p), cr_category = category,
              cr_scope_type = scope, cr_tenant_id = t, cr_site_id = s, cr_network_id = n, cr_priority = prio,
              cr_conditions = conds, cr_actions = acts\<rparr>)))))"


subsection \<open>Normal forms of words\<close>

lemma split_on_none: "c \<notin> set s \<Longrightarrow> split_on c s = [s]"
  by (induction s) auto

lemma split_on_ne [simp]: "split_on c s \<noteq> []"
  by (cases s) (auto split: list.splits)

lemma split_on_sep: "split_on c (x @ c # y) = split_on c x @ split_on c y"
  by (induction x) (auto split: list.splits)

definition plain_word :: "string \<Rightarrow> bool" where
  "plain_word w \<longleftrightarrow> w \<noteq> [] \<and> list_all (\<lambda>c. \<not> is_space c) w"

lemma is_space_blank [simp]: "is_space CHR '' ''"
  by (simp add: is_space_def PY_SPACE_def)

lemma blank_map_word: "plain_word w \<Longrightarrow> map (\<lambda>c. if is_space c then CHR '' '' else c) w = w"
  by (induction w) (auto simp: plain_word_def list_all_iff)

lemma split_words_join: "list_all plain_word ws \<Longrightarrow> split_words (join_with '' '' ws) = ws"
proof (induction ws)
  case (Cons w ws)
  then have w: "CHR '' '' \<notin> set w" "w \<noteq> []" "plain_word w" by (auto simp: plain_word_def list_all_iff)
  then have "split_words (w @ '' '' @ r) = w # split_words r" for r
    by (simp add: split_words_def blank_map_word split_on_sep split_on_none)
  moreover have "split_words w = [w]"
    using w by (simp add: split_words_def blank_map_word split_on_none)
  ultimately show ?case using Cons by (cases ws) auto
qed (simp add: split_words_def)

lemma split_on_chars: "w \<in> set (split_on c s) \<Longrightarrow> set w \<subseteq> set s - {c}"
proof (induction s arbitrary: w)
  case (Cons x s)
  then show ?case by (cases "split_on c s") (fastforce split: if_splits)+
qed simp

lemma split_words_plain: "list_all plain_word (split_words s)"
proof -
  have "plain_word w" if "w \<in> set (split_words s)" for w
  proof -
    have "w \<noteq> []" "set w \<subseteq> set (map (\<lambda>c. if is_space c then CHR '' '' else c) s) - {CHR '' ''}"
      using that split_on_chars [of w "CHR '' ''" "map (\<lambda>c. if is_space c then CHR '' '' else c) s"]
      by (simp_all add: split_words_def)
    then show ?thesis by (auto simp: plain_word_def list_all_iff split: if_splits)
  qed
  then show ?thesis by (simp add: list_all_iff)
qed

lemma words_of_idem [simp]: "words_of (words_of s) = words_of s"
  by (simp add: words_of_def split_words_join split_words_plain)

lemma join_plain_ends: "list_all plain_word ws \<Longrightarrow> ws \<noteq> [] \<Longrightarrow>
    join_with '' '' ws \<noteq> [] \<and> \<not> is_space (hd (join_with '' '' ws)) \<and> \<not> is_space (last (join_with '' '' ws))"
proof (induction ws)
  case (Cons w ws)
  then show ?case by (cases ws) (auto simp: plain_word_def list_all_iff)
qed simp

lemma strip_fix: "s = [] \<or> (\<not> is_space (hd s) \<and> \<not> is_space (last s)) \<Longrightarrow> strip s = s"
proof -
  assume *: "s = [] \<or> (\<not> is_space (hd s) \<and> \<not> is_space (last s))"
  show ?thesis
  proof (cases "s = []")
    case False
    with * have "dropWhile is_space s = s" "dropWhile is_space (rev s) = rev s"
      by (simp_all add: dropWhile_eq_self_iff hd_rev)
    then show ?thesis by (simp add: strip_eq_rdrop)
  qed (simp add: strip_eq_rdrop)
qed

lemma strip_words_of [simp]: "strip (words_of s) = words_of s"
  using join_plain_ends [OF split_words_plain, of s]
  by (intro strip_fix) (cases "split_words s = []"; simp add: words_of_def)

lemma strip_ne_words: "strip s \<noteq> [] \<Longrightarrow> words_of (strip s) \<noteq> []"
proof
  assume ne: "strip s \<noteq> []" and w: "words_of (strip s) = []"
  have h: "\<not> is_space (hd (strip s))"
    using ne dropWhile_idem_hd [of is_space "strip s"] strip_idem [of s]
    by (metis (no_types) dropWhile.simps(1) hd_rdrop dropWhile_idem_hd strip_eq_rdrop)
  have "split_words (strip s) = []"
    using w join_plain_ends [OF split_words_plain, of "strip s"] by (auto simp: words_of_def)
  then have e: "\<forall>p \<in> set (split_on CHR '' '' (map (\<lambda>c. if is_space c then CHR '' '' else c) (strip s))). p = []"
    by (simp add: split_words_def filter_empty_conv)
  obtain c cs where "strip s = c # cs" using ne by (cases "strip s") auto
  with h e show False
    by (cases "split_on CHR '' '' (map (\<lambda>c. if is_space c then CHR '' '' else c) cs)")
       (auto split: list.splits if_splits)
qed


subsection \<open>Normalisation is stable\<close>

text \<open>Normalising a stored rule again, as an update of one field does for all the others, changes
  nothing.\<close>

lemma lower_strip_fix:
  "w \<in> set FINDING_SEVERITIES \<Longrightarrow> py_lower (strip w) = w"
  "w \<in> set PRIORITIES \<Longrightarrow> py_lower (strip w) = w"
  by (auto simp: FINDING_SEVERITIES_def PRIORITIES_def py_lower_def lower_char_def UPPERS_def LOWERS_def
      strip_def lstrip_def rstrip_def is_space_def PY_SPACE_def)

lemma in_frozenset_Inr [simp]: "in_frozenset v names d = Inr w \<longleftrightarrow> w = v \<and> hashable v \<and> is_str_in v names"
  by (auto simp: in_frozenset_def)

lemma in_tuple_Inr [simp]: "in_tuple v names d = Inr w \<longleftrightarrow> w = v \<and> is_str_in v names"
  by (auto simp: in_tuple_def)

lemma is_str_in_iff: "is_str_in v names \<longleftrightarrow> (\<exists>s. v = JStr s \<and> s \<in> set names)"
  by (auto simp: is_str_in_def split: json.splits)

lemma policy_bool_Inr: "policy_bool v = Inr w \<Longrightarrow> \<exists>b. w = JBool b"
  by (auto simp: policy_bool_def split: json.splits if_splits)

lemma policy_bool_fix [simp]: "policy_bool (JBool b) = Inr (JBool b)"
  by (simp add: policy_bool_def)

lemma int_between_Inr: "int_between f lo hi d v = Inr w \<longleftrightarrow> (\<exists>i. v = JInt i \<and> w = v \<and> lo \<le> i \<and> i \<le> hi)"
  by (cases v) (auto simp: int_between_def policy_int_def)

lemma normalize_value_stable:
  assumes "normalize_value f v = Inr w"
  shows "normalize_value f w = Inr w"
proof -
  note nv = normalize_value_def
  consider "f = ''hostname''" | "f = ''tag''" | "f = ''severity''" | "f = ''priority''" | "f = ''source''"
    | "f = ''is_expected''" | "f = ''has_cve''" | "f = ''observed_port''"
    | (other) "f \<notin> {''hostname'', ''tag'', ''severity'', ''priority'', ''source'', ''is_expected'', ''has_cve'', ''observed_port''}"
    by auto
  then show ?thesis
  proof cases
    case 1
    with assms show ?thesis by (auto simp: nv split: json.splits if_splits)
  next
    case 2
    with assms show ?thesis by (auto simp: nv strip_ne_words split: json.splits if_splits)
  next
    case 3
    with assms show ?thesis by (auto simp: nv lower_strip_fix split: json.splits if_splits)
  next
    case 4
    with assms show ?thesis by (auto simp: nv lower_strip_fix split: json.splits if_splits)
  next
    case 5
    have "length (strip s) \<le> length s" for s :: string
      by (simp add: strip_eq_rdrop) (meson length_dropWhile_le order_trans length_rev [THEN eq_refl])
    with 5 assms show ?thesis
      by (auto simp: nv not_less split: json.splits if_splits) (meson le_trans not_less)
  next
    case 6
    with assms show ?thesis by (auto simp: nv dest: policy_bool_Inr)
  next
    case 7
    with assms show ?thesis by (auto simp: nv dest: policy_bool_Inr)
  next
    case 8
    with assms show ?thesis by (auto simp: nv int_between_Inr)
  next
    case other
    with assms show ?thesis by (simp add: nv split: if_splits)
  qed
qed

definition mk_cond :: "string \<Rightarrow> string \<Rightarrow> json \<Rightarrow> json" where
  "mk_cond f p v = JObj [(''field'', JStr f), (''op'', JStr p), (''value'', v)]"

lemma cond_of_mk [simp]: "cond_field (mk_cond f p v) = f" "cond_op (mk_cond f p v) = p" "cond_value (mk_cond f p v) = v"
  "jget ''field'' (mk_cond f p v) = JStr f" "jget ''op'' (mk_cond f p v) = JStr p" "jget ''value'' (mk_cond f p v) = v"
  by (simp_all add: cond_field_def cond_op_def cond_value_def mk_cond_def)

lemma normalize_condition_Inr:
  assumes "normalize_condition category raw = Inr c"
  obtains f p v v0 where "c = mk_cond f p v" "f \<in> set (allowed_fields category)" "p \<in> set (OPERATORS f)"
    "normalize_value f v0 = Inr v"
proof (cases raw)
  case (JObj kvs)
  with assms show ?thesis
    unfolding normalize_condition_def mk_cond_def Let_def json.case
    by (auto simp: rbind_Inr_iff is_str_in_iff simp del: jget.simps split: if_splits intro: that [unfolded mk_cond_def])
qed (use assms in \<open>simp_all add: normalize_condition_def\<close>)

lemma normalize_mk_cond:
  assumes "f \<in> set (allowed_fields category)" "p \<in> set (OPERATORS f)" "normalize_value f v = Inr v"
  shows "normalize_condition category (mk_cond f p v) = Inr (mk_cond f p v)"
  using assms
  by (simp add: normalize_condition_def mk_cond_def Let_def in_frozenset_def is_str_in_def)

lemma normalize_condition_stable:
  assumes "normalize_condition category raw = Inr c"
  shows "normalize_condition category c = Inr c"
  using assms
  by (elim normalize_condition_Inr) (simp add: normalize_mk_cond normalize_value_stable)

lemma rfold_collect:
  "rfold (\<lambda>x ys. rbind (f x) (\<lambda>y. Inr (ys @ [y]))) xs acc = Inr out \<longleftrightarrow>
     (\<exists>zs. out = acc @ zs \<and> list_all2 (\<lambda>x z. f x = Inr z) xs zs)"
proof (induction xs arbitrary: acc)
  case (Cons x xs)
  then show ?case by (auto simp: rbind_Inr_iff list_all2_Cons1)
qed auto

lemma validate_conditions_Inr:
  assumes "validate_conditions category raw = Inr cs"
  shows "list_all (\<lambda>c. normalize_condition category c = Inr c) cs"
    and "category = POLICY_CATEGORY_ALERTING \<Longrightarrow> raw \<noteq> JNull \<Longrightarrow> list_ex (\<lambda>c. cond_field c = ''event_type'') cs"
proof -
  show "list_all (\<lambda>c. normalize_condition category c = Inr c) cs"
  proof (cases raw)
    case (JArr items)
    with assms have "list_all2 (\<lambda>x z. normalize_condition category x = Inr z) items cs"
      by (auto simp: validate_conditions_def rbind_Inr_iff rfold_collect split: if_splits)
    then show ?thesis by (induction rule: list_all2_induct) (auto dest: normalize_condition_stable)
  qed (use assms in \<open>simp_all add: validate_conditions_def\<close>)
  show "list_ex (\<lambda>c. cond_field c = ''event_type'') cs"
    if "category = POLICY_CATEGORY_ALERTING" "raw \<noteq> JNull"
    using assms that by (cases raw) (auto simp: validate_conditions_def rbind_Inr_iff split: if_splits)
qed


lemma validate_conditions_stable:
  assumes "validate_conditions category raw = Inr cs" and "category = POLICY_CATEGORY_ALERTING \<longrightarrow> raw \<noteq> JNull"
  shows "validate_conditions category (JArr cs) = Inr cs"
proof -
  have "list_all2 (\<lambda>x z. normalize_condition category x = Inr z) cs cs"
    using validate_conditions_Inr(1) [OF assms(1)] by (simp add: list_all2_same list_all_iff)
  then have "rfold (\<lambda>item cs. rbind (normalize_condition category item) (\<lambda>c. Inr (cs @ [c]))) cs [] = Inr cs"
    by (simp add: rfold_collect)
  with validate_conditions_Inr(2) [OF assms(1)] assms(2) show ?thesis
    by (simp add: validate_conditions_def)
qed

lemma validate_webhook_url_Inr: "validate_webhook_url u = Inr v \<Longrightarrow> v = u"
  by (auto simp: validate_webhook_url_def rbind_Inr_iff split: if_splits)

lemma validate_webhook_stable:
  assumes "validate_webhook_action v = Inr w"
  shows "validate_webhook_action w = Inr w"
proof (cases v)
  case (JObj kvs)
  then consider "w = JObj [(''enabled'', JBool False)]"
    | u where "w = JObj [(''enabled'', JBool True), (''url'', JStr (strip u))]" "strip u \<noteq> []"
        "validate_webhook_url (strip u) = Inr (strip u)"
    using assms
    by (auto simp: validate_webhook_action_def Let_def rbind_Inr_iff split: if_splits json.splits
        dest: validate_webhook_url_Inr)
  then show ?thesis by cases (simp_all add: validate_webhook_action_def)
qed (use assms in \<open>simp_all add: validate_webhook_action_def\<close>)

lemma validate_action_stable:
  assumes "validate_action name v = Inr w"
  shows "validate_action name w = Inr w"
  using assms unfolding validate_action_def
  by (auto simp: int_between_Inr dest: policy_bool_Inr validate_webhook_stable simp del: strip_idem split: if_splits)

lemma rfold_actions:
  assumes "rfold (take_action raw) names acc = Inr out" and "distinct names"
  shows "\<exists>zs. out = acc @ zs \<and> set (map fst zs) \<subseteq> set names \<inter> fst ` set raw \<and>
    list_all (\<lambda>(n, w). validate_action n w = Inr w) zs \<and>
    (\<forall>pre. (\<forall>n \<in> set names. map_of pre n = None) \<longrightarrow> rfold (take_action (pre @ zs)) names acc = Inr out)"
  using assms
proof (induction names arbitrary: acc)
  case (Cons n names)
  show ?case
  proof (cases "map_of raw n")
    case None
    then have "rfold (take_action raw) names acc = Inr out"
      using Cons.prems(1) by (simp add: take_action_def [of raw n acc])
    from Cons.IH [OF this] Cons.prems(2) obtain zs where zs: "out = acc @ zs" "set (map fst zs) \<subseteq> set names \<inter> fst ` set raw"
        "list_all (\<lambda>(n, w). validate_action n w = Inr w) zs"
        "\<forall>pre. (\<forall>n \<in> set names. map_of pre n = None) \<longrightarrow> rfold (take_action (pre @ zs)) names acc = Inr out"
      by auto
    have "map_of (pre @ zs) n = None" if "map_of pre n = None" for pre
      using that zs(2) Cons.prems(2) by (force simp: map_add_def map_of_eq_None_iff split: option.splits)
    with zs show ?thesis
      by (intro exI [of _ zs]) (auto simp: take_action_def [where name = n] simp del: map_of_append)
  next
    case (Some v)
    with Cons.prems obtain w where w: "validate_action n v = Inr w"
        "rfold (take_action raw) names (acc @ [(n, w)]) = Inr out"
      by (auto simp: take_action_def [of raw n acc] rbind_Inr_iff)
    obtain zs where zs: "out = (acc @ [(n, w)]) @ zs" "set (map fst zs) \<subseteq> set names \<inter> fst ` set raw"
        "list_all (\<lambda>(n, w). validate_action n w = Inr w) zs"
        "\<And>pre. (\<forall>n \<in> set names. map_of pre n = None) \<Longrightarrow> rfold (take_action (pre @ zs)) names (acc @ [(n, w)]) = Inr out"
      using Cons.IH [OF w(2)] Cons.prems(2) by auto
    have ww: "validate_action n w = Inr w" using w(1) by (rule validate_action_stable)
    have "rfold (take_action (pre @ (n, w) # zs)) (n # names) acc = Inr out"
      if pre: "\<forall>m \<in> set (n # names). map_of pre m = None" for pre
    proof -
      have "map_of (pre @ (n, w) # zs) n = Some w" using pre by (simp add: map_add_def)
      then have "take_action (pre @ (n, w) # zs) n acc = Inr (acc @ [(n, w)])"
        by (simp add: take_action_def ww del: map_of_append)
      moreover have "rfold (take_action ((pre @ [(n, w)]) @ zs)) names (acc @ [(n, w)]) = Inr out"
        by (rule zs(4)) (use pre Cons.prems(2) in \<open>auto simp: map_add_def\<close>)
      ultimately show ?thesis by simp
    qed
    moreover have "n \<in> fst ` set raw" using Some by (metis domI dom_map_of_conv_image_fst)
    ultimately show ?thesis using zs ww by (intro exI [of _ "(n, w) # zs"]) auto
  qed
qed auto

lemma ACTION_ORDER_distinct: "distinct ACTION_ORDER"
  by (simp add: ACTION_ORDER_def)

lemma validate_actions_Inr:
  assumes "validate_actions category raw = Inr acts"
  obtains allowed where "map_of ACTIONS_BY_CATEGORY category = Some allowed" "acts \<noteq> []"
    "set (map fst acts) \<subseteq> set allowed" "list_all (\<lambda>(n, w). validate_action n w = Inr w) acts"
    "rfold (take_action acts) ACTION_ORDER [] = Inr acts"
proof (cases raw)
  case (JObj kvs)
  with assms obtain allowed where al: "map_of ACTIONS_BY_CATEGORY category = Some allowed"
      and extra: "filter (\<lambda>k. k \<notin> set allowed) (map fst kvs) = []" and ne: "acts \<noteq> []"
      and f: "rfold (take_action kvs) ACTION_ORDER [] = Inr acts"
    unfolding validate_actions_def Let_def
    by (auto simp: rbind_Inr_iff split: if_splits option.splits)
  obtain zs where zs: "acts = [] @ zs" "set (map fst zs) \<subseteq> set ACTION_ORDER \<inter> fst ` set kvs"
      "list_all (\<lambda>(n, w). validate_action n w = Inr w) zs"
      "\<forall>pre. (\<forall>n \<in> set ACTION_ORDER. map_of pre n = None) \<longrightarrow> rfold (take_action (pre @ zs)) ACTION_ORDER [] = Inr acts"
    using rfold_actions [OF f ACTION_ORDER_distinct] by blast
  have "rfold (take_action acts) ACTION_ORDER [] = Inr acts"
    using zs(4) [rule_format, of "[]"] zs(1) by simp
  moreover have "set (map fst acts) \<subseteq> set allowed"
  proof -
    have "fst ` set kvs \<subseteq> set allowed" using extra by (auto simp: filter_empty_conv)
    with zs(1,2) show ?thesis by simp blast
  qed
  ultimately show ?thesis using al ne zs(1,3) that by simp
qed (use assms in \<open>simp_all add: validate_actions_def\<close>)

lemma validate_actions_stable:
  assumes "validate_actions category raw = Inr acts"
  shows "validate_actions category (JObj acts) = Inr acts"
  using assms
proof (rule validate_actions_Inr)
  fix allowed
  assume *: "map_of ACTIONS_BY_CATEGORY category = Some allowed" "acts \<noteq> []"
    "set (map fst acts) \<subseteq> set allowed" "rfold (take_action acts) ACTION_ORDER [] = Inr acts"
  then have "filter (\<lambda>k. k \<notin> set allowed) (map fst acts) = []" by (auto simp: filter_empty_conv)
  with * show ?thesis by (simp add: validate_actions_def Let_def del: set_map)
qed


subsection \<open>A stored rule is well formed\<close>

definition payload_of :: "clean_rule \<Rightarrow> policy_payload" where
  "payload_of c = \<lparr>pp_name = Some (cr_name c), pp_description = Some (cr_description c),
     pp_category = Some (cr_category c), pp_scope_type = Some (cr_scope_type c),
     pp_tenant_id = cr_tenant_id c, pp_site_id = cr_site_id c, pp_network_id = cr_network_id c,
     pp_priority = Some (cr_priority c), pp_conditions = JArr (cr_conditions c), pp_actions = JObj (cr_actions c)\<rparr>"

lemma normalize_payload_Inr:
  assumes "normalize_rule_payload db p = Inr c"
  shows "cr_name c \<noteq> []" "words_of (cr_name c) = cr_name c" "cr_category c \<in> set POLICY_CATEGORIES"
    "cr_category c = str_or (pp_category p)"
    "validate_scope_objects db (cr_scope_type c) (cr_tenant_id c) (cr_site_id c) (cr_network_id c) = Inr ()"
    "validate_conditions (cr_category c) (pp_conditions p) = Inr (cr_conditions c)"
    "validate_actions (cr_category c) (pp_actions p) = Inr (cr_actions c)"
    "validate_tag_exists db (cr_tenant_id c) (cr_conditions c) = Inr ()"
  using assms unfolding normalize_rule_payload_def Let_def
  by (auto simp: rbind_Inr_iff split: if_splits option.splits)

text \<open>The bounds each stored action respects.\<close>

definition action_ok :: "string \<Rightarrow> json \<Rightarrow> bool" where
  "action_ok name v \<longleftrightarrow>
     (if name = ''classification'' then is_str_in v DEVICE_CLASSES
      else if name = ''disposition'' then is_str_in v DISPOSITIONS
      else if name = ''inactive_after_days'' then (case v of JInt d \<Rightarrow> 1 \<le> d \<and> d \<le> 3650 | _ \<Rightarrow> False)
      else if name = ''resolution_clean_scans'' then (case v of JInt n \<Rightarrow> 1 \<le> n \<and> n \<le> 30 | _ \<Rightarrow> False)
      else if name = ''severity'' then is_str_in v ALERT_SEVERITIES
      else if name = ''dashboard'' then (case v of JBool _ \<Rightarrow> True | _ \<Rightarrow> False)
      else if name = ''email'' then is_str_in v ALERT_EMAIL_MODES
      else if name = ''webhook'' then is_obj v \<and> (truthy (jget ''enabled'' v) \<longrightarrow> url_credentials (snd (projr (urlparse (jstr (jget ''url'' v))))) = ([], []))
      else (case v of JInt m \<Rightarrow> 0 \<le> m \<and> m \<le> 43200 | _ \<Rightarrow> False))"

lemma validate_webhook_ok:
  assumes "validate_webhook_action v = Inr w"
  shows "is_obj w \<and> (truthy (jget ''enabled'' w) \<longrightarrow> url_credentials (snd (projr (urlparse (jstr (jget ''url'' w))))) = ([], []))"
proof (cases v)
  case (JObj kvs)
  with assms show ?thesis
    by (auto simp: validate_webhook_action_def validate_webhook_url_def Let_def rbind_Inr_iff split: if_splits json.splits)
qed (use assms in \<open>simp_all add: validate_webhook_action_def\<close>)

lemma validate_action_ok: "validate_action name v = Inr w \<Longrightarrow> action_ok name w"
  unfolding validate_action_def action_ok_def
  by (auto simp: int_between_Inr dest: policy_bool_Inr validate_webhook_ok split: if_splits)

definition rule_well_formed :: "db \<Rightarrow> clean_rule \<Rightarrow> bool" where
  "rule_well_formed db c \<longleftrightarrow> cr_name c \<noteq> [] \<and> cr_actions c \<noteq> [] \<and>
     (\<exists>allowed. map_of ACTIONS_BY_CATEGORY (cr_category c) = Some allowed \<and>
        list_all (\<lambda>(k, v). k \<in> set allowed \<and> action_ok k v) (cr_actions c)) \<and>
     list_all (\<lambda>x. cond_field x \<in> set (allowed_fields (cr_category c)) \<and> cond_op x \<in> set (OPERATORS (cond_field x))) (cr_conditions c) \<and>
     (\<forall>t. cr_tenant_id c = Some t \<longrightarrow> t_get tn_id t (tb_tenants db) \<noteq> None) \<and>
     (\<forall>i. cr_site_id c = Some i \<longrightarrow> (\<exists>s. t_get site_id i (tb_sites db) = Some s \<and> cr_tenant_id c = Some (site_tenant_id s))) \<and>
     (\<forall>i. cr_network_id c = Some i \<longrightarrow> (\<exists>n. t_get net_id i (tb_networks db) = Some n
        \<and> cr_site_id c = Some (net_site_id n) \<and> cr_tenant_id c = Some (net_tenant_id n))) \<and>
     (\<forall>x \<in> set (cr_conditions c). \<forall>t. cond_field x = ''tag'' \<longrightarrow> cr_tenant_id c = Some t \<longrightarrow>
        (\<exists>r \<in> set (t_rows (tb_tags db)). tag_tenant_id r = t \<and> tag_normalized_name r = normalize_tag_name (jstr (cond_value x))))"

lemma scope_objects_ok:
  assumes "validate_scope_objects db scope t s n = Inr ()"
  shows "(\<forall>i. t = Some i \<longrightarrow> t_get tn_id i (tb_tenants db) \<noteq> None) \<and>
    (\<forall>i. s = Some i \<longrightarrow> (\<exists>r. t_get site_id i (tb_sites db) = Some r \<and> t = Some (site_tenant_id r))) \<and>
    (\<forall>i. n = Some i \<longrightarrow> (\<exists>r. t_get net_id i (tb_networks db) = Some r \<and> s = Some (net_site_id r) \<and> t = Some (net_tenant_id r)))"
proof -
  have shape: "validate_scope_shape scope t s n = Inr ()" using assms by (simp add: validate_scope_objects_def rbind_Inr_iff)
  show ?thesis
  proof (cases "scope = POLICY_SCOPE_GLOBAL")
    case True
    with shape show ?thesis by (simp add: validate_scope_shape_def split: if_splits)
  next
    case False
    with shape have t: "t \<noteq> None" by (simp add: validate_scope_shape_def split: if_splits)
    then obtain tid where tid: "t = Some tid" by blast
    have tn: "t_get tn_id tid (tb_tenants db) \<noteq> None"
      using assms False by (auto simp: validate_scope_objects_def rbind_Inr_iff get_tenant_def tid split: option.splits)
    show ?thesis
    proof (cases "scope = POLICY_SCOPE_TENANT")
      case True
      with shape tn tid show ?thesis by (simp add: validate_scope_shape_def split: if_splits)
    next
      case nt: False
      with shape False obtain sid where sid: "s = Some sid" by (auto simp: validate_scope_shape_def split: if_splits)
      obtain site where site: "get_site db sid t = Inr site" "t = Some (site_tenant_id site)"
        using assms False nt sid by (auto simp: validate_scope_objects_def rbind_Inr_iff split: if_splits)
      then have st: "t_get site_id sid (tb_sites db) = Some site" by (auto simp: get_site_def split: option.splits if_splits)
      show ?thesis
      proof (cases "scope = POLICY_SCOPE_SITE")
        case True
        with shape tn tid sid site st show ?thesis by (simp add: validate_scope_shape_def split: if_splits)
      next
        case False
        with \<open>scope \<noteq> POLICY_SCOPE_GLOBAL\<close> nt shape obtain nid where nid: "n = Some nid"
          by (auto simp: validate_scope_shape_def split: if_splits)
        have "\<exists>net. get_network db nid t = Inr net \<and> Some (net_site_id net) = s \<and> Some (net_tenant_id net) = t"
          using assms \<open>scope \<noteq> POLICY_SCOPE_GLOBAL\<close> nt False sid nid site
          by (auto simp: validate_scope_objects_def rbind_Inr_iff split: if_splits)
        then obtain net where "get_network db nid t = Inr net" "s = Some (net_site_id net)" "t = Some (net_tenant_id net)"
          by auto
        with tn tid sid site st nid show ?thesis by (auto dest: get_network_Inr)
      qed
    qed
  qed
qed

lemma tags_exist_ok:
  assumes "validate_tag_exists db (Some t) cs = Inr ()" and "c \<in> set cs" and "cond_field c = ''tag''"
  shows "\<exists>r \<in> set (t_rows (tb_tags db)). tag_tenant_id r = t \<and> tag_normalized_name r = normalize_tag_name (jstr (cond_value c))"
  using assms by (force simp: validate_tag_exists_def Let_def t_select_def filter_empty_conv split: if_splits)

subsection \<open>Properties\<close>

text \<open>C16: every rule draft the service accepts is stored well formed: the name is not empty, the
  actions are non-empty, belong to the category and respect their bounds (inactivity 1 to 3650
  days, resolution 1 to 30 clean scans, suppression at most 43200 minutes, no credentials in a
  webhook URL), the conditions use fields and operators of the category, the scope's tenant, site
  and network exist and contain each other, and every tag named exists in the scope's tenant.\<close>

theorem accepted_rule_is_well_formed:
  assumes "normalize_rule_payload db p = Inr c"
  shows "rule_well_formed db c"
proof -
  note n = normalize_payload_Inr [OF assms]
  obtain allowed where a: "map_of ACTIONS_BY_CATEGORY (cr_category c) = Some allowed" "cr_actions c \<noteq> []"
      "set (map fst (cr_actions c)) \<subseteq> set allowed" "list_all (\<lambda>(n, w). validate_action n w = Inr w) (cr_actions c)"
    using validate_actions_Inr [OF n(7)] by blast
  then have acts: "list_all (\<lambda>(k, v). k \<in> set allowed \<and> action_ok k v) (cr_actions c)"
    by (fastforce simp: list_all_iff dest: validate_action_ok)
  have conds: "list_all (\<lambda>x. cond_field x \<in> set (allowed_fields (cr_category c)) \<and> cond_op x \<in> set (OPERATORS (cond_field x))) (cr_conditions c)"
    using validate_conditions_Inr(1) [OF n(6)] unfolding list_all_iff
    by (metis cond_of_mk(1,2) normalize_condition_Inr)
  show ?thesis
    unfolding rule_well_formed_def
    using n(1) a(1,2) acts conds scope_objects_ok [OF n(5)] n(8) tags_exist_ok by auto
qed

text \<open>C17: normalisation of a rule is idempotent: sending the stored fields of an accepted rule
  again, as an update of a single field does for all the others, yields exactly the same rule.
  (The hypothesis excludes an alerting draft whose conditions are null, see the next property.)\<close>

theorem rule_normalisation_idempotent:
  assumes "normalize_rule_payload db p = Inr c"
    and "cr_category c = POLICY_CATEGORY_ALERTING \<longrightarrow> pp_conditions p \<noteq> JNull"
  shows "normalize_rule_payload db (payload_of c) = Inr c"
proof -
  note n = normalize_payload_Inr [OF assms(1)]
  have "validate_conditions (cr_category c) (JArr (cr_conditions c)) = Inr (cr_conditions c)"
    using validate_conditions_stable [OF n(6)] assms(2) by blast
  moreover have "validate_actions (cr_category c) (JObj (cr_actions c)) = Inr (cr_actions c)"
    by (rule validate_actions_stable [OF n(7)])
  ultimately show ?thesis
    using n by (simp add: normalize_rule_payload_def payload_of_def str_or_def)
qed

definition null_alert_draft :: policy_payload where
  "null_alert_draft = \<lparr>pp_name = Some ''all'', pp_description = None, pp_category = Some POLICY_CATEGORY_ALERTING,
     pp_scope_type = Some POLICY_SCOPE_GLOBAL, pp_tenant_id = None, pp_site_id = None, pp_network_id = None,
     pp_priority = Some 100, pp_conditions = JNull, pp_actions = JObj [(''dashboard'', JBool True)]\<rparr>"

text \<open>an alerting rule must name its event type, and a list of conditions without one is
  rejected; but a draft whose conditions are null (which an update request may send) passes the
  check and is stored with no condition at all, and the stored rule is then rejected by its own
  validation.\<close>

theorem null_conditions_skip_event_type:
  "\<exists>c. normalize_rule_payload db null_alert_draft = Inr c \<and> cr_conditions c = [] \<and>
     normalize_rule_payload db (payload_of c) =
       Inl (policy_error ''Alerting policy requires an explicit event_type condition'')"
proof -
  let ?c = "\<lparr>cr_name = ''all'', cr_description = [], cr_category = POLICY_CATEGORY_ALERTING,
     cr_scope_type = POLICY_SCOPE_GLOBAL, cr_tenant_id = None, cr_site_id = None, cr_network_id = None,
     cr_priority = 100, cr_conditions = [], cr_actions = [(''dashboard'', JBool True)]\<rparr>"
  have w: "words_of ''all'' = ''all''" by code_simp
  have cat: "POLICY_CATEGORY_ALERTING \<in> set POLICY_CATEGORIES" by code_simp
  have sc: "validate_scope_objects db POLICY_SCOPE_GLOBAL None None None = Inr ()"
    by (simp add: validate_scope_objects_def validate_scope_shape_def POLICY_SCOPES_def require_def)
  have act: "validate_actions POLICY_CATEGORY_ALERTING (JObj [(''dashboard'', JBool True)]) = Inr [(''dashboard'', JBool True)]"
    by code_simp
  have "normalize_rule_payload db null_alert_draft = Inr ?c"
    using w cat sc act
    by (simp add: normalize_rule_payload_def null_alert_draft_def str_or_def validate_conditions_def validate_tag_exists_def)
  moreover have "normalize_rule_payload db (payload_of ?c) =
      Inl (policy_error ''Alerting policy requires an explicit event_type condition'')"
    using w cat sc
    by (simp add: normalize_rule_payload_def payload_of_def str_or_def validate_conditions_def)
  ultimately show ?thesis by auto
qed


definition sample_draft :: policy_payload where
  "sample_draft = \<lparr>pp_name = Some '' Mark  servers '', pp_description = None,
     pp_category = Some POLICY_CATEGORY_ASSET_HANDLING, pp_scope_type = Some POLICY_SCOPE_SITE,
     pp_tenant_id = Some 1, pp_site_id = Some 1, pp_network_id = None, pp_priority = Some 5,
     pp_conditions = JArr [mk_cond ''hostname'' ''glob'' (JStr '' srv*'')],
     pp_actions = JObj [(''classification'', JStr ''Server'')]\<rparr>"

definition sample_clean :: clean_rule where
  "sample_clean = \<lparr>cr_name = ''Mark servers'', cr_description = [],
     cr_category = POLICY_CATEGORY_ASSET_HANDLING, cr_scope_type = POLICY_SCOPE_SITE,
     cr_tenant_id = Some 1, cr_site_id = Some 1, cr_network_id = None, cr_priority = 5,
     cr_conditions = [mk_cond ''hostname'' ''glob'' (JStr ''srv*'')],
     cr_actions = [(''classification'', JStr ''Server'')]\<rparr>"

lemma sample_draft_accepted: "normalize_rule_payload small_world sample_draft = Inr sample_clean"
  by code_simp

theorem accepted_rule_is_well_formed_witness: "rule_well_formed small_world sample_clean"
  by (rule accepted_rule_is_well_formed [OF sample_draft_accepted])

theorem rule_normalisation_idempotent_witness:
  "normalize_rule_payload small_world (payload_of sample_clean) = Inr sample_clean"
  by (rule rule_normalisation_idempotent [OF sample_draft_accepted]) (simp add: sample_clean_def)

end
