(* ===== verification/Policy_Engine.thy ===== *)
theory Policy_Engine
  imports Policy_Rules "HOL-Library.AList"
begin

section \<open>Evaluation of policy rules\<close>

text \<open>
  \<open>PolicyResolver.evaluate\<close> of \<^verbatim>\<open>backend/app/policy.py\<close>: every rule of a category is
  considered in id order; the rules that are in force, in scope and whose conditions all match
  compete for each action, and the most specific scope wins, then the higher priority, then the
  smaller id. The resolver's per-request caches of rules and settings are the arguments
  \<open>rules\<close> and \<open>db\<close>: nothing writes those tables while a resolver lives.
\<close>

record policy_context =
  pc_tenant_id :: "nat option"
  pc_site_id :: "nat option"
  pc_network_id :: "nat option"
  pc_asset_id :: "nat option"
  pc_asset_finding_id :: "nat option"
  pc_hostname :: string
  pc_tags :: "string list"
  pc_tag_names :: "string list"
  pc_criticality :: string
  pc_is_expected :: bool
  pc_observed_ports :: "int list"
  pc_severity :: "string option"
  pc_priority :: "string option"
  pc_has_cve :: "bool option"
  pc_current_classification :: string
  pc_current_disposition :: string
  pc_inference_classification :: "string option"
  pc_event_type :: "string option"
  pc_source :: "string option"
  pc_treatment_state :: "string option"
  pc_domain_event_id :: "nat option"

definition default_context :: policy_context where
  "default_context = \<lparr>pc_tenant_id = None, pc_site_id = None, pc_network_id = None, pc_asset_id = None,
     pc_asset_finding_id = None, pc_hostname = [], pc_tags = [], pc_tag_names = [],
     pc_criticality = ''normal'', pc_is_expected = False, pc_observed_ports = [], pc_severity = None,
     pc_priority = None, pc_has_cve = None, pc_current_classification = ''Unknown'',
     pc_current_disposition = ''unreviewed'', pc_inference_classification = None, pc_event_type = None,
     pc_source = None, pc_treatment_state = None, pc_domain_event_id = None\<rparr>"

record condition_explanation =
  ce_field :: string
  ce_op :: string
  ce_value :: json
  ce_matched :: bool
  ce_detail :: string

record action_explanation =
  ae_action :: string
  ae_value :: json
  ae_source :: string
  ae_rule_id :: "nat option"
  ae_rule_name :: "string option"
  ae_revision :: "int option"
  ae_scope_type :: "string option"
  ae_tenant_id :: "nat option"
  ae_site_id :: "nat option"
  ae_network_id :: "nat option"
  ae_priority :: "int option"
  ae_matched_conditions :: "condition_explanation list"
  ae_overrode :: json

record considered_rule =
  con_rule_id :: nat
  con_name :: string
  con_scope_type :: string
  con_priority :: int
  con_revision :: int
  con_applicable :: bool
  con_matched :: bool
  con_enabled :: bool
  con_archived :: bool
  con_reason :: string
  con_conditions :: "condition_explanation list"

record evaluation_result =
  res_category :: string
  res_tenant_id :: "nat option"
  res_site_id :: "nat option"
  res_network_id :: "nat option"
  res_asset_id :: "nat option"
  res_asset_finding_id :: "nat option"
  res_effective :: "(string \<times> json) list"
  res_actions :: "(string \<times> action_explanation) list"
  res_matched_rules :: "json list"
  res_considered :: "considered_rule list"

subsection \<open>Scope\<close>

definition scope_applies :: "policy_rule \<Rightarrow> policy_context \<Rightarrow> bool \<times> string" where
  "scope_applies r c =
     (if pr_scope_type r = POLICY_SCOPE_GLOBAL then (True, ''global'')
      else if pr_scope_type r = POLICY_SCOPE_TENANT then
        (if pc_tenant_id c = None then (False, ''no tenant context'')
         else if pc_tenant_id c \<noteq> pr_tenant_id r then (False, ''tenant does not match'')
         else (True, ''tenant''))
      else if pr_scope_type r = POLICY_SCOPE_SITE then
        (if pc_site_id c = None then (False, ''no site context'')
         else if pc_site_id c \<noteq> pr_site_id r \<or> pc_tenant_id c \<noteq> pr_tenant_id r then (False, ''site does not match'')
         else (True, ''site''))
      else if pc_network_id c = None then (False, ''no network context'')
      else if pc_network_id c \<noteq> pr_network_id r \<or> pc_site_id c \<noteq> pr_site_id r \<or> pc_tenant_id c \<noteq> pr_tenant_id r
        then (False, ''network does not match'')
      else (True, ''network''))"

subsection \<open>Conditions\<close>

text \<open>The shell patterns of \<^verbatim>\<open>fnmatch.fnmatch\<close>: \<open>*\<close>, \<open>?\<close> and character sets with ranges.
  A bracket that is never closed is literal; the first character of a set may be \<open>]\<close>.\<close>

datatype glob_token = GAny | GStar | GChar char | GSet bool "(char \<times> char) list"

fun set_ranges :: "string \<Rightarrow> (char \<times> char) list" where
  "set_ranges (a # h # b # rest) =
     (if h = CHR ''-'' then (a, b) # set_ranges rest else (a, a) # set_ranges (h # b # rest))"
| "set_ranges (a # rest) = (a, a) # set_ranges rest"
| "set_ranges [] = []"

definition bracket_skip :: "string \<Rightarrow> nat" where
  \<comment> \<open>a leading \<open>!\<close> and a closing bracket right after it belong to the set\<close>
  "bracket_skip s = (case s of [] \<Rightarrow> 0
     | c # cs \<Rightarrow> if c = CHR ''!'' then (if starts_with '']'' cs then 2 else 1)
         else if c = CHR '']'' then 1 else 0)"

definition bracket_body :: "string \<Rightarrow> (string \<times> string) option" where
  \<comment> \<open>the text after \<open>[\<close> split at the closing bracket\<close>
  "bracket_body s = (let k = bracket_skip s; rest = dropWhile (\<lambda>c. c \<noteq> CHR '']'') (drop k s) in
     case rest of [] \<Rightarrow> None
     | _ # r \<Rightarrow> Some (take k s @ takeWhile (\<lambda>c. c \<noteq> CHR '']'') (drop k s), r))"

lemma bracket_body_shorter: "bracket_body s = Some (b, r) \<Longrightarrow> length r < length s"
proof -
  assume "bracket_body s = Some (b, r)"
  then obtain x where "dropWhile (\<lambda>c. c \<noteq> CHR '']'') (drop (bracket_skip s) s) = x # r"
    by (auto simp: bracket_body_def Let_def split: list.splits)
  then have "length (x # r) \<le> length (drop (bracket_skip s) s)" by (metis length_dropWhile_le)
  then show ?thesis by simp
qed

definition glob_token :: "char \<Rightarrow> string \<Rightarrow> glob_token \<times> string" where
  \<comment> \<open>the first token of a pattern and what is left of it\<close>
  "glob_token c cs =
     (if c = CHR ''*'' then (GStar, cs)
      else if c = CHR ''?'' then (GAny, cs)
      else if c = CHR ''['' then (case bracket_body cs of
          None \<Rightarrow> (GChar c, cs)
        | Some (body, rest) \<Rightarrow>
            (if body \<noteq> [] \<and> hd body = CHR ''!'' then GSet False (set_ranges (tl body))
             else GSet True (set_ranges body), rest))
      else (GChar c, cs))"

lemma glob_token_shorter: "length (snd (glob_token c cs)) \<le> length cs"
proof (cases "bracket_body cs")
  case (Some br)
  then show ?thesis using bracket_body_shorter [of cs "fst br" "snd br"]
    by (cases br) (simp add: glob_token_def)
qed (simp add: glob_token_def)

function glob_tokens :: "string \<Rightarrow> glob_token list" where
  "glob_tokens [] = []"
| "glob_tokens (c # cs) = fst (glob_token c cs) # glob_tokens (snd (glob_token c cs))"
  by pat_completeness auto
termination
  by (relation "measure length") (simp_all add: glob_token_shorter less_Suc_eq_le)

definition in_ranges :: "char \<Rightarrow> (char \<times> char) list \<Rightarrow> bool" where
  "in_ranges c rs = list_ex (\<lambda>(a, b). of_char a \<le> (of_char c :: nat) \<and> of_char c \<le> (of_char b :: nat)) rs"

fun glob_match :: "glob_token list \<Rightarrow> string \<Rightarrow> bool" where
  "glob_match [] s = (s = [])"
| "glob_match (GStar # ts) [] = glob_match ts []"
| "glob_match (GStar # ts) (c # cs) = (glob_match ts (c # cs) \<or> glob_match (GStar # ts) cs)"
| "glob_match (GAny # ts) [] = False"
| "glob_match (GAny # ts) (c # cs) = glob_match ts cs"
| "glob_match (GChar d # ts) [] = False"
| "glob_match (GChar d # ts) (c # cs) = (c = d \<and> glob_match ts cs)"
| "glob_match (GSet pos rs # ts) [] = False"
| "glob_match (GSet pos rs # ts) (c # cs) = (in_ranges c rs = pos \<and> glob_match ts cs)"

definition fnmatch :: "string \<Rightarrow> string \<Rightarrow> bool" where
  "fnmatch name pat = glob_match (glob_tokens pat) name"

definition py_bool :: "bool \<Rightarrow> string" where "py_bool b = (if b then ''True'' else ''False'')"

definition or_text :: "string option \<Rightarrow> string \<Rightarrow> string" where
  \<comment> \<open>\<open>s or "none"\<close> inside an f-string\<close>
  "or_text s d = (case s of None \<Rightarrow> d | Some x \<Rightarrow> if x = [] then d else x)"

definition match_fact :: "string \<Rightarrow> string \<Rightarrow> json \<Rightarrow> policy_context \<Rightarrow> bool \<times> string" where
  \<comment> \<open>\<open>matched\<close> and \<open>detail\<close> of \<open>_match_condition\<close>\<close>
  "match_fact f p v c =
     (if f = ''hostname'' then
        (let hostname = normalize_hostname (pc_hostname c); expected = py_lower (jstr v) in
         if hostname = [] then (False, ''no hostname'')
         else if p = ''equals'' then
           (let m = (hostname = normalize_hostname expected)
            in (m, ''hostname '' @ (if m then ''equals'' else ''does not equal'') @ '' '' @ jstr v))
         else (let m = fnmatch hostname expected
            in (m, ''hostname '' @ (if m then ''matched'' else ''did not match'') @ '' '' @ jstr v)))
      else if f = ''tag'' then
        (let has = normalize_tag_name (jstr v) \<in> set (pc_tags c)
         in (if p = ''has'' then has else \<not> has, ''tag '' @ (if has then ''has'' else ''lacks'') @ '' '' @ jstr v))
      else if f = ''criticality'' then (JStr (pc_criticality c) = v, ''criticality is '' @ pc_criticality c)
      else if f = ''is_expected'' then (pc_is_expected c = truthy v, ''is_expected is '' @ py_bool (pc_is_expected c))
      else if f = ''observed_port'' then
        (case json_int v of None \<Rightarrow> False | Some i \<Rightarrow> i \<in> set (pc_observed_ports c),
         ''observed ports ['' @ join_with '', '' (map show_int (sort (dedup (pc_observed_ports c)))) @ '']'')
      else if f = ''severity'' then
        (JStr (py_lower (str_or (pc_severity c))) = v, ''severity is '' @ or_text (pc_severity c) ''unknown'')
      else if f = ''priority'' then
        (JStr (py_lower (str_or (pc_priority c))) = v, ''priority is '' @ or_text (pc_priority c) ''none'')
      else if f = ''has_cve'' then
        ((pc_has_cve c = Some True) = truthy v, ''has_cve is '' @ py_bool (pc_has_cve c = Some True))
      else if f = ''event_type'' then (jopt JStr (pc_event_type c) = v, ''event_type is '' @ or_text (pc_event_type c) ''none'')
      else if f = ''classification'' then
        (JStr (pc_current_classification c) = v, ''classification is '' @ pc_current_classification c)
      else if f = ''disposition'' then (JStr (pc_current_disposition c) = v, ''disposition is '' @ pc_current_disposition c)
      else if f = ''treatment_state'' then
        (jopt JStr (pc_treatment_state c) = v, ''treatment_state is '' @ or_text (pc_treatment_state c) ''none'')
      else if f = ''source'' then (jopt JStr (pc_source c) = v, ''source is '' @ or_text (pc_source c) ''none'')
      else (False, []))"

definition match_condition :: "json \<Rightarrow> policy_context \<Rightarrow> condition_explanation" where
  "match_condition cond c =
     (let f = cond_field cond; p = cond_op cond; v = cond_value cond; (m, d) = match_fact f p v c
      in \<lparr>ce_field = f, ce_op = p, ce_value = v, ce_matched = m, ce_detail = d\<rparr>)"

subsection \<open>Competition of rules\<close>

definition rule_sort_key :: "policy_rule \<Rightarrow> nat \<times> int \<times> int" where
  "rule_sort_key r = (SCOPE_RANK (pr_scope_type r), pr_priority r, - int (pr_id r))"

definition rule_summary :: "policy_rule \<Rightarrow> json" where
  "rule_summary r = JObj [(''id'', jnat (pr_id r)), (''name'', JStr (pr_name r)), (''category'', JStr (pr_category r)),
     (''scope_type'', JStr (pr_scope_type r)), (''tenant_id'', jopt jnat (pr_tenant_id r)),
     (''site_id'', jopt jnat (pr_site_id r)), (''network_id'', jopt jnat (pr_network_id r)),
     (''priority'', JInt (pr_priority r)), (''revision'', JInt (pr_revision r)),
     (''enabled'', JBool (pr_enabled r)), (''archived'', JBool (pr_archived_at r \<noteq> None))]"

definition overrode_payload :: "action_explanation option \<Rightarrow> json" where
  "overrode_payload prev = (case prev of None \<Rightarrow> JNull
     | Some a \<Rightarrow> if ae_source a \<noteq> ''policy'' then JNull
        else JObj [(''rule_id'', jopt jnat (ae_rule_id a)), (''rule_name'', jopt JStr (ae_rule_name a)),
          (''scope_type'', jopt JStr (ae_scope_type a)), (''priority'', jopt JInt (ae_priority a)),
          (''revision'', jopt JInt (ae_revision a)), (''value'', ae_value a)])"

definition fallback_action :: "string \<Rightarrow> json \<Rightarrow> string \<Rightarrow> action_explanation" where
  "fallback_action action v source = \<lparr>ae_action = action, ae_value = v, ae_source = source, ae_rule_id = None,
     ae_rule_name = None, ae_revision = None, ae_scope_type = None, ae_tenant_id = None, ae_site_id = None,
     ae_network_id = None, ae_priority = None, ae_matched_conditions = [], ae_overrode = JNull\<rparr>"

definition policy_action :: "policy_rule \<Rightarrow> string \<Rightarrow> json \<Rightarrow> condition_explanation list
    \<Rightarrow> action_explanation option \<Rightarrow> action_explanation" where
  "policy_action r action v expl current = \<lparr>ae_action = action, ae_value = v, ae_source = ''policy'',
     ae_rule_id = Some (pr_id r), ae_rule_name = Some (pr_name r), ae_revision = Some (pr_revision r),
     ae_scope_type = Some (pr_scope_type r), ae_tenant_id = pr_tenant_id r, ae_site_id = pr_site_id r,
     ae_network_id = pr_network_id r, ae_priority = Some (pr_priority r), ae_matched_conditions = expl,
     ae_overrode = overrode_payload current\<rparr>"

definition current_key :: "action_explanation \<Rightarrow> nat \<times> int \<times> int" where
  "current_key a = (SCOPE_RANK (or_text (ae_scope_type a) POLICY_SCOPE_GLOBAL),
     case ae_priority a of None \<Rightarrow> 0 | Some p \<Rightarrow> p,
     - (case ae_rule_id a of None \<Rightarrow> 0 | Some i \<Rightarrow> int i))"

type_synonym winners = "(string \<times> action_explanation) list"

definition put_winner :: "string \<Rightarrow> action_explanation \<Rightarrow> winners \<Rightarrow> winners" where
  "put_winner action a ws = AList.update action a ws"

definition compete :: "policy_rule \<Rightarrow> condition_explanation list \<Rightarrow> string \<times> json \<Rightarrow> winners \<Rightarrow> winners" where
  "compete r expl av ws =
     (let current = map_of ws (fst av); candidate = policy_action r (fst av) (snd av) expl current
      in case current of
           None \<Rightarrow> put_winner (fst av) candidate ws
         | Some a \<Rightarrow> if current_key a < rule_sort_key r then put_winner (fst av) candidate ws else ws)"

definition rule_conditions :: "policy_rule \<Rightarrow> json list" where
  "rule_conditions r = as_arr (pr_conditions r)"

definition rule_actions :: "policy_rule \<Rightarrow> (string \<times> json) list" where
  "rule_actions r = obj_items (pr_actions r)"

definition explanations :: "policy_rule \<Rightarrow> policy_context \<Rightarrow> condition_explanation list" where
  "explanations r c = map (\<lambda>x. match_condition x c) (rule_conditions r)"

definition rule_matches :: "policy_rule \<Rightarrow> policy_context \<Rightarrow> bool" where
  "rule_matches r c \<longleftrightarrow> fst (scope_applies r c) \<and> list_all ce_matched (explanations r c)"

definition skipped_rule :: "policy_rule \<Rightarrow> string \<Rightarrow> considered_rule" where
  "skipped_rule r reason = \<lparr>con_rule_id = pr_id r, con_name = pr_name r, con_scope_type = pr_scope_type r,
     con_priority = pr_priority r, con_revision = pr_revision r, con_applicable = False, con_matched = False,
     con_enabled = (if reason = ''archived'' then pr_enabled r else False),
     con_archived = (reason = ''archived''), con_reason = reason, con_conditions = []\<rparr>"

definition match_reason :: "policy_rule \<Rightarrow> policy_context \<Rightarrow> string" where
  "match_reason r c =
     (if \<not> fst (scope_applies r c) then snd (scope_applies r c)
      else if rule_matches r c then ''matched''
      else (case first_match (\<lambda>e. \<not> ce_matched e) (explanations r c) of
          Some e \<Rightarrow> ce_detail e | None \<Rightarrow> ''conditions not matched''))"

definition considered_entry :: "policy_rule \<Rightarrow> policy_context \<Rightarrow> considered_rule" where
  "considered_entry r c = \<lparr>con_rule_id = pr_id r, con_name = pr_name r, con_scope_type = pr_scope_type r,
     con_priority = pr_priority r, con_revision = pr_revision r, con_applicable = fst (scope_applies r c),
     con_matched = rule_matches r c, con_enabled = True, con_archived = False,
     con_reason = match_reason r c, con_conditions = explanations r c\<rparr>"

record eval_state =
  evs_considered :: "considered_rule list"
  evs_winners :: winners
  evs_matched :: "json list"

definition evaluate_rule :: "policy_context \<Rightarrow> policy_rule \<Rightarrow> eval_state \<Rightarrow> eval_state" where
  "evaluate_rule c r s =
     (if pr_archived_at r \<noteq> None then s\<lparr>evs_considered := evs_considered s @ [skipped_rule r ''archived'']\<rparr>
      else if \<not> pr_enabled r then s\<lparr>evs_considered := evs_considered s @ [skipped_rule r ''disabled'']\<rparr>
      else let s1 = s\<lparr>evs_considered := evs_considered s @ [considered_entry r c]\<rparr> in
        if \<not> rule_matches r c then s1
        else s1\<lparr>evs_matched := evs_matched s @ [rule_summary r],
                evs_winners := fold (compete r (explanations r c)) (rule_actions r) (evs_winners s)\<rparr>)"

definition evaluate_rules :: "policy_context \<Rightarrow> policy_rule list \<Rightarrow> eval_state" where
  "evaluate_rules c rules = fold (evaluate_rule c) rules
     \<lparr>evs_considered = [], evs_winners = [], evs_matched = []\<rparr>"

subsection \<open>Fallbacks and the result\<close>

abbreviation DEFAULT_ASSET_INACTIVE_DAYS :: int where "DEFAULT_ASSET_INACTIVE_DAYS \<equiv> 30"

definition fallback_inactive_days :: "db \<Rightarrow> int" where
  "fallback_inactive_days db = (case map_of (get_settings db) ''asset_inactive_days'' of
     None \<Rightarrow> max 1 DEFAULT_ASSET_INACTIVE_DAYS
   | Some raw \<Rightarrow> (case json_int raw of None \<Rightarrow> DEFAULT_ASSET_INACTIVE_DAYS | Some i \<Rightarrow> max 1 i))"

definition fallback_resolution_clean_scans :: "db \<Rightarrow> int" where
  "fallback_resolution_clean_scans db = max 1 (case map_of (get_settings db) ''finding_resolution_clean_scans'' of
     None \<Rightarrow> DEFAULT_FINDING_RESOLUTION_CLEAN_SCANS
   | Some raw \<Rightarrow> (case json_int raw of None \<Rightarrow> DEFAULT_FINDING_RESOLUTION_CLEAN_SCANS | Some i \<Rightarrow> i))"

definition load_rules :: "db \<Rightarrow> string \<Rightarrow> policy_rule list" where
  "load_rules db category = sorted_by pr_id (t_select (\<lambda>r. pr_category r = category) (tb_policy_rules db))"

definition winner_or :: "winners \<Rightarrow> string \<Rightarrow> json \<Rightarrow> string \<Rightarrow> action_explanation" where
  "winner_or ws action v source = (case map_of ws action of Some a \<Rightarrow> a | None \<Rightarrow> fallback_action action v source)"

definition class_fallback :: "policy_context \<Rightarrow> string \<times> string" where
  "class_fallback c = (let inferred = str_or (pc_inference_classification c) in
     if inferred \<noteq> [] then (inferred, ''classification_inference'')
     else (if pc_current_classification c \<noteq> [] then pc_current_classification c else ''Unknown'',
           ''existing_classification''))"

definition alert_entry :: "winners \<Rightarrow> (string \<times> json) list \<Rightarrow> string \<Rightarrow> (string \<times> action_explanation) option" where
  "alert_entry ws defaults name = (case map_of ws name of
       Some a \<Rightarrow> Some (name, a)
     | None \<Rightarrow> map_option (\<lambda>v. (name, fallback_action name v ''system_default'')) (map_of defaults name))"

definition effective_actions :: "db \<Rightarrow> policy_context \<Rightarrow> string \<Rightarrow> winners \<Rightarrow> app_error + winners" where
  "effective_actions db c category ws =
     (if category = POLICY_CATEGORY_ASSET_HANDLING then
        Inr [(''classification'', winner_or ws ''classification'' (JStr (fst (class_fallback c))) (snd (class_fallback c))),
                (''disposition'', winner_or ws ''disposition''
                   (JStr (if pc_current_disposition c \<noteq> [] then pc_current_disposition c else ''unreviewed''))
                   ''existing_disposition'')]
      else if category = POLICY_CATEGORY_ASSET_INACTIVITY then
        Inr [(''inactive_after_days'', winner_or ws ''inactive_after_days'' (JInt (fallback_inactive_days db)) ''global_setting'')]
      else if category = POLICY_CATEGORY_FINDING_LIFECYCLE then
        Inr [(''resolution_clean_scans'', winner_or ws ''resolution_clean_scans''
               (JInt (fallback_resolution_clean_scans db)) ''global_setting'')]
      else if category = POLICY_CATEGORY_ALERTING then
        let defaults = system_default_alert_actions (str_or (pc_event_type c)) in
        Inr (List.map_filter (alert_entry ws defaults)
           [''severity'', ''dashboard'', ''email'', ''webhook'', ''suppress_for_minutes''])
      else Inl (policy_error (''Unsupported category: '' @ category)))"

definition evaluate_with :: "db \<Rightarrow> policy_rule list \<Rightarrow> policy_context \<Rightarrow> string \<Rightarrow> app_error + evaluation_result" where
  "evaluate_with db rules c category =
     (let s = evaluate_rules c rules in
      rbind (effective_actions db c category (evs_winners s)) (\<lambda>actions.
        Inr \<lparr>res_category = category, res_tenant_id = pc_tenant_id c, res_site_id = pc_site_id c,
          res_network_id = pc_network_id c, res_asset_id = pc_asset_id c,
          res_asset_finding_id = pc_asset_finding_id c,
          res_effective = map (\<lambda>(k, a). (k, ae_value a)) actions, res_actions = actions,
          res_matched_rules = evs_matched s, res_considered = evs_considered s\<rparr>))"

definition evaluate :: "db \<Rightarrow> policy_context \<Rightarrow> string \<Rightarrow> app_error + evaluation_result" where
  "evaluate db c category = evaluate_with db (load_rules db category) c category"


subsection \<open>Which rule wins an action\<close>

definition in_force :: "policy_rule \<Rightarrow> bool" where
  "in_force r \<longleftrightarrow> pr_archived_at r = None \<and> pr_enabled r"

definition carriers :: "policy_context \<Rightarrow> string \<Rightarrow> policy_rule list \<Rightarrow> policy_rule list" where
  "carriers c action rules =
     filter (\<lambda>r. in_force r \<and> rule_matches r c \<and> map_of (rule_actions r) action \<noteq> None) rules"

definition valid_scope :: "policy_rule \<Rightarrow> bool" where
  "valid_scope r \<longleftrightarrow> pr_scope_type r \<in> set POLICY_SCOPES"

lemma current_key_policy: "valid_scope r \<Longrightarrow> current_key (policy_action r n v ex cur) = rule_sort_key r"
  by (auto simp: current_key_def policy_action_def rule_sort_key_def or_text_def valid_scope_def POLICY_SCOPES_def)

lemma put_winner_map_of: "map_of (put_winner n a ws) m = (if m = n then Some a else map_of ws m)"
  by (simp add: put_winner_def AList.update_conv')

lemma compete_other: "fst av \<noteq> n \<Longrightarrow> map_of (compete r ex av ws) n = map_of ws n"
  by (auto simp: compete_def Let_def put_winner_map_of split: option.splits)

lemma compete_same: "map_of (compete r ex (n, v) ws) n =
    (case map_of ws n of None \<Rightarrow> Some (policy_action r n v ex None)
     | Some a \<Rightarrow> if current_key a < rule_sort_key r then Some (policy_action r n v ex (Some a)) else Some a)"
  by (auto simp: compete_def Let_def put_winner_map_of split: option.splits)

lemma compete_settled:
  assumes "\<not> current_key a < rule_sort_key r" "map_of ws n = Some a"
  shows "map_of (fold (compete r ex) acts ws) n = Some a"
  using assms(2)
proof (induction acts arbitrary: ws)
  case (Cons av acts)
  obtain m v where av: "av = (m, v)" by force
  have "map_of (compete r ex av ws) n = Some a"
    using Cons.prems assms(1) by (cases "m = n") (simp_all add: av compete_same compete_other)
  then show ?case using Cons.IH by simp
qed simp

lemma compete_rule:
  assumes "valid_scope r"
  shows "map_of (fold (compete r ex) acts ws) n =
    (case map_of acts n of None \<Rightarrow> map_of ws n
     | Some v \<Rightarrow> (case map_of ws n of None \<Rightarrow> Some (policy_action r n v ex None)
         | Some a \<Rightarrow> if current_key a < rule_sort_key r then Some (policy_action r n v ex (Some a)) else Some a))"
proof (induction acts arbitrary: ws)
  case (Cons av acts)
  obtain m v where av: "av = (m, v)" by force
  show ?case
  proof (cases "m = n")
    case True
    let ?ws = "compete r ex av ws"
    obtain a where a: "map_of ?ws n = Some a" "\<not> current_key a < rule_sort_key r"
        "(case map_of ws n of None \<Rightarrow> Some (policy_action r n v ex None)
         | Some b \<Rightarrow> if current_key b < rule_sort_key r then Some (policy_action r n v ex (Some b)) else Some b) = Some a"
      using current_key_policy [OF assms]
      by (cases "map_of ws n"; cases "current_key (the (map_of ws n)) < rule_sort_key r")
         (auto simp: av True compete_same intro: that)
    have "map_of (fold (compete r ex) acts ?ws) n = Some a" using a(2,1) by (rule compete_settled)
    with a(3) show ?thesis by (simp add: av True)
  next
    case False
    then have c: "map_of (compete r ex av ws) n = map_of ws n" by (simp add: av compete_other)
    show ?thesis using Cons.IH [of "compete r ex av ws", unfolded c] False by (simp add: av)
  qed
qed simp

lemma newest_by_snoc: "newest_by k (xs @ [x]) =
    (case newest_by k xs of None \<Rightarrow> Some x | Some m \<Rightarrow> Some (if k m < k x then x else m))"
  by (cases xs) (auto simp: newest_by_def)

definition won_by :: "policy_context \<Rightarrow> string \<Rightarrow> policy_rule \<Rightarrow> action_explanation \<Rightarrow> bool" where
  "won_by c n r a \<longleftrightarrow> (\<exists>cur. a = policy_action r n (the (map_of (rule_actions r) n)) (explanations r c) cur)"

lemma evaluate_rules_snoc: "evaluate_rules c (rules @ [r]) = evaluate_rule c r (evaluate_rules c rules)"
  by (simp add: evaluate_rules_def)

lemma winners_idle: "\<not> (in_force r \<and> rule_matches r c) \<Longrightarrow>
    evs_winners (evaluate_rule c r s) = evs_winners s \<and> evs_matched (evaluate_rule c r s) = evs_matched s"
  by (auto simp: evaluate_rule_def in_force_def Let_def)

lemma winners_live: "in_force r \<Longrightarrow> rule_matches r c \<Longrightarrow>
    evs_winners (evaluate_rule c r s) = fold (compete r (explanations r c)) (rule_actions r) (evs_winners s)"
  by (auto simp: evaluate_rule_def in_force_def Let_def)

lemma carriers_snoc: "carriers c n (rules @ [r]) =
    carriers c n rules @ (if in_force r \<and> rule_matches r c \<and> map_of (rule_actions r) n \<noteq> None then [r] else [])"
  by (simp add: carriers_def)

text \<open>The winner of an action is the greatest carrier in the order of scope rank, priority and
  descending id: the loop computes \<open>max(carriers, key = sort_key)\<close>.\<close>

lemma evaluate_winner:
  assumes "list_all valid_scope rules"
  shows "case newest_by rule_sort_key (carriers c n rules) of
      None \<Rightarrow> map_of (evs_winners (evaluate_rules c rules)) n = None
    | Some r \<Rightarrow> (\<exists>a. map_of (evs_winners (evaluate_rules c rules)) n = Some a \<and> won_by c n r a)"
  using assms
proof (induction rules rule: rev_induct)
  case Nil
  then show ?case by (simp add: carriers_def evaluate_rules_def newest_by_def)
next
  case (snoc r rules)
  note IH = snoc.IH
  have v: "valid_scope r" "list_all valid_scope rules" using snoc.prems by auto
  let ?ws = "evs_winners (evaluate_rules c rules)"
  show ?case
  proof (cases "in_force r \<and> rule_matches r c \<and> map_of (rule_actions r) n \<noteq> None")
    case False
    then have "map_of (evs_winners (evaluate_rules c (rules @ [r]))) n = map_of ?ws n"
      using winners_idle [of r c] winners_live [of r c]
      by (cases "in_force r \<and> rule_matches r c") (auto simp: evaluate_rules_snoc compete_rule v(1))
    moreover have "carriers c n (rules @ [r]) = carriers c n rules" using False by (auto simp: carriers_snoc)
    ultimately show ?thesis using IH [OF v(2)] by (simp only:)
  next
    case True
    then obtain val where val: "map_of (rule_actions r) n = Some val" by blast
    have ws: "map_of (evs_winners (evaluate_rules c (rules @ [r]))) n =
      (case map_of ?ws n of None \<Rightarrow> Some (policy_action r n val (explanations r c) None)
       | Some a \<Rightarrow> if current_key a < rule_sort_key r then Some (policy_action r n val (explanations r c) (Some a)) else Some a)"
      using True by (simp add: evaluate_rules_snoc winners_live compete_rule [OF v(1)] val)
    show ?thesis
    proof (cases "newest_by rule_sort_key (carriers c n rules)")
      case None
      then have "map_of ?ws n = None" using IH [OF v(2)] by (simp only: option.case)
      then have "map_of (evs_winners (evaluate_rules c (rules @ [r]))) n = Some (policy_action r n val (explanations r c) None)"
        using ws by simp
      moreover have "newest_by rule_sort_key (carriers c n (rules @ [r])) = Some r"
        using None True by (simp add: carriers_snoc newest_by_snoc del: newest_by_None)
      ultimately show ?thesis using val by (auto simp: won_by_def)
    next
      case (Some m)
      then obtain a where a: "map_of ?ws n = Some a" "won_by c n m a"
        using IH [OF v(2)] by auto
      have "m \<in> set rules" using newest_by_Some [OF Some] by (auto simp: carriers_def)
      then have "valid_scope m" using v(2) by (simp add: list_all_iff)
      then have key: "current_key a = rule_sort_key m" using a(2) by (auto simp: won_by_def current_key_policy)
      have n: "newest_by rule_sort_key (carriers c n (rules @ [r])) =
          Some (if rule_sort_key m < rule_sort_key r then r else m)"
        using True by (simp add: carriers_snoc newest_by_snoc Some)
      show ?thesis
        using ws a key val unfolding n by (auto simp: won_by_def)
    qed
  qed
qed


lemma newest_by_max:
  assumes "newest_by k xs = Some m" "x \<in> set xs" "\<And>y z. y \<in> set xs \<Longrightarrow> z \<in> set xs \<Longrightarrow> k y = k z \<Longrightarrow> y = z"
  shows "x = m \<or> k x < k m"
  using newest_by_Some [OF assms(1)] assms(2,3) by (metis order.not_eq_order_implies_strict)

lemma policy_action_source [simp]: "ae_source (policy_action r n v ex cur) = ''policy''"
  "ae_value (policy_action r n v ex cur) = v" "ae_rule_id (policy_action r n v ex cur) = Some (pr_id r)"
  "ae_matched_conditions (policy_action r n v ex cur) = ex"
  by (simp_all add: policy_action_def)

lemma fallback_source [simp]: "ae_source (fallback_action n v src) = src" "ae_value (fallback_action n v src) = v"
  "ae_rule_id (fallback_action n v src) = None"
  by (simp_all add: fallback_action_def)

text \<open>Every entry of the result is the winner of its action, or a fallback when it has none.\<close>

lemma map_filter_mem: "y \<in> set (List.map_filter f xs) \<longleftrightarrow> (\<exists>x \<in> set xs. f x = Some y)"
  by (force simp: List.map_filter_def)

lemma effective_entry:
  assumes "effective_actions db c category ws = Inr actions" and "(n, a) \<in> set actions"
  shows "map_of ws n = Some a \<or> (map_of ws n = None \<and> (\<exists>v src. a = fallback_action n v src \<and> src \<noteq> ''policy''))"
proof -
  have w: "map_of ws n = Some (winner_or ws n v src) \<or> (map_of ws n = None \<and> winner_or ws n v src = fallback_action n v src)"
    for n v src by (simp add: winner_or_def split: option.splits)
  have src: "snd (class_fallback c) \<noteq> ''policy''" by (simp add: class_fallback_def Let_def)
  have handling: ?thesis if cat: "category = POLICY_CATEGORY_ASSET_HANDLING"
  proof -
    obtain v2 where "actions = [(''classification'', winner_or ws ''classification'' (JStr (fst (class_fallback c))) (snd (class_fallback c))),
        (''disposition'', winner_or ws ''disposition'' v2 ''existing_disposition'')]"
      using assms(1) cat by (auto simp: effective_actions_def)
    with assms(2) w [of "''classification''" "JStr (fst (class_fallback c))" "snd (class_fallback c)"]
      w [of "''disposition''" v2 "''existing_disposition''"] src
    show ?thesis by auto
  qed
  have days: ?thesis if cat: "category = POLICY_CATEGORY_ASSET_INACTIVITY"
  proof -
    obtain v where "actions = [(''inactive_after_days'', winner_or ws ''inactive_after_days'' v ''global_setting'')]"
      using assms(1) cat by (auto simp: effective_actions_def)
    with assms(2) w [of "''inactive_after_days''" v "''global_setting''"] show ?thesis by auto
  qed
  have scans: ?thesis if cat: "category = POLICY_CATEGORY_FINDING_LIFECYCLE"
  proof -
    obtain v where "actions = [(''resolution_clean_scans'', winner_or ws ''resolution_clean_scans'' v ''global_setting'')]"
      using assms(1) cat by (auto simp: effective_actions_def)
    with assms(2) w [of "''resolution_clean_scans''" v "''global_setting''"] show ?thesis by auto
  qed
  have alerting: ?thesis if cat: "category = POLICY_CATEGORY_ALERTING"
  proof -
    obtain ds names where "actions = List.map_filter (alert_entry ws ds) names"
      using assms(1) cat by (auto simp: effective_actions_def Let_def simp del: List.map_filter_simps)
    with assms(2) obtain name where "alert_entry ws ds name = Some (n, a)" by (auto simp: map_filter_mem)
    then show ?thesis by (auto simp: alert_entry_def split: option.splits)
  qed
  show ?thesis
    using handling days scans alerting assms(1) unfolding effective_actions_def
    by (auto split: if_splits)
qed


lemma evaluate_with_Inr:
  assumes "evaluate_with db rules c category = Inr res"
  shows "effective_actions db c category (evs_winners (evaluate_rules c rules)) = Inr (res_actions res)"
    and "res_effective res = map (\<lambda>(k, a). (k, ae_value a)) (res_actions res)"
    and "res_matched_rules res = evs_matched (evaluate_rules c rules)"
    and "res_considered res = evs_considered (evaluate_rules c rules)"
  using assms by (auto simp: evaluate_with_def Let_def rbind_Inr_iff)

lemma load_rules_set: "set (load_rules db category) = {r \<in> set (t_rows (tb_policy_rules db)). pr_category r = category}"
  by (auto simp: load_rules_def t_select_def)

lemma sort_key_inj: "t_wf pr_id (tb_policy_rules db) \<Longrightarrow> x \<in> set (load_rules db category) \<Longrightarrow>
    y \<in> set (load_rules db category) \<Longrightarrow> rule_sort_key x = rule_sort_key y \<Longrightarrow> x = y"
  by (auto simp: load_rules_set rule_sort_key_def intro: t_wf_eq)

lemma evaluate_rules_filter:
  assumes "\<And>r. r \<in> set rules \<Longrightarrow> \<not> P r \<Longrightarrow> \<not> rule_matches r c"
  shows "evs_winners (evaluate_rules c (filter P rules)) = evs_winners (evaluate_rules c rules) \<and>
    evs_matched (evaluate_rules c (filter P rules)) = evs_matched (evaluate_rules c rules)"
  using assms
proof (induction rules rule: rev_induct)
  case (snoc r rules)
  have cong: "evs_winners s = evs_winners t \<Longrightarrow> evs_matched s = evs_matched t \<Longrightarrow>
      evs_winners (evaluate_rule c r s) = evs_winners (evaluate_rule c r t) \<and>
      evs_matched (evaluate_rule c r s) = evs_matched (evaluate_rule c r t)" for s t
    by (simp add: evaluate_rule_def Let_def)
  have IH: "evs_winners (evaluate_rules c (filter P rules)) = evs_winners (evaluate_rules c rules)"
      "evs_matched (evaluate_rules c (filter P rules)) = evs_matched (evaluate_rules c rules)"
    using snoc by auto
  show ?case
  proof (cases "P r")
    case True
    with cong [OF IH] show ?thesis by (simp add: evaluate_rules_snoc)
  next
    case False
    with snoc.prems have "\<not> rule_matches r c" by simp
    with winners_idle [of r c] IH False show ?thesis by (simp add: evaluate_rules_snoc)
  qed
qed simp

subsection \<open>Properties\<close>

text \<open>C7: for every action of an evaluation, if some rule in force matches the context and sets that
  action, the action's value is the one of the rule that is strictly greatest in the order scope
  rank (network, site, tenant, global), priority, older id, among all of them; if no rule sets it,
  the value is a fallback and never attributed to a policy.\<close>

theorem most_specific_rule_wins:
  assumes "evaluate db c category = Inr res" and "(n, a) \<in> set (res_actions res)"
    and "list_all valid_scope (load_rules db category)" and "t_wf pr_id (tb_policy_rules db)"
  shows "if carriers c n (load_rules db category) = [] then ae_source a \<noteq> ''policy''
    else (\<exists>w \<in> set (carriers c n (load_rules db category)). ae_source a = ''policy'' \<and> ae_rule_id a = Some (pr_id w) \<and>
      Some (ae_value a) = map_of (rule_actions w) n \<and>
      (\<forall>r \<in> set (carriers c n (load_rules db category)). r \<noteq> w \<longrightarrow> rule_sort_key r < rule_sort_key w))"
proof -
  let ?rules = "load_rules db category" let ?cs = "carriers c n ?rules"
  let ?ws = "evs_winners (evaluate_rules c ?rules)"
  have eff: "effective_actions db c category ?ws = Inr (res_actions res)"
    using evaluate_with_Inr(1) assms(1) by (simp add: evaluate_def)
  note entry = effective_entry [OF eff assms(2)]
  note win = evaluate_winner [OF assms(3), of c n]
  show ?thesis
  proof (cases "newest_by rule_sort_key ?cs")
    case None
    then have "?cs = []" by simp
    moreover have "map_of ?ws n = None" using win None by (simp only: option.case)
    ultimately show ?thesis using entry by auto
  next
    case (Some w)
    then obtain b where b: "map_of ?ws n = Some b" "won_by c n w b" using win by auto
    have w: "w \<in> set ?cs" using newest_by_Some [OF Some] by simp
    then obtain v where v: "map_of (rule_actions w) n = Some v" by (auto simp: carriers_def)
    have "r = w \<or> rule_sort_key r < rule_sort_key w" if "r \<in> set ?cs" for r
      by (rule newest_by_max [OF Some that]) (auto simp: carriers_def intro: sort_key_inj [OF assms(4)])
    moreover have "ae_source a = ''policy'' \<and> ae_rule_id a = Some (pr_id w) \<and> Some (ae_value a) = map_of (rule_actions w) n"
      using entry b v by (auto simp: won_by_def)
    moreover have "?cs \<noteq> []" using w by auto
    ultimately show ?thesis using w unfolding if_not_P [OF \<open>?cs \<noteq> []\<close>] by blast
  qed
qed

text \<open>C8: rules of other tenants cannot influence an evaluation: deleting every rule that belongs to
  a tenant other than the context's changes neither the effective actions, nor their
  explanations, nor the list of matched rules.\<close>

theorem foreign_rules_never_apply:
  assumes "evaluate_with db rules c category = Inr res"
    and "\<forall>r \<in> set rules. pr_scope_type r = POLICY_SCOPE_GLOBAL \<longrightarrow> pr_tenant_id r = None"
  shows "\<exists>res'. evaluate_with db (filter (\<lambda>r. pr_tenant_id r = None \<or> pr_tenant_id r = pc_tenant_id c) rules) c category = Inr res' \<and>
    res_actions res' = res_actions res \<and> res_effective res' = res_effective res \<and> res_matched_rules res' = res_matched_rules res"
proof -
  let ?P = "\<lambda>r. pr_tenant_id r = None \<or> pr_tenant_id r = pc_tenant_id c"
  have "\<not> rule_matches r c" if "r \<in> set rules" "\<not> ?P r" for r
    using that assms(2) by (auto simp: rule_matches_def scope_applies_def)
  then have "evs_winners (evaluate_rules c (filter ?P rules)) = evs_winners (evaluate_rules c rules)"
      "evs_matched (evaluate_rules c (filter ?P rules)) = evs_matched (evaluate_rules c rules)"
    using evaluate_rules_filter [of rules ?P c] by auto
  then show ?thesis using evaluate_with_Inr [OF assms(1)]
    by (simp add: evaluate_with_def Let_def)
qed

text \<open>The rules of a category are the rows of the table with that category, in the order of their
  ids, enabled or not.\<close>

lemma load_rules_sorted:
  assumes "t_wf pr_id (tb_policy_rules db)"
  shows "sorted_wrt (<) (map pr_id (load_rules db category))"
proof -
  have "distinct (map pr_id (filter (\<lambda>r. pr_category r = category) (t_rows (tb_policy_rules db))))"
    using assms by (simp add: t_wf_def distinct_map_filter)
  then show ?thesis
    by (simp add: load_rules_def t_select_def sorted_by_def strict_sorted_iff distinct_map distinct_sort)
qed

text \<open>What the entry of a rule must say: its name, scope, priority and revision, whether it is enabled
  and archived, every condition with its outcome in the order of the rule, and the reason for which
  it does not apply: the first obstacle among archived, disabled, out of scope and a failed
  condition.\<close>

definition entry_explains :: "policy_context \<Rightarrow> policy_rule \<Rightarrow> considered_rule \<Rightarrow> bool" where
  "entry_explains c r e \<longleftrightarrow>
     con_rule_id e = pr_id r \<and> con_name e = pr_name r \<and> con_scope_type e = pr_scope_type r \<and>
     con_priority e = pr_priority r \<and> con_revision e = pr_revision r \<and>
     con_enabled e = pr_enabled r \<and> con_archived e = (pr_archived_at r \<noteq> None) \<and>
     (if pr_archived_at r \<noteq> None then con_reason e = ''archived'' \<and> \<not> con_matched e
      else if \<not> pr_enabled r then con_reason e = ''disabled'' \<and> \<not> con_matched e
      else con_applicable e = fst (scope_applies r c) \<and>
        map (\<lambda>x. (ce_field x, ce_op x, ce_value x)) (con_conditions e) =
          map (\<lambda>k. (cond_field k, cond_op k, cond_value k)) (rule_conditions r) \<and>
        (con_matched e \<longleftrightarrow> con_applicable e \<and> (\<forall>x \<in> set (con_conditions e). ce_matched x)) \<and>
        (if \<not> con_applicable e then con_reason e = snd (scope_applies r c)
         else if con_matched e then con_reason e = ''matched''
         else \<exists>xs x ys. con_conditions e = xs @ x # ys \<and> (\<forall>y \<in> set xs. ce_matched y) \<and> \<not> ce_matched x \<and>
           con_reason e = ce_detail x))"

lemma first_match_split: "first_match P zs = Some x \<Longrightarrow> \<exists>xs ys. zs = xs @ x # ys \<and> (\<forall>y \<in> set xs. \<not> P y) \<and> P x"
proof (induction zs)
  case (Cons z zs)
  show ?case
  proof (cases "P z")
    case True
    with Cons.prems show ?thesis by (intro exI [of _ "[]"] exI [of _ zs]) auto
  next
    case False
    with Cons obtain xs ys where "zs = xs @ x # ys" "\<forall>y \<in> set xs. \<not> P y" "P x" by auto
    with False show ?thesis by (intro exI [of _ "z # xs"] exI [of _ ys]) auto
  qed
qed simp

lemma explanations_items: "map (\<lambda>x. (ce_field x, ce_op x, ce_value x)) (explanations r c) =
    map (\<lambda>k. (cond_field k, cond_op k, cond_value k)) (rule_conditions r)"
  by (simp add: explanations_def match_condition_def Let_def split_beta)

lemma unmatched_reason:
  assumes "fst (scope_applies r c)" and "\<not> rule_matches r c"
  shows "\<exists>xs x ys. explanations r c = xs @ x # ys \<and> (\<forall>y \<in> set xs. ce_matched y) \<and> \<not> ce_matched x \<and>
    match_reason r c = ce_detail x"
proof -
  have "\<exists>e \<in> set (explanations r c). \<not> ce_matched e"
    using assms by (auto simp: rule_matches_def list_all_iff)
  then obtain e where e: "first_match (\<lambda>e. \<not> ce_matched e) (explanations r c) = Some e"
    by (cases "first_match (\<lambda>e. \<not> ce_matched e) (explanations r c)") (auto simp: first_match_None)
  then have "match_reason r c = ce_detail e" using assms by (simp add: match_reason_def)
  with first_match_split [OF e] show ?thesis by auto
qed

lemma considered_explains:
  "pr_archived_at r \<noteq> None \<Longrightarrow> entry_explains c r (skipped_rule r ''archived'')"
  "pr_archived_at r = None \<Longrightarrow> \<not> pr_enabled r \<Longrightarrow> entry_explains c r (skipped_rule r ''disabled'')"
  "in_force r \<Longrightarrow> entry_explains c r (considered_entry r c)"
proof -
  assume "in_force r"
  then have r: "pr_archived_at r = None" "pr_enabled r" by (auto simp: in_force_def)
  have m: "rule_matches r c \<longleftrightarrow> fst (scope_applies r c) \<and> (\<forall>x \<in> set (explanations r c). ce_matched x)"
    by (simp add: rule_matches_def list_all_iff)
  have reason: "\<not> fst (scope_applies r c) \<Longrightarrow> match_reason r c = snd (scope_applies r c)"
      "rule_matches r c \<Longrightarrow> match_reason r c = ''matched''"
    by (auto simp: match_reason_def rule_matches_def)
  show "entry_explains c r (considered_entry r c)"
    using r m reason unmatched_reason [of r c]
    by (simp add: entry_explains_def considered_entry_def explanations_items)
qed (auto simp: entry_explains_def skipped_rule_def)

lemma evaluate_rules_explains:
  "list_all2 (entry_explains c) rules (evs_considered (evaluate_rules c rules))"
proof (induction rules rule: rev_induct)
  case (snoc r rules)
  have "\<exists>e. evs_considered (evaluate_rules c (rules @ [r])) = evs_considered (evaluate_rules c rules) @ [e]
      \<and> entry_explains c r e"
    using considered_explains [of r c]
    by (auto simp: evaluate_rules_snoc evaluate_rule_def in_force_def Let_def)
  then show ?case using snoc by (auto simp: list_all2_appendI)
qed (simp add: evaluate_rules_def)

text \<open>Whoever holds an action is listed as matched, with the conditions shown for it.\<close>

lemma compete_holders:
  "map_of (fold (compete r ex) acts ws) n = Some a \<Longrightarrow>
    map_of ws n = Some a \<or> ae_rule_id a = Some (pr_id r) \<and> ae_matched_conditions a = ex"
proof (induction acts arbitrary: ws)
  case (Cons av acts)
  from Cons.IH [of "compete r ex av ws"] Cons.prems
  consider "map_of (compete r ex av ws) n = Some a" | "ae_rule_id a = Some (pr_id r) \<and> ae_matched_conditions a = ex"
    by auto
  then show ?case
    by cases (cases av; cases "fst av = n"; auto simp: compete_other compete_same split: option.splits if_splits)+
qed simp

lemma winner_is_matched:
  assumes "map_of (evs_winners (evaluate_rules c rules)) n = Some a"
  shows "\<exists>e \<in> set (evs_considered (evaluate_rules c rules)). ae_rule_id a = Some (con_rule_id e) \<and> con_matched e \<and>
    ae_matched_conditions a = con_conditions e"
  using assms
proof (induction rules rule: rev_induct)
  case (snoc r rules)
  have mono: "set (evs_considered (evaluate_rules c rules)) \<subseteq> set (evs_considered (evaluate_rules c (rules @ [r])))"
    by (auto simp: evaluate_rules_snoc evaluate_rule_def Let_def)
  show ?case
  proof (cases "in_force r \<and> rule_matches r c")
    case True
    then have ws: "map_of (evs_winners (evaluate_rules c rules)) n = Some a \<or>
        ae_rule_id a = Some (pr_id r) \<and> ae_matched_conditions a = explanations r c"
      using snoc.prems compete_holders by (simp add: evaluate_rules_snoc winners_live)
    have "considered_entry r c \<in> set (evs_considered (evaluate_rules c (rules @ [r])))"
      using True by (auto simp: evaluate_rules_snoc evaluate_rule_def in_force_def Let_def)
    moreover have "con_rule_id (considered_entry r c) = pr_id r" "con_conditions (considered_entry r c) = explanations r c"
        "con_matched (considered_entry r c)"
      using True by (simp_all add: considered_entry_def)
    ultimately show ?thesis using ws snoc.IH mono by (metis subsetD)
  next
    case False
    then have "map_of (evs_winners (evaluate_rules c rules)) n = Some a"
      using snoc.prems winners_idle by (simp add: evaluate_rules_snoc)
    then show ?thesis using snoc.IH mono by blast
  qed
qed (simp add: evaluate_rules_def)

lemma matched_summaries:
  "map (jget ''id'') (evs_matched (evaluate_rules c rules)) =
    map (\<lambda>e. jnat (con_rule_id e)) (filter con_matched (evs_considered (evaluate_rules c rules)))"
proof (induction rules rule: rev_induct)
  case (snoc r rules)
  then show ?case
    by (auto simp: evaluate_rules_snoc evaluate_rule_def Let_def skipped_rule_def considered_entry_def rule_summary_def)
qed (simp add: evaluate_rules_def)

lemma list_all2_sides:
  assumes "list_all2 P xs ys"
  shows "x \<in> set xs \<Longrightarrow> \<exists>y \<in> set ys. P x y" and "y \<in> set ys \<Longrightarrow> \<exists>x \<in> set xs. P x y"
  using assms by (induction rule: list_all2_induct) auto

lemma explained_ids: "list_all2 (entry_explains c) rules es \<Longrightarrow> map con_rule_id es = map pr_id rules"
  by (induction rule: list_all2_induct) (auto simp: entry_explains_def)

text \<open>C15: an evaluation accounts for the whole table of rules: its considered list runs through
  strictly increasing rule ids, its ids are exactly those of the rows of the category (archived and
  disabled ones included), and each entry tells of its row whether it is archived, enabled, in scope
  and matched, lists every condition with its outcome, and names the first obstacle as its reason.
  The list agrees with the verdict: the matched rules are the entries marked as matched, in the same
  order, and every effective action that a rule has set names an entry marked as matched and quotes
  that entry's conditions.\<close>

theorem evaluation_explains_every_rule:
  assumes "evaluate db c category = Inr res" and "t_wf pr_id (tb_policy_rules db)"
  shows "sorted_wrt (<) (map con_rule_id (res_considered res)) \<and>
    (\<forall>r \<in> set (t_rows (tb_policy_rules db)). pr_category r = category \<longrightarrow>
      (\<exists>e \<in> set (res_considered res). entry_explains c r e)) \<and>
    (\<forall>e \<in> set (res_considered res).
      \<exists>r \<in> set (t_rows (tb_policy_rules db)). pr_category r = category \<and> entry_explains c r e) \<and>
    map (jget ''id'') (res_matched_rules res) =
      map (\<lambda>e. jnat (con_rule_id e)) (filter con_matched (res_considered res)) \<and>
    (\<forall>n a. (n, a) \<in> set (res_actions res) \<and> ae_source a = ''policy'' \<longrightarrow>
      (\<exists>e \<in> set (res_considered res). ae_rule_id a = Some (con_rule_id e) \<and> con_matched e \<and>
        ae_matched_conditions a = con_conditions e))"
proof -
  let ?rules = "load_rules db category"
  note res = evaluate_with_Inr [OF assms(1) [unfolded evaluate_def]]
  note expl = evaluate_rules_explains [of c ?rules]
  have "map con_rule_id (res_considered res) = map pr_id ?rules"
    using explained_ids [OF expl] by (simp add: res)
  then have sorted: "sorted_wrt (<) (map con_rule_id (res_considered res))"
    using load_rules_sorted [OF assms(2)] by simp
  have rows: "\<exists>e \<in> set (res_considered res). entry_explains c r e"
    if "r \<in> set (t_rows (tb_policy_rules db))" "pr_category r = category" for r
    using list_all2_sides(1) [OF expl] that unfolding res(4) by (simp add: load_rules_set)
  have entries: "\<exists>r \<in> set (t_rows (tb_policy_rules db)). pr_category r = category \<and> entry_explains c r e"
    if "e \<in> set (res_considered res)" for e
    using list_all2_sides(2) [OF expl] that unfolding res(4) by (auto simp: load_rules_set)
  have holders: "\<exists>e \<in> set (res_considered res). ae_rule_id a = Some (con_rule_id e) \<and> con_matched e \<and>
      ae_matched_conditions a = con_conditions e"
    if "(n, a) \<in> set (res_actions res)" "ae_source a = ''policy''" for n a
    using effective_entry [OF res(1) that(1)] that(2) winner_is_matched unfolding res(4) by auto
  show ?thesis
    using sorted rows entries holders matched_summaries [of c ?rules] by (simp only: res(3,4)) blast
qed

definition rule_world :: db where
  "rule_world = small_world\<lparr>tb_policy_rules := \<lparr>t_next = 4, t_rows = [
     sample_rule,
     sample_rule\<lparr>pr_id := 2, pr_scope_type := POLICY_SCOPE_SITE, pr_tenant_id := Some 1, pr_site_id := Some 1,
       pr_priority := 1, pr_conditions := JArr [mk_cond ''hostname'' ''glob'' (JStr ''SRV[0-9]*'')],
       pr_actions := JObj [(''classification'', JStr ''Virtual Host'')]\<rparr>,
     sample_rule\<lparr>pr_id := 3, pr_scope_type := POLICY_SCOPE_TENANT, pr_tenant_id := Some 2, pr_priority := 900,
       pr_actions := JObj [(''classification'', JStr ''Switch'')]\<rparr>]\<rparr>\<rparr>"

definition rule_context :: policy_context where
  "rule_context = default_context\<lparr>pc_tenant_id := Some 1, pc_site_id := Some 1, pc_hostname := ''srv7.corp''\<rparr>"

definition rule_result :: evaluation_result where
  "rule_result = projr (evaluate rule_world rule_context POLICY_CATEGORY_ASSET_HANDLING)"

lemma rule_result_eq: "evaluate rule_world rule_context POLICY_CATEGORY_ASSET_HANDLING = Inr rule_result"
proof -
  have "\<not> isl (evaluate rule_world rule_context POLICY_CATEGORY_ASSET_HANDLING)" by code_simp
  then show ?thesis unfolding rule_result_def by (rule sum.collapse(2) [symmetric])
qed

theorem most_specific_rule_wins_witness:
  "\<exists>a. map_of (res_actions rule_result) ''classification'' = Some a \<and> ae_source a = ''policy'' \<and> ae_value a = JStr ''Virtual Host''"
proof -
  have "map_option ae_value (map_of (res_actions rule_result) ''classification'') = Some (JStr ''Virtual Host'')" by code_simp
  then obtain a where a: "map_of (res_actions rule_result) ''classification'' = Some a" "ae_value a = JStr ''Virtual Host''"
    by auto
  have "(''classification'', a) \<in> set (res_actions rule_result)" using a(1) by (rule map_of_SomeD)
  moreover have "list_all valid_scope (load_rules rule_world POLICY_CATEGORY_ASSET_HANDLING)" "t_wf pr_id (tb_policy_rules rule_world)"
    by code_simp+
  moreover have "carriers rule_context ''classification'' (load_rules rule_world POLICY_CATEGORY_ASSET_HANDLING) \<noteq> []" by code_simp
  ultimately have "ae_source a = ''policy''"
    using most_specific_rule_wins [OF rule_result_eq, of "''classification''" a] by (simp only: if_False) blast
  with a show ?thesis by blast
qed

theorem foreign_rules_never_apply_witness:
  "\<exists>res'. evaluate_with rule_world (filter (\<lambda>r. pr_tenant_id r = None \<or> pr_tenant_id r = pc_tenant_id rule_context)
       (load_rules rule_world POLICY_CATEGORY_ASSET_HANDLING)) rule_context POLICY_CATEGORY_ASSET_HANDLING = Inr res' \<and>
     res_actions res' = res_actions rule_result"
proof -
  have "\<forall>r \<in> set (load_rules rule_world POLICY_CATEGORY_ASSET_HANDLING). pr_scope_type r = POLICY_SCOPE_GLOBAL \<longrightarrow> pr_tenant_id r = None"
    by code_simp
  from foreign_rules_never_apply [OF rule_result_eq [unfolded evaluate_def] this] show ?thesis by blast
qed

theorem evaluation_explains_every_rule_witness:
  "\<exists>e \<in> set (res_considered rule_result). con_rule_id e = 2 \<and> con_enabled e"
proof -
  have "t_wf pr_id (tb_policy_rules rule_world)" by code_simp
  note explained = evaluation_explains_every_rule [OF rule_result_eq this]
  have "\<exists>r \<in> set (t_rows (tb_policy_rules rule_world)). pr_category r = POLICY_CATEGORY_ASSET_HANDLING \<and> pr_id r = 2 \<and> pr_enabled r"
    by code_simp
  with explained obtain r e where "e \<in> set (res_considered rule_result)" "entry_explains rule_context r e" "pr_id r = 2" "pr_enabled r"
    by blast
  then show ?thesis by (auto simp: entry_explains_def)
qed

end
