(* ===== verification/Policy_Store.thy ===== *)
theory Policy_Store
  imports Policy_Engine
begin

section \<open>The life cycle of policy rules\<close>

text \<open>
  Creation, update, enabling and archiving of rules (\<^verbatim>\<open>backend/app/policy.py\<close>): who may write,
  that every change bumps the revision by one and leaves an audit row and a \<open>policy_changed\<close>
  event, and that an archived rule is frozen.
\<close>

definition get_rule :: "nat \<Rightarrow> db \<Rightarrow> policy_rule option" where
  "get_rule i db = t_get pr_id i (tb_policy_rules db)"

definition require_write :: "user \<Rightarrow> string \<Rightarrow> app_error + unit" where
  "require_write actor scope = checks [
     require (u_role actor \<noteq> ''viewer'') (PolicyError ''Viewer cannot change policies'' 403),
     require (\<not> (scope = POLICY_SCOPE_GLOBAL \<and> u_role actor \<noteq> ''admin''))
       (PolicyError ''Only an Admin may change a Global policy'' 403)]"

definition policy_snapshot :: "policy_rule \<Rightarrow> json" where
  "policy_snapshot r = JObj [(''name'', JStr (pr_name r)), (''description'', JStr (pr_description r)),
     (''category'', JStr (pr_category r)), (''scope_type'', JStr (pr_scope_type r)),
     (''tenant_id'', jopt jnat (pr_tenant_id r)), (''site_id'', jopt jnat (pr_site_id r)),
     (''network_id'', jopt jnat (pr_network_id r)), (''priority'', JInt (pr_priority r)),
     (''enabled'', JBool (pr_enabled r)), (''conditions'', pr_conditions r), (''actions'', pr_actions r),
     (''revision'', JInt (pr_revision r)),
     (''archived_at'', jopt (\<lambda>t. JStr (isoformat t)) (pr_archived_at r))]"

definition audit_policy_change :: "time \<Rightarrow> user \<Rightarrow> string \<Rightarrow> policy_rule \<Rightarrow> json option \<Rightarrow> string \<Rightarrow> db \<Rightarrow> db" where
  "audit_policy_change now actor action r before reason db = fst (record_audit now
     \<lparr>ar_actor = Some actor, ar_action = action, ar_object_type = ''policy'', ar_object_id = Some (pr_id r),
       ar_tenant_id = pr_tenant_id r, ar_site_id = pr_site_id r,
       ar_details = [(''policy_id'', jnat (pr_id r)), (''category'', JStr (pr_category r)),
         (''scope_type'', JStr (pr_scope_type r)), (''tenant_id'', jopt jnat (pr_tenant_id r)),
         (''site_id'', jopt jnat (pr_site_id r)), (''network_id'', jopt jnat (pr_network_id r)),
         (''priority'', JInt (pr_priority r)), (''revision'', JInt (pr_revision r)), (''after'', policy_snapshot r)] @
         (case before of None \<Rightarrow> [] | Some b \<Rightarrow> [(''before'', b)]) @
         (if reason \<noteq> [] then [(''reason'', JStr reason)] else [])\<rparr> db)"

definition emit_change :: "time \<Rightarrow> policy_rule \<Rightarrow> db \<Rightarrow> app_error + db" where
  "emit_change now r db = rbind (app_event (emit_policy_changed now r db)) (\<lambda>(db', _, _). Inr db')"

definition new_rule :: "time \<Rightarrow> user \<Rightarrow> clean_rule \<Rightarrow> nat \<Rightarrow> policy_rule" where
  "new_rule now actor c i = \<lparr>pr_id = i, pr_name = cr_name c, pr_description = cr_description c,
     pr_category = cr_category c, pr_scope_type = cr_scope_type c, pr_tenant_id = cr_tenant_id c,
     pr_site_id = cr_site_id c, pr_network_id = cr_network_id c, pr_priority = cr_priority c, pr_enabled = True,
     pr_conditions = JArr (cr_conditions c), pr_actions = JObj (cr_actions c), pr_revision = 1,
     pr_created_by_user_id = Some (u_id actor), pr_updated_by_user_id = Some (u_id actor), pr_created_at = now,
     pr_updated_at = now, pr_archived_at = None, pr_archived_by_user_id = None, pr_archive_reason = None\<rparr>"

definition create_policy :: "time \<Rightarrow> user \<Rightarrow> policy_payload \<Rightarrow> db \<Rightarrow> app_error + (db \<times> policy_rule)" where
  "create_policy now actor p db =
     (if pp_scope_type p = Some POLICY_SCOPE_GLOBAL \<and> u_role actor \<noteq> ''admin''
      then Inl (PolicyError ''Only an Admin may create a Global policy'' 403)
      else rbind (normalize_rule_payload db p) (\<lambda>c.
        let row = new_rule now actor c (t_next (tb_policy_rules db));
            db1 = db\<lparr>tb_policy_rules := t_insert (new_rule now actor c) (tb_policy_rules db)\<rparr>;
            db2 = audit_policy_change now actor ''policy.created'' row None [] db1
        in rbind (emit_change now row db2) (\<lambda>db3. Inr (db3, row))))"

text \<open>The body of a PATCH after \<open>model_dump(exclude_unset=True)\<close>: \<open>None\<close> is a key that was not
  sent, \<open>Some None\<close> an explicit null.\<close>

record policy_changes =
  pch_name :: "string option option"
  pch_description :: "string option option"
  pch_category :: "string option option"
  pch_scope_type :: "string option option"
  pch_tenant_id :: "nat option option"
  pch_site_id :: "nat option option"
  pch_network_id :: "nat option option"
  pch_priority :: "int option option"
  pch_enabled :: "bool option option"
  pch_conditions :: "json option"
  pch_actions :: "json option"

definition no_changes :: policy_changes where
  "no_changes = \<lparr>pch_name = None, pch_description = None, pch_category = None, pch_scope_type = None,
     pch_tenant_id = None, pch_site_id = None, pch_network_id = None, pch_priority = None, pch_enabled = None,
     pch_conditions = None, pch_actions = None\<rparr>"

definition sent :: "'a option \<Rightarrow> 'a \<Rightarrow> 'a" where
  \<comment> \<open>\<open>changes.get(key, row.key)\<close>\<close>
  "sent change old = (case change of None \<Rightarrow> old | Some v \<Rightarrow> v)"

definition merged_payload :: "policy_rule \<Rightarrow> policy_changes \<Rightarrow> policy_payload" where
  "merged_payload r ch = \<lparr>pp_name = sent (pch_name ch) (Some (pr_name r)),
     pp_description = sent (pch_description ch) (Some (pr_description r)),
     pp_category = sent (pch_category ch) (Some (pr_category r)),
     pp_scope_type = sent (pch_scope_type ch) (Some (pr_scope_type r)),
     pp_tenant_id = sent (pch_tenant_id ch) (pr_tenant_id r), pp_site_id = sent (pch_site_id ch) (pr_site_id r),
     pp_network_id = sent (pch_network_id ch) (pr_network_id r),
     pp_priority = sent (pch_priority ch) (Some (pr_priority r)),
     pp_conditions = sent (pch_conditions ch) (pr_conditions r),
     pp_actions = sent (pch_actions ch) (pr_actions r)\<rparr>"

definition write_rule :: "clean_rule \<Rightarrow> policy_rule \<Rightarrow> policy_rule" where
  "write_rule c r = r\<lparr>pr_name := cr_name c, pr_description := cr_description c, pr_category := cr_category c,
     pr_scope_type := cr_scope_type c, pr_tenant_id := cr_tenant_id c, pr_site_id := cr_site_id c,
     pr_network_id := cr_network_id c, pr_priority := cr_priority c,
     pr_conditions := JArr (cr_conditions c), pr_actions := JObj (cr_actions c)\<rparr>"

definition with_enabled :: "bool option option \<Rightarrow> policy_rule \<Rightarrow> policy_rule" where
  \<comment> \<open>\<open>if "enabled" in changes and changes["enabled"] is not None\<close>\<close>
  "with_enabled ch r = (case ch of Some (Some b) \<Rightarrow> r\<lparr>pr_enabled := b\<rparr> | _ \<Rightarrow> r)"

definition bump_revision :: "time \<Rightarrow> user \<Rightarrow> policy_rule \<Rightarrow> policy_rule" where
  \<comment> \<open>\<open>row.revision = int(row.revision or 1) + 1\<close> and the update stamps\<close>
  "bump_revision now actor r = r\<lparr>pr_revision := (if pr_revision r = 0 then 1 else pr_revision r) + 1,
     pr_updated_by_user_id := Some (u_id actor), pr_updated_at := now\<rparr>"

definition set_rule :: "nat \<Rightarrow> policy_rule \<Rightarrow> db \<Rightarrow> db" where
  "set_rule i r db = db\<lparr>tb_policy_rules := t_modify (\<lambda>x. pr_id x = i) (\<lambda>_. r) (tb_policy_rules db)\<rparr>"

text \<open>The common tail of every change: the row is flushed, audited and announced.\<close>

definition commit_rule :: "time \<Rightarrow> user \<Rightarrow> string \<Rightarrow> policy_rule \<Rightarrow> policy_rule \<Rightarrow> string \<Rightarrow> db \<Rightarrow> app_error + (db \<times> policy_rule)" where
  "commit_rule now actor action old new reason db =
     (let db1 = set_rule (pr_id old) new db;
          db2 = audit_policy_change now actor action new (Some (policy_snapshot old)) reason db1
      in rbind (emit_change now new db2) (\<lambda>db3. Inr (db3, new)))"

definition update_policy :: "time \<Rightarrow> user \<Rightarrow> policy_rule \<Rightarrow> policy_changes \<Rightarrow> db \<Rightarrow> app_error + (db \<times> policy_rule)" where
  "update_policy now actor r ch db = rbind (require_write actor (pr_scope_type r)) (\<lambda>_.
     if pr_archived_at r \<noteq> None then Inl (policy_error ''Archived policies cannot be updated'')
     else let p = merged_payload r ch in
       rbind (require_write actor (str_or (pp_scope_type p))) (\<lambda>_.
       rbind (normalize_rule_payload db p) (\<lambda>c.
       rbind (require_write actor (cr_scope_type c)) (\<lambda>_.
         commit_rule now actor ''policy.changed'' r
           (bump_revision now actor (with_enabled (pch_enabled ch) (write_rule c r))) [] db))))"

definition set_policy_enabled :: "time \<Rightarrow> user \<Rightarrow> policy_rule \<Rightarrow> bool \<Rightarrow> db \<Rightarrow> app_error + (db \<times> policy_rule)" where
  "set_policy_enabled now actor r enabled db = rbind (require_write actor (pr_scope_type r)) (\<lambda>_.
     if pr_archived_at r \<noteq> None then Inl (policy_error ''Archived policies cannot be enabled or disabled'')
     else if pr_enabled r = enabled then Inr (db, r)
     else commit_rule now actor (if enabled then ''policy.enabled'' else ''policy.disabled'') r
       (bump_revision now actor (r\<lparr>pr_enabled := enabled\<rparr>)) [] db)"

definition archive_policy :: "time \<Rightarrow> user \<Rightarrow> policy_rule \<Rightarrow> string \<Rightarrow> db \<Rightarrow> app_error + (db \<times> policy_rule)" where
  "archive_policy now actor r reason db = rbind (require_write actor (pr_scope_type r)) (\<lambda>_.
     if pr_archived_at r \<noteq> None then Inr (db, r)
     else commit_rule now actor ''policy.archived'' r
       (bump_revision now actor (r\<lparr>pr_archived_at := Some now, pr_archived_by_user_id := Some (u_id actor),
          pr_archive_reason := (if reason \<noteq> [] then Some reason else None), pr_enabled := False\<rparr>)) reason db)"

definition get_policy :: "nat \<Rightarrow> bool \<Rightarrow> db \<Rightarrow> app_error + policy_rule" where
  "get_policy i include_archived db = (case get_rule i db of
     None \<Rightarrow> Inl (PolicyError ''Policy not found'' 404)
   | Some r \<Rightarrow> if pr_archived_at r \<noteq> None \<and> \<not> include_archived then Inl (PolicyError ''Policy not found'' 404) else Inr r)"

definition list_policies :: "string \<Rightarrow> string \<Rightarrow> nat option \<Rightarrow> nat option \<Rightarrow> nat option \<Rightarrow> bool option \<Rightarrow> bool \<Rightarrow> db \<Rightarrow> policy_rule list" where
  \<comment> \<open>an empty category or scope is no filter\<close>
  "list_policies category scope tenant site network enabled include_archived db =
     sorted_by (\<lambda>r. (pr_scope_type r, - pr_priority r, pr_id r)) (t_select (\<lambda>r.
       (category \<noteq> [] \<longrightarrow> pr_category r = category) \<and> (scope \<noteq> [] \<longrightarrow> pr_scope_type r = scope) \<and>
       (tenant \<noteq> None \<longrightarrow> pr_tenant_id r = tenant) \<and> (site \<noteq> None \<longrightarrow> pr_site_id r = site) \<and>
       (network \<noteq> None \<longrightarrow> pr_network_id r = network) \<and> (enabled \<noteq> None \<longrightarrow> Some (pr_enabled r) = enabled) \<and>
       (\<not> include_archived \<longrightarrow> pr_archived_at r = None)) (tb_policy_rules db))"

text \<open>A preview: the draft competes as rule 0 with the stored rules of its category.\<close>

definition draft_rule :: "clean_rule \<Rightarrow> policy_rule" where
  "draft_rule c = \<lparr>pr_id = 0, pr_name = cr_name c, pr_description = cr_description c,
     pr_category = cr_category c, pr_scope_type = cr_scope_type c, pr_tenant_id = cr_tenant_id c,
     pr_site_id = cr_site_id c, pr_network_id = cr_network_id c, pr_priority = cr_priority c, pr_enabled = True,
     pr_conditions = JArr (cr_conditions c), pr_actions = JObj (cr_actions c), pr_revision = 0,
     pr_created_by_user_id = None, pr_updated_by_user_id = None, pr_created_at = 0, pr_updated_at = 0,
     pr_archived_at = None, pr_archived_by_user_id = None, pr_archive_reason = None\<rparr>"

definition evaluate_draft :: "db \<Rightarrow> policy_payload \<Rightarrow> policy_context \<Rightarrow> app_error + evaluation_result" where
  "evaluate_draft db p c = rbind (normalize_rule_payload db p) (\<lambda>r.
     evaluate_with db (load_rules db (cr_category r) @ [draft_rule r]) c (cr_category r))"

subsection \<open>What a change leaves behind\<close>

lemma emit_change_frame: "emit_change now r db = Inr db' \<Longrightarrow> \<exists>E Q. db' = db\<lparr>tb_domain_events := E, tb_event_alert_queue := Q\<rparr>"
  by (auto simp: emit_change_def emit_policy_changed_def rbind_Inr_iff dest: emit_frame)

lemma audit_change_rules [simp]: "tb_policy_rules (audit_policy_change now actor action r before reason db) = tb_policy_rules db"
  by (simp add: audit_policy_change_def record_audit_fst)

lemma commit_rule_Inr:
  assumes "commit_rule now actor action old new reason db = Inr (db', r)"
  shows "r = new \<and> tb_policy_rules db' = t_modify (\<lambda>x. pr_id x = pr_id old) (\<lambda>_. new) (tb_policy_rules db)"
  using assms by (auto simp: commit_rule_def Let_def rbind_Inr_iff set_rule_def dest!: emit_change_frame)

text \<open>The requests that change rules. Each loads the row it names first, as the routers do.\<close>

inductive policy_step :: "user \<Rightarrow> db \<Rightarrow> db \<Rightarrow> bool" for actor where
  step_create: "create_policy now actor p db = Inr (db', r) \<Longrightarrow> policy_step actor db db'"
| step_update: "get_policy i True db = Inr r0 \<Longrightarrow> update_policy now actor r0 ch db = Inr (db', r) \<Longrightarrow> policy_step actor db db'"
| step_enable: "get_policy i True db = Inr r0 \<Longrightarrow> set_policy_enabled now actor r0 b db = Inr (db', r) \<Longrightarrow> policy_step actor db db'"
| step_archive: "get_policy i True db = Inr r0 \<Longrightarrow> archive_policy now actor r0 reason db = Inr (db', r) \<Longrightarrow> policy_step actor db db'"

inductive_cases policy_stepE: "policy_step actor db db'"

text \<open>How one request changes the rule table: nothing, a new rule of revision 1, or one live rule
  replaced by a version of the same id and the next revision.\<close>

definition rule_change :: "policy_rule tbl \<Rightarrow> policy_rule tbl \<Rightarrow> bool" where
  "rule_change t t' \<longleftrightarrow> t' = t \<or>
     (\<exists>mk. t' = t_insert mk t \<and> (\<forall>i. pr_id (mk i) = i \<and> pr_revision (mk i) = 1)) \<or>
     (\<exists>old new. old \<in> set (t_rows t) \<and> pr_archived_at old = None \<and> pr_id new = pr_id old \<and>
        pr_revision new = (if pr_revision old = 0 then 1 else pr_revision old) + 1 \<and>
        t' = t_modify (\<lambda>x. pr_id x = pr_id old) (\<lambda>_. new) t)"

lemma rule_fields [simp]: "pr_id (bump_revision now actor r) = pr_id r"
  "pr_revision (bump_revision now actor r) = (if pr_revision r = 0 then 1 else pr_revision r) + 1"
  "pr_id (write_rule c r) = pr_id r" "pr_revision (write_rule c r) = pr_revision r"
  "pr_id (with_enabled e r) = pr_id r" "pr_revision (with_enabled e r) = pr_revision r"
  by (simp_all add: bump_revision_def write_rule_def with_enabled_def split: option.splits)

lemma commit_change:
  assumes "get_policy i b db = Inr old" "pr_archived_at old = None"
    and "commit_rule now actor action old (bump_revision now actor r) reason db = Inr (db', r')"
    and "pr_id r = pr_id old" "pr_revision r = pr_revision old"
  shows "rule_change (tb_policy_rules db) (tb_policy_rules db')"
proof -
  have "old \<in> set (t_rows (tb_policy_rules db))"
    using assms(1) by (auto simp: get_policy_def get_rule_def dest: t_get_Some split: option.splits if_splits)
  moreover have "tb_policy_rules db' = t_modify (\<lambda>x. pr_id x = pr_id old) (\<lambda>_. bump_revision now actor r) (tb_policy_rules db)"
    using commit_rule_Inr [OF assms(3)] by simp
  ultimately show ?thesis using assms(2,4,5) unfolding rule_change_def
    by (metis rule_fields(1,2))
qed

lemma update_policy_Inr:
  assumes "update_policy now actor r ch db = Inr (db', r')"
  obtains c where "require_write actor (pr_scope_type r) = Inr ()" "pr_archived_at r = None"
    "normalize_rule_payload db (merged_payload r ch) = Inr c" "require_write actor (cr_scope_type c) = Inr ()"
    "commit_rule now actor ''policy.changed'' r
       (bump_revision now actor (with_enabled (pch_enabled ch) (write_rule c r))) [] db = Inr (db', r')"
  using assms unfolding update_policy_def Let_def by (auto simp: rbind_Inr_iff split: if_splits)

lemma set_policy_enabled_Inr:
  assumes "set_policy_enabled now actor r e db = Inr (db', r')"
  shows "require_write actor (pr_scope_type r) = Inr () \<and> pr_archived_at r = None \<and> (db' = db \<or>
    commit_rule now actor (if e then ''policy.enabled'' else ''policy.disabled'') r
       (bump_revision now actor (r\<lparr>pr_enabled := e\<rparr>)) [] db = Inr (db', r'))"
  using assms unfolding set_policy_enabled_def by (auto simp: rbind_Inr_iff split: if_splits)

lemma archive_policy_Inr:
  assumes "archive_policy now actor r reason db = Inr (db', r')"
  shows "require_write actor (pr_scope_type r) = Inr () \<and> (db' = db \<or> (pr_archived_at r = None \<and>
    (\<exists>new. pr_id new = pr_id r \<and> pr_revision new = pr_revision r \<and>
       commit_rule now actor ''policy.archived'' r (bump_revision now actor new) reason db = Inr (db', r'))))"
proof (cases "pr_archived_at r")
  case None
  let ?new = "r\<lparr>pr_archived_at := Some now, pr_archived_by_user_id := Some (u_id actor),
      pr_archive_reason := (if reason \<noteq> [] then Some reason else None), pr_enabled := False\<rparr>"
  have "require_write actor (pr_scope_type r) = Inr ()"
    "commit_rule now actor ''policy.archived'' r (bump_revision now actor ?new) reason db = Inr (db', r')"
    using assms None unfolding archive_policy_def by (auto simp: rbind_Inr_iff)
  moreover have "pr_id ?new = pr_id r" "pr_revision ?new = pr_revision r" by simp_all
  ultimately show ?thesis using None by blast
qed (use assms in \<open>auto simp: archive_policy_def rbind_Inr_iff\<close>)

lemma policy_step_change:
  assumes "policy_step actor db db'"
  shows "rule_change (tb_policy_rules db) (tb_policy_rules db')"
  using assms
proof cases
  case (step_create now p r)
  then obtain c where "tb_policy_rules db' = t_insert (new_rule now actor c) (tb_policy_rules db)"
    by (auto simp: create_policy_def rbind_Inr_iff Let_def split: if_splits dest!: emit_change_frame)
  then show ?thesis by (auto simp: rule_change_def new_rule_def)
next
  case (step_update i r0 now ch r)
  from step_update(2) obtain c where "pr_archived_at r0 = None" "commit_rule now actor ''policy.changed'' r0
       (bump_revision now actor (with_enabled (pch_enabled ch) (write_rule c r0))) [] db = Inr (db', r)"
    by (rule update_policy_Inr)
  with step_update(1) show ?thesis by (rule commit_change) simp_all
next
  case (step_enable i r0 now b r)
  from set_policy_enabled_Inr [OF step_enable(2)] show ?thesis
  proof (elim conjE disjE)
    assume "db' = db"
    then show ?thesis by (simp add: rule_change_def)
  next
    assume "pr_archived_at r0 = None" "commit_rule now actor (if b then ''policy.enabled'' else ''policy.disabled'') r0
       (bump_revision now actor (r0\<lparr>pr_enabled := b\<rparr>)) [] db = Inr (db', r)"
    with step_enable(1) show ?thesis by (rule commit_change) simp_all
  qed
next
  case (step_archive i r0 now reason r)
  from archive_policy_Inr [OF step_archive(2)] show ?thesis
  proof (elim conjE disjE exE)
    assume "db' = db"
    then show ?thesis by (simp add: rule_change_def)
  next
    fix new
    assume "pr_archived_at r0 = None" "pr_id new = pr_id r0" "pr_revision new = pr_revision r0"
      "commit_rule now actor ''policy.archived'' r0 (bump_revision now actor new) reason db = Inr (db', r)"
    with step_archive(1) show ?thesis by (intro commit_change)
  qed
qed

text \<open>The row of an id, from one table to the next: it stays, gets the next revision while it is
  live, or is created with revision 1.\<close>

lemma rule_change_get:
  assumes "rule_change t t'" and "t_wf pr_id t" and "t_get pr_id i t = Some r"
  shows "\<exists>r'. t_get pr_id i t' = Some r' \<and>
    (r' = r \<or> (pr_archived_at r = None \<and> pr_revision r' = (if pr_revision r = 0 then 1 else pr_revision r) + 1))"
  using assms(1) unfolding rule_change_def
proof (elim disjE exE conjE)
  fix mk assume "t' = t_insert mk t"
  then show ?thesis using assms(3) by (simp add: t_get_def t_first_insert)
next
  fix old new
  assume old: "old \<in> set (t_rows t)" "pr_archived_at old = None" "pr_id new = pr_id old"
    "pr_revision new = (if pr_revision old = 0 then 1 else pr_revision old) + 1"
    and t': "t' = t_modify (\<lambda>x. pr_id x = pr_id old) (\<lambda>_. new) t"
  have get: "first_match (\<lambda>x. pr_id x = i) (map (\<lambda>x. if pr_id x = pr_id old then new else x) xs) =
      map_option (\<lambda>x. if pr_id x = pr_id old then new else x) (first_match (\<lambda>x. pr_id x = i) xs)" for xs
    using old(3) by (induction xs) auto
  have "t_get pr_id i t' = Some (if pr_id r = pr_id old then new else r)"
    using assms(3) get by (simp add: t' t_get_def t_first_def)
  moreover have "pr_id r = pr_id old \<Longrightarrow> r = old"
    using old(1) assms(2,3) t_wf_eq [of pr_id t r old] by (auto dest: t_get_Some)
  ultimately show ?thesis using old by auto
qed (use assms(3) in auto)

lemma rule_change_wf:
  assumes "rule_change t t'" and "t_wf pr_id t"
  shows "t_wf pr_id t'"
  using assms(1) unfolding rule_change_def
proof (elim disjE exE conjE)
  fix mk assume "t' = t_insert mk t" "\<forall>i. pr_id (mk i) = i \<and> pr_revision (mk i) = 1"
  with assms(2) show ?thesis by (simp add: t_wf_insert)
next
  fix old new
  assume "pr_id new = pr_id old" and t': "t' = t_modify (\<lambda>x. pr_id x = pr_id old) (\<lambda>_. new) t"
  then have "pr_id \<circ> (\<lambda>x. if pr_id x = pr_id old then new else x) = pr_id" by (auto simp: fun_eq_iff)
  with assms(2) t' \<open>pr_id new = pr_id old\<close> show ?thesis by (auto simp: t_wf_def list_all_iff)
qed (use assms(2) in simp)

lemma policy_steps_get:
  assumes "(\<lambda>d d'. \<exists>actor. policy_step actor d d')\<^sup>*\<^sup>* db db'" and "t_wf pr_id (tb_policy_rules db)"
    and "get_rule i db = Some r" and "1 \<le> pr_revision r"
  shows "t_wf pr_id (tb_policy_rules db') \<and> (\<exists>r'. get_rule i db' = Some r' \<and> pr_revision r \<le> pr_revision r' \<and>
    (pr_revision r' = pr_revision r \<longrightarrow> r' = r) \<and> (pr_archived_at r \<noteq> None \<longrightarrow> r' = r))"
  using assms(1)
proof (induction rule: rtranclp_induct)
  case base
  with assms(2,3) show ?case by simp
next
  case (step d d')
  then obtain r' where wf: "t_wf pr_id (tb_policy_rules d)" and r': "get_rule i d = Some r'" "pr_revision r \<le> pr_revision r'"
      "pr_revision r' = pr_revision r \<longrightarrow> r' = r" "pr_archived_at r \<noteq> None \<longrightarrow> r' = r" by blast
  have ch: "rule_change (tb_policy_rules d) (tb_policy_rules d')" using step.hyps(2) policy_step_change by blast
  from rule_change_get [OF ch wf r'(1) [unfolded get_rule_def]] obtain r'' where
      "get_rule i d' = Some r''"
      "r'' = r' \<or> (pr_archived_at r' = None \<and> pr_revision r'' = (if pr_revision r' = 0 then 1 else pr_revision r') + 1)"
    by (auto simp: get_rule_def)
  with r' assms(4) rule_change_wf [OF ch wf] show ?case by auto
qed

subsection \<open>Properties\<close>

text \<open>C20: through any sequence of requests by any users a rule is never lost, its revision never
  goes down, its content is the same whenever its revision is the same, and once archived it never
  changes again.\<close>

theorem rule_history_is_versioned:
  assumes "(\<lambda>d d'. \<exists>actor. policy_step actor d d')\<^sup>*\<^sup>* db db'" and "t_wf pr_id (tb_policy_rules db)"
    and "get_rule i db = Some r" and "1 \<le> pr_revision r"
  shows "\<exists>r'. get_rule i db' = Some r' \<and> pr_revision r \<le> pr_revision r' \<and>
    (pr_revision r' = pr_revision r \<longrightarrow> r' = r) \<and> (pr_archived_at r \<noteq> None \<longrightarrow> r' = r)"
  using policy_steps_get [OF assms] by blast

lemma require_write_Inr [simp]: "require_write actor scope = Inr u \<longleftrightarrow>
    u_role actor \<noteq> ''viewer'' \<and> (scope = POLICY_SCOPE_GLOBAL \<longrightarrow> u_role actor = ''admin'')"
  by (simp add: require_write_def)

lemma rule_fields_scope [simp]: "pr_scope_type (bump_revision now actor r) = pr_scope_type r"
  "pr_scope_type (write_rule c r) = cr_scope_type c" "pr_scope_type (with_enabled e r) = pr_scope_type r"
  by (simp_all add: bump_revision_def write_rule_def with_enabled_def split: option.splits)

definition global_rules :: "db \<Rightarrow> policy_rule list" where
  "global_rules db = t_select (\<lambda>r. pr_scope_type r = POLICY_SCOPE_GLOBAL) (tb_policy_rules db)"

lemma commit_keeps_globals:
  assumes "get_policy i b db = Inr old" "t_wf pr_id (tb_policy_rules db)"
    and "commit_rule now actor action old new reason db = Inr (db', r')"
    and "pr_scope_type old \<noteq> POLICY_SCOPE_GLOBAL" "pr_scope_type new \<noteq> POLICY_SCOPE_GLOBAL"
  shows "global_rules db' = global_rules db"
proof -
  have old: "old \<in> set (t_rows (tb_policy_rules db))"
    using assms(1) by (auto simp: get_policy_def get_rule_def dest: t_get_Some split: option.splits if_splits)
  have "filter (\<lambda>r. pr_scope_type r = POLICY_SCOPE_GLOBAL) (map (\<lambda>x. if pr_id x = pr_id old then new else x) xs) =
      filter (\<lambda>r. pr_scope_type r = POLICY_SCOPE_GLOBAL) xs" if "set xs \<subseteq> set (t_rows (tb_policy_rules db))" for xs
    using that
  proof (induction xs)
    case (Cons x xs)
    then have "pr_id x = pr_id old \<Longrightarrow> x = old" using t_wf_eq [OF assms(2) _ old] by simp
    with Cons assms(4,5) show ?case by auto
  qed simp
  with commit_rule_Inr [OF assms(3)] show ?thesis by (simp add: global_rules_def t_select_def)
qed

text \<open>only an admin can touch the global rules: whatever request any other user makes, the list
  of global rules is the same afterwards, none created, edited, disabled, archived, or obtained by
  widening the scope of another rule; and a viewer's request leaves every stored rule as it was.\<close>

theorem global_rules_need_admin:
  assumes "policy_step actor db db'" and "u_role actor \<noteq> ''admin''" and "t_wf pr_id (tb_policy_rules db)"
  shows "global_rules db' = global_rules db \<and>
    (u_role actor = ''viewer'' \<longrightarrow> (\<exists>new. t_rows (tb_policy_rules db') = t_rows (tb_policy_rules db) @ new))"
  using assms(1)
proof cases
  case (step_create now p r)
  then obtain c where c: "normalize_rule_payload db p = Inr c" "pp_scope_type p \<noteq> Some POLICY_SCOPE_GLOBAL"
      and t: "tb_policy_rules db' = t_insert (new_rule now actor c) (tb_policy_rules db)"
    using assms(2) by (auto simp: create_policy_def rbind_Inr_iff Let_def split: if_splits dest!: emit_change_frame)
  have "cr_scope_type c = str_or (pp_scope_type p)"
    using c(1) by (auto simp: normalize_rule_payload_def Let_def rbind_Inr_iff split: if_splits option.splits)
  with c(2) have "cr_scope_type c \<noteq> POLICY_SCOPE_GLOBAL" by (auto simp: str_or_def split: option.splits)
  with t show ?thesis by (simp add: global_rules_def t_select_def new_rule_def)
next
  case (step_update i r0 now ch r)
  from step_update(2) obtain c where "u_role actor \<noteq> ''viewer''" "pr_scope_type r0 \<noteq> POLICY_SCOPE_GLOBAL"
      "cr_scope_type c \<noteq> POLICY_SCOPE_GLOBAL" "commit_rule now actor ''policy.changed'' r0
       (bump_revision now actor (with_enabled (pch_enabled ch) (write_rule c r0))) [] db = Inr (db', r)"
    using assms(2) by (elim update_policy_Inr) auto
  with commit_keeps_globals [OF step_update(1) assms(3) this(4)] show ?thesis by simp
next
  case (step_enable i r0 now b r)
  then show ?thesis using set_policy_enabled_Inr [OF step_enable(2)] assms(2)
    by (auto dest: commit_keeps_globals [OF step_enable(1) assms(3)])
next
  case (step_archive i r0 now reason r)
  show ?thesis
  proof (cases "pr_archived_at r0")
    case (Some t)
    with step_archive show ?thesis by (auto simp: archive_policy_def rbind_Inr_iff)
  next
    case None
    let ?new = "r0\<lparr>pr_archived_at := Some now, pr_archived_by_user_id := Some (u_id actor),
        pr_archive_reason := (if reason \<noteq> [] then Some reason else None), pr_enabled := False\<rparr>"
    have "commit_rule now actor ''policy.archived'' r0 (bump_revision now actor ?new) reason db = Inr (db', r)"
      "u_role actor \<noteq> ''viewer''" "pr_scope_type r0 \<noteq> POLICY_SCOPE_GLOBAL"
      using step_archive(2) None assms(2) unfolding archive_policy_def by (auto simp: rbind_Inr_iff)
    with commit_keeps_globals [OF step_archive(1) assms(3) this(1)] show ?thesis by simp
  qed
qed

definition one_rule_world :: db where
  "one_rule_world = small_world\<lparr>tb_policy_rules := \<lparr>t_next = 3, t_rows =
     [sample_rule, sample_rule\<lparr>pr_id := 2, pr_scope_type := POLICY_SCOPE_TENANT, pr_tenant_id := Some 1\<rparr>]\<rparr>\<rparr>"

definition tenant_rule :: policy_rule where
  "tenant_rule = sample_rule\<lparr>pr_id := 2, pr_scope_type := POLICY_SCOPE_TENANT, pr_tenant_id := Some 1\<rparr>"

definition plain_user :: user where "plain_user = sample_user\<lparr>u_id := 2, u_role := ''user''\<rparr>"

definition after_archive :: db where
  "after_archive = (case archive_policy 9 plain_user tenant_rule ''old'' one_rule_world of Inr (d, _) \<Rightarrow> d | Inl _ \<Rightarrow> one_rule_world)"

lemma after_archive_step: "policy_step plain_user one_rule_world after_archive"
proof -
  have "\<not> isl (archive_policy 9 plain_user tenant_rule ''old'' one_rule_world)" by code_simp
  then have "\<exists>r. archive_policy 9 plain_user tenant_rule ''old'' one_rule_world = Inr (after_archive, r)"
    by (cases "archive_policy 9 plain_user tenant_rule ''old'' one_rule_world") (auto simp: after_archive_def)
  moreover have "get_policy 2 True one_rule_world = Inr tenant_rule" by code_simp
  ultimately show ?thesis using step_archive by blast
qed

theorem rule_history_is_versioned_witness:
  "\<exists>r'. get_rule 1 after_archive = Some r' \<and> pr_revision sample_rule \<le> pr_revision r'"
proof -
  have steps: "(\<lambda>d d'. \<exists>actor. policy_step actor d d')\<^sup>*\<^sup>* one_rule_world after_archive"
    using after_archive_step by (intro r_into_rtranclp) blast
  have "t_wf pr_id (tb_policy_rules one_rule_world)" "get_rule 1 one_rule_world = Some sample_rule" "1 \<le> pr_revision sample_rule"
    by code_simp+
  from rule_history_is_versioned [OF steps this] show ?thesis by blast
qed

theorem global_rules_need_admin_witness: "global_rules after_archive = [sample_rule]"
proof -
  have "u_role plain_user \<noteq> ''admin''" "t_wf pr_id (tb_policy_rules one_rule_world)" by code_simp+
  from global_rules_need_admin [OF after_archive_step this] have "global_rules after_archive = global_rules one_rule_world" by blast
  moreover have "global_rules one_rule_world = [sample_rule]" by code_simp
  ultimately show ?thesis by simp
qed

end
