(* ===== verification/Policy_Apply.thy ===== *)
theory Policy_Apply
  imports Policy_Engine
begin

section \<open>Applying policies\<close>

text \<open>
  The services of \<^verbatim>\<open>backend/app/policy.py\<close> that read an evaluation and change rows: contexts of
  assets and findings, asset handling, its reconciliation over the whole inventory in batches,
  and the life cycle of the rules themselves; with \<^verbatim>\<open>backend/app/lifecycle.py\<close>, which marks
  assets inactive under their inactivity policy.
\<close>

subsection \<open>Contexts\<close>

record context_override =
  ov_site_id :: "nat option option"
  ov_network_id :: "nat option option"
  ov_hostname :: "string option"
  ov_observed_ports :: "int list option"
  ov_inference :: "string option"

definition no_override :: context_override where
  "no_override = \<lparr>ov_site_id = None, ov_network_id = None, ov_hostname = None, ov_observed_ports = None, ov_inference = None\<rparr>"

definition snapshot_port :: "json \<Rightarrow> int option" where
  \<comment> \<open>one element of a \<open>ports\<close> list: an object's \<open>port\<close> or the element itself\<close>
  "snapshot_port item = json_int (if is_obj item then jget ''port'' item else item)"

definition ports_from_snapshot :: "json \<Rightarrow> int list" where
  "ports_from_snapshot snapshot =
     dedup (List.map_filter snapshot_port (as_arr (jor (jget ''ports'' (as_obj snapshot)) (JArr []))))"

definition latest_observation_of :: "db \<Rightarrow> nat \<Rightarrow> asset_observation option" where
  \<comment> \<open>\<open>DISTINCT ON (asset_id) ... ORDER BY observed_at DESC, id DESC\<close>\<close>
  "latest_observation_of db aid = latest_observation (t_rows (tb_asset_observations db)) aid"

definition tags_of :: "db \<Rightarrow> nat \<Rightarrow> tag_row list" where
  "tags_of db aid = List.map_filter (\<lambda>(a, t). if a = aid then t_get tag_id t (tb_tags db) else None) (tb_asset_tags db)"

definition hostname_identifiers :: "db \<Rightarrow> nat \<Rightarrow> asset_identifier list" where
  "hostname_identifiers db aid = t_select (\<lambda>r. aid_asset_id r = aid \<and> aid_identifier_type r = IDENTIFIER_HOSTNAME
     \<and> aid_validity r = IDENTIFIER_VALIDITY_ACTIVE) (tb_asset_identifiers db)"

definition hostname_of :: "db \<Rightarrow> asset \<Rightarrow> string" where
  \<comment> \<open>the last observation's name, else the newest active identifier, else the display name\<close>
  "hostname_of db a =
     (case latest_observation_of db (asset_id a) of
        Some ob \<Rightarrow> if obs_hostname ob \<noteq> [] then obs_hostname ob
          else (case newest_by (\<lambda>r. (aid_last_seen r, aid_id r)) (hostname_identifiers db (asset_id a)) of
             Some r \<Rightarrow> aid_value r | None \<Rightarrow> asset_display_name a)
      | None \<Rightarrow> (case newest_by (\<lambda>r. (aid_last_seen r, aid_id r)) (hostname_identifiers db (asset_id a)) of
             Some r \<Rightarrow> aid_value r | None \<Rightarrow> asset_display_name a))"

definition ports_of :: "db \<Rightarrow> nat \<Rightarrow> int list" where
  "ports_of db aid =
     (let services = dedup (map svc_port (t_select (\<lambda>r. svc_asset_id r = aid) (tb_asset_services db)));
          snap = (case latest_observation_of db aid of None \<Rightarrow> [] | Some ob \<Rightarrow> ports_from_snapshot (obs_snapshot ob))
      in if snap \<noteq> [] then snap else services)"

text \<open>One entry of \<open>contexts_for_assets\<close>. The flags \<open>need_observation\<close>, \<open>need_hostname\<close> and
  \<open>need_ports\<close> of the Python only skip queries whose result no entry reads.\<close>

definition asset_context :: "db \<Rightarrow> context_override \<Rightarrow> asset \<Rightarrow> policy_context" where
  "asset_context db ov a =
     (let observation = latest_observation_of db (asset_id a);
          matches_site = (case observation of None \<Rightarrow> False | Some ob \<Rightarrow> obs_site_id ob = asset_site_id a);
          site_id = (case ov_site_id ov of Some s \<Rightarrow> s
            | None \<Rightarrow> if matches_site then obs_site_id (the observation) else asset_site_id a);
          network_id = (case ov_network_id ov of Some n \<Rightarrow> n
            | None \<Rightarrow> if matches_site then obs_network_id (the observation) else None);
          hostname = (case ov_hostname ov of Some h \<Rightarrow> h | None \<Rightarrow> hostname_of db a);
          observed_ports = (case ov_observed_ports ov of Some ps \<Rightarrow> ps | None \<Rightarrow> ports_of db (asset_id a));
          inference = (if str_or (ov_inference ov) \<noteq> [] then ov_inference ov
            else if hostname \<noteq> [] \<or> observed_ports \<noteq> []
              then Some (infer_class hostname (map JInt observed_ports) [] []) else None)
      in default_context\<lparr>pc_tenant_id := Some (asset_tenant_id a), pc_site_id := site_id,
           pc_network_id := network_id, pc_asset_id := Some (asset_id a), pc_hostname := hostname,
           pc_tags := map tag_normalized_name (tags_of db (asset_id a)),
           pc_tag_names := map tag_name (tags_of db (asset_id a)),
           pc_criticality := asset_criticality a, pc_is_expected := asset_is_expected a,
           pc_observed_ports := observed_ports,
           pc_current_classification := (if asset_classification a \<noteq> [] then asset_classification a else ''Unknown''),
           pc_current_disposition := (if asset_disposition a \<noteq> [] then asset_disposition a else ''unreviewed''),
           pc_inference_classification := inference\<rparr>)"

definition finding_context :: "db \<Rightarrow> asset_finding \<Rightarrow> policy_context option" where
  \<comment> \<open>one entry of \<open>context_for_findings\<close>; no entry when the asset is missing\<close>
  "finding_context db f = (case t_get asset_id (af_asset_id f) (tb_assets db) of
       None \<Rightarrow> None
     | Some a \<Rightarrow>
         let base = asset_context db no_override a;
             latest = newest_by (\<lambda>r. (fnd_found_at r, fnd_id r))
               (t_select (\<lambda>r. fnd_asset_finding_id r = Some (af_id f)) (tb_findings db));
             severity = (case latest of None \<Rightarrow> None
               | Some r \<Rightarrow> if fnd_severity r \<noteq> [] then Some (py_lower (fnd_severity r)) else None);
             vuln = t_get vul_id (af_vulnerability_id f) (tb_vulnerabilities db)
         in Some (base\<lparr>pc_tenant_id := Some (af_tenant_id f), pc_asset_finding_id := Some (af_id f),
              pc_severity := severity, pc_priority := af_priority f,
              pc_has_cve := Some (case vuln of None \<Rightarrow> False | Some v \<Rightarrow> str_or (vul_cve_id v) \<noteq> [])\<rparr>))"

subsection \<open>The evaluation as an answer\<close>

definition serialized_condition :: "condition_explanation \<Rightarrow> json" where
  "serialized_condition e = JObj [(''field'', JStr (ce_field e)), (''op'', JStr (ce_op e)), (''value'', ce_value e),
     (''matched'', JBool (ce_matched e)), (''detail'', JStr (ce_detail e))]"

definition serialized_action :: "action_explanation \<Rightarrow> json" where
  "serialized_action a = JObj [(''value'', ae_value a), (''source'', JStr (ae_source a)),
     (''rule_id'', jopt jnat (ae_rule_id a)), (''rule_name'', jopt JStr (ae_rule_name a)),
     (''revision'', jopt JInt (ae_revision a)), (''scope_type'', jopt JStr (ae_scope_type a)),
     (''tenant_id'', jopt jnat (ae_tenant_id a)), (''site_id'', jopt jnat (ae_site_id a)),
     (''network_id'', jopt jnat (ae_network_id a)), (''priority'', jopt JInt (ae_priority a)),
     (''matched_conditions'', JArr (map serialized_condition (ae_matched_conditions a))),
     (''overrode'', ae_overrode a)]"

definition serialized_considered :: "considered_rule \<Rightarrow> json" where
  "serialized_considered r = JObj [(''rule_id'', jnat (con_rule_id r)), (''name'', JStr (con_name r)),
     (''scope_type'', JStr (con_scope_type r)), (''priority'', JInt (con_priority r)),
     (''revision'', JInt (con_revision r)), (''applicable'', JBool (con_applicable r)),
     (''matched'', JBool (con_matched r)), (''enabled'', JBool (con_enabled r)),
     (''archived'', JBool (con_archived r)), (''reason'', JStr (con_reason r)),
     (''conditions'', JArr (map serialized_condition (con_conditions r)))]"

definition serialize_evaluation :: "evaluation_result \<Rightarrow> json" where
  "serialize_evaluation res = JObj [(''category'', JStr (res_category res)),
     (''tenant_id'', jopt jnat (res_tenant_id res)), (''site_id'', jopt jnat (res_site_id res)),
     (''network_id'', jopt jnat (res_network_id res)), (''asset_id'', jopt jnat (res_asset_id res)),
     (''asset_finding_id'', jopt jnat (res_asset_finding_id res)),
     (''effective'', JObj (res_effective res)),
     (''actions'', JObj (map (\<lambda>(k, a). (k, serialized_action a)) (res_actions res))),
     (''matched_rules'', JArr (res_matched_rules res)),
     (''considered'', JArr (map serialized_considered (res_considered res)))]"

subsection \<open>Asset handling\<close>

definition set_asset :: "nat \<Rightarrow> (asset \<Rightarrow> asset) \<Rightarrow> db \<Rightarrow> db" where
  "set_asset i f db = db\<lparr>tb_assets := t_modify (\<lambda>a. asset_id a = i) f (tb_assets db)\<rparr>"

definition sync_linked_devices :: "nat \<Rightarrow> string option \<Rightarrow> string option \<Rightarrow> db \<Rightarrow> db" where
  "sync_linked_devices aid classification description db =
     db\<lparr>tb_devices := t_modify (\<lambda>d. dev_asset_id d = Some aid)
       (\<lambda>d. d\<lparr>dev_classification := (case classification of Some c \<Rightarrow> c | None \<Rightarrow> dev_classification d),
              dev_description := (case description of Some c \<Rightarrow> c | None \<Rightarrow> dev_description d)\<rparr>) (tb_devices db)\<rparr>"

definition explained :: "condition_explanation \<Rightarrow> json" where
  "explained e = JObj [(''field'', JStr (ce_field e)), (''op'', JStr (ce_op e)), (''value'', ce_value e), (''detail'', JStr (ce_detail e))]"

definition audit_policy_asset_change :: "time \<Rightarrow> asset \<Rightarrow> string \<Rightarrow> string \<Rightarrow> string \<Rightarrow> action_explanation
    \<Rightarrow> policy_context \<Rightarrow> db \<Rightarrow> db \<times> nat" where
  "audit_policy_asset_change now a action old new e c = record_audit now
     \<lparr>ar_actor = None, ar_action = action, ar_object_type = ''asset'', ar_object_id = Some (asset_id a),
       ar_tenant_id = Some (asset_tenant_id a),
       ar_site_id = (case pc_site_id c of Some s \<Rightarrow> Some s | None \<Rightarrow> asset_site_id a),
       ar_details = [(''asset_id'', jnat (asset_id a)), (''tenant_id'', jnat (asset_tenant_id a)),
         (''site_id'', jopt jnat (pc_site_id c)), (''network_id'', jopt jnat (pc_network_id c)),
         (''old'', JStr old), (''new'', JStr new), (''policy_rule_id'', jopt jnat (ae_rule_id e)),
         (''policy_revision'', jopt JInt (ae_revision e)), (''policy_name'', jopt JStr (ae_rule_name e)),
         (''policy_scope'', jopt JStr (ae_scope_type e)), (''policy_priority'', jopt JInt (ae_priority e)),
         (''matched_conditions'', JArr (map explained (filter ce_matched (ae_matched_conditions e))))]\<rparr>"

definition change_entry :: "string \<Rightarrow> string \<Rightarrow> json" where
  "change_entry before after = JObj [(''before'', JStr before), (''after'', JStr after)]"

definition apply_classification :: "time \<Rightarrow> asset \<Rightarrow> policy_context \<Rightarrow> action_explanation \<Rightarrow> db \<Rightarrow> db \<times> (string \<times> json) list" where
  "apply_classification now a c e db =
     (if ae_source e = ''policy'' \<and> ae_value e \<noteq> JStr (asset_classification a)
      then let new = jstr (ae_value e);
               db1 = set_asset (asset_id a) (\<lambda>r. r\<lparr>asset_classification := new\<rparr>) db;
               db2 = sync_linked_devices (asset_id a) (Some new) None db1;
               db3 = fst (audit_policy_asset_change now a ''asset.policy_classification_changed''
                 (asset_classification a) new e c db2)
           in (db3, [(''classification'', change_entry (asset_classification a) new)])
      else (db, []))"

definition apply_disposition :: "time \<Rightarrow> asset \<Rightarrow> policy_context \<Rightarrow> action_explanation \<Rightarrow> db \<Rightarrow> app_error + (db \<times> (string \<times> json) list)" where
  "apply_disposition now a c e db =
     (if ae_source e = ''policy'' \<and> ae_value e \<noteq> JStr (asset_disposition a)
      then let new = jstr (ae_value e);
               db1 = set_asset (asset_id a) (\<lambda>r. r\<lparr>asset_disposition := new\<rparr>) db;
               (db2, audit_id) = audit_policy_asset_change now a ''asset.policy_disposition_changed''
                 (asset_disposition a) new e c db1
           in rbind (app_event (emit_asset_disposition_changed now a (asset_disposition a) new ''policy'' audit_id
                (ae_rule_id e) (ae_revision e) (pc_network_id c) db2)) (\<lambda>db3.
              Inr (db3, [(''disposition'', change_entry (asset_disposition a) new)]))
      else Inr (db, []))"

definition action_of :: "evaluation_result \<Rightarrow> string \<Rightarrow> action_explanation" where
  "action_of res name = (case map_of (res_actions res) name of Some a \<Rightarrow> a | None \<Rightarrow> fallback_action name JNull [])"

definition apply_asset_handling :: "time \<Rightarrow> asset \<Rightarrow> policy_context \<Rightarrow> db \<Rightarrow> app_error + (db \<times> (string \<times> json) list)" where
  "apply_asset_handling now a c db =
     (if asset_merged_into_asset_id a \<noteq> None then Inr (db, [])
      else rbind (evaluate db c POLICY_CATEGORY_ASSET_HANDLING) (\<lambda>res.
        let r1 = apply_classification now a c (action_of res ''classification'') db in
        rbind (apply_disposition now a c (action_of res ''disposition'') (fst r1)) (\<lambda>r2.
          let changed = snd r1 @ snd r2 in
          Inr (if changed \<noteq> [] then set_asset (asset_id a) (\<lambda>r. r\<lparr>asset_updated_at := now\<rparr>) (fst r2) else fst r2,
               changed))))"

text \<open>The override an observation gives: the report when there is one, else the stored context.\<close>

definition observation_override :: "nat option \<Rightarrow> nat option \<Rightarrow> string \<Rightarrow> json list \<Rightarrow> bool \<Rightarrow> string \<Rightarrow> context_override" where
  \<comment> \<open>\<open>has_report\<close>: a report is given, and then \<open>classification\<close> is its class\<close>
  "observation_override site network hostname raw_ports has_report classification =
     (let ports = List.map_filter snapshot_port raw_ports;
          inference = (if classification \<noteq> [] then Some classification
            else if has_report \<or> hostname \<noteq> [] \<or> ports \<noteq> [] then Some (infer_class hostname (map JInt ports) [] []) else None)
      in \<lparr>ov_site_id = Some site, ov_network_id = Some network,
          ov_hostname = (if hostname \<noteq> [] then Some hostname else None),
          ov_observed_ports = (if ports \<noteq> [] then Some (dedup ports) else None),
          ov_inference = (case inference of None \<Rightarrow> None | Some i \<Rightarrow> if i \<noteq> [] then Some i else None)\<rparr>)"

definition apply_asset_handling_for_observation :: "time \<Rightarrow> asset \<Rightarrow> nat option \<Rightarrow> nat option \<Rightarrow> string \<Rightarrow> json list \<Rightarrow> bool \<Rightarrow> string
    \<Rightarrow> db \<Rightarrow> app_error + (db \<times> (string \<times> json) list)" where
  "apply_asset_handling_for_observation now a site network hostname raw_ports has_report classification db =
     apply_asset_handling now a
       (asset_context db (observation_override site network hostname raw_ports has_report classification) a) db"

subsection \<open>Reconciliation in batches\<close>

definition next_batch :: "db \<Rightarrow> nat \<Rightarrow> nat \<Rightarrow> asset list" where
  "next_batch db last_id batch_size = take batch_size (sorted_by asset_id
     (t_select (\<lambda>a. asset_merged_into_asset_id a = None \<and> last_id < asset_id a) (tb_assets db)))"

text \<open>The contexts of a batch are computed from the database at its start; each asset is then
  handled in turn. The count is the number of assets an action changed.\<close>

definition handle_batch :: "time \<Rightarrow> asset list \<Rightarrow> db \<times> nat \<Rightarrow> app_error + (db \<times> nat)" where
  "handle_batch now assets s0 =
     (let contexts = map (\<lambda>a. (a, asset_context (fst s0) no_override a)) assets
      in rfold (\<lambda>(a, c) (db, changed). rbind (apply_asset_handling now a c db) (\<lambda>(db', ch).
           Inr (db', if ch \<noteq> [] then Suc changed else changed))) contexts s0)"

text \<open>\<open>while True\<close> with a fuel: \<open>None\<close> is running out of it.\<close>

fun reconcile_loop :: "nat \<Rightarrow> time \<Rightarrow> nat \<Rightarrow> nat \<Rightarrow> db \<times> nat \<Rightarrow> (app_error + (db \<times> nat)) option" where
  "reconcile_loop 0 now batch_size last_id s = None"
| "reconcile_loop (Suc fuel) now batch_size last_id s =
     (let assets = next_batch (fst s) last_id batch_size in
      if assets = [] then Some (Inr s)
      else case handle_batch now assets s of
          Inl e \<Rightarrow> Some (Inl e)
        | Inr s' \<Rightarrow> reconcile_loop fuel now batch_size (asset_id (last assets)) s')"

definition reconcile_fuel :: "db \<Rightarrow> nat" where
  "reconcile_fuel db = Suc (length (t_rows (tb_assets db)))"

definition reconcile_asset_handling :: "time \<Rightarrow> nat \<Rightarrow> nat \<Rightarrow> db \<Rightarrow> (app_error + (db \<times> nat)) option" where
  "reconcile_asset_handling now batch_size after_id db =
     reconcile_loop (reconcile_fuel db) now batch_size after_id (db, 0)"

definition resolution_details :: "action_explanation \<Rightarrow> (string \<times> json) list" where
  "resolution_details e = [(''reason'', JStr ''consecutive_clean_scans''), (''threshold'', ae_value e),
       (''threshold_source'', JStr (ae_source e))] @
     (if ae_source e = ''policy'' then [(''policy_rule_id'', jopt jnat (ae_rule_id e)),
        (''policy_revision'', jopt JInt (ae_revision e)), (''policy_scope'', jopt JStr (ae_scope_type e)),
        (''policy_priority'', jopt JInt (ae_priority e)), (''policy_name'', jopt JStr (ae_rule_name e))] else [])"

subsection \<open>Assets that became inactive\<close>

definition inactivity_candidates :: "time \<Rightarrow> db \<Rightarrow> asset list" where
  "inactivity_candidates now db = sorted_by asset_id (t_select (\<lambda>a.
     asset_lifecycle_state a = Some LIFECYCLE_ACTIVE
     \<and> (case asset_last_seen a of None \<Rightarrow> False | Some t \<Rightarrow> t < now - day)
     \<and> asset_first_seen a \<noteq> None \<and> asset_merged_into_asset_id a = None) (tb_assets db))"

definition mark_inactive_one :: "time \<Rightarrow> asset \<Rightarrow> policy_context \<Rightarrow> db \<times> nat \<Rightarrow> app_error + (db \<times> nat)" where
  "mark_inactive_one now a c s = rbind (evaluate (fst s) c POLICY_CATEGORY_ASSET_INACTIVITY) (\<lambda>res.
     case json_int (jget ''inactive_after_days'' (JObj (res_effective res))) of
       None \<Rightarrow> Inl (PyError ''int'')
     | Some days \<Rightarrow>
        (case asset_last_seen a of
           None \<Rightarrow> Inr s
         | Some t \<Rightarrow> if now - days * day \<le> t then Inr s
             else rbind (app_event (emit_asset_became_inactive now a t
                    (set_asset (asset_id a) (\<lambda>r. r\<lparr>asset_lifecycle_state := Some LIFECYCLE_INACTIVE\<rparr>) (fst s)))) (\<lambda>(db', _, _).
                  Inr (db', if asset_lifecycle_state a \<noteq> Some LIFECYCLE_INACTIVE then Suc (snd s) else snd s))))"

definition mark_inactive_assets :: "time \<Rightarrow> db \<Rightarrow> app_error + (db \<times> nat)" where
  "mark_inactive_assets now db =
     rfold (\<lambda>(a, c). mark_inactive_one now a c)
       (map (\<lambda>a. (a, asset_context db no_override a)) (inactivity_candidates now db)) (db, 0)"


subsection \<open>What handling an asset may touch\<close>

definition row_kept :: "nat set \<Rightarrow> asset \<Rightarrow> asset \<Rightarrow> bool" where
  "row_kept S x y \<longleftrightarrow> asset_id y = asset_id x \<and>
     asset_merged_into_asset_id y = asset_merged_into_asset_id x \<and> (asset_id x \<notin> S \<longrightarrow> y = x)"

definition asset_touch :: "nat set \<Rightarrow> db \<Rightarrow> db \<Rightarrow> bool" where
  "asset_touch S db db' \<longleftrightarrow> (\<exists>A D L E Q. db' = db\<lparr>tb_assets := A, tb_devices := D, tb_audit_logs := L,
       tb_domain_events := E, tb_event_alert_queue := Q\<rparr> \<and> t_next A = t_next (tb_assets db) \<and>
     list_all2 (row_kept S) (t_rows (tb_assets db)) (t_rows A))"

lemma asset_touchE:
  assumes "asset_touch S db db'"
  obtains A D L E Q where "db' = db\<lparr>tb_assets := A, tb_devices := D, tb_audit_logs := L,
       tb_domain_events := E, tb_event_alert_queue := Q\<rparr>" "t_next A = t_next (tb_assets db)"
     "list_all2 (row_kept S) (t_rows (tb_assets db)) (t_rows A)"
  using assms unfolding asset_touch_def by blast

lemma row_kept_refl: "list_all2 (row_kept S) xs xs"
  by (simp add: list_all2_same row_kept_def)

lemma touch_refl: "asset_touch S db db"
  unfolding asset_touch_def
  by (intro exI [of _ "tb_assets db"] exI [of _ "tb_devices db"] exI [of _ "tb_audit_logs db"]
      exI [of _ "tb_domain_events db"] exI [of _ "tb_event_alert_queue db"]) (simp add: row_kept_refl)

lemma touch_side:
  assumes "db' = db\<lparr>tb_devices := D, tb_audit_logs := L, tb_domain_events := E, tb_event_alert_queue := Q\<rparr>"
  shows "asset_touch S db db'"
  unfolding asset_touch_def assms
  by (intro exI [of _ "tb_assets db"] exI [of _ D] exI [of _ L] exI [of _ E] exI [of _ Q]) (simp add: row_kept_refl)

lemma touch_trans:
  assumes "asset_touch S db1 db2" "asset_touch T db2 db3"
  shows "asset_touch (S \<union> T) db1 db3"
  using assms
proof (elim asset_touchE)
  fix A D L E Q A' D' L' E' Q'
  assume 1: "db2 = db1\<lparr>tb_assets := A, tb_devices := D, tb_audit_logs := L, tb_domain_events := E, tb_event_alert_queue := Q\<rparr>"
    "t_next A = t_next (tb_assets db1)" "list_all2 (row_kept S) (t_rows (tb_assets db1)) (t_rows A)"
    and 2: "db3 = db2\<lparr>tb_assets := A', tb_devices := D', tb_audit_logs := L', tb_domain_events := E', tb_event_alert_queue := Q'\<rparr>"
    "t_next A' = t_next (tb_assets db2)" "list_all2 (row_kept T) (t_rows (tb_assets db2)) (t_rows A')"
  have "list_all2 (row_kept (S \<union> T)) (t_rows (tb_assets db1)) (t_rows A')"
    by (rule list_all2_trans [OF _ 1(3)]) (use 1 2 in \<open>auto simp: row_kept_def\<close>)
  with 1 2 show ?thesis unfolding asset_touch_def
    by (intro exI [of _ A'] exI [of _ D'] exI [of _ L'] exI [of _ E'] exI [of _ Q']) simp
qed

lemma touch_set_asset:
  assumes "\<And>r. asset_id (f r) = asset_id r \<and> asset_merged_into_asset_id (f r) = asset_merged_into_asset_id r"
  shows "asset_touch {i} db (set_asset i f db)"
  unfolding asset_touch_def set_asset_def
  by (intro exI [of _ "t_modify (\<lambda>a. asset_id a = i) f (tb_assets db)"] exI [of _ "tb_devices db"]
      exI [of _ "tb_audit_logs db"] exI [of _ "tb_domain_events db"] exI [of _ "tb_event_alert_queue db"])
     (auto simp: list_all2_map2 list_all2_same row_kept_def assms)

lemma touch_context:
  assumes "asset_touch S db db'"
  shows "asset_context db' = asset_context db" "evaluate db' = evaluate db"
proof -
  obtain A D L E Q where d: "db' = db\<lparr>tb_assets := A, tb_devices := D, tb_audit_logs := L,
       tb_domain_events := E, tb_event_alert_queue := Q\<rparr>" using assms by (rule asset_touchE)
  have "latest_observation_of db' = latest_observation_of db" by (simp add: fun_eq_iff latest_observation_of_def d)
  moreover have "tb_tags db' = tb_tags db" "tb_asset_tags db' = tb_asset_tags db" by (simp_all add: d)
  then have "tags_of db' = tags_of db" by (intro ext) (simp only: tags_of_def)
  moreover have "hostname_identifiers db' = hostname_identifiers db" by (simp add: fun_eq_iff hostname_identifiers_def d)
  moreover have "tb_asset_services db' = tb_asset_services db" by (simp add: d)
  ultimately show "asset_context db' = asset_context db"
    by (intro ext) (simp only: asset_context_def hostname_of_def ports_of_def)
  have "get_settings db' = get_settings db" by (simp add: get_settings_def d)
  then have "effective_actions db' = effective_actions db"
    by (simp add: fun_eq_iff effective_actions_def fallback_inactive_days_def fallback_resolution_clean_scans_def)
  moreover have "load_rules db' = load_rules db" by (simp add: fun_eq_iff load_rules_def d)
  ultimately show "evaluate db' = evaluate db" by (simp add: fun_eq_iff evaluate_def evaluate_with_def)
qed

lemma audit_change_side: "fst (audit_policy_asset_change now a action old new e c db) =
    db\<lparr>tb_audit_logs := tb_audit_logs (fst (audit_policy_asset_change now a action old new e c db))\<rparr>"
  by (simp add: audit_policy_asset_change_def record_audit_fst)

lemma touch_classification: "asset_touch {asset_id a} db (fst (apply_classification now a c e db))"
proof (cases "ae_source e = ''policy'' \<and> ae_value e \<noteq> JStr (asset_classification a)")
  case True
  let ?db1 = "set_asset (asset_id a) (\<lambda>r. r\<lparr>asset_classification := jstr (ae_value e)\<rparr>) db"
  let ?db2 = "sync_linked_devices (asset_id a) (Some (jstr (ae_value e))) None ?db1"
  let ?db3 = "fst (audit_policy_asset_change now a ''asset.policy_classification_changed''
    (asset_classification a) (jstr (ae_value e)) e c ?db2)"
  have "asset_touch {asset_id a} db ?db1" by (rule touch_set_asset) simp
  moreover have "asset_touch {asset_id a} ?db1 ?db3"
    by (rule touch_side [where D = "tb_devices ?db2" and L = "tb_audit_logs ?db3" and E = "tb_domain_events db"
          and Q = "tb_event_alert_queue db"])
       (simp add: audit_policy_asset_change_def record_audit_fst sync_linked_devices_def set_asset_def)
  ultimately have "asset_touch ({asset_id a} \<union> {asset_id a}) db ?db3" by (rule touch_trans)
  then show ?thesis using True by (simp add: apply_classification_def Let_def)
next
  case False
  then show ?thesis by (simp only: apply_classification_def if_False fst_conv touch_refl)
qed

lemma touch_disposition:
  assumes "apply_disposition now a c e db = Inr (db', ch)"
  shows "asset_touch {asset_id a} db db'"
proof (cases "ae_source e = ''policy'' \<and> ae_value e \<noteq> JStr (asset_disposition a)")
  case True
  let ?db1 = "set_asset (asset_id a) (\<lambda>r. r\<lparr>asset_disposition := jstr (ae_value e)\<rparr>) db"
  obtain db2 i where au: "audit_policy_asset_change now a ''asset.policy_disposition_changed''
      (asset_disposition a) (jstr (ae_value e)) e c ?db1 = (db2, i)" by force
  then have em: "emit_asset_disposition_changed now a (asset_disposition a) (jstr (ae_value e)) ''policy'' i
      (ae_rule_id e) (ae_revision e) (pc_network_id c) db2 = Inr db'"
    using assms True by (auto simp: apply_disposition_def rbind_Inr_iff Let_def)
  have "\<exists>L. db2 = ?db1\<lparr>tb_audit_logs := L\<rparr>"
    using au by (auto simp: audit_policy_asset_change_def record_audit_def)
  then obtain L where L: "db2 = ?db1\<lparr>tb_audit_logs := L\<rparr>" ..
  have "\<exists>E Q. db' = db2\<lparr>tb_domain_events := E, tb_event_alert_queue := Q\<rparr>"
  proof (cases "asset_disposition a = jstr (ae_value e)")
    case True
    with em have "db' = db2\<lparr>tb_domain_events := tb_domain_events db2, tb_event_alert_queue := tb_event_alert_queue db2\<rparr>"
      by (simp add: emit_asset_disposition_changed_def)
    then show ?thesis by blast
  next
    case False
    with em show ?thesis by (auto simp: emit_asset_disposition_changed_def rbind_Inr_iff dest: emit_frame)
  qed
  then obtain E Q where EQ: "db' = db2\<lparr>tb_domain_events := E, tb_event_alert_queue := Q\<rparr>" by blast
  have "asset_touch {asset_id a} db ?db1" by (rule touch_set_asset) simp
  moreover have "asset_touch {asset_id a} ?db1 db'"
    by (rule touch_side [where D = "tb_devices ?db1" and L = L and E = E and Q = Q]) (simp add: EQ L)
  ultimately have "asset_touch ({asset_id a} \<union> {asset_id a}) db db'" by (rule touch_trans)
  then show ?thesis by simp
next
  case False
  with assms have "db' = db" by (auto simp: apply_disposition_def)
  then show ?thesis by (simp add: touch_refl)
qed

lemma touch_apply:
  assumes "apply_asset_handling now a c db = Inr (db', ch)"
  shows "asset_touch {asset_id a} db db'"
proof (cases "asset_merged_into_asset_id a")
  case None
  obtain res db2 ch2 where res: "evaluate db c POLICY_CATEGORY_ASSET_HANDLING = Inr res"
    and d2: "apply_disposition now a c (action_of res ''disposition'')
      (fst (apply_classification now a c (action_of res ''classification'') db)) = Inr (db2, ch2)"
    and db': "db' = db2 \<or> db' = set_asset (asset_id a) (\<lambda>r. r\<lparr>asset_updated_at := now\<rparr>) db2"
    using assms None unfolding apply_asset_handling_def
    by (auto simp: rbind_Inr_iff Let_def split: if_splits)
  have "asset_touch ({asset_id a} \<union> {asset_id a}) db db2"
    using touch_classification touch_disposition [OF d2] by (rule touch_trans)
  then have "asset_touch {asset_id a} db db2" by simp
  moreover have "asset_touch {asset_id a} db2 db'"
    using db' touch_refl touch_set_asset [of "\<lambda>r. r\<lparr>asset_updated_at := now\<rparr>" "asset_id a" db2] by auto
  ultimately have "asset_touch ({asset_id a} \<union> {asset_id a}) db db'" by (rule touch_trans)
  then show ?thesis by simp
next
  case (Some m)
  with assms have "db' = db" by (simp add: apply_asset_handling_def)
  then show ?thesis by (simp add: touch_refl)
qed


subsection \<open>Batches are invisible\<close>

definition pending :: "db \<Rightarrow> nat \<Rightarrow> asset list" where
  \<comment> \<open>the assets still to be handled after an id, in id order\<close>
  "pending db last_id = sorted_by asset_id
     (t_select (\<lambda>a. asset_merged_into_asset_id a = None \<and> last_id < asset_id a) (tb_assets db))"

lemma next_batch_pending: "next_batch db last_id k = take k (pending db last_id)"
  by (simp add: next_batch_def pending_def)

lemma pending_touch:
  assumes "asset_touch S db db'" and "\<And>i. i \<in> S \<Longrightarrow> i \<le> last_id"
  shows "pending db' last_id = pending db last_id"
proof -
  obtain A D L E Q where d: "db' = db\<lparr>tb_assets := A, tb_devices := D, tb_audit_logs := L,
       tb_domain_events := E, tb_event_alert_queue := Q\<rparr>"
    and A: "list_all2 (row_kept S) (t_rows (tb_assets db)) (t_rows A)" using assms(1) by (rule asset_touchE)
  have "filter (\<lambda>a. asset_merged_into_asset_id a = None \<and> last_id < asset_id a) ys =
      filter (\<lambda>a. asset_merged_into_asset_id a = None \<and> last_id < asset_id a) xs"
    if "list_all2 (row_kept S) xs ys" for xs ys
    using that by (induction rule: list_all2_induct) (auto simp: row_kept_def dest: assms(2))
  with A show ?thesis by (simp add: pending_def t_select_def d)
qed

lemma sort_key_filter_upper:
  assumes "distinct (map asset_id xs)" "k < length (sort_key asset_id xs)"
  shows "sort_key asset_id (filter (\<lambda>a. asset_id (sort_key asset_id xs ! k) < asset_id a) xs) = drop (Suc k) (sort_key asset_id xs)"
proof -
  let ?s = "sort_key asset_id xs"
  have s: "sorted (map asset_id ?s)" "distinct (map asset_id ?s)" using assms(1) by (simp_all add: distinct_map inj_on_def)
  have "filter (\<lambda>a. asset_id (?s ! k) < asset_id a) ?s =
      filter (\<lambda>a. asset_id (?s ! k) < asset_id a) (take (Suc k) ?s) @ filter (\<lambda>a. asset_id (?s ! k) < asset_id a) (drop (Suc k) ?s)"
    by (metis append_take_drop_id filter_append)
  moreover have "filter (\<lambda>a. asset_id (?s ! k) < asset_id a) (take (Suc k) ?s) = []"
  proof -
    have "\<not> asset_id (?s ! k) < asset_id a" if a: "a \<in> set (take (Suc k) ?s)" for a
    proof -
      obtain j where "j < Suc k" "j < length ?s" "a = ?s ! j" using a by (auto simp: in_set_conv_nth)
      then have "map asset_id ?s ! j \<le> map asset_id ?s ! k"
        using s(1) assms(2) by (intro sorted_nth_mono) simp_all
      with \<open>a = ?s ! j\<close> \<open>j < length ?s\<close> assms(2) show ?thesis by simp
    qed
    then show ?thesis by (simp add: filter_empty_conv)
  qed
  moreover have "filter (\<lambda>a. asset_id (?s ! k) < asset_id a) (drop (Suc k) ?s) = drop (Suc k) ?s"
  proof -
    have "asset_id (?s ! k) < asset_id a" if a: "a \<in> set (drop (Suc k) ?s)" for a
    proof -
      obtain j where "j < length (drop (Suc k) ?s)" "a = drop (Suc k) ?s ! j" using a unfolding in_set_conv_nth by blast
      then have j: "Suc k + j < length ?s" "a = ?s ! (Suc k + j)" by auto
      then have "map asset_id ?s ! k < map asset_id ?s ! (Suc k + j)"
        using s by (intro sorted_wrt_nth_less [OF strict_sorted_iff [THEN iffD2]]) auto
      with j assms(2) show ?thesis by simp
    qed
    then show ?thesis by (simp add: filter_id_conv)
  qed
  ultimately show ?thesis by (simp add: filter_sort [symmetric])
qed


lemma pending_after:
  assumes "t_wf asset_id (tb_assets db)" "pending db last_id \<noteq> []" "1 \<le> k"
  shows "pending db (asset_id (last (take k (pending db last_id)))) = drop k (pending db last_id)"
proof -
  let ?rows = "filter (\<lambda>a. asset_merged_into_asset_id a = None \<and> last_id < asset_id a) (t_rows (tb_assets db))"
  let ?p = "pending db last_id"
  define j where "j = min k (length ?p) - 1"
  have p: "?p = sort_key asset_id ?rows" by (simp add: pending_def sorted_by_def t_select_def)
  have "0 < length ?p" using assms(2) by simp
  with assms(3) have j: "j < length ?p" "Suc j = min k (length ?p)" unfolding j_def by linarith+
  have "last (take k ?p) = take k ?p ! (length (take k ?p) - 1)"
    using assms(2,3) by (intro last_conv_nth) auto
  also have "length (take k ?p) - 1 = j" by (simp add: j_def min.commute)
  also have "take k ?p ! j = ?p ! j" using j(2) by (intro nth_take) linarith
  finally have "last (take k ?p) = ?p ! j" .
  moreover have "distinct (map asset_id ?rows)" using assms(1) by (simp add: t_wf_def distinct_map_filter)
  from sort_key_filter_upper [OF this, of j] j(1) p
  have "sort_key asset_id (filter (\<lambda>a. asset_id (?p ! j) < asset_id a) ?rows) = drop (Suc j) ?p" by simp
  moreover have "last_id < asset_id (?p ! j)"
    using nth_mem [OF j(1)] by (simp add: p)
  then have "filter (\<lambda>a. asset_id (?p ! j) < asset_id a) ?rows =
      filter (\<lambda>a. asset_merged_into_asset_id a = None \<and> asset_id (?p ! j) < asset_id a) (t_rows (tb_assets db))"
    by (auto intro: filter_cong)
  moreover have "drop (Suc j) ?p = drop k ?p" using j(2) by (simp add: min_def split: if_splits)
  ultimately show ?thesis by (simp add: pending_def [of db "asset_id _"] sorted_by_def t_select_def)
qed

lemma handle_batch_touch:
  assumes "handle_batch now xs s = Inr s'"
  shows "asset_touch (asset_id ` set xs) (fst s) (fst s')"
proof -
  let ?cs = "map (\<lambda>a. (a, asset_context (fst s) no_override a)) xs"
  let ?S = "asset_id ` set xs"
  show ?thesis
  proof (rule rfold_invariant [where P = "\<lambda>t. asset_touch ?S (fst s) (fst t)", OF assms [unfolded handle_batch_def Let_def]])
    show "asset_touch ?S (fst s) (fst s)" by (rule touch_refl)
    fix ac t t'
    assume ac: "ac \<in> set ?cs" and t: "asset_touch ?S (fst s) (fst t)"
      and step: "(case ac of (a, c) \<Rightarrow> \<lambda>(db, changed). rbind (apply_asset_handling now a c db) (\<lambda>(db', ch).
           Inr (db', if ch \<noteq> [] then Suc changed else changed))) t = Inr t'"
    obtain ch where ap: "apply_asset_handling now (fst ac) (snd ac) (fst t) = Inr (fst t', ch)"
      using step by (auto simp: rbind_Inr_iff split: prod.splits)
    have "asset_touch (?S \<union> {asset_id (fst ac)}) (fst s) (fst t')"
      by (rule touch_trans [OF t touch_apply [OF ap]])
    moreover have "?S \<union> {asset_id (fst ac)} = ?S" using ac by auto
    ultimately show "asset_touch ?S (fst s) (fst t')" by simp
  qed
qed

lemma handle_batch_append:
  "handle_batch now (xs @ ys) s = rbind (handle_batch now xs s) (handle_batch now ys)"
proof (cases "handle_batch now xs s")
  case (Inr s')
  have "asset_context (fst s') = asset_context (fst s)"
    using touch_context(1) [OF handle_batch_touch [OF Inr]] .
  with Inr show ?thesis by (simp add: handle_batch_def Let_def rfold_append)
qed (simp add: handle_batch_def Let_def rfold_append)

lemma touch_wf:
  assumes "asset_touch S db db'" "t_wf asset_id (tb_assets db)"
  shows "t_wf asset_id (tb_assets db')"
proof -
  obtain A D L E Q where d: "db' = db\<lparr>tb_assets := A, tb_devices := D, tb_audit_logs := L,
       tb_domain_events := E, tb_event_alert_queue := Q\<rparr>" "t_next A = t_next (tb_assets db)"
    and A: "list_all2 (row_kept S) (t_rows (tb_assets db)) (t_rows A)" using assms(1) by (rule asset_touchE)
  have "map asset_id ys = map asset_id xs" if "list_all2 (row_kept S) xs ys" for xs ys
    using that by (induction rule: list_all2_induct) (auto simp: row_kept_def)
  with A have m: "map asset_id (t_rows A) = map asset_id (t_rows (tb_assets db))" by blast
  have eq: "t_wf asset_id t \<longleftrightarrow> distinct (map asset_id (t_rows t)) \<and> (\<forall>i \<in> set (map asset_id (t_rows t)). i < t_next t)" for t
    by (auto simp: t_wf_def list_all_iff)
  have "t_wf asset_id A = t_wf asset_id (tb_assets db)" by (simp only: eq m d(2))
  with d(1) assms(2) show ?thesis by simp
qed

lemma sorted_le_last: "sorted xs \<Longrightarrow> x \<in> set xs \<Longrightarrow> x \<le> last xs"
  by (induction xs) auto

lemma reconcile_loop_batch:
  assumes "1 \<le> k" "t_wf asset_id (tb_assets (fst s))" "length (pending (fst s) last_id) < fuel"
  shows "reconcile_loop fuel now k last_id s = Some (handle_batch now (pending (fst s) last_id) s)"
  using assms
proof (induction fuel arbitrary: last_id s)
  case (Suc fuel)
  let ?p = "pending (fst s) last_id"
  show ?case
  proof (cases "?p = []")
    case True
    then show ?thesis by (simp add: next_batch_pending handle_batch_def)
  next
    case False
    then have ne: "take k ?p \<noteq> []" using Suc.prems(1) by (cases k) auto
    have split: "handle_batch now ?p s = rbind (handle_batch now (take k ?p) s) (handle_batch now (drop k ?p))"
      by (metis append_take_drop_id handle_batch_append)
    show ?thesis
    proof (cases "handle_batch now (take k ?p) s")
      case (Inl e)
      then show ?thesis using ne split by (simp add: next_batch_pending)
    next
      case (Inr s')
      let ?l = "asset_id (last (take k ?p))"
      note touch = handle_batch_touch [OF Inr]
      have "i \<le> ?l" if "i \<in> asset_id ` set (take k ?p)" for i
      proof -
        have "sorted (map asset_id (take k ?p))"
          by (simp add: pending_def sorted_by_def take_map [symmetric] sorted_wrt_take)
        moreover have "i \<in> set (map asset_id (take k ?p))" using that by simp
        ultimately have "i \<le> last (map asset_id (take k ?p))" by (rule sorted_le_last)
        then show ?thesis using ne by (simp add: last_map)
      qed
      then have "pending (fst s') ?l = pending (fst s) ?l" by (rule pending_touch [OF touch])
      also have "\<dots> = drop k ?p" using Suc.prems(1,2) False by (intro pending_after)
      finally have p': "pending (fst s') ?l = drop k ?p" .
      have "length (drop k ?p) < fuel" using Suc.prems(1,3) False by (cases ?p) auto
      with Suc.IH [of s' ?l] Suc.prems(1) touch_wf [OF touch Suc.prems(2)] p'
      have "reconcile_loop fuel now k ?l s' = Some (handle_batch now (drop k ?p) s')" by simp
      then show ?thesis using ne split Inr by (simp add: next_batch_pending)
    qed
  qed
qed simp


subsection \<open>Handling converges\<close>

definition handling_rule_ok :: "policy_rule \<Rightarrow> bool" where
  "handling_rule_ok r \<longleftrightarrow> valid_scope r \<and>
     list_all (\<lambda>x. cond_field x \<in> set CONDITION_FIELDS_ASSET) (rule_conditions r) \<and>
     list_all (\<lambda>(k, v). is_str_in v (DEVICE_CLASSES @ DISPOSITIONS)) (rule_actions r)"

definition relabel :: "string \<Rightarrow> string \<Rightarrow> policy_context \<Rightarrow> policy_context" where
  "relabel x y c = c\<lparr>pc_current_classification := x, pc_current_disposition := y\<rparr>"

lemma relabel_fields:
  "pc_tenant_id (relabel u v c) = pc_tenant_id c" "pc_site_id (relabel u v c) = pc_site_id c"
  "pc_network_id (relabel u v c) = pc_network_id c" "pc_hostname (relabel u v c) = pc_hostname c"
  "pc_tags (relabel u v c) = pc_tags c" "pc_criticality (relabel u v c) = pc_criticality c"
  "pc_is_expected (relabel u v c) = pc_is_expected c" "pc_observed_ports (relabel u v c) = pc_observed_ports c"
  "pc_severity (relabel u v c) = pc_severity c" "pc_priority (relabel u v c) = pc_priority c"
  "pc_has_cve (relabel u v c) = pc_has_cve c" "pc_event_type (relabel u v c) = pc_event_type c"
  "pc_source (relabel u v c) = pc_source c" "pc_treatment_state (relabel u v c) = pc_treatment_state c"
  by (simp_all add: relabel_def)

text \<open>The conditions of a handling rule do not read what handling writes.\<close>

lemma match_relabel:
  assumes "cond_field x \<in> set CONDITION_FIELDS_ASSET"
  shows "match_condition x (relabel u v c) = match_condition x c"
proof -
  have "cond_field x \<noteq> ''classification''" "cond_field x \<noteq> ''disposition''"
    using assms by (auto simp: CONDITION_FIELDS_ASSET_def)
  then have "match_fact (cond_field x) p w (relabel u v c) = match_fact (cond_field x) p w c" for p w
    unfolding match_fact_def relabel_fields by (simp only: if_False)
  then show ?thesis by (simp only: match_condition_def Let_def)
qed

lemma evaluate_rules_relabel:
  assumes "list_all handling_rule_ok rules"
  shows "evaluate_rules (relabel u v c) rules = evaluate_rules c rules"
  using assms
proof (induction rules rule: rev_induct)
  case (snoc r rules)
  have sc: "scope_applies r (relabel u v c) = scope_applies r c" by (simp only: scope_applies_def relabel_fields)
  have ex: "explanations r (relabel u v c) = explanations r c"
    using snoc.prems by (auto simp: explanations_def handling_rule_ok_def list_all_iff match_relabel)
  have "evaluate_rule (relabel u v c) r = evaluate_rule c r"
    by (intro ext) (simp only: evaluate_rule_def considered_entry_def match_reason_def rule_matches_def sc ex)
  with snoc show ?case by (simp add: evaluate_rules_snoc)
qed (simp add: evaluate_rules_def)

abbreviation handling_winners :: "db \<Rightarrow> policy_context \<Rightarrow> winners" where
  "handling_winners db c \<equiv> evs_winners (evaluate_rules c (load_rules db POLICY_CATEGORY_ASSET_HANDLING))"

lemma evaluate_handling_total: "\<exists>res. evaluate db c POLICY_CATEGORY_ASSET_HANDLING = Inr res"
  by (simp add: evaluate_def evaluate_with_def effective_actions_def Let_def)

lemma handling_actions:
  assumes "evaluate db c POLICY_CATEGORY_ASSET_HANDLING = Inr res"
  obtains v where "action_of res ''classification'' =
      winner_or (handling_winners db c) ''classification'' (JStr (fst (class_fallback c))) (snd (class_fallback c))"
    "action_of res ''disposition'' = winner_or (handling_winners db c) ''disposition'' v ''existing_disposition''"
proof -
  define v where "v = JStr (if pc_current_disposition c \<noteq> [] then pc_current_disposition c else ''unreviewed'')"
  have "res_actions res = [(''classification'', winner_or (handling_winners db c) ''classification''
        (JStr (fst (class_fallback c))) (snd (class_fallback c))),
      (''disposition'', winner_or (handling_winners db c) ''disposition'' v ''existing_disposition'')]"
    using evaluate_with_Inr(1) [OF assms [unfolded evaluate_def]] unfolding effective_actions_def v_def
    by (simp only: if_True refl sum.inject)
  then show ?thesis by (intro that [of v]) (simp_all add: action_of_def)
qed

lemma handling_action:
  assumes "evaluate db c POLICY_CATEGORY_ASSET_HANDLING = Inr res" "n = ''classification'' \<or> n = ''disposition''"
  shows "\<exists>v src. src \<noteq> ''policy'' \<and> action_of res n = winner_or (handling_winners db c) n v src"
proof -
  have "snd (class_fallback c) \<noteq> ''policy''" "''existing_disposition'' \<noteq> ''policy''"
    by (simp_all add: class_fallback_def Let_def)
  then show ?thesis using handling_actions [OF assms(1)] assms(2) by metis
qed

lemma handling_winner_str:
  assumes "list_all handling_rule_ok (load_rules db POLICY_CATEGORY_ASSET_HANDLING)"
    and "map_of (handling_winners db c) n = Some a"
  shows "\<exists>s. ae_value a = JStr s"
proof -
  let ?rules = "load_rules db POLICY_CATEGORY_ASSET_HANDLING"
  have "list_all valid_scope ?rules" using assms(1) by (auto simp: list_all_iff handling_rule_ok_def)
  note w = evaluate_winner [OF this, of c n]
  then obtain r where r: "newest_by rule_sort_key (carriers c n ?rules) = Some r" "won_by c n r a"
    using assms(2) by (auto split: option.splits)
  then have "r \<in> set (carriers c n ?rules)" using newest_by_Some [OF r(1)] by blast
  then obtain v where v: "r \<in> set ?rules" "map_of (rule_actions r) n = Some v" by (auto simp: carriers_def)
  then have "(n, v) \<in> set (rule_actions r)" by (auto dest: map_of_SomeD)
  with assms(1) v r(2) show ?thesis
    by (fastforce simp: list_all_iff handling_rule_ok_def won_by_def is_str_in_iff)
qed

definition settled :: "string \<Rightarrow> action_explanation \<Rightarrow> string" where
  \<comment> \<open>what an action leaves in its column\<close>
  "settled old e = (if ae_source e = ''policy'' then jstr (ae_value e) else old)"

lemma audit_assets [simp]: "tb_assets (fst (audit_policy_asset_change now a action old new e c db)) = tb_assets db"
  by (simp add: audit_policy_asset_change_def record_audit_fst)

lemma get_set_asset:
  assumes "t_get asset_id i (tb_assets db) = Some r" "\<And>r. asset_id (f r) = asset_id r" "t_wf asset_id (tb_assets db)"
  shows "t_get asset_id i (tb_assets (set_asset i f db)) = Some (f r)"
  using assms t_get_modify [of asset_id f "tb_assets db" i "\<lambda>a. asset_id a = i"]
  by (auto simp: set_asset_def dest: t_get_Some)

lemma classification_row:
  assumes "t_get asset_id (asset_id a) (tb_assets db) = Some a" "t_wf asset_id (tb_assets db)"
  shows "t_get asset_id (asset_id a) (tb_assets (fst (apply_classification now a c e db))) =
    Some (a\<lparr>asset_classification := settled (asset_classification a) e\<rparr>)"
proof (cases "ae_source e = ''policy'' \<and> ae_value e \<noteq> JStr (asset_classification a)")
  case True
  with get_set_asset [OF assms(1) _ assms(2), of "\<lambda>r. r\<lparr>asset_classification := jstr (ae_value e)\<rparr>"]
  show ?thesis by (simp add: apply_classification_def Let_def sync_linked_devices_def settled_def)
next
  case False
  then have "settled (asset_classification a) e = asset_classification a" by (auto simp: settled_def)
  with assms(1) False show ?thesis by (simp only: apply_classification_def if_False fst_conv) simp
qed

lemma emit_disposition_assets:
  "emit_asset_disposition_changed now a p n src i pr rv net db = Inr db' \<Longrightarrow> tb_assets db' = tb_assets db"
  by (auto simp: emit_asset_disposition_changed_def rbind_Inr_iff split: if_splits dest!: emit_frame)

lemma disposition_row:
  assumes "apply_disposition now a c e db = Inr (db', ch)"
    and "t_get asset_id (asset_id a) (tb_assets db) = Some r" "t_wf asset_id (tb_assets db)"
    and "asset_disposition r = asset_disposition a"
  shows "t_get asset_id (asset_id a) (tb_assets db') = Some (r\<lparr>asset_disposition := settled (asset_disposition a) e\<rparr>)"
proof (cases "ae_source e = ''policy'' \<and> ae_value e \<noteq> JStr (asset_disposition a)")
  case True
  let ?db1 = "set_asset (asset_id a) (\<lambda>r. r\<lparr>asset_disposition := jstr (ae_value e)\<rparr>) db"
  obtain db2 i where au: "audit_policy_asset_change now a ''asset.policy_disposition_changed''
      (asset_disposition a) (jstr (ae_value e)) e c ?db1 = (db2, i)" by force
  then have "tb_assets db' = tb_assets db2"
    using assms(1) True by (auto simp: apply_disposition_def rbind_Inr_iff Let_def dest!: emit_disposition_assets)
  also have "tb_assets db2 = tb_assets ?db1" using audit_assets au by (metis fst_conv)
  finally have "tb_assets db' = tb_assets ?db1" .
  with get_set_asset [OF assms(2) _ assms(3), of "\<lambda>r. r\<lparr>asset_disposition := jstr (ae_value e)\<rparr>"] True
  show ?thesis by (simp add: settled_def)
next
  case False
  then have "settled (asset_disposition a) e = asset_disposition a" "db' = db"
    using assms(1) by (auto simp: settled_def apply_disposition_def)
  with assms(2,4) show ?thesis by simp
qed

lemma apply_row:
  assumes "apply_asset_handling now a c db = Inr (db', ch)" "asset_merged_into_asset_id a = None"
    and "t_get asset_id (asset_id a) (tb_assets db) = Some a" "t_wf asset_id (tb_assets db)"
  obtains res u where "evaluate db c POLICY_CATEGORY_ASSET_HANDLING = Inr res"
    "t_get asset_id (asset_id a) (tb_assets db') = Some (a\<lparr>
       asset_classification := settled (asset_classification a) (action_of res ''classification''),
       asset_disposition := settled (asset_disposition a) (action_of res ''disposition''), asset_updated_at := u\<rparr>)"
proof -
  obtain res db2 ch2 where res: "evaluate db c POLICY_CATEGORY_ASSET_HANDLING = Inr res"
    and d2: "apply_disposition now a c (action_of res ''disposition'')
      (fst (apply_classification now a c (action_of res ''classification'') db)) = Inr (db2, ch2)"
    and db': "db' = db2 \<or> db' = set_asset (asset_id a) (\<lambda>r. r\<lparr>asset_updated_at := now\<rparr>) db2"
    using assms(1,2) unfolding apply_asset_handling_def
    by (auto simp: rbind_Inr_iff Let_def split: if_splits)
  let ?db1 = "fst (apply_classification now a c (action_of res ''classification'') db)"
  let ?r1 = "a\<lparr>asset_classification := settled (asset_classification a) (action_of res ''classification'')\<rparr>"
  let ?r2 = "?r1\<lparr>asset_disposition := settled (asset_disposition a) (action_of res ''disposition'')\<rparr>"
  have wf1: "t_wf asset_id (tb_assets ?db1)" using touch_wf [OF touch_classification assms(4)] .
  have g2: "t_get asset_id (asset_id a) (tb_assets db2) = Some ?r2"
    by (rule disposition_row [OF d2 classification_row [OF assms(3,4)] wf1]) simp
  have wf2: "t_wf asset_id (tb_assets db2)" using touch_wf [OF touch_disposition [OF d2] wf1] .
  have "\<exists>u. t_get asset_id (asset_id a) (tb_assets db') = Some (?r2\<lparr>asset_updated_at := u\<rparr>)"
  proof (cases "db' = db2")
    case True
    with g2 show ?thesis by (intro exI [of _ "asset_updated_at a"]) simp
  next
    case False
    with db' get_set_asset [OF g2 _ wf2, of "\<lambda>r. r\<lparr>asset_updated_at := now\<rparr>"] show ?thesis by auto
  qed
  with res show ?thesis using that by blast
qed

lemma context_relabel:
  "\<exists>x y. asset_context db ov (a\<lparr>asset_classification := cl, asset_disposition := di, asset_updated_at := u\<rparr>) =
     relabel x y (asset_context db ov a)"
proof -
  let ?b = "a\<lparr>asset_classification := cl, asset_disposition := di, asset_updated_at := u\<rparr>"
  have "hostname_of db ?b = hostname_of db a" by (simp add: hostname_of_def cong del: option.case_cong_weak if_weak_cong)
  then have "asset_context db ov ?b = relabel (if cl \<noteq> [] then cl else ''Unknown'') (if di \<noteq> [] then di else ''unreviewed'')
      (asset_context db ov a)"
    by (simp add: asset_context_def relabel_def Let_def cong del: option.case_cong_weak if_weak_cong)
  then show ?thesis by blast
qed

lemma classification_idle: "\<not> (ae_source e = ''policy'' \<and> ae_value e \<noteq> JStr (asset_classification a)) \<Longrightarrow>
    apply_classification now a c e db = (db, [])"
  unfolding apply_classification_def by (rule if_not_P)

lemma disposition_idle: "\<not> (ae_source e = ''policy'' \<and> ae_value e \<noteq> JStr (asset_disposition a)) \<Longrightarrow>
    apply_disposition now a c e db = Inr (db, [])"
  unfolding apply_disposition_def by (rule if_not_P)

lemma settled_again:
  assumes "list_all handling_rule_ok (load_rules db POLICY_CATEGORY_ASSET_HANDLING)"
    and "evaluate db c POLICY_CATEGORY_ASSET_HANDLING = Inr res"
    and "evaluate db (relabel x y c) POLICY_CATEGORY_ASSET_HANDLING = Inr res'"
    and "n = ''classification'' \<or> n = ''disposition''"
  shows "ae_source (action_of res' n) = ''policy'' \<longrightarrow> ae_value (action_of res' n) = JStr (settled old (action_of res n))"
proof -
  obtain v s where vs: "s \<noteq> ''policy''" "action_of res n = winner_or (handling_winners db c) n v s"
    using handling_action [OF assms(2,4)] by blast
  obtain v' s' where vs': "s' \<noteq> ''policy''" "action_of res' n = winner_or (handling_winners db c) n v' s'"
    using handling_action [OF assms(3,4)] by (auto simp: evaluate_rules_relabel [OF assms(1)])
  show ?thesis
  proof (cases "map_of (handling_winners db c) n")
    case None
    with vs' show ?thesis by (simp add: winner_or_def)
  next
    case (Some a)
    then obtain t where "ae_value a = JStr t" using handling_winner_str [OF assms(1)] by blast
    with Some vs vs' show ?thesis by (auto simp: winner_or_def settled_def)
  qed
qed

subsection \<open>Who becomes inactive\<close>

definition inactivity_rule_ok :: "policy_rule \<Rightarrow> bool" where
  "inactivity_rule_ok r \<longleftrightarrow> valid_scope r \<and> list_all (\<lambda>(k, v). action_ok k v) (rule_actions r)"

definition inactivity_days :: "db \<Rightarrow> asset \<Rightarrow> int option" where
  "inactivity_days db a = (case evaluate db (asset_context db no_override a) POLICY_CATEGORY_ASSET_INACTIVITY of
     Inl _ \<Rightarrow> None | Inr res \<Rightarrow> json_int (jget ''inactive_after_days'' (JObj (res_effective res))))"

definition overdue :: "time \<Rightarrow> db \<Rightarrow> asset \<Rightarrow> bool" where
  "overdue now db a \<longleftrightarrow> (case (asset_last_seen a, inactivity_days db a) of
     (Some t, Some d) \<Rightarrow> t < now - d * day | _ \<Rightarrow> False)"

definition may_expire :: "asset \<Rightarrow> bool" where
  "may_expire a \<longleftrightarrow> asset_lifecycle_state a = Some LIFECYCLE_ACTIVE \<and> asset_first_seen a \<noteq> None \<and>
     asset_merged_into_asset_id a = None"

lemma fallback_days_pos: "1 \<le> fallback_inactive_days db"
  by (simp add: fallback_inactive_days_def split: option.splits)

lemma action_ok_days: "action_ok ''inactive_after_days'' v \<Longrightarrow> \<exists>d. v = JInt d \<and> 1 \<le> d"
  by (cases v) (auto simp: action_ok_def)

lemma inactivity_value:
  assumes "list_all inactivity_rule_ok (load_rules db POLICY_CATEGORY_ASSET_INACTIVITY)"
  shows "\<exists>res d. evaluate db c POLICY_CATEGORY_ASSET_INACTIVITY = Inr res \<and> 1 \<le> d \<and>
    json_int (jget ''inactive_after_days'' (JObj (res_effective res))) = Some d"
proof -
  let ?rules = "load_rules db POLICY_CATEGORY_ASSET_INACTIVITY"
  let ?n = "''inactive_after_days''"
  let ?e = "winner_or (evs_winners (evaluate_rules c ?rules)) ?n (JInt (fallback_inactive_days db)) ''global_setting''"
  have "effective_actions db c POLICY_CATEGORY_ASSET_INACTIVITY (evs_winners (evaluate_rules c ?rules)) = Inr [(?n, ?e)]"
    by (simp add: effective_actions_def)
  then obtain res where res: "evaluate db c POLICY_CATEGORY_ASSET_INACTIVITY = Inr res" "res_effective res = [(?n, ae_value ?e)]"
    by (simp add: evaluate_def evaluate_with_def Let_def)
  have "\<exists>d. ae_value ?e = JInt d \<and> 1 \<le> d"
  proof (cases "map_of (evs_winners (evaluate_rules c ?rules)) ?n")
    case None
    then show ?thesis using fallback_days_pos by (simp add: winner_or_def)
  next
    case (Some a)
    have "list_all valid_scope ?rules" using assms by (auto simp: list_all_iff inactivity_rule_ok_def)
    note w = evaluate_winner [OF this, of c ?n]
    then obtain r where r: "newest_by rule_sort_key (carriers c ?n ?rules) = Some r" "won_by c ?n r a"
      using Some by (auto split: option.splits)
    then have "r \<in> set (carriers c ?n ?rules)" using newest_by_Some [OF r(1)] by blast
    then obtain v where v: "r \<in> set ?rules" "map_of (rule_actions r) ?n = Some v" by (auto simp: carriers_def)
    then have "action_ok ?n v" using assms by (fastforce simp: list_all_iff inactivity_rule_ok_def dest: map_of_SomeD)
    moreover have "ae_value ?e = v" using Some r(2) v(2) by (auto simp: winner_or_def won_by_def)
    ultimately show ?thesis using action_ok_days by blast
  qed
  with res show ?thesis by auto
qed

lemma mark_one:
  assumes step: "mark_inactive_one now a (asset_context db no_override a) s = Inr s'"
    and t: "asset_touch UNIV db (fst s)" and a: "asset_lifecycle_state a = Some LIFECYCLE_ACTIVE"
  shows "if overdue now db a
    then tb_assets (fst s') = tb_assets (set_asset (asset_id a) (\<lambda>r. r\<lparr>asset_lifecycle_state := Some LIFECYCLE_INACTIVE\<rparr>) (fst s))
      \<and> snd s' = Suc (snd s) \<and> asset_touch UNIV db (fst s')
    else s' = s"
proof -
  let ?db1 = "set_asset (asset_id a) (\<lambda>r. r\<lparr>asset_lifecycle_state := Some LIFECYCLE_INACTIVE\<rparr>) (fst s)"
  obtain res d where ev: "evaluate db (asset_context db no_override a) POLICY_CATEGORY_ASSET_INACTIVITY = Inr res"
      "json_int (jget ''inactive_after_days'' (JObj (res_effective res))) = Some d"
    using step touch_context(2) [OF t] by (auto simp: mark_inactive_one_def rbind_Inr_iff split: option.splits)
  then have days: "inactivity_days db a = Some d" by (simp add: inactivity_days_def)
  show ?thesis
  proof (cases "overdue now db a")
    case True
    then obtain t where t': "asset_last_seen a = Some t" "t < now - d * day"
      by (auto simp: overdue_def days split: option.splits)
    then obtain ev' cr where em: "emit_asset_became_inactive now a t ?db1 = Inr (fst s', ev', cr)" and n: "snd s' = Suc (snd s)"
      using step ev a touch_context(2) [OF t]
      by (auto simp: mark_inactive_one_def rbind_Inr_iff)
    then obtain E Q where EQ: "fst s' = ?db1\<lparr>tb_domain_events := E, tb_event_alert_queue := Q\<rparr>"
      by (auto simp: emit_asset_became_inactive_def dest: emit_frame)
    have "asset_touch {asset_id a} (fst s) ?db1" by (rule touch_set_asset) simp
    from touch_trans [OF t this] have "asset_touch UNIV db ?db1" by simp
    moreover have "asset_touch UNIV ?db1 (fst s')"
      by (rule touch_side [where D = "tb_devices ?db1" and L = "tb_audit_logs ?db1" and E = E and Q = Q]) (simp add: EQ)
    ultimately have "asset_touch (UNIV \<union> UNIV) db (fst s')" by (rule touch_trans)
    with True n EQ show ?thesis by simp
  next
    case False
    with step ev days touch_context(2) [OF t] show ?thesis
      by (auto simp: mark_inactive_one_def rbind_Inr_iff overdue_def split: option.splits if_splits)
  qed
qed

lemma mark_all:
  assumes "rfold (\<lambda>(a, c). mark_inactive_one now a c) (map (\<lambda>a. (a, asset_context db no_override a)) xs) s = Inr s'"
    and "asset_touch UNIV db (fst s)" and "list_all (\<lambda>a. asset_lifecycle_state a = Some LIFECYCLE_ACTIVE) xs"
    and "t_wf asset_id (tb_assets (fst s))" and "distinct (map asset_id xs)"
  shows "snd s' = snd s + length (filter (overdue now db) xs) \<and>
    (\<forall>i r. t_get asset_id i (tb_assets (fst s)) = Some r \<longrightarrow> t_get asset_id i (tb_assets (fst s')) =
       Some (if i \<in> asset_id ` set (filter (overdue now db) xs) then r\<lparr>asset_lifecycle_state := Some LIFECYCLE_INACTIVE\<rparr> else r))"
  using assms
proof (induction xs arbitrary: s)
  case (Cons a xs)
  obtain s1 where s1: "mark_inactive_one now a (asset_context db no_override a) s = Inr s1"
      "rfold (\<lambda>(a, c). mark_inactive_one now a c) (map (\<lambda>a. (a, asset_context db no_override a)) xs) s1 = Inr s'"
    using Cons.prems(1) by (auto simp: rbind_Inr_iff)
  have one: "if overdue now db a
    then tb_assets (fst s1) = tb_assets (set_asset (asset_id a) (\<lambda>r. r\<lparr>asset_lifecycle_state := Some LIFECYCLE_INACTIVE\<rparr>) (fst s))
      \<and> snd s1 = Suc (snd s) \<and> asset_touch UNIV db (fst s1)
    else s1 = s"
    by (rule mark_one [OF s1(1) Cons.prems(2)]) (use Cons.prems(3) in simp)
  show ?case
  proof (cases "overdue now db a")
    case False
    with one Cons.IH [OF s1(2)] Cons.prems show ?thesis by simp
  next
    case True
    let ?f = "\<lambda>r. r\<lparr>asset_lifecycle_state := Some LIFECYCLE_INACTIVE\<rparr>"
    have assets: "tb_assets (fst s1) = t_modify (\<lambda>r. asset_id r = asset_id a) ?f (tb_assets (fst s))"
      and n: "snd s1 = Suc (snd s)" and t: "asset_touch UNIV db (fst s1)"
      using one True by (simp_all add: set_asset_def)
    have wf: "t_wf asset_id (tb_assets (fst s1))" unfolding assets using Cons.prems(4) by (rule t_wf_modify [rotated]) simp
    have get: "t_get asset_id i (tb_assets (fst s1)) = map_option (\<lambda>r. if asset_id r = asset_id a then ?f r else r)
        (t_get asset_id i (tb_assets (fst s)))" for i
      unfolding assets using Cons.prems(4) by (rule t_get_modify [rotated]) simp
    note IH = Cons.IH [OF s1(2) t _ wf]
    have "asset_id a \<notin> asset_id ` set (filter (overdue now db) xs)" using Cons.prems(5) by auto
    with IH Cons.prems(3,5) n True get show ?thesis by (auto dest: t_get_Some)
  qed
qed simp

subsection \<open>Properties\<close>

text \<open>C24: reconciliation always finishes and its batches are invisible: for every batch size of at
  least one, the loop over keyset pages equals handling every unmerged asset after the starting id
  once, in id order, with the contexts of the database at the start.\<close>

theorem reconciliation_batches_invisible:
  assumes "1 \<le> batch_size" and "t_wf asset_id (tb_assets db)"
  shows "reconcile_asset_handling now batch_size after_id db = Some (handle_batch now (pending db after_id) (db, 0))"
proof -
  have "length (pending db after_id) < reconcile_fuel db"
    by (simp add: pending_def sorted_by_def t_select_def reconcile_fuel_def le_imp_less_Suc)
  with assms show ?thesis unfolding reconcile_asset_handling_def
    by (subst reconcile_loop_batch) simp_all
qed

text \<open>C21: asset handling converges in one step: once the policies have been applied to an asset,
  applying them again to the stored row, at any later time, changes nothing and writes no audit
  row or event.\<close>

theorem asset_handling_converges:
  assumes "apply_asset_handling now a (asset_context db ov a) db = Inr (db', ch)"
    and "t_get asset_id (asset_id a) (tb_assets db) = Some a" and "t_wf asset_id (tb_assets db)"
    and "list_all handling_rule_ok (load_rules db POLICY_CATEGORY_ASSET_HANDLING)"
  shows "\<exists>a'. t_get asset_id (asset_id a) (tb_assets db') = Some a' \<and>
    apply_asset_handling later a' (asset_context db' ov a') db' = Inr (db', [])"
proof (cases "asset_merged_into_asset_id a")
  case None
  let ?c = "asset_context db ov a"
  obtain res u where res: "evaluate db ?c POLICY_CATEGORY_ASSET_HANDLING = Inr res"
    and row: "t_get asset_id (asset_id a) (tb_assets db') = Some (a\<lparr>
       asset_classification := settled (asset_classification a) (action_of res ''classification''),
       asset_disposition := settled (asset_disposition a) (action_of res ''disposition''), asset_updated_at := u\<rparr>)"
    using apply_row [OF assms(1) None assms(2,3)] .
  let ?a = "a\<lparr>asset_classification := settled (asset_classification a) (action_of res ''classification''),
       asset_disposition := settled (asset_disposition a) (action_of res ''disposition''), asset_updated_at := u\<rparr>"
  note same = touch_context [OF touch_apply [OF assms(1)]]
  obtain x y where ctx: "asset_context db' ov ?a = relabel x y ?c" using context_relabel same(1) by metis
  obtain res' where res': "evaluate db (relabel x y ?c) POLICY_CATEGORY_ASSET_HANDLING = Inr res'"
    using evaluate_handling_total by blast
  note again = settled_again [OF assms(4) res res']
  have "apply_classification later ?a (relabel x y ?c) (action_of res' ''classification'') db' = (db', [])"
    using again [of "''classification''" "asset_classification a"] by (intro classification_idle) simp
  moreover have "apply_disposition later ?a (relabel x y ?c) (action_of res' ''disposition'') db' = Inr (db', [])"
    using again [of "''disposition''" "asset_disposition a"] by (intro disposition_idle) simp
  ultimately have "apply_asset_handling later ?a (asset_context db' ov ?a) db' = Inr (db', [])"
    using None by (simp add: apply_asset_handling_def ctx same(2) res')
  with row show ?thesis by blast
next
  case (Some m)
  with assms(1,2) show ?thesis by (auto simp: apply_asset_handling_def)
qed


text \<open>C22: the inactivity pass marks exactly the assets that are overdue under their own policy: an
  active, seen, unmerged asset becomes inactive iff it was last seen more than the number of days
  its inactivity policy (or the global setting) gives, and no other asset changes; the coarse
  one-day prefilter of the query loses no asset. The count returned is the number of assets
  marked.\<close>

theorem inactivity_pass_is_exact:
  assumes "mark_inactive_assets now db = Inr (db', n)" and "t_wf asset_id (tb_assets db)"
    and "list_all inactivity_rule_ok (load_rules db POLICY_CATEGORY_ASSET_INACTIVITY)"
  shows "(\<forall>i a. t_get asset_id i (tb_assets db) = Some a \<longrightarrow> t_get asset_id i (tb_assets db') =
      Some (if may_expire a \<and> overdue now db a then a\<lparr>asset_lifecycle_state := Some LIFECYCLE_INACTIVE\<rparr> else a)) \<and>
    n = length (filter (\<lambda>a. may_expire a \<and> overdue now db a) (t_rows (tb_assets db)))"
proof -
  let ?cs = "inactivity_candidates now db"
  have cs: "set ?cs = {a \<in> set (t_rows (tb_assets db)). may_expire a \<and> (\<exists>t. asset_last_seen a = Some t \<and> t < now - day)}"
    by (auto simp: inactivity_candidates_def t_select_def may_expire_def split: option.splits)
  have late: "overdue now db a \<Longrightarrow> \<exists>t. asset_last_seen a = Some t \<and> t < now - day" for a
  proof -
    assume o: "overdue now db a"
    obtain res d where "evaluate db (asset_context db no_override a) POLICY_CATEGORY_ASSET_INACTIVITY = Inr res" "1 \<le> d"
        "json_int (jget ''inactive_after_days'' (JObj (res_effective res))) = Some d"
      using inactivity_value [OF assms(3)] by blast
    then have "inactivity_days db a = Some d" by (simp add: inactivity_days_def)
    with o \<open>1 \<le> d\<close> show ?thesis by (auto simp: overdue_def split: option.splits)
  qed
  have dist: "distinct (map asset_id ?cs)"
    using assms(2) by (simp add: inactivity_candidates_def sorted_by_def t_select_def t_wf_def distinct_map_filter
        distinct_map inj_on_def)
  have act: "list_all (\<lambda>a. asset_lifecycle_state a = Some LIFECYCLE_ACTIVE) ?cs"
    using cs by (auto simp: list_all_iff may_expire_def)
  have "n = length (filter (overdue now db) ?cs) \<and>
    (\<forall>i r. t_get asset_id i (tb_assets db) = Some r \<longrightarrow> t_get asset_id i (tb_assets db') =
       Some (if i \<in> asset_id ` set (filter (overdue now db) ?cs) then r\<lparr>asset_lifecycle_state := Some LIFECYCLE_INACTIVE\<rparr> else r))"
    using mark_all [OF assms(1) [unfolded mark_inactive_assets_def], unfolded fst_conv snd_conv, OF touch_refl act assms(2) dist]
    by simp
  moreover have "(i \<in> asset_id ` set (filter (overdue now db) ?cs)) = (may_expire a \<and> overdue now db a)"
    if "t_get asset_id i (tb_assets db) = Some a" for i a
    using that assms(2) cs late by (auto dest: t_get_Some t_wf_eq simp: image_iff)
  moreover have "length (filter (overdue now db) ?cs) = length (filter (\<lambda>a. may_expire a \<and> overdue now db a) (t_rows (tb_assets db)))"
  proof -
    have "length (filter (overdue now db) ?cs) = length (filter (overdue now db) (t_select (\<lambda>a.
        asset_lifecycle_state a = Some LIFECYCLE_ACTIVE \<and> (case asset_last_seen a of None \<Rightarrow> False | Some t \<Rightarrow> t < now - day)
        \<and> asset_first_seen a \<noteq> None \<and> asset_merged_into_asset_id a = None) (tb_assets db)))"
      unfolding inactivity_candidates_def sorted_by_def filter_sort length_sort ..
    also have "\<dots> = length (filter (\<lambda>a. may_expire a \<and> overdue now db a) (t_rows (tb_assets db)))"
      unfolding t_select_def filter_filter
    proof (rule arg_cong [where f = length], rule filter_cong [OF refl])
      fix a
      have "overdue now db a \<Longrightarrow> (case asset_last_seen a of None \<Rightarrow> False | Some t \<Rightarrow> t < now - day)"
        using late [of a] by auto
      then show "((asset_lifecycle_state a = Some LIFECYCLE_ACTIVE \<and> (case asset_last_seen a of None \<Rightarrow> False | Some t \<Rightarrow> t < now - day)
          \<and> asset_first_seen a \<noteq> None \<and> asset_merged_into_asset_id a = None) \<and> overdue now db a) = (may_expire a \<and> overdue now db a)"
        by (auto simp: may_expire_def)
    qed
    finally show ?thesis .
  qed
  ultimately show ?thesis by simp
qed


subsection \<open>Witnesses\<close>

theorem reconciliation_batches_invisible_witness:
  "reconcile_asset_handling 100 1 0 rule_world = Some (handle_batch 100 (pending rule_world 0) (rule_world, 0)) \<and>
   pending rule_world 0 = [sample_asset]"
proof -
  have "t_wf asset_id (tb_assets rule_world)" "pending rule_world 0 = [sample_asset]" by code_simp+
  with reconciliation_batches_invisible [of 1 rule_world 100 0] show ?thesis by simp
qed

definition handled :: "db \<times> (string \<times> json) list" where
  "handled = projr (apply_asset_handling 100 sample_asset (asset_context rule_world no_override sample_asset) rule_world)"

lemma handled_eq: "apply_asset_handling 100 sample_asset (asset_context rule_world no_override sample_asset) rule_world =
    Inr (fst handled, snd handled)"
proof -
  have "\<not> isl (apply_asset_handling 100 sample_asset (asset_context rule_world no_override sample_asset) rule_world)" by code_simp
  then show ?thesis unfolding handled_def prod.collapse by (rule sum.collapse(2) [symmetric])
qed

theorem asset_handling_converges_witness:
  "\<exists>a'. t_get asset_id 1 (tb_assets (fst handled)) = Some a' \<and>
     apply_asset_handling 200 a' (asset_context (fst handled) no_override a') (fst handled) = Inr (fst handled, []) \<and>
     map fst (snd handled) = [''classification'']"
proof -
  have "t_get asset_id (asset_id sample_asset) (tb_assets rule_world) = Some sample_asset" by code_simp
  moreover have "t_wf asset_id (tb_assets rule_world)" by code_simp
  moreover have "list_all handling_rule_ok (load_rules rule_world POLICY_CATEGORY_ASSET_HANDLING)" by code_simp
  moreover have "map fst (snd handled) = [''classification'']" by code_simp
  moreover have "asset_id sample_asset = 1" by code_simp
  ultimately show ?thesis using asset_handling_converges [OF handled_eq, where later = 200] by simp
qed

definition idle_world :: db where
  "idle_world = small_world\<lparr>tb_policy_rules := \<lparr>t_next = 2, t_rows = [
     sample_rule\<lparr>pr_category := POLICY_CATEGORY_ASSET_INACTIVITY,
       pr_actions := JObj [(''inactive_after_days'', JInt 3)]\<rparr>]\<rparr>\<rparr>"

definition swept :: "db \<times> nat" where
  "swept = projr (mark_inactive_assets (4 * day) idle_world)"

theorem inactivity_pass_is_exact_witness:
  "t_get asset_id 1 (tb_assets (fst swept)) = Some (sample_asset\<lparr>asset_lifecycle_state := Some LIFECYCLE_INACTIVE\<rparr>) \<and> snd swept = 1"
proof -
  have "\<not> isl (mark_inactive_assets (4 * day) idle_world)" by code_simp
  then have run: "mark_inactive_assets (4 * day) idle_world = Inr (fst swept, snd swept)"
    unfolding swept_def prod.collapse by (rule sum.collapse(2) [symmetric])
  have "t_wf asset_id (tb_assets idle_world)" by code_simp
  moreover have "list_all inactivity_rule_ok (load_rules idle_world POLICY_CATEGORY_ASSET_INACTIVITY)" by code_simp
  ultimately have exact: "(\<forall>i a. t_get asset_id i (tb_assets idle_world) = Some a \<longrightarrow> t_get asset_id i (tb_assets (fst swept)) =
      Some (if may_expire a \<and> overdue (4 * day) idle_world a then a\<lparr>asset_lifecycle_state := Some LIFECYCLE_INACTIVE\<rparr> else a)) \<and>
    snd swept = length (filter (\<lambda>a. may_expire a \<and> overdue (4 * day) idle_world a) (t_rows (tb_assets idle_world)))"
    by (rule inactivity_pass_is_exact [OF run])
  have "may_expire sample_asset" "overdue (4 * day) idle_world sample_asset" by code_simp+
  moreover have "t_get asset_id 1 (tb_assets idle_world) = Some sample_asset" "t_rows (tb_assets idle_world) = [sample_asset]"
    by code_simp+
  ultimately show ?thesis using exact by simp
qed

end
