(* ===== verification/Priority.thy ===== *)
theory Priority
  imports Policy_Rules
begin

section \<open>Operational priority of findings\<close>

text \<open>
  \<^verbatim>\<open>backend/app/intel/priority.py\<close>, model 2b.1: a finding is scored by adding points for its
  impact, its exploitation likelihood, its listing among known exploited vulnerabilities, and the
  criticality, exposure and tags of its asset; the capped score falls into one of four bands, and
  two overrides can only raise the band. Scores are decimals in the database; the thresholds are
  compared exactly here, as they are after conversion to floats, because both sides have few
  digits. The em dash of two notes is written as a hyphen.
\<close>

definition PRIORITY_ORDER :: "(string \<times> nat) list" where
  "PRIORITY_ORDER = [(PRIORITY_P1, 1), (PRIORITY_P2, 2), (PRIORITY_P3, 3), (PRIORITY_P4, 4)]"

definition priority_rank :: "string \<Rightarrow> nat" where
  \<comment> \<open>\<open>PRIORITY_ORDER[p]\<close>; other tokens never reach it, and get the rank the sort gives them\<close>
  "priority_rank p = (case map_of PRIORITY_ORDER p of None \<Rightarrow> 5 | Some n \<Rightarrow> n)"

record priority_input =
  pi_cvss_base_score :: "rat option"
  pi_detector_severity :: "string option"
  pi_epss_score :: "rat option"
  pi_epss_percentile :: "rat option"
  pi_kev :: "bool option"
  pi_asset_criticality :: "string option"
  pi_proven_wan_exposure :: bool
  pi_has_cui_tag :: bool
  pi_first_seen :: "time option"
  pi_treatment_state :: "string option"
  pi_now :: time
  pi_data_freshness :: json

record priority_result =
  prr_priority :: string
  prr_score :: int
  prr_model_version :: string
  prr_factors :: "json list"
  prr_overrides :: "json list"
  prr_calculated_at :: time
  prr_explanation :: json

subsection \<open>Points\<close>

definition age_days :: "time option \<Rightarrow> time \<Rightarrow> int" where
  "age_days first_seen now = (case first_seen of None \<Rightarrow> 0 | Some t \<Rightarrow> max 0 ((now - t) div day))"

definition cvss_points :: "rat \<Rightarrow> int" where
  "cvss_points cvss = (if 9 \<le> cvss then 40 else if 7 \<le> cvss then 30 else if 4 \<le> cvss then 20
     else if 0 < cvss then 10 else 0)"

definition severity_points :: "string \<Rightarrow> int" where
  "severity_points s = (case map_of [(''critical'', 40), (''high'', 30), (''medium'', 20), (''low'', 10)] s of
     None \<Rightarrow> 0 | Some n \<Rightarrow> n)"

definition detector_token :: "string option \<Rightarrow> string" where
  "detector_token severity = (let s = py_lower (strip (str_or severity)) in if s \<noteq> [] then s else ''unknown'')"

definition impact_points :: "rat option \<Rightarrow> string option \<Rightarrow> int \<times> json" where
  "impact_points cvss severity = (case cvss of
     Some v \<Rightarrow> (cvss_points v, JObj [(''factor'', JStr ''cvss''), (''value'', JNum v),
       (''points'', JInt (cvss_points v)), (''source'', JStr ''nvd'')])
   | None \<Rightarrow> let s = detector_token severity in
       (severity_points s, JObj [(''factor'', JStr ''detector_severity''), (''value'', JStr s),
         (''points'', JInt (severity_points s)), (''source'', JStr ''detector'')]))"

definition percentile_points :: "rat option \<Rightarrow> int" where
  "percentile_points percentile = (case percentile of None \<Rightarrow> 0
     | Some p \<Rightarrow> if 98 / 100 \<le> p then 25 else if 95 / 100 \<le> p then 20 else if 90 / 100 \<le> p then 15
         else if 75 / 100 \<le> p then 10 else if 50 / 100 \<le> p then 5 else 0)"

definition epss_points :: "rat option \<Rightarrow> rat option \<Rightarrow> int \<times> json" where
  "epss_points percentile score = (percentile_points percentile, JObj [(''factor'', JStr ''epss_percentile''),
     (''value'', jopt JNum percentile), (''epss_score'', jopt JNum score),
     (''points'', JInt (percentile_points percentile)), (''source'', JStr ''first_epss''),
     (''note'', JStr (''EPSS is exploit likelihood/probability, not severity. '' @
       ''Percentile thresholds are Nuclei Dashboard product prioritization '' @
       ''thresholds, not a FIRST standard.''))])"

definition kev_points :: "bool option \<Rightarrow> int \<times> json" where
  "kev_points kev = (let (points, note) = (case kev of
       Some True \<Rightarrow> (35, ''CISA KEV - known exploited vulnerability'')
     | Some False \<Rightarrow> (0, ''Not listed in the official CISA KEV catalog.'')
     | None \<Rightarrow> (0, ''Unknown / not synchronized''))
   in (points, JObj [(''factor'', JStr ''cisa_kev''), (''value'', jopt JBool kev), (''points'', JInt points),
        (''source'', JStr ''cisa_kev''), (''note'', JStr note)]))"

definition CRITICALITY_POINTS :: "(string \<times> int) list" where
  "CRITICALITY_POINTS = [(CRITICALITY_CRITICAL, 20), (CRITICALITY_HIGH, 12), (CRITICALITY_NORMAL, 5), (CRITICALITY_LOW, 0)]"

definition criticality_value :: "string option \<Rightarrow> int" where
  "criticality_value criticality =
     (let value = py_lower (strip (if str_or criticality \<noteq> [] then str_or criticality else CRITICALITY_NORMAL))
      in case map_of CRITICALITY_POINTS value of None \<Rightarrow> 0 | Some n \<Rightarrow> n)"

definition criticality_points :: "string option \<Rightarrow> int \<times> json" where
  "criticality_points criticality = (criticality_value criticality, JObj [(''factor'', JStr ''asset_criticality''),
     (''value'', JStr (py_lower (strip (if str_or criticality \<noteq> [] then str_or criticality else CRITICALITY_NORMAL)))),
     (''points'', JInt (criticality_value criticality))])"

definition exposure_points :: "bool \<Rightarrow> int \<times> json" where
  "exposure_points proven = (if proven
     then (15, JObj [(''factor'', JStr ''internet_exposure''), (''value'', JStr ''proven''), (''points'', JInt 15)])
     else (0, JObj [(''factor'', JStr ''internet_exposure''), (''value'', JStr ''unknown''), (''points'', JInt 0),
        (''note'', JStr ''WAN/Internet exposure was not proven from Scan Run or Detection Evidence.'')]))"

definition cui_points :: "bool \<Rightarrow> int \<times> json" where
  "cui_points has_cui = (if has_cui then 10 else 0,
     JObj [(''factor'', JStr ''cui_tag''), (''value'', JBool has_cui), (''points'', JInt (if has_cui then 10 else 0))])"

definition age_value :: "int \<Rightarrow> int" where
  "age_value days = (if 180 \<le> days then 10 else if 90 \<le> days then 7 else if 30 \<le> days then 4 else 0)"

definition age_points :: "int \<Rightarrow> int \<times> json" where
  "age_points days = (age_value days, JObj [(''factor'', JStr ''finding_age_days''), (''value'', JInt days),
     (''points'', JInt (age_value days))])"

definition band :: "int \<Rightarrow> string" where
  "band score = (if 75 \<le> score then PRIORITY_P1 else if 50 \<le> score then PRIORITY_P2
     else if 25 \<le> score then PRIORITY_P3 else PRIORITY_P4)"

definition higher :: "string \<Rightarrow> string \<Rightarrow> string" where
  "higher left right = (if priority_rank left \<le> priority_rank right then left else right)"

subsection \<open>The calculation\<close>

definition raw_points :: "priority_input \<Rightarrow> (int \<times> json) list" where
  \<comment> \<open>the factors in the order they are appended; the treatment is listed and never scored\<close>
  "raw_points d = [impact_points (pi_cvss_base_score d) (pi_detector_severity d),
     epss_points (pi_epss_percentile d) (pi_epss_score d), kev_points (pi_kev d),
     criticality_points (pi_asset_criticality d), exposure_points (pi_proven_wan_exposure d),
     cui_points (pi_has_cui_tag d), age_points (age_days (pi_first_seen d) (pi_now d)),
     (0, JObj [(''factor'', JStr ''treatment''), (''value'', jopt JStr (pi_treatment_state d)), (''points'', JInt 0),
        (''note'', JStr ''Treatment does not change operational priority in model 2b.1.'')])]"

definition cap_score :: "int \<Rightarrow> int \<times> json list" where
  "cap_score score = (if 100 < score
     then (100, [JObj [(''factor'', JStr ''score_cap''), (''value'', JInt score), (''points'', JInt (100 - score))]])
     else (score, []))"

definition floors :: "priority_input \<Rightarrow> bool \<times> bool \<times> string" where
  "floors d = (case pi_cvss_base_score d of
     Some cvss \<Rightarrow> (9 \<le> cvss, 7 \<le> cvss,
       if 9 \<le> cvss then ''Critical CVSS severity floor'' else ''High CVSS severity floor'')
   | None \<Rightarrow> let s = py_lower (strip (str_or (pi_detector_severity d)))
       in (s = ''critical'', s = ''high'',
           if s = ''critical'' then ''Critical detector severity floor'' else ''High detector severity floor''))"

definition override_entry :: "string \<Rightarrow> string \<Rightarrow> string \<Rightarrow> json" where
  "override_entry kind priority reason =
     JObj [(''type'', JStr kind), (''priority'', JStr priority), (''reason'', JStr reason)]"

definition apply_kev :: "bool option \<Rightarrow> string \<Rightarrow> string \<times> json list" where
  "apply_kev kev priority = (if kev = Some True
     then (PRIORITY_P1, [override_entry ''kev_minimum'' PRIORITY_P1 ''CISA KEV - known exploited vulnerability''])
     else (priority, []))"

definition apply_floor :: "string \<Rightarrow> string \<Rightarrow> string \<Rightarrow> string \<times> json list" where
  \<comment> \<open>raise to at least a band; the override is recorded only when it changes something\<close>
  "apply_floor least reason priority = (higher priority least,
     if priority_rank least < priority_rank priority then [override_entry ''severity_floor'' least reason] else [])"

definition apply_floors :: "priority_input \<Rightarrow> string \<Rightarrow> string \<times> json list" where
  "apply_floors d priority = (let (critical, high, reason) = floors d in
     if critical then apply_floor PRIORITY_P2 reason priority
     else if high then apply_floor PRIORITY_P3 reason priority else (priority, []))"

definition factor_points :: "json \<Rightarrow> int" where
  \<comment> \<open>\<open>int(item.get("points") or 0)\<close>\<close>
  "factor_points item = (case json_int (jor (jget ''points'' item) (JInt 0)) of None \<Rightarrow> 0 | Some n \<Rightarrow> n)"

definition calculate_asset_finding_priority :: "priority_input \<Rightarrow> priority_result" where
  "calculate_asset_finding_priority d =
     (let (score, cap) = cap_score (sum_list (map fst (raw_points d)));
          factors = map snd (raw_points d) @ cap;
          (p1, o1) = apply_kev (pi_kev d) (band score);
          (priority, o2) = apply_floors d p1;
          overrides = o1 @ o2
      in \<lparr>prr_priority = priority, prr_score = score, prr_model_version = PRIORITY_MODEL_VERSION,
          prr_factors = factors, prr_overrides = overrides, prr_calculated_at = pi_now d,
          prr_explanation = JObj [(''model_version'', JStr PRIORITY_MODEL_VERSION), (''score'', JInt score),
            (''priority'', JStr priority), (''overrides'', JArr overrides), (''factors'', JArr factors),
            (''data_freshness'', jor (pi_data_freshness d) (JObj [])),
            (''label'', JStr ''Nuclei Dashboard operational priority''),
            (''factor_sum'', JInt (sum_list (map factor_points factors)))]\<rparr>)"


subsection \<open>What the calculation promises\<close>

lemma points_nonneg: "0 \<le> cvss_points v" "0 \<le> severity_points s" "0 \<le> percentile_points p" "0 \<le> criticality_value c" "0 \<le> age_value n"
  by (auto simp: cvss_points_def severity_points_def percentile_points_def criticality_value_def CRITICALITY_POINTS_def
      age_value_def Let_def dest!: map_of_SomeD split: option.splits)

lemma factor_points_obj: "map_of kvs ''points'' = Some (JInt n) \<Longrightarrow> factor_points (JObj kvs) = n"
  by (simp add: factor_points_def jor_def)

lemma factor_points_each:
  "factor_points (snd (impact_points c s)) = fst (impact_points c s)"
  "factor_points (snd (epss_points p q)) = fst (epss_points p q)"
  "factor_points (snd (kev_points k)) = fst (kev_points k)"
  "factor_points (snd (criticality_points a)) = fst (criticality_points a)"
  "factor_points (snd (exposure_points b)) = fst (exposure_points b)"
  "factor_points (snd (cui_points b)) = fst (cui_points b)"
  "factor_points (snd (age_points n)) = fst (age_points n)"
  by (simp_all add: impact_points_def epss_points_def criticality_points_def exposure_points_def cui_points_def
      age_points_def kev_points_def Let_def factor_points_obj split: option.splits prod.splits)

lemma factors_sum: "sum_list (map factor_points (map snd (raw_points d))) = sum_list (map fst (raw_points d))"
  by (simp add: raw_points_def factor_points_each factor_points_obj)

definition raw_score :: "priority_input \<Rightarrow> int" where
  "raw_score d = sum_list (map fst (raw_points d))"

lemma raw_score_eq: "raw_score d = fst (impact_points (pi_cvss_base_score d) (pi_detector_severity d)) +
    percentile_points (pi_epss_percentile d) + (if pi_kev d = Some True then 35 else 0) +
    criticality_value (pi_asset_criticality d) + (if pi_proven_wan_exposure d then 15 else 0) +
    (if pi_has_cui_tag d then 10 else 0) + age_value (age_days (pi_first_seen d) (pi_now d))"
  by (simp add: raw_score_def raw_points_def epss_points_def kev_points_def criticality_points_def
      exposure_points_def cui_points_def age_points_def Let_def split: option.splits bool.splits)

lemma raw_score_nonneg: "0 \<le> raw_score d"
proof -
  have "0 \<le> fst (impact_points c s)" for c s
    by (auto simp: impact_points_def points_nonneg Let_def split: option.splits)
  then show ?thesis by (simp add: raw_score_eq points_nonneg add_nonneg_nonneg)
qed

text \<open>The least band the overrides allow, and the band as one expression over ranks.\<close>

definition floor_rank :: "priority_input \<Rightarrow> nat" where
  "floor_rank d = (if fst (floors d) then 2 else if fst (snd (floors d)) then 3 else 4)"

lemma rank_simps [simp]: "priority_rank PRIORITY_P1 = 1" "priority_rank PRIORITY_P2 = 2"
  "priority_rank PRIORITY_P3 = 3" "priority_rank PRIORITY_P4 = 4"
  by (simp_all add: priority_rank_def PRIORITY_ORDER_def)

lemma band_rank: "priority_rank (band n) = (if 75 \<le> n then 1 else if 50 \<le> n then 2 else if 25 \<le> n then 3 else 4)"
  by (simp add: band_def)

lemma band_bounds: "1 \<le> priority_rank (band n) \<and> priority_rank (band n) \<le> 4"
  by (simp add: band_rank)

lemma higher_rank: "priority_rank (higher p q) = min (priority_rank p) (priority_rank q)"
  by (simp add: higher_def min_def)

lemma calculated:
  shows calculated_score: "prr_score (calculate_asset_finding_priority d) = min 100 (raw_score d)"
    and calculated_rank: "priority_rank (prr_priority (calculate_asset_finding_priority d)) =
      min (min (priority_rank (band (min 100 (raw_score d)))) (if pi_kev d = Some True then 1 else 4)) (floor_rank d)"
    and calculated_band: "prr_priority (calculate_asset_finding_priority d) \<in> set PRIORITIES"
    and calculated_factors: "sum_list (map factor_points (prr_factors (calculate_asset_finding_priority d))) = min 100 (raw_score d)"
proof -
  obtain c h r where f: "floors d = (c, h, r)" by (cases "floors d")
  show "prr_score (calculate_asset_finding_priority d) = min 100 (raw_score d)"
    by (simp add: calculate_asset_finding_priority_def cap_score_def raw_score_def Let_def split: prod.splits)
  show "sum_list (map factor_points (prr_factors (calculate_asset_finding_priority d))) = min 100 (raw_score d)"
    using factors_sum [of d]
    by (simp add: calculate_asset_finding_priority_def cap_score_def raw_score_def factor_points_obj Let_def split: prod.splits)
  show "priority_rank (prr_priority (calculate_asset_finding_priority d)) =
      min (min (priority_rank (band (min 100 (raw_score d)))) (if pi_kev d = Some True then 1 else 4)) (floor_rank d)"
    using band_bounds [of 100] band_bounds [of "raw_score d"]
    by (auto simp: calculate_asset_finding_priority_def cap_score_def raw_score_def apply_kev_def apply_floors_def f
        floor_rank_def apply_floor_def higher_rank Let_def min_def split: prod.splits)
  show "prr_priority (calculate_asset_finding_priority d) \<in> set PRIORITIES"
    by (auto simp: calculate_asset_finding_priority_def cap_score_def apply_kev_def apply_floors_def f PRIORITIES_def
        apply_floor_def higher_def band_def Let_def split: prod.splits if_splits)
qed


text \<open>The order of risk: every input of the second finding is at least as bad, on the same evidence
  of severity (a CVSS score for both, or a detector severity for both).\<close>

definition at_least_as_risky :: "priority_input \<Rightarrow> priority_input \<Rightarrow> bool" where
  "at_least_as_risky d e \<longleftrightarrow>
     (case (pi_cvss_base_score d, pi_cvss_base_score e) of
        (Some u, Some v) \<Rightarrow> u \<le> v
      | (None, None) \<Rightarrow> severity_points (detector_token (pi_detector_severity d)) \<le> severity_points (detector_token (pi_detector_severity e))
      | _ \<Rightarrow> False) \<and>
     pi_epss_percentile d \<le> pi_epss_percentile e \<and> (pi_kev d = Some True \<longrightarrow> pi_kev e = Some True) \<and>
     criticality_value (pi_asset_criticality d) \<le> criticality_value (pi_asset_criticality e) \<and>
     (pi_proven_wan_exposure d \<longrightarrow> pi_proven_wan_exposure e) \<and> (pi_has_cui_tag d \<longrightarrow> pi_has_cui_tag e) \<and>
     age_days (pi_first_seen d) (pi_now d) \<le> age_days (pi_first_seen e) (pi_now e)"

lemma percentile_mono: "p \<le> q \<Longrightarrow> percentile_points p \<le> percentile_points q"
  by (cases p; cases q) (auto simp: percentile_points_def)

lemma age_mono: "m \<le> n \<Longrightarrow> age_value m \<le> age_value n"
  by (simp add: age_value_def)

lemma severity_cases: "severity_points s = 40 \<longleftrightarrow> s = ''critical''" "severity_points s = 30 \<longleftrightarrow> s = ''high''"
  "severity_points s \<in> {0, 10, 20, 30, 40}"
  by (auto simp: severity_points_def)

lemma detector_floor: "py_lower (strip (str_or s)) = ''critical'' \<longleftrightarrow> severity_points (detector_token s) = 40"
  "py_lower (strip (str_or s)) = ''high'' \<longleftrightarrow> severity_points (detector_token s) = 30"
  by (auto simp: severity_cases detector_token_def Let_def)

lemma impact_mono:
  assumes "at_least_as_risky d e"
  shows "fst (impact_points (pi_cvss_base_score d) (pi_detector_severity d))
       \<le> fst (impact_points (pi_cvss_base_score e) (pi_detector_severity e))"
    and "floor_rank e \<le> floor_rank d"
proof -
  have "u \<le> v \<Longrightarrow> cvss_points u \<le> cvss_points v" for u v by (simp add: cvss_points_def)
  with assms show "fst (impact_points (pi_cvss_base_score d) (pi_detector_severity d))
       \<le> fst (impact_points (pi_cvss_base_score e) (pi_detector_severity e))"
    by (auto simp: at_least_as_risky_def impact_points_def Let_def split: option.splits)
  show "floor_rank e \<le> floor_rank d"
  proof (cases "pi_cvss_base_score d")
    case None
    with assms have "pi_cvss_base_score e = None" by (auto simp: at_least_as_risky_def split: option.splits)
    with None assms show ?thesis
      using severity_cases(3) [of "detector_token (pi_detector_severity d)"] severity_cases(3) [of "detector_token (pi_detector_severity e)"]
      by (auto simp: at_least_as_risky_def floor_rank_def floors_def Let_def detector_floor)
  next
    case (Some u)
    with assms obtain v where "pi_cvss_base_score e = Some v" "u \<le> v"
      by (auto simp: at_least_as_risky_def split: option.splits)
    with Some show ?thesis by (simp add: floor_rank_def floors_def)
  qed
qed

lemma raw_score_mono: "at_least_as_risky d e \<Longrightarrow> raw_score d \<le> raw_score e"
  unfolding raw_score_eq
  by (intro add_mono impact_mono(1)) (auto simp: at_least_as_risky_def intro: percentile_mono age_mono)


subsection \<open>Recalculation of stored findings\<close>

definition latest_evidence :: "db \<Rightarrow> nat \<Rightarrow> evidence_finding option" where
  "latest_evidence db i = newest_by (\<lambda>r. (fnd_found_at r, fnd_id r))
     (t_select (\<lambda>r. fnd_asset_finding_id r = Some i) (tb_findings db))"

definition evidence_severity :: "evidence_finding option \<Rightarrow> string" where
  "evidence_severity latest = (case latest of None \<Rightarrow> ''info''
     | Some r \<Rightarrow> if fnd_severity r \<noteq> [] then fnd_severity r else ''info'')"

definition has_cui_tag :: "db \<Rightarrow> nat \<Rightarrow> bool" where
  "has_cui_tag db aid = list_ex (\<lambda>(a, t). a = aid \<and> (case t_get tag_id t (tb_tags db) of
     None \<Rightarrow> False | Some g \<Rightarrow> tag_normalized_name g = CUI_TAG_NORMALIZED)) (tb_asset_tags db)"

definition run_scope_wan :: "db \<Rightarrow> nat \<Rightarrow> bool" where
  "run_scope_wan db j = (case t_get job_id j (tb_scan_jobs db) of None \<Rightarrow> False
     | Some r \<Rightarrow> (case job_execution_snapshot r of None \<Rightarrow> False | Some snap \<Rightarrow> jget ''scope'' snap = JStr ''wan''))"

definition proven_wan :: "db \<Rightarrow> nat \<Rightarrow> bool" where
  \<comment> \<open>some evidence of the finding comes from a WAN run, or its asset was observed from the WAN in that run\<close>
  "proven_wan db i = t_exists (\<lambda>f. fnd_asset_finding_id f = Some i \<and> (case fnd_scan_job_id f of None \<Rightarrow> False
     | Some j \<Rightarrow> run_scope_wan db j \<or> t_exists (\<lambda>ob. obs_scan_job_id ob = Some j \<and>
         fnd_asset_id f = Some (obs_asset_id ob) \<and> obs_scope ob = ''wan'') (tb_asset_observations db))) (tb_findings db)"

definition intel_of :: "db \<Rightarrow> nat \<Rightarrow> vulnerability_intelligence option" where
  "intel_of db vid = t_get vi_vulnerability_id vid (tb_vulnerability_intelligence db)"

definition iso :: "time option \<Rightarrow> json" where
  "iso t = jopt (\<lambda>t. JStr (isoformat t)) t"

definition priority_input_of :: "time \<Rightarrow> db \<Rightarrow> asset_finding \<Rightarrow> priority_input" where
  "priority_input_of now db f = (let intel = intel_of db (af_vulnerability_id f)
     in \<lparr>pi_cvss_base_score = Option.bind intel vi_cvss_base_score,
         pi_detector_severity = Some (evidence_severity (latest_evidence db (af_id f))),
         pi_epss_score = Option.bind intel vi_epss_score, pi_epss_percentile = Option.bind intel vi_epss_percentile,
         pi_kev = Option.bind intel vi_kev,
         pi_asset_criticality = Some (case t_get asset_id (af_asset_id f) (tb_assets db) of
            None \<Rightarrow> CRITICALITY_NORMAL | Some a \<Rightarrow> asset_criticality a),
         pi_proven_wan_exposure = proven_wan db (af_id f), pi_has_cui_tag = has_cui_tag db (af_asset_id f),
         pi_first_seen = Some (af_first_seen f), pi_treatment_state = Some (af_treatment_state f), pi_now = now,
         pi_data_freshness = JObj [(''nvd'', iso (Option.bind intel vi_nvd_fetched_at)),
            (''epss'', iso (Option.bind intel vi_epss_fetched_at)), (''kev'', iso (Option.bind intel vi_kev_fetched_at))]\<rparr>)"

definition prioritise :: "time \<Rightarrow> priority_result \<Rightarrow> asset_finding \<Rightarrow> asset_finding" where
  "prioritise now res f = f\<lparr>af_priority := Some (prr_priority res), af_priority_score := Some (prr_score res),
     af_priority_model_version := Some (prr_model_version res), af_priority_explanation := Some (prr_explanation res),
     af_priority_calculated_at := Some (prr_calculated_at res), af_updated_at := now\<rparr>"

text \<open>The evidence, tags, exposure and intelligence are read once, before the loop over the findings.\<close>

definition recalculate_asset_finding_priorities :: "time \<Rightarrow> asset_finding list \<Rightarrow> db \<Rightarrow> db \<times> nat" where
  "recalculate_asset_finding_priorities now rows db =
     (fold (\<lambda>f db'. db'\<lparr>tb_asset_findings := t_modify (\<lambda>r. af_id r = af_id f)
        (prioritise now (calculate_asset_finding_priority (priority_input_of now db f))) (tb_asset_findings db')\<rparr>) rows db,
      length rows)"

definition recalculate_priorities_for_vulnerabilities :: "time \<Rightarrow> nat list \<Rightarrow> db \<Rightarrow> db \<times> nat" where
  "recalculate_priorities_for_vulnerabilities now ids db =
     recalculate_asset_finding_priorities now (t_select (\<lambda>f. af_vulnerability_id f \<in> set ids) (tb_asset_findings db)) db"

definition recalculate_priorities_for_assets :: "time \<Rightarrow> nat list \<Rightarrow> db \<Rightarrow> db \<times> nat" where
  "recalculate_priorities_for_assets now ids db =
     recalculate_asset_finding_priorities now (t_select (\<lambda>f. af_asset_id f \<in> set ids) (tb_asset_findings db)) db"

definition recalculate_age_bucket_changes :: "time \<Rightarrow> db \<Rightarrow> db \<times> nat" where
  "recalculate_age_bucket_changes now db = recalculate_asset_finding_priorities now (t_rows (tb_asset_findings db)) db"

subsection \<open>Reading priorities\<close>

definition apply_priority_filter :: "string option \<Rightarrow> asset_finding list \<Rightarrow> asset_finding list" where
  "apply_priority_filter priority rows = (if str_or priority = [] then rows
     else filter (\<lambda>f. af_priority f = Some (py_lower (strip (str_or priority)))) rows)"

definition apply_kev_filter :: "db \<Rightarrow> bool option \<Rightarrow> asset_finding list \<Rightarrow> asset_finding list" where
  \<comment> \<open>an outer join: a finding without intelligence has \<open>NULL\<close>, which neither test accepts\<close>
  "apply_kev_filter db kev rows = (case kev of None \<Rightarrow> rows
     | Some b \<Rightarrow> filter (\<lambda>f. Option.bind (intel_of db (af_vulnerability_id f)) vi_kev = Some b) rows)"

definition priority_sort_key :: "asset_finding \<Rightarrow> nat" where
  "priority_sort_key f = (case af_priority f of None \<Rightarrow> 5 | Some p \<Rightarrow> priority_rank p)"

definition count_key :: "asset_finding \<Rightarrow> string" where
  "count_key f = (case af_priority f of None \<Rightarrow> ''uncalculated''
     | Some p \<Rightarrow> if p \<in> set (PRIORITIES @ [''uncalculated'']) then p else ''uncalculated'')"

definition open_finding_priority_counts :: "nat option \<Rightarrow> (asset_finding \<Rightarrow> bool) option \<Rightarrow> nat option \<Rightarrow> db \<Rightarrow> (string \<times> nat) list" where
  "open_finding_priority_counts tenant tenant_filter site db =
     (let rows = t_select (\<lambda>f. af_technical_state f = TECHNICAL_OPEN \<and>
            (case tenant of Some t \<Rightarrow> af_tenant_id f = t
             | None \<Rightarrow> (case tenant_filter of None \<Rightarrow> True | Some P \<Rightarrow> P f)) \<and>
            (case site of None \<Rightarrow> True | Some s \<Rightarrow> (case t_get asset_id (af_asset_id f) (tb_assets db) of
               None \<Rightarrow> False | Some a \<Rightarrow> asset_site_id a = Some s))) (tb_asset_findings db)
      in map (\<lambda>k. (k, length (filter (\<lambda>f. count_key f = k) rows))) (PRIORITIES @ [''uncalculated'']))"

definition real_cwe_ids :: "db \<Rightarrow> nat \<Rightarrow> string list" where
  \<comment> \<open>the weaknesses of one vulnerability; the placeholders NVD-CWE-* are not weaknesses\<close>
  "real_cwe_ids db vid = dedup (map cwe_cwe_id (sorted_by (\<lambda>r. (cwe_cwe_id r, cwe_id r))
     (t_select (\<lambda>r. cwe_vulnerability_id r = vid \<and> \<not> starts_with ''nvd-cwe-'' (py_lower (cwe_cwe_id r)))
       (tb_vulnerability_cwes db))))"

definition load_finding_intelligence :: "db \<Rightarrow> asset_finding list \<Rightarrow> (nat \<times> vulnerability_intelligence option \<times> string list) list" where
  "load_finding_intelligence db rows =
     map (\<lambda>f. (af_id f, intel_of db (af_vulnerability_id f), real_cwe_ids db (af_vulnerability_id f))) rows"

subsection \<open>Recalculation settles\<close>

definition refreshed :: "time \<Rightarrow> db \<Rightarrow> asset_finding \<Rightarrow> asset_finding" where
  "refreshed now db f = prioritise now (calculate_asset_finding_priority (priority_input_of now db f)) f"

interpretation finding_rows: keyed af_id "prioritise now"
  by unfold_locales (simp add: prioritise_def)

lemma refreshed_id [simp]: "af_id (refreshed now db f) = af_id f"
  unfolding refreshed_def by (rule finding_rows.key_upd)

lemma prioritise_twice: "prioritise now res (prioritise now res f) = prioritise now res f"
  by (simp add: prioritise_def)

lemma recalculate_rows:
  assumes "distinct (map af_id (t_rows (tb_asset_findings db)))" "set rows \<subseteq> set (t_rows (tb_asset_findings db))"
  shows "fst (recalculate_asset_finding_priorities now rows db) = db\<lparr>tb_asset_findings := (tb_asset_findings db)
    \<lparr>t_rows := map (\<lambda>f. if f \<in> set rows then refreshed now db f else f) (t_rows (tb_asset_findings db))\<rparr>\<rparr>"
  using assms(2)
proof (induction rows rule: rev_induct)
  case Nil
  then show ?case by (simp add: recalculate_asset_finding_priorities_def)
next
  case (snoc f rows)
  let ?t = "t_rows (tb_asset_findings db)"
  let ?res = "calculate_asset_finding_priority (priority_input_of now db f)"
  have same: "r \<in> set ?t \<Longrightarrow> af_id r = af_id f \<longleftrightarrow> r = f" for r
    using assms(1) snoc.prems by (auto simp: distinct_map inj_on_def)
  have "map (\<lambda>r. if af_id r = af_id f then prioritise now ?res r else r)
      (map (\<lambda>r. if r \<in> set rows then refreshed now db r else r) ?t) =
    map (\<lambda>r. if r \<in> set (rows @ [f]) then refreshed now db r else r) ?t"
    using same by (auto simp: refreshed_def prioritise_twice finding_rows.key_upd)
  with snoc.IH snoc.prems show ?case
    by (simp add: recalculate_asset_finding_priorities_def t_modify_def)
qed

lemma priority_frame:
  shows "intel_of (db\<lparr>tb_asset_findings := T\<rparr>) = intel_of db"
    and "latest_evidence (db\<lparr>tb_asset_findings := T\<rparr>) = latest_evidence db"
    and "has_cui_tag (db\<lparr>tb_asset_findings := T\<rparr>) = has_cui_tag db"
    and "proven_wan (db\<lparr>tb_asset_findings := T\<rparr>) = proven_wan db"
proof -
  have "run_scope_wan (db\<lparr>tb_asset_findings := T\<rparr>) = run_scope_wan db"
    by (intro ext) (simp add: run_scope_wan_def)
  then show "proven_wan (db\<lparr>tb_asset_findings := T\<rparr>) = proven_wan db"
    by (intro ext) (simp add: proven_wan_def cong del: option.case_cong_weak)
qed (simp_all add: fun_eq_iff intel_of_def latest_evidence_def has_cui_tag_def cong del: option.case_cong_weak)

lemma input_refreshed: "priority_input_of now (db\<lparr>tb_asset_findings := T\<rparr>) (refreshed now' db' f) = priority_input_of now db f"
  unfolding priority_input_of_def priority_frame by (simp add: refreshed_def prioritise_def)

subsection \<open>Properties\<close>

text \<open>the score is always between 0 and 100, the points of the listed factors add up to exactly
  that score (the cap is itself a factor), and the band is one of the four, at least the one the
  score falls into, always the highest for a known exploited vulnerability, and never lower than
  the floor of its severity.\<close>

theorem priority_adds_up:
  "prr_score (calculate_asset_finding_priority d) \<in> {0..100} \<and>
   sum_list (map factor_points (prr_factors (calculate_asset_finding_priority d))) = prr_score (calculate_asset_finding_priority d) \<and>
   jget ''factor_sum'' (prr_explanation (calculate_asset_finding_priority d)) = JInt (prr_score (calculate_asset_finding_priority d)) \<and>
   prr_priority (calculate_asset_finding_priority d) \<in> set PRIORITIES \<and>
   priority_rank (prr_priority (calculate_asset_finding_priority d)) =
     min (min (priority_rank (band (prr_score (calculate_asset_finding_priority d)))) (if pi_kev d = Some True then 1 else 4)) (floor_rank d)"
proof -
  have "jget ''factor_sum'' (prr_explanation (calculate_asset_finding_priority d)) =
      JInt (sum_list (map factor_points (prr_factors (calculate_asset_finding_priority d))))"
    by (simp add: calculate_asset_finding_priority_def Let_def split: prod.splits)
  then show ?thesis using raw_score_nonneg [of d]
    by (simp add: calculated_score calculated_factors calculated_band calculated_rank)
qed

text \<open>C23: the model is monotone: a finding that is at least as risky on every input (severity or
  CVSS, EPSS percentile, KEV listing, criticality, exposure, tag, age) never gets a lower score or
  a lower priority, whatever caps, bands, overrides and floors do in between.\<close>

theorem priority_monotone:
  assumes "at_least_as_risky d e"
  shows "prr_score (calculate_asset_finding_priority d) \<le> prr_score (calculate_asset_finding_priority e) \<and>
    priority_rank (prr_priority (calculate_asset_finding_priority e)) \<le> priority_rank (prr_priority (calculate_asset_finding_priority d))"
proof -
  have s: "min 100 (raw_score d) \<le> min 100 (raw_score e)" using raw_score_mono [OF assms] by simp
  have "priority_rank (band n) \<le> priority_rank (band m)" if "m \<le> n" for m n
    using that by (simp add: band_rank)
  with s have "priority_rank (band (min 100 (raw_score e))) \<le> priority_rank (band (min 100 (raw_score d)))" by blast
  moreover have "pi_kev d = Some True \<longrightarrow> pi_kev e = Some True" using assms by (simp add: at_least_as_risky_def)
  ultimately show ?thesis using s impact_mono(2) [OF assms] band_bounds [of "min 100 (raw_score e)"]
    unfolding calculated_score calculated_rank by (simp add: min_le_iff_disj)
qed

text \<open>recalculating any set of stored findings writes to each of them the priority computed
  from the database and to no other row, and it settles: recalculating the same findings again at
  the same time reproduces the same database.\<close>

theorem recalculation_settles:
  assumes "t_wf af_id (tb_asset_findings db)" and "set rows \<subseteq> set (t_rows (tb_asset_findings db))"
    and "recalculate_asset_finding_priorities now rows db = (db', n)"
  shows "n = length rows \<and>
    (\<forall>f \<in> set (t_rows (tb_asset_findings db)). t_get af_id (af_id f) (tb_asset_findings db') =
       Some (if f \<in> set rows then prioritise now (calculate_asset_finding_priority (priority_input_of now db f)) f else f)) \<and>
    recalculate_asset_finding_priorities now (map (refreshed now db) rows) db' = (db', n)"
proof -
  let ?t = "tb_asset_findings db" let ?g = "\<lambda>f. if f \<in> set rows then refreshed now db f else f"
  have dist: "distinct (map af_id (t_rows ?t))" using assms(1) by (simp add: t_wf_def)
  note rec = recalculate_rows [OF dist assms(2), where now = now]
  have db': "db' = db\<lparr>tb_asset_findings := ?t\<lparr>t_rows := map ?g (t_rows ?t)\<rparr>\<rparr>"
    using rec assms(3) by simp
  have n: "n = length rows" using assms(3) by (simp add: recalculate_asset_finding_priorities_def)
  have ids: "map af_id (map ?g (t_rows ?t)) = map af_id (t_rows ?t)" by simp
  have get: "t_get af_id (af_id f) (tb_asset_findings db') = Some (?g f)" if "f \<in> set (t_rows ?t)" for f
  proof -
    have "distinct (map af_id (map ?g (t_rows ?t)))" using dist by (simp only: ids)
    then have "first_match (\<lambda>y. af_id y = af_id (?g f)) (map ?g (t_rows ?t)) = Some (?g f)"
      by (rule first_match_unique) (use that in auto)
    then show ?thesis by (simp add: t_get_def t_first_def db' split: if_splits)
  qed
  have sub: "set (map (refreshed now db) rows) \<subseteq> set (t_rows (tb_asset_findings db'))"
    using assms(2) by (auto simp: db')
  have twice: "refreshed now db' (refreshed now db f) = refreshed now db f" for f
    unfolding db' refreshed_def [of now "db\<lparr>tb_asset_findings := T\<rparr>" for T] input_refreshed
    by (simp add: refreshed_def prioritise_twice)
  have settled: "map (\<lambda>f. if f \<in> set (map (refreshed now db) rows) then refreshed now db' f else f) (t_rows (tb_asset_findings db')) =
      t_rows (tb_asset_findings db')"
    by (rule map_idI) (auto simp: twice)
  have rows': "t_rows (tb_asset_findings db') = map ?g (t_rows ?t)" by (simp add: db')
  have "distinct (map af_id (t_rows (tb_asset_findings db')))" unfolding rows' ids by (rule dist)
  from recalculate_rows [OF this sub, where now = now, unfolded settled]
  have "fst (recalculate_asset_finding_priorities now (map (refreshed now db) rows) db') = db'" by simp
  with get n show ?thesis by (simp add: prod_eq_iff refreshed_def) (simp add: recalculate_asset_finding_priorities_def)
qed

subsection \<open>Witnesses\<close>

definition quiet_input :: priority_input where
  "quiet_input = \<lparr>pi_cvss_base_score = Some (39 / 10), pi_detector_severity = Some ''low'', pi_epss_score = None,
     pi_epss_percentile = None, pi_kev = None, pi_asset_criticality = None, pi_proven_wan_exposure = False,
     pi_has_cui_tag = False, pi_first_seen = Some 0, pi_treatment_state = None, pi_now = day, pi_data_freshness = JNull\<rparr>"

definition loud_input :: priority_input where
  "loud_input = quiet_input\<lparr>pi_cvss_base_score := Some (98 / 10), pi_epss_percentile := Some (96 / 100),
     pi_asset_criticality := Some ''critical'', pi_now := 200 * day\<rparr>"

theorem priority_monotone_witness:
  "prr_score (calculate_asset_finding_priority quiet_input) \<le> prr_score (calculate_asset_finding_priority loud_input) \<and>
   priority_rank (prr_priority (calculate_asset_finding_priority loud_input)) \<le> priority_rank (prr_priority (calculate_asset_finding_priority quiet_input)) \<and>
   prr_priority (calculate_asset_finding_priority quiet_input) = PRIORITY_P4 \<and>
   prr_priority (calculate_asset_finding_priority loud_input) = PRIORITY_P1"
proof -
  have "at_least_as_risky quiet_input loud_input" by code_simp
  moreover have "prr_priority (calculate_asset_finding_priority quiet_input) = PRIORITY_P4"
    "prr_priority (calculate_asset_finding_priority loud_input) = PRIORITY_P1" by code_simp+
  ultimately show ?thesis using priority_monotone [of quiet_input loud_input] by blast
qed

definition sample_finding :: asset_finding where
  "sample_finding = \<lparr>af_id = 1, af_tenant_id = 1, af_asset_id = 1, af_vulnerability_id = 1,
     af_technical_state = TECHNICAL_OPEN, af_treatment_state = TREATMENT_UNADDRESSED, af_first_seen = 0, af_last_seen = 0,
     af_resolved_at = None, af_consecutive_clean_scans = 0, af_reopened_count = 0, af_priority = None,
     af_priority_score = None, af_priority_model_version = None, af_priority_explanation = None,
     af_priority_calculated_at = None, af_created_at = 0, af_updated_at = 0\<rparr>"

definition finding_world :: db where
  "finding_world = small_world\<lparr>tb_asset_findings := \<lparr>t_next = 3, t_rows = [sample_finding, sample_finding\<lparr>af_id := 2, af_vulnerability_id := 2\<rparr>]\<rparr>\<rparr>"

theorem recalculation_settles_witness:
  "t_get af_id 2 (tb_asset_findings (fst (recalculate_asset_finding_priorities day [sample_finding] finding_world))) =
     Some (sample_finding\<lparr>af_id := 2, af_vulnerability_id := 2\<rparr>)"
proof -
  have "t_wf af_id (tb_asset_findings finding_world)"
    "set [sample_finding] \<subseteq> set (t_rows (tb_asset_findings finding_world))" by code_simp+
  from recalculation_settles [OF this, of day "fst (recalculate_asset_finding_priorities day [sample_finding] finding_world)"
      "snd (recalculate_asset_finding_priorities day [sample_finding] finding_world)"]
  have "\<forall>f \<in> set (t_rows (tb_asset_findings finding_world)).
      t_get af_id (af_id f) (tb_asset_findings (fst (recalculate_asset_finding_priorities day [sample_finding] finding_world))) =
       Some (if f \<in> set [sample_finding] then prioritise day (calculate_asset_finding_priority (priority_input_of day finding_world f)) f else f)"
    by simp
  moreover have "t_rows (tb_asset_findings finding_world) = [sample_finding, sample_finding\<lparr>af_id := 2, af_vulnerability_id := 2\<rparr>]"
    by (simp add: finding_world_def)
  moreover have "sample_finding\<lparr>af_id := 2, af_vulnerability_id := 2\<rparr> \<noteq> sample_finding" by code_simp
  ultimately show ?thesis by simp
qed

end
