(* ===== verification/Compliance.thy ===== *)
theory Compliance
  imports Policy_Rules
begin

section \<open>Compliance frameworks and control mappings\<close>

text \<open>
  \<^verbatim>\<open>backend/app/compliance.py\<close>: the catalogue of frameworks and controls and the mappings that relate one evidence object (an asset, a finding of an
  asset, a piece of evidence, a treatment or a scan run) to a control. A \<open>ComplianceError\<close> is an
  \<open>HttpError\<close> with its status, which the routers answer with unchanged. The import of the
  built-in bundles (files, checksums) is not modelled.
\<close>

abbreviation compliance_error :: "string \<Rightarrow> app_error" where
  "compliance_error detail \<equiv> HttpError 400 detail"

definition COMPLIANCE_MAPPING_DISCLAIMER :: string where
  "COMPLIANCE_MAPPING_DISCLAIMER = ''A control mapping means this evidence is related to the selected control. '' @
     ''It does not mean the control is implemented, assessed, satisfied, or certified.''"

definition MERGE_REFERENCE_MOVE_REASON :: string where
  "MERGE_REFERENCE_MOVE_REASON = ''Asset finding merge reassigned this mapping to the keeper finding.''"

definition MERGE_REFERENCE_REMOVE_REASON :: string where
  "MERGE_REFERENCE_REMOVE_REASON = ''Duplicate mapping after asset finding merge''"

definition catalogue_audit :: "user option \<Rightarrow> string \<Rightarrow> string \<Rightarrow> nat \<Rightarrow> (string \<times> json) list \<Rightarrow> audit_req" where
  "catalogue_audit actor action kind i details = \<lparr>ar_actor = actor, ar_action = action, ar_object_type = kind,
     ar_object_id = Some i, ar_tenant_id = None, ar_site_id = None, ar_details = details\<rparr>"

subsection \<open>The catalogue\<close>

record framework_in =
  fwi_slug :: string
  fwi_name :: string
  fwi_version :: string
  fwi_publisher :: string
  fwi_description :: string
  fwi_source_url :: string
  fwi_source_release_date :: "date option"
  fwi_source_metadata :: json
  fwi_builtin :: bool

definition new_framework :: "time \<Rightarrow> framework_in \<Rightarrow> nat \<Rightarrow> compliance_framework" where
  "new_framework now f i = \<lparr>cf_id = i, cf_slug = py_lower (strip (fwi_slug f)), cf_name = strip (fwi_name f),
     cf_version = strip (fwi_version f), cf_publisher = strip (fwi_publisher f),
     cf_description = strip (fwi_description f), cf_source_url = strip (fwi_source_url f),
     cf_source_release_date = fwi_source_release_date f, cf_source_metadata = jor (fwi_source_metadata f) (JObj []),
     cf_builtin = fwi_builtin f, cf_archived_at = None, cf_created_at = now, cf_updated_at = now\<rparr>"

definition create_framework :: "time \<Rightarrow> user option \<Rightarrow> framework_in \<Rightarrow> db \<Rightarrow> app_error + (db \<times> compliance_framework)" where
  "create_framework now actor f db =
     (let key = py_lower (strip (fwi_slug f)); ver = strip (fwi_version f) in
      if key = [] \<or> ver = [] \<or> strip (fwi_name f) = []
      then Inl (compliance_error ''Framework slug, name, and version are required'')
      else if t_exists (\<lambda>r. cf_slug r = key \<and> cf_version r = ver) (tb_compliance_frameworks db)
      then Inl (HttpError 409 ''A framework with this key and version already exists'')
      else let i = t_next (tb_compliance_frameworks db); row = new_framework now f i;
               db1 = db\<lparr>tb_compliance_frameworks := t_insert (new_framework now f) (tb_compliance_frameworks db)\<rparr>
           in Inr (fst (record_audit now (catalogue_audit actor ''compliance_framework.created'' ''compliance_framework'' i
                [(''slug'', JStr (cf_slug row)), (''version'', JStr (cf_version row)), (''name'', JStr (cf_name row)),
                 (''builtin'', JBool (cf_builtin row))]) db1), row))"

text \<open>A field of an update: \<open>None\<close> leaves the column alone.\<close>

record framework_changes =
  fch_name :: "string option"
  fch_publisher :: "string option"
  fch_description :: "string option"
  fch_source_url :: "string option"
  fch_source_release_date :: "date option"
  fch_source_metadata :: "json option"

definition change_framework :: "time \<Rightarrow> framework_changes \<Rightarrow> compliance_framework \<Rightarrow> compliance_framework" where
  "change_framework now ch r = r\<lparr>
     cf_name := (case fch_name ch of None \<Rightarrow> cf_name r | Some s \<Rightarrow> strip s),
     cf_publisher := (case fch_publisher ch of None \<Rightarrow> cf_publisher r | Some s \<Rightarrow> strip s),
     cf_description := (case fch_description ch of None \<Rightarrow> cf_description r | Some s \<Rightarrow> strip s),
     cf_source_url := (case fch_source_url ch of None \<Rightarrow> cf_source_url r | Some s \<Rightarrow> strip s),
     cf_source_release_date := (case fch_source_release_date ch of None \<Rightarrow> cf_source_release_date r | Some d \<Rightarrow> Some d),
     cf_source_metadata := (case fch_source_metadata ch of None \<Rightarrow> cf_source_metadata r | Some m \<Rightarrow> m),
     cf_updated_at := now\<rparr>"

definition framework_text :: "compliance_framework \<Rightarrow> json" where
  "framework_text r = JObj [(''name'', JStr (cf_name r)), (''publisher'', JStr (cf_publisher r)),
     (''description'', JStr (cf_description r)), (''source_url'', JStr (cf_source_url r))]"

definition set_framework :: "nat \<Rightarrow> (compliance_framework \<Rightarrow> compliance_framework) \<Rightarrow> db \<Rightarrow> db" where
  "set_framework i f db = db\<lparr>tb_compliance_frameworks := t_modify (\<lambda>r. cf_id r = i) f (tb_compliance_frameworks db)\<rparr>"

definition update_framework :: "time \<Rightarrow> user option \<Rightarrow> nat \<Rightarrow> framework_changes \<Rightarrow> db \<Rightarrow> app_error + db" where
  "update_framework now actor i ch db = (case t_get cf_id i (tb_compliance_frameworks db) of
     None \<Rightarrow> Inl (HttpError 404 ''Framework not found'')
   | Some r \<Rightarrow>
       if fch_name ch \<noteq> None \<and> strip (the (fch_name ch)) = [] then Inl (compliance_error ''Framework name is required'')
       else Inr (fst (record_audit now (catalogue_audit actor ''compliance_framework.changed'' ''compliance_framework'' i
              [(''before'', framework_text r), (''after'', framework_text (change_framework now ch r))])
            (set_framework i (change_framework now ch) db))))"

definition archive_framework :: "time \<Rightarrow> user option \<Rightarrow> nat \<Rightarrow> db \<Rightarrow> app_error + db" where
  "archive_framework now actor i db = (case t_get cf_id i (tb_compliance_frameworks db) of
     None \<Rightarrow> Inl (HttpError 404 ''Framework not found'')
   | Some r \<Rightarrow>
       if cf_archived_at r \<noteq> None then Inl (compliance_error ''Framework is already archived'')
       else Inr (fst (record_audit now (catalogue_audit actor ''compliance_framework.archived'' ''compliance_framework'' i
              [(''slug'', JStr (cf_slug r)), (''version'', JStr (cf_version r))])
            (set_framework i (\<lambda>r. r\<lparr>cf_archived_at := Some now, cf_updated_at := now\<rparr>) db))))"

record control_in =
  cti_control_key :: string
  cti_title :: string
  cti_description :: string
  cti_family :: "string option"
  cti_source_metadata :: json
  cti_sort_order :: "int option"

definition new_control :: "time \<Rightarrow> nat \<Rightarrow> control_in \<Rightarrow> nat \<Rightarrow> compliance_control" where
  "new_control now framework c i = \<lparr>ctl_id = i, ctl_framework_id = framework,
     ctl_control_key = strip (cti_control_key c),
     ctl_family = (if strip (str_or (cti_family c)) \<noteq> [] then Some (strip (str_or (cti_family c))) else None),
     ctl_title = strip (cti_title c), ctl_description = strip (cti_description c),
     ctl_source_metadata = jor (cti_source_metadata c) (JObj []), ctl_sort_order = cti_sort_order c,
     ctl_archived_at = None, ctl_created_at = now, ctl_updated_at = now\<rparr>"

definition create_control :: "time \<Rightarrow> user option \<Rightarrow> nat \<Rightarrow> control_in \<Rightarrow> db \<Rightarrow> app_error + (db \<times> compliance_control)" where
  "create_control now actor framework c db = (case t_get cf_id framework (tb_compliance_frameworks db) of
     None \<Rightarrow> Inl (HttpError 404 ''Framework not found'')
   | Some fw \<Rightarrow>
       let key = strip (cti_control_key c) in
       if cf_archived_at fw \<noteq> None then Inl (compliance_error ''Cannot add a control to an archived framework'')
       else if key = [] \<or> strip (cti_title c) = [] then Inl (compliance_error ''Control ID and title are required'')
       else if t_exists (\<lambda>r. ctl_framework_id r = framework \<and> ctl_control_key r = key) (tb_compliance_controls db)
       then Inl (HttpError 409 ''A control with this ID already exists in the framework'')
       else let i = t_next (tb_compliance_controls db); row = new_control now framework c i;
                db1 = db\<lparr>tb_compliance_controls := t_insert (new_control now framework c) (tb_compliance_controls db)\<rparr>
            in Inr (fst (record_audit now (catalogue_audit actor ''compliance_control.created'' ''compliance_control'' i
                 [(''framework_id'', jnat framework), (''control_key'', JStr key), (''title'', JStr (ctl_title row))]) db1), row))"

record control_changes =
  cch_title :: "string option"
  cch_description :: "string option"
  cch_family :: "string option"
  cch_sort_order :: "int option"

definition change_control :: "time \<Rightarrow> control_changes \<Rightarrow> compliance_control \<Rightarrow> compliance_control" where
  "change_control now ch r = r\<lparr>
     ctl_title := (case cch_title ch of None \<Rightarrow> ctl_title r | Some s \<Rightarrow> strip s),
     ctl_description := (case cch_description ch of None \<Rightarrow> ctl_description r | Some s \<Rightarrow> strip s),
     ctl_family := (case cch_family ch of None \<Rightarrow> ctl_family r | Some s \<Rightarrow> if strip s \<noteq> [] then Some (strip s) else None),
     ctl_sort_order := (case cch_sort_order ch of None \<Rightarrow> ctl_sort_order r | Some n \<Rightarrow> Some n),
     ctl_updated_at := now\<rparr>"

definition control_text :: "compliance_control \<Rightarrow> json" where
  "control_text r = JObj [(''title'', JStr (ctl_title r)), (''description'', JStr (ctl_description r)),
     (''family'', jopt JStr (ctl_family r)), (''sort_order'', jopt JInt (ctl_sort_order r))]"

definition set_control :: "nat \<Rightarrow> (compliance_control \<Rightarrow> compliance_control) \<Rightarrow> db \<Rightarrow> db" where
  "set_control i f db = db\<lparr>tb_compliance_controls := t_modify (\<lambda>r. ctl_id r = i) f (tb_compliance_controls db)\<rparr>"

definition update_control :: "time \<Rightarrow> user option \<Rightarrow> nat \<Rightarrow> control_changes \<Rightarrow> db \<Rightarrow> app_error + db" where
  "update_control now actor i ch db = (case t_get ctl_id i (tb_compliance_controls db) of
     None \<Rightarrow> Inl (HttpError 404 ''Control not found'')
   | Some r \<Rightarrow>
       if cch_title ch \<noteq> None \<and> strip (the (cch_title ch)) = [] then Inl (compliance_error ''Control title is required'')
       else Inr (fst (record_audit now (catalogue_audit actor ''compliance_control.changed'' ''compliance_control'' i
              [(''before'', control_text r), (''after'', control_text (change_control now ch r))])
            (set_control i (change_control now ch) db))))"

definition archive_control :: "time \<Rightarrow> user option \<Rightarrow> nat \<Rightarrow> db \<Rightarrow> app_error + db" where
  "archive_control now actor i db = (case t_get ctl_id i (tb_compliance_controls db) of
     None \<Rightarrow> Inl (HttpError 404 ''Control not found'')
   | Some r \<Rightarrow>
       if ctl_archived_at r \<noteq> None then Inl (compliance_error ''Control is already archived'')
       else Inr (fst (record_audit now (catalogue_audit actor ''compliance_control.archived'' ''compliance_control'' i
              [(''framework_id'', jnat (ctl_framework_id r)), (''control_key'', JStr (ctl_control_key r))])
            (set_control i (\<lambda>r. r\<lparr>ctl_archived_at := Some now, ctl_updated_at := now\<rparr>) db))))"

subsection \<open>Control mappings\<close>

datatype subject = SubjAsset | SubjAssetFinding | SubjFinding | SubjTreatment | SubjScanJob

definition SUBJECT_FIELDS :: "(string \<times> subject) list" where
  "SUBJECT_FIELDS = [(CONTROL_SUBJECT_ASSET, SubjAsset), (CONTROL_SUBJECT_ASSET_FINDING, SubjAssetFinding),
     (CONTROL_SUBJECT_FINDING, SubjFinding), (CONTROL_SUBJECT_TREATMENT, SubjTreatment),
     (CONTROL_SUBJECT_SCAN_JOB, SubjScanJob)]"

fun ref_field :: "subject \<Rightarrow> compliance_control_reference \<Rightarrow> nat option" where
  "ref_field SubjAsset r = ccr_asset_id r"
| "ref_field SubjAssetFinding r = ccr_asset_finding_id r"
| "ref_field SubjFinding r = ccr_finding_id r"
| "ref_field SubjTreatment r = ccr_treatment_id r"
| "ref_field SubjScanJob r = ccr_scan_job_id r"

fun subject_tenant :: "subject \<Rightarrow> nat \<Rightarrow> db \<Rightarrow> nat option" where
  \<comment> \<open>\<open>db.get(model, id)\<close>, then its tenant\<close>
  "subject_tenant SubjAsset i db = map_option (\<lambda>r. asset_tenant_id r) (t_get asset_id i (tb_assets db))"
| "subject_tenant SubjAssetFinding i db = map_option (\<lambda>r. af_tenant_id r) (t_get af_id i (tb_asset_findings db))"
| "subject_tenant SubjFinding i db = map_option (\<lambda>r. fnd_tenant_id r) (t_get fnd_id i (tb_findings db))"
| "subject_tenant SubjTreatment i db = map_option (\<lambda>r. ft_tenant_id r) (t_get ft_id i (tb_finding_treatments db))"
| "subject_tenant SubjScanJob i db = map_option job_tenant_id (t_get job_id i (tb_scan_jobs db))"

definition resolve_subject :: "nat \<Rightarrow> string \<Rightarrow> nat \<Rightarrow> db \<Rightarrow> app_error + subject" where
  "resolve_subject tenant kind i db = (case map_of SUBJECT_FIELDS (strip kind) of
     None \<Rightarrow> Inl (compliance_error ''Unsupported evidence object type'')
   | Some k \<Rightarrow> if subject_tenant k i db = Some tenant then Inr k else Inl (HttpError 404 ''Evidence object not found''))"

text \<open>The five partial unique indexes: one active mapping of a control to an object.\<close>

definition ref_clash :: "compliance_control_reference \<Rightarrow> compliance_control_reference \<Rightarrow> bool" where
  "ref_clash r s \<longleftrightarrow> ccr_control_id r = ccr_control_id s \<and> ccr_removed_at r = None \<and> ccr_removed_at s = None \<and>
     list_ex (\<lambda>k. ref_field k r \<noteq> None \<and> ref_field k r = ref_field k s)
       [SubjAsset, SubjAssetFinding, SubjFinding, SubjTreatment, SubjScanJob]"

definition new_reference :: "time \<Rightarrow> user \<Rightarrow> nat \<Rightarrow> nat \<Rightarrow> subject \<Rightarrow> nat \<Rightarrow> string \<Rightarrow> string \<Rightarrow> nat \<Rightarrow> compliance_control_reference" where
  "new_reference now actor tenant control kind i rel notes ref = \<lparr>ccr_id = ref, ccr_tenant_id = tenant, ccr_control_id = control,
     ccr_asset_id = (if kind = SubjAsset then Some i else None),
     ccr_asset_finding_id = (if kind = SubjAssetFinding then Some i else None),
     ccr_finding_id = (if kind = SubjFinding then Some i else None),
     ccr_treatment_id = (if kind = SubjTreatment then Some i else None),
     ccr_scan_job_id = (if kind = SubjScanJob then Some i else None),
     ccr_reference_type = rel, ccr_notes = strip notes, ccr_created_by_user_id = Some (u_id actor),
     ccr_created_at = now, ccr_removed_at = None, ccr_removed_by_user_id = None, ccr_removal_reason = None\<rparr>"

definition reference_audit :: "user option \<Rightarrow> string \<Rightarrow> nat \<Rightarrow> nat \<Rightarrow> (string \<times> json) list \<Rightarrow> audit_req" where
  "reference_audit actor action ref tenant details = \<lparr>ar_actor = actor, ar_action = action,
     ar_object_type = ''control_reference'', ar_object_id = Some ref, ar_tenant_id = Some tenant, ar_site_id = None,
     ar_details = details\<rparr>"

definition mappable :: "db \<Rightarrow> nat \<Rightarrow> app_error + compliance_control" where
  "mappable db control = (case t_get ctl_id control (tb_compliance_controls db) of
     None \<Rightarrow> Inl (HttpError 404 ''Control not found'')
   | Some c \<Rightarrow>
       if ctl_archived_at c \<noteq> None then Inl (compliance_error ''Archived controls cannot receive a new mapping'')
       else (case t_get cf_id (ctl_framework_id c) (tb_compliance_frameworks db) of
           None \<Rightarrow> Inr c
         | Some fw \<Rightarrow> if cf_archived_at fw \<noteq> None
             then Inl (compliance_error ''Controls from an archived framework cannot receive a new mapping'') else Inr c))"

definition add_control_reference :: "time \<Rightarrow> user \<Rightarrow> nat \<Rightarrow> nat \<Rightarrow> string \<Rightarrow> nat \<Rightarrow> string \<Rightarrow> string \<Rightarrow> db
    \<Rightarrow> app_error + (db \<times> compliance_control_reference)" where
  "add_control_reference now actor tenant control subject_type subject_id reference_type notes db =
     (let rel = strip (if reference_type \<noteq> [] then reference_type else CONTROL_REF_RELATED) in
      if rel \<notin> set CONTROL_REFERENCE_TYPES then Inl (compliance_error ''Unsupported reference type'')
      else rbind (mappable db control) (\<lambda>c.
        rbind (resolve_subject tenant subject_type subject_id db) (\<lambda>kind.
          let mk = new_reference now actor tenant control kind subject_id rel notes;
              row = mk (t_next (tb_compliance_control_references db))
          in if t_exists (ref_clash row) (tb_compliance_control_references db)
             then Inl (HttpError 409 ''An active mapping to this control already exists for that object'')
             else Inr (fst (record_audit now (reference_audit (Some actor) ''control_reference.added'' (ccr_id row) tenant
                   [(''control_id'', jnat control), (''control_key'', JStr (ctl_control_key c)),
                    (''subject_type'', JStr (strip subject_type)), (''subject_id'', jnat subject_id),
                    (''reference_type'', JStr rel), (''disclaimer'', JStr COMPLIANCE_MAPPING_DISCLAIMER)])
                 (db\<lparr>tb_compliance_control_references := t_insert mk (tb_compliance_control_references db)\<rparr>)), row))))"

definition set_reference :: "nat \<Rightarrow> (compliance_control_reference \<Rightarrow> compliance_control_reference) \<Rightarrow> db \<Rightarrow> db" where
  "set_reference i f db = db\<lparr>tb_compliance_control_references :=
     t_modify (\<lambda>r. ccr_id r = i) f (tb_compliance_control_references db)\<rparr>"

definition close_reference :: "time \<Rightarrow> user option \<Rightarrow> string \<Rightarrow> compliance_control_reference \<Rightarrow> compliance_control_reference" where
  "close_reference now actor reason r = r\<lparr>ccr_removed_at := Some now, ccr_removed_by_user_id := map_option u_id actor,
     ccr_removal_reason := Some reason\<rparr>"

definition remove_control_reference :: "time \<Rightarrow> user \<Rightarrow> nat \<Rightarrow> nat \<Rightarrow> string \<Rightarrow> db \<Rightarrow> app_error + db" where
  "remove_control_reference now actor tenant ref reason db =
     (if strip reason = [] then Inl (compliance_error ''Removal reason is required'')
      else case t_first (\<lambda>r. ccr_id r = ref \<and> ccr_tenant_id r = tenant) (tb_compliance_control_references db) of
        None \<Rightarrow> Inl (HttpError 404 ''Control mapping not found'')
      | Some r \<Rightarrow>
          if ccr_removed_at r \<noteq> None then Inl (compliance_error ''Control mapping is already removed'')
          else Inr (fst (record_audit now (reference_audit (Some actor) ''control_reference.removed'' ref tenant
              [(''control_id'', jnat (ccr_control_id r)), (''reason'', JStr (strip reason)),
               (''disclaimer'', JStr COMPLIANCE_MAPPING_DISCLAIMER)])
            (set_reference ref (close_reference now (Some actor) (strip reason)) db))))"

definition list_control_references :: "nat \<Rightarrow> string \<Rightarrow> nat \<Rightarrow> bool \<Rightarrow> db \<Rightarrow> app_error + compliance_control_reference list" where
  "list_control_references tenant subject_type subject_id include_removed db =
     rbind (resolve_subject tenant subject_type subject_id db) (\<lambda>kind.
       Inr (sorted_by (\<lambda>r. (ccr_created_at r, ccr_id r)) (t_select (\<lambda>r. ccr_tenant_id r = tenant \<and>
         ref_field kind r = Some subject_id \<and> (include_removed \<or> ccr_removed_at r = None))
         (tb_compliance_control_references db))))"

definition list_asset_finding_control_references :: "nat \<Rightarrow> asset_finding \<Rightarrow> bool \<Rightarrow> db \<Rightarrow> compliance_control_reference list" where
  \<comment> \<open>the mappings of a finding, of its treatments and of its evidence\<close>
  "list_asset_finding_control_references tenant f include_removed db =
     (let treatments = map ft_id (t_select (\<lambda>t. ft_asset_finding_id t = af_id f) (tb_finding_treatments db));
          evidence = map fnd_id (t_select (\<lambda>e. fnd_asset_finding_id e = Some (af_id f)) (tb_findings db))
      in sorted_by (\<lambda>r. (ccr_created_at r, ccr_id r)) (t_select (\<lambda>r. ccr_tenant_id r = tenant \<and>
           (ccr_asset_finding_id r = Some (af_id f) \<or> ccr_treatment_id r \<in> Some ` set treatments \<or>
            ccr_finding_id r \<in> Some ` set evidence) \<and> (include_removed \<or> ccr_removed_at r = None))
           (tb_compliance_control_references db)))"

subsection \<open>Merging two findings\<close>

definition active_refs :: "db \<Rightarrow> nat \<Rightarrow> compliance_control_reference list" where
  "active_refs db finding = t_select (\<lambda>r. ccr_asset_finding_id r = Some finding \<and> ccr_removed_at r = None)
     (tb_compliance_control_references db)"

definition merge_details :: "asset_finding \<Rightarrow> asset_finding \<Rightarrow> compliance_control_reference \<Rightarrow> bool \<Rightarrow> (string \<times> json) list" where
  "merge_details keeper donor r moved = [(''control_id'', jnat (ccr_control_id r)), (''reference_id'', jnat (ccr_id r)),
     (''donor_asset_finding_id'', jnat (af_id donor)), (''keeper_asset_finding_id'', jnat (af_id keeper)),
     (''old_subject'', JObj [(''subject_type'', JStr ''asset_finding''), (''subject_id'', jopt jnat (ccr_asset_finding_id r))])] @
     (if moved then [(''new_subject'', JObj [(''subject_type'', JStr ''asset_finding''), (''subject_id'', jnat (af_id keeper))])] else []) @
     [(''new_disposition'', JStr (if moved then ''moved'' else ''removed'')),
      (''reason'', JStr (if moved then MERGE_REFERENCE_MOVE_REASON else MERGE_REFERENCE_REMOVE_REASON)),
      (''disclaimer'', JStr COMPLIANCE_MAPPING_DISCLAIMER), (''actor'', JStr ''system'')]"

definition reassign_one :: "time \<Rightarrow> asset_finding \<Rightarrow> asset_finding \<Rightarrow> compliance_control_reference \<Rightarrow> db \<times> nat list \<Rightarrow> db \<times> nat list" where
  "reassign_one now keeper donor r s = (case s of (db, keeper_keys) \<Rightarrow>
     if ccr_control_id r \<in> set keeper_keys
     then (fst (record_audit now (reference_audit None ''control_reference.removed'' (ccr_id r) (af_tenant_id keeper)
             (merge_details keeper donor r False))
           (set_reference (ccr_id r) (close_reference now None MERGE_REFERENCE_REMOVE_REASON) db)), keeper_keys)
     else (fst (record_audit now (reference_audit None ''control_reference.moved'' (ccr_id r) (af_tenant_id keeper)
             (merge_details keeper donor r True))
           (set_reference (ccr_id r) (\<lambda>x. x\<lparr>ccr_asset_finding_id := Some (af_id keeper), ccr_tenant_id := af_tenant_id keeper\<rparr>) db)),
           ccr_control_id r # keeper_keys))"

definition reassign_asset_finding_control_references :: "time \<Rightarrow> asset_finding \<Rightarrow> asset_finding \<Rightarrow> db \<Rightarrow> db" where
  "reassign_asset_finding_control_references now keeper donor db =
     fst (fold (reassign_one now keeper donor) (active_refs db (af_id donor))
       (db, map ccr_control_id (active_refs db (af_id keeper))))"


subsection \<open>Mappings stay unambiguous\<close>

definition one_subject :: "compliance_control_reference \<Rightarrow> bool" where
  "one_subject r \<longleftrightarrow> length (filter (\<lambda>k. ref_field k r \<noteq> None) [SubjAsset, SubjAssetFinding, SubjFinding, SubjTreatment, SubjScanJob]) = 1"

definition refs_ok :: "db \<Rightarrow> bool" where
  "refs_ok db \<longleftrightarrow> t_wf ccr_id (tb_compliance_control_references db) \<and>
     list_all one_subject (t_rows (tb_compliance_control_references db)) \<and>
     list_all (\<lambda>r. list_all (\<lambda>s. ref_clash r s \<longrightarrow> r = s) (t_rows (tb_compliance_control_references db)))
       (t_rows (tb_compliance_control_references db))"

text \<open>The requests and the merge as steps. A catalogue request (frameworks and controls) does not
  touch the mappings.\<close>

inductive mapping_step :: "db \<Rightarrow> db \<Rightarrow> bool" where
  map_add: "add_control_reference now actor tenant control kind i rel notes db = Inr (db', r) \<Longrightarrow> mapping_step db db'"
| map_remove: "remove_control_reference now actor tenant ref reason db = Inr db' \<Longrightarrow> mapping_step db db'"
| map_merge: "af_id keeper \<noteq> af_id donor \<Longrightarrow> db' = reassign_asset_finding_control_references now keeper donor db \<Longrightarrow> mapping_step db db'"
| map_framework: "create_framework now a f db = Inr (db', fr) \<Longrightarrow> mapping_step db db'"
| map_framework_update: "update_framework now a i fch db = Inr db' \<Longrightarrow> mapping_step db db'"
| map_framework_archive: "archive_framework now a i db = Inr db' \<Longrightarrow> mapping_step db db'"
| map_control: "create_control now a i c db = Inr (db', cr) \<Longrightarrow> mapping_step db db'"
| map_control_update: "update_control now a i cch db = Inr db' \<Longrightarrow> mapping_step db db'"
| map_control_archive: "archive_control now a i db = Inr db' \<Longrightarrow> mapping_step db db'"

abbreviation refs :: "db \<Rightarrow> compliance_control_reference tbl" where "refs db \<equiv> tb_compliance_control_references db"

lemma ref_clash_iff: "ref_clash r s \<longleftrightarrow> ccr_control_id r = ccr_control_id s \<and> ccr_removed_at r = None \<and> ccr_removed_at s = None \<and>
     (\<exists>k. ref_field k r \<noteq> None \<and> ref_field k r = ref_field k s)"
proof -
  have "list_ex P [SubjAsset, SubjAssetFinding, SubjFinding, SubjTreatment, SubjScanJob] \<longleftrightarrow> (\<exists>k. P k)" for P
  proof
    assume "\<exists>k. P k"
    then obtain k where "P k" ..
    then show "list_ex P [SubjAsset, SubjAssetFinding, SubjFinding, SubjTreatment, SubjScanJob]" by (cases k) simp_all
  qed auto
  then show ?thesis by (simp only: ref_clash_def)
qed

lemma ref_clash_sym: "ref_clash r s \<Longrightarrow> ref_clash s r"
  unfolding ref_clash_iff by metis

lemma one_subject_field: "one_subject r \<Longrightarrow> ref_field SubjAssetFinding r \<noteq> None \<Longrightarrow> k \<noteq> SubjAssetFinding \<Longrightarrow> ref_field k r = None"
  by (cases k) (auto simp: one_subject_def split: if_splits)

lemma refs_okD:
  assumes "refs_ok db"
  shows "t_wf ccr_id (refs db)" "r \<in> set (t_rows (refs db)) \<Longrightarrow> one_subject r"
    "r \<in> set (t_rows (refs db)) \<Longrightarrow> s \<in> set (t_rows (refs db)) \<Longrightarrow> ref_clash r s \<Longrightarrow> r = s"
  using assms by (auto simp: refs_ok_def list_all_iff)

lemma refs_ok_cong: "refs db' = refs db \<Longrightarrow> refs_ok db' = refs_ok db"
  by (simp add: refs_ok_def)

lemma refs_ok_add:
  assumes "refs_ok db" and "refs db' = t_insert (new_reference now actor tenant control kind i rel notes) (refs db)"
    and "\<not> t_exists (ref_clash (new_reference now actor tenant control kind i rel notes (t_next (refs db)))) (refs db)"
  shows "refs_ok db'"
proof -
  let ?new = "new_reference now actor tenant control kind i rel notes (t_next (refs db))"
  have "one_subject ?new" by (cases kind) (simp_all add: one_subject_def new_reference_def)
  moreover have "r \<in> set (t_rows (refs db)) \<Longrightarrow> \<not> ref_clash ?new r \<and> \<not> ref_clash r ?new" for r
    using assms(3) ref_clash_sym by (auto simp: t_exists_iff)
  moreover have "t_wf ccr_id (t_insert (new_reference now actor tenant control kind i rel notes) (refs db))"
    by (rule t_wf_insert) (use assms(1) in \<open>auto simp: refs_ok_def new_reference_def\<close>)
  ultimately show ?thesis using refs_okD [OF assms(1)] unfolding refs_ok_def assms(2)
    by (auto simp: list_all_iff)
qed

lemma refs_ok_map:
  assumes "refs_ok db" and rows: "refs db' = (refs db)\<lparr>t_rows := map f (t_rows (refs db))\<rparr>"
    and f: "\<And>r. r \<in> set (t_rows (refs db)) \<Longrightarrow> ccr_id (f r) = ccr_id r \<and> one_subject (f r)"
    and clash: "\<And>r s. r \<in> set (t_rows (refs db)) \<Longrightarrow> s \<in> set (t_rows (refs db)) \<Longrightarrow> ref_clash (f r) (f s) \<Longrightarrow> r = s"
  shows "refs_ok db'"
proof -
  have ids: "map ccr_id (map f (t_rows (refs db))) = map ccr_id (t_rows (refs db))" using f by simp
  have "distinct (map ccr_id (map f (t_rows (refs db))))"
    unfolding ids using refs_okD(1) [OF assms(1)] by (simp add: t_wf_def)
  moreover have "list_all (\<lambda>r. ccr_id r < t_next (refs db)) (map f (t_rows (refs db)))"
    using refs_okD(1) [OF assms(1)] f by (simp add: t_wf_def list_all_iff)
  ultimately have "t_wf ccr_id (refs db')" by (simp add: rows t_wf_def)
  then show ?thesis using f clash unfolding refs_ok_def by (auto simp: rows list_all_iff)
qed

lemma ref_clash_close: "\<not> ref_clash (close_reference now a t r) s" "\<not> ref_clash s (close_reference now a t r)"
  by (simp_all add: ref_clash_def close_reference_def)

lemma close_fields: "ccr_id (close_reference now a t r) = ccr_id r" "one_subject (close_reference now a t r) = one_subject r"
  by (simp_all add: close_reference_def one_subject_def)

lemma refs_ok_remove:
  assumes "refs_ok db" and "refs db' = t_modify (\<lambda>r. ccr_id r = i) (close_reference now a t) (refs db)"
  shows "refs_ok db'"
proof (rule refs_ok_map [OF assms(1), where f = "\<lambda>r. if ccr_id r = i then close_reference now a t r else r"])
  show "refs db' = (refs db)\<lparr>t_rows := map (\<lambda>r. if ccr_id r = i then close_reference now a t r else r) (t_rows (refs db))\<rparr>"
    by (simp add: assms(2) t_modify_def)
next
  fix r s assume "r \<in> set (t_rows (refs db))" "s \<in> set (t_rows (refs db))"
    "ref_clash (if ccr_id r = i then close_reference now a t r else r) (if ccr_id s = i then close_reference now a t s else s)"
  then show "r = s" using refs_okD(3) [OF assms(1)] ref_clash_close by (metis (full_types))
qed (use refs_okD(2) [OF assms(1)] in \<open>simp add: close_fields\<close>)

text \<open>The merge, row by row: a mapping the keeper already has is closed, the others move.\<close>

definition moved_to :: "asset_finding \<Rightarrow> compliance_control_reference \<Rightarrow> compliance_control_reference" where
  "moved_to keeper r = r\<lparr>ccr_asset_finding_id := Some (af_id keeper), ccr_tenant_id := af_tenant_id keeper\<rparr>"

definition merged_row :: "time \<Rightarrow> asset_finding \<Rightarrow> nat list \<Rightarrow> compliance_control_reference \<Rightarrow> compliance_control_reference" where
  "merged_row now keeper keys r = (if ccr_control_id r \<in> set keys
     then close_reference now None MERGE_REFERENCE_REMOVE_REASON r else moved_to keeper r)"

lemma reassign_fold:
  assumes "distinct (map ccr_id (t_rows (refs db)))" "distinct (map ccr_control_id rows)" "set rows \<subseteq> set (t_rows (refs db))"
    and "fold (reassign_one now keeper donor) rows (db, keys) = (db', keys')"
  shows "refs db' = (refs db)\<lparr>t_rows := map (\<lambda>r. if r \<in> set rows then merged_row now keeper keys r else r) (t_rows (refs db))\<rparr> \<and>
    set keys' = set keys \<union> ccr_control_id ` set rows"
  using assms(2-4)
proof (induction rows arbitrary: db' keys' rule: rev_induct)
  case Nil
  then show ?case by simp
next
  case (snoc r rows)
  obtain db1 keys1 where st: "fold (reassign_one now keeper donor) rows (db, keys) = (db1, keys1)" by force
  have IH: "refs db1 = (refs db)\<lparr>t_rows := map (\<lambda>r. if r \<in> set rows then merged_row now keeper keys r else r) (t_rows (refs db))\<rparr>"
    "set keys1 = set keys \<union> ccr_control_id ` set rows"
    using snoc.IH [OF _ _ st] snoc.prems(1,2) by auto
  have r: "r \<in> set (t_rows (refs db))" "r \<notin> set rows" "ccr_control_id r \<notin> ccr_control_id ` set rows"
    using snoc.prems(1,2) by auto
  then have mem: "ccr_control_id r \<in> set keys1 \<longleftrightarrow> ccr_control_id r \<in> set keys" using IH(2) by blast
  have same: "x \<in> set (t_rows (refs db)) \<Longrightarrow> ccr_id x = ccr_id r \<longleftrightarrow> x = r" for x
    using assms(1) r(1) by (auto simp: distinct_map inj_on_def)
  have "reassign_one now keeper donor r (db1, keys1) = (db', keys')" using snoc.prems(3) st by simp
  then have tab: "refs db' = t_modify (\<lambda>x. ccr_id x = ccr_id r) (merged_row now keeper keys) (refs db1) \<or>
      refs db' = t_modify (\<lambda>x. ccr_id x = ccr_id r) (\<lambda>x. if ccr_control_id r \<in> set keys
        then close_reference now None MERGE_REFERENCE_REMOVE_REASON x else moved_to keeper x) (refs db1)"
    and k': "set keys' = set keys \<union> ccr_control_id ` set (rows @ [r])"
    using mem IH(2) by (auto simp: reassign_one_def record_audit_fst set_reference_def moved_to_def split: if_splits)
  have id: "ccr_id (merged_row now keeper keys x) = ccr_id x" for x
    by (simp add: merged_row_def close_reference_def moved_to_def)
  have "map (\<lambda>x. if ccr_id x = ccr_id r then merged_row now keeper keys x else x)
      (map (\<lambda>x. if x \<in> set rows then merged_row now keeper keys x else x) (t_rows (refs db))) =
    map (\<lambda>x. if x \<in> set (rows @ [r]) then merged_row now keeper keys x else x) (t_rows (refs db))"
    using same r(2) by (auto simp: id)
  moreover have "map (\<lambda>x. if ccr_id x = ccr_id r then (if ccr_control_id r \<in> set keys
        then close_reference now None MERGE_REFERENCE_REMOVE_REASON x else moved_to keeper x) else x)
      (map (\<lambda>x. if x \<in> set rows then merged_row now keeper keys x else x) (t_rows (refs db))) =
    map (\<lambda>x. if x \<in> set (rows @ [r]) then merged_row now keeper keys x else x) (t_rows (refs db))"
    using same r(2) by (auto simp: id merged_row_def [of now keeper keys r])
  ultimately show ?case using tab k' unfolding IH(1) by (auto simp: t_modify_def)
qed

lemma active_donor_controls:
  assumes "refs_ok db"
  shows "distinct (map ccr_control_id (active_refs db i))"
proof -
  have "inj_on ccr_control_id (set (active_refs db i))"
    by (rule inj_onI, rule refs_okD(3) [OF assms]) (auto simp: active_refs_def t_select_def ref_clash_iff intro: exI [of _ SubjAssetFinding])
  moreover have "distinct (active_refs db i)"
    using refs_okD(1) [OF assms] by (auto simp: t_wf_def active_refs_def t_select_def distinct_map)
  ultimately show ?thesis by (simp add: distinct_map)
qed

lemma reassign_rows:
  assumes "refs_ok db"
  shows "refs (reassign_asset_finding_control_references now keeper donor db) = (refs db)\<lparr>t_rows :=
    map (\<lambda>r. if r \<in> set (active_refs db (af_id donor))
      then merged_row now keeper (map ccr_control_id (active_refs db (af_id keeper))) r else r) (t_rows (refs db))\<rparr>"
proof -
  obtain db' keys' where f: "fold (reassign_one now keeper donor) (active_refs db (af_id donor))
      (db, map ccr_control_id (active_refs db (af_id keeper))) = (db', keys')" by force
  have "distinct (map ccr_id (t_rows (refs db)))" using refs_okD(1) [OF assms] by (simp add: t_wf_def)
  from reassign_fold [OF this active_donor_controls [OF assms] _ f] show ?thesis
    by (simp add: reassign_asset_finding_control_references_def f) (auto simp: active_refs_def t_select_def)
qed

lemma image_filter: "{x \<in> f ` A. P x} = f ` {r \<in> A. P (f r)}"
  by blast

lemma moved_fields:
  "ccr_id (moved_to keeper r) = ccr_id r" "ccr_control_id (moved_to keeper r) = ccr_control_id r"
  "ccr_removed_at (moved_to keeper r) = ccr_removed_at r"
  "k \<noteq> SubjAssetFinding \<Longrightarrow> ref_field k (moved_to keeper r) = ref_field k r"
  "ref_field SubjAssetFinding (moved_to keeper r) = Some (af_id keeper)"
  by (simp_all add: moved_to_def) (cases k; simp add: moved_to_def)

lemma active_refs_iff: "r \<in> set (active_refs db i) \<longleftrightarrow> r \<in> set (t_rows (refs db)) \<and>
    ref_field SubjAssetFinding r = Some i \<and> ccr_removed_at r = None"
  by (auto simp: active_refs_def t_select_def)

lemma moved_clash:
  assumes ok: "refs_ok db" and r: "r \<in> set (active_refs db d)" "ccr_control_id r \<notin> ccr_control_id ` set (active_refs db (af_id keeper))"
    and s: "s \<in> set (t_rows (refs db))" and clash: "ref_clash (moved_to keeper r) s"
  shows False
proof -
  obtain k where k: "ref_field k (moved_to keeper r) \<noteq> None" "ref_field k (moved_to keeper r) = ref_field k s"
      "ccr_control_id r = ccr_control_id s" "ccr_removed_at s = None"
    using clash unfolding ref_clash_iff moved_fields(2,3) by blast
  have "one_subject r" "ref_field SubjAssetFinding r \<noteq> None"
    using r(1) refs_okD(2) [OF ok] by (auto simp: active_refs_iff)
  then have "k = SubjAssetFinding" using k(1) one_subject_field moved_fields(4) by metis
  with k have "ref_field SubjAssetFinding s = Some (af_id keeper)" using moved_fields(5) by metis
  with k s have "s \<in> set (active_refs db (af_id keeper))" by (simp only: active_refs_iff simp_thms)
  with r(2) k(3) show False by blast
qed

lemma refs_ok_merge:
  assumes ok: "refs_ok db"
  shows "refs_ok (reassign_asset_finding_control_references now keeper donor db)"
proof (rule refs_ok_map [OF ok reassign_rows [OF ok]])
  let ?D = "set (active_refs db (af_id donor))" let ?K = "map ccr_control_id (active_refs db (af_id keeper))"
  fix r assume r: "r \<in> set (t_rows (refs db))"
  have "one_subject (moved_to keeper r)" if "r \<in> ?D"
    using that refs_okD(2) [OF ok r] by (auto simp: active_refs_iff one_subject_def moved_to_def split: if_splits)
  then show "ccr_id (if r \<in> ?D then merged_row now keeper ?K r else r) = ccr_id r \<and>
      one_subject (if r \<in> ?D then merged_row now keeper ?K r else r)"
    using refs_okD(2) [OF ok r] by (simp add: merged_row_def close_fields moved_fields)
  fix s assume s: "s \<in> set (t_rows (refs db))"
    and clash: "ref_clash (if r \<in> ?D then merged_row now keeper ?K r else r) (if s \<in> ?D then merged_row now keeper ?K s else s)"
  consider "r \<in> ?D" "s \<in> ?D" | "r \<in> ?D" "s \<notin> ?D" | "r \<notin> ?D" "s \<in> ?D" | "r \<notin> ?D" "s \<notin> ?D" by blast
  then show "r = s"
  proof cases
    case 1
    have "ccr_control_id r = ccr_control_id s" using clash 1
      by (auto simp: merged_row_def ref_clash_close moved_fields ref_clash_iff close_reference_def split: if_splits)
    with 1 active_donor_controls [OF ok, of "af_id donor"] show ?thesis by (auto simp: distinct_map inj_on_def)
  next
    case 2
    then have "ref_clash (moved_to keeper r) s" "ccr_control_id r \<notin> ccr_control_id ` set (active_refs db (af_id keeper))"
      using clash by (auto simp: merged_row_def ref_clash_close split: if_splits)
    with moved_clash [OF ok 2(1) _ s] show ?thesis by blast
  next
    case 3
    then have "ref_clash (moved_to keeper s) r" "ccr_control_id s \<notin> ccr_control_id ` set (active_refs db (af_id keeper))"
      using clash ref_clash_sym by (auto simp: merged_row_def ref_clash_close split: if_splits)
    with moved_clash [OF ok 3(2) _ r] show ?thesis by blast
  next
    case 4
    with clash refs_okD(3) [OF ok r s] show ?thesis by simp
  qed
qed

lemma mapping_step_ok: "mapping_step db db' \<Longrightarrow> refs_ok db \<Longrightarrow> refs_ok db'"
proof (induction rule: mapping_step.induct)
  case (map_add now actor tenant control kind i rel remark db db' r)
  then obtain k where "refs db' = t_insert (new_reference now actor tenant control k i (strip (if rel \<noteq> [] then rel else CONTROL_REF_RELATED)) remark) (refs db)"
      "\<not> t_exists (ref_clash (new_reference now actor tenant control k i (strip (if rel \<noteq> [] then rel else CONTROL_REF_RELATED)) remark (t_next (refs db)))) (refs db)"
    by (auto simp: add_control_reference_def rbind_Inr_iff Let_def record_audit_fst split: if_splits)
  with map_add.prems show ?case by (rule refs_ok_add)
next
  case (map_remove now actor tenant ref reason db db')
  then have "refs db' = t_modify (\<lambda>r. ccr_id r = ref) (close_reference now (Some actor) (strip reason)) (refs db)"
    by (auto simp: remove_control_reference_def record_audit_fst set_reference_def split: if_splits option.splits)
  with map_remove.prems show ?case by (rule refs_ok_remove)
next
  case (map_merge keeper donor db' now db)
  then show ?case by (simp add: refs_ok_merge)
qed (rule refs_ok_cong [THEN iffD2]; force simp: create_framework_def update_framework_def archive_framework_def
      create_control_def update_control_def archive_control_def set_framework_def set_control_def record_audit_fst Let_def
      split: if_splits option.splits)+

subsection \<open>Properties\<close>

text \<open>C27: whatever sequence of mapping requests, catalogue changes and merges of findings runs, a
  control is actively mapped to an object at most once, and every mapping names exactly one
  object: the checks of the code never leave a pair of rows that the database's unique indexes
  would reject, and in particular a merge never fails on them.\<close>

theorem mappings_stay_unambiguous:
  assumes "mapping_step\<^sup>*\<^sup>* db db'" and "refs_ok db"
    and "r \<in> set (t_rows (tb_compliance_control_references db'))" and "s \<in> set (t_rows (tb_compliance_control_references db'))"
  shows "one_subject r \<and> (ref_clash r s \<longrightarrow> r = s)"
proof -
  have "refs_ok db'" using assms(1,2) by (induction) (auto intro: mapping_step_ok)
  with assms(3,4) show ?thesis using refs_okD(2,3) by blast
qed

text \<open>Reassigning the mappings of a finding keeps exactly the union of the control mappings and loses
  no row; the duplicates are closed.\<close>

lemma reassign_unites_mappings:
  assumes "refs_ok db" and "af_id keeper \<noteq> af_id donor"
    and "db' = reassign_asset_finding_control_references now keeper donor db"
  shows "active_refs db' (af_id donor) = [] \<and>
    ccr_control_id ` set (active_refs db' (af_id keeper)) =
      ccr_control_id ` set (active_refs db (af_id keeper)) \<union> ccr_control_id ` set (active_refs db (af_id donor)) \<and>
    map ccr_id (t_rows (tb_compliance_control_references db')) = map ccr_id (t_rows (tb_compliance_control_references db))"
proof -
  let ?D = "active_refs db (af_id donor)" let ?K = "map ccr_control_id (active_refs db (af_id keeper))"
  let ?f = "\<lambda>r. if r \<in> set ?D then merged_row now keeper ?K r else r"
  have rows: "t_rows (refs db') = map ?f (t_rows (refs db))" using reassign_rows [OF assms(1)] assms(3) by simp
  have active: "ref_field SubjAssetFinding (?f r) = Some i \<and> ccr_removed_at (?f r) = None \<longleftrightarrow>
      (if r \<in> set ?D then i = af_id keeper \<and> ccr_control_id r \<notin> set ?K else ref_field SubjAssetFinding r = Some i \<and> ccr_removed_at r = None)"
    if "r \<in> set (t_rows (refs db))" for r i
    using that by (auto simp: merged_row_def close_reference_def moved_to_def active_refs_iff)
  have control: "ccr_control_id (?f r) = ccr_control_id r" "ccr_id (?f r) = ccr_id r" for r
    by (simp_all add: merged_row_def close_reference_def moved_to_def)
  have set_active: "set (active_refs db' i) = ?f ` {r \<in> set (t_rows (refs db)).
      if r \<in> set ?D then i = af_id keeper \<and> ccr_control_id r \<notin> set ?K else ref_field SubjAssetFinding r = Some i \<and> ccr_removed_at r = None}" for i
  proof -
    have "set (active_refs db' i) = {x \<in> ?f ` set (t_rows (refs db)). ref_field SubjAssetFinding x = Some i \<and> ccr_removed_at x = None}"
      by (simp only: set_eq_iff active_refs_iff rows set_map mem_Collect_eq simp_thms)
    also have "\<dots> = ?f ` {r \<in> set (t_rows (refs db)). ref_field SubjAssetFinding (?f r) = Some i \<and> ccr_removed_at (?f r) = None}"
      by (rule image_filter)
    also have "\<dots> = ?f ` {r \<in> set (t_rows (refs db)).
      if r \<in> set ?D then i = af_id keeper \<and> ccr_control_id r \<notin> set ?K else ref_field SubjAssetFinding r = Some i \<and> ccr_removed_at r = None}"
      by (rule arg_cong [where f = "\<lambda>A. ?f ` A"], rule Collect_cong) (use active in blast)
    finally show ?thesis .
  qed
  have "set (active_refs db' (af_id donor)) = {}"
    using assms(2) unfolding set_active by (auto simp: active_refs_iff)
  moreover have "ccr_control_id ` set (active_refs db' (af_id keeper)) = set ?K \<union> ccr_control_id ` set ?D"
    unfolding set_active image_image control
  proof (rule set_eqI)
    fix c
    let ?S = "{r \<in> set (t_rows (refs db)). if r \<in> set ?D then af_id keeper = af_id keeper \<and> ccr_control_id r \<notin> set ?K
      else ref_field SubjAssetFinding r = Some (af_id keeper) \<and> ccr_removed_at r = None}"
    have keep: "k \<in> ?S" if "k \<in> set (active_refs db (af_id keeper))" for k
      using that assms(2) by (simp add: active_refs_iff)
    have donor: "r \<in> ?S" if "r \<in> set ?D" "ccr_control_id r \<notin> set ?K" for r
      using that by (simp add: active_refs_iff)
    have origin: "r \<in> set ?D \<or> r \<in> set (active_refs db (af_id keeper))" if "r \<in> ?S" for r
      using that by (simp add: active_refs_iff split: if_splits)
    show "c \<in> ccr_control_id ` ?S \<longleftrightarrow> c \<in> set ?K \<union> ccr_control_id ` set ?D"
      using keep donor origin unfolding set_map by blast
  qed
  ultimately show ?thesis by (simp add: rows control)
qed

subsection \<open>Witnesses\<close>

definition sample_reference :: compliance_control_reference where
  "sample_reference = new_reference 0 sample_user 1 7 SubjAssetFinding 1 ''related'' [] 1"

definition mapped_finding :: "nat \<Rightarrow> asset_finding" where
  "mapped_finding i = \<lparr>af_id = i, af_tenant_id = 1, af_asset_id = 1, af_vulnerability_id = i,
     af_technical_state = TECHNICAL_OPEN, af_treatment_state = TREATMENT_UNADDRESSED, af_first_seen = 0, af_last_seen = 0,
     af_resolved_at = None, af_consecutive_clean_scans = 0, af_reopened_count = 0, af_priority = None,
     af_priority_score = None, af_priority_model_version = None, af_priority_explanation = None,
     af_priority_calculated_at = None, af_created_at = 0, af_updated_at = 0\<rparr>"

definition mapped_world :: db where
  \<comment> \<open>finding 1 is mapped to the controls 7 and 8, finding 2 to 7\<close>
  "mapped_world = small_world\<lparr>tb_asset_findings := \<lparr>t_next = 3, t_rows = [mapped_finding 1, mapped_finding 2]\<rparr>,
     tb_compliance_control_references := \<lparr>t_next = 4, t_rows = [sample_reference,
       sample_reference\<lparr>ccr_id := 2, ccr_control_id := 8\<rparr>,
       sample_reference\<lparr>ccr_id := 3, ccr_asset_finding_id := Some 2\<rparr>]\<rparr>\<rparr>"

definition united_world :: db where
  "united_world = reassign_asset_finding_control_references 5 (mapped_finding 2) (mapped_finding 1) mapped_world"

theorem mappings_stay_unambiguous_witness:
  "one_subject (hd (t_rows (tb_compliance_control_references united_world)))"
proof -
  have "refs_ok mapped_world" by code_simp
  moreover have "mapping_step mapped_world united_world"
    by (rule map_merge [where keeper = "mapped_finding 2" and donor = "mapped_finding 1" and now = 5])
       (simp_all add: mapped_finding_def united_world_def)
  moreover have "hd (t_rows (tb_compliance_control_references united_world)) \<in> set (t_rows (tb_compliance_control_references united_world))"
  proof -
    have "t_rows (tb_compliance_control_references united_world) \<noteq> []" by code_simp
    then show ?thesis by (rule hd_in_set)
  qed
  ultimately show ?thesis using mappings_stay_unambiguous by blast
qed

end
