(* ===== verification/Treatments.thy ===== *)
theory Treatments
  imports Priority Compliance
begin

section \<open>Treatments of findings\<close>

text \<open>
  \<^verbatim>\<open>backend/app/treatments.py\<close>: a finding is treated by a record that is reviewed, approved,
  superseded, revoked or expires; at most one record of a finding is active, and the finding
  carries the type of that record as a projection. Findings and treatments are named by their ids
  and read from the database where the Python reads an attribute of the loaded row. One request
  has one time: \<open>utcnow()\<close> and the \<open>now\<close> handed in are the same \<open>now\<close>. A
  \<open>TreatmentError\<close> is an \<open>HttpError\<close> with its status.
\<close>

abbreviation treatment_error :: "string \<Rightarrow> app_error" where
  "treatment_error detail \<equiv> HttpError 400 detail"

abbreviation treatments :: "db \<Rightarrow> finding_treatment tbl" where
  "treatments db \<equiv> tb_finding_treatments db"

definition MERGE_COLLISION_REASON :: string where
  "MERGE_COLLISION_REASON = ''Asset finding merge collision: conflicting active treatments require manual review.''"

definition due_by :: "time \<Rightarrow> time option \<Rightarrow> bool" where
  "due_by now t = (case t of None \<Rightarrow> False | Some e \<Rightarrow> e \<le> now)"

definition display_status :: "time \<Rightarrow> finding_treatment option \<Rightarrow> string" where
  "display_status now treatment = (case treatment of None \<Rightarrow> TREATMENT_DISPLAY_UNADDRESSED
     | Some t \<Rightarrow>
        if ft_status t = TREATMENT_STATUS_PENDING_REVIEW then TREATMENT_DISPLAY_PENDING_REVIEW
        else if ft_status t = TREATMENT_STATUS_REVOKED then TREATMENT_DISPLAY_REVOKED
        else if ft_status t = TREATMENT_STATUS_SUPERSEDED then TREATMENT_DISPLAY_SUPERSEDED
        else if ft_status t = TREATMENT_STATUS_EXPIRED then TREATMENT_DISPLAY_EXPIRED
        else if ft_status t \<noteq> TREATMENT_STATUS_ACTIVE then ft_status t
        else if due_by now (ft_expires_at t) then TREATMENT_DISPLAY_EXPIRED
        else if due_by now (ft_review_due_at t) then TREATMENT_DISPLAY_REVIEW_OVERDUE
        else if ft_review_due_at t \<noteq> None then TREATMENT_DISPLAY_REVIEW_DUE
        else TREATMENT_DISPLAY_ACTIVE)"

subsection \<open>Rows\<close>

definition get_finding :: "nat \<Rightarrow> db \<Rightarrow> asset_finding option" where
  "get_finding i db = t_get af_id i (tb_asset_findings db)"

definition set_finding :: "nat \<Rightarrow> (asset_finding \<Rightarrow> asset_finding) \<Rightarrow> db \<Rightarrow> db" where
  "set_finding i f db = db\<lparr>tb_asset_findings := t_modify (\<lambda>r. af_id r = i) f (tb_asset_findings db)\<rparr>"

definition set_treatment :: "nat \<Rightarrow> (finding_treatment \<Rightarrow> finding_treatment) \<Rightarrow> db \<Rightarrow> db" where
  "set_treatment i f db = db\<lparr>tb_finding_treatments := t_modify (\<lambda>r. ft_id r = i) f (treatments db)\<rparr>"

definition recalculate_priority :: "time \<Rightarrow> nat \<Rightarrow> db \<Rightarrow> db" where
  "recalculate_priority now i db = (case get_finding i db of None \<Rightarrow> db
     | Some f \<Rightarrow> fst (recalculate_asset_finding_priorities now [f] db))"

definition is_elapsed :: "time \<Rightarrow> finding_treatment \<Rightarrow> bool" where
  "is_elapsed now t = due_by now (ft_expires_at t)"

definition active_row :: "finding_treatment tbl \<Rightarrow> nat \<Rightarrow> finding_treatment option" where
  \<comment> \<open>\<open>filter(asset_finding_id, status = active).order_by(id).first()\<close>\<close>
  "active_row t i = (case sorted_by ft_id (t_select (\<lambda>r. ft_asset_finding_id r = i \<and> ft_status r = TREATMENT_STATUS_ACTIVE) t) of
     [] \<Rightarrow> None | r # _ \<Rightarrow> Some r)"

definition treatment_audit :: "user option \<Rightarrow> string \<Rightarrow> nat \<Rightarrow> nat \<Rightarrow> (string \<times> json) list \<Rightarrow> audit_req" where
  "treatment_audit actor action i tenant details = \<lparr>ar_actor = actor, ar_action = action,
     ar_object_type = ''finding_treatment'', ar_object_id = Some i, ar_tenant_id = Some tenant, ar_site_id = None,
     ar_details = details\<rparr>"

subsection \<open>Projection and expiry\<close>

definition project_state :: "time \<Rightarrow> finding_treatment option \<Rightarrow> nat \<Rightarrow> db \<Rightarrow> db" where
  \<comment> \<open>the body of \<open>reconcile_treatment_projection\<close> once the active treatment is known\<close>
  "project_state now active i db = recalculate_priority now i (set_finding i (\<lambda>f. f\<lparr>
     af_treatment_state := (case active of None \<Rightarrow> TREATMENT_UNADDRESSED | Some t \<Rightarrow> ft_treatment_type t),
     af_updated_at := now\<rparr>) db)"

definition announce_expired :: "time \<Rightarrow> nat \<Rightarrow> finding_treatment \<Rightarrow> db \<Rightarrow> app_error + db" where
  "announce_expired now i t db = (case get_finding i db of None \<Rightarrow> Inr db
     | Some f \<Rightarrow>
        let db1 = fst (record_audit now (treatment_audit None ''treatment.expired'' (ft_id t) (af_tenant_id f)
              [(''asset_finding_id'', jnat i), (''treatment_type'', JStr (ft_treatment_type t)),
               (''expires_at'', iso (ft_expires_at t)), (''technical_state'', JStr (af_technical_state f)),
               (''treatment_state'', JStr (af_treatment_state f)), (''actor'', JStr ''system'')]) db)
        in rbind (app_event (emit_treatment_expired now t f db1)) (\<lambda>(db2, _, _). Inr db2))"

text \<open>\<open>expire_elapsed_treatments_for_finding\<close>. It reconciles the projection after the rows are
  marked; the active treatment found there is not elapsed any more, so the recursion through
  \<open>current_active_treatment\<close> stops: it is \<open>unelapsed_active\<close>, and
  \<open>expire_elapsed_reconciles\<close> below shows that this is what the call returns.\<close>

definition elapsed_rows :: "time \<Rightarrow> nat \<Rightarrow> db \<Rightarrow> finding_treatment list" where
  "elapsed_rows now i db = sorted_by ft_id (t_select (\<lambda>t. ft_asset_finding_id t = i \<and>
     ft_status t = TREATMENT_STATUS_ACTIVE \<and> is_elapsed now t) (treatments db))"

definition expire_row :: "time \<Rightarrow> finding_treatment \<Rightarrow> finding_treatment" where
  "expire_row now t = t\<lparr>ft_status := TREATMENT_STATUS_EXPIRED, ft_updated_at := now\<rparr>"

definition mark_expired :: "time \<Rightarrow> nat \<Rightarrow> db \<Rightarrow> db" where
  "mark_expired now i db = db\<lparr>tb_finding_treatments := t_modify (\<lambda>t. ft_asset_finding_id t = i \<and>
     ft_status t = TREATMENT_STATUS_ACTIVE \<and> is_elapsed now t) (expire_row now) (treatments db)\<rparr>"

definition unelapsed_active :: "time \<Rightarrow> nat \<Rightarrow> db \<Rightarrow> finding_treatment option" where
  "unelapsed_active now i db = (case active_row (treatments db) i of None \<Rightarrow> None
     | Some t \<Rightarrow> if is_elapsed now t then None else Some t)"

definition expire_elapsed_treatments_for_finding :: "time \<Rightarrow> nat \<Rightarrow> db \<Rightarrow> app_error + (db \<times> nat)" where
  "expire_elapsed_treatments_for_finding now i db =
     (let rows = elapsed_rows now i db in
      if rows = [] then Inr (db, 0)
      else let db1 = mark_expired now i db;
               db2 = project_state now (unelapsed_active now i db1) i db1
           in rbind (rfold (announce_expired now i) (map (expire_row now) rows) db2) (\<lambda>db3. Inr (db3, length rows)))"

definition current_active_treatment :: "time \<Rightarrow> nat \<Rightarrow> db \<Rightarrow> app_error + (db \<times> finding_treatment option)" where
  "current_active_treatment now i db = (case active_row (treatments db) i of
     None \<Rightarrow> Inr (db, None)
   | Some t \<Rightarrow>
       if is_elapsed now t
       then (case get_finding i db of None \<Rightarrow> Inr (db, None)
         | Some f \<Rightarrow> rbind (expire_elapsed_treatments_for_finding now i db) (\<lambda>(db', _). Inr (db', None)))
       else Inr (db, Some t))"

definition reconcile_treatment_projection :: "time \<Rightarrow> nat \<Rightarrow> db \<Rightarrow> app_error + db" where
  "reconcile_treatment_projection now i db =
     rbind (current_active_treatment now i db) (\<lambda>(db', active). Inr (project_state now active i db'))"

definition lock_finding :: "time \<Rightarrow> nat \<Rightarrow> nat \<Rightarrow> db \<Rightarrow> app_error + db" where
  "lock_finding now tenant i db =
     (if t_exists (\<lambda>f. af_id f = i \<and> af_tenant_id f = tenant) (tb_asset_findings db)
      then rbind (expire_elapsed_treatments_for_finding now i db) (\<lambda>(db', _). Inr db')
      else Inl (HttpError 404 ''Asset finding not found''))"

definition get_treatment :: "nat \<Rightarrow> nat \<Rightarrow> nat \<Rightarrow> db \<Rightarrow> app_error + finding_treatment" where
  "get_treatment tenant i tid db =
     (case t_first (\<lambda>t. ft_id t = tid \<and> ft_tenant_id t = tenant \<and> ft_asset_finding_id t = i) (treatments db) of
        None \<Rightarrow> Inl (HttpError 404 ''Treatment not found'') | Some t \<Rightarrow> Inr t)"

subsection \<open>Activation\<close>

text \<open>The session does not flush on queries, so the status of the record that is superseded and the
  status of the one that is activated are written by the same flush. The unit of work emits the
  UPDATEs of loaded rows in the order of their primary keys, and the partial unique index on the
  active treatments of a finding rejects a statement as soon as it is violated.\<close>

definition active_of :: "nat \<Rightarrow> finding_treatment tbl \<Rightarrow> finding_treatment list" where
  "active_of i t = t_select (\<lambda>r. ft_asset_finding_id r = i \<and> ft_status r = TREATMENT_STATUS_ACTIVE) t"

definition update_statement :: "nat \<Rightarrow> nat \<times> (finding_treatment \<Rightarrow> finding_treatment) \<Rightarrow> db \<Rightarrow> app_error + db" where
  "update_statement i u db = (let db' = set_treatment (fst u) (snd u) db in
     if length (active_of i (treatments db')) \<le> 1 then Inr db'
     else Inl (HttpError 409 ''An active treatment already exists for this finding''))"

definition flush_treatments :: "nat \<Rightarrow> (nat \<times> (finding_treatment \<Rightarrow> finding_treatment)) list \<Rightarrow> db \<Rightarrow> app_error + db" where
  "flush_treatments i pending db = rfold (update_statement i) (sorted_by fst pending) db"

definition supersede_row :: "time \<Rightarrow> finding_treatment \<Rightarrow> finding_treatment" where
  "supersede_row now t = t\<lparr>ft_status := TREATMENT_STATUS_SUPERSEDED, ft_updated_at := now\<rparr>"

definition activate_row :: "time \<Rightarrow> finding_treatment \<Rightarrow> finding_treatment" where
  "activate_row now t = t\<lparr>ft_status := TREATMENT_STATUS_ACTIVE, ft_updated_at := now\<rparr>"

text \<open>\<open>_supersede_current\<close>: the audit row now, the status of the current record as a pending write.\<close>

definition supersede_current :: "time \<Rightarrow> nat \<Rightarrow> finding_treatment \<Rightarrow> user option \<Rightarrow> db
    \<Rightarrow> app_error + (db \<times> (nat \<times> (finding_treatment \<Rightarrow> finding_treatment)) list)" where
  "supersede_current now i incoming actor db = rbind (current_active_treatment now i db) (\<lambda>(db1, current).
     case current of None \<Rightarrow> Inr (db1, [])
     | Some t \<Rightarrow>
        if ft_id t = ft_id incoming then Inr (db1, [])
        else let tenant = (case get_finding i db1 of None \<Rightarrow> ft_tenant_id t | Some f \<Rightarrow> af_tenant_id f)
             in Inr (fst (record_audit now (treatment_audit actor ''treatment.superseded'' (ft_id t) tenant
                  [(''asset_finding_id'', jnat i), (''superseded_treatment_type'', JStr (ft_treatment_type t)),
                   (''replacement_treatment_id'', jnat (ft_id incoming)),
                   (''replacement_treatment_type'', JStr (ft_treatment_type incoming))]) db1),
                  [(ft_id t, supersede_row now)]))"

definition require_expiration_not_due :: "time option \<Rightarrow> time \<Rightarrow> bool \<Rightarrow> app_error + unit" where
  "require_expiration_not_due expires now approve = require (\<not> due_by now expires)
     (treatment_error (if approve then ''Treatment has already expired and cannot be approved''
        else ''Expiration is already due; the treatment cannot be created''))"

definition activate :: "time \<Rightarrow> nat \<Rightarrow> finding_treatment \<Rightarrow> user option \<Rightarrow> db \<Rightarrow> app_error + db" where
  "activate now i t actor db = rbind (require_expiration_not_due (ft_expires_at t) now True) (\<lambda>_.
     rbind (supersede_current now i t actor db) (\<lambda>(db1, pending).
     rbind (flush_treatments i (pending @ [(ft_id t, activate_row now)]) db1) (\<lambda>db2.
       Inr (recalculate_priority now i (set_finding i (\<lambda>f. f\<lparr>af_treatment_state := ft_treatment_type t,
         af_updated_at := now\<rparr>) db2)))))"

subsection \<open>Requests\<close>

record treatment_in =
  ti_type :: string
  ti_rationale :: string
  ti_evidence_notes :: string
  ti_review_due_at :: "time option"
  ti_expires_at :: "time option"
  ti_source :: string

definition new_treatment :: "time \<Rightarrow> user \<Rightarrow> nat \<Rightarrow> nat \<Rightarrow> treatment_in \<Rightarrow> nat \<Rightarrow> finding_treatment" where
  "new_treatment now actor tenant i t n = \<lparr>ft_id = n, ft_tenant_id = tenant, ft_asset_finding_id = i,
     ft_treatment_type = strip (ti_type t), ft_status = TREATMENT_STATUS_PENDING_REVIEW,
     ft_rationale = strip (ti_rationale t), ft_evidence_notes = strip (ti_evidence_notes t), ft_source = ti_source t,
     ft_created_by_user_id = Some (u_id actor), ft_reviewed_by_user_id = None, ft_revoked_by_user_id = None,
     ft_created_at = now, ft_updated_at = now, ft_reviewed_at = None, ft_review_due_at = ti_review_due_at t,
     ft_expires_at = ti_expires_at t, ft_revoked_at = None, ft_revocation_reason = None, ft_review_notes = None\<rparr>"

definition announce_created :: "time \<Rightarrow> user \<Rightarrow> nat \<Rightarrow> nat \<Rightarrow> db \<Rightarrow> app_error + db" where
  "announce_created now actor i n db = (case (get_finding i db, t_get ft_id n (treatments db)) of
     (Some f, Some t) \<Rightarrow>
        let db1 = fst (record_audit now (treatment_audit (Some actor) ''treatment.created'' n (af_tenant_id f)
              [(''asset_finding_id'', jnat i), (''treatment_type'', JStr (ft_treatment_type t)), (''status'', JStr (ft_status t)),
               (''source'', JStr (ft_source t)), (''rationale'', JStr (ft_rationale t)),
               (''technical_state'', JStr (af_technical_state f))]) db)
        in rbind (app_event (emit_treatment_created now t f db1)) (\<lambda>(db2, _, _). Inr db2)
   | _ \<Rightarrow> Inr db)"

definition create_treatment :: "time \<Rightarrow> user \<Rightarrow> nat \<Rightarrow> nat \<Rightarrow> treatment_in \<Rightarrow> db \<Rightarrow> app_error + db" where
  "create_treatment now actor tenant i t db =
     rbind (checks [require (strip (ti_type t) \<in> set TREATMENT_RECORD_TYPES) (treatment_error ''Unsupported treatment type''),
         require (strip (ti_rationale t) \<noteq> []) (treatment_error ''Rationale is required''),
         require (ti_source t \<in> set TREATMENT_SOURCES) (treatment_error ''Unsupported treatment source''),
         require_expiration_not_due (ti_expires_at t) now False]) (\<lambda>_.
     rbind (lock_finding now tenant i db) (\<lambda>db1.
       let mk = new_treatment now actor tenant i t; n = t_next (treatments db1);
           db2 = db1\<lparr>tb_finding_treatments := t_insert mk (treatments db1)\<rparr>
       in rbind (if strip (ti_type t) = TREATMENT_RECORD_MITIGATED then activate now i (mk n) (Some actor) db2 else Inr db2)
            (announce_created now actor i n)))"

definition approve_treatment :: "time \<Rightarrow> user \<Rightarrow> nat \<Rightarrow> nat \<Rightarrow> nat \<Rightarrow> string option \<Rightarrow> db \<Rightarrow> app_error + db" where
  "approve_treatment now actor tenant i tid review_notes db =
     rbind (lock_finding now tenant i db) (\<lambda>db1.
     rbind (get_treatment tenant i tid db1) (\<lambda>t.
       if ft_status t \<noteq> TREATMENT_STATUS_PENDING_REVIEW then Inl (treatment_error ''Only treatments pending review can be approved'')
       else rbind (require_expiration_not_due (ft_expires_at t) now True) (\<lambda>_.
         let reviewed = (\<lambda>t. t\<lparr>ft_reviewed_by_user_id := Some (u_id actor), ft_reviewed_at := Some now,
               ft_review_notes := (case review_notes of None \<Rightarrow> ft_review_notes t | Some s \<Rightarrow> Some (strip s))\<rparr>)
         in rbind (activate now i (reviewed t) (Some actor) (set_treatment tid reviewed db1)) (\<lambda>db2.
            Inr (fst (record_audit now (treatment_audit (Some actor) ''treatment.approved'' tid tenant
              [(''asset_finding_id'', jnat i), (''treatment_type'', JStr (ft_treatment_type t)),
               (''review_notes'', jopt JStr (ft_review_notes (reviewed t))),
               (''technical_state'', jopt (\<lambda>f. JStr (af_technical_state f)) (get_finding i db2))]) db2))))))"

definition review_treatment :: "time \<Rightarrow> user \<Rightarrow> nat \<Rightarrow> nat \<Rightarrow> nat \<Rightarrow> string option \<Rightarrow> time option \<Rightarrow> db \<Rightarrow> app_error + db" where
  "review_treatment now actor tenant i tid review_notes review_due_at db =
     rbind (lock_finding now tenant i db) (\<lambda>db1.
     rbind (get_treatment tenant i tid db1) (\<lambda>t.
       if ft_status t \<notin> {TREATMENT_STATUS_PENDING_REVIEW, TREATMENT_STATUS_ACTIVE}
       then Inl (treatment_error ''Only pending or active treatments can be reviewed'')
       else let reviewed = (\<lambda>t. t\<lparr>ft_reviewed_by_user_id := Some (u_id actor), ft_reviewed_at := Some now, ft_updated_at := now,
               ft_review_notes := (case review_notes of None \<Rightarrow> ft_review_notes t | Some s \<Rightarrow> Some (strip s)),
               ft_review_due_at := (case review_due_at of None \<Rightarrow> ft_review_due_at t | Some d \<Rightarrow> Some d)\<rparr>)
            in Inr (fst (record_audit now (treatment_audit (Some actor) ''treatment.reviewed'' tid tenant
                 [(''asset_finding_id'', jnat i), (''status'', JStr (ft_status t)),
                  (''review_notes'', jopt JStr (ft_review_notes (reviewed t))),
                  (''review_due_at'', iso (ft_review_due_at (reviewed t)))]) (set_treatment tid reviewed db1)))))"

definition revoke_treatment :: "time \<Rightarrow> user \<Rightarrow> nat \<Rightarrow> nat \<Rightarrow> nat \<Rightarrow> string \<Rightarrow> db \<Rightarrow> app_error + db" where
  "revoke_treatment now actor tenant i tid reason db =
     (if strip reason = [] then Inl (treatment_error ''Revocation reason is required'')
      else rbind (lock_finding now tenant i db) (\<lambda>db1.
        rbind (get_treatment tenant i tid db1) (\<lambda>t.
          if ft_status t \<notin> {TREATMENT_STATUS_PENDING_REVIEW, TREATMENT_STATUS_ACTIVE}
          then Inl (treatment_error ''Only pending or active treatments can be revoked'')
          else let was_active = (ft_status t = TREATMENT_STATUS_ACTIVE);
                   db2 = set_treatment tid (\<lambda>t. t\<lparr>ft_status := TREATMENT_STATUS_REVOKED, ft_revoked_by_user_id := Some (u_id actor),
                     ft_revoked_at := Some now, ft_revocation_reason := Some (strip reason), ft_updated_at := now\<rparr>) db1
               in rbind (if was_active then reconcile_treatment_projection now i db2 else Inr db2) (\<lambda>db3.
                 Inr (fst (record_audit now (treatment_audit (Some actor) ''treatment.revoked'' tid tenant
                   [(''asset_finding_id'', jnat i), (''treatment_type'', JStr (ft_treatment_type t)), (''reason'', JStr (strip reason)),
                    (''was_active'', JBool was_active),
                    (''technical_state'', jopt (\<lambda>f. JStr (af_technical_state f)) (get_finding i db3)),
                    (''treatment_state'', jopt (\<lambda>f. JStr (af_treatment_state f)) (get_finding i db3))]) db3))))))"

definition expire_due_treatments :: "time \<Rightarrow> db \<Rightarrow> app_error + (db \<times> nat)" where
  "expire_due_treatments now db =
     (let due = dedup (map (\<lambda>t. (ft_tenant_id t, ft_asset_finding_id t))
            (t_select (\<lambda>t. ft_status t = TREATMENT_STATUS_ACTIVE \<and> is_elapsed now t) (treatments db)))
      in rfold (\<lambda>(tenant, i) (db', expired).
           if t_exists (\<lambda>f. af_id f = i \<and> af_tenant_id f = tenant) (tb_asset_findings db')
           then rbind (expire_elapsed_treatments_for_finding now i db') (\<lambda>(db'', n). Inr (db'', expired + n))
           else Inr (db', expired)) due (db, 0))"

definition list_treatments :: "nat \<Rightarrow> nat \<Rightarrow> db \<Rightarrow> app_error + finding_treatment list" where
  "list_treatments tenant i db =
     (if t_exists (\<lambda>f. af_id f = i \<and> af_tenant_id f = tenant) (tb_asset_findings db)
      then Inr (sorted_by (\<lambda>t. (ft_created_at t, ft_id t))
        (t_select (\<lambda>t. ft_tenant_id t = tenant \<and> ft_asset_finding_id t = i) (treatments db)))
      else Inl (HttpError 404 ''Asset finding not found''))"

definition treatment_review_overdue :: "time \<Rightarrow> finding_treatment \<Rightarrow> bool" where
  "treatment_review_overdue now t \<longleftrightarrow> ft_status t = TREATMENT_STATUS_ACTIVE \<and> due_by now (ft_review_due_at t) \<and>
     \<not> due_by now (ft_expires_at t)"

subsection \<open>Compensating controls\<close>

definition control_audit :: "user \<Rightarrow> string \<Rightarrow> nat \<Rightarrow> nat \<Rightarrow> (string \<times> json) list \<Rightarrow> audit_req" where
  "control_audit actor action i tenant details = \<lparr>ar_actor = Some actor, ar_action = action,
     ar_object_type = ''compensating_control'', ar_object_id = Some i, ar_tenant_id = Some tenant, ar_site_id = None,
     ar_details = details\<rparr>"

definition new_compensating :: "time \<Rightarrow> user \<Rightarrow> nat \<Rightarrow> nat \<Rightarrow> string \<Rightarrow> string \<Rightarrow> string \<Rightarrow> nat \<Rightarrow> compensating_control" where
  "new_compensating now actor tenant tid name description evidence n = \<lparr>cc_id = n, cc_tenant_id = tenant,
     cc_treatment_id = tid, cc_name = strip name, cc_description = strip description, cc_evidence_notes = strip evidence,
     cc_status = COMPENSATING_STATUS_ACTIVE, cc_created_by_user_id = Some (u_id actor), cc_created_at = now,
     cc_updated_at = now, cc_retired_at = None, cc_retired_by_user_id = None, cc_retirement_reason = None\<rparr>"

definition create_compensating_control :: "time \<Rightarrow> user \<Rightarrow> nat \<Rightarrow> nat \<Rightarrow> nat \<Rightarrow> string \<Rightarrow> string \<Rightarrow> string \<Rightarrow> db \<Rightarrow> app_error + db" where
  "create_compensating_control now actor tenant i tid name description evidence db =
     (if strip name = [] then Inl (treatment_error ''Compensating control name is required'')
      else rbind (lock_finding now tenant i db) (\<lambda>db1. rbind (get_treatment tenant i tid db1) (\<lambda>t.
        let n = t_next (tb_compensating_controls db1)
        in Inr (fst (record_audit now (control_audit actor ''compensating_control.created'' n tenant
             [(''treatment_id'', jnat tid), (''asset_finding_id'', jnat i), (''name'', JStr (strip name))])
           (db1\<lparr>tb_compensating_controls := t_insert (new_compensating now actor tenant tid name description evidence)
             (tb_compensating_controls db1)\<rparr>))))))"

definition set_compensating :: "nat \<Rightarrow> (compensating_control \<Rightarrow> compensating_control) \<Rightarrow> db \<Rightarrow> db" where
  "set_compensating i f db = db\<lparr>tb_compensating_controls := t_modify (\<lambda>r. cc_id r = i) f (tb_compensating_controls db)\<rparr>"

definition compensating_text :: "compensating_control \<Rightarrow> json" where
  "compensating_text r = JObj [(''name'', JStr (cc_name r)), (''description'', JStr (cc_description r)),
     (''evidence_notes'', JStr (cc_evidence_notes r))]"

definition load_compensating :: "nat \<Rightarrow> nat \<Rightarrow> nat \<Rightarrow> nat \<Rightarrow> time \<Rightarrow> db \<Rightarrow> app_error + (db \<times> compensating_control)" where
  \<comment> \<open>the finding is locked, then the treatment and its control are looked up\<close>
  "load_compensating tenant i tid cid now db = rbind (lock_finding now tenant i db) (\<lambda>db1.
     rbind (get_treatment tenant i tid db1) (\<lambda>t.
       case t_first (\<lambda>c. cc_id c = cid \<and> cc_tenant_id c = tenant \<and> cc_treatment_id c = tid) (tb_compensating_controls db1) of
         None \<Rightarrow> Inl (HttpError 404 ''Compensating control not found'') | Some c \<Rightarrow> Inr (db1, c)))"

definition update_compensating_control :: "time \<Rightarrow> user \<Rightarrow> nat \<Rightarrow> nat \<Rightarrow> nat \<Rightarrow> nat \<Rightarrow> string option \<Rightarrow> string option \<Rightarrow> string option
    \<Rightarrow> db \<Rightarrow> app_error + db" where
  "update_compensating_control now actor tenant i tid cid name description evidence db =
     rbind (load_compensating tenant i tid cid now db) (\<lambda>(db1, c).
       if cc_status c \<noteq> COMPENSATING_STATUS_ACTIVE then Inl (treatment_error ''Retired compensating controls cannot be changed'')
       else if name \<noteq> None \<and> strip (the name) = [] then Inl (treatment_error ''Compensating control name is required'')
       else let change = (\<lambda>c. c\<lparr>cc_name := (case name of None \<Rightarrow> cc_name c | Some s \<Rightarrow> strip s),
                cc_description := (case description of None \<Rightarrow> cc_description c | Some s \<Rightarrow> strip s),
                cc_evidence_notes := (case evidence of None \<Rightarrow> cc_evidence_notes c | Some s \<Rightarrow> strip s), cc_updated_at := now\<rparr>)
            in Inr (fst (record_audit now (control_audit actor ''compensating_control.changed'' cid tenant
                 [(''before'', compensating_text c), (''after'', compensating_text (change c))]) (set_compensating cid change db1))))"

definition retire_compensating_control :: "time \<Rightarrow> user \<Rightarrow> nat \<Rightarrow> nat \<Rightarrow> nat \<Rightarrow> nat \<Rightarrow> string \<Rightarrow> db \<Rightarrow> app_error + db" where
  "retire_compensating_control now actor tenant i tid cid reason db =
     (if strip reason = [] then Inl (treatment_error ''Retirement reason is required'')
      else rbind (load_compensating tenant i tid cid now db) (\<lambda>(db1, c).
        if cc_status c = COMPENSATING_STATUS_RETIRED then Inl (treatment_error ''Compensating control is already retired'')
        else Inr (fst (record_audit now (control_audit actor ''compensating_control.retired'' cid tenant
             [(''treatment_id'', jnat tid), (''name'', JStr (cc_name c)), (''reason'', JStr (strip reason))])
           (set_compensating cid (\<lambda>c. c\<lparr>cc_status := COMPENSATING_STATUS_RETIRED, cc_retired_at := Some now,
              cc_retired_by_user_id := Some (u_id actor), cc_retirement_reason := Some (strip reason), cc_updated_at := now\<rparr>) db1)))))"

subsection \<open>Merging the treatments of two findings\<close>

definition collision_note :: "string option \<Rightarrow> string" where
  "collision_note old = (if str_or old \<noteq> [] then strip (str_or old @ [CHR 0x0A] @ MERGE_COLLISION_REASON) else MERGE_COLLISION_REASON)"

definition collide :: "time \<Rightarrow> nat \<Rightarrow> nat \<Rightarrow> finding_treatment \<Rightarrow> db \<Rightarrow> db" where
  "collide now keeper donor t db =
     fst (record_audit now (treatment_audit None ''treatment.superseded'' (ft_id t)
         (case get_finding keeper db of None \<Rightarrow> ft_tenant_id t | Some f \<Rightarrow> af_tenant_id f)
         [(''reason'', JStr ''merge_active_treatment_collision''), (''keeper_asset_finding_id'', jnat keeper),
          (''donor_asset_finding_id'', jnat donor), (''treatment_type'', JStr (ft_treatment_type t)),
          (''message'', JStr MERGE_COLLISION_REASON)])
       (set_treatment (ft_id t) (\<lambda>t. t\<lparr>ft_status := TREATMENT_STATUS_SUPERSEDED, ft_updated_at := now,
          ft_review_notes := Some (collision_note (ft_review_notes t))\<rparr>) db))"

definition move_treatments :: "nat \<Rightarrow> nat \<Rightarrow> nat \<Rightarrow> db \<Rightarrow> db" where
  "move_treatments donor keeper tenant db = db\<lparr>tb_finding_treatments := t_modify (\<lambda>t. ft_asset_finding_id t = donor)
     (\<lambda>t. t\<lparr>ft_asset_finding_id := keeper, ft_tenant_id := tenant\<rparr>) (treatments db)\<rparr>"

definition merge_finding_treatments :: "time \<Rightarrow> asset_finding \<Rightarrow> asset_finding \<Rightarrow> db \<Rightarrow> app_error + db" where
  "merge_finding_treatments now keeper donor db =
     (let k = af_id keeper; d = af_id donor in
      rbind (expire_elapsed_treatments_for_finding now k db) (\<lambda>(db1, _).
      rbind (expire_elapsed_treatments_for_finding now d db1) (\<lambda>(db2, _).
      rbind (current_active_treatment now k db2) (\<lambda>(db3, ka).
      rbind (current_active_treatment now d db3) (\<lambda>(db4, da).
        let db5 = (case (ka, da) of (Some a, Some b) \<Rightarrow> collide now k d b (collide now k d a db4) | _ \<Rightarrow> db4);
            db6 = move_treatments d k (af_tenant_id keeper) db5;
            db7 = reassign_asset_finding_control_references now keeper donor db6
        in rbind (current_active_treatment now k db7) (\<lambda>(db8, active).
             let state = (\<lambda>i. map_option af_treatment_state (get_finding i db8)) in
             if active = None \<and> state k \<noteq> state d
             then Inr (recalculate_priority now k (set_finding k (\<lambda>f. f\<lparr>af_treatment_state := TREATMENT_UNADDRESSED, af_updated_at := now\<rparr>) db8))
             else reconcile_treatment_projection now k db8))))))"

subsection \<open>The active records of a table\<close>

lemma active_row_of: "active_row t i = (case sorted_by ft_id (active_of i t) of [] \<Rightarrow> None | r # _ \<Rightarrow> Some r)"
  by (simp add: active_row_def active_of_def)

lemma active_row_one: "length (active_of i t) \<le> 1 \<Longrightarrow>
    active_row t i = (case active_of i t of [] \<Rightarrow> None | r # _ \<Rightarrow> Some r)"
  by (cases "active_of i t") (auto simp: active_row_of sorted_by_def)

lemma active_row_Some: "active_row t i = Some r \<Longrightarrow> r \<in> set (active_of i t)"
proof -
  assume "active_row t i = Some r"
  then obtain rs where "sorted_by ft_id (active_of i t) = r # rs" by (auto simp: active_row_of split: list.splits)
  then have "r \<in> set (sorted_by ft_id (active_of i t))" by (metis list.set_intros(1))
  then show ?thesis by simp
qed

lemma active_of_iff: "r \<in> set (active_of i t) \<longleftrightarrow> r \<in> set (t_rows t) \<and> ft_asset_finding_id r = i \<and> ft_status r = TREATMENT_STATUS_ACTIVE"
  by (auto simp: active_of_def t_select_def)

lemma active_of_closed:
  assumes "\<And>r. P r \<Longrightarrow> ft_status (f r) \<noteq> TREATMENT_STATUS_ACTIVE"
  shows "active_of i (t_modify P f t) = filter (\<lambda>r. \<not> P r) (active_of i t)"
proof -
  have "filter (\<lambda>r. ft_asset_finding_id r = i \<and> ft_status r = TREATMENT_STATUS_ACTIVE) (map (\<lambda>r. if P r then f r else r) xs) =
      filter (\<lambda>r. \<not> P r) (filter (\<lambda>r. ft_asset_finding_id r = i \<and> ft_status r = TREATMENT_STATUS_ACTIVE) xs)" for xs
    using assms by (induction xs) auto
  then show ?thesis by (simp add: active_of_def t_select_def)
qed

lemma active_of_kept:
  assumes "\<And>r. P r \<Longrightarrow> ft_status (f r) = ft_status r \<and> ft_asset_finding_id (f r) = ft_asset_finding_id r"
  shows "active_of i (t_modify P f t) = map (\<lambda>r. if P r then f r else r) (active_of i t)"
proof -
  have "filter (\<lambda>r. ft_asset_finding_id r = i \<and> ft_status r = TREATMENT_STATUS_ACTIVE) (map (\<lambda>r. if P r then f r else r) xs) =
      map (\<lambda>r. if P r then f r else r) (filter (\<lambda>r. ft_asset_finding_id r = i \<and> ft_status r = TREATMENT_STATUS_ACTIVE) xs)" for xs
    using assms by (induction xs) auto
  then show ?thesis by (simp add: active_of_def t_select_def)
qed

lemma active_of_other:
  assumes "\<And>r. r \<in> set (t_rows t) \<Longrightarrow> P r \<Longrightarrow> ft_asset_finding_id r \<noteq> j \<and> ft_asset_finding_id (f r) \<noteq> j"
  shows "active_of j (t_modify P f t) = active_of j t"
proof -
  have "(\<And>r. r \<in> set xs \<Longrightarrow> P r \<Longrightarrow> ft_asset_finding_id r \<noteq> j \<and> ft_asset_finding_id (f r) \<noteq> j) \<Longrightarrow>
      filter (\<lambda>r. ft_asset_finding_id r = j \<and> ft_status r = TREATMENT_STATUS_ACTIVE) (map (\<lambda>r. if P r then f r else r) xs) =
      filter (\<lambda>r. ft_asset_finding_id r = j \<and> ft_status r = TREATMENT_STATUS_ACTIVE) xs" for xs
    by (induction xs) auto
  then show ?thesis using assms by (simp add: active_of_def t_select_def)
qed

lemma active_of_insert: "ft_status (mk (t_next t)) \<noteq> TREATMENT_STATUS_ACTIVE \<Longrightarrow> active_of i (t_insert mk t) = active_of i t"
  by (simp add: active_of_def t_select_def)

lemma active_of_activated:
  assumes "distinct (map ft_id (t_rows t))" and "r \<in> set (t_rows t)" and "ft_asset_finding_id r = i" and "active_of i t = []"
  shows "active_of i (t_modify (\<lambda>x. ft_id x = ft_id r) (activate_row now) t) = [activate_row now r]"
proof -
  have "\<lbrakk>distinct (map ft_id xs); r \<in> set xs; \<forall>x \<in> set xs. \<not> (ft_asset_finding_id x = i \<and> ft_status x = TREATMENT_STATUS_ACTIVE)\<rbrakk> \<Longrightarrow>
     filter (\<lambda>x. ft_asset_finding_id x = i \<and> ft_status x = TREATMENT_STATUS_ACTIVE)
       (map (\<lambda>x. if ft_id x = ft_id r then activate_row now x else x) xs) = [activate_row now r]" for xs
  proof (induction xs)
    case (Cons x xs)
    show ?case
    proof (cases "x = r")
      case True
      with Cons.prems(1) have ne: "\<forall>y \<in> set xs. ft_id y \<noteq> ft_id r" by (auto simp: image_iff)
      then have "map (\<lambda>x. if ft_id x = ft_id r then activate_row now x else x) xs = xs" by (simp add: map_idI)
      with True ne Cons.prems assms(3) show ?thesis by (simp add: activate_row_def filter_empty_conv)
    next
      case False
      with Cons.prems have "ft_id x \<noteq> ft_id r" by auto
      with False Cons show ?thesis by auto
    qed
  qed simp
  from this [OF assms(1,2)] assms(4) show ?thesis
    by (simp add: active_of_def t_select_def filter_empty_conv)
qed

subsection \<open>What an operation leaves alone\<close>

definition finding_view :: "db \<Rightarrow> nat \<times> (nat \<times> nat \<times> string) list" where
  \<comment> \<open>the columns of the findings that treatments depend on\<close>
  "finding_view db = (t_next (tb_asset_findings db),
     map (\<lambda>f. (af_id f, af_tenant_id f, af_treatment_state f)) (t_rows (tb_asset_findings db)))"

definition with_state :: "nat \<Rightarrow> string \<Rightarrow> nat \<times> (nat \<times> nat \<times> string) list \<Rightarrow> nat \<times> (nat \<times> nat \<times> string) list" where
  "with_state i s v = (fst v, map (\<lambda>(j, tn, s'). (j, tn, if j = i then s else s')) (snd v))"

definition state_of :: "finding_treatment option \<Rightarrow> string" where
  "state_of t = (case t of None \<Rightarrow> TREATMENT_UNADDRESSED | Some r \<Rightarrow> ft_treatment_type r)"

definition same_views :: "db \<Rightarrow> db \<Rightarrow> bool" where
  "same_views db db' \<longleftrightarrow> treatments db' = treatments db \<and> finding_view db' = finding_view db"

lemma same_views_trans: "same_views a b \<Longrightarrow> same_views b c \<Longrightarrow> same_views a c"
  by (simp add: same_views_def)

lemma audit_views [simp]: "treatments (fst (record_audit now a db)) = treatments db" "finding_view (fst (record_audit now a db)) = finding_view db"
  by (simp_all add: record_audit_fst finding_view_def)

lemma recalculate_views: "treatments (recalculate_priority now i db) = treatments db \<and> finding_view (recalculate_priority now i db) = finding_view db"
  by (auto simp: recalculate_priority_def recalculate_asset_finding_priorities_def finding_view_def prioritise_def split: option.splits)

lemma state_views: "finding_view (set_finding i (\<lambda>f. f\<lparr>af_treatment_state := s, af_updated_at := now\<rparr>) db) = with_state i s (finding_view db)"
  by (simp add: finding_view_def with_state_def set_finding_def o_def case_prod_beta)

lemma project_views: "treatments (project_state now active i db) = treatments db"
    "finding_view (project_state now active i db) = with_state i (state_of active) (finding_view db)"
  by (simp_all add: project_state_def recalculate_views state_views state_of_def) (simp add: set_finding_def)

lemma emit_views:
  assumes "emit_domain_event now e db = Inr (db', ev, c)"
  shows "same_views db db'"
  using emit_frame [OF assms] by (auto simp: same_views_def finding_view_def)

lemma announce_expired_views: "announce_expired now i t db = Inr db' \<Longrightarrow> same_views db db'"
  by (auto simp: announce_expired_def rbind_Inr_iff emit_treatment_expired_def Let_def same_views_def split: option.splits dest!: emit_views)

lemma announce_created_views: "announce_created now actor i n db = Inr db' \<Longrightarrow> same_views db db'"
  by (auto simp: announce_created_def rbind_Inr_iff emit_treatment_created_def Let_def same_views_def split: option.splits dest!: emit_views)

lemma announce_all_views: "rfold (announce_expired now i) rows db = Inr db' \<Longrightarrow> same_views db db'"
  by (erule rfold_invariant [where P = "same_views db"])
     (auto simp: same_views_def [of db db] intro: same_views_trans announce_expired_views)

lemma mark_views: "finding_view (mark_expired now i db) = finding_view db"
    "treatments (mark_expired now i db) = t_modify (\<lambda>t. ft_asset_finding_id t = i \<and> ft_status t = TREATMENT_STATUS_ACTIVE \<and>
       is_elapsed now t) (expire_row now) (treatments db)"
  by (simp_all add: mark_expired_def finding_view_def)

lemma expire_views:
  assumes "expire_elapsed_treatments_for_finding now i db = Inr (db', n)"
  shows "treatments db' = t_modify (\<lambda>t. ft_asset_finding_id t = i \<and> ft_status t = TREATMENT_STATUS_ACTIVE \<and> is_elapsed now t)
       (expire_row now) (treatments db) \<and>
    finding_view db' = (if elapsed_rows now i db = [] then finding_view db
      else with_state i (state_of (unelapsed_active now i (mark_expired now i db))) (finding_view db))"
proof (cases "elapsed_rows now i db = []")
  case True
  then have "set (elapsed_rows now i db) = {}" by simp
  then have "\<not> (ft_asset_finding_id t = i \<and> ft_status t = TREATMENT_STATUS_ACTIVE \<and> is_elapsed now t)" if "t \<in> set (t_rows (treatments db))" for t
    using that by (auto simp: elapsed_rows_def t_select_def)
  then have "t_modify (\<lambda>t. ft_asset_finding_id t = i \<and> ft_status t = TREATMENT_STATUS_ACTIVE \<and> is_elapsed now t)
       (expire_row now) (treatments db) = treatments db" by (rule t_modify_none)
  with True assms show ?thesis by (simp add: expire_elapsed_treatments_for_finding_def)
next
  case False
  with assms show ?thesis
    by (auto simp: expire_elapsed_treatments_for_finding_def Let_def rbind_Inr_iff same_views_def project_views mark_views
        dest!: announce_all_views)
qed

subsection \<open>One active record, and its projection\<close>

definition treatment_ok :: "db \<Rightarrow> bool" where
  "treatment_ok db \<longleftrightarrow> t_wf ft_id (treatments db) \<and> t_wf af_id (tb_asset_findings db) \<and>
     list_all (\<lambda>t. length (active_of (ft_asset_finding_id t) (treatments db)) \<le> 1 \<and>
       list_ex (\<lambda>f. af_id f = ft_asset_finding_id t \<and> af_tenant_id f = ft_tenant_id t) (t_rows (tb_asset_findings db)))
       (t_rows (treatments db)) \<and>
     list_all (\<lambda>f. af_treatment_state f = state_of (active_row (treatments db) (af_id f))) (t_rows (tb_asset_findings db))"

text \<open>The same, over the two views an operation acts on.\<close>

definition views_ok :: "finding_treatment tbl \<Rightarrow> nat \<times> (nat \<times> nat \<times> string) list \<Rightarrow> bool" where
  "views_ok t v \<longleftrightarrow> t_wf ft_id t \<and> distinct (map fst (snd v)) \<and> (\<forall>x \<in> set (snd v). fst x < fst v) \<and>
     (\<forall>i. length (active_of i t) \<le> 1) \<and>
     (\<forall>r \<in> set (t_rows t). \<exists>s. (ft_asset_finding_id r, ft_tenant_id r, s) \<in> set (snd v)) \<and>
     (\<forall>(i, tn, s) \<in> set (snd v). s = state_of (active_row t i))"

lemma active_of_no_rows: "(\<And>r. r \<in> set (t_rows t) \<Longrightarrow> ft_asset_finding_id r \<noteq> i) \<Longrightarrow> active_of i t = []"
  by (auto simp: active_of_def t_select_def filter_empty_conv)

lemma treatment_ok_views: "treatment_ok db \<longleftrightarrow> views_ok (treatments db) (finding_view db)"
proof -
  have one: "(\<forall>t \<in> set (t_rows (treatments db)). length (active_of (ft_asset_finding_id t) (treatments db)) \<le> 1) \<longleftrightarrow>
      (\<forall>i. length (active_of i (treatments db)) \<le> 1)"
    using active_of_no_rows [of "treatments db"] by (metis bot_nat_0.extremum list.size(3))
  have wf: "t_wf af_id (tb_asset_findings db) \<longleftrightarrow> distinct (map fst (snd (finding_view db))) \<and>
      (\<forall>x \<in> set (snd (finding_view db)). fst x < fst (finding_view db))"
    by (simp add: t_wf_def finding_view_def list_all_iff o_def)
  have own: "list_ex (\<lambda>f. af_id f = ft_asset_finding_id t \<and> af_tenant_id f = ft_tenant_id t) (t_rows (tb_asset_findings db)) \<longleftrightarrow>
      (\<exists>s. (ft_asset_finding_id t, ft_tenant_id t, s) \<in> set (snd (finding_view db)))" for t
    by (force simp: list_ex_iff finding_view_def)
  have proj: "(\<forall>f \<in> set (t_rows (tb_asset_findings db)). af_treatment_state f = state_of (active_row (treatments db) (af_id f))) \<longleftrightarrow>
      (\<forall>(i, tn, s) \<in> set (snd (finding_view db)). s = state_of (active_row (treatments db) i))"
    by (auto simp: finding_view_def)
  show ?thesis unfolding treatment_ok_def list_all_iff views_ok_def wf own proj using one by blast
qed

text \<open>The abstract state: which record covers a finding, with its type and its expiry.\<close>

type_synonym cover = "nat \<Rightarrow> (nat \<times> string \<times> time option) option"

definition cover_of :: "finding_treatment tbl \<Rightarrow> cover" where
  "cover_of t i = map_option (\<lambda>r. (ft_id r, ft_treatment_type r, ft_expires_at r)) (active_row t i)"

lemma cover_of_nil: "active_of i t = [] \<Longrightarrow> cover_of t i = None"
  by (simp add: cover_of_def active_row_of sorted_by_def)

lemma cover_of_one: "active_of i t = [r] \<Longrightarrow> cover_of t i = Some (ft_id r, ft_treatment_type r, ft_expires_at r)"
  by (simp add: cover_of_def active_row_of sorted_by_def)

lemma state_of_cover: "state_of (active_row t i) = (case cover_of t i of None \<Rightarrow> TREATMENT_UNADDRESSED | Some (_, k, _) \<Rightarrow> k)"
  by (simp add: state_of_def cover_of_def split: option.splits)

lemma active_of_cases:
  assumes "length (active_of i t) \<le> 1"
  obtains "active_of i t = []" | r where "active_of i t = [r]"
  using assms by (cases "active_of i t") auto

text \<open>Re-establishing the invariant after a write for one finding: its projection follows the new
  active record, the records of the other findings are the same.\<close>

lemma views_okI:
  assumes ok: "views_ok t v" and wf: "t_wf ft_id t'"
    and one: "\<And>j. length (active_of j t') \<le> 1"
    and own: "\<And>r. r \<in> set (t_rows t') \<Longrightarrow> \<exists>s. (ft_asset_finding_id r, ft_tenant_id r, s) \<in> set (snd v)"
    and other: "\<And>j. j \<noteq> i \<Longrightarrow> cover_of t' j = cover_of t j"
  shows "views_ok t' (with_state i (state_of (active_row t' i)) v)"
proof -
  have same: "state_of (active_row t' j) = state_of (active_row t j)" if "j \<noteq> i" for j
    using other [OF that] by (simp add: state_of_cover)
  have keys: "map fst (snd (with_state i s v)) = map fst (snd v)" "fst (with_state i s v) = fst v" for s
    by (simp_all add: with_state_def o_def case_prod_beta)
  have "\<forall>x \<in> set (snd (with_state i s v)). fst x < fst v" for s
    using ok by (auto simp: views_ok_def with_state_def)
  moreover have "\<exists>s'. (ft_asset_finding_id r, ft_tenant_id r, s') \<in> set (snd (with_state i s v))" if "r \<in> set (t_rows t')" for r s
    using own [OF that] by (force simp: with_state_def)
  moreover have "\<forall>(j, tn, s) \<in> set (snd (with_state i (state_of (active_row t' i)) v)). s = state_of (active_row t' j)"
    using ok same by (auto simp: views_ok_def with_state_def)
  ultimately show ?thesis using ok wf one unfolding views_ok_def keys by auto
qed

lemma with_state_same:
  assumes "views_ok t v"
  shows "with_state i (state_of (active_row t i)) v = v"
proof -
  have "map (\<lambda>(j, tn, s'). (j, tn, if j = i then state_of (active_row t i) else s')) (snd v) = snd v"
    by (rule map_idI) (use assms in \<open>auto simp: views_ok_def\<close>)
  then show ?thesis by (simp add: with_state_def)
qed

subsection \<open>Expiry as a step of the abstract state\<close>

definition spec_expire :: "time \<Rightarrow> nat \<Rightarrow> cover \<Rightarrow> cover" where
  "spec_expire now i m = (case m i of None \<Rightarrow> m | Some (_, _, e) \<Rightarrow> if due_by now e then m(i := None) else m)"

definition expired_table :: "time \<Rightarrow> nat \<Rightarrow> finding_treatment tbl \<Rightarrow> finding_treatment tbl" where
  "expired_table now i t = t_modify (\<lambda>r. ft_asset_finding_id r = i \<and> ft_status r = TREATMENT_STATUS_ACTIVE \<and> is_elapsed now r)
     (expire_row now) t"

definition owners :: "db \<Rightarrow> (nat \<times> nat) list" where
  "owners db = map (\<lambda>f. (af_id f, af_tenant_id f)) (t_rows (tb_asset_findings db))"

definition expires_to :: "time \<Rightarrow> nat \<Rightarrow> db \<Rightarrow> db \<Rightarrow> bool" where
  "expires_to now i db db' \<longleftrightarrow> treatment_ok db' \<and> treatments db' = expired_table now i (treatments db) \<and> owners db' = owners db \<and>
     cover_of (treatments db') = spec_expire now i (cover_of (treatments db)) \<and>
     (\<forall>r. active_row (treatments db') i = Some r \<longrightarrow> \<not> is_elapsed now r)"

lemma owners_view: "owners db = map (\<lambda>(i, tn, s). (i, tn)) (snd (finding_view db))"
  by (simp add: owners_def finding_view_def)

lemma owners_with_state: "map (\<lambda>(i, tn, s). (i, tn)) (snd (with_state i s v)) = map (\<lambda>(i, tn, s). (i, tn)) (snd v)"
  by (simp add: with_state_def case_prod_beta)

lemma spec_expire_idem: "spec_expire now i (spec_expire now i m) = spec_expire now i m"
  by (auto simp: spec_expire_def split: option.splits)

lemma expired_active: "active_of j (expired_table now i t) = filter (\<lambda>r. \<not> (j = i \<and> is_elapsed now r)) (active_of j t)"
proof -
  have "active_of j (expired_table now i t) = filter (\<lambda>r. \<not> (ft_asset_finding_id r = i \<and> ft_status r = TREATMENT_STATUS_ACTIVE \<and> is_elapsed now r)) (active_of j t)"
    unfolding expired_table_def by (rule active_of_closed) (simp add: expire_row_def)
  also have "\<dots> = filter (\<lambda>r. \<not> (j = i \<and> is_elapsed now r)) (active_of j t)"
    by (rule filter_cong) (auto simp: active_of_iff)
  finally show ?thesis .
qed

lemma expired_rows: "r \<in> set (t_rows (expired_table now i t)) \<Longrightarrow>
    \<exists>r0 \<in> set (t_rows t). ft_asset_finding_id r = ft_asset_finding_id r0 \<and> ft_tenant_id r = ft_tenant_id r0"
  by (auto simp: expired_table_def expire_row_def)

lemma wf_rows_map:
  assumes "t_wf ft_id t" and "\<And>r. P r \<Longrightarrow> ft_id (f r) = ft_id r"
  shows "t_wf ft_id (t_modify P f t)"
proof -
  have "map ft_id (map (\<lambda>r. if P r then f r else r) (t_rows t)) = map ft_id (t_rows t)" using assms(2) by simp
  then have "distinct (map ft_id (map (\<lambda>r. if P r then f r else r) (t_rows t)))" using assms(1) by (simp only: t_wf_def)
  then show ?thesis using assms by (auto simp: t_wf_def list_all_iff)
qed

lemma views_okD:
  assumes "views_ok t v"
  shows "t_wf ft_id t" "length (active_of i t) \<le> 1"
    "r \<in> set (t_rows t) \<Longrightarrow> \<exists>s. (ft_asset_finding_id r, ft_tenant_id r, s) \<in> set (snd v)"
  using assms by (auto simp: views_ok_def)

lemma expired_cover:
  assumes "length (active_of i t) \<le> 1"
  shows "cover_of (expired_table now i t) = spec_expire now i (cover_of t)"
    and "active_row (expired_table now i t) i = Some r \<Longrightarrow> \<not> is_elapsed now r"
proof -
  have other: "cover_of (expired_table now i t) j = cover_of t j" if "j \<noteq> i" for j
    using that by (simp add: cover_of_def active_row_of expired_active)
  show "cover_of (expired_table now i t) = spec_expire now i (cover_of t)"
    using assms
  proof (cases rule: active_of_cases)
    case 1
    then have "active_of i (expired_table now i t) = []" by (simp add: expired_active)
    then have "cover_of (expired_table now i t) j = cover_of t j" for j
      using 1 other by (cases "j = i") (simp_all add: cover_of_nil)
    then show ?thesis using 1 by (simp add: fun_eq_iff spec_expire_def cover_of_nil)
  next
    case (2 r)
    show ?thesis
    proof (cases "is_elapsed now r")
      case True
      with 2 have "active_of i (expired_table now i t) = []" by (simp add: expired_active)
      with 2 True other show ?thesis by (auto simp: fun_eq_iff spec_expire_def cover_of_nil cover_of_one is_elapsed_def)
    next
      case False
      with 2 have "active_of i (expired_table now i t) = [r]" by (simp add: expired_active)
      then have "cover_of (expired_table now i t) j = cover_of t j" for j
        using 2 other by (cases "j = i") (simp_all add: cover_of_one)
      then show ?thesis using 2 False by (simp add: fun_eq_iff spec_expire_def cover_of_one is_elapsed_def)
    qed
  qed
  show "active_row (expired_table now i t) i = Some r \<Longrightarrow> \<not> is_elapsed now r"
    by (drule active_row_Some) (simp add: expired_active)
qed

lemma expires_toI:
  assumes ok: "treatment_ok db" and t: "treatments db' = expired_table now i (treatments db)"
    and v: "finding_view db' = with_state i (state_of (active_row (treatments db') i)) (finding_view db)"
  shows "expires_to now i db db'"
proof -
  note ok' = ok [unfolded treatment_ok_views]
  have "treatment_ok db'" unfolding treatment_ok_views v
  proof (rule views_okI [OF ok'])
    show "t_wf ft_id (treatments db')" unfolding t expired_table_def
      by (rule wf_rows_map [OF views_okD(1) [OF ok']]) (simp add: expire_row_def)
    show "length (active_of j (treatments db')) \<le> 1" for j
      using views_okD(2) [OF ok', of j] by (simp add: t expired_active le_trans [OF length_filter_le])
    show "r \<in> set (t_rows (treatments db')) \<Longrightarrow> \<exists>s. (ft_asset_finding_id r, ft_tenant_id r, s) \<in> set (snd (finding_view db))" for r
      unfolding t using expired_rows views_okD(3) [OF ok'] by metis
    show "j \<noteq> i \<Longrightarrow> cover_of (treatments db') j = cover_of (treatments db) j" for j
      by (simp add: t cover_of_def active_row_of expired_active)
  qed
  moreover have "owners db' = owners db" unfolding owners_view v by (rule owners_with_state)
  moreover note expired_cover [OF views_okD(2) [OF ok'], where i = i and now = now, folded t]
  ultimately show ?thesis using t by (simp add: expires_to_def)
qed

lemma expire_steps:
  assumes ok: "treatment_ok db" and run: "expire_elapsed_treatments_for_finding now i db = Inr (db', n)"
  shows "expires_to now i db db'"
proof (rule expires_toI [OF ok])
  show t: "treatments db' = expired_table now i (treatments db)"
    using expire_views [OF run] by (simp add: expired_table_def)
  show "finding_view db' = with_state i (state_of (active_row (treatments db') i)) (finding_view db)"
  proof (cases "elapsed_rows now i db = []")
    case True
    then have "treatments db' = treatments db" "finding_view db' = finding_view db"
      using run by (auto simp: expire_elapsed_treatments_for_finding_def)
    then show ?thesis using with_state_same [OF ok [unfolded treatment_ok_views]] by simp
  next
    case False
    have "treatments (mark_expired now i db) = treatments db'" by (simp add: t mark_views expired_table_def)
    then have "unelapsed_active now i (mark_expired now i db) = active_row (treatments db') i"
      using expired_cover(2) [OF views_okD(2) [OF ok [unfolded treatment_ok_views]], where i = i and now = now, folded t]
      by (auto simp: unelapsed_active_def split: option.splits)
    with False expire_views [OF run] show ?thesis by simp
  qed
qed

text \<open>The recursion of the code: reconciling right after the rows were marked finds an active record
  that has not elapsed, so the model's \<open>unelapsed_active\<close> is what the call finds.\<close>

lemma expire_elapsed_reconciles:
  assumes "treatment_ok db"
  shows "reconcile_treatment_projection now i (mark_expired now i db) =
    Inr (project_state now (unelapsed_active now i (mark_expired now i db)) i (mark_expired now i db))"
  using expired_cover(2) [OF views_okD(2) [OF assms [unfolded treatment_ok_views]], where i = i and now = now]
  by (auto simp: reconcile_treatment_projection_def current_active_treatment_def unelapsed_active_def mark_views
      simp flip: expired_table_def split: option.splits)

lemma unexpired_stays:
  assumes ok: "treatment_ok db" and "\<forall>r. active_row (treatments db) i = Some r \<longrightarrow> \<not> is_elapsed now r"
  shows "expires_to now i db db"
proof (rule expires_toI [OF ok])
  have "\<not> (ft_asset_finding_id r = i \<and> ft_status r = TREATMENT_STATUS_ACTIVE \<and> is_elapsed now r)" if "r \<in> set (t_rows (treatments db))" for r
    using views_okD(2) [OF ok [unfolded treatment_ok_views], of i]
  proof (cases rule: active_of_cases)
    case 1
    with that active_of_iff [of r i "treatments db"] show ?thesis by auto
  next
    case (2 r')
    then have "active_row (treatments db) i = Some r'" by (simp add: active_row_one)
    moreover have "r = r'" if "ft_asset_finding_id r = i" "ft_status r = TREATMENT_STATUS_ACTIVE"
      using that 2 \<open>r \<in> set (t_rows (treatments db))\<close> active_of_iff [of r i "treatments db"] by simp
    ultimately show ?thesis using assms(2) by blast
  qed
  then show "treatments db = expired_table now i (treatments db)" unfolding expired_table_def by (rule t_modify_none [symmetric])
  show "finding_view db = with_state i (state_of (active_row (treatments db) i)) (finding_view db)"
    using with_state_same [OF ok [unfolded treatment_ok_views]] by simp
qed

lemma current_steps:
  assumes ok: "treatment_ok db" and run: "current_active_treatment now i db = Inr (db', a)"
  shows "expires_to now i db db' \<and> a = active_row (treatments db') i"
proof (cases "active_row (treatments db) i")
  case None
  with run have "db' = db" "a = None" by (simp_all add: current_active_treatment_def)
  with None unexpired_stays [OF ok] show ?thesis by simp
next
  case (Some t)
  show ?thesis
  proof (cases "is_elapsed now t")
    case False
    with Some run have "db' = db" "a = Some t" by (simp_all add: current_active_treatment_def)
    with Some False unexpired_stays [OF ok] show ?thesis by simp
  next
    case True
    have "t \<in> set (t_rows (treatments db))" "ft_asset_finding_id t = i" using active_row_Some [OF Some] by (simp_all add: active_of_iff)
    then obtain f where "f \<in> set (t_rows (tb_asset_findings db))" "af_id f = i"
      using ok by (auto simp: treatment_ok_def list_all_iff list_ex_iff)
    then have "get_finding i db \<noteq> None" unfolding get_finding_def t_get_def t_first_None by blast
    with Some True run obtain n where e: "expire_elapsed_treatments_for_finding now i db = Inr (db', n)" and a: "a = None"
      by (auto simp: current_active_treatment_def rbind_Inr_iff)
    note st = expire_steps [OF ok e]
    have "active_of i (treatments db) = [t]"
      using views_okD(2) [OF ok [unfolded treatment_ok_views], of i] active_row_Some [OF Some]
      by (cases rule: active_of_cases) auto
    then have "active_of i (treatments db') = []" using st True by (simp add: expires_to_def expired_active)
    then have "active_row (treatments db') i = None" by (simp add: active_row_of sorted_by_def)
    with st a show ?thesis by simp
  qed
qed

text \<open>The plans a table holds: the type and the expiry of every record, which no request changes
  afterwards. Together with the cover they are the abstract state.\<close>

type_synonym plans = "nat \<times> (nat \<times> string \<times> time option) list"

definition plans_of :: "finding_treatment tbl \<Rightarrow> plans" where
  "plans_of t = (t_next t, map (\<lambda>r. (ft_id r, ft_treatment_type r, ft_expires_at r)) (t_rows t))"

lemma plans_modify:
  assumes "\<And>r. P r \<Longrightarrow> ft_id (f r) = ft_id r \<and> ft_treatment_type (f r) = ft_treatment_type r \<and> ft_expires_at (f r) = ft_expires_at r"
  shows "plans_of (t_modify P f t) = plans_of t"
  using assms by (auto simp: plans_of_def)

lemma plans_expired [simp]: "plans_of (expired_table now i t) = plans_of t"
  unfolding expired_table_def by (rule plans_modify) (simp add: expire_row_def)

lemma plans_find: "t_wf ft_id t \<Longrightarrow> r \<in> set (t_rows t) \<Longrightarrow>
    map_of (snd (plans_of t)) (ft_id r) = Some (ft_treatment_type r, ft_expires_at r)"
  by (rule map_of_is_SomeI) (auto simp: plans_of_def t_wf_def o_def)

subsection \<open>Activation as a step of the abstract state\<close>

lemma set_treatment_views [simp]: "treatments (set_treatment i f db) = t_modify (\<lambda>r. ft_id r = i) f (treatments db)"
    "finding_view (set_treatment i f db) = finding_view db"
  by (simp_all add: set_treatment_def finding_view_def)

lemma update_statement_views: "update_statement i u db = Inr db' \<Longrightarrow>
    treatments db' = t_modify (\<lambda>r. ft_id r = fst u) (snd u) (treatments db) \<and> finding_view db' = finding_view db"
  by (auto simp: update_statement_def Let_def split: if_splits)

lemma flush_one: "flush_treatments i [(a, f)] db = Inr db' \<Longrightarrow>
    treatments db' = t_modify (\<lambda>r. ft_id r = a) f (treatments db) \<and> finding_view db' = finding_view db"
  by (auto simp: flush_treatments_def sorted_by_def rbind_Inr_iff dest: update_statement_views)

lemma modify_commute:
  assumes "a \<noteq> b" "\<And>r. ft_id (f r) = ft_id r" "\<And>r. ft_id (g r) = ft_id r"
  shows "t_modify (\<lambda>r. ft_id r = a) f (t_modify (\<lambda>r. ft_id r = b) g t) = t_modify (\<lambda>r. ft_id r = b) g (t_modify (\<lambda>r. ft_id r = a) f t)"
  using assms by (simp add: t_modify_def)

lemma flush_two:
  assumes "flush_treatments i [(a, f), (b, g)] db = Inr db'" and ne: "a \<noteq> b" and ids: "\<And>r. ft_id (f r) = ft_id r" "\<And>r. ft_id (g r) = ft_id r"
  shows "treatments db' = t_modify (\<lambda>r. ft_id r = b) g (t_modify (\<lambda>r. ft_id r = a) f (treatments db)) \<and> finding_view db' = finding_view db"
proof (cases "a \<le> b")
  case True
  then have "sorted_by fst [(a, f), (b, g)] = [(a, f), (b, g)]" by (simp add: sorted_by_def)
  with assms(1) show ?thesis by (auto simp: flush_treatments_def rbind_Inr_iff dest!: update_statement_views)
next
  case False
  then have "sorted_by fst [(a, f), (b, g)] = [(b, g), (a, f)]" by (simp add: sorted_by_def)
  with assms(1) have "treatments db' = t_modify (\<lambda>r. ft_id r = a) f (t_modify (\<lambda>r. ft_id r = b) g (treatments db)) \<and> finding_view db' = finding_view db"
    by (auto simp: flush_treatments_def rbind_Inr_iff dest!: update_statement_views)
  then show ?thesis using modify_commute [OF ne, of f g] ids by simp
qed

lemma active_of_pin:
  assumes "t_wf ft_id t" "r \<in> set (t_rows t)" "ft_asset_finding_id r = i" "j \<noteq> i" "\<And>x. ft_asset_finding_id (f x) = ft_asset_finding_id x"
  shows "active_of j (t_modify (\<lambda>x. ft_id x = ft_id r) f t) = active_of j t"
proof (rule active_of_other)
  fix x assume "x \<in> set (t_rows t)" "ft_id x = ft_id r"
  then have "x = r" using t_wf_eq [OF assms(1)] assms(2) by blast
  with assms show "ft_asset_finding_id x \<noteq> j \<and> ft_asset_finding_id (f x) \<noteq> j" by simp
qed

text \<open>The table after an activation: the current record superseded, the incoming one active.\<close>

lemma activated_table:
  assumes ok: "views_ok t v" and r: "r \<in> set (t_rows t)" "ft_asset_finding_id r = i" "ft_status r \<noteq> TREATMENT_STATUS_ACTIVE"
    and t': "case active_row t i of None \<Rightarrow> t' = t_modify (\<lambda>x. ft_id x = ft_id r) (activate_row now) t
      | Some c \<Rightarrow> t' = t_modify (\<lambda>x. ft_id x = ft_id r) (activate_row now) (t_modify (\<lambda>x. ft_id x = ft_id c) (supersede_row now) t)"
  shows "t_wf ft_id t'" "active_of i t' = [activate_row now r]" "j \<noteq> i \<Longrightarrow> active_of j t' = active_of j t"
    "x \<in> set (t_rows t') \<Longrightarrow> \<exists>y \<in> set (t_rows t). ft_asset_finding_id x = ft_asset_finding_id y \<and> ft_tenant_id x = ft_tenant_id y"
proof -
  have id: "ft_id (activate_row now x) = ft_id x" "ft_id (supersede_row now x) = ft_id x"
      "ft_asset_finding_id (activate_row now x) = ft_asset_finding_id x" "ft_asset_finding_id (supersede_row now x) = ft_asset_finding_id x"
      "ft_tenant_id (activate_row now x) = ft_tenant_id x" "ft_tenant_id (supersede_row now x) = ft_tenant_id x" for x
    by (simp_all add: activate_row_def supersede_row_def)
  note wf = views_okD(1) [OF ok]
  define t1 where "t1 = (case active_row t i of None \<Rightarrow> t | Some c \<Rightarrow> t_modify (\<lambda>x. ft_id x = ft_id c) (supersede_row now) t)"
  have t1: "t' = t_modify (\<lambda>x. ft_id x = ft_id r) (activate_row now) t1" using t' by (simp add: t1_def split: option.splits)
  have pre: "t_wf ft_id t1 \<and> r \<in> set (t_rows t1) \<and> active_of i t1 = [] \<and> (\<forall>j. j \<noteq> i \<longrightarrow> active_of j t1 = active_of j t) \<and>
    (\<forall>x \<in> set (t_rows t1). \<exists>y \<in> set (t_rows t). ft_asset_finding_id x = ft_asset_finding_id y \<and> ft_tenant_id x = ft_tenant_id y)"
    using views_okD(2) [OF ok, of i]
  proof (cases rule: active_of_cases)
    case 1
    then have "t1 = t" by (simp add: t1_def active_row_of sorted_by_def)
    with 1 wf r(1) show ?thesis by blast
  next
    case (2 c)
    then have c: "c \<in> set (t_rows t)" "ft_asset_finding_id c = i" "ft_status c = TREATMENT_STATUS_ACTIVE"
      using active_of_iff [of c i t] by simp_all
    have m: "t1 = t_modify (\<lambda>x. ft_id x = ft_id c) (supersede_row now) t"
      using 2 by (simp add: t1_def active_row_of sorted_by_def)
    have "ft_id c \<noteq> ft_id r" using t_wf_eq [OF wf c(1) r(1)] c(3) r(3) by blast
    moreover have "active_of i t1 = []"
      unfolding m by (subst active_of_closed) (simp_all add: supersede_row_def 2)
    moreover have "\<forall>j. j \<noteq> i \<longrightarrow> active_of j t1 = active_of j t"
      unfolding m using active_of_pin [OF wf c(1,2)] id by blast
    moreover have "t_wf ft_id t1" unfolding m by (rule wf_rows_map [OF wf]) (simp add: id)
    moreover have "\<forall>x \<in> set (t_rows t1). \<exists>y \<in> set (t_rows t). ft_asset_finding_id x = ft_asset_finding_id y \<and> ft_tenant_id x = ft_tenant_id y"
      by (auto simp: m id)
    moreover have "r \<in> set (t_rows t1)" using r(1) \<open>ft_id c \<noteq> ft_id r\<close> by (force simp: m image_iff)
    ultimately show ?thesis by blast
  qed
  show "t_wf ft_id t'" unfolding t1 by (rule wf_rows_map) (use pre id in auto)
  show "active_of i t' = [activate_row now r]"
    unfolding t1 by (rule active_of_activated) (use pre r(2) in \<open>auto simp: t_wf_def\<close>)
  show "j \<noteq> i \<Longrightarrow> active_of j t' = active_of j t"
    unfolding t1 using active_of_pin [of t1 r i j "activate_row now"] pre r(2) id by simp
  show "x \<in> set (t_rows t') \<Longrightarrow> \<exists>y \<in> set (t_rows t). ft_asset_finding_id x = ft_asset_finding_id y \<and> ft_tenant_id x = ft_tenant_id y"
    unfolding t1 using pre id by (auto split: if_splits)
qed

lemma expires_toD:
  assumes "expires_to now i db db'"
  shows "treatment_ok db'" "treatments db' = expired_table now i (treatments db)" "owners db' = owners db"
    "cover_of (treatments db') = spec_expire now i (cover_of (treatments db))"
  using assms unfolding expires_to_def by blast+

lemma supersede_views:
  assumes "supersede_current now i r actor db = Inr (db', pending)"
  shows "\<exists>db0 a. current_active_treatment now i db = Inr (db0, a) \<and> treatments db' = treatments db0 \<and>
    finding_view db' = finding_view db0 \<and>
    pending = (case a of None \<Rightarrow> [] | Some t \<Rightarrow> if ft_id t = ft_id r then [] else [(ft_id t, supersede_row now)])"
proof -
  obtain db0 a where cur: "current_active_treatment now i db = Inr (db0, a)"
    using assms by (auto simp: supersede_current_def rbind_Inr_iff)
  show ?thesis
  proof (cases a)
    case None
    with assms cur show ?thesis by (simp add: supersede_current_def)
  next
    case (Some t)
    with assms cur show ?thesis by (cases "ft_id t = ft_id r") (auto simp: supersede_current_def Let_def simp del: split_paired_Ex)
  qed
qed

lemma activate_steps:
  assumes ok: "treatment_ok db" and r: "r \<in> set (t_rows (treatments db))" "ft_asset_finding_id r = i" "ft_status r \<noteq> TREATMENT_STATUS_ACTIVE"
    and run: "activate now i r' actor db = Inr db'" and r': "ft_id r' = ft_id r" "ft_treatment_type r' = ft_treatment_type r"
  shows "treatment_ok db' \<and> owners db' = owners db \<and> plans_of (treatments db') = plans_of (treatments db) \<and>
    cover_of (treatments db') = (spec_expire now i (cover_of (treatments db)))(i \<mapsto> (ft_id r, ft_treatment_type r, ft_expires_at r))"
proof -
  obtain db1 pending db2 where sup: "supersede_current now i r' actor db = Inr (db1, pending)"
    and fl: "flush_treatments i (pending @ [(ft_id r', activate_row now)]) db1 = Inr db2"
    and db': "db' = recalculate_priority now i (set_finding i (\<lambda>f. f\<lparr>af_treatment_state := ft_treatment_type r', af_updated_at := now\<rparr>) db2)"
    using run by (auto simp: activate_def rbind_Inr_iff)
  obtain db0 a where cur: "current_active_treatment now i db = Inr (db0, a)"
    and db1: "treatments db1 = treatments db0" "finding_view db1 = finding_view db0"
    and pending: "pending = (case a of None \<Rightarrow> [] | Some t \<Rightarrow> if ft_id t = ft_id r' then [] else [(ft_id t, supersede_row now)])"
    using supersede_views [OF sup] by blast
  have st: "expires_to now i db db0" "a = active_row (treatments db0) i" using current_steps [OF ok cur] by auto
  note ex = expires_toD [OF st(1)]
  let ?t = "treatments db0"
  have ok0: "views_ok ?t (finding_view db0)" using st(1) unfolding expires_to_def treatment_ok_views by blast
  have r0: "r \<in> set (t_rows ?t)" using r st(1) by (force simp: expires_to_def expired_table_def image_iff)
  have fl_views: "(case active_row ?t i of None \<Rightarrow> treatments db2 = t_modify (\<lambda>x. ft_id x = ft_id r) (activate_row now) ?t
      | Some c \<Rightarrow> treatments db2 = t_modify (\<lambda>x. ft_id x = ft_id r) (activate_row now) (t_modify (\<lambda>x. ft_id x = ft_id c) (supersede_row now) ?t)) \<and>
      finding_view db2 = finding_view db0"
  proof (cases "active_row ?t i")
    case None
    with fl pending st(2) db1 r'(1) show ?thesis by (auto dest: flush_one)
  next
    case (Some c)
    then have "c \<in> set (t_rows ?t)" "ft_status c = TREATMENT_STATUS_ACTIVE" using active_row_Some by (auto simp: active_of_iff)
    then have "ft_id c \<noteq> ft_id r" using t_wf_eq [OF views_okD(1) [OF ok0] _ r0] r(3) by blast
    with fl pending st(2) Some r'(1) have "flush_treatments i [(ft_id c, supersede_row now), (ft_id r, activate_row now)] db1 = Inr db2" by simp
    from flush_two [OF this \<open>ft_id c \<noteq> ft_id r\<close>] show ?thesis
      using Some db1 by (simp add: supersede_row_def activate_row_def)
  qed
  note tab = activated_table [OF ok0 r0 r(2,3) fl_views [THEN conjunct1]]
  have active: "active_row (treatments db2) i = Some (activate_row now r)" by (simp add: active_row_of tab(2) sorted_by_def)
  have t': "treatments db' = treatments db2" by (simp add: db' recalculate_views) (simp add: set_finding_def)
  have v': "finding_view db' = with_state i (state_of (active_row (treatments db2) i)) (finding_view db0)"
    using fl_views by (simp add: db' recalculate_views state_views active state_of_def r' activate_row_def)
  have other: "j \<noteq> i \<Longrightarrow> cover_of (treatments db2) j = cover_of ?t j" for j
    by (simp add: cover_of_def active_row_of tab(3))
  have "views_ok (treatments db2) (finding_view db')" unfolding v'
  proof (rule views_okI [OF ok0 tab(1)])
    show "length (active_of j (treatments db2)) \<le> 1" for j
      using tab(2,3) views_okD(2) [OF ok0, of j] by (cases "j = i") auto
    show "x \<in> set (t_rows (treatments db2)) \<Longrightarrow> \<exists>s. (ft_asset_finding_id x, ft_tenant_id x, s) \<in> set (snd (finding_view db0))" for x
      using tab(4) views_okD(3) [OF ok0] by metis
  qed (rule other)
  moreover have "owners db' = owners db"
    unfolding owners_view [of db'] v' owners_with_state using st(1) by (simp add: expires_to_def owners_view)
  moreover have "cover_of (treatments db2) = (cover_of ?t)(i \<mapsto> (ft_id r, ft_treatment_type r, ft_expires_at r))"
    using other cover_of_one [OF tab(2)] by (auto simp: activate_row_def)
  moreover have "plans_of (treatments db2) = plans_of ?t"
    using fl_views [THEN conjunct1] by (auto simp: plans_modify activate_row_def supersede_row_def split: option.splits)
  moreover have "plans_of ?t = plans_of (treatments db)" by (simp add: ex(2))
  ultimately show ?thesis by (simp only: treatment_ok_views t' ex(4))
qed

subsection \<open>The requests refine the abstract plan\<close>

definition abs_state :: "db \<Rightarrow> cover \<times> plans" where
  "abs_state db = (cover_of (treatments db), plans_of (treatments db))"

lemma abs_expires: "expires_to now i db db' \<Longrightarrow> abs_state db' = apfst (spec_expire now i) (abs_state db)"
  using expires_toD(2,4) by (force simp: abs_state_def)

lemma lock_steps: "treatment_ok db \<Longrightarrow> lock_finding now tenant i db = Inr db' \<Longrightarrow> expires_to now i db db' \<and> (i, tenant) \<in> set (owners db)"
  by (auto simp: lock_finding_def rbind_Inr_iff t_exists_def list_ex_iff owners_def split: if_splits intro: expire_steps)

text \<open>A write that leaves status, finding, type and expiry of a record alone is invisible.\<close>

lemma touch_steps:
  assumes ok: "treatment_ok db"
    and f: "\<And>r. ft_id (f r) = ft_id r \<and> ft_status (f r) = ft_status r \<and> ft_asset_finding_id (f r) = ft_asset_finding_id r \<and>
      ft_tenant_id (f r) = ft_tenant_id r \<and> ft_treatment_type (f r) = ft_treatment_type r \<and> ft_expires_at (f r) = ft_expires_at r"
  shows "treatment_ok (set_treatment tid f db) \<and> abs_state (set_treatment tid f db) = abs_state db"
proof -
  let ?t = "treatments db" and ?t' = "t_modify (\<lambda>r. ft_id r = tid) f (treatments db)"
  note v = ok [unfolded treatment_ok_views]
  have kept: "active_of j ?t' = map (\<lambda>r. if ft_id r = tid then f r else r) (active_of j ?t)" for j
    by (rule active_of_kept) (simp add: f)
  have cover: "cover_of ?t' j = cover_of ?t j" for j
    using views_okD(2) [OF v, of j]
  proof (cases rule: active_of_cases)
    case 1 then show ?thesis by (simp add: cover_of_nil kept)
  next
    case (2 r) then show ?thesis using f by (simp add: cover_of_one kept)
  qed
  have "views_ok ?t' (with_state tid (state_of (active_row ?t' tid)) (finding_view db))"
  proof (rule views_okI [OF v])
    show "t_wf ft_id ?t'" by (rule wf_rows_map [OF views_okD(1) [OF v]]) (simp add: f)
    show "length (active_of j ?t') \<le> 1" for j using views_okD(2) [OF v] kept by simp
    show "r \<in> set (t_rows ?t') \<Longrightarrow> \<exists>s. (ft_asset_finding_id r, ft_tenant_id r, s) \<in> set (snd (finding_view db))" for r
      using views_okD(3) [OF v] f by auto
  qed (rule cover)
  moreover have "state_of (active_row ?t' tid) = state_of (active_row ?t tid)" using cover by (simp add: state_of_cover)
  ultimately have "views_ok ?t' (finding_view db)" using with_state_same [OF v] by simp
  moreover have "plans_of ?t' = plans_of ?t" by (rule plans_modify) (simp add: f)
  ultimately show ?thesis using cover by (auto simp: treatment_ok_views abs_state_def)
qed

lemma activate_abs:
  assumes "treatment_ok db" "r \<in> set (t_rows (treatments db))" "ft_asset_finding_id r = i" "ft_status r \<noteq> TREATMENT_STATUS_ACTIVE"
    and "activate now i r' actor db = Inr db'" "ft_id r' = ft_id r" "ft_treatment_type r' = ft_treatment_type r"
  shows "treatment_ok db' \<and> owners db' = owners db \<and>
    abs_state db' = apfst (\<lambda>m. (spec_expire now i m)(i \<mapsto> (ft_id r, ft_treatment_type r, ft_expires_at r))) (abs_state db)"
  using activate_steps [OF assms] by (simp add: abs_state_def)

lemma insert_steps:
  assumes ok: "treatment_ok db" and own: "(i, tenant) \<in> set (owners db)"
    and mk: "\<And>n. ft_id (mk n) = n \<and> ft_asset_finding_id (mk n) = i \<and> ft_tenant_id (mk n) = tenant \<and> ft_status (mk n) \<noteq> TREATMENT_STATUS_ACTIVE"
  shows "treatment_ok (db\<lparr>tb_finding_treatments := t_insert mk (treatments db)\<rparr>)"
    "owners (db\<lparr>tb_finding_treatments := t_insert mk (treatments db)\<rparr>) = owners db"
    "cover_of (t_insert mk (treatments db)) = cover_of (treatments db)"
proof -
  let ?t = "treatments db" and ?t' = "t_insert mk (treatments db)"
  note v = ok [unfolded treatment_ok_views]
  have same: "active_of j ?t' = active_of j ?t" for j using mk by (simp add: active_of_insert)
  show cover: "cover_of ?t' = cover_of ?t" by (simp add: fun_eq_iff cover_of_def active_row_of same)
  have "views_ok ?t' (with_state i (state_of (active_row ?t' i)) (finding_view db))"
  proof (rule views_okI [OF v])
    show "t_wf ft_id ?t'" using views_okD(1) [OF v] mk by (auto simp: t_wf_def list_all_iff)
    show "length (active_of j ?t') \<le> 1" for j using views_okD(2) [OF v] same by simp
    have "\<exists>s. (i, tenant, s) \<in> set (snd (finding_view db))" using own by (auto simp: owners_view)
    then show "r \<in> set (t_rows ?t') \<Longrightarrow> \<exists>s. (ft_asset_finding_id r, ft_tenant_id r, s) \<in> set (snd (finding_view db))" for r
      using views_okD(3) [OF v] mk by auto
  qed (simp add: cover)
  moreover have "state_of (active_row ?t' i) = state_of (active_row ?t i)" using cover by (simp add: state_of_cover)
  ultimately have "views_ok ?t' (finding_view db)" using with_state_same [OF v] by simp
  then show "treatment_ok (db\<lparr>tb_finding_treatments := ?t'\<rparr>)" unfolding treatment_ok_views by (simp add: finding_view_def)
  show "owners (db\<lparr>tb_finding_treatments := ?t'\<rparr>) = owners db" by (simp add: owners_def)
qed

lemma same_views_ok: "same_views db db' \<Longrightarrow> treatment_ok db' = treatment_ok db \<and> abs_state db' = abs_state db \<and> owners db' = owners db"
  by (simp add: same_views_def treatment_ok_views abs_state_def owners_view)

lemma audit_ok [simp]: "treatment_ok (fst (record_audit now a db)) = treatment_ok db"
    "abs_state (fst (record_audit now a db)) = abs_state db" "owners (fst (record_audit now a db)) = owners db"
  using same_views_ok [of db "fst (record_audit now a db)"] by (simp_all add: same_views_def)

definition spec_create :: "time \<Rightarrow> nat \<Rightarrow> treatment_in \<Rightarrow> cover \<times> plans \<Rightarrow> cover \<times> plans" where
  "spec_create now i t = (\<lambda>(m, n, ps).
     ((if strip (ti_type t) = TREATMENT_RECORD_MITIGATED then (spec_expire now i m)(i \<mapsto> (n, strip (ti_type t), ti_expires_at t))
       else spec_expire now i m), Suc n, ps @ [(n, strip (ti_type t), ti_expires_at t)]))"

lemma create_steps:
  assumes ok: "treatment_ok db" and run: "create_treatment now actor tenant i t db = Inr db'"
  shows "treatment_ok db' \<and> owners db' = owners db \<and> abs_state db' = spec_create now i t (abs_state db)"
proof -
  let ?mk = "new_treatment now actor tenant i t"
  obtain db1 db2 db3 where lock: "lock_finding now tenant i db = Inr db1"
    and db2: "db2 = db1\<lparr>tb_finding_treatments := t_insert ?mk (treatments db1)\<rparr>"
    and act: "(if strip (ti_type t) = TREATMENT_RECORD_MITIGATED then activate now i (?mk (t_next (treatments db1))) (Some actor) db2
      else Inr db2) = Inr db3"
    and ann: "announce_created now actor i (t_next (treatments db1)) db3 = Inr db'"
    using run by (auto simp: create_treatment_def rbind_Inr_iff Let_def)
  have st: "expires_to now i db db1" and own: "(i, tenant) \<in> set (owners db1)"
    using lock_steps [OF ok lock] expires_toD(3) by force+
  note ins = insert_steps [OF expires_toD(1) [OF st] own, of ?mk]
  have mk: "ft_id (?mk n) = n \<and> ft_asset_finding_id (?mk n) = i \<and> ft_tenant_id (?mk n) = tenant \<and>
      ft_status (?mk n) \<noteq> TREATMENT_STATUS_ACTIVE \<and> ft_treatment_type (?mk n) = strip (ti_type t) \<and> ft_expires_at (?mk n) = ti_expires_at t" for n
    by (simp add: new_treatment_def)
  have ok2: "treatment_ok db2" "owners db2 = owners db" using ins(1,2) mk expires_toD(3) [OF st] by (simp_all add: db2)
  have abs2: "abs_state db2 = (case abs_state db of (m, n, ps) \<Rightarrow>
      (spec_expire now i m, Suc n, ps @ [(n, strip (ti_type t), ti_expires_at t)]))"
    using abs_expires [OF st] ins(3) mk by (auto simp: db2 abs_state_def plans_of_def)
  have nx: "t_next (treatments db1) = fst (snd (abs_state db))"
    using expires_toD(2) [OF st] by (simp add: abs_state_def plans_of_def expired_table_def)
  have "treatment_ok db3 \<and> owners db3 = owners db \<and> abs_state db3 = spec_create now i t (abs_state db)"
  proof (cases "strip (ti_type t) = TREATMENT_RECORD_MITIGATED")
    case True
    with act have run: "activate now i (?mk (t_next (treatments db1))) (Some actor) db2 = Inr db3" by simp
    have "?mk (t_next (treatments db1)) \<in> set (t_rows (treatments db2))" by (simp add: db2)
    from activate_abs [OF ok2(1) this _ _ run] mk
    have a: "treatment_ok db3 \<and> owners db3 = owners db2 \<and> abs_state db3 = apfst (\<lambda>m. (spec_expire now i m)
        (i \<mapsto> (t_next (treatments db1), strip (ti_type t), ti_expires_at t))) (abs_state db2)" by simp
    show ?thesis using a ok2 True unfolding abs2 nx by (auto simp: spec_create_def spec_expire_idem split: prod.splits)
  next
    case False
    with act ok2 abs2 show ?thesis by (auto simp: spec_create_def split: prod.splits)
  qed
  then show ?thesis using same_views_ok [OF announce_created_views [OF ann]] by simp
qed

lemma get_treatment_row: "get_treatment tenant i tid db = Inr t \<Longrightarrow>
    t \<in> set (t_rows (treatments db)) \<and> ft_id t = tid \<and> ft_asset_finding_id t = i"
  by (auto simp: get_treatment_def dest: t_first_Some split: option.splits)

lemma touched_owners [simp]: "owners (set_treatment tid f db) = owners db"
  by (simp add: set_treatment_def owners_def)

lemma abs_plan: "treatment_ok db \<Longrightarrow> t \<in> set (t_rows (treatments db)) \<Longrightarrow>
    map_of (snd (snd (abs_state db))) (ft_id t) = Some (ft_treatment_type t, ft_expires_at t)"
  using plans_find views_okD(1) treatment_ok_views by (auto simp: abs_state_def)

definition spec_approve :: "time \<Rightarrow> nat \<Rightarrow> nat \<Rightarrow> cover \<times> plans \<Rightarrow> cover \<times> plans" where
  "spec_approve now i tid = (\<lambda>(m, n, ps).
     (case map_of ps tid of None \<Rightarrow> spec_expire now i m | Some p \<Rightarrow> (spec_expire now i m)(i \<mapsto> (tid, p)), n, ps))"

lemma approve_steps:
  assumes ok: "treatment_ok db" and run: "approve_treatment now actor tenant i tid notes' db = Inr db'"
  shows "treatment_ok db' \<and> owners db' = owners db \<and> abs_state db' = spec_approve now i tid (abs_state db)"
proof -
  define f where "f = (\<lambda>t. t\<lparr>ft_reviewed_by_user_id := Some (u_id actor), ft_reviewed_at := Some now,
     ft_review_notes := (case notes' of None \<Rightarrow> ft_review_notes t | Some s \<Rightarrow> Some (strip s))\<rparr> :: finding_treatment)"
  obtain db1 t db2 a where lock: "lock_finding now tenant i db = Inr db1" and t: "get_treatment tenant i tid db1 = Inr t"
    and st: "ft_status t = TREATMENT_STATUS_PENDING_REVIEW"
    and act: "activate now i (f t) (Some actor) (set_treatment tid f db1) = Inr db2"
    and db': "db' = fst (record_audit now a db2)"
    using run by (auto simp: approve_treatment_def rbind_Inr_iff Let_def f_def split: if_splits)
  have ex: "expires_to now i db db1" using lock_steps [OF ok lock] ..
  note row = get_treatment_row [OF t]
  have f: "ft_id (f r) = ft_id r \<and> ft_status (f r) = ft_status r \<and> ft_asset_finding_id (f r) = ft_asset_finding_id r \<and>
      ft_tenant_id (f r) = ft_tenant_id r \<and> ft_treatment_type (f r) = ft_treatment_type r \<and> ft_expires_at (f r) = ft_expires_at r" for r
    by (simp add: f_def)
  note touched = touch_steps [OF expires_toD(1) [OF ex] f, of tid]
  have "f t \<in> set (t_rows (treatments (set_treatment tid f db1)))" using row by force
  from activate_abs [OF touched [THEN conjunct1] this _ _ act] row f st
  have "treatment_ok db2 \<and> owners db2 = owners db1 \<and> abs_state db2 = apfst (\<lambda>m. (spec_expire now i m)
      (i \<mapsto> (tid, ft_treatment_type t, ft_expires_at t))) (abs_state db1)"
    using touched by simp
  moreover have "map_of (snd (snd (abs_state db))) tid = Some (ft_treatment_type t, ft_expires_at t)"
    using abs_plan [OF expires_toD(1) [OF ex], of t] row abs_expires [OF ex] by (simp add: apfst_def map_prod_def split: prod.splits)
  ultimately show ?thesis using expires_toD(3) [OF ex]
    by (auto simp: db' abs_expires [OF ex] spec_approve_def spec_expire_idem split: prod.splits)
qed

lemma review_steps:
  assumes ok: "treatment_ok db" and run: "review_treatment now actor tenant i tid notes' due db = Inr db'"
  shows "treatment_ok db' \<and> owners db' = owners db \<and> abs_state db' = apfst (spec_expire now i) (abs_state db)"
proof -
  define f where "f = (\<lambda>t. t\<lparr>ft_reviewed_by_user_id := Some (u_id actor), ft_reviewed_at := Some now, ft_updated_at := now,
     ft_review_notes := (case notes' of None \<Rightarrow> ft_review_notes t | Some s \<Rightarrow> Some (strip s)),
     ft_review_due_at := (case due of None \<Rightarrow> ft_review_due_at t | Some d \<Rightarrow> Some d)\<rparr> :: finding_treatment)"
  obtain db1 a where lock: "lock_finding now tenant i db = Inr db1" and db': "db' = fst (record_audit now a (set_treatment tid f db1))"
    using run by (auto simp: review_treatment_def rbind_Inr_iff Let_def f_def split: if_splits)
  have ex: "expires_to now i db db1" using lock_steps [OF ok lock] ..
  have "ft_id (f r) = ft_id r \<and> ft_status (f r) = ft_status r \<and> ft_asset_finding_id (f r) = ft_asset_finding_id r \<and>
      ft_tenant_id (f r) = ft_tenant_id r \<and> ft_treatment_type (f r) = ft_treatment_type r \<and> ft_expires_at (f r) = ft_expires_at r" for r
    by (simp add: f_def)
  from touch_steps [OF expires_toD(1) [OF ex] this, of tid]
  show ?thesis using expires_toD(3) [OF ex] by (simp add: db' abs_expires [OF ex])
qed

definition spec_revoke :: "time \<Rightarrow> nat \<Rightarrow> nat \<Rightarrow> cover \<times> plans \<Rightarrow> cover \<times> plans" where
  "spec_revoke now i tid = apfst (\<lambda>m. let m1 = spec_expire now i m in
     case m1 i of Some (x, _) \<Rightarrow> if x = tid then m1(i := None) else m1 | None \<Rightarrow> m1)"

text \<open>Closing a record: the projection of its finding is brought up to date when it was the active one.\<close>

lemma close_table:
  assumes v: "views_ok t v" and r: "r \<in> set (t_rows t)" and f: "\<And>x. ft_id (f x) = ft_id x \<and> ft_status (f x) \<noteq> TREATMENT_STATUS_ACTIVE \<and>
      ft_asset_finding_id (f x) = ft_asset_finding_id x \<and> ft_tenant_id (f x) = ft_tenant_id x"
    and t': "t' = t_modify (\<lambda>x. ft_id x = ft_id r) f t"
  shows "views_ok t' (with_state (ft_asset_finding_id r) (state_of (active_row t' (ft_asset_finding_id r))) v)"
    "active_of j t' = filter (\<lambda>x. ft_id x \<noteq> ft_id r) (active_of j t)"
    "ft_status r = TREATMENT_STATUS_ACTIVE \<Longrightarrow> cover_of t' = (cover_of t)(ft_asset_finding_id r := None)"
    "ft_status r \<noteq> TREATMENT_STATUS_ACTIVE \<Longrightarrow> cover_of t' = cover_of t"
proof -
  show act: "active_of j t' = filter (\<lambda>x. ft_id x \<noteq> ft_id r) (active_of j t)" for j
    unfolding t' by (rule active_of_closed) (use f in auto)
  have same: "active_of j t' = active_of j t" if "j \<noteq> ft_asset_finding_id r \<or> ft_status r \<noteq> TREATMENT_STATUS_ACTIVE" for j
    unfolding act by (rule filter_True) (use that t_wf_eq [OF views_okD(1) [OF v] _ r] active_of_iff in metis)
  then have other: "cover_of t' j = cover_of t j" if "j \<noteq> ft_asset_finding_id r \<or> ft_status r \<noteq> TREATMENT_STATUS_ACTIVE" for j
    using that by (simp add: cover_of_def active_row_of)
  show "views_ok t' (with_state (ft_asset_finding_id r) (state_of (active_row t' (ft_asset_finding_id r))) v)"
  proof (rule views_okI [OF v])
    show "t_wf ft_id t'" unfolding t' by (rule wf_rows_map [OF views_okD(1) [OF v]]) (simp add: f)
    show "length (active_of j t') \<le> 1" for j
      unfolding act using views_okD(2) [OF v, of j] by (meson dual_order.trans length_filter_le)
    show "x \<in> set (t_rows t') \<Longrightarrow> \<exists>s. (ft_asset_finding_id x, ft_tenant_id x, s) \<in> set (snd v)" for x
      using views_okD(3) [OF v] f by (auto simp: t')
  qed (simp add: other)
  show "ft_status r \<noteq> TREATMENT_STATUS_ACTIVE \<Longrightarrow> cover_of t' = cover_of t" using other by (simp add: fun_eq_iff)
  assume "ft_status r = TREATMENT_STATUS_ACTIVE"
  then have "r \<in> set (active_of (ft_asset_finding_id r) t)" using r by (simp add: active_of_iff)
  with views_okD(2) [OF v, of "ft_asset_finding_id r"] have "active_of (ft_asset_finding_id r) t = [r]"
    by (cases rule: active_of_cases) auto
  then have "active_of (ft_asset_finding_id r) t' = []" unfolding act by simp
  then show "cover_of t' = (cover_of t)(ft_asset_finding_id r := None)" using other by (auto simp: fun_eq_iff cover_of_nil)
qed

lemma reconcile_closed: "active_of i (treatments db) = [] \<Longrightarrow> reconcile_treatment_projection now i db = Inr (project_state now None i db)"
  by (simp add: reconcile_treatment_projection_def current_active_treatment_def active_row_of sorted_by_def)

lemma revoke_steps:
  assumes ok: "treatment_ok db" and run: "revoke_treatment now actor tenant i tid reason db = Inr db'"
  shows "treatment_ok db' \<and> owners db' = owners db \<and> abs_state db' = spec_revoke now i tid (abs_state db)"
proof -
  define f where "f = (\<lambda>t. t\<lparr>ft_status := TREATMENT_STATUS_REVOKED, ft_revoked_by_user_id := Some (u_id actor),
     ft_revoked_at := Some now, ft_revocation_reason := Some (strip reason), ft_updated_at := now\<rparr> :: finding_treatment)"
  obtain db1 t db3 a where lock: "lock_finding now tenant i db = Inr db1" and t: "get_treatment tenant i tid db1 = Inr t"
    and rec: "(if ft_status t = TREATMENT_STATUS_ACTIVE then reconcile_treatment_projection now i (set_treatment tid f db1)
      else Inr (set_treatment tid f db1)) = Inr db3" and db': "db' = fst (record_audit now a db3)"
    using run by (auto simp: revoke_treatment_def rbind_Inr_iff Let_def f_def split: if_splits)
  have ex: "expires_to now i db db1" using lock_steps [OF ok lock] ..
  note row = get_treatment_row [OF t] and v = expires_toD(1) [OF ex, unfolded treatment_ok_views]
  have f: "ft_id (f x) = ft_id x \<and> ft_status (f x) \<noteq> TREATMENT_STATUS_ACTIVE \<and>
      ft_asset_finding_id (f x) = ft_asset_finding_id x \<and> ft_tenant_id (f x) = ft_tenant_id x" for x by (simp add: f_def)
  let ?t' = "t_modify (\<lambda>x. ft_id x = ft_id t) f (treatments db1)"
  note close = close_table [OF v row [THEN conjunct1] f refl]
  have ti: "ft_id t = tid" "ft_asset_finding_id t = i" "t \<in> set (t_rows (treatments db1))" using row by auto
  have plans: "plans_of ?t' = plans_of (treatments db)" using expires_toD(2) [OF ex] by (subst plans_modify) (simp_all add: f_def)
  have one: "active_of i (treatments db1) = [t] \<longleftrightarrow> ft_status t = TREATMENT_STATUS_ACTIVE"
    using views_okD(2) [OF v, of i] active_of_iff [of t i "treatments db1"] ti by (cases rule: active_of_cases) auto
  have "views_ok ?t' (finding_view db3) \<and> treatments db3 = ?t' \<and> owners db3 = owners db1 \<and>
      cover_of ?t' = fst (spec_revoke now i tid (abs_state db))"
  proof (cases "ft_status t = TREATMENT_STATUS_ACTIVE")
    case True
    then have "active_of i ?t' = []" using one close(2) by simp
    moreover from this have "reconcile_treatment_projection now i (set_treatment tid f db1) = Inr (project_state now None i (set_treatment tid f db1))"
      using ti by (intro reconcile_closed) simp
    ultimately have p: "db3 = project_state now None i (set_treatment tid f db1)" "state_of (active_row ?t' i) = state_of None"
      using rec True by (simp_all add: active_row_of sorted_by_def)
    have m: "cover_of (treatments db1) = spec_expire now i (cover_of (treatments db))" using expires_toD(4) [OF ex] .
    have "cover_of ?t' = (cover_of (treatments db1))(i := None)" using close(3) True ti by simp
    moreover have "cover_of (treatments db1) i = Some (tid, ft_treatment_type t, ft_expires_at t)" using one True ti by (simp add: cover_of_one)
    ultimately have "cover_of ?t' = fst (spec_revoke now i tid (abs_state db))" by (simp add: spec_revoke_def abs_state_def Let_def m)
    moreover have "views_ok ?t' (finding_view db3)" using close(1) p ti by (simp add: project_views)
    moreover have "owners db3 = owners db1" by (simp add: p(1) owners_view project_views owners_with_state)
    ultimately show ?thesis using ti by (simp add: p(1) project_views)
  next
    case False
    then have db3: "db3 = set_treatment tid f db1" using rec by simp
    have m: "cover_of (treatments db1) = spec_expire now i (cover_of (treatments db))" using expires_toD(4) [OF ex] .
    have c: "cover_of ?t' = cover_of (treatments db1)" using close(4) False by simp
    then have "state_of (active_row ?t' i) = state_of (active_row (treatments db1) i)" by (simp add: state_of_cover)
    then have "views_ok ?t' (finding_view db1)" using close(1) ti with_state_same [OF v, of i] by simp
    moreover have "x \<noteq> tid" if "cover_of (treatments db1) i = Some (x, p)" for x p
    proof -
      from that obtain r where r: "active_row (treatments db1) i = Some r" "x = ft_id r" by (auto simp: cover_of_def)
      then have "r \<in> set (t_rows (treatments db1))" "ft_status r = TREATMENT_STATUS_ACTIVE"
        using active_row_Some active_of_iff by blast+
      with r False ti show "x \<noteq> tid" using t_wf_eq [OF views_okD(1) [OF v]] by metis
    qed
    then have "fst (spec_revoke now i tid (abs_state db)) = cover_of (treatments db1)"
      unfolding m by (auto simp: spec_revoke_def abs_state_def Let_def split: option.splits)
    ultimately show ?thesis using c ti by (simp add: db3)
  qed
  moreover have "snd (spec_revoke now i tid (abs_state db)) = plans_of (treatments db)" by (simp add: spec_revoke_def abs_state_def)
  ultimately show ?thesis using plans expires_toD(3) [OF ex] by (simp add: db' treatment_ok_views abs_state_def prod_eq_iff)
qed

lemma compensating_views: "treatments (set_compensating c f db) = treatments db" "finding_view (set_compensating c f db) = finding_view db"
    "treatments (db\<lparr>tb_compensating_controls := x\<rparr>) = treatments db" "finding_view (db\<lparr>tb_compensating_controls := x\<rparr>) = finding_view db"
  by (simp_all add: set_compensating_def finding_view_def)

lemma expires_same: "expires_to now i db db1 \<Longrightarrow> same_views db1 db' \<Longrightarrow>
    treatment_ok db' \<and> owners db' = owners db \<and> abs_state db' = apfst (spec_expire now i) (abs_state db)"
  using same_views_ok [of db1 db'] expires_toD(1,3) abs_expires by simp

lemma control_steps:
  assumes ok: "treatment_ok db"
  shows "create_compensating_control now actor tenant i tid n d e db = Inr db' \<Longrightarrow> \<exists>db1. expires_to now i db db1 \<and> same_views db1 db'"
    "update_compensating_control now actor tenant i tid c n' d' e' db = Inr db' \<Longrightarrow> \<exists>db1. expires_to now i db db1 \<and> same_views db1 db'"
    "retire_compensating_control now actor tenant i tid c reason db = Inr db' \<Longrightarrow> \<exists>db1. expires_to now i db db1 \<and> same_views db1 db'"
  using lock_steps [OF ok]
  by (fastforce simp: create_compensating_control_def update_compensating_control_def retire_compensating_control_def
      load_compensating_def rbind_Inr_iff Let_def same_views_def compensating_views split: if_splits option.splits)+

definition spec_sweep :: "time \<Rightarrow> cover \<Rightarrow> cover" where
  "spec_sweep now m i = (case m i of None \<Rightarrow> None | Some (x, k, e) \<Rightarrow> if due_by now e then None else m i)"

lemma sweep_fold: "fold (spec_expire now) is m = (\<lambda>i. if i \<in> set is then spec_sweep now m i else m i)"
  by (induction "is" arbitrary: m) (auto simp: fun_eq_iff spec_expire_def spec_sweep_def split: option.splits)

lemma sweep_all:
  assumes "\<And>r. r \<in> set (t_rows t) \<Longrightarrow> ft_status r = TREATMENT_STATUS_ACTIVE \<Longrightarrow> is_elapsed now r \<Longrightarrow> ft_asset_finding_id r \<in> set is"
  shows "fold (spec_expire now) is (cover_of t) = spec_sweep now (cover_of t)"
proof -
  have "spec_sweep now (cover_of t) i = cover_of t i" if "i \<notin> set is" for i
  proof (cases "active_row t i")
    case (Some r)
    with assms [of r] that active_row_Some [OF Some] active_of_iff [of r i t] have "\<not> is_elapsed now r" by blast
    with Some show ?thesis by (simp add: spec_sweep_def cover_of_def is_elapsed_def)
  qed (simp add: spec_sweep_def cover_of_def)
  then show ?thesis unfolding sweep_fold by auto
qed

abbreviation sweep_one :: "time \<Rightarrow> nat \<times> nat \<Rightarrow> db \<times> nat \<Rightarrow> app_error + (db \<times> nat)" where
  "sweep_one now \<equiv> (\<lambda>(tenant, i) (db', expired).
     if t_exists (\<lambda>f. af_id f = i \<and> af_tenant_id f = tenant) (tb_asset_findings db')
     then rbind (expire_elapsed_treatments_for_finding now i db') (\<lambda>(db'', n). Inr (db'', expired + n))
     else Inr (db', expired))"

lemma sweep_steps:
  "\<lbrakk>rfold (sweep_one now) due (db, k) = Inr (db', n); treatment_ok db; \<forall>(tn, i) \<in> set due. (i, tn) \<in> set (owners db)\<rbrakk> \<Longrightarrow>
     treatment_ok db' \<and> owners db' = owners db \<and> abs_state db' = apfst (fold (spec_expire now) (map snd due)) (abs_state db)"
proof (induction due arbitrary: db k)
  case Nil then show ?case by (cases "abs_state db'") (auto simp: apfst_def)
next
  case (Cons p due)
  obtain tn i where p: "p = (tn, i)" by force
  with Cons.prems(3) have "t_exists (\<lambda>f. af_id f = i \<and> af_tenant_id f = tn) (tb_asset_findings db)"
    by (auto simp: owners_def t_exists_iff)
  with Cons.prems(1) p obtain db1 j where e: "expire_elapsed_treatments_for_finding now i db = Inr (db1, j)"
      and rest: "rfold (sweep_one now) due (db1, k + j) = Inr (db', n)" by (auto simp: rbind_Inr_iff)
  have ex: "expires_to now i db db1" by (rule expire_steps [OF Cons.prems(2) e])
  have "\<forall>(tn, i) \<in> set due. (i, tn) \<in> set (owners db1)" using Cons.prems(3) expires_toD(3) [OF ex] by auto
  from Cons.IH [OF rest expires_toD(1) [OF ex] this] expires_toD(3) [OF ex]
  show ?case by (simp add: abs_expires [OF ex] p apfst_def map_prod_def split: prod.splits)
qed

lemma expire_due_steps:
  assumes ok: "treatment_ok db" and run: "expire_due_treatments now db = Inr (db', n)"
  shows "treatment_ok db' \<and> owners db' = owners db \<and> abs_state db' = apfst (spec_sweep now) (abs_state db)"
proof -
  define due where "due = dedup (map (\<lambda>t. (ft_tenant_id t, ft_asset_finding_id t))
    (t_select (\<lambda>t. ft_status t = TREATMENT_STATUS_ACTIVE \<and> is_elapsed now t) (treatments db)))"
  have run: "rfold (sweep_one now) due (db, 0) = Inr (db', n)" using run by (simp add: expire_due_treatments_def due_def Let_def)
  have due: "set due = (\<lambda>t. (ft_tenant_id t, ft_asset_finding_id t)) `
      {t \<in> set (t_rows (treatments db)). ft_status t = TREATMENT_STATUS_ACTIVE \<and> is_elapsed now t}"
    by (simp add: due_def t_select_def)
  have "(i, tn) \<in> set (owners db)" if "(tn, i) \<in> set due" for tn i
    using that views_okD(3) [OF ok [unfolded treatment_ok_views]] unfolding due owners_view by force
  then have "\<forall>(tn, i) \<in> set due. (i, tn) \<in> set (owners db)" by blast
  from sweep_steps [OF run ok this]
  have "treatment_ok db' \<and> owners db' = owners db \<and> abs_state db' = apfst (fold (spec_expire now) (map snd due)) (abs_state db)" .
  moreover have "fold (spec_expire now) (map snd due) (cover_of (treatments db)) = spec_sweep now (cover_of (treatments db))"
    by (rule sweep_all) (auto simp: due image_iff)
  ultimately show ?thesis by (simp add: abs_state_def)
qed

datatype treatment_op =
    TCreate user nat nat treatment_in
  | TApprove user nat nat nat "string option"
  | TReview user nat nat nat "string option" "time option"
  | TRevoke user nat nat nat string
  | TAddControl user nat nat nat string string string
  | TChangeControl user nat nat nat nat "string option" "string option" "string option"
  | TRetireControl user nat nat nat nat string
  | TSweep

fun run_treatment :: "time \<Rightarrow> treatment_op \<Rightarrow> db \<Rightarrow> app_error + db" where
  "run_treatment now (TCreate u tenant i t) db = create_treatment now u tenant i t db"
| "run_treatment now (TApprove u tenant i tid r) db = approve_treatment now u tenant i tid r db"
| "run_treatment now (TReview u tenant i tid r d) db = review_treatment now u tenant i tid r d db"
| "run_treatment now (TRevoke u tenant i tid r) db = revoke_treatment now u tenant i tid r db"
| "run_treatment now (TAddControl u tenant i tid n d e) db = create_compensating_control now u tenant i tid n d e db"
| "run_treatment now (TChangeControl u tenant i tid c n d e) db = update_compensating_control now u tenant i tid c n d e db"
| "run_treatment now (TRetireControl u tenant i tid c r) db = retire_compensating_control now u tenant i tid c r db"
| "run_treatment now TSweep db = rbind (expire_due_treatments now db) (\<lambda>(db', _). Inr db')"

fun spec_treatment :: "time \<Rightarrow> treatment_op \<Rightarrow> cover \<times> plans \<Rightarrow> cover \<times> plans" where
  "spec_treatment now (TCreate u tenant i t) = spec_create now i t"
| "spec_treatment now (TApprove u tenant i tid r) = spec_approve now i tid"
| "spec_treatment now (TReview u tenant i tid r d) = apfst (spec_expire now i)"
| "spec_treatment now (TRevoke u tenant i tid r) = spec_revoke now i tid"
| "spec_treatment now (TAddControl u tenant i tid n d e) = apfst (spec_expire now i)"
| "spec_treatment now (TChangeControl u tenant i tid c n d e) = apfst (spec_expire now i)"
| "spec_treatment now (TRetireControl u tenant i tid c r) = apfst (spec_expire now i)"
| "spec_treatment now TSweep = apfst (spec_sweep now)"

lemma treatment_steps:
  assumes "treatment_ok db" and "run_treatment now op db = Inr db'"
  shows "treatment_ok db' \<and> abs_state db' = spec_treatment now op (abs_state db)"
proof (cases op)
  case (TCreate u tenant i t) with assms create_steps show ?thesis by simp
next
  case (TApprove u tenant i tid r) with assms approve_steps show ?thesis by simp
next
  case (TReview u tenant i tid r d) with assms review_steps show ?thesis by simp
next
  case (TRevoke u tenant i tid r) with assms revoke_steps show ?thesis by simp
next
  case (TAddControl u tenant i tid n d e) with assms control_steps(1) expires_same show ?thesis by fastforce
next
  case (TChangeControl u tenant i tid c n d e) with assms control_steps(2) expires_same show ?thesis by fastforce
next
  case (TRetireControl u tenant i tid c r) with assms control_steps(3) expires_same show ?thesis by fastforce
next
  case TSweep with assms expire_due_steps show ?thesis by (auto simp: rbind_Inr_iff)
qed

subsection \<open>Merging\<close>

definition moved :: "nat \<Rightarrow> nat \<Rightarrow> nat \<Rightarrow> finding_treatment tbl \<Rightarrow> finding_treatment tbl" where
  "moved d k tenant t = t_modify (\<lambda>t. ft_asset_finding_id t = d) (\<lambda>t. t\<lparr>ft_asset_finding_id := k, ft_tenant_id := tenant\<rparr>) t"

lemma active_moved:
  assumes "k \<noteq> d"
  shows "active_of d (moved d k tenant t) = []"
    "j \<noteq> d \<Longrightarrow> j \<noteq> k \<Longrightarrow> active_of j (moved d k tenant t) = active_of j t"
    "active_of d t = [] \<Longrightarrow> active_of k (moved d k tenant t) = active_of k t"
    "active_of k t = [] \<Longrightarrow> active_of k (moved d k tenant t) =
       map (\<lambda>r. r\<lparr>ft_asset_finding_id := k, ft_tenant_id := tenant\<rparr>) (active_of d t)"
proof -
  let ?f = "\<lambda>t :: finding_treatment. t\<lparr>ft_asset_finding_id := k, ft_tenant_id := tenant\<rparr>"
  let ?act = "\<lambda>i xs. filter (\<lambda>r :: finding_treatment. ft_asset_finding_id r = i \<and> ft_status r = TREATMENT_STATUS_ACTIVE) xs"
  let ?map = "map (\<lambda>r. if ft_asset_finding_id r = d then ?f r else r)"
  have "?act d (?map xs) = []" "j \<noteq> d \<Longrightarrow> j \<noteq> k \<Longrightarrow> ?act j (?map xs) = ?act j xs"
    "?act d xs = [] \<Longrightarrow> ?act k (?map xs) = ?act k xs" "?act k xs = [] \<Longrightarrow> ?act k (?map xs) = map ?f (?act d xs)" for xs
    using assms by (induction xs) (auto split: if_splits)
  then show "active_of d (moved d k tenant t) = []"
    "j \<noteq> d \<Longrightarrow> j \<noteq> k \<Longrightarrow> active_of j (moved d k tenant t) = active_of j t"
    "active_of d t = [] \<Longrightarrow> active_of k (moved d k tenant t) = active_of k t"
    "active_of k t = [] \<Longrightarrow> active_of k (moved d k tenant t) = map ?f (active_of d t)"
    by (simp_all add: active_of_def t_select_def moved_def)
qed

definition merged_cover :: "nat \<Rightarrow> nat \<Rightarrow> cover \<Rightarrow> cover" where
  \<comment> \<open>the one record that covers either finding, none when both are covered\<close>
  "merged_cover k d m = m(d := None, k := (case (m k, m d) of (x, None) \<Rightarrow> x | (None, x) \<Rightarrow> x | _ \<Rightarrow> None))"

definition delete_finding :: "nat \<Rightarrow> db \<Rightarrow> db" where
  "delete_finding i db = db\<lparr>tb_asset_findings := t_delete (\<lambda>f. af_id f = i) (tb_asset_findings db)\<rparr>"

definition without :: "nat \<Rightarrow> nat \<times> (nat \<times> nat \<times> string) list \<Rightarrow> nat \<times> (nat \<times> nat \<times> string) list" where
  "without d v = (fst v, filter (\<lambda>x. fst x \<noteq> d) (snd v))"

lemma delete_view: "finding_view (delete_finding d db) = without d (finding_view db)" "treatments (delete_finding d db) = treatments db"
  by (simp_all add: finding_view_def delete_finding_def without_def filter_map o_def)

lemma reference_views: "treatments (set_reference i f db) = treatments db" "finding_view (set_reference i f db) = finding_view db"
  by (simp_all add: set_reference_def finding_view_def)

lemma reassign_views: "same_views db (reassign_asset_finding_control_references now keeper donor db)"
proof -
  have "same_views db (fst (fold (reassign_one now keeper donor) refs (db, keys)))" for refs keys
  proof (induction refs arbitrary: db keys)
    case (Cons r refs)
    have "same_views db (fst (reassign_one now keeper donor r (db, keys)))"
      by (cases "ccr_control_id r \<in> set keys") (simp_all add: reassign_one_def same_views_def reference_views)
    with Cons same_views_trans show ?case by (cases "reassign_one now keeper donor r (db, keys)") force
  qed (simp add: same_views_def)
  then show ?thesis by (simp add: reassign_asset_finding_control_references_def)
qed

lemma collide_views: "treatments (collide now k d r db) = t_modify (\<lambda>x. ft_id x = ft_id r)
      (\<lambda>t. t\<lparr>ft_status := TREATMENT_STATUS_SUPERSEDED, ft_updated_at := now, ft_review_notes := Some (collision_note (ft_review_notes t))\<rparr>)
      (treatments db)"
    "finding_view (collide now k d r db) = finding_view db"
  by (simp_all add: collide_def)

lemma move_views: "treatments (move_treatments d k tenant db) = moved d k tenant (treatments db)"
    "finding_view (move_treatments d k tenant db) = finding_view db"
  by (simp_all add: move_treatments_def moved_def finding_view_def)

text \<open>The table between the collision and the move.\<close>

definition collided :: "time \<Rightarrow> nat \<Rightarrow> nat \<Rightarrow> finding_treatment tbl \<Rightarrow> finding_treatment tbl" where
  "collided now k d t = (case (active_row t k, active_row t d) of
     (Some a, Some b) \<Rightarrow> t_modify (\<lambda>x. ft_id x \<in> {ft_id a, ft_id b}) (\<lambda>t. t\<lparr>ft_status := TREATMENT_STATUS_SUPERSEDED, ft_updated_at := now,
       ft_review_notes := Some (collision_note (ft_review_notes t))\<rparr>) t
   | _ \<Rightarrow> t)"

lemma collided_active:
  assumes v: "views_ok t v" and kd: "k \<noteq> d"
  shows "active_of k (collided now k d t) = (if active_of k t \<noteq> [] \<and> active_of d t \<noteq> [] then [] else active_of k t)"
    "active_of d (collided now k d t) = (if active_of k t \<noteq> [] \<and> active_of d t \<noteq> [] then [] else active_of d t)"
    "j \<noteq> k \<Longrightarrow> j \<noteq> d \<Longrightarrow> active_of j (collided now k d t) = active_of j t"
proof -
  have "active_of j (collided now k d t) = (if active_of k t \<noteq> [] \<and> active_of d t \<noteq> [] \<and> j \<in> {k, d} then [] else active_of j t)" for j
  proof (cases "active_of k t = [] \<or> active_of d t = []")
    case True
    then have "collided now k d t = t" by (auto simp: collided_def active_row_of sorted_by_def split: option.splits)
    with True show ?thesis by auto
  next
    case False
    with views_okD(2) [OF v, of k] views_okD(2) [OF v, of d] obtain a b where ab: "active_of k t = [a]" "active_of d t = [b]"
      by (metis active_of_cases)
    then have rows: "a \<in> set (t_rows t)" "ft_asset_finding_id a = k" "b \<in> set (t_rows t)" "ft_asset_finding_id b = d"
      using active_of_iff [of a k t] active_of_iff [of b d t] by simp_all
    have "active_of j (collided now k d t) = filter (\<lambda>x. ft_id x \<notin> {ft_id a, ft_id b}) (active_of j t)"
      using ab by (simp add: collided_def active_row_of sorted_by_def) (subst active_of_closed, auto)
    moreover have "filter (\<lambda>x. ft_id x \<notin> {ft_id a, ft_id b}) (active_of j t) = active_of j t" if "j \<notin> {k, d}"
    proof (rule filter_True, rule ballI)
      fix x assume "x \<in> set (active_of j t)"
      then have "x \<in> set (t_rows t)" "ft_asset_finding_id x = j" by (simp_all add: active_of_iff)
      with rows that t_wf_eq [OF views_okD(1) [OF v]] show "ft_id x \<notin> {ft_id a, ft_id b}" by blast
    qed
    ultimately show ?thesis using False ab by auto
  qed
  then show "active_of k (collided now k d t) = (if active_of k t \<noteq> [] \<and> active_of d t \<noteq> [] then [] else active_of k t)"
    "active_of d (collided now k d t) = (if active_of k t \<noteq> [] \<and> active_of d t \<noteq> [] then [] else active_of d t)"
    "j \<noteq> k \<Longrightarrow> j \<noteq> d \<Longrightarrow> active_of j (collided now k d t) = active_of j t"
    using kd by auto
qed

lemma merged_rows:
  assumes "r \<in> set (t_rows (moved d k tenant (collided now k d t)))"
  shows "(ft_asset_finding_id r = k \<and> ft_tenant_id r = tenant) \<or> (\<exists>x \<in> set (t_rows t). ft_asset_finding_id x \<noteq> d \<and>
    ft_asset_finding_id r = ft_asset_finding_id x \<and> ft_tenant_id r = ft_tenant_id x)"
  using assms by (auto simp: moved_def collided_def split: option.splits if_splits)

lemma merged_table:
  assumes v: "views_ok t v" and kd: "k \<noteq> d" and keeper: "(k, tenant, s0) \<in> set (snd v)"
    and T: "T = moved d k tenant (collided now k d t)"
  shows "views_ok T (without d (with_state k (state_of (active_row T k)) v))" "cover_of T = merged_cover k d (cover_of t)"
proof -
  note col = collided_active [OF v kd] and mov = active_moved [OF kd, where t = "collided now k d t" and tenant = tenant]
  have one: "length (active_of j t) \<le> 1" for j using views_okD(2) [OF v] .
  have k_case: "length (active_of k T) \<le> 1 \<and> cover_of T k = merged_cover k d (cover_of t) k"
    using one [of k]
  proof (cases rule: active_of_cases)
    case 1
    with col mov(4) have "active_of k T = map (\<lambda>r. r\<lparr>ft_asset_finding_id := k, ft_tenant_id := tenant\<rparr>) (active_of d t)" by (simp add: T)
    with 1 one [of d] show ?thesis
      by (cases "active_of d t") (auto simp: cover_of_nil cover_of_one merged_cover_def split: option.splits)
  next
    case (2 a)
    show ?thesis using one [of d]
    proof (cases rule: active_of_cases)
      case 1
      with 2 col mov(3) have "active_of k T = [a]" by (simp add: T)
      with 2 1 show ?thesis by (simp add: cover_of_nil cover_of_one merged_cover_def)
    next
      case (2 b)
      with \<open>active_of k t = [a]\<close> col mov(3) have "active_of k T = []" by (simp add: T)
      with 2 \<open>active_of k t = [a]\<close> show ?thesis by (simp add: cover_of_nil cover_of_one merged_cover_def)
    qed
  qed
  have d_case: "active_of d T = []" by (simp add: T mov(1))
  have other: "active_of j T = active_of j t" if "j \<noteq> k" "j \<noteq> d" for j using that col(3) mov(2) by (simp add: T)
  then have other_cover: "cover_of T j = cover_of t j" if "j \<noteq> k" "j \<noteq> d" for j using that by (simp add: cover_of_def active_row_of)
  have "cover_of T j = merged_cover k d (cover_of t) j" for j
    using k_case d_case other_cover [of j] kd by (cases "j = k"; cases "j = d") (auto simp: cover_of_nil merged_cover_def)
  then show "cover_of T = merged_cover k d (cover_of t)" by (rule ext)
  have "t_wf ft_id (collided now k d t)" using views_okD(1) [OF v] by (auto simp: collided_def split: option.splits intro!: wf_rows_map)
  then have wf: "t_wf ft_id T" unfolding T moved_def by (rule wf_rows_map) simp
  let ?v = "with_state k (state_of (active_row T k)) v"
  have v': "distinct (map fst (snd (without d ?v)))" "\<forall>x \<in> set (snd (without d ?v)). fst x < fst (without d ?v)"
    using v by (auto simp: views_ok_def without_def with_state_def o_def case_prod_beta filter_map intro!: distinct_map_filter)
  have "\<exists>s. (ft_asset_finding_id r, ft_tenant_id r, s) \<in> set (snd (without d ?v))" if "r \<in> set (t_rows T)" for r
    using merged_rows [OF that [unfolded T]]
  proof (elim disjE bexE)
    assume "ft_asset_finding_id r = k \<and> ft_tenant_id r = tenant"
    then show ?thesis using keeper kd by (force simp: without_def with_state_def)
  next
    fix x assume "x \<in> set (t_rows t)" "ft_asset_finding_id x \<noteq> d \<and> ft_asset_finding_id r = ft_asset_finding_id x \<and> ft_tenant_id r = ft_tenant_id x"
    then show ?thesis using views_okD(3) [OF v, of x] by (force simp: without_def with_state_def)
  qed
  moreover have "s = state_of (active_row T j)" if "(j, tn, s) \<in> set (snd (without d ?v))" for j tn s
  proof (cases "j = k")
    case True with that show ?thesis by (auto simp: without_def with_state_def)
  next
    case False
    with that have "(j, tn, s) \<in> set (snd v)" "j \<noteq> d" by (auto simp: without_def with_state_def)
    with v False other_cover [of j] show ?thesis by (auto simp: views_ok_def state_of_cover)
  qed
  moreover have "length (active_of j T) \<le> 1" for j using k_case d_case other [of j] one [of j] by (cases "j = k"; cases "j = d") auto
  ultimately show "views_ok T (without d ?v)" unfolding views_ok_def using wf v' by blast
qed

lemma collide_both:
  assumes v: "views_ok (treatments db) v" and kd: "k \<noteq> d" and a: "active_row (treatments db) k = a" and b: "active_row (treatments db) d = b"
    and db': "db' = (case (a, b) of (Some a, Some b) \<Rightarrow> collide now k d b (collide now k d a db) | _ \<Rightarrow> db)"
  shows "treatments db' = collided now k d (treatments db)" "finding_view db' = finding_view db"
proof -
  show "finding_view db' = finding_view db" by (simp add: db' collide_views split: option.splits)
  show "treatments db' = collided now k d (treatments db)"
  proof (cases "\<exists>x y. a = Some x \<and> b = Some y")
    case True
    then obtain x y where xy: "a = Some x" "b = Some y" by blast
    then have "x \<in> set (t_rows (treatments db))" "ft_asset_finding_id x = k" "y \<in> set (t_rows (treatments db))" "ft_asset_finding_id y = d"
      using active_row_Some [of "treatments db" k x] active_row_Some [of "treatments db" d y] a b by (simp_all add: active_of_iff)
    then have "ft_id x \<noteq> ft_id y" using t_wf_eq [OF views_okD(1) [OF v]] kd by blast
    then show ?thesis using xy a b by (auto simp: db' collide_views collided_def t_modify_def)
  next
    case False
    then show ?thesis using a b by (auto simp: db' collided_def split: option.splits)
  qed
qed

lemma merged_unelapsed: "k \<noteq> d \<Longrightarrow> merged_cover k d (spec_expire now d (spec_expire now k m)) k = Some (x, y, e) \<Longrightarrow> \<not> due_by now e"
  by (auto simp: merged_cover_def spec_expire_def split: option.splits if_splits)

lemma spec_expire_twice: "spec_expire now d (spec_expire now k (spec_expire now d (spec_expire now k m))) = spec_expire now d (spec_expire now k m)"
  by (auto simp: spec_expire_def fun_eq_iff split: option.splits)

lemma merge_steps:
  assumes ok: "treatment_ok db" and kd: "af_id keeper \<noteq> af_id donor" and keeper: "(af_id keeper, af_tenant_id keeper) \<in> set (owners db)"
    and run: "merge_finding_treatments now keeper donor db = Inr db'"
  shows "treatment_ok (delete_finding (af_id donor) db') \<and> cover_of (treatments db') = merged_cover (af_id keeper) (af_id donor)
      (spec_expire now (af_id donor) (spec_expire now (af_id keeper) (cover_of (treatments db))))"
proof -
  let ?k = "af_id keeper" let ?d = "af_id donor"
  obtain db1 n1 db2 n2 db3 ka db4 da db5 db7 db8 active where
    e1: "expire_elapsed_treatments_for_finding now ?k db = Inr (db1, n1)" and
    e2: "expire_elapsed_treatments_for_finding now ?d db1 = Inr (db2, n2)" and
    c1: "current_active_treatment now ?k db2 = Inr (db3, ka)" and c2: "current_active_treatment now ?d db3 = Inr (db4, da)" and
    db5: "db5 = (case (ka, da) of (Some a, Some b) \<Rightarrow> collide now ?k ?d b (collide now ?k ?d a db4) | _ \<Rightarrow> db4)" and
    db7: "db7 = reassign_asset_finding_control_references now keeper donor (move_treatments ?d ?k (af_tenant_id keeper) db5)" and
    c3: "current_active_treatment now ?k db7 = Inr (db8, active)" and
    fin: "(if active = None \<and> map_option af_treatment_state (get_finding ?k db8) \<noteq> map_option af_treatment_state (get_finding ?d db8)
      then Inr (recalculate_priority now ?k (set_finding ?k (\<lambda>f. f\<lparr>af_treatment_state := TREATMENT_UNADDRESSED, af_updated_at := now\<rparr>) db8))
      else reconcile_treatment_projection now ?k db8) = Inr db'"
    using run unfolding merge_finding_treatments_def Let_def rbind_Inr_iff split_paired_Ex case_prod_conv by blast
  have x1: "expires_to now ?k db db1" by (rule expire_steps [OF ok e1])
  have x2: "expires_to now ?d db1 db2" by (rule expire_steps [OF expires_toD(1) [OF x1] e2])
  have x3: "expires_to now ?k db2 db3" and ka: "ka = active_row (treatments db3) ?k"
    using current_steps [OF expires_toD(1) [OF x2] c1] by auto
  have x4: "expires_to now ?d db3 db4" and da: "da = active_row (treatments db4) ?d"
    using current_steps [OF expires_toD(1) [OF x3] c2] by auto
  let ?t = "treatments db4"
  note v = expires_toD(1) [OF x4, unfolded treatment_ok_views]
  have ka: "active_row ?t ?k = ka" using kd by (simp add: ka expires_toD(2) [OF x4] active_row_of expired_active)
  have cover: "cover_of ?t = spec_expire now ?d (spec_expire now ?k (cover_of (treatments db)))"
    by (simp only: expires_toD(4) [OF x1] expires_toD(4) [OF x2] expires_toD(4) [OF x3] expires_toD(4) [OF x4] spec_expire_twice)
  have own: "owners db4 = owners db" using expires_toD(3) x1 x2 x3 x4 by metis
  then have "(?k, af_tenant_id keeper) \<in> set (owners db4)" using keeper by simp
  then obtain s0 where s0: "(?k, af_tenant_id keeper, s0) \<in> set (snd (finding_view db4))" by (auto simp: owners_view)
  define T where "T = moved ?d ?k (af_tenant_id keeper) (collided now ?k ?d ?t)"
  note merged = merged_table [OF v kd s0 T_def]
  have db7: "treatments db7 = T" "finding_view db7 = finding_view db4"
    using reassign_views [of "move_treatments ?d ?k (af_tenant_id keeper) db5" now keeper donor] collide_both [OF v kd ka da [symmetric] db5]
    by (simp_all add: db7 same_views_def move_views T_def)
  have fresh: "\<not> is_elapsed now r" if "active_row T ?k = Some r" for r
  proof -
    have "cover_of T ?k = Some (ft_id r, ft_treatment_type r, ft_expires_at r)" using that by (simp add: cover_of_def)
    then show ?thesis using merged_unelapsed [OF kd] unfolding merged(2) cover is_elapsed_def by blast
  qed
  have cur: "treatments x = T \<Longrightarrow> current_active_treatment now ?k x = Inr (x, active_row T ?k)" for x
    using fresh by (auto simp: current_active_treatment_def split: option.splits)
  have db8: "db8 = db7" "active = active_row T ?k" using c3 cur [OF db7(1)] by simp_all
  have "treatments db' = T \<and> finding_view db' = with_state ?k (state_of (active_row T ?k)) (finding_view db4)"
  proof (cases "active = None \<and> map_option af_treatment_state (get_finding ?k db8) \<noteq> map_option af_treatment_state (get_finding ?d db8)")
    case True
    then have "db' = recalculate_priority now ?k (set_finding ?k (\<lambda>f. f\<lparr>af_treatment_state := TREATMENT_UNADDRESSED, af_updated_at := now\<rparr>) db7)"
      using fin by (simp add: db8(1))
    moreover have "state_of (active_row T ?k) = TREATMENT_UNADDRESSED" using True by (simp add: db8(2) state_of_def)
    ultimately show ?thesis using db7 by (simp add: recalculate_views state_views) (simp add: set_finding_def)
  next
    case False
    then have "reconcile_treatment_projection now ?k db7 = Inr db'" using fin by (simp only: db8(1) if_False)
    then have "db' = project_state now (active_row T ?k) ?k db7" by (simp add: reconcile_treatment_projection_def cur [OF db7(1)])
    then show ?thesis using db7 by (simp add: project_views)
  qed
  with merged show ?thesis by (simp add: treatment_ok_views delete_view cover)
qed

subsection \<open>The order of the UPDATEs\<close>

lemma lock_quiet:
  assumes ok: "treatment_ok db" and own: "(i, tenant) \<in> set (owners db)" and c: "active_row (treatments db) i = Some c" "\<not> is_elapsed now c"
  shows "lock_finding now tenant i db = Inr db"
proof -
  have "active_of i (treatments db) = [c]"
    using views_okD(2) [OF ok [unfolded treatment_ok_views], of i] active_row_Some [OF c(1)] by (cases rule: active_of_cases) auto
  then have "r = c" if "r \<in> set (t_rows (treatments db))" "ft_asset_finding_id r = i" "ft_status r = TREATMENT_STATUS_ACTIVE" for r
    using that active_of_iff [of r i "treatments db"] by simp
  with c(2) have "set (elapsed_rows now i db) = {}" by (auto simp: elapsed_rows_def t_select_def)
  then have "elapsed_rows now i db = []" by simp
  moreover have "t_exists (\<lambda>f. af_id f = i \<and> af_tenant_id f = tenant) (tb_asset_findings db)" using own by (auto simp: owners_def t_exists_iff)
  ultimately show ?thesis by (simp add: lock_finding_def expire_elapsed_treatments_for_finding_def)
qed

lemma flush_order:
  assumes one: "active_of i (treatments db) = [c]" and t: "t \<in> set (t_rows (treatments db))" "ft_asset_finding_id t = i"
    "ft_status t \<noteq> TREATMENT_STATUS_ACTIVE" and wf: "t_wf ft_id (treatments db)"
  shows "ft_id t < ft_id c \<Longrightarrow> flush_treatments i [(ft_id c, supersede_row now), (ft_id t, activate_row now)] db =
      Inl (HttpError 409 ''An active treatment already exists for this finding'')"
    and "ft_id c < ft_id t \<Longrightarrow> \<exists>db'. flush_treatments i [(ft_id c, supersede_row now), (ft_id t, activate_row now)] db = Inr db'"
proof -
  have c: "c \<in> set (t_rows (treatments db))" "ft_asset_finding_id c = i" "ft_status c = TREATMENT_STATUS_ACTIVE"
    using one active_of_iff [of c i "treatments db"] by simp_all
  show "flush_treatments i [(ft_id c, supersede_row now), (ft_id t, activate_row now)] db =
      Inl (HttpError 409 ''An active treatment already exists for this finding'')" if lt: "ft_id t < ft_id c"
  proof -
    let ?t' = "treatments (set_treatment (ft_id t) (activate_row now) db)"
    have "c \<in> set (active_of i ?t')" using c lt by (force simp: active_of_iff)
    moreover have "activate_row now t \<in> set (active_of i ?t')"
      using t by (auto simp: active_of_iff) (auto simp: activate_row_def)
    moreover have "activate_row now t \<noteq> c" using lt by (auto simp: activate_row_def)
    ultimately have "\<not> length (active_of i ?t') \<le> 1" by (cases "active_of i ?t'"; cases "tl (active_of i ?t')") auto
    then have "update_statement i (ft_id t, activate_row now) db = Inl (HttpError 409 ''An active treatment already exists for this finding'')"
      by (simp add: update_statement_def Let_def)
    moreover have "sorted_by fst [(ft_id c, supersede_row now), (ft_id t, activate_row now)] = [(ft_id t, activate_row now), (ft_id c, supersede_row now)]"
      using lt by (simp add: sorted_by_def)
    ultimately show ?thesis by (simp add: flush_treatments_def)
  qed
  show "\<exists>db'. flush_treatments i [(ft_id c, supersede_row now), (ft_id t, activate_row now)] db = Inr db'" if lt: "ft_id c < ft_id t"
  proof -
    let ?db1 = "set_treatment (ft_id c) (supersede_row now) db"
    have closed: "active_of i (treatments ?db1) = []" by (simp add: one, subst active_of_closed) (simp_all add: supersede_row_def one)
    have "supersede_row now c \<in> set (t_rows (treatments ?db1))" and t1: "t \<in> set (t_rows (treatments ?db1))" using c t lt by force+
    have "t_wf ft_id (treatments ?db1)" by simp (rule wf_rows_map [OF wf], simp add: supersede_row_def)
    then have "active_of i (treatments (set_treatment (ft_id t) (activate_row now) ?db1)) = [activate_row now t]"
      using active_of_activated [OF _ t1 t(2) closed] by (simp add: t_wf_def)
    then have "update_statement i (ft_id t, activate_row now) ?db1 = Inr (set_treatment (ft_id t) (activate_row now) ?db1)"
      by (simp add: update_statement_def Let_def)
    moreover have "update_statement i (ft_id c, supersede_row now) db = Inr ?db1" using closed by (simp add: update_statement_def Let_def)
    moreover have "sorted_by fst [(ft_id c, supersede_row now), (ft_id t, activate_row now)] = [(ft_id c, supersede_row now), (ft_id t, activate_row now)]"
      using lt by (simp add: sorted_by_def)
    ultimately show ?thesis by (simp add: flush_treatments_def)
  qed
qed

subsection \<open>Properties\<close>

text \<open>C1: the requests of the treatment service refine the plan of the treatments: a finding is
  covered by one record at most, a creation adds a plan and covers the finding at once when it
  reports a mitigation, an approval puts the approved record in the place of whatever covered the
  finding, a revocation uncovers it only when the active record is revoked, every request first
  drops the cover that has expired, and the sweep drops all that have. After each of them the
  state written to the finding is the type of the record that covers it.\<close>

theorem treatment_requests_refine_plan:
  assumes "treatment_ok db" and "run_treatment now op db = Inr db'"
  shows "abs_state db' = spec_treatment now op (abs_state db) \<and>
    list_all (\<lambda>f. af_treatment_state f = (case cover_of (tb_finding_treatments db') (af_id f) of
       None \<Rightarrow> TREATMENT_UNADDRESSED | Some (_, kind, _) \<Rightarrow> kind)) (t_rows (tb_asset_findings db')) \<and> treatment_ok db'"
  using treatment_steps [OF assms] by (auto simp: treatment_ok_def [of db'] list_all_iff state_of_cover)

text \<open>C25: when a finding is merged into another and then deleted, the cover of the finding that is
  kept is the one active record of the two that has not expired; when both have one, neither
  covers it any more and it is unaddressed again, so that a merge never picks between two
  decisions. No record is left on the deleted finding.\<close>

theorem merge_never_picks_a_treatment:
  assumes "treatment_ok db" and "af_id keeper \<noteq> af_id donor" and "keeper \<in> set (t_rows (tb_asset_findings db))"
    and "merge_finding_treatments now keeper donor db = Inr db'"
  shows "cover_of (tb_finding_treatments db') = merged_cover (af_id keeper) (af_id donor)
      (spec_expire now (af_id donor) (spec_expire now (af_id keeper) (cover_of (tb_finding_treatments db)))) \<and>
    treatment_ok (delete_finding (af_id donor) db')"
proof -
  have "(af_id keeper, af_tenant_id keeper) \<in> set (owners db)" using assms(3) by (auto simp: owners_def)
  from merge_steps [OF assms(1,2) this assms(4)] show ?thesis by blast
qed

text \<open>C26: approving a record in the place of the active one of its finding works only for a record
  that is younger than the active one. The approval of an older record is refused with status 409:
  the statements of the flush run in the order of the primary keys, so the older record becomes
  active before the active one is superseded, and the unique index on the active records of a
  finding rejects it.\<close>

theorem approval_needs_younger_record:
  assumes "treatment_ok db" and "get_treatment tenant i tid db = Inr t" and "(i, tenant) \<in> set (owners db)"
    and "ft_status t = TREATMENT_STATUS_PENDING_REVIEW" and "\<not> due_by now (ft_expires_at t)"
    and "active_row (tb_finding_treatments db) i = Some c" and "\<not> is_elapsed now c"
  shows "(tid < ft_id c \<longrightarrow> approve_treatment now actor tenant i tid review_notes db =
      Inl (HttpError 409 ''An active treatment already exists for this finding'')) \<and>
    (ft_id c < tid \<longrightarrow> (\<exists>db'. approve_treatment now actor tenant i tid review_notes db = Inr db'))"
proof -
  define f where "f = (\<lambda>t. t\<lparr>ft_reviewed_by_user_id := Some (u_id actor), ft_reviewed_at := Some now,
     ft_review_notes := (case review_notes of None \<Rightarrow> ft_review_notes t | Some s \<Rightarrow> Some (strip s))\<rparr> :: finding_treatment)"
  let ?db = "set_treatment tid f db"
  have f: "ft_id (f r) = ft_id r \<and> ft_status (f r) = ft_status r \<and> ft_asset_finding_id (f r) = ft_asset_finding_id r \<and>
      ft_tenant_id (f r) = ft_tenant_id r \<and> ft_treatment_type (f r) = ft_treatment_type r \<and> ft_expires_at (f r) = ft_expires_at r" for r
    by (simp add: f_def)
  have v: "views_ok (treatments db) (finding_view db)" and v1: "views_ok (treatments ?db) (finding_view ?db)"
    using assms(1) touch_steps [OF assms(1) f] by (simp_all only: treatment_ok_views)
  have row: "t \<in> set (t_rows (treatments db))" "ft_id t = tid" "ft_asset_finding_id t = i" using get_treatment_row [OF assms(2)] by auto
  have one: "active_of i (treatments db) = [c]"
    using views_okD(2) [OF v, of i] active_row_Some [OF assms(6)] by (cases rule: active_of_cases) auto
  have c: "ft_id c \<noteq> tid"
  proof
    assume "ft_id c = tid"
    moreover have "c \<in> set (t_rows (treatments db))" "ft_status c = TREATMENT_STATUS_ACTIVE" using one active_of_iff [of c i "treatments db"] by simp_all
    ultimately have "c = t" using t_wf_eq [OF views_okD(1) [OF v]] row by metis
    with \<open>ft_status c = TREATMENT_STATUS_ACTIVE\<close> assms(4) show False by simp
  qed
  have one1: "active_of i (treatments ?db) = [c]" using one c f by (simp add: active_of_kept)
  have cur: "current_active_treatment now i ?db = Inr (?db, Some c)"
    using assms(7) one1 by (simp add: current_active_treatment_def active_row_of sorted_by_def)
  obtain db1 where sup: "supersede_current now i (f t) (Some actor) ?db = Inr (db1, [(ft_id c, supersede_row now)])"
    and db1: "treatments db1 = treatments ?db"
    using c row f by (simp add: supersede_current_def cur Let_def)
  have "f t \<in> set (t_rows (treatments db1))" using row by (force simp: db1)
  note order = flush_order [where db = db1 and c = c and t = "f t" and i = i and now = now, unfolded db1, OF one1 this [unfolded db1] _ _ views_okD(1) [OF v1]]
  have approve: "approve_treatment now actor tenant i tid review_notes db =
    rbind (flush_treatments i [(ft_id c, supersede_row now), (tid, activate_row now)] db1) (\<lambda>db2.
      let db3 = recalculate_priority now i (set_finding i (\<lambda>f'. f'\<lparr>af_treatment_state := ft_treatment_type (f t), af_updated_at := now\<rparr>) db2)
      in Inr (fst (record_audit now (treatment_audit (Some actor) ''treatment.approved'' tid tenant
              [(''asset_finding_id'', jnat i), (''treatment_type'', JStr (ft_treatment_type t)),
               (''review_notes'', jopt JStr (ft_review_notes (f t))),
               (''technical_state'', jopt (\<lambda>f. JStr (af_technical_state f)) (get_finding i db3))]) db3)))"
    using lock_quiet [OF assms(1,3,6,7)] assms(2,4,5) sup row f
    by (simp add: approve_treatment_def require_expiration_not_due_def require_def activate_def Let_def rbind_assoc flip: f_def)
  show ?thesis using order row f assms(4) by (auto simp: approve Let_def)
qed

subsection \<open>Witnesses\<close>

definition sample_treatment :: finding_treatment where
  "sample_treatment = new_treatment 0 sample_user 1 1 \<lparr>ti_type = ''accepted_risk'', ti_rationale = ''ok'', ti_evidence_notes = [],
     ti_review_due_at = None, ti_expires_at = None, ti_source = TREATMENT_SOURCE_MANUAL\<rparr> 1"

definition treated_world :: db where
  \<comment> \<open>finding 1 has a pending record, the active mitigation, and a younger pending record\<close>
  "treated_world = finding_world\<lparr>
     tb_asset_findings := \<lparr>t_next = 3, t_rows = [sample_finding\<lparr>af_treatment_state := TREATMENT_MITIGATED\<rparr>,
       sample_finding\<lparr>af_id := 2, af_vulnerability_id := 2\<rparr>]\<rparr>,
     tb_finding_treatments := \<lparr>t_next = 4, t_rows = [sample_treatment,
       sample_treatment\<lparr>ft_id := 2, ft_treatment_type := TREATMENT_RECORD_MITIGATED, ft_status := TREATMENT_STATUS_ACTIVE\<rparr>,
       sample_treatment\<lparr>ft_id := 3\<rparr>]\<rparr>\<rparr>"

lemma treated_world_ok: "treatment_ok treated_world"
  by code_simp

theorem approval_needs_younger_record_witness:
  "approve_treatment 5 sample_user 1 1 1 None treated_world = Inl (HttpError 409 ''An active treatment already exists for this finding'') \<and>
   (\<exists>db'. approve_treatment 5 sample_user 1 1 3 None treated_world = Inr db')"
proof -
  let ?c = "sample_treatment\<lparr>ft_id := 2, ft_treatment_type := TREATMENT_RECORD_MITIGATED, ft_status := TREATMENT_STATUS_ACTIVE\<rparr>"
  have facts: "get_treatment 1 1 1 treated_world = Inr sample_treatment" "get_treatment 1 1 3 treated_world = Inr (sample_treatment\<lparr>ft_id := 3\<rparr>)"
    "(1, 1) \<in> set (owners treated_world)" "ft_status sample_treatment = TREATMENT_STATUS_PENDING_REVIEW"
    "\<not> due_by 5 (ft_expires_at sample_treatment)" "active_row (tb_finding_treatments treated_world) 1 = Some ?c" "\<not> is_elapsed 5 ?c"
    by code_simp+
  show ?thesis
    using approval_needs_younger_record [OF treated_world_ok facts(1,3,4,5,6,7), of sample_user None]
      approval_needs_younger_record [OF treated_world_ok facts(2,3) _ _ facts(6,7), of sample_user None] facts(4,5) by simp
qed

theorem treatment_requests_refine_plan_witness:
  "\<exists>db'. run_treatment 5 (TRevoke sample_user 1 1 2 ''no'') treated_world = Inr db' \<and>
     cover_of (tb_finding_treatments db') 1 = None \<and> map af_treatment_state (t_rows (tb_asset_findings db')) = [TREATMENT_UNADDRESSED, TREATMENT_UNADDRESSED]"
proof -
  let ?run = "run_treatment 5 (TRevoke sample_user 1 1 2 ''no'') treated_world"
  have ok: "\<not> isl ?run" "map_sum (\<lambda>e. ()) (\<lambda>db. map af_id (t_rows (tb_asset_findings db))) ?run = Inr [1, 2]" by code_simp+
  then obtain db' where db': "?run = Inr db'" by (cases ?run) simp_all
  note r = treatment_requests_refine_plan [OF treated_world_ok db']
  have "abs_state treated_world = (cover_of (tb_finding_treatments treated_world), plans_of (tb_finding_treatments treated_world))" by (simp add: abs_state_def)
  moreover have "cover_of (tb_finding_treatments treated_world) 1 = Some (2, TREATMENT_RECORD_MITIGATED, None)"
    "cover_of (tb_finding_treatments treated_world) 2 = None" by code_simp+
  ultimately have c: "cover_of (tb_finding_treatments db') 1 = None" "cover_of (tb_finding_treatments db') 2 = None"
    using r [THEN conjunct1] by (simp_all add: abs_state_def spec_revoke_def spec_expire_def due_by_def Let_def)
  have "map af_id (t_rows (tb_asset_findings db')) = [1, 2]" using ok(2) db' by simp
  then obtain f g where "t_rows (tb_asset_findings db') = [f, g]" "af_id f = 1" "af_id g = 2" by (auto simp: Cons_eq_map_conv)
  with r c db' show ?thesis by simp
qed

theorem merge_never_picks_a_treatment_witness:
  "\<exists>db'. merge_finding_treatments 5 (sample_finding\<lparr>af_id := 2, af_vulnerability_id := 2\<rparr>) sample_finding treated_world = Inr db' \<and>
     cover_of (tb_finding_treatments db') 2 = Some (2, TREATMENT_RECORD_MITIGATED, None)"
proof -
  let ?k = "sample_finding\<lparr>af_id := 2, af_vulnerability_id := 2\<rparr>"
  let ?run = "merge_finding_treatments 5 ?k sample_finding treated_world"
  have "\<not> isl ?run" by code_simp
  then obtain db' where db': "?run = Inr db'" by (cases ?run) simp_all
  have ids: "af_id ?k = 2" "af_id sample_finding = 1" by (simp_all add: sample_finding_def)
  then have "af_id ?k \<noteq> af_id sample_finding" by simp
  moreover have "?k \<in> set (t_rows (tb_asset_findings treated_world))" by (simp add: treated_world_def)
  ultimately have "cover_of (tb_finding_treatments db') = merged_cover 2 1 (spec_expire 5 1 (spec_expire 5 2 (cover_of (tb_finding_treatments treated_world))))"
    using merge_never_picks_a_treatment [OF treated_world_ok _ _ db'] ids by simp
  moreover have "merged_cover 2 1 (spec_expire 5 1 (spec_expire 5 2 (cover_of (tb_finding_treatments treated_world)))) 2 =
    Some (2, TREATMENT_RECORD_MITIGATED, None)" by code_simp
  ultimately show ?thesis using db' by simp
qed

end
