(* ===== verification/Sha256.thy ===== *)
theory Sha256
  imports Prelude "HOL-Library.Word"
begin

section \<open>SHA-256\<close>

text \<open>
  \<^verbatim>\<open>hashlib.sha256(material.encode("utf-8")).hexdigest()\<close>, with which the program names evidence,
  certificates and bundles: the algorithm of FIPS 180-4 on words of 32 bits, whose additions wrap.
  The theory shows the shape of a digest (64 lower-case hexadecimal digits).
\<close>

unbundle bit_operations_syntax

type_synonym word32 = "32 word"

text \<open>The constants are the first 32 bits of the fractional parts of the cube roots of the first 64 primes
  and of the square roots of the first eight; \<open>integer_root k n\<close> sets the bits of the root from above.\<close>

definition first_primes :: "int list" where
  "first_primes = filter (\<lambda>n. list_all (\<lambda>d. n \<le> d \<or> n mod d \<noteq> 0) [2, 3, 5, 7, 11, 13, 17]) [2..311]"

fun integer_root :: "nat \<Rightarrow> nat \<Rightarrow> int \<Rightarrow> int \<Rightarrow> int" where
  "integer_root k 0 n r = r"
| "integer_root k (Suc b) n r = integer_root k b n (if (r + 2 ^ b) ^ k \<le> n then r + 2 ^ b else r)"

definition root_bits :: "nat \<Rightarrow> int \<Rightarrow> word32" where
  "root_bits k p = word_of_int (integer_root k 36 (p * 2 ^ (32 * k)) 0 mod 2 ^ 32)"

definition K256 :: "word32 list" where
  "K256 = map (root_bits 3) first_primes"

definition H256 :: "word32 list" where
  "H256 = map (root_bits 2) (take 8 first_primes)"

lemma sixty_four_primes: "length first_primes = 64"
  by code_simp

lemma published_constants: "root_bits 3 2 = 0x428a2f98" "root_bits 2 2 = 0x6a09e667"
  by code_simp+

definition rotr :: "nat \<Rightarrow> word32 \<Rightarrow> word32" where
  "rotr n x = drop_bit n x OR push_bit (32 - n) x"

definition big_sigma0 :: "word32 \<Rightarrow> word32" where
  "big_sigma0 x = rotr 2 x XOR rotr 13 x XOR rotr 22 x"
definition big_sigma1 :: "word32 \<Rightarrow> word32" where
  "big_sigma1 x = rotr 6 x XOR rotr 11 x XOR rotr 25 x"
definition small_sigma0 :: "word32 \<Rightarrow> word32" where
  "small_sigma0 x = rotr 7 x XOR rotr 18 x XOR drop_bit 3 x"
definition small_sigma1 :: "word32 \<Rightarrow> word32" where
  "small_sigma1 x = rotr 17 x XOR rotr 19 x XOR drop_bit 10 x"
definition choose32 :: "word32 \<Rightarrow> word32 \<Rightarrow> word32 \<Rightarrow> word32" where
  "choose32 x y z = (x AND y) XOR (NOT x AND z)"
definition majority32 :: "word32 \<Rightarrow> word32 \<Rightarrow> word32 \<Rightarrow> word32" where
  "majority32 x y z = (x AND y) XOR (x AND z) XOR (y AND z)"

subsection \<open>Padding and blocks\<close>

definition utf8 :: "string \<Rightarrow> nat list" where
  "utf8 s = concat (map (\<lambda>c. let n = of_char c in if n < 128 then [n] else [192 + n div 64, 128 + n mod 64]) s)"

fun big_endian :: "nat \<Rightarrow> nat \<Rightarrow> nat list" where
  \<comment> \<open>\<open>k\<close> bytes, most significant first\<close>
  "big_endian 0 n = []"
| "big_endian (Suc k) n = big_endian k (n div 256) @ [n mod 256]"

definition sha_pad :: "nat list \<Rightarrow> nat list" where
  "sha_pad bytes = bytes @ [128] @ replicate ((119 - length bytes mod 64) mod 64) 0 @ big_endian 8 (8 * length bytes)"

fun words_of_bytes :: "nat list \<Rightarrow> word32 list" where
  "words_of_bytes (a # b # c # d # rest) = word_of_nat (((a * 256 + b) * 256 + c) * 256 + d) # words_of_bytes rest"
| "words_of_bytes _ = []"

function blocks_of :: "'a list \<Rightarrow> 'a list list" where
  "blocks_of xs = (if xs = [] then [] else take 16 xs # blocks_of (drop 16 xs))"
  by auto
termination by (relation "measure length") auto

declare blocks_of.simps [simp del]

subsection \<open>Compression\<close>

fun schedule :: "nat \<Rightarrow> word32 list \<Rightarrow> word32 list" where
  \<comment> \<open>\<open>w\<close> holds the words so far, the newest first\<close>
  "schedule 0 w = rev w"
| "schedule (Suc k) w = schedule k ((small_sigma1 (w ! 1) + w ! 6 + small_sigma0 (w ! 14) + w ! 15) # w)"

fun sha_round :: "word32 \<times> word32 \<Rightarrow> word32 list \<Rightarrow> word32 list" where
  "sha_round (k, w) [a, b, c, d, e, f, g, h] =
     (let t1 = h + big_sigma1 e + choose32 e f g + k + w; t2 = big_sigma0 a + majority32 a b c
      in [t1 + t2, a, b, c, d + t1, e, f, g])"
| "sha_round _ state = state"

definition compress :: "word32 list \<Rightarrow> word32 list \<Rightarrow> word32 list" where
  "compress block state = map2 (+) state (fold sha_round (zip K256 (schedule 48 (rev block))) state)"

definition hex_digit :: "nat \<Rightarrow> char" where
  "hex_digit n = ''0123456789abcdef'' ! n"

definition hex_word :: "word32 \<Rightarrow> string" where
  "hex_word w = map (\<lambda>i. hex_digit (unat (drop_bit (4 * i) w AND 15))) (rev [0..<8])"

definition sha256 :: "string \<Rightarrow> string" where
  "sha256 s = concat (map hex_word (fold compress (blocks_of (words_of_bytes (sha_pad (utf8 s)))) H256))"

subsection \<open>The shape of a digest\<close>

lemma sha_round_length: "length (sha_round kw state) = length state"
  by (induction kw state rule: sha_round.induct) (auto simp: Let_def)

lemma compress_length: "length (compress block state) = length state"
proof -
  have "length (fold sha_round kws state) = length state" for kws
    by (induction kws arbitrary: state) (simp_all add: sha_round_length)
  then show ?thesis by (simp add: compress_def)
qed

lemma hex_digit_ok: "n < 16 \<Longrightarrow> hex_digit n \<in> set ''0123456789abcdef''"
  unfolding hex_digit_def by (rule nth_mem) simp

lemma hex_word_ok: "length (hex_word w) = 8 \<and> set (hex_word w) \<subseteq> set ''0123456789abcdef''"
proof -
  have "unat (drop_bit n w AND 15) < 16" for n
  proof -
    have "drop_bit n w AND 15 \<le> 15" by (rule word_and_le1)
    then have "unat (drop_bit n w AND 15) \<le> unat (15 :: word32)" by (simp add: word_le_nat_alt)
    then show ?thesis by simp
  qed
  then show ?thesis using hex_digit_ok by (auto simp: hex_word_def simp del: upt_Suc)
qed

lemma sha256_shape: "length (sha256 s) = 64 \<and> set (sha256 s) \<subseteq> set ''0123456789abcdef''"
proof -
  have "length (fold compress bs H256) = 8" for bs
  proof -
    have "length (fold compress bs state) = length state" for state
      by (induction bs arbitrary: state) (simp_all add: compress_length)
    then show ?thesis by (simp add: H256_def sixty_four_primes)
  qed
  moreover have "length (concat (map hex_word ws)) = 8 * length ws \<and> set (concat (map hex_word ws)) \<subseteq> set ''0123456789abcdef''" for ws
    by (induction ws) (use hex_word_ok in auto)
  ultimately show ?thesis unfolding sha256_def by presburger
qed

end
