(* ===== verification/Finding_Identity.thy ===== *)
theory Finding_Identity
  imports Classify Policy_Rules Sha256
begin

section \<open>The identity of a detection\<close>

text \<open>
  \<^verbatim>\<open>backend/app/finding_lifecycle.py\<close>, first part: what a scanner report says about the detector,
  the CVE and the host, the keys under which the catalogue and the evidence are stored, and the
  targets a run covered. An exception of the standard library is a \<open>PyError\<close>. Sets of tokens are
  duplicate-free lists.
\<close>

subsection \<open>CVE numbers\<close>

definition parse_csv_tokens :: "string \<Rightarrow> string list" where
  "parse_csv_tokens raw = List.map_filter (\<lambda>part. if strip part \<noteq> [] then Some (py_lower (strip part)) else None)
     (split_on CHR '','' raw)"

definition is_cve :: "string \<Rightarrow> bool" where
  \<comment> \<open>\<open>CVE_RE\<close> on a token in upper case: \<open>^CVE-\d{4}-\d{4,}$\<close>\<close>
  "is_cve token \<longleftrightarrow> starts_with ''CVE-'' token \<and>
     (let rest = drop 4 token; year = take 4 rest; tail = drop 4 rest in
        length year = 4 \<and> list_all is_digit year \<and> starts_with ''-'' tail \<and>
        4 \<le> length (drop 1 tail) \<and> list_all is_digit (drop 1 tail))"

definition normalize_cve :: "string \<Rightarrow> string option" where
  "normalize_cve value = (let token = py_upper (strip value) in if is_cve token then Some token else None)"

definition cve_text :: "json \<Rightarrow> string" where
  \<comment> \<open>\<open>str(item)\<close>; the text of a value that is not a string never is a CVE number\<close>
  "cve_text v = (case v of JStr s \<Rightarrow> s | _ \<Rightarrow> [])"

definition classification_cves :: "json \<Rightarrow> string list" where
  "classification_cves raw =
     (let classification = as_obj (jget ''classification'' (as_obj (jget ''info'' raw)))
      in concat (map (\<lambda>key. case jget key classification of
             JArr items \<Rightarrow> map cve_text (filter truthy items)
           | v \<Rightarrow> if truthy v then [cve_text v] else [])
           [''cve-id'', ''cve_id'', ''cve'']))"

definition explicit_cves :: "json \<Rightarrow> string list" where
  "explicit_cves raw = dedup (List.map_filter normalize_cve (classification_cves raw))"

definition extract_explicit_cve :: "json \<Rightarrow> string option" where
  "extract_explicit_cve raw = (case explicit_cves raw of [cve] \<Rightarrow> Some cve | _ \<Rightarrow> None)"

definition cve_union :: "json list \<Rightarrow> string list" where
  "cve_union raws = dedup (concat (map (\<lambda>raw. explicit_cves (as_obj raw)) raws))"

subsection \<open>Keys\<close>

definition catalog_identity :: "string \<Rightarrow> string \<Rightarrow> string option \<Rightarrow> string" where
  "catalog_identity detector_type detector_key cve_id =
     (if str_or cve_id \<noteq> [] then ''cve:'' @ str_or cve_id else detector_type @ '':'' @ detector_key)"

definition evidence_identity_key :: "nat \<Rightarrow> string \<Rightarrow> string \<Rightarrow> string \<Rightarrow> string \<Rightarrow> string" where
  "evidence_identity_key scan_job_id detector_type detector_key host matched_at =
     (let material = join_with ''|'' [show_nat scan_job_id, detector_type, detector_key, strip host, strip matched_at]
      in show_nat scan_job_id @ '':'' @ detector_type @ '':'' @ sha256 material)"

subsection \<open>Reports\<close>

record finding_report =
  fr_template_id :: string
  fr_name :: string
  fr_severity :: string
  fr_host :: string
  fr_matched_at :: string
  fr_tags :: string
  fr_raw :: json

record detector_identity =
  di_detector_type :: string
  di_detector_key :: string
  di_cve_id :: "string option"
  di_canonical_key :: string
  di_title :: string
  di_description :: string
  di_severity :: string
  di_tags :: string
  di_host :: string
  di_matched_at :: string
  di_hostname :: string
  di_ip :: string
  di_raw :: json

definition field_or :: "string \<Rightarrow> json \<Rightarrow> string \<Rightarrow> app_error + string" where
  \<comment> \<open>\<open>(field or raw.get(k) or dflt).strip()\<close>\<close>
  "field_or field v dflt = (if field \<noteq> [] then Inr (strip field)
     else if \<not> truthy v then Inr (strip dflt)
     else (case v of JStr s \<Rightarrow> Inr (strip s) | _ \<Rightarrow> Inl (PyError ''AttributeError'')))"

definition joined_tags :: "json \<Rightarrow> app_error + string" where
  \<comment> \<open>\<open>",".join(info.get("tags") or [])\<close>: a string is joined character by character\<close>
  "joined_tags v = (if \<not> truthy v then Inr []
     else (case v of
         JStr s \<Rightarrow> Inr (join_with '','' (map (\<lambda>c. [c]) s))
       | JObj kvs \<Rightarrow> Inr (join_with '','' (map fst kvs))
       | JArr items \<Rightarrow> (if list_all (\<lambda>i. as_str i \<noteq> None) items
           then Inr (join_with '','' (map (\<lambda>i. the (as_str i)) items)) else Inl (PyError ''TypeError''))
       | _ \<Rightarrow> Inl (PyError ''TypeError'')))"

definition description_text :: "json \<Rightarrow> string" where
  \<comment> \<open>\<open>str(info.get("description") or "")\<close>: a string, a number or a Boolean; the \<open>repr\<close> of a float,
     list or dict is not modelled\<close>
  "description_text v = (if \<not> truthy v then [] else case v of JStr s \<Rightarrow> s | JInt i \<Rightarrow> show_int i
     | JBool b \<Rightarrow> ''True'' | _ \<Rightarrow> [])"

definition url_hostname :: "string \<Rightarrow> string" where
  \<comment> \<open>\<open>urlparse(...).hostname or ""\<close> of a network location\<close>
  "url_hostname netloc =
     (let hostinfo = (if CHR ''@'' \<in> set netloc then rev (takeWhile (\<lambda>c. c \<noteq> CHR ''@'') (rev netloc)) else netloc);
          host = (if CHR ''['' \<in> set hostinfo then fst (partition_on CHR '']'' (snd (partition_on CHR ''['' hostinfo)))
            else fst (partition_on CHR '':'' hostinfo))
      in if CHR ''%'' \<in> set host
         then py_lower (fst (partition_on CHR ''%'' host)) @ ''%'' @ snd (partition_on CHR ''%'' host)
         else py_lower host)"

definition first_part :: "string \<Rightarrow> string" where
  \<comment> \<open>\<open>s.split("/")[0].split(":")[0]\<close>\<close>
  "first_part s = fst (partition_on CHR '':'' (fst (partition_on CHR ''/'' s)))"

definition host_part :: "string \<Rightarrow> app_error + string" where
  "host_part raw_host = (if contains_str ''://'' raw_host
     then rbind (urlparse raw_host) (\<lambda>(_, netloc). Inr (url_hostname netloc)) else Inr (first_part raw_host))"

definition host_to_ip :: "string \<Rightarrow> app_error + string option" where
  \<comment> \<open>a colon ends the host, so only dotted addresses are accepted, and their text is canonical\<close>
  "host_to_ip host = (let value = strip host in
     if value = [] then Inr None
     else rbind (if contains_str ''://'' value
         then rbind (urlparse value) (\<lambda>(_, netloc). Inr (if url_hostname netloc \<noteq> [] then url_hostname netloc else value))
         else Inr value) (\<lambda>v. Inr (if parse_ipv4 (first_part v) \<noteq> None then Some (first_part v) else None)))"

definition parse_detector_identity :: "finding_report \<Rightarrow> app_error + detector_identity" where
  "parse_detector_identity r =
     (let raw = fr_raw r; info = as_obj (jget ''info'' raw) in
      rbind (field_or (fr_template_id r) (jget ''template-id'' raw) []) (\<lambda>key.
      rbind (field_or (fr_name r) (jget ''name'' info) []) (\<lambda>title.
      rbind (field_or (fr_severity r) (jget ''severity'' info) ''info'') (\<lambda>severity0.
      rbind (if fr_tags r \<noteq> [] then Inr (fr_tags r) else joined_tags (jget ''tags'' info)) (\<lambda>tags.
      rbind (field_or (fr_host r) (jget ''host'' raw) []) (\<lambda>host.
      rbind (field_or (fr_matched_at r) (jget ''matched-at'' raw) []) (\<lambda>matched_at.
      rbind (host_part (if host \<noteq> [] then host else matched_at)) (\<lambda>parsed0.
      rbind (host_to_ip (if host \<noteq> [] then host else matched_at)) (\<lambda>ip0.
        let severity = (if py_lower severity0 \<noteq> [] then py_lower severity0 else ''info'');
            parsed = normalize_hostname parsed0; ip = str_or ip0; cve_id = extract_explicit_cve raw
        in Inr \<lparr>di_detector_type = DETECTOR_NUCLEI, di_detector_key = key, di_cve_id = cve_id,
             di_canonical_key = (if key \<noteq> [] \<or> str_or cve_id \<noteq> [] then catalog_identity DETECTOR_NUCLEI key cve_id else []),
             di_title = title, di_description = strip (description_text (jget ''description'' info)), di_severity = severity,
             di_tags = tags, di_host = host, di_matched_at = matched_at, di_hostname = identity_name parsed ip,
             di_ip = ip, di_raw = raw\<rparr>)))))))))"

definition identity_tokens :: "detector_identity \<Rightarrow> app_error + string list" where
  "identity_tokens d =
     (let hostname = normalize_hostname (di_hostname d); raw_host = strip (if di_host d \<noteq> [] then di_host d else di_matched_at d) in
      rbind (host_part raw_host) (\<lambda>parsed0.
        let parsed = normalize_hostname parsed0
        in Inr (filter (\<lambda>t. t \<noteq> []) (dedup ((if di_ip d \<noteq> [] then [strip (di_ip d)] else []) @
             (if hostname \<noteq> [] \<and> \<not> is_ip hostname then [hostname] else []) @ [parsed])))))"

definition observation_identity_tokens :: "asset_observation \<Rightarrow> string list" where
  "observation_identity_tokens ob =
     (let hostname = normalize_hostname (obs_hostname ob); snapshot = as_obj (obs_snapshot ob);
          named = (\<lambda>key. case jget key snapshot of
             JStr v \<Rightarrow> if strip v = [] then []
               else let token = (if key \<noteq> ''ip'' then normalize_hostname v else strip v)
                    in if token \<noteq> [] \<and> (key = ''ip'' \<or> \<not> is_ip token) then [token] else []
           | _ \<Rightarrow> [])
      in dedup ((if obs_ip ob \<noteq> [] then [strip (obs_ip ob)] else []) @
           (if hostname \<noteq> [] \<and> \<not> is_ip hostname then [hostname] else []) @
           named ''ip'' @ named ''hostname'' @ named ''fqdn''))"

definition device_tokens :: "device \<Rightarrow> string list" where
  "device_tokens d = filter (\<lambda>t. t \<noteq> []) (dedup [dev_ip d, normalize_hostname (dev_hostname d)])"

definition meet :: "string list \<Rightarrow> string list \<Rightarrow> bool" where
  \<comment> \<open>\<open>tokens.intersection(other)\<close> is not empty\<close>
  "meet xs ys \<longleftrightarrow> list_ex (\<lambda>x. x \<in> set ys) xs"

subsection \<open>Covered targets\<close>

definition coverage_host_port :: "string \<Rightarrow> string option" where
  \<comment> \<open>the host of \<open>address:port\<close>\<close>
  "coverage_host_port raw = (let (host, port) = partition_on CHR '':'' raw in
     if length (filter (\<lambda>c. c = CHR '':'') raw) = 1 \<and> is_ip host \<and> all_digits port then Some host else None)"

definition parse_coverage_target :: "string \<Rightarrow> app_error + (string \<times> string)" where
  "parse_coverage_target target =
     (let raw = strip target in
      if raw = [] then Inr ([], COVERAGE_KIND_OTHER)
      else if contains_str ''://'' raw
      then rbind (urlparse raw) (\<lambda>(_, netloc). Inr (normalize_hostname (url_hostname netloc), COVERAGE_KIND_URL))
      else if is_network raw
      then Inr (if CHR ''/'' \<in> set raw then ([], COVERAGE_KIND_CIDR) else (ip_text raw, COVERAGE_KIND_IP))
      else (case coverage_host_port raw of
          Some host \<Rightarrow> Inr (host, COVERAGE_KIND_IP_PORT)
        | None \<Rightarrow>
            if is_ip raw then Inr (raw, COVERAGE_KIND_IP)
            else let host = normalize_hostname (fst (partition_on CHR ''/'' raw))
                 in Inr (host, if host \<noteq> [] \<and> \<not> is_ip host then COVERAGE_KIND_FQDN else COVERAGE_KIND_OTHER)))"

subsection \<open>What an identity is\<close>

definition address_ok :: "string \<Rightarrow> bool" where
  "address_ok ip \<longleftrightarrow> ip = [] \<or> parse_ipv4 ip \<noteq> None"

definition identity_ok :: "detector_identity \<Rightarrow> bool" where
  "identity_ok d \<longleftrightarrow> di_detector_type d = DETECTOR_NUCLEI \<and>
     list_all (\<lambda>s. strip s = s) [di_detector_key d, di_title d, di_description d, di_host d, di_matched_at d] \<and>
     di_severity d \<noteq> [] \<and> py_lower (di_severity d) = di_severity d \<and> di_hostname d \<noteq> [] \<and>
     address_ok (di_ip d) \<and>
     (case di_cve_id d of
        Some cve \<Rightarrow> is_cve cve \<and> explicit_cves (di_raw d) = [cve] \<and> di_canonical_key d = ''cve:'' @ cve
      | None \<Rightarrow> length (explicit_cves (di_raw d)) \<noteq> 1 \<and>
          di_canonical_key d = (if di_detector_key d = [] then [] else DETECTOR_NUCLEI @ '':'' @ di_detector_key d))"

lemma field_or_stripped: "field_or f v dflt = Inr s \<Longrightarrow> strip s = s"
  by (auto simp: field_or_def split: if_splits json.splits)

lemma map_filter_member: "y \<in> set (List.map_filter f xs) \<longleftrightarrow> (\<exists>x \<in> set xs. f x = Some y)"
  by (force simp: List.map_filter_def)

lemma explicit_cves_are_cves: "cve \<in> set (explicit_cves raw) \<Longrightarrow> is_cve cve"
  by (auto simp: explicit_cves_def map_filter_member normalize_cve_def Let_def split: if_splits)

lemma cve_not_empty: "is_cve cve \<Longrightarrow> cve \<noteq> []"
  by (auto simp: is_cve_def)

lemma extracted_cve: "case extract_explicit_cve raw of Some cve \<Rightarrow> is_cve cve \<and> explicit_cves raw = [cve] | None \<Rightarrow> length (explicit_cves raw) \<noteq> 1"
  using explicit_cves_are_cves [of _ raw] by (auto simp: extract_explicit_cve_def split: list.splits)

lemma host_ip_parses: "host_to_ip h = Inr ip \<Longrightarrow> address_ok (str_or ip)"
  by (auto simp: address_ok_def host_to_ip_def Let_def rbind_Inr_iff str_or_def split: if_splits)

lemma identity_name_not_empty: "identity_name name ip \<noteq> []"
  by (auto simp: identity_name_def generic_name_def Let_def)

lemma parsed_identity_ok: "parse_detector_identity r = Inr d \<Longrightarrow> identity_ok d \<and> di_raw d = fr_raw r"
proof -
  assume "parse_detector_identity r = Inr d"
  then obtain key title sev tags host matched parsed ip where
    strips: "strip key = key" "strip title = title" "strip host = host" "strip matched = matched" and
    ip: "address_ok (str_or ip)" and
    d: "d = \<lparr>di_detector_type = DETECTOR_NUCLEI, di_detector_key = key, di_cve_id = extract_explicit_cve (fr_raw r),
      di_canonical_key = (if key \<noteq> [] \<or> str_or (extract_explicit_cve (fr_raw r)) \<noteq> []
        then catalog_identity DETECTOR_NUCLEI key (extract_explicit_cve (fr_raw r)) else []),
      di_title = title, di_description = strip (description_text (jget ''description'' (as_obj (jget ''info'' (fr_raw r))))),
      di_severity = (if py_lower sev \<noteq> [] then py_lower sev else ''info''), di_tags = tags, di_host = host, di_matched_at = matched,
      di_hostname = identity_name (normalize_hostname parsed) (str_or ip), di_ip = str_or ip, di_raw = fr_raw r\<rparr>"
    unfolding parse_detector_identity_def Let_def rbind_Inr_iff
    by (auto dest!: field_or_stripped host_ip_parses)
  have "py_lower ''info'' = ''info''" by code_simp
  then show ?thesis
    using extracted_cve [of "fr_raw r"] ip strips
    by (auto simp: d identity_ok_def identity_name_not_empty catalog_identity_def str_or_def cve_not_empty split: option.splits)
qed

text \<open>The key of a piece of evidence starts with the number of its run, so runs never share a key.\<close>

lemma evidence_key_run: "evidence_identity_key j t k h m = evidence_identity_key j' t' k' h' m' \<Longrightarrow> j = j'"
  by (simp add: evidence_identity_key_def Let_def append_sep_eq)

subsection \<open>Properties\<close>

text \<open>C12: a report that is parsed gives a well-formed identity: the detector is nuclei, the texts carry
  no outer white space, the severity is a non-empty lower-case word, the host name is never empty, an
  address is a valid IPv4 address, and the catalogue key is the CVE number when the report names
  exactly one (which then is a valid number), else the detector and its template.\<close>

theorem parsed_report_is_well_typed:
  assumes "parse_detector_identity r = Inr d"
  shows "identity_ok d \<and> di_raw d = fr_raw r"
  using parsed_identity_ok [OF assms] by simp_all

definition sample_report :: finding_report where
  "sample_report = \<lparr>fr_template_id = ''tpl'', fr_name = [], fr_severity = ''High '', fr_host = ''srv.example'', fr_matched_at = [],
     fr_tags = [], fr_raw = JObj [(''info'', JObj [(''name'', JStr ''bug''), (''tags'', JArr [JStr ''a'', JStr ''b'']),
       (''classification'', JObj [(''cve-id'', JArr [JStr ''cve-2024-1234''])])])]\<rparr>"

theorem parsed_report_is_well_typed_witness:
  "\<exists>d. parse_detector_identity sample_report = Inr d \<and> identity_ok d \<and> di_raw d = fr_raw sample_report \<and>
     di_canonical_key d = ''cve:CVE-2024-1234''"
proof -
  have "(case parse_detector_identity sample_report of Inl _ \<Rightarrow> False | Inr d \<Rightarrow> di_canonical_key d = ''cve:CVE-2024-1234'')" by code_simp
  then obtain d where d: "parse_detector_identity sample_report = Inr d" and "di_canonical_key d = ''cve:CVE-2024-1234''"
    by (auto split: sum.splits)
  with parsed_report_is_well_typed [OF d] show ?thesis by blast
qed

end
