(* ===== verification/Finding_Index.thy ===== *)
theory Finding_Index
  imports Finding_Identity Jobs Policy_Apply
begin

section \<open>The run index\<close>

text \<open>
  \<^verbatim>\<open>backend/app/finding_ingest.py\<close> (\<open>FindingRunIndex\<close>) and the lookups of
  \<^verbatim>\<open>backend/app/finding_lifecycle.py\<close> that take it: one index per batch caches the rows of the
  run, so that ingest and finalisation do not query them once per finding. A cached ORM row is its
  id: the session maps an id to one object, so its columns are read from the database, while the key
  under which the row was cached stays. A lookup may fill the cache and returns the index with its
  result. The caches of assets are not kept: no asset row changes while an index lives.
\<close>

record run_index =
  ix_job :: scan_job
  ix_observations :: "asset_observation list"
  ix_devices :: "device list"
  ix_coverage :: "scan_run_detector_coverage list"
  ix_findings :: "(string option \<times> nat) list"
  ix_cves :: "((string \<times> string) \<times> string list) list"
  ix_mappings :: "((string \<times> string) \<times> nat) list"
  ix_vulnerabilities :: "(string \<times> nat) list"
  ix_asset_findings :: "((nat \<times> nat) \<times> nat) list"
  ix_evaluations :: "((nat \<times> nat) \<times> nat) list"
  ix_supporting :: "(nat \<times> nat list) list"

definition pair_of :: "evidence_finding \<Rightarrow> string \<times> string" where
  "pair_of f = (fnd_detector_type f, fnd_detector_key f)"

definition union_cves :: "string list \<Rightarrow> string list \<Rightarrow> string list" where
  "union_cves xs ys = dedup (xs @ ys)"

definition known_cves :: "string \<times> string \<Rightarrow> run_index \<Rightarrow> string list" where
  "known_cves pair ix = (case map_of (ix_cves ix) pair of None \<Rightarrow> [] | Some cves \<Rightarrow> cves)"

definition add_cves :: "string \<times> string \<Rightarrow> json \<Rightarrow> run_index \<Rightarrow> run_index" where
  \<comment> \<open>\<open>self._cves.setdefault(pair, set()).update(explicit_cves(raw))\<close>\<close>
  "add_cves pair raw ix = ix\<lparr>ix_cves := (pair, union_cves (known_cves pair ix) (explicit_cves (as_obj raw))) # ix_cves ix\<rparr>"

definition add_identity_cves :: "detector_identity \<Rightarrow> run_index \<Rightarrow> run_index" where
  "add_identity_cves d = add_cves (di_detector_type d, di_detector_key d) (di_raw d)"

subsection \<open>Remembering rows\<close>

definition remember_coverage :: "scan_run_detector_coverage \<Rightarrow> run_index \<Rightarrow> run_index" where
  "remember_coverage row ix = ix\<lparr>ix_coverage := ix_coverage ix @ [row]\<rparr>"

definition remember_finding :: "evidence_finding \<Rightarrow> run_index \<Rightarrow> run_index" where
  "remember_finding row ix =
     (let ix1 = ix\<lparr>ix_findings := (fnd_evidence_key row, fnd_id row) # ix_findings ix,
            ix_supporting := (case fnd_asset_finding_id row of None \<Rightarrow> ix_supporting ix
              | Some i \<Rightarrow> map (\<lambda>(j, rows). (j, if j = i then rows @ [fnd_id row] else rows)) (ix_supporting ix))\<rparr>
      in if fnd_detector_type row \<noteq> [] \<and> fnd_detector_key row \<noteq> [] then add_cves (pair_of row) (fnd_raw_json row) ix1 else ix1)"

definition remember_mapping :: "vulnerability_detector_mapping \<Rightarrow> run_index \<Rightarrow> run_index" where
  "remember_mapping row ix = ix\<lparr>ix_mappings := ((vdm_detector_type row, vdm_detector_key row), vdm_id row) # ix_mappings ix\<rparr>"

definition remember_vulnerability :: "vulnerability \<Rightarrow> run_index \<Rightarrow> run_index" where
  "remember_vulnerability row ix = (if vul_canonical_key row \<noteq> []
     then ix\<lparr>ix_vulnerabilities := (vul_canonical_key row, vul_id row) # ix_vulnerabilities ix\<rparr> else ix)"

definition remember_asset_finding :: "asset_finding \<Rightarrow> run_index \<Rightarrow> run_index" where
  "remember_asset_finding row ix = ix\<lparr>ix_asset_findings := ((af_asset_id row, af_vulnerability_id row), af_id row) # ix_asset_findings ix\<rparr>"

definition remember_evaluation :: "asset_finding_run_evaluation \<Rightarrow> run_index \<Rightarrow> run_index" where
  "remember_evaluation row ix = ix\<lparr>ix_evaluations := ((afe_asset_finding_id row, afe_scan_job_id row), afe_id row) # ix_evaluations ix\<rparr>"

subsection \<open>Building\<close>

definition run_devices :: "db \<Rightarrow> scan_job \<Rightarrow> device list" where
  "run_devices db job = t_select (\<lambda>d. dev_last_scan_job_id d = Some (job_id job) \<and> dev_tenant_id d = job_tenant_id job) (tb_devices db)"

definition mapping_row :: "db \<Rightarrow> string \<times> string \<Rightarrow> vulnerability_detector_mapping option" where
  \<comment> \<open>\<open>query(VulnerabilityDetectorMapping).filter(type, key).first()\<close>\<close>
  "mapping_row db pair = t_first (\<lambda>m. (vdm_detector_type m, vdm_detector_key m) = pair) (tb_vulnerability_detector_mappings db)"

definition detector_raws :: "db \<Rightarrow> string \<times> string \<Rightarrow> json list" where
  "detector_raws db pair = map fnd_raw_json (t_select (\<lambda>f. pair_of f = pair) (tb_findings db))"

definition empty_index :: "scan_job \<Rightarrow> run_index" where
  "empty_index job = \<lparr>ix_job = job, ix_observations = [], ix_devices = [], ix_coverage = [], ix_findings = [], ix_cves = [],
     ix_mappings = [], ix_vulnerabilities = [], ix_asset_findings = [], ix_evaluations = [], ix_supporting = []\<rparr>"

definition build_index :: "db \<Rightarrow> scan_job \<Rightarrow> (string \<times> string) list \<Rightarrow> run_index" where
  "build_index db job pairs =
     (let ix0 = (empty_index job)\<lparr>ix_observations := run_observations db job, ix_devices := run_devices db job\<rparr>;
          ix1 = fold remember_coverage (t_select (\<lambda>c. cov_scan_job_id c = job_id job) (tb_scan_run_detector_coverage db)) ix0;
          ix2 = fold remember_finding (t_select (\<lambda>f. fnd_scan_job_id f = Some (job_id job) \<and> fnd_tenant_id f = job_tenant_id job)
            (tb_findings db)) ix1;
          ix3 = ix2\<lparr>ix_cves := map (\<lambda>pair. (pair, cve_union (detector_raws db pair))) pairs @ ix_cves ix2\<rparr>;
          ix4 = fold remember_mapping (List.map_filter (mapping_row db) pairs) ix3
      in fold remember_evaluation (t_select (\<lambda>e. afe_scan_job_id e = job_id job) (tb_asset_finding_run_evaluations db)) ix4)"

subsection \<open>Assets and devices of the run\<close>

lemma unseen_decreases:
  "first_match (\<lambda>a. asset_id a = current) rows = Some a \<Longrightarrow> current \<notin> set seen \<Longrightarrow>
     length (filter (\<lambda>a. asset_id a \<notin> set (current # seen)) rows) < length (filter (\<lambda>a. asset_id a \<notin> set seen) rows)"
proof -
  assume m: "first_match (\<lambda>a. asset_id a = current) rows = Some a" and c: "current \<notin> set seen"
  have "filter (\<lambda>a. asset_id a \<notin> set (current # seen)) rows = filter (\<lambda>a. asset_id a \<noteq> current) (filter (\<lambda>a. asset_id a \<notin> set seen) rows)"
    by (simp add: conj_commute)
  moreover have "a \<in> set (filter (\<lambda>a. asset_id a \<notin> set seen) rows)" "asset_id a = current"
    using first_match_Some [OF m] c by auto
  ultimately show ?thesis using length_filter_less [of a "filter (\<lambda>a. asset_id a \<notin> set seen) rows" "\<lambda>a. asset_id a \<noteq> current"] by simp
qed

function canonical_asset :: "asset list \<Rightarrow> nat list \<Rightarrow> nat \<Rightarrow> nat" where
  "canonical_asset rows seen current =
     (if current = 0 \<or> current \<in> set seen then current
      else (case first_match (\<lambda>a. asset_id a = current) rows of
          None \<Rightarrow> current
        | Some a \<Rightarrow> (case asset_merged_into_asset_id a of
            None \<Rightarrow> current
          | Some m \<Rightarrow> if m = 0 then current else canonical_asset rows (current # seen) m)))"
  by pat_completeness auto
termination
  by (relation "measure (\<lambda>(rows, seen, _). length (filter (\<lambda>a. asset_id a \<notin> set seen) rows))") (auto dest: unseen_decreases)

declare canonical_asset.simps [simp del]

definition canonical_asset_id :: "db \<Rightarrow> nat \<Rightarrow> nat" where
  "canonical_asset_id db i = canonical_asset (t_rows (tb_assets db)) [] i"

definition run_asset :: "db \<Rightarrow> scan_job \<Rightarrow> nat list \<Rightarrow> asset option" where
  \<comment> \<open>the one asset the tokens name, of the tenant, and the asset it was merged into\<close>
  "run_asset db job ids = (case dedup ids of
       [i] \<Rightarrow> (case t_get asset_id i (tb_assets db) of
           None \<Rightarrow> None
         | Some a \<Rightarrow>
             if asset_tenant_id a \<noteq> job_tenant_id job then None
             else if canonical_asset_id db i = i then Some a
             else (case t_get asset_id (canonical_asset_id db i) (tb_assets db) of
                 None \<Rightarrow> None
               | Some b \<Rightarrow> if asset_tenant_id b \<noteq> job_tenant_id job then None else Some b))
     | _ \<Rightarrow> None)"

definition matching_assets :: "scan_job \<Rightarrow> string list \<Rightarrow> asset_observation list \<Rightarrow> nat list" where
  "matching_assets job tokens obs = map obs_asset_id (filter (\<lambda>ob. obs_tenant_id ob = job_tenant_id job \<and>
     meet tokens (observation_identity_tokens ob)) obs)"

definition resolve_asset :: "db \<Rightarrow> detector_identity \<Rightarrow> run_index \<Rightarrow> app_error + asset option" where
  "resolve_asset db d ix = rbind (identity_tokens d) (\<lambda>tokens.
     if tokens = [] \<or> ix_observations ix = [] then Inr None
     else Inr (run_asset db (ix_job ix) (matching_assets (ix_job ix) tokens (ix_observations ix))))"

definition one_device :: "device list \<Rightarrow> device option" where
  "one_device ds = (case dedup (map dev_id ds) of [_] \<Rightarrow> Some (hd ds) | _ \<Rightarrow> None)"

definition resolve_device :: "detector_identity \<Rightarrow> run_index \<Rightarrow> app_error + device option" where
  "resolve_device d ix = rbind (identity_tokens d) (\<lambda>tokens.
     if tokens = [] then Inr None else Inr (one_device (filter (\<lambda>dev. meet tokens (device_tokens dev)) (ix_devices ix))))"

definition resolve_current_run_asset :: "db \<Rightarrow> scan_job \<Rightarrow> detector_identity \<Rightarrow> run_index option \<Rightarrow> app_error + asset option" where
  "resolve_current_run_asset db job d index = (case index of
       Some ix \<Rightarrow> resolve_asset db d ix
     | None \<Rightarrow>
         if run_observations db job = [] then Inr None
         else rbind (identity_tokens d) (\<lambda>tokens.
           if tokens = [] then Inr None else Inr (run_asset db job (matching_assets job tokens (run_observations db job)))))"

definition current_run_device :: "db \<Rightarrow> scan_job \<Rightarrow> detector_identity \<Rightarrow> run_index option \<Rightarrow> app_error + device option" where
  "current_run_device db job d index = (case index of
       Some ix \<Rightarrow> resolve_device d ix
     | None \<Rightarrow> rbind (identity_tokens d) (\<lambda>tokens.
         if tokens = [] then Inr None else Inr (one_device (filter (\<lambda>dev. meet tokens (device_tokens dev)) (run_devices db job)))))"

definition asset_observed_in_run :: "db \<Rightarrow> scan_job \<Rightarrow> nat \<Rightarrow> run_index option \<Rightarrow> bool" where
  "asset_observed_in_run db job i index = (case index of
       Some ix \<Rightarrow> i \<in> set (map obs_asset_id (ix_observations ix))
     | None \<Rightarrow> t_exists (\<lambda>ob. obs_scan_job_id ob = Some (job_id job) \<and> obs_asset_id ob = i \<and> obs_tenant_id ob = job_tenant_id job)
         (tb_asset_observations db))"

definition resolve_trusted_asset :: "db \<Rightarrow> nat \<Rightarrow> scan_job \<Rightarrow> device option \<Rightarrow> asset option" where
  "resolve_trusted_asset db tenant job dev = (case dev of
       None \<Rightarrow> None
     | Some d \<Rightarrow> (case dev_asset_id d of
         None \<Rightarrow> None
       | Some i \<Rightarrow>
           if dev_last_scan_job_id d \<noteq> Some (job_id job) \<or> dev_tenant_id d \<noteq> tenant \<or> dev_tenant_id d \<noteq> job_tenant_id job
             \<or> \<not> asset_observed_in_run db job i None then None
           else run_asset db (job\<lparr>job_tenant_id := tenant\<rparr>) [i]))"

subsection \<open>Coverage\<close>

definition coverage_exists :: "string \<Rightarrow> string \<Rightarrow> run_index \<Rightarrow> bool" where
  "coverage_exists detector_type target ix \<longleftrightarrow>
     list_ex (\<lambda>c. cov_detector_type c = detector_type \<and> cov_target c = target) (ix_coverage ix)"

definition covers :: "scan_run_detector_coverage list \<Rightarrow> string list \<Rightarrow> bool" where
  "covers rows tokens \<longleftrightarrow> list_ex (\<lambda>c. cov_target_kind c \<in> set HOST_COVERAGE_KINDS \<and>
     strip (cov_normalized_host c) \<noteq> [] \<and> strip (cov_normalized_host c) \<in> set tokens) rows"

definition asset_covered_by_detector :: "db \<Rightarrow> scan_job \<Rightarrow> nat \<Rightarrow> string \<Rightarrow> run_index option \<Rightarrow> bool" where
  "asset_covered_by_detector db job i detector_type index = (case index of
       Some ix \<Rightarrow> covers (filter (\<lambda>c. cov_detector_type c = detector_type) (ix_coverage ix))
         (concat (map observation_identity_tokens (filter (\<lambda>ob. obs_asset_id ob = i \<and> obs_tenant_id ob = job_tenant_id (ix_job ix))
           (ix_observations ix))))
     | None \<Rightarrow> covers (t_select (\<lambda>c. cov_scan_job_id c = job_id job \<and> cov_tenant_id c = job_tenant_id job \<and>
             cov_detector_type c = detector_type) (tb_scan_run_detector_coverage db))
         (concat (map observation_identity_tokens (filter (\<lambda>ob. obs_asset_id ob = i) (run_observations db job)))))"

definition new_coverage :: "time \<Rightarrow> scan_job \<Rightarrow> string \<Rightarrow> string \<Rightarrow> string \<times> string \<Rightarrow> nat \<Rightarrow> scan_run_detector_coverage" where
  "new_coverage now job detector target hk n = \<lparr>cov_id = n, cov_tenant_id = job_tenant_id job, cov_scan_job_id = job_id job,
     cov_detector_type = detector, cov_target = target, cov_normalized_host = fst hk, cov_target_kind = snd hk, cov_created_at = now\<rparr>"

definition store_target :: "time \<Rightarrow> scan_job \<Rightarrow> string \<Rightarrow> string \<Rightarrow> db \<times> run_index \<times> nat \<Rightarrow> app_error + (db \<times> run_index \<times> nat)" where
  "store_target now job detector target s = (case s of (db, ix, added) \<Rightarrow>
     if coverage_exists detector target ix then Inr s
     else rbind (parse_coverage_target target) (\<lambda>hk.
       let mk = new_coverage now job detector target hk; tab = tb_scan_run_detector_coverage db
       in Inr (db\<lparr>tb_scan_run_detector_coverage := t_insert mk tab\<rparr>, remember_coverage (mk (t_next tab)) ix, added + 1)))"

definition store_detector_coverage :: "time \<Rightarrow> scan_job \<Rightarrow> string \<Rightarrow> string list \<Rightarrow> run_index option \<Rightarrow> db \<Rightarrow> app_error + (db \<times> run_index \<times> nat)" where
  "store_detector_coverage now job detector_type targets index db =
     (let detector = py_lower (strip detector_type);
          ix = (case index of Some ix \<Rightarrow> ix | None \<Rightarrow> build_index db job [])
      in if detector = [] then Inl (ServiceError ''detector_type is required'')
         else rfold (store_target now job detector) (dedup (filter (\<lambda>t. t \<noteq> []) (map strip targets))) (db, ix, 0))"

subsection \<open>Cached lookups\<close>

definition mapping_for :: "db \<Rightarrow> string \<times> string \<Rightarrow> run_index option \<Rightarrow> run_index option \<times> vulnerability_detector_mapping option" where
  "mapping_for db pair index = (case index of
       None \<Rightarrow> (None, mapping_row db pair)
     | Some ix \<Rightarrow> (case map_of (ix_mappings ix) pair of
         Some i \<Rightarrow> (Some ix, t_get vdm_id i (tb_vulnerability_detector_mappings db))
       | None \<Rightarrow> (case mapping_row db pair of
           None \<Rightarrow> (Some ix, None)
         | Some m \<Rightarrow> (Some (ix\<lparr>ix_mappings := (pair, vdm_id m) # ix_mappings ix\<rparr>), Some m))))"

definition vulnerability_row :: "db \<Rightarrow> string \<Rightarrow> vulnerability option" where
  "vulnerability_row db key = t_first (\<lambda>v. vul_canonical_key v = key) (tb_vulnerabilities db)"

definition vulnerability_for :: "db \<Rightarrow> string \<Rightarrow> run_index option \<Rightarrow> run_index option \<times> vulnerability option" where
  "vulnerability_for db key index = (case index of
       None \<Rightarrow> (None, vulnerability_row db key)
     | Some ix \<Rightarrow> (case map_of (ix_vulnerabilities ix) key of
         Some i \<Rightarrow> (Some ix, t_get vul_id i (tb_vulnerabilities db))
       | None \<Rightarrow> (case vulnerability_row db key of
           None \<Rightarrow> (Some ix, None)
         | Some v \<Rightarrow> (Some (ix\<lparr>ix_vulnerabilities := (key, vul_id v) # ix_vulnerabilities ix\<rparr>), Some v))))"

definition asset_finding_row :: "db \<Rightarrow> nat \<Rightarrow> nat \<Rightarrow> asset_finding option" where
  "asset_finding_row db asset vuln = t_first (\<lambda>f. af_asset_id f = asset \<and> af_vulnerability_id f = vuln) (tb_asset_findings db)"

text \<open>A cached row may have been deleted since; the answer is its id.\<close>

definition asset_finding_for :: "db \<Rightarrow> nat \<Rightarrow> nat \<Rightarrow> run_index option \<Rightarrow> run_index option \<times> nat option" where
  "asset_finding_for db asset vuln index = (case index of
       None \<Rightarrow> (None, map_option (\<lambda>f. af_id f) (asset_finding_row db asset vuln))
     | Some ix \<Rightarrow> (case map_of (ix_asset_findings ix) (asset, vuln) of
         Some i \<Rightarrow> (Some ix, Some i)
       | None \<Rightarrow> (case asset_finding_row db asset vuln of
           None \<Rightarrow> (Some ix, None)
         | Some f \<Rightarrow> (Some (ix\<lparr>ix_asset_findings := ((asset, vuln), af_id f) # ix_asset_findings ix\<rparr>), Some (af_id f)))))"

definition evaluation_exists :: "db \<Rightarrow> nat \<Rightarrow> scan_job \<Rightarrow> run_index option \<Rightarrow> bool" where
  "evaluation_exists db i job index = (case index of
       Some ix \<Rightarrow> map_of (ix_evaluations ix) (i, job_id (ix_job ix)) \<noteq> None
     | None \<Rightarrow> t_exists (\<lambda>e. afe_asset_finding_id e = i \<and> afe_scan_job_id e = job_id job) (tb_asset_finding_run_evaluations db))"

definition supporting_rows :: "db \<Rightarrow> nat \<Rightarrow> evidence_finding list" where
  "supporting_rows db i = t_select (\<lambda>f. fnd_asset_finding_id f = Some i \<and> fnd_detector_type f \<noteq> [] \<and> fnd_detector_key f \<noteq> []) (tb_findings db)"

definition evidence_rows :: "db \<Rightarrow> nat list \<Rightarrow> evidence_finding list" where
  "evidence_rows db ids = List.map_filter (\<lambda>i. t_get fnd_id i (tb_findings db)) ids"

definition supporting_findings :: "db \<Rightarrow> nat \<Rightarrow> run_index \<Rightarrow> run_index \<times> evidence_finding list" where
  "supporting_findings db i ix = (case map_of (ix_supporting ix) i of
       Some ids \<Rightarrow> (ix, evidence_rows db ids)
     | None \<Rightarrow> (ix\<lparr>ix_supporting := (i, map fnd_id (supporting_rows db i)) # ix_supporting ix\<rparr>, supporting_rows db i))"

definition supporting_detector_keys :: "db \<Rightarrow> nat \<Rightarrow> run_index option \<Rightarrow> run_index option \<times> (string \<times> string) list" where
  "supporting_detector_keys db i index = (case index of
       None \<Rightarrow> (None, dedup (map pair_of (supporting_rows db i)))
     | Some ix \<Rightarrow> (let (ix', rows) = supporting_findings db i ix
         in (Some ix', dedup (map pair_of (filter (\<lambda>f. fnd_detector_type f \<noteq> [] \<and> fnd_detector_key f \<noteq> []) rows)))))"

fun mappings_for :: "db \<Rightarrow> (string \<times> string) list \<Rightarrow> run_index option \<Rightarrow> run_index option \<times> vulnerability_detector_mapping list option" where
  "mappings_for db [] index = (index, Some [])"
| "mappings_for db (pair # pairs) index = (case mapping_for db pair index of
       (index', None) \<Rightarrow> (index', None)
     | (index', Some m) \<Rightarrow> (case mappings_for db pairs index' of
         (index'', rest) \<Rightarrow> (index'', map_option (Cons m) rest)))"

definition supporting_mappings :: "db \<Rightarrow> nat \<Rightarrow> run_index option \<Rightarrow> run_index option \<times> vulnerability_detector_mapping list" where
  "supporting_mappings db i index = (let (index1, keys) = supporting_detector_keys db i index in
     case mappings_for db keys index1 of (index2, None) \<Rightarrow> (index2, []) | (index2, Some ms) \<Rightarrow> (index2, ms))"

definition latest_supporting_evidence :: "db \<Rightarrow> nat \<Rightarrow> string \<Rightarrow> string \<Rightarrow> run_index option \<Rightarrow> run_index option \<times> evidence_finding option" where
  "latest_supporting_evidence db i detector_type detector_key index =
     (let newest = (\<lambda>rows. newest_by (\<lambda>r. (fnd_found_at r, fnd_id r)) (filter (\<lambda>f. pair_of f = (detector_type, detector_key)) rows)) in
      case index of
        None \<Rightarrow> (None, newest (t_select (\<lambda>f. fnd_asset_finding_id f = Some i) (tb_findings db)))
      | Some ix \<Rightarrow> (let (ix', rows) = supporting_findings db i ix in (Some ix', newest rows)))"

subsection \<open>Coherence of the caches\<close>

text \<open>The index answers from what it holds and asks the database for the rest. A cache of row ids is
  coherent when every entry is what the query answers; reading through it then answers like the
  query and keeps it coherent.\<close>

definition coherent :: "('k \<Rightarrow> 'r option) \<Rightarrow> ('r \<Rightarrow> nat) \<Rightarrow> ('k \<times> nat) list \<Rightarrow> bool" where
  "coherent query ident cache \<longleftrightarrow> list_all (\<lambda>(k, i). map_option ident (query k) = Some i) cache"

definition read_through :: "('k \<Rightarrow> 'r option) \<Rightarrow> ('r \<Rightarrow> nat) \<Rightarrow> (nat \<Rightarrow> 'r option) \<Rightarrow> 'k \<Rightarrow> ('k \<times> nat) list \<Rightarrow> ('k \<times> nat) list \<times> 'r option" where
  "read_through query ident fetch k cache = (case map_of cache k of
       Some i \<Rightarrow> (cache, fetch i)
     | None \<Rightarrow> (case query k of None \<Rightarrow> (cache, None) | Some r \<Rightarrow> ((k, ident r) # cache, Some r)))"

locale cached_query =
  fixes wf :: "'d \<Rightarrow> bool"
    and query :: "'d \<Rightarrow> 'k \<Rightarrow> 'r option"
    and ident :: "'r \<Rightarrow> nat"
    and fetch :: "'d \<Rightarrow> nat \<Rightarrow> 'r option"
  assumes fetch_found: "wf d \<Longrightarrow> query d k = Some r \<Longrightarrow> fetch d (ident r) = Some r"
begin

lemma cached_entry: "coherent (query d) ident cache \<Longrightarrow> map_of cache k = Some i \<Longrightarrow> \<exists>r. query d k = Some r \<and> ident r = i"
  by (auto simp: coherent_def list_all_iff dest!: map_of_SomeD)

lemma read_answer: "wf d \<Longrightarrow> coherent (query d) ident cache \<Longrightarrow> snd (read_through (query d) ident (fetch d) k cache) = query d k"
proof (cases "map_of cache k")
  case (Some i)
  moreover assume "wf d" "coherent (query d) ident cache"
  ultimately obtain r where "query d k = Some r" "ident r = i" "fetch d i = Some r"
    using cached_entry fetch_found by blast
  with Some show ?thesis by (simp add: read_through_def)
qed (auto simp: read_through_def split: option.splits)

lemma read_coherent: "coherent (query d) ident cache \<Longrightarrow> coherent (query d) ident (fst (read_through (query d) ident (fetch d) k cache))"
  by (auto simp: read_through_def coherent_def split: option.splits)

end

lemma t_first_get: "t_wf key t \<Longrightarrow> t_first P t = Some r \<Longrightarrow> t_get key (key r) t = Some r"
  by (auto dest: t_first_Some intro: t_wf_get)

interpretation mapping_cache: cached_query "\<lambda>db. t_wf vdm_id (tb_vulnerability_detector_mappings db)" mapping_row vdm_id
    "\<lambda>db i. t_get vdm_id i (tb_vulnerability_detector_mappings db)"
  by unfold_locales (simp add: mapping_row_def t_first_get)

interpretation vulnerability_cache: cached_query "\<lambda>db. t_wf vul_id (tb_vulnerabilities db)" vulnerability_row vul_id
    "\<lambda>db i. t_get vul_id i (tb_vulnerabilities db)"
  by unfold_locales (simp add: vulnerability_row_def t_first_get)

lemma mapping_for_read: "mapping_for db pair (Some ix) = (case read_through (mapping_row db) vdm_id
      (\<lambda>i. t_get vdm_id i (tb_vulnerability_detector_mappings db)) pair (ix_mappings ix) of
    (cache, m) \<Rightarrow> (Some (ix\<lparr>ix_mappings := cache\<rparr>), m))"
  by (auto simp: mapping_for_def read_through_def split: option.splits)

lemma vulnerability_for_read: "vulnerability_for db key (Some ix) = (case read_through (vulnerability_row db) vul_id
      (\<lambda>i. t_get vul_id i (tb_vulnerabilities db)) key (ix_vulnerabilities ix) of
    (cache, v) \<Rightarrow> (Some (ix\<lparr>ix_vulnerabilities := cache\<rparr>), v))"
  by (auto simp: vulnerability_for_def read_through_def split: option.splits)

definition run_coverage :: "db \<Rightarrow> scan_job \<Rightarrow> scan_run_detector_coverage list" where
  "run_coverage db job = t_select (\<lambda>c. cov_scan_job_id c = job_id job) (tb_scan_run_detector_coverage db)"

definition run_evidence :: "db \<Rightarrow> scan_job \<Rightarrow> evidence_finding list" where
  "run_evidence db job = t_select (\<lambda>f. fnd_scan_job_id f = Some (job_id job) \<and> fnd_tenant_id f = job_tenant_id job) (tb_findings db)"

definition run_evaluations :: "db \<Rightarrow> scan_job \<Rightarrow> asset_finding_run_evaluation list" where
  "run_evaluations db job = t_select (\<lambda>e. afe_scan_job_id e = job_id job) (tb_asset_finding_run_evaluations db)"

text \<open>What the index holds is what the database holds.\<close>

definition index_ok :: "db \<Rightarrow> scan_job \<Rightarrow> run_index \<Rightarrow> bool" where
  "index_ok db job ix \<longleftrightarrow> ix_job ix = job \<and> ix_observations ix = run_observations db job \<and> ix_devices ix = run_devices db job \<and>
     ix_coverage ix = run_coverage db job \<and>
     set (map fst (ix_evaluations ix)) = set (map (\<lambda>e. (afe_asset_finding_id e, afe_scan_job_id e)) (run_evaluations db job)) \<and>
     coherent (mapping_row db) vdm_id (ix_mappings ix) \<and>
     list_all (\<lambda>(i, ids). ids = map fnd_id (supporting_rows db i)) (ix_supporting ix)"

definition rows_ok :: "db \<Rightarrow> scan_job \<Rightarrow> bool" where
  "rows_ok db job \<longleftrightarrow> t_wf vdm_id (tb_vulnerability_detector_mappings db) \<and> t_wf fnd_id (tb_findings db) \<and>
     list_all (\<lambda>c. cov_tenant_id c = job_tenant_id job) (run_coverage db job)"

lemma fold_remember_coverage: "fold remember_coverage cs ix = ix\<lparr>ix_coverage := ix_coverage ix @ cs\<rparr>"
  by (induction cs arbitrary: ix) (simp_all add: remember_coverage_def)

lemma fold_remember_mapping: "fold remember_mapping ms ix =
    ix\<lparr>ix_mappings := rev (map (\<lambda>m. ((vdm_detector_type m, vdm_detector_key m), vdm_id m)) ms) @ ix_mappings ix\<rparr>"
  by (induction ms arbitrary: ix) (simp_all add: remember_mapping_def)

lemma fold_remember_evaluation: "fold remember_evaluation es ix =
    ix\<lparr>ix_evaluations := rev (map (\<lambda>e. ((afe_asset_finding_id e, afe_scan_job_id e), afe_id e)) es) @ ix_evaluations ix\<rparr>"
  by (induction es arbitrary: ix) (simp_all add: remember_evaluation_def)

text \<open>Remembering evidence changes the keys, the CVE numbers and the supporting rows only.\<close>

lemma remember_finding_fields:
  "ix_job (remember_finding f ix) = ix_job ix" "ix_observations (remember_finding f ix) = ix_observations ix"
  "ix_devices (remember_finding f ix) = ix_devices ix" "ix_coverage (remember_finding f ix) = ix_coverage ix"
  "ix_evaluations (remember_finding f ix) = ix_evaluations ix" "ix_mappings (remember_finding f ix) = ix_mappings ix"
  "ix_vulnerabilities (remember_finding f ix) = ix_vulnerabilities ix"
  "ix_asset_findings (remember_finding f ix) = ix_asset_findings ix"
  "ix_findings (remember_finding f ix) = (fnd_evidence_key f, fnd_id f) # ix_findings ix"
  "ix_supporting ix = [] \<Longrightarrow> ix_supporting (remember_finding f ix) = []"
  by (auto simp: remember_finding_def Let_def add_cves_def split: option.splits)

lemma fold_remember_finding_fields:
  "ix_job (fold remember_finding fs ix) = ix_job ix" "ix_observations (fold remember_finding fs ix) = ix_observations ix"
  "ix_devices (fold remember_finding fs ix) = ix_devices ix" "ix_coverage (fold remember_finding fs ix) = ix_coverage ix"
  "ix_evaluations (fold remember_finding fs ix) = ix_evaluations ix" "ix_mappings (fold remember_finding fs ix) = ix_mappings ix"
  "ix_vulnerabilities (fold remember_finding fs ix) = ix_vulnerabilities ix"
  "ix_asset_findings (fold remember_finding fs ix) = ix_asset_findings ix"
  "ix_findings (fold remember_finding fs ix) = rev (map (\<lambda>f. (fnd_evidence_key f, fnd_id f)) fs) @ ix_findings ix"
  "ix_supporting ix = [] \<Longrightarrow> ix_supporting (fold remember_finding fs ix) = []"
  by (induction fs arbitrary: ix) (simp_all add: remember_finding_fields)

lemma mapping_row_found: "mapping_row db pair = Some m \<Longrightarrow> (vdm_detector_type m, vdm_detector_key m) = pair"
  unfolding mapping_row_def by (drule t_first_Some) simp

lemma build_index_ok: "index_ok db job (build_index db job pairs)"
proof -
  have "coherent (mapping_row db) vdm_id
      (rev (map (\<lambda>m. ((vdm_detector_type m, vdm_detector_key m), vdm_id m)) (List.map_filter (mapping_row db) pairs)))"
    unfolding coherent_def list_all_iff by (auto simp: map_filter_member mapping_row_found)
  then show ?thesis
    by (simp add: index_ok_def build_index_def Let_def fold_remember_coverage fold_remember_mapping fold_remember_evaluation
        fold_remember_finding_fields empty_index_def run_coverage_def run_evaluations_def o_def image_image)
qed

lemma build_index_fields:
  "ix_findings (build_index db job pairs) = rev (map (\<lambda>f. (fnd_evidence_key f, fnd_id f)) (run_evidence db job))"
  "ix_asset_findings (build_index db job pairs) = []" "ix_supporting (build_index db job pairs) = []"
  by (simp_all add: build_index_def Let_def fold_remember_coverage fold_remember_mapping fold_remember_evaluation
      fold_remember_finding_fields empty_index_def run_evidence_def)

subsection \<open>The index answers like the database\<close>

lemma index_okD:
  assumes "index_ok db job ix"
  shows "ix_job ix = job" "ix_observations ix = run_observations db job" "ix_devices ix = run_devices db job"
    "ix_coverage ix = run_coverage db job" "coherent (mapping_row db) vdm_id (ix_mappings ix)"
    "(i, ids) \<in> set (ix_supporting ix) \<Longrightarrow> ids = map fnd_id (supporting_rows db i)"
    "(i, job_id job) \<in> fst ` set (ix_evaluations ix) \<longleftrightarrow> evaluation_exists db i job None"
proof -
  have "set (map fst (ix_evaluations ix)) = set (map (\<lambda>e. (afe_asset_finding_id e, afe_scan_job_id e)) (run_evaluations db job))"
    using assms unfolding index_ok_def by blast
  then show "(i, job_id job) \<in> fst ` set (ix_evaluations ix) \<longleftrightarrow> evaluation_exists db i job None"
    by (auto simp: evaluation_exists_def run_evaluations_def t_exists_iff t_select_def)
qed (use assms in \<open>auto simp: index_ok_def list_all_iff\<close>)

lemma observed_same: "index_ok db job ix \<Longrightarrow> asset_observed_in_run db job i (Some ix) = asset_observed_in_run db job i None"
  by (auto simp: asset_observed_in_run_def index_okD(2) run_observations_def t_select_def t_exists_iff)

lemma covered_same:
  assumes "index_ok db job ix" "rows_ok db job"
  shows "asset_covered_by_detector db job i k (Some ix) = asset_covered_by_detector db job i k None"
proof -
  have "filter (\<lambda>c. cov_detector_type c = k) (run_coverage db job) = t_select (\<lambda>c. cov_scan_job_id c = job_id job \<and>
      cov_tenant_id c = job_tenant_id job \<and> cov_detector_type c = k) (tb_scan_run_detector_coverage db)"
    using assms(2) unfolding rows_ok_def run_coverage_def t_select_def list_all_iff by (auto intro!: filter_cong)
  moreover have "filter (\<lambda>ob. obs_asset_id ob = i \<and> obs_tenant_id ob = job_tenant_id job) (run_observations db job) =
      filter (\<lambda>ob. obs_asset_id ob = i) (run_observations db job)"
    by (auto simp: run_observations_def t_select_def intro!: filter_cong)
  ultimately show ?thesis by (simp add: asset_covered_by_detector_def index_okD [OF assms(1)])
qed

lemma evaluated_same: "index_ok db job ix \<Longrightarrow> evaluation_exists db i job (Some ix) = evaluation_exists db i job None"
proof -
  assume ok: "index_ok db job ix"
  have "evaluation_exists db i job (Some ix) \<longleftrightarrow> (i, job_id job) \<in> fst ` set (ix_evaluations ix)"
    by (simp add: evaluation_exists_def index_okD(1) [OF ok] map_of_eq_None_iff)
  then show ?thesis using index_okD(7) [OF ok] by simp
qed

lemma mapping_for_same:
  assumes "index_ok db job ix" "rows_ok db job"
  shows "\<exists>ix'. mapping_for db pair (Some ix) = (Some ix', mapping_row db pair) \<and> index_ok db job ix'"
proof -
  let ?read = "read_through (mapping_row db) vdm_id (\<lambda>i. t_get vdm_id i (tb_vulnerability_detector_mappings db)) pair (ix_mappings ix)"
  have "snd ?read = mapping_row db pair" "coherent (mapping_row db) vdm_id (fst ?read)"
    using mapping_cache.read_answer mapping_cache.read_coherent index_okD(5) [OF assms(1)] assms(2) unfolding rows_ok_def by blast+
  moreover have "index_ok db job (ix\<lparr>ix_mappings := fst ?read\<rparr>)"
    using assms(1) calculation(2) by (simp add: index_ok_def)
  ultimately show ?thesis by (simp add: mapping_for_read case_prod_beta)
qed

lemma evidence_rows_id: "t_wf fnd_id (tb_findings db) \<Longrightarrow> set rows \<subseteq> set (t_rows (tb_findings db)) \<Longrightarrow>
    evidence_rows db (map fnd_id rows) = rows"
  by (induction rows) (simp_all add: evidence_rows_def t_wf_get)

lemma supporting_same:
  assumes "index_ok db job ix" "rows_ok db job"
  shows "\<exists>ix'. supporting_findings db i ix = (ix', supporting_rows db i) \<and> index_ok db job ix'"
proof (cases "map_of (ix_supporting ix) i")
  case None
  with assms(1) show ?thesis by (simp add: supporting_findings_def index_ok_def)
next
  case (Some ids)
  have "set (supporting_rows db i) \<subseteq> set (t_rows (tb_findings db))" by (auto simp: supporting_rows_def t_select_def)
  moreover have "ids = map fnd_id (supporting_rows db i)" using index_okD(6) [OF assms(1)] Some map_of_SomeD by fast
  ultimately show ?thesis using assms Some evidence_rows_id by (simp add: supporting_findings_def rows_ok_def)
qed

lemma supporting_rows_named: "r \<in> set (supporting_rows db i) \<Longrightarrow> fnd_detector_type r \<noteq> [] \<and> fnd_detector_key r \<noteq> []"
  by (auto simp: supporting_rows_def t_select_def)

lemma keys_same:
  assumes "index_ok db job ix" "rows_ok db job"
  shows "\<exists>ix'. supporting_detector_keys db i (Some ix) = (Some ix', snd (supporting_detector_keys db i None)) \<and> index_ok db job ix'"
proof -
  have "filter (\<lambda>f. fnd_detector_type f \<noteq> [] \<and> fnd_detector_key f \<noteq> []) (supporting_rows db i) = supporting_rows db i"
    by (simp add: filter_id_conv supporting_rows_named)
  with supporting_same [OF assms, of i] show ?thesis by (auto simp: supporting_detector_keys_def)
qed

lemma mappings_same:
  assumes "rows_ok db job"
  shows "index_ok db job ix \<Longrightarrow> \<exists>ix'. mappings_for db pairs (Some ix) = (Some ix', snd (mappings_for db pairs None)) \<and> index_ok db job ix'"
proof (induction pairs arbitrary: ix)
  case (Cons pair pairs)
  obtain ix1 where ix1: "mapping_for db pair (Some ix) = (Some ix1, mapping_row db pair)" "index_ok db job ix1"
    using mapping_for_same [OF Cons.prems assms] by blast
  obtain ix2 where "mappings_for db pairs (Some ix1) = (Some ix2, snd (mappings_for db pairs None))" "index_ok db job ix2"
    using Cons.IH [OF ix1(2)] by blast
  with ix1 show ?case by (auto simp: mapping_for_def [of db pair None] split: option.splits prod.splits)
qed simp

lemma supporting_mappings_same:
  assumes "index_ok db job ix" "rows_ok db job"
  shows "\<exists>ix'. supporting_mappings db i (Some ix) = (Some ix', snd (supporting_mappings db i None)) \<and> index_ok db job ix'"
proof -
  obtain ix1 where ix1: "supporting_detector_keys db i (Some ix) = (Some ix1, snd (supporting_detector_keys db i None))" "index_ok db job ix1"
    using keys_same [OF assms] by blast
  obtain ix2 where "mappings_for db (snd (supporting_detector_keys db i None)) (Some ix1) =
      (Some ix2, snd (mappings_for db (snd (supporting_detector_keys db i None)) None))" "index_ok db job ix2"
    using mappings_same [OF assms(2) ix1(2)] by blast
  with ix1 show ?thesis
    by (auto simp: supporting_mappings_def supporting_detector_keys_def [of db i None] split: option.splits prod.splits)
qed

lemma mappings_for_pairs: "snd (mappings_for db pairs None) = Some ms \<Longrightarrow> m \<in> set ms \<Longrightarrow> (vdm_detector_type m, vdm_detector_key m) \<in> set pairs"
  by (induction pairs arbitrary: ms) (auto simp: mapping_for_def dest: mapping_row_found split: option.splits prod.splits)

lemma supporting_mappings_named:
  assumes "m \<in> set (snd (supporting_mappings db i None))"
  shows "vdm_detector_type m \<noteq> [] \<and> vdm_detector_key m \<noteq> []"
proof -
  let ?keys = "dedup (map pair_of (supporting_rows db i))"
  obtain ms where "snd (mappings_for db ?keys None) = Some ms" "m \<in> set ms"
    using assms by (auto simp: supporting_mappings_def supporting_detector_keys_def split: option.splits prod.splits)
  from mappings_for_pairs [OF this] have "(vdm_detector_type m, vdm_detector_key m) \<in> set (map pair_of (supporting_rows db i))"
    by simp
  then show ?thesis by (auto simp: pair_of_def dest!: supporting_rows_named)
qed

lemma latest_same:
  assumes "index_ok db job ix" "rows_ok db job" "k \<noteq> []" "key \<noteq> []"
  shows "\<exists>ix'. latest_supporting_evidence db i k key (Some ix) = (Some ix', snd (latest_supporting_evidence db i k key None)) \<and> index_ok db job ix'"
proof -
  have "filter (\<lambda>f. pair_of f = (k, key)) (supporting_rows db i) =
      filter (\<lambda>f. pair_of f = (k, key)) (t_select (\<lambda>f. fnd_asset_finding_id f = Some i) (tb_findings db))"
    using assms(3,4) by (auto simp: supporting_rows_def t_select_def pair_of_def intro!: filter_cong)
  with supporting_same [OF assms(1,2), of i] show ?thesis by (auto simp: latest_supporting_evidence_def)
qed

end
