(* ===== verification/Finding_State.thy ===== *)
theory Finding_State
  imports Treatments
begin

section \<open>The life of a finding\<close>

text \<open>
  What the lifecycle of findings relies on: the fields of a finding that say whether and when it was
  seen and resolved (\<open>life\<close>), that treatments, priorities, events and audit records leave them alone
  (\<open>keeps\<close>), and the invariant of the tables of findings and evidence (\<open>findings_ok\<close>).
\<close>

definition life :: "asset_finding \<Rightarrow> asset_finding" where
  \<comment> \<open>everything but the treatment, the priority and the time of the last write\<close>
  "life f = f\<lparr>af_treatment_state := [], af_priority := None, af_priority_score := None, af_priority_model_version := None,
     af_priority_explanation := None, af_priority_calculated_at := None, af_updated_at := 0\<rparr>"

lemma life_fields [simp]: "af_id (life f) = af_id f" "af_tenant_id (life f) = af_tenant_id f" "af_asset_id (life f) = af_asset_id f"
  "af_vulnerability_id (life f) = af_vulnerability_id f" "af_technical_state (life f) = af_technical_state f"
  "af_resolved_at (life f) = af_resolved_at f" "af_consecutive_clean_scans (life f) = af_consecutive_clean_scans f"
  "af_reopened_count (life f) = af_reopened_count f" "af_first_seen (life f) = af_first_seen f" "af_last_seen (life f) = af_last_seen f"
  by (simp_all add: life_def)

definition lives :: "db \<Rightarrow> nat \<times> asset_finding list" where
  "lives db = (t_next (tb_asset_findings db), map life (t_rows (tb_asset_findings db)))"

definition side_tables :: "db \<Rightarrow> db \<Rightarrow> db" where
  \<comment> \<open>\<open>db\<close> with the findings, treatments, controls, references, audit log and events of \<open>db'\<close>\<close>
  "side_tables db db' = db\<lparr>tb_asset_findings := tb_asset_findings db', tb_finding_treatments := tb_finding_treatments db',
     tb_compensating_controls := tb_compensating_controls db',
     tb_compliance_control_references := tb_compliance_control_references db', tb_audit_logs := tb_audit_logs db',
     tb_domain_events := tb_domain_events db', tb_event_alert_queue := tb_event_alert_queue db'\<rparr>"

definition keeps :: "db \<Rightarrow> db \<Rightarrow> bool" where
  "keeps db db' \<longleftrightarrow> db' = side_tables db db' \<and> lives db' = lives db"

lemma keeps_refl [simp]: "keeps db db"
  by (simp add: keeps_def side_tables_def)

lemma keeps_trans: "keeps a b \<Longrightarrow> keeps b c \<Longrightarrow> keeps a c"
proof -
  assume ab: "keeps a b" and bc: "keeps b c"
  have "side_tables (side_tables a b) c = side_tables a c" by (simp add: side_tables_def)
  with ab bc show ?thesis unfolding keeps_def by metis
qed

text \<open>Steps that change only fields outside of \<open>life\<close>.\<close>

lemma set_finding_keeps: "(\<And>f. life (change f) = life f) \<Longrightarrow> keeps db (set_finding i change db)"
  by (simp add: keeps_def side_tables_def set_finding_def lives_def o_def if_distrib cong: if_cong)

lemma prioritise_life: "life (prioritise now res f) = life f"
  by (simp add: life_def prioritise_def)

lemma recalculate_keeps: "keeps db (fst (recalculate_asset_finding_priorities now rows db))"
proof -
  have step: "keeps d (d\<lparr>tb_asset_findings := t_modify (\<lambda>r. af_id r = i) (prioritise now res) (tb_asset_findings d)\<rparr>)" for d i res
    using set_finding_keeps [of "prioritise now res" d i] by (simp add: prioritise_life set_finding_def)
  have "keeps db (fold (\<lambda>f db'. db'\<lparr>tb_asset_findings := t_modify (\<lambda>r. af_id r = af_id f)
      (prioritise now (g f)) (tb_asset_findings db')\<rparr>) rows db)" for g
    by (rule fold_invariant_rule) (auto intro: keeps_trans step)
  then show ?thesis by (simp add: recalculate_asset_finding_priorities_def)
qed

lemma recalculate_priority_keeps: "keeps db (recalculate_priority now i db)"
  by (auto simp: recalculate_priority_def recalculate_keeps split: option.splits)

lemma audit_keeps: "keeps db (fst (record_audit now a db))"
  by (simp add: record_audit_fst keeps_def side_tables_def lives_def)

lemma emit_keeps: "emit_domain_event now e db = Inr (db', ev, c) \<Longrightarrow> keeps db db'"
  by (auto dest!: emit_frame simp: keeps_def side_tables_def lives_def)

lemma set_treatments_keeps: "keeps db (db\<lparr>tb_finding_treatments := T\<rparr>)"
  by (simp add: keeps_def side_tables_def lives_def)

lemma project_keeps: "keeps db (project_state now active i db)"
proof -
  let ?set = "set_finding i (\<lambda>f. f\<lparr>af_treatment_state := (case active of None \<Rightarrow> TREATMENT_UNADDRESSED | Some t \<Rightarrow> ft_treatment_type t),
     af_updated_at := now\<rparr>) db"
  have "keeps db ?set" by (rule set_finding_keeps) (simp add: life_def)
  then show ?thesis unfolding project_state_def by (rule keeps_trans) (rule recalculate_priority_keeps)
qed

lemma announce_expired_keeps: "announce_expired now i t db = Inr db' \<Longrightarrow> keeps db db'"
  by (auto simp: announce_expired_def rbind_Inr_iff emit_treatment_expired_def Let_def
      split: option.splits intro: keeps_trans [OF audit_keeps] dest!: emit_keeps)

lemma expire_keeps:
  assumes "expire_elapsed_treatments_for_finding now i db = Inr (db', n)"
  shows "keeps db db'"
proof (cases "elapsed_rows now i db = []")
  case True
  with assms show ?thesis by (simp add: expire_elapsed_treatments_for_finding_def)
next
  case False
  let ?db2 = "project_state now (unelapsed_active now i (mark_expired now i db)) i (mark_expired now i db)"
  have "keeps db ?db2" unfolding mark_expired_def by (rule keeps_trans [OF set_treatments_keeps project_keeps])
  moreover have "keeps ?db2 db'"
  proof -
    have "rfold (announce_expired now i) (map (expire_row now) (elapsed_rows now i db)) ?db2 = Inr db'"
      using False assms by (auto simp: expire_elapsed_treatments_for_finding_def Let_def rbind_Inr_iff)
    then show ?thesis
      by (rule rfold_invariant [where P = "keeps ?db2"]) (auto intro: keeps_trans announce_expired_keeps)
  qed
  ultimately show ?thesis by (rule keeps_trans)
qed

lemma current_keeps: "current_active_treatment now i db = Inr (db', r) \<Longrightarrow> keeps db db'"
  by (auto simp: current_active_treatment_def rbind_Inr_iff expire_keeps split: option.splits if_splits)

lemma reconcile_keeps: "reconcile_treatment_projection now i db = Inr db' \<Longrightarrow> keeps db db'"
  by (auto simp: reconcile_treatment_projection_def rbind_Inr_iff intro: keeps_trans current_keeps project_keeps)

lemma reassign_keeps: "keeps db (reassign_asset_finding_control_references now keeper donor db)"
proof -
  have "keeps db (fst (fold (reassign_one now keeper donor) refs (db, keys)))" for refs keys
  proof (induction refs arbitrary: db keys)
    case (Cons r refs)
    have "keeps db (fst (reassign_one now keeper donor r (db, keys)))"
      by (cases "ccr_control_id r \<in> set keys")
         (simp_all add: reassign_one_def record_audit_fst set_reference_def keeps_def side_tables_def lives_def)
    with Cons keeps_trans show ?case by (cases "reassign_one now keeper donor r (db, keys)") force
  qed simp
  then show ?thesis by (simp add: reassign_asset_finding_control_references_def)
qed

lemma collide_keeps: "keeps db (collide now k d t db)"
  unfolding collide_def set_treatment_def by (rule keeps_trans [OF set_treatments_keeps audit_keeps])

lemma merge_treatments_keeps:
  assumes run: "merge_finding_treatments now keeper donor db = Inr db'"
  shows "keeps db db'"
proof -
  let ?k = "af_id keeper" let ?d = "af_id donor"
  obtain db1 n1 db2 n2 db3 ka db4 da db5 db7 db8 active where
    e1: "expire_elapsed_treatments_for_finding now ?k db = Inr (db1, n1)" and
    e2: "expire_elapsed_treatments_for_finding now ?d db1 = Inr (db2, n2)" and
    c1: "current_active_treatment now ?k db2 = Inr (db3, ka)" and c2: "current_active_treatment now ?d db3 = Inr (db4, da)" and
    db5: "db5 = (case (ka, da) of (Some a, Some b) \<Rightarrow> collide now ?k ?d b (collide now ?k ?d a db4) | _ \<Rightarrow> db4)" and
    db7: "db7 = reassign_asset_finding_control_references now keeper donor (move_treatments ?d ?k (af_tenant_id keeper) db5)" and
    c3: "current_active_treatment now ?k db7 = Inr (db8, active)" and
    fin: "(if active = None \<and> map_option af_treatment_state (get_finding ?k db8) \<noteq> map_option af_treatment_state (get_finding ?d db8)
      then Inr (recalculate_priority now ?k (set_finding ?k (\<lambda>f. f\<lparr>af_treatment_state := TREATMENT_UNADDRESSED, af_updated_at := now\<rparr>) db8))
      else reconcile_treatment_projection now ?k db8) = Inr db'"
    using run unfolding merge_finding_treatments_def Let_def rbind_Inr_iff split_paired_Ex case_prod_conv by blast
  have "keeps db db4"
    by (rule keeps_trans [OF expire_keeps [OF e1] keeps_trans [OF expire_keeps [OF e2] keeps_trans [OF current_keeps [OF c1] current_keeps [OF c2]]]])
  moreover have "keeps db4 db5"
    unfolding db5 by (cases ka; cases da) (auto intro: keeps_trans collide_keeps)
  moreover have "keeps db5 db7"
    unfolding db7 move_treatments_def by (rule keeps_trans [OF set_treatments_keeps reassign_keeps])
  moreover have "keeps db8 (recalculate_priority now ?k (set_finding ?k (\<lambda>f. f\<lparr>af_treatment_state := TREATMENT_UNADDRESSED, af_updated_at := now\<rparr>) db8))"
    by (rule keeps_trans [OF set_finding_keeps recalculate_priority_keeps]) (simp add: life_def)
  with fin reconcile_keeps [of now ?k db8 db'] have "keeps db8 db'" by (simp split: if_splits)
  ultimately show ?thesis using current_keeps [OF c3] by (blast intro: keeps_trans)
qed

text \<open>Every request on treatments and compensating controls, and the sweep.\<close>

lemma set_treatment_keeps: "keeps db (set_treatment i f db)"
  unfolding set_treatment_def by (rule set_treatments_keeps)

lemma set_controls_keeps: "keeps db (db\<lparr>tb_compensating_controls := C\<rparr>)"
  by (simp add: keeps_def side_tables_def lives_def)

lemma lock_keeps: "lock_finding now tenant i db = Inr db' \<Longrightarrow> keeps db db'"
  by (auto simp: lock_finding_def rbind_Inr_iff expire_keeps split: if_splits)

lemma flush_keeps: "flush_treatments i pending db = Inr db' \<Longrightarrow> keeps db db'"
  unfolding flush_treatments_def
  by (erule rfold_invariant [where P = "keeps db"])
     (auto simp: update_statement_def Let_def split: if_splits intro: keeps_trans set_treatment_keeps)

lemma supersede_keeps:
  assumes "supersede_current now i t actor db = Inr (db', pending)"
  shows "keeps db db'"
proof -
  obtain db1 current where c: "current_active_treatment now i db = Inr (db1, current)"
    using assms by (auto simp: supersede_current_def rbind_Inr_iff)
  have "db' = db1 \<or> (\<exists>a. db' = fst (record_audit now a db1))"
    using assms by (cases current) (auto simp: supersede_current_def c Let_def split: if_splits)
  then have "keeps db1 db'" using audit_keeps by auto
  with current_keeps [OF c] show ?thesis by (rule keeps_trans)
qed

lemma activate_keeps:
  assumes "activate now i t actor db = Inr db'"
  shows "keeps db db'"
proof -
  obtain db1 pending db2 where s: "supersede_current now i t actor db = Inr (db1, pending)"
    and f: "flush_treatments i (pending @ [(ft_id t, activate_row now)]) db1 = Inr db2"
    and db': "db' = recalculate_priority now i (set_finding i (\<lambda>f. f\<lparr>af_treatment_state := ft_treatment_type t, af_updated_at := now\<rparr>) db2)"
    using assms by (auto simp: activate_def rbind_Inr_iff)
  have "keeps db2 (set_finding i (\<lambda>f. f\<lparr>af_treatment_state := ft_treatment_type t, af_updated_at := now\<rparr>) db2)"
    by (rule set_finding_keeps) (simp add: life_def)
  from keeps_trans [OF this recalculate_priority_keeps] have "keeps db2 db'" unfolding db' .
  with supersede_keeps [OF s] flush_keeps [OF f] show ?thesis by (blast intro: keeps_trans)
qed

lemma announce_created_keeps: "announce_created now actor i n db = Inr db' \<Longrightarrow> keeps db db'"
  by (auto simp: announce_created_def rbind_Inr_iff emit_treatment_created_def Let_def
      split: option.splits intro: keeps_trans [OF audit_keeps] dest!: emit_keeps)

lemma create_treatment_keeps:
  assumes "create_treatment now actor tenant i t db = Inr db'"
  shows "keeps db db'"
proof -
  obtain db1 db3 where l: "lock_finding now tenant i db = Inr db1"
    and a: "(if strip (ti_type t) = TREATMENT_RECORD_MITIGATED
        then activate now i (new_treatment now actor tenant i t (t_next (treatments db1))) (Some actor)
          (db1\<lparr>tb_finding_treatments := t_insert (new_treatment now actor tenant i t) (treatments db1)\<rparr>)
        else Inr (db1\<lparr>tb_finding_treatments := t_insert (new_treatment now actor tenant i t) (treatments db1)\<rparr>)) = Inr db3"
    and c: "announce_created now actor i (t_next (treatments db1)) db3 = Inr db'"
    using assms unfolding create_treatment_def Let_def rbind_Inr_iff by blast
  have "keeps db1 db3"
    using a keeps_trans [OF set_treatments_keeps activate_keeps] set_treatments_keeps [of db1] by (auto split: if_splits)
  with lock_keeps [OF l] announce_created_keeps [OF c] show ?thesis by (blast intro: keeps_trans)
qed

lemma approve_treatment_keeps: "approve_treatment now actor tenant i tid notes db = Inr db' \<Longrightarrow> keeps db db'"
  by (auto simp: approve_treatment_def rbind_Inr_iff Let_def split: if_splits
      intro!: keeps_trans [OF _ audit_keeps] dest!: lock_keeps activate_keeps)
     (blast intro: keeps_trans set_treatment_keeps)

lemma review_treatment_keeps: "review_treatment now actor tenant i tid notes due db = Inr db' \<Longrightarrow> keeps db db'"
  by (auto simp: review_treatment_def rbind_Inr_iff Let_def split: if_splits
      intro!: keeps_trans [OF _ audit_keeps] keeps_trans [OF _ set_treatment_keeps] dest!: lock_keeps)

lemma revoke_treatment_keeps: "revoke_treatment now actor tenant i tid reason db = Inr db' \<Longrightarrow> keeps db db'"
  by (auto simp: revoke_treatment_def rbind_Inr_iff Let_def split: if_splits
      intro!: keeps_trans [OF _ audit_keeps] dest!: lock_keeps reconcile_keeps)
     (blast intro: keeps_trans set_treatment_keeps)+

lemma load_compensating_keeps: "load_compensating tenant i tid cid now db = Inr (db', c) \<Longrightarrow> keeps db db'"
  by (auto simp: load_compensating_def rbind_Inr_iff lock_keeps split: option.splits)

lemma compensating_keeps:
  "create_compensating_control now actor tenant i tid name descr ev db = Inr db' \<Longrightarrow> keeps db db'"
  "update_compensating_control now actor tenant i tid cid name' descr' ev' db = Inr db' \<Longrightarrow> keeps db db'"
  "retire_compensating_control now actor tenant i tid cid reason db = Inr db' \<Longrightarrow> keeps db db'"
  by (auto simp: create_compensating_control_def update_compensating_control_def retire_compensating_control_def
      set_compensating_def rbind_Inr_iff Let_def split: if_splits
      intro!: keeps_trans [OF _ audit_keeps] keeps_trans [OF _ set_controls_keeps] dest!: lock_keeps load_compensating_keeps)

lemma sweep_keeps:
  assumes "expire_due_treatments now db = Inr (db', n)"
  shows "keeps db db'"
proof -
  have "keeps db (fst (db', n))" using assms unfolding expire_due_treatments_def Let_def
    by (rule rfold_invariant [where P = "\<lambda>s. keeps db (fst s)"])
       (auto simp: rbind_Inr_iff split: if_splits prod.splits dest!: expire_keeps intro: keeps_trans)
  then show ?thesis by simp
qed

lemma treatment_request_keeps: "run_treatment now req db = Inr db' \<Longrightarrow> keeps db db'"
  by (cases req) (auto simp: rbind_Inr_iff create_treatment_keeps approve_treatment_keeps review_treatment_keeps
      revoke_treatment_keeps compensating_keeps sweep_keeps)

subsection \<open>The invariant of findings and evidence\<close>

definition life_ok :: "asset_finding \<Rightarrow> bool" where
  \<comment> \<open>open without, or resolved with a time of resolution\<close>
  "life_ok f \<longleftrightarrow> (if af_technical_state f = TECHNICAL_OPEN then af_resolved_at f = None
       else af_technical_state f = TECHNICAL_RESOLVED \<and> af_resolved_at f \<noteq> None) \<and>
     0 \<le> af_consecutive_clean_scans f \<and> 0 \<le> af_reopened_count f"

definition subject_of :: "asset_finding \<Rightarrow> nat \<times> nat" where
  "subject_of f = (af_asset_id f, af_vulnerability_id f)"

definition owned :: "asset tbl \<Rightarrow> asset_finding \<Rightarrow> bool" where
  "owned assets f \<longleftrightarrow> list_ex (\<lambda>a. asset_id a = af_asset_id f \<and> asset_tenant_id a = af_tenant_id f) (t_rows assets)"

definition finding_rows_ok :: "asset tbl \<Rightarrow> asset_finding tbl \<Rightarrow> bool" where
  "finding_rows_ok assets t \<longleftrightarrow> t_wf af_id t \<and> distinct (map subject_of (t_rows t)) \<and>
     list_all life_ok (t_rows t) \<and> list_all (owned assets) (t_rows t)"

definition reference_ok :: "(nat \<times> nat) list \<Rightarrow> evidence_finding \<Rightarrow> bool" where
  \<comment> \<open>the finding that the evidence supports exists and is of its tenant\<close>
  "reference_ok ids e \<longleftrightarrow> (case fnd_asset_finding_id e of None \<Rightarrow> True | Some i \<Rightarrow> (i, fnd_tenant_id e) \<in> set ids)"

definition run_ok :: "scan_job tbl \<Rightarrow> evidence_finding \<Rightarrow> bool" where
  "run_ok jobs e \<longleftrightarrow> (case fnd_scan_job_id e of None \<Rightarrow> True
     | Some j \<Rightarrow> list_ex (\<lambda>job. job_id job = j \<and> job_tenant_id job = fnd_tenant_id e) (t_rows jobs))"

definition stamped :: "evidence_finding \<Rightarrow> bool" where
  "stamped e \<longleftrightarrow> fnd_scan_job_id e \<noteq> None \<and> fnd_evidence_key e \<noteq> None"

definition evidence_rows_ok :: "scan_job tbl \<Rightarrow> (nat \<times> nat) list \<Rightarrow> evidence_finding tbl \<Rightarrow> bool" where
  "evidence_rows_ok jobs ids t \<longleftrightarrow> t_wf fnd_id t \<and> list_all (reference_ok ids) (t_rows t) \<and> list_all (run_ok jobs) (t_rows t) \<and>
     distinct (map (\<lambda>e. (fnd_scan_job_id e, fnd_evidence_key e)) (filter stamped (t_rows t)))"

definition finding_ids :: "asset_finding tbl \<Rightarrow> (nat \<times> nat) list" where
  "finding_ids t = map (\<lambda>f. (af_id f, af_tenant_id f)) (t_rows t)"

definition findings_ok :: "db \<Rightarrow> bool" where
  "findings_ok db \<longleftrightarrow> t_wf asset_id (tb_assets db) \<and> t_wf job_id (tb_scan_jobs db) \<and> finding_rows_ok (tb_assets db) (tb_asset_findings db) \<and>
     evidence_rows_ok (tb_scan_jobs db) (finding_ids (tb_asset_findings db)) (tb_findings db)"

text \<open>The invariant is about \<open>life\<close> only.\<close>

definition life_table :: "asset_finding tbl \<Rightarrow> asset_finding tbl" where
  "life_table t = \<lparr>t_next = t_next t, t_rows = map life (t_rows t)\<rparr>"

lemma life_predicates [simp]: "subject_of (life f) = subject_of f" "life_ok (life f) = life_ok f" "owned assets (life f) = owned assets f"
  by (simp_all add: subject_of_def life_ok_def owned_def)

lemma life_table_ok: "finding_rows_ok assets (life_table t) = finding_rows_ok assets t" "finding_ids (life_table t) = finding_ids t"
  by (simp_all add: finding_rows_ok_def life_table_def finding_ids_def t_wf_def list.pred_map o_def)

lemma keepsD:
  assumes "keeps db db'"
  shows "life_table (tb_asset_findings db') = life_table (tb_asset_findings db)" "tb_findings db' = tb_findings db"
    "tb_assets db' = tb_assets db" "tb_scan_jobs db' = tb_scan_jobs db" "tb_vulnerabilities db' = tb_vulnerabilities db"
    "tb_vulnerability_detector_mappings db' = tb_vulnerability_detector_mappings db"
    "tb_asset_finding_history db' = tb_asset_finding_history db"
    "tb_asset_finding_run_evaluations db' = tb_asset_finding_run_evaluations db"
    "tb_asset_observations db' = tb_asset_observations db" "tb_devices db' = tb_devices db"
    "tb_scan_run_detector_coverage db' = tb_scan_run_detector_coverage db" "tb_policy_rules db' = tb_policy_rules db"
    "tb_settings db' = tb_settings db" "tb_agents db' = tb_agents db"
proof -
  have "db' = side_tables db db'" "lives db' = lives db" using assms by (auto simp: keeps_def)
  then show "life_table (tb_asset_findings db') = life_table (tb_asset_findings db)"
    by (simp add: lives_def life_table_def)
  note eq = \<open>db' = side_tables db db'\<close>
  show "tb_findings db' = tb_findings db" "tb_assets db' = tb_assets db" "tb_scan_jobs db' = tb_scan_jobs db"
    "tb_vulnerabilities db' = tb_vulnerabilities db"
    "tb_vulnerability_detector_mappings db' = tb_vulnerability_detector_mappings db"
    "tb_asset_finding_history db' = tb_asset_finding_history db"
    "tb_asset_finding_run_evaluations db' = tb_asset_finding_run_evaluations db"
    "tb_asset_observations db' = tb_asset_observations db" "tb_devices db' = tb_devices db"
    "tb_scan_run_detector_coverage db' = tb_scan_run_detector_coverage db" "tb_policy_rules db' = tb_policy_rules db"
    "tb_settings db' = tb_settings db" "tb_agents db' = tb_agents db"
    by (subst eq, simp add: side_tables_def)+
qed

lemma keeps_ok: "keeps db db' \<Longrightarrow> findings_ok db' = findings_ok db"
  using keepsD [of db db'] life_table_ok unfolding findings_ok_def by metis

lemma keeps_ids: "keeps db db' \<Longrightarrow> finding_ids (tb_asset_findings db') = finding_ids (tb_asset_findings db)"
  using keepsD(1) life_table_ok(2) by metis

lemma keeps_get: "keeps db db' \<Longrightarrow> map_option life (get_finding i db') = map_option life (get_finding i db)"
proof -
  assume k: "keeps db db'"
  have "map_option life (get_finding i d) = t_get af_id i (life_table (tb_asset_findings d))" for d
  proof -
    have "map_option life (first_match (\<lambda>r. af_id r = i) xs) = first_match (\<lambda>r. af_id r = i) (map life xs)" for xs
      by (induction xs) auto
    then show ?thesis by (simp add: get_finding_def t_get_def t_first_def life_table_def)
  qed
  with keepsD(1) [OF k] show ?thesis by simp
qed

subsection \<open>Steps on the rows\<close>

lemma finding_ids_modify: "(\<And>f. af_id (change f) = af_id f \<and> af_tenant_id (change f) = af_tenant_id f) \<Longrightarrow>
    finding_ids (t_modify P change t) = finding_ids t"
  by (simp add: finding_ids_def o_def)

lemma modify_rows_ok:
  assumes "finding_rows_ok assets t" "\<And>f. af_id (change f) = af_id f"
    and row: "\<And>f. f \<in> set (t_rows t) \<Longrightarrow> af_id f = i \<Longrightarrow> life_ok (change f) \<and> owned assets (change f) \<and>
      (\<forall>g \<in> set (t_rows t). af_id g \<noteq> i \<longrightarrow> subject_of g \<noteq> subject_of (change f))"
  shows "finding_rows_ok assets (t_modify (\<lambda>f. af_id f = i) change t)"
proof -
  have wf: "t_wf af_id t" and ok: "list_all life_ok (t_rows t)" "list_all (owned assets) (t_rows t)"
    and dist: "distinct (map subject_of (t_rows t))" using assms(1) by (simp_all add: finding_rows_ok_def)
  have "t_wf af_id (t_modify (\<lambda>f. af_id f = i) change t)"
  proof -
    have "af_id (if af_id f = i then change f else f) = af_id f" for f using assms(2) by simp
    then show ?thesis using wf by (simp add: t_wf_def list.pred_map o_def del: if_split)
  qed
  moreover have "distinct (map subject_of (t_rows (t_modify (\<lambda>f. af_id f = i) change t)))"
  proof -
    have "inj_on (\<lambda>f. subject_of (if af_id f = i then change f else f)) (set (t_rows t))"
    proof (rule inj_onI)
      fix f g assume fg: "f \<in> set (t_rows t)" "g \<in> set (t_rows t)"
        and eq: "subject_of (if af_id f = i then change f else f) = subject_of (if af_id g = i then change g else g)"
      have same: "af_id f = af_id g \<Longrightarrow> f = g" using t_wf_eq [OF wf fg] .
      show "f = g"
        using eq fg row [OF fg(1)] row [OF fg(2)] same dist
        by (cases "af_id f = i"; cases "af_id g = i") (auto simp: distinct_map inj_on_def)
    qed
    then show ?thesis using wf by (simp add: distinct_map t_wf_def o_def)
  qed
  ultimately show ?thesis using ok row by (auto simp: finding_rows_ok_def list_all_iff)
qed

lemma insert_rows_ok:
  assumes "finding_rows_ok assets t" "\<And>n. af_id (mk n) = n" "life_ok (mk (t_next t))" "owned assets (mk (t_next t))"
    and "\<And>g. g \<in> set (t_rows t) \<Longrightarrow> subject_of g \<noteq> subject_of (mk (t_next t))"
  shows "finding_rows_ok assets (t_insert mk t)"
proof -
  have "t_wf af_id (t_insert mk t)" using assms(1,2) by (simp add: finding_rows_ok_def t_wf_insert)
  with assms show ?thesis by (force simp: finding_rows_ok_def)
qed

lemma delete_rows_ok: "finding_rows_ok assets t \<Longrightarrow> finding_rows_ok assets (t_delete P t)"
  by (auto simp: finding_rows_ok_def t_wf_delete distinct_map_filter list_all_iff)

lemma evidence_modify_ok:
  assumes "evidence_rows_ok jobs ids t"
    and "\<And>e. e \<in> set (t_rows t) \<Longrightarrow> P e \<Longrightarrow> fnd_id (change e) = fnd_id e \<and> fnd_scan_job_id (change e) = fnd_scan_job_id e \<and>
      fnd_evidence_key (change e) = fnd_evidence_key e \<and> fnd_tenant_id (change e) = fnd_tenant_id e"
    and "\<And>e. e \<in> set (t_rows t) \<Longrightarrow> reference_ok ids' (if P e then change e else e)"
  shows "evidence_rows_ok jobs ids' (t_modify P change t)"
proof -
  let ?m = "\<lambda>e. if P e then change e else e"
  have same: "fnd_id (?m e) = fnd_id e" "stamped (?m e) = stamped e" "run_ok jobs (?m e) = run_ok jobs e"
    "(fnd_scan_job_id (?m e), fnd_evidence_key (?m e)) = (fnd_scan_job_id e, fnd_evidence_key e)" if "e \<in> set (t_rows t)" for e
    using assms(2) [OF that] by (auto simp: stamped_def run_ok_def cong: option.case_cong)
  have ids: "map fnd_id (map ?m (t_rows t)) = map fnd_id (t_rows t)" using same(1) by simp
  moreover have "map (\<lambda>e. (fnd_scan_job_id e, fnd_evidence_key e)) (filter stamped (map ?m (t_rows t))) =
      map (\<lambda>e. (fnd_scan_job_id e, fnd_evidence_key e)) (filter stamped (t_rows t))"
  proof -
    have "filter (stamped \<circ> ?m) (t_rows t) = filter stamped (t_rows t)" using same(2) by (auto intro: filter_cong)
    then show ?thesis using same(4) by (simp add: filter_map)
  qed
  moreover have "list_all (run_ok jobs) (map ?m (t_rows t))" "list_all (\<lambda>e. fnd_id e < t_next t) (map ?m (t_rows t))"
    using assms(1) same(1,3) by (simp_all add: evidence_rows_ok_def t_wf_def list_all_iff del: if_split if_image_distrib)
  moreover have "list_all (reference_ok ids') (map ?m (t_rows t))"
    using assms(3) by (simp add: list_all_iff del: if_split if_image_distrib)
  ultimately show ?thesis using assms(1) unfolding evidence_rows_ok_def t_wf_def t_rows_modify t_next_modify by metis
qed

lemma reference_mono: "reference_ok ids e \<Longrightarrow> set ids \<subseteq> set ids' \<Longrightarrow> reference_ok ids' e"
  by (auto simp: reference_ok_def split: option.splits)

lemma evidence_mono: "evidence_rows_ok jobs ids t \<Longrightarrow> set ids \<subseteq> set ids' \<Longrightarrow> evidence_rows_ok jobs ids' t"
  by (auto simp: evidence_rows_ok_def list_all_iff intro: reference_mono)

lemma evidence_insert_ok:
  assumes "evidence_rows_ok jobs ids t" "\<And>n. fnd_id (mk n) = n" "reference_ok ids (mk (t_next t))" "run_ok jobs (mk (t_next t))"
    and "\<And>e. e \<in> set (t_rows t) \<Longrightarrow> fnd_scan_job_id e = fnd_scan_job_id (mk (t_next t)) \<Longrightarrow> fnd_evidence_key e \<noteq> fnd_evidence_key (mk (t_next t))"
  shows "evidence_rows_ok jobs ids (t_insert mk t)"
proof -
  have "t_wf fnd_id (t_insert mk t)" using assms(1,2) by (simp add: evidence_rows_ok_def t_wf_insert)
  with assms show ?thesis by (fastforce simp: evidence_rows_ok_def)
qed

end
