(* ===== verification/Finding_Catalog.thy ===== *)
theory Finding_Catalog
  imports Finding_Index Finding_State
begin

section \<open>The catalogue of vulnerabilities\<close>

text \<open>
  \<^verbatim>\<open>backend/app/finding_lifecycle.py\<close>, second part: a detector (its type and key) is mapped to one
  vulnerability; when the CVE numbers known for the detector change, the mapping is retargeted and
  the evidence of the detector moves to findings of the new vulnerability. Two findings of the same
  asset and vulnerability are merged. The state is the database and, during a batch, the run index.
  A \<open>FindingLifecycleError\<close> is a \<open>ServiceError\<close>.
\<close>

abbreviation lifecycle_error :: "string \<Rightarrow> app_error" where
  "lifecycle_error detail \<equiv> ServiceError detail"

definition set_vulnerability :: "nat \<Rightarrow> (vulnerability \<Rightarrow> vulnerability) \<Rightarrow> db \<Rightarrow> db" where
  "set_vulnerability i f db = db\<lparr>tb_vulnerabilities := t_modify (\<lambda>v. vul_id v = i) f (tb_vulnerabilities db)\<rparr>"

definition set_mapping :: "nat \<Rightarrow> (vulnerability_detector_mapping \<Rightarrow> vulnerability_detector_mapping) \<Rightarrow> db \<Rightarrow> db" where
  "set_mapping i f db = db\<lparr>tb_vulnerability_detector_mappings := t_modify (\<lambda>m. vdm_id m = i) f (tb_vulnerability_detector_mappings db)\<rparr>"

definition set_evidence :: "(evidence_finding \<Rightarrow> bool) \<Rightarrow> (evidence_finding \<Rightarrow> evidence_finding) \<Rightarrow> db \<Rightarrow> db" where
  "set_evidence P f db = db\<lparr>tb_findings := t_modify P f (tb_findings db)\<rparr>"

definition recalculate_findings :: "time \<Rightarrow> nat list \<Rightarrow> db \<Rightarrow> db" where
  "recalculate_findings now ids db = fst (recalculate_asset_finding_priorities now (List.map_filter (\<lambda>i. get_finding i db) ids) db)"

subsection \<open>Vulnerabilities\<close>

definition fill_vulnerability :: "time \<Rightarrow> detector_identity \<Rightarrow> vulnerability \<Rightarrow> vulnerability" where
  "fill_vulnerability now d v = v\<lparr>
     vul_title := (if di_title d \<noteq> [] \<and> vul_title v = [] then di_title d else vul_title v),
     vul_description := (if di_description d \<noteq> [] \<and> vul_description v = [] then di_description d else vul_description v),
     vul_cve_id := (if str_or (di_cve_id d) \<noteq> [] \<and> str_or (vul_cve_id v) = [] then di_cve_id d else vul_cve_id v),
     vul_updated_at := now\<rparr>"

definition new_vulnerability :: "time \<Rightarrow> detector_identity \<Rightarrow> nat \<Rightarrow> vulnerability" where
  "new_vulnerability now d n = \<lparr>vul_id = n, vul_canonical_key = di_canonical_key d, vul_cve_id = di_cve_id d,
     vul_title = di_title d, vul_description = di_description d, vul_created_at = now, vul_updated_at = now\<rparr>"

definition get_or_create_vulnerability :: "time \<Rightarrow> detector_identity \<Rightarrow> run_index option \<Rightarrow> db
    \<Rightarrow> db \<times> run_index option \<times> vulnerability option" where
  "get_or_create_vulnerability now d index db =
     (if di_canonical_key d = [] then (db, index, None)
      else case vulnerability_for db (di_canonical_key d) index of
        (index1, Some v) \<Rightarrow> let v' = fill_vulnerability now d v
          in (set_vulnerability (vul_id v) (fill_vulnerability now d) db, map_option (remember_vulnerability v') index1, Some v')
      | (index1, None) \<Rightarrow> let v = new_vulnerability now d (t_next (tb_vulnerabilities db))
          in (db\<lparr>tb_vulnerabilities := t_insert (new_vulnerability now d) (tb_vulnerabilities db)\<rparr>,
              map_option (remember_vulnerability v) index1, Some v))"

definition known_cves_for_detector :: "detector_identity \<Rightarrow> run_index option \<Rightarrow> db \<Rightarrow> run_index option \<times> string list" where
  "known_cves_for_detector d index db = (let pair = (di_detector_type d, di_detector_key d) in
     case index of
       Some ix \<Rightarrow> let ix' = add_identity_cves d ix in (Some ix', known_cves pair ix')
     | None \<Rightarrow> (None, cve_union (di_raw d # detector_raws db pair)))"

definition desired_catalog_identity :: "detector_identity \<Rightarrow> run_index option \<Rightarrow> db \<Rightarrow> run_index option \<times> string \<times> string option" where
  "desired_catalog_identity d index db = (case known_cves_for_detector d index db of
     (index', cves) \<Rightarrow> (index', (case cves of
         [cve] \<Rightarrow> (''cve:'' @ cve, Some cve)
       | _ \<Rightarrow> (catalog_identity (di_detector_type d) (di_detector_key d) None, None))))"

subsection \<open>History\<close>

definition new_history :: "time \<Rightarrow> asset_finding \<Rightarrow> string \<Rightarrow> string option \<Rightarrow> string \<Rightarrow> nat option \<Rightarrow> time
    \<Rightarrow> (string \<times> json) list \<Rightarrow> string \<Rightarrow> nat \<Rightarrow> asset_finding_history" where
  "new_history now f transition previous new job occurred details key n = \<lparr>afh_id = n, afh_asset_finding_id = af_id f,
     afh_tenant_id = af_tenant_id f, afh_transition_type = transition, afh_previous_technical_state = previous,
     afh_new_technical_state = new, afh_scan_job_id = job, afh_occurred_at = occurred, afh_details = JObj details,
     afh_idempotence_key = key, afh_created_at = now\<rparr>"

definition append_history :: "time \<Rightarrow> asset_finding \<Rightarrow> string \<Rightarrow> string option \<Rightarrow> string \<Rightarrow> nat option \<Rightarrow> time
    \<Rightarrow> (string \<times> json) list \<Rightarrow> string \<Rightarrow> db \<Rightarrow> db \<times> bool" where
  \<comment> \<open>whether a row was written\<close>
  "append_history now f transition previous new job occurred details key db =
     (if t_exists (\<lambda>h. afh_idempotence_key h = key) (tb_asset_finding_history db) then (db, False)
      else (db\<lparr>tb_asset_finding_history := t_insert (new_history now f transition previous new job occurred details key)
              (tb_asset_finding_history db)\<rparr>, True))"

subsection \<open>Deleting a finding\<close>

text \<open>\<open>db.delete(donor)\<close> acts on the collections of the ORM object: the rows of the collections that
  were loaded with the object (\<open>selectinload\<close>), or else the rows that the lazy loading finds at that
  moment. Evidence in the collection loses its finding, history, evaluations and treatments in it
  are deleted. Then the foreign keys of the deleted row act in the database.\<close>

record loaded_children =
  lc_evidence :: "nat list"
  lc_history :: "nat list"
  lc_evaluations :: "nat list"

definition children_of :: "nat \<Rightarrow> db \<Rightarrow> loaded_children" where
  "children_of i db = \<lparr>
     lc_evidence = map fnd_id (t_select (\<lambda>e. fnd_asset_finding_id e = Some i) (tb_findings db)),
     lc_history = map afh_id (t_select (\<lambda>h. afh_asset_finding_id h = i) (tb_asset_finding_history db)),
     lc_evaluations = map afe_id (t_select (\<lambda>e. afe_asset_finding_id e = i) (tb_asset_finding_run_evaluations db))\<rparr>"

definition unset :: "nat \<Rightarrow> nat option \<Rightarrow> nat option" where
  \<comment> \<open>\<open>ON DELETE SET NULL\<close>\<close>
  "unset i ref = (if ref = Some i then None else ref)"

definition delete_asset_finding :: "nat \<Rightarrow> loaded_children option \<Rightarrow> db \<Rightarrow> db" where
  "delete_asset_finding i loaded db =
     (let lc = (case loaded of Some lc \<Rightarrow> lc | None \<Rightarrow> children_of i db) in
      db\<lparr>tb_findings := t_modify (\<lambda>_. True) (\<lambda>e. e\<lparr>fnd_asset_finding_id :=
             (if fnd_id e \<in> set (lc_evidence lc) then None else unset i (fnd_asset_finding_id e))\<rparr>) (tb_findings db),
         tb_asset_finding_history := t_delete (\<lambda>h. afh_id h \<in> set (lc_history lc) \<or> afh_asset_finding_id h = i) (tb_asset_finding_history db),
         tb_asset_finding_run_evaluations := t_delete (\<lambda>e. afe_id e \<in> set (lc_evaluations lc) \<or> afe_asset_finding_id e = i)
             (tb_asset_finding_run_evaluations db),
         tb_finding_treatments := t_delete (\<lambda>t. ft_asset_finding_id t = i) (tb_finding_treatments db),
         tb_compliance_control_references := t_delete (\<lambda>r. ccr_asset_finding_id r = Some i) (tb_compliance_control_references db),
         tb_alerts := t_modify (\<lambda>_. True) (\<lambda>a. a\<lparr>al_asset_finding_id := unset i (al_asset_finding_id a)\<rparr>) (tb_alerts db),
         tb_domain_events := t_modify (\<lambda>_. True) (\<lambda>e. e\<lparr>ev_asset_finding_id := unset i (ev_asset_finding_id e)\<rparr>) (tb_domain_events db),
         tb_asset_findings := t_delete (\<lambda>f. af_id f = i) (tb_asset_findings db)\<rparr>)"

subsection \<open>Merging two findings\<close>

definition merged_finding :: "asset_finding \<Rightarrow> asset_finding \<Rightarrow> asset_finding" where
  "merged_finding donor keeper =
     (let is_open = (af_technical_state keeper = TECHNICAL_OPEN \<or> af_technical_state donor = TECHNICAL_OPEN) in
      keeper\<lparr>af_first_seen := min (af_first_seen keeper) (af_first_seen donor),
        af_last_seen := max (af_last_seen keeper) (af_last_seen donor),
        af_reopened_count := af_reopened_count keeper + af_reopened_count donor,
        af_technical_state := (if is_open then TECHNICAL_OPEN else TECHNICAL_RESOLVED),
        af_resolved_at := (if is_open then None
          else case max_opt (List.map_filter id [af_resolved_at keeper, af_resolved_at donor]) of
            None \<Rightarrow> af_resolved_at keeper | Some t \<Rightarrow> Some t),
        af_consecutive_clean_scans := (if is_open then min (af_consecutive_clean_scans keeper) (af_consecutive_clean_scans donor)
          else max (af_consecutive_clean_scans keeper) (af_consecutive_clean_scans donor))\<rparr>)"

text \<open>The evaluations of the donor: those of runs the keeper has no evaluation of move. Where both
  have one and only the donor's is a detection, the code deletes the keeper's and moves the donor's
  in one flush; the unit of work emits UPDATEs before DELETEs, so the unique constraint on finding
  and run rejects it.\<close>

definition keeper_evaluation :: "db \<Rightarrow> nat \<Rightarrow> asset_finding_run_evaluation \<Rightarrow> asset_finding_run_evaluation option" where
  "keeper_evaluation db k e = t_first (\<lambda>c. afe_asset_finding_id c = k \<and> afe_scan_job_id c = afe_scan_job_id e)
     (tb_asset_finding_run_evaluations db)"

definition merge_evaluations :: "asset_finding \<Rightarrow> nat \<Rightarrow> db \<Rightarrow> app_error + db" where
  "merge_evaluations keeper d db =
     (let tab = tb_asset_finding_run_evaluations db;
          donor_evals = t_select (\<lambda>e. afe_asset_finding_id e = d) tab;
          collision = keeper_evaluation db (af_id keeper)
      in if list_ex (\<lambda>e. case collision e of None \<Rightarrow> False
             | Some c \<Rightarrow> afe_outcome c \<noteq> EVALUATION_DETECTED \<and> afe_outcome e = EVALUATION_DETECTED) donor_evals
         then Inl (PyError ''IntegrityError'')
         else let tab1 = t_modify (\<lambda>e. afe_asset_finding_id e = d \<and> collision e = None)
                    (\<lambda>e. e\<lparr>afe_asset_finding_id := af_id keeper, afe_tenant_id := af_tenant_id keeper\<rparr>) tab
              in Inr (db\<lparr>tb_asset_finding_run_evaluations := t_delete (\<lambda>e. afe_asset_finding_id e = d) tab1\<rparr>))"

definition move_evidence :: "asset_finding \<Rightarrow> evidence_finding \<Rightarrow> evidence_finding" where
  "move_evidence keeper e = e\<lparr>fnd_asset_finding_id := Some (af_id keeper), fnd_asset_id := Some (af_asset_id keeper),
     fnd_tenant_id := af_tenant_id keeper\<rparr>"

definition merge_duplicate_asset_findings :: "time \<Rightarrow> asset_finding \<Rightarrow> asset_finding \<Rightarrow> loaded_children option \<Rightarrow> db \<Rightarrow> app_error + db" where
  "merge_duplicate_asset_findings now keeper donor loaded db =
     (let k = af_id keeper; d = af_id donor in
      rbind (merge_finding_treatments now (merged_finding donor keeper) donor (set_finding k (merged_finding donor) db)) (\<lambda>db1.
        let db2 = set_finding k (\<lambda>f. f\<lparr>af_updated_at := now\<rparr>) db1;
            db3 = set_evidence (\<lambda>e. fnd_asset_finding_id e = Some d) (move_evidence keeper) db2;
            db4 = db3\<lparr>tb_asset_finding_history := t_modify (\<lambda>h. afh_asset_finding_id h = d)
              (\<lambda>h. h\<lparr>afh_asset_finding_id := k, afh_tenant_id := af_tenant_id keeper\<rparr>) (tb_asset_finding_history db3)\<rparr>
        in rbind (merge_evaluations keeper d db4) (\<lambda>db5.
             Inr (recalculate_findings now [k] (delete_asset_finding d loaded db5)))))"

subsection \<open>Partition and retargeting\<close>

definition recompute_seen :: "time \<Rightarrow> nat \<Rightarrow> db \<Rightarrow> db" where
  "recompute_seen now i db =
     (let stamps = map fnd_found_at (t_select (\<lambda>e. fnd_asset_finding_id e = Some i) (tb_findings db)) in
      case (min_opt stamps, max_opt stamps) of
        (Some lo, Some hi) \<Rightarrow> set_finding i (\<lambda>f. f\<lparr>af_first_seen := lo, af_last_seen := hi, af_updated_at := now\<rparr>) db
      | _ \<Rightarrow> db)"

definition detector_of :: "vulnerability_detector_mapping \<Rightarrow> string \<times> string" where
  "detector_of m = (vdm_detector_type m, vdm_detector_key m)"

definition other_detector_evidence_exists :: "db \<Rightarrow> nat \<Rightarrow> vulnerability_detector_mapping \<Rightarrow> bool" where
  "other_detector_evidence_exists db i m = t_exists (\<lambda>e. fnd_asset_finding_id e = Some i \<and> pair_of e \<noteq> detector_of m) (tb_findings db)"

definition new_asset_finding :: "time \<Rightarrow> nat \<Rightarrow> nat \<Rightarrow> nat \<Rightarrow> time \<Rightarrow> time \<Rightarrow> time \<Rightarrow> nat \<Rightarrow> asset_finding" where
  "new_asset_finding now tenant asset vuln seen0 seen1 updated n = \<lparr>af_id = n, af_tenant_id = tenant, af_asset_id = asset,
     af_vulnerability_id = vuln, af_technical_state = TECHNICAL_OPEN, af_treatment_state = TREATMENT_UNADDRESSED,
     af_first_seen = seen0, af_last_seen = seen1, af_resolved_at = None, af_consecutive_clean_scans = 0,
     af_reopened_count = 0, af_priority = None, af_priority_score = None, af_priority_model_version = None,
     af_priority_explanation = None, af_priority_calculated_at = None, af_created_at = now, af_updated_at = updated\<rparr>"

definition split_off :: "time \<Rightarrow> asset_finding \<Rightarrow> vulnerability_detector_mapping \<Rightarrow> nat \<Rightarrow> evidence_finding list \<Rightarrow> db \<Rightarrow> db" where
  \<comment> \<open>the donor keeps evidence of other detectors: the detector's evidence moves to the finding of the vulnerability\<close>
  "split_off now donor m vuln supporting db =
     (let stamps = map fnd_found_at supporting;
          existing = asset_finding_row db (af_asset_id donor) vuln;
          mk = new_asset_finding now (af_tenant_id donor) (af_asset_id donor) vuln (the (min_opt stamps)) (the (max_opt stamps)) now;
          keeper = (case existing of Some k \<Rightarrow> k | None \<Rightarrow> mk (t_next (tb_asset_findings db)));
          db1 = (if existing = None then db\<lparr>tb_asset_findings := t_insert mk (tb_asset_findings db)\<rparr> else db);
          db2 = set_evidence (\<lambda>e. fnd_asset_finding_id e = Some (af_id donor) \<and> pair_of e = detector_of m) (move_evidence keeper) db1;
          db3 = recompute_seen now (af_id donor) (recompute_seen now (af_id keeper) db2);
          db4 = (if existing = None then fst (append_history now keeper HISTORY_OPENED None TECHNICAL_OPEN None
                (case get_finding (af_id keeper) db3 of None \<Rightarrow> af_first_seen keeper | Some f \<Rightarrow> af_first_seen f)
                [(''reason'', JStr ''detector_identity_partition''), (''source_asset_finding_id'', jnat (af_id donor)),
                 (''detector_type'', JStr (vdm_detector_type m)), (''detector_key'', JStr (vdm_detector_key m))]
                (''partition-opened:'' @ show_nat (af_id keeper) @ '':'' @ vdm_detector_type m @ '':'' @ vdm_detector_key m) db3)
              else db3)
      in recalculate_findings now [af_id keeper, af_id donor] db4)"

definition partition_asset_finding_for_mapping :: "time \<Rightarrow> vulnerability_detector_mapping \<Rightarrow> nat \<Rightarrow> nat \<Rightarrow> db \<Rightarrow> app_error + db" where
  "partition_asset_finding_for_mapping now m vuln d db = (case get_finding d db of
     None \<Rightarrow> Inr db
   | Some donor \<Rightarrow>
       let supporting = t_select (\<lambda>e. fnd_asset_finding_id e = Some d \<and> pair_of e = detector_of m) (tb_findings db) in
       if supporting = [] then Inr db
       else if \<not> other_detector_evidence_exists db d m
       then (case t_first (\<lambda>f. af_asset_id f = af_asset_id donor \<and> af_vulnerability_id f = vuln \<and> af_id f \<noteq> d) (tb_asset_findings db) of
           None \<Rightarrow> Inr (set_finding d (\<lambda>f. f\<lparr>af_vulnerability_id := vuln, af_updated_at := now\<rparr>) db)
         | Some keeper \<Rightarrow> merge_duplicate_asset_findings now keeper donor None db)
       else Inr (split_off now donor m vuln supporting db))"

definition retarget_donors :: "db \<Rightarrow> vulnerability_detector_mapping \<Rightarrow> nat list" where
  "retarget_donors db m = map (\<lambda>f. af_id f) (t_select (\<lambda>f. af_vulnerability_id f = vdm_vulnerability_id m \<and>
     t_exists (\<lambda>e. fnd_asset_finding_id e = Some (af_id f) \<and> pair_of e = detector_of m) (tb_findings db)) (tb_asset_findings db))"

definition retarget_mapping :: "time \<Rightarrow> vulnerability_detector_mapping \<Rightarrow> nat \<Rightarrow> db \<Rightarrow> app_error + db" where
  "retarget_mapping now m vuln db =
     (if vdm_vulnerability_id m = vuln then Inr db
      else rfold (partition_asset_finding_for_mapping now m vuln) (retarget_donors db m)
        (set_mapping (vdm_id m) (\<lambda>m. m\<lparr>vdm_vulnerability_id := vuln\<rparr>) db))"

definition new_mapping :: "time \<Rightarrow> detector_identity \<Rightarrow> nat \<Rightarrow> nat \<Rightarrow> vulnerability_detector_mapping" where
  "new_mapping now d vuln n = \<lparr>vdm_id = n, vdm_vulnerability_id = vuln, vdm_detector_type = di_detector_type d,
     vdm_detector_key = di_detector_key d, vdm_last_severity = di_severity d, vdm_last_tags = di_tags d, vdm_created_at = now\<rparr>"

definition refresh_mapping :: "detector_identity \<Rightarrow> vulnerability_detector_mapping \<Rightarrow> vulnerability_detector_mapping" where
  "refresh_mapping d m = m\<lparr>vdm_last_severity := (if di_severity d \<noteq> [] then di_severity d else vdm_last_severity m),
     vdm_last_tags := (if di_tags d \<noteq> [] then di_tags d else vdm_last_tags m)\<rparr>"

definition upsert_detector_catalog :: "time \<Rightarrow> detector_identity \<Rightarrow> run_index option \<Rightarrow> db
    \<Rightarrow> app_error + (db \<times> run_index option \<times> (vulnerability \<times> vulnerability_detector_mapping) option)" where
  "upsert_detector_catalog now d index db =
     (if di_detector_type d = [] \<or> di_detector_key d = [] then Inr (db, index, None)
      else case desired_catalog_identity d index db of (index1, key, cve) \<Rightarrow>
        (case get_or_create_vulnerability now (d\<lparr>di_canonical_key := key, di_cve_id := cve\<rparr>) index1 db of
           (db1, index2, None) \<Rightarrow> Inr (db1, index2, None)
         | (db1, index2, Some v) \<Rightarrow>
             (case mapping_for db1 (di_detector_type d, di_detector_key d) index2 of
                (index3, None) \<Rightarrow>
                  let m = new_mapping now d (vul_id v) (t_next (tb_vulnerability_detector_mappings db1))
                  in Inr (db1\<lparr>tb_vulnerability_detector_mappings := t_insert (new_mapping now d (vul_id v)) (tb_vulnerability_detector_mappings db1)\<rparr>,
                       map_option (remember_mapping m) index3, Some (v, m))
              | (index3, Some m) \<Rightarrow> rbind (retarget_mapping now m (vul_id v) db1) (\<lambda>db2.
                  let m' = refresh_mapping d (m\<lparr>vdm_vulnerability_id := vul_id v\<rparr>)
                  in Inr (set_mapping (vdm_id m) (refresh_mapping d) db2, map_option (remember_mapping m') index3, Some (v, m'))))))"

definition get_or_create_mapping :: "time \<Rightarrow> nat \<Rightarrow> detector_identity \<Rightarrow> db \<Rightarrow> app_error + (db \<times> vulnerability_detector_mapping option)" where
  \<comment> \<open>the vulnerability passed in is replaced by the one of the catalogue\<close>
  "get_or_create_mapping now vuln d db = rbind (upsert_detector_catalog now d None db) (\<lambda>(db', _, r).
     case r of None \<Rightarrow> Inl (PyError ''AttributeError'')
     | Some (v, m) \<Rightarrow> if vdm_vulnerability_id m \<noteq> vul_id v
         then Inl (lifecycle_error ''Detector mapping already belongs to a different vulnerability'') else Inr (db', Some m))"

subsection \<open>Merging the findings of assets\<close>

text \<open>The session does not flush before a query, so a finding that was given to the target and not
  flushed yet is not found there; a second finding of the same vulnerability is given to the target
  too and the next flush rejects both. A merge of two findings flushes.\<close>

definition flushed_finding :: "db \<Rightarrow> nat list \<Rightarrow> nat \<Rightarrow> nat \<Rightarrow> asset_finding option" where
  "flushed_finding db unflushed asset vuln = t_first (\<lambda>f. af_asset_id f = asset \<and> af_vulnerability_id f = vuln \<and> af_id f \<notin> set unflushed)
     (tb_asset_findings db)"

definition give_finding :: "time \<Rightarrow> asset \<Rightarrow> nat \<Rightarrow> db \<Rightarrow> db" where
  "give_finding now target d db = set_evidence (\<lambda>e. fnd_asset_finding_id e = Some d)
     (\<lambda>e. e\<lparr>fnd_asset_id := Some (asset_id target), fnd_tenant_id := asset_tenant_id target\<rparr>)
     (set_finding d (\<lambda>f. f\<lparr>af_asset_id := asset_id target, af_tenant_id := asset_tenant_id target, af_updated_at := now\<rparr>) db)"

definition merge_source_finding :: "time \<Rightarrow> asset \<Rightarrow> asset_finding \<times> loaded_children \<Rightarrow> db \<times> nat list \<Rightarrow> app_error + (db \<times> nat list)" where
  "merge_source_finding now target dl s = (case (dl, s) of ((donor, loaded), (db, unflushed)) \<Rightarrow>
     (case flushed_finding db unflushed (asset_id target) (af_vulnerability_id donor) of
        None \<Rightarrow> if asset_finding_row db (asset_id target) (af_vulnerability_id donor) \<noteq> None then Inl (PyError ''IntegrityError'')
          else Inr (give_finding now target (af_id donor) db, af_id donor # unflushed)
      | Some keeper \<Rightarrow> rbind (merge_duplicate_asset_findings now keeper donor (Some loaded) db) (\<lambda>db'. Inr (db', []))))"

definition merge_source :: "time \<Rightarrow> asset \<Rightarrow> asset \<Rightarrow> db \<times> nat list \<Rightarrow> app_error + (db \<times> nat list)" where
  "merge_source now target source s = rfold (merge_source_finding now target)
     (map (\<lambda>f. (f, children_of (af_id f) (fst s))) (t_select (\<lambda>f. af_asset_id f = asset_id source) (tb_asset_findings (fst s)))) s"

definition merge_asset_findings :: "time \<Rightarrow> asset \<Rightarrow> asset list \<Rightarrow> db \<Rightarrow> app_error + db" where
  "merge_asset_findings now target sources db =
     (if list_ex (\<lambda>s. asset_tenant_id s \<noteq> asset_tenant_id target) sources
      then Inl (lifecycle_error ''Cross-tenant asset/finding relationship is not allowed'')
      else rbind (rfold (merge_source now target) sources (db, [])) (\<lambda>(db', _). Inr db'))"

subsection \<open>The catalogue keeps findings and evidence sound\<close>

lemma findings_ok_cong: "tb_assets db' = tb_assets db \<Longrightarrow> tb_scan_jobs db' = tb_scan_jobs db \<Longrightarrow> tb_asset_findings db' = tb_asset_findings db \<Longrightarrow>
    tb_findings db' = tb_findings db \<Longrightarrow> findings_ok db' = findings_ok db"
  by (simp add: findings_ok_def)

lemma finding_row: "findings_ok db \<Longrightarrow> get_finding i db = Some f \<Longrightarrow> f \<in> set (t_rows (tb_asset_findings db)) \<and> af_id f = i"
  unfolding get_finding_def by (drule t_get_Some) simp

lemma findings_okD:
  assumes "findings_ok db" "f \<in> set (t_rows (tb_asset_findings db))"
  shows "life_ok f" "owned (tb_assets db) f" "(af_id f, af_tenant_id f) \<in> set (finding_ids (tb_asset_findings db))"
    "g \<in> set (t_rows (tb_asset_findings db)) \<Longrightarrow> af_id g = af_id f \<Longrightarrow> g = f"
    "g \<in> set (t_rows (tb_asset_findings db)) \<Longrightarrow> subject_of g = subject_of f \<Longrightarrow> g = f"
proof -
  have ok: "finding_rows_ok (tb_assets db) (tb_asset_findings db)" using assms(1) by (simp add: findings_ok_def)
  with assms(2) show "life_ok f" "owned (tb_assets db) f" "(af_id f, af_tenant_id f) \<in> set (finding_ids (tb_asset_findings db))"
    by (auto simp: finding_rows_ok_def finding_ids_def list_all_iff)
  show "g = f" if "g \<in> set (t_rows (tb_asset_findings db))" "af_id g = af_id f"
    using ok that assms(2) by (auto simp: finding_rows_ok_def intro: t_wf_eq)
  show "g = f" if "g \<in> set (t_rows (tb_asset_findings db))" "subject_of g = subject_of f"
  proof -
    have "inj_on subject_of (set (t_rows (tb_asset_findings db)))" using ok by (simp add: finding_rows_ok_def distinct_map)
    then show ?thesis using that assms(2) by (blast dest: inj_onD)
  qed
qed

lemma owner_tenant:
  assumes "findings_ok db" "f \<in> set (t_rows (tb_asset_findings db))" "a \<in> set (t_rows (tb_assets db))" "af_asset_id f = asset_id a"
  shows "af_tenant_id f = asset_tenant_id a"
proof -
  obtain b where b: "b \<in> set (t_rows (tb_assets db))" "asset_id b = af_asset_id f" "asset_tenant_id b = af_tenant_id f"
    using findings_okD(2) [OF assms(1,2)] unfolding owned_def list_ex_iff by blast
  have "t_wf asset_id (tb_assets db)" using assms(1) by (simp add: findings_ok_def)
  from t_wf_eq [OF this b(1) assms(3)] b assms(4) show ?thesis by simp
qed

lemma id_tenant: "findings_ok db \<Longrightarrow> f \<in> set (t_rows (tb_asset_findings db)) \<Longrightarrow> (af_id f, tn) \<in> set (finding_ids (tb_asset_findings db)) \<Longrightarrow> tn = af_tenant_id f"
  using findings_okD(4) by (fastforce simp: finding_ids_def)

text \<open>A write on one finding.\<close>

lemma set_finding_ok:
  assumes "findings_ok db" "\<And>f. af_id (change f) = af_id f \<and> af_tenant_id (change f) = af_tenant_id f"
    and "\<And>f. f \<in> set (t_rows (tb_asset_findings db)) \<Longrightarrow> af_id f = i \<Longrightarrow> life_ok (change f) \<and> owned (tb_assets db) (change f) \<and>
      (\<forall>g \<in> set (t_rows (tb_asset_findings db)). af_id g \<noteq> i \<longrightarrow> subject_of g \<noteq> subject_of (change f))"
  shows "findings_ok (set_finding i change db)"
  using assms modify_rows_ok [of "tb_assets db" "tb_asset_findings db" change i]
  by (simp add: findings_ok_def set_finding_def finding_ids_modify)

lemma set_finding_life_ok:
  assumes "findings_ok db" "\<And>f. af_id (change f) = af_id f \<and> af_tenant_id (change f) = af_tenant_id f \<and> subject_of (change f) = subject_of f"
    and "\<And>f. f \<in> set (t_rows (tb_asset_findings db)) \<Longrightarrow> af_id f = i \<Longrightarrow> life_ok f \<Longrightarrow> life_ok (change f)"
  shows "findings_ok (set_finding i change db)"
proof (rule set_finding_ok [OF assms(1)])
  fix f assume f: "f \<in> set (t_rows (tb_asset_findings db))" "af_id f = i"
  have "owned (tb_assets db) (change f) = owned (tb_assets db) f" using assms(2) [of f] by (simp add: owned_def subject_of_def)
  then show "life_ok (change f) \<and> owned (tb_assets db) (change f) \<and>
      (\<forall>g \<in> set (t_rows (tb_asset_findings db)). af_id g \<noteq> i \<longrightarrow> subject_of g \<noteq> subject_of (change f))"
    using findings_okD(1,2) [OF assms(1) f(1)] findings_okD(5) [OF assms(1) f(1)] assms(2,3) f by auto
qed (simp add: assms(2))

text \<open>Evidence that moves to a finding of the same tenant.\<close>

text \<open>What the catalogue never changes: the assets, the runs, and which run, tenant and key a piece of
  evidence has.\<close>

definition fixed :: "db \<Rightarrow> asset tbl \<times> scan_job tbl \<times> (nat \<times> nat option \<times> nat \<times> string option) list" where
  "fixed db = (tb_assets db, tb_scan_jobs db,
     map (\<lambda>e. (fnd_id e, fnd_scan_job_id e, fnd_tenant_id e, fnd_evidence_key e)) (t_rows (tb_findings db)))"

lemma keeps_fixed: "keeps db db' \<Longrightarrow> fixed db' = fixed db"
  by (simp add: fixed_def keepsD)

lemma set_finding_fixed [simp]: "fixed (set_finding i change db) = fixed db"
  by (simp add: fixed_def set_finding_def)

lemma delete_fixed [simp]: "fixed (delete_asset_finding d loaded db) = fixed db"
  by (simp add: fixed_def delete_asset_finding_def Let_def)

lemma move_evidence_fixed:
  assumes "\<And>e. e \<in> set (t_rows (tb_findings db)) \<Longrightarrow> P e \<Longrightarrow> fnd_tenant_id e = af_tenant_id keeper"
  shows "fixed (set_evidence P (move_evidence keeper) db) = fixed db"
  using assms by (auto simp: fixed_def set_evidence_def move_evidence_def)

lemma move_evidence_ok:
  assumes "findings_ok db" "(af_id keeper, af_tenant_id keeper) \<in> set (finding_ids (tb_asset_findings db))"
    and "\<And>e. e \<in> set (t_rows (tb_findings db)) \<Longrightarrow> P e \<Longrightarrow> fnd_tenant_id e = af_tenant_id keeper"
  shows "findings_ok (set_evidence P (move_evidence keeper) db)"
proof -
  have "evidence_rows_ok (tb_scan_jobs db) (finding_ids (tb_asset_findings db)) (t_modify P (move_evidence keeper) (tb_findings db))"
  proof (rule evidence_modify_ok)
    show "evidence_rows_ok (tb_scan_jobs db) (finding_ids (tb_asset_findings db)) (tb_findings db)"
      using assms(1) by (simp add: findings_ok_def)
    then show "reference_ok (finding_ids (tb_asset_findings db)) (if P e then move_evidence keeper e else e)"
      if "e \<in> set (t_rows (tb_findings db))" for e
      using that assms(2) by (auto simp: reference_ok_def move_evidence_def evidence_rows_ok_def list_all_iff)
  qed (use assms(3) in \<open>simp add: move_evidence_def\<close>)
  with assms(1) show ?thesis by (simp add: findings_ok_def set_evidence_def)
qed

lemma evidence_tenant:
  assumes "findings_ok db" "e \<in> set (t_rows (tb_findings db))" "fnd_asset_finding_id e = Some (af_id f)" "f \<in> set (t_rows (tb_asset_findings db))"
  shows "fnd_tenant_id e = af_tenant_id f"
proof -
  have "reference_ok (finding_ids (tb_asset_findings db)) e"
    using assms(1,2) by (auto simp: findings_ok_def evidence_rows_ok_def list_all_iff)
  with assms id_tenant show ?thesis by (auto simp: reference_ok_def)
qed

lemma delete_finding_ok:
  assumes "findings_ok db"
  shows "findings_ok (delete_asset_finding d loaded db)"
proof -
  let ?t = "t_delete (\<lambda>f. af_id f = d) (tb_asset_findings db)"
  define lc where "lc = (case loaded of Some lc \<Rightarrow> lc | None \<Rightarrow> children_of d db)"
  let ?ch = "\<lambda>e. e\<lparr>fnd_asset_finding_id := (if fnd_id e \<in> set (lc_evidence lc) then None else unset d (fnd_asset_finding_id e))\<rparr>"
  have ev: "evidence_rows_ok (tb_scan_jobs db) (finding_ids (tb_asset_findings db)) (tb_findings db)"
    using assms by (simp add: findings_ok_def)
  have "evidence_rows_ok (tb_scan_jobs db) (finding_ids ?t) (t_modify (\<lambda>_. True) ?ch (tb_findings db))"
  proof (rule evidence_modify_ok [OF ev])
    fix e assume "e \<in> set (t_rows (tb_findings db))"
    then have "reference_ok (finding_ids (tb_asset_findings db)) e" using ev by (auto simp: evidence_rows_ok_def list_all_iff)
    then show "reference_ok (finding_ids ?t) (if True then ?ch e else e)"
      by (auto simp: reference_ok_def unset_def finding_ids_def split: option.splits)
  qed simp
  moreover have "finding_rows_ok (tb_assets db) ?t" using assms by (simp add: findings_ok_def delete_rows_ok)
  ultimately show ?thesis using assms by (simp add: findings_ok_def delete_asset_finding_def Let_def lc_def [symmetric])
qed

lemma merged_life:
  assumes "life_ok keeper" "life_ok donor"
  shows "life_ok (merged_finding donor keeper)"
proof -
  have some: "max_opt (List.map_filter id [a, b]) \<noteq> None" if "a \<noteq> None" for a b
    using that by (auto simp: max_opt_def List.map_filter_def split: option.splits)
  show ?thesis using assms some by (auto simp: life_ok_def merged_finding_def Let_def split: if_splits option.splits)
qed

lemma merged_same: "af_id (merged_finding d k) = af_id k" "af_tenant_id (merged_finding d k) = af_tenant_id k" "subject_of (merged_finding d k) = subject_of k"
  by (simp_all add: merged_finding_def Let_def subject_of_def)

lemma recalculate_findings_keeps: "keeps db (recalculate_findings now ids db)"
  unfolding recalculate_findings_def by (rule recalculate_keeps)

lemma evaluations_ok: "merge_evaluations keeper d db = Inr db' \<Longrightarrow> \<exists>E. db' = db\<lparr>tb_asset_finding_run_evaluations := E\<rparr>"
  by (auto simp: merge_evaluations_def Let_def split: if_splits)

text \<open>The steps of a merge: the keeper takes over the history of the donor, its treatments, its
  evidence and its evaluations, and the donor is deleted.\<close>

lemma merge_duplicate_steps:
  assumes "merge_duplicate_asset_findings now keeper donor loaded db = Inr db'"
  obtains db1 db2 db3 H E where
    "keeps (set_finding (af_id keeper) (merged_finding donor) db) db1"
    "db2 = set_finding (af_id keeper) (\<lambda>f. f\<lparr>af_updated_at := now\<rparr>) db1"
    "db3 = set_evidence (\<lambda>e. fnd_asset_finding_id e = Some (af_id donor)) (move_evidence keeper) db2"
    "keeps (delete_asset_finding (af_id donor) loaded (db3\<lparr>tb_asset_finding_history := H, tb_asset_finding_run_evaluations := E\<rparr>)) db'"
    "H = t_modify (\<lambda>h. afh_asset_finding_id h = af_id donor)
       (\<lambda>h. h\<lparr>afh_asset_finding_id := af_id keeper, afh_tenant_id := af_tenant_id keeper\<rparr>) (tb_asset_finding_history db)"
proof -
  let ?k = "af_id keeper" let ?d = "af_id donor"
  let ?db2 = "\<lambda>db1. set_finding ?k (\<lambda>f. f\<lparr>af_updated_at := now\<rparr>) db1"
  let ?db3 = "\<lambda>db1. set_evidence (\<lambda>e. fnd_asset_finding_id e = Some ?d) (move_evidence keeper) (?db2 db1)"
  let ?H = "\<lambda>db1. t_modify (\<lambda>h. afh_asset_finding_id h = ?d)
     (\<lambda>h. h\<lparr>afh_asset_finding_id := ?k, afh_tenant_id := af_tenant_id keeper\<rparr>) (tb_asset_finding_history (?db3 db1))"
  obtain db1 db5 where m: "merge_finding_treatments now (merged_finding donor keeper) donor (set_finding ?k (merged_finding donor) db) = Inr db1"
    and e: "merge_evaluations keeper ?d ((?db3 db1)\<lparr>tb_asset_finding_history := ?H db1\<rparr>) = Inr db5"
    and fin: "db' = recalculate_findings now [?k] (delete_asset_finding ?d loaded db5)"
    using assms unfolding merge_duplicate_asset_findings_def Let_def rbind_Inr_iff by blast
  have k1: "keeps (set_finding ?k (merged_finding donor) db) db1" using m by (rule merge_treatments_keeps)
  have "tb_asset_finding_history (?db3 db1) = tb_asset_finding_history db"
    using keepsD(7) [OF k1] by (simp add: set_evidence_def set_finding_def)
  moreover obtain E where "db5 = (?db3 db1)\<lparr>tb_asset_finding_history := ?H db1, tb_asset_finding_run_evaluations := E\<rparr>"
    using evaluations_ok [OF e] by blast
  ultimately show ?thesis using that [OF k1 refl refl] fin recalculate_findings_keeps by metis
qed

lemma merge_duplicate_ok:
  assumes ok: "findings_ok db" and keeper: "keeper \<in> set (t_rows (tb_asset_findings db))"
    and donor: "life_ok donor" "af_tenant_id donor = af_tenant_id keeper"
    and ids: "\<And>tn. (af_id donor, tn) \<in> set (finding_ids (tb_asset_findings db)) \<Longrightarrow> tn = af_tenant_id donor"
    and run: "merge_duplicate_asset_findings now keeper donor loaded db = Inr db'"
  shows "findings_ok db' \<and> fixed db' = fixed db"
proof -
  let ?merged = "set_finding (af_id keeper) (merged_finding donor) db"
  obtain db1 db2 db3 H E where k1: "keeps ?merged db1" and db2: "db2 = set_finding (af_id keeper) (\<lambda>f. f\<lparr>af_updated_at := now\<rparr>) db1"
    and db3: "db3 = set_evidence (\<lambda>e. fnd_asset_finding_id e = Some (af_id donor)) (move_evidence keeper) db2"
    and kd: "keeps (delete_asset_finding (af_id donor) loaded (db3\<lparr>tb_asset_finding_history := H, tb_asset_finding_run_evaluations := E\<rparr>)) db'"
    using merge_duplicate_steps [OF run] by metis
  have "findings_ok ?merged"
    by (rule set_finding_life_ok [OF ok]) (simp_all add: merged_same merged_life donor)
  moreover have ids1: "finding_ids (tb_asset_findings ?merged) = finding_ids (tb_asset_findings db)"
    by (simp add: set_finding_def finding_ids_modify merged_same)
  moreover have k2: "keeps ?merged db2" unfolding db2 by (rule keeps_trans [OF k1 set_finding_keeps]) (simp add: life_def)
  ultimately have ok2: "findings_ok db2" and ids2: "finding_ids (tb_asset_findings db2) = finding_ids (tb_asset_findings db)"
    using keeps_ok keeps_ids by simp_all
  have tenants: "fnd_tenant_id e = af_tenant_id keeper"
    if e: "e \<in> set (t_rows (tb_findings db2))" "fnd_asset_finding_id e = Some (af_id donor)" for e
  proof -
    have "reference_ok (finding_ids (tb_asset_findings db2)) e"
      using e ok2 by (auto simp: findings_ok_def evidence_rows_ok_def list_all_iff)
    with e(2) ids donor(2) ids2 show ?thesis by (simp add: reference_ok_def)
  qed
  have "(af_id keeper, af_tenant_id keeper) \<in> set (finding_ids (tb_asset_findings db2))"
    using findings_okD(3) [OF ok keeper] ids2 by simp
  then have "findings_ok db3" unfolding db3 using tenants by (intro move_evidence_ok [OF ok2])
  then have "findings_ok (db3\<lparr>tb_asset_finding_history := H, tb_asset_finding_run_evaluations := E\<rparr>)" by (simp add: findings_ok_def)
  from delete_finding_ok [OF this] have "findings_ok db'" using keeps_ok [OF kd] by blast
  moreover have "fixed db3 = fixed db2" unfolding db3 using tenants by (rule move_evidence_fixed)
  moreover have "fixed (db3\<lparr>tb_asset_finding_history := H, tb_asset_finding_run_evaluations := E\<rparr>) = fixed db3" by (simp add: fixed_def)
  ultimately show ?thesis using keeps_fixed [OF kd] keeps_fixed [OF k2] by simp
qed

lemma recompute_seen_ok: "findings_ok db \<Longrightarrow> findings_ok (recompute_seen now i db)"
  by (auto simp: recompute_seen_def Let_def subject_of_def life_ok_def split: option.splits intro: set_finding_life_ok)

lemma recompute_seen_fixed [simp]: "fixed (recompute_seen now i db) = fixed db"
  by (simp add: recompute_seen_def Let_def split: option.splits)

lemma append_history_frame: "\<exists>H. fst (append_history now f tr prev new job occ det key db) = db\<lparr>tb_asset_finding_history := H\<rparr>"
proof (cases "t_exists (\<lambda>h. afh_idempotence_key h = key) (tb_asset_finding_history db)")
  case True
  then have "fst (append_history now f tr prev new job occ det key db) = db\<lparr>tb_asset_finding_history := tb_asset_finding_history db\<rparr>"
    by (simp add: append_history_def)
  then show ?thesis by blast
next
  case False
  then show ?thesis unfolding append_history_def if_not_P [OF False] fst_conv by blast
qed

lemma append_history_ok: "findings_ok (fst (append_history now f tr prev new job occ det key db)) = findings_ok db"
    "fixed (fst (append_history now f tr prev new job occ det key db)) = fixed db"
  using append_history_frame [of now f tr prev new job occ det key db] by (auto simp: findings_ok_def fixed_def)

text \<open>A finding of a new pair of asset and vulnerability.\<close>

lemma insert_finding_ok:
  assumes "findings_ok db" "\<And>n. af_id (mk n) = n" "\<And>n. life_ok (mk n)" "\<And>n. owned (tb_assets db) (mk n)"
    and "asset_finding_row db asset vuln = None" "\<And>n. subject_of (mk n) = (asset, vuln)"
  shows "findings_ok (db\<lparr>tb_asset_findings := t_insert mk (tb_asset_findings db)\<rparr>)"
proof -
  have "finding_rows_ok (tb_assets db) (t_insert mk (tb_asset_findings db))"
    using assms by (intro insert_rows_ok) (auto simp: findings_ok_def asset_finding_row_def t_first_None subject_of_def)
  moreover have "set (finding_ids (tb_asset_findings db)) \<subseteq> set (finding_ids (t_insert mk (tb_asset_findings db)))"
    by (auto simp: finding_ids_def)
  ultimately show ?thesis using assms(1) by (auto simp: findings_ok_def intro: evidence_mono)
qed

lemma new_finding_ok: "life_ok (new_asset_finding now tenant asset vuln s0 s1 u n)" "af_id (new_asset_finding now tenant asset vuln s0 s1 u n) = n"
    "subject_of (new_asset_finding now tenant asset vuln s0 s1 u n) = (asset, vuln)" "af_tenant_id (new_asset_finding now tenant asset vuln s0 s1 u n) = tenant"
  by (simp_all add: new_asset_finding_def life_ok_def subject_of_def)

lemma owned_cong: "af_asset_id f = af_asset_id g \<Longrightarrow> af_tenant_id f = af_tenant_id g \<Longrightarrow> owned assets f = owned assets g"
  by (simp add: owned_def)

lemma asset_finding_found: "asset_finding_row db asset vuln = Some f \<Longrightarrow> f \<in> set (t_rows (tb_asset_findings db)) \<and> subject_of f = (asset, vuln)"
  unfolding asset_finding_row_def by (drule t_first_Some) (simp add: subject_of_def)

lemma split_off_ok:
  assumes ok: "findings_ok db" and donor: "donor \<in> set (t_rows (tb_asset_findings db))"
  shows "findings_ok (split_off now donor m vuln supporting db) \<and> fixed (split_off now donor m vuln supporting db) = fixed db"
proof -
  let ?existing = "asset_finding_row db (af_asset_id donor) vuln"
  define mk where "mk = new_asset_finding now (af_tenant_id donor) (af_asset_id donor) vuln
     (the (min_opt (map fnd_found_at supporting))) (the (max_opt (map fnd_found_at supporting))) now"
  define keeper where "keeper = (case ?existing of Some k \<Rightarrow> k | None \<Rightarrow> mk (t_next (tb_asset_findings db)))"
  define db1 where "db1 = (if ?existing = None then db\<lparr>tb_asset_findings := t_insert mk (tb_asset_findings db)\<rparr> else db)"
  define db2 where "db2 = set_evidence (\<lambda>e. fnd_asset_finding_id e = Some (af_id donor) \<and> pair_of e = detector_of m) (move_evidence keeper) db1"
  define db3 where "db3 = recompute_seen now (af_id donor) (recompute_seen now (af_id keeper) db2)"
  have mk: "af_asset_id (mk n) = af_asset_id donor" "af_tenant_id (mk n) = af_tenant_id donor" for n by (simp_all add: mk_def new_asset_finding_def)
  have "owned (tb_assets db) (mk n)" for n using findings_okD(2) [OF ok donor] mk owned_cong by metis
  then have ok1: "findings_ok db1"
    using ok unfolding db1_def by (auto intro!: insert_finding_ok simp: mk_def new_finding_ok)
  have keeper: "keeper \<in> set (t_rows (tb_asset_findings db1))"
    by (auto simp: keeper_def db1_def dest: asset_finding_found split: option.splits)
  have "af_asset_id keeper = af_asset_id donor"
    using mk by (auto simp: keeper_def subject_of_def dest: asset_finding_found split: option.splits)
  have donor1: "donor \<in> set (t_rows (tb_asset_findings db1))" using donor by (simp add: db1_def)
  have tenant: "af_tenant_id keeper = af_tenant_id donor"
  proof -
    obtain a where "a \<in> set (t_rows (tb_assets db1))" "asset_id a = af_asset_id donor" "asset_tenant_id a = af_tenant_id donor"
      using findings_okD(2) [OF ok1 donor1] unfolding owned_def list_ex_iff by blast
    with owner_tenant [OF ok1 keeper] \<open>af_asset_id keeper = af_asset_id donor\<close> show ?thesis by simp
  qed
  have tenants: "fnd_tenant_id e = af_tenant_id keeper" if "e \<in> set (t_rows (tb_findings db1))"
      "fnd_asset_finding_id e = Some (af_id donor) \<and> pair_of e = detector_of m" for e
    using evidence_tenant [OF ok1 that(1) _ donor1] that(2) tenant by simp
  have "findings_ok db2" unfolding db2_def
    using tenants findings_okD(3) [OF ok1 keeper] by (intro move_evidence_ok [OF ok1])
  then have "findings_ok db3" unfolding db3_def by (simp add: recompute_seen_ok)
  moreover have "fixed db3 = fixed db"
  proof -
    have "fixed db2 = fixed db1" unfolding db2_def using tenants by (rule move_evidence_fixed)
    moreover have "fixed db1 = fixed db" by (simp add: db1_def fixed_def)
    ultimately show ?thesis by (simp add: db3_def)
  qed
  moreover have "findings_ok (split_off now donor m vuln supporting db) = findings_ok db3"
      "fixed (split_off now donor m vuln supporting db) = fixed db3"
    unfolding split_off_def Let_def keeps_ok [OF recalculate_findings_keeps] keeps_fixed [OF recalculate_findings_keeps]
      mk_def [symmetric] keeper_def [symmetric] db1_def [symmetric] db2_def [symmetric] db3_def [symmetric]
    by (simp_all add: append_history_ok)
  ultimately show ?thesis by simp
qed

lemma partition_cases:
  "(if a then Inr x else if \<not> b then (case v of None \<Rightarrow> Inr y | Some k \<Rightarrow> F k) else Inr z) = Inr r \<Longrightarrow>
     r = x \<or> r = z \<or> v = None \<and> r = y \<or> (\<exists>k. v = Some k \<and> F k = Inr r)"
  by (auto split: if_splits option.splits)

lemma partition_ok:
  assumes ok: "findings_ok db" and run: "partition_asset_finding_for_mapping now m vuln d db = Inr db'"
  shows "findings_ok db' \<and> fixed db' = fixed db"
proof (cases "get_finding d db")
  case None
  with ok run show ?thesis by (simp add: partition_asset_finding_for_mapping_def)
next
  case (Some donor)
  have donor: "donor \<in> set (t_rows (tb_asset_findings db))" "af_id donor = d" using finding_row [OF ok Some] by auto
  let ?supporting = "t_select (\<lambda>e. fnd_asset_finding_id e = Some d \<and> pair_of e = detector_of m) (tb_findings db)"
  let ?other = "t_first (\<lambda>f. af_asset_id f = af_asset_id donor \<and> af_vulnerability_id f = vuln \<and> af_id f \<noteq> d) (tb_asset_findings db)"
  have "(if ?supporting = [] then Inr db
      else if \<not> other_detector_evidence_exists db d m
      then (case ?other of None \<Rightarrow> Inr (set_finding d (\<lambda>f. f\<lparr>af_vulnerability_id := vuln, af_updated_at := now\<rparr>) db)
        | Some keeper \<Rightarrow> merge_duplicate_asset_findings now keeper donor None db)
      else Inr (split_off now donor m vuln ?supporting db)) = Inr db'"
    using run unfolding partition_asset_finding_for_mapping_def Some option.case Let_def .
  then have "db' = db \<or> db' = split_off now donor m vuln ?supporting db \<or>
      ?other = None \<and> db' = set_finding d (\<lambda>f. f\<lparr>af_vulnerability_id := vuln, af_updated_at := now\<rparr>) db \<or>
      (\<exists>keeper. ?other = Some keeper \<and> merge_duplicate_asset_findings now keeper donor None db = Inr db')"
    by (rule partition_cases)
  then consider (same) "db' = db" | (split) "db' = split_off now donor m vuln ?supporting db"
    | (move) "?other = None" "db' = set_finding d (\<lambda>f. f\<lparr>af_vulnerability_id := vuln, af_updated_at := now\<rparr>) db"
    | (merge) keeper where "?other = Some keeper" "merge_duplicate_asset_findings now keeper donor None db = Inr db'"
    by (elim disjE conjE exE)
  then show ?thesis
  proof cases
    case same
    with ok show ?thesis by simp
  next
    case split
    show ?thesis unfolding split by (rule split_off_ok [OF ok donor(1)])
  next
    case move
    let ?f = "\<lambda>f. f\<lparr>af_vulnerability_id := vuln, af_updated_at := now\<rparr>"
    have fields: "life_ok (?f f) = life_ok f" "owned (tb_assets db) (?f f) = owned (tb_assets db) f" "subject_of (?f f) = (af_asset_id f, vuln)" for f
      by (simp_all add: life_ok_def owned_def subject_of_def)
    have "findings_ok (set_finding d ?f db)"
    proof (rule set_finding_ok [OF ok])
      fix f assume f: "f \<in> set (t_rows (tb_asset_findings db))" "af_id f = d"
      then have "f = donor" using findings_okD(4) [OF ok donor(1)] donor(2) by simp
      have "\<forall>g \<in> set (t_rows (tb_asset_findings db)). af_id g \<noteq> d \<longrightarrow> subject_of g \<noteq> (af_asset_id f, vuln)"
        using move(1) unfolding t_first_None \<open>f = donor\<close> subject_of_def prod.inject by blast
      then show "life_ok (?f f) \<and> owned (tb_assets db) (?f f) \<and>
          (\<forall>g \<in> set (t_rows (tb_asset_findings db)). af_id g \<noteq> d \<longrightarrow> subject_of g \<noteq> subject_of (?f f))"
        using findings_okD(1,2) [OF ok f(1)] unfolding fields by blast
    qed simp
    then show ?thesis unfolding move(2) by simp
  next
    case merge
    have k: "keeper \<in> set (t_rows (tb_asset_findings db))" "af_asset_id keeper = af_asset_id donor"
      using t_first_Some [OF merge(1)] by auto
    obtain a where "a \<in> set (t_rows (tb_assets db))" "asset_id a = af_asset_id donor" "asset_tenant_id a = af_tenant_id donor"
      using findings_okD(2) [OF ok donor(1)] unfolding owned_def list_ex_iff by blast
    then have "af_tenant_id donor = af_tenant_id keeper" using owner_tenant [OF ok k(1)] k(2) by simp
    from merge_duplicate_ok [OF ok k(1) findings_okD(1) [OF ok donor(1)] this id_tenant [OF ok donor(1)] merge(2)] show ?thesis .
  qed
qed

lemma set_mapping_ok [simp]: "findings_ok (set_mapping i f db) = findings_ok db" "fixed (set_mapping i f db) = fixed db"
  by (simp_all add: findings_ok_def fixed_def set_mapping_def)

lemma retarget_ok:
  assumes ok: "findings_ok db" and run: "retarget_mapping now m vuln db = Inr db'"
  shows "findings_ok db' \<and> fixed db' = fixed db"
proof (cases "vdm_vulnerability_id m = vuln")
  case False
  let ?db1 = "set_mapping (vdm_id m) (\<lambda>m. m\<lparr>vdm_vulnerability_id := vuln\<rparr>) db"
  let ?P = "\<lambda>u. findings_ok u \<and> fixed u = fixed db"
  show "?P db'"
  proof (rule rfold_invariant [where P = ?P])
    show "rfold (partition_asset_finding_for_mapping now m vuln) (retarget_donors db m) ?db1 = Inr db'"
      using run unfolding retarget_mapping_def if_not_P [OF False] .
    show "?P ?db1" using ok by simp
    fix d u v assume u: "?P u" and s: "partition_asset_finding_for_mapping now m vuln d u = Inr v"
    show "?P v" using partition_ok [OF conjunct1 [OF u] s] conjunct2 [OF u] by simp
  qed
qed (use assms in \<open>simp add: retarget_mapping_def\<close>)

lemma vulnerability_step_frame:
  assumes "get_or_create_vulnerability now d index db = (db', index', v)"
  shows "db' = db\<lparr>tb_vulnerabilities := tb_vulnerabilities db'\<rparr>"
  using assms by (auto simp: get_or_create_vulnerability_def set_vulnerability_def Let_def split: if_splits prod.splits option.splits)

lemma upsert_ok:
  assumes ok: "findings_ok db" and run: "upsert_detector_catalog now d index db = Inr (db', index', r)"
  shows "findings_ok db' \<and> fixed db' = fixed db"
proof (cases "di_detector_type d = [] \<or> di_detector_key d = []")
  case True
  with ok run show ?thesis by (auto simp: upsert_detector_catalog_def)
next
  case False
  obtain index1 key cve where want: "desired_catalog_identity d index db = (index1, key, cve)" by (metis prod_cases3)
  obtain db1 index2 v where v: "get_or_create_vulnerability now (d\<lparr>di_canonical_key := key, di_cve_id := cve\<rparr>) index1 db = (db1, index2, v)"
    by (metis prod_cases3)
  have ok1: "findings_ok db1" using ok by (subst vulnerability_step_frame [OF v]) (simp add: findings_ok_def)
  have fixed1: "fixed db1 = fixed db" by (subst vulnerability_step_frame [OF v]) (simp add: fixed_def)
  show ?thesis
  proof (cases v)
    case None
    with ok1 fixed1 run False want v show ?thesis by (auto simp: upsert_detector_catalog_def)
  next
    case (Some vv)
    obtain index3 m where m: "mapping_for db1 (di_detector_type d, di_detector_key d) index2 = (index3, m)" by fastforce
    show ?thesis
    proof (cases m)
      case None
      with ok1 fixed1 run False want v Some m show ?thesis by (auto simp: upsert_detector_catalog_def findings_ok_def fixed_def Let_def)
    next
      case (Some mm)
      then obtain db2 where r: "retarget_mapping now mm (vul_id vv) db1 = Inr db2" and "db' = set_mapping (vdm_id mm) (refresh_mapping d) db2"
        using run False want v \<open>v = Some vv\<close> m by (auto simp: upsert_detector_catalog_def rbind_Inr_iff Let_def)
      with retarget_ok [OF ok1 r] fixed1 show ?thesis by simp
    qed
  qed
qed

text \<open>While the findings of a source are merged, a row keeps its id, its vulnerability and its tenant.\<close>

definition row_keys :: "db \<Rightarrow> (nat \<times> nat \<times> nat) set" where
  "row_keys db = (\<lambda>f. (af_id f, af_vulnerability_id f, af_tenant_id f)) ` set (t_rows (tb_asset_findings db))"

lemma row_keys_life: "row_keys db = (\<lambda>f. (af_id f, af_vulnerability_id f, af_tenant_id f)) ` set (t_rows (life_table (tb_asset_findings db)))"
  by (simp add: row_keys_def life_table_def image_image)

lemma keeps_row_keys: "keeps db db' \<Longrightarrow> row_keys db' = row_keys db"
  by (simp add: row_keys_life keepsD(1))

lemma set_finding_row_keys: "(\<And>f. f \<in> set (t_rows (tb_asset_findings db)) \<Longrightarrow> af_id f = i \<Longrightarrow> af_id (change f) = af_id f \<and> af_vulnerability_id (change f) = af_vulnerability_id f \<and>
      af_tenant_id (change f) = af_tenant_id f) \<Longrightarrow> row_keys (set_finding i change db) = row_keys db"
  unfolding row_keys_def set_finding_def by (simp add: image_image del: if_image_distrib) (rule image_cong [OF refl], simp)

lemma merge_duplicate_row_keys:
  assumes "merge_duplicate_asset_findings now keeper donor loaded db = Inr db'"
  shows "row_keys db' \<subseteq> row_keys db"
proof -
  obtain db1 db2 db3 H E where k1: "keeps (set_finding (af_id keeper) (merged_finding donor) db) db1"
    and db2: "db2 = set_finding (af_id keeper) (\<lambda>f. f\<lparr>af_updated_at := now\<rparr>) db1"
    and db3: "db3 = set_evidence (\<lambda>e. fnd_asset_finding_id e = Some (af_id donor)) (move_evidence keeper) db2"
    and kd: "keeps (delete_asset_finding (af_id donor) loaded (db3\<lparr>tb_asset_finding_history := H, tb_asset_finding_run_evaluations := E\<rparr>)) db'"
    using merge_duplicate_steps [OF assms] by metis
  have "row_keys db' \<subseteq> row_keys db3"
    unfolding keeps_row_keys [OF kd] by (auto simp: row_keys_def delete_asset_finding_def Let_def)
  also have "row_keys db3 = row_keys db2" by (simp add: db3 row_keys_def set_evidence_def)
  also have "\<dots> = row_keys db1" unfolding db2 by (rule set_finding_row_keys) simp
  also have "\<dots> = row_keys (set_finding (af_id keeper) (merged_finding donor) db)" by (rule keeps_row_keys [OF k1])
  also have "\<dots> = row_keys db" by (rule set_finding_row_keys) (simp add: merged_finding_def Let_def)
  finally show ?thesis .
qed

lemma merge_source_finding_ok:
  assumes ok: "findings_ok db" and target: "target \<in> set (t_rows (tb_assets db))" and tenant: "af_tenant_id donor = asset_tenant_id target"
    and donor: "life_ok donor" and key: "\<And>v tn. (af_id donor, v, tn) \<in> row_keys db \<Longrightarrow> v = af_vulnerability_id donor \<and> tn = af_tenant_id donor"
    and run: "merge_source_finding now target (donor, loaded) (db, unflushed) = Inr (db', unflushed')"
  shows "findings_ok db' \<and> row_keys db' \<subseteq> row_keys db \<and> tb_assets db' = tb_assets db"
proof (cases "flushed_finding db unflushed (asset_id target) (af_vulnerability_id donor)")
  case (Some keeper)
  then have m: "merge_duplicate_asset_findings now keeper donor (Some loaded) db = Inr db'"
    using run by (auto simp: merge_source_finding_def rbind_Inr_iff)
  have k: "keeper \<in> set (t_rows (tb_asset_findings db))" "af_asset_id keeper = asset_id target"
    using t_first_Some [OF Some [unfolded flushed_finding_def]] by auto
  have "af_tenant_id donor = af_tenant_id keeper" using owner_tenant [OF ok k(1) target k(2)] tenant by simp
  moreover have "tn = af_tenant_id donor" if "(af_id donor, tn) \<in> set (finding_ids (tb_asset_findings db))" for tn
    using that key by (auto simp: finding_ids_def row_keys_def)
  ultimately have "findings_ok db'" using merge_duplicate_ok [OF ok k(1) donor _ _ m] by blast
  moreover obtain db1 db2 db3 H E where "keeps (set_finding (af_id keeper) (merged_finding donor) db) db1"
    "db2 = set_finding (af_id keeper) (\<lambda>f. f\<lparr>af_updated_at := now\<rparr>) db1"
    "db3 = set_evidence (\<lambda>e. fnd_asset_finding_id e = Some (af_id donor)) (move_evidence keeper) db2"
    "keeps (delete_asset_finding (af_id donor) (Some loaded) (db3\<lparr>tb_asset_finding_history := H, tb_asset_finding_run_evaluations := E\<rparr>)) db'"
    using merge_duplicate_steps [OF m] by metis
  then have "tb_assets db' = tb_assets db"
    by (auto dest!: keepsD(3) simp: set_finding_def set_evidence_def delete_asset_finding_def Let_def)
  ultimately show ?thesis using merge_duplicate_row_keys [OF m] by simp
next
  case None
  let ?f = "\<lambda>f. f\<lparr>af_asset_id := asset_id target, af_tenant_id := asset_tenant_id target, af_updated_at := now\<rparr>"
  let ?P = "\<lambda>e. fnd_asset_finding_id e = Some (af_id donor)"
  let ?g = "\<lambda>e. e\<lparr>fnd_asset_id := Some (asset_id target), fnd_tenant_id := asset_tenant_id target\<rparr>"
  let ?db1 = "set_finding (af_id donor) ?f db"
  have none: "asset_finding_row db (asset_id target) (af_vulnerability_id donor) = None" and db': "db' = set_evidence ?P ?g ?db1"
    using run None by (auto simp: merge_source_finding_def give_finding_def split: if_splits)
  have row: "af_vulnerability_id f = af_vulnerability_id donor \<and> af_tenant_id f = asset_tenant_id target"
    if "f \<in> set (t_rows (tb_asset_findings db))" "af_id f = af_id donor" for f
  proof -
    have "(af_id f, af_vulnerability_id f, af_tenant_id f) \<in> row_keys db" using that(1) by (simp add: row_keys_def)
    then show ?thesis using key that(2) tenant by simp
  qed
  have "finding_rows_ok (tb_assets db) (t_modify (\<lambda>f. af_id f = af_id donor) ?f (tb_asset_findings db))"
  proof (rule modify_rows_ok)
    fix f assume f: "f \<in> set (t_rows (tb_asset_findings db))" "af_id f = af_id donor"
    have "life_ok (?f f)" using findings_okD(1) [OF ok f(1)] by (simp add: life_ok_def)
    moreover have "owned (tb_assets db) (?f f)" using target by (auto simp: owned_def list_ex_iff)
    moreover have "\<forall>g \<in> set (t_rows (tb_asset_findings db)). subject_of g \<noteq> (asset_id target, af_vulnerability_id donor)"
      using none by (simp add: asset_finding_row_def t_first_None subject_of_def)
    moreover have "subject_of (?f f) = (asset_id target, af_vulnerability_id donor)" using row [OF f] by (simp add: subject_of_def)
    ultimately show "life_ok (?f f) \<and> owned (tb_assets db) (?f f) \<and>
        (\<forall>g \<in> set (t_rows (tb_asset_findings db)). af_id g \<noteq> af_id donor \<longrightarrow> subject_of g \<noteq> subject_of (?f f))" by simp
  qed (use ok in \<open>simp_all add: findings_ok_def\<close>)
  moreover have ids: "finding_ids (t_modify (\<lambda>f. af_id f = af_id donor) ?f (tb_asset_findings db)) = finding_ids (tb_asset_findings db)"
    using row by (auto simp: finding_ids_def)
  moreover have "evidence_rows_ok (tb_scan_jobs db) (finding_ids (tb_asset_findings db)) (t_modify ?P ?g (tb_findings db))"
  proof (rule evidence_modify_ok)
    show ev: "evidence_rows_ok (tb_scan_jobs db) (finding_ids (tb_asset_findings db)) (tb_findings db)"
      using ok by (simp add: findings_ok_def)
    have same: "fnd_tenant_id e = asset_tenant_id target" if "e \<in> set (t_rows (tb_findings db))" "?P e" for e
    proof -
      have "(af_id donor, fnd_tenant_id e) \<in> set (finding_ids (tb_asset_findings db))"
        using ev that by (auto simp: evidence_rows_ok_def list_all_iff reference_ok_def)
      then show ?thesis using row by (auto simp: finding_ids_def)
    qed
    then show "fnd_id (?g e) = fnd_id e \<and> fnd_scan_job_id (?g e) = fnd_scan_job_id e \<and> fnd_evidence_key (?g e) = fnd_evidence_key e \<and>
        fnd_tenant_id (?g e) = fnd_tenant_id e" if "e \<in> set (t_rows (tb_findings db))" "?P e" for e using that by simp
    show "reference_ok (finding_ids (tb_asset_findings db)) (if ?P e then ?g e else e)" if e: "e \<in> set (t_rows (tb_findings db))" for e
    proof -
      have "reference_ok (finding_ids (tb_asset_findings db)) e" using ev e by (auto simp: evidence_rows_ok_def list_all_iff)
      then show ?thesis using same [OF e] by (auto simp: reference_ok_def)
    qed
  qed
  ultimately have "findings_ok db'" using ok by (simp add: findings_ok_def db' set_finding_def set_evidence_def)
  moreover have "row_keys db' = row_keys ?db1" by (simp add: db' row_keys_def set_evidence_def)
  moreover have "row_keys ?db1 = row_keys db" using row by (intro set_finding_row_keys) simp
  moreover have "tb_assets db' = tb_assets db" by (simp add: db' set_evidence_def set_finding_def)
  ultimately show ?thesis by simp
qed

lemma merge_source_ok:
  assumes ok: "findings_ok (fst s)" and target: "target \<in> set (t_rows (tb_assets (fst s)))" and source: "source \<in> set (t_rows (tb_assets (fst s)))"
    and tenant: "asset_tenant_id source = asset_tenant_id target" and run: "merge_source now target source s = Inr s'"
  shows "findings_ok (fst s') \<and> tb_assets (fst s') = tb_assets (fst s)"
proof -
  let ?donors = "t_select (\<lambda>f. af_asset_id f = asset_id source) (tb_asset_findings (fst s))"
  let ?P = "\<lambda>u. findings_ok (fst u) \<and> row_keys (fst u) \<subseteq> row_keys (fst s) \<and> tb_assets (fst u) = tb_assets (fst s)"
  have "?P s'"
  proof (rule rfold_invariant [where P = ?P])
    show "rfold (merge_source_finding now target) (map (\<lambda>f. (f, children_of (af_id f) (fst s))) ?donors) s = Inr s'"
      using run by (simp add: merge_source_def)
    show "?P s" using ok by simp
    fix dl u v assume dl: "dl \<in> set (map (\<lambda>f. (f, children_of (af_id f) (fst s))) ?donors)" and u: "?P u"
      and step: "merge_source_finding now target dl u = Inr v"
    from dl obtain donor loaded where d: "dl = (donor, loaded)" "donor \<in> set (t_rows (tb_asset_findings (fst s)))" "af_asset_id donor = asset_id source"
      by (auto simp: t_select_def)
    have key: "v = af_vulnerability_id donor \<and> tn = af_tenant_id donor" if "(af_id donor, v, tn) \<in> row_keys (fst u)" for v tn
    proof -
      have "(af_id donor, v, tn) \<in> row_keys (fst s)" using that u by (elim conjE) (rule subsetD)
      then obtain f where f: "f \<in> set (t_rows (tb_asset_findings (fst s)))" "af_id f = af_id donor" "v = af_vulnerability_id f" "tn = af_tenant_id f"
        unfolding row_keys_def by (elim imageE) simp
      with findings_okD(4) [OF ok d(2) f(1,2)] show ?thesis by simp
    qed
    have tn: "af_tenant_id donor = asset_tenant_id target" using owner_tenant [OF ok d(2) source d(3)] tenant by simp
    have tg: "target \<in> set (t_rows (tb_assets (fst u)))" using u target by simp
    have one: "merge_source_finding now target (donor, loaded) (fst u, snd u) = Inr (fst v, snd v)" using step d(1) by simp
    have "findings_ok (fst v) \<and> row_keys (fst v) \<subseteq> row_keys (fst u) \<and> tb_assets (fst v) = tb_assets (fst u)"
      by (rule merge_source_finding_ok [OF conjunct1 [OF u] tg tn findings_okD(1) [OF ok d(2)] key one])
    then show "?P v" using u by (elim conjE) (intro conjI, assumption, erule subset_trans, assumption, simp)
  qed
  then show ?thesis by simp
qed

lemma merge_findings_ok:
  assumes ok: "findings_ok db" and assets: "set (target # sources) \<subseteq> set (t_rows (tb_assets db))" and run: "merge_asset_findings now target sources db = Inr db'"
  shows "findings_ok db'"
proof -
  have tenants: "asset_tenant_id s = asset_tenant_id target" if "s \<in> set sources" for s
    using run that by (auto simp: merge_asset_findings_def list_ex_iff split: if_splits)
  obtain p where "rfold (merge_source now target) sources (db, []) = Inr (db', p)"
    using run by (auto simp: merge_asset_findings_def rbind_Inr_iff split: if_splits)
  then have "findings_ok (fst (db', p)) \<and> tb_assets (fst (db', p)) = tb_assets db"
  proof (rule rfold_invariant [where P = "\<lambda>u. findings_ok (fst u) \<and> tb_assets (fst u) = tb_assets db"])
    fix source u v assume s: "source \<in> set sources" and u: "findings_ok (fst u) \<and> tb_assets (fst u) = tb_assets db"
      and step: "merge_source now target source u = Inr v"
    have "target \<in> set (t_rows (tb_assets (fst u)))" "source \<in> set (t_rows (tb_assets (fst u)))" using u s assets by auto
    from merge_source_ok [OF conjunct1 [OF u] this tenants [OF s] step] u
    show "findings_ok (fst v) \<and> tb_assets (fst v) = tb_assets db" by simp
  qed (use ok in simp)
  then show ?thesis by simp
qed

subsection \<open>What a merge of assets loses\<close>

lemma deleted_evidence:
  assumes "e \<in> set (t_rows (tb_findings db))" "fnd_id e \<in> set (lc_evidence lc)"
  shows "\<exists>e' \<in> set (t_rows (tb_findings (delete_asset_finding d (Some lc) db))). fnd_id e' = fnd_id e \<and> fnd_asset_finding_id e' = None"
  using assms by (force simp: delete_asset_finding_def)

lemma deleted_history:
  "h \<in> set (t_rows (tb_asset_finding_history (delete_asset_finding d (Some lc) db))) \<Longrightarrow> afh_id h \<notin> set (lc_history lc)"
  by (simp add: delete_asset_finding_def)

subsection \<open>The control mappings of merged findings\<close>

text \<open>Treatments, priorities, events and audit records leave the control mappings alone.\<close>

lemma recalculate_refs: "refs (fst (recalculate_asset_finding_priorities now rows db)) = refs db"
proof -
  have "refs (fold (\<lambda>f db'. db'\<lparr>tb_asset_findings := t_modify (\<lambda>r. af_id r = af_id f)
      (prioritise now (g f)) (tb_asset_findings db')\<rparr>) rows db) = refs db" for g
    by (rule fold_invariant_rule [where P = "\<lambda>d. refs d = refs db"]) simp_all
  then show ?thesis by (simp add: recalculate_asset_finding_priorities_def)
qed

lemma priority_refs: "refs (recalculate_priority now i db) = refs db"
  by (simp add: recalculate_priority_def recalculate_refs split: option.splits)

lemma project_refs: "refs (project_state now active i db) = refs db"
  by (simp add: project_state_def priority_refs set_finding_def)

lemma announce_expired_refs: "announce_expired now i t db = Inr db' \<Longrightarrow> refs db' = refs db"
  by (auto simp: announce_expired_def rbind_Inr_iff emit_treatment_expired_def Let_def record_audit_fst
      split: option.splits dest!: emit_frame)

lemma expire_refs:
  assumes "expire_elapsed_treatments_for_finding now i db = Inr (db', n)"
  shows "refs db' = refs db"
proof (cases "elapsed_rows now i db = []")
  case True
  with assms show ?thesis by (simp add: expire_elapsed_treatments_for_finding_def)
next
  case False
  let ?db2 = "project_state now (unelapsed_active now i (mark_expired now i db)) i (mark_expired now i db)"
  have "rfold (announce_expired now i) (map (expire_row now) (elapsed_rows now i db)) ?db2 = Inr db'"
    using False assms by (auto simp: expire_elapsed_treatments_for_finding_def Let_def rbind_Inr_iff)
  then have "refs db' = refs ?db2"
    by (rule rfold_invariant [where P = "\<lambda>d. refs d = refs ?db2"]) (auto dest: announce_expired_refs)
  then show ?thesis by (simp add: project_refs mark_expired_def)
qed

lemma current_refs: "current_active_treatment now i db = Inr (db', r) \<Longrightarrow> refs db' = refs db"
  by (auto simp: current_active_treatment_def rbind_Inr_iff dest: expire_refs split: option.splits if_splits)

lemma reconcile_refs: "reconcile_treatment_projection now i db = Inr db' \<Longrightarrow> refs db' = refs db"
  by (auto simp: reconcile_treatment_projection_def rbind_Inr_iff project_refs dest: current_refs)

lemma collide_refs: "refs (collide now k d t db) = refs db"
  by (simp add: collide_def set_treatment_def record_audit_fst)

lemma merge_treatments_refs:
  assumes run: "merge_finding_treatments now keeper donor db = Inr db'"
  obtains d where "refs d = refs db" "refs db' = refs (reassign_asset_finding_control_references now keeper donor d)"
proof -
  let ?k = "af_id keeper" let ?d = "af_id donor"
  obtain db1 n1 db2 n2 db3 ka db4 da db5 db7 db8 active where
    e1: "expire_elapsed_treatments_for_finding now ?k db = Inr (db1, n1)" and
    e2: "expire_elapsed_treatments_for_finding now ?d db1 = Inr (db2, n2)" and
    c1: "current_active_treatment now ?k db2 = Inr (db3, ka)" and c2: "current_active_treatment now ?d db3 = Inr (db4, da)" and
    db5: "db5 = (case (ka, da) of (Some a, Some b) \<Rightarrow> collide now ?k ?d b (collide now ?k ?d a db4) | _ \<Rightarrow> db4)" and
    db7: "db7 = reassign_asset_finding_control_references now keeper donor (move_treatments ?d ?k (af_tenant_id keeper) db5)" and
    c3: "current_active_treatment now ?k db7 = Inr (db8, active)" and
    fin: "(if active = None \<and> map_option af_treatment_state (get_finding ?k db8) \<noteq> map_option af_treatment_state (get_finding ?d db8)
      then Inr (recalculate_priority now ?k (set_finding ?k (\<lambda>f. f\<lparr>af_treatment_state := TREATMENT_UNADDRESSED, af_updated_at := now\<rparr>) db8))
      else reconcile_treatment_projection now ?k db8) = Inr db'"
    using run unfolding merge_finding_treatments_def Let_def rbind_Inr_iff split_paired_Ex case_prod_conv by blast
  let ?m = "move_treatments ?d ?k (af_tenant_id keeper) db5"
  have "refs db4 = refs db" using expire_refs [OF e1] expire_refs [OF e2] current_refs [OF c1] current_refs [OF c2] by simp
  moreover have "refs db5 = refs db4" unfolding db5 by (cases ka; cases da) (simp_all add: collide_refs)
  ultimately have "refs ?m = refs db" by (simp add: move_treatments_def)
  moreover have "refs db' = refs db8"
  proof (cases "active = None \<and> map_option af_treatment_state (get_finding ?k db8) \<noteq> map_option af_treatment_state (get_finding ?d db8)")
    case True
    then have "db' = recalculate_priority now ?k (set_finding ?k (\<lambda>f. f\<lparr>af_treatment_state := TREATMENT_UNADDRESSED, af_updated_at := now\<rparr>) db8)"
      using fin by simp
    then show ?thesis by (simp add: priority_refs set_finding_def)
  next
    case False
    have "reconcile_treatment_projection now ?k db8 = Inr db'" using fin unfolding if_not_P [OF False] .
    then show ?thesis by (rule reconcile_refs)
  qed
  then have "refs db' = refs (reassign_asset_finding_control_references now keeper donor ?m)"
    using current_refs [OF c3] by (simp add: db7)
  ultimately show ?thesis by (rule that)
qed

lemma merge_duplicate_refs:
  assumes ok: "refs_ok db" and run: "merge_duplicate_asset_findings now keeper donor loaded db = Inr db'"
  shows "refs db' = t_delete (\<lambda>r. ccr_asset_finding_id r = Some (af_id donor)) (refs (reassign_asset_finding_control_references now keeper donor db))"
proof -
  let ?k = "merged_finding donor keeper"
  obtain db1 where m: "merge_finding_treatments now ?k donor (set_finding (af_id keeper) (merged_finding donor) db) = Inr db1"
    using run by (auto simp: merge_duplicate_asset_findings_def Let_def rbind_Inr_iff)
  then have db': "refs db' = t_delete (\<lambda>r. ccr_asset_finding_id r = Some (af_id donor)) (refs db1)"
    using run by (auto simp: merge_duplicate_asset_findings_def Let_def rbind_Inr_iff merge_evaluations_def recalculate_findings_def
        recalculate_refs delete_asset_finding_def set_evidence_def set_finding_def split: if_splits)
  obtain d where d: "refs d = refs (set_finding (af_id keeper) (merged_finding donor) db)" "refs db1 = refs (reassign_asset_finding_control_references now ?k donor d)"
    by (rule merge_treatments_refs [OF m])
  then have same: "refs d = refs db" by (simp add: set_finding_def)
  then have "refs_ok d" using ok refs_ok_cong by blast
  moreover have "active_refs d i = active_refs db i" for i using same by (simp add: active_refs_def)
  moreover have "merged_row now ?k = merged_row now keeper"
    by (intro ext) (simp add: merged_row_def moved_to_def merged_same)
  ultimately have "refs db1 = refs (reassign_asset_finding_control_references now keeper donor db)"
    using reassign_rows [of d] reassign_rows [OF ok] same by (simp add: d(2) merged_same)
  with db' show ?thesis by simp
qed

text \<open>C28: merging a finding into another keeps the union of their control mappings, and loses the
  history of the donor's. After the whole merge the keeper is actively mapped to the controls that
  either of them was mapped to and to no other; the rows of other objects and of the keeper are
  unchanged; and of the donor's rows exactly the mappings that were removed before, and those the
  merge closes as duplicates of the keeper's, are gone from the table, because the donor is deleted
  and the foreign key cascades.\<close>

theorem merge_unites_mappings:
  assumes "refs_ok db" and "af_id keeper \<noteq> af_id donor"
    and "merge_duplicate_asset_findings now keeper donor loaded db = Inr db'"
  shows "ccr_control_id ` set (active_refs db' (af_id keeper)) =
      ccr_control_id ` set (active_refs db (af_id keeper)) \<union> ccr_control_id ` set (active_refs db (af_id donor)) \<and>
    (\<forall>r \<in> set (t_rows (refs db)). ccr_asset_finding_id r \<noteq> Some (af_id donor) \<longrightarrow> r \<in> set (t_rows (refs db'))) \<and>
    map ccr_id (t_rows (refs db')) = map ccr_id (filter (\<lambda>r. \<not> (ccr_asset_finding_id r = Some (af_id donor) \<and>
      (ccr_removed_at r \<noteq> None \<or> ccr_control_id r \<in> ccr_control_id ` set (active_refs db (af_id keeper))))) (t_rows (refs db)))"
proof -
  let ?m = "reassign_asset_finding_control_references now keeper donor db"
  let ?D = "active_refs db (af_id donor)" let ?K = "map ccr_control_id (active_refs db (af_id keeper))"
  let ?f = "\<lambda>r. if r \<in> set ?D then merged_row now keeper ?K r else r"
  note un = reassign_unites_mappings [OF assms(1,2) refl, of now]
  have rows: "t_rows (refs ?m) = map ?f (t_rows (refs db))" using reassign_rows [OF assms(1)] by simp
  have db': "refs db' = t_delete (\<lambda>r. ccr_asset_finding_id r = Some (af_id donor)) (refs ?m)"
    by (rule merge_duplicate_refs [OF assms(1,3)])
  have keeper: "active_refs db' (af_id keeper) = active_refs ?m (af_id keeper)"
    using assms(2) by (auto simp: active_refs_def db' t_select_def intro!: filter_cong)
  have id: "ccr_id (?f r) = ccr_id r" for r by (simp add: merged_row_def close_reference_def moved_to_def)
  have mem: "r \<in> set ?D \<longleftrightarrow> ccr_asset_finding_id r = Some (af_id donor) \<and> ccr_removed_at r = None" if "r \<in> set (t_rows (refs db))" for r
    using that by (simp add: active_refs_iff)
  have gone: "ccr_asset_finding_id (?f r) = Some (af_id donor) \<longleftrightarrow> ccr_asset_finding_id r = Some (af_id donor) \<and>
      (ccr_removed_at r \<noteq> None \<or> ccr_control_id r \<in> set ?K)" if "r \<in> set (t_rows (refs db))" for r
    using mem [OF that] assms(2) by (auto simp: merged_row_def close_reference_def moved_to_def)
  have "t_rows (refs db') = map ?f (filter (\<lambda>r. ccr_asset_finding_id (?f r) \<noteq> Some (af_id donor)) (t_rows (refs db)))"
    by (simp add: db' rows filter_map o_def)
  also have "filter (\<lambda>r. ccr_asset_finding_id (?f r) \<noteq> Some (af_id donor)) (t_rows (refs db)) =
      filter (\<lambda>r. \<not> (ccr_asset_finding_id r = Some (af_id donor) \<and> (ccr_removed_at r \<noteq> None \<or> ccr_control_id r \<in> set ?K))) (t_rows (refs db))"
    by (rule filter_cong [OF refl]) (simp only: gone)
  finally have kept: "t_rows (refs db') = map ?f (filter (\<lambda>r. \<not> (ccr_asset_finding_id r = Some (af_id donor) \<and>
      (ccr_removed_at r \<noteq> None \<or> ccr_control_id r \<in> set ?K))) (t_rows (refs db)))" .
  have "r \<in> set (t_rows (refs db'))" if r: "r \<in> set (t_rows (refs db))" "ccr_asset_finding_id r \<noteq> Some (af_id donor)" for r
  proof -
    have "?f r = r" using mem [OF r(1)] r(2) by simp
    with r show ?thesis unfolding kept set_map set_filter by (intro image_eqI [where x = r]) simp_all
  qed
  moreover have "map ccr_id (t_rows (refs db')) = map ccr_id (filter (\<lambda>r. \<not> (ccr_asset_finding_id r = Some (af_id donor) \<and>
      (ccr_removed_at r \<noteq> None \<or> ccr_control_id r \<in> set ?K))) (t_rows (refs db)))"
    unfolding kept map_map o_def id ..
  ultimately show ?thesis using un unfolding keeper set_map by blast
qed

text \<open>C13: an error of the merge of assets. When an asset whose finding has a counterpart on the target
  is merged into it, the counterpart does not inherit: the collections that were loaded with the
  donor still name the rows that were moved to the keeper, so that deleting the donor detaches every
  piece of its evidence from any finding and deletes its whole history.\<close>

theorem asset_merge_drops_evidence:
  assumes "findings_ok db" and "asset_id source \<noteq> asset_id target"
    and "t_select (\<lambda>f. af_asset_id f = asset_id source) (tb_asset_findings db) = [donor]"
    and "asset_finding_row db (asset_id target) (af_vulnerability_id donor) = Some keeper"
    and "merge_asset_findings now target [source] db = Inr db'"
  shows "(\<forall>e \<in> set (t_rows (tb_findings db)). fnd_asset_finding_id e = Some (af_id donor) \<longrightarrow>
      (\<exists>e' \<in> set (t_rows (tb_findings db')). fnd_id e' = fnd_id e \<and> fnd_asset_finding_id e' = None)) \<and>
    (\<forall>h \<in> set (t_rows (tb_asset_finding_history db)). afh_asset_finding_id h = af_id donor \<longrightarrow>
      (\<forall>h' \<in> set (t_rows (tb_asset_finding_history db')). afh_id h' \<noteq> afh_id h))"
proof (rule conjI)
  let ?lc = "children_of (af_id donor) db"
  have "flushed_finding db [] (asset_id target) (af_vulnerability_id donor) = Some keeper"
    using assms(4) by (simp add: flushed_finding_def asset_finding_row_def)
  then have run: "merge_duplicate_asset_findings now keeper donor (Some ?lc) db = Inr db'"
    using assms(3,5) by (auto simp: merge_asset_findings_def merge_source_def merge_source_finding_def rbind_Inr_iff split: if_splits)
  obtain db1 db2 db3 H E where k1: "keeps (set_finding (af_id keeper) (merged_finding donor) db) db1"
    and db2: "db2 = set_finding (af_id keeper) (\<lambda>f. f\<lparr>af_updated_at := now\<rparr>) db1"
    and db3: "db3 = set_evidence (\<lambda>e. fnd_asset_finding_id e = Some (af_id donor)) (move_evidence keeper) db2"
    and kd: "keeps (delete_asset_finding (af_id donor) (Some ?lc) (db3\<lparr>tb_asset_finding_history := H, tb_asset_finding_run_evaluations := E\<rparr>)) db'"
    using merge_duplicate_steps [OF run] by metis
  let ?db4 = "db3\<lparr>tb_asset_finding_history := H, tb_asset_finding_run_evaluations := E\<rparr>"
  have ev: "tb_findings db2 = tb_findings db" using keepsD(2) [OF k1] by (simp add: db2 set_finding_def)
  show "\<forall>e \<in> set (t_rows (tb_findings db)). fnd_asset_finding_id e = Some (af_id donor) \<longrightarrow>
      (\<exists>e' \<in> set (t_rows (tb_findings db')). fnd_id e' = fnd_id e \<and> fnd_asset_finding_id e' = None)"
  proof (intro ballI impI)
    fix e assume e: "e \<in> set (t_rows (tb_findings db))" "fnd_asset_finding_id e = Some (af_id donor)"
    have "move_evidence keeper e \<in> set (t_rows (tb_findings ?db4))" using e by (force simp: db3 set_evidence_def ev)
    moreover have "fnd_id (move_evidence keeper e) \<in> set (lc_evidence ?lc)" using e by (simp add: move_evidence_def children_of_def t_select_def)
    ultimately have "\<exists>e' \<in> set (t_rows (tb_findings (delete_asset_finding (af_id donor) (Some ?lc) ?db4))).
        fnd_id e' = fnd_id (move_evidence keeper e) \<and> fnd_asset_finding_id e' = None" by (rule deleted_evidence)
    then show "\<exists>e' \<in> set (t_rows (tb_findings db')). fnd_id e' = fnd_id e \<and> fnd_asset_finding_id e' = None"
      by (simp add: keepsD(2) [OF kd] move_evidence_def)
  qed
  show "\<forall>h \<in> set (t_rows (tb_asset_finding_history db)). afh_asset_finding_id h = af_id donor \<longrightarrow>
      (\<forall>h' \<in> set (t_rows (tb_asset_finding_history db')). afh_id h' \<noteq> afh_id h)"
  proof (intro ballI impI notI)
    fix h h' assume h: "h \<in> set (t_rows (tb_asset_finding_history db))" "afh_asset_finding_id h = af_id donor"
      and h': "h' \<in> set (t_rows (tb_asset_finding_history db'))" "afh_id h' = afh_id h"
    have "afh_id h' \<notin> set (lc_history ?lc)" using deleted_history h'(1) unfolding keepsD(7) [OF kd] by blast
    with h h'(2) show False by (simp add: children_of_def t_select_def)
  qed
qed

definition duplicate_world :: db where
  \<comment> \<open>two assets with a finding of the same vulnerability, each with a piece of evidence\<close>
  "duplicate_world = (let f = sample_finding; g = sample_finding\<lparr>af_id := 2, af_asset_id := 2\<rparr>;
       evidence = (\<lambda>i asset finding. \<lparr>fnd_id = i, fnd_tenant_id = 1, fnd_scan_job_id = None, fnd_device_id = None, fnd_asset_id = Some asset,
         fnd_asset_finding_id = Some finding, fnd_detector_type = DETECTOR_NUCLEI, fnd_detector_key = ''tpl'', fnd_evidence_key = None,
         fnd_template_id = ''tpl'', fnd_name = ''bug'', fnd_severity = ''high'', fnd_hostname = [], fnd_host = [], fnd_matched_at = [],
         fnd_tags = [], fnd_found_at = 0, fnd_raw_json = JObj []\<rparr>)
     in small_world\<lparr>tb_assets := \<lparr>t_next = 3, t_rows = [sample_asset, sample_asset\<lparr>asset_id := 2\<rparr>]\<rparr>,
          tb_vulnerabilities := \<lparr>t_next = 2, t_rows = [\<lparr>vul_id = 1, vul_canonical_key = ''nuclei:tpl'', vul_cve_id = None, vul_title = ''bug'',
             vul_description = [], vul_created_at = 0, vul_updated_at = 0\<rparr>]\<rparr>,
          tb_asset_findings := \<lparr>t_next = 3, t_rows = [f, g]\<rparr>, tb_findings := \<lparr>t_next = 3, t_rows = [evidence 1 1 1, evidence 2 2 2]\<rparr>,
          tb_asset_finding_history := \<lparr>t_next = 2, t_rows = [new_history 0 g HISTORY_OPENED None TECHNICAL_OPEN None 0 [] ''opened:2'' 1]\<rparr>\<rparr>)"

lemma merge_duplicate_runs:
  assumes "\<not> isl (merge_finding_treatments now (merged_finding donor keeper) donor (set_finding (af_id keeper) (merged_finding donor) db))"
    and "t_rows (tb_asset_finding_run_evaluations db) = []"
  shows "\<exists>db'. merge_duplicate_asset_findings now keeper donor loaded db = Inr db'"
proof -
  obtain db1 where m: "merge_finding_treatments now (merged_finding donor keeper) donor (set_finding (af_id keeper) (merged_finding donor) db) = Inr db1"
    using assms(1) by (cases "merge_finding_treatments now (merged_finding donor keeper) donor (set_finding (af_id keeper) (merged_finding donor) db)") simp_all
  have "t_rows (tb_asset_finding_run_evaluations db1) = []"
    using keepsD(8) [OF merge_treatments_keeps [OF m]] assms(2) by (simp add: set_finding_def)
  then show ?thesis
    unfolding merge_duplicate_asset_findings_def Let_def m rbind_simps
    by (simp add: merge_evaluations_def t_select_def set_evidence_def set_finding_def)
qed

theorem asset_merge_drops_evidence_witness:
  "\<exists>db'. merge_asset_findings 5 sample_asset [sample_asset\<lparr>asset_id := 2\<rparr>] duplicate_world = Inr db' \<and>
     (\<exists>e \<in> set (t_rows (tb_findings db')). fnd_id e = 2 \<and> fnd_asset_finding_id e = None) \<and>
     (\<forall>h \<in> set (t_rows (tb_asset_finding_history db')). afh_id h \<noteq> 1)"
proof -
  let ?source = "sample_asset\<lparr>asset_id := 2\<rparr>"
  let ?donor = "sample_finding\<lparr>af_id := 2, af_asset_id := 2\<rparr>"
  let ?run = "merge_asset_findings 5 sample_asset [?source] duplicate_world"
  have ok: "findings_ok duplicate_world" by code_simp
  have ne: "asset_id ?source \<noteq> asset_id sample_asset" by code_simp
  have one: "t_select (\<lambda>f. af_asset_id f = asset_id ?source) (tb_asset_findings duplicate_world) = [?donor]" by code_simp
  have keeper: "asset_finding_row duplicate_world (asset_id sample_asset) (af_vulnerability_id ?donor) = Some sample_finding" by code_simp
  have "\<not> isl (merge_finding_treatments 5 (merged_finding ?donor sample_finding) ?donor
      (set_finding (af_id sample_finding) (merged_finding ?donor) duplicate_world))" by code_simp
  moreover have "t_rows (tb_asset_finding_run_evaluations duplicate_world) = []" by code_simp
  ultimately obtain db1 where db1: "merge_duplicate_asset_findings 5 sample_finding ?donor (Some (children_of (af_id ?donor) duplicate_world)) duplicate_world = Inr db1"
    using merge_duplicate_runs by blast
  have "flushed_finding duplicate_world [] (asset_id sample_asset) (af_vulnerability_id ?donor) = Some sample_finding"
    using keeper by (simp add: flushed_finding_def asset_finding_row_def)
  moreover have "asset_tenant_id ?source = asset_tenant_id sample_asset" by simp
  ultimately have db': "?run = Inr db1"
    using one db1 by (simp add: merge_asset_findings_def merge_source_def merge_source_finding_def)
  note lost = conjunct1 [OF asset_merge_drops_evidence [OF ok ne one keeper db']] conjunct2 [OF asset_merge_drops_evidence [OF ok ne one keeper db']]
  have "\<exists>e \<in> set (t_rows (tb_findings duplicate_world)). fnd_id e = 2 \<and> fnd_asset_finding_id e = Some (af_id ?donor)" by code_simp
  then have "\<exists>e \<in> set (t_rows (tb_findings db1)). fnd_id e = 2 \<and> fnd_asset_finding_id e = None" using lost(1) by force
  moreover have "\<exists>h \<in> set (t_rows (tb_asset_finding_history duplicate_world)). afh_id h = 1 \<and> afh_asset_finding_id h = af_id ?donor" by code_simp
  then have "\<forall>h \<in> set (t_rows (tb_asset_finding_history db1)). afh_id h \<noteq> 1" using lost(2) by force
  ultimately show ?thesis using db' by blast
qed

definition mapped_duplicates :: db where
  \<comment> \<open>the donor is mapped to 7 and, like the keeper, to 8; its mapping to 9 was removed\<close>
  "mapped_duplicates = duplicate_world\<lparr>tb_compliance_control_references := \<lparr>t_next = 5, t_rows = [
     sample_reference\<lparr>ccr_control_id := 8\<rparr>,
     sample_reference\<lparr>ccr_id := 2, ccr_asset_finding_id := Some 2\<rparr>,
     sample_reference\<lparr>ccr_id := 3, ccr_asset_finding_id := Some 2, ccr_control_id := 8\<rparr>,
     sample_reference\<lparr>ccr_id := 4, ccr_asset_finding_id := Some 2, ccr_control_id := 9, ccr_removed_at := Some 1\<rparr>]\<rparr>\<rparr>"

theorem merge_unites_mappings_witness:
  "\<exists>db'. merge_duplicate_asset_findings 5 sample_finding (sample_finding\<lparr>af_id := 2, af_asset_id := 2\<rparr>) None mapped_duplicates = Inr db' \<and>
     ccr_control_id ` set (active_refs db' 1) = {7, 8} \<and> map ccr_id (t_rows (refs db')) = [1, 2]"
proof -
  let ?donor = "sample_finding\<lparr>af_id := 2, af_asset_id := 2\<rparr>"
  have ok: "refs_ok mapped_duplicates" by code_simp
  have ne: "af_id sample_finding \<noteq> af_id ?donor" by code_simp
  have "\<not> isl (merge_finding_treatments 5 (merged_finding ?donor sample_finding) ?donor
      (set_finding (af_id sample_finding) (merged_finding ?donor) mapped_duplicates))" by code_simp
  moreover have "t_rows (tb_asset_finding_run_evaluations mapped_duplicates) = []" by code_simp
  ultimately obtain db' where db': "merge_duplicate_asset_findings 5 sample_finding ?donor None mapped_duplicates = Inr db'"
    using merge_duplicate_runs by blast
  have ids: "af_id sample_finding = 1" "af_id ?donor = 2" by code_simp+
  have before: "map ccr_control_id (active_refs mapped_duplicates 1) = [8]" "map ccr_control_id (active_refs mapped_duplicates 2) = [7, 8]" by code_simp+
  have sets: "ccr_control_id ` set (active_refs mapped_duplicates 1) = {8}" "ccr_control_id ` set (active_refs mapped_duplicates 2) = {7, 8}"
    unfolding set_map [symmetric] before by simp_all
  have "map ccr_id (filter (\<lambda>r. \<not> (ccr_asset_finding_id r = Some 2 \<and> (ccr_removed_at r \<noteq> None \<or> ccr_control_id r \<in> {8})))
      (t_rows (refs mapped_duplicates))) = [1, 2]" by code_simp
  with merge_unites_mappings [OF ok ne db'] db' show ?thesis unfolding ids sets by auto
qed

end
