(* ===== verification/Finding_Lifecycle.thy ===== *)
theory Finding_Lifecycle
  imports Finding_Catalog
begin

section \<open>Detection, evaluation and resolution of findings\<close>

text \<open>
  \<^verbatim>\<open>backend/app/finding_lifecycle.py\<close>, third part: what a report of a run does to the findings of
  an asset, and what the end of a run does to the findings it did not report. A finding is the row
  of an asset and a vulnerability; it is named by its id.
\<close>

definition lift_run :: "run_error + 'a \<Rightarrow> app_error + 'a" where
  "lift_run r = (case r of Inr x \<Rightarrow> Inr x | Inl (ExecutionBlocked d) \<Rightarrow> Inl (ServiceError d)
     | Inl (DispatchError d) \<Rightarrow> Inl (ServiceError d) | Inl ValueError \<Rightarrow> Inl (PyError ''ValueError'')
     | Inl (EventFailed e) \<Rightarrow> Inl (AppEvent e))"

lemma lift_run_Inr [simp]: "lift_run r = Inr x \<longleftrightarrow> r = Inr x"
  by (auto simp: lift_run_def split: sum.splits run_error.splits)

subsection \<open>Events\<close>

definition lifecycle_event :: "string \<Rightarrow> asset_finding \<Rightarrow> vulnerability \<Rightarrow> scan_job \<Rightarrow> time \<Rightarrow> (string \<times> json) list
    \<Rightarrow> nat option \<times> nat option \<Rightarrow> event_req" where
  "lifecycle_event event_type f v job occurred_at extra loc = event_defaults\<lparr>er_event_type := event_type,
     er_tenant_id := Some (af_tenant_id f), er_site_id := fst loc, er_network_id := snd loc,
     er_asset_id := Some (af_asset_id f), er_asset_finding_id := Some (af_id f), er_scan_job_id := Some (job_id job),
     er_key := event_type @ '':'' @ show_nat (af_id f) @ '':'' @ show_nat (job_id job),
     er_details := jupdate [(''asset_finding_id'', jnat (af_id f)), (''vulnerability_id'', jnat (vul_id v)),
       (''canonical_key'', JStr (vul_canonical_key v)), (''cve_id'', jopt JStr (vul_cve_id v)),
       (''technical_state'', JStr (af_technical_state f)), (''treatment_state'', JStr (af_treatment_state f)),
       (''scan_job_id'', jnat (job_id job))] extra,
     er_source := SOURCE_SCANNER, er_occurred_at := Some occurred_at\<rparr>"

definition emit_lifecycle_event :: "time \<Rightarrow> string \<Rightarrow> asset_finding \<Rightarrow> vulnerability \<Rightarrow> scan_job \<Rightarrow> time
    \<Rightarrow> (string \<times> json) list \<Rightarrow> run_index option \<Rightarrow> db \<Rightarrow> app_error + db" where
  "emit_lifecycle_event now event_type f v job occurred_at extra index db =
     (let observations = (case index of Some ix \<Rightarrow> ix_observations ix | None \<Rightarrow> run_observations db job);
          loc = trusted_run_locality observations job (t_get asset_id (af_asset_id f) (tb_assets db))
      in rbind (app_event (emit_domain_event now (lifecycle_event event_type f v job occurred_at extra loc) db)) (\<lambda>(db', _, _). Inr db'))"

subsection \<open>A detection\<close>

definition open_finding :: "time \<Rightarrow> nat \<Rightarrow> vulnerability \<Rightarrow> scan_job \<Rightarrow> detector_identity \<Rightarrow> time \<Rightarrow> run_index option \<Rightarrow> db
    \<Rightarrow> app_error + (db \<times> run_index option \<times> nat)" where
  "open_finding now asset v job d detected_at index db =
     (let mk = new_asset_finding now (job_tenant_id job) asset (vul_id v) detected_at detected_at detected_at;
          f = mk (t_next (tb_asset_findings db));
          db1 = db\<lparr>tb_asset_findings := t_insert mk (tb_asset_findings db)\<rparr>;
          db2 = fst (append_history now f HISTORY_OPENED None TECHNICAL_OPEN (Some (job_id job)) detected_at
            [(''reason'', JStr ''first_detection''), (''detector_type'', JStr (di_detector_type d))]
            (''opened:'' @ show_nat (af_id f) @ '':'' @ show_nat (job_id job)) db1);
          index1 = map_option (remember_asset_finding f) index
      in rbind (emit_lifecycle_event now EVENT_NEW_FINDING f v job detected_at [] index1 db2) (\<lambda>db3. Inr (db3, index1, af_id f)))"

definition seen_again :: "time \<Rightarrow> asset_finding \<Rightarrow> asset_finding" where
  "seen_again detected_at f = f\<lparr>af_last_seen := detected_at, af_consecutive_clean_scans := 0, af_updated_at := detected_at\<rparr>"

definition reopened :: "asset_finding \<Rightarrow> asset_finding" where
  "reopened f = f\<lparr>af_technical_state := TECHNICAL_OPEN, af_resolved_at := None, af_reopened_count := af_reopened_count f + 1\<rparr>"

definition detect_again :: "time \<Rightarrow> asset_finding \<Rightarrow> vulnerability \<Rightarrow> scan_job \<Rightarrow> time \<Rightarrow> run_index option \<Rightarrow> db \<Rightarrow> app_error + (db \<times> bool)" where
  "detect_again now f v job detected_at index db =
     (if af_technical_state f \<noteq> TECHNICAL_RESOLVED then Inr (set_finding (af_id f) (seen_again detected_at) db, False)
      else let change = (\<lambda>f. reopened (seen_again detected_at f)); f' = change f;
               db1 = set_finding (af_id f) change db;
               db2 = fst (append_history now f' HISTORY_REOPENED (Some (af_technical_state f)) TECHNICAL_OPEN (Some (job_id job)) detected_at
                 [(''reason'', JStr ''detected_after_resolution'')]
                 (''reopened:'' @ show_nat (af_id f) @ '':'' @ show_nat (job_id job)) db1)
           in rbind (emit_lifecycle_event now EVENT_VULNERABILITY_REOPENED f' v job detected_at
                [(''reopened_count'', JInt (af_reopened_count f'))] index db2) (\<lambda>db3. Inr (db3, True)))"

text \<open>A finding that was deleted while the index still names it: the evidence that is inserted next
  refers to a row that does not exist.\<close>

definition apply_detection :: "time \<Rightarrow> asset \<Rightarrow> vulnerability \<Rightarrow> scan_job \<Rightarrow> detector_identity \<Rightarrow> time \<Rightarrow> run_index option \<Rightarrow> db
    \<Rightarrow> app_error + (db \<times> run_index option \<times> nat \<times> bool)" where
  "apply_detection now asset v job d detected_at index db =
     (if asset_tenant_id asset \<noteq> job_tenant_id job
      then Inl (lifecycle_error ''Cross-tenant asset/finding relationship is not allowed'')
      else case asset_finding_for db (asset_id asset) (vul_id v) index of
        (index1, None) \<Rightarrow> rbind (open_finding now (asset_id asset) v job d detected_at index1 db) (\<lambda>(db', index2, i). Inr (db', index2, i, True))
      | (index1, Some i) \<Rightarrow> (case get_finding i db of
          None \<Rightarrow> Inl (PyError ''IntegrityError'')
        | Some f \<Rightarrow>
            if af_tenant_id f \<noteq> job_tenant_id job \<or> af_asset_id f \<noteq> asset_id asset
            then Inl (lifecycle_error ''Asset finding tenant/asset mismatch'')
            else rbind (detect_again now f v job detected_at index1 db) (\<lambda>(db', changed).
              Inr (db', map_option (remember_asset_finding f) index1, i, changed))))"

definition new_evidence :: "time \<Rightarrow> nat \<Rightarrow> scan_job \<Rightarrow> device option \<Rightarrow> asset option \<Rightarrow> nat option \<Rightarrow> detector_identity \<Rightarrow> string \<Rightarrow> string
    \<Rightarrow> nat \<Rightarrow> evidence_finding" where
  "new_evidence now tenant job dev asset finding d hostname key n = \<lparr>fnd_id = n, fnd_tenant_id = tenant,
     fnd_scan_job_id = Some (job_id job), fnd_device_id = map_option (\<lambda>x. dev_id x) dev, fnd_asset_id = map_option (\<lambda>x. asset_id x) asset,
     fnd_asset_finding_id = finding, fnd_detector_type = di_detector_type d, fnd_detector_key = di_detector_key d,
     fnd_evidence_key = Some key, fnd_template_id = di_detector_key d, fnd_name = di_title d, fnd_severity = di_severity d,
     fnd_hostname = hostname, fnd_host = di_host d, fnd_matched_at = di_matched_at d, fnd_tags = di_tags d,
     fnd_found_at = now, fnd_raw_json = di_raw d\<rparr>"

definition evidence_key_of :: "scan_job \<Rightarrow> detector_identity \<Rightarrow> string" where
  "evidence_key_of job d = evidence_identity_key (job_id job) (di_detector_type d) (di_detector_key d) (di_host d) (di_matched_at d)"

definition evidence_known :: "db \<Rightarrow> string \<Rightarrow> run_index option \<Rightarrow> bool" where
  "evidence_known db key index = (case index of
       Some ix \<Rightarrow> Some key \<in> fst ` set (ix_findings ix)
     | None \<Rightarrow> t_exists (\<lambda>e. fnd_evidence_key e = Some key) (tb_findings db))"

definition insert_evidence :: "time \<Rightarrow> nat \<Rightarrow> scan_job \<Rightarrow> device option \<Rightarrow> asset option \<Rightarrow> nat option \<Rightarrow> detector_identity \<Rightarrow> string
    \<Rightarrow> run_index option \<Rightarrow> db \<Rightarrow> db \<times> run_index option \<times> bool" where
  "insert_evidence now tenant job dev asset finding d hostname index db =
     (let key = evidence_key_of job d in
      if evidence_known db key index then (db, index, False)
      else let mk = new_evidence now tenant job dev asset finding d hostname key
           in (db\<lparr>tb_findings := t_insert mk (tb_findings db)\<rparr>,
               map_option (remember_finding (mk (t_next (tb_findings db)))) index, True))"

subsection \<open>A batch of reports\<close>

type_synonym batch = "db \<times> run_index option \<times> nat list \<times> nat"
  \<comment> \<open>database, index, the findings touched, the number of evidence rows added\<close>

definition device_host :: "device option \<Rightarrow> detector_identity \<Rightarrow> string" where
  "device_host dev d = (case dev of None \<Rightarrow> di_hostname d
     | Some x \<Rightarrow> if dev_hostname x \<noteq> [] then dev_hostname x else di_hostname d)"

definition detect_on :: "time \<Rightarrow> scan_job \<Rightarrow> detector_identity \<Rightarrow> asset option \<Rightarrow> (vulnerability \<times> vulnerability_detector_mapping) option
    \<Rightarrow> run_index option \<Rightarrow> db \<Rightarrow> app_error + (db \<times> run_index option \<times> nat option)" where
  "detect_on now job d asset catalogued index db = (case (asset, catalogued) of
       (Some a, Some (v, _)) \<Rightarrow> rbind (apply_detection now a v job d now index db) (\<lambda>(db', index', i, _). Inr (db', index', Some i))
     | _ \<Rightarrow> Inr (db, index, None))"

definition ingest_one :: "time \<Rightarrow> nat \<Rightarrow> scan_job \<Rightarrow> detector_identity \<Rightarrow> batch \<Rightarrow> app_error + batch" where
  "ingest_one now tenant job d s = (case s of (db, index, touched, added) \<Rightarrow>
     if evidence_known db (evidence_key_of job d) index then Inr s
     else rbind (upsert_detector_catalog now d index db) (\<lambda>(db1, index1, catalogued).
       rbind (current_run_device db1 job d index1) (\<lambda>dev.
       if (case dev of None \<Rightarrow> False | Some x \<Rightarrow> dev_tenant_id x \<noteq> tenant)
       then Inl (lifecycle_error ''Cross-tenant device/finding relationship is not allowed'')
       else rbind (resolve_current_run_asset db1 job d index1) (\<lambda>asset.
         if (case asset of None \<Rightarrow> False | Some a \<Rightarrow> asset_tenant_id a \<noteq> tenant)
         then Inl (lifecycle_error ''Cross-tenant asset/finding relationship is not allowed'')
         else rbind (detect_on now job d asset catalogued index1 db1) (\<lambda>(db2, index2, finding).
           case insert_evidence now tenant job dev asset finding d (device_host dev d) index2 db2 of (db3, index3, created) \<Rightarrow>
             Inr (db3, index3, touched @ (case finding of None \<Rightarrow> [] | Some i \<Rightarrow> [i]), if created then added + 1 else added))))))"

fun parse_reports :: "finding_report list \<Rightarrow> app_error + detector_identity list" where
  "parse_reports [] = Inr []"
| "parse_reports (r # rs) = rbind (parse_detector_identity r) (\<lambda>d. rbind (parse_reports rs) (\<lambda>ds. Inr (d # ds)))"

definition detector_pairs :: "detector_identity list \<Rightarrow> (string \<times> string) list" where
  "detector_pairs ds = dedup (map (\<lambda>d. (di_detector_type d, di_detector_key d))
     (filter (\<lambda>d. di_detector_type d \<noteq> [] \<and> di_detector_key d \<noteq> []) ds))"

definition ingest_findings :: "time \<Rightarrow> nat \<Rightarrow> nat \<Rightarrow> finding_report list \<Rightarrow> db \<Rightarrow> app_error + (db \<times> nat)" where
  "ingest_findings now tenant job reports db = (case get_job job db of
     None \<Rightarrow> Inl (lifecycle_error ''Scan run does not belong to this tenant'')
   | Some j \<Rightarrow>
       if job_tenant_id j \<noteq> tenant then Inl (lifecycle_error ''Scan run does not belong to this tenant'')
       else rbind (parse_reports reports) (\<lambda>ds.
         rbind (rfold (ingest_one now tenant j) ds (db, Some (build_index db j (detector_pairs ds)), [], 0))
           (\<lambda>(db', _, touched, added). Inr (recalculate_findings now (dedup touched) db', added))))"

subsection \<open>Applicability of a run\<close>

definition csv_field :: "json \<Rightarrow> string list" where
  \<comment> \<open>\<open>parse_csv_tokens(str(value or ""))\<close> of a string\<close>
  "csv_field v = (case v of JStr s \<Rightarrow> parse_csv_tokens s | _ \<Rightarrow> [])"

definition mapping_included_in_filters :: "json \<Rightarrow> string \<Rightarrow> string \<Rightarrow> bool" where
  "mapping_included_in_filters stages severity tags =
     (let selected = csv_field (jget ''nuclei_severities'' stages); known = py_lower (strip severity);
          tag_filter = csv_field (jget ''nuclei_tags'' stages); known_tags = parse_csv_tokens tags
      in selected \<noteq> [] \<and> known \<noteq> [] \<and> known \<in> set selected \<and>
         (tag_filter \<noteq> [] \<longrightarrow> known_tags \<noteq> [] \<and> meet known_tags tag_filter))"

fun mappings_included :: "db \<Rightarrow> nat \<Rightarrow> json \<Rightarrow> vulnerability_detector_mapping list \<Rightarrow> run_index option \<Rightarrow> run_index option \<times> bool" where
  "mappings_included db i stages [] index = (index, True)"
| "mappings_included db i stages (m # ms) index =
     (if vdm_detector_type m \<noteq> DETECTOR_NUCLEI then (index, False)
      else case latest_supporting_evidence db i (vdm_detector_type m) (vdm_detector_key m) index of
        (index', evidence) \<Rightarrow>
          if mapping_included_in_filters stages (case evidence of Some e \<Rightarrow> fnd_severity e | None \<Rightarrow> vdm_last_severity m)
               (case evidence of Some e \<Rightarrow> fnd_tags e | None \<Rightarrow> vdm_last_tags m)
          then mappings_included db i stages ms index' else (index', False))"

definition run_scans_for :: "db \<Rightarrow> scan_job \<Rightarrow> asset_finding \<Rightarrow> run_index option \<Rightarrow> bool" where
  \<comment> \<open>the checks that do not depend on the supporting detectors\<close>
  "run_scans_for db job f index \<longleftrightarrow>
     has_snapshot job \<and> is_obj (the (job_execution_snapshot job)) \<and> \<not> isl (execution_context db job) \<and>
     jget ''vulnerability'' (as_obj (jget ''stages'' (job_snapshot job))) = JBool True \<and>
     af_tenant_id f = job_tenant_id job \<and> asset_observed_in_run db job (af_asset_id f) index \<and>
     asset_covered_by_detector db job (af_asset_id f) DETECTOR_NUCLEI index"

definition is_finding_applicable_to_run :: "db \<Rightarrow> asset_finding \<Rightarrow> scan_job \<Rightarrow> run_index option \<Rightarrow> run_index option \<times> bool" where
  "is_finding_applicable_to_run db f job index =
     (if \<not> run_scans_for db job f index then (index, False)
      else case supporting_mappings db (af_id f) index of (index1, ms) \<Rightarrow>
        if ms = [] then (index1, False)
        else mappings_included db (af_id f) (as_obj (jget ''stages'' (job_snapshot job))) ms index1)"

subsection \<open>Evaluation and resolution\<close>

definition resolution_threshold :: "db \<Rightarrow> app_error + int" where
  "resolution_threshold db = (case map_of (get_settings db) ''finding_resolution_clean_scans'' of
       None \<Rightarrow> Inr DEFAULT_FINDING_RESOLUTION_CLEAN_SCANS
     | Some raw \<Rightarrow> (case json_int raw of
         None \<Rightarrow> Inl (lifecycle_error ''finding_resolution_clean_scans must be a positive integer'')
       | Some n \<Rightarrow> if n < 1 then Inl (lifecycle_error ''finding_resolution_clean_scans must be a positive integer'') else Inr n))"

definition new_evaluation :: "time \<Rightarrow> nat \<Rightarrow> scan_job \<Rightarrow> string \<Rightarrow> time \<Rightarrow> string \<Rightarrow> nat \<Rightarrow> asset_finding_run_evaluation" where
  "new_evaluation now f job outcome occurred_at reason n = \<lparr>afe_id = n, afe_asset_finding_id = f, afe_scan_job_id = job_id job,
     afe_tenant_id = job_tenant_id job, afe_outcome = outcome, afe_occurred_at = occurred_at,
     afe_details = JObj [(''reason'', JStr reason)], afe_created_at = now\<rparr>"

definition record_evaluation :: "time \<Rightarrow> nat \<Rightarrow> scan_job \<Rightarrow> string \<Rightarrow> time \<Rightarrow> string \<Rightarrow> run_index option \<Rightarrow> db
    \<Rightarrow> db \<times> run_index option \<times> bool" where
  "record_evaluation now f job outcome occurred_at reason index db =
     (if evaluation_exists db f job index then (db, index, False)
      else let mk = new_evaluation now f job outcome occurred_at reason; tab = tb_asset_finding_run_evaluations db
           in (db\<lparr>tb_asset_finding_run_evaluations := t_insert mk tab\<rparr>, map_option (remember_evaluation (mk (t_next tab))) index, True))"

definition resolved :: "time \<Rightarrow> asset_finding \<Rightarrow> asset_finding" where
  "resolved occurred_at f = f\<lparr>af_technical_state := TECHNICAL_RESOLVED, af_resolved_at := Some occurred_at, af_updated_at := occurred_at\<rparr>"

definition resolve_if_threshold_reached :: "time \<Rightarrow> nat \<Rightarrow> scan_job \<Rightarrow> time \<Rightarrow> int \<Rightarrow> (string \<times> json) list \<Rightarrow> db \<Rightarrow> app_error + db" where
  "resolve_if_threshold_reached now i job occurred_at threshold details db = (case get_finding i db of
     None \<Rightarrow> Inr db
   | Some f \<Rightarrow>
       if af_technical_state f \<noteq> TECHNICAL_OPEN \<or> af_consecutive_clean_scans f < threshold then Inr db
       else let f' = resolved occurred_at f;
                (db1, written) = append_history now f' HISTORY_RESOLVED (Some (af_technical_state f)) TECHNICAL_RESOLVED
                  (Some (job_id job)) occurred_at
                  (jupdate [(''reason'', JStr ''consecutive_clean_scans''), (''threshold'', JInt threshold)] details)
                  (''resolved:'' @ show_nat i @ '':'' @ show_nat (job_id job)) (set_finding i (resolved occurred_at) db)
            in if \<not> written then Inr db1
               else (case t_get vul_id (af_vulnerability_id f) (tb_vulnerabilities db1) of
                   None \<Rightarrow> Inl (PyError ''AttributeError'')
                 | Some v \<Rightarrow> emit_lifecycle_event now EVENT_VULNERABILITY_RESOLVED f' v job occurred_at
                     [(''consecutive_clean_scans'', JInt (af_consecutive_clean_scans f))] None db1))"

definition lifecycle_threshold :: "db \<Rightarrow> int \<Rightarrow> policy_context option \<Rightarrow> app_error + (int \<times> (string \<times> json) list)" where
  "lifecycle_threshold db fallback context = (case context of
     None \<Rightarrow> Inr (fallback, [(''threshold_source'', JStr ''fallback'')])
   | Some c \<Rightarrow> rbind (evaluate db c POLICY_CATEGORY_FINDING_LIFECYCLE) (\<lambda>res.
       case map_of (res_actions res) ''resolution_clean_scans'' of
         None \<Rightarrow> Inl (PyError ''KeyError'')
       | Some e \<Rightarrow> (case json_int (ae_value e) of
           None \<Rightarrow> Inl (PyError ''ValueError'') | Some n \<Rightarrow> Inr (n, resolution_details e))))"

definition one_more_clean :: "time \<Rightarrow> asset_finding \<Rightarrow> asset_finding" where
  "one_more_clean occurred_at f = f\<lparr>af_consecutive_clean_scans := af_consecutive_clean_scans f + 1, af_updated_at := occurred_at\<rparr>"

definition evaluate_clean :: "time \<Rightarrow> scan_job \<Rightarrow> time \<Rightarrow> int \<Rightarrow> nat \<times> policy_context option \<Rightarrow> db \<times> run_index option
    \<Rightarrow> app_error + (db \<times> run_index option)" where
  "evaluate_clean now job occurred_at fallback c s = (case s of (db, index) \<Rightarrow>
     (case get_finding (fst c) db of None \<Rightarrow> Inr s
      | Some f \<Rightarrow> (case is_finding_applicable_to_run db f job index of
          (index1, False) \<Rightarrow> Inr (db, index1)
        | (index1, True) \<Rightarrow> (case record_evaluation now (fst c) job EVALUATION_CLEAN occurred_at ''applicable_clean_scan'' index1 db of
            (db1, index2, False) \<Rightarrow> Inr (db1, index2)
          | (db1, index2, True) \<Rightarrow> rbind (lifecycle_threshold db1 fallback (snd c)) (\<lambda>(threshold, details).
              rbind (resolve_if_threshold_reached now (fst c) job occurred_at threshold details
                (set_finding (fst c) (one_more_clean occurred_at) db1)) (\<lambda>db2. Inr (db2, index2)))))))"

definition evaluate_detected :: "time \<Rightarrow> scan_job \<Rightarrow> time \<Rightarrow> nat \<Rightarrow> db \<times> run_index option \<Rightarrow> db \<times> run_index option" where
  "evaluate_detected now job occurred_at i s = (case s of (db, index) \<Rightarrow>
     (case record_evaluation now i job EVALUATION_DETECTED occurred_at ''positive_detection'' index db of
        (db1, index1, False) \<Rightarrow> (db1, index1)
      | (db1, index1, True) \<Rightarrow> (set_finding i (\<lambda>f. f\<lparr>af_consecutive_clean_scans := 0, af_updated_at := occurred_at\<rparr>) db1, index1)))"

definition detected_ids :: "db \<Rightarrow> scan_job \<Rightarrow> nat list" where
  "detected_ids db job = List.map_filter (\<lambda>e. fnd_asset_finding_id e)
     (t_select (\<lambda>e. fnd_scan_job_id e = Some (job_id job) \<and> fnd_tenant_id e = job_tenant_id job) (tb_findings db))"

definition lifecycle_candidates :: "db \<Rightarrow> scan_job \<Rightarrow> asset_finding list" where
  "lifecycle_candidates db job = t_select (\<lambda>f. af_tenant_id f = job_tenant_id job \<and>
     (af_id f \<in> set (detected_ids db job) \<or> af_asset_id f \<in> set (map obs_asset_id (run_observations db job)))) (tb_asset_findings db)"

definition finalize_one :: "time \<Rightarrow> scan_job \<Rightarrow> time \<Rightarrow> int \<Rightarrow> nat list \<Rightarrow> nat \<times> policy_context option \<Rightarrow> db \<times> run_index option
    \<Rightarrow> app_error + (db \<times> run_index option)" where
  "finalize_one now job occurred_at fallback detected c s =
     (if fst c \<in> set detected then Inr (evaluate_detected now job occurred_at (fst c) s)
      else evaluate_clean now job occurred_at fallback c s)"

definition finalize_run_lifecycle :: "time \<Rightarrow> scan_job \<Rightarrow> db \<Rightarrow> app_error + db" where
  "finalize_run_lifecycle now job db =
     (if \<not> has_snapshot job then Inl (lifecycle_error ''Run has no immutable execution snapshot'')
      else rbind (resolution_threshold db) (\<lambda>fallback.
        let occurred_at = (case job_finished_at job of Some t \<Rightarrow> t | None \<Rightarrow> now);
            detected = detected_ids db job;
            candidates = map (\<lambda>f. (af_id f, finding_context db f)) (lifecycle_candidates db job)
        in rbind (rfold (finalize_one now job occurred_at fallback detected) candidates (db, Some (build_index db job [])))
             (\<lambda>(db', _). Inr db')))"

definition is_cancel_completion :: "scan_job \<Rightarrow> string \<Rightarrow> bool" where
  "is_cancel_completion job error \<longleftrightarrow> job_cancel_requested_at job \<noteq> None \<or>
     (let text = py_lower error in contains_str ''scan cancelled'' text \<or> contains_str ''scan deadline exceeded'' text \<or>
        contains_str ''timed out after'' text)"

definition complete_scan_run :: "time \<Rightarrow> nat \<Rightarrow> bool \<Rightarrow> string option \<Rightarrow> db \<Rightarrow> app_error + db" where
  "complete_scan_run now i ok error db = (case get_job i db of
     None \<Rightarrow> Inl (PyError ''AttributeError'')
   | Some job \<Rightarrow>
       if \<not> ok then let detail = (if str_or error \<noteq> [] then str_or error else ''scan failed'') in
         rbind (lift_run (if is_cancel_completion job detail then transition_job_to_cancelled now i detail False db
             else transition_job_to_failed now i detail False db)) (\<lambda>(db1, _).
           Inr (set_job i (\<lambda>j. j\<lparr>job_finished_at := Some now\<rparr>) db1))
       else if job_cancel_requested_at job \<noteq> None \<or> job_status job = JOB_CANCELLED
       then Inl (lifecycle_error ''Cancelled or expired run cannot complete successfully'')
       else if \<not> has_snapshot job then Inl (lifecycle_error ''Successful completion requires an immutable execution snapshot'')
       else let finish = (\<lambda>j. j\<lparr>job_finished_at := Some now\<rparr> :: scan_job) in
         rbind (finalize_run_lifecycle now (finish job) (set_job i finish db)) (\<lambda>db1.
           Inr (set_job i (\<lambda>j. j\<lparr>job_status := JOB_DONE, job_error := error\<rparr>) db1)))"

subsection \<open>Applicability with and without the index\<close>

lemma latest_none: "latest_supporting_evidence db i k key None = (None, snd (latest_supporting_evidence db i k key None))"
  by (simp add: latest_supporting_evidence_def)

text \<open>One step of the loop over the supporting mappings.\<close>

definition included_by :: "json \<Rightarrow> vulnerability_detector_mapping \<Rightarrow> evidence_finding option \<Rightarrow> bool" where
  "included_by stages m e = mapping_included_in_filters stages (case e of Some e \<Rightarrow> fnd_severity e | None \<Rightarrow> vdm_last_severity m)
     (case e of Some e \<Rightarrow> fnd_tags e | None \<Rightarrow> vdm_last_tags m)"

lemma mappings_included_step:
  assumes "vdm_detector_type m = DETECTOR_NUCLEI" "latest_supporting_evidence db i (vdm_detector_type m) (vdm_detector_key m) index = (index', e)"
  shows "mappings_included db i stages (m # ms) index =
    (if included_by stages m e then mappings_included db i stages ms index' else (index', False))"
  using assms by (simp add: included_by_def)

lemma mappings_included_same:
  assumes "rows_ok db job"
  shows "list_all (\<lambda>m. vdm_detector_type m \<noteq> [] \<and> vdm_detector_key m \<noteq> []) ms \<Longrightarrow> index_ok db job ix \<Longrightarrow>
    \<exists>ix'. mappings_included db i stages ms (Some ix) = (Some ix', snd (mappings_included db i stages ms None)) \<and> index_ok db job ix'"
proof (induction ms arbitrary: ix)
  case (Cons m ms)
  let ?latest = "latest_supporting_evidence db i (vdm_detector_type m) (vdm_detector_key m)"
  define e where "e = snd (?latest None)"
  have named: "vdm_detector_type m \<noteq> []" "vdm_detector_key m \<noteq> []"
    "list_all (\<lambda>m. vdm_detector_type m \<noteq> [] \<and> vdm_detector_key m \<noteq> []) ms" using Cons.prems(1) by simp_all
  obtain ix1 where ix1: "?latest (Some ix) = (Some ix1, e)" "index_ok db job ix1"
    using latest_same [OF Cons.prems(2) assms named(1,2)] unfolding e_def by blast
  obtain ix2 where ix2: "mappings_included db i stages ms (Some ix1) = (Some ix2, snd (mappings_included db i stages ms None))" "index_ok db job ix2"
    using Cons.IH [OF named(3) ix1(2)] by blast
  show ?case
  proof (cases "vdm_detector_type m = DETECTOR_NUCLEI")
    case False
    then show ?thesis using Cons.prems(2) by simp
  next
    case True
    show ?thesis
      unfolding mappings_included_step [OF True ix1(1)] mappings_included_step [OF True latest_none] e_def [symmetric]
      using ix1(2) ix2 by (cases "included_by stages m e") simp_all
  qed
qed simp

lemma run_scans_same: "index_ok db job ix \<Longrightarrow> rows_ok db job \<Longrightarrow> run_scans_for db job f (Some ix) = run_scans_for db job f None"
  by (simp add: run_scans_for_def observed_same covered_same)

lemma supporting_none: "fst (supporting_mappings db i None) = None"
proof -
  have "fst (mappings_for db pairs None) = None" for pairs
    by (induction pairs) (auto simp: mapping_for_def split: option.splits prod.splits)
  then show ?thesis
    by (auto simp: supporting_mappings_def supporting_detector_keys_def split: option.splits prod.splits) (metis fst_conv)+
qed

lemma applicable_same:
  assumes ix: "index_ok db job ix" and rows: "rows_ok db job"
  shows "\<exists>ix'. is_finding_applicable_to_run db f job (Some ix) = (Some ix', snd (is_finding_applicable_to_run db f job None)) \<and> index_ok db job ix'"
proof (cases "run_scans_for db job f None")
  case False
  with assms show ?thesis by (simp add: is_finding_applicable_to_run_def run_scans_same)
next
  case True
  obtain ix1 ms where ix1: "supporting_mappings db (af_id f) (Some ix) = (Some ix1, ms)" "index_ok db job ix1"
    and ms: "supporting_mappings db (af_id f) None = (None, ms)"
    using supporting_mappings_same [OF assms] supporting_none by (metis prod.collapse)
  have "list_all (\<lambda>m. vdm_detector_type m \<noteq> [] \<and> vdm_detector_key m \<noteq> []) ms"
    using supporting_mappings_named [of _ db "af_id f"] ms by (auto simp: list_all_iff)
  from mappings_included_same [OF rows this ix1(2), of "af_id f" "as_obj (jget ''stages'' (job_snapshot job))"] show ?thesis
    using True ix1 ms assms by (auto simp: is_finding_applicable_to_run_def run_scans_same)
qed

subsection \<open>What finalization changes\<close>

definition life_tables :: "db \<Rightarrow> db \<Rightarrow> db" where
  \<comment> \<open>\<open>db\<close> with the findings, their history and evaluations, and the events of \<open>d\<close>\<close>
  "life_tables db d = db\<lparr>tb_asset_findings := tb_asset_findings d, tb_asset_finding_history := tb_asset_finding_history d,
     tb_asset_finding_run_evaluations := tb_asset_finding_run_evaluations d, tb_domain_events := tb_domain_events d,
     tb_event_alert_queue := tb_event_alert_queue d\<rparr>"

definition life_frame :: "db \<Rightarrow> db \<Rightarrow> bool" where
  "life_frame db d \<longleftrightarrow> d = life_tables db d"

lemma life_frame_refl [simp]: "life_frame db db"
  by (simp add: life_frame_def life_tables_def)

lemma life_frame_trans: "life_frame a b \<Longrightarrow> life_frame b c \<Longrightarrow> life_frame a c"
proof -
  assume ab: "life_frame a b" and bc: "life_frame b c"
  have "life_tables (life_tables a b) c = life_tables a c" by (simp add: life_tables_def)
  with ab bc show ?thesis unfolding life_frame_def by metis
qed

lemma life_reads: "tb_settings (life_tables db d) = tb_settings db" "tb_policy_rules (life_tables db d) = tb_policy_rules db"
  "tb_agents (life_tables db d) = tb_agents db" "tb_findings (life_tables db d) = tb_findings db"
  "tb_asset_observations (life_tables db d) = tb_asset_observations db" "tb_devices (life_tables db d) = tb_devices db"
  "tb_scan_run_detector_coverage (life_tables db d) = tb_scan_run_detector_coverage db" "tb_assets (life_tables db d) = tb_assets db"
  "tb_vulnerability_detector_mappings (life_tables db d) = tb_vulnerability_detector_mappings db"
  "tb_scan_jobs (life_tables db d) = tb_scan_jobs db" "tb_vulnerabilities (life_tables db d) = tb_vulnerabilities db"
  by (simp_all add: life_tables_def)

lemma life_frame_swap: "life_frame db d \<Longrightarrow> life_frame db e \<Longrightarrow> life_frame d e"
proof -
  assume "life_frame db d" "life_frame db e"
  moreover have "life_tables (life_tables db d) e = life_tables db e" by (simp add: life_tables_def)
  ultimately show ?thesis unfolding life_frame_def by metis
qed

lemma applicable_life_tables:
  assumes "af_id g = af_id f" "af_tenant_id g = af_tenant_id f" "af_asset_id g = af_asset_id f"
  shows "snd (is_finding_applicable_to_run (life_tables db d) g job None) = snd (is_finding_applicable_to_run db f job None)"
proof -
  have scans: "run_scans_for (life_tables db d) job g None = run_scans_for db job f None"
    unfolding run_scans_for_def execution_context_def asset_observed_in_run_def asset_covered_by_detector_def run_observations_def
      life_reads assms ..
  have mapping: "mapping_for (life_tables db d) = mapping_for db"
    unfolding mapping_for_def mapping_row_def life_reads ..
  have mappings: "mappings_for (life_tables db d) pairs None = mappings_for db pairs None" for pairs
  proof (induction pairs)
    case (Cons pair pairs)
    then show ?case by (auto simp: mapping mapping_for_def [of db pair None] split: option.splits)
  qed simp
  have rows: "supporting_rows (life_tables db d) = supporting_rows db"
    unfolding supporting_rows_def life_reads ..
  have supporting: "supporting_mappings (life_tables db d) (af_id f) None = supporting_mappings db (af_id f) None"
    by (simp add: supporting_mappings_def supporting_detector_keys_def rows mappings)
  have latest: "latest_supporting_evidence (life_tables db d) i k key None = latest_supporting_evidence db i k key None" for i k key
    unfolding latest_supporting_evidence_def supporting_findings_def supporting_rows_def evidence_rows_def life_reads ..
  have included: "mappings_included (life_tables db d) i stages ms None = mappings_included db i stages ms None" for i stages ms
  proof (induction ms)
    case (Cons m ms)
    show ?case
    proof (cases "vdm_detector_type m = DETECTOR_NUCLEI")
      case True
      show ?thesis
        unfolding mappings_included_step [OF True latest_none] latest Cons.IH ..
    qed simp
  qed simp
  show ?thesis using supporting_none [of db "af_id f"]
    by (auto simp: is_finding_applicable_to_run_def scans supporting included assms split: prod.splits)
qed

lemma threshold_life_tables: "lifecycle_threshold (life_tables db d) fallback c = lifecycle_threshold db fallback c"
proof -
  have "evaluate (life_tables db d) ctx cat = evaluate db ctx cat" for ctx cat
    unfolding evaluate_def evaluate_with_def load_rules_def effective_actions_def fallback_inactive_days_def
        fallback_resolution_clean_scans_def get_settings_def life_reads ..
  then show ?thesis unfolding lifecycle_threshold_def by presburger
qed

subsection \<open>The verdict of a run\<close>

text \<open>What the end of a run does to one finding, in terms of the database before it.\<close>

definition clean_step :: "time \<Rightarrow> int \<Rightarrow> asset_finding \<Rightarrow> asset_finding" where
  "clean_step occurred_at threshold f = (let g = one_more_clean occurred_at f in
     if af_technical_state g \<noteq> TECHNICAL_OPEN \<or> af_consecutive_clean_scans g < threshold then g else resolved occurred_at g)"

definition judged :: "db \<Rightarrow> scan_job \<Rightarrow> asset_finding \<Rightarrow> bool" where
  "judged db job f \<longleftrightarrow> af_id f \<in> set (detected_ids db job) \<or> snd (is_finding_applicable_to_run db f job None)"

definition verdict :: "db \<Rightarrow> scan_job \<Rightarrow> time \<Rightarrow> int \<Rightarrow> asset_finding \<Rightarrow> asset_finding" where
  "verdict db job occurred_at fallback f =
     (if evaluation_exists db (af_id f) job None \<or> \<not> judged db job f then f
      else if af_id f \<in> set (detected_ids db job) then f\<lparr>af_consecutive_clean_scans := 0\<rparr>
      else case lifecycle_threshold db fallback (finding_context db f) of
        Inl _ \<Rightarrow> f | Inr (n, _) \<Rightarrow> clean_step occurred_at n f)"

lemma verdict_same: "af_id (verdict db job t n f) = af_id f" "subject_of (verdict db job t n f) = subject_of f"
    "af_tenant_id (verdict db job t n f) = af_tenant_id f" "life_ok f \<Longrightarrow> life_ok (verdict db job t n f)"
  by (auto simp: verdict_def clean_step_def Let_def one_more_clean_def resolved_def subject_of_def life_ok_def split: sum.splits)

lemma one_more_fields: "af_technical_state (one_more_clean t f) = af_technical_state f"
    "af_consecutive_clean_scans (one_more_clean t f) = af_consecutive_clean_scans f + 1" "af_id (one_more_clean t f) = af_id f"
  by (simp_all add: one_more_clean_def)

lemma life_steps: "life (one_more_clean t f) = (life f)\<lparr>af_consecutive_clean_scans := af_consecutive_clean_scans f + 1\<rparr>"
    "life (resolved t f) = (life f)\<lparr>af_technical_state := TECHNICAL_RESOLVED, af_resolved_at := Some t\<rparr>"
    "life (f\<lparr>af_consecutive_clean_scans := 0, af_updated_at := t\<rparr>) = (life f)\<lparr>af_consecutive_clean_scans := 0\<rparr>"
    "life (f\<lparr>af_consecutive_clean_scans := 0\<rparr>) = (life f)\<lparr>af_consecutive_clean_scans := 0\<rparr>"
  by (simp_all add: life_def one_more_clean_def resolved_def)

lemma life_eqD: "life f = life g \<Longrightarrow> af_id f = af_id g \<and> af_tenant_id f = af_tenant_id g \<and> af_asset_id f = af_asset_id g \<and>
    af_technical_state f = af_technical_state g \<and> af_consecutive_clean_scans f = af_consecutive_clean_scans g"
  by (metis life_fields)

lemma clean_step_life: "life f = life g \<Longrightarrow> life (clean_step t n f) = life (clean_step t n g)"
proof -
  assume eq: "life f = life g"
  have "life (clean_step t n h) = (let l = (life h)\<lparr>af_consecutive_clean_scans := af_consecutive_clean_scans (life h) + 1\<rparr> in
      if af_technical_state l \<noteq> TECHNICAL_OPEN \<or> af_consecutive_clean_scans l < n then l
      else l\<lparr>af_technical_state := TECHNICAL_RESOLVED, af_resolved_at := Some t\<rparr>)" for h
    by (simp add: clean_step_def Let_def life_steps one_more_fields)
  then show ?thesis using eq by (simp only: )
qed

text \<open>The database with one finding changed, as far as lives go.\<close>

definition one_life :: "nat \<Rightarrow> asset_finding \<Rightarrow> db \<Rightarrow> db \<Rightarrow> bool" where
  "one_life i f d d' \<longleftrightarrow> lives d' = (t_next (tb_asset_findings d), map (\<lambda>g. if af_id g = i then life f else life g) (t_rows (tb_asset_findings d)))"

lemma set_finding_one_life:
  assumes "findings_ok d" "get_finding i d = Some f" "keeps (set_finding i change d) d'"
  shows "one_life i (change f) d d'"
proof -
  have "g = f" if "g \<in> set (t_rows (tb_asset_findings d))" "af_id g = i" for g
    using finding_row [OF assms(1,2)] findings_okD(4) [OF assms(1)] that by blast
  moreover have "lives d' = lives (set_finding i change d)" using assms(3) by (simp add: keeps_def)
  ultimately show ?thesis by (auto simp: one_life_def lives_def set_finding_def)
qed

lemma same_one_life: "findings_ok d \<Longrightarrow> get_finding i d = Some f \<Longrightarrow> keeps d d' \<Longrightarrow> one_life i f d d'"
proof -
  assume "findings_ok d" "get_finding i d = Some f" "keeps d d'"
  moreover have "set_finding i (\<lambda>f. f) d = d" by (simp add: set_finding_def t_modify_def)
  ultimately show ?thesis using set_finding_one_life [of d i f "\<lambda>f. f" d'] by simp
qed

subsection \<open>The steps of finalization\<close>

abbreviation evaluations :: "db \<Rightarrow> asset_finding_run_evaluation tbl" where "evaluations db \<equiv> tb_asset_finding_run_evaluations db"

lemma emit_lifecycle_steps:
  assumes "emit_lifecycle_event now t f v job occ extra index d = Inr d'"
  shows "keeps d d' \<and> life_frame d d' \<and> evaluations d' = evaluations d"
proof -
  obtain e c ev where em: "emit_domain_event now e d = Inr (d', ev, c)"
    using assms by (auto simp: emit_lifecycle_event_def Let_def rbind_Inr_iff)
  obtain E Q where d': "d' = d\<lparr>tb_domain_events := E, tb_event_alert_queue := Q\<rparr>" using emit_frame [OF em] by blast
  have "d' = life_tables d d'" unfolding d' by (simp add: life_tables_def)
  then show ?thesis using emit_keeps [OF em] by (simp add: life_frame_def d')
qed

lemma set_finding_frame: "life_frame d (set_finding i change d)" "evaluations (set_finding i change d) = evaluations d"
  by (simp_all add: life_frame_def life_tables_def set_finding_def)

lemma append_frame:
  assumes "append_history now f tr prev new job occ det key d = (d', b)"
  shows "life_frame d d' \<and> evaluations d' = evaluations d \<and> tb_asset_findings d' = tb_asset_findings d"
proof -
  obtain H where "d' = d\<lparr>tb_asset_finding_history := H\<rparr>"
    using append_history_frame [of now f tr prev new job occ det key d] assms by auto
  then show ?thesis by (simp add: life_frame_def life_tables_def)
qed

lemma emit_cases_of: "(if \<not> w then Inr a else (case v of None \<Rightarrow> Inl e | Some y \<Rightarrow> F y (g y))) = Inr b \<Longrightarrow> a = b \<or> (\<exists>y z. F y z = Inr b)"
  by (auto split: if_splits option.splits)

lemma resolve_steps:
  assumes run: "resolve_if_threshold_reached now i job occ n det d = Inr d'" and row: "get_finding i d = Some f"
  shows "life_frame d d' \<and> evaluations d' = evaluations d \<and>
    lives d' = lives (if af_technical_state f \<noteq> TECHNICAL_OPEN \<or> af_consecutive_clean_scans f < n then d else set_finding i (resolved occ) d)"
proof (cases "af_technical_state f \<noteq> TECHNICAL_OPEN \<or> af_consecutive_clean_scans f < n")
  case True
  with assms show ?thesis by (simp add: resolve_if_threshold_reached_def)
next
  case False
  define r where "r = append_history now (resolved occ f) HISTORY_RESOLVED (Some (af_technical_state f)) TECHNICAL_RESOLVED
      (Some (job_id job)) occ (jupdate [(''reason'', JStr ''consecutive_clean_scans''), (''threshold'', JInt n)] det)
      (''resolved:'' @ show_nat i @ '':'' @ show_nat (job_id job)) (set_finding i (resolved occ) d)"
  obtain db1 w where h: "r = (db1, w)" by (cases r)
  have fr: "life_frame (set_finding i (resolved occ) d) db1" "evaluations db1 = evaluations d" "lives db1 = lives (set_finding i (resolved occ) d)"
    using append_frame [OF h [unfolded r_def]] set_finding_frame(2) by (simp_all add: lives_def)
  have "(if \<not> w then Inr db1 else (case t_get vul_id (af_vulnerability_id f) (tb_vulnerabilities db1) of
        None \<Rightarrow> Inl (PyError ''AttributeError'')
      | Some v \<Rightarrow> emit_lifecycle_event now EVENT_VULNERABILITY_RESOLVED (resolved occ f) v job occ
          [(''consecutive_clean_scans'', JInt (af_consecutive_clean_scans f))] None db1)) = Inr d'"
    using run unfolding resolve_if_threshold_reached_def row option.case if_not_P [OF False] Let_def r_def [symmetric] h prod.case .
  then have "db1 = d' \<or> (\<exists>v ex. emit_lifecycle_event now EVENT_VULNERABILITY_RESOLVED (resolved occ f) v job occ ex None db1 = Inr d')"
    by (rule emit_cases_of)
  then have "life_frame db1 d' \<and> evaluations d' = evaluations db1 \<and> lives d' = lives db1"
  proof (elim disjE exE)
    fix v ex assume "emit_lifecycle_event now EVENT_VULNERABILITY_RESOLVED (resolved occ f) v job occ ex None db1 = Inr d'"
    from emit_lifecycle_steps [OF this] show ?thesis by (simp add: keeps_def)
  qed simp
  then have "life_frame d d'" "evaluations d' = evaluations d" "lives d' = lives (set_finding i (resolved occ) d)"
    using life_frame_trans [OF life_frame_trans [OF set_finding_frame(1) fr(1)]] fr(2,3) by simp_all
  then show ?thesis unfolding if_not_P [OF False] by blast
qed

lemma life_frame_reads: "life_frame db d \<Longrightarrow> tb_findings d = tb_findings db \<and> tb_asset_observations d = tb_asset_observations db \<and>
    tb_devices d = tb_devices db \<and> tb_scan_run_detector_coverage d = tb_scan_run_detector_coverage db \<and> tb_assets d = tb_assets db \<and>
    tb_vulnerability_detector_mappings d = tb_vulnerability_detector_mappings db \<and> tb_scan_jobs d = tb_scan_jobs db"
  unfolding life_frame_def using life_reads [of db d] by metis

lemma rows_ok_frame: "life_frame db d \<Longrightarrow> rows_ok d job = rows_ok db job"
  by (simp add: rows_ok_def run_coverage_def life_frame_reads)

lemma index_ok_frame: "life_frame db d \<Longrightarrow> evaluations d = evaluations db \<Longrightarrow> index_ok d job ix = index_ok db job ix"
proof -
  assume f: "life_frame db d" and e: "evaluations d = evaluations db"
  have "mapping_row d = mapping_row db" by (intro ext) (simp add: mapping_row_def life_frame_reads [OF f])
  moreover have "supporting_rows d = supporting_rows db" by (intro ext) (simp add: supporting_rows_def life_frame_reads [OF f])
  ultimately show ?thesis
    by (simp add: index_ok_def run_observations_def run_devices_def run_coverage_def run_evaluations_def e life_frame_reads [OF f])
qed

lemma evaluation_none: "evaluation_exists d i job None \<longleftrightarrow> (\<exists>e \<in> set (t_rows (evaluations d)). afe_asset_finding_id e = i \<and> afe_scan_job_id e = job_id job)"
  by (simp add: evaluation_exists_def t_exists_iff)

lemma record_steps:
  assumes run: "record_evaluation now i job outcome occ reason (Some ix) d = (d', index', b)" and ix: "index_ok d job ix"
  shows "b \<longleftrightarrow> \<not> evaluation_exists d i job None" "life_frame d d'" "tb_asset_findings d' = tb_asset_findings d"
    "\<not> b \<Longrightarrow> d' = d" "evaluation_exists d' j job None \<longleftrightarrow> evaluation_exists d j job None \<or> j = i"
    "\<exists>ix'. index' = Some ix' \<and> index_ok d' job ix'"
proof -
  let ?mk = "new_evaluation now i job outcome occ reason"
  let ?d = "d\<lparr>tb_asset_finding_run_evaluations := t_insert ?mk (evaluations d)\<rparr>"
  have job: "ix_job ix = job" using ix by (rule index_okD(1))
  have seen: "evaluation_exists d i job (Some ix) = evaluation_exists d i job None" using ix by (rule evaluated_same)
  show b: "b \<longleftrightarrow> \<not> evaluation_exists d i job None"
    using run seen by (auto simp: record_evaluation_def Let_def split: if_splits)
  have new: "index_ok ?d job (remember_evaluation (?mk (t_next (evaluations d))) ix)"
    using ix by (auto simp: index_ok_def remember_evaluation_def new_evaluation_def run_observations_def run_devices_def run_coverage_def
        run_evaluations_def t_select_def mapping_row_def [abs_def] supporting_rows_def [abs_def])
  have cases: "d' = (if b then ?d else d) \<and> index' = (if b then Some (remember_evaluation (?mk (t_next (evaluations d))) ix) else Some ix)"
    using run seen b by (auto simp: record_evaluation_def Let_def split: if_splits)
  then show "life_frame d d'" "tb_asset_findings d' = tb_asset_findings d" "\<not> b \<Longrightarrow> d' = d"
    by (auto simp: life_frame_def life_tables_def)
  show "evaluation_exists d' j job None \<longleftrightarrow> evaluation_exists d j job None \<or> j = i"
    using cases b by (auto simp: evaluation_none new_evaluation_def)
  show "\<exists>ix'. index' = Some ix' \<and> index_ok d' job ix'"
    using cases new ix by (cases b) auto
qed

lemma findings_ok_frame: "life_frame db d \<Longrightarrow> tb_asset_findings d = tb_asset_findings db \<Longrightarrow> findings_ok d = findings_ok db"
  by (rule findings_ok_cong) (simp_all add: life_frame_reads)

lemma one_life_cong: "life f = life g \<Longrightarrow> one_life i f d d' = one_life i g d d'"
    "tb_asset_findings d1 = tb_asset_findings d \<Longrightarrow> one_life i f d1 d' = one_life i f d d'"
    "lives d1 = lives d' \<Longrightarrow> one_life i f d d1 = one_life i f d d'"
  unfolding one_life_def by (simp_all only:)

lemma get_set_finding: "(\<And>f. af_id (change f) = af_id f) \<Longrightarrow> get_finding i (set_finding i change d) = map_option change (get_finding i d)"
proof -
  assume id: "\<And>f. af_id (change f) = af_id f"
  have "first_match (\<lambda>r. af_id r = i) (map (\<lambda>r. if af_id r = i then change r else r) xs) = map_option change (first_match (\<lambda>r. af_id r = i) xs)" for xs
    by (induction xs) (simp_all add: id)
  then show ?thesis by (simp add: get_finding_def set_finding_def t_get_def t_first_def)
qed

lemma set_finding_twice: "(\<And>f. af_id (g f) = af_id f) \<Longrightarrow> set_finding i h (set_finding i g d) = set_finding i (\<lambda>f. h (g f)) d"
  by (auto simp: set_finding_def t_modify_def)

lemma clean_step_cases: "clean_step t n f = (if af_technical_state (one_more_clean t f) \<noteq> TECHNICAL_OPEN \<or> af_consecutive_clean_scans (one_more_clean t f) < n
    then one_more_clean t f else resolved t (one_more_clean t f))"
  unfolding clean_step_def Let_def ..

text \<open>One candidate: what happens to it is its verdict, judged by the database before the loop.\<close>

definition settled :: "db \<Rightarrow> scan_job \<Rightarrow> time \<Rightarrow> int \<Rightarrow> asset_finding \<Rightarrow> db \<Rightarrow> db \<times> run_index option \<Rightarrow> bool" where
  "settled db job occ n f d s \<longleftrightarrow> life_frame db (fst s) \<and> (\<exists>ix'. snd s = Some ix' \<and> index_ok (fst s) job ix') \<and>
     one_life (af_id f) (verdict db job occ n f) d (fst s) \<and>
     (\<forall>j. evaluation_exists (fst s) j job None \<longleftrightarrow> evaluation_exists d j job None \<or> (j = af_id f \<and> judged db job f))"

lemma detected_settles:
  assumes ok: "findings_ok d" and fr: "life_frame db d" and ix: "index_ok d job ix"
    and row: "get_finding (af_id f) d = Some g" "life g = life f"
    and same: "evaluation_exists d (af_id f) job None = evaluation_exists db (af_id f) job None"
    and det: "af_id f \<in> set (detected_ids db job)"
  shows "settled db job occ n f d (evaluate_detected now job occ (af_id f) (d, Some ix))"
proof -
  let ?i = "af_id f"
  obtain d1 index1 b where rec: "record_evaluation now ?i job EVALUATION_DETECTED occ ''positive_detection'' (Some ix) d = (d1, index1, b)"
    by (rule prod_cases3)
  note s = record_steps [OF rec ix]
  have fr1: "life_frame db d1" using fr s(2) by (rule life_frame_trans)
  obtain ix1 where ix1: "index1 = Some ix1" "index_ok d1 job ix1" using s(6) by blast
  have judged: "judged db job f" using det by (simp add: judged_def)
  show ?thesis
  proof (cases b)
    case False
    then have "d1 = d" "evaluation_exists db ?i job None" using s(1,4) same by simp_all
    moreover from this have "verdict db job occ n f = f" by (simp add: verdict_def)
    moreover have "one_life ?i f d d" using same_one_life [OF ok row(1) keeps_refl] one_life_cong(1) [OF row(2)] by simp
    ultimately show ?thesis using rec False ix1 fr1 s(5) judged by (auto simp: settled_def evaluate_detected_def)
  next
    case True
    let ?ch = "\<lambda>f. f\<lparr>af_consecutive_clean_scans := 0, af_updated_at := occ\<rparr>"
    let ?d2 = "set_finding ?i ?ch d1"
    have "findings_ok d1" using ok findings_ok_frame [OF s(2,3)] by simp
    moreover have "get_finding ?i d1 = Some g" using row(1) s(3) by (simp add: get_finding_def)
    ultimately have "one_life ?i (?ch g) d1 ?d2" using keeps_refl by (rule set_finding_one_life)
    moreover have "life (?ch g) = life (verdict db job occ n f)"
    proof -
      have "\<not> evaluation_exists db ?i job None" using True s(1) same by simp
      then have "verdict db job occ n f = f\<lparr>af_consecutive_clean_scans := 0\<rparr>" using det judged by (simp add: verdict_def)
      then show ?thesis by (simp add: life_steps row(2))
    qed
    ultimately have "one_life ?i (verdict db job occ n f) d ?d2" using one_life_cong(1,2) s(3) by metis
    moreover have "life_frame db ?d2" using fr1 set_finding_frame(1) by (rule life_frame_trans)
    moreover have "index_ok ?d2 job ix1" using index_ok_frame [OF set_finding_frame] ix1(2) by simp
    ultimately show ?thesis using rec True ix1(1) s(5) judged
      by (auto simp: settled_def evaluate_detected_def evaluation_none set_finding_frame(2))
  qed
qed

lemma clean_settles:
  assumes ok: "findings_ok d" and fr: "life_frame db d" and ix: "index_ok d job ix" and rows: "rows_ok db job"
    and row: "get_finding (af_id f) d = Some g" "life g = life f"
    and same: "evaluation_exists d (af_id f) job None = evaluation_exists db (af_id f) job None"
    and det: "af_id f \<notin> set (detected_ids db job)"
    and run: "evaluate_clean now job occ n (af_id f, finding_context db f) (d, Some ix) = Inr s"
  shows "settled db job occ n f d s"
proof -
  let ?i = "af_id f"
  have "d = life_tables db d" using fr by (simp add: life_frame_def)
  then have app: "snd (is_finding_applicable_to_run d g job None) = judged db job f"
    using applicable_life_tables [of g f db d job] life_eqD [OF row(2)] det by (simp add: judged_def)
  have rowsd: "rows_ok d job" using rows rows_ok_frame [OF fr] by simp
  obtain ix1 where ix1: "is_finding_applicable_to_run d g job (Some ix) = (Some ix1, judged db job f)" "index_ok d job ix1"
    using applicable_same [OF ix rowsd, of g, unfolded app] by blast
  have keep: "one_life ?i f d d" using same_one_life [OF ok row(1) keeps_refl] one_life_cong(1) [OF row(2)] by simp
  show ?thesis
  proof (cases "judged db job f")
    case False
    then have "verdict db job occ n f = f" by (simp add: verdict_def)
    moreover have "s = (d, Some ix1)" using run row(1) ix1(1) False by (simp add: evaluate_clean_def)
    ultimately show ?thesis using fr ix1(2) keep False by (simp add: settled_def)
  next
    case True
    obtain d1 index2 b where rec: "record_evaluation now ?i job EVALUATION_CLEAN occ ''applicable_clean_scan'' (Some ix1) d = (d1, index2, b)"
      by (rule prod_cases3)
    note s = record_steps [OF rec ix1(2)]
    have fr1: "life_frame db d1" using fr s(2) by (rule life_frame_trans)
    obtain ix2 where ix2: "index2 = Some ix2" "index_ok d1 job ix2" using s(6) by blast
    show ?thesis
    proof (cases b)
      case False
      then have d1: "d1 = d" "evaluation_exists db ?i job None" using s(1,4) same by simp_all
      then have "verdict db job occ n f = f" by (simp add: verdict_def)
      moreover have "s = (d1, Some ix2)" using run row(1) ix1(1) True rec False ix2(1) by (simp add: evaluate_clean_def)
      ultimately show ?thesis using fr1 ix2(2) keep True d1(1) s(5) by (auto simp: settled_def)
    next
      case b: True
      have "lifecycle_threshold d1 n (finding_context db f) = lifecycle_threshold db n (finding_context db f)"
        using fr1 threshold_life_tables unfolding life_frame_def by metis
      then obtain m det d3 where th: "lifecycle_threshold db n (finding_context db f) = Inr (m, det)"
        and res: "resolve_if_threshold_reached now ?i job occ m det (set_finding ?i (one_more_clean occ) d1) = Inr d3"
        and sd: "s = (d3, Some ix2)"
        using run row(1) ix1(1) True rec b ix2(1) by (auto simp: evaluate_clean_def rbind_Inr_iff)
      let ?d2 = "set_finding ?i (one_more_clean occ) d1"
      have ok1: "findings_ok d1" using ok findings_ok_frame [OF s(2,3)] by simp
      have g1: "get_finding ?i d1 = Some g" using row(1) s(3) by (simp add: get_finding_def)
      have id: "af_id (one_more_clean occ h) = af_id h" for h by (simp add: one_more_fields)
      have g2: "get_finding ?i ?d2 = Some (one_more_clean occ g)" using g1 get_set_finding [of "one_more_clean occ", OF id] by simp
      note r = resolve_steps [OF res g2]
      have "one_life ?i (clean_step occ m g) d1 d3"
      proof (cases "af_technical_state (one_more_clean occ g) \<noteq> TECHNICAL_OPEN \<or> af_consecutive_clean_scans (one_more_clean occ g) < m")
        case True
        then have "lives ?d2 = lives d3" using r by simp
        then show ?thesis unfolding clean_step_cases if_P [OF True]
          using set_finding_one_life [OF ok1 g1 keeps_refl, of "one_more_clean occ"] one_life_cong(3) by blast
      next
        case False
        then have "lives (set_finding ?i (\<lambda>f. resolved occ (one_more_clean occ f)) d1) = lives d3"
          using r set_finding_twice [of "one_more_clean occ", OF id] by simp
        then show ?thesis unfolding clean_step_cases if_not_P [OF False]
          using set_finding_one_life [OF ok1 g1 keeps_refl, of "\<lambda>f. resolved occ (one_more_clean occ f)"] one_life_cong(3) by blast
      qed
      moreover have "life (clean_step occ m g) = life (verdict db job occ n f)"
      proof -
        have "verdict db job occ n f = clean_step occ m f" using True b s(1) same det th by (simp add: verdict_def)
        then show ?thesis using clean_step_life [OF row(2)] by simp
      qed
      ultimately have "one_life ?i (verdict db job occ n f) d d3" using one_life_cong(1,2) s(3) by metis
      moreover have fr3: "life_frame d1 d3" "evaluations d3 = evaluations d1"
        using r life_frame_trans [OF set_finding_frame(1)] set_finding_frame(2) by (blast, simp)
      moreover have "life_frame db d3" using fr1 fr3(1) by (rule life_frame_trans)
      moreover have "index_ok d3 job ix2" using index_ok_frame [OF fr3] ix2(2) by simp
      ultimately show ?thesis using s(5) True by (auto simp: settled_def sd evaluation_none)
    qed
  qed
qed

subsection \<open>The loop of finalization\<close>

lemma get_life: "map_option life (get_finding i d) = first_match (\<lambda>r. af_id r = i) (snd (lives d))"
proof -
  have "map_option life (first_match (\<lambda>r. af_id r = i) xs) = first_match (\<lambda>r. af_id r = i) (map life xs)" for xs
    by (induction xs) simp_all
  then show ?thesis by (simp add: get_finding_def t_get_def t_first_def lives_def)
qed

lemma one_life_get:
  assumes "one_life i v d d'" "af_id v = i" "get_finding i d \<noteq> None"
  shows "map_option life (get_finding j d') = (if j = i then Some (life v) else map_option life (get_finding j d))"
proof -
  have map: "first_match (\<lambda>r. af_id r = j) (map (\<lambda>g. if af_id g = i then life v else life g) xs) =
      (if j = i then (if first_match (\<lambda>r. af_id r = i) xs = None then None else Some (life v))
       else map_option life (first_match (\<lambda>r. af_id r = j) xs))" for xs
    by (induction xs) (auto simp: assms(2))
  have rows: "snd (lives d') = map (\<lambda>g. if af_id g = i then life v else life g) (t_rows (tb_asset_findings d))"
    using assms(1) by (simp add: one_life_def)
  show ?thesis unfolding get_life [of j d'] rows map using assms(3) by (auto simp: get_finding_def t_get_def t_first_def)
qed

lemma findings_ok_life: "life_table (tb_asset_findings d) = life_table (tb_asset_findings d') \<Longrightarrow> tb_findings d = tb_findings d' \<Longrightarrow>
    tb_assets d = tb_assets d' \<Longrightarrow> tb_scan_jobs d = tb_scan_jobs d' \<Longrightarrow> findings_ok d = findings_ok d'"
  unfolding findings_ok_def using life_table_ok by metis

lemma one_life_ok:
  assumes ok: "findings_ok d" and row: "get_finding i d = Some g" "life g = life f" and v: "one_life i v d d'"
    and same: "af_id v = af_id f" "af_tenant_id v = af_tenant_id f" "subject_of v = subject_of f" "life_ok f \<Longrightarrow> life_ok v" and fr: "life_frame d d'"
  shows "findings_ok d'"
proof -
  let ?ch = "\<lambda>h. if life h = life f then v else h"
  have eq: "life h = life f \<Longrightarrow> af_id h = af_id f \<and> af_tenant_id h = af_tenant_id f \<and> subject_of h = subject_of f \<and> life_ok h = life_ok f" for h
    using life_predicates life_fields by metis
  have "findings_ok (set_finding i ?ch d)"
    by (rule set_finding_life_ok [OF ok]) (auto simp: same dest: eq)
  moreover have "lives (set_finding i ?ch d) = lives d'"
  proof -
    have "h = g" if "h \<in> set (t_rows (tb_asset_findings d))" "af_id h = i" for h
      using finding_row [OF ok row(1)] findings_okD(4) [OF ok] that by blast
    then show ?thesis using v row(2) by (auto simp: one_life_def lives_def set_finding_def)
  qed
  then have "life_table (tb_asset_findings (set_finding i ?ch d)) = life_table (tb_asset_findings d')"
    by (simp add: lives_def life_table_def)
  then have "findings_ok (set_finding i ?ch d) = findings_ok d'"
    by (rule findings_ok_life) (simp_all add: life_frame_reads [OF fr] set_finding_def)
  ultimately show ?thesis by simp
qed

lemma finalize_loop:
  assumes rows: "rows_ok db job"
  shows "distinct (map af_id cs) \<Longrightarrow> findings_ok d \<Longrightarrow> life_frame db d \<Longrightarrow> index_ok d job ix \<Longrightarrow>
    (\<And>f. f \<in> set cs \<Longrightarrow> map_option life (get_finding (af_id f) d) = Some (life f) \<and>
       evaluation_exists d (af_id f) job None = evaluation_exists db (af_id f) job None) \<Longrightarrow>
    rfold (finalize_one now job occ n (detected_ids db job)) (map (\<lambda>f. (af_id f, finding_context db f)) cs) (d, Some ix) = Inr s \<Longrightarrow>
    findings_ok (fst s) \<and> life_frame db (fst s) \<and>
    (\<forall>j. map_option life (get_finding j (fst s)) = (case first_match (\<lambda>f. af_id f = j) cs of
        Some f \<Rightarrow> Some (life (verdict db job occ n f)) | None \<Rightarrow> map_option life (get_finding j d))) \<and>
    (\<forall>j. evaluation_exists (fst s) j job None \<longleftrightarrow> evaluation_exists d j job None \<or> (\<exists>f \<in> set cs. af_id f = j \<and> judged db job f))"
proof (induction cs arbitrary: d ix)
  case Nil
  then have "s = (d, Some ix)" by simp
  with Nil show ?case by simp
next
  case (Cons f cs)
  let ?i = "af_id f"
  obtain g where g: "get_finding ?i d = Some g" "life g = life f" using Cons.prems(5) [of f] by auto
  have same: "evaluation_exists d ?i job None = evaluation_exists db ?i job None" using Cons.prems(5) [of f] by simp
  obtain s1 where one: "finalize_one now job occ n (detected_ids db job) (?i, finding_context db f) (d, Some ix) = Inr s1"
    and rest: "rfold (finalize_one now job occ n (detected_ids db job)) (map (\<lambda>f. (af_id f, finding_context db f)) cs) s1 = Inr s"
    using Cons.prems(6) by (auto simp: rbind_Inr_iff)
  have set: "settled db job occ n f d s1"
  proof (cases "?i \<in> set (detected_ids db job)")
    case True
    then have "s1 = evaluate_detected now job occ ?i (d, Some ix)" using one by (simp add: finalize_one_def)
    then show ?thesis using detected_settles [OF Cons.prems(2,3,4) g same True, of occ n now] by simp
  next
    case False
    then have "evaluate_clean now job occ n (?i, finding_context db f) (d, Some ix) = Inr s1" using one by (simp add: finalize_one_def)
    from clean_settles [OF Cons.prems(2,3,4) rows g same False this] show ?thesis .
  qed
  obtain d1 idx where pair: "s1 = (d1, idx)" by (cases s1)
  obtain ix1 where s1: "s1 = (d1, Some ix1)" "index_ok d1 job ix1" and fr1: "life_frame db d1"
    and life1: "one_life ?i (verdict db job occ n f) d d1"
    and eval1: "\<And>j. evaluation_exists d1 j job None \<longleftrightarrow> evaluation_exists d j job None \<or> (j = ?i \<and> judged db job f)"
    using set unfolding settled_def pair fst_conv snd_conv by blast
  have get1: "map_option life (get_finding j d1) = (if j = ?i then Some (life (verdict db job occ n f)) else map_option life (get_finding j d))" for j
    by (rule one_life_get [OF life1 verdict_same(1)]) (simp add: g(1))
  have "life_frame d d1"
    using Cons.prems(3) fr1 by (rule life_frame_swap)
  then have ok1: "findings_ok d1"
    using one_life_ok [OF Cons.prems(2) g life1 verdict_same(1,3,2,4)] by blast
  have dist: "distinct (map af_id cs)" "?i \<notin> set (map af_id cs)" using Cons.prems(1) by simp_all
  have ne: "af_id h \<noteq> ?i" if "h \<in> set cs" for h
  proof
    assume "af_id h = ?i"
    then have "?i \<in> set (map af_id cs)" using imageI [OF that, of af_id] by simp
    with dist(2) show False ..
  qed
  have "map_option life (get_finding (af_id h) d1) = Some (life h) \<and>
      evaluation_exists d1 (af_id h) job None = evaluation_exists db (af_id h) job None" if "h \<in> set cs" for h
    using Cons.prems(5) [of h] that ne [OF that] get1 eval1 by simp
  from Cons.IH [OF dist(1) ok1 fr1 s1(2) this rest [unfolded s1(1)]]
  have IH: "findings_ok (fst s)" "life_frame db (fst s)"
    "\<And>j. map_option life (get_finding j (fst s)) = (case first_match (\<lambda>f. af_id f = j) cs of
        Some f \<Rightarrow> Some (life (verdict db job occ n f)) | None \<Rightarrow> map_option life (get_finding j d1))"
    "\<And>j. evaluation_exists (fst s) j job None \<longleftrightarrow> evaluation_exists d1 j job None \<or> (\<exists>f \<in> set cs. af_id f = j \<and> judged db job f)"
    by blast+
  have "first_match (\<lambda>f. af_id f = ?i) cs = None" using ne by (simp add: first_match_None)
  then have "map_option life (get_finding j (fst s)) = (case first_match (\<lambda>f. af_id f = j) (f # cs) of
      Some f \<Rightarrow> Some (life (verdict db job occ n f)) | None \<Rightarrow> map_option life (get_finding j d))" for j
    unfolding IH(3) get1 by (cases "j = ?i") simp_all
  moreover have "evaluation_exists (fst s) j job None \<longleftrightarrow>
      evaluation_exists d j job None \<or> (\<exists>h \<in> set (f # cs). af_id h = j \<and> judged db job h)" for j
    unfolding IH(4) eval1 by auto
  ultimately show ?case using IH(1,2) by blast
qed

lemma finalize_steps:
  assumes ok: "findings_ok db" and rows: "rows_ok db job" and run: "finalize_run_lifecycle now job db = Inr db'"
  obtains fallback where "resolution_threshold db = Inr fallback" "findings_ok db'" "life_frame db db'"
    "\<And>f. f \<in> set (t_rows (tb_asset_findings db)) \<Longrightarrow> map_option life (get_finding (af_id f) db') =
      Some (life (if f \<in> set (lifecycle_candidates db job)
        then verdict db job (case job_finished_at job of Some t \<Rightarrow> t | None \<Rightarrow> now) fallback f else f))"
    "\<And>j. evaluation_exists db' j job None \<longleftrightarrow> evaluation_exists db j job None \<or>
      (\<exists>f \<in> set (lifecycle_candidates db job). af_id f = j \<and> judged db job f)"
    "\<And>i. get_finding i db = None \<Longrightarrow> get_finding i db' = None"
proof -
  let ?occ = "case job_finished_at job of Some t \<Rightarrow> t | None \<Rightarrow> now"
  let ?cs = "lifecycle_candidates db job"
  obtain fallback s where th: "resolution_threshold db = Inr fallback"
    and loop: "rfold (finalize_one now job ?occ fallback (detected_ids db job)) (map (\<lambda>f. (af_id f, finding_context db f)) ?cs)
        (db, Some (build_index db job [])) = Inr s" and s: "db' = fst s"
    using run by (auto simp: finalize_run_lifecycle_def Let_def rbind_Inr_iff split: if_splits)
  have wf: "t_wf af_id (tb_asset_findings db)" using ok by (simp add: findings_ok_def finding_rows_ok_def)
  have dist: "distinct (map af_id ?cs)" using wf by (simp add: lifecycle_candidates_def t_select_def t_wf_def distinct_map_filter)
  have get: "get_finding (af_id f) db = Some f" if "f \<in> set (t_rows (tb_asset_findings db))" for f
    using wf that by (simp add: get_finding_def t_wf_get)
  have mem: "f \<in> set (t_rows (tb_asset_findings db))" if "f \<in> set ?cs" for f
    using that by (simp add: lifecycle_candidates_def t_select_def)
  have "map_option life (get_finding (af_id f) db) = Some (life f) \<and>
      evaluation_exists db (af_id f) job None = evaluation_exists db (af_id f) job None" if "f \<in> set ?cs" for f
    using get [OF mem [OF that]] by simp
  from finalize_loop [OF rows dist ok life_frame_refl build_index_ok this loop]
  have L: "findings_ok db'" "life_frame db db'"
    "\<And>j. map_option life (get_finding j db') = (case first_match (\<lambda>f. af_id f = j) ?cs of
        Some f \<Rightarrow> Some (life (verdict db job ?occ fallback f)) | None \<Rightarrow> map_option life (get_finding j db))"
    "\<And>j. evaluation_exists db' j job None \<longleftrightarrow> evaluation_exists db j job None \<or> (\<exists>f \<in> set ?cs. af_id f = j \<and> judged db job f)"
    unfolding s by blast+
  show ?thesis
  proof (rule that [OF th L(1,2) _ L(4)])
    fix f assume f: "f \<in> set (t_rows (tb_asset_findings db))"
    show "map_option life (get_finding (af_id f) db') = Some (life (if f \<in> set ?cs then verdict db job ?occ fallback f else f))"
    proof (cases "f \<in> set ?cs")
      case True
      with first_match_unique [OF dist] show ?thesis by (simp add: L(3))
    next
      case False
      have "first_match (\<lambda>g. af_id g = af_id f) ?cs = None"
        using False findings_okD(4) [OF ok f] mem unfolding first_match_None by blast
      with False get [OF f] show ?thesis by (simp add: L(3))
    qed
  next
    fix i assume none: "get_finding i db = None"
    have "first_match (\<lambda>g. af_id g = i) ?cs = None"
      using none mem unfolding first_match_None get_finding_def t_get_def t_first_None by blast
    with none show "get_finding i db' = None" using L(3) [of i] by simp
  qed
qed

subsection \<open>A batch keeps findings and evidence sound\<close>

definition core :: "run_index option \<Rightarrow> (scan_job \<times> (string option \<times> nat) list) option" where
  "core index = map_option (\<lambda>ix. (ix_job ix, ix_findings ix)) index"

lemma core_simps [simp]: "core None = None" "core (Some ix) = Some (ix_job ix, ix_findings ix)"
  by (simp_all add: core_def)

lemma asset_finding_for_row:
  assumes "asset_finding_for db asset vuln index = (index', r)"
  shows "core index' = core index" "r = None \<Longrightarrow> asset_finding_row db asset vuln = None"
  using assms by (auto simp: asset_finding_for_def split: option.splits)

lemma remember_core [simp]: "core (map_option (remember_asset_finding f) index) = core index"
    "core (map_option (remember_vulnerability v) index) = core index" "core (map_option (remember_mapping m) index) = core index"
  by (cases index; simp add: remember_asset_finding_def remember_vulnerability_def remember_mapping_def)+

text \<open>Which finding is of which asset and vulnerability.\<close>

definition subjects :: "db \<Rightarrow> (nat \<times> nat \<times> nat) list" where
  "subjects db = map (\<lambda>f. (af_id f, af_asset_id f, af_vulnerability_id f)) (t_rows (tb_asset_findings db))"

lemma keeps_subjects: "keeps db db' \<Longrightarrow> subjects db' = subjects db"
proof -
  have "subjects d = map (\<lambda>f. (af_id f, af_asset_id f, af_vulnerability_id f)) (t_rows (life_table (tb_asset_findings d)))" for d
    by (simp add: subjects_def life_table_def)
  then show "keeps db db' \<Longrightarrow> subjects db' = subjects db" by (simp add: keepsD(1))
qed

lemma set_finding_subjects: "(\<And>f. af_id (change f) = af_id f \<and> af_asset_id (change f) = af_asset_id f \<and> af_vulnerability_id (change f) = af_vulnerability_id f) \<Longrightarrow>
    subjects (set_finding i change db) = subjects db"
  by (simp add: subjects_def set_finding_def)

lemma lifecycle_keeps_fixed: "emit_lifecycle_event now t f v job occ extra index d = Inr d' \<Longrightarrow> findings_ok d' = findings_ok d \<and> fixed d' = fixed d \<and>
    finding_ids (tb_asset_findings d') = finding_ids (tb_asset_findings d) \<and> subjects d' = subjects d"
  using emit_lifecycle_steps keeps_ok keeps_fixed keeps_ids keeps_subjects by blast

lemma append_history_ids: "finding_ids (tb_asset_findings (fst (append_history now f tr prev new job occ det key db))) = finding_ids (tb_asset_findings db)"
    "subjects (fst (append_history now f tr prev new job occ det key db)) = subjects db"
  using append_history_frame [of now f tr prev new job occ det key db] by (auto simp: subjects_def)

lemma open_finding_ok:
  assumes ok: "findings_ok db" and asset: "a \<in> set (t_rows (tb_assets db))" "asset_id a = asset" "asset_tenant_id a = job_tenant_id job"
    and none: "asset_finding_row db asset (vul_id v) = None" and run: "open_finding now asset v job d t index db = Inr (db', index', i)"
  shows "findings_ok db' \<and> fixed db' = fixed db \<and> core index' = core index \<and> (i, job_tenant_id job) \<in> set (finding_ids (tb_asset_findings db'))"
proof -
  define mk where "mk = new_asset_finding now (job_tenant_id job) asset (vul_id v) t t t"
  define f where "f = mk (t_next (tb_asset_findings db))"
  define db1 where "db1 = db\<lparr>tb_asset_findings := t_insert mk (tb_asset_findings db)\<rparr>"
  define db2 where "db2 = fst (append_history now f HISTORY_OPENED None TECHNICAL_OPEN (Some (job_id job)) t
            [(''reason'', JStr ''first_detection''), (''detector_type'', JStr (di_detector_type d))]
            (''opened:'' @ show_nat (af_id f) @ '':'' @ show_nat (job_id job)) db1)"
  have em: "emit_lifecycle_event now EVENT_NEW_FINDING f v job t [] (map_option (remember_asset_finding f) index) db2 = Inr db'"
    and rest: "index' = map_option (remember_asset_finding f) index" "i = af_id f"
    using run unfolding open_finding_def Let_def mk_def [symmetric] f_def [symmetric] db1_def [symmetric] db2_def [symmetric]
    by (auto simp: rbind_Inr_iff)
  have "owned (tb_assets db) (mk n)" for n
    using asset by (auto simp: owned_def list_ex_iff mk_def new_asset_finding_def)
  then have ok1: "findings_ok db1"
    unfolding db1_def by (intro insert_finding_ok [OF ok _ _ _ none]) (simp_all add: mk_def new_finding_ok)
  have f: "(af_id f, job_tenant_id job) \<in> set (finding_ids (tb_asset_findings db1))"
    by (simp add: db1_def finding_ids_def f_def mk_def new_finding_ok)
  have "findings_ok db2" "fixed db2 = fixed db" using ok1 by (simp_all add: db2_def append_history_ok) (simp add: db1_def fixed_def)
  moreover have "finding_ids (tb_asset_findings db2) = finding_ids (tb_asset_findings db1)" unfolding db2_def by (rule append_history_ids(1))
  ultimately show ?thesis using lifecycle_keeps_fixed [OF em] f rest by simp
qed

lemma detect_again_ok:
  assumes ok: "findings_ok db" and run: "detect_again now f v job t index db = Inr (db', c)"
  shows "findings_ok db' \<and> fixed db' = fixed db \<and> finding_ids (tb_asset_findings db') = finding_ids (tb_asset_findings db) \<and>
    subjects db' = subjects db"
proof (cases "af_technical_state f \<noteq> TECHNICAL_RESOLVED")
  case True
  have "findings_ok (set_finding (af_id f) (seen_again t) db)"
    by (rule set_finding_life_ok [OF ok]) (auto simp: seen_again_def subject_of_def life_ok_def)
  moreover have "finding_ids (tb_asset_findings (set_finding (af_id f) (seen_again t) db)) = finding_ids (tb_asset_findings db)"
    by (simp add: set_finding_def finding_ids_modify seen_again_def)
  moreover have "subjects (set_finding (af_id f) (seen_again t) db) = subjects db"
    by (rule set_finding_subjects) (simp add: seen_again_def)
  ultimately show ?thesis using run True by (auto simp: detect_again_def)
next
  case False
  let ?ch = "\<lambda>f. reopened (seen_again t f)"
  let ?db1 = "set_finding (af_id f) ?ch db"
  define db2 where "db2 = fst (append_history now (?ch f) HISTORY_REOPENED (Some (af_technical_state f)) TECHNICAL_OPEN (Some (job_id job)) t
                 [(''reason'', JStr ''detected_after_resolution'')]
                 (''reopened:'' @ show_nat (af_id f) @ '':'' @ show_nat (job_id job)) ?db1)"
  have ok1: "findings_ok ?db1"
    by (rule set_finding_life_ok [OF ok]) (auto simp: reopened_def seen_again_def subject_of_def life_ok_def)
  have ids1: "finding_ids (tb_asset_findings ?db1) = finding_ids (tb_asset_findings db)"
    by (simp add: set_finding_def finding_ids_modify seen_again_def reopened_def)
  obtain ex where em: "emit_lifecycle_event now EVENT_VULNERABILITY_REOPENED (?ch f) v job t ex index db2 = Inr db'"
    using run unfolding detect_again_def if_not_P [OF False] Let_def db2_def [symmetric] by (auto simp: rbind_Inr_iff)
  have "findings_ok db2" "fixed db2 = fixed db" using ok1 by (simp_all add: db2_def append_history_ok)
  moreover have "finding_ids (tb_asset_findings db2) = finding_ids (tb_asset_findings ?db1)" "subjects db2 = subjects ?db1"
    unfolding db2_def by (rule append_history_ids)+
  moreover have "subjects ?db1 = subjects db" by (rule set_finding_subjects) (simp add: reopened_def seen_again_def)
  ultimately show ?thesis using lifecycle_keeps_fixed [OF em] ids1 by simp
qed

lemma apply_detection_ok:
  assumes ok: "findings_ok db" and asset: "a \<in> set (t_rows (tb_assets db))"
    and run: "apply_detection now a v job d t index db = Inr (db', index', i, c)"
  shows "findings_ok db' \<and> fixed db' = fixed db \<and> core index' = core index \<and> (i, job_tenant_id job) \<in> set (finding_ids (tb_asset_findings db'))"
proof -
  have tenant: "asset_tenant_id a = job_tenant_id job" using run by (auto simp: apply_detection_def split: if_splits)
  obtain index1 r where r: "asset_finding_for db (asset_id a) (vul_id v) index = (index1, r)" by fastforce
  note row = asset_finding_for_row [OF r]
  show ?thesis
  proof (cases r)
    case None
    then have "open_finding now (asset_id a) v job d t index1 db = Inr (db', index', i)"
      using run tenant r by (auto simp: apply_detection_def rbind_Inr_iff)
    from open_finding_ok [OF ok asset refl tenant row(2) [OF None] this] row(1) show ?thesis by simp
  next
    case (Some k)
    obtain f where f: "get_finding k db = Some f" "af_tenant_id f = job_tenant_id job"
      and again: "detect_again now f v job t index1 db = Inr (db', c)" and rest: "index' = map_option (remember_asset_finding f) index1" "i = k"
      using run tenant r Some by (auto simp: apply_detection_def rbind_Inr_iff split: option.splits if_splits)
    have "(k, job_tenant_id job) \<in> set (finding_ids (tb_asset_findings db))"
      using findings_okD(3) [OF ok, of f] finding_row [OF ok f(1)] f(2) by simp
    with detect_again_ok [OF ok again] rest row(1) show ?thesis by simp
  qed
qed

lemma mapping_for_core: "mapping_for db pair index = (index', m) \<Longrightarrow> core index' = core index"
  by (auto simp: mapping_for_def split: option.splits)

lemma vulnerability_step_core: "get_or_create_vulnerability now d index db = (db', index', v) \<Longrightarrow> core index' = core index"
proof -
  have f: "core (fst (vulnerability_for db key index)) = core index" for key
    by (auto simp: vulnerability_for_def split: option.splits)
  assume "get_or_create_vulnerability now d index db = (db', index', v)"
  then show ?thesis using f [of "di_canonical_key d"]
    by (auto simp: get_or_create_vulnerability_def Let_def split: if_splits prod.splits option.splits)
qed

lemma desired_core: "desired_catalog_identity d index db = (index', key, cve) \<Longrightarrow> core index' = core index"
  by (auto simp: desired_catalog_identity_def known_cves_for_detector_def add_identity_cves_def add_cves_def Let_def split: option.splits prod.splits)

lemma upsert_core:
  assumes "upsert_detector_catalog now d index db = Inr (db', index', r)"
  shows "core index' = core index"
proof (cases "di_detector_type d = [] \<or> di_detector_key d = []")
  case True
  with assms show ?thesis by (auto simp: upsert_detector_catalog_def)
next
  case False
  obtain index1 key cve where want: "desired_catalog_identity d index db = (index1, key, cve)" by (rule prod_cases3)
  obtain db1 index2 v where v: "get_or_create_vulnerability now (d\<lparr>di_canonical_key := key, di_cve_id := cve\<rparr>) index1 db = (db1, index2, v)"
    by (rule prod_cases3)
  obtain index3 m where m: "mapping_for db1 (di_detector_type d, di_detector_key d) index2 = (index3, m)" by (rule prod.exhaust)
  have "core index3 = core index" using desired_core [OF want] vulnerability_step_core [OF v] mapping_for_core [OF m] by simp
  moreover have "core index2 = core index" using desired_core [OF want] vulnerability_step_core [OF v] by simp
  ultimately show ?thesis using assms False want v m
    by (cases v; cases m) (auto simp: upsert_detector_catalog_def rbind_Inr_iff Let_def)
qed

definition run_keys :: "db \<Rightarrow> scan_job \<Rightarrow> string option set" where
  "run_keys db job = set (map fnd_evidence_key (run_evidence db job))"

lemma run_keys_fixed: "fixed db' = fixed db \<Longrightarrow> run_keys db' job = run_keys db job"
proof -
  have "run_keys d job = (\<lambda>(i, j, tn, k). k) ` {(i, j, tn, k) \<in> set (snd (snd (fixed d))). j = Some (job_id job) \<and> tn = job_tenant_id job}" for d
    by (force simp: run_keys_def run_evidence_def t_select_def fixed_def)
  then show "fixed db' = fixed db \<Longrightarrow> run_keys db' job = run_keys db job" by simp
qed

text \<open>The state of a batch: the index knows exactly the evidence of the run.\<close>

definition batch_ok :: "db \<Rightarrow> scan_job \<Rightarrow> batch \<Rightarrow> bool" where
  "batch_ok db0 job s \<longleftrightarrow> (case s of (db, index, touched, added) \<Rightarrow>
     findings_ok db \<and> tb_assets db = tb_assets db0 \<and> tb_scan_jobs db = tb_scan_jobs db0 \<and>
     (case index of None \<Rightarrow> False | Some ix \<Rightarrow> ix_job ix = job \<and> fst ` set (ix_findings ix) = run_keys db job))"

lemma new_evidence_fields:
  "fnd_id (new_evidence now tn job dev asset finding d h key n) = n" "fnd_tenant_id (new_evidence now tn job dev asset finding d h key n) = tn"
  "fnd_scan_job_id (new_evidence now tn job dev asset finding d h key n) = Some (job_id job)"
  "fnd_evidence_key (new_evidence now tn job dev asset finding d h key n) = Some key"
  "fnd_asset_finding_id (new_evidence now tn job dev asset finding d h key n) = finding"
  by (simp_all add: new_evidence_def)

lemma insert_evidence_ok:
  assumes ok: "findings_ok db" and job: "job \<in> set (t_rows (tb_scan_jobs db))" and keys: "fst ` set (ix_findings ix) = run_keys db job"
    and finding: "\<And>i. finding = Some i \<Longrightarrow> (i, job_tenant_id job) \<in> set (finding_ids (tb_asset_findings db))"
    and unknown: "Some (evidence_key_of job d) \<notin> run_keys db job"
    and run: "insert_evidence now (job_tenant_id job) job dev asset finding d h (Some ix) db = (db', index', created)"
  shows "findings_ok db' \<and> tb_assets db' = tb_assets db \<and> tb_scan_jobs db' = tb_scan_jobs db \<and> created \<and>
    run_keys db' job = insert (Some (evidence_key_of job d)) (run_keys db job) \<and>
    (\<exists>ix'. index' = Some ix' \<and> ix_job ix' = ix_job ix \<and> fst ` set (ix_findings ix') = run_keys db' job)"
proof -
  let ?key = "evidence_key_of job d"
  define mk where "mk = new_evidence now (job_tenant_id job) job dev asset finding d h ?key"
  have fields: "fnd_id (mk n) = n" "fnd_tenant_id (mk n) = job_tenant_id job" "fnd_scan_job_id (mk n) = Some (job_id job)"
    "fnd_evidence_key (mk n) = Some ?key" "fnd_asset_finding_id (mk n) = finding" for n
    unfolding mk_def by (rule new_evidence_fields)+
  have res: "db' = db\<lparr>tb_findings := t_insert mk (tb_findings db)\<rparr>" "index' = Some (remember_finding (mk (t_next (tb_findings db))) ix)" "created"
    using run unknown keys by (auto simp: insert_evidence_def Let_def evidence_known_def mk_def)
  have ev: "evidence_rows_ok (tb_scan_jobs db) (finding_ids (tb_asset_findings db)) (tb_findings db)" and jobs: "t_wf job_id (tb_scan_jobs db)"
    using ok by (simp_all add: findings_ok_def)
  have "evidence_rows_ok (tb_scan_jobs db) (finding_ids (tb_asset_findings db)) (t_insert mk (tb_findings db))"
  proof (rule evidence_insert_ok [OF ev fields(1)])
    show "reference_ok (finding_ids (tb_asset_findings db)) (mk (t_next (tb_findings db)))"
      using finding by (simp add: reference_ok_def fields split: option.splits)
    show "run_ok (tb_scan_jobs db) (mk (t_next (tb_findings db)))"
      using job by (auto simp: run_ok_def fields list_ex_iff)
    fix e assume e: "e \<in> set (t_rows (tb_findings db))" "fnd_scan_job_id e = fnd_scan_job_id (mk (t_next (tb_findings db)))"
    then have "run_ok (tb_scan_jobs db) e" using ev by (simp add: evidence_rows_ok_def list_all_iff)
    then obtain j where "j \<in> set (t_rows (tb_scan_jobs db))" "job_id j = job_id job" "job_tenant_id j = fnd_tenant_id e"
      using e(2) by (auto simp: run_ok_def fields list_ex_iff)
    with t_wf_eq [OF jobs] job have "fnd_tenant_id e = job_tenant_id job" by metis
    with e have "fnd_evidence_key e \<in> run_keys db job" by (simp add: run_keys_def run_evidence_def t_select_def fields)
    with unknown show "fnd_evidence_key e \<noteq> fnd_evidence_key (mk (t_next (tb_findings db)))" by (auto simp: fields)
  qed
  then have "findings_ok db'" using ok by (simp add: findings_ok_def res(1))
  moreover have "run_keys db' job = insert (Some ?key) (run_keys db job)"
    by (simp add: run_keys_def run_evidence_def t_select_def res(1) fields)
  ultimately show ?thesis using res keys by (simp add: remember_finding_fields fields)
qed

lemma run_asset_row: "run_asset db job ids = Some a \<Longrightarrow> a \<in> set (t_rows (tb_assets db))"
  by (auto simp: run_asset_def dest!: t_get_Some split: list.splits option.splits if_splits)

lemma resolved_asset_row: "resolve_current_run_asset db job d (Some ix) = Inr (Some a) \<Longrightarrow> a \<in> set (t_rows (tb_assets db))"
  by (auto simp: resolve_current_run_asset_def resolve_asset_def rbind_Inr_iff run_asset_row split: if_splits)

lemma if_Inl_iff: "(if c then Inl e else r) = Inr y \<longleftrightarrow> \<not> c \<and> r = Inr y"
  by simp

lemma ingest_one_ok:
  assumes b: "batch_ok db0 job s" and job: "job \<in> set (t_rows (tb_scan_jobs db0))"
    and run: "ingest_one now (job_tenant_id job) job d s = Inr s'"
  shows "batch_ok db0 job s' \<and> run_keys (fst s') job = insert (Some (evidence_key_of job d)) (run_keys (fst s) job)"
proof -
  obtain db index touched added where s: "s = (db, index, touched, added)" by (rule prod_cases4)
  obtain ix where ix: "index = Some ix" "ix_job ix = job" "fst ` set (ix_findings ix) = run_keys db job"
    and ok: "findings_ok db" and same: "tb_assets db = tb_assets db0" "tb_scan_jobs db = tb_scan_jobs db0"
    using b unfolding batch_ok_def s prod.case by (auto split: option.splits)
  have known: "evidence_known db (evidence_key_of job d) (Some ix) \<longleftrightarrow> Some (evidence_key_of job d) \<in> run_keys db job"
    using ix(3) by (simp add: evidence_known_def)
  show ?thesis
  proof (cases "Some (evidence_key_of job d) \<in> run_keys db job")
    case True
    then have "s' = s" using run known by (simp add: ingest_one_def s ix(1))
    with True b show ?thesis by (simp add: s insert_absorb)
  next
    case False
    obtain db1 index1 cat dev asset db2 index2 finding where
      up: "upsert_detector_catalog now d (Some ix) db = Inr (db1, index1, cat)" and
      as: "resolve_current_run_asset db1 job d index1 = Inr asset" and
      det: "detect_on now job d asset cat index1 db1 = Inr (db2, index2, finding)" and
      s': "(case insert_evidence now (job_tenant_id job) job dev asset finding d (device_host dev d) index2 db2 of
        (db3, index3, created) \<Rightarrow> Inr (db3, index3, touched @ (case finding of None \<Rightarrow> [] | Some i \<Rightarrow> [i]), if created then added + 1 else added)) = (Inr s' :: app_error + batch)"
    proof -
      have no: "\<not> evidence_known db (evidence_key_of job d) (Some ix)" using False known by simp
      show ?thesis
        using run unfolding ingest_one_def s ix(1) prod.case if_not_P [OF no] rbind_Inr_iff split_paired_Ex if_Inl_iff
        by (elim exE conjE) (rule that)
    qed
    have ok1: "findings_ok db1" and fix1: "fixed db1 = fixed db" using upsert_ok [OF ok up] by simp_all
    obtain ix1 where ix1: "index1 = Some ix1" "ix_job ix1 = job" "ix_findings ix1 = ix_findings ix"
      using upsert_core [OF up] ix(2) by (cases index1) simp_all
    have two: "findings_ok db2 \<and> fixed db2 = fixed db1 \<and> core index2 = core index1 \<and>
        (\<forall>i. finding = Some i \<longrightarrow> (i, job_tenant_id job) \<in> set (finding_ids (tb_asset_findings db2)))"
    proof (cases "asset = None \<or> cat = None")
      case True
      then show ?thesis using det ok1 by (auto simp: detect_on_def split: option.splits)
    next
      case False
      then obtain a v m where av: "asset = Some a" "cat = Some (v, m)" by auto
      then obtain i c where one: "apply_detection now a v job d now index1 db1 = Inr (db2, index2, i, c)" "finding = Some i"
        using det by (auto simp: detect_on_def rbind_Inr_iff)
      have "a \<in> set (t_rows (tb_assets db1))" using as resolved_asset_row av(1) ix1(1) by simp
      from apply_detection_ok [OF ok1 this one(1)] one(2) show ?thesis by simp
    qed
    have fix2: "fixed db2 = fixed db" using two fix1 by simp
    have same2: "tb_assets db2 = tb_assets db0" "tb_scan_jobs db2 = tb_scan_jobs db0" using fix2 same by (simp_all add: fixed_def)
    obtain ix2 where ix2: "index2 = Some ix2" "ix_job ix2 = job" "ix_findings ix2 = ix_findings ix"
      using two ix1 by (cases index2) simp_all
    have keys2: "run_keys db2 job = run_keys db job" using fix2 by (rule run_keys_fixed)
    obtain db3 index3 created where ins: "insert_evidence now (job_tenant_id job) job dev asset finding d (device_host dev d) (Some ix2) db2 =
        (db3, index3, created)" by (rule prod_cases3)
    have "job \<in> set (t_rows (tb_scan_jobs db2))" using job same2 by simp
    moreover have "fst ` set (ix_findings ix2) = run_keys db2 job" using ix2(3) ix(3) keys2 by simp
    moreover have "Some (evidence_key_of job d) \<notin> run_keys db2 job" using False keys2 by simp
    ultimately have "findings_ok db3 \<and> tb_assets db3 = tb_assets db2 \<and> tb_scan_jobs db3 = tb_scan_jobs db2 \<and> created \<and>
        run_keys db3 job = insert (Some (evidence_key_of job d)) (run_keys db2 job) \<and>
        (\<exists>ix'. index3 = Some ix' \<and> ix_job ix' = ix_job ix2 \<and> fst ` set (ix_findings ix') = run_keys db3 job)"
      using insert_evidence_ok [OF conjunct1 [OF two] _ _ _ _ ins] two by blast
    then show ?thesis using s' ins ix2(1,2) same2 keys2 by (auto simp: batch_ok_def s)
  qed
qed

lemma ingest_loop:
  assumes job: "job \<in> set (t_rows (tb_scan_jobs db0))"
  shows "batch_ok db0 job s \<Longrightarrow> rfold (ingest_one now (job_tenant_id job) job) ds s = Inr s' \<Longrightarrow>
    batch_ok db0 job s' \<and> run_keys (fst s') job = (Some \<circ> evidence_key_of job) ` set ds \<union> run_keys (fst s) job"
proof (induction ds arbitrary: s)
  case (Cons d ds)
  then obtain s1 where s1: "ingest_one now (job_tenant_id job) job d s = Inr s1" "rfold (ingest_one now (job_tenant_id job) job) ds s1 = Inr s'"
    by (auto simp: rbind_Inr_iff)
  note one = ingest_one_ok [OF Cons.prems(1) job s1(1)]
  from Cons.IH [OF conjunct1 [OF one] s1(2)] one show ?case by simp
qed simp

text \<open>A report that the run already has changes nothing.\<close>

lemma ingest_idle:
  assumes "set (map (Some \<circ> evidence_key_of job) ds) \<subseteq> run_keys db job" "fst ` set (ix_findings ix) = run_keys db job"
  shows "rfold (ingest_one now tenant job) ds (db, Some ix, touched, added) = Inr (db, Some ix, touched, added)"
  using assms(1)
proof (induction ds)
  case (Cons d ds)
  then have "evidence_known db (evidence_key_of job d) (Some ix)" using assms(2) by (simp add: evidence_known_def)
  with Cons show ?case by (simp add: ingest_one_def)
qed simp

lemma start_batch: "findings_ok db \<Longrightarrow> batch_ok db job (db, Some (build_index db job pairs), [], 0)"
proof -
  have "ix_job (build_index db job pairs) = job" by (rule index_okD(1) [OF build_index_ok])
  moreover have "fst ` set (ix_findings (build_index db job pairs)) = run_keys db job"
    by (simp add: build_index_fields run_keys_def image_image)
  ultimately show "findings_ok db \<Longrightarrow> batch_ok db job (db, Some (build_index db job pairs), [], 0)" by (simp add: batch_ok_def)
qed

lemma get_job_row: "get_job i db = Some job \<Longrightarrow> job \<in> set (t_rows (tb_scan_jobs db)) \<and> job_id job = i"
  unfolding get_job_def by (drule t_get_Some) simp

lemma ingest_steps:
  assumes ok: "findings_ok db" and run: "ingest_findings now tenant i reports db = Inr (db', n)"
  obtains job ds where "get_job i db = Some job" "job_tenant_id job = tenant" "parse_reports reports = Inr ds" "findings_ok db'"
    "tb_scan_jobs db' = tb_scan_jobs db" "run_keys db' job = (Some \<circ> evidence_key_of job) ` set ds \<union> run_keys db job"
proof -
  obtain job where job: "get_job i db = Some job" "job_tenant_id job = tenant"
    using run by (auto simp: ingest_findings_def split: option.splits if_splits)
  obtain ds db1 index touched where ds: "parse_reports reports = Inr ds"
    and loop: "rfold (ingest_one now (job_tenant_id job) job) ds (db, Some (build_index db job (detector_pairs ds)), [], 0) = Inr (db1, index, touched, n)"
    and db': "db' = recalculate_findings now (dedup touched) db1"
    using run job by (auto simp: ingest_findings_def rbind_Inr_iff)
  note L = ingest_loop [OF conjunct1 [OF get_job_row [OF job(1)]] start_batch [OF ok] loop]
  have k: "keeps db1 db'" unfolding db' by (rule recalculate_findings_keeps)
  have "findings_ok db1" "tb_scan_jobs db1 = tb_scan_jobs db" using L by (simp_all add: batch_ok_def)
  moreover have "run_keys db' job = run_keys db1 job" by (rule run_keys_fixed [OF keeps_fixed [OF k]])
  ultimately show ?thesis using that [OF job ds] keeps_ok [OF k] keepsD(4) [OF k] L by simp
qed

subsection \<open>The end of a run\<close>

lemma set_job_ok:
  assumes "\<And>j. job_id (f j) = job_id j \<and> job_tenant_id (f j) = job_tenant_id j"
  shows "findings_ok (set_job i f db) = findings_ok db"
proof -
  let ?t = "t_modify (\<lambda>j. job_id j = i) f (tb_scan_jobs db)"
  have id: "job_id (if job_id j = i then f j else j) = job_id j" "job_tenant_id (if job_id j = i then f j else j) = job_tenant_id j" for j
    using assms by simp_all
  have "t_wf job_id ?t = t_wf job_id (tb_scan_jobs db)" by (simp add: t_wf_def list.pred_map o_def id del: if_split)
  moreover have "run_ok ?t e = run_ok (tb_scan_jobs db) e" for e
  proof -
    have "list_ex P (map (\<lambda>j. if job_id j = i then f j else j) xs) = list_ex P xs"
      if "\<And>j. P (if job_id j = i then f j else j) = P j" for P xs using that by (induction xs) (simp_all del: if_split)
    then show ?thesis by (simp add: run_ok_def id del: if_split split: option.split)
  qed
  then have "run_ok ?t = run_ok (tb_scan_jobs db)" by (rule ext)
  ultimately show ?thesis
    by (simp add: findings_ok_def set_job_def evidence_rows_ok_def)
qed

lemma scan_failed_keeps: "emit_scan_failed now j detail db = Inr (db', e, c) \<Longrightarrow> keeps db db'"
  unfolding emit_scan_failed_def Let_def by (auto split: prod.splits dest: emit_keeps)

lemma ended_rows_ok:
  "findings_ok (set_job i (failed_row now detail clear) db) = findings_ok db"
  "findings_ok (set_job i (cancelled_row now detail clear) db) = findings_ok db"
  "findings_ok (set_job i (note_error detail) db) = findings_ok db"
  by (rule set_job_ok, simp add: failed_row_def cancelled_row_def note_error_def drop_claim_def)+

lemma failed_ok: "transition_job_to_failed now i detail clear db = Inr (db', c) \<Longrightarrow> findings_ok db' = findings_ok db"
  unfolding transition_job_to_failed_def Let_def
  by (auto simp: rbind_Inr_iff ended_rows_ok dest!: scan_failed_keeps keeps_ok split: option.splits if_splits)

lemma cancelled_ok: "transition_job_to_cancelled now i detail clear db = Inr (db', c) \<Longrightarrow> findings_ok db' = findings_ok db"
  unfolding transition_job_to_cancelled_def Let_def
  by (auto simp: rbind_Inr_iff ended_rows_ok dest!: scan_failed_keeps keeps_ok split: option.splits if_splits)

text \<open>The end of a run keeps the tables sound, whatever its index answers.\<close>

lemma evaluations_still_ok: "findings_ok (db\<lparr>tb_asset_finding_run_evaluations := E\<rparr>) = findings_ok db"
  by (simp add: findings_ok_def)

lemma record_evaluation_ok: "record_evaluation now i job outcome occ reason index db = (db', index', b) \<Longrightarrow> findings_ok db' = findings_ok db"
  by (auto simp: record_evaluation_def Let_def evaluations_still_ok split: if_splits)

lemma resolve_ok:
  assumes ok: "findings_ok db" and run: "resolve_if_threshold_reached now i job occ n det db = Inr db'"
  shows "findings_ok db'"
proof (cases "get_finding i db")
  case None
  with assms show ?thesis by (simp add: resolve_if_threshold_reached_def)
next
  case (Some f)
  let ?d = "if af_technical_state f \<noteq> TECHNICAL_OPEN \<or> af_consecutive_clean_scans f < n then db else set_finding i (resolved occ) db"
  have "findings_ok (set_finding i (resolved occ) db)"
    by (rule set_finding_life_ok [OF ok]) (auto simp: resolved_def subject_of_def life_ok_def)
  then have d: "findings_ok ?d" using ok by simp
  have fr: "life_frame db db'" and lives: "lives db' = lives ?d" using resolve_steps [OF run Some] by blast+
  have "tb_findings ?d = tb_findings db" "tb_assets ?d = tb_assets db" "tb_scan_jobs ?d = tb_scan_jobs db"
    by (simp_all add: set_finding_def)
  moreover have "life_table (tb_asset_findings db') = life_table (tb_asset_findings ?d)"
    using lives by (simp only: lives_def life_table_def prod.inject)
  ultimately have "findings_ok db' = findings_ok ?d"
    using life_frame_reads [OF fr] by (intro findings_ok_life) simp_all
  with d show ?thesis by simp
qed

lemma evaluate_detected_ok: "evaluate_detected now job occ i (d, ix) = (d', ix') \<Longrightarrow> findings_ok d \<Longrightarrow> findings_ok d'"
  by (auto simp: evaluate_detected_def record_evaluation_ok life_ok_def subject_of_def intro!: set_finding_life_ok
      split: prod.splits bool.splits)

lemma evaluate_clean_ok:
  assumes ok: "findings_ok (fst s)" and run: "evaluate_clean now job occ n c s = Inr t"
  shows "findings_ok (fst t)"
proof -
  have "findings_ok (set_finding i (one_more_clean occ) d)" if "findings_ok d" for i d
    by (rule set_finding_life_ok [OF that]) (auto simp: one_more_clean_def subject_of_def life_ok_def)
  with assms show ?thesis
    by (auto simp: evaluate_clean_def rbind_Inr_iff record_evaluation_ok split: prod.splits bool.splits option.splits)
       (metis record_evaluation_ok resolve_ok)
qed

lemma finalize_ok:
  assumes ok: "findings_ok db" and run: "finalize_run_lifecycle now job db = Inr db'"
  shows "findings_ok db'"
proof -
  obtain occ fallback detected cs index where "rfold (finalize_one now job occ fallback detected) cs (db, Some (build_index db job [])) = Inr (db', index)"
    using run by (auto simp: finalize_run_lifecycle_def Let_def rbind_Inr_iff split: if_splits)
  then have "findings_ok (fst (db', index))"
    by (rule rfold_invariant [where P = "\<lambda>s. findings_ok (fst s)"])
       (use ok in \<open>auto simp: finalize_one_def split: if_splits dest: evaluate_detected_ok evaluate_clean_ok [rotated]\<close>)
  then show ?thesis by simp
qed

lemma complete_ok:
  assumes ok: "findings_ok db" and run: "complete_scan_run now i success err db = Inr db'"
  shows "findings_ok db'"
proof -
  obtain job where job: "get_job i db = Some job" using run by (auto simp: complete_scan_run_def split: option.splits)
  let ?finish = "\<lambda>j. j\<lparr>job_finished_at := Some now\<rparr> :: scan_job"
  show ?thesis
  proof (cases success)
    case False
    let ?detail = "if str_or err \<noteq> [] then str_or err else ''scan failed''"
    obtain db1 c where t: "(if is_cancel_completion job ?detail then transition_job_to_cancelled now i ?detail False db
             else transition_job_to_failed now i ?detail False db) = Inr (db1, c)" and db': "db' = set_job i ?finish db1"
      using run job False by (auto simp: complete_scan_run_def rbind_Inr_iff Let_def)
    have "findings_ok db1 = findings_ok db"
      using t cancelled_ok failed_ok by (cases "is_cancel_completion job ?detail") (simp_all only: if_True if_False)
    then show ?thesis unfolding db' using ok set_job_ok [of ?finish] by simp
  next
    case True
    obtain db1 where f: "finalize_run_lifecycle now (?finish job) (set_job i ?finish db) = Inr db1"
      and db': "db' = set_job i (\<lambda>j. j\<lparr>job_status := JOB_DONE, job_error := err\<rparr>) db1"
      using run job True by (auto simp: complete_scan_run_def rbind_Inr_iff Let_def split: if_splits)
    have ok0: "findings_ok (set_job i ?finish db)" using ok set_job_ok [of ?finish] by simp
    have "findings_ok db1" using ok0 f by (rule finalize_ok)
    then show ?thesis unfolding db' using set_job_ok [of "\<lambda>j. j\<lparr>job_status := JOB_DONE, job_error := err\<rparr>"] by simp
  qed
qed

text \<open>The requests that change findings: a batch of reports, the end of a run, a change of the
  catalogue, a merge of assets, every request on treatments and compensating controls with the sweep
  that expires them, and the recalculation of priorities.\<close>

inductive lifecycle_step :: "db \<Rightarrow> db \<Rightarrow> bool" where
  ingest_step: "ingest_findings now tenant i reports db = Inr (db', n) \<Longrightarrow> lifecycle_step db db'"
| complete_step: "complete_scan_run now i success err db = Inr db' \<Longrightarrow> lifecycle_step db db'"
| retarget_step: "retarget_mapping now m vuln db = Inr db' \<Longrightarrow> lifecycle_step db db'"
| merge_step: "set (target # sources) \<subseteq> set (t_rows (tb_assets db)) \<Longrightarrow> merge_asset_findings now target sources db = Inr db' \<Longrightarrow> lifecycle_step db db'"
| treatment_step: "run_treatment now req db = Inr db' \<Longrightarrow> lifecycle_step db db'"
| priority_step: "lifecycle_step db (fst (recalculate_asset_finding_priorities now rows db))"

lemma step_ok: "lifecycle_step db db' \<Longrightarrow> findings_ok db \<Longrightarrow> findings_ok db'"
proof (erule lifecycle_step.cases)
  fix now tenant i reports d d' n
  assume "db = d" "db' = d'" "ingest_findings now tenant i reports d = Inr (d', n)" "findings_ok db"
  then show "findings_ok db'" by (elim ingest_steps [rotated]) simp_all
next
  fix now i success err d d'
  assume "db = d" "db' = d'" "complete_scan_run now i success err d = Inr d'" "findings_ok db"
  then show "findings_ok db'" using complete_ok by simp
next
  fix now m vuln d d'
  assume "db = d" "db' = d'" "retarget_mapping now m vuln d = Inr d'" "findings_ok db"
  then show "findings_ok db'" using retarget_ok by simp
next
  fix now target sources d d'
  assume "db = d" "db' = d'" "set (target # sources) \<subseteq> set (t_rows (tb_assets d))" "merge_asset_findings now target sources d = Inr d'" "findings_ok db"
  then show "findings_ok db'" by (metis merge_findings_ok)
next
  fix now req d d'
  assume "db = d" "db' = d'" "run_treatment now req d = Inr d'" "findings_ok db"
  then show "findings_ok db'" using keeps_ok [OF treatment_request_keeps] by simp
next
  fix d now rows
  assume "db = d" "db' = fst (recalculate_asset_finding_priorities now rows d)" "findings_ok db"
  then show "findings_ok db'" using keeps_ok [OF recalculate_keeps] by simp
qed

subsection \<open>Properties\<close>

text \<open>C3: what the end of a run does to findings is exact. Provided the tables are sound and the run's
  coverage is of its tenant, every finding that the run may judge (it reported it, or observed its
  asset) and has not judged yet gets its verdict from the database as it was before: a reported
  finding starts counting clean scans again, a finding the run scanned for and did not report counts
  one more, and is resolved when it is open and the count reaches the threshold of the policy that
  applies to it; every other finding keeps its life.\<close>

theorem run_judges_each_finding:
  assumes "findings_ok db" and "rows_ok db job" and "finalize_run_lifecycle now job db = Inr db'"
  shows "\<exists>fallback. resolution_threshold db = Inr fallback \<and> (\<forall>f \<in> set (t_rows (tb_asset_findings db)).
    map_option life (get_finding (af_id f) db') = Some (life (if f \<in> set (lifecycle_candidates db job)
      then verdict db job (case job_finished_at job of Some t \<Rightarrow> t | None \<Rightarrow> now) fallback f else f)))"
  using finalize_steps [OF assms] by metis

text \<open>C11: a run judges a finding once. When the end of a run is processed a second time, no finding
  changes its life, whatever the time of the second call.\<close>

theorem second_completion_changes_nothing:
  assumes "findings_ok db" and "rows_ok db job" and "finalize_run_lifecycle now job db = Inr db'"
    and "finalize_run_lifecycle now' job db' = Inr db''"
  shows "\<forall>i. map_option life (get_finding i db'') = map_option life (get_finding i db')"
proof
  fix i
  obtain fb where a: "resolution_threshold db = Inr fb" "findings_ok db'" "life_frame db db'"
    "\<And>f. f \<in> set (t_rows (tb_asset_findings db)) \<Longrightarrow> map_option life (get_finding (af_id f) db') =
      Some (life (if f \<in> set (lifecycle_candidates db job)
        then verdict db job (case job_finished_at job of Some t \<Rightarrow> t | None \<Rightarrow> now) fb f else f))"
    "\<And>j. evaluation_exists db' j job None \<longleftrightarrow> evaluation_exists db j job None \<or>
      (\<exists>f \<in> set (lifecycle_candidates db job). af_id f = j \<and> judged db job f)"
    "\<And>i. get_finding i db = None \<Longrightarrow> get_finding i db' = None"
    by (rule finalize_steps [OF assms(1-3)]) (rule that)
  have rows': "rows_ok db' job" using assms(2) rows_ok_frame [OF a(3)] by simp
  obtain fb' where b: "resolution_threshold db' = Inr fb'" "findings_ok db''" "life_frame db' db''"
    "\<And>f. f \<in> set (t_rows (tb_asset_findings db')) \<Longrightarrow> map_option life (get_finding (af_id f) db'') =
      Some (life (if f \<in> set (lifecycle_candidates db' job)
        then verdict db' job (case job_finished_at job of Some t \<Rightarrow> t | None \<Rightarrow> now') fb' f else f))"
    "\<And>j. evaluation_exists db'' j job None \<longleftrightarrow> evaluation_exists db' j job None \<or>
      (\<exists>f \<in> set (lifecycle_candidates db' job). af_id f = j \<and> judged db' job f)"
    "\<And>i. get_finding i db' = None \<Longrightarrow> get_finding i db'' = None"
    by (rule finalize_steps [OF a(2) rows' assms(4)]) (rule that)
  show "map_option life (get_finding i db'') = map_option life (get_finding i db')"
  proof (cases "get_finding i db'")
    case None
    with b(6) show ?thesis by simp
  next
    case (Some g)
    have g: "g \<in> set (t_rows (tb_asset_findings db'))" "af_id g = i" using finding_row [OF a(2) Some] by auto
    obtain f where f0: "get_finding i db = Some f" using Some a(6) [of i] by (cases "get_finding i db") simp_all
    have f: "f \<in> set (t_rows (tb_asset_findings db))" "af_id f = i" using finding_row [OF assms(1) f0] by auto
    define h where "h = (if f \<in> set (lifecycle_candidates db job)
        then verdict db job (case job_finished_at job of Some t \<Rightarrow> t | None \<Rightarrow> now) fb f else f)"
    have "life g = life h" using a(4) [OF f(1), folded h_def] Some f(2) by simp
    moreover have "af_tenant_id h = af_tenant_id f" "subject_of h = subject_of f" "af_id h = af_id f"
      by (simp_all add: h_def verdict_same)
    ultimately have same: "af_tenant_id g = af_tenant_id f" "af_asset_id g = af_asset_id f" "af_id g = af_id f"
      using life_eqD [of g h] by (simp_all add: subject_of_def)
    have det: "detected_ids db' job = detected_ids db job"
      by (simp add: detected_ids_def life_frame_reads [OF a(3)])
    have obs: "run_observations db' job = run_observations db job"
      by (simp add: run_observations_def life_frame_reads [OF a(3)])
    have cand: "g \<in> set (lifecycle_candidates db' job) \<longleftrightarrow> f \<in> set (lifecycle_candidates db job)"
      using g(1) f(1) same by (simp add: lifecycle_candidates_def t_select_def det obs)
    have "snd (is_finding_applicable_to_run db' g job None) = snd (is_finding_applicable_to_run db f job None)"
      by (subst a(3) [unfolded life_frame_def]) (rule applicable_life_tables [OF same(3,1,2)])
    then have judged: "judged db' job g = judged db job f" by (simp add: judged_def det same(3))
    have "verdict db' job t n g = g" if c: "g \<in> set (lifecycle_candidates db' job)" for t n
    proof (cases "judged db' job g")
      case True
      have "f \<in> set (lifecycle_candidates db job)" using c cand by simp
      moreover have "af_id f = af_id g" "judged db job f" using True judged same(3) by simp_all
      ultimately have "evaluation_exists db' (af_id g) job None" unfolding a(5) by blast
      then show ?thesis unfolding verdict_def by simp
    next
      case False
      then show ?thesis unfolding verdict_def by simp
    qed
    then have "map_option life (get_finding (af_id g) db'') = Some (life g)"
      unfolding b(4) [OF g(1)] by (cases "g \<in> set (lifecycle_candidates db' job)") simp_all
    then show ?thesis using Some g(2) by simp
  qed
qed

text \<open>C9: a batch of reports can be sent again. Once a batch has been stored, storing it a second time,
  at any later time, succeeds, adds nothing and leaves the database exactly as it is.\<close>

theorem batch_replay_is_idle:
  assumes "findings_ok db" and "ingest_findings now tenant i reports db = Inr (db', n)"
  shows "ingest_findings now' tenant i reports db' = Inr (db', 0)"
proof -
  obtain job ds where job: "get_job i db = Some job" "job_tenant_id job = tenant" and ds: "parse_reports reports = Inr ds"
    and same: "tb_scan_jobs db' = tb_scan_jobs db" and keys: "run_keys db' job = (Some \<circ> evidence_key_of job) ` set ds \<union> run_keys db job"
    using ingest_steps [OF assms] by metis
  have "get_job i db' = Some job" using job(1) same by (simp add: get_job_def)
  moreover have "fst ` set (ix_findings (build_index db' job (detector_pairs ds))) = run_keys db' job"
    by (simp add: build_index_fields run_keys_def image_image)
  then have "rfold (ingest_one now' tenant job) ds (db', Some (build_index db' job (detector_pairs ds)), [], 0) =
      Inr (db', Some (build_index db' job (detector_pairs ds)), [], 0)"
    using keys by (intro ingest_idle) (simp_all add: image_Un)
  moreover have "recalculate_findings now' (dedup []) db' = db'"
    by (simp add: recalculate_findings_def recalculate_asset_finding_priorities_def)
  ultimately show ?thesis using job(2) ds by (simp add: ingest_findings_def)
qed

text \<open>C14: an error of the index. When the evidence of a finding moves to another vulnerability in the
  middle of a batch (the finding is retargeted, because a CVE number became known), the index still
  names it for the vulnerability it had. The next report of that vulnerability on the same asset is
  then recorded on the retargeted finding, and the vulnerability that was reported has no finding.\<close>

theorem stale_index_misses_finding:
  assumes ok: "findings_ok db" and row: "get_finding i db = Some f"
    and cached: "map_of (ix_asset_findings ix) (af_asset_id f, af_vulnerability_id f) = Some i"
    and target: "vuln \<noteq> af_vulnerability_id f" "asset_finding_row db (af_asset_id f) vuln = None"
    and evidence: "t_exists (\<lambda>e. fnd_asset_finding_id e = Some i \<and> pair_of e = detector_of m) (tb_findings db)"
      "\<not> other_detector_evidence_exists db i m"
    and moved: "partition_asset_finding_for_mapping now m vuln i db = Inr db1"
    and report: "asset_id a = af_asset_id f" "vul_id v = af_vulnerability_id f"
      "apply_detection now a v job d t (Some ix) db1 = Inr (db2, index', j, changed)"
  shows "j = i \<and> (\<exists>g. get_finding i db2 = Some g \<and> af_vulnerability_id g = vuln) \<and>
    asset_finding_row db2 (asset_id a) (vul_id v) = None"
proof (intro conjI)
  let ?ch = "\<lambda>f. f\<lparr>af_vulnerability_id := vuln, af_updated_at := now\<rparr>"
  have f: "f \<in> set (t_rows (tb_asset_findings db))" "af_id f = i" using finding_row [OF ok row] by auto
  have none: "t_first (\<lambda>g. af_asset_id g = af_asset_id f \<and> af_vulnerability_id g = vuln \<and> af_id g \<noteq> i) (tb_asset_findings db) = None"
    using target(2) by (auto simp: asset_finding_row_def t_first_None)
  have some: "t_select (\<lambda>e. fnd_asset_finding_id e = Some i \<and> pair_of e = detector_of m) (tb_findings db) \<noteq> []"
    using evidence(1) by (auto simp: t_exists_iff t_select_def filter_empty_conv)
  have db1: "db1 = set_finding i ?ch db"
    using moved unfolding partition_asset_finding_for_mapping_def row option.case Let_def if_not_P [OF some] if_P [OF evidence(2)] none by simp
  have ok1: "findings_ok db1" using partition_ok [OF ok moved] by simp
  have g1: "get_finding i db1 = Some (?ch f)" unfolding db1 by (subst get_set_finding) (simp_all add: row)
  have none1: "asset_finding_row db1 (asset_id a) (vul_id v) = None"
  proof -
    have "g = f" if "g \<in> set (t_rows (tb_asset_findings db))" "af_asset_id g = af_asset_id f" "af_vulnerability_id g = af_vulnerability_id f" for g
      using findings_okD(5) [OF ok f(1) that(1)] that(2,3) by (simp add: subject_of_def)
    then show ?thesis using f(2) target(1) unfolding asset_finding_row_def t_first_None db1 set_finding_def report(1,2) by auto
  qed
  obtain c where again: "detect_again now (?ch f) v job t (Some ix) db1 = Inr (db2, c)" and j: "j = i"
    using report(3) cached g1 unfolding apply_detection_def asset_finding_for_def report(1,2)
    by (auto simp: rbind_Inr_iff split: if_splits)
  show "j = i" by (rule j)
  have ok2: "findings_ok db2" and subj: "subjects db2 = subjects db1" using detect_again_ok [OF ok1 again] by simp_all
  have "(i, af_asset_id f, vuln) \<in> set (subjects db1)"
    using imageI [OF conjunct1 [OF finding_row [OF ok1 g1]], of "\<lambda>f. (af_id f, af_asset_id f, af_vulnerability_id f)"] f(2)
    by (simp add: subjects_def)
  then obtain g where g: "g \<in> set (t_rows (tb_asset_findings db2))" "af_id g = i" "af_vulnerability_id g = vuln"
    unfolding subj [symmetric] by (auto simp: subjects_def)
  then have "get_finding i db2 = Some g" using ok2 by (auto simp: get_finding_def findings_ok_def finding_rows_ok_def dest: t_wf_get)
  with g(3) show "\<exists>g. get_finding i db2 = Some g \<and> af_vulnerability_id g = vuln" by blast
  have "asset_finding_row d asset vu = None \<longleftrightarrow> (\<forall>(k, b, w) \<in> set (subjects d). (b, w) \<noteq> (asset, vu))" for d asset vu
    by (auto simp: asset_finding_row_def t_first_None subjects_def)
  with none1 subj show "asset_finding_row db2 (asset_id a) (vul_id v) = None" by simp
qed

text \<open>C10: the run index is only an optimisation. The index built for a run agrees with the database,
  and with an index that agrees, whether a finding is applicable to the run, and whether it was
  evaluated already, is answered as without any index; the index that the call returns agrees again.\<close>

theorem run_index_is_transparent:
  assumes "rows_ok db job" and "index_ok db job ix"
  shows "index_ok db job (build_index db job pairs) \<and>
    (\<exists>ix'. is_finding_applicable_to_run db f job (Some ix) = (Some ix', snd (is_finding_applicable_to_run db f job None)) \<and>
      index_ok db job ix') \<and>
    evaluation_exists db i job (Some ix) = evaluation_exists db i job None"
  by (intro conjI build_index_ok applicable_same [OF assms(2,1)] evaluated_same [OF assms(2)])

text \<open>C4: batches of reports, ends of runs, changes of the catalogue, merges of assets, the requests on
  treatments and compensating controls, the sweep and recalculations keep the tables sound: one finding
  per asset and vulnerability, of the tenant of its asset, resolved exactly when it has a time of
  resolution, no negative counter; evidence only for findings and runs of its own tenant, and never
  twice for the same run.\<close>

theorem findings_stay_sound:
  assumes "findings_ok db" and "lifecycle_step\<^sup>*\<^sup>* db db'"
  shows "findings_ok db'"
  using assms(2,1) by (induction rule: rtranclp_induct) (auto intro: step_ok)

subsection \<open>Witnesses\<close>

definition run_snapshot :: json where
  "run_snapshot = JObj [(''scope'', JStr ''wan''), (''stages'', JObj [(''vulnerability'', JBool True),
     (''nuclei_severities'', JStr ''high''), (''nuclei_tags'', JStr [])])]"

definition clean_run :: scan_job where
  "clean_run = sample_job\<lparr>job_status := JOB_RUNNING, job_execution_snapshot := Some run_snapshot\<rparr>"

definition run_world :: db where
  \<comment> \<open>a run that observed and covered the asset of an open finding with one clean scan\<close>
  "run_world = duplicate_world\<lparr>tb_asset_findings := \<lparr>t_next = 3, t_rows = [sample_finding\<lparr>af_consecutive_clean_scans := 1\<rparr>]\<rparr>,
     tb_findings := t_delete (\<lambda>e. fnd_id e = 2) (tb_findings duplicate_world),
     tb_scan_jobs := \<lparr>t_next = 2, t_rows = [clean_run]\<rparr>,
     tb_vulnerability_detector_mappings := \<lparr>t_next = 2, t_rows = [\<lparr>vdm_id = 1, vdm_vulnerability_id = 1,
       vdm_detector_type = DETECTOR_NUCLEI, vdm_detector_key = ''tpl'', vdm_last_severity = ''high'', vdm_last_tags = [], vdm_created_at = 0\<rparr>]\<rparr>,
     tb_asset_observations := \<lparr>t_next = 2, t_rows = [\<lparr>obs_id = 1, obs_asset_id = 1, obs_tenant_id = 1, obs_site_id = None, obs_network_id = None,
       obs_agent_id = None, obs_scan_job_id = Some 1, obs_scope = ''wan'', obs_source = ''scan'', obs_observed_at = 0, obs_hostname = ''srv.example'',
       obs_ip = [], obs_snapshot = JObj [], obs_observation_key = ''k'', obs_provenance = [], obs_created_at = 0\<rparr>]\<rparr>,
     tb_scan_run_detector_coverage := \<lparr>t_next = 2, t_rows = [\<lparr>cov_id = 1, cov_tenant_id = 1, cov_scan_job_id = 1,
       cov_detector_type = DETECTOR_NUCLEI, cov_target = ''srv.example'', cov_normalized_host = ''srv.example'',
       cov_target_kind = COVERAGE_KIND_FQDN, cov_created_at = 0\<rparr>]\<rparr>\<rparr>"

lemma run_world_ok: "findings_ok run_world" "rows_ok run_world clean_run"
  by code_simp+

lemma run_world_verdict:
  "af_technical_state (verdict run_world clean_run 7 2 (sample_finding\<lparr>af_consecutive_clean_scans := 1\<rparr>)) = TECHNICAL_RESOLVED"
  by code_simp

theorem run_judges_each_finding_witness:
  "\<exists>db' g. finalize_run_lifecycle 7 clean_run run_world = Inr db' \<and> get_finding 1 db' = Some g \<and> af_technical_state g = TECHNICAL_RESOLVED"
proof -
  let ?f = "sample_finding\<lparr>af_consecutive_clean_scans := 1\<rparr>"
  let ?run = "finalize_run_lifecycle 7 clean_run run_world"
  have "\<not> isl ?run" by code_simp
  then obtain db' where db': "?run = Inr db'" by (cases ?run) simp_all
  have "resolution_threshold run_world = Inr 2" by code_simp
  moreover have "?f \<in> set (t_rows (tb_asset_findings run_world))" "?f \<in> set (lifecycle_candidates run_world clean_run)" by code_simp+
  moreover have "job_finished_at clean_run = None" "af_id ?f = 1" by code_simp+
  ultimately have "map_option life (get_finding 1 db') = Some (life (verdict run_world clean_run 7 2 ?f))"
    using run_judges_each_finding [OF run_world_ok db'] by fastforce
  then obtain g where "get_finding 1 db' = Some g" "life g = life (verdict run_world clean_run 7 2 ?f)" by auto
  with run_world_verdict db' life_eqD show ?thesis by metis
qed


theorem second_completion_changes_nothing_witness:
  "\<exists>db' db''. finalize_run_lifecycle 7 clean_run run_world = Inr db' \<and> finalize_run_lifecycle 9 clean_run db' = Inr db'' \<and>
     map_option life (get_finding 1 db'') = map_option life (get_finding 1 db')"
proof -
  let ?twice = "rbind (finalize_run_lifecycle 7 clean_run run_world) (finalize_run_lifecycle 9 clean_run)"
  have "\<not> isl ?twice" by code_simp
  then obtain db'' where "?twice = Inr db''" by (cases ?twice) simp_all
  then obtain db' where a: "finalize_run_lifecycle 7 clean_run run_world = Inr db'" and b: "finalize_run_lifecycle 9 clean_run db' = Inr db''"
    by (auto simp only: rbind_Inr_iff)
  from second_completion_changes_nothing [OF run_world_ok a b] a b show ?thesis by blast
qed

text \<open>A batch of one report that the run does not have yet, in which every step before the insertion of
  the evidence succeeds.\<close>

lemma one_report_runs:
  assumes job: "get_job i db = Some job" "job_tenant_id job = tenant" and parsed: "parse_detector_identity r = Inr d"
    and new: "run_keys db job = {}"
    and rest: "\<not> isl (rbind (upsert_detector_catalog now d (Some (build_index db job (detector_pairs [d]))) db) (\<lambda>(db1, index1, catalogued).
       rbind (current_run_device db1 job d index1) (\<lambda>dev.
       if (case dev of None \<Rightarrow> False | Some x \<Rightarrow> dev_tenant_id x \<noteq> tenant) then Inl (PyError [])
       else rbind (resolve_current_run_asset db1 job d index1) (\<lambda>asset.
         if (case asset of None \<Rightarrow> False | Some a \<Rightarrow> asset_tenant_id a \<noteq> tenant) then Inl (PyError [])
         else detect_on now job d asset catalogued index1 db1))))"
  shows "\<exists>db' n. ingest_findings now tenant i [r] db = Inr (db', n)"
proof -
  let ?ix = "build_index db job (detector_pairs [d])"
  have "fst ` set (ix_findings ?ix) = {}" using new by (simp add: build_index_fields run_keys_def image_image)
  then have unknown: "\<not> evidence_known db (evidence_key_of job d) (Some ?ix)" by (simp add: evidence_known_def)
  have "\<exists>s. ingest_one now tenant job d (db, Some ?ix, [], 0) = Inr s"
  proof -
    obtain db1 index1 cat where u: "upsert_detector_catalog now d (Some ?ix) db = Inr (db1, index1, cat)"
      using rest by (cases "upsert_detector_catalog now d (Some ?ix) db") auto
    note rest1 = rest [unfolded u rbind_simps prod.case]
    obtain dev where dev: "current_run_device db1 job d index1 = Inr dev"
      using rest1 by (cases "current_run_device db1 job d index1") auto
    note rest2 = rest1 [unfolded dev rbind_simps]
    have dt: "\<not> (case dev of None \<Rightarrow> False | Some x \<Rightarrow> dev_tenant_id x \<noteq> tenant)" using rest2 by (rule contrapos_nn) (simp only: if_True isl_def, blast)
    note rest3 = rest2 [unfolded if_not_P [OF dt]]
    obtain asset where as: "resolve_current_run_asset db1 job d index1 = Inr asset"
      using rest3 by (cases "resolve_current_run_asset db1 job d index1") auto
    note rest4 = rest3 [unfolded as rbind_simps]
    have at: "\<not> (case asset of None \<Rightarrow> False | Some a \<Rightarrow> asset_tenant_id a \<noteq> tenant)" using rest4 by (rule contrapos_nn) (simp only: if_True isl_def, blast)
    obtain db2 index2 finding where det: "detect_on now job d asset cat index1 db1 = Inr (db2, index2, finding)"
      using rest4 [unfolded if_not_P [OF at]] by (cases "detect_on now job d asset cat index1 db1") auto
    obtain db3 index3 created where "insert_evidence now tenant job dev asset finding d (device_host dev d) index2 db2 = (db3, index3, created)"
      by (rule prod_cases3)
    then show ?thesis
      unfolding ingest_one_def prod.case if_not_P [OF unknown] u rbind_simps dev if_not_P [OF dt] as if_not_P [OF at] det by simp
  qed
  then obtain db1 index1 touched n where "ingest_one now tenant job d (db, Some ?ix, [], 0) = Inr (db1, index1, touched, n)" by (metis prod_cases4)
  then show ?thesis using job parsed by (simp add: ingest_findings_def)
qed

theorem batch_replay_is_idle_witness:
  "\<exists>db' n. ingest_findings 7 1 1 [sample_report] run_world = Inr (db', n) \<and> ingest_findings 9 1 1 [sample_report] db' = Inr (db', 0)"
proof -
  have "case parse_detector_identity sample_report of Inl e \<Rightarrow> False | Inr d \<Rightarrow>
      \<not> isl (rbind (upsert_detector_catalog 7 d (Some (build_index run_world clean_run (detector_pairs [d]))) run_world) (\<lambda>(db1, index1, catalogued).
       rbind (current_run_device db1 clean_run d index1) (\<lambda>dev.
       if (case dev of None \<Rightarrow> False | Some x \<Rightarrow> dev_tenant_id x \<noteq> 1) then Inl (PyError [])
       else rbind (resolve_current_run_asset db1 clean_run d index1) (\<lambda>asset.
         if (case asset of None \<Rightarrow> False | Some a \<Rightarrow> asset_tenant_id a \<noteq> 1) then Inl (PyError [])
         else detect_on 7 clean_run d asset catalogued index1 db1))))" by code_simp
  then obtain d where d: "parse_detector_identity sample_report = Inr d" and rest: "\<not> isl (rbind (upsert_detector_catalog 7 d
       (Some (build_index run_world clean_run (detector_pairs [d]))) run_world) (\<lambda>(db1, index1, catalogued).
       rbind (current_run_device db1 clean_run d index1) (\<lambda>dev.
       if (case dev of None \<Rightarrow> False | Some x \<Rightarrow> dev_tenant_id x \<noteq> 1) then Inl (PyError [])
       else rbind (resolve_current_run_asset db1 clean_run d index1) (\<lambda>asset.
         if (case asset of None \<Rightarrow> False | Some a \<Rightarrow> asset_tenant_id a \<noteq> 1) then Inl (PyError [])
         else detect_on 7 clean_run d asset catalogued index1 db1))))"
    by (auto simp only: split: sum.splits)
  have job: "get_job 1 run_world = Some clean_run" "job_tenant_id clean_run = 1" by code_simp+
  have "run_evidence run_world clean_run = []" by code_simp
  then have "run_keys run_world clean_run = {}" by (simp add: run_keys_def)
  from one_report_runs [OF job d this rest] obtain db' n where one: "ingest_findings 7 1 1 [sample_report] run_world = Inr (db', n)" by (elim exE)
  from batch_replay_is_idle [OF run_world_ok(1) one, of 9] one show ?thesis by blast
qed

text \<open>The finding of the run becomes a finding of a second vulnerability while the index names it for
  the first, which is reported next.\<close>

definition two_vulnerabilities :: db where
  "two_vulnerabilities = run_world\<lparr>tb_vulnerabilities := \<lparr>t_next = 3, t_rows = map (\<lambda>i. \<lparr>vul_id = i,
     vul_canonical_key = (if i = 1 then ''nuclei:tpl'' else ''cve:CVE-2024-1234''), vul_cve_id = None, vul_title = ''bug'',
     vul_description = [], vul_created_at = 0, vul_updated_at = 0\<rparr>) [1, 2]\<rparr>\<rparr>"

theorem stale_index_misses_finding_witness:
  "\<exists>db1 db2 index' changed d v m.
     partition_asset_finding_for_mapping 7 m 2 1 two_vulnerabilities = Inr db1 \<and>
     apply_detection 7 sample_asset v clean_run d 7
       (Some ((empty_index clean_run)\<lparr>ix_asset_findings := [((1, 1), 1)]\<rparr>)) db1 = Inr (db2, index', 1, changed) \<and>
     vul_id v = 1 \<and> asset_finding_row db2 1 1 = None"
proof -
  let ?v = "\<lparr>vul_id = 1, vul_canonical_key = ''nuclei:tpl'', vul_cve_id = None, vul_title = ''bug'', vul_description = [],
    vul_created_at = 0, vul_updated_at = 0\<rparr>"
  let ?m = "\<lparr>vdm_id = 1, vdm_vulnerability_id = 1, vdm_detector_type = DETECTOR_NUCLEI, vdm_detector_key = ''tpl'',
    vdm_last_severity = ''high'', vdm_last_tags = [], vdm_created_at = 0\<rparr>"
  let ?ix = "(empty_index clean_run)\<lparr>ix_asset_findings := [((1, 1), 1)]\<rparr>"
  let ?f = "sample_finding\<lparr>af_consecutive_clean_scans := 1\<rparr>"
  let ?moved = "partition_asset_finding_for_mapping 7 ?m 2 1 two_vulnerabilities"
  have "case parse_detector_identity sample_report of Inl e \<Rightarrow> False | Inr d \<Rightarrow>
      \<not> isl (rbind ?moved (apply_detection 7 sample_asset ?v clean_run d 7 (Some ?ix)))" by code_simp
  then obtain d where "\<not> isl (rbind ?moved (apply_detection 7 sample_asset ?v clean_run d 7 (Some ?ix)))"
    by (auto simp only: split: sum.splits)
  then obtain db1 db2 index' j changed where moved: "?moved = Inr db1"
    and report: "apply_detection 7 sample_asset ?v clean_run d 7 (Some ?ix) db1 = Inr (db2, index', j, changed)"
    by (cases ?moved; cases "apply_detection 7 sample_asset ?v clean_run d 7 (Some ?ix) (projr ?moved)") (auto simp only: rbind_simps sum.sel isl_def)
  have ok: "findings_ok two_vulnerabilities" and row: "get_finding 1 two_vulnerabilities = Some ?f" by code_simp+
  have cached: "map_of (ix_asset_findings ?ix) (af_asset_id ?f, af_vulnerability_id ?f) = Some 1" by code_simp
  have target: "2 \<noteq> af_vulnerability_id ?f" "asset_finding_row two_vulnerabilities (af_asset_id ?f) 2 = None" by code_simp+
  have evidence: "t_exists (\<lambda>e. fnd_asset_finding_id e = Some 1 \<and> pair_of e = detector_of ?m) (tb_findings two_vulnerabilities)"
    "\<not> other_detector_evidence_exists two_vulnerabilities 1 ?m" by code_simp+
  have ids: "asset_id sample_asset = af_asset_id ?f" "vul_id ?v = af_vulnerability_id ?f" by code_simp+
  note stale = stale_index_misses_finding [OF ok row cached target evidence moved ids report]
  have "asset_id sample_asset = 1" by code_simp
  with stale moved report show ?thesis by (intro exI [of _ db1] exI [of _ db2] exI [of _ index'] exI [of _ changed] exI [of _ d] exI [of _ ?v] exI [of _ ?m]) simp
qed

theorem run_index_is_transparent_witness:
  "\<exists>ix. is_finding_applicable_to_run run_world (sample_finding\<lparr>af_consecutive_clean_scans := 1\<rparr>) clean_run
       (Some (build_index run_world clean_run [(DETECTOR_NUCLEI, ''tpl'')])) = (Some ix, True) \<and> index_ok run_world clean_run ix"
proof -
  let ?f = "sample_finding\<lparr>af_consecutive_clean_scans := 1\<rparr>"
  have "snd (is_finding_applicable_to_run run_world ?f clean_run None)" by code_simp
  with run_index_is_transparent [OF run_world_ok(2) build_index_ok [where pairs = "[(DETECTOR_NUCLEI, ''tpl'')]"], where f = ?f] show ?thesis by simp
qed

theorem findings_stay_sound_witness:
  "\<exists>db'. complete_scan_run 7 1 True None run_world = Inr db' \<and> findings_ok db'"
proof -
  let ?run = "complete_scan_run 7 1 True None run_world"
  have "\<not> isl ?run" by code_simp
  then obtain db' where db': "?run = Inr db'" by (cases ?run) simp_all
  then have "lifecycle_step run_world db'" by (rule complete_step)
  then have "findings_ok db'" by (intro findings_stay_sound [OF run_world_ok(1)]) (rule r_into_rtranclp)
  with db' show ?thesis by blast
qed

end
