(* ===== verification/Access.thy ===== *)
theory Access
  imports Locality Calendar Policy_Rules
begin

section \<open>Staff accounts and tenant access\<close>

text \<open>
  \<^verbatim>\<open>backend/app/access.py\<close>, the staff half of \<^verbatim>\<open>auth.py\<close> and the account requests of
  \<^verbatim>\<open>routers/users.py\<close>. Internal operators (roles \<open>admin\<close> and \<open>user\<close>) see every tenant; a viewer sees
  all tenants or the ones of its grants. The invariant \<open>accounts_ok\<close> says that grants and the
  viewer columns exist only for viewers, so that no earlier access comes back with a change of role.
  bcrypt and JWT are parameters: \<open>hash_password\<close> and \<open>decode\<close>.
\<close>

definition VIEWER_ROLE :: string where "VIEWER_ROLE = ''viewer''"
definition INTERNAL_ROLES :: "string list" where "INTERNAL_ROLES = [''admin'', ''user'']"

definition is_internal_operator :: "user \<Rightarrow> bool" where
  "is_internal_operator u \<longleftrightarrow> u_role u \<in> set INTERNAL_ROLES"

definition is_viewer :: "user \<Rightarrow> bool" where
  "is_viewer u \<longleftrightarrow> u_role u = VIEWER_ROLE"

definition viewer_is_expired :: "time \<Rightarrow> user \<Rightarrow> bool" where
  "viewer_is_expired now u = (if \<not> is_viewer u then False
     else case u_viewer_expires_at u of None \<Rightarrow> False | Some t \<Rightarrow> t \<le> now)"

definition assert_staff_usable :: "time \<Rightarrow> user \<Rightarrow> app_error + user" where
  "assert_staff_usable now u =
     (if \<not> u_is_active u then Inl (HttpError 401 ''User inactive or missing'')
      else if viewer_is_expired now u then Inl (HttpError 401 ''Viewer access has expired'') else Inr u)"

subsection \<open>Tokens\<close>

definition staff_token_version :: "string \<Rightarrow> string" where
  \<comment> \<open>\<open>password_hash[-24:]\<close>\<close>
  "staff_token_version h = drop (length h - 24) h"

definition token_claims :: "user \<Rightarrow> time \<Rightarrow> json" where
  \<comment> \<open>the payload that \<open>create_token\<close> signs\<close>
  "token_claims u expire = JObj [(''sub'', JStr (u_username u)), (''role'', JStr (u_role u)), (''exp'', JInt (expire div second)),
     (''typ'', JStr ''staff''), (''pwd'', JStr (staff_token_version (u_password_hash u)))]"

definition get_current_user :: "(string \<Rightarrow> json option) \<Rightarrow> time \<Rightarrow> string option \<Rightarrow> db \<Rightarrow> app_error + user" where
  "get_current_user decode now creds db = (case creds of
     None \<Rightarrow> Inl (HttpError 401 ''Not authenticated'')
   | Some token \<Rightarrow> (case decode token of
       None \<Rightarrow> Inl (HttpError 401 ''Invalid token'')
     | Some payload \<Rightarrow>
         if jget ''typ'' payload \<noteq> JStr ''staff'' then Inl (HttpError 401 ''Invalid token'')
         else (case t_first (\<lambda>u. JStr (u_username u) = jget ''sub'' payload) (tb_users db) of
             None \<Rightarrow> Inl (HttpError 401 ''User inactive or missing'')
           | Some u \<Rightarrow> if jget ''pwd'' payload \<noteq> JStr (staff_token_version (u_password_hash u))
               then Inl (HttpError 401 ''Invalid token'') else assert_staff_usable now u)))"

definition require_roles :: "string list \<Rightarrow> user \<Rightarrow> app_error + user" where
  "require_roles roles u = (if u_role u \<notin> set roles then Inl (HttpError 403 ''Insufficient role'') else Inr u)"

subsection \<open>Which tenants an actor sees\<close>

definition has_all_tenant_access :: "user \<Rightarrow> bool" where
  "has_all_tenant_access u \<longleftrightarrow> is_internal_operator u \<or> (is_viewer u \<and> u_viewer_all_tenants u)"

definition load_grant_ids :: "db \<Rightarrow> nat \<Rightarrow> nat list" where
  \<comment> \<open>also \<open>grant_subquery\<close>\<close>
  "load_grant_ids db i = sorted_by id (map vtg_tenant_id (t_select (\<lambda>g. vtg_user_id g = i) (tb_viewer_tenant_grants db)))"

definition tenant_scope_clause :: "db \<Rightarrow> user \<Rightarrow> bool \<Rightarrow> nat option \<Rightarrow> bool" where
  \<comment> \<open>the SQL predicate on a column that may be NULL\<close>
  "tenant_scope_clause db u include_unscoped col =
     (if is_internal_operator u then True
      else if \<not> is_viewer u then False
      else if u_viewer_all_tenants u then include_unscoped \<or> col \<noteq> None
      else (case col of None \<Rightarrow> False | Some t \<Rightarrow> t \<in> set (load_grant_ids db (u_id u))))"

definition visible_tenant_query :: "db \<Rightarrow> user \<Rightarrow> tenant list" where
  "visible_tenant_query db u = sorted_by (\<lambda>t. (tn_name t, tn_id t))
     (t_select (\<lambda>t. tenant_scope_clause db u False (Some (tn_id t))) (tb_tenants db))"

definition visible_tenant_ids :: "db \<Rightarrow> user \<Rightarrow> nat list" where
  "visible_tenant_ids db u =
     (if has_all_tenant_access u then sorted_by id (map tn_id (t_rows (tb_tenants db)))
      else if \<not> is_viewer u then [] else load_grant_ids db (u_id u))"

definition tenant_exists :: "db \<Rightarrow> nat \<Rightarrow> bool" where
  "tenant_exists db t \<longleftrightarrow> t_exists (\<lambda>r. tn_id r = t) (tb_tenants db)"

definition can_access_tenant :: "db \<Rightarrow> user \<Rightarrow> nat option \<Rightarrow> bool" where
  "can_access_tenant db u tenant = (case tenant of
     None \<Rightarrow> is_internal_operator u
   | Some t \<Rightarrow>
       if is_internal_operator u then tenant_exists db t
       else if \<not> is_viewer u then False
       else if u_viewer_all_tenants u then tenant_exists db t
       else t_exists (\<lambda>g. vtg_user_id g = u_id u \<and> vtg_tenant_id g = t) (tb_viewer_tenant_grants db))"

definition require_tenant_access :: "db \<Rightarrow> user \<Rightarrow> nat option \<Rightarrow> string \<Rightarrow> app_error + nat" where
  "require_tenant_access db u tenant detail = (case tenant of
     None \<Rightarrow> Inl (HttpError 404 detail)
   | Some t \<Rightarrow> if can_access_tenant db u tenant then Inr t else Inl (HttpError 404 detail))"

definition require_visible_tenant :: "db \<Rightarrow> user \<Rightarrow> nat \<Rightarrow> app_error + tenant" where
  "require_visible_tenant db u t = rbind (require_tenant_access db u (Some t) ''Tenant not found'') (\<lambda>_. get_tenant db t)"

definition require_visible_site :: "db \<Rightarrow> user \<Rightarrow> nat \<Rightarrow> nat option \<Rightarrow> app_error + site" where
  "require_visible_site db u i tenant = rbind (get_site db i tenant) (\<lambda>s.
     rbind (require_tenant_access db u (Some (site_tenant_id s)) ''Site not found'') (\<lambda>_. Inr s))"

definition require_visible_network :: "db \<Rightarrow> user \<Rightarrow> nat \<Rightarrow> nat option \<Rightarrow> app_error + network" where
  "require_visible_network db u i tenant = rbind (get_network db i tenant) (\<lambda>n.
     rbind (require_tenant_access db u (Some (net_tenant_id n)) ''Network not found'') (\<lambda>_. Inr n))"

definition require_object_tenant :: "db \<Rightarrow> user \<Rightarrow> 'a option \<Rightarrow> nat option \<Rightarrow> string \<Rightarrow> app_error + 'a" where
  "require_object_tenant db u obj tenant detail = (case obj of
     None \<Rightarrow> Inl (HttpError 404 detail)
   | Some x \<Rightarrow> if can_access_tenant db u tenant then Inr x else Inl (HttpError 404 detail))"

definition viewer_access_status :: "time \<Rightarrow> user \<Rightarrow> nat \<Rightarrow> string" where
  "viewer_access_status now u grant_count =
     (if \<not> is_viewer u then ''not_applicable''
      else if \<not> u_is_active u then ''disabled''
      else if viewer_is_expired now u then ''expired''
      else if u_viewer_all_tenants u then ''all_tenants''
      else if grant_count > 0 then ''selected'' else ''none'')"

definition has_any_tenant_access :: "db \<Rightarrow> user \<Rightarrow> bool" where
  "has_any_tenant_access db u =
     (if is_internal_operator u then True
      else if \<not> is_viewer u then False
      else if u_viewer_all_tenants u then t_rows (tb_tenants db) \<noteq> []
      else t_exists (\<lambda>g. vtg_user_id g = u_id u) (tb_viewer_tenant_grants db))"

definition load_grant_map :: "db \<Rightarrow> nat list \<Rightarrow> (nat \<times> nat list) list" where
  "load_grant_map db ids = map (\<lambda>i. (i, load_grant_ids db i)) ids"

subsection \<open>Changing grants\<close>

definition clear_viewer_grants :: "nat \<Rightarrow> db \<Rightarrow> db" where
  "clear_viewer_grants i db = db\<lparr>tb_viewer_tenant_grants := t_delete (\<lambda>g. vtg_user_id g = i) (tb_viewer_tenant_grants db)\<rparr>"

definition new_grants :: "time \<Rightarrow> nat \<Rightarrow> nat \<Rightarrow> nat list \<Rightarrow> viewer_tenant_grant list" where
  "new_grants now i granted_by ids = map (\<lambda>t. \<lparr>vtg_user_id = i, vtg_tenant_id = t, vtg_granted_by_user_id = Some granted_by,
     vtg_created_at = now\<rparr>) ids"

text \<open>The rows of \<open>db.add\<close> are not flushed, so the result has them apart from the database.\<close>

definition replace_viewer_grants :: "time \<Rightarrow> nat \<Rightarrow> nat list \<Rightarrow> nat \<Rightarrow> db \<Rightarrow> app_error + (db \<times> viewer_tenant_grant list \<times> nat list)" where
  "replace_viewer_grants now i tenant_ids granted_by db =
     (let ids = sort (dedup tenant_ids) in
      if list_ex (\<lambda>t. \<not> tenant_exists db t) ids then Inl (HttpError 400 ''One or more tenant grants are invalid'')
      else Inr (clear_viewer_grants i db, new_grants now i granted_by ids, ids))"

definition normalize_viewer_scope :: "string \<Rightarrow> bool \<Rightarrow> nat list \<Rightarrow> time option \<Rightarrow> app_error + (bool \<times> nat list \<times> time option)" where
  "normalize_viewer_scope role all_tenants selected expires_at =
     (if role \<noteq> VIEWER_ROLE then Inr (False, [], None)
      else if all_tenants \<and> selected \<noteq> []
      then Inl (HttpError 400 ''All-tenant Viewer access requires an empty selected tenant list'')
      else Inr (all_tenants, selected, expires_at))"

definition dormant_viewer_state :: "user \<Rightarrow> user" where
  "dormant_viewer_state u = u\<lparr>u_viewer_all_tenants := False, u_viewer_expires_at := None\<rparr>"

definition flush_grants :: "viewer_tenant_grant list \<Rightarrow> db \<Rightarrow> db" where
  "flush_grants rows db = db\<lparr>tb_viewer_tenant_grants := fold (\<lambda>g. t_insert (\<lambda>_. g)) rows (tb_viewer_tenant_grants db)\<rparr>"

subsection \<open>Account requests\<close>

record user_create =
  uc_username :: string
  uc_email :: string
  uc_password :: string
  uc_role :: string
  uc_viewer_all_tenants :: bool
  uc_viewer_expires_at :: "time option"
  uc_viewer_tenant_ids :: "nat list"

record user_update =
  uu_email :: "string option"
  uu_password :: "string option"
  uu_role :: "string option"
  uu_is_active :: "bool option"
  uu_viewer_all_tenants :: "bool option"
  uu_viewer_expires_at :: "time option"
  uu_viewer_tenant_ids :: "nat list option"
  uu_clear_viewer_expiration :: bool

record user_out =
  uo_id :: nat
  uo_username :: string
  uo_email :: string
  uo_role :: string
  uo_is_active :: bool
  uo_created_at :: time
  uo_viewer_all_tenants :: bool
  uo_viewer_expires_at :: "time option"
  uo_viewer_tenant_ids :: "nat list"
  uo_viewer_access_status :: string
  uo_has_tenant_access :: bool

definition serialize_user :: "time \<Rightarrow> db \<Rightarrow> user \<Rightarrow> nat list \<Rightarrow> user_out" where
  "serialize_user now db u grants =
     (let status = viewer_access_status now u (length grants) in
      \<lparr>uo_id = u_id u, uo_username = u_username u, uo_email = u_email u, uo_role = u_role u, uo_is_active = u_is_active u,
       uo_created_at = u_created_at u,
       uo_viewer_all_tenants = (is_viewer u \<and> u_viewer_all_tenants u),
       uo_viewer_expires_at = (if is_viewer u then u_viewer_expires_at u else None),
       uo_viewer_tenant_ids = (if is_viewer u then grants else []),
       uo_viewer_access_status = status,
       uo_has_tenant_access = (if is_viewer u then status \<in> {''all_tenants'', ''selected''} \<and> has_any_tenant_access db u else True)\<rparr>)"

definition scope_snapshot :: "user \<Rightarrow> nat list \<Rightarrow> (string \<times> json) list" where
  "scope_snapshot u grants = [(''role'', JStr (u_role u)), (''is_active'', JBool (u_is_active u)),
     (''viewer_all_tenants'', JBool (u_viewer_all_tenants u)),
     (''viewer_expires_at'', jopt (\<lambda>t. JStr (isoformat t)) (u_viewer_expires_at u)),
     (''viewer_tenant_ids'', JArr (map jnat grants))]"

definition user_audit :: "time \<Rightarrow> user \<Rightarrow> nat \<Rightarrow> string \<Rightarrow> (string \<times> json) list \<Rightarrow> db \<Rightarrow> db" where
  "user_audit now actor i action details db = fst (record_audit now \<lparr>ar_actor = Some actor, ar_action = action,
     ar_object_type = ''user'', ar_object_id = Some i, ar_tenant_id = None, ar_site_id = None, ar_details = details\<rparr> db)"

definition new_user :: "time \<Rightarrow> string \<Rightarrow> user_create \<Rightarrow> bool \<Rightarrow> time option \<Rightarrow> nat \<Rightarrow> user" where
  "new_user now h body all_tenants expires i = \<lparr>u_id = i, u_username = uc_username body, u_email = uc_email body,
     u_password_hash = h, u_role = uc_role body, u_is_active = True, u_viewer_all_tenants = all_tenants,
     u_viewer_expires_at = expires, u_created_at = now\<rparr>"

definition create_user :: "(string \<Rightarrow> string) \<Rightarrow> time \<Rightarrow> user_create \<Rightarrow> user \<Rightarrow> db \<Rightarrow> app_error + (db \<times> user_out)" where
  "create_user hash_password now body actor db =
     (if t_exists (\<lambda>u. u_username u = uc_username body \<or> u_email u = uc_email body) (tb_users db)
      then Inl (HttpError 400 ''Username or email already exists'')
      else rbind (normalize_viewer_scope (uc_role body) (uc_viewer_all_tenants body) (uc_viewer_tenant_ids body) (uc_viewer_expires_at body))
        (\<lambda>(all_tenants, selected, expires).
          let i = t_next (tb_users db); mk = new_user now (hash_password (uc_password body)) body all_tenants expires;
              db1 = db\<lparr>tb_users := t_insert mk (tb_users db)\<rparr>
          in rbind (if uc_role body = VIEWER_ROLE then replace_viewer_grants now i selected (u_id actor) db1 else Inr (db1, [], selected))
            (\<lambda>(db2, rows, ids).
              let db3 = flush_grants rows (user_audit now actor i ''user.created'' [(''username'', JStr (uc_username body)),
                    (''email'', JStr (uc_email body)), (''role'', JStr (uc_role body)), (''viewer_all_tenants'', JBool all_tenants),
                    (''viewer_tenant_ids'', JArr (map jnat ids)),
                    (''viewer_expires_at'', jopt (\<lambda>t. JStr (isoformat t)) expires)] db2)
              in Inr (db3, serialize_user now db3 (mk i) (if uc_role body = VIEWER_ROLE then ids else [])))))"

definition change_account :: "(string \<Rightarrow> string) \<Rightarrow> user \<Rightarrow> user_update \<Rightarrow> user \<Rightarrow> app_error + user" where
  "change_account hash_password actor body u =
     (let u1 = (case uu_email body of None \<Rightarrow> u | Some e \<Rightarrow> u\<lparr>u_email := e\<rparr>);
          u2 = (if str_or (uu_password body) \<noteq> [] then u1\<lparr>u_password_hash := hash_password (str_or (uu_password body))\<rparr> else u1)
      in rbind (case uu_role body of None \<Rightarrow> Inr u2
           | Some r \<Rightarrow> if u_id u = u_id actor \<and> r \<noteq> ''admin'' then Inl (HttpError 400 ''Cannot demote yourself'')
               else Inr (u2\<lparr>u_role := r\<rparr>))
         (\<lambda>u3. case uu_is_active body of None \<Rightarrow> Inr u3
           | Some b \<Rightarrow> if u_id u = u_id actor \<and> \<not> b then Inl (HttpError 400 ''Cannot disable yourself'')
               else Inr (u3\<lparr>u_is_active := b\<rparr>)))"

definition scope_supplied :: "user_update \<Rightarrow> bool" where
  "scope_supplied body \<longleftrightarrow> uu_viewer_all_tenants body \<noteq> None \<or> uu_viewer_tenant_ids body \<noteq> None \<or>
     uu_viewer_expires_at body \<noteq> None \<or> uu_clear_viewer_expiration body"

definition change_scope :: "time \<Rightarrow> nat \<Rightarrow> user_update \<Rightarrow> string \<Rightarrow> user \<Rightarrow> db \<Rightarrow> app_error + (user \<times> db \<times> viewer_tenant_grant list)" where
  "change_scope now actor_id body previous_role u db =
     (let clear = Inr (dormant_viewer_state u, clear_viewer_grants (u_id u) db, []);
          was_viewer = (previous_role = VIEWER_ROLE) in
      if was_viewer \<and> u_role u \<noteq> VIEWER_ROLE then clear
      else if u_role u = VIEWER_ROLE
      then (if \<not> was_viewer \<and> \<not> scope_supplied body then clear
        else if scope_supplied body \<or> previous_role \<noteq> u_role u
        then rbind (normalize_viewer_scope VIEWER_ROLE
               (case uu_viewer_all_tenants body of Some b \<Rightarrow> b | None \<Rightarrow> if \<not> was_viewer then False else u_viewer_all_tenants u)
               (case uu_viewer_tenant_ids body of Some ids \<Rightarrow> ids | None \<Rightarrow> if \<not> was_viewer then [] else load_grant_ids db (u_id u))
               (if uu_clear_viewer_expiration body then None
                else case uu_viewer_expires_at body of Some t \<Rightarrow> Some t | None \<Rightarrow> if \<not> was_viewer then None else u_viewer_expires_at u))
             (\<lambda>(all_tenants, selected, expires).
               rbind (replace_viewer_grants now (u_id u) selected actor_id db) (\<lambda>(db1, rows, _).
                 Inr (u\<lparr>u_viewer_all_tenants := all_tenants, u_viewer_expires_at := expires\<rparr>, db1, rows)))
        else Inr (u, db, []))
      else clear)"

definition account_audits :: "user_update \<Rightarrow> user \<Rightarrow> nat list \<Rightarrow> user \<Rightarrow> nat list \<Rightarrow> (string \<times> (string \<times> json) list) list" where
  \<comment> \<open>action and details of the audit rows; the snapshots overwrite the values under the same keys\<close>
  "account_audits body u before_grants u' after_grants =
     (let details = [(''before'', JObj (scope_snapshot u before_grants)), (''after'', JObj (scope_snapshot u' after_grants))];
          change = (\<lambda>b a. jupdate [(''before'', b), (''after'', a)] details);
          all_changed = (u_viewer_all_tenants u \<noteq> u_viewer_all_tenants u');
          grants_changed = (before_grants \<noteq> after_grants);
          expiry_changed = (u_viewer_expires_at u \<noteq> u_viewer_expires_at u')
      in (if u_role u \<noteq> u_role u' then [(''user.role_changed'', change (JStr (u_role u)) (JStr (u_role u')))] else []) @
         (if u_is_active u \<noteq> u_is_active u' then [(if u_is_active u' then ''user.enabled'' else ''user.disabled'', details)] else []) @
         (if all_changed then [(''viewer.all_tenants_changed'', change (JBool (u_viewer_all_tenants u)) (JBool (u_viewer_all_tenants u')))] else []) @
         (if grants_changed then [(''viewer.grants_changed'', jupdate
            [(''added'', JArr (map jnat (sort (filter (\<lambda>i. i \<notin> set before_grants) (dedup after_grants))))),
             (''removed'', JArr (map jnat (sort (filter (\<lambda>i. i \<notin> set after_grants) (dedup before_grants)))))] details)] else []) @
         (if expiry_changed then [(''viewer.expiration_changed'', change (jopt (\<lambda>t. JStr (isoformat t)) (u_viewer_expires_at u))
            (jopt (\<lambda>t. JStr (isoformat t)) (u_viewer_expires_at u')))] else []) @
         (if str_or (uu_password body) \<noteq> [] then [(''user.password_reset'', [(''username'', JStr (u_username u'))])] else []) @
         (if uu_email body \<noteq> None \<and> u_email u \<noteq> u_email u' then [(''user.email_changed'', [(''username'', JStr (u_username u')),
            (''before'', JStr (u_email u)), (''after'', JStr (u_email u'))])] else []) @
         (if all_changed \<or> grants_changed \<or> expiry_changed \<or> is_viewer u \<noteq> is_viewer u' then [(''viewer.scope_changed'', details)] else []))"

definition commit_user :: "user \<Rightarrow> viewer_tenant_grant list \<Rightarrow> db \<Rightarrow> app_error + db" where
  "commit_user u rows db =
     (if t_exists (\<lambda>v. u_id v \<noteq> u_id u \<and> u_email v = u_email u) (tb_users db) then Inl (PyError ''IntegrityError'')
      else Inr (flush_grants rows (db\<lparr>tb_users := t_modify (\<lambda>v. u_id v = u_id u) (\<lambda>_. u) (tb_users db)\<rparr>)))"

definition update_user :: "(string \<Rightarrow> string) \<Rightarrow> time \<Rightarrow> nat \<Rightarrow> user_update \<Rightarrow> user \<Rightarrow> db \<Rightarrow> app_error + (db \<times> user_out)" where
  "update_user hash_password now i body actor db = (case t_get u_id i (tb_users db) of
     None \<Rightarrow> Inl (HttpError 404 ''User not found'')
   | Some u \<Rightarrow>
       rbind (change_account hash_password actor body u) (\<lambda>u1.
       rbind (change_scope now (u_id actor) body (u_role u) u1 db) (\<lambda>(u2, db1, rows).
         let after_grants = (if u_role u2 = VIEWER_ROLE then load_grant_ids db1 i else []);
             db2 = fold (\<lambda>(action, details). user_audit now actor i action details)
               (account_audits body u (load_grant_ids db i) u2 after_grants) db1
         in rbind (commit_user u2 rows db2) (\<lambda>db3. Inr (db3, serialize_user now db3 u2 after_grants)))))"

subsection \<open>The invariant of accounts\<close>

definition dormant :: "user \<Rightarrow> bool" where
  "dormant u \<longleftrightarrow> is_viewer u \<or> (\<not> u_viewer_all_tenants u \<and> u_viewer_expires_at u = None)"

definition grant_ok :: "db \<Rightarrow> viewer_tenant_grant \<Rightarrow> bool" where
  \<comment> \<open>of a viewer of selected tenants, for a tenant that exists\<close>
  "grant_ok db g \<longleftrightarrow> tenant_exists db (vtg_tenant_id g) \<and>
     t_exists (\<lambda>u. u_id u = vtg_user_id g \<and> is_viewer u \<and> \<not> u_viewer_all_tenants u) (tb_users db)"

definition grant_key :: "viewer_tenant_grant \<Rightarrow> nat \<times> nat" where
  "grant_key g = (vtg_user_id g, vtg_tenant_id g)"

definition accounts_ok :: "db \<Rightarrow> bool" where
  "accounts_ok db \<longleftrightarrow> t_wf u_id (tb_users db) \<and> distinct (map u_username (t_rows (tb_users db))) \<and>
     distinct (map u_email (t_rows (tb_users db))) \<and> list_all dormant (t_rows (tb_users db)) \<and>
     distinct (map grant_key (t_rows (tb_viewer_tenant_grants db))) \<and> list_all (grant_ok db) (t_rows (tb_viewer_tenant_grants db))"

text \<open>The requests of an administrator on accounts, with any bodies.\<close>

inductive account_step :: "db \<Rightarrow> db \<Rightarrow> bool" where
  create_step: "create_user hash now body actor db = Inr (db', out) \<Longrightarrow> account_step db db'"
| update_step: "update_user hash now i body actor db = Inr (db', out) \<Longrightarrow> account_step db db'"

inductive_cases account_stepE: "account_step db db'"

lemma user_audit_frame: "user_audit now actor i action details db = db\<lparr>tb_audit_logs := tb_audit_logs (user_audit now actor i action details db)\<rparr>"
  by (simp add: user_audit_def record_audit_fst)

lemma fold_audits_frame: "\<exists>a. fold (\<lambda>(action, details). user_audit now actor i action details) xs db = db\<lparr>tb_audit_logs := a\<rparr>"
proof (induction xs arbitrary: db)
  case Nil
  show ?case by (rule exI [of _ "tb_audit_logs db"]) simp
next
  case (Cons x xs)
  obtain action details where x: "x = (action, details)" by (cases x)
  obtain a where "user_audit now actor i action details db = db\<lparr>tb_audit_logs := a\<rparr>" using user_audit_frame by metis
  moreover obtain b where "fold (\<lambda>(action, details). user_audit now actor i action details) xs (db\<lparr>tb_audit_logs := a\<rparr>) = (db\<lparr>tb_audit_logs := a\<rparr>)\<lparr>tb_audit_logs := b\<rparr>"
    using Cons.IH by metis
  ultimately show ?case unfolding x by (intro exI [of _ b]) simp
qed

lemma flush_rows: "t_rows (fold (\<lambda>g. t_insert (\<lambda>_. g)) rows t) = t_rows t @ rows"
  by (induction rows arbitrary: t) simp_all

lemma flush_grants_fields [simp]: "tb_users (flush_grants rows db) = tb_users db" "tb_tenants (flush_grants rows db) = tb_tenants db"
  "t_rows (tb_viewer_tenant_grants (flush_grants rows db)) = t_rows (tb_viewer_tenant_grants db) @ rows"
  by (simp_all add: flush_grants_def flush_rows)

lemma new_grants_keys: "map grant_key (new_grants now i by ids) = map (Pair i) ids"
  by (simp add: new_grants_def grant_key_def)

lemma new_grants_set: "g \<in> set (new_grants now i by ids) \<Longrightarrow> vtg_user_id g = i \<and> vtg_tenant_id g \<in> set ids"
  by (auto simp: new_grants_def)

lemma grants_loaded: "t \<in> set (load_grant_ids db i) \<longleftrightarrow> (\<exists>g \<in> set (t_rows (tb_viewer_tenant_grants db)). vtg_user_id g = i \<and> vtg_tenant_id g = t)"
  by (auto simp: load_grant_ids_def t_select_def)

lemma replaced_grants:
  assumes "replace_viewer_grants now i tenant_ids by db = Inr (db1, rows, ids)"
  shows "db1 = clear_viewer_grants i db \<and> rows = new_grants now i by ids \<and> ids = sort (dedup tenant_ids) \<and> distinct ids \<and>
    (\<forall>t \<in> set ids. tenant_exists db t)"
  using assms by (auto simp: replace_viewer_grants_def Let_def list_ex_iff split: if_splits)

text \<open>What a change of the scope does: nothing to a viewer, or a fresh set of grants, empty except for
  a viewer of selected tenants.\<close>

lemma changed_scope:
  assumes "change_scope now actor_id body previous u db = Inr (u', db1, rows)"
  shows "(u' = u \<and> db1 = db \<and> rows = [] \<and> previous = VIEWER_ROLE \<and> is_viewer u) \<or>
    (db1 = clear_viewer_grants (u_id u) db \<and> u_id u' = u_id u \<and> u_username u' = u_username u \<and> u_email u' = u_email u \<and>
     u_role u' = u_role u \<and> dormant u' \<and>
     (\<exists>ids. rows = new_grants now (u_id u) actor_id ids \<and> distinct ids \<and> (\<forall>t \<in> set ids. tenant_exists db t) \<and>
        (ids \<noteq> [] \<longrightarrow> is_viewer u' \<and> \<not> u_viewer_all_tenants u')))"
proof -
  let ?fresh = "\<lambda>u' db1 rows. db1 = clear_viewer_grants (u_id u) db \<and> u_id u' = u_id u \<and> u_username u' = u_username u \<and> u_email u' = u_email u \<and>
     u_role u' = u_role u \<and> dormant u' \<and>
     (\<exists>ids. rows = new_grants now (u_id u) actor_id ids \<and> distinct ids \<and> (\<forall>t \<in> set ids. tenant_exists db t) \<and>
        (ids \<noteq> [] \<longrightarrow> is_viewer u' \<and> \<not> u_viewer_all_tenants u'))"
  have clear: "?fresh (dormant_viewer_state u) (clear_viewer_grants (u_id u) db) []"
    by (simp add: dormant_viewer_state_def dormant_def new_grants_def)
  have scope: "?fresh u' db1 rows"
    if viewer: "u_role u = VIEWER_ROLE"
      and s: "rbind (normalize_viewer_scope VIEWER_ROLE a b c) (\<lambda>(all_tenants, selected, expires).
        rbind (replace_viewer_grants now (u_id u) selected actor_id db) (\<lambda>(db1, rows, _).
          Inr (u\<lparr>u_viewer_all_tenants := all_tenants, u_viewer_expires_at := expires\<rparr>, db1, rows))) = Inr (u', db1, rows)" for a b c
  proof -
    have ab: "\<not> (a \<and> b \<noteq> [])"
    proof
      assume "a \<and> b \<noteq> []"
      with s show False by (simp add: normalize_viewer_scope_def)
    qed
    obtain ids where r: "replace_viewer_grants now (u_id u) b actor_id db = Inr (db1, rows, ids)"
      and u': "u' = u\<lparr>u_viewer_all_tenants := a, u_viewer_expires_at := c\<rparr>"
      using s ab by (auto simp: normalize_viewer_scope_def rbind_Inr_iff)
    from replaced_grants [OF r] ab show ?thesis unfolding u'
      by (auto simp: is_viewer_def viewer dormant_def)
  qed
  show ?thesis
  proof (cases "u_role u = VIEWER_ROLE")
    case False
    then have "(dormant_viewer_state u, clear_viewer_grants (u_id u) db, []) = (u', db1, rows)"
      using assms by (cases "previous = VIEWER_ROLE") (simp_all add: change_scope_def Let_def)
    with clear show ?thesis by auto
  next
    case viewer: True
    consider "previous \<noteq> VIEWER_ROLE" "\<not> scope_supplied body" | "scope_supplied body"
      | "previous = VIEWER_ROLE" "\<not> scope_supplied body" by blast
    then show ?thesis
    proof cases
      case 1
      then have "(dormant_viewer_state u, clear_viewer_grants (u_id u) db, []) = (u', db1, rows)"
        using assms viewer by (simp add: change_scope_def)
      with clear show ?thesis by auto
    next
      case 2
      show ?thesis
        by (rule disjI2, rule scope [OF viewer], rule trans [OF _ assms])
          (use 2 viewer in \<open>simp only: change_scope_def Let_def simp_thms if_False if_True\<close>)
    next
      case 3
      then show ?thesis using assms viewer by (simp add: change_scope_def is_viewer_def)
    qed
  qed
qed

lemma changed_account:
  assumes "change_account h actor body u = Inr u'"
  shows "u_id u' = u_id u \<and> u_username u' = u_username u \<and> u_viewer_all_tenants u' = u_viewer_all_tenants u \<and>
    u_viewer_expires_at u' = u_viewer_expires_at u"
proof -
  let ?same = "\<lambda>v. u_id v = u_id u \<and> u_username v = u_username u \<and> u_viewer_all_tenants v = u_viewer_all_tenants u \<and>
    u_viewer_expires_at v = u_viewer_expires_at u"
  define v where "v = (let u1 = (case uu_email body of None \<Rightarrow> u | Some e \<Rightarrow> u\<lparr>u_email := e\<rparr>)
    in if str_or (uu_password body) \<noteq> [] then u1\<lparr>u_password_hash := h (str_or (uu_password body))\<rparr> else u1)"
  have v: "?same v" by (simp add: v_def Let_def split: option.split)
  have run: "rbind (case uu_role body of None \<Rightarrow> Inr v
           | Some r \<Rightarrow> if u_id u = u_id actor \<and> r \<noteq> ''admin'' then Inl (HttpError 400 ''Cannot demote yourself'')
               else Inr (v\<lparr>u_role := r\<rparr>))
         (\<lambda>u3. case uu_is_active body of None \<Rightarrow> Inr u3
           | Some b \<Rightarrow> if u_id u = u_id actor \<and> \<not> b then Inl (HttpError 400 ''Cannot disable yourself'')
               else Inr (u3\<lparr>u_is_active := b\<rparr>)) = Inr u'"
    using assms unfolding change_account_def v_def Let_def .
  show ?thesis using run v by (auto simp: rbind_Inr_iff split: option.splits if_splits)
qed

text \<open>Writing back the account and its grants.\<close>

lemma accounts_replace:
  assumes ok: "accounts_ok db" and u: "t_get u_id i (tb_users db) = Some u"
    and u': "u_id u' = i" "u_username u' = u_username u" "dormant u'"
    and email: "\<not> t_exists (\<lambda>v. u_id v \<noteq> i \<and> u_email v = u_email u') (tb_users db)"
    and db': "tb_users db' = t_modify (\<lambda>v. u_id v = i) (\<lambda>_. u') (tb_users db)" "tb_tenants db' = tb_tenants db"
    and keys: "distinct (map grant_key (t_rows (tb_viewer_tenant_grants db')))"
    and grants: "\<And>g. g \<in> set (t_rows (tb_viewer_tenant_grants db')) \<Longrightarrow>
      if vtg_user_id g = i then tenant_exists db (vtg_tenant_id g) \<and> is_viewer u' \<and> \<not> u_viewer_all_tenants u'
      else g \<in> set (t_rows (tb_viewer_tenant_grants db))"
  shows "accounts_ok db'"
proof -
  let ?rows = "t_rows (tb_users db)"
  have row: "u \<in> set ?rows" "u_id u = i" using u by (auto dest: t_get_Some)
  have wf: "t_wf u_id (tb_users db)" using ok by (simp add: accounts_ok_def)
  have ids': "map u_id (t_rows (tb_users db')) = map u_id ?rows" using u'(1) by (simp add: db'(1))
  have names: "map u_username (t_rows (tb_users db')) = map u_username ?rows"
    using t_wf_eq [OF wf _ row(1)] row(2) u'(2) by (auto simp: db'(1))
  have mem: "v \<in> set (t_rows (tb_users db')) \<longleftrightarrow> v = u' \<or> (v \<in> set ?rows \<and> u_id v \<noteq> i)" for v
    using row by (auto simp: db'(1))
  have "distinct (map u_email (t_rows (tb_users db')))"
  proof -
    have a: "\<forall>v \<in> set ?rows. u_id v \<noteq> i \<longrightarrow> u_email v \<noteq> u_email u'" using email by (auto simp: t_exists_iff)
    have b: "inj_on u_email (set ?rows)" using ok by (simp add: accounts_ok_def distinct_map)
    have "inj_on u_email (set (t_rows (tb_users db')))"
    proof (rule inj_onI)
      fix x y assume "x \<in> set (t_rows (tb_users db'))" "y \<in> set (t_rows (tb_users db'))" "u_email x = u_email y"
      then show "x = y" unfolding mem using a inj_onD [OF b, of x y] by metis
    qed
    moreover have "distinct (map u_id (t_rows (tb_users db')))" using wf unfolding ids' by (simp add: t_wf_def)
    then have "distinct (t_rows (tb_users db'))" by (simp add: distinct_map)
    ultimately show ?thesis by (simp add: distinct_map)
  qed
  moreover have "t_wf u_id (tb_users db')"
  proof -
    have "t_next (tb_users db') = t_next (tb_users db)" by (simp add: db'(1))
    then show ?thesis unfolding t_wf_def ids' list_all_iff Ball_def mem using wf row u'(1) by (auto simp: t_wf_def list_all_iff)
  qed
  moreover have "list_all dormant (t_rows (tb_users db'))" using ok u'(3) by (auto simp: list_all_iff mem accounts_ok_def)
  moreover have "grant_ok db' g" if "g \<in> set (t_rows (tb_viewer_tenant_grants db'))" for g
  proof (cases "vtg_user_id g = i")
    case True
    have "u' \<in> set (t_rows (tb_users db'))" by (simp add: mem)
    with True grants [OF that] u'(1) show ?thesis by (auto simp: grant_ok_def t_exists_iff tenant_exists_def db'(2))
  next
    case False
    then have "grant_ok db g" using ok grants [OF that] by (simp add: accounts_ok_def list_all_iff)
    then obtain v where "v \<in> set ?rows" "u_id v = vtg_user_id g" "is_viewer v" "\<not> u_viewer_all_tenants v" "tenant_exists db (vtg_tenant_id g)"
      by (auto simp: grant_ok_def t_exists_iff)
    moreover from this False have "v \<in> set (t_rows (tb_users db'))" by (simp add: mem)
    ultimately show ?thesis by (auto simp: grant_ok_def t_exists_iff tenant_exists_def db'(2))
  qed
  ultimately show ?thesis using ok names keys by (simp add: accounts_ok_def list_all_iff)
qed

lemma update_user_ok:
  assumes ok: "accounts_ok db" and run: "update_user h now i body actor db = Inr (db', out)"
  shows "accounts_ok db'"
proof -
  obtain u u1 where u: "t_get u_id i (tb_users db) = Some u" and u1: "change_account h actor body u = Inr u1"
    using run by (auto simp: update_user_def rbind_Inr_iff split: option.splits)
  obtain u2 db1 rows where s: "change_scope now (u_id actor) body (u_role u) u1 db = Inr (u2, db1, rows)"
    and rest: "\<exists>audits. commit_user u2 rows (fold (\<lambda>(action, details). user_audit now actor i action details) audits db1) = Inr db'"
    using run u u1 by (auto simp: update_user_def rbind_Inr_iff Let_def)
  obtain a where a: "commit_user u2 rows (db1\<lparr>tb_audit_logs := a\<rparr>) = Inr db'" using rest fold_audits_frame by metis
  have row: "u \<in> set (t_rows (tb_users db))" "u_id u = i" using u by (auto dest: t_get_Some)
  note acc = changed_account [OF u1]
  have frame: "tb_users db1 = tb_users db" "tb_tenants db1 = tb_tenants db"
    using changed_scope [OF s] by (auto simp: clear_viewer_grants_def)
  have email: "\<not> t_exists (\<lambda>v. u_id v \<noteq> u_id u2 \<and> u_email v = u_email u2) (tb_users db)"
    and db': "db' = flush_grants rows (db1\<lparr>tb_audit_logs := a, tb_users := t_modify (\<lambda>v. u_id v = u_id u2) (\<lambda>_. u2) (tb_users db)\<rparr>)"
    using a by (auto simp: commit_user_def frame split: if_splits)
  from changed_scope [OF s] show ?thesis
  proof (elim disjE conjE exE)
    assume same: "u2 = u1" "db1 = db" "rows = []" "u_role u = VIEWER_ROLE" "is_viewer u1"
    have "is_viewer v \<and> \<not> u_viewer_all_tenants v \<Longrightarrow> u_id v = i \<Longrightarrow> v \<in> set (t_rows (tb_users db)) \<Longrightarrow> v = u" for v
      using ok row by (auto simp: accounts_ok_def dest: t_wf_eq)
    then have own: "tenant_exists db (vtg_tenant_id g) \<and> \<not> u_viewer_all_tenants u"
      if "g \<in> set (t_rows (tb_viewer_tenant_grants db))" "vtg_user_id g = i" for g
      using ok that by (auto simp: accounts_ok_def list_all_iff grant_ok_def t_exists_iff)
    have keys: "distinct (map grant_key (t_rows (tb_viewer_tenant_grants db')))"
      using ok same by (simp add: db' accounts_ok_def)
    show ?thesis
      by (rule accounts_replace [OF ok u, of u2 db'])
        (use acc row same own email keys in \<open>simp_all add: db' dormant_def\<close>)
  next
    fix ids
    assume c: "db1 = clear_viewer_grants (u_id u1) db" "u_id u2 = u_id u1" "u_username u2 = u_username u1" "dormant u2"
      and ids: "rows = new_grants now (u_id u1) (u_id actor) ids" "distinct ids" "\<forall>t \<in> set ids. tenant_exists db t"
        "ids \<noteq> [] \<longrightarrow> is_viewer u2 \<and> \<not> u_viewer_all_tenants u2"
    have G: "t_rows (tb_viewer_tenant_grants db') = filter (\<lambda>g. vtg_user_id g \<noteq> i) (t_rows (tb_viewer_tenant_grants db)) @ rows"
      using acc row c by (simp add: db' clear_viewer_grants_def)
    have keys: "distinct (map grant_key (t_rows (tb_viewer_tenant_grants db')))"
      using ok ids(1,2) acc row by (auto simp: G new_grants_keys accounts_ok_def distinct_map_filter distinct_map inj_on_def grant_key_def)
    show ?thesis
    proof (rule accounts_replace [OF ok u, of u2 db'])
      fix g assume "g \<in> set (t_rows (tb_viewer_tenant_grants db'))"
      then show "if vtg_user_id g = i then tenant_exists db (vtg_tenant_id g) \<and> is_viewer u2 \<and> \<not> u_viewer_all_tenants u2
          else g \<in> set (t_rows (tb_viewer_tenant_grants db))"
        using ids acc row by (auto simp: G dest: new_grants_set)
    qed (use acc row c email keys in \<open>simp_all add: db' clear_viewer_grants_def\<close>)
  qed
qed

lemma create_user_ok:
  assumes ok: "accounts_ok db" and run: "create_user h now body actor db = Inr (db', out)"
  shows "accounts_ok db'"
proof -
  let ?i = "t_next (tb_users db)"
  have new: "\<not> t_exists (\<lambda>u. u_username u = uc_username body \<or> u_email u = uc_email body) (tb_users db)"
    using run by (auto simp: create_user_def split: if_splits)
  obtain all selected expires where scope: "normalize_viewer_scope (uc_role body) (uc_viewer_all_tenants body)
      (uc_viewer_tenant_ids body) (uc_viewer_expires_at body) = Inr (all, selected, expires)"
    using run new by (auto simp: create_user_def rbind_Inr_iff)
  define u where "u = new_user now (h (uc_password body)) body all expires ?i"
  define db1 where "db1 = db\<lparr>tb_users := t_insert (new_user now (h (uc_password body)) body all expires) (tb_users db)\<rparr>"
  obtain db2 rows ids where r: "(if uc_role body = VIEWER_ROLE then replace_viewer_grants now ?i selected (u_id actor) db1
      else Inr (db1, [], selected)) = Inr (db2, rows, ids)"
    and a: "\<exists>details. db' = flush_grants rows (user_audit now actor ?i ''user.created'' details db2)"
    using run new scope by (auto simp: create_user_def rbind_Inr_iff Let_def db1_def intro!: that exI)
  obtain audits where db': "db' = flush_grants rows (db2\<lparr>tb_audit_logs := audits\<rparr>)" using a user_audit_frame by metis
  have viewer: "is_viewer u \<longleftrightarrow> uc_role body = VIEWER_ROLE" by (simp add: u_def new_user_def is_viewer_def)
  have u: "u_id u = ?i" "u_username u = uc_username body" "u_email u = uc_email body" "dormant u" "selected \<noteq> [] \<Longrightarrow> \<not> u_viewer_all_tenants u"
    using scope by (auto simp: u_def new_user_def dormant_def is_viewer_def normalize_viewer_scope_def split: if_splits)
  have old: "g \<in> set (t_rows (tb_viewer_tenant_grants db)) \<Longrightarrow> vtg_user_id g \<noteq> ?i" for g
    using ok by (force simp: accounts_ok_def list_all_iff grant_ok_def t_exists_iff t_wf_def)
  have rows: "tb_users db2 = tb_users db1 \<and> tb_tenants db2 = tb_tenants db \<and>
      t_rows (tb_viewer_tenant_grants db2) = t_rows (tb_viewer_tenant_grants db) \<and>
      (\<exists>ids. rows = new_grants now ?i (u_id actor) ids \<and> distinct ids \<and> (\<forall>t \<in> set ids. tenant_exists db t) \<and>
        (ids \<noteq> [] \<longrightarrow> is_viewer u \<and> \<not> u_viewer_all_tenants u))"
  proof (cases "uc_role body = VIEWER_ROLE")
    case True
    have "filter (\<lambda>g. vtg_user_id g \<noteq> ?i) (t_rows (tb_viewer_tenant_grants db)) = t_rows (tb_viewer_tenant_grants db)"
      using old by (simp add: filter_id_conv)
    moreover have "replace_viewer_grants now ?i selected (u_id actor) db1 = Inr (db2, rows, ids)" using r True by simp
    note replaced_grants [OF this]
    moreover have "selected \<noteq> []" if "sort (dedup selected) \<noteq> []" using that by auto
    ultimately show ?thesis using True viewer u(5) by (auto simp: clear_viewer_grants_def db1_def tenant_exists_def)
  next
    case False
    with r show ?thesis by (auto simp: db1_def new_grants_def)
  qed
  then obtain ids where ids: "rows = new_grants now ?i (u_id actor) ids" "distinct ids" "\<forall>t \<in> set ids. tenant_exists db t"
      "ids \<noteq> [] \<longrightarrow> is_viewer u \<and> \<not> u_viewer_all_tenants u" by blast
  have users: "tb_users db' = tb_users db1" and tenants: "tb_tenants db' = tb_tenants db"
    and G: "t_rows (tb_viewer_tenant_grants db') = t_rows (tb_viewer_tenant_grants db) @ rows" using rows by (simp_all add: db')
  have mem: "set (t_rows (tb_users db')) = insert u (set (t_rows (tb_users db)))" by (simp add: users db1_def u_def)
  have "t_wf u_id (tb_users db')" using ok u(1) by (auto simp: users db1_def u_def accounts_ok_def intro!: t_wf_insert)
  moreover have "distinct (map u_username (t_rows (tb_users db')))" "distinct (map u_email (t_rows (tb_users db')))"
    using ok new u(2,3) by (auto simp: users db1_def accounts_ok_def t_exists_iff simp flip: u_def)
  moreover have "list_all dormant (t_rows (tb_users db'))" using ok u(4) by (auto simp: list_all_iff mem accounts_ok_def)
  moreover have "distinct (map grant_key (t_rows (tb_viewer_tenant_grants db')))"
    using ok ids(1,2) old by (auto simp: G new_grants_keys accounts_ok_def distinct_map inj_on_def grant_key_def)
  moreover have "grant_ok db' g" if "g \<in> set (t_rows (tb_viewer_tenant_grants db'))" for g
  proof (cases "g \<in> set rows")
    case True
    then have "vtg_user_id g = ?i" "vtg_tenant_id g \<in> set ids" using ids(1) new_grants_set by auto
    then show ?thesis using ids(3,4) u(1) by (force simp: grant_ok_def t_exists_iff mem tenant_exists_def tenants)
  next
    case False
    then have "grant_ok db g" using ok that by (simp add: G accounts_ok_def list_all_iff)
    then show ?thesis by (auto simp: grant_ok_def t_exists_iff mem tenant_exists_def tenants)
  qed
  ultimately show ?thesis by (simp add: accounts_ok_def list_all_iff)
qed

subsection \<open>Properties\<close>

text \<open>C29: access never outlives its role. Any sequence of account requests keeps user names, addresses
  and grants unique, leaves viewer columns and grants to viewers only, gives grants only to viewers of
  selected tenants and only for tenants that exist; so an account that returns to the viewer role has
  no access of the time before.\<close>

theorem accounts_stay_sound:
  assumes "accounts_ok db" and "account_step\<^sup>*\<^sup>* db db'"
  shows "accounts_ok db'"
  using assms(2,1) by (induction rule: rtranclp_induct) (auto elim!: account_stepE dest: create_user_ok update_user_ok)

text \<open>C30: the ways the program decides what an actor sees agree. For every account and tenant, the check
  of one tenant, the list of visible ids, the query for visible tenants and the clause put on the
  tenant column of other tables give the same answer; on rows without a tenant the clause agrees with
  the check too.\<close>

theorem visibility_checks_agree:
  assumes "accounts_ok db"
  shows "(can_access_tenant db u (Some t) \<longleftrightarrow> t \<in> set (visible_tenant_ids db u)) \<and>
    (can_access_tenant db u (Some t) \<longleftrightarrow> t \<in> tn_id ` set (visible_tenant_query db u)) \<and>
    (can_access_tenant db u (Some t) \<longleftrightarrow> tenant_exists db t \<and> tenant_scope_clause db u False (Some t)) \<and>
    (can_access_tenant db u None \<longleftrightarrow> tenant_scope_clause db u False None)"
proof -
  have grants: "tenant_exists db t" if "t \<in> set (load_grant_ids db i)" for t i
    using assms that by (auto simp: grants_loaded accounts_ok_def list_all_iff grant_ok_def)
  have select: "t \<in> tn_id ` set (visible_tenant_query db u) \<longleftrightarrow> tenant_exists db t \<and> tenant_scope_clause db u False (Some t)"
    by (auto simp: visible_tenant_query_def t_select_def tenant_exists_def t_exists_iff)
  have own: "t_exists (\<lambda>g. vtg_user_id g = u_id u \<and> vtg_tenant_id g = t) (tb_viewer_tenant_grants db) \<longleftrightarrow> t \<in> set (load_grant_ids db (u_id u))"
    by (auto simp: t_exists_iff grants_loaded)
  have every: "t \<in> set (sorted_by id (map tn_id (t_rows (tb_tenants db)))) \<longleftrightarrow> tenant_exists db t"
    by (auto simp: tenant_exists_def t_exists_iff)
  show ?thesis unfolding select
    using grants own every by (auto simp: can_access_tenant_def visible_tenant_ids_def tenant_scope_clause_def has_all_tenant_access_def)
qed

text \<open>an error of the answer. When the tenants of a viewer are replaced, they are stored, but the
  response lists no tenant and says that the account has no access, because the new grants are
  queried before they are flushed.\<close>

theorem update_reports_no_grants:
  assumes "update_user h now i body actor db = Inr (db', out)" and "uu_viewer_tenant_ids body = Some ids" and "uo_role out = VIEWER_ROLE"
  shows "load_grant_ids db' i = sort (dedup ids) \<and> uo_viewer_tenant_ids out = [] \<and> uo_viewer_access_status out \<noteq> ''selected''"
proof -
  obtain u u1 where u: "t_get u_id i (tb_users db) = Some u" and u1: "change_account h actor body u = Inr u1"
    using assms(1) by (auto simp: update_user_def rbind_Inr_iff split: option.splits)
  obtain u2 db1 rows where s: "change_scope now (u_id actor) body (u_role u) u1 db = Inr (u2, db1, rows)"
    and db': "\<exists>audits. commit_user u2 rows (fold (\<lambda>(action, details). user_audit now actor i action details) audits db1) = Inr db'"
    and out: "out = serialize_user now db' u2 (if u_role u2 = VIEWER_ROLE then load_grant_ids db1 i else [])"
    using assms(1) u u1 by (auto simp: update_user_def rbind_Inr_iff Let_def)
  have i: "u_id u1 = i" using changed_account [OF u1] u by (auto dest: t_get_Some)
  have viewer: "u_role u2 = VIEWER_ROLE" using assms(3) out by (simp add: serialize_user_def Let_def)
  have supplied: "scope_supplied body" using assms(2) by (simp add: scope_supplied_def)
  have role: "u_role u1 = VIEWER_ROLE" using viewer changed_scope [OF s] by auto
  obtain a c where "rbind (normalize_viewer_scope VIEWER_ROLE a ids c) (\<lambda>(all_tenants, selected, expires).
      rbind (replace_viewer_grants now (u_id u1) selected (u_id actor) db) (\<lambda>(db1, rows, _).
        Inr (u1\<lparr>u_viewer_all_tenants := all_tenants, u_viewer_expires_at := expires\<rparr>, db1, rows))) = Inr (u2, db1, rows)"
    using s role supplied unfolding change_scope_def Let_def assms(2) by (simp only: simp_thms if_False if_True option.case)
  then obtain k where r: "replace_viewer_grants now i ids (u_id actor) db = Inr (db1, rows, k)"
    by (auto simp: normalize_viewer_scope_def rbind_Inr_iff i split: if_splits)
  note new = replaced_grants [OF r]
  have none: "load_grant_ids db1 i = []" using new by (auto simp: load_grant_ids_def t_select_def clear_viewer_grants_def sorted_by_def)
  obtain audits where "commit_user u2 rows (db1\<lparr>tb_audit_logs := audits\<rparr>) = Inr db'" using db' fold_audits_frame by metis
  then have G: "t_rows (tb_viewer_tenant_grants db') = t_rows (tb_viewer_tenant_grants db1) @ rows"
    by (auto simp: commit_user_def split: if_splits)
  have "load_grant_ids db' i = sort (dedup ids)"
    using new by (auto simp: load_grant_ids_def t_select_def G clear_viewer_grants_def sorted_by_def new_grants_def o_def intro: sort_key_id_if_sorted)
  then show ?thesis using none viewer by (simp add: out serialize_user_def Let_def viewer_access_status_def is_viewer_def)
qed

subsection \<open>Witnesses\<close>

definition sample_viewer :: user where
  "sample_viewer = sample_user\<lparr>u_id := 2, u_username := ''guest'', u_email := ''g@x'', u_role := VIEWER_ROLE\<rparr>"

definition viewer_world :: db where
  "viewer_world = small_world\<lparr>tb_users := \<lparr>t_next = 3, t_rows = [sample_user, sample_viewer]\<rparr>,
     tb_viewer_tenant_grants := \<lparr>t_next = 2, t_rows = [\<lparr>vtg_user_id = 2, vtg_tenant_id = 1, vtg_granted_by_user_id = Some 1,
       vtg_created_at = 0\<rparr>]\<rparr>\<rparr>"

definition no_update :: user_update where
  "no_update = \<lparr>uu_email = None, uu_password = None, uu_role = None, uu_is_active = None, uu_viewer_all_tenants = None,
     uu_viewer_expires_at = None, uu_viewer_tenant_ids = None, uu_clear_viewer_expiration = False\<rparr>"

lemma viewer_world_ok: "accounts_ok viewer_world"
  by code_simp

theorem accounts_stay_sound_witness:
  \<comment> \<open>a viewer with a grant becomes an operator and a viewer again\<close>
  "\<exists>db1 db2 out. update_user id 5 2 (no_update\<lparr>uu_role := Some ''user''\<rparr>) sample_user viewer_world = Inr db1 \<and>
     update_user id 6 2 (no_update\<lparr>uu_role := Some ''viewer''\<rparr>) sample_user (fst db1) = Inr (db2, out) \<and>
     load_grant_ids db2 2 = [] \<and> accounts_ok db2"
proof -
  let ?up = "\<lambda>now r. update_user id now 2 (no_update\<lparr>uu_role := Some r\<rparr>) sample_user"
  let ?run = "rbind (?up 5 ''user'' viewer_world) (\<lambda>r. ?up 6 ''viewer'' (fst r))"
  have "case ?run of Inl e \<Rightarrow> False | Inr (d, _) \<Rightarrow> load_grant_ids d 2 = []" by code_simp
  then obtain db2 out where r: "?run = Inr (db2, out)" and none: "load_grant_ids db2 2 = []"
    by (cases ?run) (auto split: prod.splits)
  then obtain db1 where a: "?up 5 ''user'' viewer_world = Inr db1" and b: "?up 6 ''viewer'' (fst db1) = Inr (db2, out)"
    by (auto simp only: rbind_Inr_iff)
  have "account_step viewer_world (fst db1)" using a by (cases db1) (auto intro: update_step)
  moreover have "account_step (fst db1) db2" using b by (rule update_step)
  ultimately have "accounts_ok db2" by (intro accounts_stay_sound [OF viewer_world_ok]) (meson converse_rtranclp_into_rtranclp rtranclp.rtrancl_refl)
  with a b none show ?thesis by blast
qed

theorem visibility_checks_agree_witness:
  "can_access_tenant viewer_world sample_viewer (Some 1) \<and> 1 \<in> set (visible_tenant_ids viewer_world sample_viewer) \<and>
   tenant_scope_clause viewer_world sample_viewer False (Some 1) \<and> \<not> can_access_tenant viewer_world sample_viewer (Some 2)"
proof -
  have "can_access_tenant viewer_world sample_viewer (Some 1)" "\<not> can_access_tenant viewer_world sample_viewer (Some 2)" by code_simp+
  with visibility_checks_agree [OF viewer_world_ok, of sample_viewer 1] show ?thesis by blast
qed

theorem update_reports_no_grants_witness:
  "\<exists>db' out. update_user id 5 2 (no_update\<lparr>uu_viewer_tenant_ids := Some [1]\<rparr>) sample_user viewer_world = Inr (db', out) \<and>
     load_grant_ids db' 2 = [1] \<and> uo_viewer_tenant_ids out = [] \<and> uo_viewer_access_status out = ''none''"
proof -
  let ?body = "no_update\<lparr>uu_viewer_tenant_ids := Some [1]\<rparr>"
  let ?run = "update_user id 5 2 ?body sample_user viewer_world"
  have "case ?run of Inl e \<Rightarrow> False | Inr (d, out) \<Rightarrow> uo_role out = VIEWER_ROLE \<and> uo_viewer_access_status out = ''none''" by code_simp
  then obtain db' out where r: "?run = Inr (db', out)" and out: "uo_role out = VIEWER_ROLE" "uo_viewer_access_status out = ''none''"
    by (cases ?run) (auto split: prod.splits)
  have "uu_viewer_tenant_ids ?body = Some [1]" by simp
  from update_reports_no_grants [OF r this out(1)] r out(2) show ?thesis by simp
qed

end
