(* ===== verification/Throttle.thy ===== *)
theory Throttle
  imports Access
begin

section \<open>Login throttling and agent challenges\<close>

text \<open>
  \<^verbatim>\<open>backend/app/auth_throttle.py\<close>, \<^verbatim>\<open>agent_challenges.py\<close> and the login request of
  \<^verbatim>\<open>routers/auth.py\<close>. These functions commit what they write even when they raise, so their result
  is the database with the exception, if any (\<open>raising\<close>). Passwords, tokens and nonces are
  parameters. The settings are the record \<open>throttle_config\<close>.
\<close>

type_synonym raising = "db \<times> app_error option"

record throttle_config =
  tc_login_failure_limit :: int
  tc_login_failure_window_seconds :: int
  tc_login_lockout_seconds :: int
  tc_login_ip_limit :: int
  tc_login_ip_window_seconds :: int
  tc_agent_challenge_ttl_seconds :: int
  tc_agent_challenge_limit :: int
  tc_agent_challenge_ip_limit :: int
  tc_agent_challenge_window_seconds :: int

definition default_config :: throttle_config where
  "default_config = \<lparr>tc_login_failure_limit = 5, tc_login_failure_window_seconds = 900, tc_login_lockout_seconds = 900,
     tc_login_ip_limit = 20, tc_login_ip_window_seconds = 300, tc_agent_challenge_ttl_seconds = 120,
     tc_agent_challenge_limit = 10, tc_agent_challenge_ip_limit = 30, tc_agent_challenge_window_seconds = 300\<rparr>"

definition SCOPE_LOGIN_USER :: string where "SCOPE_LOGIN_USER = ''login_user''"
definition SCOPE_LOGIN_IP :: string where "SCOPE_LOGIN_IP = ''login_ip''"
definition SCOPE_CHALLENGE_AGENT :: string where "SCOPE_CHALLENGE_AGENT = ''agent_challenge''"
definition SCOPE_CHALLENGE_IP :: string where "SCOPE_CHALLENGE_IP = ''agent_challenge_ip''"

definition LOGIN_RATE :: app_error where
  "LOGIN_RATE = HttpError 429 ''Too many login attempts. Try again later.''"
definition CHALLENGE_RATE :: app_error where
  "CHALLENGE_RATE = HttpError 429 ''Too many authentication challenges. Try again later.''"

subsection \<open>Counting attempts\<close>

type_synonym throttle_key = "string \<times> string"

definition throttle_key :: "auth_throttle \<Rightarrow> throttle_key" where
  "throttle_key r = (ath_scope r, ath_subject r)"

definition throttle_row :: "db \<Rightarrow> throttle_key \<Rightarrow> auth_throttle option" where
  "throttle_row db k = t_first (\<lambda>r. throttle_key r = k) (tb_auth_throttles db)"

definition set_throttle :: "throttle_key \<Rightarrow> (auth_throttle \<Rightarrow> auth_throttle) \<Rightarrow> db \<Rightarrow> db" where
  "set_throttle k f db = db\<lparr>tb_auth_throttles := t_modify (\<lambda>r. throttle_key r = k) f (tb_auth_throttles db)\<rparr>"

definition new_throttle :: "throttle_key \<Rightarrow> nat \<Rightarrow> auth_throttle" where
  "new_throttle k i = \<lparr>ath_id = i, ath_scope = fst k, ath_subject = snd k, ath_attempt_count = 0,
     ath_window_started_at = None, ath_locked_until = None, ath_last_attempt_at = None\<rparr>"

definition locked_row :: "throttle_key \<Rightarrow> db \<Rightarrow> db \<times> auth_throttle" where
  \<comment> \<open>\<open>INSERT ... ON CONFLICT DO NOTHING\<close>, then the row\<close>
  "locked_row k db = (case throttle_row db k of
     Some r \<Rightarrow> (db, r)
   | None \<Rightarrow> (db\<lparr>tb_auth_throttles := t_insert (new_throttle k) (tb_auth_throttles db)\<rparr>,
       new_throttle k (t_next (tb_auth_throttles db))))"

definition is_locked :: "time \<Rightarrow> auth_throttle \<Rightarrow> bool" where
  "is_locked now r = (case ath_locked_until r of None \<Rightarrow> False | Some t \<Rightarrow> now < t)"

definition reset_window :: "time \<Rightarrow> time \<Rightarrow> auth_throttle \<Rightarrow> auth_throttle" where
  "reset_window now window r =
     (if (case ath_window_started_at r of None \<Rightarrow> True | Some s \<Rightarrow> window < now - s)
      then r\<lparr>ath_attempt_count := 0, ath_window_started_at := Some now, ath_locked_until := None\<rparr> else r)"

definition seconds :: "int \<Rightarrow> time" where
  "seconds s = max 1 s * second"

definition count_attempt :: "time \<Rightarrow> int \<Rightarrow> int \<Rightarrow> int \<Rightarrow> bool \<Rightarrow> auth_throttle \<Rightarrow> auth_throttle \<times> bool" where
  \<comment> \<open>the row after an attempt that is not locked out, and whether the attempt is blocked\<close>
  "count_attempt now limit window lockout increment r =
     (let r1 = reset_window now (seconds window) r;
          r2 = (if increment then r1\<lparr>ath_attempt_count := ath_attempt_count r1 + 1\<rparr> else r1);
          r3 = r2\<lparr>ath_last_attempt_at := Some now\<rparr>;
          blocked = (increment \<and> limit < ath_attempt_count r3)
      in (if blocked \<and> lockout \<noteq> 0 then r3\<lparr>ath_locked_until := Some (now + seconds lockout)\<rparr> else r3, blocked))"

definition record_attempt :: "time \<Rightarrow> throttle_key \<Rightarrow> int \<Rightarrow> int \<Rightarrow> int \<Rightarrow> app_error \<Rightarrow> bool \<Rightarrow> db \<Rightarrow> raising" where
  "record_attempt now k limit window lockout err increment db = (case locked_row k db of (db1, r) \<Rightarrow>
     if is_locked now r then (db1, Some err)
     else (case count_attempt now limit window lockout increment r of (r', blocked) \<Rightarrow>
       (set_throttle k (\<lambda>_. r') db1, if blocked then Some err else None)))"

definition or_unknown :: "string \<Rightarrow> string" where
  "or_unknown s = (if strip s = [] then ''unknown'' else strip s)"

definition login_name :: "string \<Rightarrow> string" where
  "login_name s = (if py_lower (strip s) = [] then ''unknown'' else py_lower (strip s))"

subsection \<open>Login\<close>

definition assert_login_allowed :: "throttle_config \<Rightarrow> time \<Rightarrow> string \<Rightarrow> string \<Rightarrow> db \<Rightarrow> raising" where
  "assert_login_allowed cfg now username source_ip db =
     (case record_attempt now (SCOPE_LOGIN_IP, or_unknown source_ip) (max 1 (tc_login_ip_limit cfg)) (tc_login_ip_window_seconds cfg)
         (tc_login_lockout_seconds cfg) LOGIN_RATE True db of
       (db1, Some e) \<Rightarrow> (db1, Some e)
     | (db1, None) \<Rightarrow> (case locked_row (SCOPE_LOGIN_USER, login_name username) db1 of (db2, r) \<Rightarrow>
         (db2, if is_locked now r then Some LOGIN_RATE else None)))"

definition record_login_failure :: "throttle_config \<Rightarrow> time \<Rightarrow> string \<Rightarrow> db \<Rightarrow> raising" where
  "record_login_failure cfg now username db = record_attempt now (SCOPE_LOGIN_USER, login_name username)
     (max 1 (tc_login_failure_limit cfg)) (tc_login_failure_window_seconds cfg) (tc_login_lockout_seconds cfg) LOGIN_RATE True db"

definition record_login_success :: "time \<Rightarrow> string \<Rightarrow> db \<Rightarrow> db" where
  "record_login_success now username db = (let k = (SCOPE_LOGIN_USER, login_name username) in
     set_throttle k (\<lambda>r. r\<lparr>ath_attempt_count := 0, ath_locked_until := None, ath_window_started_at := Some now,
       ath_last_attempt_at := Some now\<rparr>) (fst (locked_row k db)))"

definition login_audit :: "time \<Rightarrow> user option \<Rightarrow> string \<Rightarrow> (string \<times> json) list \<Rightarrow> db \<Rightarrow> db" where
  "login_audit now actor action details db = fst (record_audit now \<lparr>ar_actor = actor, ar_action = action,
     ar_object_type = (if actor = None then ''auth'' else ''user''), ar_object_id = map_option u_id actor,
     ar_tenant_id = None, ar_site_id = None, ar_details = details\<rparr> db)"

definition login_denied :: "time \<Rightarrow> user option \<Rightarrow> string \<Rightarrow> string \<Rightarrow> string \<Rightarrow> db \<Rightarrow> db" where
  "login_denied now actor username reason source_ip db = login_audit now actor ''auth.login_denied''
     [(''result'', JStr ''denied''), (''reason'', JStr reason), (''username'', JStr username), (''source_ip'', JStr source_ip)] db"

definition login_failed :: "throttle_config \<Rightarrow> time \<Rightarrow> user option \<Rightarrow> string \<Rightarrow> string \<Rightarrow> string \<Rightarrow> db \<Rightarrow> raising" where
  \<comment> \<open>count the failure, then refuse\<close>
  "login_failed cfg now actor username reason source_ip db = (case record_login_failure cfg now username db of
     (db1, Some e) \<Rightarrow> (db1, Some e)
   | (db1, None) \<Rightarrow> (login_denied now actor username reason source_ip db1, Some (HttpError 401 ''Invalid credentials'')))"

definition login :: "(string \<Rightarrow> string \<Rightarrow> bool) \<Rightarrow> (json \<Rightarrow> string) \<Rightarrow> int \<Rightarrow> throttle_config \<Rightarrow> time \<Rightarrow> string \<Rightarrow> string \<Rightarrow> string \<Rightarrow> db
    \<Rightarrow> db \<times> (app_error + (string \<times> user_out))" where
  "login verify encode hours cfg now body_username password source_ip db =
     (let username = strip body_username; raised = (\<lambda>r :: raising. (fst r, Inl (case snd r of Some e \<Rightarrow> e | None \<Rightarrow> PyError []))) in
      case assert_login_allowed cfg now username source_ip db of
        (db1, Some e) \<Rightarrow> (db1, Inl e)
      | (db1, None) \<Rightarrow> (case t_first (\<lambda>u. u_username u = body_username) (tb_users db1) of
          None \<Rightarrow> raised (login_failed cfg now None username ''invalid_credentials'' source_ip db1)
        | Some u \<Rightarrow>
            if \<not> u_is_active u then raised (login_failed cfg now (Some u) username ''account_inactive'' source_ip db1)
            else if \<not> verify password (u_password_hash u)
            then raised (login_failed cfg now (Some u) username ''invalid_credentials'' source_ip db1)
            else if viewer_is_expired now u
            then (login_denied now (Some u) username ''viewer_expired'' source_ip db1, Inl (HttpError 401 ''Viewer access has expired''))
            else let db2 = login_audit now (Some u) ''auth.login_success'' [(''result'', JStr ''success''), (''source_ip'', JStr source_ip)]
                   (record_login_success now username db1)
                 in (db2, Inr (encode (token_claims u (now + hours * 3600 * second)),
                      serialize_user now db2 u (if is_viewer u then load_grant_ids db2 (u_id u) else [])))))"

subsection \<open>Agent challenges\<close>

definition assert_challenge_allowed :: "throttle_config \<Rightarrow> time \<Rightarrow> string \<Rightarrow> string \<Rightarrow> db \<Rightarrow> raising" where
  "assert_challenge_allowed cfg now agent_uuid source_ip db =
     (let attempt = (\<lambda>k limit. record_attempt now k (max 1 limit) (tc_agent_challenge_window_seconds cfg)
            (tc_login_lockout_seconds cfg) CHALLENGE_RATE True) in
      case attempt (SCOPE_CHALLENGE_IP, or_unknown source_ip) (tc_agent_challenge_ip_limit cfg) db of
        (db1, Some e) \<Rightarrow> (db1, Some e)
      | (db1, None) \<Rightarrow> attempt (SCOPE_CHALLENGE_AGENT, or_unknown agent_uuid) (tc_agent_challenge_limit cfg) db1)"

definition expired_challenge :: "time \<Rightarrow> agent_challenge \<Rightarrow> bool" where
  "expired_challenge now c \<longleftrightarrow> ach_expires_at c \<le> now \<and> ach_consumed_at c = None"

definition prune_expired_challenges :: "time \<Rightarrow> nat \<Rightarrow> db \<Rightarrow> db \<times> nat" where
  "prune_expired_challenges now batch_size db =
     (let rows = take batch_size (sorted_by (\<lambda>c. (ach_expires_at c, ach_id c)) (t_select (expired_challenge now) (tb_agent_challenges db)))
      in (db\<lparr>tb_agent_challenges := t_delete (\<lambda>c. ach_id c \<in> set (map ach_id rows)) (tb_agent_challenges db)\<rparr>, length rows))"

definition new_challenge :: "throttle_config \<Rightarrow> time \<Rightarrow> agent \<Rightarrow> string \<Rightarrow> string \<Rightarrow> nat \<Rightarrow> agent_challenge" where
  "new_challenge cfg now a nonce source_ip i = \<lparr>ach_id = i, ach_agent_id = ag_id a, ach_nonce = nonce,
     ach_expires_at = now + max 30 (tc_agent_challenge_ttl_seconds cfg) * second, ach_consumed_at = None, ach_created_at = now,
     ach_source_ip = (if source_ip = [] then None else Some (take 80 source_ip))\<rparr>"

definition create_challenge :: "throttle_config \<Rightarrow> time \<Rightarrow> agent \<Rightarrow> string \<Rightarrow> string \<Rightarrow> db \<Rightarrow> db \<times> (app_error + agent_challenge)" where
  \<comment> \<open>a nonce that is taken violates the unique constraint, and the deletions are rolled back\<close>
  "create_challenge cfg now a nonce source_ip db = (case assert_challenge_allowed cfg now (ag_uuid a) source_ip db of
     (db1, Some e) \<Rightarrow> (db1, Inl e)
   | (db1, None) \<Rightarrow>
       let db2 = fst (prune_expired_challenges now 200 db1); mk = new_challenge cfg now a nonce source_ip in
       if t_exists (\<lambda>c. ach_nonce c = nonce) (tb_agent_challenges db2) then (db1, Inl (PyError ''IntegrityError''))
       else (db2\<lparr>tb_agent_challenges := t_insert mk (tb_agent_challenges db2)\<rparr>, Inr (mk (t_next (tb_agent_challenges db2)))))"

definition consume_challenge :: "time \<Rightarrow> agent \<Rightarrow> string \<Rightarrow> db \<Rightarrow> db \<times> (app_error + agent_challenge)" where
  "consume_challenge now a nonce db =
     (let denied = Inl (HttpError 401 ''Invalid or expired nonce'') in
      case t_first (\<lambda>c. ach_agent_id c = ag_id a \<and> ach_nonce c = nonce \<and> ach_consumed_at c = None) (tb_agent_challenges db) of
        None \<Rightarrow> (db, denied)
      | Some c \<Rightarrow>
          if ach_expires_at c \<le> now
          then (db\<lparr>tb_agent_challenges := t_delete (\<lambda>d. ach_id d = ach_id c) (tb_agent_challenges db)\<rparr>, denied)
          else let use = (\<lambda>d. d\<lparr>ach_consumed_at := Some now\<rparr>) in
            (db\<lparr>tb_agent_challenges := t_modify (\<lambda>d. ach_id d = ach_id c) use (tb_agent_challenges db)\<rparr>, Inr (use c)))"

subsection \<open>Sequences of requests\<close>

datatype throttle_op =
    Login_Attempt string string
  | Login_Failure string
  | Login_Success string
  | Challenge_Attempt string string

definition throttle_step :: "throttle_config \<Rightarrow> time \<Rightarrow> throttle_op \<Rightarrow> db \<Rightarrow> raising" where
  "throttle_step cfg now op db = (case op of
     Login_Attempt name ip \<Rightarrow> assert_login_allowed cfg now name ip db
   | Login_Failure name \<Rightarrow> record_login_failure cfg now name db
   | Login_Success name \<Rightarrow> (record_login_success now name db, None)
   | Challenge_Attempt uuid ip \<Rightarrow> assert_challenge_allowed cfg now uuid ip db)"

fun throttle_log :: "throttle_config \<Rightarrow> (time \<times> throttle_op) list \<Rightarrow> db \<Rightarrow> (time \<times> throttle_op \<times> bool) list" where
  \<comment> \<open>the operations with whether they passed\<close>
  "throttle_log cfg [] db = []"
| "throttle_log cfg ((now, op) # ops) db = (case throttle_step cfg now op db of
     (db', err) \<Rightarrow> (now, op, err = None) # throttle_log cfg ops db')"

definition login_from :: "string \<Rightarrow> throttle_op \<Rightarrow> bool" where
  "login_from ip op = (case op of Login_Attempt _ src \<Rightarrow> or_unknown src = ip | _ \<Rightarrow> False)"

definition admitted_logins :: "string \<Rightarrow> time \<Rightarrow> time \<Rightarrow> (time \<times> throttle_op \<times> bool) list \<Rightarrow> nat" where
  \<comment> \<open>the logins of an address that passed in an interval\<close>
  "admitted_logins ip a b trace = length (filter (\<lambda>(t, op, passed). passed \<and> login_from ip op \<and> a \<le> t \<and> t \<le> b) trace)"

subsection \<open>What an attempt does to its row, and to the others\<close>

lemma row_set_throttle:
  "(\<And>r. throttle_key r = k \<Longrightarrow> throttle_key (f r) = k) \<Longrightarrow>
   throttle_row (set_throttle k f db) k' = (if k' = k then map_option f (throttle_row db k) else throttle_row db k')"
proof -
  assume f: "\<And>r. throttle_key r = k \<Longrightarrow> throttle_key (f r) = k"
  have "first_match (\<lambda>r. throttle_key r = k') (map (\<lambda>r. if throttle_key r = k then f r else r) xs) =
      (if k' = k then map_option f (first_match (\<lambda>r. throttle_key r = k) xs) else first_match (\<lambda>r. throttle_key r = k') xs)" for xs
    using f by (induction xs) auto
  then show ?thesis by (simp add: throttle_row_def set_throttle_def t_first_def)
qed

lemma locked_row_key: "throttle_key (snd (locked_row k db)) = k"
  by (auto simp: locked_row_def new_throttle_def throttle_key_def throttle_row_def split: option.split dest: t_first_Some)

lemma row_locked_row:
  "throttle_row (fst (locked_row k db)) k' = (if k' = k then Some (snd (locked_row k db)) else throttle_row db k')"
  by (cases "throttle_row db k")
    (auto simp: locked_row_def throttle_row_def t_first_insert new_throttle_def throttle_key_def split: option.splits)

lemma row_locked: "locked_row k db = (db', r) \<Longrightarrow> throttle_row db' k' = (if k' = k then Some r else throttle_row db k')"
  using row_locked_row [of k db k'] by simp

lemma count_attempt_key: "throttle_key (fst (count_attempt now limit window lockout inc r)) = throttle_key r"
  by (simp add: count_attempt_def Let_def reset_window_def throttle_key_def)

definition attempted :: "time \<Rightarrow> int \<Rightarrow> int \<Rightarrow> int \<Rightarrow> bool \<Rightarrow> auth_throttle \<Rightarrow> auth_throttle \<times> bool" where
  \<comment> \<open>the row after an attempt, and whether it passed\<close>
  "attempted now limit window lockout inc r = (if is_locked now r then (r, False)
     else case count_attempt now limit window lockout inc r of (r', blocked) \<Rightarrow> (r', \<not> blocked))"

lemma record_attempt_row:
  assumes "record_attempt now k limit window lockout e inc db = (db', err)"
  shows "throttle_row db' k' = (if k' = k then Some (fst (attempted now limit window lockout inc (snd (locked_row k db)))) else throttle_row db k')"
    and "err = None \<longleftrightarrow> snd (attempted now limit window lockout inc (snd (locked_row k db)))"
proof -
  obtain db0 r where l: "locked_row k db = (db0, r)" by (rule prod.exhaust)
  obtain r' blocked where c: "count_attempt now limit window lockout inc r = (r', blocked)" by (rule prod.exhaust)
  have key: "throttle_key r' = k" using count_attempt_key [of now limit window lockout inc r] c locked_row_key [of k db] l by simp
  have set: "throttle_row (set_throttle k (\<lambda>_. r') db0) k' = (if k' = k then Some r' else throttle_row db k')"
    by (subst row_set_throttle) (simp_all add: key row_locked [OF l])
  show "throttle_row db' k' = (if k' = k then Some (fst (attempted now limit window lockout inc (snd (locked_row k db)))) else throttle_row db k')"
    and "err = None \<longleftrightarrow> snd (attempted now limit window lockout inc (snd (locked_row k db)))"
    using assms set row_locked [OF l, of k'] by (auto simp: record_attempt_def attempted_def l c split: if_splits)
qed

subsection \<open>The attempts left\<close>

text \<open>How many attempts may still pass up to a window after \<open>a\<close>: those left in a window that began
  since \<open>a\<close>; otherwise also those of the one window that may still begin.\<close>

definition attempts_left :: "time \<Rightarrow> int \<Rightarrow> auth_throttle option \<Rightarrow> int" where
  "attempts_left a limit row = (case row of
     None \<Rightarrow> 2 * limit
   | Some r \<Rightarrow> (case ath_window_started_at r of
       None \<Rightarrow> 2 * limit
     | Some s \<Rightarrow> (if a \<le> s then 0 else limit) + max 0 (limit - ath_attempt_count r)))"

definition counts_ok :: "db \<Rightarrow> bool" where
  "counts_ok db \<longleftrightarrow> list_all (\<lambda>r. 0 \<le> ath_attempt_count r) (t_rows (tb_auth_throttles db))"

lemma attempts_left_locked: "attempts_left a limit (Some (snd (locked_row k db))) = attempts_left a limit (throttle_row db k)"
  by (simp add: locked_row_def attempts_left_def new_throttle_def split: option.split)

lemma attempts_left_step:
  assumes "1 \<le> limit" "a \<le> now" "now \<le> a + seconds window" "attempted now limit window lockout True r = (r', passed)"
  shows "attempts_left a limit (Some r') + (if passed then 1 else 0) \<le> attempts_left a limit (Some r)"
proof (cases "is_locked now r")
  case True
  with assms(4) show ?thesis by (simp add: attempted_def)
next
  case False
  define r1 where "r1 = reset_window now (seconds window) r"
  have c: "ath_attempt_count r' = ath_attempt_count r1 + 1" "ath_window_started_at r' = ath_window_started_at r1" "passed \<longleftrightarrow> ath_attempt_count r1 + 1 \<le> limit"
    using assms(4) False by (auto simp: attempted_def count_attempt_def Let_def r1_def split: if_splits)
  show ?thesis
  proof (cases "ath_window_started_at r")
    case None
    then have "ath_attempt_count r1 = 0" "ath_window_started_at r1 = Some now" by (simp_all add: r1_def reset_window_def)
    with None c assms(1,2) show ?thesis by (simp add: attempts_left_def)
  next
    case (Some s)
    show ?thesis
    proof (cases "seconds window < now - s")
      case True
      then have "ath_attempt_count r1 = 0" "ath_window_started_at r1 = Some now" by (simp_all add: r1_def reset_window_def Some)
      moreover have "\<not> a \<le> s" using True assms(3) by simp
      ultimately show ?thesis using Some c assms(1,2) by (simp add: attempts_left_def)
    next
      case False
      then have "r1 = r" by (simp add: r1_def reset_window_def Some)
      with Some c show ?thesis by (simp add: attempts_left_def)
    qed
  qed
qed

definition count_ok :: "auth_throttle option \<Rightarrow> bool" where
  "count_ok row \<longleftrightarrow> (case row of None \<Rightarrow> True | Some r \<Rightarrow> 0 \<le> ath_attempt_count r)"

lemma count_ok_locked: "count_ok (throttle_row db k) \<Longrightarrow> count_ok (Some (snd (locked_row k db)))"
  by (simp add: count_ok_def locked_row_def new_throttle_def split: option.splits)

lemma count_ok_attempted: "count_ok (Some r) \<Longrightarrow> count_ok (Some (fst (attempted now limit window lockout inc r)))"
  by (auto simp: count_ok_def attempted_def count_attempt_def reset_window_def Let_def)

lemma attempts_left_bounds: "1 \<le> limit \<Longrightarrow> 0 \<le> attempts_left a limit row" "1 \<le> limit \<Longrightarrow> count_ok row \<Longrightarrow> attempts_left a limit row \<le> 2 * limit"
  by (auto simp: attempts_left_def count_ok_def split: option.splits)

abbreviation ip_key :: "string \<Rightarrow> throttle_key" where "ip_key ip \<equiv> (SCOPE_LOGIN_IP, ip)"

lemma scopes: "SCOPE_LOGIN_IP \<noteq> SCOPE_LOGIN_USER" "SCOPE_LOGIN_IP \<noteq> SCOPE_CHALLENGE_AGENT" "SCOPE_LOGIN_IP \<noteq> SCOPE_CHALLENGE_IP"
  by (simp_all add: SCOPE_LOGIN_USER_def SCOPE_LOGIN_IP_def SCOPE_CHALLENGE_AGENT_def SCOPE_CHALLENGE_IP_def)

lemma other_step_row:
  assumes "throttle_step cfg now op db = (db', err)" and "\<not> login_from ip op"
  shows "throttle_row db' (ip_key ip) = throttle_row db (ip_key ip)"
proof (cases op)
  case (Login_Attempt name src)
  obtain db1 e1 where one: "record_attempt now (ip_key (or_unknown src)) (max 1 (tc_login_ip_limit cfg)) (tc_login_ip_window_seconds cfg)
      (tc_login_lockout_seconds cfg) LOGIN_RATE True db = (db1, e1)" by (rule prod.exhaust)
  have "throttle_row db1 (ip_key ip) = throttle_row db (ip_key ip)"
    using record_attempt_row(1) [OF one, of "ip_key ip"] assms(2) Login_Attempt by (simp add: login_from_def)
  moreover have "db' = db1 \<or> db' = fst (locked_row (SCOPE_LOGIN_USER, login_name name) db1)"
    using assms(1) one Login_Attempt by (auto simp: throttle_step_def assert_login_allowed_def split: option.splits prod.splits)
  ultimately show ?thesis by (auto simp: row_locked_row scopes)
next
  case (Login_Failure name)
  then show ?thesis using assms(1) by (auto simp: throttle_step_def record_login_failure_def scopes dest!: record_attempt_row(1) [where k' = "ip_key ip"])
next
  case (Login_Success name)
  then have db': "db' = record_login_success now name db" using assms(1) by (simp add: throttle_step_def)
  show ?thesis unfolding db' record_login_success_def Let_def
    by (subst row_set_throttle) (simp_all add: throttle_key_def row_locked_row scopes)
next
  case (Challenge_Attempt uuid src)
  obtain db1 e1 where one: "record_attempt now (SCOPE_CHALLENGE_IP, or_unknown src) (max 1 (tc_agent_challenge_ip_limit cfg))
      (tc_agent_challenge_window_seconds cfg) (tc_login_lockout_seconds cfg) CHALLENGE_RATE True db = (db1, e1)" by (rule prod.exhaust)
  have "throttle_row db1 (ip_key ip) = throttle_row db (ip_key ip)"
    using record_attempt_row(1) [OF one, of "ip_key ip"] by (simp add: scopes)
  then show ?thesis using assms(1) one Challenge_Attempt
    by (auto simp: throttle_step_def assert_challenge_allowed_def scopes split: option.splits dest!: record_attempt_row(1) [where k' = "ip_key ip"])
qed

lemma login_step_row:
  assumes "throttle_step cfg now op db = (db', err)" and "login_from ip op"
  shows "\<exists>passed. throttle_row db' (ip_key ip) = Some (fst (attempted now (max 1 (tc_login_ip_limit cfg)) (tc_login_ip_window_seconds cfg)
      (tc_login_lockout_seconds cfg) True (snd (locked_row (ip_key ip) db)))) \<and>
    passed = snd (attempted now (max 1 (tc_login_ip_limit cfg)) (tc_login_ip_window_seconds cfg)
      (tc_login_lockout_seconds cfg) True (snd (locked_row (ip_key ip) db))) \<and> (err = None \<longrightarrow> passed)"
proof -
  obtain name src where op: "op = Login_Attempt name src" "or_unknown src = ip"
    using assms(2) by (auto simp: login_from_def split: throttle_op.splits)
  obtain db1 e1 where one: "record_attempt now (ip_key ip) (max 1 (tc_login_ip_limit cfg)) (tc_login_ip_window_seconds cfg)
      (tc_login_lockout_seconds cfg) LOGIN_RATE True db = (db1, e1)" by (rule prod.exhaust)
  have "throttle_row db' (ip_key ip) = throttle_row db1 (ip_key ip) \<and> (err = None \<longrightarrow> e1 = None)"
    using assms(1) one op by (auto simp: throttle_step_def assert_login_allowed_def row_locked scopes split: option.splits prod.splits)
  then show ?thesis using record_attempt_row(1) [OF one, of "ip_key ip"] record_attempt_row(2) [OF one] by auto
qed

lemma admitted_bound:
  fixes cfg :: throttle_config and a :: time and ip :: string
  defines "limit \<equiv> max 1 (tc_login_ip_limit cfg)" and "b \<equiv> a + seconds (tc_login_ip_window_seconds cfg)"
  assumes "sorted (map fst ops)" and "count_ok (throttle_row db (ip_key ip))"
  shows "int (admitted_logins ip a b (throttle_log cfg ops db)) \<le>
    (if list_all (\<lambda>(t, _). a \<le> t) ops then attempts_left a limit (throttle_row db (ip_key ip)) else 2 * limit)"
  using assms(3,4)
proof (induction ops arbitrary: db)
  case Nil
  then show ?case using attempts_left_bounds(1) [of limit a "throttle_row db (ip_key ip)"] by (simp add: admitted_logins_def limit_def)
next
  case (Cons x ops)
  obtain now op where x: "x = (now, op)" by (cases x)
  obtain db' err where step: "throttle_step cfg now op db = (db', err)" by (rule prod.exhaust)
  let ?row = "throttle_row db (ip_key ip)" and ?row' = "throttle_row db' (ip_key ip)"
  let ?rest = "int (admitted_logins ip a b (throttle_log cfg ops db'))"
  have one: "1 \<le> limit" by (simp add: limit_def)
  have ok': "count_ok ?row'"
    using login_step_row [OF step, of ip] other_step_row [OF step, of ip] Cons.prems(2) count_ok_attempted [OF count_ok_locked]
    by (cases "login_from ip op") auto
  have ih: "?rest \<le> (if list_all (\<lambda>(t, _). a \<le> t) ops then attempts_left a limit ?row' else 2 * limit)"
    using Cons.IH [OF _ ok'] Cons.prems(1) x by simp
  have later: "\<forall>y \<in> set ops. now \<le> fst y" using Cons.prems(1) x by auto
  have count: "int (admitted_logins ip a b (throttle_log cfg (x # ops) db)) =
      (if err = None \<and> login_from ip op \<and> a \<le> now \<and> now \<le> b then 1 else 0) + ?rest"
    by (simp add: x step admitted_logins_def)
  show ?case
  proof (cases "a \<le> now")
    case False
    then show ?thesis using count ih attempts_left_bounds(2) [OF one ok', of a] x by (auto split: if_splits)
  next
    case True
    then have all: "list_all (\<lambda>(t, _). a \<le> t) ops" using later by (force simp: list_all_iff)
    have "(if err = None \<and> login_from ip op \<and> a \<le> now \<and> now \<le> b then 1 else 0) + ?rest \<le> attempts_left a limit ?row"
    proof (cases "now \<le> b")
      case in_time: True
      show ?thesis
      proof (cases "login_from ip op")
        case True
        from login_step_row [OF step True] obtain r' passed where
          att: "attempted now limit (tc_login_ip_window_seconds cfg) (tc_login_lockout_seconds cfg) True (snd (locked_row (ip_key ip) db)) = (r', passed)"
          and "?row' = Some r'" "err = None \<longrightarrow> passed" unfolding limit_def by (metis prod.collapse)
        moreover have "attempts_left a limit (Some r') + (if passed then 1 else 0) \<le> attempts_left a limit ?row"
          using attempts_left_step [OF one \<open>a \<le> now\<close> _ att] in_time attempts_left_locked [of a limit "ip_key ip" db] by (simp add: b_def)
        ultimately show ?thesis using ih all by (auto split: if_splits)
      next
        case False
        then show ?thesis using ih all other_step_row [OF step False] by simp
      qed
    next
      case False
      have none: "admitted_logins ip a b (throttle_log cfg ops d) = 0" if "\<forall>y \<in> set ops. b < fst y" for ops d
        using that by (induction ops arbitrary: d) (auto simp: admitted_logins_def split: prod.splits)
      have "?rest = 0" using none [of ops db'] False later by force
      then show ?thesis using False attempts_left_bounds(1) [OF one] by simp
    qed
    then show ?thesis using count all True x by simp
  qed
qed

text \<open>C31: the login throttle of an address works however requests are interleaved. Among any requests
  that count attempts or reset them, for any accounts, addresses and agents, at most twice the limit
  of logins from one address get as far as the password check in an interval as long as the window.\<close>

theorem logins_of_an_address_are_bounded:
  assumes "sorted (map fst ops)" and "list_all (\<lambda>r. 0 \<le> ath_attempt_count r) (t_rows (tb_auth_throttles db))"
  shows "int (admitted_logins ip a (a + seconds (tc_login_ip_window_seconds cfg)) (throttle_log cfg ops db)) \<le> 2 * max 1 (tc_login_ip_limit cfg)"
proof -
  have "count_ok (throttle_row db (ip_key ip))"
    using assms(2) by (auto simp: count_ok_def throttle_row_def list_all_iff split: option.split dest!: t_first_Some)
  from admitted_bound [OF assms(1) this, where a = a and cfg = cfg] attempts_left_bounds(2) [OF _ this, where limit = "max 1 (tc_login_ip_limit cfg)" and a = a]
  show ?thesis by (auto split: if_splits)
qed

subsection \<open>Challenges are used once\<close>

datatype challenge_op =
    Create_Challenge agent string string
  | Consume_Challenge agent string
  | Prune_Challenges nat

definition challenge_step :: "throttle_config \<Rightarrow> time \<Rightarrow> challenge_op \<Rightarrow> db \<Rightarrow> db \<times> (nat \<times> agent_challenge) option" where
  \<comment> \<open>with the agent that passed and the challenge it used\<close>
  "challenge_step cfg now op db = (case op of
     Create_Challenge a nonce ip \<Rightarrow> (fst (create_challenge cfg now a nonce ip db), None)
   | Consume_Challenge a nonce \<Rightarrow> (case consume_challenge now a nonce db of
       (db', Inl e) \<Rightarrow> (db', None) | (db', Inr c) \<Rightarrow> (db', Some (ag_id a, c)))
   | Prune_Challenges n \<Rightarrow> (fst (prune_expired_challenges now n db), None))"

fun uses_log :: "throttle_config \<Rightarrow> (time \<times> challenge_op) list \<Rightarrow> db \<Rightarrow> (time \<times> nat \<times> agent_challenge) list" where
  "uses_log cfg [] db = []"
| "uses_log cfg ((now, op) # ops) db = (case challenge_step cfg now op db of
     (db', None) \<Rightarrow> uses_log cfg ops db'
   | (db', Some (a, c)) \<Rightarrow> (now, a, c) # uses_log cfg ops db')"

definition challenges_ok :: "db \<Rightarrow> bool" where
  "challenges_ok db \<longleftrightarrow> t_wf ach_id (tb_agent_challenges db) \<and> distinct (map ach_nonce (t_rows (tb_agent_challenges db)))"

definition used :: "db \<Rightarrow> string \<Rightarrow> bool" where
  "used db nonce \<longleftrightarrow> t_exists (\<lambda>c. ach_nonce c = nonce \<and> ach_consumed_at c \<noteq> None) (tb_agent_challenges db)"

lemma attempt_challenges: "tb_agent_challenges (fst (record_attempt now k limit window lockout e inc db)) = tb_agent_challenges db"
  by (auto simp: record_attempt_def locked_row_def set_throttle_def split: option.splits prod.splits)

lemma allowed_challenges: "tb_agent_challenges (fst (assert_challenge_allowed cfg now uuid ip db)) = tb_agent_challenges db"
proof -
  let ?attempt = "\<lambda>k limit. record_attempt now k (max 1 limit) (tc_agent_challenge_window_seconds cfg) (tc_login_lockout_seconds cfg) CHALLENGE_RATE True"
  obtain db1 e where one: "?attempt (SCOPE_CHALLENGE_IP, or_unknown ip) (tc_agent_challenge_ip_limit cfg) db = (db1, e)" by (rule prod.exhaust)
  have "tb_agent_challenges db1 = tb_agent_challenges db" using attempt_challenges one by (metis fst_conv)
  then show ?thesis by (cases e) (simp_all add: assert_challenge_allowed_def one attempt_challenges)
qed

lemma pruned:
  "challenges_ok db \<Longrightarrow> challenges_ok (fst (prune_expired_challenges now n db)) \<and> used (fst (prune_expired_challenges now n db)) = used db"
proof -
  assume ok: "challenges_ok db"
  let ?t = "tb_agent_challenges db"
  let ?rows = "take n (sorted_by (\<lambda>c. (ach_expires_at c, ach_id c)) (t_select (expired_challenge now) ?t))"
  have "expired_challenge now c" if "c \<in> set ?rows" for c
    using that by (auto simp: t_select_def dest!: in_set_takeD)
  then have none: "ach_consumed_at c = None" if "c \<in> set ?rows" for c
    using that by (auto simp: expired_challenge_def)
  have rows: "c \<in> set (t_rows ?t)" if "c \<in> set ?rows" for c using that by (auto simp: t_select_def dest!: in_set_takeD)
  have keep: "ach_id c \<notin> set (map ach_id ?rows)" if "c \<in> set (t_rows ?t)" "ach_consumed_at c \<noteq> None" for c
  proof
    assume "ach_id c \<in> set (map ach_id ?rows)"
    then obtain d where d: "d \<in> set ?rows" "ach_id d = ach_id c" by auto
    then have "d = c" using rows [OF d(1)] that(1) ok by (auto simp: challenges_ok_def dest: t_wf_eq)
    with none [OF d(1)] that(2) show False by simp
  qed
  have "challenges_ok (fst (prune_expired_challenges now n db))"
    using ok by (simp add: challenges_ok_def prune_expired_challenges_def Let_def t_wf_delete distinct_map_filter)
  moreover have "used (fst (prune_expired_challenges now n db)) nonce = used db nonce" for nonce
    using keep by (auto simp: used_def t_exists_iff prune_expired_challenges_def Let_def)
  ultimately show ?thesis by blast
qed

lemma challenge_step_ok:
  assumes ok: "challenges_ok db" and step: "challenge_step cfg now op db = (db', r)"
  shows "challenges_ok db' \<and> (\<forall>nonce. used db nonce \<longrightarrow> used db' nonce) \<and>
    (case r of None \<Rightarrow> True | Some (a, c) \<Rightarrow> ach_agent_id c = a \<and> now < ach_expires_at c \<and> \<not> used db (ach_nonce c) \<and> used db' (ach_nonce c))"
proof (cases op)
  case (Create_Challenge a nonce ip)
  obtain db1 e where one: "assert_challenge_allowed cfg now (ag_uuid a) ip db = (db1, e)" by (rule prod.exhaust)
  have same: "tb_agent_challenges db1 = tb_agent_challenges db" using allowed_challenges one by (metis fst_conv)
  then have ok1: "challenges_ok db1" "used db1 = used db" using ok by (simp_all add: challenges_ok_def used_def fun_eq_iff)
  let ?db2 = "fst (prune_expired_challenges now 200 db1)"
  have r: "r = None" using step Create_Challenge by (simp add: challenge_step_def)
  show ?thesis
  proof (cases "e \<noteq> None \<or> t_exists (\<lambda>c. ach_nonce c = nonce) (tb_agent_challenges ?db2)")
    case True
    then have "db' = db1" using step Create_Challenge one by (cases e) (auto simp: challenge_step_def create_challenge_def Let_def)
    with ok1 r show ?thesis by simp
  next
    case False
    then have db': "db' = ?db2\<lparr>tb_agent_challenges := t_insert (new_challenge cfg now a nonce ip) (tb_agent_challenges ?db2)\<rparr>"
      using step Create_Challenge one by (simp add: challenge_step_def create_challenge_def Let_def)
    have "challenges_ok ?db2" "used ?db2 = used db" using pruned [OF ok1(1), of now 200] ok1(2) by simp_all
    then show ?thesis using False r unfolding db'
      by (auto simp: challenges_ok_def used_def t_exists_iff new_challenge_def fun_eq_iff intro!: t_wf_insert)
  qed
next
  case (Consume_Challenge a nonce)
  let ?t = "tb_agent_challenges db"
  let ?hit = "t_first (\<lambda>c. ach_agent_id c = ag_id a \<and> ach_nonce c = nonce \<and> ach_consumed_at c = None) ?t"
  show ?thesis
  proof (cases ?hit)
    case None
    with step Consume_Challenge ok show ?thesis by (simp add: challenge_step_def consume_challenge_def)
  next
    case (Some c)
    then have c: "c \<in> set (t_rows ?t)" "ach_agent_id c = ag_id a" "ach_nonce c = nonce" "ach_consumed_at c = None" by (auto dest: t_first_Some)
    have nonce: "d = c" if "d \<in> set (t_rows ?t)" "ach_nonce d = nonce" for d
      using ok that c(1,3) by (auto simp: challenges_ok_def distinct_map inj_on_def)
    have key: "d = c" if "d \<in> set (t_rows ?t)" "ach_id d = ach_id c" for d
      using ok that c(1) by (auto simp: challenges_ok_def dest: t_wf_eq)
    have fresh: "\<not> used db nonce" using nonce c(4) by (auto simp: used_def t_exists_iff)
    show ?thesis
    proof (cases "ach_expires_at c \<le> now")
      case True
      then have "db' = db\<lparr>tb_agent_challenges := t_delete (\<lambda>d. ach_id d = ach_id c) ?t\<rparr>" "r = None"
        using step Consume_Challenge Some by (auto simp: challenge_step_def consume_challenge_def Let_def)
      moreover have "ach_id d \<noteq> ach_id c" if "d \<in> set (t_rows ?t)" "ach_consumed_at d \<noteq> None" for d using key [OF that(1)] that(2) c(4) by auto
      ultimately show ?thesis using ok by (auto simp: challenges_ok_def used_def t_exists_iff t_wf_delete distinct_map_filter)
    next
      case False
      let ?use = "\<lambda>d. d\<lparr>ach_consumed_at := Some now\<rparr> :: agent_challenge"
      have res: "db' = db\<lparr>tb_agent_challenges := t_modify (\<lambda>d. ach_id d = ach_id c) ?use ?t\<rparr>" "r = Some (ag_id a, ?use c)"
        using step Consume_Challenge Some False by (auto simp: challenge_step_def consume_challenge_def Let_def)
      have keys: "map ach_id (map (\<lambda>d. if ach_id d = ach_id c then ?use d else d) ds) = map ach_id ds"
        "map ach_nonce (map (\<lambda>d. if ach_id d = ach_id c then ?use d else d) ds) = map ach_nonce ds" for ds by simp_all
      have "challenges_ok db'" using ok unfolding res challenges_ok_def t_wf_def
        by (auto simp: list_all_iff simp del: map_map simp add: keys)
      moreover have "used db' n" if u: "used db n" for n
      proof -
        obtain d where d: "d \<in> set (t_rows ?t)" "ach_nonce d = n" "ach_consumed_at d \<noteq> None" using u unfolding used_def t_exists_iff by blast
        then have "ach_id d \<noteq> ach_id c" using key [OF d(1)] c(4) by auto
        with d show ?thesis unfolding res used_def t_exists_iff by (auto intro!: bexI [of _ d] image_eqI [of _ _ d])
      qed
      moreover have "used db' nonce" using c(1,3) unfolding res used_def t_exists_iff by (auto intro!: bexI [of _ "?use c"] image_eqI [of _ _ c])
      ultimately show ?thesis using False c fresh by (simp add: res(2))
    qed
  qed
next
  case (Prune_Challenges n)
  with step pruned [OF ok] show ?thesis by (auto simp: challenge_step_def)
qed

text \<open>C32: a challenge authenticates once. However creations, uses and pruning follow each other, no nonce
  passes twice, and what passes was made for the agent that uses it and has not expired.\<close>

theorem challenges_are_single_use:
  assumes "t_wf ach_id (tb_agent_challenges db)" and "distinct (map ach_nonce (t_rows (tb_agent_challenges db)))"
  shows "distinct (map (\<lambda>(t, a, c). ach_nonce c) (uses_log cfg ops db)) \<and>
    list_all (\<lambda>(t, a, c). ach_agent_id c = a \<and> t < ach_expires_at c) (uses_log cfg ops db)"
proof -
  have "challenges_ok db \<Longrightarrow> distinct (map (\<lambda>(t, a, c). ach_nonce c) (uses_log cfg ops db)) \<and>
    list_all (\<lambda>(t, a, c). ach_agent_id c = a \<and> t < ach_expires_at c \<and> \<not> used db (ach_nonce c)) (uses_log cfg ops db)" for ops db
  proof (induction ops arbitrary: db)
    case (Cons x ops)
    obtain now op where x: "x = (now, op)" by (cases x)
    obtain db' r where step: "challenge_step cfg now op db = (db', r)" by (rule prod.exhaust)
    note s = challenge_step_ok [OF Cons.prems step]
    note ih = Cons.IH [of db']
    show ?case
    proof (cases r)
      case None
      with s ih step x show ?thesis by (auto simp: list_all_iff)
    next
      case (Some ac)
      obtain a c where "ac = (a, c)" by (cases ac)
      with s ih step x Some show ?thesis by (auto simp: list_all_iff)
    qed
  qed simp
  then show ?thesis using assms by (fastforce simp: challenges_ok_def list_all_iff)
qed

subsection \<open>Witnesses\<close>

definition two_logins :: "(time \<times> throttle_op) list" where
  "two_logins = [(0, Login_Attempt ''a'' ''1.2.3.4''), (1, Login_Attempt ''b'' ''1.2.3.4''), (2, Login_Success ''b'')]"

theorem logins_of_an_address_are_bounded_witness:
  \<comment> \<open>a limit of one in a minute: the first login passes, the second does not\<close>
  "throttle_log (default_config\<lparr>tc_login_ip_limit := 1, tc_login_ip_window_seconds := 60\<rparr>) two_logins small_world =
     [(0, Login_Attempt ''a'' ''1.2.3.4'', True), (1, Login_Attempt ''b'' ''1.2.3.4'', False), (2, Login_Success ''b'', True)] \<and>
   int (admitted_logins ''1.2.3.4'' 0 (seconds 60) (throttle_log
     (default_config\<lparr>tc_login_ip_limit := 1, tc_login_ip_window_seconds := 60\<rparr>) two_logins small_world)) \<le> 2"
proof -
  let ?cfg = "default_config\<lparr>tc_login_ip_limit := 1, tc_login_ip_window_seconds := 60\<rparr>"
  have "sorted (map fst two_logins)" "list_all (\<lambda>r. 0 \<le> ath_attempt_count r) (t_rows (tb_auth_throttles small_world))" by code_simp+
  note bound = logins_of_an_address_are_bounded [OF this, of "''1.2.3.4''" 0 ?cfg]
  have "throttle_log ?cfg two_logins small_world =
      [(0, Login_Attempt ''a'' ''1.2.3.4'', True), (1, Login_Attempt ''b'' ''1.2.3.4'', False), (2, Login_Success ''b'', True)]" by code_simp
  with bound show ?thesis by simp
qed

theorem challenges_are_single_use_witness:
  "\<exists>c. uses_log default_config [(0, Create_Challenge sample_agent ''n'' ''1.2.3.4''), (1, Consume_Challenge sample_agent ''n''),
     (2, Consume_Challenge sample_agent ''n'')] small_world = [(1, 5, c)] \<and> ach_nonce c = ''n'' \<and> ach_agent_id c = 5"
proof -
  let ?ops = "[(0, Create_Challenge sample_agent ''n'' ''1.2.3.4''), (1, Consume_Challenge sample_agent ''n''), (2, Consume_Challenge sample_agent ''n'')]"
  have "t_wf ach_id (tb_agent_challenges small_world)" "distinct (map ach_nonce (t_rows (tb_agent_challenges small_world)))" by code_simp+
  note once = challenges_are_single_use [OF this, of default_config ?ops]
  obtain uses where uses: "uses_log default_config ?ops small_world = uses" by simp
  have "case uses_log default_config ?ops small_world of [(t, a, c)] \<Rightarrow> t = 1 \<and> a = 5 \<and> ach_nonce c = ''n'' | _ \<Rightarrow> False" by code_simp
  then obtain c where c: "uses_log default_config ?ops small_world = [(1, 5, c)]" "ach_nonce c = ''n''" unfolding uses by (cases uses; cases "tl uses") (auto split: prod.splits)
  with once show ?thesis by simp
qed

end
