(* ===== verification/Alerts.thy ===== *)
theory Alerts
  imports Policy_Apply Locality Samples
begin

section \<open>Alert routing\<close>

text \<open>
  \<^verbatim>\<open>backend/app/alert_engine.py\<close>, \<^verbatim>\<open>alerts.py\<close> and the alert requests of \<^verbatim>\<open>routers/alerts.py\<close>. A pass of the
  router claims due rows of the queue, evaluates the alerting policies of each event, and either
  records that nobody is notified, folds the event into an open alert with the same key, or opens
  an alert with its deliveries. Primary keys are positive, so \<open>if event.asset_id\<close> is a test for
  \<open>None\<close>. The characters outside ASCII of the texts are their UTF-8 bytes.
\<close>

subsection \<open>Texts and keys\<close>

definition EVENT_TYPE_LABELS :: "(string \<times> string) list" where
  "EVENT_TYPE_LABELS = [
     (EVENT_NEW_ASSET, ''New Asset''),
     (EVENT_ASSET_BECAME_INACTIVE, ''Asset Became Inactive''),
     (EVENT_PREVIOUSLY_INACTIVE_RETURNED, ''Inactive Asset Returned''),
     (EVENT_ASSET_DISPOSITION_CHANGED, ''Asset Disposition Changed''),
     (EVENT_NEW_FINDING, ''New Vulnerability / Finding''),
     (EVENT_VULNERABILITY_RESOLVED, ''Vulnerability Resolved''),
     (EVENT_VULNERABILITY_REOPENED, ''Vulnerability Reopened''),
     (EVENT_TREATMENT_CREATED, ''Finding Treatment Created''),
     (EVENT_TREATMENT_EXPIRED, ''Finding Treatment Expired''),
     (EVENT_SCAN_FAILED, ''Scan Failed''),
     (EVENT_SCAN_MISSED_UNAVAILABLE_AGENT,
        ''Scan Missed '' @ [CHR 0xE2, CHR 0x80, CHR 0x94] @ '' No Available Agent''),
     (EVENT_AGENT_IDENTITY_MISMATCH, ''Agent Identity Mismatch''),
     (EVENT_WAN_TARGET_CHANGED, ''WAN Target Changed''),
     (EVENT_POLICY_CHANGED, ''Policy Changed'')]"

definition event_label :: "string \<Rightarrow> string" where
  "event_label t = (case map_of EVENT_TYPE_LABELS t of Some l \<Rightarrow> l | None \<Rightarrow> t)"

text \<open>\<open>str(v)\<close> of a decoded value; details and actions hold no floats and no containers there.\<close>

fun py_str :: "json \<Rightarrow> string" where
  "py_str JNull = ''None''"
| "py_str (JBool b) = py_bool b"
| "py_str (JInt i) = show_int i"
| "py_str (JStr s) = s"
| "py_str _ = []"

definition webhook_url_from_action :: "json \<Rightarrow> string option" where
  "webhook_url_from_action value =
     (if is_obj value \<and> truthy (jget ''enabled'' value)
      then let url = strip (py_str (jor (jget ''url'' value) (JStr []))) in if url = [] then None else Some url
      else None)"

definition event_details :: "domain_event \<Rightarrow> json" where
  "event_details e = jor (ev_details e) (JObj [])"

definition logical_subject :: "domain_event \<Rightarrow> string \<times> string" where
  "logical_subject e =
     (case ev_asset_finding_id e of Some i \<Rightarrow> (''asset_finding'', show_nat i)
      | None \<Rightarrow> case ev_asset_id e of Some i \<Rightarrow> (''asset'', show_nat i)
      | None \<Rightarrow> case ev_agent_id e of Some i \<Rightarrow> (''agent'', show_nat i)
      | None \<Rightarrow> case ev_scan_job_id e of Some i \<Rightarrow> (''scan_job'', show_nat i)
      | None \<Rightarrow> case ev_treatment_id e of Some i \<Rightarrow> (''treatment'', show_nat i)
      | None \<Rightarrow> case ev_policy_rule_id e of Some i \<Rightarrow> (''policy'', show_nat i)
      | None \<Rightarrow> if truthy (jget ''wan_target_id'' (event_details e))
          then (''wan_target'', py_str (jget ''wan_target_id'' (event_details e)))
          else (''event'', show_nat (ev_id e)))"

type_synonym actions = "(string \<times> json) list"

definition action_value :: "string \<Rightarrow> actions \<Rightarrow> json" where
  "action_value k a = jget k (JObj a)"

definition route_identity :: "actions \<Rightarrow> string" where
  "route_identity a =
     py_str (case map_of a ''email'' of Some v \<Rightarrow> v | None \<Rightarrow> JStr ALERT_EMAIL_OFF) @ '':'' @
     py_bool (truthy (action_value ''dashboard'' a)) @ '':'' @
     (case webhook_url_from_action (action_value ''webhook'' a) of Some u \<Rightarrow> u | None \<Rightarrow> ''off'')"

definition dedupe_key_for :: "domain_event \<Rightarrow> actions \<Rightarrow> string" where
  "dedupe_key_for e a = (let (kind, subject_id) = logical_subject e in
     (case ev_tenant_id e of Some t \<Rightarrow> show_nat t | None \<Rightarrow> ''global'') @ '':'' @ ev_event_type e @ '':'' @
     kind @ '':'' @ subject_id @ '':'' @ route_identity a)"

definition notification_enabled :: "actions \<Rightarrow> app_error + bool" where
  "notification_enabled a = (let email = action_value ''email'' a in
     if \<not> hashable email then Inl (PyError ''TypeError: unhashable type'')
     else Inr (truthy (action_value ''dashboard'' a) \<or> email \<notin> {JNull, JStr ALERT_EMAIL_OFF} \<or>
       webhook_url_from_action (action_value ''webhook'' a) \<noteq> None))"

definition error_text :: "app_error \<Rightarrow> string" where
  \<comment> \<open>\<open>str(exc)\<close>; a \<open>PyError\<close> also names the class of the exception\<close>
  "error_text e = (case e of
       PolicyError detail _ \<Rightarrow> detail
     | AppEvent (DomainEventError detail) \<Rightarrow> detail
     | PyError text \<Rightarrow> drop 2 (dropWhile (\<lambda>c. c \<noteq> CHR '':'') text)
     | HttpError _ detail \<Rightarrow> detail | LanScanInvalid detail \<Rightarrow> detail | ServiceError detail \<Rightarrow> detail)"

definition safe_error :: "string \<Rightarrow> string" where
  "safe_error exc = (let text = words_joined exc in
     if list_ex (\<lambda>needle. contains_str needle (py_lower text))
          [''password'', ''secret'', ''token'', ''authorization'', ''apikey'']
     then ''delivery failed'' else take 400 text)"

definition title_for :: "domain_event \<Rightarrow> string" where
  "title_for e = (let label = event_label (ev_event_type e); details = event_details e;
       name = jor (jget ''display_name'' details) (jor (jget ''agent_name'' details) (jget ''name'' details))
     in if truthy name then label @ '': '' @ py_str name else label)"

definition body_for :: "domain_event \<Rightarrow> string" where
  "body_for e = (let d = event_details e in join_with [CHR 0x0A]
     ([event_label (ev_event_type e)] @
      (if truthy (jget ''reason'' d) then [py_str (jget ''reason'' d)] else []) @
      (if truthy (jget ''previous_disposition'' d) \<and> truthy (jget ''new_disposition'' d)
       then [''Disposition '' @ py_str (jget ''previous_disposition'' d) @ '' '' @ [CHR 0xE2, CHR 0x86, CHR 0x92] @ '' '' @
         py_str (jget ''new_disposition'' d)] else []) @
      (case ev_asset_id e of Some i \<Rightarrow> [''Asset #'' @ show_nat i] | None \<Rightarrow> []) @
      (case ev_agent_id e of Some i \<Rightarrow> [''Agent #'' @ show_nat i] | None \<Rightarrow> []) @
      (if truthy (jget ''source_ip'' d) then [''Source IP: '' @ py_str (jget ''source_ip'' d)] else [])))"

subsection \<open>Contexts of events\<close>

definition event_req_of :: "domain_event \<Rightarrow> event_req" where
  "event_req_of e = event_defaults\<lparr>er_event_type := ev_event_type e, er_tenant_id := ev_tenant_id e,
     er_site_id := ev_site_id e, er_network_id := ev_network_id e, er_asset_id := ev_asset_id e,
     er_asset_finding_id := ev_asset_finding_id e, er_scan_job_id := ev_scan_job_id e,
     er_agent_id := ev_agent_id e, er_treatment_id := ev_treatment_id e,
     er_policy_rule_id := ev_policy_rule_id e\<rparr>"

definition check_event :: "db \<Rightarrow> domain_event \<Rightarrow> app_error + unit" where
  "check_event db e = app_event (assert_event_locality (event_req_of e) (load_event_subjects db (event_req_of e)))"

definition event_context :: "db \<Rightarrow> domain_event \<Rightarrow> policy_context" where
  "event_context db e =
     (let s = load_event_subjects db (event_req_of e);
          asset = es_asset s; finding = es_finding s; treatment = es_treatment s;
          base = (case finding of Some f \<Rightarrow> finding_context db f
            | None \<Rightarrow> map_option (asset_context db no_override) asset);
          vuln = (case finding of Some f \<Rightarrow> t_get vul_id (af_vulnerability_id f) (tb_vulnerabilities db) | None \<Rightarrow> None);
          asset_tags = (case asset of Some a \<Rightarrow> map tag_normalized_name (tags_of db (asset_id a)) | None \<Rightarrow> [])
      in default_context\<lparr>pc_tenant_id := ev_tenant_id e, pc_site_id := ev_site_id e,
           pc_network_id := (if ev_site_id e \<noteq> None then ev_network_id e else None),
           pc_asset_id := ev_asset_id e, pc_asset_finding_id := ev_asset_finding_id e,
           pc_hostname := (case base of Some b \<Rightarrow> pc_hostname b
             | None \<Rightarrow> (case asset of Some a \<Rightarrow> asset_display_name a | None \<Rightarrow> [])),
           pc_tags := (if asset_tags \<noteq> [] then asset_tags else case base of Some b \<Rightarrow> pc_tags b | None \<Rightarrow> []),
           pc_tag_names := (case base of Some b \<Rightarrow> pc_tag_names b | None \<Rightarrow> []),
           pc_criticality := (case asset of Some a \<Rightarrow> asset_criticality a | None \<Rightarrow> ''normal''),
           pc_is_expected := (case asset of Some a \<Rightarrow> asset_is_expected a | None \<Rightarrow> False),
           pc_observed_ports := (case base of Some b \<Rightarrow> pc_observed_ports b | None \<Rightarrow> []),
           pc_severity := (case base of Some b \<Rightarrow> pc_severity b | None \<Rightarrow> None),
           pc_priority := (case finding of Some f \<Rightarrow> af_priority f
             | None \<Rightarrow> (case base of Some b \<Rightarrow> pc_priority b | None \<Rightarrow> None)),
           pc_has_cve := Some (case vuln of Some v \<Rightarrow> str_or (vul_cve_id v) \<noteq> []
             | None \<Rightarrow> (case base of Some b \<Rightarrow> pc_has_cve b = Some True | None \<Rightarrow> False)),
           pc_current_classification := (case asset of Some a \<Rightarrow> asset_classification a | None \<Rightarrow> ''Unknown''),
           pc_current_disposition := (case asset of Some a \<Rightarrow> asset_disposition a | None \<Rightarrow> ''unreviewed''),
           pc_event_type := Some (ev_event_type e), pc_source := Some (ev_source e),
           pc_treatment_state := (case treatment of Some t \<Rightarrow> Some (ft_status t)
             | None \<Rightarrow> (case finding of Some f \<Rightarrow> Some (af_treatment_state f) | None \<Rightarrow> None)),
           pc_domain_event_id := Some (ev_id e)\<rparr>)"

definition contexts_for_events :: "db \<Rightarrow> domain_event list \<Rightarrow> app_error + (nat \<times> policy_context) list" where
  "contexts_for_events db events =
     rfold (\<lambda>e cs. rbind (check_event db e) (\<lambda>_. Inr (cs @ [(ev_id e, event_context db e)]))) events []"

definition evaluate_event_alert_policy :: "db \<Rightarrow> domain_event \<Rightarrow> app_error + json" where
  "evaluate_event_alert_policy db e = rbind (contexts_for_events db [e]) (\<lambda>_.
     rbind (evaluate db (event_context db e) POLICY_CATEGORY_ALERTING) (\<lambda>r. Inr (serialize_evaluation r)))"

subsection \<open>The queue\<close>

definition queue_due :: "time \<Rightarrow> event_alert_queue \<Rightarrow> bool" where
  "queue_due now r \<longleftrightarrow> (eq_status r = ALERT_QUEUE_PENDING \<and> eq_next_attempt_at r \<le> now) \<or>
     (eq_status r = ALERT_QUEUE_PROCESSING \<and> eq_updated_at r \<le> now - ALERT_QUEUE_LEASE_SECONDS * second)"

definition taken_item :: "time \<Rightarrow> event_alert_queue \<Rightarrow> event_alert_queue" where
  "taken_item now r = r\<lparr>eq_status := ALERT_QUEUE_PROCESSING, eq_updated_at := now, eq_attempts := eq_attempts r + 1\<rparr>"

definition due_items :: "time \<Rightarrow> nat \<Rightarrow> db \<Rightarrow> nat list" where
  "due_items now limit db = map eq_id (take limit (sorted_by eq_id (t_select (queue_due now) (tb_event_alert_queue db))))"

definition claim_queue :: "time \<Rightarrow> nat \<Rightarrow> db \<Rightarrow> db \<times> event_alert_queue list" where
  "claim_queue now limit db =
     (let ids = due_items now limit db;
          q = t_modify (\<lambda>r. eq_id r \<in> set ids) (taken_item now) (tb_event_alert_queue db)
      in (db\<lparr>tb_event_alert_queue := q\<rparr>, sorted_by eq_id (t_select (\<lambda>r. eq_id r \<in> set ids) q)))"

subsection \<open>Deliveries and routes of an event\<close>

definition admin_emails :: "db \<Rightarrow> string list" where
  "admin_emails db = filter (\<lambda>m. m \<noteq> []) (map u_email
     (t_select (\<lambda>u. u_role u = ''admin'' \<and> u_is_active u) (tb_users db)))"

definition staff_emails :: "db \<Rightarrow> string list" where
  "staff_emails db = filter (\<lambda>m. m \<noteq> []) (map u_email
     (t_select (\<lambda>u. u_role u \<in> {''admin'', ''user''} \<and> u_is_active u) (tb_users db)))"

definition safe_webhook_payload :: "domain_event \<Rightarrow> alert \<Rightarrow> json" where
  "safe_webhook_payload e a = JObj [(''alert_id'', jnat (al_id a)), (''domain_event_id'', jnat (ev_id e)),
     (''event_type'', JStr (ev_event_type e)), (''occurred_at'', JStr (isoformat (ev_occurred_at e))),
     (''tenant_id'', jopt jnat (ev_tenant_id e)), (''site_id'', jopt jnat (ev_site_id e)),
     (''network_id'', jopt jnat (ev_network_id e)), (''asset_id'', jopt jnat (ev_asset_id e)),
     (''asset_finding_id'', jopt jnat (ev_asset_finding_id e)), (''scan_job_id'', jopt jnat (ev_scan_job_id e)),
     (''agent_id'', jopt jnat (ev_agent_id e)), (''severity'', jopt JStr (al_severity a)),
     (''title'', JStr (al_title a)), (''occurrence_count'', JInt (al_occurrence_count a))]"

definition new_delivery :: "time \<Rightarrow> nat \<Rightarrow> string \<Rightarrow> string \<Rightarrow> json \<Rightarrow> nat \<Rightarrow> alert_delivery" where
  "new_delivery now alert_id channel destination payload i = \<lparr>adl_id = i, adl_alert_id = alert_id,
     adl_channel = channel, adl_destination = destination, adl_status = DELIVERY_PENDING, adl_attempt_count = 0,
     adl_next_attempt_at = now, adl_last_attempt_at = None, adl_delivered_at = None, adl_last_error = None,
     adl_response_status = None, adl_payload_snapshot = payload, adl_created_at = now, adl_updated_at = now\<rparr>"

definition add_delivery :: "time \<Rightarrow> nat \<Rightarrow> string \<Rightarrow> string \<Rightarrow> json \<Rightarrow> alert_delivery tbl \<Rightarrow> alert_delivery tbl" where
  "add_delivery now alert_id channel destination payload t =
     (if t_exists (\<lambda>d. adl_alert_id d = alert_id \<and> adl_channel d = channel) t then t
      else t_insert (new_delivery now alert_id channel destination payload) t)"

definition enqueue_deliveries :: "time \<Rightarrow> alert \<Rightarrow> domain_event \<Rightarrow> actions \<Rightarrow> db \<Rightarrow> db" where
  "enqueue_deliveries now a e acts db =
     (let mode = action_value ''email'' acts;
          recipients = (if mode = JStr ALERT_EMAIL_ADMINS then admin_emails db else staff_emails db);
          email_payload = JObj [(''alert_id'', jnat (al_id a)), (''domain_event_id'', jnat (ev_id e)),
            (''event_type'', JStr (ev_event_type e)), (''title'', JStr (al_title a)), (''mode'', mode)];
          mails = (if mode \<in> {JStr ALERT_EMAIL_STAFF, JStr ALERT_EMAIL_ADMINS}
            then add_delivery now (al_id a) DELIVERY_CHANNEL_EMAIL (join_with '','' recipients) email_payload
              (tb_alert_deliveries db) else tb_alert_deliveries db);
          hooks = (case webhook_url_from_action (action_value ''webhook'' acts) of
              Some url \<Rightarrow> add_delivery now (al_id a) DELIVERY_CHANNEL_WEBHOOK url (safe_webhook_payload e a) mails
            | None \<Rightarrow> mails)
      in db\<lparr>tb_alert_deliveries := hooks\<rparr>)"

definition new_route :: "time \<Rightarrow> domain_event \<Rightarrow> nat option \<Rightarrow> string \<Rightarrow> actions \<Rightarrow> json \<Rightarrow> nat \<Rightarrow> alert_event_route" where
  "new_route now e alert_id result acts explanation i = \<lparr>aer_id = i, aer_domain_event_id = ev_id e,
     aer_alert_id = alert_id, aer_routing_result = result, aer_effective_actions = JObj acts,
     aer_policy_explanation = explanation, aer_evaluated_at = now\<rparr>"

definition record_route :: "time \<Rightarrow> domain_event \<Rightarrow> nat option \<Rightarrow> string \<Rightarrow> actions \<Rightarrow> json \<Rightarrow> db \<Rightarrow> db" where
  "record_route now e alert_id result acts explanation db =
     db\<lparr>tb_alert_event_routes := put_once aer_domain_event_id (ev_id e)
       (new_route now e alert_id result acts explanation) (tb_alert_event_routes db)\<rparr>"

definition new_alert :: "time \<Rightarrow> domain_event \<Rightarrow> actions \<Rightarrow> json \<Rightarrow> string \<Rightarrow> nat \<Rightarrow> alert" where
  "new_alert now e acts explanation key i = \<lparr>al_id = i, al_tenant_id = ev_tenant_id e,
     al_type = take 40 (ev_event_type e), al_title = title_for e, al_body = body_for e, al_is_acknowledged = False,
     al_device_id = None, al_agent_id = ev_agent_id e, al_created_at = now, al_acknowledged_at = None,
     al_acknowledged_by_id = None, al_domain_event_id = Some (ev_id e), al_last_domain_event_id = Some (ev_id e),
     al_severity = Some (py_str (jor (action_value ''severity'' acts) (JStr ALERT_SEVERITY_HIGH))),
     al_site_id = ev_site_id e, al_network_id = ev_network_id e, al_asset_id = ev_asset_id e,
     al_asset_finding_id = ev_asset_finding_id e, al_scan_job_id = ev_scan_job_id e,
     al_policy_explanation = Some explanation, al_dashboard_visible = truthy (action_value ''dashboard'' acts),
     al_dedupe_key = Some key, al_occurrence_count = 1, al_first_event_at = Some (ev_occurred_at e),
     al_last_event_at = Some (ev_occurred_at e)\<rparr>"

definition coalesced :: "domain_event \<Rightarrow> alert \<Rightarrow> alert" where
  \<comment> \<open>\<open>int(existing.occurrence_count or 1) + 1\<close>\<close>
  "coalesced e a = a\<lparr>al_occurrence_count := (if al_occurrence_count a = 0 then 1 else al_occurrence_count a) + 1,
     al_last_event_at := Some (ev_occurred_at e), al_last_domain_event_id := Some (ev_id e)\<rparr>"

subsection \<open>A pass of the router\<close>

text \<open>
  The session does not flush before it queries: changes of alert objects become visible to the
  query for an open alert only at the next flush, which the insertion of an alert causes. So a pass
  carries the database as flushed, \<open>rt_db\<close>, and the alerts as its objects show them, \<open>rt_alerts\<close>.
  The other pending rows are not queried again in a pass and go into \<open>rt_db\<close> at once.
\<close>

record routing =
  rt_db :: db
  rt_alerts :: "alert tbl"
  rt_processed :: nat

definition open_alert_for_dedupe :: "time \<Rightarrow> nat option \<Rightarrow> string \<Rightarrow> int \<Rightarrow> routing \<Rightarrow> alert option" where
  "open_alert_for_dedupe now tenant_id key window_minutes s =
     (if window_minutes \<le> 0 then None
      else let cutoff = now - window_minutes * minute;
               hits = t_select (\<lambda>a. al_dedupe_key a = Some key \<and> \<not> al_is_acknowledged a \<and> al_tenant_id a = tenant_id \<and>
                 (case al_last_event_at a of None \<Rightarrow> False | Some t \<Rightarrow> cutoff \<le> t)) (tb_alerts (rt_db s))
           in case sorted_by al_id hits of [] \<Rightarrow> None | a # _ \<Rightarrow> t_get al_id (al_id a) (rt_alerts s))"

definition set_item :: "nat \<Rightarrow> (event_alert_queue \<Rightarrow> event_alert_queue) \<Rightarrow> routing \<Rightarrow> routing" where
  "set_item i f s = s\<lparr>rt_db := (rt_db s)\<lparr>tb_event_alert_queue := t_modify (\<lambda>r. eq_id r = i) f (tb_event_alert_queue (rt_db s))\<rparr>\<rparr>"

definition failed_item :: "time \<Rightarrow> string \<Rightarrow> event_alert_queue \<Rightarrow> event_alert_queue" where
  "failed_item now err r = r\<lparr>eq_status := ALERT_QUEUE_FAILED, eq_last_error := Some err, eq_updated_at := now\<rparr>"

definition processed_item :: "time \<Rightarrow> event_alert_queue \<Rightarrow> event_alert_queue" where
  "processed_item now r = r\<lparr>eq_status := ALERT_QUEUE_PROCESSED, eq_processed_at := Some now, eq_updated_at := now\<rparr>"

definition finish_item :: "time \<Rightarrow> nat \<Rightarrow> routing \<Rightarrow> routing" where
  "finish_item now i s = (set_item i (processed_item now) s)\<lparr>rt_processed := Suc (rt_processed s)\<rparr>"

definition BACKOFF_SECONDS :: "int list" where "BACKOFF_SECONDS = [0, 60, 300, 900, 3600]"

definition backoff :: "int \<Rightarrow> time" where
  "backoff attempts = BACKOFF_SECONDS ! nat (min attempts (int (length BACKOFF_SECONDS) - 1)) * second"

definition retried_item :: "time \<Rightarrow> string \<Rightarrow> event_alert_queue \<Rightarrow> event_alert_queue" where
  "retried_item now err r = r\<lparr>eq_status := (if eq_attempts r < MAX_DELIVERY_ATTEMPTS then ALERT_QUEUE_PENDING else ALERT_QUEUE_FAILED),
     eq_last_error := Some err, eq_next_attempt_at := now + backoff (eq_attempts r), eq_updated_at := now\<rparr>"

definition route_alert :: "time \<Rightarrow> nat \<Rightarrow> domain_event \<Rightarrow> actions \<Rightarrow> json \<Rightarrow> int \<Rightarrow> routing \<Rightarrow> routing" where
  \<comment> \<open>the part of the loop body after \<open>notification_enabled\<close>\<close>
  "route_alert now i e acts explanation suppress s =
     (let key = dedupe_key_for e acts in
      case open_alert_for_dedupe now (ev_tenant_id e) key suppress s of
        Some a \<Rightarrow> finish_item now i (s\<lparr>rt_alerts := t_modify (\<lambda>x. al_id x = al_id a) (coalesced e) (rt_alerts s),
          rt_db := record_route now e (Some (al_id a)) ROUTING_ALERT_COALESCED acts explanation (rt_db s)\<rparr>)
      | None \<Rightarrow>
          let alerts = t_insert (new_alert now e acts explanation key) (rt_alerts s);
              a = new_alert now e acts explanation key (t_next (rt_alerts s));
              db1 = enqueue_deliveries now a e acts ((rt_db s)\<lparr>tb_alerts := alerts\<rparr>)
          in finish_item now i (s\<lparr>rt_alerts := alerts,
               rt_db := record_route now e (Some (al_id a)) ROUTING_ALERT_CREATED acts explanation db1\<rparr>))"

definition route_event :: "time \<Rightarrow> (nat \<times> policy_context) list \<Rightarrow> nat \<Rightarrow> domain_event \<Rightarrow> routing \<Rightarrow> app_error + routing" where
  "route_event now contexts i e s =
     (case map_of contexts (ev_id e) of None \<Rightarrow> Inl (PyError (''KeyError: '' @ show_nat (ev_id e)))
      | Some context \<Rightarrow> rbind (evaluate (rt_db s) context POLICY_CATEGORY_ALERTING) (\<lambda>evaluation.
          let explanation = serialize_evaluation evaluation; acts = res_effective evaluation in
          rbind (notification_enabled acts) (\<lambda>enabled.
            if \<not> enabled then Inr (finish_item now i
              (s\<lparr>rt_db := record_route now e None ROUTING_NO_NOTIFICATION acts explanation (rt_db s)\<rparr>))
            else case json_int (jor (action_value ''suppress_for_minutes'' acts) (JInt 0)) of
                None \<Rightarrow> Inl (PyError ''ValueError: invalid literal for int() with base 10'')
              | Some suppress \<Rightarrow> Inr (route_alert now i e acts explanation suppress s))))"

definition route_item :: "time \<Rightarrow> nat list \<Rightarrow> (nat \<times> policy_context) list \<Rightarrow> event_alert_queue \<Rightarrow> routing \<Rightarrow> routing" where
  \<comment> \<open>one round of the loop, with its exception handler\<close>
  "route_item now already contexts item s =
     (if eq_attempts item > MAX_DELIVERY_ATTEMPTS
      then set_item (eq_id item) (failed_item now ''max routing attempts exceeded'') s
      else case t_get ev_id (eq_domain_event_id item) (tb_domain_events (rt_db s)) of
        None \<Rightarrow> set_item (eq_id item) (failed_item now ''missing domain event'') s
      | Some e \<Rightarrow> if ev_id e \<in> set already then finish_item now (eq_id item) s
          else case route_event now contexts (eq_id item) e s of
            Inr s' \<Rightarrow> s'
          | Inl exc \<Rightarrow> set_item (eq_id item) (retried_item now (safe_error (error_text exc))) s)"

definition route_pending_events :: "time \<Rightarrow> nat \<Rightarrow> db \<Rightarrow> app_error + (db \<times> nat)" where
  "route_pending_events now limit db =
     (let (db1, claimed) = claim_queue now limit db in
      if claimed = [] then Inr (db1, 0)
      else let events = List.map_filter (\<lambda>r. t_get ev_id (eq_domain_event_id r) (tb_domain_events db1)) claimed;
               already = map aer_domain_event_id (t_select (\<lambda>r. aer_domain_event_id r \<in> set (map ev_id events)) (tb_alert_event_routes db1))
           in rbind (contexts_for_events db1 (filter (\<lambda>e. ev_id e \<notin> set already) events)) (\<lambda>contexts.
             let s = fold (route_item now already contexts) claimed \<lparr>rt_db = db1, rt_alerts = tb_alerts db1, rt_processed = 0\<rparr>
             in Inr ((rt_db s)\<lparr>tb_alerts := rt_alerts s\<rparr>, rt_processed s)))"

definition route_pending_events_job :: "time \<Rightarrow> db \<Rightarrow> db \<times> nat" where
  \<comment> \<open>a pass that raises is rolled back\<close>
  "route_pending_events_job now db = (case route_pending_events now (nat ALERT_ROUTE_BATCH_SIZE) db of
     Inr r \<Rightarrow> r | Inl e \<Rightarrow> (db, 0))"

section \<open>What routing keeps\<close>

text \<open>The tables of the router: every alert of the engine counts the events routed to it, a route names
  an alert that exists, and a processed queue row has its route.\<close>

definition routed :: "alert_event_route tbl \<Rightarrow> nat \<Rightarrow> bool" where
  "routed R e \<longleftrightarrow> t_exists (\<lambda>r. aer_domain_event_id r = e) R"

definition routes_to :: "alert_event_route tbl \<Rightarrow> nat \<Rightarrow> alert_event_route list" where
  "routes_to R i = t_select (\<lambda>r. aer_alert_id r = Some i) R"

definition counts_ok :: "alert_event_route tbl \<Rightarrow> alert \<Rightarrow> bool" where
  "counts_ok R a \<longleftrightarrow> al_dedupe_key a = None \<or>
     (al_occurrence_count a = int (length (routes_to R (al_id a))) \<and> 1 \<le> al_occurrence_count a)"

definition tables_ok :: "alert tbl \<Rightarrow> event_alert_queue tbl \<Rightarrow> alert_event_route tbl \<Rightarrow> bool" where
  "tables_ok A Q R \<longleftrightarrow> t_wf al_id A \<and> t_wf eq_id Q \<and>
     distinct (map eq_domain_event_id (t_rows Q)) \<and> distinct (map aer_domain_event_id (t_rows R)) \<and>
     list_all (counts_ok R) (t_rows A) \<and>
     list_all (\<lambda>r. \<forall>i. aer_alert_id r = Some i \<longrightarrow> t_exists (\<lambda>a. al_id a = i) A) (t_rows R) \<and>
     list_all (\<lambda>q. eq_status q = ALERT_QUEUE_PROCESSED \<longrightarrow> routed R (eq_domain_event_id q)) (t_rows Q)"

definition alerts_ok :: "db \<Rightarrow> bool" where
  "alerts_ok db \<longleftrightarrow> tables_ok (tb_alerts db) (tb_event_alert_queue db) (tb_alert_event_routes db)"

lemma routed_put: "ev_id e = j \<Longrightarrow> routed (put_once aer_domain_event_id j (new_route now e i res acts ex) R) k \<longleftrightarrow> k = j \<or> routed R k"
  by (auto simp: routed_def put_once_def t_exists_iff new_route_def)

text \<open>Rows of the queue change, their key and event do not.\<close>

definition same_item :: "(event_alert_queue \<Rightarrow> event_alert_queue) \<Rightarrow> bool" where
  "same_item f \<longleftrightarrow> (\<forall>r. eq_id (f r) = eq_id r \<and> eq_domain_event_id (f r) = eq_domain_event_id r)"

lemma same_items [simp, intro]:
  "same_item (failed_item now err)" "same_item (processed_item now)" "same_item (retried_item now err)" "same_item (taken_item now)"
  by (simp_all add: same_item_def failed_item_def processed_item_def retried_item_def taken_item_def)

lemma modify_rows_map:
  assumes "\<And>r. k (f r) = k r"
  shows "map k (t_rows (t_modify P f t)) = map k (t_rows t)"
  using assms by simp

lemma tables_ok_queue:
  assumes ok: "tables_ok A Q R" and f: "same_item f"
    and routed: "\<And>q. q \<in> set (t_rows Q) \<Longrightarrow> P q \<Longrightarrow> eq_status (f q) = ALERT_QUEUE_PROCESSED \<Longrightarrow> routed R (eq_domain_event_id q)"
  shows "tables_ok A (t_modify P f Q) R"
proof -
  have "t_wf eq_id (t_modify P f Q)" using ok f by (intro t_wf_modify) (auto simp: same_item_def tables_ok_def)
  moreover have "map eq_domain_event_id (t_rows (t_modify P f Q)) = map eq_domain_event_id (t_rows Q)"
    using f by (intro modify_rows_map) (simp add: same_item_def)
  moreover have "list_all (\<lambda>q. eq_status q = ALERT_QUEUE_PROCESSED \<longrightarrow> routed R (eq_domain_event_id q)) (t_rows (t_modify P f Q))"
    using ok f routed by (auto simp: tables_ok_def list_all_iff same_item_def)
  ultimately show ?thesis using ok by (simp only: tables_ok_def simp_thms)
qed

lemma routes_to_put:
  assumes "\<not> routed R (ev_id e)"
  shows "routes_to (put_once aer_domain_event_id (ev_id e) (new_route now e i res acts ex) R) j =
    routes_to R j @ (if i = Some j then [new_route now e i res acts ex (t_next R)] else [])"
  using assms by (auto simp: routes_to_def routed_def put_once_def t_select_def new_route_def)

lemma tables_ok_route:
  assumes ok: "tables_ok A Q R" and fresh: "\<not> routed R (ev_id e)"
    and A': "t_wf al_id A'" "list_all (counts_ok (put_once aer_domain_event_id (ev_id e) (new_route now e i res acts ex) R)) (t_rows A')"
      "\<And>j. t_exists (\<lambda>a. al_id a = j) A \<Longrightarrow> t_exists (\<lambda>a. al_id a = j) A'"
      "\<And>j. i = Some j \<Longrightarrow> t_exists (\<lambda>a. al_id a = j) A'"
  shows "tables_ok A' Q (put_once aer_domain_event_id (ev_id e) (new_route now e i res acts ex) R)"
proof -
  let ?R = "put_once aer_domain_event_id (ev_id e) (new_route now e i res acts ex) R"
  have R: "?R = t_insert (new_route now e i res acts ex) R"
    using fresh by (simp add: put_once_def routed_def)
  have "distinct (map aer_domain_event_id (t_rows ?R))"
    using ok fresh by (auto simp: R tables_ok_def routed_def t_exists_iff new_route_def)
  moreover have "list_all (\<lambda>r. \<forall>i. aer_alert_id r = Some i \<longrightarrow> t_exists (\<lambda>a. al_id a = i) A') (t_rows ?R)"
    using ok A'(3,4) by (auto simp: R tables_ok_def list_all_iff new_route_def)
  moreover have "list_all (\<lambda>q. eq_status q = ALERT_QUEUE_PROCESSED \<longrightarrow> routed ?R (eq_domain_event_id q)) (t_rows Q)"
    using ok by (auto simp: tables_ok_def list_all_iff routed_put)
  ultimately show ?thesis using ok A'(1,2) by (simp only: tables_ok_def simp_thms)
qed

text \<open>The three ways an event is routed.\<close>

lemma silent_route_ok:
  assumes "tables_ok A Q R" "\<not> routed R (ev_id e)"
  shows "tables_ok A Q (put_once aer_domain_event_id (ev_id e) (new_route now e None res acts ex) R)"
proof (rule tables_ok_route [OF assms])
  show "list_all (counts_ok (put_once aer_domain_event_id (ev_id e) (new_route now e None res acts ex) R)) (t_rows A)"
    using assms(1) by (auto simp: tables_ok_def list_all_iff counts_ok_def routes_to_put [OF assms(2)])
qed (use assms in \<open>auto simp: tables_ok_def\<close>)

lemma coalesced_route_ok:
  assumes ok: "tables_ok A Q R" and fresh: "\<not> routed R (ev_id e)" and a: "t_get al_id i A = Some a"
  shows "tables_ok (t_modify (\<lambda>x. al_id x = i) (coalesced e) A) Q
    (put_once aer_domain_event_id (ev_id e) (new_route now e (Some i) res acts ex) R)"
proof (rule tables_ok_route [OF ok fresh])
  have fields: "al_id (coalesced e x) = al_id x" "al_dedupe_key (coalesced e x) = al_dedupe_key x" for x
    by (simp_all add: coalesced_def)
  have still_there: "t_exists (\<lambda>a. al_id a = j) (t_modify (\<lambda>x. al_id x = i) (coalesced e) A)"
      if there: "t_exists (\<lambda>a. al_id a = j) A" for j
  proof -
    obtain x where "x \<in> set (t_rows A)" "al_id x = j" using there by (auto simp: t_exists_iff)
    then have "(if al_id x = i then coalesced e x else x) \<in> set (t_rows (t_modify (\<lambda>x. al_id x = i) (coalesced e) A))"
      "al_id (if al_id x = i then coalesced e x else x) = j" by (simp_all add: fields)
    then show ?thesis unfolding t_exists_iff by blast
  qed
  show "t_wf al_id (t_modify (\<lambda>x. al_id x = i) (coalesced e) A)"
    using ok fields by (intro t_wf_modify) (auto simp: tables_ok_def)
  have each: "counts_ok (put_once aer_domain_event_id (ev_id e) (new_route now e (Some i) res acts ex) R)
      (if al_id x = i then coalesced e x else x)" if "counts_ok R x" for x
    using that by (auto simp: counts_ok_def routes_to_put [OF fresh] coalesced_def)
  have "list_all (counts_ok R) (t_rows A)" using ok by (simp add: tables_ok_def)
  then show "list_all (counts_ok (put_once aer_domain_event_id (ev_id e) (new_route now e (Some i) res acts ex) R))
      (t_rows (t_modify (\<lambda>x. al_id x = i) (coalesced e) A))"
    unfolding t_rows_modify list.pred_map comp_def by (rule list.pred_mono_strong) (rule each)
  show "t_exists (\<lambda>a. al_id a = j) (t_modify (\<lambda>x. al_id x = i) (coalesced e) A)" if "t_exists (\<lambda>a. al_id a = j) A" for j
    using that by (rule still_there)
  show "t_exists (\<lambda>a. al_id a = j) (t_modify (\<lambda>x. al_id x = i) (coalesced e) A)" if "Some i = Some j" for j
  proof (rule still_there)
    show "t_exists (\<lambda>a. al_id a = j) A" using a that by (auto simp: t_exists_iff dest!: t_get_Some)
  qed
qed

lemma created_route_ok:
  assumes ok: "tables_ok A Q R" and fresh: "\<not> routed R (ev_id e)"
  shows "tables_ok (t_insert (new_alert now e acts ex key) A) Q
    (put_once aer_domain_event_id (ev_id e) (new_route now e (Some (t_next A)) res acts ex) R)"
proof (rule tables_ok_route [OF ok fresh])
  have below: "al_id a < t_next A" if "a \<in> set (t_rows A)" for a
    using ok that by (auto simp: tables_ok_def t_wf_def list_all_iff)
  have none: "routes_to R (t_next A) = []"
    using ok below by (fastforce simp: tables_ok_def routes_to_def t_select_def filter_empty_conv list_all_iff t_exists_iff)
  show "t_wf al_id (t_insert (new_alert now e acts ex key) A)"
    using ok by (intro t_wf_insert) (auto simp: tables_ok_def new_alert_def)
  show "list_all (counts_ok (put_once aer_domain_event_id (ev_id e) (new_route now e (Some (t_next A)) res acts ex) R))
      (t_rows (t_insert (new_alert now e acts ex key) A))"
    using ok below none by (auto simp: tables_ok_def list_all_iff counts_ok_def routes_to_put [OF fresh] new_alert_def)
qed (auto simp: t_exists_iff new_alert_def)

subsection \<open>A pass keeps them\<close>

text \<open>The tables as the session sees them, and what holds of the items a pass has still to handle.\<close>

definition session_ok :: "domain_event tbl \<Rightarrow> nat list \<Rightarrow> event_alert_queue list \<Rightarrow> routing \<Rightarrow> bool" where
  "session_ok D already items s \<longleftrightarrow> tb_domain_events (rt_db s) = D \<and>
     tables_ok (rt_alerts s) (tb_event_alert_queue (rt_db s)) (tb_alert_event_routes (rt_db s)) \<and>
     distinct (map eq_domain_event_id items) \<and>
     (\<forall>x \<in> set items. (\<forall>q \<in> set (t_rows (tb_event_alert_queue (rt_db s))). eq_id q = eq_id x \<longrightarrow> eq_domain_event_id q = eq_domain_event_id x) \<and>
        (t_get ev_id (eq_domain_event_id x) D \<noteq> None \<longrightarrow>
          (routed (tb_alert_event_routes (rt_db s)) (eq_domain_event_id x) \<longleftrightarrow> eq_domain_event_id x \<in> set already)))"

lemma session_okI:
  assumes "session_ok D already (x # items) s" and "tb_domain_events (rt_db s') = tb_domain_events (rt_db s)"
    and "tables_ok (rt_alerts s') (tb_event_alert_queue (rt_db s')) (tb_alert_event_routes (rt_db s'))"
    and "\<And>q'. q' \<in> set (t_rows (tb_event_alert_queue (rt_db s'))) \<Longrightarrow>
      \<exists>q \<in> set (t_rows (tb_event_alert_queue (rt_db s))). eq_id q' = eq_id q \<and> eq_domain_event_id q' = eq_domain_event_id q"
    and "\<And>k. k \<noteq> eq_domain_event_id x \<Longrightarrow> routed (tb_alert_event_routes (rt_db s')) k = routed (tb_alert_event_routes (rt_db s)) k"
  shows "session_ok D already items s'"
proof -
  have "\<forall>q' \<in> set (t_rows (tb_event_alert_queue (rt_db s'))). eq_id q' = eq_id y \<longrightarrow> eq_domain_event_id q' = eq_domain_event_id y"
    if y: "y \<in> set items" for y
  proof (intro ballI impI)
    fix q' assume "q' \<in> set (t_rows (tb_event_alert_queue (rt_db s')))" "eq_id q' = eq_id y"
    with assms(4) obtain q where "q \<in> set (t_rows (tb_event_alert_queue (rt_db s)))" "eq_id q = eq_id y"
      "eq_domain_event_id q' = eq_domain_event_id q" by metis
    then show "eq_domain_event_id q' = eq_domain_event_id y" using assms(1) y by (simp add: session_ok_def)
  qed
  moreover have "eq_domain_event_id y \<noteq> eq_domain_event_id x" if "y \<in> set items" for y
    using imageI [OF that, of eq_domain_event_id] assms(1) by (auto simp: session_ok_def)
  ultimately show ?thesis using assms(1,2,3,5) by (simp add: session_ok_def)
qed

lemma set_item_fields:
  "tb_domain_events (rt_db (set_item i f s)) = tb_domain_events (rt_db s)"
  "rt_alerts (set_item i f s) = rt_alerts s"
  "tb_event_alert_queue (rt_db (set_item i f s)) = t_modify (\<lambda>r. eq_id r = i) f (tb_event_alert_queue (rt_db s))"
  "tb_alert_event_routes (rt_db (set_item i f s)) = tb_alert_event_routes (rt_db s)"
  by (simp_all add: set_item_def)

lemma finish_item_fields:
  "tb_domain_events (rt_db (finish_item now i s)) = tb_domain_events (rt_db s)"
  "rt_alerts (finish_item now i s) = rt_alerts s"
  "tb_event_alert_queue (rt_db (finish_item now i s)) = t_modify (\<lambda>r. eq_id r = i) (processed_item now) (tb_event_alert_queue (rt_db s))"
  "tb_alert_event_routes (rt_db (finish_item now i s)) = tb_alert_event_routes (rt_db s)"
  by (simp_all add: finish_item_def set_item_fields)

lemma same_item_rows:
  assumes "same_item f" "q' \<in> set (t_rows (t_modify P f Q))"
  shows "\<exists>q \<in> set (t_rows Q). eq_id q' = eq_id q \<and> eq_domain_event_id q' = eq_domain_event_id q"
  using assms by (auto simp: same_item_def split: if_splits)

lemma postponed_ok:
  assumes "session_ok D already (x # items) s" "same_item f" "\<And>r. eq_status (f r) \<noteq> ALERT_QUEUE_PROCESSED"
  shows "session_ok D already items (set_item (eq_id x) f s)"
proof (rule session_okI [OF assms(1)])
  show "tables_ok (rt_alerts (set_item (eq_id x) f s)) (tb_event_alert_queue (rt_db (set_item (eq_id x) f s)))
      (tb_alert_event_routes (rt_db (set_item (eq_id x) f s)))"
    unfolding set_item_fields using assms by (intro tables_ok_queue) (auto simp: session_ok_def)
qed (use assms(2) in \<open>auto simp only: set_item_fields intro: same_item_rows\<close>)

lemma finished_ok:
  assumes ok: "session_ok D already (x # items) s"
    and t: "tables_ok (rt_alerts s') (tb_event_alert_queue (rt_db s)) (tb_alert_event_routes (rt_db s'))"
    and d: "tb_domain_events (rt_db s') = tb_domain_events (rt_db s)"
    and q: "tb_event_alert_queue (rt_db s') = tb_event_alert_queue (rt_db s)"
    and r: "routed (tb_alert_event_routes (rt_db s')) (eq_domain_event_id x)"
      "\<And>k. k \<noteq> eq_domain_event_id x \<Longrightarrow> routed (tb_alert_event_routes (rt_db s')) k = routed (tb_alert_event_routes (rt_db s)) k"
  shows "session_ok D already items (finish_item now (eq_id x) s')"
proof (rule session_okI [OF ok])
  have "eq_domain_event_id r = eq_domain_event_id x" if "r \<in> set (t_rows (tb_event_alert_queue (rt_db s)))" "eq_id r = eq_id x" for r
    using ok that by (simp add: session_ok_def)
  then show "tables_ok (rt_alerts (finish_item now (eq_id x) s')) (tb_event_alert_queue (rt_db (finish_item now (eq_id x) s')))
      (tb_alert_event_routes (rt_db (finish_item now (eq_id x) s')))"
    unfolding finish_item_fields q using t r(1) by (intro tables_ok_queue) auto
  show "\<exists>q\<in>set (t_rows (tb_event_alert_queue (rt_db s))). eq_id q' = eq_id q \<and> eq_domain_event_id q' = eq_domain_event_id q"
    if "q' \<in> set (t_rows (tb_event_alert_queue (rt_db (finish_item now (eq_id x) s'))))" for q'
    using that unfolding finish_item_fields q by (rule same_item_rows [rotated]) simp
qed (simp_all add: finish_item_fields d r(2))

lemma enqueue_tables:
  "tb_domain_events (enqueue_deliveries now a e acts db) = tb_domain_events db"
  "tb_alerts (enqueue_deliveries now a e acts db) = tb_alerts db"
  "tb_event_alert_queue (enqueue_deliveries now a e acts db) = tb_event_alert_queue db"
  "tb_alert_event_routes (enqueue_deliveries now a e acts db) = tb_alert_event_routes db"
  by (simp_all add: enqueue_deliveries_def Let_def)

lemma record_tables:
  "tb_domain_events (record_route now e i res acts ex db) = tb_domain_events db"
  "tb_event_alert_queue (record_route now e i res acts ex db) = tb_event_alert_queue db"
  "tb_alert_event_routes (record_route now e i res acts ex db) =
     put_once aer_domain_event_id (ev_id e) (new_route now e i res acts ex) (tb_alert_event_routes db)"
  by (simp_all add: record_route_def)

lemma route_alert_ok:
  assumes ok: "session_ok D already (x # items) s" and found: "t_get ev_id (eq_domain_event_id x) D = Some e"
    and new: "ev_id e \<notin> set already"
  shows "session_ok D already items (route_alert now (eq_id x) e acts ex suppress s)"
proof -
  have e: "ev_id e = eq_domain_event_id x" using found by (auto dest: t_get_Some)
  have t: "tables_ok (rt_alerts s) (tb_event_alert_queue (rt_db s)) (tb_alert_event_routes (rt_db s))"
    and fresh: "\<not> routed (tb_alert_event_routes (rt_db s)) (ev_id e)"
    using ok e new found by (simp_all add: session_ok_def)
  let ?key = "dedupe_key_for e acts"
  show ?thesis
  proof (cases "open_alert_for_dedupe now (ev_tenant_id e) ?key suppress s")
    case (Some a)
    have a: "t_get al_id (al_id a) (rt_alerts s) = Some a"
      using Some by (auto simp: open_alert_for_dedupe_def Let_def split: if_splits list.splits) (metis t_get_Some)
    show ?thesis unfolding route_alert_def Let_def Some option.case
      by (rule finished_ok [OF ok]) (use coalesced_route_ok [OF t fresh a] e in \<open>auto simp: record_tables routed_put\<close>)
  next
    case None
    show ?thesis unfolding route_alert_def Let_def None option.case
      by (rule finished_ok [OF ok])
        (use created_route_ok [OF t fresh] e in \<open>auto simp: record_tables enqueue_tables routed_put new_alert_def\<close>)
  qed
qed

lemma route_item_ok:
  assumes ok: "session_ok D already (x # items) s"
  shows "session_ok D already items (route_item now already contexts x s)"
proof -
  have t: "tables_ok (rt_alerts s) (tb_event_alert_queue (rt_db s)) (tb_alert_event_routes (rt_db s))"
    using ok by (simp add: session_ok_def)
  have failed: "session_ok D already items (set_item (eq_id x) (failed_item now err) s)" for err
    by (rule postponed_ok [OF ok]) (simp_all add: failed_item_def)
  have retried: "session_ok D already items (set_item (eq_id x) (retried_item now err) s)" for err
    by (rule postponed_ok [OF ok]) (simp_all add: retried_item_def)
  show ?thesis
  proof (cases "eq_attempts x > MAX_DELIVERY_ATTEMPTS")
    case True
    with failed show ?thesis by (simp add: route_item_def)
  next
    case False
    note live = False
    show ?thesis
    proof (cases "t_get ev_id (eq_domain_event_id x) (tb_domain_events (rt_db s))")
      case None
      with live failed show ?thesis by (simp add: route_item_def)
    next
      case (Some e)
      then have e: "ev_id e = eq_domain_event_id x" by (auto dest: t_get_Some)
      have found: "t_get ev_id (eq_domain_event_id x) D = Some e" using Some ok by (simp add: session_ok_def)
      show ?thesis
      proof (cases "ev_id e \<in> set already")
        case True
        then have "routed (tb_alert_event_routes (rt_db s)) (eq_domain_event_id x)" using ok e found by (simp add: session_ok_def)
        then have "session_ok D already items (finish_item now (eq_id x) s)" using t by (intro finished_ok [OF ok]) auto
        with live Some True show ?thesis by (simp add: route_item_def)
      next
        case new: False
        show ?thesis
        proof (cases "route_event now contexts (eq_id x) e s")
          case (Inl exc)
          with live Some new retried show ?thesis by (simp add: route_item_def)
        next
          case (Inr s')
          have fresh: "\<not> routed (tb_alert_event_routes (rt_db s)) (ev_id e)" using ok e new found by (simp add: session_ok_def)
          have quiet: "session_ok D already items (finish_item now (eq_id x)
              (s\<lparr>rt_db := record_route now e None res acts ex (rt_db s)\<rparr>))" for res acts ex
            by (rule finished_ok [OF ok]) (use silent_route_ok [OF t fresh] e in \<open>auto simp: record_tables routed_put\<close>)
          have "session_ok D already items s'"
            using Inr quiet route_alert_ok [OF ok found new]
            by (auto simp: route_event_def rbind_Inr_iff Let_def split: option.splits if_splits)
          with live Some new Inr show ?thesis by (simp add: route_item_def)
        qed
      qed
    qed
  qed
qed

lemma route_items_ok:
  "session_ok D already items s \<Longrightarrow> session_ok D already [] (fold (route_item now already contexts) items s)"
  by (induction items arbitrary: s) (auto intro: route_item_ok)

lemma sorted_by_distinct: "distinct (map f (sorted_by k xs)) = distinct (map f xs)"
  by (simp add: sorted_by_def distinct_map)

lemma claim_queue_tables:
  assumes "claim_queue now limit db = (db1, claimed)"
  shows "db1 = db\<lparr>tb_event_alert_queue := t_modify (\<lambda>r. eq_id r \<in> set (due_items now limit db)) (taken_item now) (tb_event_alert_queue db)\<rparr>"
    and "claimed = sorted_by eq_id (t_select (\<lambda>r. eq_id r \<in> set (due_items now limit db)) (tb_event_alert_queue db1))"
  using assms by (auto simp: claim_queue_def Let_def)

lemma route_pending_ok:
  assumes ok: "alerts_ok db" and run: "route_pending_events now limit db = Inr (db', n)"
  shows "alerts_ok db'"
proof -
  obtain db1 claimed where c: "claim_queue now limit db = (db1, claimed)" by (rule prod.exhaust)
  note db1 = claim_queue_tables(1) [OF c] and claimed = claim_queue_tables(2) [OF c]
  have ok1: "alerts_ok db1"
    using tables_ok_queue [OF ok [unfolded alerts_ok_def], of "taken_item now"] by (simp add: alerts_ok_def db1 taken_item_def)
  show ?thesis
  proof (cases "claimed = []")
    case True
    with run c ok1 show ?thesis by (simp add: route_pending_events_def)
  next
    case False
    define already where "already = map aer_domain_event_id (t_select (\<lambda>r. aer_domain_event_id r \<in> set (map ev_id
      (List.map_filter (\<lambda>r. t_get ev_id (eq_domain_event_id r) (tb_domain_events db1)) claimed))) (tb_alert_event_routes db1))"
    define s0 where "s0 = \<lparr>rt_db = db1, rt_alerts = tb_alerts db1, rt_processed = 0\<rparr>"
    obtain contexts where out: "db' = (rt_db (fold (route_item now already contexts) claimed s0))
        \<lparr>tb_alerts := rt_alerts (fold (route_item now already contexts) claimed s0)\<rparr>"
      using run c False by (auto simp: route_pending_events_def rbind_Inr_iff Let_def already_def s0_def)
    have rows: "x \<in> set (t_rows (tb_event_alert_queue db1))" if "x \<in> set claimed" for x
      using that by (auto simp: claimed set_sorted_by t_select_def)
    have "distinct (map eq_domain_event_id (t_select P (tb_event_alert_queue db1)))" for P
      using ok1 by (simp add: alerts_ok_def tables_ok_def t_select_def distinct_map_filter)
    then have "distinct (map eq_domain_event_id claimed)" by (simp only: claimed sorted_by_distinct)
    moreover have "\<forall>q\<in>set (t_rows (tb_event_alert_queue db1)). eq_id q = eq_id x \<longrightarrow> eq_domain_event_id q = eq_domain_event_id x"
      if "x \<in> set claimed" for x
      using t_wf_eq [of eq_id "tb_event_alert_queue db1"] ok1 rows [OF that] by (auto simp: alerts_ok_def tables_ok_def)
    moreover have "routed (tb_alert_event_routes db1) (eq_domain_event_id x) \<longleftrightarrow> eq_domain_event_id x \<in> set already"
      if x: "x \<in> set claimed" and e: "t_get ev_id (eq_domain_event_id x) (tb_domain_events db1) = Some e" for x e
    proof -
      have "ev_id e = eq_domain_event_id x" using e by (auto dest: t_get_Some)
      moreover have "e \<in> set (List.map_filter (\<lambda>r. t_get ev_id (eq_domain_event_id r) (tb_domain_events db1)) claimed)"
        using x e by (force simp: map_filter_def)
      ultimately show ?thesis by (auto simp: already_def routed_def t_exists_iff t_select_def image_iff) metis
    qed
    ultimately have "session_ok (tb_domain_events db1) already claimed s0"
      using ok1 by (auto simp: session_ok_def alerts_ok_def s0_def)
    from route_items_ok [OF this] show ?thesis by (simp add: alerts_ok_def session_ok_def out)
  qed
qed

end
