(* ===== verification/Alert_Delivery.thy ===== *)
theory Alert_Delivery
  imports Alerts
begin

section \<open>Delivering alerts\<close>

text \<open>
  The second half of \<^verbatim>\<open>backend/app/alert_engine.py\<close> with \<^verbatim>\<open>emailer.py\<close>: deliveries are claimed under
  a lease, tried, and retried with a growing delay; and the requests of \<^verbatim>\<open>routers/alerts.py\<close> that
  change alerts. Then the runs of all of them, in any order.
\<close>

subsection \<open>Sending deliveries\<close>

text \<open>
  Mail and HTTP are parameters: the SMTP conversation answers with the text of its exception or
  none, the opener with a status, an error, or nothing in time.
\<close>

datatype mail_outcome =
    Mail_Result bool "string option" bool
  | Mail_Raises string bool

datatype http_answer =
    Http_Response int nat
  | Http_Redirect int
  | Http_Error int
  | Http_Timeout
  | Http_Os_Error string

datatype hook_outcome =
    Hook_Status int
  | Hook_Raises string "int option" bool
  | Hook_Crashes string

record mail_message =
  mm_host :: json
  mm_port :: int
  mm_tls :: bool
  mm_user :: json
  mm_password :: json
  mm_from :: json
  mm_to :: string
  mm_subject :: string
  mm_body :: string

definition deliver_mail :: "(mail_message \<Rightarrow> string option) \<Rightarrow> (string \<Rightarrow> string) \<Rightarrow> db \<Rightarrow> string list \<Rightarrow> string \<Rightarrow> string \<Rightarrow> mail_outcome" where
  "deliver_mail smtp decrypt db to_addrs subject body =
     (let recipients = filter (\<lambda>a. a \<noteq> []) to_addrs; host = jor (setting db ''smtp_host'') (JStr []) in
      if recipients = [] then Mail_Result False (Some ''No email recipients'') True
      else if \<not> truthy host then Mail_Result False (Some ''SMTP not configured'') True
      else case json_int (jor (setting db ''smtp_port'') (JInt 587)) of
        None \<Rightarrow> Mail_Raises ''invalid literal for int() with base 10'' False
      | Some port \<Rightarrow>
          (case smtp \<lparr>mm_host = host, mm_port = port, mm_tls = truthy (setting db ''smtp_tls''),
             mm_user = setting db ''smtp_user'', mm_password = JStr (decrypt (jstr (setting db ''smtp_password''))),
             mm_from = jor (setting db ''smtp_from'') (jor (setting db ''smtp_user'') (JStr ''noreply@localhost'')),
             mm_to = join_with '', '' recipients, mm_subject = subject, mm_body = body\<rparr> of
             None \<Rightarrow> Mail_Result True None False
           | Some err \<Rightarrow> Mail_Raises (take 400 err) False))"

definition WEBHOOK_MAX_BYTES :: nat where "WEBHOOK_MAX_BYTES = 65536"

definition http_failure :: "int \<Rightarrow> hook_outcome" where
  "http_failure code = Hook_Raises (''Webhook HTTP '' @ show_int code) (Some code) (400 \<le> code \<and> code < 500 \<and> code \<noteq> 429)"

definition post_webhook :: "(string \<Rightarrow> json \<Rightarrow> http_answer) \<Rightarrow> string \<Rightarrow> json \<Rightarrow> hook_outcome" where
  "post_webhook opener url payload = (case urlparse url of
       Inl e \<Rightarrow> Hook_Crashes (error_text e)
     | Inr (scheme, netloc) \<Rightarrow>
         if scheme \<notin> {''http'', ''https''} then Hook_Raises ''Webhook URL must use http or https'' None True
         else if url_credentials netloc \<noteq> ([], []) then Hook_Raises ''Webhook URL must not contain credentials'' None True
         else (case opener url payload of
             Http_Redirect code \<Rightarrow> Hook_Raises (''Redirect '' @ show_int code @ '' is not followed'') (Some code) True
           | Http_Response status bytes \<Rightarrow>
               if bytes > WEBHOOK_MAX_BYTES then Hook_Raises ''Webhook response exceeded size limit'' (Some status) True
               else if 200 \<le> status \<and> status < 300 then Hook_Status status
               else http_failure status
           | Http_Error code \<Rightarrow> http_failure code
           | Http_Timeout \<Rightarrow> Hook_Raises ''Webhook timed out'' None False
           | Http_Os_Error text \<Rightarrow> Hook_Raises (safe_error text) None False))"

definition delivery_due :: "time \<Rightarrow> alert_delivery \<Rightarrow> bool" where
  "delivery_due now d = (let cutoff = now - DELIVERY_LEASE_SECONDS * second in
     (adl_status d = DELIVERY_PENDING \<and> adl_next_attempt_at d \<le> now) \<or>
     (adl_status d = DELIVERY_PROCESSING \<and>
       (case adl_last_attempt_at d of Some t \<Rightarrow> t \<le> cutoff | None \<Rightarrow> adl_updated_at d \<le> cutoff)))"

definition taken_delivery :: "time \<Rightarrow> alert_delivery \<Rightarrow> alert_delivery" where
  "taken_delivery now d = d\<lparr>adl_status := DELIVERY_PROCESSING, adl_updated_at := now, adl_last_attempt_at := Some now,
     adl_attempt_count := adl_attempt_count d + 1\<rparr>"

definition due_deliveries :: "time \<Rightarrow> nat \<Rightarrow> db \<Rightarrow> nat list" where
  "due_deliveries now limit db = map adl_id (take limit (sorted_by adl_id (t_select (delivery_due now) (tb_alert_deliveries db))))"

definition claim_deliveries :: "time \<Rightarrow> nat \<Rightarrow> db \<Rightarrow> db \<times> nat list" where
  \<comment> \<open>the claimed rows, by id\<close>
  "claim_deliveries now limit db = (let ids = due_deliveries now limit db in
     (db\<lparr>tb_alert_deliveries := t_modify (\<lambda>d. adl_id d \<in> set ids) (taken_delivery now) (tb_alert_deliveries db)\<rparr>, ids))"

definition finish_delivery :: "time \<Rightarrow> bool \<Rightarrow> string option \<Rightarrow> int option \<Rightarrow> bool \<Rightarrow> alert_delivery \<Rightarrow> alert_delivery" where
  "finish_delivery now success error status_code permanent d =
     (let d1 = d\<lparr>adl_response_status := status_code, adl_last_error := error, adl_updated_at := now, adl_last_attempt_at := Some now\<rparr> in
      if success then d1\<lparr>adl_status := DELIVERY_SENT, adl_delivered_at := Some now\<rparr>
      else if permanent \<or> adl_attempt_count d \<ge> MAX_DELIVERY_ATTEMPTS then d1\<lparr>adl_status := DELIVERY_FAILED\<rparr>
      else d1\<lparr>adl_status := DELIVERY_PENDING, adl_next_attempt_at := now + backoff (adl_attempt_count d)\<rparr>)"

record delivery_io =
  io_mail :: "db \<Rightarrow> string list \<Rightarrow> string \<Rightarrow> string \<Rightarrow> mail_outcome"
  io_hook :: "string \<Rightarrow> json \<Rightarrow> hook_outcome"

definition attempt_delivery :: "delivery_io \<Rightarrow> time \<Rightarrow> db \<Rightarrow> alert_delivery \<Rightarrow> alert_delivery" where
  \<comment> \<open>the call of \<open>mail_send\<close> or \<open>webhook_post\<close> and what becomes of the row\<close>
  "attempt_delivery io now db d =
     (if adl_channel d = DELIVERY_CHANNEL_EMAIL
      then let recipients = filter (\<lambda>m. m \<noteq> []) (map strip (split_on CHR '','' (adl_destination d)));
               alert = t_get al_id (adl_alert_id d) (tb_alerts db);
               title = (case alert of Some a \<Rightarrow> al_title a | None \<Rightarrow> ''Nuclei Dashboard alert'');
               body = (case alert of Some a \<Rightarrow> al_body a | None \<Rightarrow> [])
           in case io_mail io db recipients title body of
                Mail_Result ok error permanent \<Rightarrow>
                  if ok then finish_delivery now True None None False d
                  else finish_delivery now False (Some (if str_or error = [] then ''email failed'' else str_or error)) None permanent d
              | Mail_Raises text permanent \<Rightarrow> finish_delivery now False (Some (safe_error text)) None permanent d
      else case io_hook io (adl_destination d) (jor (adl_payload_snapshot d) (JObj [])) of
          Hook_Status status \<Rightarrow> finish_delivery now True None (Some status) False d
        | Hook_Raises text status permanent \<Rightarrow> finish_delivery now False (Some (safe_error text)) status permanent d
        | Hook_Crashes text \<Rightarrow> finish_delivery now False (Some (safe_error text)) None False d)"

text \<open>A pass over the claimed rows writes each row in a transaction of its own. The log names the
  rows for which mail or HTTP was called, with the status the row got.\<close>

record delivering =
  dl_db :: db
  dl_log :: "(nat \<times> string) list"
  dl_handled :: nat

definition set_delivery :: "nat \<Rightarrow> (alert_delivery \<Rightarrow> alert_delivery) \<Rightarrow> db \<Rightarrow> db" where
  "set_delivery i f db = db\<lparr>tb_alert_deliveries := t_modify (\<lambda>d. adl_id d = i) f (tb_alert_deliveries db)\<rparr>"

definition deliver_row :: "delivery_io \<Rightarrow> time \<Rightarrow> nat \<Rightarrow> delivering \<Rightarrow> delivering" where
  "deliver_row io now i s = (case t_get adl_id i (tb_alert_deliveries (dl_db s)) of
       None \<Rightarrow> s
     | Some d \<Rightarrow>
         if adl_attempt_count d > MAX_DELIVERY_ATTEMPTS
         then s\<lparr>dl_db := set_delivery i (finish_delivery now False (Some ''max delivery attempts exceeded'') None True) (dl_db s),
                dl_handled := Suc (dl_handled s)\<rparr>
         else let d' = attempt_delivery io now (dl_db s) d
              in s\<lparr>dl_db := set_delivery i (attempt_delivery io now (dl_db s)) (dl_db s), dl_log := dl_log s @ [(i, adl_status d')],
                   dl_handled := Suc (dl_handled s)\<rparr>)"

definition process_pending_deliveries :: "delivery_io \<Rightarrow> time \<Rightarrow> nat \<Rightarrow> db \<Rightarrow> delivering" where
  "process_pending_deliveries io now limit db =
     (let (db1, claimed) = claim_deliveries now limit db
      in fold (deliver_row io now) claimed \<lparr>dl_db = db1, dl_log = [], dl_handled = 0\<rparr>)"

definition interrupted_deliveries :: "delivery_io \<Rightarrow> time \<Rightarrow> nat \<Rightarrow> nat \<Rightarrow> db \<Rightarrow> delivering" where
  \<comment> \<open>the process dies after \<open>done\<close> rows, in the next one between the call and the commit\<close>
  "interrupted_deliveries io now limit n db =
     (let (db1, claimed) = claim_deliveries now limit db;
          s = fold (deliver_row io now) (take n claimed) \<lparr>dl_db = db1, dl_log = [], dl_handled = 0\<rparr>
      in case drop n claimed of [] \<Rightarrow> s
         | i # _ \<Rightarrow> s\<lparr>dl_log := dl_log s @ map (\<lambda>(j, _). (j, DELIVERY_PROCESSING)) (drop (length (dl_log s)) (dl_log (deliver_row io now i s)))\<rparr>)"

definition channel_summary :: "db \<Rightarrow> nat \<Rightarrow> string \<Rightarrow> string option" where
  "channel_summary db alert_id channel = map_option adl_status
     (t_first (\<lambda>d. adl_alert_id d = alert_id \<and> adl_channel d = channel) (tb_alert_deliveries db))"

definition delivery_summary_map :: "db \<Rightarrow> nat list \<Rightarrow> (nat \<times> string option \<times> string option \<times> nat) list" where
  \<comment> \<open>email, webhook, failed; an alert has one delivery per channel\<close>
  "delivery_summary_map db alert_ids = map (\<lambda>i. (i, channel_summary db i DELIVERY_CHANNEL_EMAIL,
     channel_summary db i DELIVERY_CHANNEL_WEBHOOK,
     length (t_select (\<lambda>d. adl_alert_id d = i \<and> adl_status d = DELIVERY_FAILED) (tb_alert_deliveries db)))) alert_ids"

subsection \<open>Requests on alerts\<close>

definition create_alert :: "time \<Rightarrow> string \<Rightarrow> string \<Rightarrow> string \<Rightarrow> nat option \<Rightarrow> nat option \<Rightarrow> nat option \<Rightarrow> db \<Rightarrow> db" where
  "create_alert now alert_type title body tenant_id device_id agent_id db = db\<lparr>tb_alerts := t_insert (\<lambda>i. \<lparr>al_id = i,
     al_tenant_id = tenant_id, al_type = alert_type, al_title = title, al_body = body, al_is_acknowledged = False,
     al_device_id = device_id, al_agent_id = agent_id, al_created_at = now, al_acknowledged_at = None,
     al_acknowledged_by_id = None, al_domain_event_id = None, al_last_domain_event_id = None, al_severity = None,
     al_site_id = None, al_network_id = None, al_asset_id = None, al_asset_finding_id = None, al_scan_job_id = None,
     al_policy_explanation = None, al_dashboard_visible = True, al_dedupe_key = None, al_occurrence_count = 1,
     al_first_event_at = None, al_last_event_at = None\<rparr>) (tb_alerts db)\<rparr>"

definition impersonation_alert :: "time \<Rightarrow> agent \<Rightarrow> string \<Rightarrow> string option \<Rightarrow> db \<Rightarrow> event_error + (db \<times> domain_event \<times> bool)" where
  "impersonation_alert now a detail source_ip = emit_agent_identity_mismatch now a detail source_ip"

definition acknowledged :: "time \<Rightarrow> user \<Rightarrow> alert \<Rightarrow> alert" where
  "acknowledged now u a = a\<lparr>al_is_acknowledged := True, al_acknowledged_at := Some now, al_acknowledged_by_id := Some (u_id u)\<rparr>"

definition ack_alert :: "time \<Rightarrow> nat \<Rightarrow> user \<Rightarrow> db \<Rightarrow> app_error + (db \<times> alert)" where
  "ack_alert now i u db = (case t_get al_id i (tb_alerts db) of
       None \<Rightarrow> Inl (HttpError 404 ''Alert not found'')
     | Some a \<Rightarrow> if al_is_acknowledged a then Inr (db, a)
         else let a' = acknowledged now u a;
                  db1 = db\<lparr>tb_alerts := t_modify (\<lambda>x. al_id x = i) (acknowledged now u) (tb_alerts db)\<rparr>
              in Inr (fst (record_audit now \<lparr>ar_actor = Some u, ar_action = ''alert.acknowledged'', ar_object_type = ''alert'',
                   ar_object_id = Some i, ar_tenant_id = al_tenant_id a, ar_site_id = al_site_id a,
                   ar_details = [(''alert_id'', jnat i), (''type'', JStr (al_type a)), (''severity'', jopt JStr (al_severity a))]\<rparr> db1), a'))"

definition ack_all :: "time \<Rightarrow> nat option \<Rightarrow> string option \<Rightarrow> string option \<Rightarrow> user \<Rightarrow> db \<Rightarrow> db \<times> nat" where
  \<comment> \<open>\<open>kind\<close> is \<open>event_type or type\<close>\<close>
  "ack_all now tenant_id severity kind u db =
     (let hit = (\<lambda>a. \<not> al_is_acknowledged a \<and> al_dashboard_visible a \<and>
            (tenant_id \<noteq> None \<longrightarrow> al_tenant_id a = tenant_id) \<and>
            (str_or severity \<noteq> [] \<longrightarrow> al_severity a = severity) \<and> (str_or kind \<noteq> [] \<longrightarrow> Some (al_type a) = kind));
          updated = length (t_select hit (tb_alerts db));
          db1 = db\<lparr>tb_alerts := t_modify hit (acknowledged now u) (tb_alerts db)\<rparr>
      in if updated = 0 then (db1, 0)
         else (fst (record_audit now \<lparr>ar_actor = Some u, ar_action = ''alert.acknowledged_all'', ar_object_type = ''alert'',
           ar_object_id = None, ar_tenant_id = tenant_id, ar_site_id = None,
           ar_details = [(''updated'', jnat updated), (''tenant_id'', jopt jnat tenant_id), (''severity'', jopt JStr severity),
             (''event_type'', jopt JStr kind)]\<rparr> db1), updated))"

section \<open>Runs\<close>

subsection \<open>One delivery\<close>

definition delivery :: "nat \<Rightarrow> db \<Rightarrow> alert_delivery option" where
  "delivery i db = t_get adl_id i (tb_alert_deliveries db)"

definition tries :: "nat \<Rightarrow> (nat \<times> string) list \<Rightarrow> nat" where
  "tries i calls = length (filter (\<lambda>(j, _). j = i) calls)"

lemma tries_simps [simp]: "tries i [] = 0" "tries i (L @ M) = tries i L + tries i M"
    "tries i ((j, st) # L) = (if j = i then 1 else 0) + tries i L"
  by (simp_all add: tries_def)

lemma finish_delivery_fields:
  "adl_id (finish_delivery now ok err code perm d) = adl_id d"
  "adl_attempt_count (finish_delivery now ok err code perm d) = adl_attempt_count d"
  by (simp_all add: finish_delivery_def Let_def)

lemma attempt_delivery_fields:
  "adl_id (attempt_delivery io now db d) = adl_id d"
  "adl_attempt_count (attempt_delivery io now db d) = adl_attempt_count d"
  by (simp_all add: attempt_delivery_def Let_def finish_delivery_fields split: mail_outcome.splits hook_outcome.splits)

lemma delivery_set:
  assumes "\<And>d. adl_id (f d) = adl_id d"
  shows "delivery j (set_delivery i f db) = (if j = i then map_option f (delivery i db) else delivery j db)"
proof -
  have "first_match (\<lambda>r. adl_id r = j) (map (\<lambda>r. if adl_id r = i then f r else r) xs) =
      (if j = i then map_option f (first_match (\<lambda>r. adl_id r = i) xs) else first_match (\<lambda>r. adl_id r = j) xs)" for xs
    using assms by (induction xs) auto
  then show ?thesis by (simp add: delivery_def set_delivery_def t_get_def t_first_def)
qed

lemma deliver_row_step:
  shows "\<exists>L. dl_log (deliver_row io now i s) = dl_log s @ L \<and> (\<forall>j. j \<noteq> i \<longrightarrow> tries j L = 0) \<and>
    (\<forall>j. j \<noteq> i \<longrightarrow> delivery j (dl_db (deliver_row io now i s)) = delivery j (dl_db s)) \<and>
    (case delivery i (dl_db s) of None \<Rightarrow> delivery i (dl_db (deliver_row io now i s)) = None \<and> L = []
     | Some d \<Rightarrow> \<exists>d'. delivery i (dl_db (deliver_row io now i s)) = Some d' \<and> adl_attempt_count d' = adl_attempt_count d \<and>
         L = (if adl_attempt_count d \<le> MAX_DELIVERY_ATTEMPTS then [(i, adl_status d')] else []))"
proof (cases "delivery i (dl_db s)")
  case None
  then have "deliver_row io now i s = s" by (simp add: deliver_row_def delivery_def)
  with None show ?thesis by simp
next
  case (Some d)
  then have d: "t_get adl_id i (tb_alert_deliveries (dl_db s)) = Some d" by (simp add: delivery_def)
  show ?thesis
  proof (cases "adl_attempt_count d > MAX_DELIVERY_ATTEMPTS")
    case True
    then have "deliver_row io now i s = s\<lparr>dl_db := set_delivery i (finish_delivery now False
        (Some ''max delivery attempts exceeded'') None True) (dl_db s), dl_handled := Suc (dl_handled s)\<rparr>"
      using d by (simp add: deliver_row_def)
    with True Some show ?thesis by (simp add: delivery_set finish_delivery_fields)
  next
    case False
    then have "deliver_row io now i s = s\<lparr>dl_db := set_delivery i (attempt_delivery io now (dl_db s)) (dl_db s),
        dl_log := dl_log s @ [(i, adl_status (attempt_delivery io now (dl_db s) d))], dl_handled := Suc (dl_handled s)\<rparr>"
      using d by (simp add: deliver_row_def Let_def)
    with False Some show ?thesis by (simp add: delivery_set attempt_delivery_fields)
  qed
qed

text \<open>What a list of rows becomes: a row outside the list stays, a row in it is tried at most once.\<close>

definition row_after :: "db \<Rightarrow> db \<Rightarrow> (nat \<times> string) list \<Rightarrow> nat \<Rightarrow> bool" where
  "row_after db db' L i \<longleftrightarrow> (case delivery i db of None \<Rightarrow> delivery i db' = None \<and> tries i L = 0
     | Some d \<Rightarrow> \<exists>d'. delivery i db' = Some d' \<and> adl_attempt_count d' = adl_attempt_count d \<and>
         tries i L = (if adl_attempt_count d \<le> MAX_DELIVERY_ATTEMPTS then 1 else 0) \<and>
         (\<forall>st. (i, st) \<in> set L \<longrightarrow> adl_status d' = st))"

lemma deliver_rows:
  assumes "distinct ids"
  shows "\<exists>L. dl_log (fold (deliver_row io now) ids s) = dl_log s @ L \<and>
    (\<forall>i. i \<notin> set ids \<longrightarrow> delivery i (dl_db (fold (deliver_row io now) ids s)) = delivery i (dl_db s) \<and> tries i L = 0) \<and>
    (\<forall>i \<in> set ids. row_after (dl_db s) (dl_db (fold (deliver_row io now) ids s)) L i)"
  using assms
proof (induction ids arbitrary: s)
  case (Cons i ids)
  let ?s = "deliver_row io now i s"
  let ?t = "fold (deliver_row io now) ids ?s"
  obtain L where L: "dl_log ?s = dl_log s @ L" "\<And>j. j \<noteq> i \<Longrightarrow> tries j L = 0"
      "\<And>j. j \<noteq> i \<Longrightarrow> delivery j (dl_db ?s) = delivery j (dl_db s)"
      "case delivery i (dl_db s) of None \<Rightarrow> delivery i (dl_db ?s) = None \<and> L = []
       | Some d \<Rightarrow> \<exists>d'. delivery i (dl_db ?s) = Some d' \<and> adl_attempt_count d' = adl_attempt_count d \<and>
           L = (if adl_attempt_count d \<le> MAX_DELIVERY_ATTEMPTS then [(i, adl_status d')] else [])"
    using deliver_row_step [of io now i s] by blast
  obtain M where M: "dl_log ?t = dl_log ?s @ M"
      "\<And>j. j \<notin> set ids \<Longrightarrow> delivery j (dl_db ?t) = delivery j (dl_db ?s) \<and> tries j M = 0"
      "\<And>j. j \<in> set ids \<Longrightarrow> row_after (dl_db ?s) (dl_db ?t) M j"
    using Cons.IH [of ?s] Cons.prems by auto
  have i: "i \<notin> set ids" using Cons.prems by simp
  have none: "(j, st) \<notin> set N" if "tries j N = 0" for j st N
    using that by (auto simp: tries_def filter_empty_conv)
  have "row_after (dl_db s) (dl_db ?t) (L @ M) i"
    using L(4) M(2) [OF i] none [of i M] by (auto simp: row_after_def split: option.splits if_splits)
  moreover have "row_after (dl_db s) (dl_db ?t) (L @ M) j" if j: "j \<in> set ids" for j
  proof -
    have "j \<noteq> i" using j i by blast
    with M(3) [OF j] L(2,3) [of j] none [of j L] show ?thesis by (auto simp: row_after_def split: option.splits)
  qed
  ultimately show ?case using L(1,2,3) M(1,2) by (intro exI [of _ "L @ M"]) auto
qed simp

subsection \<open>Requests and passes in any order\<close>

text \<open>
  What changes the alert tables, one transaction each: the two passes, a delivery pass that dies
  on its way, emissions, and the requests. \<open>Others\<close> is any change of the other tables.
\<close>

datatype alert_op =
    Route_Events time nat
  | Deliver delivery_io time nat
  | Deliver_Interrupted delivery_io time nat nat
  | Emit time event_req
  | Ack time nat user
  | Ack_All time "nat option" "string option" "string option" user
  | Create_Alert time string string string "nat option" "nat option" "nat option"
  | Others db

definition alert_step :: "alert_op \<Rightarrow> db \<Rightarrow> db \<times> (nat \<times> string) list" where
  \<comment> \<open>the database after it and the calls of mail and HTTP; a request that raises changes nothing\<close>
  "alert_step op db = (case op of
       Route_Events now limit \<Rightarrow> (case route_pending_events now limit db of Inr (db', _) \<Rightarrow> (db', []) | Inl _ \<Rightarrow> (db, []))
     | Deliver io now limit \<Rightarrow> (let s = process_pending_deliveries io now limit db in (dl_db s, dl_log s))
     | Deliver_Interrupted io now limit n \<Rightarrow> (let s = interrupted_deliveries io now limit n db in (dl_db s, dl_log s))
     | Emit now e \<Rightarrow> (case emit_domain_event now e db of Inr (db', _, _) \<Rightarrow> (db', []) | Inl _ \<Rightarrow> (db, []))
     | Ack now i u \<Rightarrow> (case ack_alert now i u db of Inr (db', _) \<Rightarrow> (db', []) | Inl _ \<Rightarrow> (db, []))
     | Ack_All now tenant severity kind u \<Rightarrow> (fst (ack_all now tenant severity kind u db), [])
     | Create_Alert now t title body tenant device agent \<Rightarrow> (create_alert now t title body tenant device agent db, [])
     | Others db' \<Rightarrow> (db'\<lparr>tb_alerts := tb_alerts db, tb_event_alert_queue := tb_event_alert_queue db,
         tb_alert_event_routes := tb_alert_event_routes db, tb_alert_deliveries := tb_alert_deliveries db\<rparr>, []))"

fun alert_run :: "alert_op list \<Rightarrow> db \<Rightarrow> db \<times> (nat \<times> string) list" where
  "alert_run [] db = (db, [])"
| "alert_run (op # ops) db = (let (db1, calls) = alert_step op db; (db2, more) = alert_run ops db1 in (db2, calls @ more))"

subsection \<open>Deliveries over a run\<close>

definition deliveries_ok :: "db \<Rightarrow> bool" where
  "deliveries_ok db \<longleftrightarrow> t_wf adl_id (tb_alert_deliveries db) \<and>
     list_all (\<lambda>d. 0 \<le> adl_attempt_count d) (t_rows (tb_alert_deliveries db))"

definition spent :: "nat \<Rightarrow> db \<Rightarrow> nat" where
  "spent i db = (case delivery i db of None \<Rightarrow> 0 | Some d \<Rightarrow> nat (min MAX_DELIVERY_ATTEMPTS (adl_attempt_count d)))"

definition settled :: "nat \<Rightarrow> db \<Rightarrow> bool" where
  "settled i db \<longleftrightarrow> (\<exists>d. delivery i db = Some d \<and> adl_status d \<in> {DELIVERY_SENT, DELIVERY_FAILED})"

text \<open>The contract of one step for one delivery.\<close>

definition honest :: "db \<Rightarrow> db \<Rightarrow> (nat \<times> string) list \<Rightarrow> nat \<Rightarrow> bool" where
  "honest db db' L i \<longleftrightarrow> tries i L + spent i db \<le> spent i db' \<and>
     (settled i db \<longrightarrow> settled i db' \<and> tries i L = 0) \<and>
     ((i, DELIVERY_SENT) \<in> set L \<longrightarrow> settled i db' \<and> tries i L = 1)"

lemma honest_same: "delivery i db' = delivery i db \<Longrightarrow> honest db db' [] i"
  by (simp add: honest_def spent_def settled_def)

lemma delivery_mem: "delivery i db = Some d \<Longrightarrow> d \<in> set (t_rows (tb_alert_deliveries db)) \<and> adl_id d = i"
  by (auto simp: delivery_def dest: t_get_Some)

definition claimed_db :: "time \<Rightarrow> nat list \<Rightarrow> db \<Rightarrow> db" where
  "claimed_db now ids db = db\<lparr>tb_alert_deliveries := t_modify (\<lambda>d. adl_id d \<in> set ids) (taken_delivery now) (tb_alert_deliveries db)\<rparr>"

lemma taken_delivery_id [simp]: "adl_id (taken_delivery now d) = adl_id d"
  by (simp add: taken_delivery_def)

lemma delivery_claimed:
  "delivery i (claimed_db now ids db) = (if i \<in> set ids then map_option (taken_delivery now) (delivery i db) else delivery i db)"
proof -
  have "first_match (\<lambda>r. adl_id r = i) (map (\<lambda>r. if adl_id r \<in> set ids then taken_delivery now r else r) xs) =
      (if i \<in> set ids then map_option (taken_delivery now) (first_match (\<lambda>r. adl_id r = i) xs)
       else first_match (\<lambda>r. adl_id r = i) xs)" for xs
    by (induction xs) auto
  then show ?thesis by (simp add: delivery_def claimed_db_def t_get_def t_first_def)
qed

lemma due_deliveries_due:
  assumes "t_wf adl_id (tb_alert_deliveries db)" "i \<in> set (due_deliveries now limit db)" "delivery i db = Some d"
  shows "delivery_due now d"
proof -
  obtain x where x: "x \<in> set (t_rows (tb_alert_deliveries db))" "delivery_due now x" "adl_id x = i"
    using assms(2) by (auto simp: due_deliveries_def t_select_def set_sorted_by dest!: in_set_takeD)
  with delivery_mem [OF assms(3)] t_wf_eq [OF assms(1), of x d] show ?thesis by auto
qed

lemma due_deliveries_distinct:
  "t_wf adl_id (tb_alert_deliveries db) \<Longrightarrow> distinct (due_deliveries now limit db)"
  by (simp add: due_deliveries_def t_wf_def take_map [symmetric] sorted_by_distinct t_select_def distinct_map_filter)

text \<open>A claim and the rows handled after it.\<close>

lemma claimed_honest:
  assumes "delivery i db = Some d" "delivery_due now d" "0 \<le> adl_attempt_count d"
    and "delivery i db' = Some d'" "adl_attempt_count d' = adl_attempt_count d + 1"
    and "tries i L \<le> (if adl_attempt_count d + 1 \<le> MAX_DELIVERY_ATTEMPTS then 1 else 0)"
    and "(i, DELIVERY_SENT) \<in> set L \<Longrightarrow> adl_status d' = DELIVERY_SENT"
  shows "honest db db' L i"
proof -
  have "\<not> settled i db" using assms(1,2) by (auto simp: settled_def delivery_due_def)
  moreover have "tries i L + spent i db \<le> spent i db'"
    using assms(1,3-6) by (auto simp: spent_def min_def split: if_splits)
  moreover have "1 \<le> tries i L" if "(i, DELIVERY_SENT) \<in> set L"
    using that by (auto simp: tries_def Suc_le_eq filter_empty_conv)
  ultimately show ?thesis using assms(4,6,7) by (auto simp: honest_def settled_def split: if_splits)
qed

lemma pass_rows:
  assumes ok: "deliveries_ok db" and ids: "ids = due_deliveries now limit db"
    and rows: "set rows \<subseteq> set ids" "distinct rows"
    and s: "s = fold (deliver_row io now) rows \<lparr>dl_db = claimed_db now ids db, dl_log = [], dl_handled = n\<rparr>"
    and d: "i \<in> set ids" "delivery i db = Some d"
  shows "\<exists>d'. delivery i (dl_db s) = Some d' \<and> adl_attempt_count d' = adl_attempt_count d + 1 \<and>
    tries i (dl_log s) \<le> (if i \<in> set rows \<and> adl_attempt_count d + 1 \<le> MAX_DELIVERY_ATTEMPTS then 1 else 0) \<and>
    ((i, DELIVERY_SENT) \<in> set (dl_log s) \<longrightarrow> adl_status d' = DELIVERY_SENT)"
proof -
  let ?s0 = "\<lparr>dl_db = claimed_db now ids db, dl_log = [], dl_handled = n\<rparr>"
  have taken: "delivery i (dl_db ?s0) = Some (taken_delivery now d)" using d by (simp add: delivery_claimed)
  have none: "(i, st) \<notin> set N" if "tries i N = 0" for st N
    using that by (auto simp: tries_def filter_empty_conv)
  from deliver_rows [OF rows(2), of io now ?s0] obtain L where L: "dl_log s = L"
      "i \<notin> set rows \<Longrightarrow> delivery i (dl_db s) = delivery i (dl_db ?s0) \<and> tries i L = 0"
      "i \<in> set rows \<Longrightarrow> row_after (dl_db ?s0) (dl_db s) L i"
    unfolding s by auto
  show ?thesis
  proof (cases "i \<in> set rows")
    case True
    from L(3) [OF this] obtain d' where "delivery i (dl_db s) = Some d'" "adl_attempt_count d' = adl_attempt_count d + 1"
        "tries i L = (if adl_attempt_count d + 1 \<le> MAX_DELIVERY_ATTEMPTS then 1 else 0)"
        "\<forall>st. (i, st) \<in> set L \<longrightarrow> adl_status d' = st"
      unfolding row_after_def taken by (auto simp: taken_delivery_def)
    with L(1) True show ?thesis by auto
  next
    case False
    with L(2) taken none [of L] show ?thesis by (simp add: L(1) taken_delivery_def)
  qed
qed

lemma pass_other_rows:
  assumes "distinct rows" "i \<notin> set ids" "set rows \<subseteq> set ids"
    and s: "s = fold (deliver_row io now) rows \<lparr>dl_db = claimed_db now ids db, dl_log = [], dl_handled = n\<rparr>"
  shows "delivery i (dl_db s) = delivery i db \<and> tries i (dl_log s) = 0"
  using deliver_rows [OF assms(1), of io now "\<lparr>dl_db = claimed_db now ids db, dl_log = [], dl_handled = n\<rparr>"] assms
  by (auto simp: delivery_claimed)

lemma untouched_honest: "delivery i db' = delivery i db \<Longrightarrow> tries i L = 0 \<Longrightarrow> honest db db' L i"
  by (auto simp: honest_def spent_def settled_def tries_def filter_empty_conv)

lemma pass_honest:
  assumes ok: "deliveries_ok db" and run: "process_pending_deliveries io now limit db = s"
  shows "honest db (dl_db s) (dl_log s) i"
proof -
  let ?ids = "due_deliveries now limit db"
  have wf: "t_wf adl_id (tb_alert_deliveries db)" using ok by (simp add: deliveries_ok_def)
  have s: "s = fold (deliver_row io now) ?ids \<lparr>dl_db = claimed_db now ?ids db, dl_log = [], dl_handled = 0\<rparr>"
    using run by (simp add: process_pending_deliveries_def claim_deliveries_def claimed_db_def Let_def)
  note distinct = due_deliveries_distinct [OF wf, of now limit]
  show ?thesis
  proof (cases "i \<in> set ?ids")
    case False
    with pass_other_rows [OF distinct _ _ s] show ?thesis by (intro untouched_honest) auto
  next
    case True
    then obtain d where d: "delivery i db = Some d"
      using t_wf_get [OF wf] by (auto simp: due_deliveries_def t_select_def set_sorted_by delivery_def dest!: in_set_takeD)
    note due = due_deliveries_due [OF wf True d]
    have "0 \<le> adl_attempt_count d" using ok delivery_mem [OF d] by (auto simp: deliveries_ok_def list_all_iff)
    with pass_rows [OF ok refl _ distinct s True d] True show ?thesis
      by (auto intro: claimed_honest [OF d due])
  qed
qed

lemma deliver_row_calls:
  "\<exists>L. dl_log (deliver_row io now k s) = dl_log s @ L \<and>
    (tries i L = 0 \<or> i = k \<and> (\<exists>d. delivery k (dl_db s) = Some d \<and> adl_attempt_count d \<le> MAX_DELIVERY_ATTEMPTS \<and> tries i L = 1))"
proof -
  note step = deliver_row_step [of io now k s]
  show ?thesis
  proof (cases "delivery k (dl_db s)")
    case None
    with step show ?thesis by auto
  next
    case (Some d)
    from step [unfolded Some option.case] have "\<exists>L (d' :: alert_delivery). dl_log (deliver_row io now k s) = dl_log s @ L \<and>
        (\<forall>j. j \<noteq> k \<longrightarrow> tries j L = 0) \<and> L = (if adl_attempt_count d \<le> MAX_DELIVERY_ATTEMPTS then [(k, adl_status d')] else [])"
      by blast
    then obtain L and d' :: alert_delivery where "dl_log (deliver_row io now k s) = dl_log s @ L" "\<forall>j. j \<noteq> k \<longrightarrow> tries j L = 0"
        "L = (if adl_attempt_count d \<le> MAX_DELIVERY_ATTEMPTS then [(k, adl_status d')] else [])" by blast
    then show ?thesis using Some by (intro exI [of _ L]) auto
  qed
qed

lemma interrupted_honest:
  assumes ok: "deliveries_ok db" and run: "interrupted_deliveries io now limit n db = s"
  shows "honest db (dl_db s) (dl_log s) i"
proof -
  let ?ids = "due_deliveries now limit db"
  have wf: "t_wf adl_id (tb_alert_deliveries db)" using ok by (simp add: deliveries_ok_def)
  note distinct = due_deliveries_distinct [OF wf, of now limit]
  define r where "r = fold (deliver_row io now) (take n ?ids) \<lparr>dl_db = claimed_db now ?ids db, dl_log = [], dl_handled = 0\<rparr>"
  have s: "s = (case drop n ?ids of [] \<Rightarrow> r
       | k # _ \<Rightarrow> r\<lparr>dl_log := dl_log r @ map (\<lambda>(j, _). (j, DELIVERY_PROCESSING)) (drop (length (dl_log r)) (dl_log (deliver_row io now k r)))\<rparr>)"
    unfolding run [symmetric] interrupted_deliveries_def claim_deliveries_def claimed_db_def Let_def prod.case r_def by (rule refl)
  have db: "dl_db s = dl_db r" using s by (simp split: list.splits)
  obtain M where M: "dl_log s = dl_log r @ M" "(i, DELIVERY_SENT) \<notin> set M"
      "tries i M = 0 \<or> (i \<in> set ?ids - set (take n ?ids) \<and>
         (\<exists>d. delivery i (dl_db r) = Some d \<and> adl_attempt_count d \<le> MAX_DELIVERY_ATTEMPTS \<and> tries i M = 1))"
  proof (cases "drop n ?ids")
    case Nil
    with s that [of "[]"] show ?thesis by simp
  next
    case (Cons k ks)
    have "distinct (take n ?ids @ k # ks)" "set ?ids = set (take n ?ids @ k # ks)"
      using distinct Cons by (metis append_take_drop_id)+
    then have k: "k \<in> set ?ids - set (take n ?ids)" by auto
    obtain L where L: "dl_log (deliver_row io now k r) = dl_log r @ L"
      "tries i L = 0 \<or> i = k \<and> (\<exists>d. delivery k (dl_db r) = Some d \<and> adl_attempt_count d \<le> MAX_DELIVERY_ATTEMPTS \<and> tries i L = 1)"
      using deliver_row_calls by blast
    let ?M = "map (\<lambda>(j, _). (j, DELIVERY_PROCESSING)) L"
    have "tries i ?M = tries i L" by (simp add: tries_def filter_map comp_def case_prod_unfold)
    with L(2) k have "tries i ?M = 0 \<or> (i \<in> set ?ids - set (take n ?ids) \<and>
         (\<exists>d. delivery i (dl_db r) = Some d \<and> adl_attempt_count d \<le> MAX_DELIVERY_ATTEMPTS \<and> tries i ?M = 1))"
      by auto
    moreover have "(i, DELIVERY_SENT) \<notin> set ?M" by auto
    moreover have "dl_log s = dl_log r @ ?M" using s Cons L(1) by simp
    ultimately show ?thesis using that by blast
  qed
  show ?thesis
  proof (cases "i \<in> set ?ids")
    case False
    with M(3) have "tries i M = 0" by blast
    with False pass_other_rows [where i = i, OF _ _ _ r_def] distinct M(1) db show ?thesis
      by (intro untouched_honest) (auto dest: in_set_takeD)
  next
    case True
    then obtain d where d: "delivery i db = Some d"
      using t_wf_get [OF wf] by (auto simp: due_deliveries_def t_select_def set_sorted_by delivery_def dest!: in_set_takeD)
    note due = due_deliveries_due [OF wf True d]
    have nonneg: "0 \<le> adl_attempt_count d" using ok delivery_mem [OF d] by (auto simp: deliveries_ok_def list_all_iff)
    have "set (take n ?ids) \<subseteq> set ?ids" "distinct (take n ?ids)" using distinct by (auto dest: in_set_takeD)
    from pass_rows [OF ok refl this r_def True d] obtain d' where d': "delivery i (dl_db r) = Some d'"
        "adl_attempt_count d' = adl_attempt_count d + 1"
        "tries i (dl_log r) \<le> (if i \<in> set (take n ?ids) \<and> adl_attempt_count d + 1 \<le> MAX_DELIVERY_ATTEMPTS then 1 else 0)"
        "(i, DELIVERY_SENT) \<in> set (dl_log r) \<longrightarrow> adl_status d' = DELIVERY_SENT"
      by blast
    have "tries i (dl_log s) \<le> (if adl_attempt_count d + 1 \<le> MAX_DELIVERY_ATTEMPTS then 1 else 0)"
      using M(1,3) d'(1-3) by (auto split: if_splits)
    moreover have "adl_status d' = DELIVERY_SENT" if "(i, DELIVERY_SENT) \<in> set (dl_log s)" using that M(1,2) d'(4) by auto
    ultimately show ?thesis using claimed_honest [OF d due nonneg, of "dl_db s" d' "dl_log s"] d'(1,2) db by simp
  qed
qed

text \<open>Every other step keeps the deliveries there are.\<close>

definition deliveries_kept :: "db \<Rightarrow> db \<Rightarrow> bool" where
  "deliveries_kept db db' \<longleftrightarrow> (deliveries_ok db \<longrightarrow> deliveries_ok db') \<and> (\<forall>i d. delivery i db = Some d \<longrightarrow> delivery i db' = Some d)"

lemma kept_honest: "deliveries_kept db db' \<Longrightarrow> honest db db' [] i"
  by (cases "delivery i db") (auto simp: deliveries_kept_def honest_def spent_def settled_def)

lemma kept_same: "tb_alert_deliveries db' = tb_alert_deliveries db \<Longrightarrow> deliveries_kept db db'"
  by (simp add: deliveries_kept_def deliveries_ok_def delivery_def)

lemma kept_trans: "deliveries_kept a b \<Longrightarrow> deliveries_kept b c \<Longrightarrow> deliveries_kept a c"
  by (simp add: deliveries_kept_def)

lemma kept_add:
  assumes "tb_alert_deliveries db' = add_delivery now a c dst pl (tb_alert_deliveries db)"
  shows "deliveries_kept db db'"
proof (cases "t_exists (\<lambda>d. adl_alert_id d = a \<and> adl_channel d = c) (tb_alert_deliveries db)")
  case True
  with assms show ?thesis by (intro kept_same) (simp add: add_delivery_def)
next
  case False
  with assms have t: "tb_alert_deliveries db' = t_insert (new_delivery now a c dst pl) (tb_alert_deliveries db)"
    by (simp add: add_delivery_def)
  then have "deliveries_ok db \<longrightarrow> deliveries_ok db'" by (auto simp: deliveries_ok_def new_delivery_def intro: t_wf_insert)
  moreover have "delivery i db = Some d \<Longrightarrow> delivery i db' = Some d" for i d
    by (simp add: delivery_def t_get_def t t_first_insert)
  ultimately show ?thesis by (simp add: deliveries_kept_def)
qed

lemma enqueue_kept: "deliveries_kept db (enqueue_deliveries now a e acts db)"
proof -
  define mid where "mid = (let mode = action_value ''email'' acts in if mode \<in> {JStr ALERT_EMAIL_STAFF, JStr ALERT_EMAIL_ADMINS}
    then add_delivery now (al_id a) DELIVERY_CHANNEL_EMAIL
      (join_with '','' (if mode = JStr ALERT_EMAIL_ADMINS then admin_emails db else staff_emails db))
      (JObj [(''alert_id'', jnat (al_id a)), (''domain_event_id'', jnat (ev_id e)), (''event_type'', JStr (ev_event_type e)),
        (''title'', JStr (al_title a)), (''mode'', mode)]) (tb_alert_deliveries db)
    else tb_alert_deliveries db)"
  have "deliveries_kept db (db\<lparr>tb_alert_deliveries := mid\<rparr>)"
    unfolding mid_def Let_def by (cases "action_value ''email'' acts \<in> {JStr ALERT_EMAIL_STAFF, JStr ALERT_EMAIL_ADMINS}")
      (simp_all only: if_True if_False, rule kept_add, simp, rule kept_same, simp)
  moreover have "deliveries_kept (db\<lparr>tb_alert_deliveries := mid\<rparr>) (enqueue_deliveries now a e acts db)"
  proof (cases "webhook_url_from_action (action_value ''webhook'' acts)")
    case None
    then show ?thesis by (intro kept_same) (simp add: enqueue_deliveries_def mid_def Let_def)
  next
    case (Some url)
    then show ?thesis by (intro kept_add) (simp add: enqueue_deliveries_def mid_def Let_def)
  qed
  ultimately show ?thesis by (rule kept_trans)
qed

lemma set_item_kept: "deliveries_kept (rt_db s) (rt_db (set_item i f s))" "deliveries_kept (rt_db s) (rt_db (finish_item now i s))"
  by (simp_all add: kept_same set_item_def finish_item_def)

lemma record_kept: "deliveries_kept db (record_route now e i res acts ex db)"
  by (rule kept_same) (simp add: record_route_def)

lemma route_alert_kept: "deliveries_kept (rt_db s) (rt_db (route_alert now i e acts ex suppress s))"
proof (cases "open_alert_for_dedupe now (ev_tenant_id e) (dedupe_key_for e acts) suppress s")
  case (Some a)
  then show ?thesis by (auto simp: route_alert_def Let_def finish_item_def set_item_def record_route_def intro!: kept_same)
next
  case None
  let ?al = "t_insert (new_alert now e acts ex (dedupe_key_for e acts)) (rt_alerts s)"
  let ?a = "new_alert now e acts ex (dedupe_key_for e acts) (t_next (rt_alerts s))"
  let ?q = "enqueue_deliveries now ?a e acts ((rt_db s)\<lparr>tb_alerts := ?al\<rparr>)"
  have "deliveries_kept (rt_db s) ((rt_db s)\<lparr>tb_alerts := ?al\<rparr>)" by (rule kept_same) simp
  moreover have "deliveries_kept ((rt_db s)\<lparr>tb_alerts := ?al\<rparr>) ?q" by (rule enqueue_kept)
  moreover have "deliveries_kept ?q (rt_db (route_alert now i e acts ex suppress s))"
    using None by (intro kept_same) (simp add: route_alert_def Let_def finish_item_def set_item_def record_route_def)
  ultimately show ?thesis by (blast intro: kept_trans)
qed

lemma route_item_kept: "deliveries_kept (rt_db s) (rt_db (route_item now already contexts x s))"
proof -
  have event: "deliveries_kept (rt_db s) (rt_db s')" if r: "route_event now contexts i e s = Inr s'" for i e s'
  proof -
    have "deliveries_kept (rt_db s) (rt_db (finish_item now i (s\<lparr>rt_db := record_route now e None res acts ex (rt_db s)\<rparr>)))" for res acts ex
      by (rule kept_same) (simp add: finish_item_def set_item_def record_route_def)
    with r show ?thesis
      by (auto simp: route_event_def rbind_Inr_iff Let_def route_alert_kept split: option.splits if_splits)
  qed
  show ?thesis unfolding route_item_def
    by (auto simp: set_item_kept event split: option.splits sum.splits if_splits)
qed

lemma route_items_kept: "deliveries_kept (rt_db s) (rt_db (fold (route_item now already contexts) items s))"
  by (induction items arbitrary: s) (auto simp: kept_same intro: kept_trans route_item_kept)

lemma route_pending_kept:
  assumes "route_pending_events now limit db = Inr (db', n)"
  shows "deliveries_kept db db'"
proof -
  obtain db1 claimed where c: "claim_queue now limit db = (db1, claimed)" by (rule prod.exhaust)
  have db1: "deliveries_kept db db1" unfolding claim_queue_tables(1) [OF c] by (rule kept_same) simp
  show ?thesis
  proof (cases "claimed = []")
    case True
    with assms c db1 show ?thesis by (simp add: route_pending_events_def)
  next
    case False
    with assms c obtain already contexts s where "s = fold (route_item now already contexts) claimed \<lparr>rt_db = db1, rt_alerts = tb_alerts db1, rt_processed = 0\<rparr>"
        and db': "db' = (rt_db s)\<lparr>tb_alerts := rt_alerts s\<rparr>"
      by (auto simp: route_pending_events_def rbind_Inr_iff Let_def)
    then have "deliveries_kept db1 (rt_db s)" using route_items_kept [of "\<lparr>rt_db = db1, rt_alerts = tb_alerts db1, rt_processed = 0\<rparr>"] by simp
    moreover have "deliveries_kept (rt_db s) db'" unfolding db' by (rule kept_same) simp
    ultimately show ?thesis using db1 by (blast intro: kept_trans)
  qed
qed

text \<open>One step: what it does to the deliveries, and that the tables of the router stay right.\<close>

lemma emit_alerts:
  assumes "emit_domain_event now e db = Inr (db', ev, created)"
  shows "tb_alerts db' = tb_alerts db" "tb_alert_event_routes db' = tb_alert_event_routes db" "tb_alert_deliveries db' = tb_alert_deliveries db"
  using emit_frame [OF assms] by auto

lemma tables_ok_enqueue: "tables_ok A Q R \<Longrightarrow> tables_ok A (put_queue (now, ev) Q) R"
proof -
  assume ok: "tables_ok A Q R"
  then have "distinct (map eq_domain_event_id (t_rows (put_queue (now, ev) Q)))"
    by (intro alert_queue.put_distinct) (simp add: tables_ok_def)
  moreover have "t_wf eq_id (put_queue (now, ev) Q)"
    using ok by (auto simp: put_queue_def put_once_def tables_ok_def mk_queue_row_def intro: t_wf_insert)
  moreover have "list_all (\<lambda>q. eq_status q = ALERT_QUEUE_PROCESSED \<longrightarrow> routed R (eq_domain_event_id q)) (t_rows (put_queue (now, ev) Q))"
    using ok by (auto simp: put_queue_def put_once_def tables_ok_def mk_queue_row_def)
  ultimately show ?thesis using ok by (simp only: tables_ok_def simp_thms)
qed

lemma emit_alerts_ok:
  assumes "emit_domain_event now e db = Inr (db', ev, created)" "alerts_ok db"
  shows "alerts_ok db'"
  using assms(2) tables_ok_enqueue unfolding alerts_ok_def emit_alerts [OF assms(1)] emit_tables(2) [OF assms(1)] by simp

lemma tables_ok_acknowledged:
  assumes ok: "tables_ok A Q R"
  shows "tables_ok (t_modify P (acknowledged now u) A) Q R"
proof -
  have f: "al_id (acknowledged now u a) = al_id a" "counts_ok R (acknowledged now u a) = counts_ok R a" for a
    by (simp_all add: acknowledged_def counts_ok_def)
  have "t_wf al_id (t_modify P (acknowledged now u) A)" using ok f by (intro t_wf_modify) (auto simp: tables_ok_def)
  moreover have "list_all (counts_ok R) (t_rows (t_modify P (acknowledged now u) A))"
    using ok f by (auto simp: tables_ok_def list_all_iff)
  moreover have "t_exists (\<lambda>a. al_id a = i) (t_modify P (acknowledged now u) A) = t_exists (\<lambda>a. al_id a = i) A" for i
  proof -
    have keys: "t_exists (\<lambda>a. al_id a = i) t \<longleftrightarrow> i \<in> set (map al_id (t_rows t))" for t by (auto simp: t_exists_iff)
    show ?thesis unfolding keys by (subst modify_rows_map) (rule f, rule refl)
  qed
  ultimately show ?thesis using ok by (simp only: tables_ok_def simp_thms)
qed

lemma create_alert_ok: "alerts_ok db \<Longrightarrow> alerts_ok (create_alert now t title body tenant device agent db)"
  unfolding alerts_ok_def create_alert_def tables_ok_def
  by (auto simp: counts_ok_def t_exists_iff list_all_iff intro!: t_wf_insert)

definition only_alerts :: "db \<Rightarrow> db \<Rightarrow> bool" where
  "only_alerts db db' \<longleftrightarrow> tb_event_alert_queue db' = tb_event_alert_queue db \<and> tb_alert_event_routes db' = tb_alert_event_routes db \<and>
     tb_alert_deliveries db' = tb_alert_deliveries db"

lemma ack_cases:
  assumes "ack_alert now i u db = Inr (db', a)"
  shows "only_alerts db db' \<and> (tb_alerts db' = tb_alerts db \<or> (\<exists>P. tb_alerts db' = t_modify P (acknowledged now u) (tb_alerts db)))"
  using assms by (auto simp: ack_alert_def only_alerts_def record_audit_fst Let_def split: option.splits if_splits)

lemma ack_all_cases:
  "only_alerts db (fst (ack_all now tenant severity kind u db)) \<and>
   (\<exists>P. tb_alerts (fst (ack_all now tenant severity kind u db)) = t_modify P (acknowledged now u) (tb_alerts db))"
  unfolding ack_all_def only_alerts_def Let_def record_audit_fst by (auto split del: if_split) (auto split: if_splits)

lemma deliver_rows_frame:
  "tb_alerts (dl_db (fold (deliver_row io now) ids s)) = tb_alerts (dl_db s) \<and>
   tb_event_alert_queue (dl_db (fold (deliver_row io now) ids s)) = tb_event_alert_queue (dl_db s) \<and>
   tb_alert_event_routes (dl_db (fold (deliver_row io now) ids s)) = tb_alert_event_routes (dl_db s)"
proof (induction ids arbitrary: s)
  case (Cons i ids)
  have "tb_alerts (dl_db (deliver_row io now i s)) = tb_alerts (dl_db s)"
      "tb_event_alert_queue (dl_db (deliver_row io now i s)) = tb_event_alert_queue (dl_db s)"
      "tb_alert_event_routes (dl_db (deliver_row io now i s)) = tb_alert_event_routes (dl_db s)"
    by (auto simp: deliver_row_def set_delivery_def Let_def split: option.splits)
  with Cons [of "deliver_row io now i s"] show ?case by simp
qed simp

lemma set_delivery_ok:
  assumes "\<And>d. adl_id (f d) = adl_id d" "\<And>d. adl_attempt_count (f d) = adl_attempt_count d" "deliveries_ok db"
  shows "deliveries_ok (set_delivery i f db)"
  using assms(3) t_wf_modify [of adl_id f "tb_alert_deliveries db", OF assms(1)]
  by (auto simp: deliveries_ok_def set_delivery_def list_all_iff assms(2))

lemma deliver_rows_ok: "deliveries_ok (dl_db s) \<Longrightarrow> deliveries_ok (dl_db (fold (deliver_row io now) ids s))"
proof (induction ids arbitrary: s)
  case (Cons i ids)
  have "deliveries_ok (dl_db (deliver_row io now i s))"
    using Cons.prems by (auto simp: deliver_row_def Let_def finish_delivery_fields attempt_delivery_fields intro!: set_delivery_ok split: option.splits)
  with Cons.IH show ?case by simp
qed simp

lemma claimed_db_ok: "deliveries_ok db \<Longrightarrow> deliveries_ok (claimed_db now ids db)"
  using t_wf_modify [of adl_id "taken_delivery now" "tb_alert_deliveries db"]
  by (auto simp: deliveries_ok_def claimed_db_def list_all_iff taken_delivery_def)

lemma pass_tables:
  assumes "s = fold (deliver_row io now) ids \<lparr>dl_db = claimed_db now js db, dl_log = [], dl_handled = 0\<rparr>"
  shows "deliveries_ok db \<Longrightarrow> deliveries_ok (dl_db s)" "alerts_ok (dl_db s) = alerts_ok db"
  using deliver_rows_ok [of "\<lparr>dl_db = claimed_db now js db, dl_log = [], dl_handled = 0\<rparr>" io now ids] claimed_db_ok [of db now js]
    deliver_rows_frame [of io now ids "\<lparr>dl_db = claimed_db now js db, dl_log = [], dl_handled = 0\<rparr>"]
  by (simp_all add: assms alerts_ok_def) (simp_all add: claimed_db_def)

lemma process_as_pass:
  "\<exists>ids. process_pending_deliveries io now limit db = fold (deliver_row io now) ids
     \<lparr>dl_db = claimed_db now ids db, dl_log = [], dl_handled = 0\<rparr>"
  by (auto simp: process_pending_deliveries_def claim_deliveries_def claimed_db_def Let_def)

lemma interrupted_as_pass:
  "\<exists>ids js. dl_db (interrupted_deliveries io now limit n db) = dl_db (fold (deliver_row io now) ids
     \<lparr>dl_db = claimed_db now js db, dl_log = [], dl_handled = 0\<rparr>)"
proof -
  let ?ids = "due_deliveries now limit db"
  let ?r = "fold (deliver_row io now) (take n ?ids) \<lparr>dl_db = claimed_db now ?ids db, dl_log = [], dl_handled = 0\<rparr>"
  have "dl_db (interrupted_deliveries io now limit n db) = dl_db ?r"
    unfolding interrupted_deliveries_def claim_deliveries_def claimed_db_def Let_def prod.case by (simp split: list.splits)
  then show ?thesis by blast
qed

lemma alert_step_ok:
  assumes "alert_step op db = (db', calls)" "alerts_ok db"
  shows "alerts_ok db'"
proof (cases op)
  case (Route_Events now limit)
  with assms route_pending_ok show ?thesis by (auto simp: alert_step_def split: sum.splits)
next
  case (Deliver io now limit)
  with assms process_as_pass [of io now limit db] pass_tables(2) show ?thesis by (auto simp: alert_step_def Let_def)
next
  case (Deliver_Interrupted io now limit n)
  with assms interrupted_as_pass [of io now limit n db] pass_tables(2) show ?thesis by (auto simp: alert_step_def Let_def)
next
  case (Emit now e)
  with assms emit_alerts_ok show ?thesis by (auto simp: alert_step_def split: sum.splits)
next
  case (Ack now i u)
  show ?thesis
  proof (cases "ack_alert now i u db")
    case (Inr r)
    obtain d a where "r = (d, a)" by (cases r)
    with Inr Ack assms ack_cases [of now i u db d a] tables_ok_acknowledged show ?thesis
      by (auto simp: alert_step_def alerts_ok_def only_alerts_def)
  qed (use Ack assms in \<open>simp add: alert_step_def\<close>)
next
  case (Ack_All now tenant severity kind u)
  with assms ack_all_cases [of db now tenant severity kind u] tables_ok_acknowledged show ?thesis
    by (auto simp: alert_step_def alerts_ok_def only_alerts_def)
next
  case (Create_Alert now t title body tenant device agent)
  with assms create_alert_ok show ?thesis by (auto simp: alert_step_def)
next
  case (Others d)
  with assms show ?thesis by (auto simp: alert_step_def alerts_ok_def)
qed

lemma alert_step_deliveries:
  assumes step: "alert_step op db = (db', calls)" and ok: "deliveries_ok db"
  shows "deliveries_ok db' \<and> honest db db' calls i"
proof -
  have kept: ?thesis if "deliveries_kept db db'" "calls = []"
    using that ok kept_honest by (auto simp: deliveries_kept_def)
  note same = kept [OF kept_same]
  show ?thesis
  proof (cases op)
    case (Route_Events now limit)
    with step route_pending_kept kept kept_same [of db db] show ?thesis by (auto simp: alert_step_def split: sum.splits)
  next
    case (Deliver io now limit)
    with step have "db' = dl_db (process_pending_deliveries io now limit db)" "calls = dl_log (process_pending_deliveries io now limit db)"
      by (simp_all add: alert_step_def Let_def)
    with pass_honest [OF ok refl] process_as_pass [of io now limit db] pass_tables(1) ok show ?thesis by metis
  next
    case (Deliver_Interrupted io now limit n)
    with step have "db' = dl_db (interrupted_deliveries io now limit n db)" "calls = dl_log (interrupted_deliveries io now limit n db)"
      by (simp_all add: alert_step_def Let_def)
    with interrupted_honest [OF ok refl] interrupted_as_pass [of io now limit n db] pass_tables(1) ok show ?thesis by metis
  next
    case (Emit now e)
    with step emit_alerts(3) same show ?thesis by (auto simp: alert_step_def split: sum.splits)
  next
    case (Ack now j u)
    with step ack_cases same show ?thesis by (fastforce simp: alert_step_def only_alerts_def split: sum.splits)
  next
    case (Ack_All now tenant severity kind u)
    with step ack_all_cases [of db now tenant severity kind u] same show ?thesis by (auto simp: alert_step_def only_alerts_def)
  next
    case (Create_Alert now t title body tenant device agent)
    with step same show ?thesis by (auto simp: alert_step_def create_alert_def)
  next
    case (Others d)
    with step same show ?thesis by (auto simp: alert_step_def)
  qed
qed

lemma tries_none: "tries i L = 0 \<Longrightarrow> (i, st) \<notin> set L"
  by (auto simp: tries_def filter_empty_conv)

lemma tries_one:
  assumes "xs = pre @ (i, st) # post" "tries i xs \<le> 1"
  shows "tries i post = 0"
  using assms by simp

lemma alert_run_deliveries:
  assumes "alert_run ops db = (db', calls)" "deliveries_ok db"
  shows "tries i calls + spent i db \<le> spent i db' \<and> (settled i db \<longrightarrow> tries i calls = 0) \<and>
    (\<forall>pre post. calls = pre @ (i, DELIVERY_SENT) # post \<longrightarrow> tries i post = 0)"
  using assms
proof (induction ops arbitrary: db calls)
  case (Cons op ops)
  obtain db1 c1 where step: "alert_step op db = (db1, c1)" by (rule prod.exhaust)
  obtain c2 where rest: "alert_run ops db1 = (db', c2)" and calls: "calls = c1 @ c2"
    using Cons.prems step by (auto split: prod.splits)
  have ok: "deliveries_ok db1" and honest: "honest db db1 c1 i"
    using alert_step_deliveries [OF step Cons.prems(2)] by auto
  have ih: "tries i c2 + spent i db1 \<le> spent i db'" "settled i db1 \<Longrightarrow> tries i c2 = 0"
      "\<And>pre post. c2 = pre @ (i, DELIVERY_SENT) # post \<Longrightarrow> tries i post = 0"
    using Cons.IH [OF rest ok] by auto
  have "tries i post = 0" if split: "calls = pre @ (i, DELIVERY_SENT) # post" for pre post
  proof -
    from split calls consider (first) us where "c1 = pre @ (i, DELIVERY_SENT) # us" "post = us @ c2"
      | (second) us where "c2 = us @ (i, DELIVERY_SENT) # post"
      by (auto simp: append_eq_append_conv2 append_eq_Cons_conv)
    then show ?thesis
    proof cases
      case first
      then have "settled i db1" "tries i c1 = 1" using honest by (auto simp: honest_def)
      with first ih(2) show ?thesis by simp
    next
      case second
      then show ?thesis by (rule ih(3))
    qed
  qed
  then show ?case using honest ih calls by (auto simp: honest_def)
qed simp

lemma alert_run_ok: "alert_run ops db = (db', calls) \<Longrightarrow> alerts_ok db \<Longrightarrow> alerts_ok db'"
proof (induction ops arbitrary: db calls)
  case (Cons op ops)
  obtain db1 c1 where step: "alert_step op db = (db1, c1)" by (rule prod.exhaust)
  obtain c2 where "alert_run ops db1 = (db', c2)" using Cons.prems step by (auto split: prod.splits)
  with Cons.IH alert_step_ok [OF step] Cons.prems(2) show ?case by blast
qed simp

lemma contexts_checked:
  assumes "contexts_for_events db events = Inr cs" "e \<in> set events"
  shows "check_event db e = Inr ()"
proof -
  have "rfold (\<lambda>e cs. rbind (check_event db e) (\<lambda>_. Inr (cs @ [(ev_id e, event_context db e)]))) events acc = Inr cs \<Longrightarrow>
      e \<in> set events \<Longrightarrow> check_event db e = Inr ()" for acc
    by (induction events arbitrary: acc) (auto simp: rbind_Inr_iff)
  with assms show ?thesis unfolding contexts_for_events_def by blast
qed

section \<open>Properties\<close>

text \<open>C33: Alerts count their events. Whatever the order of routing passes, delivery passes (also ones that
  die on their way), emissions and acknowledgements: an event is routed at most once, a queue row is
  processed only when its event has a route, and the occurrence count that an alert shows is the
  number of events that were routed to it, although coalesced counts reach the database only with
  the next flush.\<close>

theorem alerts_count_their_events:
  assumes "alerts_ok db" and "alert_run ops db = (db', calls)"
  shows "alerts_ok db' \<and> distinct (map aer_domain_event_id (t_rows (tb_alert_event_routes db'))) \<and>
    (\<forall>a \<in> set (t_rows (tb_alerts db')). al_dedupe_key a \<noteq> None \<longrightarrow>
       al_occurrence_count a = int (length (filter (\<lambda>r. aer_alert_id r = Some (al_id a)) (t_rows (tb_alert_event_routes db')))))"
  using alert_run_ok [OF assms(2,1)]
  by (auto simp: alerts_ok_def tables_ok_def list_all_iff counts_ok_def routes_to_def t_select_def)

text \<open>C34: Every delivery is bounded. Over any such run, mail or HTTP is called at most five times for a
  delivery, crashes between the call and the commit included, and never again once a pass has
  recorded the delivery as sent.\<close>

theorem deliveries_are_bounded:
  assumes "deliveries_ok db" and "alert_run ops db = (db', calls)"
  shows "int (tries i calls) \<le> MAX_DELIVERY_ATTEMPTS \<and>
    (\<forall>pre post. calls = pre @ (i, DELIVERY_SENT) # post \<longrightarrow> i \<notin> fst ` set post)"
proof -
  note run = alert_run_deliveries [OF assms(2,1), of i]
  have "spent i db' \<le> 5" by (auto simp: spent_def split: option.splits)
  moreover have "i \<notin> fst ` set post" if "tries i post = 0" for post using tries_none [OF that] by auto
  ultimately show ?thesis using run by auto
qed

text \<open>C35: One stale event stops the router. The subjects of the claimed events are checked outside the
  exception handler of the loop, so when the rows of one due event have moved since it was emitted
  (an agent of an identity mismatch that was moved to another site), the pass raises, is rolled back
  with its claims and counts no attempt: no event of the batch is routed, and the next pass meets
  the same rows.\<close>

theorem stale_event_stops_the_router:
  assumes q: "q \<in> set (t_rows (tb_event_alert_queue db))" and due: "eq_id q \<in> set (due_items now (nat ALERT_ROUTE_BATCH_SIZE) db)"
    and e: "t_get ev_id (eq_domain_event_id q) (tb_domain_events db) = Some e"
    and unrouted: "\<not> routed (tb_alert_event_routes db) (ev_id e)" and stale: "check_event db e = Inl err"
  shows "isl (route_pending_events now (nat ALERT_ROUTE_BATCH_SIZE) db) \<and> route_pending_events_job now db = (db, 0)"
proof -
  let ?limit = "nat ALERT_ROUTE_BATCH_SIZE"
  obtain db1 claimed where c: "claim_queue now ?limit db = (db1, claimed)" by (rule prod.exhaust)
  note db1 = claim_queue_tables(1) [OF c] and claimed = claim_queue_tables(2) [OF c]
  have "taken_item now q \<in> set claimed"
    using q due by (force simp: claimed db1 set_sorted_by t_select_def taken_item_def)
  moreover have "t_get ev_id (eq_domain_event_id (taken_item now q)) (tb_domain_events db1) = Some e"
    using e by (simp add: db1 taken_item_def)
  ultimately have mem: "e \<in> set (List.map_filter (\<lambda>r. t_get ev_id (eq_domain_event_id r) (tb_domain_events db1)) claimed)" "claimed \<noteq> []"
    by (force simp: map_filter_def)+
  have fresh: "ev_id e \<notin> set (map aer_domain_event_id (t_select P (tb_alert_event_routes db1)))" for P
    using unrouted by (auto simp: db1 routed_def t_exists_iff t_select_def)
  have err: "check_event db1 e = Inl err"
    using stale by (simp add: db1 check_event_def load_event_subjects_def)
  have "isl (route_pending_events now ?limit db)"
  proof (rule ccontr)
    assume "\<not> isl (route_pending_events now ?limit db)"
    then obtain r where "route_pending_events now ?limit db = Inr r" by (cases "route_pending_events now ?limit db") auto
    with c mem(2) obtain P cs where "contexts_for_events db1 (filter (\<lambda>x. ev_id x \<notin> set (map aer_domain_event_id
        (t_select P (tb_alert_event_routes db1)))) (List.map_filter (\<lambda>r. t_get ev_id (eq_domain_event_id r) (tb_domain_events db1)) claimed)) = Inr cs"
      by (auto simp: route_pending_events_def Let_def rbind_Inr_iff)
    from contexts_checked [OF this, of e] mem(1) fresh err show False by simp
  qed
  then show ?thesis by (auto simp: route_pending_events_job_def split: sum.splits)
qed

subsection \<open>Witnesses\<close>

definition quiet_rule :: policy_rule where
  "quiet_rule = sample_rule\<lparr>pr_category := POLICY_CATEGORY_ALERTING,
     pr_actions := JObj [(''dashboard'', JBool True), (''suppress_for_minutes'', JInt 10)]\<rparr>"

definition alert_world :: db where
  "alert_world = small_world\<lparr>tb_policy_rules := \<lparr>t_next = 2, t_rows = [quiet_rule]\<rparr>\<rparr>"

definition asset_event :: "string \<Rightarrow> event_req" where
  "asset_event key = event_defaults\<lparr>er_event_type := EVENT_ASSET_DISPOSITION_CHANGED, er_tenant_id := Some 1,
     er_site_id := Some 1, er_asset_id := Some 1, er_key := key\<rparr>"

theorem alerts_count_their_events_witness:
  \<comment> \<open>two events about one asset, routed in one pass, make one alert that counts two\<close>
  "\<exists>db' calls a. alert_run [Emit 0 (asset_event ''a''), Emit 1 (asset_event ''b''), Route_Events 2 50] alert_world = (db', calls) \<and>
     t_rows (tb_alerts db') = [a] \<and> al_occurrence_count a = 2 \<and>
     length (filter (\<lambda>r. aer_alert_id r = Some (al_id a)) (t_rows (tb_alert_event_routes db'))) = 2"
proof -
  let ?ops = "[Emit 0 (asset_event ''a''), Emit 1 (asset_event ''b''), Route_Events 2 50]"
  have ok: "alerts_ok alert_world"
    by (simp add: alerts_ok_def tables_ok_def alert_world_def small_world_def empty_db_def t_wf_empty)
  have "case alert_run ?ops alert_world of (db', _) \<Rightarrow>
      (case t_rows (tb_alerts db') of [a] \<Rightarrow> al_occurrence_count a = 2 \<and> al_dedupe_key a \<noteq> None | _ \<Rightarrow> False)"
    by code_simp
  then obtain db' calls a where run: "alert_run ?ops alert_world = (db', calls)" "t_rows (tb_alerts db') = [a]"
      "al_occurrence_count a = 2" "al_dedupe_key a \<noteq> None"
    by (auto split: prod.splits list.splits)
  from alerts_count_their_events [OF ok run(1)] run show ?thesis by simp
qed

definition dead_mail :: delivery_io where
  "dead_mail = \<lparr>io_mail = (\<lambda>_ _ _ _. Mail_Raises ''refused'' False), io_hook = (\<lambda>_ _. Hook_Crashes [])\<rparr>"

definition mail_world :: db where
  "mail_world = small_world\<lparr>tb_alert_deliveries := \<lparr>t_next = 2,
     t_rows = [new_delivery 0 1 DELIVERY_CHANNEL_EMAIL ''r@x'' (JObj []) 1]\<rparr>\<rparr>"

theorem deliveries_are_bounded_witness:
  \<comment> \<open>a server that refuses is called five times, one of the passes dying, however long it goes on\<close>
  "\<exists>db' calls. alert_run ([Deliver dead_mail 0 25, Deliver_Interrupted dead_mail day 25 0] @
       map (\<lambda>i. Deliver dead_mail (i * day) 25) [2, 3, 4, 5, 6, 7]) mail_world = (db', calls) \<and>
     tries 1 calls = 5 \<and> int (tries 1 calls) \<le> MAX_DELIVERY_ATTEMPTS"
proof -
  let ?ops = "[Deliver dead_mail 0 25, Deliver_Interrupted dead_mail day 25 0] @
    map (\<lambda>i. Deliver dead_mail (i * day) 25) [2, 3, 4, 5, 6, 7]"
  have ok: "deliveries_ok mail_world" by code_simp
  obtain db' calls where run: "alert_run ?ops mail_world = (db', calls)" by (rule prod.exhaust)
  have "tries 1 (snd (alert_run ?ops mail_world)) = 5" by code_simp
  with deliveries_are_bounded [OF ok run] run show ?thesis by simp
qed

definition mismatch_world :: db where
  \<comment> \<open>an identity mismatch of agent 5 and then an event of an asset are waiting; the agent has moved\<close>
  "mismatch_world = (case rbind (app_event (impersonation_alert 0 sample_agent ''key'' None small_world)) (\<lambda>(db1, _, _).
       rbind (app_event (emit_domain_event 1 (asset_event ''a'') db1)) (\<lambda>(db2, _, _). move_agent 5 2 db2)) of
     Inr db \<Rightarrow> db | Inl _ \<Rightarrow> small_world)"

theorem stale_event_stops_the_router_witness:
  "map eq_status (t_rows (tb_event_alert_queue mismatch_world)) = [ALERT_QUEUE_PENDING, ALERT_QUEUE_PENDING] \<and>
   route_pending_events_job (2 * day) mismatch_world = (mismatch_world, 0)"
proof -
  let ?now = "2 * day"
  have rows: "case t_rows (tb_event_alert_queue mismatch_world) of [q, r] \<Rightarrow> eq_status q = ALERT_QUEUE_PENDING \<and> eq_status r = ALERT_QUEUE_PENDING \<and>
      eq_id q \<in> set (due_items ?now (nat ALERT_ROUTE_BATCH_SIZE) mismatch_world) \<and>
      (case t_get ev_id (eq_domain_event_id q) (tb_domain_events mismatch_world) of None \<Rightarrow> False
       | Some e \<Rightarrow> \<not> routed (tb_alert_event_routes mismatch_world) (ev_id e) \<and> isl (check_event mismatch_world e)) | _ \<Rightarrow> False"
    by code_simp
  then obtain q r e err where q: "t_rows (tb_event_alert_queue mismatch_world) = [q, r]" "eq_status q = ALERT_QUEUE_PENDING"
      "eq_status r = ALERT_QUEUE_PENDING" "eq_id q \<in> set (due_items ?now (nat ALERT_ROUTE_BATCH_SIZE) mismatch_world)"
      "t_get ev_id (eq_domain_event_id q) (tb_domain_events mismatch_world) = Some e"
      "\<not> routed (tb_alert_event_routes mismatch_world) (ev_id e)" "check_event mismatch_world e = Inl err"
    by (auto split: list.splits option.splits simp: isl_def)
  have "q \<in> set (t_rows (tb_event_alert_queue mismatch_world))" using q(1) by simp
  from stale_event_stops_the_router [OF this q(4-7)] q(1-3) show ?thesis by simp
qed

end
