(* ===== verification/Networks.thy ===== *)
theory Networks
  imports Ip
begin

section \<open>IP networks\<close>

text \<open>
  What the program uses of the networks of Python's \<^verbatim>\<open>ipaddress\<close>: containment, overlap, the difference
  of a network and a part of it, the summary of a range of addresses and the collapse of a list of
  networks. A network is its version, first address and prefix length; an IPv6 network
  also keeps the scope id of the text it was parsed from, which equality compares and arithmetic
  drops. \<open>None\<close> stands for the exceptions.
\<close>

record ip_net =
  nw_ver :: ip_version
  nw_base :: nat
  nw_len :: nat
  nw_zone :: string

definition ip_bits :: "ip_version \<Rightarrow> nat" where
  "ip_bits v = (case v of V4 \<Rightarrow> 32 | V6 \<Rightarrow> 128)"

definition mk_net :: "ip_version \<Rightarrow> nat \<Rightarrow> nat \<Rightarrow> ip_net" where
  "mk_net v base len = \<lparr>nw_ver = v, nw_base = base, nw_len = len, nw_zone = []\<rparr>"

definition host_bits :: "ip_net \<Rightarrow> nat" where
  "host_bits n = ip_bits (nw_ver n) - nw_len n"

definition num_addresses :: "ip_net \<Rightarrow> nat" where
  "num_addresses n = 2 ^ host_bits n"

definition broadcast :: "ip_net \<Rightarrow> nat" where
  "broadcast n = nw_base n + num_addresses n - 1"

definition in_net :: "ip_version \<Rightarrow> nat \<Rightarrow> ip_net \<Rightarrow> bool" where
  \<comment> \<open>\<open>address in network\<close>: the version, and the address under the netmask\<close>
  "in_net v a n \<longleftrightarrow> v = nw_ver n \<and> a div num_addresses n * num_addresses n = nw_base n"

definition overlaps :: "ip_net \<Rightarrow> ip_net \<Rightarrow> bool" where
  "overlaps a b \<longleftrightarrow> in_net (nw_ver a) (nw_base a) b \<or> in_net (nw_ver a) (broadcast a) b \<or>
     in_net (nw_ver b) (nw_base b) a \<or> in_net (nw_ver b) (broadcast b) a"

definition subnet_of :: "ip_net \<Rightarrow> ip_net \<Rightarrow> bool" where
  \<comment> \<open>addresses compare by number, and are equal when their scope ids are too\<close>
  "subnet_of a b \<longleftrightarrow> (nw_base b < nw_base a \<or> (nw_base b = nw_base a \<and> nw_zone b = nw_zone a)) \<and> broadcast a \<le> broadcast b"

text \<open>\<open>subnets()\<close>: the two halves, or the network itself when it is one address.\<close>

definition lower_half :: "ip_net \<Rightarrow> ip_net" where
  "lower_half n = mk_net (nw_ver n) (nw_base n) (Suc (nw_len n))"

definition upper_half :: "ip_net \<Rightarrow> ip_net" where
  "upper_half n = mk_net (nw_ver n) (nw_base n + num_addresses n div 2) (Suc (nw_len n))"

text \<open>The loop of \<open>address_exclude\<close>: descend into the half that holds the other network, yield the other half.\<close>

function exclude_part :: "ip_net \<Rightarrow> ip_net \<Rightarrow> ip_net list option" where
  "exclude_part n other = (if host_bits n = 0 then None
     else let s1 = lower_half n; s2 = upper_half n in
       if s1 = other then Some [s2]
       else if s2 = other then Some [s1]
       else if subnet_of other s1 then map_option (\<lambda>rest. s2 # rest) (exclude_part s1 other)
       else if subnet_of other s2 then map_option (\<lambda>rest. s1 # rest) (exclude_part s2 other)
       else None)"
  by pat_completeness auto
termination
  by (relation "measure (\<lambda>(n, _). host_bits n)") (auto simp: lower_half_def upper_half_def mk_net_def host_bits_def)

declare exclude_part.simps [simp del]

definition address_exclude :: "ip_net \<Rightarrow> ip_net \<Rightarrow> ip_net list option" where
  "address_exclude n other = (if nw_ver n \<noteq> nw_ver other \<or> \<not> subnet_of other n then None
     else if other = n then Some [] else exclude_part n other)"

text \<open>\<open>summarize_address_range\<close>: from the first address on, the largest aligned block that fits.\<close>

fun trailing_zeros :: "nat \<Rightarrow> nat \<Rightarrow> nat" where
  \<comment> \<open>\<open>_count_righthand_zero_bits\<close>, at most the given number of bits\<close>
  "trailing_zeros 0 n = 0"
| "trailing_zeros (Suc b) n = (if even n then Suc (trailing_zeros b (n div 2)) else 0)"

fun bit_len :: "nat \<Rightarrow> nat" where
  "bit_len n = (if n = 0 then 0 else Suc (bit_len (n div 2)))"

declare bit_len.simps [simp del]

definition block_bits :: "ip_version \<Rightarrow> nat \<Rightarrow> nat \<Rightarrow> nat" where
  "block_bits v first final = min (trailing_zeros (ip_bits v) first) (bit_len (final - first + 1) - 1)"

function summary :: "ip_version \<Rightarrow> nat \<Rightarrow> nat \<Rightarrow> ip_net list" where
  "summary v first final = (if final < first then []
     else let k = block_bits v first final; n = mk_net v first (ip_bits v - k); next_first = first + 2 ^ k
          in if next_first - 1 = 2 ^ ip_bits v - 1 then [n] else n # summary v next_first final)"
  by pat_completeness auto
termination
  by (relation "measure (\<lambda>(_, first, final). Suc final - first)") (auto intro!: diff_less_mono2)

declare summary.simps [simp del]

definition summarize_range :: "ip_version \<Rightarrow> nat \<times> string \<Rightarrow> nat \<times> string \<Rightarrow> ip_net list option" where
  \<comment> \<open>of two addresses with the same number, one is greater when their scope ids differ\<close>
  "summarize_range v first final = (if fst final < fst first \<or> (fst first = fst final \<and> snd first \<noteq> snd final) then None
     else Some (summary v (fst first) (fst final)))"

text \<open>\<open>collapse_addresses\<close>: single addresses are summarised in runs, then pairs of halves are merged, then
  networks inside others are dropped. Two versions in one list raise.\<close>

definition supernet :: "ip_net \<Rightarrow> ip_net" where
  "supernet n = (if nw_len n = 0 then n
     else mk_net (nw_ver n) (nw_base n div (2 * num_addresses n) * (2 * num_addresses n)) (nw_len n - 1))"

fun find_runs :: "nat \<Rightarrow> nat \<Rightarrow> nat list \<Rightarrow> (nat \<times> nat) list" where
  "find_runs first final [] = [(first, final)]"
| "find_runs first final (a # as) = (if a \<noteq> final + 1 then (first, final) # find_runs a a as else find_runs first a as)"

type_synonym merge_state = "ip_net list \<times> (ip_net \<times> ip_net) list"

lemma filter_key_shorter: "map_of found k = Some v \<Longrightarrow> length (filter (\<lambda>(s, _). s \<noteq> k) found) < length found"
proof -
  assume "map_of found k = Some v"
  then have "(k, v) \<in> set found" by (rule map_of_SomeD)
  then show ?thesis by (intro length_filter_less) auto
qed

function merge_halves :: "ip_net list \<Rightarrow> (ip_net \<times> ip_net) list \<Rightarrow> ip_net list" where
  \<comment> \<open>the stack, its top first, and the networks by their supernet\<close>
  "merge_halves [] found = map snd found"
| "merge_halves (n # todo) found = (case map_of found (supernet n) of
       None \<Rightarrow> merge_halves todo (found @ [(supernet n, n)])
     | Some other \<Rightarrow> if other = n then merge_halves todo found
         else merge_halves (supernet n # todo) (filter (\<lambda>(s, _). s \<noteq> supernet n) found))"
  by pat_completeness auto
termination
  by (relation "measures [\<lambda>(todo, found). length todo + length found, \<lambda>(todo, found). length todo]")
    (auto dest: filter_key_shorter)

declare merge_halves.simps [simp del]

definition drop_subsumed_step :: "ip_net \<Rightarrow> ip_net list \<Rightarrow> ip_net list" where
  "drop_subsumed_step n kept = (case kept of [] \<Rightarrow> [n] | m # _ \<Rightarrow> if broadcast n \<le> broadcast m then kept else n # kept)"

definition drop_subsumed :: "ip_net list \<Rightarrow> ip_net list" where
  \<comment> \<open>each network is compared with the last one kept\<close>
  "drop_subsumed ns = rev (fold drop_subsumed_step ns [])"

definition collapse_internal :: "ip_net list \<Rightarrow> ip_net list" where
  \<comment> \<open>\<open>to_merge.pop()\<close> takes the end of the list; networks sort by address and netmask\<close>
  "collapse_internal ns = drop_subsumed (sorted_by (\<lambda>n. (nw_base n, nw_len n)) (merge_halves (rev ns) []))"

definition single_addresses :: "ip_net list \<Rightarrow> nat list" where
  "single_addresses ns = map fst (sorted_by fst (remdups (map (\<lambda>n. (nw_base n, nw_zone n)) (filter (\<lambda>n. host_bits n = 0) ns))))"

definition collapse_addresses :: "ip_net list \<Rightarrow> ip_net list option" where
  "collapse_addresses ns = (case ns of [] \<Rightarrow> Some []
     | n # _ \<Rightarrow> if \<exists>m \<in> set ns. nw_ver m \<noteq> nw_ver n then None
         else let runs = (case single_addresses ns of [] \<Rightarrow> [] | a # as \<Rightarrow> find_runs a a as)
              in Some (collapse_internal (concat (map (\<lambda>(a, b). summary (nw_ver n) a b) runs) @ filter (\<lambda>n. host_bits n \<noteq> 0) ns)))"

subsection \<open>Parsing and printing\<close>

definition ip_zone :: "string \<Rightarrow> string" where
  "ip_zone s = (if CHR ''%'' \<in> set s then snd (partition_on CHR ''%'' s) else [])"

definition mask_length :: "nat \<Rightarrow> nat option" where
  \<comment> \<open>a netmask, or else a host mask\<close>
  "mask_length v = (case filter (\<lambda>k. v = 2 ^ 32 - 2 ^ k) [0..<33] @ filter (\<lambda>k. v = 2 ^ k - 1) [0..<33] of
     [] \<Rightarrow> None | k # _ \<Rightarrow> Some (32 - k))"

definition prefix_length :: "ip_version \<Rightarrow> string \<Rightarrow> nat option" where
  "prefix_length v m = (if prefix_ok (ip_bits v) m then Some (parse_digits m)
     else case v of V6 \<Rightarrow> None | V4 \<Rightarrow> Option.bind (parse_ipv4 m) mask_length)"

definition loose_net :: "ip_version \<Rightarrow> nat \<Rightarrow> string \<Rightarrow> nat \<Rightarrow> ip_net" where
  \<comment> \<open>not strict: host bits are cleared, and then the scope id goes too\<close>
  "loose_net v a zone len = (let size = 2 ^ (ip_bits v - len) in
     if a mod size = 0 then \<lparr>nw_ver = v, nw_base = a, nw_len = len, nw_zone = zone\<rparr> else mk_net v (a div size * size) len)"

definition ip_network :: "string \<Rightarrow> ip_net option" where
  \<comment> \<open>\<open>ip_network(s, strict = False)\<close>\<close>
  "ip_network s = (case split_on CHR ''/'' s of
     [addr] \<Rightarrow> map_option (\<lambda>(v, a). loose_net v a (ip_zone addr) (ip_bits v)) (ip_address addr)
   | [addr, m] \<Rightarrow> Option.bind (ip_address addr) (\<lambda>(v, a). map_option (loose_net v a (ip_zone addr)) (prefix_length v m))
   | _ \<Rightarrow> None)"

definition ipv4_text :: "nat \<Rightarrow> string" where
  "ipv4_text a = show_nat (a div 16777216) @ ''.'' @ show_nat (a div 65536 mod 256) @ ''.'' @
     show_nat (a div 256 mod 256) @ ''.'' @ show_nat (a mod 256)"

definition net_text :: "ip_net \<Rightarrow> string" where
  "net_text n = (case nw_ver n of V4 \<Rightarrow> ipv4_text (nw_base n) | V6 \<Rightarrow> ipv6_text (nw_base n)) @
     (if nw_zone n = [] then [] else CHR ''%'' # nw_zone n) @ ''/'' @ show_nat (nw_len n)"

subsection \<open>The addresses of a network\<close>

definition valid_net :: "ip_net \<Rightarrow> bool" where
  "valid_net n \<longleftrightarrow> nw_len n \<le> ip_bits (nw_ver n) \<and> nw_base n < 2 ^ ip_bits (nw_ver n) \<and> num_addresses n dvd nw_base n \<and> nw_zone n = []"

definition addresses :: "ip_net \<Rightarrow> (ip_version \<times> nat) set" where
  "addresses n = {nw_ver n} \<times> {nw_base n ..< nw_base n + num_addresses n}"

definition addresses_of :: "ip_net list \<Rightarrow> (ip_version \<times> nat) set" where
  "addresses_of ns = \<Union> (addresses ` set ns)"

lemma addresses_of_simps [simp]:
  "addresses_of [] = {}" "addresses_of (n # ns) = addresses n \<union> addresses_of ns"
  "addresses_of (ms @ ns) = addresses_of ms \<union> addresses_of ns"
  by (auto simp: addresses_of_def)

lemma num_addresses_pos [simp]: "0 < num_addresses n" "num_addresses n \<noteq> 0" "Suc 0 \<le> num_addresses n"
  by (simp_all add: num_addresses_def Suc_le_eq)

lemma div_eq_block: "0 < n \<Longrightarrow> a div n = k \<longleftrightarrow> n * k \<le> a \<and> a < n * k + n" for n :: nat
proof
  assume "0 < n" "a div n = k"
  then show "n * k \<le> a \<and> a < n * k + n"
    using dividend_less_times_div [of n a] times_div_less_eq_dividend [of n a] by (simp add: add.commute)
next
  assume "0 < n" "n * k \<le> a \<and> a < n * k + n"
  then show "a div n = k" by (intro div_nat_eqI) auto
qed

lemma in_net_addresses: "valid_net n \<Longrightarrow> in_net v a n \<longleftrightarrow> (v, a) \<in> addresses n"
proof -
  assume "valid_net n"
  then obtain k where k: "nw_base n = num_addresses n * k" by (auto simp: valid_net_def)
  show ?thesis by (auto simp: in_net_def addresses_def k mult.commute div_eq_block)
qed

lemma base_in: "(nw_ver n, nw_base n) \<in> addresses n"
  by (simp add: addresses_def)

lemma broadcast_in: "(nw_ver n, broadcast n) \<in> addresses n"
  using num_addresses_pos [of n] by (simp add: addresses_def broadcast_def del: num_addresses_pos)

text \<open>Two valid networks are nested or disjoint.\<close>

lemma aligned_nested:
  fixes N :: nat
  assumes N: "0 < N" "N dvd M" "N dvd b" "M dvd c" and a: "b \<le> a" "a < b + N" "c \<le> a" "a < c + M"
  shows "c \<le> b \<and> b + N \<le> c + M"
proof -
  obtain q where q: "M = N * q" using N(2) by (rule dvdE)
  obtain j where j: "b = N * j" using N(3) by (rule dvdE)
  obtain i where i: "c = N * i" using dvd_trans [OF N(2,4)] by (rule dvdE)
  have "N * i < N * (j + 1)" using a unfolding i j by simp
  then have "i < j + 1" unfolding mult_less_cancel1 by simp
  then have ij: "i \<le> j" by simp
  have "N * j < N * (i + q)" using a unfolding i j q by (simp add: distrib_left)
  then have "j + 1 \<le> i + q" unfolding mult_less_cancel1 by simp
  then have "N * (j + 1) \<le> N * (i + q)" by (rule mult_le_mono2)
  with ij show ?thesis unfolding i j q by (simp add: distrib_left)
qed

lemma addresses_iff: "(v, a) \<in> addresses n \<longleftrightarrow> v = nw_ver n \<and> nw_base n \<le> a \<and> a < nw_base n + num_addresses n"
  by (auto simp: addresses_def)

lemma addresses_mono:
  "nw_ver m = nw_ver n \<Longrightarrow> nw_base n \<le> nw_base m \<Longrightarrow> nw_base m + num_addresses m \<le> nw_base n + num_addresses n
     \<Longrightarrow> addresses m \<subseteq> addresses n"
  by (intro subrelI) (simp add: addresses_iff)

lemma num_addresses_dvd: "nw_ver m = nw_ver n \<Longrightarrow> nw_len n \<le> nw_len m \<Longrightarrow> num_addresses m dvd num_addresses n"
  unfolding num_addresses_def host_bits_def by (intro le_imp_power_dvd) simp

lemma valid_nested:
  assumes m: "valid_net m" and n: "valid_net n" and x: "x \<in> addresses m" "x \<in> addresses n"
    and len: "nw_len n \<le> nw_len m"
  shows "addresses m \<subseteq> addresses n"
proof -
  obtain v a where "x = (v, a)" by (cases x)
  with x have a: "nw_ver m = nw_ver n" "nw_base m \<le> a" "a < nw_base m + num_addresses m"
      "nw_base n \<le> a" "a < nw_base n + num_addresses n"
    by (simp_all add: addresses_iff)
  have "num_addresses m dvd nw_base m" "num_addresses n dvd nw_base n" using m n by (simp_all add: valid_net_def)
  then have "nw_base n \<le> nw_base m \<and> nw_base m + num_addresses m \<le> nw_base n + num_addresses n"
    using aligned_nested [OF num_addresses_pos(1) num_addresses_dvd [OF a(1) len] _ _ a(2-5)] by simp
  with a(1) show ?thesis by (simp add: addresses_mono)
qed

lemma valid_subset_iff:
  assumes "valid_net m" "valid_net n" "nw_ver m = nw_ver n"
  shows "subnet_of m n \<longleftrightarrow> addresses m \<subseteq> addresses n"
proof
  assume "subnet_of m n"
  then have "nw_base n \<le> nw_base m" "broadcast m \<le> broadcast n" by (auto simp: subnet_of_def)
  then show "addresses m \<subseteq> addresses n"
    unfolding addresses_def broadcast_def assms(3)
    using num_addresses_pos(1) [of m] num_addresses_pos(1) [of n] by (intro Sigma_mono subset_refl) (simp del: num_addresses_pos, linarith?)
next
  assume "addresses m \<subseteq> addresses n"
  then have "(nw_ver m, nw_base m) \<in> addresses n" "(nw_ver m, broadcast m) \<in> addresses n"
    using base_in broadcast_in by blast+
  then show "subnet_of m n"
    using assms num_addresses_pos [of n] by (auto simp: addresses_def broadcast_def subnet_of_def valid_net_def)
qed

lemma overlaps_iff:
  assumes "valid_net m" "valid_net n"
  shows "overlaps m n \<longleftrightarrow> addresses m \<inter> addresses n \<noteq> {}"
proof
  assume "overlaps m n"
  then show "addresses m \<inter> addresses n \<noteq> {}"
    using base_in [of m] base_in [of n] broadcast_in [of m] broadcast_in [of n]
    unfolding overlaps_def in_net_addresses [OF assms(1)] in_net_addresses [OF assms(2)] by blast
next
  assume "addresses m \<inter> addresses n \<noteq> {}"
  then have "addresses m \<subseteq> addresses n \<or> addresses n \<subseteq> addresses m"
    using valid_nested [OF assms] valid_nested [OF assms(2,1)] by (metis IntE disjoint_iff_not_equal nle_le)
  then show "overlaps m n"
    using base_in [of m] base_in [of n] unfolding overlaps_def in_net_addresses [OF assms(1)] in_net_addresses [OF assms(2)] by blast
qed

lemma same_addresses:
  assumes "valid_net m" "valid_net n" "addresses m = addresses n"
  shows "m = n"
proof -
  have "(nw_ver m, nw_base m) \<in> addresses n" using base_in [of m] assms(3) by simp
  then have v: "nw_ver m = nw_ver n" by (simp add: addresses_def)
  have s: "subnet_of m n" "subnet_of n m" using assms v by (simp_all add: valid_subset_iff)
  then have b: "nw_base m = nw_base n" "broadcast m = broadcast n" by (auto simp: subnet_of_def)
  then have "num_addresses m = num_addresses n"
    using num_addresses_pos(1) [of m] num_addresses_pos(1) [of n] unfolding broadcast_def by linarith
  then have "host_bits m = host_bits n" unfolding num_addresses_def by simp
  moreover have "nw_len m \<le> ip_bits (nw_ver m)" "nw_len n \<le> ip_bits (nw_ver n)" "nw_zone m = nw_zone n"
    using assms(1,2) by (simp_all add: valid_net_def)
  ultimately have "nw_len m = nw_len n" "nw_zone m = nw_zone n" using v unfolding host_bits_def by simp_all
  with v b(1) show ?thesis by (intro ip_net.equality) simp_all
qed

lemma subset_len:
  assumes m: "valid_net m" and n: "valid_net n" and sub: "addresses m \<subseteq> addresses n"
  shows "nw_ver m = nw_ver n" "nw_len n \<le> nw_len m"
proof -
  have "(nw_ver m, nw_base m) \<in> addresses n" using base_in sub by blast
  then show v: "nw_ver m = nw_ver n" by (simp add: addresses_iff)
  have "card (addresses m) \<le> card (addresses n)" using sub by (rule card_mono [rotated]) (simp add: addresses_def)
  then have "num_addresses m \<le> num_addresses n" by (simp add: addresses_def card_cartesian_product)
  then have "host_bits m \<le> host_bits n" by (simp add: num_addresses_def)
  then show "nw_len n \<le> nw_len m" using v m n by (auto simp: host_bits_def valid_net_def)
qed

subsection \<open>The two halves\<close>

lemma halves_len:
  "host_bits n \<noteq> 0 \<Longrightarrow> num_addresses n = 2 * num_addresses (lower_half n)"
  "host_bits n \<noteq> 0 \<Longrightarrow> num_addresses (upper_half n) = num_addresses (lower_half n)"
proof -
  assume "host_bits n \<noteq> 0"
  then have "host_bits n = Suc (host_bits (lower_half n))" "host_bits (upper_half n) = host_bits (lower_half n)"
    by (simp_all add: host_bits_def lower_half_def upper_half_def mk_net_def)
  then show "num_addresses n = 2 * num_addresses (lower_half n)" "num_addresses (upper_half n) = num_addresses (lower_half n)"
    by (simp_all add: num_addresses_def)
qed

lemma halves_fields:
  "nw_ver (lower_half n) = nw_ver n" "nw_ver (upper_half n) = nw_ver n"
  "nw_len (lower_half n) = Suc (nw_len n)" "nw_len (upper_half n) = Suc (nw_len n)"
  "nw_base (lower_half n) = nw_base n" "nw_base (upper_half n) = nw_base n + num_addresses n div 2"
  "nw_zone (lower_half n) = []" "nw_zone (upper_half n) = []"
  by (simp_all add: lower_half_def upper_half_def mk_net_def)

lemma valid_fits:
  assumes "valid_net n"
  shows "nw_base n + num_addresses n \<le> 2 ^ ip_bits (nw_ver n)"
proof -
  let ?B = "2 ^ ip_bits (nw_ver n) :: nat"
  have d: "num_addresses n dvd ?B" unfolding num_addresses_def host_bits_def by (intro le_imp_power_dvd) simp
  obtain q where q: "?B = num_addresses n * q" using d by (rule dvdE)
  have "num_addresses n dvd nw_base n" using assms by (simp add: valid_net_def)
  then obtain k where k: "nw_base n = num_addresses n * k" by (rule dvdE)
  have "nw_base n < ?B" using assms by (simp add: valid_net_def)
  then have "k < q" unfolding q k mult_less_cancel1 by simp
  then have "num_addresses n * (k + 1) \<le> num_addresses n * q" by (intro mult_le_mono2) simp
  then show ?thesis unfolding q k by simp
qed

lemma halves_valid:
  assumes "valid_net n" "host_bits n \<noteq> 0"
  shows "valid_net (lower_half n)" "valid_net (upper_half n)"
proof -
  let ?h = "num_addresses (lower_half n)"
  have h: "num_addresses n = 2 * ?h" "num_addresses (upper_half n) = ?h" using assms(2) by (rule halves_len)+
  have "2 * ?h dvd nw_base n" using assms(1) unfolding valid_net_def h(1) [symmetric] by simp
  then have d: "?h dvd nw_base n" by (rule dvd_mult_right)
  have l: "Suc (nw_len n) \<le> ip_bits (nw_ver n)" using assms by (simp add: host_bits_def)
  have b: "nw_base n < 2 ^ ip_bits (nw_ver n)" using assms(1) by (simp add: valid_net_def)
  show "valid_net (lower_half n)" using d l b unfolding valid_net_def halves_fields by simp
  have "nw_base n + 2 * ?h \<le> 2 ^ ip_bits (nw_ver n)" using valid_fits [OF assms(1)] h(1) by simp
  moreover have "0 < ?h" by simp
  ultimately have "nw_base n + ?h < 2 ^ ip_bits (nw_ver n)" by linarith
  then show "valid_net (upper_half n)" using d l unfolding valid_net_def halves_fields h by simp
qed

lemma halves_addresses:
  assumes "host_bits n \<noteq> 0"
  shows "addresses n = addresses (lower_half n) \<union> addresses (upper_half n)"
    "addresses (lower_half n) \<inter> addresses (upper_half n) = {}"
  using halves_len [OF assms] by (auto simp: addresses_def halves_fields)

text \<open>The difference: a proper part is one half, or lies in one half.\<close>

lemma proper_part_longer:
  assumes n: "valid_net n" and other: "valid_net other" and sub: "addresses other \<subseteq> addresses n" and neq: "other \<noteq> n"
  shows "nw_len n < nw_len other"
proof (rule ccontr)
  assume "\<not> nw_len n < nw_len other"
  then have le: "nw_len other \<le> nw_len n" by simp
  have "(nw_ver other, nw_base other) \<in> addresses n" using base_in sub by (rule subsetD [rotated])
  then have "addresses n \<subseteq> addresses other" by (rule valid_nested [OF n other _ base_in le])
  then have "addresses other = addresses n" using sub by (rule subset_antisym [rotated])
  then have "other = n" by (rule same_addresses [OF other n])
  then show False using neq by contradiction
qed

lemma part_in_half:
  assumes n: "valid_net n" and other: "valid_net other" and sub: "addresses other \<subseteq> addresses n" and neq: "other \<noteq> n"
  shows "host_bits n \<noteq> 0" "addresses other \<subseteq> addresses (lower_half n) \<or> addresses other \<subseteq> addresses (upper_half n)"
proof -
  have ver: "nw_ver other = nw_ver n" by (rule subset_len(1) [OF other n sub])
  have lt: "nw_len n < nw_len other" by (rule proper_part_longer [OF assms])
  have "nw_len other \<le> ip_bits (nw_ver n)" using other unfolding valid_net_def ver by blast
  with lt show h: "host_bits n \<noteq> 0" unfolding host_bits_def by simp
  have le: "nw_len (lower_half n) \<le> nw_len other" "nw_len (upper_half n) \<le> nw_len other"
    using lt unfolding halves_fields by simp_all
  have "(nw_ver other, nw_base other) \<in> addresses n" using base_in sub by (rule subsetD [rotated])
  then consider "(nw_ver other, nw_base other) \<in> addresses (lower_half n)" | "(nw_ver other, nw_base other) \<in> addresses (upper_half n)"
    unfolding halves_addresses(1) [OF h] by blast
  then show "addresses other \<subseteq> addresses (lower_half n) \<or> addresses other \<subseteq> addresses (upper_half n)"
  proof cases
    case 1
    then show ?thesis using valid_nested [OF other halves_valid(1) [OF n h] base_in _ le(1)] by blast
  next
    case 2
    then show ?thesis using valid_nested [OF other halves_valid(2) [OF n h] base_in _ le(2)] by blast
  qed
qed

lemma exclude_part_half:
  assumes "host_bits n \<noteq> 0" "lower_half n = other \<or> upper_half n = other"
  shows "\<exists>rest. exclude_part n other = Some [rest] \<and> (rest = lower_half n \<or> rest = upper_half n) \<and>
    addresses n - addresses other = addresses rest"
proof (cases "lower_half n = other")
  case True
  then have "exclude_part n other = Some [upper_half n]" using assms(1) by (subst exclude_part.simps) (simp add: Let_def)
  moreover have "addresses n - addresses other = addresses (upper_half n)"
    using halves_addresses [OF assms(1)] True by blast
  ultimately show ?thesis by blast
next
  case False
  then have "exclude_part n other = Some [lower_half n]" using assms by (subst exclude_part.simps) (simp add: Let_def)
  moreover have "addresses n - addresses other = addresses (lower_half n)"
    using halves_addresses [OF assms(1)] False assms(2) by blast
  ultimately show ?thesis by blast
qed

lemma exclude_part_below:
  assumes "host_bits n \<noteq> 0" "lower_half n \<noteq> other" "upper_half n \<noteq> other"
  shows "subnet_of other (lower_half n) \<Longrightarrow> exclude_part n other = map_option (\<lambda>rest. upper_half n # rest) (exclude_part (lower_half n) other)"
    "\<not> subnet_of other (lower_half n) \<Longrightarrow> subnet_of other (upper_half n) \<Longrightarrow>
       exclude_part n other = map_option (\<lambda>rest. lower_half n # rest) (exclude_part (upper_half n) other)"
  using assms by (simp_all add: exclude_part.simps [of n other] Let_def)

lemma subnet_of_halves:
  assumes "valid_net n" "host_bits n \<noteq> 0" "valid_net other" "nw_ver other = nw_ver n"
  shows "subnet_of other (lower_half n) \<longleftrightarrow> addresses other \<subseteq> addresses (lower_half n)"
    "subnet_of other (upper_half n) \<longleftrightarrow> addresses other \<subseteq> addresses (upper_half n)"
proof -
  have "nw_ver other = nw_ver (lower_half n)" "nw_ver other = nw_ver (upper_half n)"
    using assms(4) by (simp_all only: halves_fields)
  then show "subnet_of other (lower_half n) \<longleftrightarrow> addresses other \<subseteq> addresses (lower_half n)"
    "subnet_of other (upper_half n) \<longleftrightarrow> addresses other \<subseteq> addresses (upper_half n)"
    using valid_subset_iff [OF assms(3) halves_valid(1) [OF assms(1,2)]] valid_subset_iff [OF assms(3) halves_valid(2) [OF assms(1,2)]]
    by blast+
qed

definition splits :: "ip_net \<Rightarrow> ip_net \<Rightarrow> ip_net list \<Rightarrow> bool" where
  "splits n other ns \<longleftrightarrow> addresses_of ns = addresses n - addresses other \<and> (\<forall>m \<in> set ns. valid_net m \<and> nw_ver m = nw_ver n)"

lemma splits_half:
  assumes "splits l other ns" "addresses n = addresses l \<union> addresses u" "addresses l \<inter> addresses u = {}"
    "addresses other \<subseteq> addresses l" "valid_net u" "nw_ver l = nw_ver n" "nw_ver u = nw_ver n"
  shows "splits n other (u # ns)"
proof -
  have "addresses_of (u # ns) = addresses n - addresses other"
    using assms(1-4) unfolding splits_def addresses_of_simps by blast
  with assms show ?thesis by (simp add: splits_def)
qed

lemma exclude_part_correct:
  assumes "valid_net n" "valid_net other" "addresses other \<subseteq> addresses n" "other \<noteq> n"
  shows "\<exists>ns. exclude_part n other = Some ns \<and> splits n other ns"
  using assms
proof (induction "host_bits n" arbitrary: n rule: less_induct)
  case less
  let ?lo = "lower_half n" and ?hi = "upper_half n"
  note h = part_in_half(1) [OF less.prems]
  have smaller: "host_bits ?lo < host_bits n" "host_bits ?hi < host_bits n"
    using h by (simp_all add: host_bits_def halves_fields)
  note v = halves_valid [OF less.prems(1) h]
  note parts = halves_addresses [OF h]
  have ver: "nw_ver other = nw_ver n" using subset_len(1) [OF less.prems(2,1,3)] .
  note sub = subnet_of_halves [OF less.prems(1) h less.prems(2) ver]
  show ?case
  proof (cases "?lo = other \<or> ?hi = other")
    case True
    obtain rest where "exclude_part n other = Some [rest]" "rest = ?lo \<or> rest = ?hi" "addresses n - addresses other = addresses rest"
      using exclude_part_half [OF h True] by blast
    moreover have "valid_net rest \<and> nw_ver rest = nw_ver n" using v calculation(2) halves_fields(1,2) by metis
    ultimately show ?thesis by (simp add: splits_def)
  next
    case False
    then have neq: "?lo \<noteq> other" "?hi \<noteq> other" by simp_all
    show ?thesis
    proof (cases "addresses other \<subseteq> addresses ?lo")
      case True
      obtain ns where ns: "exclude_part ?lo other = Some ns" "splits ?lo other ns"
        using less.hyps [OF smaller(1) v(1) less.prems(2) True neq(1) [symmetric]] by blast
      have "splits n other (?hi # ns)" using splits_half [OF ns(2) parts True v(2) halves_fields(1,2)] .
      then show ?thesis using exclude_part_below(1) [OF h neq iffD2 [OF sub(1) True]] ns(1) by simp
    next
      case False
      have hi: "addresses other \<subseteq> addresses ?hi" using part_in_half(2) [OF less.prems] False by blast
      have not_lo: "\<not> subnet_of other ?lo" using False sub(1) by blast
      obtain ns where ns: "exclude_part ?hi other = Some ns" "splits ?hi other ns"
        using less.hyps [OF smaller(2) v(2) less.prems(2) hi neq(2) [symmetric]] by blast
      have "addresses n = addresses ?hi \<union> addresses ?lo" "addresses ?hi \<inter> addresses ?lo = {}" using parts by blast+
      from splits_half [OF ns(2) this hi v(1) halves_fields(2,1)] have "splits n other (?lo # ns)" .
      then show ?thesis using exclude_part_below(2) [OF h neq not_lo iffD2 [OF sub(2) hi]] ns(1) by simp
    qed
  qed
qed

lemma address_exclude_correct:
  assumes "valid_net n" "valid_net other" "addresses other \<subseteq> addresses n"
  shows "\<exists>ns. address_exclude n other = Some ns \<and> splits n other ns"
proof (cases "other = n")
  case True
  then show ?thesis by (simp add: address_exclude_def splits_def subnet_of_def)
next
  case False
  have ver: "nw_ver other = nw_ver n" using subset_len(1) [OF assms(2,1,3)] .
  have "subnet_of other n" using valid_subset_iff [OF assms(2,1) ver] assms(3) by blast
  then have "address_exclude n other = exclude_part n other" using ver False by (simp add: address_exclude_def)
  then show ?thesis using exclude_part_correct [OF assms False] by simp
qed

subsection \<open>The summary of a range\<close>

lemma trailing_zeros_dvd: "2 ^ trailing_zeros b n dvd n"
  by (induction b n rule: trailing_zeros.induct) (auto elim!: evenE)

lemma trailing_zeros_le: "trailing_zeros b n \<le> b"
  by (induction b n rule: trailing_zeros.induct) auto

lemma bit_len_le: "0 < n \<Longrightarrow> 2 ^ (bit_len n - 1) \<le> n"
proof (induction n rule: bit_len.induct)
  case (1 n)
  show ?case
  proof (cases "n div 2 = 0")
    case True
    then show ?thesis using "1.prems" by (simp add: bit_len.simps [of n] bit_len.simps [of 0])
  next
    case False
    then have "2 ^ (bit_len (n div 2) - 1) \<le> n div 2" "0 < bit_len (n div 2)"
      using "1.IH" "1.prems" by (simp_all add: bit_len.simps [of "n div 2"])
    then have "2 ^ bit_len (n div 2) \<le> n"
      using power_Suc [of "2::nat" "bit_len (n div 2) - 1"] by simp
    then show ?thesis using "1.prems" by (simp add: bit_len.simps [of n])
  qed
qed

lemma block_bits:
  assumes "first \<le> final"
  shows "2 ^ block_bits v first final dvd first" "first + 2 ^ block_bits v first final \<le> Suc final"
    "block_bits v first final \<le> ip_bits v"
proof -
  let ?k = "block_bits v first final"
  have k: "?k \<le> trailing_zeros (ip_bits v) first" "?k \<le> bit_len (final - first + 1) - 1" by (simp_all add: block_bits_def)
  have "(2::nat) ^ ?k dvd 2 ^ trailing_zeros (ip_bits v) first" using k(1) by (rule le_imp_power_dvd)
  then show "2 ^ ?k dvd first" using trailing_zeros_dvd by (rule dvd_trans)
  have "(2::nat) ^ ?k \<le> 2 ^ (bit_len (final - first + 1) - 1)" using k(2) by (rule power_increasing) simp
  also have "\<dots> \<le> final - first + 1" by (rule bit_len_le) simp
  finally show "first + 2 ^ ?k \<le> Suc final" using assms by simp
  show "?k \<le> ip_bits v" using k(1) trailing_zeros_le [of "ip_bits v" first] by (rule order_trans)
qed

lemma block_net:
  assumes "first \<le> final" "final < 2 ^ ip_bits v"
  shows "valid_net (mk_net v first (ip_bits v - block_bits v first final))"
    "addresses (mk_net v first (ip_bits v - block_bits v first final)) = {v} \<times> {first ..< first + 2 ^ block_bits v first final}"
proof -
  have "num_addresses (mk_net v first (ip_bits v - block_bits v first final)) = 2 ^ block_bits v first final"
    using block_bits(3) [OF assms(1)] by (simp add: num_addresses_def host_bits_def mk_net_def)
  then show "valid_net (mk_net v first (ip_bits v - block_bits v first final))"
    "addresses (mk_net v first (ip_bits v - block_bits v first final)) = {v} \<times> {first ..< first + 2 ^ block_bits v first final}"
    using block_bits(1) [OF assms(1)] assms by (simp_all add: valid_net_def addresses_def mk_net_def)
qed

lemma summary_correct:
  "final < 2 ^ ip_bits v \<Longrightarrow> addresses_of (summary v first final) = {v} \<times> {first .. final} \<and>
     (\<forall>n \<in> set (summary v first final). valid_net n \<and> nw_ver n = v)"
proof (induction v first final rule: summary.induct)
  case (1 v first final)
  show ?case
  proof (cases "final < first")
    case True
    then show ?thesis by (simp add: summary.simps [of v first])
  next
    case False
    then have le: "first \<le> final" by simp
    define k where "k = block_bits v first final"
    define n where "n = mk_net v first (ip_bits v - k)"
    have n: "valid_net n" "addresses n = {v} \<times> {first ..< first + 2 ^ k}" "nw_ver n = v"
      using block_net [OF le "1.prems"] by (simp_all add: n_def k_def mk_net_def)
    have fit: "first + 2 ^ k \<le> Suc final" using block_bits(2) [OF le] by (simp add: k_def)
    have step: "summary v first final = (if first + 2 ^ k - 1 = 2 ^ ip_bits v - 1 then [n] else n # summary v (first + 2 ^ k) final)"
      using False by (simp add: summary.simps [of v first] Let_def k_def n_def)
    show ?thesis
    proof (cases "first + 2 ^ k - 1 = 2 ^ ip_bits v - 1")
      case True
      moreover have "(0::nat) < 2 ^ k" "(0::nat) < 2 ^ ip_bits v" by simp_all
      ultimately have "first + 2 ^ k = Suc final" using fit "1.prems" by linarith
      then have "{first ..< first + 2 ^ k} = {first .. final}" by (simp add: atLeastLessThanSuc_atLeastAtMost)
      then show ?thesis using step True n by simp
    next
      case False
      have "addresses_of (summary v (first + 2 ^ k) final) = {v} \<times> {first + 2 ^ k .. final} \<and>
          (\<forall>n \<in> set (summary v (first + 2 ^ k) final). valid_net n \<and> nw_ver n = v)"
        using "1.IH" [OF _ k_def n_def refl False "1.prems"] le by simp
      moreover have "{first ..< first + 2 ^ k} \<union> {first + 2 ^ k .. final} = {first .. final}" using fit by auto
      ultimately show ?thesis using step False n by (simp flip: Sigma_Un_distrib2)
    qed
  qed
qed

subsection \<open>Merging\<close>

lemma supernet_fields:
  assumes "valid_net n" "nw_len n \<noteq> 0"
  shows "nw_len (supernet n) = nw_len n - 1" "nw_ver (supernet n) = nw_ver n"
    "num_addresses (supernet n) = 2 * num_addresses n"
    "nw_base (supernet n) = nw_base n div (2 * num_addresses n) * (2 * num_addresses n)" "nw_zone (supernet n) = []"
proof -
  show *: "nw_len (supernet n) = nw_len n - 1" "nw_ver (supernet n) = nw_ver n"
    "nw_base (supernet n) = nw_base n div (2 * num_addresses n) * (2 * num_addresses n)" "nw_zone (supernet n) = []"
    using assms(2) by (simp_all add: supernet_def mk_net_def)
  have "nw_len n \<le> ip_bits (nw_ver n)" using assms(1) by (simp add: valid_net_def)
  then have "host_bits (supernet n) = Suc (host_bits n)" using assms(2) unfolding host_bits_def * by simp
  then show "num_addresses (supernet n) = 2 * num_addresses n" by (simp add: num_addresses_def)
qed

lemma supernet_top: "nw_len n = 0 \<Longrightarrow> supernet n = n"
  by (simp add: supernet_def)

lemma supernet_valid:
  assumes "valid_net n"
  shows "valid_net (supernet n)" "addresses n \<subseteq> addresses (supernet n)" "nw_ver (supernet n) = nw_ver n"
proof -
  have "valid_net (supernet n) \<and> addresses n \<subseteq> addresses (supernet n) \<and> nw_ver (supernet n) = nw_ver n"
  proof (cases "nw_len n = 0")
    case True
    then show ?thesis using assms by (simp add: supernet_top)
  next
    case False
    note f = supernet_fields [OF assms False]
    have "nw_base (supernet n) \<le> nw_base n" unfolding f by simp
    moreover have "nw_base n < nw_base (supernet n) + num_addresses (supernet n)"
      unfolding f using dividend_less_div_times [of "2 * num_addresses n" "nw_base n"] by (simp add: add.commute)
    ultimately have mem: "(nw_ver n, nw_base n) \<in> addresses (supernet n)" unfolding addresses_iff f(2) by simp
    have v: "valid_net (supernet n)"
      using assms le_less_trans [OF \<open>nw_base (supernet n) \<le> nw_base n\<close>] f(1-3,5) unfolding valid_net_def by (auto simp: f(4))
    have "nw_len (supernet n) \<le> nw_len n" unfolding f(1) by simp
    from valid_nested [OF assms v base_in mem this] v f(2) show ?thesis by simp
  qed
  then show "valid_net (supernet n)" "addresses n \<subseteq> addresses (supernet n)" "nw_ver (supernet n) = nw_ver n" by simp_all
qed

lemma half_of_supernet:
  assumes n: "valid_net n" "nw_len n \<noteq> 0"
  shows "host_bits (supernet n) \<noteq> 0" "n = lower_half (supernet n) \<or> n = upper_half (supernet n)"
proof -
  let ?s = "supernet n"
  note s = supernet_valid [OF n(1)]
  note len = supernet_fields(1) [OF n]
  have "n \<noteq> ?s" using len n(2) by (metis diff_less less_irrefl neq0_conv zero_less_one)
  note in_half = part_in_half [OF s(1) n(1) s(2) this]
  show h: "host_bits ?s \<noteq> 0" by (rule in_half(1))
  have same: "n = m" if m: "valid_net m" "addresses n \<subseteq> addresses m" "nw_len m = Suc (nw_len ?s)" for m
  proof (rule same_addresses [OF n(1) m(1)])
    have "nw_len n \<le> nw_len m" using m(3) len n(2) by simp
    moreover have "(nw_ver n, nw_base n) \<in> addresses m" using base_in m(2) by (rule subsetD [rotated])
    ultimately have "addresses m \<subseteq> addresses n" by (intro valid_nested [OF m(1) n(1) _ base_in])
    with m(2) show "addresses n = addresses m" by (rule subset_antisym)
  qed
  from in_half(2) show "n = lower_half ?s \<or> n = upper_half ?s"
    using same [OF halves_valid(1) [OF s(1) h] _ halves_fields(3)] same [OF halves_valid(2) [OF s(1) h] _ halves_fields(4)] by blast
qed

lemma same_supernet:
  assumes m: "valid_net m" and n: "valid_net n" and eq: "supernet m = supernet n" and neq: "m \<noteq> n"
  shows "addresses (supernet n) = addresses m \<union> addresses n"
proof -
  note sub = supernet_valid(2) [OF m] supernet_valid(2) [OF n]
  consider "nw_len m = 0" | "nw_len n = 0" | "nw_len m \<noteq> 0" "nw_len n \<noteq> 0" by blast
  then show ?thesis
  proof cases
    case 1
    then show ?thesis using sub eq supernet_top [of m] by auto
  next
    case 2
    then show ?thesis using sub eq supernet_top [of n] by auto
  next
    case 3
    note halves_m = half_of_supernet [OF m 3(1)] and halves_n = half_of_supernet [OF n 3(2)]
    have "m = lower_half (supernet n) \<or> m = upper_half (supernet n)" using halves_m(2) unfolding eq .
    then show ?thesis using halves_addresses(1) [OF halves_n(1)] halves_n(2) neq by (metis Un_commute)
  qed
qed

lemma addresses_of_found:
  assumes "distinct (map fst found)" "map_of found k = Some m"
  shows "addresses_of (map snd found) = addresses m \<union> addresses_of (map snd (filter (\<lambda>(s, _). s \<noteq> k) found))"
    "distinct (map fst (filter (\<lambda>(s, _). s \<noteq> k) found))" "(k, m) \<in> set found"
proof -
  show mem: "(k, m) \<in> set found" using assms(2) by (rule map_of_SomeD)
  have "p = (k, m)" if "p \<in> set found" "fst p = k" for p
    using assms that by (metis eq_key_imp_eq_value mem prod.collapse)
  then have "set found = insert (k, m) (set (filter (\<lambda>(s, _). s \<noteq> k) found))" using mem by fastforce
  from arg_cong [OF this, of "image snd"]
  have "set (map snd found) = insert m (set (map snd (filter (\<lambda>(s, _). s \<noteq> k) found)))" unfolding set_map by simp
  then show "addresses_of (map snd found) = addresses m \<union> addresses_of (map snd (filter (\<lambda>(s, _). s \<noteq> k) found))"
    unfolding addresses_of_def by (simp only: image_insert Union_insert)
  show "distinct (map fst (filter (\<lambda>(s, _). s \<noteq> k) found))" using assms(1) by (rule distinct_map_filter)
qed

definition merging :: "ip_version \<Rightarrow> ip_net list \<Rightarrow> (ip_net \<times> ip_net) list \<Rightarrow> bool" where
  "merging v todo found \<longleftrightarrow> (\<forall>n \<in> set todo. valid_net n \<and> nw_ver n = v) \<and>
     (\<forall>(s, n) \<in> set found. s = supernet n \<and> valid_net n \<and> nw_ver n = v) \<and> distinct (map fst found)"

lemma merge_halves_unfold:
  "map_of found (supernet n) = None \<Longrightarrow> merge_halves (n # todo) found = merge_halves todo (found @ [(supernet n, n)])"
  "map_of found (supernet n) = Some n \<Longrightarrow> merge_halves (n # todo) found = merge_halves todo found"
  "map_of found (supernet n) = Some other \<Longrightarrow> other \<noteq> n \<Longrightarrow>
     merge_halves (n # todo) found = merge_halves (supernet n # todo) (filter (\<lambda>(s, _). s \<noteq> supernet n) found)"
  by (simp_all add: merge_halves.simps(2) [of n])

lemma merging_step:
  assumes "merging v (n # todo) found"
  shows "map_of found (supernet n) = None \<Longrightarrow> merging v todo (found @ [(supernet n, n)])"
    "merging v todo found"
    "merging v (supernet n # todo) (filter (\<lambda>(s, _). s \<noteq> supernet n) found)"
proof -
  have n: "valid_net n" "nw_ver n = v" and d: "distinct (map fst found)" using assms by (simp_all add: merging_def)
  show "merging v todo found" using assms by (simp add: merging_def)
  show "merging v todo (found @ [(supernet n, n)])" if none: "map_of found (supernet n) = None"
  proof -
    have "supernet n \<notin> set (map fst found)" using none by (simp add: map_of_eq_None_iff)
    then show ?thesis using assms n by (simp add: merging_def)
  qed
  show "merging v (supernet n # todo) (filter (\<lambda>(s, _). s \<noteq> supernet n) found)"
    using assms supernet_valid(1,3) [OF n(1)] n(2) distinct_map_filter [OF d] by (simp add: merging_def)
qed

lemma merging_found:
  assumes "merging v todo found" "(s, m) \<in> set found"
  shows "supernet m = s" "valid_net m" "nw_ver m = v"
proof -
  have "\<forall>(s, n) \<in> set found. s = supernet n \<and> valid_net n \<and> nw_ver n = v" using assms(1) unfolding merging_def by blast
  from bspec [OF this assms(2)] show "supernet m = s" "valid_net m" "nw_ver m = v" by simp_all
qed

definition merged :: "ip_version \<Rightarrow> ip_net list \<Rightarrow> (ip_version \<times> nat) set \<Rightarrow> bool" where
  "merged v ns A \<longleftrightarrow> addresses_of ns = A \<and> (\<forall>n \<in> set ns. valid_net n \<and> nw_ver n = v)"

lemma merged_all:
  assumes "merging v todo found"
  shows "merged v (map snd found) (addresses_of (map snd found))"
proof -
  have "valid_net m \<and> nw_ver m = v" if m: "m \<in> set (map snd found)" for m
  proof -
    obtain s where "(s, m) \<in> set found" using m by auto
    from merging_found [OF assms this] show ?thesis by simp
  qed
  then show ?thesis by (simp only: merged_def) blast
qed

lemma merge_halves_correct:
  "merging v todo found \<Longrightarrow> merged v (merge_halves todo found) (addresses_of todo \<union> addresses_of (map snd found))"
proof (induction todo found rule: merge_halves.induct)
  case (1 found)
  from merged_all [OF this] show ?case unfolding merge_halves.simps(1) addresses_of_simps by (simp only: Un_empty_left)
next
  case (2 n todo found)
  note steps = merging_step [OF "2.prems"]
  have n: "valid_net n" using "2.prems" by (simp add: merging_def)
  show ?case
  proof (cases "map_of found (supernet n)")
    case None
    have "addresses_of (n # todo) \<union> addresses_of (map snd found) =
        addresses_of todo \<union> addresses_of (map snd (found @ [(supernet n, n)]))"
      unfolding map_append addresses_of_simps by (simp only: list.map snd_conv addresses_of_simps) blast
    then show ?thesis using "2.IH"(1) [OF None steps(1) [OF None]] unfolding merge_halves_unfold(1) [OF None] by (simp only:)
  next
    case (Some other)
    have d: "distinct (map fst found)" using "2.prems" by (simp add: merging_def)
    note found = addresses_of_found [OF d Some]
    note other = merging_found [OF "2.prems" found(3)]
    show ?thesis
    proof (cases "other = n")
      case True
      have "addresses_of (n # todo) \<union> addresses_of (map snd found) = addresses_of todo \<union> addresses_of (map snd found)"
        unfolding addresses_of_simps found(1) True by blast
      then show ?thesis using "2.IH"(2) [OF Some True steps(2)]
        unfolding merge_halves_unfold(2) [OF Some [unfolded True]] by (simp only:)
    next
      case False
      have "addresses_of (n # todo) \<union> addresses_of (map snd found) =
          addresses_of (supernet n # todo) \<union> addresses_of (map snd (filter (\<lambda>(s, _). s \<noteq> supernet n) found))"
        unfolding addresses_of_simps same_supernet [OF other(2) n other(1) False] found(1) by blast
      then show ?thesis using "2.IH"(3) [OF Some False steps(3)]
        unfolding merge_halves_unfold(3) [OF Some False] by (simp only:)
    qed
  qed
qed

lemma drop_subsumed_step_covers:
  assumes "nw_ver n = v" "\<forall>m \<in> set kept. nw_ver m = v \<and> nw_base m \<le> nw_base n"
  shows "addresses_of (drop_subsumed_step n kept) = addresses n \<union> addresses_of kept"
proof (cases kept)
  case (Cons m ms)
  show ?thesis
  proof (cases "broadcast n \<le> broadcast m")
    case True
    then have "nw_base n + num_addresses n \<le> nw_base m + num_addresses m"
      using num_addresses_pos(1) [of n] num_addresses_pos(1) [of m] unfolding broadcast_def by linarith
    then have "addresses n \<subseteq> addresses m" using assms Cons by (intro addresses_mono) simp_all
    then show ?thesis using True Cons by (auto simp: drop_subsumed_step_def)
  qed (simp add: drop_subsumed_step_def Cons)
qed (simp add: drop_subsumed_step_def)

lemma drop_subsumed_fold:
  assumes "sorted (map nw_base ns)" "\<forall>m \<in> set ns. nw_ver m = v"
    "\<forall>m \<in> set kept. nw_ver m = v \<and> (\<forall>n \<in> set ns. nw_base m \<le> nw_base n)"
  shows "addresses_of (fold drop_subsumed_step ns kept) = addresses_of ns \<union> addresses_of kept \<and>
    set (fold drop_subsumed_step ns kept) \<subseteq> set ns \<union> set kept"
  using assms
proof (induction ns arbitrary: kept)
  case (Cons n ns)
  let ?kept = "drop_subsumed_step n kept"
  have sub: "set ?kept \<subseteq> insert n (set kept)" by (auto simp: drop_subsumed_step_def split: list.splits)
  have "addresses_of ?kept = addresses n \<union> addresses_of kept"
    using Cons.prems by (intro drop_subsumed_step_covers [where v = v]) simp_all
  moreover have "\<forall>m \<in> set ?kept. nw_ver m = v \<and> (\<forall>n \<in> set ns. nw_base m \<le> nw_base n)"
    using sub Cons.prems by auto
  ultimately show ?case using Cons.IH [of ?kept] Cons.prems sub by (simp add: Un_ac) blast
qed simp

lemma collapse_internal_correct:
  assumes "\<forall>n \<in> set ns. valid_net n \<and> nw_ver n = v"
  shows "addresses_of (collapse_internal ns) = addresses_of ns \<and>
    (\<forall>n \<in> set (collapse_internal ns). valid_net n \<and> nw_ver n = v)"
proof -
  let ?merged = "merge_halves (rev ns) []" and ?key = "\<lambda>n. (nw_base n, nw_len n)"
  have "merging v (rev ns) []" using assms by (simp add: merging_def)
  from merge_halves_correct [OF this]
  have m: "addresses_of ?merged = addresses_of ns" "\<forall>n \<in> set ?merged. valid_net n \<and> nw_ver n = v"
    by (simp_all add: merged_def addresses_of_def [of "rev ns"] addresses_of_def [of ns])
  have "sorted (map ?key (sorted_by ?key ?merged))" by (simp add: sorted_by_def)
  then have "sorted (map nw_base (sorted_by ?key ?merged))"
    by (auto simp: sorted_map elim!: sorted_wrt_mono_rel [rotated])
  from drop_subsumed_fold [OF this, of v "[]"] m
  show ?thesis by (auto simp: collapse_internal_def drop_subsumed_def addresses_of_def)
qed

lemma find_runs_correct:
  assumes "sorted_wrt (<) as" "\<forall>a \<in> set as. final < a" "first \<le> final"
  shows "(\<Union>(a, b) \<in> set (find_runs first final as). {a .. b}) = {first .. final} \<union> set as"
  using assms
proof (induction first final as rule: find_runs.induct)
  case (2 first final a as)
  show ?case
  proof (cases "a = final + 1")
    case True
    have "(\<Union>(a, b) \<in> set (find_runs first a as). {a .. b}) = {first .. a} \<union> set as"
      using "2.prems" True by (intro "2.IH"(2)) auto
    moreover have "{first .. a} = insert a {first .. final}" using True "2.prems"(3) by auto
    ultimately show ?thesis using True by auto
  next
    case False
    have "(\<Union>(a, b) \<in> set (find_runs a a as). {a .. b}) = {a .. a} \<union> set as"
      using "2.prems" False by (intro "2.IH"(1)) auto
    then show ?thesis using False by auto
  qed
qed auto

lemma find_runs_ordered:
  "(a, b) \<in> set (find_runs first final as) \<Longrightarrow> first \<le> final \<Longrightarrow> \<forall>x \<in> set as. final \<le> x \<Longrightarrow> sorted as \<Longrightarrow>
     a \<le> b \<and> (b = final \<or> b \<in> set as)"
proof (induction first final as rule: find_runs.induct)
  case (2 first final x as)
  then show ?case by (cases "x = final + 1") auto
qed simp

lemma single_addresses_correct:
  assumes "\<forall>n \<in> set ns. valid_net n \<and> nw_ver n = v"
  shows "sorted_wrt (<) (single_addresses ns)"
    "{v} \<times> set (single_addresses ns) = addresses_of (filter (\<lambda>n. host_bits n = 0) ns)"
    "\<forall>a \<in> set (single_addresses ns). a < 2 ^ ip_bits v"
proof -
  let ?one = "filter (\<lambda>n. host_bits n = 0) ns"
  let ?pairs = "remdups (map (\<lambda>n. (nw_base n, nw_zone n)) ?one)"
  have zone: "\<forall>p \<in> set ?pairs. snd p = []" using assms by (auto simp: valid_net_def)
  then have "inj_on fst (set ?pairs)" by (auto simp: inj_on_def)
  then have "distinct (map fst ?pairs)" by (simp only: distinct_map) simp
  then have "distinct (map fst (sorted_by fst ?pairs))" 
    by (simp only: sorted_by_def distinct_map set_sort distinct_sort)
  moreover have "sorted (map fst (sorted_by fst ?pairs))" unfolding sorted_by_def by simp
  ultimately show "sorted_wrt (<) (single_addresses ns)"
    unfolding single_addresses_def by (simp only: strict_sorted_iff)
  have set: "set (single_addresses ns) = nw_base ` set ?one"
    by (simp add: single_addresses_def image_image)
  have "addresses n = {v} \<times> {nw_base n}" if "n \<in> set ?one" for n
    using that assms by (auto simp: addresses_def num_addresses_def)
  then show "{v} \<times> set (single_addresses ns) = addresses_of ?one"
    unfolding set addresses_of_def by auto
  show "\<forall>a \<in> set (single_addresses ns). a < 2 ^ ip_bits v"
    unfolding set using assms by (auto simp: valid_net_def)
qed

definition run_networks :: "ip_version \<Rightarrow> nat list \<Rightarrow> ip_net list" where
  "run_networks v as = (case as of [] \<Rightarrow> [] | a # as \<Rightarrow> concat (map (\<lambda>(a, b). summary v a b) (find_runs a a as)))"

lemma run_networks_correct:
  assumes "sorted_wrt (<) as" "\<forall>a \<in> set as. a < 2 ^ ip_bits v"
  shows "merged v (run_networks v as) ({v} \<times> set as)"
proof (cases as)
  case (Cons a rest)
  let ?runs = "find_runs a a rest"
  have rest: "sorted_wrt (<) rest" "\<forall>x \<in> set rest. a < x" using assms(1) Cons by simp_all
  have small: "b < 2 ^ ip_bits v" if "(x, b) \<in> set ?runs" for x b
    using find_runs_ordered [OF that] rest assms(2) Cons by (auto simp: strict_sorted_imp_sorted less_imp_le)
  have each: "addresses_of (summary v x b) = {v} \<times> {x .. b}" "\<forall>n \<in> set (summary v x b). valid_net n \<and> nw_ver n = v"
    if "(x, b) \<in> set ?runs" for x b using summary_correct [OF small [OF that]] by simp_all
  have "addresses_of (concat (map (\<lambda>(a, b). summary v a b) ?runs)) = (\<Union>(x, b) \<in> set ?runs. addresses_of (summary v x b))"
    by (auto simp: addresses_of_def)
  also have "\<dots> = (\<Union>(x, b) \<in> set ?runs. {v} \<times> {x .. b})" using each(1) by (intro SUP_cong) auto
  also have "\<dots> = {v} \<times> (\<Union>(x, b) \<in> set ?runs. {x .. b})" by auto
  also have "\<dots> = {v} \<times> set as" using find_runs_correct [OF rest] Cons by simp
  finally show ?thesis using each(2) Cons by (fastforce simp: merged_def run_networks_def)
qed (simp add: merged_def run_networks_def)

theorem collapse_addresses_correct:
  assumes "\<forall>n \<in> set ns. valid_net n \<and> nw_ver n = v"
  shows "\<exists>ms. collapse_addresses ns = Some ms \<and> merged v ms (addresses_of ns)"
proof (cases ns)
  case Nil
  then show ?thesis by (simp add: collapse_addresses_def merged_def)
next
  case (Cons n rest)
  note one = single_addresses_correct [OF assms]
  let ?all = "run_networks v (single_addresses ns) @ filter (\<lambda>n. host_bits n \<noteq> 0) ns"
  have "collapse_addresses ns = Some (collapse_internal ?all)"
    using assms Cons by (auto simp: collapse_addresses_def run_networks_def Let_def split: list.splits)
  moreover have runs: "merged v (run_networks v (single_addresses ns)) ({v} \<times> set (single_addresses ns))"
    by (rule run_networks_correct [OF one(1,3)])
  then have "\<forall>n \<in> set ?all. valid_net n \<and> nw_ver n = v" using assms by (auto simp: merged_def)
  from collapse_internal_correct [OF this] have "merged v (collapse_internal ?all) (addresses_of ?all)" by (simp add: merged_def)
  moreover have "addresses_of ?all = addresses_of ns"
    using runs unfolding merged_def one(2) addresses_of_simps by (auto simp: addresses_of_def)
  ultimately show ?thesis by simp
qed

subsection \<open>What the parser accepts\<close>

lemma ip_address_bound: "ip_address s = Some (v, a) \<Longrightarrow> a < 2 ^ ip_bits v"
  by (auto simp: ip_address_def ip_bits_def dest: parse_ipv4_bound parse_ipv6_bound split: option.splits)

lemma mask_length_bound: "mask_length m = Some len \<Longrightarrow> len \<le> 32"
  by (auto simp: mask_length_def split: list.splits)

lemma prefix_length_bound: "prefix_length v m = Some len \<Longrightarrow> len \<le> ip_bits v"
  by (auto simp: prefix_length_def prefix_ok_def ip_bits_def dest: mask_length_bound
      split: if_splits ip_version.splits bind_splits)

lemma loose_net_valid:
  assumes "len \<le> ip_bits v" "a < 2 ^ ip_bits v" "nw_zone (loose_net v a zone len) = []"
  shows "valid_net (loose_net v a zone len)"
proof -
  let ?size = "2 ^ (ip_bits v - len) :: nat"
  have "a div ?size * ?size \<le> a" by simp
  then have "a div ?size * ?size < 2 ^ ip_bits v" using assms(2) by (rule le_less_trans)
  with assms show ?thesis
    by (auto simp: loose_net_def valid_net_def num_addresses_def host_bits_def mk_net_def Let_def split: if_splits)
qed

lemma split_on_subset: "x \<in> set (split_on c s) \<Longrightarrow> set x \<subseteq> set s"
  by (induction s arbitrary: x) (fastforce split: if_splits list.splits)+

lemma ip_network_cases:
  assumes "ip_network s = Some n"
  shows "\<exists>addr v a len. ip_address addr = Some (v, a) \<and> len \<le> ip_bits v \<and> n = loose_net v a (ip_zone addr) len \<and> set addr \<subseteq> set s"
proof -
  consider addr where "split_on CHR ''/'' s = [addr]" | addr m where "split_on CHR ''/'' s = [addr, m]"
    using assms by (auto simp: ip_network_def split: list.splits)
  then show ?thesis
  proof cases
    case 1
    then obtain v a where "ip_address addr = Some (v, a)" "n = loose_net v a (ip_zone addr) (ip_bits v)"
      using assms by (auto simp: ip_network_def)
    moreover have "set addr \<subseteq> set s" using split_on_subset [of addr "CHR ''/''" s] 1 by simp
    ultimately show ?thesis by (intro exI conjI) auto
  next
    case 2
    then obtain v a len where "ip_address addr = Some (v, a)" "n = loose_net v a (ip_zone addr) len" "prefix_length v m = Some len"
      using assms by (auto simp: ip_network_def split: bind_splits)
    moreover have "set addr \<subseteq> set s" using split_on_subset [of addr "CHR ''/''" s] 2 by simp
    ultimately show ?thesis using prefix_length_bound by (intro exI conjI) auto
  qed
qed

lemma ip_network_valid: "ip_network s = Some n \<Longrightarrow> nw_zone n = [] \<Longrightarrow> valid_net n"
  using ip_network_cases [of s n] by (auto intro: loose_net_valid ip_address_bound)

lemma ip_network_zone_free:
  assumes "ip_network s = Some n" "CHR ''%'' \<notin> set s"
  shows "nw_zone n = []"
proof -
  obtain addr v a len where "n = loose_net v a (ip_zone addr) len" "set addr \<subseteq> set s"
    using ip_network_cases [OF assms(1)] by blast
  moreover then have "ip_zone addr = []" using assms(2) by (auto simp: ip_zone_def)
  ultimately show ?thesis by (simp add: loose_net_def mk_net_def Let_def)
qed

end
