(* ===== verification/Exclusions.thy ===== *)
theory Exclusions
  imports Networks Access
begin

section \<open>Scan exclusions\<close>

text \<open>
  \<^verbatim>\<open>backend/app/scan_exclusions.py\<close> and \<^verbatim>\<open>backend/app/routers/exclusions.py\<close>: which
  addresses a scan must leave alone. An exclusion is an address, a network or a range; the
  effective ones of a scan are those of its scope chain; the targets of a run are the networks of
  the scan less the networks of the exclusions. \<open>subtract_exact\<close> shows that the subtraction is the
  exact set difference.

  An \<open>ExclusionError\<close> is a \<open>ServiceError\<close>; an exception of \<^verbatim>\<open>ipaddress\<close> is a \<open>PyError\<close>.
\<close>

abbreviation exclusion_error :: "string \<Rightarrow> app_error" where
  "exclusion_error detail \<equiv> ServiceError detail"

abbreviation value_error :: app_error where
  "value_error \<equiv> PyError ''ValueError''"

definition or_raise :: "app_error \<Rightarrow> 'a option \<Rightarrow> app_error + 'a" where
  "or_raise e r = (case r of None \<Rightarrow> Inl e | Some x \<Rightarrow> Inr x)"

subsection \<open>Normalisation\<close>

definition MAX_RANGE_SPAN :: nat where "MAX_RANGE_SPAN = 2 ^ 24"

definition normalize_range :: "string \<Rightarrow> app_error + string" where
  "normalize_range value = (if CHR ''-'' \<notin> set value then Inl (exclusion_error ''IP range must be start-end'')
     else let start_raw = fst (partition_on CHR ''-'' value); end_raw = snd (partition_on CHR ''-'' value) in
       if CHR ''-'' \<in> set end_raw then Inl (exclusion_error ''Malformed IP range'')
       else rbind (or_raise value_error (ip_address (strip start_raw))) (\<lambda>(v, start).
         rbind (or_raise value_error (ip_address (strip end_raw))) (\<lambda>(w, end).
         if v \<noteq> w then Inl (exclusion_error ''IP range versions must match'')
         else if end < start then Inl (exclusion_error ''Reversed IP range'')
         else if MAX_RANGE_SPAN < end - start then Inl (exclusion_error ''IP range is too large to store safely'')
         else Inr (ip_text (strip start_raw) @ ''-'' @ ip_text (strip end_raw)))))"

definition normalize_exclusion :: "string \<Rightarrow> string \<Rightarrow> app_error + (string \<times> string)" where
  "normalize_exclusion type value = (if type \<notin> set EXCLUSION_TYPES then Inl (exclusion_error ''Exclusion type must be ip, cidr, or range'')
     else let raw = strip value in
       if raw = [] then Inl (exclusion_error ''Exclusion value is required'')
       else if type = EXCLUSION_IP then
         (case ip_address raw of None \<Rightarrow> Inl value_error | Some _ \<Rightarrow> Inr (EXCLUSION_IP, ip_text raw))
       else if type = EXCLUSION_CIDR then
         (case ip_network raw of None \<Rightarrow> Inl value_error | Some n \<Rightarrow> Inr (EXCLUSION_CIDR, net_text n))
       else rbind (normalize_range raw) (\<lambda>text. Inr (EXCLUSION_RANGE, text)))"

definition exclusion_networks :: "string \<Rightarrow> string \<Rightarrow> app_error + ip_net list" where
  "exclusion_networks type value = (if type = EXCLUSION_IP \<or> type = EXCLUSION_CIDR then
       (if type = EXCLUSION_IP \<and> ip_address value = None then Inl value_error
        else rbind (or_raise value_error (ip_network value)) (\<lambda>n. Inr [n]))
     else let start_raw = fst (partition_on CHR ''-'' value); end_raw = snd (partition_on CHR ''-'' value) in
       rbind (or_raise value_error (ip_address start_raw)) (\<lambda>(v, start).
       rbind (or_raise value_error (ip_address end_raw)) (\<lambda>(w, end).
       if v \<noteq> w then Inl (PyError ''TypeError'')
       else or_raise value_error (summarize_range v (start, ip_zone start_raw) (end, ip_zone end_raw)))))"

subsection \<open>Subtraction\<close>

text \<open>\<open>_clip_overlap\<close> calls itself on a piece; the bound on the depth is never reached, because the
  function is called on no pair of valid networks.\<close>

definition summarize_ints :: "nat \<Rightarrow> nat \<Rightarrow> app_error + ip_net list" where
  \<comment> \<open>\<open>ip_address(n)\<close> of an integer is an IPv4 address when it is below \<open>2 ^ 32\<close>\<close>
  "summarize_ints start end = (let v = (\<lambda>a. if a < 2 ^ 32 then V4 else V6) in
     if v start \<noteq> v end then Inl (PyError ''TypeError'') else or_raise value_error (summarize_range (v start) (start, []) (end, [])))"

fun clip_overlap :: "nat \<Rightarrow> ip_net \<Rightarrow> ip_net \<Rightarrow> app_error + ip_net list" where
  "clip_overlap 0 n exclusion = Inl (PyError ''RecursionError'')"
| "clip_overlap (Suc fuel) n exclusion = (let start = max (nw_base n) (nw_base exclusion); end = min (broadcast n) (broadcast exclusion) in
     if end < start then Inr [n]
     else rbind (summarize_ints start end) (\<lambda>pieces.
       rfold (\<lambda>piece remaining. rfold (\<lambda>current nxt.
           if nw_ver current \<noteq> nw_ver piece \<or> \<not> overlaps current piece then Inr (nxt @ [current])
           else if subnet_of current piece \<or> piece = current then Inr nxt
           else if subnet_of piece current then
             rbind (or_raise value_error (address_exclude current piece)) (\<lambda>parts. Inr (nxt @ parts))
           else rbind (clip_overlap fuel current piece) (\<lambda>parts. Inr (nxt @ parts))) remaining []) pieces [n]))"

definition CLIP_DEPTH :: nat where "CLIP_DEPTH = 1000"

definition subtract_one :: "ip_net \<Rightarrow> ip_net \<Rightarrow> app_error + ip_net list" where
  "subtract_one n exclusion = (if subnet_of n exclusion \<or> exclusion = n then Inr []
     else if \<not> subnet_of exclusion n then clip_overlap CLIP_DEPTH n exclusion
     else or_raise value_error (address_exclude n exclusion))"

definition subtract_from :: "ip_net \<Rightarrow> ip_net \<Rightarrow> ip_net list \<Rightarrow> app_error + ip_net list" where
  "subtract_from exclusion n next_remaining =
     (if nw_ver n \<noteq> nw_ver exclusion \<or> \<not> overlaps n exclusion then Inr (next_remaining @ [n])
      else rbind (subtract_one n exclusion) (\<lambda>parts. Inr (next_remaining @ parts)))"

definition subtract_networks :: "ip_net list \<Rightarrow> ip_net list \<Rightarrow> app_error + ip_net list" where
  "subtract_networks targets exclusions =
     rbind (rfold (\<lambda>exclusion remaining. rfold (subtract_from exclusion) remaining []) exclusions targets) (\<lambda>remaining.
       or_raise (PyError ''TypeError'') (collapse_addresses remaining))"

definition ip_intersects_exclusions :: "string \<Rightarrow> ip_net list \<Rightarrow> bool" where
  "ip_intersects_exclusions ip exclusions = (case ip_address ip of None \<Rightarrow> False
     | Some (v, a) \<Rightarrow> list_ex (in_net v a) exclusions)"

definition apply_exclusions_to_cidrs :: "string list \<Rightarrow> ip_net list \<Rightarrow> app_error + string list" where
  "apply_exclusions_to_cidrs cidrs exclusions =
     rbind (rfold (\<lambda>c ns. rbind (or_raise value_error (ip_network c)) (\<lambda>n. Inr (ns @ [n]))) cidrs []) (\<lambda>targets.
     rbind (subtract_networks targets exclusions) (\<lambda>remaining. Inr (map net_text remaining)))"

subsection \<open>The exclusions of a scan\<close>

definition in_scope_chain :: "nat \<Rightarrow> nat option \<Rightarrow> nat list \<Rightarrow> nat option \<Rightarrow> scan_exclusion \<Rightarrow> bool" where
  \<comment> \<open>a missing site or scan compares as IS NULL\<close>
  "in_scope_chain tenant site networks scan x \<longleftrightarrow>
     exc_scope x = EXCLUSION_SCOPE_GLOBAL \<or>
     (exc_tenant_id x = Some tenant \<and>
       (exc_scope x = EXCLUSION_SCOPE_TENANT \<or>
        (exc_scope x = EXCLUSION_SCOPE_SITE \<and> exc_site_id x = site) \<or>
        (exc_scope x = EXCLUSION_SCOPE_NETWORK \<and> (case exc_network_id x of None \<Rightarrow> False | Some i \<Rightarrow> i \<in> set networks)) \<or>
        (exc_scope x = EXCLUSION_SCOPE_SCAN \<and> exc_scan_id x = scan)))"

definition effective_exclusions :: "db \<Rightarrow> nat \<Rightarrow> nat option \<Rightarrow> nat list \<Rightarrow> nat option \<Rightarrow> app_error + scan_exclusion list" where
  "effective_exclusions db tenant site networks scan = (let rows = sorted_by exc_id (t_select (\<lambda>x. exc_archived_at x = None \<and>
       in_scope_chain tenant site networks scan x) (tb_scan_exclusions db))
     in if list_ex (\<lambda>x. exc_tenant_id x \<noteq> None \<and> exc_tenant_id x \<noteq> Some tenant) rows
        then Inl (exclusion_error ''Cross-tenant exclusion reference is not allowed'') else Inr rows)"

definition serialize_exclusion :: "scan_exclusion \<Rightarrow> json" where
  "serialize_exclusion x = JObj [(''id'', jnat (exc_id x)), (''scope'', JStr (exc_scope x)),
     (''type'', JStr (exc_exclusion_type x)), (''value'', JStr (exc_value x)), (''normalized'', JStr (exc_normalized_value x))]"

definition serialize_exclusions :: "scan_exclusion list \<Rightarrow> json list" where
  "serialize_exclusions rows = map serialize_exclusion rows"

definition text_at :: "string \<Rightarrow> json \<Rightarrow> app_error + string" where
  \<comment> \<open>\<open>row[k]\<close> of a row the code wrote\<close>
  "text_at k row = (case row of JObj kvs \<Rightarrow> (case map_of kvs k of None \<Rightarrow> Inl (PyError ''KeyError'')
       | Some (JStr s) \<Rightarrow> Inr s | Some _ \<Rightarrow> Inl (PyError ''TypeError'')) | _ \<Rightarrow> Inl (PyError ''TypeError''))"

definition row_networks :: "json + scan_exclusion \<Rightarrow> app_error + ip_net list" where
  \<comment> \<open>a serialised row or a row of the table\<close>
  "row_networks row = (case row of
       Inl d \<Rightarrow> rbind (text_at ''type'' d) (\<lambda>type. rbind (text_at ''normalized'' d) (exclusion_networks type))
     | Inr x \<Rightarrow> exclusion_networks (exc_exclusion_type x) (exc_normalized_value x))"

definition exclusion_networks_from_rows :: "(json + scan_exclusion) list \<Rightarrow> app_error + ip_net list" where
  "exclusion_networks_from_rows rows = rfold (\<lambda>row ns. rbind (row_networks row) (\<lambda>more. Inr (ns @ more))) rows []"

definition assert_scope_keys :: "string \<Rightarrow> nat option \<Rightarrow> nat option \<Rightarrow> nat option \<Rightarrow> nat option \<Rightarrow> app_error + unit" where
  "assert_scope_keys scope tenant site network scan =
     (if scope \<notin> set EXCLUSION_SCOPES then Inl (exclusion_error ''Invalid exclusion scope'')
      else if scope = EXCLUSION_SCOPE_GLOBAL then
        (if tenant \<noteq> None \<or> site \<noteq> None \<or> network \<noteq> None \<or> scan \<noteq> None
         then Inl (exclusion_error ''Global exclusions cannot reference tenant objects'') else Inr ())
      else if tenant = None then Inl (exclusion_error ''Tenant-scoped exclusions require a tenant'')
      else if scope = EXCLUSION_SCOPE_TENANT \<and> (site \<noteq> None \<or> network \<noteq> None \<or> scan \<noteq> None)
        then Inl (exclusion_error ''Tenant exclusions cannot reference site, network, or scan'')
      else if scope = EXCLUSION_SCOPE_SITE \<and> (site = None \<or> network \<noteq> None \<or> scan \<noteq> None)
        then Inl (exclusion_error ''Site exclusions require a site and no network/scan'')
      else if scope = EXCLUSION_SCOPE_NETWORK \<and> (site = None \<or> network = None \<or> scan \<noteq> None)
        then Inl (exclusion_error ''Network exclusions require site and network'')
      else if scope = EXCLUSION_SCOPE_SCAN \<and> scan = None
        then Inl (exclusion_error ''Scan exclusions require a scan'')
      else Inr ())"

definition scope_keys_constraint :: "string \<Rightarrow> nat option \<Rightarrow> nat option \<Rightarrow> nat option \<Rightarrow> nat option \<Rightarrow> bool" where
  \<comment> \<open>\<open>ck_scan_exclusions_scope\<close> and \<open>ck_scan_exclusions_scope_keys\<close>\<close>
  "scope_keys_constraint scope tenant site network scan \<longleftrightarrow>
     (scope = ''global'' \<and> tenant = None \<and> site = None \<and> network = None \<and> scan = None) \<or>
     (scope = ''tenant'' \<and> tenant \<noteq> None \<and> site = None \<and> network = None \<and> scan = None) \<or>
     (scope = ''site'' \<and> tenant \<noteq> None \<and> site \<noteq> None \<and> network = None \<and> scan = None) \<or>
     (scope = ''network'' \<and> tenant \<noteq> None \<and> site \<noteq> None \<and> network \<noteq> None \<and> scan = None) \<or>
     (scope = ''scan'' \<and> tenant \<noteq> None \<and> scan \<noteq> None)"

subsection \<open>The router\<close>

record exclusion_body =
  xb_scope :: string
  xb_exclusion_type :: string
  xb_value :: string
  xb_tenant_id :: "nat option"
  xb_site_id :: "nat option"
  xb_network_id :: "nat option"
  xb_scan_id :: "nat option"

definition list_global_exclusions :: "db \<Rightarrow> user \<Rightarrow> bool \<Rightarrow> app_error + scan_exclusion list" where
  "list_global_exclusions db u include_archived = rbind (require_roles [''admin'', ''user'', ''viewer''] u) (\<lambda>u.
     if \<not> is_internal_operator u then Inr []
     else Inr (sorted_by exc_id (t_select (\<lambda>x. exc_scope x = EXCLUSION_SCOPE_GLOBAL \<and>
       (include_archived \<or> exc_archived_at x = None)) (tb_scan_exclusions db))))"

definition list_tenant_exclusions :: "db \<Rightarrow> user \<Rightarrow> nat \<Rightarrow> bool \<Rightarrow> app_error + scan_exclusion list" where
  "list_tenant_exclusions db u tenant include_archived = rbind (require_roles [''admin'', ''user'', ''viewer''] u) (\<lambda>u.
     rbind (require_visible_tenant db u tenant) (\<lambda>_.
     Inr (sorted_by (\<lambda>x. (exc_scope x, exc_id x)) (t_select (\<lambda>x.
       (exc_tenant_id x = Some tenant \<or> (is_internal_operator u \<and> exc_scope x = EXCLUSION_SCOPE_GLOBAL)) \<and>
       (include_archived \<or> exc_archived_at x = None)) (tb_scan_exclusions db)))))"

definition bound_site :: "db \<Rightarrow> tenant \<Rightarrow> nat option \<Rightarrow> app_error + nat option" where
  "bound_site db t site = (case site of None \<Rightarrow> Inr None
     | Some i \<Rightarrow> rbind (get_site db i (Some (tn_id t))) (\<lambda>s.
         if site_tenant_id s \<noteq> tn_id t then Inl (exclusion_error ''Cross-tenant exclusion reference is not allowed'')
         else Inr (Some (site_id s))))"

definition bound_network :: "db \<Rightarrow> tenant \<Rightarrow> nat option \<Rightarrow> nat option \<Rightarrow> app_error + (nat option \<times> nat option)" where
  "bound_network db t site network = (case network of None \<Rightarrow> Inr (site, None)
     | Some i \<Rightarrow> rbind (get_network db i (Some (tn_id t))) (\<lambda>n.
         if net_tenant_id n \<noteq> tn_id t then Inl (exclusion_error ''Cross-tenant exclusion reference is not allowed'')
         else case site of
             None \<Rightarrow> Inr (Some (net_site_id n), Some (net_id n))
           | Some s \<Rightarrow> if net_site_id n \<noteq> s then Inl (exclusion_error ''Network does not belong to the selected site'')
               else Inr (Some s, Some (net_id n))))"

definition bound_scan :: "db \<Rightarrow> tenant \<Rightarrow> nat option \<Rightarrow> nat option \<Rightarrow> app_error + (nat option \<times> nat option)" where
  "bound_scan db t site scan = (case scan of None \<Rightarrow> Inr (site, None)
     | Some i \<Rightarrow> (case t_get scan_id i (tb_scans db) of
           None \<Rightarrow> Inl (exclusion_error ''Cross-tenant exclusion reference is not allowed'')
         | Some s \<Rightarrow> if scan_tenant_id s \<noteq> tn_id t then Inl (exclusion_error ''Cross-tenant exclusion reference is not allowed'')
             else Inr (if scan_site_id s \<noteq> None \<and> scan_site_id s \<noteq> Some 0 \<and> site = None then scan_site_id s else site, Some (scan_id s))))"

definition bound_scope :: "db \<Rightarrow> exclusion_body \<Rightarrow> app_error + (nat option \<times> nat option \<times> nat option \<times> nat option)" where
  "bound_scope db body = (if xb_scope body = EXCLUSION_SCOPE_GLOBAL then Inr (None, None, None, None)
     else case xb_tenant_id body of None \<Rightarrow> Inl (exclusion_error ''tenant_id is required'')
     | Some i \<Rightarrow> rbind (get_tenant db i) (\<lambda>t.
         rbind (bound_site db t (xb_site_id body)) (\<lambda>site.
         rbind (bound_network db t site (xb_network_id body)) (\<lambda>(site, network).
         rbind (bound_scan db t site (xb_scan_id body)) (\<lambda>(site, scan).
         Inr (Some (tn_id t), site, network, scan))))))"

definition exclusion_row :: "time \<Rightarrow> exclusion_body \<Rightarrow> string \<times> string \<Rightarrow> nat option \<times> nat option \<times> nat option \<times> nat option \<Rightarrow> nat \<Rightarrow> scan_exclusion" where
  "exclusion_row now body nv keys i = (case keys of (tenant, site, network, scan) \<Rightarrow>
     \<lparr>exc_id = i, exc_scope = xb_scope body, exc_exclusion_type = fst nv, exc_value = strip (xb_value body),
      exc_normalized_value = snd nv, exc_tenant_id = tenant, exc_site_id = site, exc_network_id = network,
      exc_scan_id = scan, exc_archived_at = None, exc_created_at = now\<rparr>)"

definition bad_request :: "app_error + 'a \<Rightarrow> app_error + 'a" where
  \<comment> \<open>\<open>except ExclusionError\<close>; another \<open>ValueError\<close> is not caught\<close>
  "bad_request r = (case r of Inl (ServiceError d) \<Rightarrow> Inl (HttpError 400 d) | _ \<Rightarrow> r)"

definition exclusion_audit :: "user \<Rightarrow> string \<Rightarrow> nat \<Rightarrow> nat option \<Rightarrow> nat option \<Rightarrow> (string \<times> json) list \<Rightarrow> audit_req" where
  "exclusion_audit u action i tenant site details = \<lparr>ar_actor = Some u, ar_action = action, ar_object_type = ''scan_exclusion'',
     ar_object_id = Some i, ar_tenant_id = tenant, ar_site_id = site, ar_details = details\<rparr>"

definition create_exclusion :: "time \<Rightarrow> exclusion_body \<Rightarrow> user \<Rightarrow> db \<Rightarrow> app_error + (db \<times> nat)" where
  "create_exclusion now body u db = rbind (require_roles [''admin'', ''user''] u) (\<lambda>u.
     if xb_scope body = EXCLUSION_SCOPE_GLOBAL \<and> u_role u \<noteq> ''admin'' then Inl (HttpError 403 ''Insufficient role'')
     else rbind (bad_request (rbind (normalize_exclusion (xb_exclusion_type body) (xb_value body)) (\<lambda>nv.
         rbind (bound_scope db body) (\<lambda>keys. case keys of (tenant, site, network, scan) \<Rightarrow>
         rbind (assert_scope_keys (xb_scope body) tenant site network scan) (\<lambda>_. Inr (nv, keys)))))) (\<lambda>(nv, keys).
       let i = t_next (tb_scan_exclusions db);
           db1 = db\<lparr>tb_scan_exclusions := t_insert (exclusion_row now body nv keys) (tb_scan_exclusions db)\<rparr>
       in Inr (fst (record_audit now (exclusion_audit u ''scan_exclusion.create'' i (fst keys) (fst (snd keys))
            [(''scope'', JStr (xb_scope body)), (''type'', JStr (fst nv)), (''normalized'', JStr (snd nv))]) db1), i)))"

definition archive_exclusion :: "time \<Rightarrow> nat \<Rightarrow> user \<Rightarrow> db \<Rightarrow> app_error + db" where
  "archive_exclusion now i u db = rbind (require_roles [''admin'', ''user''] u) (\<lambda>u.
     case t_get exc_id i (tb_scan_exclusions db) of None \<Rightarrow> Inl (HttpError 404 ''Exclusion not found'')
     | Some x \<Rightarrow> if exc_scope x = EXCLUSION_SCOPE_GLOBAL \<and> u_role u \<noteq> ''admin'' then Inl (HttpError 403 ''Insufficient role'')
         else if exc_archived_at x \<noteq> None then Inr db
         else Inr (fst (record_audit now (exclusion_audit u ''scan_exclusion.archive'' (exc_id x) (exc_tenant_id x) (exc_site_id x)
            [(''scope'', JStr (exc_scope x)), (''normalized'', JStr (exc_normalized_value x))])
            (db\<lparr>tb_scan_exclusions := t_modify (\<lambda>y. exc_id y = i) (\<lambda>y. y\<lparr>exc_archived_at := Some now\<rparr>) (tb_scan_exclusions db)\<rparr>))))"

definition create_global_exclusion :: "time \<Rightarrow> exclusion_body \<Rightarrow> user \<Rightarrow> db \<Rightarrow> app_error + (db \<times> nat)" where
  "create_global_exclusion now body u db = rbind (require_roles [''admin''] u) (\<lambda>u.
     create_exclusion now (body\<lparr>xb_scope := EXCLUSION_SCOPE_GLOBAL\<rparr>) u db)"

subsection \<open>The subtraction is the set difference\<close>

lemma subtract_one_correct:
  assumes "valid_net n" "valid_net x" "overlaps n x"
  shows "\<exists>ns. subtract_one n x = Inr ns \<and> splits n x ns"
proof -
  have meet: "addresses n \<inter> addresses x \<noteq> {}" using overlaps_iff assms by blast
  then have ver: "nw_ver n = nw_ver x" by (auto simp: addresses_def)
  note sub = valid_subset_iff [OF assms(1,2) ver] valid_subset_iff [OF assms(2,1) ver [symmetric]]
  show ?thesis
  proof (cases "addresses n \<subseteq> addresses x")
    case True
    then show ?thesis by (simp add: subtract_one_def sub splits_def)
  next
    case False
    then have "\<not> nw_len x \<le> nw_len n" using valid_nested [OF assms(1,2)] meet by blast
    then have in_n: "addresses x \<subseteq> addresses n" using valid_nested [OF assms(2,1)] meet by (meson IntE disjoint_iff nat_le_linear)
    have "x \<noteq> n" using False by blast
    moreover obtain ns where "address_exclude n x = Some ns" "splits n x ns"
      using address_exclude_correct [OF assms(1,2) in_n] by blast
    ultimately show ?thesis using False in_n by (simp add: subtract_one_def sub or_raise_def)
  qed
qed

lemma subtract_from_correct:
  assumes "valid_net x" "valid_net n"
  shows "\<exists>parts. subtract_from x n acc = Inr (acc @ parts) \<and> addresses_of parts = addresses n - addresses x \<and> list_all valid_net parts"
proof (cases "nw_ver n \<noteq> nw_ver x \<or> \<not> overlaps n x")
  case True
  then have "addresses n \<inter> addresses x = {}" using overlaps_iff [OF assms(2,1)] by (auto simp: addresses_def)
  then have "addresses_of [n] = addresses n - addresses x" by auto
  moreover have "subtract_from x n acc = Inr (acc @ [n])" using True by (simp add: subtract_from_def)
  moreover have "list_all valid_net [n]" using assms by simp
  ultimately show ?thesis by blast
next
  case False
  then obtain ns where "subtract_one n x = Inr ns" "splits n x ns" using subtract_one_correct [OF assms(2,1)] by blast
  with False show ?thesis by (auto simp: subtract_from_def splits_def list_all_iff)
qed

lemma subtract_each_correct:
  assumes "valid_net x" "list_all valid_net ns"
  shows "\<exists>parts. rfold (subtract_from x) ns acc = Inr (acc @ parts) \<and> addresses_of parts = addresses_of ns - addresses x \<and> list_all valid_net parts"
  using assms(2)
proof (induction ns arbitrary: acc)
  case (Cons n ns)
  then have n: "valid_net n" and ns: "list_all valid_net ns" by simp_all
  obtain parts where p: "subtract_from x n acc = Inr (acc @ parts)" "addresses_of parts = addresses n - addresses x" "list_all valid_net parts"
    using subtract_from_correct [OF assms(1) n] by blast
  obtain more where m: "rfold (subtract_from x) ns (acc @ parts) = Inr ((acc @ parts) @ more)"
      "addresses_of more = addresses_of ns - addresses x" "list_all valid_net more"
    using Cons.IH [OF ns] by blast
  have "addresses_of (parts @ more) = addresses_of (n # ns) - addresses x" unfolding addresses_of_simps p(2) m(2) by blast
  then show ?case using p(1,3) m(1,3) by (intro exI [of _ "parts @ more"]) simp
qed simp

lemma subtract_all_correct:
  assumes "list_all valid_net xs" "list_all valid_net ns"
  shows "\<exists>parts. rfold (\<lambda>x ns. rfold (subtract_from x) ns []) xs ns = Inr parts \<and>
     addresses_of parts = addresses_of ns - addresses_of xs \<and> list_all valid_net parts"
  using assms
proof (induction xs arbitrary: ns)
  case (Cons x xs)
  obtain parts where p: "rfold (subtract_from x) ns [] = Inr parts" "addresses_of parts = addresses_of ns - addresses x" "list_all valid_net parts"
    using subtract_each_correct [of x ns "[]"] Cons.prems by auto
  obtain more where m: "rfold (\<lambda>x ns. rfold (subtract_from x) ns []) xs parts = Inr more"
      "addresses_of more = addresses_of parts - addresses_of xs" "list_all valid_net more"
    using Cons.IH [OF _ p(3)] Cons.prems by auto
  have "addresses_of more = addresses_of ns - addresses_of (x # xs)" unfolding addresses_of_simps p(2) m(2) by blast
  then show ?case using p(1) m(1,3) by simp
qed simp

definition one_version :: "ip_net list \<Rightarrow> bool" where
  "one_version ns \<longleftrightarrow> (case ns of [] \<Rightarrow> True | n # _ \<Rightarrow> list_all (\<lambda>m. nw_ver m = nw_ver n) ns)"

lemma one_version_of: "one_version ns \<longleftrightarrow> (\<exists>v. \<forall>n \<in> set ns. nw_ver n = v)"
  by (cases ns) (auto simp: one_version_def list_all_iff)

lemma collapse_same_version:
  assumes "list_all valid_net ns"
  shows "one_version ns \<Longrightarrow> \<exists>ms. collapse_addresses ns = Some ms"
    and "collapse_addresses ns = Some ms \<Longrightarrow> addresses_of ms = addresses_of ns \<and> list_all valid_net ms"
proof -
  have *: "\<exists>ms. collapse_addresses ns = Some ms \<and> addresses_of ms = addresses_of ns \<and> list_all valid_net ms" if one: "one_version ns"
  proof -
    obtain v where "\<forall>n \<in> set ns. nw_ver n = v" using one one_version_of by blast
    then have "\<forall>n \<in> set ns. valid_net n \<and> nw_ver n = v" using assms by (simp add: list_all_iff)
    from collapse_addresses_correct [OF this] show ?thesis by (auto simp: merged_def list_all_iff)
  qed
  show "\<exists>ms. collapse_addresses ns = Some ms" if "one_version ns" using * that by blast
  assume "collapse_addresses ns = Some ms"
  moreover from this have "one_version ns"
    by (auto simp: collapse_addresses_def one_version_def list_all_iff split: list.splits if_splits)
  ultimately show "addresses_of ms = addresses_of ns \<and> list_all valid_net ms" using * by auto
qed

lemma one_version_subset:
  assumes "one_version ns" "addresses_of ms \<subseteq> addresses_of ns"
  shows "one_version ms"
proof -
  obtain v where v: "\<forall>n \<in> set ns. nw_ver n = v" using assms(1) one_version_of by blast
  have "nw_ver m = v" if m: "m \<in> set ms" for m
  proof -
    have "(nw_ver m, nw_base m) \<in> addresses_of ns" using assms(2) m base_in by (force simp: addresses_of_def)
    then show ?thesis using v by (auto simp: addresses_of_def addresses_iff)
  qed
  then show ?thesis using one_version_of by blast
qed

lemma or_raise_Inr [simp]: "or_raise e r = Inr x \<longleftrightarrow> r = Some x"
  by (simp add: or_raise_def split: option.splits)

lemma subtract_networks_correct:
  assumes "list_all valid_net xs" "list_all valid_net ns"
  shows "subtract_networks ns xs = Inr ms \<Longrightarrow> addresses_of ms = addresses_of ns - addresses_of xs \<and> list_all valid_net ms"
    and "one_version ns \<Longrightarrow> \<exists>ms. subtract_networks ns xs = Inr ms"
proof -
  obtain parts where p: "rfold (\<lambda>x ns. rfold (subtract_from x) ns []) xs ns = Inr parts"
     "addresses_of parts = addresses_of ns - addresses_of xs" "list_all valid_net parts"
    using subtract_all_correct [OF assms] by blast
  have eq: "subtract_networks ns xs = or_raise (PyError ''TypeError'') (collapse_addresses parts)"
    by (simp add: subtract_networks_def p(1))
  show "addresses_of ms = addresses_of ns - addresses_of xs \<and> list_all valid_net ms" if res: "subtract_networks ns xs = Inr ms"
  proof -
    have "collapse_addresses parts = Some ms" using res unfolding eq by simp
    from collapse_same_version(2) [OF p(3) this] show ?thesis unfolding p(2) .
  qed
  show "\<exists>ms. subtract_networks ns xs = Inr ms" if one: "one_version ns"
  proof -
    have "addresses_of parts \<subseteq> addresses_of ns" unfolding p(2) by blast
    then have "one_version parts" by (rule one_version_subset [OF one])
    from collapse_same_version(1) [OF p(3) this] show ?thesis unfolding eq by simp
  qed
qed

lemma scope_keys_is_constraint:
  "assert_scope_keys scope tenant site network scan = Inr () \<longleftrightarrow> scope_keys_constraint scope tenant site network scan"
  by (auto simp: assert_scope_keys_def scope_keys_constraint_def EXCLUSION_SCOPES_def)

lemma bad_request_Inr [simp]: "bad_request r = Inr x \<longleftrightarrow> r = Inr x"
  by (auto simp: bad_request_def split: sum.splits app_error.splits)

lemma created_row:
  assumes "create_exclusion now body u db = Inr (db', i)"
  shows "\<exists>nv keys. normalize_exclusion (xb_exclusion_type body) (xb_value body) = Inr nv \<and> bound_scope db body = Inr keys \<and>
    (case keys of (tenant, site, network, scan) \<Rightarrow> scope_keys_constraint (xb_scope body) tenant site network scan) \<and>
    i = t_next (tb_scan_exclusions db) \<and> tb_scan_exclusions db' = t_insert (exclusion_row now body nv keys) (tb_scan_exclusions db)"
proof -
  obtain nv tenant site network scan where "normalize_exclusion (xb_exclusion_type body) (xb_value body) = Inr nv"
      "bound_scope db body = Inr (tenant, site, network, scan)" "assert_scope_keys (xb_scope body) tenant site network scan = Inr ()"
      "i = t_next (tb_scan_exclusions db)"
      "tb_scan_exclusions db' = t_insert (exclusion_row now body nv (tenant, site, network, scan)) (tb_scan_exclusions db)"
    using assms unfolding create_exclusion_def rbind_Inr_iff
    by (auto simp: rbind_Inr_iff Let_def record_audit_fst split: if_splits prod.splits)
  then show ?thesis by (auto simp: scope_keys_is_constraint [symmetric])
qed

text \<open>The malformed value of a request is an error of the server: only \<open>ExclusionError\<close> is caught.\<close>

lemma malformed_exclusion_is_a_server_error:
  assumes "u_role u = ''admin''" "strip (xb_value body) \<noteq> []" "xb_exclusion_type body = EXCLUSION_IP" "ip_address (strip (xb_value body)) = None"
  shows "create_exclusion now body u db = Inl (PyError ''ValueError'')"
  using assms by (simp add: create_exclusion_def require_roles_def normalize_exclusion_def bad_request_def EXCLUSION_TYPES_def)

text \<open>Targets of both versions raise a \<open>TypeError\<close>, with or without exclusions of other networks.\<close>

lemma mixed_targets_raise:
  assumes "\<not> one_version targets"
  shows "subtract_networks targets [] = Inl (PyError ''TypeError'')"
proof -
  have "collapse_addresses targets = None"
    using assms by (auto simp: collapse_addresses_def one_version_def list_all_iff split: list.splits)
  then show ?thesis by (simp add: subtract_networks_def or_raise_def)
qed

text \<open>The subtraction with another function in the place of \<open>_clip_overlap\<close>; with that function it
  is the code's (\<open>subtract_by_clip\<close>).\<close>

definition subtract_one_by :: "(ip_net \<Rightarrow> ip_net \<Rightarrow> app_error + ip_net list) \<Rightarrow> ip_net \<Rightarrow> ip_net \<Rightarrow> app_error + ip_net list" where
  "subtract_one_by clip n exclusion = (if subnet_of n exclusion \<or> exclusion = n then Inr []
     else if \<not> subnet_of exclusion n then clip n exclusion
     else or_raise value_error (address_exclude n exclusion))"

definition subtract_from_by :: "(ip_net \<Rightarrow> ip_net \<Rightarrow> app_error + ip_net list) \<Rightarrow> ip_net \<Rightarrow> ip_net \<Rightarrow> ip_net list \<Rightarrow> app_error + ip_net list" where
  "subtract_from_by clip exclusion n next_remaining =
     (if nw_ver n \<noteq> nw_ver exclusion \<or> \<not> overlaps n exclusion then Inr (next_remaining @ [n])
      else rbind (subtract_one_by clip n exclusion) (\<lambda>parts. Inr (next_remaining @ parts)))"

definition subtract_networks_by :: "(ip_net \<Rightarrow> ip_net \<Rightarrow> app_error + ip_net list) \<Rightarrow> ip_net list \<Rightarrow> ip_net list \<Rightarrow> app_error + ip_net list" where
  "subtract_networks_by clip targets exclusions =
     rbind (rfold (\<lambda>exclusion remaining. rfold (subtract_from_by clip exclusion) remaining []) exclusions targets) (\<lambda>remaining.
       or_raise (PyError ''TypeError'') (collapse_addresses remaining))"

lemma subtract_by_clip: "subtract_networks_by (clip_overlap CLIP_DEPTH) = subtract_networks"
proof -
  have "subtract_one_by (clip_overlap CLIP_DEPTH) = subtract_one" by (intro ext) (simp add: subtract_one_by_def subtract_one_def)
  then have "subtract_from_by (clip_overlap CLIP_DEPTH) = subtract_from"
    by (intro ext) (simp add: subtract_from_by_def subtract_from_def)
  then show ?thesis by (intro ext) (simp add: subtract_networks_by_def subtract_networks_def)
qed

lemma clip_is_idle:
  assumes "valid_net x" "valid_net n"
  shows "subtract_from_by clip x n = subtract_from x n"
proof
  fix acc
  have "subtract_one_by clip n x = subtract_one n x" if meet: "overlaps n x"
  proof -
    have ver: "nw_ver n = nw_ver x" using meet by (auto simp: overlaps_def in_net_def)
    have "addresses n \<inter> addresses x \<noteq> {}" using meet overlaps_iff assms by blast
    then have "subnet_of n x \<or> subnet_of x n"
      using valid_nested [OF assms] valid_nested [OF assms(2,1)] valid_subset_iff [OF assms ver [symmetric]]
        valid_subset_iff [OF assms(2,1) ver] nat_le_linear [of "nw_len x" "nw_len n"] by blast
    then show ?thesis by (auto simp: subtract_one_by_def subtract_one_def)
  qed
  then show "subtract_from_by clip x n acc = subtract_from x n acc" by (simp add: subtract_from_by_def subtract_from_def)
qed

lemma clip_never_entered:
  assumes "list_all valid_net targets" "list_all valid_net exclusions"
  shows "subtract_networks_by clip targets exclusions = subtract_networks targets exclusions"
proof -
  have each: "rfold (subtract_from_by clip x) ns acc = rfold (subtract_from x) ns acc" if "valid_net x" "list_all valid_net ns" for x ns acc
    using that(2) by (induction ns arbitrary: acc) (simp_all add: clip_is_idle [OF that(1)] rbind_def split: sum.splits)
  have "rfold (\<lambda>x ns. rfold (subtract_from_by clip x) ns []) exclusions targets = rfold (\<lambda>x ns. rfold (subtract_from x) ns []) exclusions targets"
    using assms
  proof (induction exclusions arbitrary: targets)
    case (Cons x xs)
    obtain parts where p: "rfold (subtract_from x) targets [] = Inr parts" "list_all valid_net parts"
      using subtract_each_correct [of x targets "[]"] Cons.prems by auto
    then show ?case using Cons.IH [OF p(2)] Cons.prems each [of x targets "[]"] by simp
  qed simp
  then show ?thesis by (simp add: subtract_networks_by_def subtract_networks_def)
qed

text \<open>C37: Subtracting exclusions from targets is the set difference. For valid networks of either
  version without an IPv6 scope id, subtract_networks, with the splitting of address_exclude and the
  merging of collapse_addresses, returns valid networks that hold exactly the addresses of the targets
  that no exclusion holds; it returns whenever the targets are of one version; and _clip_overlap is
  never entered: any function in its place gives the same result.\<close>

lemma subtraction_is_the_difference:
  assumes "list_all valid_net targets" "list_all valid_net exclusions"
  shows "(one_version targets \<longrightarrow> (\<exists>ms. subtract_networks targets exclusions = Inr ms)) \<and>
    (\<forall>ms. subtract_networks targets exclusions = Inr ms \<longrightarrow>
       addresses_of ms = addresses_of targets - addresses_of exclusions \<and> list_all valid_net ms) \<and>
    (\<forall>clip. subtract_networks_by clip targets exclusions = subtract_networks targets exclusions)"
  using subtract_networks_correct [OF assms(2,1)] clip_never_entered [OF assms] by blast

text \<open>Networks with scope ids are outside of the property: two networks of the same addresses with
  different scope ids overlap and neither contains the other, and \<open>_clip_overlap\<close> meets the same pair
  again, with the scope id dropped, until the interpreter's recursion limit.\<close>

lemma trailing_zeros_ge: "2 ^ k dvd n \<Longrightarrow> k \<le> b \<Longrightarrow> k \<le> trailing_zeros b n"
proof (induction b arbitrary: n k)
  case (Suc b)
  show ?case
  proof (cases k)
    case (Suc j)
    then have "even n" using Suc.prems(1) by (metis dvd_trans dvd_triv_left power_Suc)
    moreover from this obtain m where m: "n = 2 * m" by blast
    then have "2 ^ j dvd n div 2" using Suc Suc.prems(1) by simp
    ultimately show ?thesis using Suc Suc.IH [of j "n div 2"] Suc.prems(2) by simp
  qed simp
qed simp

lemma bit_len_power: "bit_len (2 ^ h) = Suc h"
  by (induction h) (simp_all add: bit_len.simps [of "Suc 0"] bit_len.simps [of "2 * _"] bit_len.simps [of 0])

lemma summary_of_block:
  assumes "2 ^ h dvd a" "h \<le> ip_bits v"
  shows "summary v a (a + 2 ^ h - 1) = [mk_net v a (ip_bits v - h)]"
proof -
  have "block_bits v a (a + 2 ^ h - 1) = h"
    using trailing_zeros_ge [OF assms] by (simp add: block_bits_def bit_len_power min_def)
  moreover have "summary v (a + 2 ^ h) (a + 2 ^ h - 1) = []" by (simp add: summary.simps [of v "a + 2 ^ h"])
  moreover have "\<not> a + 2 ^ h - 1 < a" using zero_less_power [of "2 :: nat" h] by linarith
  ultimately show ?thesis by (subst summary.simps) (simp add: Let_def)
qed

definition scoped :: "string \<Rightarrow> ip_net \<Rightarrow> ip_net" where
  "scoped zone n = n\<lparr>nw_zone := zone\<rparr>"

lemma clip_of_scoped:
  assumes n: "valid_net n" "nw_ver n = V6" "2 ^ 32 \<le> nw_base n" and ne: "z \<noteq> []" "y \<noteq> z"
  shows "clip_overlap fuel (scoped z n) (scoped y n) = Inl (PyError ''RecursionError'')"
  using ne(2)
proof (induction fuel arbitrary: y)
  case (Suc fuel)
  have same: "num_addresses (scoped w n) = num_addresses n" "broadcast (scoped w n) = broadcast n"
    "nw_base (scoped w n) = nw_base n" "nw_ver (scoped w n) = V6" "nw_zone (scoped w n) = w" for w
    using n(2) by (simp_all add: scoped_def num_addresses_def host_bits_def broadcast_def)
  have plain: "n = scoped [] n" using n(1) by (simp add: scoped_def valid_net_def)
  have num: "num_addresses n = 2 ^ host_bits n" "host_bits n \<le> ip_bits V6" "num_addresses n dvd nw_base n" "nw_len n = ip_bits V6 - host_bits n"
    using n(1,2) by (auto simp: num_addresses_def host_bits_def valid_net_def)
  have le: "nw_base n \<le> broadcast n" using num_addresses_pos(1) [of n] unfolding broadcast_def by linarith
  have n_eq: "mk_net V6 (nw_base n) (ip_bits V6 - host_bits n) = n"
    using n(1,2) num(4) by (cases n) (simp add: mk_net_def valid_net_def)
  have "summary V6 (nw_base n) (broadcast n) = [n]"
    using summary_of_block [of "host_bits n" "nw_base n" V6] num n_eq by (simp add: broadcast_def)
  then have pieces: "summarize_ints (nw_base n) (broadcast n) = Inr [n]"
    using n(3) le by (simp add: summarize_ints_def summarize_range_def or_raise_def Let_def)
  have "in_net V6 (nw_base n) n" using base_in [of n] in_net_addresses [OF n(1)] n(2) by simp
  then have "overlaps (scoped z n) n" using n(2) same by (simp add: overlaps_def)
  moreover have "\<not> subnet_of (scoped z n) n" "\<not> subnet_of n (scoped z n)" "n \<noteq> scoped z n"
    using ne(1) plain same by (metis subnet_of_def less_irrefl)+
  moreover have "clip_overlap fuel (scoped z n) n = Inl (PyError ''RecursionError'')"
    using Suc.IH [of "[]"] ne(1) plain by simp
  ultimately show ?case using n(2) same le pieces by (simp add: Let_def)
qed simp

lemma scoped_exclusion_recurses:
  assumes n: "valid_net n" "nw_ver n = V6" "2 ^ 32 \<le> nw_base n" and ne: "z \<noteq> []" "y \<noteq> z"
  shows "subtract_networks [scoped z n] [scoped y n] = Inl (PyError ''RecursionError'')"
proof -
  have same: "num_addresses (scoped w n) = num_addresses n" "broadcast (scoped w n) = broadcast n"
    "nw_base (scoped w n) = nw_base n" "nw_ver (scoped w n) = V6" "nw_zone (scoped w n) = w" for w
    using n(2) by (simp_all add: scoped_def num_addresses_def host_bits_def broadcast_def)
  have "in_net V6 (nw_base n) n" using base_in [of n] in_net_addresses [OF n(1)] n(2) by simp
  then have "in_net V6 (nw_base n) (scoped y n)" using same by (simp add: in_net_def)
  then have "overlaps (scoped z n) (scoped y n)" using same by (simp add: overlaps_def)
  moreover have "\<not> subnet_of (scoped z n) (scoped y n)" "\<not> subnet_of (scoped y n) (scoped z n)" "scoped y n \<noteq> scoped z n"
    using ne(2) same by (metis subnet_of_def less_irrefl)+
  ultimately show ?thesis using clip_of_scoped [OF assms, of CLIP_DEPTH] same
    by (simp add: subtract_networks_def subtract_from_def subtract_one_def)
qed

lemma subtraction_is_the_difference_witness:
  "\<exists>ms. subtract_networks [mk_net V4 167772160 24] [mk_net V4 167772165 32, mk_net V6 0 96] = Inr ms \<and> list_all valid_net ms \<and>
     (V4, 167772165) \<notin> addresses_of ms \<and> (V4, 167772166) \<in> addresses_of ms"
proof -
  have v: "list_all valid_net [mk_net V4 167772160 24]" "list_all valid_net [mk_net V4 167772165 32, mk_net V6 0 96]"
    by (simp_all add: valid_net_def mk_net_def num_addresses_def host_bits_def ip_bits_def)
  have "one_version [mk_net V4 167772160 24]" by (simp add: one_version_def)
  moreover have "(V4, 167772165) \<in> addresses (mk_net V4 167772165 32)" "(V4, 167772166) \<in> addresses (mk_net V4 167772160 24)"
      "(V4, 167772166) \<notin> addresses (mk_net V4 167772165 32)" "(V4, 167772166) \<notin> addresses (mk_net V6 0 96)"
    by (simp_all add: addresses_iff mk_net_def num_addresses_def host_bits_def ip_bits_def)
  ultimately show ?thesis using subtraction_is_the_difference [OF v] by auto
qed

end
