(* ===== verification/Net_Text.thy ===== *)
theory Net_Text
  imports Networks Policy_Rules
begin

section \<open>Printing and parsing addresses and networks\<close>

text \<open>
  The text of a network parses to the network again (\<open>ip_network_text\<close>), for both versions: the
  program writes the networks it computes into documents and reads them back from there.
\<close>

lemma split_on_join: "\<forall>x \<in> set xs. c \<notin> set x \<Longrightarrow> xs \<noteq> [] \<Longrightarrow> split_on c (join_with [c] xs) = xs"
  by (induction "[c]" xs rule: join_with.induct) (simp_all add: split_on_none split_on_sep)

lemma set_join: "set (join_with sep xs) \<subseteq> set sep \<union> \<Union> (set ` set xs)"
  by (induction sep xs rule: join_with.induct) auto

subsection \<open>Dotted addresses\<close>

lemma show_nat_hd: "0 < n \<Longrightarrow> hd (show_nat n) \<noteq> CHR ''0''"
proof (induction n rule: show_nat.induct)
  case (1 n)
  show ?case
  proof (cases "n < 10")
    case True
    then consider "n = 1" | "n = 2" | "n = 3" | "n = 4" | "n = 5" | "n = 6" | "n = 7" | "n = 8" | "n = 9" using "1.prems" by linarith
    then show ?thesis by cases (simp_all add: show_nat.simps digit_char_def DIGITS_def)
  next
    case False
    then show ?thesis using "1.IH" by (simp add: show_nat.simps [of n] hd_append)
  qed
qed

lemma show_nat_length: "n < 10 ^ Suc k \<Longrightarrow> length (show_nat n) \<le> Suc k"
proof (induction k arbitrary: n)
  case (Suc k)
  show ?case
  proof (cases "n < 10")
    case False
    have "n div 10 < 10 ^ Suc k" using Suc.prems by (simp add: div_less_iff_less_mult mult.commute)
    then show ?thesis using Suc.IH [of "n div 10"] False by (simp add: show_nat.simps [of n])
  qed (simp add: show_nat.simps)
qed (simp add: show_nat.simps)

lemma parse_octet_show: "n < 256 \<Longrightarrow> parse_octet (show_nat n) = Some n"
proof (cases "n = 0")
  case True
  have "parse_octet (show_nat 0) = Some 0" by code_simp
  then show ?thesis using True by simp
next
  case False
  then show "n < 256 \<Longrightarrow> parse_octet (show_nat n) = Some n"
    using show_nat_hd [of n] show_nat_length [of n 2] show_nat_digits [of n] by (simp add: parse_octet_def all_digits_def)
qed

lemma ipv4_text_parts:
  "ipv4_text a = join_with ''.'' [show_nat (a div 16777216), show_nat (a div 65536 mod 256), show_nat (a div 256 mod 256), show_nat (a mod 256)]"
  by (simp add: ipv4_text_def)

lemma parse_ipv4_text:
  assumes "a < 2 ^ 32"
  shows "parse_ipv4 (ipv4_text a) = Some a"
proof -
  have dot: "CHR ''.'' \<notin> set (show_nat n)" for n by (rule sep_not_in_show_nat) (simp add: is_digit_def DIGITS_def)
  define b where "b = a div 256"
  define c where "c = b div 256"
  define d where "d = c div 256"
  have parts: "a div 256 = b" "a div 65536 = c" "a div 16777216 = d"
    by (simp_all add: b_def c_def d_def div_mult2_eq [symmetric])
  have "d < 256" using assms by (simp add: b_def c_def d_def div_mult2_eq [symmetric] div_less_iff_less_mult)
  moreover have "d * 256 + c mod 256 = c" "c * 256 + b mod 256 = b" "b * 256 + a mod 256 = a" by (simp_all add: b_def c_def d_def)
  ultimately show ?thesis
    unfolding parse_ipv4_def ipv4_text_parts parts using dot by (subst split_on_join) (auto simp: parse_octet_show)
qed

subsection \<open>Hextets\<close>

lemma hex_digit_val: "d < 16 \<Longrightarrow> hex_val (HEX_DIGITS ! d) = d \<and> is_hex (HEX_DIGITS ! d)"
proof -
  have "list_all (\<lambda>d. hex_val (HEX_DIGITS ! d) = d \<and> is_hex (HEX_DIGITS ! d)) [0..<16]" by code_simp
  then show "d < 16 \<Longrightarrow> hex_val (HEX_DIGITS ! d) = d \<and> is_hex (HEX_DIGITS ! d)" by (simp add: list_all_iff)
qed

lemma foldl_hex_zeros: "foldl (\<lambda>n c. 16 * n + hex_val c) 0 (dropWhile (\<lambda>c. c = CHR ''0'') ds) = foldl (\<lambda>n c. 16 * n + hex_val c) 0 ds"
proof -
  have "hex_val CHR ''0'' = 0" by code_simp
  then show ?thesis by (induction ds) auto
qed

definition hex_digits :: "nat \<Rightarrow> string" where
  "hex_digits k = map (\<lambda>i. HEX_DIGITS ! (k div 16 ^ i mod 16)) [3, 2, 1, 0 :: nat]"

lemma hex_text_alt: "hex_text k = (if dropWhile (\<lambda>c. c = CHR ''0'') (hex_digits k) = [] then ''0'' else dropWhile (\<lambda>c. c = CHR ''0'') (hex_digits k))"
  by (simp add: hex_text_def hex_digits_def Let_def)

lemma hex_digits_value:
  assumes "k < 65536"
  shows "foldl (\<lambda>n c. 16 * n + hex_val c) 0 (hex_digits k) = k"
proof -
  define a where "a = k div 16"
  define b where "b = a div 16"
  define c where "c = b div 16"
  have "k div 256 = b" "k div 4096 = c" by (simp_all add: a_def b_def c_def div_mult2_eq [symmetric])
  moreover have "c < 16" using assms by (simp add: a_def b_def c_def div_mult2_eq [symmetric] div_less_iff_less_mult)
  moreover have "16 * c + b mod 16 = b" "16 * b + a mod 16 = a" "16 * a + k mod 16 = k" by (simp_all add: a_def b_def c_def)
  ultimately show ?thesis by (simp add: hex_digits_def hex_digit_val a_def [symmetric])
qed

lemma hex_text_value:
  assumes "k < 65536"
  shows "foldl (\<lambda>n c. 16 * n + hex_val c) 0 (hex_text k) = k"
proof (cases "dropWhile (\<lambda>c. c = CHR ''0'') (hex_digits k) = []")
  case True
  have "foldl (\<lambda>n c. 16 * n + hex_val c) 0 (dropWhile (\<lambda>c. c = CHR ''0'') (hex_digits k)) = k"
    unfolding foldl_hex_zeros by (rule hex_digits_value [OF assms])
  then have "k = 0" unfolding True by simp
  moreover have "foldl (\<lambda>n c. 16 * n + hex_val c) 0 ''0'' = 0" by code_simp
  ultimately show ?thesis unfolding hex_text_alt True by simp
next
  case False
  then show ?thesis unfolding hex_text_alt by (simp only: if_False foldl_hex_zeros hex_digits_value [OF assms])
qed

lemma hex_text_chars: "list_all is_hex (hex_text k)" "length (hex_text k) \<le> 4" "hex_text k \<noteq> []"
proof -
  have digits: "list_all is_hex (hex_digits k)" by (simp add: hex_digits_def hex_digit_val)
  have zero: "is_hex CHR ''0''" by code_simp
  show "list_all is_hex (hex_text k)"
    using digits zero unfolding hex_text_alt list_all_iff by (auto dest: set_dropWhileD)
  have "length (dropWhile (\<lambda>c. c = CHR ''0'') (hex_digits k)) \<le> length (hex_digits k)" by (rule length_dropWhile_le)
  then show "length (hex_text k) \<le> 4" unfolding hex_text_alt by (simp add: hex_digits_def del: list.map)
  show "hex_text k \<noteq> []" unfolding hex_text_alt by simp
qed

lemma hex_text_ok: "k < 65536 \<Longrightarrow> parse_hextet (hex_text k) = Some k"
  by (simp add: parse_hextet_def hex_text_chars hex_text_value)

lemma hex_text_zero:
  assumes "k < 65536"
  shows "hex_text k = ''0'' \<longleftrightarrow> k = 0"
proof
  assume "hex_text k = ''0''"
  moreover have "parse_hextet ''0'' = Some 0" by code_simp
  ultimately show "k = 0" using hex_text_ok [OF assms] by simp
next
  assume "k = 0"
  moreover have "hex_text 0 = ''0''" by code_simp
  ultimately show "hex_text k = ''0''" by simp
qed

subsection \<open>Compressed addresses\<close>

lemma zero_run_found:
  "foldl (\<lambda>b r. if snd b < snd r then r else b) z rs = z \<or> foldl (\<lambda>b r. if snd b < snd r then r else b) z rs \<in> set rs"
  by (induction rs arbitrary: z) (auto split: if_splits)

lemma compress_run:
  assumes "foldl (\<lambda>b r. if snd b < snd r then r else b) (0, 0) (zero_runs hs) = (start, run)" "1 < run"
  shows "hs = take start hs @ replicate run ''0'' @ drop (start + run) hs"
proof -
  have "(start, run) \<in> set (zero_runs hs)" using zero_run_found [of "(0, 0)" "zero_runs hs"] assms by auto
  then have run: "run = length (takeWhile (\<lambda>h. h = ''0'') (drop start hs))" by (auto simp: zero_runs_def)
  have "takeWhile (\<lambda>h. h = ''0'') (drop start hs) = replicate run ''0''"
    unfolding run by (rule replicate_eqI) (auto dest: set_takeWhileD)
  moreover have "dropWhile (\<lambda>h. h = ''0'') (drop start hs) = drop (start + run) hs"
    unfolding run by (simp add: dropWhile_eq_drop add.commute)
  ultimately have "drop start hs = replicate run ''0'' @ drop (start + run) hs"
    using takeWhile_dropWhile_id [of "\<lambda>h. h = ''0''" "drop start hs"] by simp
  then show ?thesis using append_take_drop_id [of start hs] by simp
qed

definition squeezed :: "string list \<Rightarrow> string list \<Rightarrow> string list" where
  "squeezed A B = (if A = [] then [[]] else A) @ [[]] @ (if B = [] then [[]] else B)"

lemma compress_cases:
  obtains "compress_hextets hs = hs"
  | A B r where "compress_hextets hs = squeezed A B" "hs = A @ replicate r ''0'' @ B" "1 < r"
proof -
  obtain start run where sr: "foldl (\<lambda>b r. if snd b < snd r then r else b) (0, 0) (zero_runs hs) = (start, run)" by (rule prod.exhaust)
  show ?thesis
  proof (cases "run \<le> 1")
    case True
    then show ?thesis using sr that(1) by (simp add: compress_hextets_def)
  next
    case False
    then have run: "1 < run" by simp
    note hs = compress_run [OF sr run]
    from arg_cong [OF hs, of length] run have le: "start + run \<le> length hs" by simp
    then have "start < length hs" using run by simp
    then have "take start hs = [] \<longleftrightarrow> start = 0" "drop (start + run) hs = [] \<longleftrightarrow> start + run = length hs"
      using le by auto
    then have "compress_hextets hs = squeezed (take start hs) (drop (start + run) hs)"
      using sr False by (simp add: compress_hextets_def squeezed_def)
    then show ?thesis using hs run that(2) by blast
  qed
qed

lemma filter_upt_single:
  assumes "a \<le> k" "k < b" "\<And>i. a \<le> i \<Longrightarrow> i < b \<Longrightarrow> P i \<longleftrightarrow> i = k"
  shows "filter P [a..<b] = [k]"
proof -
  have "[a..<b] = [a..<k] @ k # [Suc k..<b]"
    using assms(1,2) upt_add_eq_append [of a k "b - k"] by (simp add: upt_conv_Cons)
  moreover have "filter P [a..<k] = []" "filter P [Suc k..<b] = []" using assms by (auto simp: filter_empty_conv)
  moreover have "P k" using assms by simp
  ultimately show ?thesis by simp
qed

lemma squeezed_nth:
  assumes "\<forall>x \<in> set A. x \<noteq> []" "\<forall>x \<in> set B. x \<noteq> []" "1 \<le> i" "i < length (squeezed A B) - 1"
  shows "squeezed A B ! i = [] \<longleftrightarrow> i = max 1 (length A)"
proof -
  let ?a = "max 1 (length A)" and ?B = "if B = [] then [[]] else B" and ?A = "if A = [] then [[]] else A"
  have A: "length ?A = ?a" by (cases A) auto
  consider "i < ?a" | "i = ?a" | "?a < i" by linarith
  then show ?thesis
  proof cases
    case 1
    then have "A \<noteq> []" "i < length A" using assms(3) by (cases A; simp)+
    then have "squeezed A B ! i = A ! i" by (simp add: squeezed_def nth_append)
    then show ?thesis using assms(1) \<open>i < length A\<close> 1 by (auto dest: nth_mem)
  next
    case 2
    then show ?thesis using A by (simp add: squeezed_def nth_append)
  next
    case 3
    have "squeezed A B ! i = (?A @ ([] # ?B)) ! i" by (simp add: squeezed_def)
    have neg: "\<not> i < ?a" using 3 by linarith
    note \<open>squeezed A B ! i = (?A @ ([] # ?B)) ! i\<close>
    also have "(?A @ ([] # ?B)) ! i = ([] # ?B) ! (i - ?a)" unfolding nth_append A if_not_P [OF neg] ..
    also have "i - ?a = Suc (i - ?a - 1)" using 3 by linarith
    finally have at: "squeezed A B ! i = ?B ! (i - ?a - 1)" by (simp only: nth_Cons_Suc)
    have "length (squeezed A B) = ?a + 1 + length ?B" using A by (simp add: squeezed_def)
    then have "i - ?a - 1 < length ?B - 1" using assms(4) 3 by linarith
    then have "B \<noteq> []" "i - ?a - 1 < length B" by (cases B; simp)+
    then show ?thesis using at assms(2) 3 by (auto dest: nth_mem)
  qed
qed

lemma parts_of_squeezed:
  assumes "\<forall>x \<in> set A. x \<noteq> []" "\<forall>x \<in> set B. x \<noteq> []" "length A + r + length B = 8" "1 < r"
  shows "ipv6_of_parts (squeezed A B) (map parse_hextet (squeezed A B)) =
    join_hextets 0 (map parse_hextet A @ replicate r (Some 0) @ map parse_hextet B)"
proof -
  let ?P = "squeezed A B" and ?k = "max 1 (length A)"
  have n: "length ?P = ?k + 1 + max 1 (length B)" by (cases A; cases B) (simp_all add: squeezed_def)
  have one: "filter (\<lambda>i. ?P ! i = []) [1..<length ?P - 1] = [?k]"
    using n squeezed_nth [OF assms(1,2)] by (intro filter_upt_single) simp_all
  have first: "?P ! 0 = [] \<longleftrightarrow> A = []" using assms(1) by (cases A) (simp_all add: squeezed_def)
  have final: "last ?P = [] \<longleftrightarrow> B = []" using assms(2) by (simp add: squeezed_def)
  have A: "take (length A) (map parse_hextet ?P) = map parse_hextet A" by (cases A) (simp_all add: squeezed_def)
  have B: "drop (length ?P - length B) (map parse_hextet ?P) = map parse_hextet B" by (cases B) (simp_all add: squeezed_def)
  have hi: "(if ?P ! 0 = [] then ?k - 1 else ?k) = length A" unfolding first by (cases A) simp_all
  have lo: "(if last ?P = [] then length ?P - ?k - 2 else length ?P - ?k - 1) = length B" unfolding final n by (cases B) simp_all
  have r: "8 - (length A + length B) = r" using assms(3) by simp
  have small: "\<not> 9 < length ?P" "\<not> 7 < length A + length B" using assms(3,4) n by (simp_all add: max_def)
  show ?thesis
    unfolding ipv6_of_parts_def Let_def one using small
    by (simp only: list.case hi lo A B r) (use first final in auto)
qed

lemma join_hextets_Some: "join_hextets acc (map Some hs) = Some (foldl (\<lambda>n h. n * 65536 + h) acc hs)"
  by (induction hs arbitrary: acc) simp_all

lemma base_digits_value:
  fixes v b :: nat
  assumes "v < b * b ^ 7"
  shows "foldl (\<lambda>n h. n * b + h) 0 (map (\<lambda>i. v div b ^ i mod b) [7, 6, 5, 4, 3, 2, 1, 0]) = v"
proof -
  define D where "D i = v div b ^ i" for i :: nat
  have step: "D (Suc i) * b + D i mod b = D i" for i
  proof -
    have "D (Suc i) = D i div b" unfolding D_def power_Suc2 div_mult2_eq ..
    then show ?thesis by simp
  qed
  have "D 7 < b" using assms unfolding D_def by (rule less_mult_imp_div_less)
  then have top: "0 * b + D 7 mod b = D 7" by simp
  have steps: "D 7 * b + D 6 mod b = D 6" "D 6 * b + D 5 mod b = D 5" "D 5 * b + D 4 mod b = D 4"
      "D 4 * b + D 3 mod b = D 3" "D 3 * b + D 2 mod b = D 2" "D 2 * b + D 1 mod b = D 1"
      "D 1 * b + D 0 mod b = D 0"
    using step [of 6] step [of 5] step [of 4] step [of 3] step [of 2] step [of 1] step [of 0] by (simp_all add: numeral_eq_Suc)
  have "foldl (\<lambda>n h. n * b + h) 0 (map (\<lambda>i. D i mod b) [7, 6, 5, 4, 3, 2, 1, 0]) = D 0"
    by (simp only: list.map foldl.simps top steps)
  then show ?thesis by (simp only: D_def power_0 div_by_1)
qed

lemma hextets_value:
  fixes v :: nat
  assumes "v < 2 ^ 128"
  shows "foldl (\<lambda>n h. n * 65536 + h) 0 (map (\<lambda>i. v div 65536 ^ i mod 65536) [7, 6, 5, 4, 3, 2, 1, 0 :: nat]) = v"
proof -
  have "(2::nat) ^ 128 = 65536 * 65536 ^ 7" by simp
  with assms have "v < 65536 * 65536 ^ 7" by (simp only:)
  then show ?thesis by (rule base_digits_value)
qed

definition hextets :: "nat \<Rightarrow> string list" where
  "hextets v = map (\<lambda>i. hex_text (v div 65536 ^ i mod 65536)) [7, 6, 5, 4, 3, 2, 1, 0 :: nat]"

lemma hextets_shape:
  "length (hextets v) = 8" "h \<in> set (hextets v) \<Longrightarrow> list_all is_hex h \<and> h \<noteq> []"
  by (auto simp: hextets_def hex_text_chars)

lemma hextets_parse: "v < 2 ^ 128 \<Longrightarrow> join_hextets 0 (map parse_hextet (hextets v)) = Some v"
proof -
  assume v: "v < 2 ^ 128"
  have "map parse_hextet (hextets v) = map Some (map (\<lambda>i. v div 65536 ^ i mod 65536) [7, 6, 5, 4, 3, 2, 1, 0 :: nat])"
    unfolding hextets_def by (simp add: hex_text_ok del: power_Suc power_numeral_even power_numeral_odd)
  then show ?thesis by (simp only: join_hextets_Some hextets_value [OF v])
qed

lemma compress_ok:
  "length (compress_hextets (hextets v)) \<ge> 3" "h \<in> set (compress_hextets (hextets v)) \<Longrightarrow> list_all is_hex h"
proof -
  have "length (compress_hextets (hextets v)) \<ge> 3 \<and> (\<forall>h \<in> set (compress_hextets (hextets v)). list_all is_hex h)"
  proof (rule compress_cases [of "hextets v"])
    assume "compress_hextets (hextets v) = hextets v"
    then show ?thesis using hextets_shape by simp
  next
    fix A B r
    assume *: "compress_hextets (hextets v) = squeezed A B" "hextets v = A @ replicate r ''0'' @ B" "1 < r"
    have "length (squeezed A B) \<ge> 3" by (cases A; cases B) (simp_all add: squeezed_def)
    moreover have "list_all is_hex h" if "h \<in> set (squeezed A B)" for h
      using that hextets_shape(2) [of h v] *(2) by (auto simp: squeezed_def split: if_splits)
    ultimately show ?thesis using *(1) by simp
  qed
  then show "length (compress_hextets (hextets v)) \<ge> 3" "h \<in> set (compress_hextets (hextets v)) \<Longrightarrow> list_all is_hex h" by simp_all
qed

lemma compress_parse:
  assumes "v < 2 ^ 128"
  shows "ipv6_of_parts (compress_hextets (hextets v)) (map parse_hextet (compress_hextets (hextets v))) = Some v"
proof (rule compress_cases [of "hextets v"])
  assume eq: "compress_hextets (hextets v) = hextets v"
  have "hextets v ! i \<noteq> []" if "i < 8" for i
    using hextets_shape(2) [of "hextets v ! i" v] nth_mem [of i "hextets v"] hextets_shape(1) [of v] that by simp
  then have "filter (\<lambda>i. hextets v ! i = []) [1..<8 - 1] = []" by (simp add: filter_empty_conv)
  then show ?thesis
    unfolding eq ipv6_of_parts_def Let_def hextets_shape(1) by (simp add: hextets_parse [OF assms])
next
  fix A B r
  assume *: "compress_hextets (hextets v) = squeezed A B" "hextets v = A @ replicate r ''0'' @ B" "1 < r"
  have ne: "\<forall>x \<in> set A. x \<noteq> []" "\<forall>x \<in> set B. x \<noteq> []" using hextets_shape(2) [of _ v] *(2) by auto
  have len: "length A + r + length B = 8" using hextets_shape(1) [of v] *(2) by simp
  have "parse_hextet ''0'' = Some 0" by code_simp
  then have "map parse_hextet (hextets v) = map parse_hextet A @ replicate r (Some 0) @ map parse_hextet B" using *(2) by simp
  then show ?thesis using hextets_parse [OF assms] parts_of_squeezed [OF ne len *(3)] *(1) by simp
qed

lemma ipv6_text_alt: "ipv6_text v = join_with '':'' (compress_hextets (hextets v))"
  by (simp only: ipv6_text_def hextets_def)

lemma ipv6_text_split:
  "split_on CHR '':'' (ipv6_text v) = compress_hextets (hextets v)"
  "c \<in> set (ipv6_text v) \<Longrightarrow> c = CHR '':'' \<or> is_hex c"
proof -
  have colon: "\<not> is_hex CHR '':''" by code_simp
  have "\<forall>x \<in> set (compress_hextets (hextets v)). CHR '':'' \<notin> set x"
    using compress_ok(2) [of _ v] colon by (auto simp: list_all_iff)
  moreover have "compress_hextets (hextets v) \<noteq> []" using compress_ok(1) [of v] by auto
  ultimately show "split_on CHR '':'' (ipv6_text v) = compress_hextets (hextets v)"
    unfolding ipv6_text_alt by (rule split_on_join)
  assume "c \<in> set (ipv6_text v)"
  then have "c \<in> set '':'' \<union> \<Union> (set ` set (compress_hextets (hextets v)))"
    unfolding ipv6_text_alt using set_join by blast
  then show "c = CHR '':'' \<or> is_hex c" using compress_ok(2) [of _ v] by (auto simp: list_all_iff)
qed

lemma ipv6_text_chars: "CHR ''%'' \<notin> set (ipv6_text v)" "CHR ''.'' \<notin> set (ipv6_text v)" "CHR ''/'' \<notin> set (ipv6_text v)"
    "CHR ''-'' \<notin> set (ipv6_text v)"
proof -
  have "\<not> is_hex CHR ''%''" "\<not> is_hex CHR ''.''" "\<not> is_hex CHR ''/''" "\<not> is_hex CHR ''-''" by code_simp+
  then show "CHR ''%'' \<notin> set (ipv6_text v)" "CHR ''.'' \<notin> set (ipv6_text v)" "CHR ''/'' \<notin> set (ipv6_text v)"
    "CHR ''-'' \<notin> set (ipv6_text v)"
    using ipv6_text_split(2) [of _ v] by auto
qed

subsection \<open>Addresses and networks\<close>

lemma partition_on_absent: "c \<notin> set s \<Longrightarrow> partition_on c s = (s, [])"
  by (induction s) (auto simp: partition_on_def)

lemma parse_ipv6_text:
  assumes "v < 2 ^ 128"
  shows "parse_ipv6 (ipv6_text v) = Some v"
proof -
  let ?s = "ipv6_text v" and ?P = "compress_hextets (hextets v)"
  have ne: "?P \<noteq> []" using compress_ok(1) [of v] by auto
  then have "set (last ?P) \<subseteq> set ?s" using split_on_subset [of "last ?P" "CHR '':''" ?s] ipv6_text_split(1) [of v] by simp
  then have "CHR ''.'' \<notin> set (last ?P)" using ipv6_text_chars(2) by blast
  then have "hextet_parts ?s = Some (?P, map parse_hextet ?P)"
    using compress_ok(1) [of v] unfolding hextet_parts_def Let_def ipv6_text_split(1) by simp
  then show ?thesis
    using ipv6_text_chars(1) [of v] compress_parse [OF assms] by (simp add: parse_ipv6_def partition_on_absent)
qed

lemma ipv6_text_not_dotted: "parse_ipv4 (ipv6_text v) = None"
  using ipv6_text_chars(2) [of v] by (simp add: parse_ipv4_def split_on_none split: option.splits)

definition address_text :: "ip_version \<Rightarrow> nat \<Rightarrow> string" where
  "address_text v a = (case v of V4 \<Rightarrow> ipv4_text a | V6 \<Rightarrow> ipv6_text a)"

lemma ipv4_text_chars: "c \<in> set (ipv4_text a) \<Longrightarrow> c = CHR ''.'' \<or> is_digit c"
  using show_nat_digits by (auto simp: ipv4_text_def list_all_iff)

lemma address_text_chars: "CHR ''%'' \<notin> set (address_text v a)" "CHR ''/'' \<notin> set (address_text v a)" "CHR ''-'' \<notin> set (address_text v a)"
proof -
  have "\<not> is_digit CHR ''%''" "\<not> is_digit CHR ''/''" "\<not> is_digit CHR ''-''" by code_simp+
  then show "CHR ''%'' \<notin> set (address_text v a)" "CHR ''/'' \<notin> set (address_text v a)" "CHR ''-'' \<notin> set (address_text v a)"
    using ipv4_text_chars [of _ a] ipv6_text_chars [of a] by (auto simp: address_text_def split: ip_version.splits)
qed

theorem ip_address_text: "a < 2 ^ ip_bits v \<Longrightarrow> ip_address (address_text v a) = Some (v, a)"
  by (cases v) (simp_all add: ip_address_def address_text_def ip_bits_def parse_ipv4_text ipv6_text_not_dotted parse_ipv6_text
      del: power_numeral_even power_numeral_odd)

lemma net_text_alt: "nw_zone n = [] \<Longrightarrow> net_text n = address_text (nw_ver n) (nw_base n) @ CHR ''/'' # show_nat (nw_len n)"
  by (simp add: net_text_def address_text_def)

theorem ip_network_text:
  assumes "valid_net n"
  shows "ip_network (net_text n) = Some n"
proof -
  have n: "nw_len n \<le> ip_bits (nw_ver n)" "nw_base n < 2 ^ ip_bits (nw_ver n)" "nw_zone n = []" "num_addresses n dvd nw_base n"
    using assms by (simp_all add: valid_net_def)
  have "\<not> is_digit CHR ''/''" by code_simp
  then have "CHR ''/'' \<notin> set (show_nat (nw_len n))" by (rule sep_not_in_show_nat)
  then have "split_on CHR ''/'' (net_text n) = [address_text (nw_ver n) (nw_base n), show_nat (nw_len n)]"
    using address_text_chars(2) by (simp add: net_text_alt [OF n(3)] split_on_sep split_on_none)
  moreover have "prefix_length (nw_ver n) (show_nat (nw_len n)) = Some (nw_len n)"
    using n(1) show_nat_digits by (simp add: prefix_length_def prefix_ok_def all_digits_def)
  moreover have "ip_zone (address_text (nw_ver n) (nw_base n)) = []" using address_text_chars(1) by (simp add: ip_zone_def)
  moreover have "loose_net (nw_ver n) (nw_base n) [] (nw_len n) = n"
    using n by (simp add: loose_net_def num_addresses_def host_bits_def dvd_imp_mod_0)
  ultimately show ?thesis using ip_address_text [OF n(2)] by (simp add: ip_network_def)
qed

text \<open>Rules that let the simplifier parse a literal.\<close>

lemma replicate_numeral: "replicate (numeral k) x = x # replicate (pred_numeral k) x"
  by (simp add: numeral_eq_Suc)

lemmas ip_eval = ip_network_def ip_address_def parse_ipv4_def parse_ipv6_def hextet_parts_def ipv6_of_parts_def
  parse_octet_def all_digits_def is_digit_def DIGITS_def parse_digits_def digit_val_def partition_on_def Let_def
  parse_hextet_def is_hex_def HEX_DIGITS_def lower_char_def hex_val_def prefix_length_def prefix_ok_def ip_bits_def
  loose_net_def mk_net_def ip_zone_def upt_conv_Cons UPPERS_def LOWERS_def replicate_numeral

end
