(* ===== verification/Wan_Targets.thy ===== *)
theory Wan_Targets
  imports Net_Text Access
begin

section \<open>Authorised WAN targets\<close>

text \<open>
  \<^verbatim>\<open>backend/app/wan_targets.py\<close> and \<^verbatim>\<open>backend/app/routers/wan_targets.py\<close>: which addresses,
  networks and names of the internet a tenant may have scanned. \<open>wan_policy_excludes\<close> shows that a
  network that passes holds no private, reserved or IPv4-mapped address and at most 65536 addresses.

  A \<open>WanTargetInvalidError\<close> is a \<open>ServiceError\<close>; another exception is a \<open>PyError\<close>.
\<close>

abbreviation wan_error :: "string \<Rightarrow> app_error" where
  "wan_error detail \<equiv> ServiceError detail"

subsection \<open>The address policy\<close>

definition MAX_WAN_TARGET_ADDRESSES :: nat where "MAX_WAN_TARGET_ADDRESSES = 65536"

definition nets_of :: "string list \<Rightarrow> ip_net list" where
  "nets_of texts = List.map_filter ip_network texts"

definition IPV4_MAPPED_NETWORK :: ip_net where "IPV4_MAPPED_NETWORK = hd (nets_of [''::ffff:0:0/96''])"

definition IPV4_COMPATIBLE_NETWORK :: ip_net where "IPV4_COMPATIBLE_NETWORK = hd (nets_of [''::/96''])"

definition BLOCKED_FQDN_SUFFIXES :: "string list" where "BLOCKED_FQDN_SUFFIXES = [''.local'', ''.localhost'']"

definition BLOCKED_FQDNS :: "string list" where
  "BLOCKED_FQDNS = [''localhost'', ''metadata.google.internal'', ''metadata.google.com'', ''instance-data'']"

definition PROHIBITED_NETWORKS :: "ip_net list" where
  "PROHIBITED_NETWORKS = nets_of [''0.0.0.0/8'', ''10.0.0.0/8'', ''100.64.0.0/10'', ''127.0.0.0/8'', ''169.254.0.0/16'',
     ''172.16.0.0/12'', ''192.168.0.0/16'', ''198.18.0.0/15'', ''224.0.0.0/4'', ''240.0.0.0/4'', ''255.255.255.255/32'',
     ''::/128'', ''::1/128'', ''fc00::/7'', ''fe80::/10'', ''ff00::/8'']"

definition is_ipv4_mapped_address :: "ip_version \<times> nat \<Rightarrow> bool" where
  "is_ipv4_mapped_address a \<longleftrightarrow> fst a = V6 \<and> (in_net V6 (snd a) IPV4_MAPPED_NETWORK \<or> in_net V6 (snd a) IPV4_COMPATIBLE_NETWORK)"

definition is_ipv4_mapped_network :: "ip_net \<Rightarrow> bool" where
  "is_ipv4_mapped_network n \<longleftrightarrow> nw_ver n = V6 \<and> (overlaps n IPV4_MAPPED_NETWORK \<or> overlaps n IPV4_COMPATIBLE_NETWORK)"

definition canonical_address :: "ip_version \<times> nat \<Rightarrow> ip_version \<times> nat" where
  \<comment> \<open>both kinds of mapped address keep the IPv4 address in the low 32 bits\<close>
  "canonical_address a = (if is_ipv4_mapped_address a then (V4, snd a mod 2 ^ 32) else a)"

definition prohibited_address :: "ip_version \<times> nat \<Rightarrow> bool" where
  "prohibited_address a \<longleftrightarrow> (let c = canonical_address a in list_ex (\<lambda>p. fst c = nw_ver p \<and> in_net (fst c) (snd c) p) PROHIBITED_NETWORKS)"

definition prohibited_network :: "ip_net \<Rightarrow> bool" where
  "prohibited_network n \<longleftrightarrow> is_ipv4_mapped_network n \<or> list_ex (\<lambda>p. nw_ver n = nw_ver p \<and> overlaps n p) PROHIBITED_NETWORKS"

definition assert_wan_fqdn_policy :: "string \<Rightarrow> app_error + unit" where
  "assert_wan_fqdn_policy normalized = (let host = rev (dropWhile (\<lambda>c. c = CHR ''.'') (rev (py_lower (strip normalized)))) in
     if host \<in> set BLOCKED_FQDNS \<or> list_ex (\<lambda>suffix. ends_with suffix host) BLOCKED_FQDN_SUFFIXES
     then Inl (wan_error ''WAN FQDN targets cannot use localhost, mDNS, or cloud-metadata names'') else Inr ())"

definition assert_wan_target_policy :: "string \<Rightarrow> string \<Rightarrow> app_error + unit" where
  "assert_wan_target_policy type normalized = (if type = WAN_TARGET_FQDN then assert_wan_fqdn_policy normalized
     else case ip_network normalized of None \<Rightarrow> Inl (wan_error ''Invalid WAN target'')
     | Some n \<Rightarrow> if is_ipv4_mapped_network n then Inl (wan_error ''WAN targets cannot use IPv4-mapped IPv6 addresses'')
         else if MAX_WAN_TARGET_ADDRESSES < num_addresses n then
           Inl (wan_error (''WAN target exceeds '' @ show_nat MAX_WAN_TARGET_ADDRESSES @ '' addresses''))
         else if prohibited_network n then
           Inl (wan_error ''WAN targets cannot include private, loopback, link-local, multicast, or reserved addresses'')
         else Inr ())"

definition assert_wan_address_policy :: "ip_version \<times> nat \<Rightarrow> app_error + unit" where
  "assert_wan_address_policy a = (if is_ipv4_mapped_address a then Inl (wan_error ''WAN targets cannot use IPv4-mapped IPv6 addresses'')
     else if prohibited_address a then
       Inl (wan_error ''WAN targets cannot resolve to private, loopback, link-local, multicast, or reserved addresses'')
     else Inr ())"

subsection \<open>Normalisation\<close>

definition scheme_prefix :: "string \<Rightarrow> bool" where
  \<comment> \<open>\<open>_SCHEME_PREFIX.match\<close>\<close>
  "scheme_prefix s \<longleftrightarrow> (let before = takeWhile (\<lambda>c. c \<noteq> CHR '':'') s in
     before \<noteq> [] \<and> is_alpha (hd before) \<and> list_all scheme_char before \<and> starts_with ''://'' (drop (length before) s))"

definition looks_like_url_or_port :: "string \<Rightarrow> bool" where
  "looks_like_url_or_port value \<longleftrightarrow> scheme_prefix value \<or> contains_str ''://'' value \<or>
     (CHR '']'' \<notin> set value \<and> length (filter (\<lambda>c. c = CHR '':'') value) = 1 \<and> all_digits (last (split_on CHR '':'' value)))"

definition normalize_ip :: "string \<Rightarrow> app_error + string" where
  "normalize_ip value = (if CHR ''/'' \<in> set value then Inl (wan_error ''IP targets cannot include a prefix length'')
     else if looks_like_url_or_port value then Inl (wan_error ''IP targets cannot include a URL scheme or port'')
     else case ip_address value of None \<Rightarrow> Inl (wan_error ''Invalid IP address'') | Some _ \<Rightarrow> Inr (ip_text value))"

definition normalize_cidr :: "string \<Rightarrow> app_error + string" where
  "normalize_cidr value = (if looks_like_url_or_port (hd (split_on CHR ''/'' value))
     then Inl (wan_error ''CIDR targets cannot include a URL scheme or port'')
     else case ip_network value of None \<Rightarrow> Inl (wan_error ''Invalid CIDR'') | Some n \<Rightarrow> Inr (net_text n))"

text \<open>\<open>urlparse("//" + value)\<close>: what follows the network location must be empty or one slash.\<close>

definition url_tail :: "string \<Rightarrow> string" where
  "url_tail value = dropWhile (\<lambda>c. c \<notin> set ''/?#'') (filter (\<lambda>c. c \<notin> {CHR 0x09, CHR 0x0A, CHR 0x0D}) value)"

definition url_split :: "string \<Rightarrow> string \<times> string \<times> string \<times> string" where
  \<comment> \<open>path, params, query, fragment\<close>
  "url_split tail = (let (before, fragment) = partition_on CHR ''#'' tail; (p, query) = partition_on CHR ''?'' before;
       dir = rev (dropWhile (\<lambda>c. c \<noteq> CHR ''/'') (rev p)); (file, params) = partition_on CHR '';'' (drop (length dir) p)
     in (dir @ file, params, query, fragment))"

definition url_host_port :: "string \<Rightarrow> string option \<times> string option" where
  \<comment> \<open>\<open>hostname\<close> and the text of the port, of a network location\<close>
  "url_host_port netloc = (let hostinfo = (if CHR ''@'' \<in> set netloc then rev (takeWhile (\<lambda>c. c \<noteq> CHR ''@'') (rev netloc)) else netloc);
       (host, port) = (if CHR ''['' \<in> set hostinfo
          then let (h, r) = partition_on CHR '']'' (snd (partition_on CHR ''['' hostinfo)) in (h, snd (partition_on CHR '':'' r))
          else partition_on CHR '':'' hostinfo)
     in (if host = [] then None else Some (py_lower (fst (partition_on CHR ''%'' host)) @
           (if CHR ''%'' \<in> set host then CHR ''%'' # snd (partition_on CHR ''%'' host) else [])),
         if port = [] then None else Some port))"

definition fqdn_label :: "string \<Rightarrow> bool" where
  "fqdn_label l \<longleftrightarrow> l \<noteq> [] \<and> length l \<le> 63 \<and> list_all (\<lambda>c. c \<in> set LOWERS \<or> is_digit c \<or> c = CHR ''-'') l \<and>
     hd l \<noteq> CHR ''-'' \<and> last l \<noteq> CHR ''-''"

definition normalize_fqdn :: "string \<Rightarrow> app_error + string" where
  "normalize_fqdn value = (if scheme_prefix value \<or> contains_str ''://'' value then Inl (wan_error ''FQDN targets cannot include a URL scheme'')
     else rbind (urlparse (''//'' @ value)) (\<lambda>(_, netloc).
       let (path, params, query, fragment) = url_split (url_tail value); (hostname, port) = url_host_port netloc in
       if path \<notin> {[], ''/''} \<or> query \<noteq> [] \<or> params \<noteq> [] \<or> fragment \<noteq> []
         then Inl (wan_error ''FQDN targets cannot include a path or query'')
       else let host = rev (dropWhile (\<lambda>c. c = CHR ''.'') (rev (py_lower (strip (case hostname of None \<Rightarrow> value | Some h \<Rightarrow> h))))) in
       if port \<noteq> None \<and> (\<not> all_digits (the port) \<or> 65535 < parse_digits (the port)) then Inl (PyError ''ValueError'')
       else if port \<noteq> None \<or> CHR '':'' \<in> set host then Inl (wan_error ''FQDN targets cannot include a port'')
       else if CHR ''*'' \<in> set host \<or> CHR ''?'' \<in> set host then Inl (wan_error ''Wildcard FQDN syntax is not allowed'')
       else if host = [] \<or> host = ''localhost'' then Inl (wan_error ''Invalid FQDN'')
       else if ip_address host \<noteq> None then Inl (wan_error ''FQDN targets cannot be an IP address'')
       else let labels = split_on CHR ''.'' host in
       if length labels < 2 \<or> list_ex (\<lambda>l. \<not> fqdn_label l) labels then Inl (wan_error ''Invalid FQDN'') else Inr host))"

definition normalize_wan_target :: "string \<Rightarrow> string \<Rightarrow> app_error + (string \<times> string)" where
  "normalize_wan_target type value = (if type \<notin> set WAN_TARGET_TYPES then Inl (wan_error ''WAN target type must be ip, cidr, or fqdn'')
     else let raw = strip value in
       if raw = [] then Inl (wan_error ''WAN target value is required'')
       else rbind (if type = WAN_TARGET_IP then normalize_ip raw else if type = WAN_TARGET_CIDR then normalize_cidr raw
           else normalize_fqdn raw) (\<lambda>text. Inr (type, text)))"

subsection \<open>Lookups and the router\<close>

definition require_active_wan_target :: "db \<Rightarrow> nat \<Rightarrow> nat \<Rightarrow> app_error + authorized_wan_target" where
  "require_active_wan_target db i tenant = (case t_get wan_id i (tb_authorized_wan_targets db) of
       None \<Rightarrow> Inl (HttpError 400 ''Authorized WAN target not found for this tenant'')
     | Some t \<Rightarrow> if wan_tenant_id t \<noteq> tenant then Inl (HttpError 400 ''Authorized WAN target not found for this tenant'')
         else if wan_archived_at t \<noteq> None then Inl (HttpError 400 ''Authorized WAN target is archived'') else Inr t)"

definition active_wan_targets_for_tenant :: "db \<Rightarrow> nat \<Rightarrow> authorized_wan_target list" where
  "active_wan_targets_for_tenant db tenant = sorted_by (\<lambda>t. (wan_name t, wan_id t))
     (t_select (\<lambda>t. wan_tenant_id t = tenant \<and> wan_archived_at t = None) (tb_authorized_wan_targets db))"

definition find_active_wan_target_by_normalized :: "db \<Rightarrow> nat \<Rightarrow> string \<Rightarrow> authorized_wan_target option" where
  "find_active_wan_target_by_normalized db tenant normalized = t_first (\<lambda>t. wan_tenant_id t = tenant \<and>
     wan_normalized_value t = normalized \<and> wan_archived_at t = None) (tb_authorized_wan_targets db)"

record wan_target_body =
  wb_name :: string
  wb_target_type :: string
  wb_value :: string

definition list_wan_targets :: "db \<Rightarrow> user \<Rightarrow> nat \<Rightarrow> bool \<Rightarrow> app_error + authorized_wan_target list" where
  "list_wan_targets db u tenant include_archived = rbind (require_roles [''admin'', ''user'', ''viewer''] u) (\<lambda>u.
     rbind (require_visible_tenant db u tenant) (\<lambda>_.
     Inr (sorted_by (\<lambda>t. (wan_name t, wan_id t)) (t_select (\<lambda>t. wan_tenant_id t = tenant \<and>
       (include_archived \<or> wan_archived_at t = None)) (tb_authorized_wan_targets db)))))"

definition sync_companion_subnet :: "time \<Rightarrow> authorized_wan_target \<Rightarrow> db \<Rightarrow> db" where
  "sync_companion_subnet now t db = (if wan_target_type t = WAN_TARGET_FQDN \<or>
       t_exists (\<lambda>s. subnet_tenant_id s = wan_tenant_id t \<and> subnet_scope s = ''wan'' \<and> subnet_cidr s = wan_normalized_value t) (tb_subnets db)
     then db
     else db\<lparr>tb_subnets := t_insert (\<lambda>i. \<lparr>subnet_id = i, subnet_tenant_id = wan_tenant_id t, subnet_name = wan_name t,
       subnet_cidr = wan_normalized_value t, subnet_scope = ''wan'', subnet_site_id = None, subnet_network_id = None,
       subnet_created_at = now\<rparr>) (tb_subnets db)\<rparr>)"

definition wan_target_row :: "time \<Rightarrow> nat \<Rightarrow> wan_target_body \<Rightarrow> string \<times> string \<Rightarrow> nat \<Rightarrow> authorized_wan_target" where
  "wan_target_row now tenant body normal i = \<lparr>wan_id = i, wan_tenant_id = tenant,
     wan_name = (if strip (wb_name body) = [] then snd normal else strip (wb_name body)),
     wan_target_type = fst normal, wan_value = strip (wb_value body), wan_normalized_value = snd normal,
     wan_archived_at = None, wan_created_at = now\<rparr>"

definition wan_audit :: "user \<Rightarrow> string \<Rightarrow> authorized_wan_target \<Rightarrow> audit_req" where
  "wan_audit u action t = \<lparr>ar_actor = Some u, ar_action = action, ar_object_type = ''wan_target'', ar_object_id = Some (wan_id t),
     ar_tenant_id = Some (wan_tenant_id t), ar_site_id = None,
     ar_details = [(''type'', JStr (wan_target_type t)), (''normalized'', JStr (wan_normalized_value t)), (''name'', JStr (wan_name t))]\<rparr>"

definition wan_bad_request :: "app_error + 'a \<Rightarrow> app_error + 'a" where
  \<comment> \<open>\<open>except WanTargetInvalidError\<close>\<close>
  "wan_bad_request r = (case r of Inl (ServiceError d) \<Rightarrow> Inl (HttpError 400 d) | _ \<Rightarrow> r)"

definition create_wan_target :: "time \<Rightarrow> nat \<Rightarrow> wan_target_body \<Rightarrow> user \<Rightarrow> db \<Rightarrow> app_error + (db \<times> authorized_wan_target)" where
  "create_wan_target now tenant body u db = rbind (require_roles [''admin'', ''user''] u) (\<lambda>u.
     rbind (get_tenant db tenant) (\<lambda>_.
     rbind (wan_bad_request (rbind (normalize_wan_target (wb_target_type body) (wb_value body)) (\<lambda>normal.
        rbind (assert_wan_target_policy (fst normal) (snd normal)) (\<lambda>_. Inr normal)))) (\<lambda>normal.
     if find_active_wan_target_by_normalized db tenant (snd normal) \<noteq> None
       then Inl (HttpError 400 ''An active authorized WAN target already uses this value'')
     else let t = wan_target_row now tenant body normal (t_next (tb_authorized_wan_targets db));
         db1 = db\<lparr>tb_authorized_wan_targets := t_insert (wan_target_row now tenant body normal) (tb_authorized_wan_targets db)\<rparr>;
         db2 = fst (record_audit now (wan_audit u ''wan_target.create'' t) (sync_companion_subnet now t db1))
       in rbind (app_event (emit_wan_target_changed now t ''created'' db2)) (\<lambda>(db3, _). Inr (db3, t)))))"

definition archive_wan_target :: "time \<Rightarrow> nat \<Rightarrow> user \<Rightarrow> db \<Rightarrow> app_error + db" where
  "archive_wan_target now i u db = rbind (require_roles [''admin'', ''user''] u) (\<lambda>u.
     case t_get wan_id i (tb_authorized_wan_targets db) of None \<Rightarrow> Inl (HttpError 404 ''WAN target not found'')
     | Some t \<Rightarrow> if wan_archived_at t \<noteq> None then Inr db
         else let t1 = t\<lparr>wan_archived_at := Some now\<rparr>;
             db1 = db\<lparr>tb_authorized_wan_targets := t_modify (\<lambda>r. wan_id r = i) (\<lambda>r. r\<lparr>wan_archived_at := Some now\<rparr>) (tb_authorized_wan_targets db)\<rparr>;
             db2 = fst (record_audit now (wan_audit u ''wan_target.archive'' t1) db1)
           in rbind (app_event (emit_wan_target_changed now t1 ''archived'' db2)) (\<lambda>(db3, _). Inr db3))"

subsection \<open>What the policy keeps out\<close>

definition unzoned :: "ip_net \<Rightarrow> ip_net" where
  "unzoned n = n\<lparr>nw_zone := []\<rparr>"

lemma unzoned_simps [simp]:
  "nw_ver (unzoned n) = nw_ver n" "nw_base (unzoned n) = nw_base n" "nw_len (unzoned n) = nw_len n"
  "num_addresses (unzoned n) = num_addresses n" "addresses (unzoned n) = addresses n"
  "overlaps (unzoned n) m = overlaps n m" "in_net v a (unzoned n) = in_net v a n"
  by (simp_all add: unzoned_def num_addresses_def host_bits_def addresses_def overlaps_def broadcast_def in_net_def)

lemma unzoned_valid:
  assumes "ip_network s = Some n"
  shows "valid_net (unzoned n)"
proof -
  obtain addr v a len where *: "ip_address addr = Some (v, a)" "len \<le> ip_bits v" "n = loose_net v a (ip_zone addr) len"
    using ip_network_cases [OF assms] by blast
  have "unzoned n = loose_net v a [] len" by (simp add: *(3) unzoned_def loose_net_def mk_net_def Let_def)
  moreover have "valid_net (loose_net v a [] len)"
    by (rule loose_net_valid [OF *(2) ip_address_bound [OF *(1)]]) (simp add: loose_net_def mk_net_def Let_def)
  ultimately show ?thesis by simp
qed

definition BLOCKED_NETWORKS :: "ip_net list" where
  "BLOCKED_NETWORKS = PROHIBITED_NETWORKS @ [IPV4_MAPPED_NETWORK, IPV4_COMPATIBLE_NETWORK]"

lemma nets_of_valid: "list_all (\<lambda>s. CHR ''%'' \<notin> set s) texts \<Longrightarrow> list_all valid_net (nets_of texts)"
  by (induction texts) (auto simp: nets_of_def map_filter_simps intro: ip_network_valid ip_network_zone_free split: option.splits)

lemma mapped_network: "IPV4_MAPPED_NETWORK = mk_net V6 281470681743360 96" "IPV4_COMPATIBLE_NETWORK = mk_net V6 0 96"
  by (simp_all add: IPV4_MAPPED_NETWORK_def IPV4_COMPATIBLE_NETWORK_def nets_of_def map_filter_simps ip_eval)

lemma mapped_v6: "nw_ver IPV4_MAPPED_NETWORK = V6" "nw_ver IPV4_COMPATIBLE_NETWORK = V6"
  by (simp_all add: mapped_network mk_net_def)

lemma blocked_valid: "list_all valid_net BLOCKED_NETWORKS"
proof -
  have "list_all valid_net PROHIBITED_NETWORKS" unfolding PROHIBITED_NETWORKS_def by (rule nets_of_valid) simp
  moreover have "valid_net IPV4_MAPPED_NETWORK" "valid_net IPV4_COMPATIBLE_NETWORK"
    by (simp_all add: mapped_network valid_net_def mk_net_def num_addresses_def host_bits_def ip_bits_def)
  ultimately show ?thesis by (simp add: BLOCKED_NETWORKS_def)
qed

lemma disjoint_blocked:
  assumes "valid_net (unzoned n)" "\<not> prohibited_network n"
  shows "addresses n \<inter> addresses_of BLOCKED_NETWORKS = {}"
proof -
  have "addresses n \<inter> addresses p = {}" if p: "p \<in> set BLOCKED_NETWORKS" for p
  proof -
    have v: "valid_net p" using blocked_valid p by (simp add: list_all_iff)
    have "nw_ver n = nw_ver p \<longrightarrow> \<not> overlaps n p"
      using assms(2) p mapped_v6 by (auto simp: BLOCKED_NETWORKS_def prohibited_network_def is_ipv4_mapped_network_def list_ex_iff)
    then show ?thesis using overlaps_iff [OF assms(1) v] by (auto simp: addresses_def)
  qed
  then show ?thesis by (auto simp: addresses_of_def)
qed

lemma wan_policy_excludes:
  assumes "assert_wan_target_policy type normalized = Inr ()" "type \<noteq> WAN_TARGET_FQDN"
  shows "\<exists>n. ip_network normalized = Some n \<and> num_addresses n \<le> MAX_WAN_TARGET_ADDRESSES \<and>
    addresses n \<inter> addresses_of BLOCKED_NETWORKS = {}"
proof -
  obtain n where n: "ip_network normalized = Some n" "num_addresses n \<le> MAX_WAN_TARGET_ADDRESSES" "\<not> prohibited_network n"
    using assms by (auto simp: assert_wan_target_policy_def split: option.splits if_splits)
  then show ?thesis using disjoint_blocked [OF unzoned_valid [OF n(1)] n(3)] by blast
qed

lemma address_policy_excludes:
  assumes "assert_wan_address_policy a = Inr ()"
  shows "a \<notin> addresses_of BLOCKED_NETWORKS"
proof
  assume "a \<in> addresses_of BLOCKED_NETWORKS"
  then obtain p where p: "p \<in> set BLOCKED_NETWORKS" "a \<in> addresses p" by (auto simp: addresses_of_def)
  have v: "valid_net p" using blocked_valid p(1) by (simp add: list_all_iff)
  have mem: "in_net (fst a) (snd a) p" using in_net_addresses [OF v] p(2) by simp
  then have ver: "fst a = nw_ver p" by (simp add: in_net_def)
  have free: "\<not> is_ipv4_mapped_address a" "\<not> prohibited_address a" using assms by (auto simp: assert_wan_address_policy_def split: if_splits)
  then have c: "canonical_address a = a" by (simp add: canonical_address_def)
  show False
  proof (cases "p \<in> set PROHIBITED_NETWORKS")
    case True
    then show False using free(2) mem ver by (auto simp: prohibited_address_def Let_def c list_ex_iff)
  next
    case False
    then have "p = IPV4_MAPPED_NETWORK \<or> p = IPV4_COMPATIBLE_NETWORK" using p(1) by (simp add: BLOCKED_NETWORKS_def)
    then show False using free(1) mem ver mapped_v6 by (auto simp: is_ipv4_mapped_address_def)
  qed
qed

lemma wan_bad_request_Inr [simp]: "wan_bad_request r = Inr x \<longleftrightarrow> r = Inr x"
  by (auto simp: wan_bad_request_def split: sum.splits app_error.splits)

lemma emit_domain_event_frame:
  "emit_domain_event now e db = Inr (db', x) \<Longrightarrow> \<exists>E Q. db' = db\<lparr>tb_domain_events := E, tb_event_alert_queue := Q\<rparr>"
  by (rule exI [of _ "tb_domain_events db'"], rule exI [of _ "tb_event_alert_queue db'"])
    (auto simp: emit_domain_event_def enqueue_alert_routing_def rbind_Inr_iff Let_def split: if_splits option.splits)

lemma emit_wan_frame:
  assumes "app_event (emit_wan_target_changed now t change db) = Inr (db', x)"
  shows "tb_authorized_wan_targets db' = tb_authorized_wan_targets db"
proof -
  obtain E Q where "db' = db\<lparr>tb_domain_events := E, tb_event_alert_queue := Q\<rparr>"
    using emit_domain_event_frame assms unfolding emit_wan_target_changed_def app_event_Inr by blast
  then show ?thesis by simp
qed

lemma create_wan_target_cases:
  assumes "create_wan_target now tenant body u db = Inr (db', t)"
  shows "\<exists>normal. normalize_wan_target (wb_target_type body) (wb_value body) = Inr normal \<and>
      assert_wan_target_policy (fst normal) (snd normal) = Inr () \<and>
      find_active_wan_target_by_normalized db tenant (snd normal) = None \<and>
      t = wan_target_row now tenant body normal (t_next (tb_authorized_wan_targets db)) \<and>
      tb_authorized_wan_targets db' = t_insert (wan_target_row now tenant body normal) (tb_authorized_wan_targets db)"
proof -
  obtain normal db2 where n: "normalize_wan_target (wb_target_type body) (wb_value body) = Inr normal"
      "assert_wan_target_policy (fst normal) (snd normal) = Inr ()"
      "find_active_wan_target_by_normalized db tenant (snd normal) = None"
      "t = wan_target_row now tenant body normal (t_next (tb_authorized_wan_targets db))"
    and db2: "db2 = fst (record_audit now (wan_audit u ''wan_target.create'' t)
       (sync_companion_subnet now t (db\<lparr>tb_authorized_wan_targets := t_insert (wan_target_row now tenant body normal) (tb_authorized_wan_targets db)\<rparr>)))"
    and emit: "\<exists>x. app_event (emit_wan_target_changed now t ''created'' db2) = Inr (db', x)"
    using assms unfolding create_wan_target_def rbind_Inr_iff wan_bad_request_Inr Let_def
    by (auto simp: rbind_Inr_iff require_roles_def simp del: app_event_Inr split: if_splits)
  have "tb_authorized_wan_targets db2 = t_insert (wan_target_row now tenant body normal) (tb_authorized_wan_targets db)"
    unfolding db2 by (simp add: record_audit_fst sync_companion_subnet_def)
  then show ?thesis using n emit emit_wan_frame by metis
qed

text \<open>A port that is no number is an error of the server: \<open>parsed.port\<close> raises a plain \<open>ValueError\<close>.\<close>

lemma bad_port_is_a_server_error: "normalize_wan_target ''fqdn'' ''example.com:http'' = Inl (PyError ''ValueError'')"
  by code_simp

text \<open>C38: An authorised WAN target holds no protected address. When create_wan_target accepts an
  address or a network, the stored text parses, its network has at most 65536 addresses, and none
  of them is private, loopback, link-local, multicast, reserved, or an IPv4 address inside an IPv6
  one; and the tenant had no active target with the same value.\<close>

lemma wan_targets_stay_public:
  assumes "create_wan_target now tenant body u db = Inr (db', t)" "wan_target_type t \<noteq> WAN_TARGET_FQDN"
  shows "t \<in> set (t_rows (tb_authorized_wan_targets db')) \<and>
    find_active_wan_target_by_normalized db tenant (wan_normalized_value t) = None \<and>
    (\<exists>n. ip_network (wan_normalized_value t) = Some n \<and> num_addresses n \<le> MAX_WAN_TARGET_ADDRESSES \<and>
       addresses n \<inter> addresses_of (PROHIBITED_NETWORKS @ [IPV4_MAPPED_NETWORK, IPV4_COMPATIBLE_NETWORK]) = {})"
proof -
  obtain normal where n: "assert_wan_target_policy (fst normal) (snd normal) = Inr ()"
      "find_active_wan_target_by_normalized db tenant (snd normal) = None"
      "t = wan_target_row now tenant body normal (t_next (tb_authorized_wan_targets db))"
      "tb_authorized_wan_targets db' = t_insert (wan_target_row now tenant body normal) (tb_authorized_wan_targets db)"
    using create_wan_target_cases [OF assms(1)] by blast
  have "fst normal \<noteq> WAN_TARGET_FQDN" using assms(2) n(3) by (simp add: wan_target_row_def)
  from wan_policy_excludes [OF n(1) this] n(2-4) show ?thesis
    by (simp add: wan_target_row_def BLOCKED_NETWORKS_def)
qed

lemma prohibited_v4:
  "ip_network ''0.0.0.0/8'' = Some (mk_net V4 0 8)" "ip_network ''10.0.0.0/8'' = Some (mk_net V4 167772160 8)"
  "ip_network ''100.64.0.0/10'' = Some (mk_net V4 1681915904 10)" "ip_network ''127.0.0.0/8'' = Some (mk_net V4 2130706432 8)"
  "ip_network ''169.254.0.0/16'' = Some (mk_net V4 2851995648 16)" "ip_network ''172.16.0.0/12'' = Some (mk_net V4 2886729728 12)"
  "ip_network ''192.168.0.0/16'' = Some (mk_net V4 3232235520 16)" "ip_network ''198.18.0.0/15'' = Some (mk_net V4 3323068416 15)"
  "ip_network ''224.0.0.0/4'' = Some (mk_net V4 3758096384 4)" "ip_network ''240.0.0.0/4'' = Some (mk_net V4 4026531840 4)"
  "ip_network ''255.255.255.255/32'' = Some (mk_net V4 4294967295 32)"
  by (simp_all add: ip_eval)

lemma prohibited_v6:
  "ip_network ''::/128'' = Some (mk_net V6 0 128)" "ip_network ''::1/128'' = Some (mk_net V6 1 128)"
  "ip_network ''fc00::/7'' = Some (mk_net V6 (126 * 2 ^ 121) 7)" "ip_network ''fe80::/10'' = Some (mk_net V6 (1018 * 2 ^ 118) 10)"
  "ip_network ''ff00::/8'' = Some (mk_net V6 (255 * 2 ^ 120) 8)"
  by (simp_all add: ip_eval)

lemma wan_targets_stay_public_witness:
  "\<exists>db' t. create_wan_target 0 1 \<lparr>wb_name = ''dns'', wb_target_type = ''ip'', wb_value = '' 9.9.9.9 ''\<rparr> sample_user small_world = Inr (db', t) \<and>
     (\<exists>n. ip_network (wan_normalized_value t) = Some n \<and> addresses n \<inter> addresses_of PROHIBITED_NETWORKS = {})"
proof -
  let ?body = "\<lparr>wb_name = ''dns'', wb_target_type = ''ip'', wb_value = '' 9.9.9.9 ''\<rparr>"
  have s: "strip '' 9.9.9.9 '' = ''9.9.9.9''" by code_simp
  have ip: "ip_address ''9.9.9.9'' = Some (V4, 151587081)" by (simp add: ip_eval)
  have "looks_like_url_or_port ''9.9.9.9'' = False" by code_simp
  then have n: "normalize_wan_target ''ip'' '' 9.9.9.9 '' = Inr (''ip'', ''9.9.9.9'')"
    by (simp add: normalize_wan_target_def s normalize_ip_def ip ip_text_def WAN_TARGET_TYPES_def)
  have net: "ip_network ''9.9.9.9'' = Some (mk_net V4 151587081 32)" by (simp add: ip_eval)
  have "\<not> prohibited_network (mk_net V4 151587081 32)"
  proof -
    have "list_all (\<lambda>p. \<not> (nw_ver p = V4 \<and> overlaps (mk_net V4 151587081 32) p)) PROHIBITED_NETWORKS"
      unfolding PROHIBITED_NETWORKS_def nets_of_def map_filter_simps prohibited_v4 prohibited_v6
      by (simp add: overlaps_def in_net_def broadcast_def num_addresses_def host_bits_def ip_bits_def mk_net_def map_filter_simps)
    then show ?thesis
      by (auto simp: prohibited_network_def is_ipv4_mapped_network_def list_ex_iff list_all_iff mk_net_def)
  qed
  then have p: "assert_wan_target_policy ''ip'' ''9.9.9.9'' = Inr ()"
    by (simp add: assert_wan_target_policy_def net is_ipv4_mapped_network_def mk_net_def num_addresses_def host_bits_def ip_bits_def
        MAX_WAN_TARGET_ADDRESSES_def prohibited_network_def)
  have "\<exists>db' t. create_wan_target 0 1 ?body sample_user small_world = Inr (db', t) \<and> wan_target_type t = ''ip''"
  proof -
    let ?row = "wan_target_row 0 1 ?body (''ip'', ''9.9.9.9'')"
    let ?db2 = "fst (record_audit 0 (wan_audit sample_user ''wan_target.create'' (?row 1)) (sync_companion_subnet 0 (?row 1)
        (small_world\<lparr>tb_authorized_wan_targets := t_insert ?row (tb_authorized_wan_targets small_world)\<rparr>)))"
    have "isl (app_event (emit_wan_target_changed 0 (?row 1) ''created'' ?db2)) = False" by code_simp
    then obtain db' x where "app_event (emit_wan_target_changed 0 (?row 1) ''created'' ?db2) = Inr (db', x)"
      by (cases "app_event (emit_wan_target_changed 0 (?row 1) ''created'' ?db2)") auto
    moreover have "require_roles [''admin'', ''user''] sample_user = Inr sample_user" "get_tenant small_world 1 = Inr sample_tenant"
        "find_active_wan_target_by_normalized small_world 1 ''9.9.9.9'' = None" "t_next (tb_authorized_wan_targets small_world) = 1"
      by code_simp+
    ultimately have "create_wan_target 0 1 ?body sample_user small_world = Inr (db', ?row 1)"
      by (simp add: create_wan_target_def n p wan_bad_request_def app_event_def)
    then show ?thesis by (auto simp: wan_target_row_def)
  qed
  then obtain db' t where run: "create_wan_target 0 1 ?body sample_user small_world = Inr (db', t)" "wan_target_type t \<noteq> WAN_TARGET_FQDN"
    by auto
  from wan_targets_stay_public [OF this] run(1) show ?thesis by (auto simp: addresses_of_def)
qed

end
