(* ===== verification/Scan_Config.thy ===== *)
theory Scan_Config
  imports Locality Settings Policy_Rules
begin

section \<open>Stage and intensity configuration\<close>

text \<open>
  \<^verbatim>\<open>backend/app/scan_stages.py\<close> and \<^verbatim>\<open>backend/app/scan_intensity.py\<close>: the stages of a
  scan, its port list, and the numeric controls, which an administrator caps. Both configurations
  are stored in normal form and normalised again whenever a run starts: the normal form of the
  stages is a fixed point (\<open>normalize_stages_fixed\<close>) and resolved controls stay within the caps
  (\<open>resolved_within_caps\<close>).

  A \<open>StageConfigError\<close> and an \<open>IntensityError\<close> are \<open>ServiceError\<close>s. The argument \<open>txt\<close> is
  Python's \<open>str\<close> on floats, lists and dicts.
\<close>

abbreviation config_error :: "string \<Rightarrow> app_error" where
  "config_error detail \<equiv> ServiceError detail"

definition text_of :: "(json \<Rightarrow> string) \<Rightarrow> json \<Rightarrow> string" where
  "text_of txt v = (case v of JNull \<Rightarrow> ''None'' | JBool b \<Rightarrow> if b then ''True'' else ''False'' | JInt i \<Rightarrow> show_int i
     | JStr s \<Rightarrow> s | _ \<Rightarrow> txt v)"

subsection \<open>Ports\<close>

definition parse_port_number :: "string \<Rightarrow> app_error + nat" where
  "parse_port_number value = (if \<not> all_digits value then Inl (config_error (''Invalid port: '' @ value))
     else let port = parse_digits value in
       if port = 0 \<or> 65535 < port then Inl (config_error (''Port out of range: '' @ show_nat port)) else Inr port)"

definition validate_port_token :: "string \<Rightarrow> app_error + string" where
  "validate_port_token token = (if CHR ''-'' \<in> set token then
       let (left, right) = partition_on CHR ''-'' token in
       if CHR ''-'' \<in> set right then Inl (config_error (''Malformed port range: '' @ token))
       else rbind (parse_port_number left) (\<lambda>start. rbind (parse_port_number right) (\<lambda>end.
         if end < start then Inl (config_error (''Reversed port range: '' @ token))
         else if start = end then Inr (show_nat start)
         else Inr (show_nat start @ ''-'' @ show_nat end)))
     else rbind (parse_port_number token) (\<lambda>port. Inr (show_nat port)))"

definition port_tokens :: "(json \<Rightarrow> string) \<Rightarrow> json \<Rightarrow> string list" where
  "port_tokens txt raw = (case raw of
       JArr items \<Rightarrow> filter (\<lambda>t. t \<noteq> []) (map (\<lambda>v. strip (text_of txt v)) items)
     | _ \<Rightarrow> filter (\<lambda>t. t \<noteq> []) (map strip (split_on CHR '','' (filter (\<lambda>c. c \<noteq> CHR '' '') (text_of txt raw)))))"

definition parse_custom_ports :: "(json \<Rightarrow> string) \<Rightarrow> json \<Rightarrow> app_error + string list" where
  "parse_custom_ports txt raw = (if raw = JNull \<or> raw = JStr [] \<or> raw = JArr [] then Inr []
     else rfold (\<lambda>token ports. rbind (validate_port_token token) (\<lambda>spec.
       Inr (if spec \<in> set ports then ports else ports @ [spec]))) (port_tokens txt raw) [])"

subsection \<open>Stages\<close>

record stage_config =
  sc_discovery :: bool
  sc_port_mode :: string
  sc_port_scope :: string
  sc_custom_ports :: "string list"
  sc_fingerprint :: bool
  sc_vulnerability :: bool
  sc_nuclei_severities :: string
  sc_nuclei_tags :: string

definition stages_json :: "stage_config \<Rightarrow> json" where
  "stages_json c = JObj [(''discovery'', JBool (sc_discovery c)), (''port_mode'', JStr (sc_port_mode c)),
     (''port_scope'', JStr (sc_port_scope c)), (''custom_ports'', JArr (map JStr (sc_custom_ports c))),
     (''fingerprint'', JBool (sc_fingerprint c)), (''vulnerability'', JBool (sc_vulnerability c)),
     (''nuclei_severities'', JStr (sc_nuclei_severities c)), (''nuclei_tags'', JStr (sc_nuclei_tags c))]"

definition flag_at :: "string \<Rightarrow> bool \<Rightarrow> json \<Rightarrow> bool" where
  \<comment> \<open>\<open>bool(data.get(k, default))\<close>\<close>
  "flag_at k dflt data = (case data of JObj kvs \<Rightarrow> (case map_of kvs k of None \<Rightarrow> dflt | Some v \<Rightarrow> truthy v) | _ \<Rightarrow> dflt)"

definition str_at :: "(json \<Rightarrow> string) \<Rightarrow> string \<Rightarrow> string \<Rightarrow> json \<Rightarrow> string" where
  \<comment> \<open>\<open>str(data.get(k) or default)\<close>\<close>
  "str_at txt k dflt data = text_of txt (jor (jget k data) (JStr dflt))"

definition DEFAULT_SEVERITIES :: string where "DEFAULT_SEVERITIES = ''critical,high,medium''"

definition check_stages :: "stage_config \<Rightarrow> app_error + stage_config" where
  \<comment> \<open>the cross checks at the end of \<open>normalize_stage_config\<close>\<close>
  "check_stages c =
     (if sc_port_mode c \<noteq> PORT_MODE_NONE \<and> sc_port_scope c = PORT_SCOPE_DETECTED \<and> \<not> sc_discovery c
        then Inl (config_error ''Scan only detected hosts requires the discovery stage'')
      else if sc_port_mode c = PORT_MODE_CUSTOM \<and> sc_custom_ports c = []
        then Inl (config_error ''Custom port mode requires at least one valid port or range'')
      else if sc_port_mode c \<noteq> PORT_MODE_CUSTOM \<and> sc_custom_ports c \<noteq> []
        then Inl (config_error ''Custom ports are only allowed when port mode is custom'')
      else if \<not> sc_discovery c \<and> \<not> sc_fingerprint c \<and> \<not> sc_vulnerability c \<and> sc_port_mode c = PORT_MODE_NONE
        then Inl (config_error ''At least one scan stage must be enabled'')
      else if sc_vulnerability c \<and> sc_nuclei_severities c = []
        then Inl (config_error ''Vulnerability scanning requires Nuclei severities'')
      else Inr c)"

definition normalize_stages :: "(json \<Rightarrow> string) \<Rightarrow> json \<Rightarrow> app_error + stage_config" where
  \<comment> \<open>\<open>normalize_stage_config\<close> without a legacy profile\<close>
  "normalize_stages txt data = (let mode = str_at txt ''port_mode'' PORT_MODE_COMMON data; scope = str_at txt ''port_scope'' PORT_SCOPE_DETECTED data in
     if mode \<notin> set PORT_MODES then Inl (config_error ''Port mode must be none, common, deep, or custom'')
     else if scope \<notin> set PORT_SCOPES then Inl (config_error ''Port scope must be detected or all'')
     else rbind (parse_custom_ports txt (jget ''custom_ports'' data)) (\<lambda>ports.
       check_stages \<lparr>sc_discovery = flag_at ''discovery'' True data, sc_port_mode = mode,
         sc_port_scope = (if mode = PORT_MODE_NONE then PORT_SCOPE_DETECTED else scope), sc_custom_ports = ports,
         sc_fingerprint = flag_at ''fingerprint'' True data, sc_vulnerability = flag_at ''vulnerability'' False data,
         sc_nuclei_severities = strip (str_at txt ''nuclei_severities'' DEFAULT_SEVERITIES data),
         sc_nuclei_tags = strip (str_at txt ''nuclei_tags'' [] data)\<rparr>))"

definition LEGACY_DISCOVERY :: string where "LEGACY_DISCOVERY = ''discovery''"

definition LEGACY_DISCOVERY_NUCLEI :: string where "LEGACY_DISCOVERY_NUCLEI = ''discovery_nuclei''"

definition stages_from_legacy_profile :: "string \<Rightarrow> string \<Rightarrow> string \<Rightarrow> app_error + stage_config" where
  "stages_from_legacy_profile profile severities tags = normalize_stages (\<lambda>_. []) (JObj [(''discovery'', JBool True),
     (''port_mode'', JStr PORT_MODE_COMMON), (''custom_ports'', JArr []), (''fingerprint'', JBool True),
     (''vulnerability'', JBool (profile = LEGACY_DISCOVERY_NUCLEI)),
     (''nuclei_severities'', JStr (if severities = [] then DEFAULT_SEVERITIES else severities)), (''nuclei_tags'', JStr tags)])"

definition normalize_stage_config :: "(json \<Rightarrow> string) \<Rightarrow> json option \<Rightarrow> string option \<Rightarrow> app_error + stage_config" where
  "normalize_stage_config txt raw legacy_profile = (let data = (case raw of None \<Rightarrow> JObj [] | Some d \<Rightarrow> jor d (JObj [])) in
     if data = JObj [] \<and> legacy_profile \<noteq> None \<and> legacy_profile \<noteq> Some []
     then stages_from_legacy_profile (the legacy_profile) DEFAULT_SEVERITIES []
     else normalize_stages txt data)"

definition legacy_profile_from_stages :: "stage_config \<Rightarrow> string" where
  "legacy_profile_from_stages c = (if sc_vulnerability c then LEGACY_DISCOVERY_NUCLEI else LEGACY_DISCOVERY)"

subsection \<open>Intensity\<close>

definition INTENSITY_KEYS :: "string list" where
  "INTENSITY_KEYS = [''naabu_rate'', ''naabu_concurrency'', ''naabu_timeout_ms'', ''naabu_retries'',
     ''httpx_rate'', ''httpx_threads'', ''httpx_timeout'', ''httpx_retries'',
     ''nuclei_rate'', ''nuclei_concurrency'', ''nuclei_timeout'', ''nuclei_retries'']"

definition PRESETS :: "(string \<times> (string \<times> int) list) list" where
  "PRESETS = [(INTENSITY_LOW, zip INTENSITY_KEYS [400, 20, 800, 1, 50, 20, 12, 1, 50, 10, 12, 1]),
     (INTENSITY_NORMAL, zip INTENSITY_KEYS [2500, 50, 400, 1, 150, 50, 10, 1, 150, 25, 10, 1]),
     (INTENSITY_HIGH, zip INTENSITY_KEYS [4000, 75, 250, 0, 300, 80, 8, 0, 300, 50, 8, 0])]"

definition cap_key_for_control :: "string \<Rightarrow> string" where
  "cap_key_for_control k = ''scan_cap_'' @ k"

definition DEFAULT_CAPS :: "(string \<times> int) list" where
  "DEFAULT_CAPS = zip (map cap_key_for_control INTENSITY_KEYS) [5000, 100, 10000, 5, 500, 150, 30, 5, 500, 100, 30, 5]"

definition caps_from_settings :: "(string \<times> json) list \<Rightarrow> app_error + (string \<times> int) list" where
  "caps_from_settings settings = (if settings = [] then Inr DEFAULT_CAPS
     else rfold (\<lambda>(key, dflt) data.
       case json_int (case map_of settings key of None \<Rightarrow> JInt dflt | Some v \<Rightarrow> v) of
         None \<Rightarrow> Inl (config_error (''Invalid intensity cap '' @ key))
       | Some cap \<Rightarrow> if cap < 0 then Inl (config_error (''Intensity cap '' @ key @ '' cannot be negative''))
           else Inr (data @ [(key, cap)])) DEFAULT_CAPS [])"

definition assert_within_caps :: "(string \<times> int) list \<Rightarrow> (string \<times> int) list \<Rightarrow> app_error + unit" where
  "assert_within_caps resolved caps = rfold (\<lambda>(key, value) _. case map_of caps (cap_key_for_control key) of
       None \<Rightarrow> Inr ()
     | Some cap \<Rightarrow> if cap < value then Inl (config_error (key @ ''='' @ show_int value @ '' exceeds Admin cap '' @ show_int cap))
         else Inr ()) resolved ()"

definition int_control :: "string \<Rightarrow> json \<Rightarrow> app_error + int" where
  \<comment> \<open>\<open>_as_int\<close>\<close>
  "int_control key value = (case json_int value of None \<Rightarrow> Inl (config_error (''Invalid intensity value for '' @ key))
     | Some n \<Rightarrow> if n < 0 then Inl (config_error (''Intensity value '' @ key @ '' cannot be negative'')) else Inr n)"

definition custom_control :: "json \<Rightarrow> string \<times> int \<Rightarrow> app_error + (string \<times> int)" where
  "custom_control data kv = (let v = jget (fst kv) data in
     if v = JNull then Inr kv else rbind (int_control (fst kv) v) (\<lambda>n. Inr (fst kv, n)))"

definition preset_values :: "string \<Rightarrow> (string \<times> int) list" where
  "preset_values preset = (case map_of PRESETS preset of None \<Rightarrow> [] | Some kvs \<Rightarrow> kvs)"

record intensity =
  in_preset :: string
  in_resolved :: "(string \<times> int) list"

definition intensity_json :: "intensity \<Rightarrow> json" where
  "intensity_json i = JObj [(''preset'', JStr (in_preset i)), (''resolved'', JObj (map (\<lambda>(k, n). (k, JInt n)) (in_resolved i)))]"

definition resolve_intensity :: "(json \<Rightarrow> string) \<Rightarrow> json option \<Rightarrow> (string \<times> int) list \<Rightarrow> app_error + intensity" where
  "resolve_intensity txt raw caps = (let data = (case raw of None \<Rightarrow> JObj [] | Some d \<Rightarrow> jor d (JObj []));
       preset = str_at txt ''preset'' INTENSITY_NORMAL data in
     if preset \<notin> set INTENSITY_PRESETS then Inl (config_error ''Intensity preset must be low, normal, high, or custom'')
     else rbind (if preset = INTENSITY_CUSTOM
         then rfold (\<lambda>kv out. rbind (custom_control data kv) (\<lambda>kv'. Inr (out @ [kv']))) (preset_values INTENSITY_NORMAL) []
         else Inr (preset_values preset)) (\<lambda>resolved.
       rbind (assert_within_caps resolved caps) (\<lambda>_. Inr \<lparr>in_preset = preset, in_resolved = resolved\<rparr>)))"

definition assert_resolved_within_caps :: "json \<Rightarrow> (string \<times> int) list \<Rightarrow> app_error + unit" where
  "assert_resolved_within_caps resolved caps = rbind (rfold (\<lambda>key out.
       case jget key resolved of
         JNull \<Rightarrow> Inl (PyError (if key \<in> fst ` set (obj_items resolved) then ''TypeError'' else ''KeyError''))
       | v \<Rightarrow> (case json_int v of None \<Rightarrow> Inl (PyError ''ValueError'') | Some n \<Rightarrow> Inr (out @ [(key, n)]))) INTENSITY_KEYS [])
     (\<lambda>values. assert_within_caps values caps)"

subsection \<open>The normal form is a fixed point\<close>

definition port_spec :: "string \<Rightarrow> bool" where
  \<comment> \<open>a port, or a range of two different ports\<close>
  "port_spec s \<longleftrightarrow> (\<exists>p. 0 < p \<and> p \<le> 65535 \<and> s = show_nat p) \<or>
     (\<exists>p q. 0 < p \<and> p < q \<and> q \<le> 65535 \<and> s = show_nat p @ ''-'' @ show_nat q)"

lemma parse_port_number_Inr: "parse_port_number s = Inr p \<Longrightarrow> 0 < p \<and> p \<le> 65535"
  by (auto simp: parse_port_number_def Let_def split: if_splits)

lemma parse_port_number_show: "0 < p \<Longrightarrow> p \<le> 65535 \<Longrightarrow> parse_port_number (show_nat p) = Inr p"
  using show_nat_digits [of p] by (simp add: parse_port_number_def all_digits_def)

lemma validate_port_token_Inr: "validate_port_token t = Inr s \<Longrightarrow> port_spec s"
proof (cases "CHR ''-'' \<in> set t")
  case True
  assume "validate_port_token t = Inr s"
  then obtain p q where "0 < p" "p \<le> 65535" "0 < q" "q \<le> 65535" "p \<le> q"
      "s = (if p = q then show_nat p else show_nat p @ ''-'' @ show_nat q)"
    using True by (auto simp: validate_port_token_def Let_def rbind_Inr_iff split: prod.splits if_splits dest!: parse_port_number_Inr)
  then show "port_spec s" unfolding port_spec_def by (cases "p = q") auto
next
  case False
  assume "validate_port_token t = Inr s"
  then show "port_spec s"
    using False by (auto simp: validate_port_token_def port_spec_def rbind_Inr_iff dest!: parse_port_number_Inr)
qed

lemma dash_not_in_show_nat: "CHR ''-'' \<notin> set (show_nat n)"
  by (rule sep_not_in_show_nat) (simp add: is_digit_def DIGITS_def)

lemma validate_port_spec: "port_spec s \<Longrightarrow> validate_port_token s = Inr s"
proof (unfold port_spec_def, elim disjE exE conjE)
  fix p assume "0 < p" "p \<le> 65535" "s = show_nat p"
  then show ?thesis using dash_not_in_show_nat by (simp add: validate_port_token_def parse_port_number_show)
next
  fix p q assume "0 < p" "p < q" "q \<le> 65535" "s = show_nat p @ ''-'' @ show_nat q"
  moreover have "partition_on CHR ''-'' (show_nat p @ ''-'' @ show_nat q) = (show_nat p, show_nat q)"
    using dash_not_in_show_nat [of p] by (auto simp: partition_on_def takeWhile_append dropWhile_append takeWhile_eq_all_conv dropWhile_eq_Nil_conv)
  ultimately show ?thesis using dash_not_in_show_nat by (simp add: validate_port_token_def parse_port_number_show)
qed

lemma show_nat_ends: "\<not> is_space (hd (show_nat n))" "\<not> is_space (last (show_nat n))"
proof -
  have "\<not> is_space c" if "is_digit c" for c using that by (auto simp: is_digit_def DIGITS_def is_space_def PY_SPACE_def)
  then show "\<not> is_space (hd (show_nat n))" "\<not> is_space (last (show_nat n))"
    using show_nat_digits [of n] hd_in_set [of "show_nat n"] last_in_set [of "show_nat n"] by (auto simp: list_all_iff)
qed

lemma port_spec_text: "port_spec s \<Longrightarrow> strip s = s \<and> s \<noteq> []"
  by (auto simp: port_spec_def show_nat_ends intro!: strip_fix)

lemma parse_ports_shape:
  assumes "parse_custom_ports txt raw = Inr ports"
  shows "list_all port_spec ports \<and> distinct ports"
proof (cases "raw = JNull \<or> raw = JStr [] \<or> raw = JArr []")
  case False
  with assms have "rfold (\<lambda>token ports. rbind (validate_port_token token) (\<lambda>spec.
       Inr (if spec \<in> set ports then ports else ports @ [spec]))) (port_tokens txt raw) [] = Inr ports"
    by (simp add: parse_custom_ports_def)
  then show ?thesis
    by (rule rfold_invariant) (auto simp: rbind_Inr_iff dest: validate_port_token_Inr split: if_splits)
qed (use assms in \<open>auto simp: parse_custom_ports_def\<close>)

lemma rfold_specs:
  "list_all port_spec ports \<Longrightarrow> distinct (acc @ ports) \<Longrightarrow> rfold (\<lambda>token ports. rbind (validate_port_token token) (\<lambda>spec.
       Inr (if spec \<in> set ports then ports else ports @ [spec]))) ports acc = Inr (acc @ ports)"
  by (induction ports arbitrary: acc) (simp_all add: validate_port_spec)

lemma parse_ports_again:
  assumes "list_all port_spec ports" "distinct ports"
  shows "parse_custom_ports txt (JArr (map JStr ports)) = Inr ports"
proof -
  have "map strip ports = ports" "filter (\<lambda>t. t \<noteq> []) ports = ports"
    using assms(1) by (auto simp: list_all_iff port_spec_text intro: map_idI)
  then have "port_tokens txt (JArr (map JStr ports)) = ports" by (simp add: port_tokens_def text_of_def comp_def)
  then show ?thesis using rfold_specs [of ports "[]"] assms by (simp add: parse_custom_ports_def)
qed

definition stages_ok :: "stage_config \<Rightarrow> bool" where
  "stages_ok c \<longleftrightarrow> sc_port_mode c \<in> set PORT_MODES \<and> sc_port_scope c \<in> set PORT_SCOPES \<and>
     (sc_port_mode c = PORT_MODE_NONE \<longrightarrow> sc_port_scope c = PORT_SCOPE_DETECTED) \<and>
     (sc_custom_ports c \<noteq> [] \<longleftrightarrow> sc_port_mode c = PORT_MODE_CUSTOM) \<and>
     (sc_port_mode c \<noteq> PORT_MODE_NONE \<and> sc_port_scope c = PORT_SCOPE_DETECTED \<longrightarrow> sc_discovery c) \<and>
     (sc_discovery c \<or> sc_fingerprint c \<or> sc_vulnerability c \<or> sc_port_mode c \<noteq> PORT_MODE_NONE) \<and>
     (sc_vulnerability c \<longrightarrow> sc_nuclei_severities c \<noteq> [])"

lemma check_stages_Inr:
  "check_stages c = Inr c' \<longleftrightarrow> c' = c \<and>
     \<not> (sc_port_mode c \<noteq> PORT_MODE_NONE \<and> sc_port_scope c = PORT_SCOPE_DETECTED \<and> \<not> sc_discovery c) \<and>
     (sc_custom_ports c \<noteq> [] \<longleftrightarrow> sc_port_mode c = PORT_MODE_CUSTOM) \<and>
     (sc_discovery c \<or> sc_fingerprint c \<or> sc_vulnerability c \<or> sc_port_mode c \<noteq> PORT_MODE_NONE) \<and>
     (sc_vulnerability c \<longrightarrow> sc_nuclei_severities c \<noteq> [])"
  by (auto simp: check_stages_def)

lemma normalize_stages_shape:
  assumes "normalize_stages txt data = Inr c"
  shows "stages_ok c" "list_all port_spec (sc_custom_ports c) \<and> distinct (sc_custom_ports c)"
    "strip (sc_nuclei_severities c) = sc_nuclei_severities c" "strip (sc_nuclei_tags c) = sc_nuclei_tags c"
proof -
  have parts: "str_at txt ''port_mode'' PORT_MODE_COMMON data \<in> set PORT_MODES"
      "str_at txt ''port_scope'' PORT_SCOPE_DETECTED data \<in> set PORT_SCOPES"
    using assms by (auto simp: normalize_stages_def Let_def split: if_splits)
  then obtain ports where ports: "parse_custom_ports txt (jget ''custom_ports'' data) = Inr ports" and c:
      "check_stages \<lparr>sc_discovery = flag_at ''discovery'' True data, sc_port_mode = str_at txt ''port_mode'' PORT_MODE_COMMON data,
         sc_port_scope = (if str_at txt ''port_mode'' PORT_MODE_COMMON data = PORT_MODE_NONE then PORT_SCOPE_DETECTED
           else str_at txt ''port_scope'' PORT_SCOPE_DETECTED data), sc_custom_ports = ports,
         sc_fingerprint = flag_at ''fingerprint'' True data, sc_vulnerability = flag_at ''vulnerability'' False data,
         sc_nuclei_severities = strip (str_at txt ''nuclei_severities'' DEFAULT_SEVERITIES data),
         sc_nuclei_tags = strip (str_at txt ''nuclei_tags'' [] data)\<rparr> = Inr c"
    using assms by (auto simp: normalize_stages_def Let_def rbind_Inr_iff)
  show "stages_ok c" using c parts unfolding check_stages_Inr stages_ok_def by (auto simp: PORT_SCOPES_def)
  show "list_all port_spec (sc_custom_ports c) \<and> distinct (sc_custom_ports c)"
    using parse_ports_shape [OF ports] c unfolding check_stages_Inr by auto
  show "strip (sc_nuclei_severities c) = sc_nuclei_severities c" "strip (sc_nuclei_tags c) = sc_nuclei_tags c"
    using c unfolding check_stages_Inr by auto
qed

lemma str_at_stored: "map_of kvs k = Some (JStr s) \<Longrightarrow> str_at txt k d (JObj kvs) = (if s = [] then d else s)"
  by (simp add: str_at_def jor_def text_of_def)

lemma normalize_stages_again:
  assumes c: "stages_ok c" "list_all port_spec (sc_custom_ports c)" "distinct (sc_custom_ports c)"
    "strip (sc_nuclei_severities c) = sc_nuclei_severities c" "strip (sc_nuclei_tags c) = sc_nuclei_tags c"
  shows "normalize_stages txt (stages_json c) = Inr (if sc_nuclei_severities c = [] then c\<lparr>sc_nuclei_severities := DEFAULT_SEVERITIES\<rparr> else c)"
proof -
  have mode: "sc_port_mode c \<noteq> []" "sc_port_scope c \<noteq> []" "sc_port_mode c \<in> set PORT_MODES" "sc_port_scope c \<in> set PORT_SCOPES"
    using c(1) by (auto simp: stages_ok_def PORT_MODES_def PORT_SCOPES_def)
  have d: "strip DEFAULT_SEVERITIES = DEFAULT_SEVERITIES" "DEFAULT_SEVERITIES \<noteq> []" "strip [] = []" by code_simp+
  have at: "str_at txt ''port_mode'' d (stages_json c) = sc_port_mode c" "str_at txt ''port_scope'' d (stages_json c) = sc_port_scope c"
      "str_at txt ''nuclei_severities'' d (stages_json c) = (if sc_nuclei_severities c = [] then d else sc_nuclei_severities c)"
      "str_at txt ''nuclei_tags'' [] (stages_json c) = sc_nuclei_tags c"
      "jget ''custom_ports'' (stages_json c) = JArr (map JStr (sc_custom_ports c))" for d
    using mode unfolding stages_json_def by (simp_all add: str_at_stored)
  have flags: "flag_at ''discovery'' b (stages_json c) = sc_discovery c" "flag_at ''fingerprint'' b (stages_json c) = sc_fingerprint c"
      "flag_at ''vulnerability'' b (stages_json c) = sc_vulnerability c" for b
    by (simp_all add: flag_at_def stages_json_def)
  show ?thesis
    using c mode d unfolding normalize_stages_def Let_def at flags parse_ports_again [OF c(2,3)]
    by (auto simp: check_stages_Inr stages_ok_def intro!: stage_config.equality)
qed

subsection \<open>Resolved controls respect the caps\<close>

lemma assert_within_caps_Inr:
  "assert_within_caps resolved caps = Inr () \<longleftrightarrow>
     list_all (\<lambda>(key, value). case map_of caps (cap_key_for_control key) of None \<Rightarrow> True | Some cap \<Rightarrow> value \<le> cap) resolved"
proof (induction resolved)
  case (Cons kv resolved)
  then show ?case unfolding assert_within_caps_def by (cases kv) (auto simp: rbind_Inr_iff split: option.splits if_splits)
qed (simp add: assert_within_caps_def)

lemma resolve_intensity_within:
  "resolve_intensity txt raw caps = Inr i \<Longrightarrow> assert_within_caps (in_resolved i) caps = Inr ()"
  by (auto simp: resolve_intensity_def Let_def rbind_Inr_iff split: if_splits)

text \<open>C39: Normalising stored stages changes nothing. What normalize_stage_config accepts is
  consistent (custom ports exactly in custom mode, detected hosts only with discovery, at least one
  stage, severities when Nuclei runs), its ports are distinct ports or ranges in normal form, and
  normalising the stored document again, as every run does, returns the same configuration; only an
  empty list of severities, which Nuclei then does not use, becomes the default again.\<close>

lemma stored_stages_are_stable:
  assumes "normalize_stages txt data = Inr c"
  shows "stages_ok c \<and> list_all port_spec (sc_custom_ports c) \<and> distinct (sc_custom_ports c) \<and>
    normalize_stages txt (stages_json c) = Inr (if sc_nuclei_severities c = [] then c\<lparr>sc_nuclei_severities := DEFAULT_SEVERITIES\<rparr> else c)"
  using normalize_stages_shape [OF assms] normalize_stages_again [of c "txt"] by simp

definition sample_stages :: json where
  "sample_stages = JObj [(''port_mode'', JStr ''custom''), (''custom_ports'', JStr ''22, 80-81,22''), (''vulnerability'', JBool True)]"

lemma sample_ports: "parse_custom_ports (\<lambda>_. []) (jget ''custom_ports'' sample_stages) = Inr [''22'', ''80-81'']"
proof -
  have "port_tokens (\<lambda>_. []) (JStr ''22, 80-81,22'') = [''22'', ''80-81'', ''22'']" by code_simp
  moreover have "validate_port_token ''22'' = Inr ''22''" "validate_port_token ''80-81'' = Inr ''80-81''"
    by (simp_all add: validate_port_token_def parse_port_number_def all_digits_def is_digit_def DIGITS_def parse_digits_def
        digit_val_def partition_on_def show_nat.simps digit_char_def Let_def)
  ultimately show ?thesis by (simp add: parse_custom_ports_def sample_stages_def)
qed

lemma stored_stages_are_stable_witness:
  "\<exists>c. normalize_stages (\<lambda>_. []) sample_stages = Inr c \<and> sc_custom_ports c = [''22'', ''80-81''] \<and> stages_ok c \<and>
     normalize_stages (\<lambda>_. []) (stages_json c) = Inr c"
proof -
  obtain c where run: "normalize_stages (\<lambda>_. []) sample_stages = Inr c" "sc_custom_ports c = [''22'', ''80-81'']"
      "sc_nuclei_severities c \<noteq> []"
  proof -
    have at: "str_at (\<lambda>_. []) ''port_mode'' d sample_stages = ''custom''" "str_at (\<lambda>_. []) ''port_scope'' ''detected'' sample_stages = ''detected''"
        "flag_at ''discovery'' True sample_stages" "flag_at ''vulnerability'' False sample_stages"
        "strip (str_at (\<lambda>_. []) ''nuclei_severities'' DEFAULT_SEVERITIES sample_stages) = DEFAULT_SEVERITIES" for d
      by code_simp+
    have "DEFAULT_SEVERITIES \<noteq> []" by code_simp
    then show ?thesis using that unfolding normalize_stages_def sample_ports Let_def at
      by (simp add: PORT_MODES_def PORT_SCOPES_def check_stages_def at)
  qed
  then show ?thesis using stored_stages_are_stable [OF run(1)] by simp
qed

lemma map_fst_custom: "rfold (\<lambda>kv out. rbind (custom_control data kv) (\<lambda>kv'. Inr (out @ [kv']))) kvs acc = Inr out \<Longrightarrow>
    map fst out = map fst acc @ map fst kvs"
  by (induction kvs arbitrary: acc)
    (auto simp: rbind_Inr_iff custom_control_def Let_def split: if_splits)

lemma preset_keys: "preset \<in> set INTENSITY_PRESETS \<Longrightarrow> preset \<noteq> INTENSITY_CUSTOM \<Longrightarrow> map fst (preset_values preset) = INTENSITY_KEYS"
proof -
  have "list_all (\<lambda>p. p = INTENSITY_CUSTOM \<or> map fst (preset_values p) = INTENSITY_KEYS) INTENSITY_PRESETS" by code_simp
  then show "preset \<in> set INTENSITY_PRESETS \<Longrightarrow> preset \<noteq> INTENSITY_CUSTOM \<Longrightarrow> map fst (preset_values preset) = INTENSITY_KEYS"
    by (auto simp: list_all_iff)
qed

lemma resolved_keys:
  assumes "resolve_intensity txt raw caps = Inr i"
  shows "map fst (in_resolved i) = INTENSITY_KEYS"
proof -
  have normal: "map fst (preset_values INTENSITY_NORMAL) = INTENSITY_KEYS" by code_simp
  show ?thesis using assms preset_keys normal
    by (auto simp: resolve_intensity_def Let_def rbind_Inr_iff split: if_splits dest!: map_fst_custom)
qed

lemma caps_checked_again:
  assumes "map fst resolved = INTENSITY_KEYS"
  shows "assert_resolved_within_caps (JObj (map (\<lambda>(k, n). (k, JInt n)) resolved)) caps = assert_within_caps resolved caps"
proof -
  let ?d = "JObj (map (\<lambda>(k, n). (k, JInt n)) resolved)"
  have dist: "distinct (map fst resolved)" unfolding assms by code_simp
  have at: "jget k ?d = JInt n" if "(k, n) \<in> set resolved" for k n
    using map_of_is_SomeI [OF dist that] by (simp add: map_of_map)
  have "rfold (\<lambda>key out. case jget key ?d of
       JNull \<Rightarrow> Inl (PyError (if key \<in> fst ` set (obj_items ?d) then ''TypeError'' else ''KeyError''))
     | v \<Rightarrow> (case json_int v of None \<Rightarrow> Inl (PyError ''ValueError'') | Some n \<Rightarrow> Inr (out @ [(key, n)]))) (map fst kvs) acc = Inr (acc @ kvs)"
    if "set kvs \<subseteq> set resolved" for kvs acc
    using that
  proof (induction kvs arbitrary: acc)
    case (Cons kv kvs)
    then show ?case using at [of "fst kv" "snd kv"] by (simp del: jget.simps)
  qed simp
  from this [of resolved "[]"] show ?thesis unfolding assert_resolved_within_caps_def assms [symmetric] by simp
qed

end
