(* ===== verification/Scan_Snapshot.thy ===== *)
theory Scan_Snapshot
  imports Exclusions Wan_Targets Scan_Config Finding_Lifecycle
begin

section \<open>Run snapshots and the targets a worker gets\<close>

text \<open>
  \<^verbatim>\<open>backend/app/scan_snapshot.py\<close> and the parts of \<^verbatim>\<open>scan_execution.py\<close> and
  \<^verbatim>\<open>scan_security.py\<close> that turn the snapshot of a run into the payload a worker scans: the
  networks of the snapshot less the exclusions recorded in it and those in force now, and the
  addresses of the names less those an exclusion holds. Name resolution is the parameter
  \<open>dns\<close>: the addresses of a name as texts, \<open>None\<close> for an \<open>OSError\<close>.

  A \<open>SnapshotError\<close> and an \<open>ExecutionBlocked\<close> are \<open>ServiceError\<close>s here. The values the builder
  writes as texts are texts.
\<close>

abbreviation snapshot_error :: "string \<Rightarrow> app_error" where
  "snapshot_error detail \<equiv> ServiceError detail"

abbreviation execution_blocked :: "string \<Rightarrow> app_error" where
  "execution_blocked detail \<equiv> ServiceError detail"

subsection \<open>Secrets\<close>

definition SNAPSHOT_SECRET_KEYS :: "string list" where
  "SNAPSHOT_SECRET_KEYS = [''password'', ''secret'', ''token'', ''enrollment_secret'', ''smtp_password'', ''private_key'', ''api_key'', ''nvd_api_key'']"

definition SECRET_KEY_NEEDLES :: "string list" where
  "SECRET_KEY_NEEDLES = [''password'', ''secret'', ''token'', ''authorization'', ''private_key'', ''api_key'', ''credential'', ''cookie'', ''bearer'']"

definition PROVENANCE_SCALAR_KEYS :: "string list" where
  "PROVENANCE_SCALAR_KEYS = [''runtime_version'', ''naabu_version'', ''httpx_version'', ''nuclei_version'', ''nuclei_templates_version'', ''nuclei_templates'']"

fun has_secret :: "json \<Rightarrow> bool" where
  \<comment> \<open>\<open>assert_no_secrets\<close> raises\<close>
  "has_secret (JObj kvs) = list_ex (\<lambda>(k, v). py_lower k \<in> set SNAPSHOT_SECRET_KEYS \<or> has_secret v) kvs"
| "has_secret (JArr xs) = list_ex has_secret xs"
| "has_secret v = False"

definition assert_no_secrets :: "json \<Rightarrow> app_error + unit" where
  "assert_no_secrets payload = (if has_secret payload
     then Inl (snapshot_error ''Execution snapshot must not contain secrets'') else Inr ())"

definition is_secret_key :: "string \<Rightarrow> bool" where
  "is_secret_key key \<longleftrightarrow> py_lower key \<in> set SNAPSHOT_SECRET_KEYS \<or> list_ex (\<lambda>needle. contains_str needle (py_lower key)) SECRET_KEY_NEEDLES"

text \<open>The argument \<open>txt\<close> is Python's \<open>str\<close> on a float.\<close>

definition scalar_provenance_value :: "(json \<Rightarrow> string) \<Rightarrow> json \<Rightarrow> string option" where
  "scalar_provenance_value txt v = (case v of
       JStr s \<Rightarrow> if strip s = [] then None else Some (strip s)
     | JInt i \<Rightarrow> Some (show_int i)
     | JNum q \<Rightarrow> if strip (txt v) = [] then None else Some (strip (txt v))
     | _ \<Rightarrow> None)"

definition empty_value :: "json \<Rightarrow> bool" where
  "empty_value v \<longleftrightarrow> v \<in> {JNull, JStr [], JArr [], JObj []}"

fun sanitize_merged_value :: "json \<Rightarrow> json" where
  "sanitize_merged_value (JObj kvs) = JObj (concat (map (\<lambda>(k, v). let nested = sanitize_merged_value v in
     if is_secret_key k \<or> empty_value nested then [] else [(k, nested)]) kvs))"
| "sanitize_merged_value (JArr xs) = JArr (filter (\<lambda>v. \<not> empty_value v) (map sanitize_merged_value xs))"
| "sanitize_merged_value v = v"

definition merge_key :: "(json \<Rightarrow> string) \<Rightarrow> string \<times> json \<Rightarrow> (string \<times> json) list \<Rightarrow> (string \<times> json) list" where
  "merge_key txt kv prov = (case kv of (key, value) \<Rightarrow>
     if is_secret_key key then prov
     else if key \<in> set PROVENANCE_SCALAR_KEYS then
       (case scalar_provenance_value txt value of None \<Rightarrow> prov | Some s \<Rightarrow> jput key (JStr s) prov)
     else let cleaned = sanitize_merged_value value in if empty_value cleaned then prov else jput key cleaned prov)"

definition merge_provenance :: "(json \<Rightarrow> string) \<Rightarrow> (string \<times> json) list \<Rightarrow> (string \<times> json) list \<Rightarrow> (string \<times> json) list" where
  "merge_provenance txt existing incoming = (let legacy = jget ''nuclei_templates'' (JObj incoming);
       rest = filter (\<lambda>(k, _). k \<noteq> ''nuclei_templates'') incoming;
       payload = (if legacy \<noteq> JNull \<and> ''nuclei_templates_version'' \<notin> fst ` set rest
         then rest @ [(''nuclei_templates_version'', legacy)] else rest)
     in fold (merge_key txt) payload existing)"

subsection \<open>The snapshot\<close>

record dispatch_choice =
  dc_mode :: string
  dc_preferred_agent_id :: "nat option"

record snapshot_parts =
  sp_scan :: scan
  sp_site :: "site option"
  sp_networks :: "network list"
  sp_wan_targets :: "authorized_wan_target list"
  sp_stages :: json
  sp_intensity :: json
  sp_exclusions :: "json list"
  sp_dispatch :: dispatch_choice
  sp_eligible_agent_ids :: "nat list"
  sp_schedule :: json
  sp_timezone_name :: string
  sp_trigger_type :: string
  sp_scheduled_for :: "time option"
  sp_grace_seconds :: int
  sp_wait_minutes :: int
  sp_created_at :: time
  sp_dry_run :: bool

definition network_target :: "network \<Rightarrow> json" where
  "network_target n = JObj [(''id'', jnat (net_id n)), (''name'', JStr (net_name n)), (''cidr'', JStr (net_cidr n))]"

definition wan_target_json :: "authorized_wan_target \<Rightarrow> json" where
  "wan_target_json t = JObj [(''id'', jnat (wan_id t)), (''name'', JStr (wan_name t)), (''type'', JStr (wan_target_type t)),
     (''value'', JStr (wan_value t)), (''normalized'', JStr (wan_normalized_value t))]"

definition snapshot_json :: "snapshot_parts \<Rightarrow> json" where
  "snapshot_json p = JObj [
     (''snapshot_version'', JStr SNAPSHOT_VERSION), (''scan_id'', jnat (scan_id (sp_scan p))),
     (''definition_revision'', JInt (scan_definition_revision (sp_scan p))), (''tenant_id'', jnat (scan_tenant_id (sp_scan p))),
     (''scope'', JStr (scan_scope (sp_scan p))),
     (''site'', jopt (\<lambda>s. JObj [(''id'', jnat (site_id s)), (''name'', JStr (site_name s)), (''timezone'', jopt JStr (site_timezone s))]) (sp_site p)),
     (''targets'', JObj [(''networks'', JArr (map network_target (sorted_by net_id (sp_networks p)))),
        (''wan_targets'', JArr (map wan_target_json (sorted_by wan_id (sp_wan_targets p))))]),
     (''stages'', sp_stages p), (''intensity'', sp_intensity p), (''exclusions'', JArr (sp_exclusions p)),
     (''dispatch'', JObj [(''mode'', JStr (dc_mode (sp_dispatch p))), (''preferred_agent_id'', jopt jnat (dc_preferred_agent_id (sp_dispatch p))),
        (''eligible_agent_ids'', JArr (map jnat (sp_eligible_agent_ids p))), (''grace_seconds'', JInt (sp_grace_seconds p)),
        (''wait_minutes'', JInt (sp_wait_minutes p))]),
     (''schedule'', JObj [(''trigger_type'', JStr (sp_trigger_type p)), (''timezone'', JStr (sp_timezone_name p)), (''config'', sp_schedule p),
        (''scheduled_for'', jopt (\<lambda>t. JStr (isoformat t)) (sp_scheduled_for p))]),
     (''created_at'', JStr (isoformat (sp_created_at p))), (''dry_run'', JBool (sp_dry_run p))]"

definition build_execution_snapshot :: "snapshot_parts \<Rightarrow> app_error + json" where
  "build_execution_snapshot p = rbind (assert_no_secrets (snapshot_json p)) (\<lambda>_. Inr (snapshot_json p))"

subsection \<open>Targets\<close>

record worker_target =
  wt_type :: string
  wt_value :: string
  wt_source_fqdn :: "string option"

definition plain_target :: "string \<Rightarrow> string \<Rightarrow> worker_target" where
  "plain_target type value = \<lparr>wt_type = type, wt_value = value, wt_source_fqdn = None\<rparr>"

definition target_rows :: "string \<Rightarrow> json \<Rightarrow> json list" where
  \<comment> \<open>\<open>(snapshot.get("targets") or {}).get(k) or []\<close>\<close>
  "target_rows k snapshot = as_arr (jget k (as_obj (jget ''targets'' snapshot)))"

definition exclusion_rows :: "json \<Rightarrow> json list" where
  "exclusion_rows snapshot = as_arr (jget ''exclusions'' snapshot)"

definition texts_at :: "string \<Rightarrow> json list \<Rightarrow> app_error + string list" where
  "texts_at k rows = rfold (\<lambda>row out. rbind (text_at k row) (\<lambda>s. Inr (out @ [s]))) rows []"

definition wan_row_targets :: "ip_net list \<Rightarrow> json \<Rightarrow> worker_target list \<Rightarrow> app_error + worker_target list" where
  "wan_row_targets exclusions row targets = rbind (text_at ''type'' row) (\<lambda>kind. rbind (text_at ''normalized'' row) (\<lambda>value.
     if kind \<in> {WAN_TARGET_IP, WAN_TARGET_CIDR} then rbind (apply_exclusions_to_cidrs [value] exclusions) (\<lambda>remaining.
       Inr (targets @ map (\<lambda>item. plain_target (if CHR ''/'' \<in> set item then ''cidr'' else ''ip'') item) remaining))
     else Inr (targets @ [plain_target WAN_TARGET_FQDN value])))"

definition worker_targets_from_snapshot :: "json \<Rightarrow> app_error + worker_target list" where
  "worker_targets_from_snapshot snapshot = rbind (exclusion_networks_from_rows (map Inl (exclusion_rows snapshot))) (\<lambda>exclusions.
     if jget ''scope'' snapshot = JStr ''lan'' then
       rbind (texts_at ''cidr'' (target_rows ''networks'' snapshot)) (\<lambda>cidrs.
       rbind (apply_exclusions_to_cidrs cidrs exclusions) (\<lambda>remaining.
       if cidrs \<noteq> [] \<and> remaining = [] then Inl (snapshot_error ''Exclusions remove all LAN targets'')
       else Inr (map (plain_target ''cidr'') remaining)))
     else rbind (rfold (wan_row_targets exclusions) (target_rows ''wan_targets'' snapshot) []) (\<lambda>targets.
       if targets = [] \<and> target_rows ''wan_targets'' snapshot \<noteq> [] then Inl (snapshot_error ''Exclusions remove all WAN targets'')
       else Inr targets))"

definition target_json :: "worker_target \<Rightarrow> json" where
  "target_json t = JObj ([(''type'', JStr (wt_type t)), (''value'', JStr (wt_value t))] @
     (case wt_source_fqdn t of None \<Rightarrow> [] | Some s \<Rightarrow> [(''source_fqdn'', JStr s)]))"

definition address_values :: "worker_target list \<Rightarrow> json" where
  \<comment> \<open>the values of the targets that are no names\<close>
  "address_values targets = JArr (map (\<lambda>t. JStr (wt_value t)) (filter (\<lambda>t. wt_type t \<in> {WAN_TARGET_IP, WAN_TARGET_CIDR}) targets))"

definition job_payload_from_snapshot :: "scan_job \<Rightarrow> app_error + (string \<times> json) list" where
  "job_payload_from_snapshot job = (let snapshot = job_snapshot job; stages = as_obj (jget ''stages'' snapshot);
       intensity = as_obj (jget ''intensity'' snapshot) in
     rbind (worker_targets_from_snapshot snapshot) (\<lambda>targets. Inr [
       (''job_id'', jnat (job_id job)), (''scan_id'', jnat (job_scan_id job)), (''tenant_id'', jnat (job_tenant_id job)),
       (''scope'', jor (jget ''scope'' snapshot) (JStr [])),
       (''snapshot_version'', jor (jget ''snapshot_version'' snapshot) (jopt JStr (job_snapshot_version job))),
       (''definition_revision'', jopt JInt (job_definition_revision job)),
       (''targets'', JArr (map target_json targets)), (''stages'', stages),
       (''intensity'', jor (jget ''resolved'' intensity) (JObj [])), (''intensity_preset'', jget ''preset'' intensity),
       (''exclusions'', JArr (exclusion_rows snapshot)), (''cidrs'', address_values targets),
       (''profile'', JStr (if truthy (jget ''vulnerability'' stages) then ''discovery_nuclei'' else ''discovery'')),
       (''nuclei_severities'', jor (jget ''nuclei_severities'' stages) (JStr [])),
       (''nuclei_tags'', jor (jget ''nuclei_tags'' stages) (JStr [])),
       (''dry_run'', JBool (truthy (jget ''dry_run'' snapshot)))]))"

definition worker_identity :: "scan_job \<Rightarrow> string" where
  "worker_identity job = (case job_claimed_agent_id job of
       Some i \<Rightarrow> if i \<noteq> 0 then ''agent:'' @ show_nat i else (case job_claimed_by job of None \<Rightarrow> [] | Some w \<Rightarrow> w)
     | None \<Rightarrow> (case job_claimed_by job of None \<Rightarrow> [] | Some w \<Rightarrow> w))"

subsection \<open>Names\<close>

type_synonym dns = "string \<Rightarrow> string list option"

definition cannot_resolve :: "string \<Rightarrow> app_error" where
  "cannot_resolve name = execution_blocked (''Cannot resolve FQDN '' @ name @ '' against current exclusions'')"

definition resolve_fqdn_addresses :: "dns \<Rightarrow> string \<Rightarrow> app_error + (ip_version \<times> nat) list" where
  "resolve_fqdn_addresses dns fqdn = (let name = py_lower (rev (dropWhile (\<lambda>c. c = CHR ''.'') (rev (strip fqdn)))) in
     if name = [] then Inl (execution_blocked ''Queued FQDN target is empty'')
     else case dns name of None \<Rightarrow> Inl (cannot_resolve name)
     | Some hosts \<Rightarrow> let found = List.map_filter (\<lambda>h. ip_address (fst (partition_on CHR ''%'' h))) hosts in
         if found = [] then Inl (cannot_resolve name) else Inr found)"

definition in_any :: "ip_net list \<Rightarrow> ip_version \<times> nat \<Rightarrow> bool" where
  "in_any nets a \<longleftrightarrow> list_ex (in_net (fst a) (snd a)) nets"

definition pin_addresses :: "string \<Rightarrow> (ip_version \<times> nat) list \<Rightarrow> worker_target list \<Rightarrow> app_error + worker_target list" where
  "pin_addresses fqdn found pinned = rfold (\<lambda>a out. rbind (assert_wan_address_policy a) (\<lambda>_.
     Inr (out @ [\<lparr>wt_type = ''ip'', wt_value = address_text (fst a) (snd a), wt_source_fqdn = Some fqdn\<rparr>]))) found pinned"

definition pin_target :: "dns \<Rightarrow> ip_net list \<Rightarrow> worker_target \<Rightarrow> worker_target list \<Rightarrow> app_error + worker_target list" where
  "pin_target dns nets t pinned = (if wt_type t \<noteq> WAN_TARGET_FQDN then Inr (pinned @ [t])
     else rbind (resolve_fqdn_addresses dns (wt_value t)) (\<lambda>found.
       if list_ex (in_any nets) found then Inr pinned else pin_addresses (wt_value t) found pinned))"

definition pin_fqdn_targets :: "dns \<Rightarrow> worker_target list \<Rightarrow> ip_net list \<Rightarrow> app_error + worker_target list" where
  "pin_fqdn_targets dns targets nets = rbind (rfold (pin_target dns nets) targets []) (\<lambda>pinned.
     if targets \<noteq> [] \<and> pinned = [] then Inl (execution_blocked ''Exclusions remove all WAN targets'') else Inr pinned)"

subsection \<open>The payload\<close>

definition current_worker_exclusions :: "db \<Rightarrow> scan_job \<Rightarrow> app_error + json list" where
  "current_worker_exclusions db job = rbind (lift_run (execution_context db job)) (\<lambda>ctx.
     rbind (effective_exclusions db (job_tenant_id job) (ec_site_id ctx) (ec_network_ids ctx) (Some (job_scan_id job))) (\<lambda>rows.
     Inr (serialize_exclusions rows)))"

definition with_key :: "string \<Rightarrow> json \<Rightarrow> json \<Rightarrow> json" where
  "with_key k v d = JObj (jput k v (obj_items d))"

definition combined_exclusions :: "json list \<Rightarrow> json list \<Rightarrow> json list" where
  \<comment> \<open>the rows of the snapshot and the rows in force with another id\<close>
  "combined_exclusions recorded current =
     recorded @ filter (\<lambda>row. jget ''id'' row \<notin> set (map (jget ''id'') recorded)) current"

definition worker_targets :: "dns \<Rightarrow> db \<Rightarrow> scan_job \<Rightarrow> app_error + (worker_target list \<times> json list)" where
  "worker_targets dns db job = (if \<not> has_snapshot job then Inl (execution_blocked ''Run has no immutable execution snapshot'')
     else rbind (current_worker_exclusions db job) (\<lambda>current.
       let snapshot = job_snapshot job; combined = combined_exclusions (exclusion_rows snapshot) current in
       rbind (worker_targets_from_snapshot (with_key ''exclusions'' (JArr combined) snapshot)) (\<lambda>targets.
       rbind (exclusion_networks_from_rows (map Inl combined)) (\<lambda>nets.
       rbind (pin_fqdn_targets dns targets nets) (\<lambda>pinned. Inr (pinned, combined))))))"

definition worker_execution_payload :: "time \<Rightarrow> dns \<Rightarrow> db \<Rightarrow> scan_job \<Rightarrow> app_error + (string \<times> json) list" where
  "worker_execution_payload now dns db job = rbind (worker_targets dns db job) (\<lambda>(pinned, combined).
     rbind (job_payload_from_snapshot job) (\<lambda>payload.
     rbind (lift_run (run_scope job)) (\<lambda>scope.
     Inr (jput ''cancel_requested'' (JBool (job_cancel_requested now job))
       ((case job_deadline_at job of None \<Rightarrow> id | Some d \<Rightarrow> jput ''deadline_at'' (JStr (isoformat d)))
       (jput ''cidrs'' (address_values pinned) (jput ''exclusions'' (JArr combined)
       (jput ''targets'' (JArr (map target_json pinned)) (jput ''scope'' (JStr scope) payload)))))))))"

subsection \<open>Revalidation before a start\<close>

definition assert_fqdn_safe_against :: "dns \<Rightarrow> string \<Rightarrow> ip_net list \<Rightarrow> app_error + unit" where
  "assert_fqdn_safe_against dns fqdn nets = (if nets = [] then Inr ()
     else rbind (resolve_fqdn_addresses dns fqdn) (\<lambda>found.
       if list_ex (in_any nets) found then Inl (execution_blocked ''Newly added exclusions make this run unsafe'') else Inr ()))"

definition row_name :: "json \<Rightarrow> string" where
  \<comment> \<open>\<open>row.get("normalized") or row.get("value") or ""\<close>\<close>
  "row_name row = jstr (jor (jget ''normalized'' row) (jor (jget ''value'' row) (JStr [])))"

definition wan_names_safe :: "dns \<Rightarrow> json \<Rightarrow> ip_net list \<Rightarrow> app_error + unit" where
  "wan_names_safe dns snapshot nets = rfold (\<lambda>row _. if jget ''type'' row = JStr WAN_TARGET_FQDN
     then assert_fqdn_safe_against dns (row_name row) nets else Inr ()) (target_rows ''wan_targets'' snapshot) ()"

definition snapshot_networks :: "dns \<Rightarrow> json \<Rightarrow> ip_net list \<Rightarrow> app_error + ip_net list" where
  \<comment> \<open>the target networks of a snapshot; a name is checked against the new exclusions on the way\<close>
  "snapshot_networks dns snapshot extra = (if jget ''scope'' snapshot = JStr ''lan''
     then rfold (\<lambda>row ns. rbind (text_at ''cidr'' row) (\<lambda>c. rbind (or_raise value_error (ip_network c)) (\<lambda>n. Inr (ns @ [n]))))
       (target_rows ''networks'' snapshot) []
     else rfold (\<lambda>row ns.
         if jget ''type'' row \<in> {JStr ''ip'', JStr ''cidr''} then
           rbind (text_at ''normalized'' row) (\<lambda>c. rbind (or_raise value_error (ip_network c)) (\<lambda>n. Inr (ns @ [n])))
         else if jget ''type'' row = JStr WAN_TARGET_FQDN then
           rbind (assert_fqdn_safe_against dns (row_name row) extra) (\<lambda>_. Inr ns)
         else Inr ns) (target_rows ''wan_targets'' snapshot) [])"

definition check_added_exclusions :: "dns \<Rightarrow> json \<Rightarrow> json list \<Rightarrow> app_error + unit" where
  "check_added_exclusions dns snapshot added = (if added = [] then Inr ()
     else rbind (worker_targets_from_snapshot (with_key ''exclusions'' (JArr (exclusion_rows snapshot @ added)) snapshot)) (\<lambda>_.
       rbind (exclusion_networks_from_rows (map Inl added)) (\<lambda>extra.
       rbind (exclusion_networks_from_rows (map Inl (exclusion_rows snapshot))) (\<lambda>_.
       if extra = [] then Inr ()
       else rbind (case worker_targets_from_snapshot snapshot of
             Inl (ServiceError _) \<Rightarrow> Inl (execution_blocked ''Newly added exclusions make this run unsafe'') | r \<Rightarrow> r) (\<lambda>_.
         rbind (snapshot_networks dns snapshot extra) (\<lambda>targets.
         if list_ex (\<lambda>t. list_ex (overlaps t) extra) targets
         then Inl (execution_blocked ''Newly added exclusions make this run unsafe'') else Inr ()))))))"

definition revalidate_caps_and_exclusions :: "dns \<Rightarrow> db \<Rightarrow> scan_job \<Rightarrow> nat option \<Rightarrow> nat list \<Rightarrow> app_error + unit" where
  "revalidate_caps_and_exclusions dns db job site networks = (let snapshot = job_snapshot job in
     rbind (caps_from_settings (get_settings db)) (\<lambda>caps.
     rbind (assert_resolved_within_caps (as_obj (jget ''resolved'' (as_obj (jget ''intensity'' snapshot)))) caps) (\<lambda>_.
     rbind (effective_exclusions db (job_tenant_id job) site networks (Some (job_scan_id job))) (\<lambda>rows.
     let current = serialize_exclusions rows in
     rbind (check_added_exclusions dns snapshot
        (filter (\<lambda>row. jget ''id'' row \<notin> set (map (jget ''id'') (exclusion_rows snapshot))) current)) (\<lambda>_.
     rbind (exclusion_networks_from_rows (map Inl current)) (\<lambda>nets.
     if nets = [] then Inr () else wan_names_safe dns snapshot nets))))))"

definition lan_claim_network :: "db \<Rightarrow> scan_job \<Rightarrow> agent \<Rightarrow> site \<Rightarrow> json \<Rightarrow> nat list \<Rightarrow> app_error + nat list" where
  "lan_claim_network db job a s row ids = (case as_nat (jget ''id'' row) of None \<Rightarrow> Inl (PyError ''KeyError'')
     | Some i \<Rightarrow> (case t_get net_id i (tb_networks db) of
           None \<Rightarrow> Inl (execution_blocked ''One or more networks are archived or unauthorized'')
         | Some n \<Rightarrow> if net_archived_at n \<noteq> None \<or> net_tenant_id n \<noteq> job_tenant_id job \<or> net_site_id n \<noteq> site_id s
             then Inl (execution_blocked ''One or more networks are archived or unauthorized'')
             else if \<not> is_authorized db (net_id n) (ag_id a)
             then Inl (execution_blocked (''Agent is not authorized for network '' @ net_name n))
             else Inr (ids @ [net_id n])))"

definition revalidate_lan_claim :: "dns \<Rightarrow> db \<Rightarrow> scan_job \<Rightarrow> agent \<Rightarrow> app_error + unit" where
  "revalidate_lan_claim dns db job a = (let snapshot = job_snapshot job in
     if jget ''scope'' snapshot \<noteq> JStr ''lan'' then Inl (execution_blocked ''Run snapshot is not a LAN execution'')
     else case Option.bind (as_nat (jget ''id'' (as_obj (jget ''site'' snapshot)))) (\<lambda>i. if i = 0 then None else t_get site_id i (tb_sites db)) of
       None \<Rightarrow> Inl (execution_blocked ''Site is archived or no longer authorized'')
     | Some s \<Rightarrow> if site_archived_at s \<noteq> None \<or> site_tenant_id s \<noteq> job_tenant_id job
         then Inl (execution_blocked ''Site is archived or no longer authorized'')
         else if ag_tenant_id a \<noteq> job_tenant_id job \<or> ag_site_id a \<noteq> site_id s
         then Inl (execution_blocked ''Agent is not authorized for this site'')
         else if ag_status a \<noteq> ''approved'' then Inl (execution_blocked ''Agent is not approved'')
         else rbind (rfold (lan_claim_network db job a s) (target_rows ''networks'' snapshot) []) (\<lambda>ids.
           if ids = [] then Inl (execution_blocked ''LAN run has no authorized networks'')
           else revalidate_caps_and_exclusions dns db job (as_nat (jget ''id'' (as_obj (jget ''site'' snapshot)))) ids))"

definition wan_start_row :: "dns \<Rightarrow> db \<Rightarrow> scan_job \<Rightarrow> json \<Rightarrow> app_error + unit" where
  "wan_start_row dns db job row = (case as_nat (jget ''id'' row) of None \<Rightarrow> Inl (PyError ''KeyError'')
     | Some i \<Rightarrow> (case t_get wan_id i (tb_authorized_wan_targets db) of
           None \<Rightarrow> Inl (execution_blocked ''One or more authorized WAN targets were revoked'')
         | Some t \<Rightarrow> if wan_tenant_id t \<noteq> job_tenant_id job \<or> wan_archived_at t \<noteq> None
             then Inl (execution_blocked ''One or more authorized WAN targets were revoked'')
             else if JStr (wan_target_type t) \<noteq> jget ''type'' row \<or> JStr (wan_normalized_value t) \<noteq> jget ''normalized'' row
             then Inl (execution_blocked ''Authorized WAN target value no longer matches the snapshot'')
             else rbind (assert_wan_target_policy (wan_target_type t) (wan_normalized_value t)) (\<lambda>_.
               if wan_target_type t \<noteq> WAN_TARGET_FQDN then Inr ()
               else rbind (resolve_fqdn_addresses dns (wan_normalized_value t)) (\<lambda>found.
                 rfold (\<lambda>a _. assert_wan_address_policy a) found ()))))"

definition revalidate_wan_start :: "dns \<Rightarrow> db \<Rightarrow> scan_job \<Rightarrow> app_error + unit" where
  "revalidate_wan_start dns db job = (let snapshot = job_snapshot job in
     if jget ''scope'' snapshot \<noteq> JStr ''wan'' then Inl (execution_blocked ''Run snapshot is not a WAN execution'')
     else rbind (rfold (\<lambda>row _. wan_start_row dns db job row) (target_rows ''wan_targets'' snapshot) ()) (\<lambda>_.
       revalidate_caps_and_exclusions dns db job None []))"

subsection \<open>No worker gets an excluded address\<close>

definition plain_text :: "string \<Rightarrow> bool" where
  \<comment> \<open>a text without a scope id\<close>
  "plain_text s \<longleftrightarrow> CHR ''%'' \<notin> set s"

definition row_plain :: "string \<Rightarrow> json \<Rightarrow> bool" where
  "row_plain k row \<longleftrightarrow> (case jget k row of JStr s \<Rightarrow> plain_text s | _ \<Rightarrow> True)"

definition plain_snapshot :: "json \<Rightarrow> bool" where
  "plain_snapshot snapshot \<longleftrightarrow> list_all (row_plain ''cidr'') (target_rows ''networks'' snapshot) \<and>
     list_all (row_plain ''normalized'') (target_rows ''wan_targets'' snapshot @ exclusion_rows snapshot)"

definition avoids :: "ip_net list \<Rightarrow> worker_target \<Rightarrow> bool" where
  \<comment> \<open>the network of the target has no address in common with the given networks\<close>
  "avoids nets t \<longleftrightarrow> (\<exists>n. ip_network (wt_value t) = Some n \<and> addresses n \<inter> addresses_of nets = {})"

lemma text_at_plain: "text_at k row = Inr s \<Longrightarrow> row_plain k row \<Longrightarrow> plain_text s"
  by (auto simp: text_at_def row_plain_def split: json.splits option.splits)

lemma exclusion_networks_valid:
  assumes "exclusion_networks type value = Inr nets" "plain_text value"
  shows "list_all valid_net nets"
proof (cases "type = EXCLUSION_IP \<or> type = EXCLUSION_CIDR")
  case True
  then obtain n where "ip_network value = Some n" "nets = [n]"
    using assms(1) by (auto simp: exclusion_networks_def rbind_Inr_iff split: if_splits)
  then show ?thesis using assms(2) ip_network_valid ip_network_zone_free by (auto simp: plain_text_def)
next
  case False
  then obtain v start final where r: "ip_address (snd (partition_on CHR ''-'' value)) = Some (v, final)"
      "summarize_range v (start, ip_zone (fst (partition_on CHR ''-'' value))) (final, ip_zone (snd (partition_on CHR ''-'' value))) = Some nets"
    using assms(1) by (auto simp: exclusion_networks_def rbind_Inr_iff Let_def split: if_splits)
  then have "nets = summary v start final" by (auto simp: summarize_range_def split: if_splits)
  then show ?thesis using summary_correct [OF ip_address_bound [OF r(1)], of start] by (simp add: list_all_iff)
qed

lemma exclusion_rows_valid:
  assumes "exclusion_networks_from_rows (map Inl rows) = Inr nets" "list_all (row_plain ''normalized'') rows"
  shows "list_all valid_net nets"
proof -
  have "rfold (\<lambda>row ns. rbind (row_networks row) (\<lambda>more. Inr (ns @ more))) (map Inl rows) acc = Inr nets \<Longrightarrow>
      list_all valid_net acc \<Longrightarrow> list_all valid_net nets" for acc
    using assms(2)
  proof (induction rows arbitrary: acc)
    case (Cons row rows)
    then obtain type v more where m: "text_at ''normalized'' row = Inr v" "exclusion_networks type v = Inr more"
        "rfold (\<lambda>row ns. rbind (row_networks row) (\<lambda>more. Inr (ns @ more))) (map Inl rows) (acc @ more) = Inr nets"
      by (auto simp: row_networks_def rbind_Inr_iff)
    have "list_all valid_net more" using Cons.prems(3) exclusion_networks_valid [OF m(2) text_at_plain [OF m(1)]] by simp
    then show ?case using Cons.IH [OF m(3)] Cons.prems(2,3) by simp
  qed simp
  from this [of "[]"] show ?thesis using assms(1) by (simp add: exclusion_networks_from_rows_def)
qed

lemma parse_targets_valid:
  assumes "rfold (\<lambda>c ns. rbind (or_raise value_error (ip_network c)) (\<lambda>n. Inr (ns @ [n]))) cidrs acc = Inr targets"
    "list_all plain_text cidrs" "list_all valid_net acc"
  shows "list_all valid_net targets"
  using assms
proof (induction cidrs arbitrary: acc)
  case (Cons c cidrs)
  then obtain n where n: "ip_network c = Some n"
      "rfold (\<lambda>c ns. rbind (or_raise value_error (ip_network c)) (\<lambda>n. Inr (ns @ [n]))) cidrs (acc @ [n]) = Inr targets"
    by (auto simp: rbind_Inr_iff)
  have "valid_net n" using Cons.prems(2) ip_network_valid [OF n(1) ip_network_zone_free [OF n(1)]] by (simp add: plain_text_def)
  then show ?case using Cons.IH [OF n(2)] Cons.prems(2,3) by simp
qed simp

lemma apply_exclusions_avoid:
  assumes "apply_exclusions_to_cidrs cidrs nets = Inr texts" "list_all plain_text cidrs" "list_all valid_net nets" "s \<in> set texts"
  shows "\<exists>n. ip_network s = Some n \<and> addresses n \<inter> addresses_of nets = {}"
proof -
  obtain targets ms where t: "rfold (\<lambda>c ns. rbind (or_raise value_error (ip_network c)) (\<lambda>n. Inr (ns @ [n]))) cidrs [] = Inr targets"
      "subtract_networks targets nets = Inr ms" "texts = map net_text ms"
    using assms(1) by (auto simp: apply_exclusions_to_cidrs_def rbind_Inr_iff)
  have "list_all valid_net targets" using parse_targets_valid [OF t(1) assms(2)] by simp
  from subtract_networks_correct(1) [OF assms(3) this t(2)]
  have ms: "addresses_of ms = addresses_of targets - addresses_of nets" "list_all valid_net ms" by simp_all
  obtain m where m: "m \<in> set ms" "s = net_text m" using t(3) assms(4) by auto
  have "addresses m \<subseteq> addresses_of ms" using m(1) by (auto simp: addresses_of_def)
  then have "addresses m \<inter> addresses_of nets = {}" unfolding ms(1) by blast
  moreover have "ip_network s = Some m" using m ms(2) ip_network_text [of m] by (simp add: list_all_iff)
  ultimately show ?thesis by blast
qed

lemma texts_at_plain:
  assumes "texts_at k rows = Inr texts" "list_all (row_plain k) rows"
  shows "list_all plain_text texts"
proof -
  have "rfold (\<lambda>row out. rbind (text_at k row) (\<lambda>s. Inr (out @ [s]))) rows acc = Inr texts \<Longrightarrow> list_all plain_text acc \<Longrightarrow>
      list_all plain_text texts" for acc
    using assms(2) by (induction rows arbitrary: acc) (auto simp: rbind_Inr_iff dest: text_at_plain)
  from this [of "[]"] show ?thesis using assms(1) by (simp add: texts_at_def)
qed

lemma wan_row_avoids:
  assumes "wan_row_targets nets row targets = Inr targets'" "row_plain ''normalized'' row" "list_all valid_net nets"
    "\<forall>t \<in> set targets. wt_type t = WAN_TARGET_FQDN \<or> avoids nets t"
  shows "\<forall>t \<in> set targets'. wt_type t = WAN_TARGET_FQDN \<or> avoids nets t"
proof -
  obtain kind v where kv: "text_at ''type'' row = Inr kind" "text_at ''normalized'' row = Inr v"
    using assms(1) by (auto simp: wan_row_targets_def rbind_Inr_iff)
  note v = text_at_plain [OF kv(2) assms(2)]
  show ?thesis
  proof (cases "kind \<in> {WAN_TARGET_IP, WAN_TARGET_CIDR}")
    case True
    then obtain texts where texts: "apply_exclusions_to_cidrs [v] nets = Inr texts"
        "targets' = targets @ map (\<lambda>item. plain_target (if CHR ''/'' \<in> set item then ''cidr'' else ''ip'') item) texts"
      using assms(1) kv by (auto simp: wan_row_targets_def rbind_Inr_iff)
    have "avoids nets (plain_target k s)" if "s \<in> set texts" for s k
      using apply_exclusions_avoid [OF texts(1) _ assms(3) that] v by (auto simp: avoids_def plain_target_def)
    then show ?thesis using texts(2) assms(4) by auto
  next
    case False
    then have "targets' = targets @ [plain_target WAN_TARGET_FQDN v]" using assms(1) kv by (auto simp: wan_row_targets_def)
    then show ?thesis using assms(4) by (auto simp: plain_target_def)
  qed
qed

lemma snapshot_targets_avoid:
  assumes "worker_targets_from_snapshot snapshot = Inr targets" "plain_snapshot snapshot"
    "exclusion_networks_from_rows (map Inl (exclusion_rows snapshot)) = Inr nets"
  shows "\<forall>t \<in> set targets. wt_type t = WAN_TARGET_FQDN \<or> avoids nets t"
proof -
  have valid: "list_all valid_net nets"
    by (rule exclusion_rows_valid [OF assms(3)]) (use assms(2) in \<open>simp add: plain_snapshot_def\<close>)
  show ?thesis
  proof (cases "jget ''scope'' snapshot = JStr ''lan''")
    case True
    then obtain cidrs texts where t: "texts_at ''cidr'' (target_rows ''networks'' snapshot) = Inr cidrs"
        "apply_exclusions_to_cidrs cidrs nets = Inr texts" "targets = map (plain_target ''cidr'') texts"
      using assms(1,3) by (auto simp: worker_targets_from_snapshot_def rbind_Inr_iff split: if_splits)
    have "list_all plain_text cidrs" by (rule texts_at_plain [OF t(1)]) (use assms(2) in \<open>simp add: plain_snapshot_def\<close>)
    then show ?thesis using apply_exclusions_avoid [OF t(2) _ valid] t(3) by (auto simp: avoids_def plain_target_def)
  next
    case False
    then have fold: "rfold (wan_row_targets nets) (target_rows ''wan_targets'' snapshot) [] = Inr targets"
      using assms(1,3) by (auto simp: worker_targets_from_snapshot_def rbind_Inr_iff split: if_splits)
    have plain: "list_all (row_plain ''normalized'') (target_rows ''wan_targets'' snapshot)" using assms(2) by (simp add: plain_snapshot_def)
    have "rfold (wan_row_targets nets) rows acc = Inr targets \<Longrightarrow> list_all (row_plain ''normalized'') rows \<Longrightarrow>
        \<forall>t \<in> set acc. wt_type t = WAN_TARGET_FQDN \<or> avoids nets t \<Longrightarrow> \<forall>t \<in> set targets. wt_type t = WAN_TARGET_FQDN \<or> avoids nets t"
      for rows acc
    proof (induction rows arbitrary: acc)
      case (Cons row rows)
      then obtain acc' where a: "wan_row_targets nets row acc = Inr acc'" "rfold (wan_row_targets nets) rows acc' = Inr targets"
        by (auto simp: rbind_Inr_iff)
      have "\<forall>t \<in> set acc'. wt_type t = WAN_TARGET_FQDN \<or> avoids nets t"
        by (rule wan_row_avoids [OF a(1) _ valid Cons.prems(3)]) (use Cons.prems(2) in simp)
      then show ?case using Cons.IH [OF a(2)] Cons.prems(2) by simp
    qed simp
    then show ?thesis using fold plain by simp
  qed
qed

lemma resolved_bound:
  "resolve_fqdn_addresses dns fqdn = Inr found \<Longrightarrow> a \<in> set found \<Longrightarrow> snd a < 2 ^ ip_bits (fst a)"
  by (auto simp: resolve_fqdn_addresses_def Let_def map_filter_def split: option.splits if_splits) (erule ip_address_bound)

lemma single_address:
  assumes "a < 2 ^ ip_bits v"
  shows "\<exists>n. ip_network (address_text v a) = Some n \<and> addresses n = {(v, a)}"
proof -
  have "split_on CHR ''/'' (address_text v a) = [address_text v a]" using address_text_chars(2) by (rule split_on_none)
  moreover have "ip_zone (address_text v a) = []" using address_text_chars(1) by (simp add: ip_zone_def)
  ultimately have "ip_network (address_text v a) = Some (loose_net v a [] (ip_bits v))"
    using ip_address_text [OF assms] by (simp add: ip_network_def)
  moreover have "addresses (loose_net v a [] (ip_bits v)) = {(v, a)}"
    by (auto simp: loose_net_def addresses_def num_addresses_def host_bits_def)
  ultimately show ?thesis by blast
qed

definition pinned_ok :: "ip_net list \<Rightarrow> worker_target \<Rightarrow> bool" where
  "pinned_ok nets t \<longleftrightarrow> wt_type t \<noteq> WAN_TARGET_FQDN \<and> avoids nets t \<and>
     (wt_source_fqdn t = None \<or> avoids BLOCKED_NETWORKS t)"

lemma pin_addresses_ok:
  assumes "pin_addresses fqdn found acc = Inr pinned" "list_all valid_net nets"
    "\<forall>a \<in> set found. snd a < 2 ^ ip_bits (fst a) \<and> \<not> in_any nets a" "list_all (pinned_ok nets) acc"
  shows "list_all (pinned_ok nets) pinned"
  using assms unfolding pin_addresses_def
proof (induction found arbitrary: acc)
  case (Cons a found)
  let ?t = "\<lparr>wt_type = ''ip'', wt_value = address_text (fst a) (snd a), wt_source_fqdn = Some fqdn\<rparr>"
  have step: "assert_wan_address_policy a = Inr ()" using Cons.prems(1) by (auto simp: rbind_Inr_iff)
  obtain n where n: "ip_network (address_text (fst a) (snd a)) = Some n" "addresses n = {a}"
    using single_address [of "snd a" "fst a"] Cons.prems(3) by auto
  have "a \<notin> addresses_of nets"
    using Cons.prems(2,3) in_net_addresses [of _ "fst a" "snd a"] by (auto simp: in_any_def addresses_of_def list_all_iff list_ex_iff)
  moreover have "a \<notin> addresses_of BLOCKED_NETWORKS" by (rule address_policy_excludes [OF step])
  ultimately have "pinned_ok nets ?t" using n by (simp add: pinned_ok_def avoids_def)
  then show ?case using Cons.IH [of "acc @ [?t]"] Cons.prems step by simp
qed simp

lemma pin_target_ok:
  assumes "pin_target dns nets t acc = Inr pinned" "list_all valid_net nets" "list_all (pinned_ok nets) acc"
    "wt_type t = WAN_TARGET_FQDN \<or> avoids nets t" "wt_source_fqdn t = None"
  shows "list_all (pinned_ok nets) pinned"
proof (cases "wt_type t \<noteq> WAN_TARGET_FQDN")
  case True
  then have "pinned = acc @ [t]" using assms(1) by (simp add: pin_target_def)
  moreover have "pinned_ok nets t" using True assms(4,5) by (simp add: pinned_ok_def)
  ultimately show ?thesis using assms(3) by simp
next
  case False
  then obtain found where f: "resolve_fqdn_addresses dns (wt_value t) = Inr found"
      "(if list_ex (in_any nets) found then Inr acc else pin_addresses (wt_value t) found acc) = Inr pinned"
    using assms(1) by (auto simp: pin_target_def rbind_Inr_iff)
  show ?thesis
  proof (cases "list_ex (in_any nets) found")
    case True
    then show ?thesis using f(2) assms(3) by simp
  next
    case none: False
    then have "\<forall>a \<in> set found. snd a < 2 ^ ip_bits (fst a) \<and> \<not> in_any nets a"
      using resolved_bound [OF f(1)] by (auto simp: list_ex_iff)
    then show ?thesis using pin_addresses_ok [OF _ assms(2) _ assms(3)] f(2) none by simp
  qed
qed

lemma pin_fqdn_targets_ok:
  assumes "pin_fqdn_targets dns targets nets = Inr pinned" "list_all valid_net nets"
    "\<forall>t \<in> set targets. (wt_type t = WAN_TARGET_FQDN \<or> avoids nets t) \<and> wt_source_fqdn t = None"
  shows "list_all (pinned_ok nets) pinned"
proof -
  have "rfold (pin_target dns nets) targets acc = Inr pinned \<Longrightarrow> list_all (pinned_ok nets) acc \<Longrightarrow> list_all (pinned_ok nets) pinned" for acc
    using assms(3)
  proof (induction targets arbitrary: acc)
    case (Cons t targets)
    then obtain acc' where a: "pin_target dns nets t acc = Inr acc'" "rfold (pin_target dns nets) targets acc' = Inr pinned"
      by (auto simp: rbind_Inr_iff)
    have "list_all (pinned_ok nets) acc'" by (rule pin_target_ok [OF a(1) assms(2) Cons.prems(2)]) (use Cons.prems(3) in auto)
    then show ?case using Cons.IH [OF a(2)] Cons.prems(3) by simp
  qed simp
  from this [of "[]"] show ?thesis using assms(1) by (auto simp: pin_fqdn_targets_def rbind_Inr_iff split: if_splits)
qed

lemma plain_targets_no_source:
  assumes "worker_targets_from_snapshot snapshot = Inr targets" "t \<in> set targets"
  shows "wt_source_fqdn t = None"
proof -
  have row: "wan_row_targets nets row acc = Inr acc' \<Longrightarrow> \<forall>t \<in> set acc. wt_source_fqdn t = None \<Longrightarrow> \<forall>t \<in> set acc'. wt_source_fqdn t = None"
    for nets row acc acc' by (auto simp: wan_row_targets_def rbind_Inr_iff plain_target_def split: if_splits)
  have "\<forall>t \<in> set targets. wt_source_fqdn t = None"
    if fold: "rfold (wan_row_targets nets) rows [] = Inr targets" for nets rows
    by (rule rfold_invariant [OF fold]) (auto dest: row)
  then show ?thesis using assms
    by (auto simp: worker_targets_from_snapshot_def rbind_Inr_iff plain_target_def split: if_splits)
qed

lemma with_key_same: "jget k (with_key k v d) = v" "k' \<noteq> k \<Longrightarrow> is_obj d \<Longrightarrow> jget k' (with_key k v d) = jget k' d"
  by (simp_all add: with_key_def map_of_jput) (cases d; simp)

lemma serialize_row_plain: "row_plain ''normalized'' (serialize_exclusion x) \<longleftrightarrow> plain_text (exc_normalized_value x)"
  by (simp add: row_plain_def serialize_exclusion_def)

lemma current_rows_plain:
  assumes "current_worker_exclusions db job = Inr rows" "list_all (\<lambda>x. plain_text (exc_normalized_value x)) (t_rows (tb_scan_exclusions db))"
  shows "list_all (row_plain ''normalized'') rows"
  using assms by (auto simp: current_worker_exclusions_def effective_exclusions_def Let_def rbind_Inr_iff serialize_exclusions_def
      list_all_iff serialize_row_plain t_select_def split: if_splits)

lemma worker_targets_avoid:
  assumes "worker_targets dns db job = Inr (pinned, combined)" "is_obj (job_snapshot job)" "plain_snapshot (job_snapshot job)"
    "list_all (\<lambda>x. plain_text (exc_normalized_value x)) (t_rows (tb_scan_exclusions db))"
  shows "\<exists>nets. exclusion_networks_from_rows (map Inl combined) = Inr nets \<and> list_all (pinned_ok nets) pinned"
    "\<exists>current. current_worker_exclusions db job = Inr current \<and> combined = combined_exclusions (exclusion_rows (job_snapshot job)) current"
proof -
  let ?s = "job_snapshot job"
  obtain current targets nets where c: "current_worker_exclusions db job = Inr current"
      "combined = combined_exclusions (exclusion_rows ?s) current"
    and t: "worker_targets_from_snapshot (with_key ''exclusions'' (JArr combined) ?s) = Inr targets"
    and n: "exclusion_networks_from_rows (map Inl combined) = Inr nets" and p: "pin_fqdn_targets dns targets nets = Inr pinned"
    using assms(1) by (auto simp: worker_targets_def Let_def rbind_Inr_iff split: if_splits)
  let ?w = "with_key ''exclusions'' (JArr combined) ?s"
  have rows: "exclusion_rows ?w = combined" "target_rows k ?w = target_rows k ?s" for k
    using with_key_same(2) [OF _ assms(2)] by (simp_all add: exclusion_rows_def target_rows_def with_key_same(1))
  have plain: "list_all (row_plain ''normalized'') combined"
    using current_rows_plain [OF c(1) assms(4)] assms(3) unfolding c(2) combined_exclusions_def plain_snapshot_def
    by (auto simp: list_all_iff)
  then have "plain_snapshot ?w" using assms(3) by (simp add: plain_snapshot_def rows)
  from snapshot_targets_avoid [OF t this] n have avoid: "\<forall>t \<in> set targets. wt_type t = WAN_TARGET_FQDN \<or> avoids nets t"
    by (simp add: rows)
  have "list_all (pinned_ok nets) pinned"
    by (rule pin_fqdn_targets_ok [OF p exclusion_rows_valid [OF n plain]]) (use avoid plain_targets_no_source [OF t] in blast)
  with n show "\<exists>nets. exclusion_networks_from_rows (map Inl combined) = Inr nets \<and> list_all (pinned_ok nets) pinned" by blast
  show "\<exists>current. current_worker_exclusions db job = Inr current \<and> combined = combined_exclusions (exclusion_rows ?s) current"
    using c by blast
qed

subsection \<open>Revalidation fails closed\<close>

lemma added_exclusions_disjoint:
  assumes "check_added_exclusions dns snapshot added = Inr ()" "added \<noteq> []"
    "exclusion_networks_from_rows (map Inl added) = Inr extra" "extra \<noteq> []"
  shows "\<exists>targets. snapshot_networks dns snapshot extra = Inr targets \<and> (\<forall>t \<in> set targets. \<forall>x \<in> set extra. \<not> overlaps t x)"
  using assms by (auto simp: check_added_exclusions_def rbind_Inr_iff list_ex_iff split: if_splits)

subsection \<open>Provenance holds no secrets\<close>

fun secret_free :: "json \<Rightarrow> bool" where
  \<comment> \<open>no key at any depth names a secret\<close>
  "secret_free (JObj kvs) = list_all (\<lambda>(k, v). \<not> is_secret_key k \<and> secret_free v) kvs"
| "secret_free (JArr xs) = list_all secret_free xs"
| "secret_free v = True"

lemma sanitize_secret_free: "secret_free (sanitize_merged_value v)"
  by (induction v rule: sanitize_merged_value.induct) (auto simp: list_all_iff Let_def split: if_splits)

lemma jput_all:
  assumes "list_all (\<lambda>(k, v). P k v) kvs" "P k v"
  shows "list_all (\<lambda>(k, v). P k v) (jput k v kvs)"
  using assms by (auto simp: jput_def list_all_iff split: prod.splits)

lemma merge_key_secret_free:
  assumes "secret_free (JObj prov)"
  shows "secret_free (JObj (merge_key txt kv prov))"
proof -
  obtain k v where kv: "kv = (k, v)" by (cases kv)
  have put: "secret_free w \<Longrightarrow> \<not> is_secret_key k \<Longrightarrow> secret_free (JObj (jput k w prov))" for w
    using assms jput_all [of "\<lambda>k v. \<not> is_secret_key k \<and> secret_free v" prov k w] by simp
  show ?thesis
    using assms put sanitize_secret_free [of v] unfolding kv merge_key_def
    by (auto simp: Let_def simp del: secret_free.simps(1) split: option.splits)
qed

lemma merge_secret_free: "secret_free (JObj existing) \<Longrightarrow> secret_free (JObj (merge_provenance txt existing incoming))"
proof -
  have "secret_free (JObj prov) \<Longrightarrow> secret_free (JObj (fold (merge_key txt) payload prov))" for payload prov
    by (induction payload arbitrary: prov) (simp_all add: merge_key_secret_free del: secret_free.simps(1))
  then show "secret_free (JObj existing) \<Longrightarrow> ?thesis" by (simp add: merge_provenance_def Let_def)
qed

subsection \<open>Properties\<close>

lemma map_of_jputs:
  "k' \<noteq> k \<Longrightarrow> map_of (jput k v kvs) k' = map_of kvs k'" "map_of (jput k v kvs) k = Some v"
  by (simp_all add: map_of_jput)

lemma payload_entries:
  assumes "worker_execution_payload now dns db job = Inr payload"
  shows "\<exists>pinned combined. worker_targets dns db job = Inr (pinned, combined) \<and>
    map_of payload ''targets'' = Some (JArr (map target_json pinned)) \<and> map_of payload ''exclusions'' = Some (JArr combined) \<and>
    map_of payload ''cidrs'' = Some (address_values pinned)"
  using assms by (auto simp: worker_execution_payload_def rbind_Inr_iff map_of_jput split: option.splits)

text \<open>C36: No worker is given an excluded address. When worker_execution_payload succeeds, its
  exclusions hold every row of the snapshot and every row in force now (unless the snapshot has a
  row with its id); and every target of the payload is an address or a network, no name, whose text
  parses to a network without a single address in common with any of these exclusions; an address
  that a name resolved to is moreover no private or reserved one. (The texts hold no IPv6 scope
  id.)\<close>

lemma no_worker_gets_an_excluded_address:
  assumes "worker_execution_payload now dns db job = Inr payload" "is_obj (job_snapshot job)" "plain_snapshot (job_snapshot job)"
    "list_all (\<lambda>x. plain_text (exc_normalized_value x)) (t_rows (tb_scan_exclusions db))"
  shows "\<exists>pinned current combined nets. map_of payload ''targets'' = Some (JArr (map target_json pinned)) \<and>
    map_of payload ''exclusions'' = Some (JArr combined) \<and> set (exclusion_rows (job_snapshot job)) \<subseteq> set combined \<and>
    current_worker_exclusions db job = Inr current \<and>
    (\<forall>row \<in> set current. row \<in> set combined \<or> jget ''id'' row \<in> jget ''id'' ` set (exclusion_rows (job_snapshot job))) \<and>
    exclusion_networks_from_rows (map Inl combined) = Inr nets \<and>
    (\<forall>t \<in> set pinned. wt_type t \<noteq> WAN_TARGET_FQDN \<and>
       (\<exists>n. ip_network (wt_value t) = Some n \<and> addresses n \<inter> addresses_of nets = {} \<and>
          (wt_source_fqdn t \<noteq> None \<longrightarrow> addresses n \<inter> addresses_of BLOCKED_NETWORKS = {})))"
proof -
  obtain pinned combined where w: "worker_targets dns db job = Inr (pinned, combined)"
    and p: "map_of payload ''targets'' = Some (JArr (map target_json pinned))" "map_of payload ''exclusions'' = Some (JArr combined)"
    using payload_entries [OF assms(1)] by blast
  obtain nets where n: "exclusion_networks_from_rows (map Inl combined) = Inr nets" "list_all (pinned_ok nets) pinned"
    using worker_targets_avoid(1) [OF w assms(2-4)] by blast
  obtain current where c: "current_worker_exclusions db job = Inr current"
      "combined = combined_exclusions (exclusion_rows (job_snapshot job)) current"
    using worker_targets_avoid(2) [OF w assms(2-4)] by blast
  have "set (exclusion_rows (job_snapshot job)) \<subseteq> set combined"
      "\<forall>row \<in> set current. row \<in> set combined \<or> jget ''id'' row \<in> jget ''id'' ` set (exclusion_rows (job_snapshot job))"
    by (auto simp: c(2) combined_exclusions_def)
  moreover have "\<forall>t \<in> set pinned. wt_type t \<noteq> WAN_TARGET_FQDN \<and>
       (\<exists>n. ip_network (wt_value t) = Some n \<and> addresses n \<inter> addresses_of nets = {} \<and>
          (wt_source_fqdn t \<noteq> None \<longrightarrow> addresses n \<inter> addresses_of BLOCKED_NETWORKS = {}))"
    using n(2) by (auto simp: list_all_iff pinned_ok_def avoids_def)
  ultimately show ?thesis using p n(1) c(1) by blast
qed

definition sample_exclusion :: scan_exclusion where
  "sample_exclusion = \<lparr>exc_id = 1, exc_scope = ''global'', exc_exclusion_type = ''ip'', exc_value = ''10.0.0.5'',
     exc_normalized_value = ''10.0.0.5'', exc_tenant_id = None, exc_site_id = None, exc_network_id = None, exc_scan_id = None,
     exc_archived_at = None, exc_created_at = 0\<rparr>"

definition exclusion_world :: db where
  "exclusion_world = job_world []\<lparr>tb_scan_exclusions := \<lparr>t_next = 2, t_rows = [sample_exclusion]\<rparr>\<rparr>"

definition lan_snapshot :: json where
  "lan_snapshot = JObj [(''scope'', JStr ''lan''), (''targets'', JObj [(''networks'', JArr [JObj [(''id'', JInt 1), (''cidr'', JStr ''10.0.0.0/24'')]])]),
     (''exclusions'', JArr [])]"

definition lan_job :: scan_job where
  "lan_job = sample_job\<lparr>job_status := JOB_RUNNING, job_execution_snapshot := Some lan_snapshot\<rparr>"

lemma lan_job_simps [simp]: "job_snapshot lan_job = lan_snapshot" "has_snapshot lan_job"
  by (simp_all add: lan_job_def lan_snapshot_def job_snapshot_def has_snapshot_def jor_def)

lemma lan_networks: "ip_network ''10.0.0.0/24'' = Some (mk_net V4 167772160 24)" "ip_network ''10.0.0.5'' = Some (mk_net V4 167772165 32)"
    "ip_address ''10.0.0.5'' = Some (V4, 167772165)"
  by (simp_all add: ip_eval)

lemma lan_subtract:
  assumes "nets = [] \<or> nets = [mk_net V4 167772165 32]"
  shows "\<exists>texts. apply_exclusions_to_cidrs [''10.0.0.0/24''] nets = Inr texts \<and> texts \<noteq> []"
proof -
  have v: "list_all valid_net [mk_net V4 167772160 24]" "list_all valid_net nets" "one_version [mk_net V4 167772160 24]"
    using assms by (auto simp: valid_net_def mk_net_def num_addresses_def host_bits_def ip_bits_def one_version_def)
  obtain ms where ms: "subtract_networks [mk_net V4 167772160 24] nets = Inr ms"
      "addresses_of ms = addresses (mk_net V4 167772160 24) - addresses_of nets"
    using subtract_networks_correct [OF v(2,1)] v(3) by auto
  have "(V4, 167772160) \<in> addresses_of ms"
    using assms unfolding ms(2) by (auto simp: addresses_iff mk_net_def num_addresses_def host_bits_def ip_bits_def)
  then have "ms \<noteq> []" by auto
  then show ?thesis using ms(1) by (simp add: apply_exclusions_to_cidrs_def lan_networks or_raise_def)
qed

lemma sample_row_networks: "exclusion_networks_from_rows [Inl (serialize_exclusion sample_exclusion)] = Inr [mk_net V4 167772165 32]"
  by (simp add: exclusion_networks_from_rows_def row_networks_def serialize_exclusion_def sample_exclusion_def text_at_def
      exclusion_networks_def lan_networks or_raise_def)

lemma lan_current: "current_worker_exclusions exclusion_world lan_job = Inr [serialize_exclusion sample_exclusion]"
proof -
  have "execution_context exclusion_world lan_job = Inr \<lparr>ec_scope = ''lan'', ec_site_id = None, ec_network_ids = [1],
      ec_claimed_agent_id = None, ec_snapshot = lan_snapshot\<rparr>"
    by (simp add: execution_context_def run_scope_def) (simp add: lan_snapshot_def lan_job_def sample_job_def map_filter_simps)
  moreover have "effective_exclusions exclusion_world 1 None [1] (Some 1) = Inr [sample_exclusion]" by code_simp
  moreover have "job_tenant_id lan_job = 1" "job_scan_id lan_job = 1" by (simp_all add: lan_job_def sample_job_def)
  ultimately show ?thesis by (simp add: current_worker_exclusions_def lift_run_def serialize_exclusions_def)
qed

lemma lan_targets:
  assumes "rows = [] \<or> rows = [serialize_exclusion sample_exclusion]"
  shows "\<exists>texts. worker_targets_from_snapshot (with_key ''exclusions'' (JArr rows) lan_snapshot) = Inr (map (plain_target ''cidr'') texts) \<and> texts \<noteq> []"
proof -
  let ?s = "with_key ''exclusions'' (JArr rows) lan_snapshot"
  have s: "exclusion_rows ?s = rows" "jget ''scope'' ?s = JStr ''lan''" "target_rows ''networks'' ?s = [JObj [(''id'', JInt 1), (''cidr'', JStr ''10.0.0.0/24'')]]"
    by (simp_all add: exclusion_rows_def target_rows_def with_key_same lan_snapshot_def)
  have c: "texts_at ''cidr'' [JObj [(''id'', JInt 1), (''cidr'', JStr ''10.0.0.0/24'')]] = Inr [''10.0.0.0/24'']"
    by (simp add: texts_at_def text_at_def)
  obtain nets where nets: "exclusion_networks_from_rows (map Inl rows) = Inr nets" "nets = [] \<or> nets = [mk_net V4 167772165 32]"
    using assms sample_row_networks by (auto simp: exclusion_networks_from_rows_def)
  obtain texts where "apply_exclusions_to_cidrs [''10.0.0.0/24''] nets = Inr texts" "texts \<noteq> []"
    using lan_subtract [OF nets(2)] by blast
  then show ?thesis using nets(1) unfolding worker_targets_from_snapshot_def s c by auto
qed

lemma pin_plain: "rfold (pin_target dns nets) (map (plain_target ''cidr'') texts) acc = Inr (acc @ map (plain_target ''cidr'') texts)"
  by (induction texts arbitrary: acc) (simp_all add: pin_target_def plain_target_def)

lemma no_worker_gets_an_excluded_address_witness:
  "\<exists>payload pinned nets. worker_execution_payload 0 (\<lambda>_. None) exclusion_world lan_job = Inr payload \<and> pinned \<noteq> [] \<and>
     map_of payload ''targets'' = Some (JArr (map target_json pinned)) \<and> addresses_of nets = {(V4, 167772165)} \<and>
     (\<forall>t \<in> set pinned. \<exists>n. ip_network (wt_value t) = Some n \<and> addresses n \<inter> addresses_of nets = {})"
proof -
  let ?row = "serialize_exclusion sample_exclusion" and ?dns = "\<lambda>_. None"
  have rows: "exclusion_rows lan_snapshot = []" by (simp add: exclusion_rows_def lan_snapshot_def)
  obtain texts where t: "worker_targets_from_snapshot (with_key ''exclusions'' (JArr [?row]) lan_snapshot) = Inr (map (plain_target ''cidr'') texts)"
      "texts \<noteq> []" using lan_targets by blast
  have w: "worker_targets ?dns exclusion_world lan_job = Inr (map (plain_target ''cidr'') texts, [?row])"
    using t pin_plain [of ?dns _ texts "[]"]
    by (simp add: worker_targets_def lan_current rows combined_exclusions_def sample_row_networks pin_fqdn_targets_def)
  have "with_key ''exclusions'' (JArr []) lan_snapshot = lan_snapshot" by (simp add: with_key_def lan_snapshot_def jput_def)
  then obtain texts' where "worker_targets_from_snapshot lan_snapshot = Inr (map (plain_target ''cidr'') texts')" using lan_targets [of "[]"] by auto
  then have "\<exists>base. job_payload_from_snapshot lan_job = Inr base" by (simp add: job_payload_from_snapshot_def Let_def)
  then obtain base where b: "job_payload_from_snapshot lan_job = Inr base" ..
  have "run_scope lan_job = Inr ''lan''" by (simp add: run_scope_def) (simp add: lan_snapshot_def)
  then obtain payload where p: "worker_execution_payload 0 ?dns exclusion_world lan_job = Inr payload"
    using w b by (simp add: worker_execution_payload_def lift_run_def)
  have plain: "is_obj (job_snapshot lan_job)" "plain_snapshot (job_snapshot lan_job)"
      "list_all (\<lambda>x. plain_text (exc_normalized_value x)) (t_rows (tb_scan_exclusions exclusion_world))"
    by (simp_all add: lan_snapshot_def plain_snapshot_def target_rows_def exclusion_rows_def row_plain_def plain_text_def
        exclusion_world_def sample_exclusion_def)
  have entries: "map_of payload ''targets'' = Some (JArr (map target_json (map (plain_target ''cidr'') texts)))"
    using payload_entries [OF p] w by auto
  obtain pinned combined nets where r: "map_of payload ''targets'' = Some (JArr (map target_json pinned))"
      "map_of payload ''exclusions'' = Some (JArr combined)" "exclusion_networks_from_rows (map Inl combined) = Inr nets"
      "\<forall>t \<in> set pinned. wt_type t \<noteq> WAN_TARGET_FQDN \<and> (\<exists>n. ip_network (wt_value t) = Some n \<and> addresses n \<inter> addresses_of nets = {} \<and>
          (wt_source_fqdn t \<noteq> None \<longrightarrow> addresses n \<inter> addresses_of BLOCKED_NETWORKS = {}))"
    using no_worker_gets_an_excluded_address [OF p plain] by (elim exE conjE) (rule that; assumption)
  then have free: "\<forall>t \<in> set pinned. \<exists>n. ip_network (wt_value t) = Some n \<and> addresses n \<inter> addresses_of nets = {}" by blast
  have "combined = [?row]" using r(2) payload_entries [OF p] w by auto
  then have "nets = [mk_net V4 167772165 32]" using r(3) sample_row_networks by simp
  then have "addresses_of nets = {(V4, 167772165)}"
    by (auto simp: addresses_def mk_net_def num_addresses_def host_bits_def ip_bits_def)
  moreover have "pinned \<noteq> []" using r(1) entries t(2) by auto
  ultimately show ?thesis using p r(1) free by blast
qed

text \<open>What a report says under a key: \<open>nuclei_templates\<close> is the old name of
  \<open>nuclei_templates_version\<close>. What is stored for it: nothing for a secret key, the trimmed text of a
  version, the cleaned value of any other key, and nothing for an unusable or empty one.\<close>

definition reported_value :: "string \<Rightarrow> (string \<times> json) list \<Rightarrow> json option" where
  "reported_value key incoming = (if key = ''nuclei_templates'' then None
     else case map_of incoming key of Some v \<Rightarrow> Some v
     | None \<Rightarrow> (case map_of incoming ''nuclei_templates'' of
         Some v \<Rightarrow> if key = ''nuclei_templates_version'' \<and> v \<noteq> JNull then Some v else None | None \<Rightarrow> None))"

definition stored_value :: "(json \<Rightarrow> string) \<Rightarrow> string \<Rightarrow> json \<Rightarrow> json option" where
  "stored_value txt key v = (if is_secret_key key then None
     else if key \<in> set PROVENANCE_SCALAR_KEYS then
       (let s = strip (case v of JStr s \<Rightarrow> s | JInt i \<Rightarrow> show_int i | JNum q \<Rightarrow> txt v | _ \<Rightarrow> []) in if s = [] then None else Some (JStr s))
     else if empty_value (sanitize_merged_value v) then None else Some (sanitize_merged_value v))"

lemma strip_show_int: "strip (show_int i) = show_int i" "show_int i \<noteq> []"
proof -
  have "\<not> is_space CHR ''-''" by (simp add: is_space_def PY_SPACE_def)
  then show "strip (show_int i) = show_int i"
    by (intro strip_fix) (simp add: show_int_def show_nat_ne show_nat_ends)
  show "show_int i \<noteq> []" by (simp add: show_int_def show_nat_ne)
qed

lemma scalar_stored: "map_option JStr (scalar_provenance_value txt v) =
    (let s = strip (case v of JStr s \<Rightarrow> s | JInt i \<Rightarrow> show_int i | JNum q \<Rightarrow> txt v | _ \<Rightarrow> []) in if s = [] then None else Some (JStr s))"
proof -
  have "strip [] = []" by (simp add: strip_def lstrip_def rstrip_def)
  then show ?thesis by (cases v) (simp_all add: scalar_provenance_value_def strip_show_int Let_def)
qed

lemma merge_key_stored: "map_of (merge_key txt (key, v) prov) k =
    (if k = key then (case stored_value txt key v of None \<Rightarrow> map_of prov k | Some w \<Rightarrow> Some w) else map_of prov k)"
proof -
  have "stored_value txt key v = (if is_secret_key key then None
     else if key \<in> set PROVENANCE_SCALAR_KEYS then map_option JStr (scalar_provenance_value txt v)
     else if empty_value (sanitize_merged_value v) then None else Some (sanitize_merged_value v))"
    by (simp only: stored_value_def scalar_stored)
  then show ?thesis by (auto simp: merge_key_def map_of_jput Let_def split: option.splits)
qed

lemma merge_keys_stored: "distinct (map fst payload) \<Longrightarrow> map_of (fold (merge_key txt) payload prov) k =
    (case map_of payload k of None \<Rightarrow> map_of prov k
     | Some v \<Rightarrow> (case stored_value txt k v of None \<Rightarrow> map_of prov k | Some w \<Rightarrow> Some w))"
proof (induction payload arbitrary: prov)
  case (Cons kv payload)
  obtain key v where kv: "kv = (key, v)" by (cases kv)
  with Cons.prems have "map_of payload key = None" by (simp add: map_of_eq_None_iff)
  with Cons show ?case by (auto simp: kv merge_key_stored split: option.splits)
qed simp

lemma merge_provenance_stored:
  assumes "distinct (map fst incoming)"
  shows "map_of (merge_provenance txt existing incoming) k = (case reported_value k incoming of None \<Rightarrow> map_of existing k
     | Some v \<Rightarrow> (case stored_value txt k v of None \<Rightarrow> map_of existing k | Some w \<Rightarrow> Some w))"
proof -
  let ?rest = "filter (\<lambda>(k, _). k \<noteq> ''nuclei_templates'') incoming"
  let ?legacy = "jget ''nuclei_templates'' (JObj incoming)"
  let ?payload = "if ?legacy \<noteq> JNull \<and> ''nuclei_templates_version'' \<notin> fst ` set ?rest
      then ?rest @ [(''nuclei_templates_version'', ?legacy)] else ?rest"
  have rest: "map_of ?rest k = (if k = ''nuclei_templates'' then None else map_of incoming k)" for k
    by (induction incoming) auto
  have new: "''nuclei_templates_version'' \<notin> fst ` set ?rest \<longleftrightarrow> map_of incoming ''nuclei_templates_version'' = None"
    using rest [of "''nuclei_templates_version''"] by (simp only: map_of_eq_None_iff [symmetric]) simp
  have "distinct (map fst ?rest)" using assms by (rule distinct_map_filter)
  then have dist: "distinct (map fst ?payload)" by (simp add: image_iff split: if_splits)
  have "map_of ?payload k = reported_value k incoming"
  proof (cases "?legacy \<noteq> JNull \<and> ''nuclei_templates_version'' \<notin> fst ` set ?rest")
    case True
    then have p: "?payload = ?rest @ [(''nuclei_templates_version'', ?legacy)]" by (rule if_P)
    have "map_of incoming ''nuclei_templates_version'' = None" "?legacy \<noteq> JNull" using True unfolding new by blast+
    then show ?thesis unfolding p map_of_append map_add_def rest
      by (auto simp: reported_value_def split: option.splits)
  next
    case False
    then have p: "?payload = ?rest" by (rule if_not_P)
    have "?legacy = JNull \<or> map_of incoming ''nuclei_templates_version'' \<noteq> None" using False unfolding new by argo
    then show ?thesis unfolding p rest by (auto simp: reported_value_def split: option.splits)
  qed
  with merge_keys_stored [OF dist, of "txt" existing k] show ?thesis by (simp only: merge_provenance_def Let_def)
qed

text \<open>C40: Stored run provenance is exactly the cleaned report over what was stored, and never names a
  secret. Whatever a worker reports, under every key merge_provenance keeps what was stored when the
  report has nothing usable there (no such key, a key that looks like a credential, an empty value),
  and otherwise stores the value without its secret keys and empty parts; a scalar version is stored
  as its trimmed, non-empty text, the old key nuclei_templates as nuclei_templates_version; and no key
  at any depth looks like a credential, when none did before.\<close>

lemma provenance_names_no_secret:
  assumes "secret_free (JObj existing)" "distinct (map fst incoming)"
  shows "secret_free (JObj (merge_provenance txt existing incoming)) \<and>
    (\<forall>k. map_of (merge_provenance txt existing incoming) k = (case reported_value k incoming of None \<Rightarrow> map_of existing k
       | Some v \<Rightarrow> (case stored_value txt k v of None \<Rightarrow> map_of existing k | Some w \<Rightarrow> Some w)))"
  using merge_secret_free [OF assms(1)] merge_provenance_stored [OF assms(2)] by blast

lemma provenance_names_no_secret_witness:
  "let prov = merge_provenance (\<lambda>_. []) [(''worker'', JStr ''central'')]
       [(''api_token'', JStr ''x''), (''tools'', JObj [(''naabu'', JStr ''2.3''), (''Cookie'', JStr ''y'')]), (''nuclei_templates'', JInt 9)]
   in secret_free (JObj prov) \<and> prov = [(''worker'', JStr ''central''), (''tools'', JObj [(''naabu'', JStr ''2.3'')]), (''nuclei_templates_version'', JStr ''9'')]"
proof -
  have "secret_free (JObj [(''worker'', JStr ''central'')])" by code_simp
  from provenance_names_no_secret [OF this, of "[(''api_token'', JStr ''x''), (''tools'', JObj [(''naabu'', JStr ''2.3''), (''Cookie'', JStr ''y'')]), (''nuclei_templates'', JInt 9)]" "\<lambda>_. []"] have "secret_free (JObj (merge_provenance (\<lambda>_. []) [(''worker'', JStr ''central'')]
       [(''api_token'', JStr ''x''), (''tools'', JObj [(''naabu'', JStr ''2.3''), (''Cookie'', JStr ''y'')]), (''nuclei_templates'', JInt 9)]))" by simp
  then show ?thesis unfolding Let_def by (rule conjI) code_simp
qed

end
