(* ===== verification/Run_History.thy ===== *)
theory Run_History
  imports Scan_Snapshot
begin

section \<open>The history of a run row\<close>

text \<open>
  Everything that writes a row of \<^verbatim>\<open>scan_jobs\<close>: beside the transitions of theory Jobs and the
  completion of theory Finding\_Lifecycle, the creation of a run (\<^verbatim>\<open>create_run\<close> of
  \<^verbatim>\<open>scan_definitions.py\<close>), the progress of a worker (\<^verbatim>\<open>job_progress.py\<close>), its provenance
  (\<^verbatim>\<open>scanner_versions.py\<close>), the declaration of raw evidence (\<^verbatim>\<open>raw_artifacts.py\<close>) and the
  counters and notes the worker endpoints write (\<^verbatim>\<open>routers/scanner_api.py\<close>,
  \<^verbatim>\<open>routers/agent_api.py\<close>), behind the ownership guard of the endpoints. The argument
  \<open>txt\<close> is Python's \<open>str\<close> on a value that is no string.
\<close>

subsection \<open>Creating a run\<close>

definition run_status :: "snapshot_parts \<Rightarrow> agent list \<Rightarrow> time \<Rightarrow> string \<times> time option \<times> time option" where
  "run_status p healthy now =
     (if scan_scope (sp_scan p) = ''lan'' then initial_job_status healthy (sp_wait_minutes p) now else (JOB_QUEUED, None, None))"

definition new_run :: "time \<Rightarrow> snapshot_parts \<Rightarrow> json \<Rightarrow> string \<times> time option \<times> time option \<Rightarrow> nat \<Rightarrow> scan_job" where
  "new_run now p snapshot st n = \<lparr>job_id = n, job_scan_id = scan_id (sp_scan p), job_tenant_id = scan_tenant_id (sp_scan p),
     job_status = fst st, job_claimed_by = None, job_error = None, job_hosts_found = 0, job_findings_count = 0,
     job_created_at = now, job_started_at = None, job_finished_at = None, job_execution_snapshot = Some snapshot,
     job_snapshot_version = Some SNAPSHOT_VERSION, job_definition_revision = Some (scan_definition_revision (sp_scan p)),
     job_trigger_type = Some (sp_trigger_type p), job_scheduled_for = sp_scheduled_for p, job_claimed_agent_id = None,
     job_waiting_since = fst (snd st), job_wait_expires_at = snd (snd st), job_deadline_at = None,
     job_cancel_requested_at = None,
     job_runtime_provenance = Some (JObj [(''snapshot_version'', JStr SNAPSHOT_VERSION), (''worker'', JNull)])\<rparr>"

text \<open>\<open>create_run\<close> after \<open>validate_definition\<close>, which finds the parts of the snapshot and the healthy
  eligible agents. The pair of scan and scheduled time is unique in the table.\<close>

definition create_run :: "time \<Rightarrow> snapshot_parts \<Rightarrow> agent list \<Rightarrow> db \<Rightarrow> app_error + (db \<times> nat)" where
  "create_run now p healthy db =
     (if scan_archived_at (sp_scan p) \<noteq> None then Inl (ServiceError ''Archived scan definitions cannot run'')
      else rbind (build_execution_snapshot (p\<lparr>sp_created_at := now\<rparr>)) (\<lambda>snapshot.
        rbind (worker_targets_from_snapshot snapshot) (\<lambda>_.
          if sp_scheduled_for p \<noteq> None \<and> t_exists (\<lambda>j. job_scan_id j = scan_id (sp_scan p) \<and>
               job_scheduled_for j = sp_scheduled_for p) (tb_scan_jobs db) then Inl (PyError ''IntegrityError'')
          else Inr (db\<lparr>tb_scan_jobs := t_insert (new_run now p snapshot (run_status p healthy now)) (tb_scan_jobs db)\<rparr>,
                    t_next (tb_scan_jobs db)))))"

subsection \<open>Progress, provenance, evidence and counters\<close>

definition provenance_of :: "scan_job \<Rightarrow> (string \<times> json) list" where
  \<comment> \<open>\<open>dict(job.runtime_provenance or {})\<close>; the column holds an object or nothing\<close>
  "provenance_of job = (case job_runtime_provenance job of Some (JObj kvs) \<Rightarrow> kvs | _ \<Rightarrow> [])"

definition merge_into_run :: "(json \<Rightarrow> string) \<Rightarrow> (string \<times> json) list \<Rightarrow> scan_job \<Rightarrow> scan_job" where
  "merge_into_run txt incoming job =
     job\<lparr>job_runtime_provenance := Some (JObj (merge_provenance txt (provenance_of job) incoming))\<rparr>"

definition reported_progress :: "scan_job \<Rightarrow> (string \<times> json) list" where
  "reported_progress job = (case jget ''progress'' (JObj (provenance_of job)) of JObj kvs \<Rightarrow> kvs | _ \<Rightarrow> [])"

definition py_text :: "(json \<Rightarrow> string) \<Rightarrow> json \<Rightarrow> string" where
  "py_text txt v = (case v of JStr s \<Rightarrow> s | _ \<Rightarrow> txt v)"

definition put_text :: "(json \<Rightarrow> string) \<Rightarrow> string \<Rightarrow> nat \<Rightarrow> json \<Rightarrow> (string \<times> json) list \<Rightarrow> (string \<times> json) list" where
  \<comment> \<open>\<open>if v: current[k] = str(v)[:n]\<close>\<close>
  "put_text txt k n v current = (if truthy v then jput k (JStr (take n (py_text txt v))) current else current)"

definition record_job_progress :: "(json \<Rightarrow> string) \<Rightarrow> time \<Rightarrow> json \<Rightarrow> json \<Rightarrow> json \<Rightarrow> json list option \<Rightarrow> scan_job \<Rightarrow> scan_job" where
  "record_job_progress txt now activity stage message completed_stages job =
     (let c1 = put_text txt ''activity'' 80 activity (reported_progress job);
          c2 = put_text txt ''stage'' 80 stage c1;
          c3 = put_text txt ''message'' 500 message c2;
          c4 = (case completed_stages of None \<Rightarrow> c3
             | Some xs \<Rightarrow> jput ''completed_stages'' (JArr (map (\<lambda>x. JStr (take 80 (py_text txt x))) (filter truthy xs))) c3);
          c5 = jput ''updated_at'' (JStr (isoformat now)) c4
      in merge_into_run txt [(''progress'', JObj c5)] job)"

definition apply_worker_progress :: "(json \<Rightarrow> string) \<Rightarrow> time \<Rightarrow> (string \<times> json) list \<Rightarrow> json \<Rightarrow> scan_job \<Rightarrow> scan_job" where
  "apply_worker_progress txt now incoming activity =
     record_job_progress txt now (jor activity (jget ''activity'' (JObj incoming))) (jget ''stage'' (JObj incoming))
       (jget ''message'' (JObj incoming)) (case jget ''completed_stages'' (JObj incoming) of JArr xs \<Rightarrow> Some xs | _ \<Rightarrow> None)"

definition remap_incoming_provenance :: "(string \<times> json) list \<Rightarrow> (string \<times> json) list" where
  "remap_incoming_provenance incoming =
     (if ''nuclei_templates'' \<in> fst ` set incoming \<and> ''nuclei_templates_version'' \<notin> fst ` set incoming
      then jput ''nuclei_templates_version'' (jget ''nuclei_templates'' (JObj incoming)) incoming else incoming)"

definition merge_run_provenance :: "(json \<Rightarrow> string) \<Rightarrow> (string \<times> json) list \<Rightarrow> (string \<times> json) list \<Rightarrow> (string \<times> json) list" where
  "merge_run_provenance txt existing incoming = merge_provenance txt existing (remap_incoming_provenance incoming)"

definition declare_raw_evidence :: "(json \<Rightarrow> string) \<Rightarrow> string \<Rightarrow> string list \<Rightarrow> scan_job \<Rightarrow> scan_job" where
  \<comment> \<open>the write at the end of \<open>apply_raw_evidence_declaration\<close>\<close>
  "declare_raw_evidence txt status keys = merge_into_run txt
     [(''raw_evidence'', JObj [(''status'', JStr status), (''artifact_keys'', JArr (map JStr keys))])]"

subsection \<open>The worker endpoints\<close>

text \<open>\<open>_owned\<close> and \<open>_owned_job\<close>: the central scanner looks its run up by the claim \<open>central\<close>, an
  agent's run is checked against the agent's uuid.\<close>

definition owned_job :: "time \<Rightarrow> nat \<Rightarrow> string \<Rightarrow> bool \<Rightarrow> db \<Rightarrow> app_error + scan_job" where
  "owned_job now i worker completing_ok db =
     (case require_owned_run_for_persist now (get_job i db) (Some worker) completing_ok of
        Inl (ExecutionBlocked detail) \<Rightarrow> Inl (HttpError 409 detail)
      | Inl e \<Rightarrow> Inl (PyError ''Exception'')
      | Inr j \<Rightarrow> Inr j)"

definition worker_write :: "time \<Rightarrow> nat \<Rightarrow> string \<Rightarrow> (scan_job \<Rightarrow> scan_job) \<Rightarrow> db \<Rightarrow> app_error + db" where
  "worker_write now i worker f db = rbind (owned_job now i worker False db) (\<lambda>_. Inr (set_job i f db))"

definition post_progress :: "(json \<Rightarrow> string) \<Rightarrow> time \<Rightarrow> nat \<Rightarrow> string \<Rightarrow> (string \<times> json) list \<Rightarrow> db \<Rightarrow> app_error + db" where
  "post_progress txt now i worker body = worker_write now i worker
     (apply_worker_progress txt now body (jor (jget ''activity'' (JObj body)) (JStr ''scanning'')))"

definition heartbeat_progress :: "(json \<Rightarrow> string) \<Rightarrow> time \<Rightarrow> nat \<Rightarrow> string \<Rightarrow> (string \<times> json) list \<Rightarrow> json \<Rightarrow> db \<Rightarrow> db" where
  "heartbeat_progress txt now i worker progress activity db = (case get_job i db of
       None \<Rightarrow> db
     | Some j \<Rightarrow> if job_claimed_by j \<noteq> Some worker \<or> job_status j \<noteq> JOB_RUNNING then db
         else set_job i (apply_worker_progress txt now progress activity) db)"

definition post_provenance :: "(json \<Rightarrow> string) \<Rightarrow> time \<Rightarrow> nat \<Rightarrow> string \<Rightarrow> (string \<times> json) list \<Rightarrow> db \<Rightarrow> app_error + db" where
  "post_provenance txt now i worker body = worker_write now i worker
     (\<lambda>j. j\<lparr>job_runtime_provenance := Some (JObj (merge_run_provenance txt (provenance_of j) body))\<rparr>)"

definition count_findings :: "time \<Rightarrow> nat \<Rightarrow> string \<Rightarrow> nat \<Rightarrow> db \<Rightarrow> app_error + db" where
  "count_findings now i worker added = worker_write now i worker
     (\<lambda>j. j\<lparr>job_findings_count := job_findings_count j + int added\<rparr>)"

definition count_hosts :: "time \<Rightarrow> nat \<Rightarrow> string \<Rightarrow> db \<Rightarrow> app_error + db" where
  "count_hosts now i worker db = worker_write now i worker
     (\<lambda>j. j\<lparr>job_hosts_found := int (length (t_select (\<lambda>d. dev_last_scan_job_id d = Some i) (tb_devices db)))\<rparr>) db"

text \<open>\<open>complete_job\<close>: the guard, the declaration of evidence (the status and keys that passed its
  checks, on a successful completion), the versions the run must have reported, and the completion.
  What the two checks accept is the argument \<open>accepted\<close>.\<close>

definition complete_job :: "(json \<Rightarrow> string) \<Rightarrow> (scan_job \<Rightarrow> string \<times> string list \<Rightarrow> bool) \<Rightarrow> time \<Rightarrow> nat \<Rightarrow> string \<Rightarrow> bool
    \<Rightarrow> string option \<Rightarrow> string \<times> string list \<Rightarrow> db \<Rightarrow> app_error + db" where
  "complete_job txt accepted now i worker ok error declaration db = rbind (owned_job now i worker ok db) (\<lambda>j.
     if \<not> ok then complete_scan_run now i ok error db
     else if \<not> accepted j declaration then Inl (HttpError 409 ''Raw evidence or versions refused'')
     else complete_scan_run now i ok error (set_job i (declare_raw_evidence txt (fst declaration) (snd declaration)) db))"

definition note_claim :: "(json \<Rightarrow> string) \<Rightarrow> nat \<Rightarrow> agent option \<Rightarrow> db \<Rightarrow> db" where
  \<comment> \<open>what the claim endpoints add to the provenance of the claimed run\<close>
  "note_claim txt i who = set_job i (merge_into_run txt (case who of
       None \<Rightarrow> [(''worker'', JStr CENTRAL_WORKER)]
     | Some a \<Rightarrow> [(''worker'', JStr ''agent''), (''claimed_agent_id'', jnat (ag_id a)), (''agent_uuid'', JStr (ag_uuid a))]))"

subsection \<open>Histories\<close>

text \<open>One write of a run row, by any of its writers, or any work of the program that leaves the table
  of runs alone.\<close>

inductive run_write :: "db \<Rightarrow> db \<Rightarrow> bool" where
  control_write: "run_step db db' \<Longrightarrow> run_write db db'"
| create_write: "create_run now p healthy db = Inr (db', i) \<Longrightarrow> run_write db db'"
| claim_noted: "run_write db (note_claim txt i who db)"
| progress_write: "post_progress txt now i worker body db = Inr db' \<Longrightarrow> run_write db db'"
| heartbeat_write: "run_write db (heartbeat_progress txt now i worker progress activity db)"
| provenance_write: "post_provenance txt now i worker body db = Inr db' \<Longrightarrow> run_write db db'"
| findings_write: "count_findings now i worker added db = Inr db' \<Longrightarrow> run_write db db'"
| hosts_write: "count_hosts now i worker db = Inr db' \<Longrightarrow> run_write db db'"
| complete_write: "complete_job txt accepted now i worker ok error declaration db = Inr db' \<Longrightarrow> run_write db db'"
| elsewhere: "tb_scan_jobs db' = tb_scan_jobs db \<Longrightarrow> run_write db db'"

text \<open>What a run never loses.\<close>

definition run_survives :: "scan_job \<Rightarrow> scan_job \<Rightarrow> bool" where
  "run_survives j k \<longleftrightarrow> job_persists j k \<and> (job_status j \<in> {JOB_FAILED, JOB_CANCELLED} \<longrightarrow> job_status k = job_status j)"

definition rows_survive :: "db \<Rightarrow> db \<Rightarrow> bool" where
  "rows_survive db db' \<longleftrightarrow> t_wf job_id (tb_scan_jobs db') \<and>
     (\<forall>i j. get_job i db = Some j \<longrightarrow> (\<exists>k. get_job i db' = Some k \<and> run_survives j k))"

subsection \<open>How rows survive\<close>

lemma survives_refl [simp]: "run_survives j j"
  by (simp add: run_survives_def job_persists_def)

lemma survives_trans: "run_survives i j \<Longrightarrow> run_survives j k \<Longrightarrow> run_survives i k"
  by (auto simp: run_survives_def job_persists_def)

lemma rows_survive_trans: "rows_survive a b \<Longrightarrow> rows_survive b c \<Longrightarrow> rows_survive a c"
  unfolding rows_survive_def by (meson survives_trans)

lemma rows_survive_same: "t_wf job_id (tb_scan_jobs db) \<Longrightarrow> tb_scan_jobs db' = tb_scan_jobs db \<Longrightarrow> rows_survive db db'"
  by (simp add: rows_survive_def get_job_def)

text \<open>A write to the row of one run.\<close>

lemma set_job_wf: "(\<And>j. job_id (f j) = job_id j) \<Longrightarrow> t_wf job_id (tb_scan_jobs db) \<Longrightarrow> t_wf job_id (tb_scan_jobs (set_job i f db))"
proof -
  assume f: "\<And>j. job_id (f j) = job_id j" and wf: "t_wf job_id (tb_scan_jobs db)"
  have id: "job_id (if job_id j = i then f j else j) = job_id j" for j by (simp add: f)
  show ?thesis using wf unfolding set_job_def t_wf_def by (simp add: list.pred_map o_def id del: if_split)
qed

lemma rows_survive_set:
  assumes "t_wf job_id (tb_scan_jobs db)" and "\<And>j. job_id (f j) = job_id j"
    and "\<And>j. get_job i db = Some j \<Longrightarrow> run_survives j (f j)"
  shows "rows_survive db (set_job i f db)"
  unfolding rows_survive_def using set_job_wf [OF assms(2,1)] assms(3)
  by (auto simp: get_set_job [OF assms(2)])

text \<open>Rows at the end of a loop, related to the rows before it.\<close>

definition same_end :: "scan_job \<Rightarrow> scan_job \<Rightarrow> bool" where
  "same_end j k \<longleftrightarrow> job_id k = job_id j \<and> (job_status j \<in> {JOB_FAILED, JOB_CANCELLED} \<longrightarrow> job_status k = job_status j)"

definition ends_kept :: "db \<Rightarrow> db \<Rightarrow> bool" where
  "ends_kept db db' \<longleftrightarrow> t_wf job_id (tb_scan_jobs db') \<and> jobs_evolve same_end db db'"

lemma ends_kept_refl: "t_wf job_id (tb_scan_jobs db) \<Longrightarrow> ends_kept db db"
  by (auto simp: ends_kept_def same_end_def intro: jobs_evolve_refl)

lemma ends_kept_tables: "tb_scan_jobs db' = tb_scan_jobs d \<Longrightarrow> ends_kept db d \<Longrightarrow> ends_kept db db'"
  by (auto simp: ends_kept_def intro: jobs_evolve_tables)

lemma ends_kept_set:
  assumes "ends_kept db d" and "\<And>j. job_id (f j) = job_id j"
    and "\<And>j k. j \<in> set (t_rows (tb_scan_jobs db)) \<Longrightarrow> get_job i d = Some k \<Longrightarrow> same_end j k \<Longrightarrow> job_id j = i \<Longrightarrow> same_end j (f k)"
  shows "ends_kept db (set_job i f d)"
proof -
  have wf: "t_wf job_id (tb_scan_jobs d)" using assms(1) by (simp add: ends_kept_def)
  have row: "get_job i d = Some k" if "k \<in> set (t_rows (tb_scan_jobs d))" "job_id k = i" for k
    using t_wf_get [OF wf that(1)] that(2) by (simp add: get_job_def)
  have all: "list_all2 same_end (t_rows (tb_scan_jobs db)) (t_rows (tb_scan_jobs d))"
    using assms(1) by (simp add: ends_kept_def jobs_evolve_def)
  have "list_all2 same_end (t_rows (tb_scan_jobs db)) (map (\<lambda>k. if job_id k = i then f k else k) (t_rows (tb_scan_jobs d)))"
    unfolding list_all2_map2
    by (rule list.rel_mono_strong [OF all]) (use assms(3) row in \<open>auto simp: same_end_def\<close>)
  then show ?thesis
    using assms(1) set_job_wf [OF assms(2) wf] by (simp add: ends_kept_def jobs_evolve_def set_job_def)
qed

lemma row_statuses:
  "job_status (failed_row now d c j) = JOB_FAILED" "job_status (cancelled_row now d c j) = JOB_CANCELLED"
  "job_status (note_error d j) = job_status j" "job_status (mark_cancel_row now r j) = job_status j"
  "job_status (fst (mark_cancel_requested now r j)) = job_status j"
  by (simp_all add: row_defs)

lemma failed_ends:
  assumes "ends_kept db d" and "transition_job_to_failed now i detail clear d = Inr (db', c)"
  shows "ends_kept db db'"
proof (cases "get_job i d")
  case (Some k)
  have noted: "ends_kept db (set_job i (note_error detail) d)"
    using assms(1) by (rule ends_kept_set) (auto simp: same_end_def row_statuses)
  have fail: "ends_kept db (set_job i (failed_row now detail clear) d)" if "job_status k \<notin> {JOB_FAILED, JOB_CANCELLED}"
    using assms(1) by (rule ends_kept_set) (use Some that in \<open>auto simp: same_end_def row_statuses\<close>)
  show ?thesis
    using assms noted fail unfolding transition_job_to_failed_def Some option.case Let_def
    by (auto simp: rbind_Inr_iff split: if_splits intro: ends_kept_tables dest!: emit_scan_failed_jobs(1))
qed (use assms in \<open>simp add: transition_job_to_failed_def\<close>)

lemma cancelled_ends:
  assumes "ends_kept db d" and "transition_job_to_cancelled now i detail clear d = Inr (db', c)"
  shows "ends_kept db db'"
proof (cases "get_job i d")
  case (Some k)
  have noted: "ends_kept db (set_job i (note_error detail) d)"
    using assms(1) by (rule ends_kept_set) (auto simp: same_end_def row_statuses)
  have cancel: "ends_kept db (set_job i (cancelled_row now detail clear) d)" if "\<not> is_terminal k"
    using assms(1) by (rule ends_kept_set) (use Some that in \<open>auto simp: same_end_def row_statuses is_terminal_def\<close>)
  show ?thesis
    using assms noted cancel unfolding transition_job_to_cancelled_def Some option.case Let_def
    by (auto simp: rbind_Inr_iff split: if_splits intro: ends_kept_tables dest!: emit_scan_failed_jobs(1))
qed (use assms in \<open>simp add: transition_job_to_cancelled_def\<close>)

lemma legacy_ends:
  assumes "t_wf job_id (tb_scan_jobs db)" and "fail_pending_legacy_pre_1d_jobs now only db = Inr (db', n)"
  shows "ends_kept db db'"
proof -
  have "ends_kept db (fst (db', n))"
    using assms(2) unfolding fail_pending_legacy_pre_1d_jobs_def Let_def
  proof (rule rfold_invariant [where P = "\<lambda>s. ends_kept db (fst s)"])
    show "ends_kept db (fst (db, 0))" using ends_kept_refl [OF assms(1)] by simp
  next
    fix x s t
    assume s: "ends_kept db (fst s)" and t: "(\<lambda>(db, changed). rbind (transition_job_to_failed now (job_id x) LEGACY_PRE_1D_REQUEUE_ERROR True db)
        (\<lambda>(db1, c). Inr (set_job (job_id x) (\<lambda>j. j\<lparr>job_finished_at := Some now\<rparr>) db1, if c then Suc changed else changed))) s = Inr t"
    obtain d m where sd: "s = (d, m)" by (cases s)
    obtain db1 c where f: "transition_job_to_failed now (job_id x) LEGACY_PRE_1D_REQUEUE_ERROR True d = Inr (db1, c)"
      and td: "fst t = set_job (job_id x) (\<lambda>j. j\<lparr>job_finished_at := Some now\<rparr>) db1"
      using t by (auto simp: sd rbind_Inr_iff)
    have "ends_kept db db1" using failed_ends [OF _ f] s by (simp add: sd)
    then show "ends_kept db (fst t)" unfolding td by (rule ends_kept_set) (auto simp: same_end_def)
  qed
  then show ?thesis by simp
qed

lemma waiting_ends:
  assumes wf: "t_wf job_id (tb_scan_jobs db)" and "expire_waiting_jobs now db = Inr db'"
  shows "ends_kept db db'"
  using assms(2) unfolding expire_waiting_jobs_def
proof (rule rfold_invariant [where P = "\<lambda>s. ends_kept db s"])
  show "ends_kept db db" using ends_kept_refl [OF wf] .
next
  fix x s t
  assume x: "x \<in> set (t_select (\<lambda>j. job_status j = JOB_WAITING_FOR_AGENT
      \<and> (case job_wait_expires_at j of None \<Rightarrow> False | Some t \<Rightarrow> t \<le> now)) (tb_scan_jobs db))"
    and s: "ends_kept db s" and t: "(let db1 = mark_job_missed now (job_id x) ''No healthy eligible agent before wait expiry'' s
        in rbind (lift_event (emit_scan_missed_unavailable_agent now x db1)) (\<lambda>(db2, _, _). Inr db2)) = Inr t"
  have row: "x \<in> set (t_rows (tb_scan_jobs db))" "job_status x = JOB_WAITING_FOR_AGENT"
    using x by (auto simp: t_select_def)
  have "j = x" if "j \<in> set (t_rows (tb_scan_jobs db))" "job_id j = job_id x" for j
    using t_wf_eq [OF wf that(1) row(1) that(2)] .
  then have waits: "job_status j = JOB_WAITING_FOR_AGENT" if "j \<in> set (t_rows (tb_scan_jobs db))" "job_id j = job_id x" for j
    using that row(2) by metis
  have "ends_kept db (mark_job_missed now (job_id x) detail s)" for detail
    unfolding mark_job_missed_def using s
    by (rule ends_kept_set) (auto simp: same_end_def dest!: waits)
  then show "ends_kept db t"
    using t by (auto simp: rbind_Inr_iff Let_def intro: ends_kept_tables dest!: emit_scan_missed_jobs(1))
qed

lemma stuck_ends:
  assumes "t_wf job_id (tb_scan_jobs db)" and "expire_stuck_jobs now grace db = Inr (db', n)"
  shows "ends_kept db db'"
proof -
  obtain minutes where "rfold (expire_one now minutes grace)
      (t_select (stuck now minutes) (tb_scan_jobs db)) (db, 0) = Inr (db', n)"
    using assms(2) by (auto simp: expire_stuck_jobs_def rbind_Inr_iff)
  then have "ends_kept db (fst (db', n))"
  proof (rule rfold_invariant [where P = "\<lambda>s. ends_kept db (fst s)"])
    show "ends_kept db (fst (db, 0))" using ends_kept_refl [OF assms(1)] by simp
  next
    fix x s t assume s: "ends_kept db (fst s)" and t: "expire_one now minutes grace x s = Inr t"
    have "ends_kept db (set_job (job_id x) (\<lambda>j. fst (mark_cancel_requested now r j)) (fst s))" for r
      using s by (rule ends_kept_set) (auto simp: same_end_def row_statuses)
    then show "ends_kept db (fst t)"
      using s t by (auto simp: expire_one_def rbind_Inr_iff Let_def split: prod.splits option.splits if_splits intro: cancelled_ends)
  qed
  then show ?thesis by simp
qed

lemma modify_ends:
  assumes "t_wf job_id (tb_scan_jobs db)" and "\<And>j. P j \<Longrightarrow> same_end j (f j)"
  shows "ends_kept db (db\<lparr>tb_scan_jobs := t_modify P f (tb_scan_jobs db)\<rparr>)"
proof -
  have "jobs_evolve same_end db (db\<lparr>tb_scan_jobs := t_modify P f (tb_scan_jobs db)\<rparr>)"
    by (rule jobs_evolve_modify) (use assms(2) in \<open>auto simp: same_end_def\<close>)
  moreover from this have "t_wf job_id (tb_scan_jobs (db\<lparr>tb_scan_jobs := t_modify P f (tb_scan_jobs db)\<rparr>))"
    by (rule jobs_evolve_wf) (use assms(1) in \<open>auto simp: same_end_def\<close>)
  ultimately show ?thesis by (simp add: ends_kept_def)
qed

lemma claim_ends:
  assumes wf: "t_wf job_id (tb_scan_jobs db)"
  shows "atomic_claim_job now i a db = Inr (db', r) \<Longrightarrow> ends_kept db db'"
    and "atomic_claim_central_job now i db = Inr (db', r) \<Longrightarrow> ends_kept db db'"
  using ends_kept_refl [OF wf]
  by (auto simp: atomic_claim_job_def atomic_claim_central_job_def rbind_Inr_iff Let_def same_end_def row_defs
      split: if_splits intro!: modify_ends [OF wf])

lemma control_ends: "run_step db db' \<Longrightarrow> t_wf job_id (tb_scan_jobs db) \<Longrightarrow> ends_kept db db'"
proof (induction rule: run_step.induct)
  case (agent_claim now jid a db db' r e)
  then show ?case by (cases rule: claim_for_agent_cases) (auto intro: ends_kept_refl claim_ends)
next
  case (fail_run now jid detail clear db db' c)
  then show ?case using failed_ends [OF ends_kept_refl] by blast
next
  case (cancel_run now jid detail clear db db' c)
  then show ?case using cancelled_ends [OF ends_kept_refl] by blast
qed (auto intro: claim_ends legacy_ends waiting_ends stuck_ends)

lemma control_survive: "run_step db db' \<Longrightarrow> t_wf job_id (tb_scan_jobs db) \<Longrightarrow> rows_survive db db'"
proof -
  assume step: "run_step db db'" and wf: "t_wf job_id (tb_scan_jobs db)"
  have "\<exists>k. get_job i db' = Some k \<and> run_survives j k" if j: "get_job i db = Some j" for i j
  proof -
    obtain k where k: "get_job i db' = Some k" "job_evolves j k"
      using jobs_evolve_get [OF step_evolves [OF step] _ j] by (auto simp: job_evolves_def)
    obtain k' where "get_job i db' = Some k'" "same_end j k'"
      using jobs_evolve_get [OF conjunct2 [OF control_ends [OF step wf, unfolded ends_kept_def]] _ j] by (auto simp: same_end_def)
    with k show ?thesis by (auto simp: run_survives_def job_persists_def job_evolves_def same_end_def)
  qed
  then show ?thesis using control_ends [OF step wf] by (simp add: rows_survive_def ends_kept_def)
qed

text \<open>The end of a run judges findings and leaves the table of runs alone.\<close>

lemma record_evaluation_jobs: "record_evaluation now i job outcome occ reason index db = (db', index', b) \<Longrightarrow> tb_scan_jobs db' = tb_scan_jobs db"
  by (auto simp: record_evaluation_def Let_def split: if_splits)

lemma resolve_jobs:
  assumes "resolve_if_threshold_reached now i job occ n det db = Inr db'"
  shows "tb_scan_jobs db' = tb_scan_jobs db"
proof (cases "get_finding i db")
  case (Some f)
  then show ?thesis using life_frame_reads resolve_steps [OF assms] by blast
qed (use assms in \<open>simp add: resolve_if_threshold_reached_def\<close>)

lemma finalize_one_jobs:
  assumes "finalize_one now job occ fallback detected c s = Inr t"
  shows "tb_scan_jobs (fst t) = tb_scan_jobs (fst s)"
proof (cases "fst c \<in> set detected")
  case True
  with assms show ?thesis
    by (auto simp: finalize_one_def evaluate_detected_def set_finding_def record_evaluation_jobs split: prod.splits bool.splits)
next
  case False
  have "tb_scan_jobs (set_finding i (one_more_clean occ) d) = tb_scan_jobs d" for i d by (simp add: set_finding_def)
  with False assms show ?thesis
    by (auto simp: finalize_one_def evaluate_clean_def rbind_Inr_iff record_evaluation_jobs split: prod.splits bool.splits option.splits
        dest!: resolve_jobs)
qed

lemma finalize_jobs:
  assumes "finalize_run_lifecycle now job db = Inr db'"
  shows "tb_scan_jobs db' = tb_scan_jobs db"
proof -
  obtain occ fallback detected cs index where "rfold (finalize_one now job occ fallback detected) cs (db, Some (build_index db job [])) = Inr (db', index)"
    using assms by (auto simp: finalize_run_lifecycle_def Let_def rbind_Inr_iff split: if_splits)
  then have "tb_scan_jobs (fst (db', index)) = tb_scan_jobs db"
    by (rule rfold_invariant [where P = "\<lambda>s. tb_scan_jobs (fst s) = tb_scan_jobs db"]) (auto dest: finalize_one_jobs)
  then show ?thesis by simp
qed

lemma finished_survives: "run_survives j (j\<lparr>job_finished_at := t\<rparr>)"
  by (auto simp: run_survives_def job_persists_def is_terminal_def)

lemma complete_run_survive:
  assumes wf: "t_wf job_id (tb_scan_jobs db)" and run: "complete_scan_run now i ok error db = Inr db'"
    and guard: "ok \<Longrightarrow> \<exists>j. get_job i db = Some j \<and> running j"
  shows "rows_survive db db'"
proof -
  obtain job where job: "get_job i db = Some job" using run by (auto simp: complete_scan_run_def split: option.splits)
  let ?finish = "\<lambda>j. j\<lparr>job_finished_at := Some now\<rparr> :: scan_job"
  show ?thesis
  proof (cases ok)
    case False
    let ?detail = "if str_or error \<noteq> [] then str_or error else ''scan failed''"
    obtain db1 c where t: "(if is_cancel_completion job ?detail then transition_job_to_cancelled now i ?detail False db
             else transition_job_to_failed now i ?detail False db) = Inr (db1, c)" and db': "db' = set_job i ?finish db1"
      using run job False by (auto simp: complete_scan_run_def rbind_Inr_iff Let_def)
    have "run_step db db1"
      using t run_step.cancel_run run_step.fail_run by (cases "is_cancel_completion job ?detail") (simp_all only: if_True if_False)
    then have one: "rows_survive db db1" using wf by (rule control_survive)
    then have "rows_survive db1 db'" unfolding db'
      by (intro rows_survive_set) (simp_all add: rows_survive_def finished_survives)
    with one show ?thesis by (rule rows_survive_trans)
  next
    case True
    let ?done = "\<lambda>j. j\<lparr>job_status := JOB_DONE, job_error := error\<rparr> :: scan_job"
    obtain db1 where f: "finalize_run_lifecycle now (?finish job) (set_job i ?finish db) = Inr db1"
      and db': "db' = set_job i ?done db1"
      using run job True by (auto simp: complete_scan_run_def rbind_Inr_iff Let_def split: if_splits)
    have one: "rows_survive db (set_job i ?finish db)"
      using wf by (rule rows_survive_set) (simp_all add: finished_survives)
    have jobs: "tb_scan_jobs db1 = tb_scan_jobs (set_job i ?finish db)" using f by (rule finalize_jobs)
    have two: "rows_survive (set_job i ?finish db) db1"
      using jobs one by (intro rows_survive_same) (simp_all add: rows_survive_def)
    have "running job" using guard [OF True] job by simp
    then have running: "running k" if "get_job i db1 = Some k" for k
      using that jobs get_set_job [of ?finish i i db] job by (auto simp: get_job_def)
    have "run_survives k (?done k)" if "get_job i db1 = Some k" for k
      using running [OF that] by (auto simp: run_survives_def job_persists_def is_terminal_def)
    then have "rows_survive db1 db'" unfolding db'
      using two by (intro rows_survive_set) (simp_all add: rows_survive_def)
    with rows_survive_trans [OF one two] show ?thesis by (rule rows_survive_trans)
  qed
qed

text \<open>The writes of a worker touch neither the status nor the identity of a run.\<close>

lemma plain_row_write:
  "run_survives j (merge_into_run txt incoming j)" "run_survives j (j\<lparr>job_runtime_provenance := p\<rparr>)"
  "run_survives j (j\<lparr>job_findings_count := c\<rparr>)" "run_survives j (j\<lparr>job_hosts_found := c\<rparr>)"
  "run_survives j (apply_worker_progress txt now body activity j)" "run_survives j (declare_raw_evidence txt st keys j)"
  by (simp_all add: run_survives_def job_persists_def merge_into_run_def is_terminal_def apply_worker_progress_def
      record_job_progress_def declare_raw_evidence_def Let_def)

lemma row_write_id:
  "run_survives j k \<Longrightarrow> job_id k = job_id j"
  by (simp add: run_survives_def job_persists_def)

lemma worker_write_survive:
  assumes "t_wf job_id (tb_scan_jobs db)" and "worker_write now i worker f db = Inr db'" and "\<And>j. run_survives j (f j)"
  shows "rows_survive db db'"
  using assms by (auto simp: worker_write_def rbind_Inr_iff intro!: rows_survive_set dest: row_write_id)

lemma owned_job_Inr: "owned_job now i worker ok db = Inr j \<Longrightarrow> get_job i db = Some j \<and> (ok \<longrightarrow> running j)"
  by (auto simp: owned_job_def require_owned_run_for_persist_def split: option.splits sum.splits run_error.splits if_splits)

lemma complete_job_survive:
  assumes wf: "t_wf job_id (tb_scan_jobs db)" and run: "complete_job txt accepted now i worker ok error declaration db = Inr db'"
  shows "rows_survive db db'"
proof -
  obtain j where j: "get_job i db = Some j" "ok \<Longrightarrow> running j"
    and rest: "(if \<not> ok then complete_scan_run now i ok error db
       else if \<not> accepted j declaration then Inl (HttpError 409 ''Raw evidence or versions refused'')
       else complete_scan_run now i ok error (set_job i (declare_raw_evidence txt (fst declaration) (snd declaration)) db)) = Inr db'"
    using run owned_job_Inr by (auto simp: complete_job_def rbind_Inr_iff)
  show ?thesis
  proof (cases ok)
    case False
    then show ?thesis using rest complete_run_survive [OF wf, of now i ok error db'] by simp
  next
    case True
    let ?note = "declare_raw_evidence txt (fst declaration) (snd declaration)"
    have one: "rows_survive db (set_job i ?note db)"
      using wf by (rule rows_survive_set) (simp_all add: plain_row_write row_write_id [OF plain_row_write(6)])
    have "get_job i (set_job i ?note db) = Some (?note j)"
      using j(1) by (simp add: get_set_job row_write_id [OF plain_row_write(6)])
    moreover have "running (?note j)" using j(2) True by (simp add: declare_raw_evidence_def merge_into_run_def)
    moreover have "complete_scan_run now i ok error (set_job i ?note db) = Inr db'" using rest True by (simp split: if_splits)
    ultimately have "rows_survive (set_job i ?note db) db'"
      using one by (intro complete_run_survive [where ok = ok and i = i]) (auto simp: rows_survive_def)
    with one show ?thesis by (rule rows_survive_trans)
  qed
qed

lemma create_run_survive:
  assumes wf: "t_wf job_id (tb_scan_jobs db)" and run: "create_run now p healthy db = Inr (db', i)"
  shows "rows_survive db db' \<and> get_job i db = None \<and> (\<exists>j. get_job i db' = Some j \<and> \<not> is_terminal j \<and> \<not> running j)"
proof -
  obtain snapshot where db': "db' = db\<lparr>tb_scan_jobs := t_insert (new_run now p snapshot (run_status p healthy now)) (tb_scan_jobs db)\<rparr>"
      and i: "i = t_next (tb_scan_jobs db)"
    using run by (auto simp: create_run_def rbind_Inr_iff split: if_splits)
  let ?mk = "new_run now p snapshot (run_status p healthy now)"
  have id: "job_id (?mk n) = n" for n by (simp add: new_run_def)
  have fresh: "get_job i db = None" using t_wf_fresh [OF wf] by (simp add: get_job_def i)
  have get: "get_job k db' = (case get_job k db of None \<Rightarrow> if k = i then Some (?mk i) else None | Some j \<Rightarrow> Some j)" for k
    by (auto simp: get_job_def t_get_def t_first_insert db' i id split: option.splits)
  have "t_wf job_id (tb_scan_jobs db')"
    using wf by (auto simp: t_wf_def db' id list_all_iff)
  then have "rows_survive db db'" by (auto simp: rows_survive_def get)
  moreover have "\<not> is_terminal (?mk i) \<and> \<not> running (?mk i)"
    by (auto simp: new_run_def run_status_def initial_job_status_def is_terminal_def)
  ultimately show ?thesis using fresh get [of i] by simp
qed

lemma write_survives:
  assumes "run_write db db'" and wf: "t_wf job_id (tb_scan_jobs db)"
  shows "rows_survive db db'"
  using assms(1)
proof cases
  case (control_write)
  then show ?thesis using wf by (rule control_survive)
next
  case (create_write now p healthy i)
  then show ?thesis using create_run_survive [OF wf] by blast
next
  case (claim_noted pt i who)
  from wf show ?thesis unfolding claim_noted note_claim_def
    by (rule rows_survive_set) (simp_all add: plain_row_write row_write_id [OF plain_row_write(1)])
next
  case (progress_write pt now i worker body)
  from worker_write_survive [OF wf progress_write [unfolded post_progress_def]] show ?thesis by (simp add: plain_row_write)
next
  case (heartbeat_write pt now i worker progress activity)
  from wf have "rows_survive db (set_job i (apply_worker_progress pt now progress activity) db)"
    by (rule rows_survive_set) (simp_all add: plain_row_write row_write_id [OF plain_row_write(5)])
  then show ?thesis using rows_survive_same [OF wf] by (auto simp: heartbeat_write heartbeat_progress_def split: option.splits)
next
  case (provenance_write pt now i worker body)
  from worker_write_survive [OF wf provenance_write [unfolded post_provenance_def]] show ?thesis by (simp add: plain_row_write)
next
  case (findings_write now i worker added)
  from worker_write_survive [OF wf findings_write [unfolded count_findings_def]] show ?thesis by (simp add: plain_row_write)
next
  case (hosts_write now i worker)
  from worker_write_survive [OF wf hosts_write [unfolded count_hosts_def]] show ?thesis by (simp add: plain_row_write)
next
  case (complete_write pt accepted now i worker ok err dc)
  with wf show ?thesis by (rule complete_job_survive)
next
  case elsewhere
  with wf show ?thesis by (rule rows_survive_same)
qed

lemma history_survives:
  assumes "run_write\<^sup>*\<^sup>* db db'" and "t_wf job_id (tb_scan_jobs db)"
  shows "rows_survive db db'"
  using assms(1)
proof (induction rule: rtranclp_induct)
  case base
  show ?case using assms(2) by (rule rows_survive_same) simp
next
  case (step y z)
  have "t_wf job_id (tb_scan_jobs y)" using step.IH by (simp add: rows_survive_def)
  with step.hyps(2) have "rows_survive y z" by (rule write_survives)
  with step.IH show ?case by (rule rows_survive_trans)
qed

subsection \<open>Properties\<close>

text \<open>C5: Whatever is written to the table of runs next, a finished run never restarts. In every sequence
  of claims, failures, cancellations, sweeps of the scheduler, creations of runs, notes of a claim,
  progress, heartbeats, provenance, counters and completions with their guards, interleaved with any
  work that leaves the table alone, every run keeps its row, its tenant, its scan and its execution
  snapshot; a run that is done, failed, cancelled or missed is never queued or running again; and a
  failed or cancelled run keeps exactly that status, so that no worker can still complete it.\<close>

theorem finished_runs_never_restart:
  assumes "run_write\<^sup>*\<^sup>* db db'" and "t_wf job_id (tb_scan_jobs db)" and "get_job i db = Some j"
  shows "\<exists>k. get_job i db' = Some k \<and> job_tenant_id k = job_tenant_id j \<and> job_scan_id k = job_scan_id j \<and>
    job_execution_snapshot k = job_execution_snapshot j \<and>
    (is_terminal j \<longrightarrow> job_status k \<in> {JOB_DONE, JOB_FAILED, JOB_CANCELLED, JOB_MISSED}) \<and>
    (job_status j \<in> {JOB_FAILED, JOB_CANCELLED} \<longrightarrow> job_status k = job_status j)"
proof -
  obtain k where "get_job i db' = Some k" "run_survives j k"
    using history_survives [OF assms(1,2)] assms(3) by (auto simp: rows_survive_def)
  then show ?thesis by (auto simp: run_survives_def job_persists_def is_terminal_def)
qed

subsection \<open>Witness\<close>

definition failed_world :: db where
  "failed_world = job_world [sample_job\<lparr>job_status := JOB_FAILED, job_claimed_by := Some CENTRAL_WORKER\<rparr>]"

definition late_progress :: "app_error + db" where
  "late_progress = post_progress (\<lambda>_. []) 7 1 CENTRAL_WORKER [(''stage'', JStr ''upload'')] failed_world"

definition late_completion :: "app_error + db" where
  "late_completion = rbind late_progress (complete_job (\<lambda>_. []) (\<lambda>_ _. True) 9 1 CENTRAL_WORKER False (Some ''too late'') ([], []))"

theorem finished_runs_never_restart_witness:
  "\<exists>db' k. late_completion = Inr db' \<and> get_job 1 db' = Some k \<and> job_status k = JOB_FAILED"
proof -
  have "\<not> isl late_completion" by code_simp
  then have "late_completion = Inr (projr late_completion)" by (rule sum.collapse(2) [symmetric])
  then obtain db' where db': "late_completion = Inr db'" by (rule that)
  then obtain db1 where db1: "late_progress = Inr db1"
      "complete_job (\<lambda>_. []) (\<lambda>_ _. True) 9 1 CENTRAL_WORKER False (Some ''too late'') ([], []) db1 = Inr db'"
    using db' unfolding late_completion_def rbind_Inr_iff by blast
  have "run_write failed_world db1" using db1(1) unfolding late_progress_def by (rule progress_write)
  moreover have "run_write db1 db'" using db1(2) by (rule complete_write)
  ultimately have history: "run_write\<^sup>*\<^sup>* failed_world db'" by simp
  have wf: "t_wf job_id (tb_scan_jobs failed_world)" by code_simp
  have row: "get_job 1 failed_world = Some (sample_job\<lparr>job_status := JOB_FAILED, job_claimed_by := Some CENTRAL_WORKER\<rparr>)"
    by code_simp
  from finished_runs_never_restart [OF history wf row] db' show ?thesis by auto
qed

end
