(* ===== verification/Spec2Isabelle.thy ===== *)
theory Spec2Isabelle
  imports Jobs Locality Policy_Store Policy_Apply Priority Compliance Treatments Finding_Lifecycle Throttle Alert_Delivery Run_History
begin

text \<open>
  This library models the Python backend of the dashboard, \<^verbatim>\<open>src/backend/app\<close>: a multi-tenant inventory
  of assets and of the vulnerability findings that scan runs report on them. The database is the
  record \<open>db\<close> (theory Models) with one table per ORM class; a table (theory Table) is the list of its rows
  and the next primary key. A service function becomes a definition that takes the current time and
  the database and returns the database after it, in a sum type where the Python code can raise:
  \<open>Inl\<close> the exception, \<open>Inr\<close> the result. A request that raises is rolled back by its session, so an
  error carries no database. Texts are \<open>string\<close>, timestamps are seconds (\<open>time\<close>), JSON columns are the
  datatype \<open>json\<close>, and \<open>rbind\<close>, \<open>rfold\<close> compose fallible steps.

  \<^bold>\<open>Parts and how they depend on each other.\<close>

    \<^item> \<^verbatim>\<open>Prelude\<close>, \<^verbatim>\<open>Table\<close>, \<^verbatim>\<open>Constants\<close>, \<^verbatim>\<open>Models\<close>, \<^verbatim>\<open>Calendar\<close>, \<^verbatim>\<open>Settings\<close>, \<^verbatim>\<open>Samples\<close>: Python's text, JSON and
      list primitives, tables, the token sets and ORM classes of \<^verbatim>\<open>models.py\<close>, ISO dates, the settings
      store, and the small databases of the witnesses.
    \<^item> \<^verbatim>\<open>Events\<close>, \<^verbatim>\<open>Services\<close>: \<^verbatim>\<open>events.py\<close> (domain events, their locality checks and the outbox) and the
      audit log. Every service writes through them; \<open>emit_frame\<close> and \<open>emit_tables\<close> say which tables they touch.
    \<^item> \<^verbatim>\<open>Jobs\<close>: \<^verbatim>\<open>jobs.py\<close>, \<^verbatim>\<open>job_control.py\<close>, \<^verbatim>\<open>scan_dispatch.py\<close>, \<^verbatim>\<open>scheduler.py\<close>, \<^verbatim>\<open>scan_execution.py\<close>: the states
      of a scan run as the step relation \<open>run_step\<close>; at most one running job per agent, and a stuck run is
      cancelled by two scheduler passes.
    \<^item> \<^verbatim>\<open>Run_History\<close>: every other writer of a run row (\<^verbatim>\<open>create_run\<close>, \<^verbatim>\<open>job_progress.py\<close>, provenance, counters and
      the completion of \<^verbatim>\<open>routers/scanner_api.py\<close> and \<^verbatim>\<open>routers/agent_api.py\<close> with its guard). \<open>run_write\<close> adds them to
      \<open>run_step\<close>, and adds any work that leaves the table of runs alone: a finished run never restarts.
    \<^item> \<^verbatim>\<open>Ip\<close>, \<^verbatim>\<open>Classify\<close>, \<^verbatim>\<open>Locality\<close>: addresses, \<^verbatim>\<open>classify.py\<close>, and \<^verbatim>\<open>locality.py\<close> (which agent may scan
      which network of which site).
    \<^item> \<^verbatim>\<open>Policy_Rules\<close>, \<^verbatim>\<open>Policy_Engine\<close>, \<^verbatim>\<open>Policy_Store\<close>, \<^verbatim>\<open>Policy_Apply\<close>: \<^verbatim>\<open>policy.py\<close> and \<^verbatim>\<open>lifecycle.py\<close>: validation
      of rules (idempotent), evaluation (the most specific rule wins, and the result explains every
      rule), revisions of stored rules, and their application to assets.
    \<^item> \<^verbatim>\<open>Priority\<close>, \<^verbatim>\<open>Compliance\<close>, \<^verbatim>\<open>Treatments\<close>: \<^verbatim>\<open>intel/priority.py\<close> (the score adds up and is monotone),
      \<^verbatim>\<open>compliance.py\<close> (control mappings) and \<^verbatim>\<open>treatments.py\<close>, whose requests refine the abstract plan
      \<open>spec_step\<close>: per finding, the treatments with their status, and at most one of them active.
    \<^item> \<^verbatim>\<open>Sha256\<close>, \<^verbatim>\<open>Finding_Identity\<close>, \<^verbatim>\<open>Finding_Index\<close>, \<^verbatim>\<open>Finding_State\<close>, \<^verbatim>\<open>Finding_Catalog\<close>, \<^verbatim>\<open>Finding_Lifecycle\<close>:
      \<^verbatim>\<open>finding_lifecycle.py\<close> and \<^verbatim>\<open>finding_ingest.py\<close>: from the report of a detector to evidence, catalogue
      entry and finding, and the verdicts at the end of a run. \<open>findings_ok\<close> is the invariant of the
      finding tables, \<open>lifecycle_step\<close> the requests that change them, \<open>verdict\<close> the specification of the
      end of a run, \<open>index_ok\<close> the agreement of the per-run cache with the database.

    \<^item> \<^verbatim>\<open>Access\<close>, \<^verbatim>\<open>Throttle\<close>: \<^verbatim>\<open>access.py\<close> and the account requests of \<^verbatim>\<open>routers/users.py\<close> (who sees which tenant;
      \<open>accounts_ok\<close> is kept by every \<open>account_step\<close>); \<^verbatim>\<open>auth_throttle.py\<close>, \<^verbatim>\<open>agent_challenges.py\<close> and the login
      of \<^verbatim>\<open>routers/auth.py\<close> (the logins of an address in a window are bounded, a nonce is good for one use).
      Password hashes, tokens and random numbers are parameters.

    \<^item> \<^verbatim>\<open>Alerts\<close>, \<^verbatim>\<open>Alert_Delivery\<close>: \<^verbatim>\<open>alert_engine.py\<close>, \<^verbatim>\<open>emailer.py\<close> and the alert requests: the queue of
      events (\<open>alerts_ok\<close>: routed once, counted exactly), the deliveries under a lease (bounded, and over once
      sent), as runs of passes, crashes and requests in any order. SMTP and HTTP are parameters.

    \<^item> \<^verbatim>\<open>Networks\<close>, \<^verbatim>\<open>Net_Text\<close>, \<^verbatim>\<open>Exclusions\<close>, \<^verbatim>\<open>Wan_Targets\<close>, \<^verbatim>\<open>Scan_Config\<close>, \<^verbatim>\<open>Scan_Snapshot\<close>: what a scan may
      touch. The networks of Python's \<^verbatim>\<open>ipaddress\<close> as sets of addresses, and their texts (which parse back);
      \<^verbatim>\<open>scan_exclusions.py\<close> (subtraction is the set difference), \<^verbatim>\<open>wan_targets.py\<close> (targets are public
      addresses), \<^verbatim>\<open>scan_stages.py\<close> and \<^verbatim>\<open>scan_intensity.py\<close> (normal forms, caps), and \<^verbatim>\<open>scan_snapshot.py\<close>,
      \<^verbatim>\<open>scan_security.py\<close>: the targets a worker gets hold no excluded address. Name resolution is a
      parameter.

  \<^bold>\<open>Interfaces.\<close> The locale \<open>keyed\<close> (tables by key), \<open>insert_once\<close> (an insertion guarded by a key) and
  \<open>cached_query\<close> (a cache of row ids in front of a query) state the contracts of the tables, of the
  idempotent emitters and of the run index; each is interpreted on the definitions of its provider.

  \<^bold>\<open>Session and database semantics.\<close> The session is created with \<open>autoflush=False\<close>: a query does not see
  pending changes, and where that matters (treatments that change status in one flush, assets that
  are merged) the definitions keep the pending rows apart. A flush emits UPDATEs in primary-key order
  and before DELETEs; unique and foreign keys are checked by each statement. Row locks
  (\<open>with_for_update\<close>) make a request atomic, so requests are steps of a relation, in any order.

  \<^bold>\<open>Loops.\<close> Loops over lists are recursion on the list. The walk along merged assets and the glob matcher
  have measures (assets not visited, length). The \<open>while True\<close> of the reconciliation has fuel, one more
  than the assets, and \<open>reconciliation_batches_invisible\<close> shows that it ends within it.

  \<^bold>\<open>Not modelled.\<close> The web layer (\<^verbatim>\<open>routers/\<close>, schemas of requests) apart from the router functions
  named in the manifest, cryptography, mail, PDF and CSV export, the compose generator,
  migrations, the sync of external intelligence feeds, correlation and merging of
  assets, report queries, and the scanner processes (\<^verbatim>\<open>scan_runtime/\<close>, \<^verbatim>\<open>agent/\<close>); the manifest names
  each with the reason. Floats (CVSS and EPSS scores) are rationals, which are compared exactly;
  the \<open>repr\<close> of floats and containers is left out. \<open>str.isdigit\<close> and the case functions are those of ASCII
  text.
\<close>

end
